(* ===== verification/Prelude.thy ===== *)
theory Prelude
  imports Complex_Main "HOL-Library.Multiset" "HOL-Library.List_Lexorder" "HOL-Library.Char_ord"
begin

text \<open>
  Shared vocabulary of the development: results of fallible code, the JavaScript values the
  sources inspect at run time (numbers, strings, arrays, plain objects), the fragments of the
  standard library they call (\<open>trim\<close>, \<open>toLowerCase\<close>, \<open>BigInt\<close>, \<open>toString\<close>,
  \<open>Number.isSafeInteger\<close>, \<open>Array.prototype.find\<close>, stable \<open>sort\<close>), and the generic lemmas
  the component theories rest on.

  Strings are lists of UTF-16 code units restricted to U+0000--U+00FF (HOL's \<^typ>\<open>char\<close>);
  on that range \<open>toLowerCase\<close> and \<open>trim\<close> below are the ECMAScript functions.  A JavaScript
  \<open>bigint\<close> is an \<^typ>\<open>int\<close>.  A \<open>number\<close> that the sources only compare, test or round to an
  integer is a \<open>number\<close>: NaN, an infinity or an exact rational.
\<close>

section \<open>Results of fallible code\<close>

text \<open>\<open>Inl e\<close> is a thrown error, \<open>Inr x\<close> a normal result.\<close>

named_theorems result_simps \<open>equations of the result combinators\<close>
named_theorems result_elims \<open>destruction of successful results\<close>

definition bindR :: "'e + 'a \<Rightarrow> ('a \<Rightarrow> 'e + 'b) \<Rightarrow> 'e + 'b" where
  "bindR m f = (case m of Inl e \<Rightarrow> Inl e | Inr x \<Rightarrow> f x)"

definition guardR :: "bool \<Rightarrow> 'e \<Rightarrow> 'e + unit" where
  "guardR ok e = (if ok then Inr () else Inl e)"

fun mapR :: "('a \<Rightarrow> 'e + 'b) \<Rightarrow> 'a list \<Rightarrow> 'e + 'b list" where
  "mapR f [] = Inr []"
| "mapR f (x # xs) =
     bindR (f x) (\<lambda>y. bindR (mapR f xs) (\<lambda>ys. Inr (y # ys)))"

lemma bindR_simps [simp, result_simps]:
  "bindR (Inl e) f = Inl e"
  "bindR (Inr x) f = f x"
  by (simp_all add: bindR_def)

lemma bindR_Inr_iff [result_elims]:
  "bindR m f = Inr y \<longleftrightarrow> (\<exists>x. m = Inr x \<and> f x = Inr y)"
  by (cases m) simp_all

lemma bindR_Inl_iff:
  "bindR m f = Inl e \<longleftrightarrow> m = Inl e \<or> (\<exists>x. m = Inr x \<and> f x = Inl e)"
  by (cases m) simp_all

lemma guardR_simps [simp, result_simps]:
  "guardR True e = Inr ()"
  "guardR False e = Inl e"
  by (simp_all add: guardR_def)

lemma guardR_Inr_iff [simp, result_elims]: "guardR ok e = Inr u \<longleftrightarrow> ok"
  by (simp add: guardR_def)

lemma guardR_Inl_iff [simp]: "guardR ok e = Inl e' \<longleftrightarrow> \<not> ok \<and> e' = e"
  by (auto simp: guardR_def)

lemma mapR_Inr_length: "mapR f xs = Inr ys \<Longrightarrow> length ys = length xs"
  by (induction xs arbitrary: ys) (auto simp: bindR_Inr_iff)

lemma mapR_Inr_nth: "mapR f xs = Inr ys \<Longrightarrow> list_all2 (\<lambda>x y. f x = Inr y) xs ys"
  by (induction xs arbitrary: ys) (auto simp: bindR_Inr_iff)

lemma mapR_eq_Inr_iff: "mapR f xs = Inr ys \<longleftrightarrow> list_all2 (\<lambda>x y. f x = Inr y) xs ys"
  by (induction xs arbitrary: ys) (auto simp: bindR_Inr_iff list_all2_Cons1)

lemma mapR_cong_Inr: "(\<And>x. x \<in> set xs \<Longrightarrow> f x = Inr (g x)) \<Longrightarrow> mapR f xs = Inr (map g xs)"
  by (induction xs) simp_all

section \<open>Numbers\<close>

text \<open>The summand of a count.\<close>

abbreviation one_if :: "bool \<Rightarrow> int" where
  "one_if b \<equiv> if b then 1 else 0"

datatype number = NaN | PosInf | NegInf | Fin rat

text \<open>\<open>Number.MAX_SAFE_INTEGER\<close> is $2^{53} - 1$.\<close>

definition max_safe_integer :: int where
  "max_safe_integer = 9007199254740991"

fun isSafeInteger :: "number \<Rightarrow> bool" where
  "isSafeInteger (Fin q) \<longleftrightarrow> of_int \<lfloor>q\<rfloor> = q \<and> \<bar>\<lfloor>q\<rfloor>\<bar> \<le> max_safe_integer"
| "isSafeInteger _ \<longleftrightarrow> False"

fun isFiniteNum :: "number \<Rightarrow> bool" where
  "isFiniteNum (Fin q) \<longleftrightarrow> True"
| "isFiniteNum _ \<longleftrightarrow> False"

text \<open>The integer value of a number that passed \<open>isSafeInteger\<close> (\<open>BigInt(value)\<close>).\<close>

fun num_to_int :: "number \<Rightarrow> int" where
  "num_to_int (Fin q) = \<lfloor>q\<rfloor>"
| "num_to_int _ = 0"

abbreviation num_of_int :: "int \<Rightarrow> number" where
  "num_of_int i \<equiv> Fin (of_int i)"

fun num_pos :: "number \<Rightarrow> bool" where
  "num_pos (Fin q) \<longleftrightarrow> q > 0"
| "num_pos PosInf \<longleftrightarrow> True"
| "num_pos _ \<longleftrightarrow> False"

fun num_nonneg :: "number \<Rightarrow> bool" where
  "num_nonneg (Fin q) \<longleftrightarrow> q \<ge> 0"
| "num_nonneg PosInf \<longleftrightarrow> True"
| "num_nonneg _ \<longleftrightarrow> False"

text \<open>\<open>Math.floor\<close> and \<open>Math.max(1, x)\<close>; both return NaN on NaN.\<close>

fun math_floor :: "number \<Rightarrow> number" where
  "math_floor (Fin q) = Fin (of_int \<lfloor>q\<rfloor>)"
| "math_floor x = x"

fun math_max1 :: "number \<Rightarrow> number" where
  "math_max1 (Fin q) = Fin (max 1 q)"
| "math_max1 PosInf = PosInf"
| "math_max1 NegInf = Fin 1"
| "math_max1 NaN = NaN"

text \<open>\<open>maxUint256\<close> of viem, $2^{256} - 1$.\<close>

definition maxUint256 :: int where
  "maxUint256 = 2 ^ 256 - 1"

lemma isSafeInteger_of_int [simp]:
  "isSafeInteger (num_of_int i) \<longleftrightarrow> \<bar>i\<bar> \<le> max_safe_integer"
  by simp

lemma math_max1_floor_safe:
  assumes "isSafeInteger x" and "num_pos x"
  shows "math_max1 (math_floor x) = num_of_int (num_to_int x)"
proof (cases x)
  case (Fin q)
  with assms obtain n where "q = of_int n" and "q > 0" by auto
  with Fin show ?thesis by (auto simp: max_def)
qed (use assms in auto)

lemma num_to_int_pos:
  assumes "isSafeInteger x" and "num_pos x"
  shows "0 < num_to_int x"
proof (cases x)
  case (Fin q)
  with assms obtain n where "q = of_int n" and "q > 0" by auto
  with Fin show ?thesis by simp
qed (use assms in auto)

section \<open>Strings\<close>

definition char_code :: "char \<Rightarrow> nat" where
  "char_code c = of_char c"

text \<open>The white space and line terminators of ECMAScript within U+0000--U+00FF.\<close>

definition js_space :: "char \<Rightarrow> bool" where
  "js_space c \<longleftrightarrow> char_code c \<in> {9, 10, 11, 12, 13, 32, 160}"

definition trim :: "string \<Rightarrow> string" where
  "trim s = rev (dropWhile js_space (rev (dropWhile js_space s)))"

definition lower_char :: "char \<Rightarrow> char" where
  "lower_char c =
     (let n = char_code c
      in if (65 \<le> n \<and> n \<le> 90) \<or> (192 \<le> n \<and> n \<le> 222 \<and> n \<noteq> 215)
         then char_of (n + 32) else c)"

definition toLowerCase :: "string \<Rightarrow> string" where
  "toLowerCase s = map lower_char s"

definition is_digit :: "char \<Rightarrow> bool" where
  "is_digit c \<longleftrightarrow> 48 \<le> char_code c \<and> char_code c \<le> 57"

definition digit_val :: "char \<Rightarrow> nat" where
  "digit_val c = char_code c - 48"

definition is_lower_hex :: "char \<Rightarrow> bool" where
  "is_lower_hex c \<longleftrightarrow> is_digit c \<or> (97 \<le> char_code c \<and> char_code c \<le> 102)"

definition is_hex :: "char \<Rightarrow> bool" where
  "is_hex c \<longleftrightarrow> is_lower_hex c \<or> (65 \<le> char_code c \<and> char_code c \<le> 70)"

definition hex_val :: "char \<Rightarrow> nat" where
  "hex_val c =
     (if is_digit c then char_code c - 48
      else if is_lower_hex c then char_code c - 87 else char_code c - 55)"

text \<open>\<open>BigInt\<close> of a string of decimal or of hexadecimal digits.\<close>

definition dec_value :: "string \<Rightarrow> int" where
  "dec_value s = foldl (\<lambda>n c. 10 * n + int (digit_val c)) 0 s"

definition hex_value :: "string \<Rightarrow> int" where
  "hex_value s = foldl (\<lambda>n c. 16 * n + int (hex_val c)) 0 s"

text \<open>\<open>bigint.toString()\<close> of a non-negative value.\<close>

definition digit_char :: "nat \<Rightarrow> char" where
  "digit_char d = char_of (48 + d)"

fun show_nat :: "nat \<Rightarrow> string" where
  "show_nat n = (if n < 10 then [digit_char n] else show_nat (n div 10) @ [digit_char (n mod 10)])"

declare show_nat.simps [simp del]

definition show_int :: "int \<Rightarrow> string" where
  "show_int i = (if i < 0 then ''-'' @ show_nat (nat (- i)) else show_nat (nat i))"

text \<open>\<open>/^(0|[1-9][0-9]*)$/\<close> and \<open>/^[1-9][0-9]*$/\<close>.\<close>

fun positive_integer_pattern :: "string \<Rightarrow> bool" where
  "positive_integer_pattern [] \<longleftrightarrow> False"
| "positive_integer_pattern (c # cs) \<longleftrightarrow>
     is_digit c \<and> c \<noteq> CHR ''0'' \<and> list_all is_digit cs"

definition non_negative_integer_pattern :: "string \<Rightarrow> bool" where
  "non_negative_integer_pattern s \<longleftrightarrow> s = ''0'' \<or> positive_integer_pattern s"

text \<open>\<open>/^0x[0-9a-fA-F]+$/\<close>.\<close>

definition hex_pattern :: "string \<Rightarrow> bool" where
  "hex_pattern s \<longleftrightarrow> take 2 s = ''0x'' \<and> drop 2 s \<noteq> [] \<and> list_all is_hex (drop 2 s)"

subsection \<open>Decimal printing and parsing\<close>

lemma char_code_digit_char: "d < 10 \<Longrightarrow> char_code (digit_char d) = 48 + d"
  by (simp add: digit_char_def char_code_def)

lemma is_digit_digit_char: "d < 10 \<Longrightarrow> is_digit (digit_char d)"
  by (simp add: is_digit_def char_code_digit_char)

lemma digit_val_digit_char: "d < 10 \<Longrightarrow> digit_val (digit_char d) = d"
  by (simp add: digit_val_def char_code_digit_char)

lemma digit_char_nonzero: "0 < d \<Longrightarrow> d < 10 \<Longrightarrow> digit_char d \<noteq> CHR ''0''"
  using char_code_digit_char [of d] by (auto simp: char_code_def)

lemma show_nat_nonempty [simp]: "show_nat n \<noteq> []"
  by (subst show_nat.simps) simp

lemma show_nat_digits: "list_all is_digit (show_nat n)"
proof (induction n rule: show_nat.induct)
  case (1 n)
  then show ?case
    by (subst show_nat.simps) (auto simp: is_digit_digit_char)
qed

lemma dec_value_snoc: "dec_value (s @ [c]) = 10 * dec_value s + int (digit_val c)"
  by (simp add: dec_value_def)

lemma dec_value_show_nat [simp]: "dec_value (show_nat n) = int n"
proof (induction n rule: show_nat.induct)
  case (1 n)
  show ?case
  proof (cases "n < 10")
    case True
    then show ?thesis
      by (subst show_nat.simps) (simp add: dec_value_def digit_val_digit_char)
  next
    case False
    with 1 have "dec_value (show_nat (n div 10)) = int (n div 10)" by simp
    moreover have "10 * int (n div 10) + int (n mod 10) = int n"
      by (metis mult_div_mod_eq of_nat_add of_nat_mult of_nat_numeral)
    ultimately show ?thesis
      using False by (simp add: show_nat.simps [of n] dec_value_snoc digit_val_digit_char)
  qed
qed

lemma hd_show_nat: "0 < n \<Longrightarrow> is_digit (hd (show_nat n)) \<and> hd (show_nat n) \<noteq> CHR ''0''"
proof (induction n rule: show_nat.induct)
  case (1 n)
  show ?case
  proof (cases "n < 10")
    case True
    with "1.prems" show ?thesis
      by (subst (1 2) show_nat.simps) (simp add: is_digit_digit_char digit_char_nonzero)
  next
    case False
    with "1.IH" have "is_digit (hd (show_nat (n div 10))) \<and> hd (show_nat (n div 10)) \<noteq> CHR ''0''"
      by simp
    with False show ?thesis by (subst (1 2) show_nat.simps) simp
  qed
qed

lemma positive_pattern_show_nat:
  assumes "0 < n"
  shows "positive_integer_pattern (show_nat n)"
proof (cases "show_nat n")
  case (Cons c cs)
  with hd_show_nat [OF assms] show_nat_digits [of n] show ?thesis by simp
qed simp

lemma non_negative_pattern_show_nat: "non_negative_integer_pattern (show_nat n)"
proof (cases "n = 0")
  case True
  have "char_of (48::nat) = CHR ''0''" by code_simp
  with True show ?thesis
    by (simp add: non_negative_integer_pattern_def show_nat.simps [of 0] digit_char_def)
next
  case False
  then show ?thesis
    by (simp add: non_negative_integer_pattern_def positive_pattern_show_nat)
qed

lemma foldl_dec_nonneg: "0 \<le> a \<Longrightarrow> 0 \<le> foldl (\<lambda>n c. 10 * n + int (digit_val c)) a s"
  by (induction s arbitrary: a) simp_all

lemma foldl_dec_mono: "0 \<le> a \<Longrightarrow> a \<le> foldl (\<lambda>n c. 10 * n + int (digit_val c)) a s"
proof (induction s arbitrary: a)
  case (Cons c s)
  from Cons.prems have "a \<le> 10 * a + int (digit_val c)" by simp
  also have "\<dots> \<le> foldl (\<lambda>n c. 10 * n + int (digit_val c)) (10 * a + int (digit_val c)) s"
    using Cons.prems by (intro Cons.IH) simp
  finally show ?case by simp
qed simp

lemma dec_value_nonneg: "0 \<le> dec_value s"
  by (simp add: dec_value_def foldl_dec_nonneg)

lemma digit_val_pos: "is_digit c \<Longrightarrow> c \<noteq> CHR ''0'' \<Longrightarrow> 0 < digit_val c"
proof -
  assume "is_digit c" "c \<noteq> CHR ''0''"
  have "char_code c \<noteq> 48"
  proof
    assume "char_code c = 48"
    then have "char_of (of_char c :: nat) = (char_of (48::nat) :: char)"
      by (simp add: char_code_def)
    moreover have "char_of (48::nat) = CHR ''0''" by code_simp
    ultimately show False using \<open>c \<noteq> CHR ''0''\<close> by simp
  qed
  with \<open>is_digit c\<close> show ?thesis by (simp add: is_digit_def digit_val_def)
qed

lemma dec_value_positive: "positive_integer_pattern s \<Longrightarrow> 0 < dec_value s"
proof (cases s)
  case (Cons c cs)
  assume "positive_integer_pattern s"
  with Cons have "0 < int (digit_val c)" by (simp add: digit_val_pos)
  also have "int (digit_val c) \<le> foldl (\<lambda>n c. 10 * n + int (digit_val c)) (int (digit_val c)) cs"
    by (intro foldl_dec_mono) simp
  finally show ?thesis by (simp add: dec_value_def Cons)
qed simp

subsection \<open>Trimming and lower case\<close>

lemma trim_empty [simp]: "trim [] = []"
  by (simp add: trim_def)

lemma dropWhile_idem [simp]: "dropWhile P (dropWhile P xs) = dropWhile P xs"
  by (induction xs) auto

lemma dropWhile_rev_dropWhile:
  "dropWhile P (rev (dropWhile P (rev (dropWhile P xs)))) = rev (dropWhile P (rev (dropWhile P xs)))"
proof (cases "dropWhile P xs")
  case (Cons y ys)
  then have "\<not> P y" using hd_dropWhile [of P xs] by auto
  then have "dropWhile P (rev ys @ [y]) \<noteq> []" by (simp add: dropWhile_append)
  moreover have "last (dropWhile P (rev ys @ [y])) = y"
    using \<open>\<not> P y\<close> by (auto simp: dropWhile_append)
  ultimately have "hd (rev (dropWhile P (rev ys @ [y]))) = y" by (simp add: hd_rev)
  with \<open>\<not> P y\<close> have "dropWhile P (rev (dropWhile P (rev ys @ [y]))) = rev (dropWhile P (rev ys @ [y]))"
    by (metis dropWhile_eq_self_iff)
  with Cons show ?thesis by simp
next
  case Nil
  then show ?thesis by (simp only: rev.simps dropWhile.simps)
qed

lemma trim_idem [simp]: "trim (trim s) = trim s"
  by (simp add: trim_def dropWhile_rev_dropWhile)

lemma char_code_lower: "char_code (lower_char c) =
    (let n = char_code c
     in if (65 \<le> n \<and> n \<le> 90) \<or> (192 \<le> n \<and> n \<le> 222 \<and> n \<noteq> 215) then n + 32 else n)"
  by (auto simp: lower_char_def char_code_def Let_def)

lemma lower_char_idem [simp]: "lower_char (lower_char c) = lower_char c"
proof -
  let ?n = "char_code c"
  have "\<not> ((65 \<le> char_code (lower_char c) \<and> char_code (lower_char c) \<le> 90) \<or>
         (192 \<le> char_code (lower_char c) \<and> char_code (lower_char c) \<le> 222 \<and> char_code (lower_char c) \<noteq> 215))"
    by (auto simp: char_code_lower Let_def)
  then show ?thesis unfolding lower_char_def [of "lower_char c"] Let_def by (rule if_not_P)
qed

lemma toLowerCase_idem [simp]: "toLowerCase (toLowerCase s) = toLowerCase s"
  by (simp add: toLowerCase_def)

lemma js_space_lower [simp]: "js_space (lower_char c) \<longleftrightarrow> js_space c"
  by (auto simp: js_space_def char_code_lower Let_def)

lemma dropWhile_space_lower:
  "dropWhile js_space (map lower_char s) = map lower_char (dropWhile js_space s)"
  by (induction s) simp_all

lemma trim_toLowerCase: "trim (toLowerCase s) = toLowerCase (trim s)"
  by (simp add: trim_def toLowerCase_def dropWhile_space_lower rev_map)

section \<open>Values\<close>

text \<open>
  A value as the sources receive it from parsed JSON or from an untyped caller.  An object is its
  list of own enumerable properties, the first binding of a key being the property; \<open>JFun\<close>
  stands for a function or symbol.
\<close>

datatype jsval =
    JUndefined | JNull | JBool bool | JNum number | JBigInt int | JStr string
  | JArr "jsval list" | JObj "(string \<times> jsval) list" | JFun

text \<open>Property read on an object; absent properties are \<open>undefined\<close>.\<close>

definition getp :: "(string \<times> jsval) list \<Rightarrow> string \<Rightarrow> jsval" where
  "getp ps k = (case map_of ps k of None \<Rightarrow> JUndefined | Some v \<Rightarrow> v)"

definition object_keys :: "(string \<times> jsval) list \<Rightarrow> string list" where
  "object_keys ps = remdups (map fst ps)"

lemma getp_Nil [simp]: "getp [] k = JUndefined"
  by (simp add: getp_def)

lemma getp_Cons [simp]: "getp ((k', v) # ps) k = (if k = k' then v else getp ps k)"
  by (simp add: getp_def)

text \<open>Successful outcomes of the run-time type tests \<open>typeof v === ...\<close> and \<open>isRecord(v)\<close>.\<close>

lemma case_JObj_Inr_iff [result_elims]:
  "(case v of JObj ps \<Rightarrow> f ps | _ \<Rightarrow> Inl e) = Inr y \<longleftrightarrow> (\<exists>ps. v = JObj ps \<and> f ps = Inr y)"
  by (cases v) auto

lemma case_JArr_Inr_iff [result_elims]:
  "(case v of JArr vs \<Rightarrow> f vs | _ \<Rightarrow> Inl e) = Inr y \<longleftrightarrow> (\<exists>vs. v = JArr vs \<and> f vs = Inr y)"
  by (cases v) auto

lemma case_JStr_Inr_iff [result_elims]:
  "(case v of JStr s \<Rightarrow> f s | _ \<Rightarrow> Inl e) = Inr y \<longleftrightarrow> (\<exists>s. v = JStr s \<and> f s = Inr y)"
  by (cases v) auto

lemma case_JBool_Inr_iff [result_elims]:
  "(case v of JBool b \<Rightarrow> f b | _ \<Rightarrow> Inl e) = Inr y \<longleftrightarrow> (\<exists>b. v = JBool b \<and> f b = Inr y)"
  by (cases v) auto

lemma case_JNum_Inr_iff [result_elims]:
  "(case v of JNum x \<Rightarrow> f x | _ \<Rightarrow> Inl e) = Inr y \<longleftrightarrow> (\<exists>x. v = JNum x \<and> f x = Inr y)"
  by (cases v) auto

lemma case_singleton_Inr_iff [result_elims]:
  "(case xs of [] \<Rightarrow> Inl e | x # ys \<Rightarrow> (case ys of [] \<Rightarrow> f x | z # zs \<Rightarrow> Inl (g x z zs))) = Inr y
     \<longleftrightarrow> (\<exists>x. xs = [x] \<and> f x = Inr y)"
  by (auto split: list.splits)

lemma if_Inl_Inr_iff [result_elims]:
  "(if b then Inl e else r) = Inr y \<longleftrightarrow> \<not> b \<and> r = Inr y"
  by auto

section \<open>Lists and maps\<close>

text \<open>\<open>Array.prototype.sort\<close> with a descending numeric comparator is stable.\<close>

definition sort_desc :: "('a \<Rightarrow> int) \<Rightarrow> 'a list \<Rightarrow> 'a list" where
  "sort_desc f xs = sort_key (\<lambda>x. - f x) xs"

lemma set_sort_desc [simp]: "set (sort_desc f xs) = set xs"
  by (simp add: sort_desc_def)

lemma mset_sort_desc [simp]: "mset (sort_desc f xs) = mset xs"
  by (simp add: sort_desc_def)

lemma sorted_sort_desc: "sorted_wrt (\<lambda>x y. f x \<ge> f y) (sort_desc f xs)"
proof -
  have "sorted (map (\<lambda>x. - f x) (sort_key (\<lambda>x. - f x) xs))" by simp
  then show ?thesis by (simp add: sort_desc_def sorted_map)
qed

lemma hd_filter_sort_desc_max:
  assumes "filter P (sort_desc f xs) = y # ys" and "x \<in> set xs" and "P x"
  shows "f x \<le> f y"
proof -
  have "sorted_wrt (\<lambda>x y. f x \<ge> f y) (filter P (sort_desc f xs))"
    by (intro sorted_wrt_filter sorted_sort_desc)
  moreover have "x \<in> set (filter P (sort_desc f xs))"
    using assms(2,3) by (simp del: filter_sort)
  ultimately show ?thesis unfolding assms(1) by auto
qed

lemma find_Some_set: "List.find P xs = Some x \<Longrightarrow> x \<in> set xs \<and> P x"
  by (induction xs) (auto split: if_splits)

end
