(* ===== verification/Job_Model.thy ===== *)
theory Job_Model
  imports Prelude
begin

text \<open>
  The business object carried between the bidding core and its adapters
  (\<^verbatim>\<open>trading/src/domain/market/strategy/job.ts\<close>): a job's declared target and
  pricing limits, and the runtime state the bidder tracks for it.  Optional properties are
  \<^typ>\<open>'a option\<close>; wei amounts are \<open>bigint\<close>s, hence \<^typ>\<open>int\<close>; the quantity of a
  target is a \<^typ>\<open>number\<close> because the code validates it at run time.
\<close>

section \<open>Traits\<close>

record TraitSelector =
  sel_type :: string
  sel_value :: "string option"

record TraitTarget =
  trait_type :: string
  trait_value :: string

section \<open>Targets, limits, runtime state\<close>

datatype BidderTarget =
    Token string
  | Collection number "TraitTarget list option"
  | CompetitiveTrait number TraitTarget "TraitSelector list"

datatype TargetType = TokenType | CollectionType | CompetitiveTraitType

fun target_type :: "BidderTarget \<Rightarrow> TargetType" where
  "target_type (Token _) = TokenType"
| "target_type (Collection _ _) = CollectionType"
| "target_type (CompetitiveTrait _ _ _) = CompetitiveTraitType"

record BidderConfig =
  ceiling_wei :: int
  floor_wei :: int
  delta_wei :: int
  extraCompetitionTraits :: "TraitSelector list option"

datatype BidPosition = Winning | Draw | Losing

datatype BidConstraint = CeilingConstraint | FloorConstraint

record BidderState =
  lastRun :: "int option"
  activeOrderId :: "string option"
  activeProtocolAddress :: "string option"
  activeOrderPlacedAt :: "string option"
  activeOrderVerifiedAt :: "string option"
  currentPrice :: "int option"
  activeExpirationTimeMs :: "int option"
  bidPosition :: "BidPosition option"
  bidConstraints :: "BidConstraint list option"
  competitorPrice :: "int option"

definition empty_state :: BidderState where
  "empty_state = \<lparr>lastRun = None, activeOrderId = None, activeProtocolAddress = None,
     activeOrderPlacedAt = None, activeOrderVerifiedAt = None, currentPrice = None,
     activeExpirationTimeMs = None, bidPosition = None, bidConstraints = None,
     competitorPrice = None\<rparr>"

record BidderJob =
  jobId :: string
  revision :: int
  collectionId :: int
  collectionAddress :: string
  collectionSlug :: string
  job_target :: BidderTarget
  job_config :: BidderConfig
  job_state :: BidderState

text \<open>The \<open>traits ?? []\<close> of a collection target.\<close>

definition traits_of :: "TraitTarget list option \<Rightarrow> TraitTarget list" where
  "traits_of ts = (case ts of None \<Rightarrow> [] | Some xs \<Rightarrow> xs)"

text \<open>Targets whose trait criteria are enforced by OpenSea SignedZone, not by the signature.\<close>

definition bidderTargetRequiresOpenSeaSignedZoneTrust :: "BidderTarget \<Rightarrow> bool" where
  "bidderTargetRequiresOpenSeaSignedZoneTrust t =
     (case t of
        CompetitiveTrait _ _ _ \<Rightarrow> True
      | Collection _ traits \<Rightarrow> length (traits_of traits) > 0
      | Token _ \<Rightarrow> False)"

lemma traits_of_simps [simp]: "traits_of None = []" "traits_of (Some xs) = xs"
  by (simp_all add: traits_of_def)

end
