(* ===== verification/Mandate.thy ===== *)
theory Mandate
  imports Job_Model
begin

text \<open>
  The native bidding mandate (\<^verbatim>\<open>trading/src/domain/bidding-mandate.ts\<close>): the authority
  granted by the desktop prompt for one process start.  \<open>BiddingStartPolicy_parse\<close> and
  \<open>BiddingMandate_parse\<close> are the two \<open>parse\<close> methods, over an untyped value;
  \<open>assertOfferAuthorized\<close> is the check every placement passes.  The lemmas show that parsing
  accepts only canonical, bounded authority, that printing a snapshot and parsing it back is the
  identity, and that an authorised offer stays within the caps of its collection.
\<close>

section \<open>Errors\<close>

text \<open>One constructor per message of \<open>BiddingMandateViolationError\<close>.\<close>

datatype mandate_error =
    StartPolicyNotObject
  | TraitTrustNotBoolean
  | WethApprovalNotObject
  | NotCanonicalWei string bool
  | ExceedsUint256 string
  | PriorityFeeExceedsMaximum
  | PendingNonceUnsupported
  | MandateNotObject
  | NotPositiveSafeInteger string
  | ChainMismatch int int
  | NoCollections
  | CollectionDuplicated int
  | CollectionNotObject nat
  | MustBeNonEmpty string
  | ContractNotEvmAddress
  | SlugEmpty
  | CollectionNotAuthorized int
  | ContractDoesNotMatch int
  | SlugDoesNotMatch int
  | OfferQuantityInvalid int
  | QuantityExceedsCap int int int
  | AmountNotPositive
  | TotalExceedsCap int int int int

section \<open>Data\<close>

datatype EvmPendingNoncePolicy = Fail

record WethApproval =
  minPriorityFeePerGasWei :: int
  maxFeePerGasWei :: int
  maxTotalGasFeeWei :: int
  pendingNoncePolicy :: EvmPendingNoncePolicy

record BiddingStartPolicy =
  wethAllowanceCapWei :: int
  trustOpenSeaSignedZoneTraitOffers :: bool
  wethApproval :: WethApproval

record BiddingCollectionAuthority =
  auth_collectionId :: int
  auth_contractAddress :: string
  auth_openseaSlug :: string
  auth_maxUnitBidWei :: int
  auth_maxQuantity :: int

text \<open>
  \<open>collectionsById\<close> is a \<open>Map\<close> built from the parsed list; the list keeps the insertion order
  that \<open>snapshot\<close> enumerates, and a lookup is \<open>List.find\<close> on the collection id.
\<close>

record BiddingMandate =
  mandate_chainId :: int
  startPolicy :: BiddingStartPolicy
  mandate_collections :: "BiddingCollectionAuthority list"

section \<open>Field validators\<close>

definition requirePositiveSafeInteger :: "jsval \<Rightarrow> string \<Rightarrow> mandate_error + int" where
  "requirePositiveSafeInteger v label =
     (case v of
        JNum x \<Rightarrow> if \<not> isSafeInteger x \<or> \<not> num_pos x then Inl (NotPositiveSafeInteger label)
                  else Inr (num_to_int x)
      | _ \<Rightarrow> Inl (NotPositiveSafeInteger label))"

definition requireCanonicalUint :: "jsval \<Rightarrow> string \<Rightarrow> bool \<Rightarrow> mandate_error + int" where
  "requireCanonicalUint v label allowZero =
     (let pattern = (if allowZero then non_negative_integer_pattern else positive_integer_pattern)
      in case v of
           JStr s \<Rightarrow>
             if \<not> pattern s then Inl (NotCanonicalWei label allowZero)
             else if dec_value s > maxUint256 then Inl (ExceedsUint256 label)
             else Inr (dec_value s)
         | _ \<Rightarrow> Inl (NotCanonicalWei label allowZero))"

definition requirePositiveBigInt :: "jsval \<Rightarrow> string \<Rightarrow> mandate_error + int" where
  "requirePositiveBigInt v label = requireCanonicalUint v label False"

definition requireNonEmptyString :: "jsval \<Rightarrow> string \<Rightarrow> mandate_error + string" where
  "requireNonEmptyString v label =
     (case v of
        JStr s \<Rightarrow> if trim s = [] then Inl (MustBeNonEmpty label) else Inr (trim s)
      | _ \<Rightarrow> Inl (MustBeNonEmpty label))"

text \<open>\<open>/^0x[a-f0-9]{40}$/\<close>.\<close>

definition evm_address_pattern :: "string \<Rightarrow> bool" where
  "evm_address_pattern s \<longleftrightarrow>
     take 2 s = ''0x'' \<and> length s = 42 \<and> list_all is_lower_hex (drop 2 s)"

definition normalizeContractAddress :: "string \<Rightarrow> mandate_error + string" where
  "normalizeContractAddress s =
     (let normalized = toLowerCase (trim s)
      in if \<not> evm_address_pattern normalized then Inl ContractNotEvmAddress else Inr normalized)"

definition normalizeSlug :: "string \<Rightarrow> mandate_error + string" where
  "normalizeSlug s =
     (let normalized = toLowerCase (trim s)
      in if normalized = [] then Inl SlugEmpty else Inr normalized)"

section \<open>Parsing\<close>

definition BiddingStartPolicy_parse :: "jsval \<Rightarrow> mandate_error + BiddingStartPolicy" where
  "BiddingStartPolicy_parse raw =
     (case raw of
        JObj ps \<Rightarrow>
          (case getp ps ''trustOpenSeaSignedZoneTraitOffers'' of
             JBool trust \<Rightarrow>
               (case getp ps ''wethApproval'' of
                  JObj qs \<Rightarrow>
                    bindR (requireCanonicalUint (getp ps ''wethAllowanceCapWei'')
                             ''WETH allowance cap'' True) (\<lambda>cap.
                    bindR (requireCanonicalUint (getp qs ''minPriorityFeePerGasWei'')
                             ''WETH approval minimum priority fee per gas'' False) (\<lambda>minPriority.
                    bindR (requireCanonicalUint (getp qs ''maxFeePerGasWei'')
                             ''WETH approval maximum fee per gas'' False) (\<lambda>maxFee.
                    bindR (requireCanonicalUint (getp qs ''maxTotalGasFeeWei'')
                             ''WETH approval maximum total gas fee'' False) (\<lambda>maxTotal.
                    bindR (guardR (\<not> minPriority > maxFee) PriorityFeeExceedsMaximum) (\<lambda>_.
                    bindR (guardR (getp qs ''pendingNoncePolicy'' = JStr ''fail'')
                             PendingNonceUnsupported) (\<lambda>_.
                    Inr \<lparr>wethAllowanceCapWei = cap, trustOpenSeaSignedZoneTraitOffers = trust,
                         wethApproval = \<lparr>minPriorityFeePerGasWei = minPriority,
                           maxFeePerGasWei = maxFee, maxTotalGasFeeWei = maxTotal,
                           pendingNoncePolicy = Fail\<rparr>\<rparr>))))))
                | _ \<Rightarrow> Inl WethApprovalNotObject)
           | _ \<Rightarrow> Inl TraitTrustNotBoolean)
      | _ \<Rightarrow> Inl StartPolicyNotObject)"

definition parseCollection :: "jsval \<Rightarrow> nat \<Rightarrow> mandate_error + BiddingCollectionAuthority" where
  "parseCollection raw index =
     (case raw of
        JObj ps \<Rightarrow>
          bindR (requirePositiveSafeInteger (getp ps ''collectionId'')
                   (''collection at index '' @ show_nat index @ '' id'')) (\<lambda>cid.
          bindR (requireNonEmptyString (getp ps ''artgodSlug'')
                   (''collection '' @ show_int cid @ '' ArtGod slug'')) (\<lambda>_.
          bindR (requireNonEmptyString (getp ps ''contractAddress'')
                   (''collection '' @ show_int cid @ '' contract'')) (\<lambda>contract0.
          bindR (normalizeContractAddress contract0) (\<lambda>contract.
          bindR (requireNonEmptyString (getp ps ''openseaSlug'')
                   (''collection '' @ show_int cid @ '' OpenSea slug'')) (\<lambda>slug0.
          bindR (normalizeSlug slug0) (\<lambda>slug.
          bindR (requirePositiveBigInt (getp ps ''maxUnitBidWei'')
                   (''collection '' @ show_int cid @ '' unit bid cap'')) (\<lambda>unitCap.
          bindR (requirePositiveSafeInteger (getp ps ''maxQuantity'')
                   (''collection '' @ show_int cid @ '' quantity cap'')) (\<lambda>quantityCap.
          Inr \<lparr>auth_collectionId = cid, auth_contractAddress = contract,
               auth_openseaSlug = slug, auth_maxUnitBidWei = unitCap,
               auth_maxQuantity = quantityCap\<rparr>))))))))
      | _ \<Rightarrow> Inl (CollectionNotObject index))"

text \<open>The \<open>map\<close> callback over \<open>raw.collections\<close> with its \<open>seenCollectionIds\<close> set.\<close>

fun parseCollections ::
  "jsval list \<Rightarrow> nat \<Rightarrow> int set \<Rightarrow> mandate_error + BiddingCollectionAuthority list" where
  "parseCollections [] index seen = Inr []"
| "parseCollections (v # vs) index seen =
     bindR (parseCollection v index) (\<lambda>c.
     bindR (guardR (auth_collectionId c \<notin> seen) (CollectionDuplicated (auth_collectionId c))) (\<lambda>_.
     bindR (parseCollections vs (Suc index) (insert (auth_collectionId c) seen)) (\<lambda>cs.
     Inr (c # cs))))"

definition BiddingMandate_parse :: "jsval \<Rightarrow> int \<Rightarrow> mandate_error + BiddingMandate" where
  "BiddingMandate_parse raw expectedChainId =
     (case raw of
        JObj ps \<Rightarrow>
          bindR (requirePositiveSafeInteger (getp ps ''chainId'') ''chain id'') (\<lambda>chain.
          bindR (guardR (chain = expectedChainId) (ChainMismatch chain expectedChainId)) (\<lambda>_.
          bindR (BiddingStartPolicy_parse (getp ps ''startPolicy'')) (\<lambda>policy.
          (case getp ps ''collections'' of
             JArr vs \<Rightarrow>
               if vs = [] then Inl NoCollections
               else bindR (parseCollections vs 0 {}) (\<lambda>cs.
                    Inr \<lparr>mandate_chainId = chain, startPolicy = policy,
                         mandate_collections = cs\<rparr>)
           | _ \<Rightarrow> Inl NoCollections))))
      | _ \<Rightarrow> Inl MandateNotObject)"

section \<open>Snapshots\<close>

text \<open>
  \<open>snapshot\<close> returns plain objects of strings and numbers.  The native envelope a process is
  started with carries the same fields and each collection's ArtGod slug, which the mandate does
  not retain.
\<close>

definition BiddingStartPolicy_snapshot :: "BiddingStartPolicy \<Rightarrow> jsval" where
  "BiddingStartPolicy_snapshot p = JObj
     [(''wethAllowanceCapWei'', JStr (show_int (wethAllowanceCapWei p))),
      (''trustOpenSeaSignedZoneTraitOffers'', JBool (trustOpenSeaSignedZoneTraitOffers p)),
      (''wethApproval'', JObj
         [(''minPriorityFeePerGasWei'', JStr (show_int (minPriorityFeePerGasWei (wethApproval p)))),
          (''maxFeePerGasWei'', JStr (show_int (maxFeePerGasWei (wethApproval p)))),
          (''maxTotalGasFeeWei'', JStr (show_int (maxTotalGasFeeWei (wethApproval p)))),
          (''pendingNoncePolicy'', JStr (case pendingNoncePolicy (wethApproval p) of Fail \<Rightarrow> ''fail''))])]"

definition authority_snapshot :: "BiddingCollectionAuthority \<Rightarrow> (string \<times> jsval) list" where
  "authority_snapshot c =
     [(''collectionId'', JNum (num_of_int (auth_collectionId c))),
      (''contractAddress'', JStr (auth_contractAddress c)),
      (''openseaSlug'', JStr (auth_openseaSlug c)),
      (''maxUnitBidWei'', JStr (show_int (auth_maxUnitBidWei c))),
      (''maxQuantity'', JNum (num_of_int (auth_maxQuantity c)))]"

definition BiddingMandate_snapshot :: "BiddingMandate \<Rightarrow> jsval" where
  "BiddingMandate_snapshot m = JObj
     [(''chainId'', JNum (num_of_int (mandate_chainId m))),
      (''startPolicy'', BiddingStartPolicy_snapshot (startPolicy m)),
      (''collections'', JArr (map (\<lambda>c. JObj (authority_snapshot c)) (mandate_collections m)))]"

section \<open>Authorisation\<close>

definition authority_of :: "BiddingMandate \<Rightarrow> int \<Rightarrow> BiddingCollectionAuthority option" where
  "authority_of m cid = List.find (\<lambda>c. auth_collectionId c = cid) (mandate_collections m)"

definition collectionAuthorizationError ::
  "BiddingMandate \<Rightarrow> int \<Rightarrow> string \<Rightarrow> string option \<Rightarrow> mandate_error option" where
  "collectionAuthorizationError m cid address slug =
     (case authority_of m cid of
        None \<Rightarrow> Some (CollectionNotAuthorized cid)
      | Some a \<Rightarrow>
          if toLowerCase (trim address) \<noteq> auth_contractAddress a then Some (ContractDoesNotMatch cid)
          else if map_option (\<lambda>s. toLowerCase (trim s)) slug \<noteq> Some (auth_openseaSlug a)
          then Some (SlugDoesNotMatch cid)
          else None)"

definition authorizesCollection ::
  "BiddingMandate \<Rightarrow> int \<Rightarrow> string \<Rightarrow> string option \<Rightarrow> bool" where
  "authorizesCollection m cid address slug \<longleftrightarrow>
     collectionAuthorizationError m cid address slug = None"

definition resolveOfferQuantity :: "BidderJob \<Rightarrow> mandate_error + int" where
  "resolveOfferQuantity job =
     (case job_target job of
        Token _ \<Rightarrow> Inr 1
      | Collection q _ \<Rightarrow>
          if \<not> isSafeInteger q \<or> \<not> num_pos q then Inl (OfferQuantityInvalid (collectionId job))
          else Inr (num_to_int q)
      | CompetitiveTrait q _ _ \<Rightarrow>
          if \<not> isSafeInteger q \<or> \<not> num_pos q then Inl (OfferQuantityInvalid (collectionId job))
          else Inr (num_to_int q))"

definition assertOfferAuthorized :: "BiddingMandate \<Rightarrow> BidderJob \<Rightarrow> int \<Rightarrow> mandate_error + unit" where
  "assertOfferAuthorized m job totalAmountWei =
     (case collectionAuthorizationError m (collectionId job) (collectionAddress job)
             (Some (collectionSlug job)) of
        Some e \<Rightarrow> Inl e
      | None \<Rightarrow>
          (case authority_of m (collectionId job) of
             None \<Rightarrow> Inl (CollectionNotAuthorized (collectionId job))
           | Some a \<Rightarrow>
               bindR (resolveOfferQuantity job) (\<lambda>quantity.
               bindR (guardR (\<not> quantity > auth_maxQuantity a)
                        (QuantityExceedsCap (collectionId job) quantity (auth_maxQuantity a))) (\<lambda>_.
               bindR (guardR (\<not> totalAmountWei \<le> 0) AmountNotPositive) (\<lambda>_.
               guardR (\<not> totalAmountWei > auth_maxUnitBidWei a * quantity)
                 (TotalExceedsCap (collectionId job) totalAmountWei (auth_maxUnitBidWei a) quantity))))))"

section \<open>What parsing accepts\<close>

definition policy_wf :: "BiddingStartPolicy \<Rightarrow> bool" where
  "policy_wf p \<longleftrightarrow>
     0 \<le> wethAllowanceCapWei p \<and> wethAllowanceCapWei p \<le> maxUint256 \<and>
     0 < minPriorityFeePerGasWei (wethApproval p) \<and>
     minPriorityFeePerGasWei (wethApproval p) \<le> maxFeePerGasWei (wethApproval p) \<and>
     maxFeePerGasWei (wethApproval p) \<le> maxUint256 \<and>
     0 < maxTotalGasFeeWei (wethApproval p) \<and> maxTotalGasFeeWei (wethApproval p) \<le> maxUint256"

definition authority_wf :: "BiddingCollectionAuthority \<Rightarrow> bool" where
  "authority_wf c \<longleftrightarrow>
     0 < auth_collectionId c \<and> auth_collectionId c \<le> max_safe_integer \<and>
     evm_address_pattern (auth_contractAddress c) \<and>
     toLowerCase (trim (auth_contractAddress c)) = auth_contractAddress c \<and>
     auth_openseaSlug c \<noteq> [] \<and> toLowerCase (trim (auth_openseaSlug c)) = auth_openseaSlug c \<and>
     0 < auth_maxUnitBidWei c \<and> auth_maxUnitBidWei c \<le> maxUint256 \<and>
     0 < auth_maxQuantity c \<and> auth_maxQuantity c \<le> max_safe_integer"

definition mandate_wf :: "BiddingMandate \<Rightarrow> bool" where
  "mandate_wf m \<longleftrightarrow>
     0 < mandate_chainId m \<and> mandate_chainId m \<le> max_safe_integer \<and>
     policy_wf (startPolicy m) \<and> mandate_collections m \<noteq> [] \<and>
     distinct (map auth_collectionId (mandate_collections m)) \<and>
     list_all authority_wf (mandate_collections m)"

lemma requireCanonicalUint_Inr:
  "requireCanonicalUint v l z = Inr n \<Longrightarrow> 0 \<le> n \<and> n \<le> maxUint256 \<and> (\<not> z \<longrightarrow> 0 < n)"
  by (cases v) (auto simp: requireCanonicalUint_def Let_def dec_value_nonneg dec_value_positive
      split: if_splits)

lemma requirePositiveSafeInteger_Inr:
  "requirePositiveSafeInteger v l = Inr n \<Longrightarrow> 0 < n \<and> n \<le> max_safe_integer"
proof (cases v)
  case (JNum x)
  assume "requirePositiveSafeInteger v l = Inr n"
  with JNum have "isSafeInteger x" "num_pos x" "n = num_to_int x"
    by (auto simp: requirePositiveSafeInteger_def split: if_splits)
  then show ?thesis using num_to_int_pos [of x] by (cases x) auto
qed (simp_all add: requirePositiveSafeInteger_def)

lemma normalized_trim_lower [simp]: "toLowerCase (trim (toLowerCase (trim s))) = toLowerCase (trim s)"
  by (simp add: trim_toLowerCase)

lemma parseCollection_wf: "parseCollection v i = Inr c \<Longrightarrow> authority_wf c"
  by (auto simp: parseCollection_def result_elims authority_wf_def requirePositiveBigInt_def
      normalizeContractAddress_def normalizeSlug_def Let_def
      dest!: requireCanonicalUint_Inr requirePositiveSafeInteger_Inr)

lemma parseCollections_wf:
  "parseCollections vs i seen = Inr cs \<Longrightarrow>
     list_all authority_wf cs \<and> distinct (map auth_collectionId cs) \<and>
     length cs = length vs \<and> auth_collectionId ` set cs \<inter> seen = {}"
proof (induction vs arbitrary: i seen cs)
  case Nil
  then show ?case by simp
next
  case (Cons v vs)
  from Cons.prems obtain c cs' where
    c: "parseCollection v i = Inr c" "auth_collectionId c \<notin> seen" and
    cs': "parseCollections vs (Suc i) (insert (auth_collectionId c) seen) = Inr cs'" and
    cs: "cs = c # cs'"
    by (auto simp: bindR_Inr_iff)
  from Cons.IH [OF cs'] parseCollection_wf [OF c(1)] c(2) show ?case
    by (auto simp: cs)
qed

lemma startPolicy_parse_wf: "BiddingStartPolicy_parse raw = Inr p \<Longrightarrow> policy_wf p"
  by (auto simp: BiddingStartPolicy_parse_def result_elims policy_wf_def
      dest!: requireCanonicalUint_Inr)

text \<open>
  C33. Parsing the native authority only ever yields a well-formed mandate for the expected chain:
  amounts are canonical 256-bit values, the minimum priority fee does not exceed the fee cap, at least
  one collection is authorised, no collection id occurs twice, and every contract address and
  slug is in the normal form that authorisation compares with.
\<close>

theorem mandate_parse_wf:
  assumes "BiddingMandate_parse raw chain = Inr m"
  shows "mandate_wf m \<and> mandate_chainId m = chain"
proof -
  from assms obtain ps vs where
    "requirePositiveSafeInteger (getp ps ''chainId'') ''chain id'' = Inr chain"
    "mandate_chainId m = chain"
    "BiddingStartPolicy_parse (getp ps ''startPolicy'') = Inr (startPolicy m)"
    "vs \<noteq> []" "parseCollections vs 0 {} = Inr (mandate_collections m)"
    by (auto simp: BiddingMandate_parse_def result_elims)
  then show ?thesis
    using requirePositiveSafeInteger_Inr startPolicy_parse_wf parseCollections_wf
    by (fastforce simp: mandate_wf_def)
qed

section \<open>Printing and parsing back\<close>

lemma requireCanonicalUint_show [simp]:
  assumes "0 \<le> n" "n \<le> maxUint256" "z \<or> 0 < n"
  shows "requireCanonicalUint (JStr (show_int n)) l z = Inr n"
  using assms
  by (auto simp: requireCanonicalUint_def show_int_def non_negative_pattern_show_nat
      positive_pattern_show_nat)

lemma requirePositiveSafeInteger_num [simp]:
  "0 < n \<Longrightarrow> n \<le> max_safe_integer \<Longrightarrow> requirePositiveSafeInteger (JNum (num_of_int n)) l = Inr n"
  by (simp add: requirePositiveSafeInteger_def)

lemma startPolicy_snapshot_roundtrip:
  assumes "policy_wf p"
  shows "BiddingStartPolicy_parse (BiddingStartPolicy_snapshot p) = Inr p"
  using assms
  by (cases "pendingNoncePolicy (wethApproval p)")
    (simp add: BiddingStartPolicy_parse_def BiddingStartPolicy_snapshot_def policy_wf_def)

definition with_artgodSlug :: "string \<Rightarrow> BiddingCollectionAuthority \<Rightarrow> jsval" where
  "with_artgodSlug slug c = JObj ((''artgodSlug'', JStr slug) # authority_snapshot c)"

lemma evm_address_normal:
  "evm_address_pattern s \<Longrightarrow> toLowerCase (trim s) = s \<Longrightarrow> trim s = s"
  by (metis normalized_trim_lower trim_idem trim_toLowerCase)

lemma lower_trim_fixpoint: "toLowerCase (trim s) = s \<Longrightarrow> trim s = s"
  by (metis trim_idem trim_toLowerCase)

lemma parseCollection_roundtrip:
  assumes "authority_wf c" and "trim slug \<noteq> []"
  shows "parseCollection (with_artgodSlug slug c) i = Inr c"
proof -
  have "auth_contractAddress c \<noteq> []"
    using assms(1) by (auto simp: authority_wf_def evm_address_pattern_def)
  moreover have "trim (auth_contractAddress c) = auth_contractAddress c"
    "trim (auth_openseaSlug c) = auth_openseaSlug c"
    using assms(1) by (auto simp: authority_wf_def intro: lower_trim_fixpoint)
  ultimately show ?thesis
    using assms
    by (simp add: parseCollection_def with_artgodSlug_def authority_snapshot_def authority_wf_def
        requireNonEmptyString_def normalizeContractAddress_def normalizeSlug_def
        requirePositiveBigInt_def)
qed

lemma parseCollections_roundtrip:
  assumes "list_all authority_wf cs" and "distinct (map auth_collectionId cs)"
    and "length slugs = length cs" and "\<forall>s\<in>set slugs. trim s \<noteq> []"
    and "auth_collectionId ` set cs \<inter> seen = {}"
  shows "parseCollections (map2 with_artgodSlug slugs cs) i seen = Inr cs"
  using assms
proof (induction cs arbitrary: slugs i seen)
  case (Cons c cs)
  then obtain s ss where "slugs = s # ss" by (cases slugs) auto
  with Cons show ?case by (auto simp: parseCollection_roundtrip)
qed simp

text \<open>
  A mandate is recovered exactly from its own snapshot once each collection entry carries a
  non-blank ArtGod slug again, as the native envelope does.
\<close>

theorem mandate_snapshot_roundtrip:
  assumes "mandate_wf m" and "length slugs = length (mandate_collections m)"
    and "\<forall>s\<in>set slugs. trim s \<noteq> []"
  shows "BiddingMandate_parse
      (JObj [(''chainId'', JNum (num_of_int (mandate_chainId m))),
             (''startPolicy'', BiddingStartPolicy_snapshot (startPolicy m)),
             (''collections'', JArr (map2 with_artgodSlug slugs (mandate_collections m)))])
      (mandate_chainId m) = Inr m"
proof -
  have "slugs \<noteq> []" using assms by (auto simp: mandate_wf_def)
  with assms show ?thesis
    by (simp add: BiddingMandate_parse_def mandate_wf_def startPolicy_snapshot_roundtrip
        parseCollections_roundtrip)
qed

section \<open>Authorised offers\<close>

lemma authority_of_Some:
  "authority_of m cid = Some a \<Longrightarrow> a \<in> set (mandate_collections m) \<and> auth_collectionId a = cid"
  by (auto simp: authority_of_def dest: find_Some_set)

lemma authority_of_distinct:
  assumes "distinct (map auth_collectionId (mandate_collections m))"
    and "a \<in> set (mandate_collections m)" and "auth_collectionId a = cid"
  shows "authority_of m cid = Some a"
proof -
  have "List.find (\<lambda>c. auth_collectionId c = auth_collectionId a) cs = Some a"
    if "distinct (map auth_collectionId cs)" "a \<in> set cs" for cs
    using that by (induction cs) auto
  with assms show ?thesis by (auto simp: authority_of_def)
qed

lemma resolveOfferQuantity_pos: "resolveOfferQuantity job = Inr q \<Longrightarrow> 1 \<le> q"
  by (auto simp: resolveOfferQuantity_def int_one_le_iff_zero_less num_to_int_pos
      split: BidderTarget.splits if_splits)

text \<open>
  Authorisation is exact: an offer passes if and only if the mandate holds an authority for the
  job's collection whose contract and slug equal the job's in normal form, the offer quantity is
  valid and within the quantity cap, and the positive total does not exceed unit cap times
  quantity.
\<close>

theorem assertOfferAuthorized_iff:
  "assertOfferAuthorized m job totalWei = Inr () \<longleftrightarrow>
     (\<exists>a q. authority_of m (collectionId job) = Some a \<and>
        toLowerCase (trim (collectionAddress job)) = auth_contractAddress a \<and>
        toLowerCase (trim (collectionSlug job)) = auth_openseaSlug a \<and>
        resolveOfferQuantity job = Inr q \<and> q \<le> auth_maxQuantity a \<and>
        0 < totalWei \<and> totalWei \<le> auth_maxUnitBidWei a * q)"
  by (auto simp: assertOfferAuthorized_def collectionAuthorizationError_def bindR_Inr_iff
      split: option.splits if_splits)

lemma authorized_offer_bounds:
  assumes "assertOfferAuthorized m job totalWei = Inr ()"
  obtains a q where "a \<in> set (mandate_collections m)" "auth_collectionId a = collectionId job"
    "toLowerCase (trim (collectionAddress job)) = auth_contractAddress a"
    "resolveOfferQuantity job = Inr q" "1 \<le> q" "q \<le> auth_maxQuantity a"
    "0 < totalWei" "totalWei \<le> auth_maxUnitBidWei a * q"
proof -
  from assms obtain a q where
    "authority_of m (collectionId job) = Some a" "resolveOfferQuantity job = Inr q"
    "toLowerCase (trim (collectionAddress job)) = auth_contractAddress a"
    "q \<le> auth_maxQuantity a" "0 < totalWei" "totalWei \<le> auth_maxUnitBidWei a * q"
    by (auto simp: assertOfferAuthorized_def collectionAuthorizationError_def bindR_Inr_iff
        split: option.splits if_splits)
  moreover from this have "a \<in> set (mandate_collections m)" "auth_collectionId a = collectionId job"
    "1 \<le> q"
    using authority_of_Some resolveOfferQuantity_pos by blast+
  ultimately show ?thesis using that [of a q] by blast
qed

end
