(* ===== verification/Policy_Wallet.thy ===== *)
theory Policy_Wallet
  imports Mandate
begin

text \<open>
  The restricted wallet handed to the OpenSea SDK
  (\<^verbatim>\<open>trading/src/adapters/opensea/open-sea-policy-wallet.ts\<close>).  It authorises one
  typed-data signature per placement or cancellation, and validates the payload before it reaches
  the signing key.  Payloads are untyped values; every validator of the file is a definition here,
  with its checks in the source's order.  viem's \<open>getAddress\<close> is the parameter \<open>ga\<close>
  (\<open>None\<close> where it throws).  A signing session is a small state machine: \<open>beginSign\<close> is
  \<open>signTypedData\<close> up to the call of the signer, \<open>finishSign\<close> what follows when the signer
  settles, and \<open>session_step\<close> interleaves them with the SDK's \<open>work\<close>.
\<close>

section \<open>Constants\<close>

definition seaportAddress :: string where
  "seaportAddress = ''0x0000000000000068F116a894984e2DB1123eB395''"

definition signedZoneAddress :: string where
  "signedZoneAddress = ''0x000056f7000000ece9003ca63978907a00ffd100''"

definition conduitKey :: string where
  "conduitKey = ''0x0000007b02230091a7ed01230072f7006a004d60a8d4e71d599b8104250f0000''"

definition policyWethAddress :: string where
  "policyWethAddress = ''0xC02aaA39b223FE8D0A0e5C4F27eAD9083C756Cc2''"

definition zeroAddress :: string where
  "zeroAddress = ''0x'' @ replicate 40 (CHR ''0'')"

definition zeroBytes32 :: string where
  "zeroBytes32 = ''0x'' @ replicate 64 (CHR ''0'')"

abbreviation Erc20 :: int where "Erc20 \<equiv> 1"
abbreviation Erc721 :: int where "Erc721 \<equiv> 2"
abbreviation Erc1155 :: int where "Erc1155 \<equiv> 3"
abbreviation Erc721WithCriteria :: int where "Erc721WithCriteria \<equiv> 4"
abbreviation Erc1155WithCriteria :: int where "Erc1155WithCriteria \<equiv> 5"
abbreviation PartialRestricted :: int where "PartialRestricted \<equiv> 3"

type_synonym schema = "(string \<times> (string \<times> string) list) list"

definition SEAPORT_ORDER_TYPES :: schema where
  "SEAPORT_ORDER_TYPES =
     [(''OrderComponents'',
        [(''offerer'', ''address''), (''zone'', ''address''), (''offer'', ''OfferItem[]''),
         (''consideration'', ''ConsiderationItem[]''), (''orderType'', ''uint8''),
         (''startTime'', ''uint256''), (''endTime'', ''uint256''), (''zoneHash'', ''bytes32''),
         (''salt'', ''uint256''), (''conduitKey'', ''bytes32''), (''counter'', ''uint256'')]),
      (''OfferItem'',
        [(''itemType'', ''uint8''), (''token'', ''address''), (''identifierOrCriteria'', ''uint256''),
         (''startAmount'', ''uint256''), (''endAmount'', ''uint256'')]),
      (''ConsiderationItem'',
        [(''itemType'', ''uint8''), (''token'', ''address''), (''identifierOrCriteria'', ''uint256''),
         (''startAmount'', ''uint256''), (''endAmount'', ''uint256''), (''recipient'', ''address'')])]"

definition SEAPORT_ORDER_HASH_TYPES :: schema where
  "SEAPORT_ORDER_HASH_TYPES = [(''OrderHash'', [(''orderHash'', ''bytes32'')])]"

definition SEAPORT_DOMAIN_FIELDS :: "string list" where
  "SEAPORT_DOMAIN_FIELDS = [''chainId'', ''name'', ''version'', ''verifyingContract'']"

section \<open>Errors\<close>

datatype signing_intent = OfferIntent | OffchainCancellationIntent

datatype policy_error =
    MustBeObject string | MustBeArray string | MustBeString string
  | NotCopied string
  | MustBeAddress string | AddressDiffers string
  | MustBeBytes32 string | Bytes32Differs string
  | MustBeUint string | UintDiffers string int int | UintNotAllowed string int
  | StringDiffers string
  | FieldsDiffer string | SchemasDiffer | SchemaMismatch string
  | PrimaryTypeDiffers string string
  | MandateRejected mandate_error | OfferAmountNotPositive | ExceedsAllowanceCap int int
  | ExpirationInvalid | SignedZoneTrustRequired | TargetQuantityNotSafe
  | StartExceedsExpiration | OfferItemCount nat | TargetNftCount nat
  | FeesExceedOffer int int | FeeRecipientZero
  | NoAuthorization | NoLongerActive signing_intent | MoreThanOneSignature signing_intent
  | CompletedWithoutSignature signing_intent
  | ActionNotPermitted string
  | SignerFailed string | WorkFailed string

section \<open>Field validators\<close>

type_synonym fields = "(string \<times> jsval) list"

definition requireRecord :: "jsval \<Rightarrow> string \<Rightarrow> policy_error + fields" where
  "requireRecord v label = (case v of JObj ps \<Rightarrow> Inr ps | _ \<Rightarrow> Inl (MustBeObject label))"

definition requireArray :: "jsval \<Rightarrow> string \<Rightarrow> policy_error + jsval list" where
  "requireArray v label = (case v of JArr vs \<Rightarrow> Inr vs | _ \<Rightarrow> Inl (MustBeArray label))"

definition requireString :: "jsval \<Rightarrow> string \<Rightarrow> policy_error + string" where
  "requireString v label =
     (case v of JStr s \<Rightarrow> if s = [] then Inl (MustBeString label) else Inr s
      | _ \<Rightarrow> Inl (MustBeString label))"

text \<open>\<open>/^0x[a-fA-F0-9]{64}$/\<close>.\<close>

definition bytes32_pattern :: "string \<Rightarrow> bool" where
  "bytes32_pattern s \<longleftrightarrow> take 2 s = ''0x'' \<and> length s = 66 \<and> list_all is_hex (drop 2 s)"

definition requireBytes32 :: "jsval \<Rightarrow> string \<Rightarrow> policy_error + string" where
  "requireBytes32 v label =
     (case v of JStr s \<Rightarrow> if \<not> bytes32_pattern s then Inl (MustBeBytes32 label) else Inr s
      | _ \<Rightarrow> Inl (MustBeBytes32 label))"

definition assertBytes32Equals :: "jsval \<Rightarrow> string \<Rightarrow> string \<Rightarrow> policy_error + unit" where
  "assertBytes32Equals v expected label =
     bindR (requireBytes32 v label) (\<lambda>actual.
     bindR (requireBytes32 (JStr expected) (''expected '' @ label)) (\<lambda>want.
     guardR (toLowerCase actual = toLowerCase want) (Bytes32Differs label)))"

definition normalizeAddress ::
  "(string \<Rightarrow> string option) \<Rightarrow> string \<Rightarrow> string \<Rightarrow> policy_error + string" where
  "normalizeAddress ga s label =
     (case ga s of None \<Rightarrow> Inl (MustBeAddress label) | Some a \<Rightarrow> Inr a)"

definition assertAddressEquals ::
  "(string \<Rightarrow> string option) \<Rightarrow> string \<Rightarrow> string \<Rightarrow> string \<Rightarrow> policy_error + unit" where
  "assertAddressEquals ga v expected label =
     bindR (normalizeAddress ga v label) (\<lambda>actualAddress.
     bindR (normalizeAddress ga expected (''expected '' @ label)) (\<lambda>expectedAddress.
     guardR (actualAddress = expectedAddress) (AddressDiffers label)))"

definition assertStringEquals :: "jsval \<Rightarrow> string \<Rightarrow> string \<Rightarrow> policy_error + unit" where
  "assertStringEquals v expected label =
     bindR (requireString v label) (\<lambda>actual. guardR (actual = expected) (StringDiffers label))"

fun parse_uint :: "jsval \<Rightarrow> int option" where
  "parse_uint (JBigInt i) = Some i"
| "parse_uint (JNum x) = (if isSafeInteger x \<and> num_nonneg x then Some (num_to_int x) else None)"
| "parse_uint (JStr s) =
     (if non_negative_integer_pattern s then Some (dec_value s)
      else if hex_pattern s then Some (hex_value (drop 2 s)) else None)"
| "parse_uint _ = None"

definition requireUint :: "jsval \<Rightarrow> string \<Rightarrow> policy_error + int" where
  "requireUint v label =
     (case parse_uint v of
        Some n \<Rightarrow> if 0 \<le> n \<and> n \<le> maxUint256 then Inr n else Inl (MustBeUint label)
      | None \<Rightarrow> Inl (MustBeUint label))"

definition assertUintEquals :: "jsval \<Rightarrow> int \<Rightarrow> string \<Rightarrow> policy_error + unit" where
  "assertUintEquals v expected label =
     bindR (requireUint v label) (\<lambda>actual.
     guardR (actual = expected) (UintDiffers label expected actual))"

definition assertOneOfUint :: "jsval \<Rightarrow> int list \<Rightarrow> string \<Rightarrow> policy_error + unit" where
  "assertOneOfUint v expected label =
     bindR (requireUint v label) (\<lambda>actual.
     guardR (actual \<in> set expected) (UintNotAllowed label actual))"

definition assertConstantItemAmount :: "fields \<Rightarrow> int \<Rightarrow> string \<Rightarrow> policy_error + unit" where
  "assertConstantItemAmount item expected label =
     bindR (assertUintEquals (getp item ''startAmount'') expected (label @ '' start'')) (\<lambda>_.
     assertUintEquals (getp item ''endAmount'') expected (label @ '' end''))"

definition assertPrimaryType :: "string \<Rightarrow> string \<Rightarrow> policy_error + unit" where
  "assertPrimaryType actual expected = guardR (actual = expected) (PrimaryTypeDiffers expected actual)"

definition normalizeTargetQuantity :: "number \<Rightarrow> policy_error + int" where
  "normalizeTargetQuantity v =
     (let quantity = math_max1 (math_floor v)
      in if \<not> isSafeInteger quantity then Inl TargetQuantityNotSafe else Inr (num_to_int quantity))"

section \<open>Typed data\<close>

record OpenSeaTypedDataInput =
  td_domain :: fields
  td_types :: fields
  td_primaryType :: string
  td_message :: fields

text \<open>\<open>structuredClone\<close> throws on functions and symbols and copies everything else; freezing the
  copy is immutability, which the model has by construction.\<close>

fun cloneable :: "jsval \<Rightarrow> bool" and cloneable_props :: "fields \<Rightarrow> bool" where
  "cloneable JFun \<longleftrightarrow> False"
| "cloneable (JArr vs) \<longleftrightarrow> (\<forall>v \<in> set vs. cloneable v)"
| "cloneable (JObj ps) \<longleftrightarrow> cloneable_props ps"
| "cloneable _ \<longleftrightarrow> True"
| "cloneable_props [] \<longleftrightarrow> True"
| "cloneable_props ((k, v) # ps) \<longleftrightarrow> cloneable v \<and> cloneable_props ps"

definition snapshotRecord :: "jsval \<Rightarrow> string \<Rightarrow> policy_error + fields" where
  "snapshotRecord v label =
     (if cloneable v then requireRecord v label else Inl (NotCopied label))"

definition normalizeTypedDataInput :: "jsval \<Rightarrow> policy_error + OpenSeaTypedDataInput" where
  "normalizeTypedDataInput input =
     bindR (requireRecord input ''typed-data request'') (\<lambda>r.
     bindR (snapshotRecord (getp r ''domain'') ''typed-data domain'') (\<lambda>d.
     bindR (snapshotRecord (getp r ''types'') ''typed-data types'') (\<lambda>t.
     bindR (requireString (getp r ''primaryType'') ''typed-data primary type'') (\<lambda>p.
     bindR (snapshotRecord (getp r ''message'') ''typed-data message'') (\<lambda>m.
     Inr \<lparr>td_domain = d, td_types = t, td_primaryType = p, td_message = m\<rparr>)))))"

definition assertExactRecordFields :: "fields \<Rightarrow> string list \<Rightarrow> string \<Rightarrow> policy_error + unit" where
  "assertExactRecordFields r expectedFields label =
     guardR (sort (object_keys r) = sort expectedFields) (FieldsDiffer label)"

definition assertSeaportDomain ::
  "(string \<Rightarrow> string option) \<Rightarrow> fields \<Rightarrow> string \<Rightarrow> policy_error + unit" where
  "assertSeaportDomain ga d expectedVerifyingContract =
     bindR (assertExactRecordFields d SEAPORT_DOMAIN_FIELDS ''EIP-712 domain'') (\<lambda>_.
     bindR (assertUintEquals (getp d ''chainId'') 1 ''EIP-712 chain id'') (\<lambda>_.
     bindR (assertStringEquals (getp d ''name'') ''Seaport'' ''EIP-712 domain name'') (\<lambda>_.
     bindR (assertStringEquals (getp d ''version'') ''1.6'' ''EIP-712 domain version'') (\<lambda>_.
     bindR (requireString (getp d ''verifyingContract'') ''EIP-712 verifying contract'') (\<lambda>c.
     assertAddressEquals ga c expectedVerifyingContract ''EIP-712 verifying contract'')))))"

definition normalizeSchemaField :: "string \<Rightarrow> jsval \<times> nat \<Rightarrow> policy_error + string \<times> string" where
  "normalizeSchemaField name vi =
     bindR (requireRecord (fst vi)
              (''typed-data schema '' @ name @ '' field '' @ show_nat (snd vi))) (\<lambda>r.
     bindR (requireString (getp r ''name'') ''typed-data field name'') (\<lambda>n.
     bindR (requireString (getp r ''type'') ''typed-data field type'') (\<lambda>t.
     Inr (n, t))))"

fun assertSchemas :: "fields \<Rightarrow> schema \<Rightarrow> string list \<Rightarrow> policy_error + unit" where
  "assertSchemas actual expected [] = Inr ()"
| "assertSchemas actual expected (name # names) =
     bindR (requireArray (getp actual name) (''typed-data schema '' @ name)) (\<lambda>vs.
     bindR (mapR (normalizeSchemaField name) (zip vs [0..<length vs])) (\<lambda>normalized.
     bindR (guardR (Some normalized = map_of expected name) (SchemaMismatch name)) (\<lambda>_.
     assertSchemas actual expected names)))"

definition assertTypedDataTypes :: "fields \<Rightarrow> schema \<Rightarrow> policy_error + unit" where
  "assertTypedDataTypes actual expected =
     (let expectedNames = sort (map fst expected)
      in bindR (guardR (sort (object_keys actual) = expectedNames) SchemasDiffer) (\<lambda>_.
         assertSchemas actual expected expectedNames))"

section \<open>The wallet and its expectations\<close>

record OpenSeaPolicyWallet =
  makerAddress :: string
  wethAddress :: string
  biddingMandate :: BiddingMandate

definition OpenSeaPolicyWallet_new ::
  "(string \<Rightarrow> string option) \<Rightarrow> string \<Rightarrow> string \<Rightarrow> BiddingMandate \<Rightarrow> policy_error + OpenSeaPolicyWallet"
where
  "OpenSeaPolicyWallet_new ga signer weth mandate =
     bindR (normalizeAddress ga signer ''typed-data signer'') (\<lambda>maker.
     bindR (normalizeAddress ga weth ''configured WETH address'') (\<lambda>w.
     bindR (assertAddressEquals ga w policyWethAddress ''configured WETH address'') (\<lambda>_.
     Inr \<lparr>makerAddress = maker, wethAddress = w, biddingMandate = mandate\<rparr>)))"

record OpenSeaOfferSigningAuthorization =
  authz_job :: BidderJob
  authz_totalAmountWei :: int
  authz_expirationTime :: number

record OfferSigningExpectation =
  exp_collectionAddress :: string
  exp_tokenId :: "int option"
  exp_quantity :: int
  exp_requiresSignedZoneTrust :: bool
  exp_totalAmountWei :: int
  exp_expirationTime :: int

definition createOfferSigningExpectation ::
  "(string \<Rightarrow> string option) \<Rightarrow> OpenSeaPolicyWallet \<Rightarrow> OpenSeaOfferSigningAuthorization
     \<Rightarrow> policy_error + OfferSigningExpectation" where
  "createOfferSigningExpectation ga w a =
     (let job = authz_job a; amount = authz_totalAmountWei a;
          policy = startPolicy (biddingMandate w) in
      case assertOfferAuthorized (biddingMandate w) job amount of
        Inl e \<Rightarrow> Inl (MandateRejected e)
      | Inr _ \<Rightarrow>
          bindR (guardR (\<not> amount \<le> 0) OfferAmountNotPositive) (\<lambda>_.
          bindR (guardR (\<not> amount > wethAllowanceCapWei policy)
                   (ExceedsAllowanceCap amount (wethAllowanceCapWei policy))) (\<lambda>_.
          bindR (guardR (isSafeInteger (authz_expirationTime a) \<and> num_pos (authz_expirationTime a))
                   ExpirationInvalid) (\<lambda>_.
          bindR (normalizeAddress ga (collectionAddress job) ''offer collection address'') (\<lambda>address.
          let requiresTrust = bidderTargetRequiresOpenSeaSignedZoneTrust (job_target job) in
          bindR (guardR (\<not> (requiresTrust \<and> \<not> trustOpenSeaSignedZoneTraitOffers policy))
                   SignedZoneTrustRequired) (\<lambda>_.
          bindR (case job_target job of
                   Token t \<Rightarrow> bindR (requireUint (JStr t) ''authorized token id'') (\<lambda>n. Inr (Some n))
                 | _ \<Rightarrow> Inr None) (\<lambda>tokenId.
          bindR (case job_target job of
                   Token _ \<Rightarrow> Inr 1
                 | Collection q _ \<Rightarrow> normalizeTargetQuantity q
                 | CompetitiveTrait q _ _ \<Rightarrow> normalizeTargetQuantity q) (\<lambda>quantity.
          Inr \<lparr>exp_collectionAddress = address, exp_tokenId = tokenId, exp_quantity = quantity,
               exp_requiresSignedZoneTrust = requiresTrust, exp_totalAmountWei = amount,
               exp_expirationTime = num_to_int (authz_expirationTime a)\<rparr>))))))))"

section \<open>Order items\<close>

definition assertOfferItems ::
  "(string \<Rightarrow> string option) \<Rightarrow> OpenSeaPolicyWallet \<Rightarrow> jsval \<Rightarrow> int \<Rightarrow> policy_error + unit" where
  "assertOfferItems ga w v totalAmountWei =
     bindR (requireArray v ''order offer'') (\<lambda>items.
     case items of
       [i] \<Rightarrow>
         bindR (requireRecord i ''WETH offer item'') (\<lambda>item.
         bindR (assertUintEquals (getp item ''itemType'') Erc20 ''WETH offer item type'') (\<lambda>_.
         bindR (requireString (getp item ''token'') ''WETH offer token'') (\<lambda>token.
         bindR (assertAddressEquals ga token (wethAddress w) ''WETH offer token'') (\<lambda>_.
         bindR (assertUintEquals (getp item ''identifierOrCriteria'') 0 ''WETH offer identifier'') (\<lambda>_.
         bindR (assertUintEquals (getp item ''startAmount'') totalAmountWei
                  ''WETH offer start amount'') (\<lambda>_.
         assertUintEquals (getp item ''endAmount'') totalAmountWei ''WETH offer end amount''))))))
     | _ \<Rightarrow> Inl (OfferItemCount (length items)))"

definition assertTargetNftItem ::
  "(string \<Rightarrow> string option) \<Rightarrow> OpenSeaPolicyWallet \<Rightarrow> fields \<Rightarrow> OfferSigningExpectation
     \<Rightarrow> policy_error + unit" where
  "assertTargetNftItem ga w item e =
     bindR (requireString (getp item ''recipient'') ''target NFT recipient'') (\<lambda>recipient.
     bindR (assertAddressEquals ga recipient (makerAddress w) ''target NFT recipient'') (\<lambda>_.
     case exp_tokenId e of
       Some tokenId \<Rightarrow>
         bindR (assertOneOfUint (getp item ''itemType'') [Erc721, Erc1155] ''target NFT item type'') (\<lambda>_.
         bindR (assertUintEquals (getp item ''identifierOrCriteria'') tokenId ''target token id'') (\<lambda>_.
         assertConstantItemAmount item 1 ''target token amount''))
     | None \<Rightarrow>
         bindR (assertOneOfUint (getp item ''itemType'') [Erc721WithCriteria, Erc1155WithCriteria]
                  ''target NFT criteria item type'') (\<lambda>_.
         bindR (if \<not> exp_requiresSignedZoneTrust e
                then assertUintEquals (getp item ''identifierOrCriteria'') 0
                       ''collection-wide criteria root''
                else bindR (requireUint (getp item ''identifierOrCriteria'') ''trait criteria root'')
                       (\<lambda>_. Inr ())) (\<lambda>_.
         assertConstantItemAmount item (exp_quantity e) ''target NFT quantity''))))"

definition assertWethFeeItem ::
  "(string \<Rightarrow> string option) \<Rightarrow> OpenSeaPolicyWallet \<Rightarrow> fields \<Rightarrow> policy_error + int" where
  "assertWethFeeItem ga w item =
     bindR (assertUintEquals (getp item ''itemType'') Erc20 ''fee item type'') (\<lambda>_.
     bindR (requireString (getp item ''token'') ''fee token'') (\<lambda>token.
     bindR (assertAddressEquals ga token (wethAddress w) ''fee token'') (\<lambda>_.
     bindR (assertUintEquals (getp item ''identifierOrCriteria'') 0 ''fee identifier'') (\<lambda>_.
     bindR (requireString (getp item ''recipient'') ''fee recipient'') (\<lambda>r.
     bindR (normalizeAddress ga r ''fee recipient'') (\<lambda>recipient.
     bindR (normalizeAddress ga zeroAddress ''zero address'') (\<lambda>zero.
     bindR (guardR (recipient \<noteq> zero) FeeRecipientZero) (\<lambda>_.
     bindR (requireUint (getp item ''startAmount'') ''fee start amount'') (\<lambda>amount.
     bindR (assertUintEquals (getp item ''endAmount'') amount ''fee end amount'') (\<lambda>_.
     Inr amount))))))))))"

definition considerationItem :: "jsval \<times> nat \<Rightarrow> policy_error + fields" where
  "considerationItem vi =
     requireRecord (fst vi) (''order consideration item '' @ show_nat (snd vi))"

text \<open>The \<open>filter\<close> callback, keeping each item with its verdict.\<close>

definition classifyItem ::
  "(string \<Rightarrow> string option) \<Rightarrow> string \<Rightarrow> fields \<Rightarrow> policy_error + fields \<times> bool" where
  "classifyItem ga address item =
     bindR (requireString (getp item ''token'') ''consideration token'') (\<lambda>t.
     bindR (normalizeAddress ga t ''consideration token'') (\<lambda>a.
     Inr (item, a = address)))"

definition assertConsiderationItems ::
  "(string \<Rightarrow> string option) \<Rightarrow> OpenSeaPolicyWallet \<Rightarrow> jsval \<Rightarrow> OfferSigningExpectation
     \<Rightarrow> policy_error + unit" where
  "assertConsiderationItems ga w v e =
     bindR (requireArray v ''order consideration'') (\<lambda>vs.
     bindR (mapR considerationItem (zip vs [0..<length vs])) (\<lambda>items.
     bindR (mapR (classifyItem ga (exp_collectionAddress e)) items) (\<lambda>classified.
     (case filter snd classified of
        [nft] \<Rightarrow>
          bindR (assertTargetNftItem ga w (fst nft) e) (\<lambda>_.
          bindR (mapR (\<lambda>ib. assertWethFeeItem ga w (fst ib)) (filter (\<lambda>ib. \<not> snd ib) classified)) (\<lambda>fees.
          guardR (\<not> sum_list fees > exp_totalAmountWei e)
            (FeesExceedOffer (sum_list fees) (exp_totalAmountWei e))))
      | nfts \<Rightarrow> Inl (TargetNftCount (length nfts))))))"

section \<open>Payload policies\<close>

definition assertOfferTypedData ::
  "(string \<Rightarrow> string option) \<Rightarrow> OpenSeaPolicyWallet \<Rightarrow> OpenSeaTypedDataInput
     \<Rightarrow> OfferSigningExpectation \<Rightarrow> policy_error + unit" where
  "assertOfferTypedData ga w td e =
     (let order = td_message td in
      bindR (assertSeaportDomain ga (td_domain td) seaportAddress) (\<lambda>_.
      bindR (assertPrimaryType (td_primaryType td) ''OrderComponents'') (\<lambda>_.
      bindR (assertTypedDataTypes (td_types td) SEAPORT_ORDER_TYPES) (\<lambda>_.
      bindR (requireString (getp order ''offerer'') ''order offerer'') (\<lambda>offerer.
      bindR (assertAddressEquals ga offerer (makerAddress w) ''order offerer'') (\<lambda>_.
      bindR (requireString (getp order ''zone'') ''order zone'') (\<lambda>zone.
      bindR (assertAddressEquals ga zone signedZoneAddress ''order zone'') (\<lambda>_.
      bindR (assertBytes32Equals (getp order ''zoneHash'') zeroBytes32 ''order zone hash'') (\<lambda>_.
      bindR (assertBytes32Equals (getp order ''conduitKey'') conduitKey ''order conduit key'') (\<lambda>_.
      bindR (assertUintEquals (getp order ''orderType'') PartialRestricted ''order type'') (\<lambda>_.
      bindR (requireUint (getp order ''startTime'') ''order start time'') (\<lambda>startTime.
      bindR (requireUint (getp order ''endTime'') ''order end time'') (\<lambda>endTime.
      bindR (assertUintEquals (JBigInt endTime) (exp_expirationTime e) ''order expiration'') (\<lambda>_.
      bindR (guardR (\<not> startTime > endTime) StartExceedsExpiration) (\<lambda>_.
      bindR (requireUint (getp order ''salt'') ''order salt'') (\<lambda>_.
      bindR (requireUint (getp order ''counter'') ''order counter'') (\<lambda>_.
      bindR (assertOfferItems ga w (getp order ''offer'') (exp_totalAmountWei e)) (\<lambda>_.
      bindR (assertConsiderationItems ga w (getp order ''consideration'') e) (\<lambda>_.
      if getp order ''totalOriginalConsiderationItems'' \<noteq> JUndefined
      then bindR (requireArray (getp order ''consideration'') ''order consideration'') (\<lambda>vs.
           assertUintEquals (getp order ''totalOriginalConsiderationItems'') (int (length vs))
             ''total original consideration item count'')
      else Inr ())))))))))))))))))))"

definition assertCancellationTypedData ::
  "(string \<Rightarrow> string option) \<Rightarrow> OpenSeaTypedDataInput \<Rightarrow> string \<Rightarrow> string \<Rightarrow> policy_error + unit" where
  "assertCancellationTypedData ga td protocolAddress orderHash =
     bindR (assertSeaportDomain ga (td_domain td) protocolAddress) (\<lambda>_.
     bindR (assertPrimaryType (td_primaryType td) ''OrderHash'') (\<lambda>_.
     bindR (assertTypedDataTypes (td_types td) SEAPORT_ORDER_HASH_TYPES) (\<lambda>_.
     assertBytes32Equals (getp (td_message td) ''orderHash'') orderHash ''cancellation order hash'')))"

section \<open>Signing sessions\<close>

datatype SignatureState = Available | Pending | Complete

datatype SigningPurpose =
    OfferPurpose OfferSigningExpectation
  | CancellationPurpose string string

fun intent_of :: "SigningPurpose \<Rightarrow> signing_intent" where
  "intent_of (OfferPurpose _) = OfferIntent"
| "intent_of (CancellationPurpose _ _) = OffchainCancellationIntent"

record SigningSession =
  purpose :: SigningPurpose
  active :: bool
  signatureState :: SignatureState

definition authorizeOffer ::
  "(string \<Rightarrow> string option) \<Rightarrow> OpenSeaPolicyWallet \<Rightarrow> OpenSeaOfferSigningAuthorization
     \<Rightarrow> policy_error + SigningSession" where
  "authorizeOffer ga w a =
     bindR (createOfferSigningExpectation ga w a) (\<lambda>e.
     Inr \<lparr>purpose = OfferPurpose e, active = True, signatureState = Available\<rparr>)"

definition authorizeOffchainCancellation ::
  "(string \<Rightarrow> string option) \<Rightarrow> string \<Rightarrow> string \<Rightarrow> policy_error + SigningSession" where
  "authorizeOffchainCancellation ga protocolAddress orderHash =
     bindR (normalizeAddress ga protocolAddress ''cancellation protocol address'') (\<lambda>protocol.
     bindR (assertAddressEquals ga protocol seaportAddress ''cancellation protocol address'') (\<lambda>_.
     bindR (requireBytes32 (JStr orderHash) ''cancellation order hash'') (\<lambda>hash.
     Inr \<lparr>purpose = CancellationPurpose protocol hash, active = True,
          signatureState = Available\<rparr>)))"

definition assertPayload ::
  "(string \<Rightarrow> string option) \<Rightarrow> OpenSeaPolicyWallet \<Rightarrow> SigningPurpose \<Rightarrow> OpenSeaTypedDataInput
     \<Rightarrow> policy_error + unit" where
  "assertPayload ga w p td =
     (case p of
        OfferPurpose e \<Rightarrow> assertOfferTypedData ga w td e
      | CancellationPurpose protocol hash \<Rightarrow> assertCancellationTypedData ga td protocol hash)"

text \<open>\<open>signTypedData\<close> up to and including the state change before the signer is called: the
  payload to forward and the updated session.\<close>

definition beginSign ::
  "(string \<Rightarrow> string option) \<Rightarrow> OpenSeaPolicyWallet \<Rightarrow> SigningSession option \<Rightarrow> jsval
     \<Rightarrow> policy_error + OpenSeaTypedDataInput \<times> SigningSession" where
  "beginSign ga w store input =
     (case store of
        None \<Rightarrow> Inl NoAuthorization
      | Some session \<Rightarrow>
          bindR (guardR (active session) (NoLongerActive (intent_of (purpose session)))) (\<lambda>_.
          bindR (guardR (signatureState session = Available)
                   (MoreThanOneSignature (intent_of (purpose session)))) (\<lambda>_.
          bindR (normalizeTypedDataInput input) (\<lambda>td.
          bindR (assertPayload ga w (purpose session) td) (\<lambda>_.
          Inr (td, session\<lparr>signatureState := Pending\<rparr>))))))"

text \<open>The \<open>try\<close> block around the signer: its outcome and the session afterwards.\<close>

definition finishSign ::
  "SigningSession \<Rightarrow> string + 'sig \<Rightarrow> (policy_error + 'sig) \<times> SigningSession" where
  "finishSign session outcome =
     (case outcome of
        Inl message \<Rightarrow> (Inl (SignerFailed message), session\<lparr>signatureState := Available\<rparr>)
      | Inr signature \<Rightarrow>
          if \<not> active session
          then (Inl (NoLongerActive (intent_of (purpose session))),
                session\<lparr>signatureState := Available\<rparr>)
          else (Inr signature, session\<lparr>signatureState := Complete\<rparr>))"

text \<open>The end of \<open>runSigningSession\<close>: \<open>work\<close> settled, the \<open>finally\<close> deactivates.\<close>

definition settleWork :: "SigningSession \<Rightarrow> string + 'a \<Rightarrow> (policy_error + 'a) \<times> SigningSession" where
  "settleWork session outcome =
     ((case outcome of
         Inl message \<Rightarrow> Inl (WorkFailed message)
       | Inr result \<Rightarrow>
           if signatureState session \<noteq> Complete
           then Inl (CompletedWithoutSignature (intent_of (purpose session))) else Inr result),
      session\<lparr>active := False\<rparr>)"

text \<open>Every other action of the wallet client handed to the SDK.\<close>

definition rejectWalletAction :: "string \<Rightarrow> policy_error + 'a" where
  "rejectWalletAction action = Inl (ActionNotPermitted action)"

section \<open>What the validators establish\<close>

definition uint_of :: "jsval \<Rightarrow> int option" where
  "uint_of v =
     (case parse_uint v of
        Some n \<Rightarrow> if 0 \<le> n \<and> n \<le> maxUint256 then Some n else None | None \<Rightarrow> None)"

definition addr_of :: "(string \<Rightarrow> string option) \<Rightarrow> jsval \<Rightarrow> string option" where
  "addr_of ga v = (case v of JStr s \<Rightarrow> if s = [] then None else ga s | _ \<Rightarrow> None)"

named_theorems policy_iffs \<open>exact conditions under which a validator accepts\<close>

lemma requireRecord_iff [policy_iffs]: "requireRecord v l = Inr ps \<longleftrightarrow> v = JObj ps"
  by (auto simp: requireRecord_def result_elims)

lemma requireArray_iff [policy_iffs]: "requireArray v l = Inr vs \<longleftrightarrow> v = JArr vs"
  by (auto simp: requireArray_def result_elims)

lemma requireString_iff [policy_iffs]: "requireString v l = Inr s \<longleftrightarrow> v = JStr s \<and> s \<noteq> []"
  by (auto simp: requireString_def result_elims)

lemma requireUint_iff [policy_iffs]: "requireUint v l = Inr n \<longleftrightarrow> uint_of v = Some n"
  by (auto simp: requireUint_def uint_of_def split: option.splits if_splits)

lemma assertUintEquals_iff [policy_iffs]: "assertUintEquals v n l = Inr u \<longleftrightarrow> uint_of v = Some n"
  by (auto simp: assertUintEquals_def bindR_Inr_iff policy_iffs)

lemma assertOneOfUint_iff [policy_iffs]:
  "assertOneOfUint v ns l = Inr u \<longleftrightarrow> (\<exists>n \<in> set ns. uint_of v = Some n)"
  by (auto simp: assertOneOfUint_def bindR_Inr_iff policy_iffs)

lemma assertConstantItemAmount_iff [policy_iffs]:
  "assertConstantItemAmount item n l = Inr u \<longleftrightarrow>
     uint_of (getp item ''startAmount'') = Some n \<and> uint_of (getp item ''endAmount'') = Some n"
  by (auto simp: assertConstantItemAmount_def bindR_Inr_iff policy_iffs)

lemma normalizeAddress_iff [policy_iffs]: "normalizeAddress ga s l = Inr a \<longleftrightarrow> ga s = Some a"
  by (auto simp: normalizeAddress_def split: option.splits)

lemma assertAddressEquals_iff [policy_iffs]:
  "assertAddressEquals ga v e l = Inr u \<longleftrightarrow> (\<exists>a. ga v = Some a \<and> ga e = Some a)"
  by (auto simp: assertAddressEquals_def bindR_Inr_iff policy_iffs)

subsection \<open>Order items\<close>

definition weth_item :: "(string \<Rightarrow> string option) \<Rightarrow> OpenSeaPolicyWallet \<Rightarrow> fields \<Rightarrow> int \<Rightarrow> bool" where
  "weth_item ga w item n \<longleftrightarrow>
     uint_of (getp item ''itemType'') = Some Erc20 \<and>
     addr_of ga (getp item ''token'') \<noteq> None \<and>
     addr_of ga (getp item ''token'') = ga (wethAddress w) \<and>
     uint_of (getp item ''identifierOrCriteria'') = Some 0 \<and>
     uint_of (getp item ''startAmount'') = Some n \<and> uint_of (getp item ''endAmount'') = Some n"

definition nft_item ::
  "(string \<Rightarrow> string option) \<Rightarrow> OpenSeaPolicyWallet \<Rightarrow> fields \<Rightarrow> string \<Rightarrow> int option \<Rightarrow> int \<Rightarrow> bool" where
  "nft_item ga w item address tokenId quantity \<longleftrightarrow>
     addr_of ga (getp item ''token'') = Some address \<and>
     addr_of ga (getp item ''recipient'') \<noteq> None \<and>
     addr_of ga (getp item ''recipient'') = ga (makerAddress w) \<and>
     (case tokenId of
        Some t \<Rightarrow> uint_of (getp item ''itemType'') \<in> {Some Erc721, Some Erc1155} \<and>
                  uint_of (getp item ''identifierOrCriteria'') = Some t
      | None \<Rightarrow> uint_of (getp item ''itemType'') \<in> {Some Erc721WithCriteria, Some Erc1155WithCriteria}) \<and>
     uint_of (getp item ''startAmount'') = Some quantity \<and>
     uint_of (getp item ''endAmount'') = Some quantity"

definition spends_exactly ::
  "(string \<Rightarrow> string option) \<Rightarrow> OpenSeaPolicyWallet \<Rightarrow> OpenSeaTypedDataInput \<Rightarrow> int \<Rightarrow> bool" where
  "spends_exactly ga w td amount \<longleftrightarrow>
     (\<exists>item. getp (td_message td) ''offer'' = JArr [JObj item] \<and> weth_item ga w item amount)"

definition receives ::
  "(string \<Rightarrow> string option) \<Rightarrow> OpenSeaPolicyWallet \<Rightarrow> OpenSeaTypedDataInput \<Rightarrow> string \<Rightarrow> int option
     \<Rightarrow> int \<Rightarrow> int \<Rightarrow> bool" where
  "receives ga w td address tokenId quantity amount \<longleftrightarrow>
     (\<exists>before nft after fees.
        getp (td_message td) ''consideration'' = JArr (map JObj (before @ nft # after)) \<and>
        nft_item ga w nft address tokenId quantity \<and>
        list_all2 (weth_item ga w) (before @ after) fees \<and> sum_list fees \<le> amount)"

definition signs_for ::
  "(string \<Rightarrow> string option) \<Rightarrow> OpenSeaPolicyWallet \<Rightarrow> OpenSeaTypedDataInput \<Rightarrow> int \<Rightarrow> bool" where
  "signs_for ga w td expiration \<longleftrightarrow>
     uint_of (getp (td_domain td) ''chainId'') = Some 1 \<and>
     addr_of ga (getp (td_domain td) ''verifyingContract'') = ga seaportAddress \<and>
     addr_of ga (getp (td_message td) ''offerer'') = ga (makerAddress w) \<and>
     addr_of ga (getp (td_message td) ''zone'') = ga signedZoneAddress \<and>
     uint_of (getp (td_message td) ''endTime'') = Some expiration"

lemma uint_of_JBigInt: "uint_of (JBigInt n) = Some m \<longleftrightarrow> m = n \<and> 0 \<le> n \<and> n \<le> maxUint256"
  by (auto simp: uint_of_def)

lemma addr_of_JStr: "s \<noteq> [] \<Longrightarrow> addr_of ga (JStr s) = ga s"
  by (simp add: addr_of_def)

lemma assertOfferItems_spends:
  assumes "assertOfferItems ga w (getp (td_message td) ''offer'') amount = Inr u"
  shows "spends_exactly ga w td amount"
  using assms
  by (auto simp: assertOfferItems_def result_elims policy_iffs spends_exactly_def weth_item_def
      addr_of_JStr)

lemma assertWethFeeItem_weth: "assertWethFeeItem ga w item = Inr n \<Longrightarrow> weth_item ga w item n"
  by (auto simp: assertWethFeeItem_def bindR_Inr_iff policy_iffs weth_item_def addr_of_JStr)

lemma assertTargetNftItem_nft:
  assumes "assertTargetNftItem ga w item e = Inr u"
    and "addr_of ga (getp item ''token'') = Some (exp_collectionAddress e)"
  shows "nft_item ga w item (exp_collectionAddress e) (exp_tokenId e)
           (case exp_tokenId e of Some _ \<Rightarrow> 1 | None \<Rightarrow> exp_quantity e)"
  using assms
  by (cases "exp_tokenId e")
    (auto simp: assertTargetNftItem_def bindR_Inr_iff policy_iffs nft_item_def addr_of_JStr)

lemma considerationItems_objects:
  assumes "mapR considerationItem (zip vs [0..<length vs]) = Inr items"
  shows "vs = map JObj items"
proof -
  have "list_all2 (\<lambda>vi ps. fst vi = JObj ps) (zip vs [0..<length vs]) items"
    using assms by (auto simp: mapR_eq_Inr_iff considerationItem_def policy_iffs)
  then have "map fst (zip vs [0..<length vs]) = map JObj items"
    by (induction rule: list_all2_induct) auto
  then show ?thesis by simp
qed

lemma classifyItem_mapR:
  assumes "mapR (classifyItem ga a) items = Inr cs"
  shows "items = map fst cs \<and>
     (\<forall>(item, b) \<in> set cs. b \<longrightarrow> addr_of ga (getp item ''token'') = Some a)"
proof -
  have "list_all2 (\<lambda>item c. classifyItem ga a item = Inr c) items cs"
    using assms by (simp add: mapR_eq_Inr_iff)
  then show ?thesis
    by (induction rule: list_all2_induct)
      (auto simp: classifyItem_def bindR_Inr_iff policy_iffs addr_of_JStr)
qed

lemma filter_singleton_split:
  assumes "filter P xs = [x]"
  obtains us vs where "xs = us @ x # vs" "P x" "filter (\<lambda>y. \<not> P y) xs = us @ vs"
proof -
  from assms obtain us vs where
    "xs = us @ x # vs" "\<forall>u\<in>set us. \<not> P u" "P x" "filter P vs = []"
    by (auto simp: filter_eq_Cons_iff)
  with that show ?thesis by (auto simp: filter_empty_conv)
qed

lemma assertConsiderationItems_receives:
  assumes "assertConsiderationItems ga w (getp (td_message td) ''consideration'') e = Inr u"
  shows "receives ga w td (exp_collectionAddress e) (exp_tokenId e)
           (case exp_tokenId e of Some _ \<Rightarrow> 1 | None \<Rightarrow> exp_quantity e) (exp_totalAmountWei e)"
proof -
  from assms obtain vs items cs nft b fees where
    arr: "getp (td_message td) ''consideration'' = JArr vs" and
    items: "mapR considerationItem (zip vs [0..<length vs]) = Inr items" and
    cs: "mapR (classifyItem ga (exp_collectionAddress e)) items = Inr cs" and
    nft: "filter snd cs = [(nft, b)]" "assertTargetNftItem ga w nft e = Inr ()" and
    fees: "mapR (\<lambda>ib. assertWethFeeItem ga w (fst ib)) (filter (\<lambda>ib. \<not> snd ib) cs) = Inr fees" and
    total: "sum_list fees \<le> exp_totalAmountWei e"
    by (auto simp: assertConsiderationItems_def result_elims policy_iffs)
  from nft(1) obtain us ws where
    split: "cs = us @ (nft, b) # ws" "b" "filter (\<lambda>ib. \<not> snd ib) cs = us @ ws"
    by (auto elim: filter_singleton_split)
  have "list_all2 (\<lambda>ib n. weth_item ga w (fst ib) n) (us @ ws) fees"
    using fees unfolding split(3) mapR_eq_Inr_iff
    by (auto elim: list_all2_mono dest: assertWethFeeItem_weth)
  then have "list_all2 (weth_item ga w) (map fst us @ map fst ws) fees"
    by (simp add: list_all2_map1 flip: map_append)
  moreover have "addr_of ga (getp nft ''token'') = Some (exp_collectionAddress e)"
    using classifyItem_mapR [OF cs] split(1,2) by auto
  moreover have "JArr vs = JArr (map JObj (map fst us @ nft # map fst ws))"
    using considerationItems_objects [OF items] classifyItem_mapR [OF cs] split(1) by auto
  ultimately show ?thesis
    unfolding receives_def arr
    using assertTargetNftItem_nft [OF nft(2)] total by blast
qed

lemma assertOfferTypedData_signs:
  assumes "assertOfferTypedData ga w td e = Inr u"
  shows "signs_for ga w td (exp_expirationTime e)"
    and "spends_exactly ga w td (exp_totalAmountWei e)"
    and "receives ga w td (exp_collectionAddress e) (exp_tokenId e)
           (case exp_tokenId e of Some _ \<Rightarrow> 1 | None \<Rightarrow> exp_quantity e) (exp_totalAmountWei e)"
proof -
  note unf = assertOfferTypedData_def Let_def bindR_Inr_iff
  show "signs_for ga w td (exp_expirationTime e)"
    using assms
    by (auto simp: unf policy_iffs signs_for_def assertSeaportDomain_def addr_of_JStr
        uint_of_JBigInt)
  show "spends_exactly ga w td (exp_totalAmountWei e)"
    using assms by (auto simp: unf intro: assertOfferItems_spends)
  show "receives ga w td (exp_collectionAddress e) (exp_tokenId e)
           (case exp_tokenId e of Some _ \<Rightarrow> 1 | None \<Rightarrow> exp_quantity e) (exp_totalAmountWei e)"
    using assms by (auto simp: unf intro: assertConsiderationItems_receives)
qed

subsection \<open>Expectations\<close>

lemma normalizeTargetQuantity_safe:
  "isSafeInteger q \<Longrightarrow> num_pos q \<Longrightarrow> normalizeTargetQuantity q = Inr n \<Longrightarrow> n = num_to_int q"
  by (auto simp: normalizeTargetQuantity_def math_max1_floor_safe Let_def split: if_splits)

text \<open>The quantity the mandate checked is the quantity the payload must carry.\<close>

lemma createOfferSigningExpectation_authorized:
  assumes "createOfferSigningExpectation ga w a = Inr e"
  obtains c q where
    "c \<in> set (mandate_collections (biddingMandate w))"
    "auth_collectionId c = collectionId (authz_job a)"
    "toLowerCase (trim (collectionAddress (authz_job a))) = auth_contractAddress c"
    "ga (collectionAddress (authz_job a)) = Some (exp_collectionAddress e)"
    "(case exp_tokenId e of Some _ \<Rightarrow> 1 | None \<Rightarrow> exp_quantity e) = q"
    "1 \<le> q" "q \<le> auth_maxQuantity c"
    "exp_totalAmountWei e = authz_totalAmountWei a"
    "0 < authz_totalAmountWei a" "authz_totalAmountWei a \<le> auth_maxUnitBidWei c * q"
    "authz_totalAmountWei a \<le> wethAllowanceCapWei (startPolicy (biddingMandate w))"
    "exp_requiresSignedZoneTrust e \<longrightarrow>
       trustOpenSeaSignedZoneTraitOffers (startPolicy (biddingMandate w))"
    "(exp_tokenId e = None) = (\<forall>t. job_target (authz_job a) \<noteq> Token t)"
proof -
  from assms have auth: "assertOfferAuthorized (biddingMandate w) (authz_job a) (authz_totalAmountWei a) = Inr ()"
    by (auto simp: createOfferSigningExpectation_def Let_def split: sum.splits)
  then obtain c q where c: "c \<in> set (mandate_collections (biddingMandate w))"
    "auth_collectionId c = collectionId (authz_job a)"
    "toLowerCase (trim (collectionAddress (authz_job a))) = auth_contractAddress c"
    "resolveOfferQuantity (authz_job a) = Inr q" "1 \<le> q" "q \<le> auth_maxQuantity c"
    "0 < authz_totalAmountWei a" "authz_totalAmountWei a \<le> auth_maxUnitBidWei c * q"
    by (rule authorized_offer_bounds)
  have rest: "ga (collectionAddress (authz_job a)) = Some (exp_collectionAddress e)"
    "exp_totalAmountWei e = authz_totalAmountWei a"
    "authz_totalAmountWei a \<le> wethAllowanceCapWei (startPolicy (biddingMandate w))"
    "exp_requiresSignedZoneTrust e \<longrightarrow>
       trustOpenSeaSignedZoneTraitOffers (startPolicy (biddingMandate w))"
    using assms auth
    by (auto simp: createOfferSigningExpectation_def Let_def bindR_Inr_iff policy_iffs)
  have "(exp_tokenId e = None) = (\<forall>t. job_target (authz_job a) \<noteq> Token t)"
    "(case exp_tokenId e of Some _ \<Rightarrow> 1 | None \<Rightarrow> exp_quantity e) = q"
    using assms auth c(4)
    by (cases "job_target (authz_job a)";
        auto simp: createOfferSigningExpectation_def Let_def bindR_Inr_iff resolveOfferQuantity_def
          split: if_splits dest!: normalizeTargetQuantity_safe)+
  with c rest show ?thesis by (intro that [of c q]) auto
qed

section \<open>Sessions as a state machine\<close>

text \<open>
  One run of \<open>runSigningSession\<close>: the session, the payloads forwarded to the signer and the
  signatures returned to the SDK, in order.  The SDK may request signatures at any time, also while
  one is pending and after its work has settled.
\<close>

record 'sig signing_run =
  run_session :: SigningSession
  forwarded :: "OpenSeaTypedDataInput list"
  released :: "'sig list"

definition start_run :: "SigningSession \<Rightarrow> 'sig signing_run" where
  "start_run s = \<lparr>run_session = s, forwarded = [], released = []\<rparr>"

inductive session_step ::
  "(string \<Rightarrow> string option) \<Rightarrow> OpenSeaPolicyWallet \<Rightarrow> 'sig signing_run \<Rightarrow> 'sig signing_run \<Rightarrow> bool"
  for ga w where
  forward: "beginSign ga w (Some (run_session r)) input = Inr (td, s) \<Longrightarrow>
     session_step ga w r (r\<lparr>run_session := s, forwarded := forwarded r @ [td]\<rparr>)"
| refuse: "beginSign ga w (Some (run_session r)) input = Inl e \<Longrightarrow> session_step ga w r r"
| release: "signatureState (run_session r) = Pending \<Longrightarrow>
     finishSign (run_session r) outcome = (Inr signature, s) \<Longrightarrow>
     session_step ga w r (r\<lparr>run_session := s, released := released r @ [signature]\<rparr>)"
| withhold: "signatureState (run_session r) = Pending \<Longrightarrow>
     finishSign (run_session r) (outcome :: string + 'sig) = (Inl e, s) \<Longrightarrow>
     session_step ga w r (r\<lparr>run_session := s\<rparr>)"
| settle: "settleWork (run_session r) (work :: string + unit) = (result, s) \<Longrightarrow>
     session_step ga w r (r\<lparr>run_session := s\<rparr>)"

subsection \<open>The contract of a one-shot signing boundary\<close>

text \<open>
  What a client of such a boundary relies on, whatever the payloads and checks: a payload is sent
  only while the boundary is alive and idle, and only if it passes the check; a signature is
  released only for a pending payload; nothing revives a dead boundary.
\<close>

locale one_shot_signing =
  fixes step :: "'s \<Rightarrow> 's \<Rightarrow> bool"
    and phase :: "'s \<Rightarrow> SignatureState"
    and alive :: "'s \<Rightarrow> bool"
    and sent :: "'s \<Rightarrow> 'p list"
    and out :: "'s \<Rightarrow> 'g list"
    and ok :: "'p \<Rightarrow> bool"
  assumes step_kinds: "step s t \<Longrightarrow>
      sent t = sent s \<and> out t = out s \<and>
        (phase t = phase s \<or> phase s = Pending \<and> phase t = Available)
    \<or> alive s \<and> phase s = Available \<and> phase t = Pending \<and> out t = out s \<and>
        (\<exists>p. ok p \<and> sent t = sent s @ [p])
    \<or> alive s \<and> phase s = Pending \<and> phase t = Complete \<and> sent t = sent s \<and>
        (\<exists>g. out t = out s @ [g])"
    and no_revival: "step s t \<Longrightarrow> alive t \<Longrightarrow> alive s"
begin

definition fresh :: "'s \<Rightarrow> bool" where
  "fresh s \<longleftrightarrow> phase s = Available \<and> sent s = [] \<and> out s = []"

definition boundary_inv :: "'s \<Rightarrow> bool" where
  "boundary_inv s \<longleftrightarrow>
     (\<forall>p \<in> set (sent s). ok p) \<and> length (out s) = (if phase s = Complete then 1 else 0) \<and>
     (phase s = Complete \<longrightarrow> sent s \<noteq> []) \<and> (phase s = Pending \<longrightarrow> sent s \<noteq> [])"

lemma step_inv: "step s t \<Longrightarrow> boundary_inv s \<Longrightarrow> boundary_inv t"
  using step_kinds [of s t] by (auto simp: boundary_inv_def split: if_splits)

lemma reach_inv: "step\<^sup>*\<^sup>* s t \<Longrightarrow> fresh s \<Longrightarrow> boundary_inv t"
proof (induction rule: rtranclp_induct)
  case base
  then show ?case by (simp add: boundary_inv_def fresh_def)
next
  case (step t u)
  then show ?case by (blast intro: step_inv)
qed

lemma dead_silent: "step\<^sup>*\<^sup>* s t \<Longrightarrow> \<not> alive s \<Longrightarrow> \<not> alive t \<and> sent t = sent s \<and> out t = out s"
proof (induction rule: rtranclp_induct)
  case (step t u)
  then show ?case using step_kinds [of t u] no_revival [of t u] by auto
qed simp

end

subsection \<open>Signing sessions meet the contract\<close>

lemma beginSign_Inr:
  "beginSign ga w (Some s) input = Inr (td, s') \<longleftrightarrow>
     active s \<and> signatureState s = Available \<and> normalizeTypedDataInput input = Inr td \<and>
     assertPayload ga w (purpose s) td = Inr () \<and> s' = s\<lparr>signatureState := Pending\<rparr>"
  by (auto simp: beginSign_def bindR_Inr_iff)

lemma finishSign_cases:
  "finishSign s outcome = (Inr signature, s') \<Longrightarrow> active s \<and> s' = s\<lparr>signatureState := Complete\<rparr>"
  "finishSign s outcome = (Inl e, s') \<Longrightarrow> s' = s\<lparr>signatureState := Available\<rparr>"
  by (auto simp: finishSign_def split: sum.splits if_splits)

lemma session_step_purpose:
  "session_step ga w r r' \<Longrightarrow> purpose (run_session r') = purpose (run_session r)"
  by (auto elim!: session_step.cases simp: beginSign_Inr settleWork_def dest: finishSign_cases)

interpretation session: one_shot_signing
  "\<lambda>r r'. session_step ga w r r' \<and> purpose (run_session r) = p"
  "\<lambda>r. signatureState (run_session r)" "\<lambda>r. active (run_session r)" forwarded released
  "\<lambda>td. assertPayload ga w p td = Inr ()" for ga w p
proof (unfold_locales, goal_cases)
  case (1 r r')
  then show ?case
    by (auto elim!: session_step.cases simp: beginSign_Inr settleWork_def dest: finishSign_cases)
next
  case (2 r r')
  then show ?case
    by (auto elim!: session_step.cases simp: beginSign_Inr settleWork_def dest: finishSign_cases)
qed

lemma session_reach_purpose:
  assumes "(session_step ga w)\<^sup>*\<^sup>* r r'" and "purpose (run_session r) = p"
  shows "(\<lambda>r r'. session_step ga w r r' \<and> purpose (run_session r) = p)\<^sup>*\<^sup>* r r' \<and>
         purpose (run_session r') = p"
  using assms
proof (induction rule: rtranclp_induct)
  case (step r' r'')
  then show ?case by (metis (mono_tags, lifting) rtranclp.rtrancl_into_rtrancl session_step_purpose)
qed simp

lemma session_reach_inv:
  assumes "(session_step ga w)\<^sup>*\<^sup>* (start_run s) r" and "signatureState s = Available"
  shows "session.boundary_inv ga w (purpose s) r"
proof -
  have "session.fresh (start_run s)"
    using assms(2) by (simp add: session.fresh_def start_run_def)
  moreover have "(\<lambda>r r'. session_step ga w r r' \<and> purpose (run_session r) = purpose s)\<^sup>*\<^sup>* (start_run s) r"
    using session_reach_purpose [OF assms(1), of "purpose s"] by (simp add: start_run_def)
  ultimately show ?thesis by (rule session.reach_inv [rotated])
qed

lemma session_forwarded_ok:
  assumes "(session_step ga w)\<^sup>*\<^sup>* (start_run s) r" and "signatureState s = Available"
    and "td \<in> set (forwarded r)"
  shows "assertPayload ga w (purpose s) td = Inr ()"
  using session_reach_inv [OF assms(1,2)] assms(3) by (simp add: session.boundary_inv_def)

section \<open>Properties of signing sessions\<close>

text \<open>
  C1. Every payload that reaches the signing key during an offer session, whatever the SDK does,
  is a Seaport 1.6 order on mainnet signed for the maker that spends exactly the authorised WETH
  amount and delivers to the maker the authorised quantity of the job's collection (the authorised
  token for a token job), with all other consideration items WETH fees paid out of that amount.
  The amount is positive, within the unit cap times quantity of the collection's mandate entry
  and within the authorised WETH allowance; a trait offer is signed only with explicit trust.
\<close>

theorem signed_offer_within_mandate:
  assumes "authorizeOffer ga w a = Inr s"
    and "(session_step ga w)\<^sup>*\<^sup>* (start_run s) r" and "td \<in> set (forwarded r)"
  shows "\<exists>c q address tokenId.
     c \<in> set (mandate_collections (biddingMandate w)) \<and>
     auth_collectionId c = collectionId (authz_job a) \<and>
     toLowerCase (trim (collectionAddress (authz_job a))) = auth_contractAddress c \<and>
     ga (collectionAddress (authz_job a)) = Some address \<and>
     1 \<le> q \<and> q \<le> auth_maxQuantity c \<and>
     0 < authz_totalAmountWei a \<and> authz_totalAmountWei a \<le> auth_maxUnitBidWei c * q \<and>
     authz_totalAmountWei a \<le> wethAllowanceCapWei (startPolicy (biddingMandate w)) \<and>
     (bidderTargetRequiresOpenSeaSignedZoneTrust (job_target (authz_job a)) \<longrightarrow>
        trustOpenSeaSignedZoneTraitOffers (startPolicy (biddingMandate w))) \<and>
     signs_for ga w td (num_to_int (authz_expirationTime a)) \<and>
     spends_exactly ga w td (authz_totalAmountWei a) \<and>
     (\<forall>t. job_target (authz_job a) = Token t \<longrightarrow>
        (\<exists>n. uint_of (JStr t) = Some n \<and> tokenId = Some n) \<and> q = 1) \<and>
     receives ga w td address tokenId q (authz_totalAmountWei a)"
proof -
  from assms(1) obtain e where e: "createOfferSigningExpectation ga w a = Inr e"
    and s: "purpose s = OfferPurpose e" "signatureState s = Available"
    by (auto simp: authorizeOffer_def bindR_Inr_iff)
  from session_forwarded_ok [OF assms(2) s(2) assms(3)] s(1)
  have td: "assertOfferTypedData ga w td e = Inr ()"
    by (simp add: assertPayload_def)
  have shape: "exp_expirationTime e = num_to_int (authz_expirationTime a)"
    "exp_requiresSignedZoneTrust e = bidderTargetRequiresOpenSeaSignedZoneTrust (job_target (authz_job a))"
    "\<forall>t. job_target (authz_job a) = Token t \<longrightarrow>
       (\<exists>n. uint_of (JStr t) = Some n \<and> exp_tokenId e = Some n)"
    using e by (auto simp: createOfferSigningExpectation_def Let_def bindR_Inr_iff policy_iffs
        split: sum.splits)
  from e show ?thesis
  proof (rule createOfferSigningExpectation_authorized, goal_cases)
    case (1 c q)
    then have "\<forall>t. job_target (authz_job a) = Token t \<longrightarrow> q = 1"
      using shape(3) by fastforce
    with 1 assertOfferTypedData_signs [OF td] shape show ?case
      by (intro exI [of _ c] exI [of _ q] exI [of _ "exp_collectionAddress e"] exI [of _ "exp_tokenId e"])
        simp
  qed
qed

text \<open>
  C3. A session, for an offer or a cancellation, returns at most one signature to the SDK, and the
  authorised operation succeeds only if exactly one was returned.
\<close>

theorem one_signature_per_session:
  assumes "authorizeOffer ga w a = Inr s \<or> authorizeOffchainCancellation ga protocol hash = Inr s"
    and "(session_step ga w)\<^sup>*\<^sup>* (start_run s) r"
  shows "length (released r) \<le> 1 \<and>
     (\<forall>work result s'. settleWork (run_session r) work = (Inr result, s') \<longrightarrow> length (released r) = 1)"
proof -
  have "signatureState s = Available"
    using assms(1) by (auto simp: authorizeOffer_def authorizeOffchainCancellation_def bindR_Inr_iff)
  from session_reach_inv [OF assms(2) this] show ?thesis
    by (auto simp: session.boundary_inv_def settleWork_def split: sum.splits if_splits)
qed

text \<open>
  Once the authorised work has settled, no later request of the SDK reaches the signing key and
  no signature is returned any more, even one that was pending.
\<close>

theorem settled_session_is_silent:
  assumes "settleWork (run_session r) work = (result, s')"
    and "(session_step ga w)\<^sup>*\<^sup>* (r\<lparr>run_session := s'\<rparr>) r'"
  shows "forwarded r' = forwarded r \<and> released r' = released r"
proof -
  have "\<not> active s'" using assms(1) by (auto simp: settleWork_def)
  moreover have "(\<lambda>r r'. session_step ga w r r' \<and> purpose (run_session r) = purpose s')\<^sup>*\<^sup>*
      (r\<lparr>run_session := s'\<rparr>) r'"
    using session_reach_purpose [OF assms(2), of "purpose s'"] by simp
  ultimately show ?thesis
    using session.dead_silent [of ga w "purpose s'" "r\<lparr>run_session := s'\<rparr>" r'] by simp
qed

text \<open>
  A cancellation session can only sign the Seaport order-hash message of the very order it was
  opened for, never an order.
\<close>

theorem cancellation_signs_only_its_order:
  assumes "authorizeOffchainCancellation ga protocol hash = Inr s"
    and "(session_step ga w)\<^sup>*\<^sup>* (start_run s) r" and "td \<in> set (forwarded r)"
  shows "td_primaryType td = ''OrderHash'' \<and>
     uint_of (getp (td_domain td) ''chainId'') = Some 1 \<and>
     (\<exists>h. getp (td_message td) ''orderHash'' = JStr h \<and> toLowerCase h = toLowerCase hash) \<and>
     (\<exists>address. ga protocol = Some address \<and>
        addr_of ga (getp (td_domain td) ''verifyingContract'') = ga address)"
proof -
  from assms(1) obtain address where s: "ga protocol = Some address"
    "purpose s = CancellationPurpose address hash" "signatureState s = Available"
    by (auto simp: authorizeOffchainCancellation_def bindR_Inr_iff policy_iffs requireBytes32_def
        split: if_splits)
  from session_forwarded_ok [OF assms(2) s(3) assms(3)] s(2)
  have "assertCancellationTypedData ga td address hash = Inr ()"
    by (simp add: assertPayload_def)
  with s(1) show ?thesis
    by (auto simp: assertCancellationTypedData_def bindR_Inr_iff assertSeaportDomain_def policy_iffs
        assertPrimaryType_def assertBytes32Equals_def requireBytes32_def addr_of_JStr
        split: jsval.splits if_splits)
qed

end
