(* ===== verification/Policy_Wallet_Samples.thy ===== *)
theory Policy_Wallet_Samples
  imports Policy_Wallet
begin

text \<open>
  A concrete mandate, wallet, job and pair of typed-data payloads, and the runs of the signing
  session on them.  They show that the hypotheses of the mandate and wallet theorems can hold: the
  parameter \<open>ga\<close> (viem's \<open>getAddress\<close>) is instantiated by a function that lower-cases a
  40-digit hexadecimal address and rejects everything else.
\<close>

section \<open>Samples\<close>

definition sample_ga :: "string \<Rightarrow> string option" where
  "sample_ga s = (let l = toLowerCase s in if evm_address_pattern l then Some l else None)"

definition sample_maker :: string where
  "sample_maker = ''0x'' @ replicate 40 (CHR ''a'')"

definition sample_nft :: string where
  "sample_nft = ''0x'' @ replicate 40 (CHR ''b'')"

definition sample_policy :: BiddingStartPolicy where
  "sample_policy = \<lparr>wethAllowanceCapWei = 500, trustOpenSeaSignedZoneTraitOffers = False,
     wethApproval = \<lparr>minPriorityFeePerGasWei = 1, maxFeePerGasWei = 2, maxTotalGasFeeWei = 9,
       pendingNoncePolicy = Fail\<rparr>\<rparr>"

definition sample_authority :: BiddingCollectionAuthority where
  "sample_authority = \<lparr>auth_collectionId = 7, auth_contractAddress = sample_nft,
     auth_openseaSlug = ''terraforms'', auth_maxUnitBidWei = 200, auth_maxQuantity = 3\<rparr>"

definition sample_mandate :: BiddingMandate where
  "sample_mandate = \<lparr>mandate_chainId = 1, startPolicy = sample_policy,
     mandate_collections = [sample_authority]\<rparr>"

definition sample_job :: BidderJob where
  "sample_job = \<lparr>jobId = ''job'', revision = 1, collectionId = 7, collectionAddress = sample_nft,
     collectionSlug = ''terraforms'', job_target = Collection (Fin 2) None,
     job_config = \<lparr>ceiling_wei = 200, floor_wei = 100, delta_wei = 1, extraCompetitionTraits = None\<rparr>,
     job_state = empty_state\<rparr>"

definition sample_wallet :: OpenSeaPolicyWallet where
  "sample_wallet = \<lparr>makerAddress = sample_maker, wethAddress = policyWethAddress,
     biddingMandate = sample_mandate\<rparr>"

definition sample_authz :: OpenSeaOfferSigningAuthorization where
  "sample_authz = \<lparr>authz_job = sample_job, authz_totalAmountWei = 300,
     authz_expirationTime = Fin 1700000000\<rparr>"

definition types_value :: "schema \<Rightarrow> (string \<times> jsval) list" where
  "types_value sch = map (\<lambda>(n, fs).
     (n, JArr (map (\<lambda>(f, t). JObj [(''name'', JStr f), (''type'', JStr t)]) fs))) sch"

definition sample_domain :: "(string \<times> jsval) list" where
  "sample_domain = [(''name'', JStr ''Seaport''), (''version'', JStr ''1.6''),
     (''chainId'', JNum (Fin 1)), (''verifyingContract'', JStr seaportAddress)]"

definition weth_props :: "string \<Rightarrow> (string \<times> jsval) list" where
  "weth_props amount = [(''itemType'', JNum (Fin 1)), (''token'', JStr policyWethAddress),
     (''identifierOrCriteria'', JStr ''0''), (''startAmount'', JStr amount), (''endAmount'', JStr amount)]"

definition nft_props :: "(string \<times> jsval) list" where
  "nft_props = [(''itemType'', JNum (Fin 4)), (''token'', JStr sample_nft),
     (''identifierOrCriteria'', JStr ''0''), (''startAmount'', JStr ''2''), (''endAmount'', JStr ''2''),
     (''recipient'', JStr sample_maker)]"

definition sample_message :: "(string \<times> jsval) list" where
  "sample_message =
     [(''offerer'', JStr sample_maker), (''zone'', JStr signedZoneAddress),
      (''zoneHash'', JStr zeroBytes32), (''conduitKey'', JStr conduitKey),
      (''orderType'', JNum (Fin 3)), (''startTime'', JStr ''1600000000''),
      (''endTime'', JStr ''1700000000''), (''salt'', JStr ''0x1f''), (''counter'', JStr ''0''),
      (''offer'', JArr [JObj (weth_props ''300'')]),
      (''consideration'',
         JArr [JObj nft_props, JObj (weth_props ''3'' @ [(''recipient'', JStr sample_nft)])])]"

definition sample_td :: OpenSeaTypedDataInput where
  "sample_td = \<lparr>td_domain = sample_domain, td_types = types_value SEAPORT_ORDER_TYPES,
     td_primaryType = ''OrderComponents'', td_message = sample_message\<rparr>"

definition td_input :: "OpenSeaTypedDataInput \<Rightarrow> jsval" where
  "td_input td = JObj [(''domain'', JObj (td_domain td)), (''types'', JObj (td_types td)),
     (''primaryType'', JStr (td_primaryType td)), (''message'', JObj (td_message td))]"

definition sample_expectation :: OfferSigningExpectation where
  "sample_expectation = \<lparr>exp_collectionAddress = sample_nft, exp_tokenId = None, exp_quantity = 2,
     exp_requiresSignedZoneTrust = False, exp_totalAmountWei = 300,
     exp_expirationTime = 1700000000\<rparr>"

lemmas number_eval = maxUint256_def max_safe_integer_def non_negative_integer_pattern_def
  is_digit_def char_code_def dec_value_def digit_val_def hex_pattern_def is_hex_def
  is_lower_hex_def hex_value_def hex_val_def

lemma sample_uints [simp]:
  "uint_of (JNum (Fin 1)) = Some 1" "uint_of (JNum (Fin 3)) = Some 3" "uint_of (JNum (Fin 4)) = Some 4"
  "uint_of (JStr ''0'') = Some 0" "uint_of (JStr ''300'') = Some 300" "uint_of (JStr ''2'') = Some 2"
  "uint_of (JStr ''3'') = Some 3" "uint_of (JStr ''1600000000'') = Some 1600000000"
  "uint_of (JStr ''1700000000'') = Some 1700000000" "uint_of (JStr ''0x1f'') = Some 31"
  by (simp_all add: uint_of_def number_eval)

lemma lower_letters [simp]:
  "lower_char CHR ''A'' = CHR ''a''" "lower_char CHR ''B'' = CHR ''b''" "lower_char CHR ''C'' = CHR ''c''"
  "lower_char CHR ''D'' = CHR ''d''" "lower_char CHR ''E'' = CHR ''e''" "lower_char CHR ''F'' = CHR ''f''"
  by code_simp+

lemma lower_same [simp]: "char_code c < 65 \<or> 90 < char_code c \<and> char_code c < 192 \<Longrightarrow> lower_char c = c"
  by (auto simp: lower_char_def Let_def)

lemma lowered: "toLowerCase seaportAddress = ''0x0000000000000068f116a894984e2db1123eb395''"
  "toLowerCase policyWethAddress = ''0xc02aaa39b223fe8d0a0e5c4f27ead9083c756cc2''"
  "toLowerCase signedZoneAddress = signedZoneAddress"
  by (simp_all add: toLowerCase_def seaportAddress_def policyWethAddress_def signedZoneAddress_def char_code_def)
lemma lowered_rep:
  "toLowerCase sample_maker = sample_maker" "toLowerCase sample_nft = sample_nft" "toLowerCase zeroAddress = zeroAddress"
  by (simp_all add: toLowerCase_def sample_maker_def sample_nft_def zeroAddress_def char_code_def)

lemma sample_patterns:
  "evm_address_pattern ''0x0000000000000068f116a894984e2db1123eb395''"
  "evm_address_pattern ''0xc02aaa39b223fe8d0a0e5c4f27ead9083c756cc2''"
  "evm_address_pattern signedZoneAddress" "evm_address_pattern sample_maker"
  "evm_address_pattern sample_nft" "evm_address_pattern zeroAddress"
  by (simp_all add: evm_address_pattern_def signedZoneAddress_def sample_maker_def sample_nft_def
      zeroAddress_def is_lower_hex_def is_digit_def char_code_def list_all_iff)

lemma sample_ga [simp]:
  "sample_ga seaportAddress = Some ''0x0000000000000068f116a894984e2db1123eb395''"
  "sample_ga policyWethAddress = Some ''0xc02aaa39b223fe8d0a0e5c4f27ead9083c756cc2''"
  "sample_ga signedZoneAddress = Some signedZoneAddress"
  "sample_ga sample_maker = Some sample_maker" "sample_ga sample_nft = Some sample_nft"
  "sample_ga zeroAddress = Some zeroAddress"
  by (simp_all add: sample_ga_def lowered lowered_rep sample_patterns)

lemma sample_distinct [simp]: "''0xc02aaa39b223fe8d0a0e5c4f27ead9083c756cc2'' \<noteq> sample_nft" "sample_nft \<noteq> ''0xc02aaa39b223fe8d0a0e5c4f27ead9083c756cc2''" "sample_nft \<noteq> zeroAddress"
 "sample_nft \<noteq> []" "sample_maker \<noteq> []" "policyWethAddress \<noteq> []" "seaportAddress \<noteq> []" "signedZoneAddress \<noteq> []"
  by (simp_all add: sample_nft_def zeroAddress_def sample_maker_def policyWethAddress_def seaportAddress_def signedZoneAddress_def replicate_eq_replicate numeral_eq_Suc)
lemma sample_bytes32 [simp]: "bytes32_pattern zeroBytes32" "bytes32_pattern conduitKey"
  by (simp_all add: bytes32_pattern_def zeroBytes32_def conduitKey_def is_hex_def is_lower_hex_def is_digit_def
    char_code_def list_all_iff)

lemma sample_normal [simp]:
  "trim sample_nft = sample_nft" "toLowerCase ''terraforms'' = ''terraforms''"
  "trim ''terraforms'' = ''terraforms''"
  by (simp_all add: trim_def sample_nft_def js_space_def char_code_def toLowerCase_def
      flip: replicate_append_same)

section \<open>The payloads are accepted\<close>

lemma sample_domain_ok: "assertSeaportDomain sample_ga sample_domain seaportAddress = Inr ()"
proof -
  have "sort (object_keys sample_domain) = sort SEAPORT_DOMAIN_FIELDS"
    by (simp add: sample_domain_def object_keys_def SEAPORT_DOMAIN_FIELDS_def less_list_code less_char_def)
  then show ?thesis
    by (simp add: assertSeaportDomain_def assertExactRecordFields_def bindR_Inr_iff policy_iffs assertStringEquals_def)
      (simp add: sample_domain_def)
qed

lemma sample_types_ok: "assertTypedDataTypes (types_value SEAPORT_ORDER_TYPES) SEAPORT_ORDER_TYPES = Inr ()"
proof -
  have sorted: "sort (map fst SEAPORT_ORDER_TYPES) = [''ConsiderationItem'', ''OfferItem'', ''OrderComponents'']"
    by (simp add: SEAPORT_ORDER_TYPES_def less_list_code less_char_def)
  have keys: "object_keys (types_value SEAPORT_ORDER_TYPES) = map fst SEAPORT_ORDER_TYPES"
    by (simp add: object_keys_def types_value_def SEAPORT_ORDER_TYPES_def)
  show ?thesis unfolding assertTypedDataTypes_def keys sorted Let_def
    by (simp add: types_value_def SEAPORT_ORDER_TYPES_def requireArray_def normalizeSchemaField_def requireRecord_def requireString_def)
qed

lemma sample_items_ok:
  "assertOfferItems sample_ga sample_wallet (JArr [JObj (weth_props ''300'')]) 300 = Inr ()"
  "assertConsiderationItems sample_ga sample_wallet
     (JArr [JObj nft_props, JObj (weth_props ''3'' @ [(''recipient'', JStr sample_nft)])])
     sample_expectation = Inr ()"
proof -
  show "assertOfferItems sample_ga sample_wallet (JArr [JObj (weth_props ''300'')]) 300 = Inr ()"
    by (simp add: assertOfferItems_def bindR_Inr_iff requireArray_def requireRecord_def policy_iffs weth_props_def sample_wallet_def)
  have "assertTargetNftItem sample_ga sample_wallet nft_props sample_expectation = Inr ()"
    by (simp add: assertTargetNftItem_def nft_props_def sample_expectation_def bindR_Inr_iff policy_iffs sample_wallet_def)
  moreover have "assertWethFeeItem sample_ga sample_wallet (weth_props ''3'' @ [(''recipient'', JStr sample_nft)]) = Inr 3"
    by (simp add: assertWethFeeItem_def weth_props_def bindR_Inr_iff policy_iffs sample_wallet_def)
  moreover have "classifyItem sample_ga sample_nft nft_props = Inr (nft_props, True)"
   "classifyItem sample_ga sample_nft (weth_props ''3'' @ [(''recipient'', JStr sample_nft)]) =
      Inr (weth_props ''3'' @ [(''recipient'', JStr sample_nft)], False)"
    by (simp_all add: classifyItem_def bindR_Inr_iff policy_iffs nft_props_def weth_props_def)
  ultimately show "assertConsiderationItems sample_ga sample_wallet
     (JArr [JObj nft_props, JObj (weth_props ''3'' @ [(''recipient'', JStr sample_nft)])])
     sample_expectation = Inr ()"
    by (simp add: assertConsiderationItems_def requireArray_def considerationItem_def requireRecord_def sample_expectation_def)
qed

lemma sample_td_ok: "assertOfferTypedData sample_ga sample_wallet sample_td sample_expectation = Inr ()"
proof -
  have "td_domain sample_td = sample_domain" "td_types sample_td = types_value SEAPORT_ORDER_TYPES" 
    "td_primaryType sample_td = ''OrderComponents''" "td_message sample_td = sample_message"
    by (simp_all add: sample_td_def)
  moreover have "exp_totalAmountWei sample_expectation = 300" "exp_expirationTime sample_expectation = 1700000000"
    "makerAddress sample_wallet = sample_maker"
    by (simp_all add: sample_expectation_def sample_wallet_def)
  ultimately show ?thesis
    by (simp add: assertOfferTypedData_def Let_def sample_domain_ok sample_types_ok bindR_Inr_iff policy_iffs
       assertPrimaryType_def sample_message_def sample_items_ok assertBytes32Equals_def requireBytes32_def uint_of_JBigInt maxUint256_def)
qed

definition cancel_session :: SigningSession where
  "cancel_session = \<lparr>purpose = CancellationPurpose ''0x0000000000000068f116a894984e2db1123eb395'' conduitKey,
     active = True, signatureState = Available\<rparr>"
definition offer_session :: SigningSession where
  "offer_session = \<lparr>purpose = OfferPurpose sample_expectation, active = True, signatureState = Available\<rparr>"

lemma sample_authorized: "authorizeOffer sample_ga sample_wallet sample_authz =
   Inr offer_session"
proof -
  have "assertOfferAuthorized sample_mandate sample_job 300 = Inr ()"
    by (simp add: assertOfferAuthorized_def collectionAuthorizationError_def authority_of_def sample_mandate_def
       sample_job_def sample_authority_def lowered_rep resolveOfferQuantity_def max_safe_integer_def)
  then show ?thesis
    by (simp add: authorizeOffer_def createOfferSigningExpectation_def sample_authz_def sample_wallet_def Let_def
      normalizeAddress_def bidderTargetRequiresOpenSeaSignedZoneTrust_def normalizeTargetQuantity_def max_safe_integer_def
      sample_job_def sample_mandate_def sample_policy_def sample_expectation_def offer_session_def)
qed

definition sample_cancel_td :: OpenSeaTypedDataInput where
  "sample_cancel_td = \<lparr>td_domain = sample_domain, td_types = types_value SEAPORT_ORDER_HASH_TYPES,
     td_primaryType = ''OrderHash'', td_message = [(''orderHash'', JStr conduitKey)]\<rparr>"

lemma cloneable_props_all: "cloneable_props ps \<longleftrightarrow> (\<forall>(k, v) \<in> set ps. cloneable v)"
  by (induction ps) auto

lemma normalize_td_input:
  assumes "cloneable_props (td_domain td)" "cloneable_props (td_types td)" "cloneable_props (td_message td)"
    "td_primaryType td \<noteq> []"
  shows "normalizeTypedDataInput (td_input td) = Inr td"
  using assms by (simp add: normalizeTypedDataInput_def td_input_def requireRecord_def snapshotRecord_def requireString_def)

lemma types_cloneable: "cloneable_props (types_value sch)"
  by (auto simp: cloneable_props_all types_value_def)

lemma sample_inputs:
  "normalizeTypedDataInput (td_input sample_td) = Inr sample_td"
  "normalizeTypedDataInput (td_input sample_cancel_td) = Inr sample_cancel_td"
  by (rule normalize_td_input; simp add: sample_td_def sample_cancel_td_def types_cloneable
      sample_domain_def sample_message_def weth_props_def nft_props_def)+

lemma sample_cancel_td_ok:
  "assertCancellationTypedData sample_ga sample_cancel_td
     ''0x0000000000000068f116a894984e2db1123eb395'' conduitKey = Inr ()"
proof -
  let ?p = "''0x0000000000000068f116a894984e2db1123eb395''"
  have "sample_ga ?p = sample_ga seaportAddress"
    using sample_patterns(1) lowered(1) toLowerCase_idem [of seaportAddress]
    by (simp add: sample_ga_def)
  then have "assertSeaportDomain sample_ga sample_domain ?p = Inr ()"
    using sample_domain_ok by (simp add: assertSeaportDomain_def bindR_Inr_iff policy_iffs)
  moreover have "assertTypedDataTypes (types_value SEAPORT_ORDER_HASH_TYPES) SEAPORT_ORDER_HASH_TYPES = Inr ()"
    by (simp add: assertTypedDataTypes_def object_keys_def types_value_def SEAPORT_ORDER_HASH_TYPES_def
        requireArray_def normalizeSchemaField_def requireRecord_def requireString_def)
  ultimately show ?thesis
    by (simp add: assertCancellationTypedData_def sample_cancel_td_def assertPrimaryType_def
        assertBytes32Equals_def requireBytes32_def)
qed

lemma cancel_authorized: "authorizeOffchainCancellation sample_ga seaportAddress conduitKey = Inr cancel_session"
proof -
  have "sample_ga ''0x0000000000000068f116a894984e2db1123eb395'' = sample_ga seaportAddress"
    using sample_patterns(1) lowered(1) toLowerCase_idem [of seaportAddress]
    by (simp add: sample_ga_def)
  then show ?thesis
  by (simp add: authorizeOffchainCancellation_def cancel_session_def normalizeAddress_def assertAddressEquals_def requireBytes32_def)
qed

text \<open>The run in which the SDK requests the payload once and the signer signs it.\<close>

definition signed_run :: "SigningSession \<Rightarrow> OpenSeaTypedDataInput \<Rightarrow> string signing_run" where
  "signed_run s td = \<lparr>run_session = s\<lparr>signatureState := Complete\<rparr>, forwarded = [td], released = [''signature'']\<rparr>"

lemma signed_run_reachable:
  assumes "assertPayload ga w (purpose s) td = Inr ()" and "normalizeTypedDataInput (td_input td) = Inr td"
    and "active s" and "signatureState s = Available"
  shows "(session_step ga w)\<^sup>*\<^sup>* (start_run s) (signed_run s td)"
proof -
  let ?m = "\<lparr>run_session = s\<lparr>signatureState := Pending\<rparr>, forwarded = [td], released = []\<rparr> :: string signing_run"
  have "beginSign ga w (Some (run_session (start_run s :: string signing_run))) (td_input td) = Inr (td, s\<lparr>signatureState := Pending\<rparr>)"
    using assms by (simp add: beginSign_def start_run_def)
  from session_step.forward [OF this] have "session_step ga w (start_run s) ?m"
    by (simp add: start_run_def)
  moreover have "finishSign (run_session ?m) (Inr ''signature'') = (Inr ''signature'', s\<lparr>signatureState := Complete\<rparr>)"
    using assms by (simp add: finishSign_def)
  from session_step.release [OF _ this] have "session_step ga w ?m (signed_run s td)"
    by (simp add: signed_run_def)
  ultimately show ?thesis by (meson rtranclp.rtrancl_into_rtrancl rtranclp.rtrancl_refl)
qed

lemma sample_runs:
  "(session_step sample_ga sample_wallet)\<^sup>*\<^sup>* (start_run offer_session) (signed_run offer_session sample_td)"
  "(session_step sample_ga sample_wallet)\<^sup>*\<^sup>* (start_run cancel_session) (signed_run cancel_session sample_cancel_td)"
  by (rule signed_run_reachable; simp add: assertPayload_def offer_session_def cancel_session_def
      sample_td_ok sample_cancel_td_ok sample_inputs)+

lemma sample_authz_sel [simp]:
  "authz_totalAmountWei sample_authz = 300" "authz_job sample_authz = sample_job"
  "collectionAddress sample_job = sample_nft"
  by (simp_all add: sample_authz_def sample_job_def)

theorem signed_offer_within_mandate_witness:
  "authorizeOffer sample_ga sample_wallet sample_authz = Inr offer_session \<and>
   spends_exactly sample_ga sample_wallet sample_td 300 \<and>
   (\<exists>tokenId q. receives sample_ga sample_wallet sample_td sample_nft tokenId q 300)"
  using signed_offer_within_mandate [OF sample_authorized sample_runs(1), of sample_td]
    sample_authorized
  by (auto simp: signed_run_def)

theorem one_signature_per_session_witness:
  "length (released (signed_run cancel_session sample_cancel_td)) \<le> 1 \<and>
   settleWork (run_session (signed_run cancel_session sample_cancel_td)) (Inr ()) =
     (Inr (), cancel_session\<lparr>signatureState := Complete, active := False\<rparr>)"
  using one_signature_per_session [OF _ sample_runs(2), of _ seaportAddress conduitKey] cancel_authorized
  by (simp add: signed_run_def settleWork_def cancel_session_def)

text \<open>The work settles while a signature is pending; the signature that arrives later is withheld.\<close>

definition late_run :: "string signing_run" where
  "late_run = \<lparr>run_session = offer_session\<lparr>signatureState := Pending\<rparr>, forwarded = [sample_td], released = []\<rparr>"

lemma late_step:
  "session_step sample_ga sample_wallet
     (late_run\<lparr>run_session := offer_session\<lparr>signatureState := Pending, active := False\<rparr>\<rparr>)
     (late_run\<lparr>run_session := offer_session\<lparr>active := False\<rparr>\<rparr>)"
proof -
  let ?r = "late_run\<lparr>run_session := offer_session\<lparr>signatureState := Pending, active := False\<rparr>\<rparr>"
  have "finishSign (run_session ?r) (Inr ''signature'') =
      (Inl (NoLongerActive OfferIntent), offer_session\<lparr>active := False\<rparr>)"
    by (simp add: finishSign_def offer_session_def)
  from session_step.withhold [OF _ this] show ?thesis
    by (simp add: late_run_def)
qed

theorem settled_session_is_silent_witness:
  "settleWork (run_session late_run) (Inr ()) =
     (Inl (CompletedWithoutSignature OfferIntent), offer_session\<lparr>signatureState := Pending, active := False\<rparr>) \<and>
   released (late_run\<lparr>run_session := offer_session\<lparr>active := False\<rparr>\<rparr>) = released late_run"
proof -
  have *: "settleWork (run_session late_run) (Inr ()) =
     (Inl (CompletedWithoutSignature OfferIntent), offer_session\<lparr>signatureState := Pending, active := False\<rparr>)"
    by (simp add: settleWork_def late_run_def offer_session_def)
  from settled_session_is_silent [OF *, of sample_ga sample_wallet] r_into_rtranclp [of "session_step sample_ga sample_wallet", OF late_step] *
  show ?thesis by blast
qed

theorem cancellation_signs_only_its_order_witness:
  "td_primaryType sample_cancel_td = ''OrderHash'' \<and>
   addr_of sample_ga (getp (td_domain sample_cancel_td) ''verifyingContract'') =
     sample_ga ''0x0000000000000068f116a894984e2db1123eb395''"
  using cancellation_signs_only_its_order [OF cancel_authorized sample_runs(2), of sample_cancel_td]
  by (auto simp: signed_run_def sample_cancel_td_def sample_domain_def addr_of_JStr)

lemma sample_mandate_wf: "mandate_wf sample_mandate"
  by (simp add: mandate_wf_def sample_mandate_def policy_wf_def sample_policy_def authority_wf_def
      sample_authority_def maxUint256_def max_safe_integer_def sample_patterns lowered_rep)

definition sample_envelope :: jsval where
  "sample_envelope = JObj
     [(''chainId'', JNum (num_of_int (mandate_chainId sample_mandate))),
      (''startPolicy'', BiddingStartPolicy_snapshot (startPolicy sample_mandate)),
      (''collections'', JArr (map2 with_artgodSlug [''terraforms''] (mandate_collections sample_mandate)))]"

theorem mandate_snapshot_roundtrip_witness:
  "BiddingMandate_parse sample_envelope (mandate_chainId sample_mandate) = Inr sample_mandate"
  unfolding sample_envelope_def
  by (rule mandate_snapshot_roundtrip)
    (simp_all add: sample_mandate_wf trim_def js_space_def char_code_def, simp_all add: sample_mandate_def)

lemma sample_envelope_parse: "BiddingMandate_parse sample_envelope 1 = Inr sample_mandate"
proof -
  have "trim ''terraforms'' \<noteq> []" by (simp add: trim_def js_space_def char_code_def)
  with sample_mandate_wf show ?thesis
    by (simp add: sample_envelope_def BiddingMandate_parse_def mandate_wf_def sample_mandate_def
        startPolicy_snapshot_roundtrip parseCollection_roundtrip requirePositiveSafeInteger_def
        max_safe_integer_def)
qed

theorem mandate_parse_wf_witness: "mandate_wf sample_mandate \<and> mandate_chainId sample_mandate = 1"
  by (rule mandate_parse_wf [OF sample_envelope_parse])
end
