(* ===== verification/Offer_Price.thy ===== *)
theory Offer_Price
  imports Job_Model "HOL-Library.Signed_Division"
begin

text \<open>
  OpenSea's price grid (\<^verbatim>\<open>shared/trading/open-sea-offer-price.ts\<close>) and the resolution
  of price tiers (\<^verbatim>\<open>shared/trading/bidding-price-tier-pricing.ts\<close>).  Amounts are
  \<open>bigint\<close>s; \<open>/\<close> truncates towards zero and is \<^const>\<open>signed_divide\<close>.  viem's
  \<open>parseEther\<close> is the parameter \<open>parseEther\<close>, \<open>Inl message\<close> where it throws.  The locale
  \<open>price_grid\<close> is what the bidder relies on of a marketplace's rounding; OpenSea's functions
  interpret it.
\<close>

section \<open>Errors\<close>

datatype price_error =
    NegativeOfferPrice
  | RequiresParentTier string
  | NonPositivePrice string
  | PriceRequired string
  | PriceNotPositive string
  | PriceInvalid string string
  | PercentInvalid string

section \<open>The price grid\<close>

abbreviation WHOLE_WETH_TIER_MIN_WEI :: int where "WHOLE_WETH_TIER_MIN_WEI \<equiv> 1000000000000000000"
abbreviation TENTH_WETH_TIER_MIN_WEI :: int where "TENTH_WETH_TIER_MIN_WEI \<equiv> 100000000000000000"
abbreviation TWO_DECIMAL_STEP_WEI :: int where "TWO_DECIMAL_STEP_WEI \<equiv> 10000000000000000"
abbreviation THREE_DECIMAL_STEP_WEI :: int where "THREE_DECIMAL_STEP_WEI \<equiv> 1000000000000000"
abbreviation FOUR_DECIMAL_STEP_WEI :: int where "FOUR_DECIMAL_STEP_WEI \<equiv> 100000000000000"

definition getOpenSeaOfferPriceStepWei :: "int \<Rightarrow> price_error + int" where
  "getOpenSeaOfferPriceStepWei amountWei =
     (if amountWei < 0 then Inl NegativeOfferPrice
      else if amountWei \<ge> WHOLE_WETH_TIER_MIN_WEI then Inr TWO_DECIMAL_STEP_WEI
      else if amountWei \<ge> TENTH_WETH_TIER_MIN_WEI then Inr THREE_DECIMAL_STEP_WEI
      else Inr FOUR_DECIMAL_STEP_WEI)"

definition roundOpenSeaOfferPriceDown :: "int \<Rightarrow> price_error + int" where
  "roundOpenSeaOfferPriceDown amountWei =
     bindR (getOpenSeaOfferPriceStepWei amountWei) (\<lambda>stepWei.
     Inr ((amountWei sdiv stepWei) * stepWei))"

definition roundOpenSeaOfferPriceUp :: "int \<Rightarrow> price_error + int" where
  "roundOpenSeaOfferPriceUp amountWei =
     bindR (getOpenSeaOfferPriceStepWei amountWei) (\<lambda>stepWei.
     Inr (((amountWei + stepWei - 1) sdiv stepWei) * stepWei))"

definition getOpenSeaBidDeltaStepWei :: "int \<Rightarrow> int \<Rightarrow> price_error + int" where
  "getOpenSeaBidDeltaStepWei floorWei ceilingWei =
     bindR (getOpenSeaOfferPriceStepWei floorWei) (\<lambda>floorStep.
     bindR (getOpenSeaOfferPriceStepWei ceilingWei) (\<lambda>ceilingStep.
     Inr (if floorStep > ceilingStep then floorStep else ceilingStep)))"

definition isValidOpenSeaBidDeltaWei :: "int \<Rightarrow> int \<Rightarrow> int \<Rightarrow> price_error + bool" where
  "isValidOpenSeaBidDeltaWei deltaWei floorWei ceilingWei =
     bindR (getOpenSeaBidDeltaStepWei floorWei ceilingWei) (\<lambda>stepWei.
     Inr (deltaWei > 0 \<and> deltaWei smod stepWei = 0))"

definition nearestOpenSeaBidDeltaWei :: "int \<Rightarrow> int \<Rightarrow> int \<Rightarrow> price_error + int" where
  "nearestOpenSeaBidDeltaWei deltaWei floorWei ceilingWei =
     bindR (getOpenSeaBidDeltaStepWei floorWei ceilingWei) (\<lambda>stepWei.
     Inr (if deltaWei \<le> stepWei then stepWei
          else ((deltaWei + stepWei sdiv 2) sdiv stepWei) * stepWei))"

section \<open>Price tiers\<close>

datatype DeltaKind = Absolute | Percent

datatype FloorConfig =
    FloorFixed "string option"
  | FloorParentDelta DeltaKind "string option" "string option"

datatype CeilingConfig =
    CeilingFixed "string option"
  | CeilingFloorDelta DeltaKind "string option" "string option"
  | CeilingParentDelta DeltaKind "string option" "string option"

definition PERCENT_SCALE :: int where "PERCENT_SCALE = 1000000"
definition PERCENT_BASE :: int where "PERCENT_BASE = 100 * PERCENT_SCALE"

text \<open>The leading sign of a numeric text and the text after it.\<close>

definition text_sign :: "string \<Rightarrow> int" where
  "text_sign s = (case s of c # _ \<Rightarrow> if c = CHR ''-'' then - 1 else 1 | [] \<Rightarrow> 1)"

definition text_unsigned :: "string \<Rightarrow> string" where
  "text_unsigned s =
     (case s of c # cs \<Rightarrow> if c = CHR ''-'' \<or> c = CHR ''+'' then cs else s | [] \<Rightarrow> s)"

text \<open>\<open>value?.trim()\<close> is truthy.\<close>

definition required_text :: "string option \<Rightarrow> string \<Rightarrow> price_error + string" where
  "required_text v field =
     (case v of
        None \<Rightarrow> Inl (PriceRequired field)
      | Some s \<Rightarrow> if trim s = [] then Inl (PriceRequired field) else Inr (trim s))"

definition parseEthAmount ::
  "(string \<Rightarrow> string + int) \<Rightarrow> string \<Rightarrow> string \<Rightarrow> price_error + int" where
  "parseEthAmount parseEther v field =
     (if text_unsigned v = [] then Inl (PriceInvalid field ''empty numeric value'')
      else case parseEther (text_unsigned v) of
             Inl message \<Rightarrow> Inl (PriceInvalid field message)
           | Inr wei \<Rightarrow> Inr (text_sign v * wei))"

definition parsePositiveEthAmount ::
  "(string \<Rightarrow> string + int) \<Rightarrow> string option \<Rightarrow> string \<Rightarrow> price_error + int" where
  "parsePositiveEthAmount parseEther v field =
     bindR (required_text v field) (\<lambda>s.
     bindR (parseEthAmount parseEther s field) (\<lambda>parsed.
     bindR (guardR (\<not> parsed \<le> 0) (PriceNotPositive field)) (\<lambda>_.
     Inr parsed)))"

definition parseSignedEthAmount ::
  "(string \<Rightarrow> string + int) \<Rightarrow> string option \<Rightarrow> string \<Rightarrow> price_error + int" where
  "parseSignedEthAmount parseEther v field =
     bindR (required_text v field) (\<lambda>s. parseEthAmount parseEther s field)"

text \<open>\<open>/^\d+(\.\d+)?$/\<close>, and the two parts of \<open>split(".")\<close> on a text that matches.\<close>

definition whole_part :: "string \<Rightarrow> string" where
  "whole_part s = takeWhile (\<lambda>c. c \<noteq> CHR ''.'') s"

definition fraction_part :: "string \<Rightarrow> string" where
  "fraction_part s = drop 1 (dropWhile (\<lambda>c. c \<noteq> CHR ''.'') s)"

definition percent_pattern :: "string \<Rightarrow> bool" where
  "percent_pattern s \<longleftrightarrow>
     whole_part s \<noteq> [] \<and> list_all is_digit (whole_part s) \<and>
     (whole_part s = s \<or> fraction_part s \<noteq> [] \<and> list_all is_digit (fraction_part s))"

definition padded_fraction :: "string \<Rightarrow> string" where
  "padded_fraction f = take 6 (f @ replicate (6 - length f) (CHR ''0''))"

definition parseSignedPercent :: "string option \<Rightarrow> string \<Rightarrow> price_error + int" where
  "parseSignedPercent v field =
     bindR (required_text v field) (\<lambda>normalized.
     let u = text_unsigned normalized in
     bindR (guardR (percent_pattern u) (PercentInvalid field)) (\<lambda>_.
     Inr (text_sign normalized *
          (dec_value (whole_part u) * PERCENT_SCALE + dec_value (padded_fraction (fraction_part u))))))"

definition applyDelta ::
  "(string \<Rightarrow> string + int) \<Rightarrow> int \<Rightarrow> DeltaKind \<Rightarrow> string option \<Rightarrow> string option \<Rightarrow> string
     \<Rightarrow> price_error + int" where
  "applyDelta parseEther baseWei kind deltaEth percent field =
     bindR (case kind of
              Absolute \<Rightarrow>
                bindR (parseSignedEthAmount parseEther deltaEth (field @ ''.deltaEth'')) (\<lambda>d.
                Inr (baseWei + d))
            | Percent \<Rightarrow>
                bindR (parseSignedPercent percent (field @ ''.percent'')) (\<lambda>p.
                Inr (baseWei + (baseWei * p) sdiv PERCENT_BASE))) (\<lambda>v.
     bindR (guardR (\<not> v \<le> 0) (NonPositivePrice field)) (\<lambda>_. Inr v))"

definition resolveBiddingPriceTierFloorWei ::
  "(string \<Rightarrow> string + int) \<Rightarrow> FloorConfig \<Rightarrow> int option \<Rightarrow> price_error + int" where
  "resolveBiddingPriceTierFloorWei parseEther config parentFloorWei =
     (case config of
        FloorFixed v \<Rightarrow> parsePositiveEthAmount parseEther v ''floorConfig.valueEth''
      | FloorParentDelta kind deltaEth percent \<Rightarrow>
          (case parentFloorWei of
             None \<Rightarrow> Inl (RequiresParentTier ''floorConfig'')
           | Some base \<Rightarrow> applyDelta parseEther base kind deltaEth percent ''floorConfig''))"

definition resolveBiddingPriceTierCeilingWei ::
  "(string \<Rightarrow> string + int) \<Rightarrow> CeilingConfig \<Rightarrow> int \<Rightarrow> int option \<Rightarrow> price_error + int" where
  "resolveBiddingPriceTierCeilingWei parseEther config floorWei parentCeilingWei =
     (case config of
        CeilingFixed v \<Rightarrow> parsePositiveEthAmount parseEther v ''ceilingConfig.valueEth''
      | CeilingFloorDelta kind deltaEth percent \<Rightarrow>
          applyDelta parseEther floorWei kind deltaEth percent ''ceilingConfig''
      | CeilingParentDelta kind deltaEth percent \<Rightarrow>
          (case parentCeilingWei of
             None \<Rightarrow> Inl (RequiresParentTier ''ceilingConfig'')
           | Some base \<Rightarrow> applyDelta parseEther base kind deltaEth percent ''ceilingConfig''))"

section \<open>What a client relies on of a price grid\<close>

locale price_grid =
  fixes on_grid :: "int \<Rightarrow> bool"
    and down :: "int \<Rightarrow> 'e + int"
    and up :: "int \<Rightarrow> 'e + int"
  assumes grid_nonneg: "on_grid p \<Longrightarrow> 0 \<le> p"
    and grid_zero: "on_grid 0"
    and down_total: "0 \<le> x \<Longrightarrow> \<exists>p. down x = Inr p"
    and down_greatest:
      "down x = Inr p \<Longrightarrow> on_grid p \<and> p \<le> x \<and> (\<forall>q. on_grid q \<longrightarrow> q \<le> x \<longrightarrow> q \<le> p)"
    and up_total: "0 \<le> x \<Longrightarrow> \<exists>p. up x = Inr p"
    and up_least:
      "up x = Inr p \<Longrightarrow> on_grid p \<and> x \<le> p \<and> (\<forall>q. on_grid q \<longrightarrow> x \<le> q \<longrightarrow> p \<le> q)"
begin

lemma down_fix: "on_grid p \<Longrightarrow> down p = Inr p"
  using down_total [of p] down_greatest [of p] grid_nonneg [of p] by force

lemma up_fix: "on_grid p \<Longrightarrow> up p = Inr p"
  using up_total [of p] up_least [of p] grid_nonneg [of p] by force

lemma up_mono: "up x = Inr p \<Longrightarrow> up y = Inr q \<Longrightarrow> x \<le> y \<Longrightarrow> p \<le> q"
  using up_least [of x p] up_least [of y q] by auto

lemma down_le_up: "down x = Inr p \<Longrightarrow> up x = Inr q \<Longrightarrow> p \<le> q"
  using down_greatest [of x p] up_least [of x q] by force

end

section \<open>OpenSea's functions meet the contract\<close>

definition open_sea_step :: "int \<Rightarrow> int" where
  "open_sea_step x =
     (if x \<ge> WHOLE_WETH_TIER_MIN_WEI then TWO_DECIMAL_STEP_WEI
      else if x \<ge> TENTH_WETH_TIER_MIN_WEI then THREE_DECIMAL_STEP_WEI else FOUR_DECIMAL_STEP_WEI)"

definition open_sea_grid :: "int \<Rightarrow> bool" where
  "open_sea_grid p \<longleftrightarrow> 0 \<le> p \<and> open_sea_step p dvd p"

lemma step_eq: "getOpenSeaOfferPriceStepWei x = (if x < 0 then Inl NegativeOfferPrice else Inr (open_sea_step x))"
  by (simp add: getOpenSeaOfferPriceStepWei_def open_sea_step_def)

lemma step_pos: "0 < open_sea_step x"
  by (simp add: open_sea_step_def)

lemma sdiv_nonneg: "0 \<le> a \<Longrightarrow> 0 < b \<Longrightarrow> a sdiv b = a div (b::int)"
  by (cases "a = 0") (simp_all add: signed_divide_int_def sgn_if)

lemma down_eq: "roundOpenSeaOfferPriceDown x = Inr p \<longleftrightarrow> 0 \<le> x \<and> p = x div open_sea_step x * open_sea_step x"
  using step_pos [of x] by (auto simp: roundOpenSeaOfferPriceDown_def step_eq sdiv_nonneg)

lemma up_eq: "roundOpenSeaOfferPriceUp x = Inr p \<longleftrightarrow>
   0 \<le> x \<and> p = (x + open_sea_step x - 1) div open_sea_step x * open_sea_step x"
  using step_pos [of x] by (auto simp: roundOpenSeaOfferPriceUp_def step_eq sdiv_nonneg)

lemma multiple_below: "(s::int) dvd b \<Longrightarrow> 0 < s \<Longrightarrow> b \<le> x \<Longrightarrow> b \<le> x div s * s"
  by (metis dvd_div_mult_self mult_right_mono order_less_imp_le zdiv_mono1)

lemma multiple_above:
  assumes "(s::int) dvd b" "0 < s" "x \<le> b"
  shows "(x + s - 1) div s * s \<le> b"
proof -
  from assms(1) obtain k where k: "b = s * k" by (rule dvdE)
  have "(x + s - 1) div s \<le> (s - 1 + s * k) div s"
    using assms(2,3) k by (intro zdiv_mono1) simp_all
  also have "\<dots> = k" using assms(2) by simp
  finally show ?thesis using assms(2) by (simp add: k mult.commute mult_left_mono)
qed

lemma ceil_ge: "0 < s \<Longrightarrow> x \<le> (x + s - 1) div s * (s::int)"
  using div_mult_mod_eq [of "x + s - 1" s] pos_mod_bound [of s "x + s - 1"] by linarith

lemma floor_le: "0 < s \<Longrightarrow> x div s * (s::int) \<le> x"
  using div_mult_mod_eq [of x s] pos_mod_sign [of s x] by linarith

text \<open>The tiers: the steps grow with the price and divide the tier bounds.\<close>

lemma step_mono: "x \<le> y \<Longrightarrow> open_sea_step x dvd open_sea_step y"
  by (auto simp: open_sea_step_def)

lemma step_dvd_bounds:
  "open_sea_step x dvd WHOLE_WETH_TIER_MIN_WEI"
  "x < WHOLE_WETH_TIER_MIN_WEI \<Longrightarrow> open_sea_step x dvd TENTH_WETH_TIER_MIN_WEI"
  by (auto simp: open_sea_step_def)

lemma step_down: "0 \<le> x \<Longrightarrow> open_sea_step (x div open_sea_step x * open_sea_step x) = open_sea_step x"
  using multiple_below [OF step_dvd_bounds(1) step_pos, of x] floor_le [OF step_pos, of x x]
    multiple_below [OF step_dvd_bounds(2) step_pos, of x x]
  by (auto simp: open_sea_step_def split: if_splits)

lemma step_up_dvd:
  assumes "0 \<le> x" defines "p \<equiv> (x + open_sea_step x - 1) div open_sea_step x * open_sea_step x"
  shows "open_sea_step p dvd p"
proof -
  have up: "x \<le> p" unfolding p_def by (rule ceil_ge [OF step_pos])
  have dv: "open_sea_step x dvd p" by (simp add: p_def)
  show ?thesis
  proof (cases "open_sea_step p = open_sea_step x")
    case False
    with up have "p = WHOLE_WETH_TIER_MIN_WEI \<or> p = TENTH_WETH_TIER_MIN_WEI"
      using multiple_above [OF step_dvd_bounds(1) step_pos, of x x]
        multiple_above [OF step_dvd_bounds(2) step_pos, of x x]
      unfolding p_def [symmetric] by (auto simp: open_sea_step_def split: if_splits)
    then show ?thesis by (auto simp: open_sea_step_def)
  qed (use dv in simp)
qed

interpretation open_sea: price_grid open_sea_grid roundOpenSeaOfferPriceDown roundOpenSeaOfferPriceUp
proof unfold_locales
  fix x p
  assume "roundOpenSeaOfferPriceDown x = Inr p"
  then have x: "0 \<le> x" and p: "p = x div open_sea_step x * open_sea_step x" by (simp_all add: down_eq)
  have "q \<le> p" if "open_sea_grid q" "q \<le> x" for q
  proof (cases "open_sea_step q = open_sea_step x")
    case True
    with that show ?thesis unfolding p by (intro multiple_below step_pos) (simp_all add: open_sea_grid_def)
  next
    case False
    with \<open>q \<le> x\<close> show ?thesis
      using multiple_below [OF step_dvd_bounds(1) step_pos, of x x]
        multiple_below [OF step_dvd_bounds(2) step_pos, of x x]
      unfolding p [symmetric] by (auto simp: open_sea_step_def split: if_splits)
  qed
  then show "open_sea_grid p \<and> p \<le> x \<and> (\<forall>q. open_sea_grid q \<longrightarrow> q \<le> x \<longrightarrow> q \<le> p)"
    using step_down [OF x] x floor_le [OF step_pos, of x x] step_pos [of x]
    by (auto simp: open_sea_grid_def p pos_imp_zdiv_nonneg_iff)
next
  fix x p
  assume "roundOpenSeaOfferPriceUp x = Inr p"
  then have x: "0 \<le> x" and p: "p = (x + open_sea_step x - 1) div open_sea_step x * open_sea_step x"
    by (simp_all add: up_eq)
  have "p \<le> q" if "open_sea_grid q" "x \<le> q" for q
    using that step_mono [of x q] unfolding p
    by (intro multiple_above step_pos) (auto simp: open_sea_grid_def intro: dvd_trans)
  then show "open_sea_grid p \<and> x \<le> p \<and> (\<forall>q. open_sea_grid q \<longrightarrow> x \<le> q \<longrightarrow> p \<le> q)"
    using step_up_dvd [OF x] ceil_ge [OF step_pos, of x x] x by (auto simp: open_sea_grid_def p)
qed (auto simp: open_sea_grid_def down_eq up_eq)

section \<open>Properties\<close>

text \<open>
  Rounding is optimal on the OpenSea grid: down gives the greatest valid price at or below the
  amount, up the least valid price at or above it, and both throw exactly on negative amounts.
\<close>

theorem open_sea_rounding_optimal:
  "if x < 0
   then roundOpenSeaOfferPriceDown x = Inl NegativeOfferPrice \<and>
        roundOpenSeaOfferPriceUp x = Inl NegativeOfferPrice
   else \<exists>p q. roundOpenSeaOfferPriceDown x = Inr p \<and> roundOpenSeaOfferPriceUp x = Inr q \<and>
        {r. open_sea_grid r \<and> p < r \<and> r < q} = {} \<and> open_sea_grid p \<and> open_sea_grid q \<and>
        p \<le> x \<and> x \<le> q \<and> (p = q) = open_sea_grid x"
proof (cases "x < 0")
  case True
  then show ?thesis
    by (simp add: roundOpenSeaOfferPriceDown_def roundOpenSeaOfferPriceUp_def step_eq)
next
  case False
  then obtain p q where pq: "roundOpenSeaOfferPriceDown x = Inr p" "roundOpenSeaOfferPriceUp x = Inr q"
    using open_sea.down_total [of x] open_sea.up_total [of x] by auto
  with open_sea.down_greatest [OF pq(1)] open_sea.up_least [OF pq(2)] open_sea.down_fix [of x]
    open_sea.up_fix [of x] False show ?thesis by fastforce
qed

lemma delta_step_eq:
  "getOpenSeaBidDeltaStepWei f c =
     (if f < 0 \<or> c < 0 then Inl NegativeOfferPrice
      else Inr (max (open_sea_step f) (open_sea_step c)))"
  by (simp add: getOpenSeaBidDeltaStepWei_def step_eq max_def)

lemma smod_nonneg: "0 \<le> a \<Longrightarrow> 0 < b \<Longrightarrow> a smod b = a mod (b::int)"
  by (cases "a = 0") (simp_all add: signed_modulo_int_def sgn_if)

text \<open>The nearest positive multiple of a step.\<close>

lemma nearest_multiple:
  assumes "0 < (s::int)" and "even s" and "s < d" and "0 < m" and "s dvd m"
  defines "n \<equiv> (d + s div 2) div s * s"
  shows "0 < n" and "s dvd n" and "\<bar>n - d\<bar> \<le> \<bar>m - d\<bar>" and "\<bar>n - d\<bar> = \<bar>m - d\<bar> \<Longrightarrow> m \<le> n"
proof -
  have lo: "n \<le> d + s div 2" and hi: "d + s div 2 < n + s"
    unfolding n_def using div_mult_mod_eq [of "d + s div 2" s]
      pos_mod_bound [OF assms(1), of "d + s div 2"] pos_mod_sign [OF assms(1), of "d + s div 2"]
    by linarith+
  have half: "2 * (s div 2) = s" using assms(2) by simp
  show "s dvd n" by (simp add: n_def)
  show "0 < n" using hi assms(1,3) half by linarith
  have gap: "n + s \<le> m \<or> m \<le> n - s \<or> m = n"
  proof -
    from \<open>s dvd m\<close> \<open>s dvd n\<close> have "s dvd m - n" by simp
    then obtain k where k: "m - n = s * k" by (rule dvdE)
    consider "k \<le> - 1" | "k = 0" | "1 \<le> k" by linarith
    then show ?thesis
    proof cases
      case 1
      then have "s * k \<le> s * (- 1)" using assms(1) by (intro mult_left_mono) simp_all
      with k show ?thesis by simp
    next
      case 3
      then have "s * 1 \<le> s * k" using assms(1) by (intro mult_left_mono) simp_all
      with k show ?thesis by simp
    qed (use k in simp)
  qed
  then show "\<bar>n - d\<bar> \<le> \<bar>m - d\<bar>" using lo hi half by linarith
  show "\<bar>n - d\<bar> = \<bar>m - d\<bar> \<Longrightarrow> m \<le> n" using gap lo hi half by linarith
qed

lemma step_even: "even (open_sea_step x)"
  by (simp add: open_sea_step_def)

text \<open>
  The suggested bid delta is valid for its price range, no valid delta is closer to the entered
  amount, and of two equally close deltas it is the larger one.
\<close>

theorem nearest_delta_is_closest:
  assumes "0 \<le> floorWei" and "0 \<le> ceilingWei"
  shows "\<exists>n. nearestOpenSeaBidDeltaWei d floorWei ceilingWei = Inr n \<and>
     isValidOpenSeaBidDeltaWei n floorWei ceilingWei = Inr True \<and>
     (\<forall>m. isValidOpenSeaBidDeltaWei m floorWei ceilingWei = Inr True \<longrightarrow>
        \<bar>n - d\<bar> \<le> \<bar>m - d\<bar> \<and> (\<bar>n - d\<bar> = \<bar>m - d\<bar> \<longrightarrow> m \<le> n))"
proof -
  define s where "s = max (open_sea_step floorWei) (open_sea_step ceilingWei)"
  have s: "0 < s" "even s" using step_pos step_even by (auto simp: s_def max_def)
  have step: "getOpenSeaBidDeltaStepWei floorWei ceilingWei = Inr s"
    using assms by (simp add: delta_step_eq s_def)
  have valid: "isValidOpenSeaBidDeltaWei m floorWei ceilingWei = Inr True \<longleftrightarrow> 0 < m \<and> s dvd m" for m
    using s(1) by (auto simp: isValidOpenSeaBidDeltaWei_def step smod_nonneg dvd_eq_mod_eq_0)
  show ?thesis
  proof (cases "d \<le> s")
    case True
    have "s \<le> m" if "0 < m" "s dvd m" for m using that by (simp add: zdvd_imp_le)
    with True s(1) show ?thesis
      by (fastforce simp: valid nearestOpenSeaBidDeltaWei_def step)
  next
    case False
    moreover have "nearestOpenSeaBidDeltaWei d floorWei ceilingWei = Inr ((d + s div 2) div s * s)"
      using False s by (simp add: nearestOpenSeaBidDeltaWei_def step sdiv_nonneg)
    ultimately show ?thesis
      using nearest_multiple [OF s, of d] s(1) by (auto simp: valid)
  qed
qed

theorem nearest_delta_is_closest_witness:
  "\<exists>n. nearestOpenSeaBidDeltaWei 150000000000000 0 99999999999999999 = Inr n \<and>
     isValidOpenSeaBidDeltaWei n 0 99999999999999999 = Inr True"
  using nearest_delta_is_closest [of 0 99999999999999999 150000000000000] by auto

text \<open>A price tier never resolves to a floor or a ceiling that is not positive.\<close>

theorem resolved_tier_prices_positive:
  assumes "resolveBiddingPriceTierFloorWei parseEther fc parentFloor = Inr f"
    and "resolveBiddingPriceTierCeilingWei parseEther cc f parentCeiling = Inr c"
  shows "0 < f \<and> 0 < c"
  using assms
  by (auto simp: resolveBiddingPriceTierFloorWei_def resolveBiddingPriceTierCeilingWei_def
      parsePositiveEthAmount_def applyDelta_def bindR_Inr_iff
      split: FloorConfig.splits CeilingConfig.splits option.splits)

section \<open>Percent offsets\<close>

lemma foldl_dec_acc:
  "foldl (\<lambda>n c. 10 * n + int (digit_val c)) a s = a * 10 ^ length s + dec_value s"
proof (induction s rule: rev_induct)
  case (snoc c s)
  then show ?case by (simp add: dec_value_snoc algebra_simps)
qed (simp add: dec_value_def)

lemma dec_value_append: "dec_value (s @ t) = dec_value s * 10 ^ length t + dec_value t"
  unfolding dec_value_def [of "s @ t"] foldl_append dec_value_def [of s, symmetric]
  by (rule foldl_dec_acc)

lemma dec_value_lt: "list_all is_digit s \<Longrightarrow> dec_value s < 10 ^ length s"
proof (induction s rule: rev_induct)
  case (snoc c s)
  then have "digit_val c \<le> 9" "dec_value s + 1 \<le> 10 ^ length s"
    by (auto simp: is_digit_def digit_val_def)
  then show ?case by (simp add: dec_value_snoc)
qed (simp add: dec_value_def)

lemma dec_value_zeros: "dec_value (replicate n CHR ''0'') = 0"
proof (induction n)
  case (Suc n)
  have "replicate (Suc n) CHR ''0'' = replicate n CHR ''0'' @ ''0''" by (simp add: replicate_append_same)
  with Suc show ?case by (simp only: dec_value_snoc) (simp add: digit_val_def char_code_def)
qed (simp add: dec_value_def)

lemma padded_fraction_value:
  assumes "list_all is_digit f"
  shows "dec_value (padded_fraction f) = (dec_value f * 10 ^ 6) div 10 ^ length f"
proof (cases "length f \<le> 6")
  case True
  then have "dec_value (padded_fraction f) = dec_value f * 10 ^ (6 - length f)"
    by (simp add: padded_fraction_def dec_value_append dec_value_zeros)
  moreover have "(10::int) ^ 6 = 10 ^ (6 - length f) * 10 ^ length f"
    using True by (simp flip: power_add)
  ultimately show ?thesis by (simp only: mult.assoc [symmetric]) simp
next
  case False
  then have l: "length f = 6 + length (drop 6 f)" by simp
  have "dec_value f = dec_value (take 6 f @ drop 6 f)" by simp
  also have "\<dots> = dec_value (take 6 f) * 10 ^ length (drop 6 f) + dec_value (drop 6 f)"
    by (rule dec_value_append)
  finally have f: "dec_value f = dec_value (take 6 f) * 10 ^ length (drop 6 f) + dec_value (drop 6 f)" .
  have d: "list_all is_digit (drop 6 f)" using assms by (metis append_take_drop_id list_all_append)
  have "(dec_value f * 10 ^ 6) div 10 ^ length f = dec_value f div 10 ^ length (drop 6 f)"
  proof -
    have "(10::int) ^ length f = 10 ^ length (drop 6 f) * 10 ^ 6"
      unfolding power_add [symmetric] using l by (metis add.commute)
    moreover have "(10::int) ^ 6 \<noteq> 0" by simp
    ultimately show ?thesis by (metis div_mult_mult2)
  qed
  also have "\<dots> = dec_value (take 6 f)"
    using dec_value_lt [OF d] dec_value_nonneg [of "drop 6 f"] by (simp add: f)
  finally show ?thesis using False by (simp add: padded_fraction_def)
qed

text \<open>
  A percent offset is its sign times the entered decimal, in millionths, truncated: digits
  beyond the sixth decimal place are dropped and none before it is lost.
\<close>

theorem percent_is_truncated_decimal:
  assumes "list_all is_digit whole" and "list_all is_digit fraction" and "whole \<noteq> []" and "fraction \<noteq> []"
  shows "parseSignedPercent (Some (''-'' @ whole @ ''.'' @ fraction)) field =
     Inr (- (dec_value (whole @ fraction) * PERCENT_SCALE div 10 ^ length fraction))"
proof -
  let ?s = "''-'' @ whole @ ''.'' @ fraction"
  have ns: "\<not> js_space c" if "is_digit c" for c using that by (auto simp: js_space_def is_digit_def)
  have "trim ?s = ?s"
  proof -
    have "dropWhile js_space ?s = ?s" by (simp add: js_space_def char_code_def)
    moreover have "dropWhile js_space (rev ?s) = rev ?s"
      using assms(2,4) ns by (cases fraction rule: rev_cases) auto
    ultimately show ?thesis by (simp only: trim_def rev_rev_ident)
  qed
  moreover have nd: "\<forall>c\<in>set whole. c \<noteq> CHR ''.''"
    using assms(1) by (auto simp: list_all_iff is_digit_def char_code_def)
  then have "whole_part (whole @ ''.'' @ fraction) = whole" "fraction_part (whole @ ''.'' @ fraction) = fraction"
    by (simp_all add: whole_part_def fraction_part_def)
  moreover have "dec_value (whole @ fraction) * PERCENT_SCALE div 10 ^ length fraction =
      dec_value whole * PERCENT_SCALE + dec_value fraction * 10 ^ 6 div 10 ^ length fraction"
    using div_mult_self1 [of "10 ^ length fraction" "dec_value fraction * 10 ^ 6" "dec_value whole * 10 ^ 6"]
    by (simp add: dec_value_append PERCENT_SCALE_def algebra_simps)
  ultimately show ?thesis
    using assms
    by (simp add: parseSignedPercent_def required_text_def text_unsigned_def text_sign_def Let_def
        percent_pattern_def padded_fraction_value [OF assms(2)])
qed

theorem percent_is_truncated_decimal_witness:
  "parseSignedPercent (Some ''-12.3456789'') ''f'' = Inr (- 12345678)"
  using percent_is_truncated_decimal [of "''12''" "''3456789''" "''f''"]
  by (simp add: is_digit_def char_code_def dec_value_def digit_val_def PERCENT_SCALE_def)

theorem resolved_tier_prices_positive_witness:
  "resolveBiddingPriceTierFloorWei (\<lambda>s. if s = ''1'' then Inr 1000 else Inl ''invalid'') (FloorFixed (Some ''1'')) None = Inr 1000 \<and>
   0 < (1000::int) \<and> 0 < (1100::int)"
proof -
  let ?pe = "\<lambda>s. if s = ''1'' then Inr 1000 else Inl ''invalid''"
  have f: "resolveBiddingPriceTierFloorWei ?pe (FloorFixed (Some ''1'')) None = Inr 1000"
    by (simp add: resolveBiddingPriceTierFloorWei_def parsePositiveEthAmount_def required_text_def trim_def
        js_space_def char_code_def parseEthAmount_def text_unsigned_def text_sign_def)
  have c: "resolveBiddingPriceTierCeilingWei ?pe (CeilingFloorDelta Percent None (Some ''10'')) 1000 None = Inr 1100"
    by (simp add: resolveBiddingPriceTierCeilingWei_def applyDelta_def parseSignedPercent_def required_text_def trim_def
        js_space_def char_code_def text_unsigned_def text_sign_def percent_pattern_def whole_part_def is_digit_def
        fraction_part_def padded_fraction_def dec_value_def digit_val_def PERCENT_SCALE_def PERCENT_BASE_def sdiv_nonneg
        dec_value_zeros [unfolded dec_value_def digit_val_def char_code_def])
  show ?thesis using f resolved_tier_prices_positive [OF f c] by blast
qed
end
