(* ===== verification/Json_Text.thy ===== *)
theory Json_Text
  imports Prelude
begin

text \<open>
  The JSON texts the sources use as keys (\<open>JSON.stringify\<close> of arrays of strings and numbers),
  with the proof that they identify their contents: a reader of the quoted form recovers the string
  and the rest of the text.  Also the two list operations built on such keys: dropping entries
  whose key was already seen, and the stable sort with a comparator.
\<close>

section \<open>Quoted strings\<close>

definition hex_digit :: "nat \<Rightarrow> char" where
  "hex_digit d = (if d < 10 then char_of (48 + d) else char_of (87 + d))"

definition backslash :: char where "backslash = CHR 0x5C"
definition dquote :: char where "dquote = CHR 0x22"

text \<open>One character of \<open>JSON.stringify(string)\<close>.\<close>

definition json_char :: "char \<Rightarrow> string" where
  "json_char c =
     (let n = char_code c in
      if n = 34 then [backslash, dquote]
      else if n = 92 then [backslash, backslash]
      else if n = 8 then [backslash, CHR ''b'']
      else if n = 9 then [backslash, CHR ''t'']
      else if n = 10 then [backslash, CHR ''n'']
      else if n = 12 then [backslash, CHR ''f'']
      else if n = 13 then [backslash, CHR ''r'']
      else if n < 32
      then [backslash, CHR ''u'', CHR ''0'', CHR ''0'', hex_digit (n div 16), hex_digit (n mod 16)]
      else [c])"

definition json_string :: "string \<Rightarrow> string" where
  "json_string s = dquote # concat (map json_char s) @ [dquote]"

text \<open>Array literals without white space.\<close>

fun comma_separated :: "string list \<Rightarrow> string" where
  "comma_separated [] = []"
| "comma_separated [x] = x"
| "comma_separated (x # y # ys) = x @ CHR '','' # comma_separated (y # ys)"

definition json_array :: "string list \<Rightarrow> string" where
  "json_array xs = CHR ''['' # comma_separated xs @ '']''"

section \<open>Reading a quoted string back\<close>

definition read_escape :: "string \<Rightarrow> (char \<times> string) option" where
  "read_escape t =
     (case t of
        [] \<Rightarrow> None
      | k # r \<Rightarrow>
          if k = CHR ''u'' then Some (char_of (16 * hex_val (r ! 2) + hex_val (r ! 3)), drop 4 r)
          else if k = CHR ''b'' then Some (char_of (8::nat), r)
          else if k = CHR ''t'' then Some (char_of (9::nat), r)
          else if k = CHR ''n'' then Some (char_of (10::nat), r)
          else if k = CHR ''f'' then Some (char_of (12::nat), r)
          else if k = CHR ''r'' then Some (char_of (13::nat), r)
          else Some (k, r))"

definition read_char :: "string \<Rightarrow> (char \<times> string) option" where
  "read_char t =
     (case t of [] \<Rightarrow> None | h # r \<Rightarrow> if h = backslash then read_escape r else Some (h, r))"

lemma char_code_eq_iff: "char_code c = n \<longleftrightarrow> n < 256 \<and> c = char_of n"
  by (auto simp: char_code_def of_char_of)

lemma char_code_lt: "char_code c < 256"
  by (simp add: char_code_def)

lemma char_of_char_code [simp]: "char_of (char_code c) = c"
  by (simp add: char_code_def)

lemma special_chars:
  "char_of (34::nat) = dquote" "char_of (92::nat) = backslash"
  unfolding dquote_def backslash_def by code_simp+

lemma hex_val_hex_digit: "d < 16 \<Longrightarrow> hex_val (hex_digit d) = d"
  by (auto simp: hex_val_def hex_digit_def is_digit_def is_lower_hex_def char_code_def)

lemma read_json_char: "read_char (json_char c @ r) = Some (c, r)"
proof -
  let ?n = "char_code c"
  have plain: "c \<noteq> backslash" if "?n \<noteq> 92"
    using that by (auto simp: backslash_def char_code_def)
  have "hex_val (hex_digit (?n div 16)) = ?n div 16" "hex_val (hex_digit (?n mod 16)) = ?n mod 16"
    using char_code_lt [of c] by (auto intro!: hex_val_hex_digit)
  then have "char_of (16 * hex_val (hex_digit (?n div 16)) + hex_val (hex_digit (?n mod 16))) = c"
    by simp
  then show ?thesis
    using plain
    by (auto simp: json_char_def read_char_def read_escape_def Let_def char_code_eq_iff special_chars
        nth_Cons' backslash_def dquote_def)
qed

lemma json_char_head: "\<exists>h t. json_char c = h # t \<and> h \<noteq> dquote"
  by (auto simp: json_char_def Let_def dquote_def backslash_def char_code_def)

lemma json_chars_inj:
  "concat (map json_char s) @ dquote # r = concat (map json_char t) @ dquote # r' \<Longrightarrow> s = t \<and> r = r'"
proof (induction s arbitrary: t)
  case Nil
  show ?case
  proof (cases t)
    case (Cons d t')
    with Nil json_char_head [of d] show ?thesis by auto
  qed (use Nil in simp)
next
  case (Cons c s)
  show ?case
  proof (cases t)
    case Nil
    with Cons.prems json_char_head [of c] show ?thesis by auto
  next
    case (Cons d t')
    with Cons.prems
    have eq: "json_char c @ concat (map json_char s) @ dquote # r =
        json_char d @ concat (map json_char t') @ dquote # r'" by simp
    then have "read_char (json_char c @ concat (map json_char s) @ dquote # r) =
        read_char (json_char d @ concat (map json_char t') @ dquote # r')" by (rule arg_cong)
    then have "c = d" "concat (map json_char s) @ dquote # r = concat (map json_char t') @ dquote # r'"
      unfolding read_json_char by simp_all
    with Cons.IH [of t'] Cons show ?thesis by simp
  qed
qed

lemma json_string_prefix: "json_string s @ r = json_string t @ r' \<longleftrightarrow> s = t \<and> r = r'"
  using json_chars_inj [of s r t r'] by (auto simp: json_string_def)

lemma json_string_inj [simp]: "json_string s = json_string t \<longleftrightarrow> s = t"
  using json_string_prefix [of s "[]" t "[]"] by simp

section \<open>Arrays of self-delimiting texts\<close>

text \<open>
  A printer is prefix-free when the printed text tells where it ends; then so is the array of its
  texts, provided no printed text starts with the closing bracket.
\<close>

definition prefix_free :: "('a \<Rightarrow> string) \<Rightarrow> bool" where
  "prefix_free f \<longleftrightarrow> (\<forall>x y r r'. f x @ r = f y @ r' \<longrightarrow> x = y \<and> r = r')"

lemma prefix_freeD: "prefix_free f \<Longrightarrow> f x @ r = f y @ r' \<Longrightarrow> x = y \<and> r = r'"
  by (simp add: prefix_free_def)

lemma prefix_free_inj: "prefix_free f \<Longrightarrow> f x = f y \<longleftrightarrow> x = y"
  using prefix_freeD [of f x "[]" y "[]"] by auto

lemma comma_separated_Cons:
  "comma_separated (x # xs) = x @ (if xs = [] then [] else CHR '','' # comma_separated xs)"
  by (cases xs) simp_all

lemma array_items_inj:
  assumes "prefix_free f" and "\<And>x. \<exists>h t. f x = h # t \<and> h \<noteq> CHR '']''"
  shows "comma_separated (map f xs) @ CHR '']'' # r = comma_separated (map f ys) @ CHR '']'' # r'
     \<Longrightarrow> xs = ys \<and> r = r'"
proof (induction xs arbitrary: ys)
  case Nil
  then show ?case
  proof (cases ys)
    case (Cons y ys')
    with Nil assms(2) [of y] show ?thesis by (auto simp: comma_separated_Cons)
  qed simp
next
  case (Cons x xs)
  show ?case
  proof (cases ys)
    case Nil
    with Cons.prems assms(2) [of x] show ?thesis by (auto simp: comma_separated_Cons)
  next
    case (Cons y ys')
    with Cons.prems have eq: "x = y \<and>
      (if xs = [] then [] else CHR '','' # comma_separated (map f xs)) @ CHR '']'' # r =
      (if ys' = [] then [] else CHR '','' # comma_separated (map f ys')) @ CHR '']'' # r'"
      by (intro prefix_freeD [OF assms(1)]) (simp add: comma_separated_Cons)
    then have "comma_separated (map f xs) @ CHR '']'' # r = comma_separated (map f ys') @ CHR '']'' # r'"
      by (auto split: if_splits)
    with Cons.IH [of ys'] Cons eq show ?thesis by simp
  qed
qed

lemma json_array_prefix_free:
  assumes "prefix_free f" and "\<And>x. \<exists>h t. f x = h # t \<and> h \<noteq> CHR '']''"
  shows "prefix_free (\<lambda>xs. json_array (map f xs))"
  using array_items_inj [OF assms] by (auto simp: prefix_free_def json_array_def)

section \<open>Removing entries with a known key\<close>

text \<open>The \<open>filter\<close> callback with its \<open>seen\<close> set.\<close>

fun dedupe_seen :: "('a \<Rightarrow> 'k) \<Rightarrow> 'k set \<Rightarrow> 'a list \<Rightarrow> 'a list" where
  "dedupe_seen key seen [] = []"
| "dedupe_seen key seen (x # xs) =
     (if key x \<in> seen then dedupe_seen key seen xs
      else x # dedupe_seen key (insert (key x) seen) xs)"

definition dedupe_by :: "('a \<Rightarrow> 'k) \<Rightarrow> 'a list \<Rightarrow> 'a list" where
  "dedupe_by key xs = dedupe_seen key {} xs"

lemma dedupe_seen_keys:
  "distinct (map key (dedupe_seen key seen xs)) \<and>
   key ` set (dedupe_seen key seen xs) = key ` set xs - seen \<and>
   set (dedupe_seen key seen xs) \<subseteq> set xs"
proof (induction xs arbitrary: seen)
  case (Cons x xs)
  show ?case
    using Cons.IH [of seen] Cons.IH [of "insert (key x) seen"]
    by (auto simp: image_iff)
qed simp

lemma dedupe_by_distinct: "distinct (map key (dedupe_by key xs))"
  using dedupe_seen_keys [of key "{}" xs] by (simp add: dedupe_by_def)

lemma dedupe_by_keys: "key ` set (dedupe_by key xs) = key ` set xs"
  using dedupe_seen_keys [of key "{}" xs] by (simp add: dedupe_by_def)

lemma dedupe_by_subset: "set (dedupe_by key xs) \<subseteq> set xs"
  using dedupe_seen_keys [of key "{}" xs] by (simp add: dedupe_by_def)

lemma dedupe_by_set:
  assumes "inj key"
  shows "set (dedupe_by key xs) = set xs"
  using dedupe_by_keys [of key xs] by (simp add: inj_image_eq_iff [OF assms])

lemma dedupe_seen_fix:
  "distinct (map key xs) \<Longrightarrow> key ` set xs \<inter> seen = {} \<Longrightarrow> dedupe_seen key seen xs = xs"
  by (induction xs arbitrary: seen) auto

lemma dedupe_by_fix: "distinct (map key xs) \<Longrightarrow> dedupe_by key xs = xs"
  by (simp add: dedupe_by_def dedupe_seen_fix)

section \<open>Stable sorting with a comparator\<close>

text \<open>\<open>le x y\<close> is \<open>compare(x, y) <= 0\<close>.\<close>

fun insort_by :: "('a \<Rightarrow> 'a \<Rightarrow> bool) \<Rightarrow> 'a \<Rightarrow> 'a list \<Rightarrow> 'a list" where
  "insort_by le x [] = [x]"
| "insort_by le x (y # ys) = (if le x y then x # y # ys else y # insort_by le x ys)"

definition sort_by :: "('a \<Rightarrow> 'a \<Rightarrow> bool) \<Rightarrow> 'a list \<Rightarrow> 'a list" where
  "sort_by le xs = foldr (insort_by le) xs []"

lemma mset_insort_by [simp]: "mset (insort_by le x xs) = add_mset x (mset xs)"
  by (induction xs) simp_all

lemma mset_sort_by [simp]: "mset (sort_by le xs) = mset xs"
  by (induction xs) (simp_all add: sort_by_def)

lemma set_sort_by [simp]: "set (sort_by le xs) = set xs"
  by (metis mset_sort_by set_mset_mset)

lemma length_sort_by [simp]: "length (sort_by le xs) = length xs"
  by (metis mset_sort_by size_mset)

definition total_preorder :: "('a \<Rightarrow> 'a \<Rightarrow> bool) \<Rightarrow> bool" where
  "total_preorder le \<longleftrightarrow> (\<forall>x y. le x y \<or> le y x) \<and> (\<forall>x y z. le x y \<longrightarrow> le y z \<longrightarrow> le x z)"

lemma sorted_insort_by:
  assumes "total_preorder le"
  shows "sorted_wrt le xs \<Longrightarrow> sorted_wrt le (insort_by le x xs)"
proof (induction xs)
  case (Cons y ys)
  have total: "le x y \<or> le y x" for x y using assms by (simp add: total_preorder_def)
  have trans: "le x y \<Longrightarrow> le y z \<Longrightarrow> le x z" for x y z using assms by (meson total_preorder_def)
  have "set (insort_by le x ys) = insert x (set ys)"
    by (metis mset_insort_by set_mset_add_mset_insert set_mset_mset)
  with Cons show ?case using total [of x y] by (auto intro: trans)
qed simp

lemma sorted_sort_by: "total_preorder le \<Longrightarrow> sorted_wrt le (sort_by le xs)"
  by (induction xs) (simp_all add: sort_by_def sorted_insort_by)

lemma sorted_mset_unique:
  assumes "sorted_wrt le xs" and "sorted_wrt le ys" and "mset xs = mset ys"
    and "\<And>x y. x \<in> set xs \<Longrightarrow> y \<in> set xs \<Longrightarrow> le x y \<Longrightarrow> le y x \<Longrightarrow> x = y"
  shows "xs = ys"
  using assms
proof (induction xs arbitrary: ys)
  case (Cons x xs)
  then obtain y ys' where ys: "ys = y # ys'" by (cases ys) auto
  have sets: "insert x (set xs) = insert y (set ys')"
    using Cons.prems(3) unfolding ys by (metis list.simps(15) set_mset_mset)
  have "x = y"
  proof (rule ccontr)
    assume "x \<noteq> y"
    with sets have "y \<in> set xs" "x \<in> set ys'" by auto
    with Cons.prems(1,2) have "le x y" "le y x" by (simp_all add: ys)
    with Cons.prems(4) [of x y] \<open>y \<in> set xs\<close> \<open>x \<noteq> y\<close> show False by simp
  qed
  moreover from this Cons have "xs = ys'" by (auto simp: ys)
  ultimately show ?case by (simp add: ys)
qed simp

end
