(* ===== verification/Trait_Criteria.thy ===== *)
theory Trait_Criteria
  imports Job_Model Json_Text
begin

text \<open>
  Trait criteria of marketplace offers and their matching
  (\<^verbatim>\<open>shared/trading/offer-trait-criteria.ts\<close>,
  \<^verbatim>\<open>trading/src/domain/market/strategy/trait-competition.ts\<close> and the trait helpers of
  \<^verbatim>\<open>shared/types/trading.ts\<close>).

  Three functions of the language are parameters: \<open>rnd\<close>, the rounding of an exact decimal to
  a double that \<open>Number(text)\<close> performs; \<open>numberText\<close>, the text of a finite number; and
  \<open>lc\<close>, where \<open>lc a b\<close> is \<open>a.localeCompare(b) <= 0\<close>, which depends on the host's locale.
  Numeric bounds are finite numbers, which the parser enforces, hence \<^typ>\<open>rat\<close>.
\<close>

section \<open>Criteria\<close>

datatype Criterion = ExactC string string | RangeC string rat rat

fun criterion_type :: "Criterion \<Rightarrow> string" where
  "criterion_type (ExactC t v) = t"
| "criterion_type (RangeC t a b) = t"

text \<open>\<open>criterion.value === undefined\<close>.\<close>

fun isTradingNumericTraitRange :: "Criterion \<Rightarrow> bool" where
  "isTradingNumericTraitRange (ExactC _ _) \<longleftrightarrow> False"
| "isTradingNumericTraitRange (RangeC _ _ _) \<longleftrightarrow> True"

definition criterion_of_target :: "TraitTarget \<Rightarrow> Criterion" where
  "criterion_of_target t = ExactC (trait_type t) (trait_value t)"

section \<open>Decimal texts\<close>

text \<open>\<open>/^-?(?:\d+(?:\.\d*)?|\.\d+)(?:[eE][+-]?\d+)?$/\<close>, read from left to right.\<close>

definition strip_minus :: "string \<Rightarrow> string" where
  "strip_minus s = (case s of c # cs \<Rightarrow> if c = CHR ''-'' then cs else s | [] \<Rightarrow> [])"

definition mantissa_whole :: "string \<Rightarrow> string" where
  "mantissa_whole s = takeWhile is_digit (strip_minus s)"

definition after_whole :: "string \<Rightarrow> string" where
  "after_whole s = dropWhile is_digit (strip_minus s)"

definition has_point :: "string \<Rightarrow> bool" where
  "has_point s \<longleftrightarrow> take 1 (after_whole s) = ''.''"

definition mantissa_fraction :: "string \<Rightarrow> string" where
  "mantissa_fraction s = (if has_point s then takeWhile is_digit (drop 1 (after_whole s)) else [])"

definition exponent_text :: "string \<Rightarrow> string" where
  "exponent_text s =
     (if has_point s then dropWhile is_digit (drop 1 (after_whole s)) else after_whole s)"

definition exponent_digits :: "string \<Rightarrow> string" where
  "exponent_digits s =
     (case drop 1 (exponent_text s) of
        c # cs \<Rightarrow> if c = CHR ''+'' \<or> c = CHR ''-'' then cs else c # cs
      | [] \<Rightarrow> [])"

definition decimal_pattern :: "string \<Rightarrow> bool" where
  "decimal_pattern s \<longleftrightarrow>
     (mantissa_whole s \<noteq> [] \<or> mantissa_fraction s \<noteq> []) \<and>
     (exponent_text s = [] \<or>
      take 1 (exponent_text s) \<in> {''e'', ''E''} \<and>
      exponent_digits s \<noteq> [] \<and> list_all is_digit (exponent_digits s))"

definition exponent_value :: "string \<Rightarrow> int" where
  "exponent_value s =
     (if take 1 (drop 1 (exponent_text s)) = ''-'' then - dec_value (exponent_digits s)
      else dec_value (exponent_digits s))"

definition decimal_value :: "string \<Rightarrow> rat" where
  "decimal_value s =
     (if take 1 s = ''-'' then - 1 else 1) *
     of_int (dec_value (mantissa_whole s @ mantissa_fraction s)) *
     10 powi (exponent_value s - int (length (mantissa_fraction s)))"

definition numericTraitValue :: "(rat \<Rightarrow> number) \<Rightarrow> string \<Rightarrow> rat option" where
  "numericTraitValue rnd s =
     (if \<not> decimal_pattern s then None
      else case rnd (decimal_value s) of Fin q \<Rightarrow> Some q | _ \<Rightarrow> None)"

section \<open>Matching\<close>

definition biddingTraitValueMatches :: "(rat \<Rightarrow> number) \<Rightarrow> Criterion \<Rightarrow> string \<Rightarrow> bool" where
  "biddingTraitValueMatches rnd criterion v =
     (case criterion of
        ExactC _ w \<Rightarrow> w = v
      | RangeC _ lo hi \<Rightarrow>
          (case numericTraitValue rnd v of None \<Rightarrow> False | Some n \<Rightarrow> n \<ge> lo \<and> n \<le> hi))"

definition biddingTraitsMatchToken ::
  "(rat \<Rightarrow> number) \<Rightarrow> Criterion list \<Rightarrow> TraitTarget list \<Rightarrow> bool" where
  "biddingTraitsMatchToken rnd criteria tokenTraits =
     list_all (\<lambda>criterion.
       list_ex (\<lambda>t. trait_type t = criterion_type criterion \<and>
                    biddingTraitValueMatches rnd criterion (trait_value t)) tokenTraits) criteria"

section \<open>Identity of criteria\<close>

definition criterion_text :: "(rat \<Rightarrow> string) \<Rightarrow> Criterion \<Rightarrow> string" where
  "criterion_text numberText c =
     (case c of
        RangeC t lo hi \<Rightarrow> json_array [json_string t, numberText lo, numberText hi]
      | ExactC t v \<Rightarrow> json_array [json_string t, json_string v])"

definition biddingTraitCriteriaKey ::
  "(string \<Rightarrow> string \<Rightarrow> bool) \<Rightarrow> (rat \<Rightarrow> string) \<Rightarrow> Criterion list \<Rightarrow> string" where
  "biddingTraitCriteriaKey lc numberText criteria =
     json_array (map (criterion_text numberText)
       (sort_by (\<lambda>a b. lc (criterion_text numberText a) (criterion_text numberText b)) criteria))"

definition dedupeBiddingTraitCriteria ::
  "(string \<Rightarrow> string \<Rightarrow> bool) \<Rightarrow> (rat \<Rightarrow> string) \<Rightarrow> Criterion list \<Rightarrow> Criterion list" where
  "dedupeBiddingTraitCriteria lc numberText criteria =
     dedupe_by (\<lambda>c. biddingTraitCriteriaKey lc numberText [c]) criteria"

text \<open>\<open>matchesExactTraitTargets\<close> of the bidder.\<close>

definition matchesExactTraitTargets ::
  "(string \<Rightarrow> string \<Rightarrow> bool) \<Rightarrow> (rat \<Rightarrow> string) \<Rightarrow> Criterion list \<Rightarrow> Criterion list \<Rightarrow> bool" where
  "matchesExactTraitTargets lc numberText left right =
     (let normalizedLeft = dedupeBiddingTraitCriteria lc numberText left;
          normalizedRight = dedupeBiddingTraitCriteria lc numberText right
      in if length normalizedLeft \<noteq> length normalizedRight then False
         else biddingTraitCriteriaKey lc numberText normalizedLeft =
              biddingTraitCriteriaKey lc numberText normalizedRight)"

section \<open>Parsing persisted criteria\<close>

datatype criteria_error = InvalidCriteria | InvalidCriterion

text \<open>\<open>normalizeTradingTraitText\<close>: at most 96 code units, the last three an ellipsis.\<close>

definition normalizeTradingTraitText :: "string \<Rightarrow> string" where
  "normalizeTradingTraitText v =
     (let trimmed = trim v
      in if length trimmed \<le> 96 then trimmed else take (96 - 3) trimmed @ ''...'')"

definition parseCriterion :: "jsval \<Rightarrow> criteria_error + Criterion" where
  "parseCriterion entry =
     (case entry of
        JObj ps \<Rightarrow>
          (case getp ps ''type'' of
             JStr t0 \<Rightarrow>
               if trim t0 = [] then Inl InvalidCriterion
               else
                 (let t = normalizeTradingTraitText t0 in
                  case (getp ps ''value'', getp ps ''min'', getp ps ''max'') of
                    (JStr v, JUndefined, JUndefined) \<Rightarrow> Inr (ExactC t (normalizeTradingTraitText v))
                  | (JUndefined, JNum (Fin lo), JNum (Fin hi)) \<Rightarrow>
                      if lo \<le> hi then Inr (RangeC t lo hi) else Inl InvalidCriterion
                  | _ \<Rightarrow> Inl InvalidCriterion)
           | _ \<Rightarrow> Inl InvalidCriterion)
      | _ \<Rightarrow> Inl InvalidCriterion)"

definition parseBiddingTraitCriteria :: "jsval \<Rightarrow> criteria_error + Criterion list" where
  "parseBiddingTraitCriteria v =
     (case v of JArr es \<Rightarrow> mapR parseCriterion es | _ \<Rightarrow> Inl InvalidCriteria)"

section \<open>Filters of the bid book\<close>

record TraitFilter =
  filter_key :: string
  filter_value :: string

text \<open>The bounds of a range filter are canonical unsigned decimal texts or \<open>null\<close>; the numbers
  below are what \<open>BigInt\<close> makes of them.\<close>

record TraitRangeFilter =
  range_key :: string
  range_from :: "int option"
  range_to :: "int option"

datatype JoinMode = JoinAnd | JoinOr

definition traitValueWithinRange :: "string \<Rightarrow> TraitRangeFilter \<Rightarrow> bool" where
  "traitValueWithinRange v r =
     (if \<not> (v \<noteq> [] \<and> list_all is_digit v) then False
      else if (case range_from r of Some lo \<Rightarrow> dec_value v < lo | None \<Rightarrow> False) then False
      else if (case range_to r of Some hi \<Rightarrow> dec_value v > hi | None \<Rightarrow> False) then False
      else True)"

definition traitCriterionIntersectsRange :: "Criterion \<Rightarrow> TraitRangeFilter \<Rightarrow> bool" where
  "traitCriterionIntersectsRange criterion r =
     (case criterion of
        RangeC _ lo hi \<Rightarrow>
          (let first = \<lceil>lo\<rceil>; last = \<lfloor>hi\<rfloor> in
           first \<le> last \<and>
           (case range_from r of None \<Rightarrow> True | Some f \<Rightarrow> last \<ge> f) \<and>
           (case range_to r of None \<Rightarrow> True | Some t \<Rightarrow> first \<le> t) \<and>
           last \<ge> 0)
      | ExactC _ v \<Rightarrow> traitValueWithinRange v r)"

fun traitScopeCoveredByFilters ::
  "(rat \<Rightarrow> number) \<Rightarrow> Criterion list \<Rightarrow> TraitFilter list \<Rightarrow> TraitRangeFilter list \<Rightarrow> bool" where
  "traitScopeCoveredByFilters rnd [] traits ranges \<longleftrightarrow> True"
| "traitScopeCoveredByFilters rnd (criterion # criteria) traits ranges \<longleftrightarrow>
     (let sameType = filter (\<lambda>t. filter_key t = criterion_type criterion) traits;
          exactMatch = (sameType \<noteq> [] \<and>
            list_ex (\<lambda>t. biddingTraitValueMatches rnd criterion (filter_value t)) sameType);
          range = List.find (\<lambda>r. range_key r = criterion_type criterion) ranges;
          rangeMatch = (case range of
            Some r \<Rightarrow> traitCriterionIntersectsRange criterion r | None \<Rightarrow> False)
      in if sameType \<noteq> [] \<and> \<not> exactMatch then False
         else if range \<noteq> None \<and> \<not> rangeMatch then False
         else if \<not> exactMatch \<and> \<not> rangeMatch then False
         else traitScopeCoveredByFilters rnd criteria traits ranges)"

definition filtersCoveredByTraitScope ::
  "(rat \<Rightarrow> number) \<Rightarrow> Criterion list \<Rightarrow> TraitFilter list \<Rightarrow> TraitRangeFilter list \<Rightarrow> bool" where
  "filtersCoveredByTraitScope rnd criteria traits ranges =
     (if \<not> list_all (\<lambda>t. list_ex (\<lambda>c. criterion_type c = filter_key t \<and>
               biddingTraitValueMatches rnd c (filter_value t)) criteria) traits then False
      else list_all (\<lambda>r. list_ex (\<lambda>c. criterion_type c = range_key r \<and>
               traitCriterionIntersectsRange c r) criteria) ranges)"

definition traitScopeMatchesAllFilters ::
  "(rat \<Rightarrow> number) \<Rightarrow> Criterion list \<Rightarrow> TraitFilter list \<Rightarrow> TraitRangeFilter list \<Rightarrow> bool" where
  "traitScopeMatchesAllFilters rnd criteria traits ranges =
     (if criteria = [] then False
      else traitScopeCoveredByFilters rnd criteria traits ranges \<and>
           filtersCoveredByTraitScope rnd criteria traits ranges)"

definition traitScopeMatchesAnyFilter ::
  "(rat \<Rightarrow> number) \<Rightarrow> Criterion list \<Rightarrow> TraitFilter list \<Rightarrow> TraitRangeFilter list \<Rightarrow> bool" where
  "traitScopeMatchesAnyFilter rnd criteria traits ranges =
     (if criteria = [] then False
      else list_ex (\<lambda>c.
        list_ex (\<lambda>t. filter_key t = criterion_type c \<and>
                     biddingTraitValueMatches rnd c (filter_value t)) traits \<or>
        list_ex (\<lambda>r. range_key r = criterion_type c \<and> traitCriterionIntersectsRange c r) ranges)
        criteria)"

definition biddingTraitScopeMatchesFilters ::
  "(rat \<Rightarrow> number) \<Rightarrow> Criterion list \<Rightarrow> TraitFilter list \<Rightarrow> TraitRangeFilter list \<Rightarrow> JoinMode \<Rightarrow> bool" where
  "biddingTraitScopeMatchesFilters rnd criteria traits ranges mode =
     (if traits = [] \<and> ranges = [] then True
      else case mode of
             JoinOr \<Rightarrow> traitScopeMatchesAnyFilter rnd criteria traits ranges
           | JoinAnd \<Rightarrow> traitScopeMatchesAllFilters rnd criteria traits ranges)"

section \<open>Competition\<close>

definition matchesTraitCompetition ::
  "(rat \<Rightarrow> number) \<Rightarrow> (string \<Rightarrow> string \<Rightarrow> bool) \<Rightarrow> (rat \<Rightarrow> string) \<Rightarrow>
     Criterion list \<Rightarrow> TraitTarget list \<Rightarrow> TraitSelector list \<Rightarrow> bool" where
  "matchesTraitCompetition rnd lc numberText criteria target extras =
     (case criteria of
        [] \<Rightarrow> False
      | first # _ \<Rightarrow>
          if target = [] then False
          else if biddingTraitsMatchToken rnd criteria target then True
          else list_all (\<lambda>c. biddingTraitCriteriaKey lc numberText [c] =
                             biddingTraitCriteriaKey lc numberText [first]) criteria \<and>
               list_ex (\<lambda>s. sel_type s = criterion_type first \<and>
                 (case sel_value s of None \<Rightarrow> True
                  | Some v \<Rightarrow> biddingTraitValueMatches rnd first v)) extras)"

section \<open>Keys identify criteria\<close>

text \<open>What is used of the text of a finite number: it determines the number and contains no
  delimiter of the surrounding array.\<close>

definition number_text_ok :: "(rat \<Rightarrow> string) \<Rightarrow> bool" where
  "number_text_ok f \<longleftrightarrow>
     inj f \<and> (\<forall>q. f q \<noteq> [] \<and> set (f q) \<inter> {CHR '','', CHR '']'', dquote} = {})"

lemma delimited_eq:
  assumes "c \<notin> set a" and "c \<notin> set b"
  shows "a @ c # x = b @ c # y \<longleftrightarrow> a = b \<and> x = y"
proof
  assume eq: "a @ c # x = b @ c # y"
  have "takeWhile (\<lambda>d. d \<noteq> c) (a @ c # x) = a" "takeWhile (\<lambda>d. d \<noteq> c) (b @ c # y) = b"
    using assms by (auto simp: takeWhile_tail takeWhile_append2)
  with eq show "a = b \<and> x = y" by simp
qed simp

lemma number_text_head: "number_text_ok f \<Longrightarrow> \<exists>h t. f q = h # t \<and> h \<noteq> dquote"
  by (cases "f q") (auto simp: number_text_ok_def dest!: spec [of _ q])

lemma number_text_prefix:
  assumes "number_text_ok f" and "c \<in> {CHR '','', CHR '']''}"
  shows "f p @ c # x = f q @ c # y \<longleftrightarrow> p = q \<and> x = y"
proof -
  have "c \<notin> set (f p)" "c \<notin> set (f q)" using assms by (auto simp: number_text_ok_def)
  moreover have "f p = f q \<longleftrightarrow> p = q" using assms(1) by (simp add: number_text_ok_def inj_eq)
  ultimately show ?thesis by (simp add: delimited_eq)
qed

lemma criterion_text_prefix_free:
  assumes "number_text_ok f"
  shows "prefix_free (criterion_text f)"
  unfolding prefix_free_def
proof (intro allI impI)
  fix c d r r'
  assume eq: "criterion_text f c @ r = criterion_text f d @ r'"
  have mixed: "json_string v @ x \<noteq> f q @ y" for v x q y
    using number_text_head [OF assms, of q] by (auto simp: json_string_def)
  note num = number_text_prefix [OF assms]
  show "c = d \<and> r = r'"
    using eq
    by (cases c; cases d)
      (auto simp: criterion_text_def json_array_def json_string_prefix num mixed mixed [symmetric])
qed

lemma criterion_text_head: "\<exists>h t. criterion_text f c = h # t \<and> h \<noteq> CHR '']''"
  by (cases c) (auto simp: criterion_text_def json_array_def)

lemma key_eq_iff:
  assumes "number_text_ok f"
  shows "biddingTraitCriteriaKey lc f xs = biddingTraitCriteriaKey lc f ys \<longleftrightarrow>
     sort_by (\<lambda>a b. lc (criterion_text f a) (criterion_text f b)) xs =
     sort_by (\<lambda>a b. lc (criterion_text f a) (criterion_text f b)) ys"
  unfolding biddingTraitCriteriaKey_def
  by (rule prefix_free_inj [OF json_array_prefix_free
        [OF criterion_text_prefix_free [OF assms] criterion_text_head]])

lemma single_key_inj:
  assumes "number_text_ok f"
  shows "inj (\<lambda>c. biddingTraitCriteriaKey lc f [c])"
  by (rule injI) (simp add: key_eq_iff [OF assms] sort_by_def)

lemma set_dedupeBiddingTraitCriteria:
  "number_text_ok f \<Longrightarrow> set (dedupeBiddingTraitCriteria lc f cs) = set cs"
  by (simp add: dedupeBiddingTraitCriteria_def dedupe_by_set single_key_inj)

lemma distinct_dedupeBiddingTraitCriteria: "distinct (dedupeBiddingTraitCriteria lc f cs)"
  using dedupe_by_distinct distinct_map unfolding dedupeBiddingTraitCriteria_def by blast

lemma matchesExact_sets:
  assumes "number_text_ok f" and "matchesExactTraitTargets lc f xs ys"
  shows "set xs = set ys"
proof -
  from assms(2) have "biddingTraitCriteriaKey lc f (dedupeBiddingTraitCriteria lc f xs) =
      biddingTraitCriteriaKey lc f (dedupeBiddingTraitCriteria lc f ys)"
    by (simp add: matchesExactTraitTargets_def Let_def split: if_splits)
  then have "set (dedupeBiddingTraitCriteria lc f xs) = set (dedupeBiddingTraitCriteria lc f ys)"
    unfolding key_eq_iff [OF assms(1)] by (metis set_sort_by)
  then show ?thesis by (simp add: set_dedupeBiddingTraitCriteria [OF assms(1)])
qed

lemma sets_matchesExact:
  assumes "number_text_ok f" and "total_preorder lc"
    and anti: "\<And>a b. a \<in> set xs \<Longrightarrow> b \<in> set xs \<Longrightarrow>
      lc (criterion_text f a) (criterion_text f b) \<Longrightarrow> lc (criterion_text f b) (criterion_text f a) \<Longrightarrow> a = b"
    and "set xs = set ys"
  shows "matchesExactTraitTargets lc f xs ys"
proof -
  let ?le = "\<lambda>a b. lc (criterion_text f a) (criterion_text f b)"
  let ?xs = "dedupeBiddingTraitCriteria lc f xs" and ?ys = "dedupeBiddingTraitCriteria lc f ys"
  have pre: "total_preorder ?le" using assms(2) unfolding total_preorder_def by blast
  have "mset ?xs = mset ?ys"
    using assms(4) by (simp add: set_eq_iff_mset_eq_distinct [symmetric] distinct_dedupeBiddingTraitCriteria
        set_dedupeBiddingTraitCriteria [OF assms(1)])
  moreover from this have "length ?xs = length ?ys" by (metis size_mset)
  moreover have "sort_by ?le ?xs = sort_by ?le ?ys"
    by (rule sorted_mset_unique [of ?le])
      (use calculation anti in \<open>auto simp: sorted_sort_by [OF pre] set_dedupeBiddingTraitCriteria [OF assms(1)]\<close>)
  ultimately show ?thesis
    by (simp add: matchesExactTraitTargets_def Let_def key_eq_iff [OF assms(1)])
qed

text \<open>
  Two lists of trait criteria are the same target exactly when they contain the same criteria:
  order and repetition are irrelevant, and no two different criteria are confused by their JSON
  keys.  The host's collation only has to be a total preorder that separates the criteria at hand.
\<close>

theorem exact_trait_targets_iff_same_set:
  assumes "number_text_ok numberText" and "total_preorder lc"
    and "\<And>a b. a \<in> set xs \<Longrightarrow> b \<in> set xs \<Longrightarrow>
      lc (criterion_text numberText a) (criterion_text numberText b) \<Longrightarrow>
      lc (criterion_text numberText b) (criterion_text numberText a) \<Longrightarrow> a = b"
  shows "matchesExactTraitTargets lc numberText xs ys \<longleftrightarrow> set xs = set ys"
  using matchesExact_sets [OF assms(1)] sets_matchesExact [OF assms(1,2)] assms(3) by blast

section \<open>Filters and competition\<close>

text \<open>
  A numeric interval of an offer passes a range filter exactly when some non-negative integer
  lies in both, for every filter whose bounds are unsigned and in order.
\<close>

theorem range_filter_exact:
  assumes "\<And>f t. range_from r = Some f \<Longrightarrow> range_to r = Some t \<Longrightarrow> f \<le> t"
    and "\<And>t. range_to r = Some t \<Longrightarrow> 0 \<le> t"
  shows "traitCriterionIntersectsRange (RangeC name lo hi) r \<longleftrightarrow>
     (\<exists>n::int. 0 \<le> n \<and> lo \<le> of_int n \<and> of_int n \<le> hi \<and>
        (\<forall>f. range_from r = Some f \<longrightarrow> f \<le> n) \<and> (\<forall>t. range_to r = Some t \<longrightarrow> n \<le> t))"
    (is "?code \<longleftrightarrow> ?spec")
proof
  assume ?code
  then have c: "\<lceil>lo\<rceil> \<le> \<lfloor>hi\<rfloor>" "0 \<le> \<lfloor>hi\<rfloor>" "\<And>f. range_from r = Some f \<Longrightarrow> f \<le> \<lfloor>hi\<rfloor>"
    "\<And>t. range_to r = Some t \<Longrightarrow> \<lceil>lo\<rceil> \<le> t"
    by (auto simp: traitCriterionIntersectsRange_def Let_def split: option.splits)
  define n where "n = max (max 0 \<lceil>lo\<rceil>) (case range_from r of Some f \<Rightarrow> f | None \<Rightarrow> 0)"
  have "0 \<le> n" "\<lceil>lo\<rceil> \<le> n" "n \<le> \<lfloor>hi\<rfloor>" "\<And>f. range_from r = Some f \<Longrightarrow> f \<le> n"
    "\<And>t. range_to r = Some t \<Longrightarrow> n \<le> t"
    using c assms by (auto simp: n_def split: option.splits)
  then show ?spec unfolding ceiling_le_iff le_floor_iff by blast
next
  assume ?spec
  then obtain n where n: "0 \<le> n" "\<lceil>lo\<rceil> \<le> n" "n \<le> \<lfloor>hi\<rfloor>"
    "\<And>f. range_from r = Some f \<Longrightarrow> f \<le> n" "\<And>t. range_to r = Some t \<Longrightarrow> n \<le> t"
    by (auto simp: ceiling_le_iff le_floor_iff)
  then have "\<lceil>lo\<rceil> \<le> \<lfloor>hi\<rfloor>" "0 \<le> \<lfloor>hi\<rfloor>" "\<And>f. range_from r = Some f \<Longrightarrow> f \<le> \<lfloor>hi\<rfloor>"
    "\<And>t. range_to r = Some t \<Longrightarrow> \<lceil>lo\<rceil> \<le> t"
    by (meson order_trans)+
  then show ?code
    by (auto simp: traitCriterionIntersectsRange_def Let_def split: option.split)
qed

lemma covered_imp:
  assumes "traitScopeCoveredByFilters rnd criteria traits ranges" and "c \<in> set criteria"
  shows "list_ex (\<lambda>t. filter_key t = criterion_type c \<and>
             biddingTraitValueMatches rnd c (filter_value t)) traits \<or>
         list_ex (\<lambda>r. range_key r = criterion_type c \<and> traitCriterionIntersectsRange c r) ranges"
  using assms
proof (induction criteria)
  case (Cons d ds)
  show ?case
  proof (cases "c = d")
    case True
    with Cons.prems(1) show ?thesis
      by (auto simp: Let_def list_ex_iff split: if_splits option.splits dest!: find_Some_set)
  next
    case False
    with Cons show ?thesis by (auto simp: Let_def split: if_splits)
  qed
qed simp

text \<open>
  A bid that is shown when all filters must hold is also shown when any filter suffices.
\<close>

theorem all_filters_imply_any:
  assumes "biddingTraitScopeMatchesFilters rnd criteria traits ranges JoinAnd"
  shows "biddingTraitScopeMatchesFilters rnd criteria traits ranges JoinOr"
proof (cases "traits = [] \<and> ranges = []")
  case False
  with assms obtain c cs where "criteria = c # cs"
    and "traitScopeCoveredByFilters rnd criteria traits ranges"
    by (auto simp: biddingTraitScopeMatchesFilters_def traitScopeMatchesAllFilters_def
        neq_Nil_conv split: if_splits)
  with covered_imp [of rnd criteria traits ranges c] False show ?thesis
    by (simp add: biddingTraitScopeMatchesFilters_def traitScopeMatchesAnyFilter_def)
qed (simp add: biddingTraitScopeMatchesFilters_def)

text \<open>
  An offer competes with a trait target exactly when the target's own traits satisfy all of its
  criteria, or when it has a single criterion (however often repeated) that an extra selector
  covers.
\<close>

theorem trait_competition_iff:
  assumes "number_text_ok numberText"
  shows "matchesTraitCompetition rnd lc numberText criteria target extras \<longleftrightarrow>
     target \<noteq> [] \<and> criteria \<noteq> [] \<and>
     ((\<forall>c\<in>set criteria. \<exists>t\<in>set target. trait_type t = criterion_type c \<and>
          biddingTraitValueMatches rnd c (trait_value t)) \<or>
      (\<exists>c. set criteria = {c} \<and> (\<exists>s\<in>set extras. sel_type s = criterion_type c \<and>
          (\<forall>v. sel_value s = Some v \<longrightarrow> biddingTraitValueMatches rnd c v))))"
proof (cases criteria)
  case (Cons first cs)
  have keys: "biddingTraitCriteriaKey lc numberText [c] = biddingTraitCriteriaKey lc numberText [d] \<longleftrightarrow> c = d"
    for c d by (simp add: key_eq_iff [OF assms] sort_by_def)
  have single: "(\<exists>c. set criteria = {c} \<and> P c) \<longleftrightarrow> (\<forall>c\<in>set criteria. c = first) \<and> P first" for P
    using Cons by auto
  show ?thesis
    unfolding single
    by (auto simp: Cons matchesTraitCompetition_def keys biddingTraitsMatchToken_def list_all_iff
        list_ex_iff split: option.splits)
qed (simp add: matchesTraitCompetition_def)

section \<open>Parsed criteria\<close>

definition criterion_wf :: "Criterion \<Rightarrow> bool" where
  "criterion_wf c \<longleftrightarrow>
     criterion_type c \<noteq> [] \<and> length (criterion_type c) \<le> 96 \<and>
     (case c of ExactC _ v \<Rightarrow> length v \<le> 96 | RangeC _ lo hi \<Rightarrow> lo \<le> hi)"

lemma normalizeTradingTraitText_length: "length (normalizeTradingTraitText v) \<le> 96"
  by (simp add: normalizeTradingTraitText_def Let_def)

lemma normalizeTradingTraitText_nonempty: "trim v \<noteq> [] \<Longrightarrow> normalizeTradingTraitText v \<noteq> []"
  by (simp add: normalizeTradingTraitText_def Let_def)

lemma mapR_Inr_all: "mapR f xs = Inr ys \<Longrightarrow> (\<And>x y. f x = Inr y \<Longrightarrow> P y) \<Longrightarrow> list_all P ys"
  by (induction xs arbitrary: ys) (auto simp: bindR_Inr_iff)

lemma parseCriterion_wf: "parseCriterion v = Inr c \<Longrightarrow> criterion_wf c"
  by (auto simp: parseCriterion_def criterion_wf_def Let_def normalizeTradingTraitText_length
      normalizeTradingTraitText_nonempty split: jsval.splits number.splits if_splits)

text \<open>
  Parsing a persisted trait scope either rejects it or keeps one criterion per entry: no
  constraint is dropped, names are non-blank, texts at most 96 characters, and every interval is
  non-empty.
\<close>

theorem parsed_criteria_complete:
  assumes "parseBiddingTraitCriteria v = Inr cs"
  shows "\<exists>es. v = JArr es \<and> length cs = length es \<and> list_all criterion_wf cs"
proof -
  from assms obtain es where "v = JArr es" "mapR parseCriterion es = Inr cs"
    by (auto simp: parseBiddingTraitCriteria_def result_elims)
  then show ?thesis
    using mapR_Inr_length [of parseCriterion es cs] mapR_Inr_all [of parseCriterion es cs criterion_wf]
      parseCriterion_wf by blast
qed

section \<open>Samples\<close>

text \<open>A text of numbers with the properties required, and the order of code units as collation.\<close>

definition fraction_text :: "rat \<Rightarrow> string" where
  "fraction_text q = show_int (fst (quotient_of q)) @ CHR ''/'' # show_int (snd (quotient_of q))"

lemma show_nat_inj: "show_nat m = show_nat n \<longleftrightarrow> m = n"
  by (metis dec_value_show_nat nat_int)

lemma show_nat_chars: "c \<in> set (show_nat n) \<Longrightarrow> is_digit c"
  using show_nat_digits [of n] by (auto simp: list_all_iff)

lemma show_int_inj: "show_int a = show_int b \<longleftrightarrow> a = b"
proof -
  have "CHR ''-'' # s \<noteq> show_nat n" for s n
  proof
    assume "CHR ''-'' # s = show_nat n"
    then have "CHR ''-'' \<in> set (show_nat n)" by (metis list.set_intros(1))
    from show_nat_chars [OF this] show False by (simp add: is_digit_def char_code_def)
  qed
  then show ?thesis by (auto simp: show_int_def show_nat_inj dest: sym)
qed

lemma show_int_chars: "c \<in> set (show_int i) \<Longrightarrow> is_digit c \<or> c = CHR ''-''"
  by (auto simp: show_int_def dest: show_nat_chars split: if_splits)

lemma fraction_text_ok: "number_text_ok fraction_text"
proof -
  have plain: "c \<notin> set (show_int i)" if "c \<in> {CHR ''/'', CHR '','', CHR '']'', dquote}" for c i
    using that show_int_chars [of c i] by (auto simp: is_digit_def char_code_def dquote_def)
  have "p = q" if "fraction_text p = fraction_text q" for p q
  proof -
    from that have "fst (quotient_of p) = fst (quotient_of q)" "snd (quotient_of p) = snd (quotient_of q)"
      unfolding fraction_text_def by (simp_all add: delimited_eq plain show_int_inj)
    then show ?thesis by (metis prod_eqI quotient_of_inject)
  qed
  then show ?thesis
    using plain by (auto simp: number_text_ok_def fraction_text_def dquote_def intro!: injI)
qed

lemma code_unit_order: "total_preorder ((\<le>) :: string \<Rightarrow> string \<Rightarrow> bool)"
  by (auto simp: total_preorder_def)

theorem exact_trait_targets_iff_same_set_witness:
  "matchesExactTraitTargets (\<le>) fraction_text
     [ExactC ''Zone'' ''Alto'', RangeC ''Level'' 1 (7/2)]
     [RangeC ''Level'' 1 (7/2), ExactC ''Zone'' ''Alto'', RangeC ''Level'' 1 (7/2)]"
proof (subst exact_trait_targets_iff_same_set [OF fraction_text_ok code_unit_order])
  show "a = b" if "criterion_text fraction_text a \<le> criterion_text fraction_text b"
    "criterion_text fraction_text b \<le> criterion_text fraction_text a" for a b
    using that prefix_free_inj [OF criterion_text_prefix_free [OF fraction_text_ok], of a b] by simp
qed auto

theorem range_filter_exact_witness:
  "traitCriterionIntersectsRange (RangeC ''Level'' (1/2) (7/2)) \<lparr>range_key = ''Level'', range_from = Some 3, range_to = None\<rparr> \<longleftrightarrow>
     (\<exists>n::int. 0 \<le> n \<and> (1/2 :: rat) \<le> of_int n \<and> of_int n \<le> (7/2 :: rat) \<and> 3 \<le> n)"
  using range_filter_exact [of "\<lparr>range_key = ''Level'', range_from = Some 3, range_to = None\<rparr>"
      "''Level''" "1/2" "7/2"] by simp

theorem all_filters_imply_any_witness:
  "biddingTraitScopeMatchesFilters Fin [ExactC ''Zone'' ''Alto'']
     [\<lparr>filter_key = ''Zone'', filter_value = ''Alto''\<rparr>] [] JoinOr"
  by (rule all_filters_imply_any)
    (simp add: biddingTraitScopeMatchesFilters_def traitScopeMatchesAllFilters_def
      filtersCoveredByTraitScope_def biddingTraitValueMatches_def Let_def)

theorem trait_competition_iff_witness:
  "matchesTraitCompetition Fin (\<le>) fraction_text [ExactC ''Biome'' ''9''] [\<lparr>trait_type = ''Zone'', trait_value = ''Alto''\<rparr>]
     [\<lparr>sel_type = ''Biome'', sel_value = None\<rparr>]"
  by (subst trait_competition_iff [OF fraction_text_ok]) simp

theorem parsed_criteria_complete_witness:
  "\<exists>es. JArr [JObj [(''type'', JStr ''Zone''), (''value'', JStr ''Alto'')]] = JArr es \<and> length es = 1"
  using parsed_criteria_complete [of "JArr [JObj [(''type'', JStr ''Zone''), (''value'', JStr ''Alto'')]]" "[ExactC ''Zone'' ''Alto'']"]
  by (simp add: parseBiddingTraitCriteria_def parseCriterion_def normalizeTradingTraitText_def trim_def js_space_def char_code_def)
end
