(* ===== verification/Competition_Presets.thy ===== *)
theory Competition_Presets
  imports Trait_Criteria
begin

text \<open>
  Competition selectors and presets (\<^verbatim>\<open>shared/trading/trait-competition.ts\<close>): the
  canonical form of the extra traits a job competes with, the concrete target of a trait bid, and
  the rules for attaching a preset to a target.  The lemmas show that normalisation rejects or
  keeps the meaning of its input, produces a unique sorted list, and is a fixpoint on its result.
\<close>

section \<open>Errors\<close>

datatype competition_error =
    ExtraTargetsList | ChooseTraitKey
  | TargetTraitsRequired | TargetTypeRequired | TargetValueRequired | DuplicateTargetTrait string string
  | ChooseOneOrTwo | TargetKeyOnlyOnce | SourceCannotChange
  | PresetDoesNotMatch | PresetChanged

section \<open>Selectors\<close>

definition competitionSelectorKey :: "TraitSelector \<Rightarrow> string" where
  "competitionSelectorKey s =
     json_array [json_string (sel_type s),
       (case sel_value s of None \<Rightarrow> ''null'' | Some v \<Rightarrow> json_string v)]"

definition dedupeTradingCompetitionSelectors :: "TraitSelector list \<Rightarrow> TraitSelector list" where
  "dedupeTradingCompetitionSelectors selectors = dedupe_by competitionSelectorKey selectors"

text \<open>The \<open>map\<close> callback of \<open>normalizeExtraCompetitionTraits\<close>.\<close>

definition parseSelector :: "jsval \<Rightarrow> competition_error + TraitSelector" where
  "parseSelector entry =
     (case entry of
        JObj ps \<Rightarrow>
          (case getp ps ''type'' of
             JStr t \<Rightarrow>
               if trim t = [] \<or> list_ex (\<lambda>k. k \<noteq> ''type'' \<and> k \<noteq> ''value'') (object_keys ps)
               then Inl ChooseTraitKey
               else (case getp ps ''value'' of
                       JUndefined \<Rightarrow> Inr \<lparr>sel_type = trim t, sel_value = None\<rparr>
                     | JStr v \<Rightarrow>
                         if trim v = [] then Inl ChooseTraitKey
                         else Inr \<lparr>sel_type = trim t, sel_value = Some (trim v)\<rparr>
                     | _ \<Rightarrow> Inl ChooseTraitKey)
           | _ \<Rightarrow> Inl ChooseTraitKey)
      | _ \<Rightarrow> Inl ChooseTraitKey)"

definition whole_keys :: "TraitSelector list \<Rightarrow> string list" where
  "whole_keys selectors = map sel_type (filter (\<lambda>s. sel_value s = None) selectors)"

definition canonical_selectors :: "TraitSelector list \<Rightarrow> TraitSelector list" where
  "canonical_selectors selectors =
     sort_by (\<lambda>a b. competitionSelectorKey a \<le> competitionSelectorKey b)
       (dedupeTradingCompetitionSelectors
         (filter (\<lambda>s. sel_value s = None \<or> sel_type s \<notin> set (whole_keys selectors)) selectors))"

definition normalizeExtraCompetitionTraits :: "jsval \<Rightarrow> competition_error + TraitSelector list" where
  "normalizeExtraCompetitionTraits v =
     (case v of
        JArr es \<Rightarrow>
          if length es > 64 then Inl ExtraTargetsList
          else bindR (mapR parseSelector es) (\<lambda>selectors. Inr (canonical_selectors selectors))
      | _ \<Rightarrow> Inl ExtraTargetsList)"

section \<open>Concrete targets\<close>

definition compareTradingTraitCriteria ::
  "(string \<Rightarrow> string \<Rightarrow> bool) \<Rightarrow> TraitTarget \<Rightarrow> TraitTarget \<Rightarrow> bool" where
  "compareTradingTraitCriteria lc a b =
     (if lc (trait_type a) (trait_type b) \<and> lc (trait_type b) (trait_type a)
      then lc (trait_value a) (trait_value b) else lc (trait_type a) (trait_type b))"

definition normalizeTradingTraitCriteria ::
  "(string \<Rightarrow> string \<Rightarrow> bool) \<Rightarrow> TraitTarget list \<Rightarrow> TraitTarget list" where
  "normalizeTradingTraitCriteria lc traits =
     sort_by (compareTradingTraitCriteria lc)
       (map (\<lambda>t. \<lparr>trait_type = trim (trait_type t), trait_value = trim (trait_value t)\<rparr>) traits)"

definition parseTargetTrait :: "jsval \<Rightarrow> competition_error + TraitTarget" where
  "parseTargetTrait entry =
     (case entry of
        JObj ps \<Rightarrow>
          (case getp ps ''type'' of
             JStr t \<Rightarrow>
               if trim t = [] then Inl TargetTypeRequired
               else (case getp ps ''value'' of
                       JStr v \<Rightarrow>
                         if trim v = [] then Inl TargetValueRequired
                         else Inr \<lparr>trait_type = trim t, trait_value = trim v\<rparr>
                     | _ \<Rightarrow> Inl TargetValueRequired)
           | _ \<Rightarrow> Inl TargetTypeRequired)
      | _ \<Rightarrow> Inl TargetTypeRequired)"

text \<open>The loop over \<open>traits\<close> with its \<open>seen\<close> set of JSON keys.\<close>

fun assertNoDuplicateTraits :: "TraitTarget list \<Rightarrow> string set \<Rightarrow> competition_error + unit" where
  "assertNoDuplicateTraits [] seen = Inr ()"
| "assertNoDuplicateTraits (t # ts) seen =
     (let key = json_array [json_string (trait_type t), json_string (trait_value t)]
      in if key \<in> seen then Inl (DuplicateTargetTrait (trait_type t) (trait_value t))
         else assertNoDuplicateTraits ts (insert key seen))"

definition normalizeTraitBiddingTarget ::
  "(string \<Rightarrow> string \<Rightarrow> bool) \<Rightarrow> jsval \<Rightarrow> competition_error + TraitTarget list" where
  "normalizeTraitBiddingTarget lc v =
     (case v of
        JArr es \<Rightarrow>
          if es = [] then Inl TargetTraitsRequired
          else bindR (mapR parseTargetTrait es) (\<lambda>traits.
               bindR (assertNoDuplicateTraits traits {}) (\<lambda>_.
               Inr (normalizeTradingTraitCriteria lc traits)))
      | _ \<Rightarrow> Inl TargetTraitsRequired)"

section \<open>Presets\<close>

definition normalizeCompetitionPresetTarget :: "jsval \<Rightarrow> competition_error + TraitSelector list" where
  "normalizeCompetitionPresetTarget v =
     (case v of
        JArr es \<Rightarrow>
          if es = [] \<or> length es > 2 then Inl ChooseOneOrTwo
          else bindR (normalizeExtraCompetitionTraits v) (\<lambda>targets.
               if length targets \<noteq> length es \<or> card (set (map sel_type targets)) \<noteq> length targets
               then Inl TargetKeyOnlyOnce else Inr targets)
      | _ \<Rightarrow> Inl ChooseOneOrTwo)"

text \<open>A selector as the value the validators receive.\<close>

definition selector_value :: "TraitSelector \<Rightarrow> jsval" where
  "selector_value s = JObj ((''type'', JStr (sel_type s)) #
     (case sel_value s of None \<Rightarrow> [] | Some v \<Rightarrow> [(''value'', JStr v)]))"

definition selectors_value :: "TraitSelector list \<Rightarrow> jsval" where
  "selectors_value ss = JArr (map selector_value ss)"

definition assertCompetitionPresetSourceUnchanged ::
  "TraitSelector list \<Rightarrow> TraitSelector list \<Rightarrow> competition_error + unit" where
  "assertCompetitionPresetSourceUnchanged savedTarget proposedTarget =
     bindR (normalizeCompetitionPresetTarget (selectors_value savedTarget)) (\<lambda>saved.
     bindR (normalizeCompetitionPresetTarget (selectors_value proposedTarget)) (\<lambda>proposed.
     if length saved \<noteq> length proposed \<or>
        list_ex (\<lambda>(a, b). sel_type a \<noteq> sel_type b \<or> sel_value a \<noteq> sel_value b) (zip saved proposed)
     then Inl SourceCannotChange else Inr ()))"

definition competitionPresetMatchesTarget ::
  "(string \<Rightarrow> string \<Rightarrow> bool) \<Rightarrow> TraitSelector list \<Rightarrow> TraitTarget list \<Rightarrow> bool" where
  "competitionPresetMatchesTarget lc presetTargetTraits traits =
     (let target = normalizeTradingTraitCriteria lc traits in
      length presetTargetTraits = length target \<and>
      list_all (\<lambda>source. list_ex (\<lambda>t. trim (sel_type source) = trait_type t \<and>
          (case sel_value source of None \<Rightarrow> True | Some v \<Rightarrow> trim v = trait_value t)) target)
        presetTargetTraits)"

record PresetSelection =
  preset_targetTraits :: "TraitSelector list"
  preset_revision :: int
  preset_currentRevision :: int
  preset_archivedAt :: "string option"

definition assertCompetitionPresetSelection ::
  "(string \<Rightarrow> string \<Rightarrow> bool) \<Rightarrow> PresetSelection option \<Rightarrow> TraitTarget list \<Rightarrow> bool
     \<Rightarrow> competition_error + unit" where
  "assertCompetitionPresetSelection lc preset targetTraits preserveSelectedVersion =
     (case preset of
        None \<Rightarrow> Inl PresetDoesNotMatch
      | Some p \<Rightarrow>
          if \<not> competitionPresetMatchesTarget lc (preset_targetTraits p) targetTraits
          then Inl PresetDoesNotMatch
          else if \<not> preserveSelectedVersion \<and>
                  (preset_archivedAt p \<noteq> None \<or> preset_revision p \<noteq> preset_currentRevision p)
          then Inl PresetChanged
          else Inr ())"

section \<open>Keys of selectors\<close>

lemma competitionSelectorKey_inj: "inj competitionSelectorKey"
proof (rule injI)
  fix a b
  assume "competitionSelectorKey a = competitionSelectorKey b"
  then have "sel_type a = sel_type b \<and>
    (case sel_value a of None \<Rightarrow> ''null'' | Some v \<Rightarrow> json_string v) @ '']'' =
    (case sel_value b of None \<Rightarrow> ''null'' | Some v \<Rightarrow> json_string v) @ '']''"
    by (auto simp: competitionSelectorKey_def json_array_def json_string_prefix)
  moreover have "json_string v \<noteq> ''null''" for v by (simp add: json_string_def dquote_def)
  ultimately have "sel_type a = sel_type b" "sel_value a = sel_value b"
    by (cases "sel_value a"; cases "sel_value b"; auto dest: sym)+
  then show "a = b" by (simp add: TraitSelector.equality)
qed

lemma selector_dedupe_set: "set (dedupeTradingCompetitionSelectors ss) = set ss"
  by (simp add: dedupeTradingCompetitionSelectors_def dedupe_by_set competitionSelectorKey_inj)

text \<open>The exact trait values a selector stands for.\<close>

definition covers :: "TraitSelector \<Rightarrow> string \<Rightarrow> string \<Rightarrow> bool" where
  "covers s t v \<longleftrightarrow> sel_type s = t \<and> (sel_value s = None \<or> sel_value s = Some v)"

lemma canonical_covers:
  "(\<exists>s\<in>set (canonical_selectors ss). covers s t v) \<longleftrightarrow> (\<exists>s\<in>set ss. covers s t v)"
proof
  assume "\<exists>s\<in>set ss. covers s t v"
  then obtain s where s: "s \<in> set ss" "covers s t v" by blast
  show "\<exists>s\<in>set (canonical_selectors ss). covers s t v"
  proof (cases "sel_value s = None \<or> t \<notin> set (whole_keys ss)")
    case True
    with s show ?thesis
      by (intro bexI [of _ s]) (auto simp: canonical_selectors_def selector_dedupe_set covers_def)
  next
    case False
    then obtain w where "w \<in> set ss" "sel_value w = None" "sel_type w = t"
      by (auto simp: whole_keys_def)
    then show ?thesis
      by (intro bexI [of _ w]) (simp_all add: canonical_selectors_def selector_dedupe_set covers_def)
  qed
qed (auto simp: canonical_selectors_def selector_dedupe_set)

lemma insort_by_least: "(\<And>y. y \<in> set xs \<Longrightarrow> le x y) \<Longrightarrow> insort_by le x xs = x # xs"
  by (cases xs) auto

lemma sort_by_fix: "sorted_wrt le xs \<Longrightarrow> sort_by le xs = xs"
  by (induction xs) (simp_all add: sort_by_def insort_by_least)

definition selector_wf :: "TraitSelector \<Rightarrow> bool" where
  "selector_wf s \<longleftrightarrow> sel_type s \<noteq> [] \<and> trim (sel_type s) = sel_type s \<and>
     (\<forall>v. sel_value s = Some v \<longrightarrow> v \<noteq> [] \<and> trim v = v)"

definition canonical :: "TraitSelector list \<Rightarrow> bool" where
  "canonical ss \<longleftrightarrow>
     list_all selector_wf ss \<and>
     sorted_wrt (\<lambda>a b. competitionSelectorKey a < competitionSelectorKey b) ss \<and>
     (\<forall>s\<in>set ss. sel_value s \<noteq> None \<longrightarrow> sel_type s \<notin> set (whole_keys ss))"

lemma parseSelector_wf: "parseSelector v = Inr s \<Longrightarrow> selector_wf s"
  by (auto simp: parseSelector_def selector_wf_def split: jsval.splits if_splits)

lemma parseSelector_value: "selector_wf s \<Longrightarrow> parseSelector (selector_value s) = Inr s"
  by (auto simp: parseSelector_def selector_value_def selector_wf_def object_keys_def split: option.splits)

lemma canonical_fix: "canonical ss \<Longrightarrow> canonical_selectors ss = ss"
proof -
  assume c: "canonical ss"
  then have strict: "sorted_wrt (\<lambda>a b. competitionSelectorKey a < competitionSelectorKey b) ss"
    by (simp add: canonical_def)
  have f: "filter (\<lambda>s. sel_value s = None \<or> sel_type s \<notin> set (whole_keys ss)) ss = ss"
    using c by (auto simp: canonical_def filter_id_conv)
  have d: "distinct (map competitionSelectorKey ss)"
    using strict strict_sorted_iff sorted_wrt_map by blast
  have "sorted_wrt (\<lambda>a b. competitionSelectorKey a \<le> competitionSelectorKey b) ss"
    using strict by (rule sorted_wrt_mono_rel [rotated]) simp
  then show ?thesis
    unfolding canonical_selectors_def f dedupeTradingCompetitionSelectors_def
    by (simp add: dedupe_by_fix [OF d] sort_by_fix)
qed

lemma canonical_canonical_selectors:
  assumes "list_all selector_wf ss"
  shows "canonical (canonical_selectors ss)"
proof -
  let ?kept = "filter (\<lambda>s. sel_value s = None \<or> sel_type s \<notin> set (whole_keys ss)) ss"
  let ?le = "\<lambda>a b. competitionSelectorKey a \<le> competitionSelectorKey b"
  have set: "set (canonical_selectors ss) = set ?kept"
    by (simp add: canonical_selectors_def selector_dedupe_set)
  have "sorted_wrt ?le (canonical_selectors ss)"
    unfolding canonical_selectors_def by (rule sorted_sort_by) (auto simp: total_preorder_def)
  moreover have "distinct (map competitionSelectorKey (canonical_selectors ss))"
  proof -
    have "mset (canonical_selectors ss) = mset (dedupe_by competitionSelectorKey ?kept)"
      by (simp add: canonical_selectors_def dedupeTradingCompetitionSelectors_def)
    then have "mset (map competitionSelectorKey (canonical_selectors ss)) =
        mset (map competitionSelectorKey (dedupe_by competitionSelectorKey ?kept))" by simp
    from mset_eq_imp_distinct_iff [OF this] show ?thesis by (simp only: dedupe_by_distinct)
  qed
  ultimately have "sorted_wrt (\<lambda>a b. competitionSelectorKey a < competitionSelectorKey b) (canonical_selectors ss)"
    using strict_sorted_iff [of "map competitionSelectorKey (canonical_selectors ss)"]
    by (simp add: sorted_wrt_map sorted_map)
  moreover have "list_all selector_wf (canonical_selectors ss)"
    using assms set by (auto simp: list_all_iff)
  moreover have "set (whole_keys (canonical_selectors ss)) \<subseteq> set (whole_keys ss)"
    using set by (auto simp: whole_keys_def)
  ultimately show ?thesis unfolding canonical_def set by auto
qed

text \<open>
  Normalising a job's extra competition traits is exact: the accepted list is canonical
  (trimmed non-blank texts, strictly sorted by key, no value listed beside its whole key), covers
  precisely the trait values the entries cover, and normalising it again gives it back.
\<close>

theorem extra_traits_normal_form:
  assumes "normalizeExtraCompetitionTraits v = Inr ss"
  shows "canonical ss \<and> length ss \<le> 64 \<and>
     normalizeExtraCompetitionTraits (selectors_value ss) = Inr ss \<and>
     (\<exists>es raw. v = JArr es \<and> mapR parseSelector es = Inr raw \<and>
        (\<forall>t w. (\<exists>s\<in>set ss. covers s t w) \<longleftrightarrow> (\<exists>s\<in>set raw. covers s t w)))"
proof -
  from assms obtain es raw where v: "v = JArr es" "length es \<le> 64" "mapR parseSelector es = Inr raw"
    and ss: "ss = canonical_selectors raw"
    by (auto simp: normalizeExtraCompetitionTraits_def result_elims split: if_splits)
  have wf: "list_all selector_wf raw" using mapR_Inr_all [OF v(3)] parseSelector_wf by blast
  then have can: "canonical ss" unfolding ss by (rule canonical_canonical_selectors)
  have "length (dedupe_by competitionSelectorKey xs) \<le> length xs" for xs :: "TraitSelector list"
    using dedupe_by_distinct [of competitionSelectorKey xs] dedupe_by_subset [of competitionSelectorKey xs]
    by (metis card_length card_mono distinct_card distinct_map finite_set le_trans)
  then have "length ss \<le> length raw"
    unfolding ss canonical_selectors_def dedupeTradingCompetitionSelectors_def
    by (simp only: length_sort_by) (meson le_trans length_filter_le)
  then have len: "length ss \<le> 64" using v(2) mapR_Inr_length [OF v(3)] by simp
  have "mapR parseSelector (map selector_value ss) = Inr ss"
    using can by (auto simp: canonical_def list_all_iff mapR_eq_Inr_iff list_all2_map1 list_all2_same
        parseSelector_value)
  then have "normalizeExtraCompetitionTraits (selectors_value ss) = Inr ss"
    using len canonical_fix [OF can] by (simp add: normalizeExtraCompetitionTraits_def selectors_value_def)
  with can len v(1,3) canonical_covers [of raw] ss show ?thesis by blast
qed

theorem extra_traits_normal_form_witness:
  "canonical [\<lparr>sel_type = ''Zone'', sel_value = None\<rparr>]"
proof -
  have "normalizeExtraCompetitionTraits (JArr
      [JObj [(''type'', JStr ''Zone''), (''value'', JStr ''Alto'')], JObj [(''type'', JStr '' Zone '')]]) =
      Inr [\<lparr>sel_type = ''Zone'', sel_value = None\<rparr>]"
    by (simp add: normalizeExtraCompetitionTraits_def parseSelector_def object_keys_def trim_def js_space_def
        char_code_def canonical_selectors_def whole_keys_def dedupeTradingCompetitionSelectors_def
        dedupe_by_def sort_by_def image_iff del: set_filter)
  from extra_traits_normal_form [OF this] show ?thesis by blast
qed

text \<open>
  A preset whose source keys are distinct applies to a target only if the target has exactly
  the same keys, each once; values may vary only under a source that leaves the value open.
\<close>

theorem preset_match_key_combination:
  assumes "competitionPresetMatchesTarget lc sources traits"
    and "distinct (map (trim \<circ> sel_type) sources)"
  shows "set (map (trim \<circ> sel_type) sources) = set (map (trim \<circ> trait_type) traits) \<and>
     distinct (map (trim \<circ> trait_type) traits) \<and>
     (\<forall>s\<in>set sources. \<forall>v. sel_value s = Some v \<longrightarrow>
        (\<exists>t\<in>set traits. trim (trait_type t) = trim (sel_type s) \<and> trim (trait_value t) = trim v))"
proof -
  let ?norm = "\<lambda>t. \<lparr>trait_type = trim (trait_type t), trait_value = trim (trait_value t)\<rparr>"
  have m: "length sources = length traits"
    "\<forall>s\<in>set sources. \<exists>t\<in>set traits. trim (trait_type t) = trim (sel_type s) \<and>
        (\<forall>v. sel_value s = Some v \<longrightarrow> trim (trait_value t) = trim v)"
    using assms(1)
    by (fastforce simp: competitionPresetMatchesTarget_def normalizeTradingTraitCriteria_def Let_def
        list_all_iff list_ex_iff split: option.splits)+
  have sub: "set (map (trim \<circ> sel_type) sources) \<subseteq> set (map (trim \<circ> trait_type) traits)"
    using m(2) by force
  have "card (set (map (trim \<circ> trait_type) traits)) \<le> card (set (map (trim \<circ> sel_type) sources))"
    using distinct_card [OF assms(2)] card_length [of "map (trim \<circ> trait_type) traits"] m(1) by simp
  from card_seteq [OF _ sub this]
  have eq: "set (map (trim \<circ> sel_type) sources) = set (map (trim \<circ> trait_type) traits)" by simp
  then have "card (set (map (trim \<circ> trait_type) traits)) = length (map (trim \<circ> trait_type) traits)"
    using distinct_card [OF assms(2)] m(1) by simp
  with eq m(2) show ?thesis using card_distinct by blast
qed

theorem preset_match_key_combination_witness:
  "distinct (map (trim \<circ> trait_type) [\<lparr>trait_type = ''Zone'', trait_value = ''Alto''\<rparr>])"
proof -
  have "competitionPresetMatchesTarget (\<le>) [\<lparr>sel_type = ''Zone'', sel_value = None\<rparr>]
      [\<lparr>trait_type = ''Zone'', trait_value = ''Alto''\<rparr>]"
    by (simp add: competitionPresetMatchesTarget_def normalizeTradingTraitCriteria_def sort_by_def)
  from preset_match_key_combination [OF this] show ?thesis by simp
qed

lemma assertNoDuplicateTraits_distinct:
  "assertNoDuplicateTraits ts seen = Inr () \<Longrightarrow> distinct ts \<and>
     (\<forall>t\<in>set ts. json_array [json_string (trait_type t), json_string (trait_value t)] \<notin> seen)"
  by (induction ts arbitrary: seen) (auto simp: Let_def split: if_splits)

text \<open>
  A concrete trait target is accepted only if it names at least one trait and no trait twice;
  the result is a permutation of the trimmed entries with non-blank names and values.
\<close>

theorem trait_bidding_target_wf:
  assumes "normalizeTraitBiddingTarget lc v = Inr ts"
  shows "ts \<noteq> [] \<and> distinct ts \<and>
     (\<forall>t\<in>set ts. trait_type t \<noteq> [] \<and> trait_value t \<noteq> [] \<and>
        trim (trait_type t) = trait_type t \<and> trim (trait_value t) = trait_value t)"
proof -
  from assms obtain es raw where v: "es \<noteq> []" "mapR parseTargetTrait es = Inr raw"
    "assertNoDuplicateTraits raw {} = Inr ()" and ts: "ts = normalizeTradingTraitCriteria lc raw"
    by (auto simp: normalizeTraitBiddingTarget_def result_elims split: if_splits)
  have wf: "list_all (\<lambda>t. trait_type t \<noteq> [] \<and> trait_value t \<noteq> [] \<and>
        trim (trait_type t) = trait_type t \<and> trim (trait_value t) = trait_value t) raw"
    using v(2) by (rule mapR_Inr_all)
      (auto simp: parseTargetTrait_def split: jsval.splits if_splits)
  then have same: "map (\<lambda>t. \<lparr>trait_type = trim (trait_type t), trait_value = trim (trait_value t)\<rparr>) raw = raw"
    by (intro map_idI) (auto simp: list_all_iff)
  have "mset ts = mset raw" by (simp add: ts normalizeTradingTraitCriteria_def same)
  moreover from this have "set ts = set raw" "distinct ts = distinct raw"
    by (metis set_mset_mset, metis mset_eq_imp_distinct_iff)
  moreover have "raw \<noteq> []" using v(1) mapR_Inr_length [OF v(2)] by auto
  ultimately show ?thesis
    using wf assertNoDuplicateTraits_distinct [OF v(3)] by (auto simp: list_all_iff)
qed

theorem trait_bidding_target_wf_witness:
  "distinct [\<lparr>trait_type = ''Zone'', trait_value = ''Alto''\<rparr>]"
proof -
  have "normalizeTraitBiddingTarget (\<le>) (JArr [JObj [(''type'', JStr ''Zone''), (''value'', JStr '' Alto'')]]) =
      Inr [\<lparr>trait_type = ''Zone'', trait_value = ''Alto''\<rparr>]"
    by (simp add: normalizeTraitBiddingTarget_def parseTargetTrait_def normalizeTradingTraitCriteria_def
        sort_by_def trim_def js_space_def char_code_def)
  from trait_bidding_target_wf [OF this] show ?thesis by blast
qed
end
