(* ===== verification/OpenSea_Criteria.thy ===== *)
theory OpenSea_Criteria
  imports Trait_Criteria
begin

text \<open>
  The trait criteria of raw OpenSea offers
  (\<^verbatim>\<open>shared/trading/open-sea-bidding-offers.ts\<close>, with the tolerant readers of
  \<^verbatim>\<open>shared/offchain/normalizer-utils.ts\<close> and \<^verbatim>\<open>shared/opensea/payload.ts\<close>).
  The payloads are untyped values; every alias and every nesting the code follows is followed here.
  The lemmas show that no supplied constraint is lost, since a lost one would broaden the offer.
\<close>

section \<open>Readers\<close>

definition asRecord :: "jsval \<Rightarrow> (string \<times> jsval) list" where
  "asRecord v = (case v of JObj ps \<Rightarrow> ps | _ \<Rightarrow> [])"

text \<open>\<open>a ?? b\<close>.\<close>

definition nullish :: "jsval \<Rightarrow> bool" where
  "nullish v \<longleftrightarrow> v = JUndefined \<or> v = JNull"

definition coalesce :: "jsval \<Rightarrow> jsval \<Rightarrow> jsval" where
  "coalesce a b = (if nullish a then b else a)"

definition stringOrUndefined :: "jsval \<Rightarrow> jsval" where
  "stringOrUndefined v = (case v of JStr s \<Rightarrow> if s = [] then JUndefined else JStr s | _ \<Rightarrow> JUndefined)"

definition recordOrUndefined :: "jsval \<Rightarrow> jsval" where
  "recordOrUndefined v = (case v of JObj ps \<Rightarrow> JObj ps | JArr es \<Rightarrow> JArr es | _ \<Rightarrow> JUndefined)"

definition has_key :: "(string \<times> jsval) list \<Rightarrow> string \<Rightarrow> bool" where
  "has_key ps k \<longleftrightarrow> k \<in> set (map fst ps)"

definition getOpenSeaProtocolData :: "jsval \<Rightarrow> jsval" where
  "getOpenSeaProtocolData raw =
     coalesce (getp (asRecord raw) ''protocolData'') (getp (asRecord raw) ''protocol_data'')"

definition getOpenSeaProtocolEnvelope :: "jsval \<Rightarrow> (string \<times> jsval) list option" where
  "getOpenSeaProtocolEnvelope raw =
     (case getOpenSeaProtocolData raw of JObj ps \<Rightarrow> Some ps | _ \<Rightarrow> None)"

section \<open>Trait criteria\<close>

datatype offer_criteria_error =
    NotAnObject | InvalidOfferCriterion | InvalidOfferCriteria | InvalidTraitValue
  | InvalidNumericCriteria | InvalidNumericCriterion | ConflictingBounds
  | CriteriaRejected criteria_error

definition parse_criteria :: "jsval list \<Rightarrow> offer_criteria_error + Criterion list" where
  "parse_criteria es =
     (case parseBiddingTraitCriteria (JArr es) of Inl e \<Rightarrow> Inl (CriteriaRejected e) | Inr cs \<Rightarrow> Inr cs)"

definition isOpenSeaCriteriaEnvelope :: "(string \<times> jsval) list \<Rightarrow> bool" where
  "isOpenSeaCriteriaEnvelope ps \<longleftrightarrow>
     has_key ps ''trait'' \<or> has_key ps ''traits'' \<or> has_key ps ''numeric_traits'' \<or>
     has_key ps ''numericTraits'' \<or> has_key ps ''encoded_token_ids'' \<or>
     has_key ps ''encodedTokenIds'' \<or> has_key ps ''collection'' \<or> has_key ps ''contract''"

definition openSeaTraitValue :: "(rat \<Rightarrow> string) \<Rightarrow> jsval \<Rightarrow> offer_criteria_error + string" where
  "openSeaTraitValue numberText v =
     (case v of
        JStr s \<Rightarrow> Inr s
      | JBool b \<Rightarrow> Inr (if b then ''true'' else ''false'')
      | JNum (Fin q) \<Rightarrow> Inr (numberText q)
      | _ \<Rightarrow> Inl InvalidTraitValue)"

definition record_type :: "(string \<times> jsval) list \<Rightarrow> jsval" where
  "record_type ps =
     coalesce (stringOrUndefined (getp ps ''type''))
       (coalesce (stringOrUndefined (getp ps ''trait_type''))
          (stringOrUndefined (getp ps ''traitType'')))"

definition record_value :: "(string \<times> jsval) list \<Rightarrow> jsval" where
  "record_value ps =
     coalesce (getp ps ''value'') (coalesce (getp ps ''trait_value'') (coalesce (getp ps ''traitValue'')
       (coalesce (getp ps ''trait_name'') (getp ps ''traitName''))))"

text \<open>\<open>===\<close> on decoded values: two decoded containers are never the same object.\<close>

fun strict_equal :: "jsval \<Rightarrow> jsval \<Rightarrow> bool" where
  "strict_equal (JObj _) _ \<longleftrightarrow> False"
| "strict_equal (JArr _) _ \<longleftrightarrow> False"
| "strict_equal (JNum NaN) _ \<longleftrightarrow> False"
| "strict_equal v w \<longleftrightarrow> v = w"

definition readOpenSeaNumericTraitBound ::
  "(string \<times> jsval) list \<Rightarrow> string list \<Rightarrow> offer_criteria_error + jsval" where
  "readOpenSeaNumericTraitBound ps aliases =
     (case filter (\<lambda>v. v \<noteq> JUndefined) (map (getp ps) aliases) of
        [] \<Rightarrow> Inr JUndefined
      | v # vs \<Rightarrow>
          if v = JNum NaN \<or> list_ex (\<lambda>w. \<not> strict_equal w v) vs then Inl ConflictingBounds
          else Inr v)"

text \<open>The two shapes of a numeric criterion: an interval, a single point of which is an exact value,
  or an exact numeric text, the same under every alias.\<close>

definition numericRange ::
  "(rat \<Rightarrow> string) \<Rightarrow> jsval \<Rightarrow> jsval \<Rightarrow> jsval \<Rightarrow> jsval \<Rightarrow> offer_criteria_error + Criterion" where
  "numericRange numberText t exactValue lo hi =
     bindR (parse_criteria
              [JObj [(''type'', t), (''value'', exactValue), (''min'', lo), (''max'', hi)]]) (\<lambda>cs.
     case cs of
       [] \<Rightarrow> Inl InvalidNumericCriterion
     | c # _ \<Rightarrow>
         Inr (case c of
                RangeC name a b \<Rightarrow> if a = b then ExactC name (numberText a) else RangeC name a b
              | ExactC name v \<Rightarrow> ExactC name v))"

definition numericExact ::
  "(rat \<Rightarrow> number) \<Rightarrow> jsval \<Rightarrow> string list \<Rightarrow> offer_criteria_error + Criterion" where
  "numericExact rnd t exactValues =
     (case exactValues of
        [] \<Rightarrow> Inl InvalidNumericCriterion
      | v # _ \<Rightarrow>
          if list_ex (\<lambda>w. w \<noteq> v \<or> numericTraitValue rnd w = None) exactValues
          then Inl InvalidNumericCriterion
          else bindR (parse_criteria [JObj [(''type'', t), (''value'', JStr v)]]) (\<lambda>cs.
               case cs of [] \<Rightarrow> Inl InvalidNumericCriterion | c # _ \<Rightarrow> Inr c))"

definition numericCriterion ::
  "(rat \<Rightarrow> number) \<Rightarrow> (rat \<Rightarrow> string) \<Rightarrow> jsval \<Rightarrow> offer_criteria_error + Criterion" where
  "numericCriterion rnd numberText entry =
     (let r = asRecord entry in
      bindR (mapR (\<lambda>k. openSeaTraitValue numberText (getp r k))
               (filter (\<lambda>k. getp r k \<noteq> JUndefined) [''value'', ''trait_value'', ''traitValue''])) (\<lambda>exactValues.
      bindR (readOpenSeaNumericTraitBound r [''min'', ''min_value'', ''minValue'']) (\<lambda>lo.
      bindR (readOpenSeaNumericTraitBound r [''max'', ''max_value'', ''maxValue'']) (\<lambda>hi.
      if lo \<noteq> JUndefined \<or> hi \<noteq> JUndefined
      then numericRange numberText (record_type r)
             (case exactValues of [] \<Rightarrow> JUndefined | v # _ \<Rightarrow> JStr v) lo hi
      else numericExact rnd (record_type r) exactValues))))"

definition normalizeOpenSeaNumericTraitCriteria ::
  "(rat \<Rightarrow> number) \<Rightarrow> (rat \<Rightarrow> string) \<Rightarrow> jsval \<Rightarrow> offer_criteria_error + Criterion list" where
  "normalizeOpenSeaNumericTraitCriteria rnd numberText v =
     (if nullish v then Inr []
      else case v of JArr es \<Rightarrow> mapR (numericCriterion rnd numberText) es | _ \<Rightarrow> Inl InvalidNumericCriteria)"

definition plainCriterion ::
  "(rat \<Rightarrow> string) \<Rightarrow> (string \<times> jsval) list \<Rightarrow> offer_criteria_error + Criterion list" where
  "plainCriterion numberText ps =
     (let t = record_type ps; v = record_value ps in
      if getp ps ''min'' \<noteq> JUndefined \<or> getp ps ''max'' \<noteq> JUndefined
      then parse_criteria [JObj [(''type'', t), (''value'', v), (''min'', getp ps ''min''), (''max'', getp ps ''max'')]]
      else if list_ex (has_key ps) [''type'', ''trait_type'', ''traitType'', ''value'', ''trait_value'',
                ''traitValue'', ''trait_name'', ''traitName'']
      then bindR (openSeaTraitValue numberText v) (\<lambda>s.
           parse_criteria [JObj [(''type'', t), (''value'', JStr s)]])
      else if object_keys ps = [] then Inl InvalidOfferCriteria
      else bindR (mapR (\<lambda>k. bindR (openSeaTraitValue numberText (getp ps k)) (\<lambda>s.
                    Inr (JObj [(''type'', JStr k), (''value'', JStr s)]))) (object_keys ps)) (\<lambda>es.
           parse_criteria es))"

text \<open>
  \<open>normalizeOpenSeaTraitCriteria\<close> and its two optional variants call each other on the nested
  values of an envelope; \<open>singular\<close> tells \<open>normalizeOptionalOpenSeaTraitCriterion\<close> from
  \<open>normalizeOptionalOpenSeaTraitCriteria\<close>.
\<close>

lemma getp_cases: "getp ps k = JUndefined \<or> (k, getp ps k) \<in> set ps"
  by (auto simp: getp_def split: option.splits dest: map_of_SomeD)

lemma size_getp: "getp ps k \<noteq> JUndefined \<Longrightarrow> size (getp ps k) < size (JObj ps)"
  using getp_cases [of ps k]
    size_list_estimation' [of "(k, getp ps k)" ps "size (getp ps k)" "size_prod (\<lambda>x. 0) size"]
  by auto

lemma bindR_cong [fundef_cong]:
  "m = n \<Longrightarrow> (\<And>x. n = Inr x \<Longrightarrow> f x = g x) \<Longrightarrow> bindR m f = bindR n g"
  by (cases n) simp_all

lemma mapR_cong [fundef_cong]:
  "xs = ys \<Longrightarrow> (\<And>x. x \<in> set ys \<Longrightarrow> f x = g x) \<Longrightarrow> mapR f xs = mapR g ys"
  by (induction xs arbitrary: ys) auto

lemma mapR_map: "mapR f (map g xs) = mapR (f \<circ> g) xs"
  by (induction xs) simp_all

text \<open>\<open>traits.length === 0\<close> is an error for a supplied singular criterion.\<close>

definition some_traits :: "Criterion list \<Rightarrow> offer_criteria_error + Criterion list" where
  "some_traits cs = (if cs = [] then Inl InvalidOfferCriterion else Inr cs)"

function normalizeOpenSeaTraitCriteria ::
  "(rat \<Rightarrow> number) \<Rightarrow> (rat \<Rightarrow> string) \<Rightarrow> jsval \<Rightarrow> offer_criteria_error + Criterion list" where
  "normalizeOpenSeaTraitCriteria rnd numberText v =
     (case v of
        JArr es \<Rightarrow>
          bindR (mapR (\<lambda>e. case e of
                   JObj ps \<Rightarrow> bindR (normalizeOpenSeaTraitCriteria rnd numberText e) some_traits
                 | _ \<Rightarrow> Inl NotAnObject) es) (\<lambda>css. Inr (concat css))
      | JObj ps \<Rightarrow>
          if isOpenSeaCriteriaEnvelope ps
          then bindR (if nullish (getp ps ''trait'') then Inr []
                      else bindR (normalizeOpenSeaTraitCriteria rnd numberText (getp ps ''trait'')) some_traits) (\<lambda>a.
               bindR (if nullish (getp ps ''traits'') then Inr []
                      else normalizeOpenSeaTraitCriteria rnd numberText (getp ps ''traits'')) (\<lambda>b.
               bindR (normalizeOpenSeaNumericTraitCriteria rnd numberText (getp ps ''numeric_traits'')) (\<lambda>c.
               bindR (normalizeOpenSeaNumericTraitCriteria rnd numberText (getp ps ''numericTraits'')) (\<lambda>d.
               Inr (a @ b @ c @ d)))))
          else plainCriterion numberText ps
      | _ \<Rightarrow> Inl NotAnObject)"
  by pat_completeness auto
termination
proof (relation "measure (\<lambda>(_, _, v). size v)", goal_cases)
  case (2 rnd numberText v es e ps)
  then show ?case using size_list_estimation' [of e es "size e" size] by (simp add: less_Suc_eq_le)
qed (auto simp: nullish_def dest: size_getp)

declare normalizeOpenSeaTraitCriteria.simps [simp del]

definition normalizeOptionalOpenSeaTraitCriteria ::
  "(rat \<Rightarrow> number) \<Rightarrow> (rat \<Rightarrow> string) \<Rightarrow> jsval \<Rightarrow> offer_criteria_error + Criterion list" where
  "normalizeOptionalOpenSeaTraitCriteria rnd numberText v =
     (if nullish v then Inr [] else normalizeOpenSeaTraitCriteria rnd numberText v)"

definition normalizeOptionalOpenSeaTraitCriterion ::
  "(rat \<Rightarrow> number) \<Rightarrow> (rat \<Rightarrow> string) \<Rightarrow> jsval \<Rightarrow> offer_criteria_error + Criterion list" where
  "normalizeOptionalOpenSeaTraitCriterion rnd numberText v =
     (if nullish v then Inr []
      else bindR (normalizeOpenSeaTraitCriteria rnd numberText v) some_traits)"

definition normalizeOpenSeaOfferTraitCriteria ::
  "(rat \<Rightarrow> number) \<Rightarrow> (string \<Rightarrow> string \<Rightarrow> bool) \<Rightarrow> (rat \<Rightarrow> string) \<Rightarrow> jsval
     \<Rightarrow> offer_criteria_error + Criterion list" where
  "normalizeOpenSeaOfferTraitCriteria rnd lc numberText v =
     (if v = JObj [] then Inr []
      else bindR (normalizeOptionalOpenSeaTraitCriteria rnd numberText v) (\<lambda>cs.
           Inr (dedupeBiddingTraitCriteria lc numberText cs)))"

section \<open>Criteria of an offer\<close>

definition criterion_value :: "Criterion \<Rightarrow> jsval" where
  "criterion_value c = JObj
     (case c of
        ExactC t v \<Rightarrow> [(''type'', JStr t), (''value'', JStr v)]
      | RangeC t lo hi \<Rightarrow> [(''type'', JStr t), (''min'', JNum (Fin lo)), (''max'', JNum (Fin hi))])"

definition getOpenSeaStreamTraitCriteria ::
  "(rat \<Rightarrow> number) \<Rightarrow> (string \<Rightarrow> string \<Rightarrow> bool) \<Rightarrow> (rat \<Rightarrow> string) \<Rightarrow> (string \<times> jsval) list
     \<Rightarrow> offer_criteria_error + jsval" where
  "getOpenSeaStreamTraitCriteria rnd lc numberText offer =
     bindR (normalizeOptionalOpenSeaTraitCriterion rnd numberText
              (coalesce (getp offer ''trait_criteria'') (getp offer ''traitCriteria''))) (\<lambda>a.
     bindR (normalizeOptionalOpenSeaTraitCriteria rnd numberText
              (coalesce (getp offer ''trait_criteria_list'') (getp offer ''traitCriteriaList''))) (\<lambda>b.
     bindR (normalizeOpenSeaNumericTraitCriteria rnd numberText (getp offer ''numeric_trait_criteria_list'')) (\<lambda>c.
     bindR (normalizeOpenSeaNumericTraitCriteria rnd numberText (getp offer ''numericTraitCriteriaList'')) (\<lambda>d.
     let traits = dedupeBiddingTraitCriteria lc numberText (a @ b @ c @ d)
     in Inr (if length traits > 0 then JObj [(''traits'', JArr (map criterion_value traits))] else JUndefined)))))"

text \<open>The own properties that an object spread copies.\<close>

definition spread :: "jsval \<Rightarrow> (string \<times> jsval) list" where
  "spread v = (case v of JObj ps \<Rightarrow> ps | JArr es \<Rightarrow> zip (map show_nat [0..<length es]) es | _ \<Rightarrow> [])"

text \<open>The criteria of a REST or SDK envelope, before those of a stream message are added.\<close>

definition envelope_criteria :: "jsval \<Rightarrow> jsval" where
  "envelope_criteria rawOffer =
     coalesce (recordOrUndefined (getp (asRecord rawOffer) ''criteria''))
       (case getOpenSeaProtocolEnvelope rawOffer of
          None \<Rightarrow> JUndefined | Some env \<Rightarrow> recordOrUndefined (getp env ''criteria''))"

definition getOpenSeaOfferCriteria ::
  "(rat \<Rightarrow> number) \<Rightarrow> (string \<Rightarrow> string \<Rightarrow> bool) \<Rightarrow> (rat \<Rightarrow> string) \<Rightarrow> jsval
     \<Rightarrow> offer_criteria_error + jsval" where
  "getOpenSeaOfferCriteria rnd lc numberText rawOffer =
     (let offer = asRecord rawOffer; criteria = envelope_criteria rawOffer
      in bindR (getOpenSeaStreamTraitCriteria rnd lc numberText offer) (\<lambda>streamCriteria.
         if streamCriteria = JUndefined then Inr criteria
         else bindR (normalizeOpenSeaOfferTraitCriteria rnd lc numberText criteria) (\<lambda>a.
              bindR (normalizeOpenSeaOfferTraitCriteria rnd lc numberText streamCriteria) (\<lambda>b.
              Inr (JObj ((''traits'', JArr (map criterion_value
                     (dedupeBiddingTraitCriteria lc numberText (a @ b)))) #
                   filter (\<lambda>(k, _). k \<noteq> ''traits'') (spread criteria)))))))"

text \<open>\<open>normalizeOrderTraitTargets\<close> of the bidder.\<close>

definition order_criteria ::
  "(rat \<Rightarrow> number) \<Rightarrow> (string \<Rightarrow> string \<Rightarrow> bool) \<Rightarrow> (rat \<Rightarrow> string) \<Rightarrow> jsval
     \<Rightarrow> offer_criteria_error + Criterion list" where
  "order_criteria rnd lc numberText rawOrder =
     bindR (getOpenSeaOfferCriteria rnd lc numberText rawOrder)
       (normalizeOpenSeaOfferTraitCriteria rnd lc numberText)"

section \<open>No constraint is lost\<close>

definition renorm :: "Criterion \<Rightarrow> Criterion" where
  "renorm c = (case c of
      ExactC t v \<Rightarrow> ExactC (normalizeTradingTraitText t) (normalizeTradingTraitText v)
    | RangeC t lo hi \<Rightarrow> RangeC (normalizeTradingTraitText t) lo hi)"

definition criterion_ok :: "Criterion \<Rightarrow> bool" where
  "criterion_ok c \<longleftrightarrow> trim (criterion_type c) \<noteq> [] \<and> (\<forall>t lo hi. c = RangeC t lo hi \<longrightarrow> lo \<le> hi)"

lemma trim_eq_Nil: "trim s = [] \<longleftrightarrow> (\<forall>c\<in>set s. js_space c)"
proof -
  let ?d = "dropWhile js_space s"
  have "trim s = [] \<longleftrightarrow> (\<forall>c\<in>set ?d. js_space c)" by (simp add: trim_def dropWhile_eq_Nil_conv)
  also have "\<dots> \<longleftrightarrow> ?d = []"
    using hd_dropWhile [of js_space s] hd_in_set [of ?d] by (metis empty_iff list.set(1))
  finally show ?thesis by (simp add: dropWhile_eq_Nil_conv)
qed

lemma normalizeTradingTraitText_blank: "trim v \<noteq> [] \<Longrightarrow> trim (normalizeTradingTraitText v) \<noteq> []"
proof (cases "length (trim v) \<le> 96")
  case False
  then have "normalizeTradingTraitText v = take 93 (trim v) @ ''...''"
    by (simp add: normalizeTradingTraitText_def)
  moreover have "\<not> js_space CHR ''.''" by (simp add: js_space_def char_code_def)
  ultimately show ?thesis by (auto simp: trim_eq_Nil)
qed (simp add: normalizeTradingTraitText_def)

lemma parseCriterion_ok: "parseCriterion v = Inr c \<Longrightarrow> criterion_ok c"
  by (auto simp: parseCriterion_def criterion_ok_def Let_def normalizeTradingTraitText_blank
      split: jsval.splits number.splits if_splits)

lemma parse_criteria_ok: "parse_criteria es = Inr cs \<Longrightarrow> list_all criterion_ok cs \<and> length cs = length es"
  by (auto simp: parse_criteria_def parseBiddingTraitCriteria_def intro: mapR_Inr_all parseCriterion_ok
      dest: mapR_Inr_length split: sum.splits)

lemma numericCriterion_ok: "numericCriterion rnd nt e = Inr c \<Longrightarrow> criterion_ok c"
proof -
  have range: "criterion_ok c" if "numericRange nt t x lo hi = Inr c" for t x lo hi
  proof -
    from that obtain cs where cs: "parse_criteria [JObj [(''type'', t), (''value'', x), (''min'', lo), (''max'', hi)]] = Inr cs"
      and c: "(case cs of [] \<Rightarrow> Inl InvalidNumericCriterion | c # _ \<Rightarrow>
         Inr (case c of
                RangeC name a b \<Rightarrow> if a = b then ExactC name (nt a) else RangeC name a b
              | ExactC name v \<Rightarrow> ExactC name v)) = Inr c"
      unfolding numericRange_def bindR_Inr_iff by blast
    from parse_criteria_ok [OF cs] obtain d where "cs = [d]" "criterion_ok d"
      by (auto simp: length_Suc_conv)
    with c show ?thesis by (cases d) (auto simp: criterion_ok_def split: if_splits)
  qed
  have exact: "criterion_ok c" if "numericExact rnd t xs = Inr c" for t xs
  proof -
    from that obtain v cs where cs: "parse_criteria [JObj [(''type'', t), (''value'', JStr v)]] = Inr cs"
      and c: "(case cs of [] \<Rightarrow> Inl InvalidNumericCriterion | c # _ \<Rightarrow> Inr c) = Inr c"
      by (cases xs) (auto simp: numericExact_def bindR_Inr_iff split: if_splits)
    from parse_criteria_ok [OF cs] obtain d where "cs = [d]" "criterion_ok d"
      by (auto simp: length_Suc_conv)
    with c show ?thesis by simp
  qed
  assume "numericCriterion rnd nt e = Inr c"
  then show ?thesis
    unfolding numericCriterion_def Let_def bindR_Inr_iff
    by (auto split: if_splits dest: range exact)
qed

lemma numericCriteria_ok:
  "normalizeOpenSeaNumericTraitCriteria rnd nt v = Inr cs \<Longrightarrow> list_all criterion_ok cs"
  by (auto simp: normalizeOpenSeaNumericTraitCriteria_def intro: mapR_Inr_all numericCriterion_ok
      split: if_splits jsval.splits)

lemma plainCriterion_ok: "plainCriterion nt ps = Inr cs \<Longrightarrow> list_all criterion_ok cs"
  by (auto simp: plainCriterion_def Let_def bindR_Inr_iff split: if_splits dest: parse_criteria_ok)

lemma some_traits_Inr [simp]: "some_traits cs = Inr ds \<longleftrightarrow> cs \<noteq> [] \<and> ds = cs"
  by (auto simp: some_traits_def)

lemma criteria_envelope:
  assumes "isOpenSeaCriteriaEnvelope ps"
  shows "normalizeOpenSeaTraitCriteria rnd nt (JObj ps) = Inr cs \<longleftrightarrow>
     (\<exists>a b c d. cs = a @ b @ c @ d \<and>
        normalizeOptionalOpenSeaTraitCriterion rnd nt (getp ps ''trait'') = Inr a \<and>
        normalizeOptionalOpenSeaTraitCriteria rnd nt (getp ps ''traits'') = Inr b \<and>
        normalizeOpenSeaNumericTraitCriteria rnd nt (getp ps ''numeric_traits'') = Inr c \<and>
        normalizeOpenSeaNumericTraitCriteria rnd nt (getp ps ''numericTraits'') = Inr d)"
  unfolding normalizeOpenSeaTraitCriteria.simps [of rnd nt "JObj ps"]
    normalizeOptionalOpenSeaTraitCriterion_def normalizeOptionalOpenSeaTraitCriteria_def
  using assms by (simp only: jsval.case if_True bindR_Inr_iff sum.inject(2)) blast

lemma criteria_ok:
  "normalizeOpenSeaTraitCriteria rnd nt v = Inr cs \<Longrightarrow> list_all criterion_ok cs"
proof (induction rnd nt v arbitrary: cs rule: normalizeOpenSeaTraitCriteria.induct)
  case (1 rnd nt v)
  show ?case
  proof (cases v)
    case (JArr es)
    with "1.prems" obtain css where
      css: "mapR (\<lambda>e. case e of JObj ps \<Rightarrow> bindR (normalizeOpenSeaTraitCriteria rnd nt e) some_traits
                 | _ \<Rightarrow> Inl NotAnObject) es = Inr css" "cs = concat css"
      by (subst (asm) normalizeOpenSeaTraitCriteria.simps) (auto simp: bindR_Inr_iff)
    have "list_all criterion_ok ds" if "e \<in> set es"
      "(case e of JObj ps \<Rightarrow> bindR (normalizeOpenSeaTraitCriteria rnd nt e) some_traits
                 | _ \<Rightarrow> Inl NotAnObject) = Inr ds" for e ds
    proof -
      from that(2) obtain ps where "e = JObj ps" "normalizeOpenSeaTraitCriteria rnd nt e = Inr ds"
        by (auto simp: bindR_Inr_iff split: jsval.splits)
      then show ?thesis using "1.IH"(1) [OF JArr that(1)] by blast
    qed
    moreover have "list_all2 (\<lambda>e ds. (case e of JObj ps \<Rightarrow> bindR (normalizeOpenSeaTraitCriteria rnd nt e) some_traits
                 | _ \<Rightarrow> Inl NotAnObject) = Inr ds) es css"
      using css(1) by (rule mapR_Inr_nth)
    ultimately have "list_all (list_all criterion_ok) css"
      by (smt (verit) list_all_length list_all2_conv_all_nth nth_mem)
    then show ?thesis using css(2) by (auto simp: list_all_iff)
  next
    case (JObj ps)
    show ?thesis
    proof (cases "isOpenSeaCriteriaEnvelope ps")
      case True
      with "1.prems" JObj obtain a b c d where parts: "cs = a @ b @ c @ d"
        "(if nullish (getp ps ''trait'') then Inr []
          else bindR (normalizeOpenSeaTraitCriteria rnd nt (getp ps ''trait'')) some_traits) = Inr a"
        "b = [] \<or> \<not> nullish (getp ps ''traits'') \<and> normalizeOpenSeaTraitCriteria rnd nt (getp ps ''traits'') = Inr b"
        "normalizeOpenSeaNumericTraitCriteria rnd nt (getp ps ''numeric_traits'') = Inr c"
        "normalizeOpenSeaNumericTraitCriteria rnd nt (getp ps ''numericTraits'') = Inr d"
        by (auto simp: criteria_envelope normalizeOptionalOpenSeaTraitCriteria_def
            normalizeOptionalOpenSeaTraitCriterion_def split: if_splits)
      have "list_all criterion_ok a"
        using parts(2) "1.IH"(2) [OF JObj True] by (auto simp: bindR_Inr_iff split: if_splits)
      moreover have "list_all criterion_ok b"
        using parts(3) "1.IH"(3) [OF JObj True parts(2)] by auto
      ultimately show ?thesis
        using parts numericCriteria_ok by auto
    next
      case False
      with "1.prems" JObj show ?thesis
        by (subst (asm) normalizeOpenSeaTraitCriteria.simps) (auto dest: plainCriterion_ok)
    qed
  qed (use "1.prems" in \<open>subst (asm) normalizeOpenSeaTraitCriteria.simps, simp\<close>)+
qed

lemma reparse_criterion:
  assumes "criterion_ok c"
  shows "normalizeOpenSeaTraitCriteria rnd nt (criterion_value c) = Inr [renorm c]"
  using assms
  by (subst normalizeOpenSeaTraitCriteria.simps, cases c)
    (auto simp: criterion_value_def criterion_ok_def isOpenSeaCriteriaEnvelope_def has_key_def
      plainCriterion_def record_type_def record_value_def stringOrUndefined_def coalesce_def nullish_def
      openSeaTraitValue_def parse_criteria_def parseBiddingTraitCriteria_def parseCriterion_def renorm_def Let_def)

lemma reparse_criteria:
  assumes "list_all criterion_ok cs"
  shows "normalizeOpenSeaTraitCriteria rnd nt (JArr (map criterion_value cs)) = Inr (map renorm cs)"
proof -
  let ?f = "\<lambda>e. case e of JObj ps \<Rightarrow> bindR (normalizeOpenSeaTraitCriteria rnd nt e) some_traits
                 | _ \<Rightarrow> Inl NotAnObject"
  have "?f (criterion_value c) = Inr [renorm c]" if "criterion_ok c" for c
    using reparse_criterion [OF that, of rnd nt] by (simp add: criterion_value_def some_traits_def)
  then have "mapR (?f \<circ> criterion_value) cs = Inr (map (\<lambda>c. [renorm c]) cs)"
    using assms by (intro mapR_cong_Inr) (simp add: list_all_iff)
  then have "mapR ?f (map criterion_value cs) = Inr (map (\<lambda>c. [renorm c]) cs)"
    by (simp add: mapR_map)
  then show ?thesis
    by (subst normalizeOpenSeaTraitCriteria.simps) (simp add: concat_map_singleton)
qed

lemma offer_criteria_Inr:
  "normalizeOpenSeaOfferTraitCriteria rnd lc nt v = Inr cs \<Longrightarrow> list_all criterion_ok cs"
  using dedupe_by_subset
  by (fastforce simp: normalizeOpenSeaOfferTraitCriteria_def normalizeOptionalOpenSeaTraitCriteria_def
      bindR_Inr_iff list_all_iff dedupeBiddingTraitCriteria_def split: if_splits dest!: criteria_ok)

text \<open>
  The criteria the bidder derives from a raw offer keep every constraint it carries: those of
  its REST or SDK envelope and those of a stream message are all present, up to the normalisation
  of their texts, whichever of the two the offer has.
\<close>

theorem order_criteria_keep_constraints:
  assumes "number_text_ok numberText"
    and "order_criteria rnd lc numberText raw = Inr cs"
    and "normalizeOpenSeaOfferTraitCriteria rnd lc numberText (envelope_criteria raw) = Inr own"
    and "getOpenSeaStreamTraitCriteria rnd lc numberText (asRecord raw) = Inr stream"
    and "normalizeOpenSeaOfferTraitCriteria rnd lc numberText stream = Inr streamed"
  shows "\<forall>c \<in> set own \<union> set streamed. c \<in> set cs \<or> renorm c \<in> set cs"
proof (cases "stream = JUndefined")
  case True
  with assms(2-5) have "cs = own" "streamed = []"
    by (auto simp: order_criteria_def getOpenSeaOfferCriteria_def bindR_Inr_iff Let_def
        normalizeOpenSeaOfferTraitCriteria_def normalizeOptionalOpenSeaTraitCriteria_def nullish_def
        dedupeBiddingTraitCriteria_def dedupe_by_def)
  then show ?thesis by simp
next
  case False
  let ?all = "dedupeBiddingTraitCriteria lc numberText (own @ streamed)"
  let ?ps = "(''traits'', JArr (map criterion_value ?all)) #
      filter (\<lambda>(k, _). k \<noteq> ''traits'') (spread (envelope_criteria raw))"
  from assms(2-5) False have "normalizeOpenSeaOfferTraitCriteria rnd lc numberText (JObj ?ps) = Inr cs"
    by (simp add: order_criteria_def getOpenSeaOfferCriteria_def Let_def)
  then obtain ds where ds: "normalizeOpenSeaTraitCriteria rnd numberText (JObj ?ps) = Inr ds"
    "cs = dedupeBiddingTraitCriteria lc numberText ds"
    by (auto simp: normalizeOpenSeaOfferTraitCriteria_def normalizeOptionalOpenSeaTraitCriteria_def
        bindR_Inr_iff nullish_def)
  have ok: "list_all criterion_ok ?all"
    using offer_criteria_Inr [OF assms(3)] offer_criteria_Inr [OF assms(5)]
    by (simp add: list_all_iff set_dedupeBiddingTraitCriteria [OF assms(1)] ball_Un)
  have "isOpenSeaCriteriaEnvelope ?ps" by (simp add: isOpenSeaCriteriaEnvelope_def has_key_def)
  with ds(1) have "set (map renorm ?all) \<subseteq> set ds"
    by (auto simp: criteria_envelope normalizeOptionalOpenSeaTraitCriteria_def
        reparse_criteria [OF ok] nullish_def)
  then show ?thesis
    unfolding ds(2) set_dedupeBiddingTraitCriteria [OF assms(1)]
    by (auto simp: set_dedupeBiddingTraitCriteria [OF assms(1)])
qed

section \<open>Sample\<close>

definition sample_criterion :: Criterion where
  "sample_criterion = ExactC ''Zone'' ''Alto''"

definition sample_stream_offer :: jsval where
  "sample_stream_offer = JObj [(''trait_criteria'', criterion_value sample_criterion)]"

lemma sample_renorm: "renorm sample_criterion = sample_criterion" "criterion_ok sample_criterion"
  by (simp_all add: renorm_def sample_criterion_def criterion_ok_def normalizeTradingTraitText_def trim_def
      js_space_def char_code_def)

lemma dedupe_single [simp]: "dedupeBiddingTraitCriteria lc nt [c] = [c]"
  "dedupeBiddingTraitCriteria lc nt [] = []"
  by (simp_all add: dedupeBiddingTraitCriteria_def dedupe_by_def)

lemma sample_stream:
  "getOpenSeaStreamTraitCriteria rnd lc nt (asRecord sample_stream_offer) =
     Inr (JObj [(''traits'', JArr [criterion_value sample_criterion])])"
  using reparse_criterion [OF sample_renorm(2), of rnd nt] sample_renorm(1)
  by (simp add: getOpenSeaStreamTraitCriteria_def sample_stream_offer_def asRecord_def coalesce_def nullish_def
      normalizeOptionalOpenSeaTraitCriterion_def normalizeOptionalOpenSeaTraitCriteria_def
      normalizeOpenSeaNumericTraitCriteria_def some_traits_def criterion_value_def)

lemma sample_streamed:
  "normalizeOpenSeaOfferTraitCriteria rnd lc nt (JObj [(''traits'', JArr [criterion_value sample_criterion])]) =
     Inr [sample_criterion]"
proof -
  have "normalizeOpenSeaTraitCriteria rnd nt (JObj [(''traits'', JArr [criterion_value sample_criterion])]) =
      Inr [sample_criterion]"
    using reparse_criteria [of "[sample_criterion]" rnd nt] sample_renorm
    by (auto simp: criteria_envelope isOpenSeaCriteriaEnvelope_def has_key_def nullish_def
        normalizeOptionalOpenSeaTraitCriterion_def normalizeOptionalOpenSeaTraitCriteria_def
        normalizeOpenSeaNumericTraitCriteria_def)
  then show ?thesis
    by (simp add: normalizeOpenSeaOfferTraitCriteria_def normalizeOptionalOpenSeaTraitCriteria_def nullish_def)
qed

theorem order_criteria_keep_constraints_witness:
  "order_criteria Fin (\<le>) fraction_text sample_stream_offer = Inr [sample_criterion] \<and>
   (sample_criterion \<in> set [sample_criterion] \<or> renorm sample_criterion \<in> set [sample_criterion])"
proof -
  have env: "envelope_criteria sample_stream_offer = JUndefined"
    by (simp add: envelope_criteria_def sample_stream_offer_def asRecord_def coalesce_def nullish_def
        recordOrUndefined_def getOpenSeaProtocolEnvelope_def getOpenSeaProtocolData_def)
  then have own: "normalizeOpenSeaOfferTraitCriteria Fin (\<le>) fraction_text (envelope_criteria sample_stream_offer) = Inr []"
    by (simp add: normalizeOpenSeaOfferTraitCriteria_def normalizeOptionalOpenSeaTraitCriteria_def nullish_def)
  have oc: "order_criteria Fin (\<le>) fraction_text sample_stream_offer = Inr [sample_criterion]"
    by (simp add: order_criteria_def getOpenSeaOfferCriteria_def Let_def sample_stream own sample_streamed env
        spread_def flip: env)
      (simp add: env spread_def sample_streamed)
  from order_criteria_keep_constraints [OF fraction_text_ok oc own sample_stream sample_streamed] oc
  show ?thesis by simp
qed
end
