(* ===== verification/Bidder_Pricing.thy ===== *)
theory Bidder_Pricing
  imports Offer_Price
begin

text \<open>
  The price a job should bid (\<open>getEffectiveCeiling\<close>, \<open>getEffectiveFloor\<close> and
  \<open>getDesiredBid\<close> of \<^verbatim>\<open>trading/src/application/use-cases/bidding/bidder.ts\<close>).  The
  marketplace's rounding enters through the two operations of its service, so the lemmas are
  proved for any \<open>price_grid\<close> and used on OpenSea's.  \<open>balance\<close> is
  \<open>cachedMakerWethBalance\<close>, \<open>None\<close> until it was read.
\<close>

section \<open>Operations\<close>

definition getEffectiveCeiling ::
  "(int \<Rightarrow> 'e + int) \<Rightarrow> (int \<Rightarrow> 'e + int) \<Rightarrow> int option \<Rightarrow> int \<Rightarrow> int \<Rightarrow> 'e + int" where
  "getEffectiveCeiling down up balance configuredCeiling configuredFloor =
     (let limit = (case balance of
            Some b \<Rightarrow> if b < configuredCeiling then b else configuredCeiling
          | None \<Rightarrow> configuredCeiling) in
      bindR (down limit) (\<lambda>cap.
      if (case balance of None \<Rightarrow> True | Some b \<Rightarrow> b \<ge> configuredFloor)
      then bindR (up configuredFloor) (\<lambda>f. Inr (if cap < f then 0 else cap))
      else Inr cap))"

definition getEffectiveFloor :: "(int \<Rightarrow> 'e + int) \<Rightarrow> int \<Rightarrow> int \<Rightarrow> 'e + int" where
  "getEffectiveFloor up configuredFloor effectiveCeiling =
     bindR (up configuredFloor) (\<lambda>f. Inr (if f < effectiveCeiling then f else effectiveCeiling))"

definition getDesiredBid :: "(int \<Rightarrow> 'e + int) \<Rightarrow> int \<Rightarrow> int \<Rightarrow> int \<Rightarrow> int \<Rightarrow> 'e + int" where
  "getDesiredBid up lo cap competitor delta =
     (let desiredPrice = competitor + delta;
          desiredPrice = (if desiredPrice < lo then lo else desiredPrice) in
      bindR (up desiredPrice) (\<lambda>p. Inr (if p > cap then cap else p)))"

text \<open>The three as \<open>executeJob\<close> composes them: effective ceiling, effective floor, desired bid.\<close>

definition priceJob ::
  "(int \<Rightarrow> 'e + int) \<Rightarrow> (int \<Rightarrow> 'e + int) \<Rightarrow> int option \<Rightarrow> int \<Rightarrow> int \<Rightarrow> int \<Rightarrow> int
     \<Rightarrow> 'e + int \<times> int \<times> int" where
  "priceJob down up balance configuredFloor configuredCeiling competitor delta =
     bindR (getEffectiveCeiling down up balance configuredCeiling configuredFloor) (\<lambda>cap.
     bindR (getEffectiveFloor up configuredFloor cap) (\<lambda>lo.
     bindR (getDesiredBid up lo cap competitor delta) (\<lambda>desired.
     Inr (cap, lo, desired))))"

section \<open>On any price grid\<close>

context price_grid
begin

lemma effective_ceiling:
  assumes "getEffectiveCeiling down up balance c f = Inr e"
  shows "on_grid e" and "e \<le> c \<or> e = 0" and "\<And>b. balance = Some b \<Longrightarrow> e \<le> b \<or> e = 0"
    and "e \<noteq> 0 \<Longrightarrow> e \<le> c \<and> (\<forall>b. balance = Some b \<longrightarrow> e \<le> b)"
    and "e \<noteq> 0 \<Longrightarrow> (\<And>b. balance = Some b \<Longrightarrow> f \<le> b) \<Longrightarrow> f \<le> e"
proof -
  let ?limit = "case balance of Some b \<Rightarrow> if b < c then b else c | None \<Rightarrow> c"
  have lim: "?limit \<le> c" "\<And>b. balance = Some b \<Longrightarrow> ?limit \<le> b" by (auto split: option.splits)
  from assms obtain p where p: "down ?limit = Inr p" "e = p \<or> e = 0"
    by (auto simp: getEffectiveCeiling_def Let_def bindR_Inr_iff split: if_splits)
  note g = down_greatest [OF p(1)]
  show "on_grid e" using g p(2) grid_zero by auto
  show "e \<le> c \<or> e = 0" using g p(2) lim(1) by auto
  show "\<And>b. balance = Some b \<Longrightarrow> e \<le> b \<or> e = 0" using g p(2) lim(2) by force
  show "e \<noteq> 0 \<Longrightarrow> e \<le> c \<and> (\<forall>b. balance = Some b \<longrightarrow> e \<le> b)" using g p(2) lim by force
  assume "e \<noteq> 0" and fund: "\<And>b. balance = Some b \<Longrightarrow> f \<le> b"
  then have "case balance of None \<Rightarrow> True | Some b \<Rightarrow> b \<ge> f" by (auto split: option.splits)
  with assms \<open>e \<noteq> 0\<close> obtain u where "up f = Inr u" "u \<le> e"
    by (auto simp: getEffectiveCeiling_def Let_def bindR_Inr_iff not_less split: if_splits)
  then show "f \<le> e" using up_least by force
qed

lemma effective_floor:
  assumes "getEffectiveFloor up f c = Inr e" and "on_grid c"
  shows "on_grid e" and "e \<le> c" and "e = c \<or> f \<le> e"
  using assms up_least [of f] by (auto simp: getEffectiveFloor_def bindR_Inr_iff split: if_splits)

lemma desired_bid:
  assumes "getDesiredBid up f c rival delta = Inr p" and "on_grid c" and "f \<le> c"
  shows "on_grid p" and "p \<le> c" and "f \<le> p"
    and "p = c \<or> rival + delta \<le> p \<and> (\<forall>q. on_grid q \<longrightarrow> f \<le> q \<longrightarrow> rival + delta \<le> q \<longrightarrow> p \<le> q)"
proof -
  let ?d = "if rival + delta < f then f else rival + delta"
  from assms(1) obtain u where u: "up ?d = Inr u" "p = (if u > c then c else u)"
    by (auto simp: getDesiredBid_def Let_def bindR_Inr_iff)
  note l = up_least [OF u(1)]
  show "on_grid p" "p \<le> c" "f \<le> p" using l u(2) assms(2,3) by (auto split: if_splits)
  show "p = c \<or> rival + delta \<le> p \<and> (\<forall>q. on_grid q \<longrightarrow> f \<le> q \<longrightarrow> rival + delta \<le> q \<longrightarrow> p \<le> q)"
    using l u(2) by (auto split: if_splits)
qed

lemma priceJob_bounds:
  assumes "priceJob down up balance f c rival delta = Inr (cap, lo, p)"
  shows "on_grid p" and "0 \<le> p"
    and "0 < p \<Longrightarrow> p \<le> c \<and> (\<forall>b. balance = Some b \<longrightarrow> p \<le> b)"
    and "0 < p \<Longrightarrow> (\<And>b. balance = Some b \<Longrightarrow> f \<le> b) \<Longrightarrow> f \<le> p"
    and "p = cap \<or>
      rival + delta \<le> p \<and> (\<forall>q. on_grid q \<longrightarrow> lo \<le> q \<longrightarrow> rival + delta \<le> q \<longrightarrow> p \<le> q)"
    and "lo \<le> p" and "p \<le> cap" and "on_grid cap" and "on_grid lo"
proof -
  from assms have e: "getEffectiveCeiling down up balance c f = Inr cap"
    and fl: "getEffectiveFloor up f cap = Inr lo"
    and d: "getDesiredBid up lo cap rival delta = Inr p"
    by (auto simp: priceJob_def bindR_Inr_iff)
  note ec = effective_ceiling [OF e] and ef = effective_floor [OF fl ec(1)]
  note db = desired_bid [OF d ec(1) ef(2)]
  show "on_grid p" "p \<le> cap" "lo \<le> p" "on_grid cap" "on_grid lo" by fact+
  show "0 \<le> p" using db(1) by (rule grid_nonneg)
  show "p = cap \<or>
      rival + delta \<le> p \<and> (\<forall>q. on_grid q \<longrightarrow> lo \<le> q \<longrightarrow> rival + delta \<le> q \<longrightarrow> p \<le> q)"
    by (rule db(4))
  assume "0 < p"
  then have nz: "cap \<noteq> 0" using db(2) by simp
  show "p \<le> c \<and> (\<forall>b. balance = Some b \<longrightarrow> p \<le> b)"
    using ec(4) [OF nz] db(2) by force
  assume "\<And>b. balance = Some b \<Longrightarrow> f \<le> b"
  from ec(5) [OF nz this] ef(3) db(3) show "f \<le> p" by auto
qed

lemma priceJob_total:
  assumes "0 \<le> f" and "0 \<le> c" and "\<And>b. balance = Some b \<Longrightarrow> 0 \<le> b"
    and "0 \<le> rival" and "0 \<le> delta"
  shows "\<exists>cap lo p. priceJob down up balance f c rival delta = Inr (cap, lo, p)"
proof -
  let ?limit = "case balance of Some b \<Rightarrow> if b < c then b else c | None \<Rightarrow> c"
  have "0 \<le> ?limit" using assms(2,3) by (auto split: option.splits)
  then obtain d u where "down ?limit = Inr d" "up f = Inr u"
    using down_total up_total [OF assms(1)] by blast
  then have "\<exists>e. getEffectiveCeiling down up balance c f = Inr e"
    by (simp add: getEffectiveCeiling_def Let_def)
  then obtain e where e: "getEffectiveCeiling down up balance c f = Inr e" ..
  obtain l where l: "getEffectiveFloor up f e = Inr l"
    using up_total [OF assms(1)] by (auto simp: getEffectiveFloor_def)
  have "0 \<le> (if rival + delta < l then l else rival + delta)"
    using effective_floor(1) [OF l effective_ceiling(1) [OF e]] grid_nonneg assms(4,5) by simp
  from up_total [OF this] obtain d where "getDesiredBid up l e rival delta = Inr d"
    by (auto simp: getDesiredBid_def Let_def)
  with e l show ?thesis by (simp add: priceJob_def)
qed

end

section \<open>On OpenSea\<close>

text \<open>
  C32. Pricing a job with non-negative limits never fails, and a positive price is a valid OpenSea
  price within the configured ceiling and the known WETH balance, not below the configured floor
  when the balance can fund that floor.  The price is the effective ceiling, or the least valid
  price that is at or above the effective floor and beats the best competitor by the delta.
\<close>

theorem desired_bid_is_bounded_and_least:
  assumes "0 \<le> lo" and "0 \<le> cap" and "0 \<le> competitor" and "0 \<le> delta"
    and "\<And>b. balance = Some b \<Longrightarrow> 0 \<le> b"
  shows "\<exists>effCeiling effFloor p.
     priceJob roundOpenSeaOfferPriceDown roundOpenSeaOfferPriceUp balance lo cap competitor delta
       = Inr (effCeiling, effFloor, p) \<and>
     open_sea_grid p \<and>
     (0 < p \<longrightarrow> p \<le> cap \<and> (\<forall>b. balance = Some b \<longrightarrow> p \<le> b)) \<and>
     (0 < p \<longrightarrow> (\<forall>b. balance = Some b \<longrightarrow> lo \<le> b) \<longrightarrow> lo \<le> p) \<and>
     (p = effCeiling \<or> competitor + delta \<le> p \<and>
        (\<forall>q. open_sea_grid q \<longrightarrow> effFloor \<le> q \<longrightarrow> competitor + delta \<le> q \<longrightarrow> p \<le> q))"
proof -
  obtain e l p where ok: "priceJob roundOpenSeaOfferPriceDown roundOpenSeaOfferPriceUp balance lo
      cap competitor delta = Inr (e, l, p)"
    using open_sea.priceJob_total [OF assms(1,2) _ assms(3,4)] assms(5) by blast
  note b = open_sea.priceJob_bounds [OF ok]
  show ?thesis
    by (rule exI [of _ e], rule exI [of _ l], rule exI [of _ p])
      (intro conjI impI ok b(1) b(3) b(4) b(5), auto)
qed

theorem desired_bid_is_bounded_and_least_witness:
  "\<exists>effCeiling effFloor p.
     priceJob roundOpenSeaOfferPriceDown roundOpenSeaOfferPriceUp (Some 50000000000000000)
       10000000000000000 90000000000000000 20000000000000000 100000000000000 = Inr (effCeiling, effFloor, p) \<and>
     open_sea_grid p"
  using desired_bid_is_bounded_and_least [of 10000000000000000 90000000000000000 20000000000000000
      100000000000000 "Some 50000000000000000"] by auto

end
