(* ===== verification/Bidder_Core.thy ===== *)
theory Bidder_Core
  imports Bidder_Pricing OpenSea_Criteria
begin

text \<open>
  The operations of the bidder on one job
  (\<^verbatim>\<open>trading/src/application/use-cases/bidding/bidder.ts\<close>): placing and cancelling
  offers, tracking the active order, and reporting to the runtime-state port.

  The ports the bidder is given (marketplace service, runtime-state store, clock) are the fields of
  \<open>Ports\<close>: each answers as a function of the calls made so far, which are the effects in the
  log.  An operation is a function from the state to an outcome and a state; \<open>Inl\<close> is an
  exception in flight.  The state holds the mutable job object and the log.  Logging and metrics
  have no effect on it and are left out.
\<close>

section \<open>Boundary data\<close>

datatype OfferScope = ItemScope | CollectionScope | TraitScope | UnknownScope

record Order =
  order_id :: string
  order_price :: int
  order_maker :: string
  order_protocolAddress :: "string option"
  order_placedAt :: "string option"
  order_expirationTime :: "number option"
  order_rawOrder :: jsval
  order_offerScope :: "OfferScope option"

datatype Recovery = RecoveredActive Order | InactiveOrMissing | Inconclusive string

record Placement =
  placed_orderHash :: string
  placed_protocolAddress :: string
  placed_placedAt :: string
  placed_expirationTime :: "number option"

record RuntimeStateSnapshot =
  snap_jobId :: string
  snap_jobRevision :: int
  snap_currentPriceWei :: "string option"
  snap_activeOrderId :: "string option"
  snap_activeProtocolAddress :: "string option"
  snap_activeOrderPlacedAt :: "string option"
  snap_activeOrderVerifiedAt :: "string option"
  snap_activeExpirationTimeMs :: "int option"
  snap_bidPosition :: "BidPosition option"
  snap_bidConstraints :: "BidConstraint list"
  snap_competitorPriceWei :: "string option"
  snap_lastRunAt :: "string option"
  snap_lastError :: "string option"

record CancellationSnapshot =
  canc_jobId :: string
  canc_jobRevision :: int
  canc_orderId :: string
  canc_priceWei :: "string option"
  canc_protocolAddress :: "string option"
  canc_placedAt :: "string option"
  canc_expirationTimeMs :: "int option"
  canc_makerAddress :: string
  canc_requestedAt :: string
  canc_completedAt :: "string option"
  canc_cancellationError :: "string option"

datatype bidder_error =
    ServiceFailed string
  | PersistFailed string
  | TrackedOrderUnproven string string string
  | PriceRejected price_error
  | CriteriaUnreadable offer_criteria_error
  | QuantityNotIntegral

section \<open>Effects and ports\<close>

datatype effect =
    ReadOffers string
  | ReadOrder string "string option" string "string option" string
  | PlaceOffer BidderJob int
  | CancelOffer BidderJob Order
  | PersistState RuntimeStateSnapshot
  | RecordCancellation CancellationSnapshot
  | ReadClock

record Ports =
  port_offers :: "effect list \<Rightarrow> string + Order list"
  port_order :: "effect list \<Rightarrow> string + Recovery"
  port_place :: "effect list \<Rightarrow> string + Placement"
  port_cancel :: "effect list \<Rightarrow> string + unit"
  port_persist :: "effect list \<Rightarrow> string + unit"
  port_record :: "effect list \<Rightarrow> string + unit"
  port_now :: "effect list \<Rightarrow> int"
  port_iso :: "int \<Rightarrow> string"
  port_message :: "bidder_error \<Rightarrow> string"

text \<open>What the constructor is given and never changes: the maker, the scan interval, the dry-run
  option, whether a runtime-state port exists, the service's rounding, and the host functions on
  numbers and texts.\<close>

record BidderContext =
  ctx_makerAddress :: string
  ctx_scanSleepMs :: int
  ctx_dryRun :: bool
  ctx_hasRuntimePort :: bool
  ctx_down :: "int \<Rightarrow> price_error + int"
  ctx_up :: "int \<Rightarrow> price_error + int"
  ctx_round :: "rat \<Rightarrow> number"
  ctx_lc :: "string \<Rightarrow> string \<Rightarrow> bool"
  ctx_numberText :: "rat \<Rightarrow> string"

section \<open>Executions\<close>

record Exec =
  ex_job :: BidderJob
  ex_log :: "effect list"

type_synonym 'a exec = "Exec \<Rightarrow> (bidder_error + 'a) \<times> Exec"

definition returnE :: "'a \<Rightarrow> 'a exec" where
  "returnE x s = (Inr x, s)"

definition throwE :: "bidder_error \<Rightarrow> 'a exec" where
  "throwE e s = (Inl e, s)"

definition bindE :: "'a exec \<Rightarrow> ('a \<Rightarrow> 'b exec) \<Rightarrow> 'b exec" where
  "bindE m f s = (case m s of (Inl e, t) \<Rightarrow> (Inl e, t) | (Inr x, t) \<Rightarrow> f x t)"

text \<open>\<open>try m catch (e) h(e)\<close>.\<close>

definition catchE :: "'a exec \<Rightarrow> (bidder_error \<Rightarrow> 'a exec) \<Rightarrow> 'a exec" where
  "catchE m h s = (case m s of (Inl e, t) \<Rightarrow> h e t | (Inr x, t) \<Rightarrow> (Inr x, t))"

definition liftE :: "('e \<Rightarrow> bidder_error) \<Rightarrow> 'e + 'a \<Rightarrow> 'a exec" where
  "liftE err r s = ((case r of Inl e \<Rightarrow> Inl (err e) | Inr x \<Rightarrow> Inr x), s)"

definition getJob :: "BidderJob exec" where
  "getJob s = (Inr (ex_job s), s)"

definition updState :: "(BidderState \<Rightarrow> BidderState) \<Rightarrow> unit exec" where
  "updState f s = (Inr (), s\<lparr>ex_job := (ex_job s)\<lparr>job_state := f (job_state (ex_job s))\<rparr>\<rparr>)"

text \<open>A call of a port: the call is logged, then answered.\<close>

definition callE :: "(effect list \<Rightarrow> string + 'a) \<Rightarrow> (string \<Rightarrow> bidder_error) \<Rightarrow> effect \<Rightarrow> 'a exec" where
  "callE answer err e s =
     (let l = ex_log s @ [e] in
      ((case answer l of Inl m \<Rightarrow> Inl (err m) | Inr x \<Rightarrow> Inr x), s\<lparr>ex_log := l\<rparr>))"

definition nowE :: "Ports \<Rightarrow> int exec" where
  "nowE P = callE (\<lambda>l. Inr (port_now P l)) ServiceFailed ReadClock"

definition isoNowE :: "Ports \<Rightarrow> string exec" where
  "isoNowE P = bindE (nowE P) (\<lambda>t. returnE (port_iso P t))"

fun forE :: "('a \<Rightarrow> unit exec) \<Rightarrow> 'a list \<Rightarrow> unit exec" where
  "forE f [] = returnE ()"
| "forE f (x # xs) = bindE (f x) (\<lambda>_. forE f xs)"

section \<open>Expirations\<close>

text \<open>\<open>Math.floor(expirationTime * 1000)\<close> of a positive finite number of seconds.\<close>

definition toExpirationTimeMs :: "number option \<Rightarrow> int option" where
  "toExpirationTimeMs t =
     (case t of Some (Fin q) \<Rightarrow> if q \<le> 0 then None else Some \<lfloor>q * 1000\<rfloor> | _ \<Rightarrow> None)"

text \<open>\<open>a ?? b\<close> on optional values.\<close>

definition orElse :: "'a option \<Rightarrow> 'a option \<Rightarrow> 'a option" where
  "orElse a b = (case a of Some x \<Rightarrow> Some x | None \<Rightarrow> b)"

definition resolveKnownExpirationTimeMs :: "BidderJob \<Rightarrow> Order \<Rightarrow> int option" where
  "resolveKnownExpirationTimeMs job order =
     orElse (toExpirationTimeMs (order_expirationTime order))
       (if activeOrderId (job_state job) = Some (order_id order)
        then activeExpirationTimeMs (job_state job) else None)"

datatype RenewalReason = ExpirationUnknown | WithinRenewalWindow int int

definition getBidRenewalReason ::
  "BidderContext \<Rightarrow> Ports \<Rightarrow> BidderJob \<Rightarrow> Order \<Rightarrow> RenewalReason option exec" where
  "getBidRenewalReason C P job order =
     (case resolveKnownExpirationTimeMs job order of
        None \<Rightarrow> returnE (Some ExpirationUnknown)
      | Some expirationTimeMs \<Rightarrow>
          bindE (nowE P) (\<lambda>now.
          let remainingMs = expirationTimeMs - now; renewalWindowMs = ctx_scanSleepMs C * 2
          in returnE (if remainingMs \<ge> renewalWindowMs then None
                      else Some (WithinRenewalWindow remainingMs renewalWindowMs))))"

section \<open>Runtime decision\<close>

definition resolveRuntimeBidPosition :: "int \<Rightarrow> int \<Rightarrow> BidPosition" where
  "resolveRuntimeBidPosition ownPrice rival =
     (if ownPrice > rival then Winning else if ownPrice = rival then Draw else Losing)"

definition resolveRuntimeBidConstraints :: "BidPosition \<Rightarrow> int \<Rightarrow> int \<Rightarrow> int \<Rightarrow> BidConstraint list" where
  "resolveRuntimeBidConstraints position ownPrice lo cap =
     (let isAtCeiling = cap > 0 \<and> ownPrice \<ge> cap; isAtFloor = lo > 0 \<and> ownPrice \<le> lo in
      if position \<noteq> Winning \<and> isAtCeiling then [CeilingConstraint]
      else if isAtFloor then [FloorConstraint]
      else if isAtCeiling then [CeilingConstraint] else [])"

definition trackRuntimeBidDecision :: "int \<Rightarrow> int \<Rightarrow> int \<Rightarrow> int \<Rightarrow> unit exec" where
  "trackRuntimeBidDecision ownPrice rival lo cap =
     updState (\<lambda>st. st\<lparr>
       bidPosition := Some (resolveRuntimeBidPosition ownPrice rival),
       bidConstraints := Some (resolveRuntimeBidConstraints
         (resolveRuntimeBidPosition ownPrice rival) ownPrice lo cap),
       competitorPrice := Some rival\<rparr>)"

definition clearRuntimeBidDecision :: "unit exec" where
  "clearRuntimeBidDecision =
     updState (\<lambda>st. st\<lparr>bidPosition := None, bidConstraints := None, competitorPrice := None\<rparr>)"

section \<open>Reporting to the runtime-state port\<close>

definition stateSnapshot :: "Ports \<Rightarrow> BidderJob \<Rightarrow> string option \<Rightarrow> RuntimeStateSnapshot" where
  "stateSnapshot P job err =
     (let st = job_state job in
      \<lparr>snap_jobId = jobId job, snap_jobRevision = revision job,
       snap_currentPriceWei = map_option show_int (currentPrice st),
       snap_activeOrderId = activeOrderId st,
       snap_activeProtocolAddress = activeProtocolAddress st,
       snap_activeOrderPlacedAt = activeOrderPlacedAt st,
       snap_activeOrderVerifiedAt = activeOrderVerifiedAt st,
       snap_activeExpirationTimeMs = activeExpirationTimeMs st,
       snap_bidPosition = bidPosition st,
       snap_bidConstraints = (case bidConstraints st of None \<Rightarrow> [] | Some cs \<Rightarrow> cs),
       snap_competitorPriceWei = map_option show_int (competitorPrice st),
       snap_lastRunAt = (case lastRun st of Some t \<Rightarrow> if t = 0 then None else Some (port_iso P t)
                         | None \<Rightarrow> None),
       snap_lastError = err\<rparr>)"

definition persistJobRuntimeState ::
  "BidderContext \<Rightarrow> Ports \<Rightarrow> string option \<Rightarrow> bool \<Rightarrow> unit exec" where
  "persistJobRuntimeState C P err required =
     (if \<not> ctx_hasRuntimePort C then returnE ()
      else bindE getJob (\<lambda>job.
           catchE (callE (port_persist P) PersistFailed (PersistState (stateSnapshot P job err)))
             (\<lambda>e. if required then throwE e else returnE ())))"

definition markActiveOrderVerified :: "Ports \<Rightarrow> unit exec" where
  "markActiveOrderVerified P =
     bindE (isoNowE P) (\<lambda>t. updState (\<lambda>st. st\<lparr>activeOrderVerifiedAt := Some t\<rparr>))"

definition recordCancellationE :: "BidderContext \<Rightarrow> Ports \<Rightarrow> CancellationSnapshot \<Rightarrow> unit exec" where
  "recordCancellationE C P snapshot =
     catchE (callE (port_record P) PersistFailed (RecordCancellation snapshot)) (\<lambda>_. returnE ())"

definition recordJobOfferCancellation ::
  "BidderContext \<Rightarrow> Ports \<Rightarrow> Order \<Rightarrow> string \<Rightarrow> string option \<Rightarrow> string option \<Rightarrow> unit exec" where
  "recordJobOfferCancellation C P order requestedAt completedAt cancellationError =
     (if \<not> ctx_hasRuntimePort C then returnE ()
      else bindE getJob (\<lambda>job. recordCancellationE C P
        \<lparr>canc_jobId = jobId job, canc_jobRevision = revision job, canc_orderId = order_id order,
         canc_priceWei = Some (show_int (order_price order)),
         canc_protocolAddress = order_protocolAddress order, canc_placedAt = order_placedAt order,
         canc_expirationTimeMs = toExpirationTimeMs (order_expirationTime order),
         canc_makerAddress = toLowerCase (ctx_makerAddress C), canc_requestedAt = requestedAt,
         canc_completedAt = completedAt, canc_cancellationError = cancellationError\<rparr>))"

definition recordTrackedOrderCancellation ::
  "BidderContext \<Rightarrow> Ports \<Rightarrow> string \<Rightarrow> string option \<Rightarrow> string option \<Rightarrow> unit exec" where
  "recordTrackedOrderCancellation C P requestedAt completedAt cancellationError =
     bindE getJob (\<lambda>job.
     case activeOrderId (job_state job) of
       None \<Rightarrow> returnE ()
     | Some orderId \<Rightarrow>
         if \<not> ctx_hasRuntimePort C \<or> orderId = [] then returnE ()
         else recordCancellationE C P
           \<lparr>canc_jobId = jobId job, canc_jobRevision = revision job, canc_orderId = orderId,
            canc_priceWei = map_option show_int (currentPrice (job_state job)),
            canc_protocolAddress = activeProtocolAddress (job_state job),
            canc_placedAt = activeOrderPlacedAt (job_state job),
            canc_expirationTimeMs = activeExpirationTimeMs (job_state job),
            canc_makerAddress = toLowerCase (ctx_makerAddress C), canc_requestedAt = requestedAt,
            canc_completedAt = completedAt, canc_cancellationError = cancellationError\<rparr>)"

section \<open>Tracking the active order\<close>

definition trackCurrentOrder :: "BidderContext \<Rightarrow> Ports \<Rightarrow> Order \<Rightarrow> unit exec" where
  "trackCurrentOrder C P order =
     bindE getJob (\<lambda>job.
     let st = job_state job;
         same = (activeOrderId st = Some (order_id order));
         nextExpirationTimeMs = orElse (toExpirationTimeMs (order_expirationTime order))
           (if same then activeExpirationTimeMs st else None);
         nextPlacedAt = orElse (order_placedAt order) (if same then activeOrderPlacedAt st else None)
     in
     bindE (updState (\<lambda>st. st\<lparr>activeOrderId := Some (order_id order),
              activeProtocolAddress := order_protocolAddress order,
              activeOrderPlacedAt := nextPlacedAt\<rparr>)) (\<lambda>_.
     bindE (markActiveOrderVerified P) (\<lambda>_.
     bindE (updState (\<lambda>st. st\<lparr>currentPrice := Some (order_price order),
              activeExpirationTimeMs := nextExpirationTimeMs\<rparr>)) (\<lambda>_.
     persistJobRuntimeState C P None False))))"

definition clearTrackedOrder :: "BidderContext \<Rightarrow> Ports \<Rightarrow> unit exec" where
  "clearTrackedOrder C P =
     bindE (updState (\<lambda>st. st\<lparr>activeOrderId := None, activeProtocolAddress := None,
              activeOrderPlacedAt := None, activeOrderVerifiedAt := None, currentPrice := None,
              activeExpirationTimeMs := None\<rparr>)) (\<lambda>_.
     bindE clearRuntimeBidDecision (\<lambda>_.
     persistJobRuntimeState C P None False))"

text \<open>An empty text is falsy in \<open>if (!activeId)\<close> and \<open>!state.activeProtocolAddress\<close>.\<close>

definition truthy :: "string option \<Rightarrow> bool" where
  "truthy v \<longleftrightarrow> (case v of None \<Rightarrow> False | Some s \<Rightarrow> s \<noteq> [])"

definition adoptProtocolAddress :: "Order \<Rightarrow> unit exec" where
  "adoptProtocolAddress order =
     bindE getJob (\<lambda>job.
     if \<not> truthy (activeProtocolAddress (job_state job)) \<and> truthy (order_protocolAddress order)
     then updState (\<lambda>st. st\<lparr>activeProtocolAddress := order_protocolAddress order\<rparr>)
     else returnE ())"

definition target_tokenId :: "BidderTarget \<Rightarrow> string option" where
  "target_tokenId t = (case t of Token i \<Rightarrow> Some i | _ \<Rightarrow> None)"

definition resolveTrackedActiveOrder ::
  "BidderContext \<Rightarrow> Ports \<Rightarrow> Order list \<Rightarrow> bool \<Rightarrow> Order option exec" where
  "resolveTrackedActiveOrder C P offers clearMissing =
     bindE getJob (\<lambda>job.
     if \<not> truthy (activeOrderId (job_state job)) then returnE None
     else
       let activeId = the (activeOrderId (job_state job)) in
       case List.find (\<lambda>offer. order_id offer = activeId) offers of
         Some found \<Rightarrow> bindE (adoptProtocolAddress found) (\<lambda>_. returnE (Some found))
       | None \<Rightarrow>
           bindE (callE (port_order P) ServiceFailed
                    (ReadOrder activeId (activeProtocolAddress (job_state job)) (collectionAddress job)
                       (target_tokenId (job_target job)) (collectionSlug job))) (\<lambda>recovered.
           case recovered of
             RecoveredActive order \<Rightarrow> bindE (adoptProtocolAddress order) (\<lambda>_. returnE (Some order))
           | Inconclusive reason \<Rightarrow> throwE (TrackedOrderUnproven (jobId job) activeId reason)
           | InactiveOrMissing \<Rightarrow>
               if clearMissing then bindE (clearTrackedOrder C P) (\<lambda>_. returnE None)
               else returnE None))"

section \<open>Placing and cancelling\<close>

text \<open>The optional \<open>decisionContext\<close> holds the competitor's price, the floor and the ceiling.\<close>

text \<open>The quantity that is logged with a placement: \<open>BigInt\<close> of it throws unless it is finite.\<close>

definition loggedQuantity :: "unit exec" where
  "loggedQuantity =
     bindE getJob (\<lambda>job.
     case job_target job of
       Token _ \<Rightarrow> returnE ()
     | Collection q _ \<Rightarrow>
         if isFiniteNum (math_max1 (math_floor q)) then returnE () else throwE QuantityNotIntegral
     | CompetitiveTrait q _ _ \<Rightarrow>
         if isFiniteNum (math_max1 (math_floor q)) then returnE () else throwE QuantityNotIntegral)"

definition performPlaceAndTrack ::
  "BidderContext \<Rightarrow> Ports \<Rightarrow> int \<Rightarrow> (int \<times> int \<times> int) option \<Rightarrow> unit exec" where
  "performPlaceAndTrack C P amount decisionContext =
     bindE (nowE P) (\<lambda>now.
     bindE (updState (\<lambda>st. st\<lparr>lastRun := Some now\<rparr>)) (\<lambda>_.
     if ctx_dryRun C then loggedQuantity
     else
       bindE getJob (\<lambda>job.
       bindE (callE (port_place P) ServiceFailed (PlaceOffer job amount)) (\<lambda>placement.
       bindE (updState (\<lambda>st. st\<lparr>activeOrderId := Some (placed_orderHash placement),
                activeProtocolAddress := Some (placed_protocolAddress placement),
                activeOrderPlacedAt := Some (placed_placedAt placement)\<rparr>)) (\<lambda>_.
       bindE (markActiveOrderVerified P) (\<lambda>_.
       bindE (updState (\<lambda>st. st\<lparr>currentPrice := Some amount,
                activeExpirationTimeMs := toExpirationTimeMs (placed_expirationTime placement)\<rparr>)) (\<lambda>_.
       bindE (case decisionContext of
                None \<Rightarrow> returnE ()
              | Some (rival, lo, cap) \<Rightarrow> trackRuntimeBidDecision amount rival lo cap) (\<lambda>_.
       bindE (persistJobRuntimeState C P None True) (\<lambda>_.
       loggedQuantity)))))))))"

text \<open>\<open>placeAndTrack\<close> and \<open>cancelAndTrack\<close> only add metrics around the \<open>perform\<close> operations.\<close>

definition placeAndTrack ::
  "BidderContext \<Rightarrow> Ports \<Rightarrow> int \<Rightarrow> (int \<times> int \<times> int) option \<Rightarrow> unit exec" where
  "placeAndTrack C P amount decisionContext = performPlaceAndTrack C P amount decisionContext"

definition performCancelAndTrack :: "BidderContext \<Rightarrow> Ports \<Rightarrow> Order \<Rightarrow> unit exec" where
  "performCancelAndTrack C P order =
     (if ctx_dryRun C then returnE ()
      else
        bindE (isoNowE P) (\<lambda>requestedAt.
        bindE (recordJobOfferCancellation C P order requestedAt None None) (\<lambda>_.
        bindE getJob (\<lambda>job.
        bindE (catchE (callE (port_cancel P) ServiceFailed (CancelOffer job order)) (\<lambda>e.
                 bindE (recordJobOfferCancellation C P order requestedAt None (Some (port_message P e))) (\<lambda>_.
                 throwE e))) (\<lambda>_.
        bindE (isoNowE P) (\<lambda>completedAt.
        recordJobOfferCancellation C P order requestedAt (Some completedAt) None))))))"

definition cancelAndTrack :: "BidderContext \<Rightarrow> Ports \<Rightarrow> Order \<Rightarrow> unit exec" where
  "cancelAndTrack C P order = performCancelAndTrack C P order"

definition cancelMakerOffers :: "BidderContext \<Rightarrow> Ports \<Rightarrow> Order list \<Rightarrow> string option \<Rightarrow> unit exec" where
  "cancelMakerOffers C P myOffers keepOrderId =
     forE (\<lambda>offer.
       if truthy keepOrderId \<and> Some (order_id offer) = keepOrderId then returnE ()
       else cancelAndTrack C P offer) myOffers"

section \<open>Which offers a job manages\<close>

definition isOfferManagedByJob ::
  "BidderContext \<Rightarrow> BidderJob \<Rightarrow> Order \<Rightarrow> offer_criteria_error + bool" where
  "isOfferManagedByJob C job order =
     (let traits = (\<lambda>targetTraits.
        if order_offerScope order \<noteq> Some TraitScope then Inr False
        else bindR (order_criteria (ctx_round C) (ctx_lc C) (ctx_numberText C) (order_rawOrder order)) (\<lambda>cs.
             Inr (matchesExactTraitTargets (ctx_lc C) (ctx_numberText C) cs
                    (map criterion_of_target targetTraits))))
      in case job_target job of
           Token _ \<Rightarrow> Inr (order_offerScope order = Some ItemScope)
         | Collection _ targetTraits \<Rightarrow>
             if length (traits_of targetTraits) = 0 then Inr (order_offerScope order = Some CollectionScope)
             else traits (traits_of targetTraits)
         | CompetitiveTrait _ targetTrait _ \<Rightarrow> traits [targetTrait])"

text \<open>\<open>offers.filter(p)\<close> with a predicate that may throw.\<close>

fun filterR :: "('a \<Rightarrow> 'e + bool) \<Rightarrow> 'a list \<Rightarrow> 'e + 'a list" where
  "filterR p [] = Inr []"
| "filterR p (x # xs) =
     bindR (p x) (\<lambda>b. bindR (filterR p xs) (\<lambda>ys. Inr (if b then x # ys else ys)))"

definition isMakerOffer :: "BidderContext \<Rightarrow> Order \<Rightarrow> bool" where
  "isMakerOffer C offer \<longleftrightarrow> toLowerCase (order_maker offer) = toLowerCase (ctx_makerAddress C)"

section \<open>Market actions of an execution\<close>

text \<open>
  The calls that change the market, each with the declaration of its job.  The declaration is the
  job without its runtime state; no operation changes it.
\<close>

datatype action = Place BidderJob int | Cancel BidderJob Order

definition decl :: "BidderJob \<Rightarrow> BidderJob" where
  "decl job = job\<lparr>job_state := empty_state\<rparr>"

fun action_of :: "effect \<Rightarrow> action list" where
  "action_of (PlaceOffer job amount) = [Place (decl job) amount]"
| "action_of (CancelOffer job order) = [Cancel (decl job) order]"
| "action_of _ = []"

definition actions :: "effect list \<Rightarrow> action list" where
  "actions l = concat (map action_of l)"

lemma actions_simps [simp]:
  "actions [] = []" "actions (l @ l') = actions l @ actions l'" "actions [e] = action_of e"
  by (simp_all add: actions_def)

lemma decl_upd [simp]: "decl (job\<lparr>job_state := st\<rparr>) = decl job" "decl (decl job) = decl job"
  by (simp_all add: decl_def)

named_theorems quiet_intros \<open>operations without market actions\<close>

definition quiet :: "'a exec \<Rightarrow> bool" where
  "quiet m \<longleftrightarrow> (\<forall>s r s'. m s = (r, s') \<longrightarrow>
     actions (ex_log s') = actions (ex_log s) \<and> decl (ex_job s') = decl (ex_job s))"

lemma quietD:
  "quiet m \<Longrightarrow> m s = (r, s') \<Longrightarrow>
     actions (ex_log s') = actions (ex_log s) \<and> decl (ex_job s') = decl (ex_job s)"
  by (simp add: quiet_def)

lemma quiet_return [quiet_intros]: "quiet (returnE x)"
  by (simp add: quiet_def returnE_def)

lemma quiet_throw [quiet_intros]: "quiet (throwE e)"
  by (simp add: quiet_def throwE_def)

lemma quiet_getJob [quiet_intros]: "quiet getJob"
  by (simp add: quiet_def getJob_def)

lemma quiet_lift [quiet_intros]: "quiet (liftE err r)"
  by (simp add: quiet_def liftE_def)

lemma quiet_upd [quiet_intros]: "quiet (updState f)"
  by (simp add: quiet_def updState_def)

lemma quiet_call [quiet_intros]: "action_of e = [] \<Longrightarrow> quiet (callE answer err e)"
  by (simp add: quiet_def callE_def Let_def)

lemma quiet_bind [quiet_intros]:
  assumes "quiet m" and "\<And>x. quiet (f x)"
  shows "quiet (bindE m f)"
  unfolding quiet_def bindE_def
proof (intro allI impI)
  fix s r s'
  assume "(case m s of (Inl e, t) \<Rightarrow> (Inl e, t) | (Inr x, t) \<Rightarrow> f x t) = (r, s')"
  then show "actions (ex_log s') = actions (ex_log s) \<and> decl (ex_job s') = decl (ex_job s)"
    using quietD [OF assms(1), of s] quietD [OF assms(2)]
    by (cases "m s"; cases "fst (m s)") fastforce+
qed

lemma quiet_catch [quiet_intros]:
  assumes "quiet m" and "\<And>e. quiet (h e)"
  shows "quiet (catchE m h)"
  unfolding quiet_def catchE_def
proof (intro allI impI)
  fix s r s'
  assume "(case m s of (Inl e, t) \<Rightarrow> h e t | (Inr x, t) \<Rightarrow> (Inr x, t)) = (r, s')"
  then show "actions (ex_log s') = actions (ex_log s) \<and> decl (ex_job s') = decl (ex_job s)"
    using quietD [OF assms(1), of s] quietD [OF assms(2)]
    by (cases "m s"; cases "fst (m s)") fastforce+
qed

lemma quiet_if [quiet_intros]: "quiet m \<Longrightarrow> quiet n \<Longrightarrow> quiet (if b then m else n)"
  by simp

lemma quiet_nowE [quiet_intros]: "quiet (nowE P)"
  unfolding nowE_def by (intro quiet_intros) simp

lemma quiet_isoNowE [quiet_intros]: "quiet (isoNowE P)"
  unfolding isoNowE_def by (intro quiet_intros)

lemma quiet_trackDecision [quiet_intros]: "quiet (trackRuntimeBidDecision a b c d)"
  unfolding trackRuntimeBidDecision_def by (intro quiet_intros)

lemma quiet_clearDecision [quiet_intros]: "quiet clearRuntimeBidDecision"
  unfolding clearRuntimeBidDecision_def by (intro quiet_intros)

lemma quiet_persist [quiet_intros]: "quiet (persistJobRuntimeState C P err required)"
  unfolding persistJobRuntimeState_def by (intro quiet_intros) simp

lemma quiet_markVerified [quiet_intros]: "quiet (markActiveOrderVerified P)"
  unfolding markActiveOrderVerified_def by (intro quiet_intros)

lemma quiet_recordE [quiet_intros]: "quiet (recordCancellationE C P snapshot)"
  unfolding recordCancellationE_def by (intro quiet_intros) simp

lemma quiet_record [quiet_intros]: "quiet (recordJobOfferCancellation C P order a b c)"
  unfolding recordJobOfferCancellation_def by (intro quiet_intros)

lemma quiet_recordTracked [quiet_intros]: "quiet (recordTrackedOrderCancellation C P a b c)"
  unfolding recordTrackedOrderCancellation_def
  by (rule quiet_bind [OF quiet_getJob]) (auto split: option.split intro!: quiet_intros)

lemma quiet_trackOrder [quiet_intros]: "quiet (trackCurrentOrder C P order)"
  unfolding trackCurrentOrder_def Let_def by (intro quiet_intros)

lemma quiet_clearTracked [quiet_intros]: "quiet (clearTrackedOrder C P)"
  unfolding clearTrackedOrder_def by (intro quiet_intros)

lemma quiet_adopt [quiet_intros]: "quiet (adoptProtocolAddress order)"
  unfolding adoptProtocolAddress_def by (intro quiet_intros)

lemma quiet_loggedQuantity [quiet_intros]: "quiet loggedQuantity"
  unfolding loggedQuantity_def
  by (rule quiet_bind [OF quiet_getJob]) (auto split: BidderTarget.split intro!: quiet_intros)

lemma quiet_resolveTracked [quiet_intros]: "quiet (resolveTrackedActiveOrder C P offers clearMissing)"
  unfolding resolveTrackedActiveOrder_def Let_def
  by (rule quiet_bind [OF quiet_getJob])
    (auto split: option.split Recovery.split intro!: quiet_intros)

lemma quiet_renewal [quiet_intros]: "quiet (getBidRenewalReason C P job order)"
  unfolding getBidRenewalReason_def Let_def
  by (auto split: option.split intro!: quiet_intros)

section \<open>What placing and cancelling do\<close>

lemma bindE_cases:
  assumes "bindE m f s = (r, s')"
  obtains (thrown) e where "m s = (Inl e, s')" "r = Inl e"
    | (returned) x t where "m s = (Inr x, t)" "f x t = (r, s')"
  using assms by (cases "m s"; cases "fst (m s)") (auto simp: bindE_def)

lemma callE_eq:
  "callE answer err e s = (r, s') \<longleftrightarrow> s' = s\<lparr>ex_log := ex_log s @ [e]\<rparr> \<and>
     r = (case answer (ex_log s @ [e]) of Inl m \<Rightarrow> Inl (err m) | Inr x \<Rightarrow> Inr x)"
  by (auto simp: callE_def Let_def)

lemma nowE_eq: "nowE P s = (Inr (port_now P (ex_log s @ [ReadClock])), s\<lparr>ex_log := ex_log s @ [ReadClock]\<rparr>)"
  by (simp add: nowE_def callE_def Let_def)

lemmas exec_simps = bindE_def returnE_def throwE_def catchE_def getJob_def updState_def callE_def nowE_eq
  isoNowE_def liftE_def Let_def

text \<open>The part of a placement after the marketplace accepted it.\<close>

definition trackPlacement ::
  "BidderContext \<Rightarrow> Ports \<Rightarrow> int \<Rightarrow> (int \<times> int \<times> int) option \<Rightarrow> Placement \<Rightarrow> unit exec" where
  "trackPlacement C P amount decisionContext placement =
     bindE (updState (\<lambda>st. st\<lparr>activeOrderId := Some (placed_orderHash placement),
              activeProtocolAddress := Some (placed_protocolAddress placement),
              activeOrderPlacedAt := Some (placed_placedAt placement)\<rparr>)) (\<lambda>_.
     bindE (markActiveOrderVerified P) (\<lambda>_.
     bindE (updState (\<lambda>st. st\<lparr>currentPrice := Some amount,
              activeExpirationTimeMs := toExpirationTimeMs (placed_expirationTime placement)\<rparr>)) (\<lambda>_.
     bindE (case decisionContext of
              None \<Rightarrow> returnE ()
            | Some (rival, lo, cap) \<Rightarrow> trackRuntimeBidDecision amount rival lo cap) (\<lambda>_.
     bindE (persistJobRuntimeState C P None True) (\<lambda>_.
     loggedQuantity)))))"

lemma performPlace_alt:
  "performPlaceAndTrack C P amount d =
     bindE (nowE P) (\<lambda>now.
     bindE (updState (\<lambda>st. st\<lparr>lastRun := Some now\<rparr>)) (\<lambda>_.
     if ctx_dryRun C then loggedQuantity
     else bindE getJob (\<lambda>job.
          bindE (callE (port_place P) ServiceFailed (PlaceOffer job amount)) (trackPlacement C P amount d))))"
  by (simp add: performPlaceAndTrack_def trackPlacement_def [abs_def])

lemma quiet_trackPlacement [quiet_intros]: "quiet (trackPlacement C P amount d placement)"
  unfolding trackPlacement_def
  by (intro quiet_intros) (auto split: option.split prod.split intro!: quiet_intros)

lemma place_actions:
  assumes "performPlaceAndTrack C P amount d s = (r, s')"
  shows "decl (ex_job s') = decl (ex_job s)"
    and "actions (ex_log s') = actions (ex_log s) @
      (if ctx_dryRun C then [] else [Place (decl (ex_job s)) amount])"
proof -
  let ?now = "port_now P (ex_log s @ [ReadClock])"
  define t where "t = s\<lparr>ex_log := ex_log s @ [ReadClock],
    ex_job := (ex_job s)\<lparr>job_state := (job_state (ex_job s))\<lparr>lastRun := Some ?now\<rparr>\<rparr>\<rparr>"
  have t: "actions (ex_log t) = actions (ex_log s)" "decl (ex_job t) = decl (ex_job s)"
    by (simp_all add: t_def)
  have step: "performPlaceAndTrack C P amount d s =
      (if ctx_dryRun C then loggedQuantity t
       else bindE (callE (port_place P) ServiceFailed (PlaceOffer (ex_job t) amount))
              (trackPlacement C P amount d) t)"
    by (simp add: performPlace_alt bindE_def nowE_eq updState_def getJob_def t_def)
  have "decl (ex_job s') = decl (ex_job s) \<and> actions (ex_log s') = actions (ex_log s) @
      (if ctx_dryRun C then [] else [Place (decl (ex_job s)) amount])"
  proof (cases "ctx_dryRun C")
    case True
    with assms step quietD [OF quiet_loggedQuantity] t show ?thesis by fastforce
  next
    case False
    with assms step have "bindE (callE (port_place P) ServiceFailed (PlaceOffer (ex_job t) amount))
        (trackPlacement C P amount d) t = (r, s')" by simp
    then show ?thesis
    proof (cases rule: bindE_cases)
      case (thrown e)
      with t False show ?thesis by (auto simp: callE_eq)
    next
      case (returned x u)
      with quietD [OF quiet_trackPlacement returned(2)] t False show ?thesis by (auto simp: callE_eq)
    qed
  qed
  then show "decl (ex_job s') = decl (ex_job s)"
    "actions (ex_log s') = actions (ex_log s) @
      (if ctx_dryRun C then [] else [Place (decl (ex_job s)) amount])" by blast+
qed

lemma place_success:
  assumes "performPlaceAndTrack C P amount d s = (Inr u, s')" and "\<not> ctx_dryRun C"
  shows "\<exists>l placement. port_place P l = Inr placement \<and>
     activeOrderId (job_state (ex_job s')) = Some (placed_orderHash placement) \<and>
     currentPrice (job_state (ex_job s')) = Some amount"
proof -
  have q: "loggedQuantity t = (Inr v, t') \<Longrightarrow> t' = t" for t t' v
    by (auto simp: loggedQuantity_def exec_simps split: BidderTarget.splits if_splits)
  have p: "persistJobRuntimeState C P None True t = (Inr v, t') \<Longrightarrow> ex_job t' = ex_job t" for t t' v
    by (auto simp: persistJobRuntimeState_def exec_simps split: if_splits sum.splits prod.splits)
  have "\<exists>l placement. port_place P l = Inr placement \<and> (\<exists>t. trackPlacement C P amount d placement t = (Inr u, s'))"
    using assms by (auto simp: performPlace_alt exec_simps split: sum.splits)
  then obtain l placement t where pl: "port_place P l = Inr placement"
    and tr: "trackPlacement C P amount d placement t = (Inr u, s')" by blast
  from tr have "activeOrderId (job_state (ex_job s')) = Some (placed_orderHash placement) \<and>
     currentPrice (job_state (ex_job s')) = Some amount"
    unfolding trackPlacement_def markActiveOrderVerified_def
    by (auto elim!: bindE_cases dest!: q p simp: updState_def isoNowE_def nowE_eq returnE_def
        trackRuntimeBidDecision_def split: option.splits prod.splits)
  with pl show ?thesis by blast
qed

lemma place_rejected:
  assumes "performPlaceAndTrack C P amount d s = (r, s')" and "\<And>l. isl (port_place P l)"
    and "\<not> ctx_dryRun C"
  shows "isl r"
proof (rule ccontr)
  assume "\<not> isl r"
  then obtain u where "r = Inr u" by (cases r) auto
  with place_success [of C P amount d s u s'] assms show False by (metis sum.disc(2))
qed

lemma record_keeps:
  "recordJobOfferCancellation C P order a b c s = (r, s') \<Longrightarrow> r = Inr () \<and> ex_job s' = ex_job s"
  by (auto simp: recordJobOfferCancellation_def recordCancellationE_def exec_simps
      split: if_splits sum.splits prod.splits)

lemma cancel_actions:
  assumes "performCancelAndTrack C P order s = (r, s')"
  shows "ex_job s' = ex_job s"
    and "actions (ex_log s') = actions (ex_log s) @
      (if ctx_dryRun C then [] else [Cancel (decl (ex_job s)) order])"
proof -
  have "ex_job s' = ex_job s \<and> actions (ex_log s') = actions (ex_log s) @
      (if ctx_dryRun C then [] else [Cancel (decl (ex_job s)) order])"
  proof (cases "ctx_dryRun C")
    case True
    with assms show ?thesis by (simp add: performCancelAndTrack_def returnE_def)
  next
    case False
    define requested where "requested = port_iso P (port_now P (ex_log s @ [ReadClock]))"
    define s1 where "s1 = s\<lparr>ex_log := ex_log s @ [ReadClock]\<rparr>"
    obtain s2 where s2: "recordJobOfferCancellation C P order requested None None s1 = (Inr (), s2)"
      using record_keeps by (metis surj_pair)
    have k2: "ex_job s2 = ex_job s" "actions (ex_log s2) = actions (ex_log s)"
      using record_keeps [OF s2] quietD [OF quiet_record s2] by (simp_all add: s1_def)
    define s3 where "s3 = s2\<lparr>ex_log := ex_log s2 @ [CancelOffer (ex_job s2) order]\<rparr>"
    have k3: "ex_job s3 = ex_job s" "actions (ex_log s3) = actions (ex_log s) @ [Cancel (decl (ex_job s)) order]"
      using k2 by (simp_all add: s3_def)
    show ?thesis
    proof (cases "port_cancel P (ex_log s3)")
      case (Inl m)
      obtain s4 where s4: "recordJobOfferCancellation C P order requested None
          (Some (port_message P (ServiceFailed m))) s3 = (Inr (), s4)"
        using record_keeps by (metis surj_pair)
      with assms False s2 Inl have "s' = s4"
        by (auto simp: performCancelAndTrack_def bindE_def isoNowE_def nowE_eq returnE_def throwE_def
            catchE_def callE_def getJob_def Let_def requested_def s1_def s3_def)
      with record_keeps [OF s4] quietD [OF quiet_record s4] k3 False show ?thesis by simp
    next
      case (Inr u)
      define s4 where "s4 = s3\<lparr>ex_log := ex_log s3 @ [ReadClock]\<rparr>"
      obtain s5 where s5: "recordJobOfferCancellation C P order requested
          (Some (port_iso P (port_now P (ex_log s3 @ [ReadClock])))) None s4 = (Inr (), s5)"
        using record_keeps by (metis surj_pair)
      with assms False s2 Inr have "s' = s5"
        by (auto simp: performCancelAndTrack_def bindE_def isoNowE_def nowE_eq returnE_def
            catchE_def callE_def getJob_def Let_def requested_def s1_def s3_def s4_def)
      with record_keeps [OF s5] quietD [OF quiet_record s5] k3 False show ?thesis by (simp add: s4_def)
    qed
  qed
  then show "ex_job s' = ex_job s" "actions (ex_log s') = actions (ex_log s) @
      (if ctx_dryRun C then [] else [Cancel (decl (ex_job s)) order])" by blast+
qed

definition to_cancel :: "Order list \<Rightarrow> string option \<Rightarrow> Order list" where
  "to_cancel offers keep = filter (\<lambda>x. \<not> (truthy keep \<and> Some (order_id x) = keep)) offers"

lemma cancelMakerOffers_actions:
  assumes "cancelMakerOffers C P offers keep s = (r, s')"
  shows "ex_job s' = ex_job s \<and>
    (\<exists>n. actions (ex_log s') = actions (ex_log s) @
        (if ctx_dryRun C then [] else map (Cancel (decl (ex_job s))) (take n (to_cancel offers keep))) \<and>
        (\<not> isl r \<longrightarrow> n = length (to_cancel offers keep)))"
  using assms unfolding cancelMakerOffers_def
proof (induction offers arbitrary: s)
  case Nil
  then show ?case by (auto simp: returnE_def to_cancel_def)
next
  case (Cons y ys)
  show ?case
  proof (cases "truthy keep \<and> Some (order_id y) = keep")
    case True
    then have tc: "to_cancel (y # ys) keep = to_cancel ys keep" by (simp add: to_cancel_def)
    from True Cons.prems have "forE (\<lambda>offer.
       if truthy keep \<and> Some (order_id offer) = keep then returnE ()
       else cancelAndTrack C P offer) ys s = (r, s')" by (simp add: bindE_def returnE_def)
    from Cons.IH [OF this] show ?thesis unfolding tc .
  next
    case False
    then have tc: "to_cancel (y # ys) keep = y # to_cancel ys keep" by (simp add: to_cancel_def)
    from Cons.prems False have "bindE (cancelAndTrack C P y) (\<lambda>_. forE (\<lambda>offer.
       if truthy keep \<and> Some (order_id offer) = keep then returnE ()
       else cancelAndTrack C P offer) ys) s = (r, s')" by simp
    then show ?thesis
    proof (cases rule: bindE_cases)
      case (thrown e)
      with cancel_actions [of C P y s "Inl e" s'] show ?thesis
        by (intro conjI exI [of _ 1]) (auto simp: cancelAndTrack_def tc)
    next
      case (returned x t)
      note c = cancel_actions [of C P y s "Inr x" t] and ih = Cons.IH [OF returned(2)]
      from ih obtain n where n: "actions (ex_log s') = actions (ex_log t) @
        (if ctx_dryRun C then [] else map (Cancel (decl (ex_job t))) (take n (to_cancel ys keep)))"
        "\<not> isl r \<longrightarrow> n = length (to_cancel ys keep)" by blast
      with c returned(1) ih show ?thesis
        by (intro conjI exI [of _ "Suc n"]) (auto simp: cancelAndTrack_def tc)
    qed
  qed
qed
end
