(* ===== verification/Bidder_Execute.thy ===== *)
theory Bidder_Execute
  imports Bidder_Core "HOL-Library.AList"
begin

text \<open>
  One refresh of a job and the cancellation of its offers (\<open>executeJob\<close> and
  \<open>cancelActiveOffersForJob\<close> of \<^verbatim>\<open>trading/src/application/use-cases/bidding/bidder.ts\<close>).
  \<open>runStrategy\<close> is the body of \<open>executeJob\<close>'s \<open>try\<close>; \<open>evaluate\<close> collects the values it
  computes from the offers, \<open>act\<close> is its decision tree.  The job mutex serialises both operations
  of a job, so a run is a single transition here; \<open>addJob\<close> and \<open>removeJob\<close> between its
  \<open>await\<close>s are not modelled.
\<close>

section \<open>Overrides and the store\<close>

text \<open>The map of jobs is an association list in insertion order, as iteration over a \<open>Map\<close> is;
  \<open>AList.update\<close> keeps the position of a known key.\<close>

record RuntimeJobOverride =
  ov_activationId :: int
  ov_floor :: int
  ov_ceiling :: int
  ov_expiresAt :: int

record Store =
  st_jobs :: "(string \<times> BidderJob) list"
  st_overrides :: "string \<Rightarrow> RuntimeJobOverride option"
  st_balance :: "int option"
  st_log :: "effect list"

definition clearRuntimeOverride :: "string \<Rightarrow> 'z Store_scheme \<Rightarrow> 'z Store_scheme" where
  "clearRuntimeOverride job S = S\<lparr>st_overrides := (st_overrides S)(job := None)\<rparr>"

definition getRuntimeOverride ::
  "Ports \<Rightarrow> string \<Rightarrow> 'z Store_scheme \<Rightarrow> RuntimeJobOverride option \<times> 'z Store_scheme" where
  "getRuntimeOverride P job S =
     (case st_overrides S job of
        None \<Rightarrow> (None, S)
      | Some override \<Rightarrow>
          let l = st_log S @ [ReadClock]; S' = S\<lparr>st_log := l\<rparr> in
          if ov_expiresAt override \<le> port_now P l then (None, clearRuntimeOverride job S')
          else (Some override, S'))"

section \<open>The strategy\<close>

record Evaluation =
  ev_myOffers :: "Order list"
  ev_rival :: int
  ev_ceiling :: int
  ev_floor :: int
  ev_desired :: int

definition configured_floor :: "RuntimeJobOverride option \<Rightarrow> BidderJob \<Rightarrow> int" where
  "configured_floor ov job = (case ov of Some r \<Rightarrow> ov_floor r | None \<Rightarrow> floor_wei (job_config job))"

definition configured_ceiling :: "RuntimeJobOverride option \<Rightarrow> BidderJob \<Rightarrow> int" where
  "configured_ceiling ov job =
     (case ov of Some r \<Rightarrow> ov_ceiling r | None \<Rightarrow> ceiling_wei (job_config job))"

definition with_tracked :: "Order list \<Rightarrow> Order option \<Rightarrow> Order list" where
  "with_tracked offers tracked =
     (case tracked of
        Some t \<Rightarrow> if \<not> list_ex (\<lambda>offer. order_id offer = order_id t) offers then offers @ [t] else offers
      | None \<Rightarrow> offers)"

definition evaluate ::
  "BidderContext \<Rightarrow> int option \<Rightarrow> RuntimeJobOverride option \<Rightarrow> BidderJob \<Rightarrow> Order list
     \<Rightarrow> bidder_error + Evaluation" where
  "evaluate C balance ov job offers =
     (let sortedOffers = sort_desc order_price offers;
          visibleMyOffers = filter (isMakerOffer C) sortedOffers;
          competitorOffers = filter (\<lambda>x. \<not> isMakerOffer C x) sortedOffers;
          rival = (case competitorOffers of [] \<Rightarrow> 0 | h # _ \<Rightarrow> order_price h) in
      case filterR (isOfferManagedByJob C job) visibleMyOffers of
        Inl e \<Rightarrow> Inl (CriteriaUnreadable e)
      | Inr myOffers \<Rightarrow>
          (case priceJob (ctx_down C) (ctx_up C) balance (configured_floor ov job)
                  (configured_ceiling ov job) rival (delta_wei (job_config job)) of
             Inl e \<Rightarrow> Inl (PriceRejected e)
           | Inr (cap, lo, desired) \<Rightarrow>
               Inr \<lparr>ev_myOffers = myOffers, ev_rival = rival, ev_ceiling = cap, ev_floor = lo,
                    ev_desired = desired\<rparr>))"

definition place_desired :: "BidderContext \<Rightarrow> Ports \<Rightarrow> Evaluation \<Rightarrow> unit exec" where
  "place_desired C P v =
     bindE clearRuntimeBidDecision (\<lambda>_.
     placeAndTrack C P (ev_desired v) (Some (ev_rival v, ev_floor v, ev_ceiling v)))"

definition act :: "BidderContext \<Rightarrow> Ports \<Rightarrow> Evaluation \<Rightarrow> RenewalReason option \<Rightarrow> unit exec" where
  "act C P v renewalReason =
     (if ev_desired v \<le> 0
      then
        if length (ev_myOffers v) > 0
        then bindE (cancelMakerOffers C P (ev_myOffers v) None) (\<lambda>_. clearTrackedOrder C P)
        else bindE clearRuntimeBidDecision (\<lambda>_. persistJobRuntimeState C P None False)
      else
        case ev_myOffers v of
          [] \<Rightarrow> place_desired C P v
        | myHighest # _ \<Rightarrow>
            (case renewalReason of
               Some _ \<Rightarrow>
                 bindE (place_desired C P v) (\<lambda>_. cancelMakerOffers C P (ev_myOffers v) None)
             | None \<Rightarrow>
                 (case List.find (\<lambda>offer. order_price offer = ev_desired v) (ev_myOffers v) of
                    Some matching \<Rightarrow>
                      bindE (trackRuntimeBidDecision (order_price matching) (ev_rival v) (ev_floor v)
                               (ev_ceiling v)) (\<lambda>_.
                      bindE (trackCurrentOrder C P matching) (\<lambda>_.
                      cancelMakerOffers C P (ev_myOffers v) (Some (order_id matching))))
                  | None \<Rightarrow>
                      bindE (place_desired C P v) (\<lambda>_. cancelMakerOffers C P (ev_myOffers v) None))))"

text \<open>The strategy up to its decision: market read, recovery of the tracked order, evaluation.\<close>

definition evaluateJob ::
  "BidderContext \<Rightarrow> Ports \<Rightarrow> int option \<Rightarrow> RuntimeJobOverride option
     \<Rightarrow> (Evaluation \<times> RenewalReason option) exec" where
  "evaluateJob C P balance ov =
     bindE getJob (\<lambda>job0.
     bindE (callE (port_offers P) ServiceFailed (ReadOffers (jobId job0))) (\<lambda>offers.
     bindE (resolveTrackedActiveOrder C P offers True) (\<lambda>tracked.
     bindE getJob (\<lambda>job.
     bindE (liftE id (evaluate C balance ov job (with_tracked offers tracked))) (\<lambda>v.
     bindE (case ev_myOffers v of
              [] \<Rightarrow> returnE None
            | myHighest # _ \<Rightarrow> getBidRenewalReason C P job myHighest) (\<lambda>renewalReason.
     returnE (v, renewalReason)))))))"

definition runStrategy ::
  "BidderContext \<Rightarrow> Ports \<Rightarrow> int option \<Rightarrow> RuntimeJobOverride option \<Rightarrow> unit exec" where
  "runStrategy C P balance ov =
     bindE (evaluateJob C P balance ov) (\<lambda>(v, renewalReason). act C P v renewalReason)"

definition refreshE ::
  "BidderContext \<Rightarrow> Ports \<Rightarrow> int option \<Rightarrow> RuntimeJobOverride option \<Rightarrow> bool \<Rightarrow> unit exec" where
  "refreshE C P balance ov throwOnFailure =
     catchE (runStrategy C P balance ov) (\<lambda>e.
       bindE (persistJobRuntimeState C P (Some (port_message P e)) False) (\<lambda>_.
       if throwOnFailure then throwE e else returnE ()))"

definition executeJob ::
  "BidderContext \<Rightarrow> Ports \<Rightarrow> bool \<Rightarrow> string \<Rightarrow> 'z Store_scheme
     \<Rightarrow> (bidder_error + unit) \<times> 'z Store_scheme" where
  "executeJob C P throwOnFailure jobKey S =
     (case map_of (st_jobs S) jobKey of
        None \<Rightarrow> (Inr (), S)
      | Some job \<Rightarrow>
          let (ov, S1) = getRuntimeOverride P (jobId job) S;
              (r, x) = refreshE C P (st_balance S1) ov throwOnFailure \<lparr>ex_job = job, ex_log = st_log S1\<rparr>
          in (r, S1\<lparr>st_jobs := AList.update jobKey (ex_job x) (st_jobs S1), st_log := ex_log x\<rparr>))"

section \<open>Cancelling the offers of a job\<close>

text \<open>The search for the offers to cancel, which changes nothing on the market.\<close>

definition cancellationCandidates :: "BidderContext \<Rightarrow> Ports \<Rightarrow> (Order list \<times> string option) exec" where
  "cancellationCandidates C P =
     bindE getJob (\<lambda>job0.
     bindE (callE (port_offers P) ServiceFailed (ReadOffers (jobId job0))) (\<lambda>offers.
     bindE getJob (\<lambda>job1.
     let trackedOrderId = activeOrderId (job_state job1) in
     bindE (resolveTrackedActiveOrder C P offers False) (\<lambda>tracked.
     bindE getJob (\<lambda>job.
     bindE (liftE CriteriaUnreadable (filterR (\<lambda>offer.
              if \<not> isMakerOffer C offer then Inr False
              else bindR (isOfferManagedByJob C job offer) (\<lambda>m.
                   Inr (m \<or> Some (order_id offer) = trackedOrderId)))
              (with_tracked offers tracked))) (\<lambda>makerOffers.
     returnE (makerOffers, trackedOrderId)))))))"

definition cancelActiveOffersForJob :: "BidderContext \<Rightarrow> Ports \<Rightarrow> nat exec" where
  "cancelActiveOffersForJob C P =
     bindE (cancellationCandidates C P) (\<lambda>(makerOffers, trackedOrderId).
     if length makerOffers = 0
     then
       if truthy trackedOrderId
       then bindE (isoNowE P) (\<lambda>completedAt.
            bindE (recordTrackedOrderCancellation C P completedAt (Some completedAt) None) (\<lambda>_.
            bindE (clearTrackedOrder C P) (\<lambda>_. returnE 0)))
       else bindE (clearTrackedOrder C P) (\<lambda>_. returnE 0)
     else
       bindE (cancelMakerOffers C P makerOffers None) (\<lambda>_.
       bindE (clearTrackedOrder C P) (\<lambda>_. returnE (length makerOffers))))"

section \<open>What an evaluation contains\<close>

lemma filterR_Inr:
  "filterR p xs = Inr ys \<longleftrightarrow> (\<forall>x\<in>set xs. \<exists>b. p x = Inr b) \<and> ys = filter (\<lambda>x. p x = Inr True) xs"
proof (induction xs arbitrary: ys)
  case (Cons x xs)
  show ?case
  proof (cases "p x")
    case (Inr b)
    have "filterR p (x # xs) = Inr ys \<longleftrightarrow> (\<exists>zs. filterR p xs = Inr zs \<and> ys = (if b then x # zs else zs))"
      by (auto simp: Inr bindR_Inr_iff)
    also have "\<dots> \<longleftrightarrow> (\<forall>x\<in>set xs. \<exists>b. p x = Inr b) \<and>
        ys = (if b then x # filter (\<lambda>x. p x = Inr True) xs else filter (\<lambda>x. p x = Inr True) xs)"
      by (simp only: Cons.IH) blast
    finally show ?thesis by (simp add: Inr)
  qed simp
qed auto

lemma managed_decl [simp]: "isOfferManagedByJob C (decl job) = isOfferManagedByJob C job"
proof -
  have "job_target (decl job) = job_target job" by (simp add: decl_def)
  then show ?thesis by (intro ext) (simp only: isOfferManagedByJob_def)
qed

lemma evaluate_decl [simp]: "evaluate C b ov (decl job) = evaluate C b ov job"
proof -
  have "configured_floor ov (decl job) = configured_floor ov job"
    "configured_ceiling ov (decl job) = configured_ceiling ov job"
    "job_config (decl job) = job_config job"
    by (simp_all add: configured_floor_def configured_ceiling_def decl_def split: option.split)
  then show ?thesis by (intro ext) (simp only: evaluate_def managed_decl)
qed

lemma evaluate_Inr:
  assumes "evaluate C balance ov job offers = Inr v"
  shows "ev_myOffers v = filter (\<lambda>x. isMakerOffer C x \<and> isOfferManagedByJob C job x = Inr True)
           (sort_desc order_price offers)"
    and "priceJob (ctx_down C) (ctx_up C) balance (configured_floor ov job) (configured_ceiling ov job)
           (ev_rival v) (delta_wei (job_config job)) = Inr (ev_ceiling v, ev_floor v, ev_desired v)"
    and "\<And>x. x \<in> set offers \<Longrightarrow> \<not> isMakerOffer C x \<Longrightarrow> order_price x \<le> ev_rival v"
proof -
  let ?sorted = "sort_desc order_price offers"
  let ?others = "filter (\<lambda>x. \<not> isMakerOffer C x) ?sorted"
  from assms obtain my where my: "filterR (isOfferManagedByJob C job) (filter (isMakerOffer C) ?sorted) = Inr my"
    "ev_myOffers v = my"
    and rival: "ev_rival v = (case ?others of [] \<Rightarrow> 0 | h # _ \<Rightarrow> order_price h)"
    and price: "priceJob (ctx_down C) (ctx_up C) balance (configured_floor ov job) (configured_ceiling ov job)
           (ev_rival v) (delta_wei (job_config job)) = Inr (ev_ceiling v, ev_floor v, ev_desired v)"
    unfolding evaluate_def Let_def by (auto split: sum.splits)
  show "ev_myOffers v = filter (\<lambda>x. isMakerOffer C x \<and> isOfferManagedByJob C job x = Inr True) ?sorted"
    using my by (simp add: filterR_Inr conj_commute)
  show "priceJob (ctx_down C) (ctx_up C) balance (configured_floor ov job) (configured_ceiling ov job)
           (ev_rival v) (delta_wei (job_config job)) = Inr (ev_ceiling v, ev_floor v, ev_desired v)"
    by (rule price)
  fix x assume x: "x \<in> set offers" "\<not> isMakerOffer C x"
  then have "?others \<noteq> []" using set_sort_desc [of order_price offers] by (auto simp: filter_empty_conv)
  then obtain h t where ht: "?others = h # t" by (cases ?others) auto
  from hd_filter_sort_desc_max [OF ht x] show "order_price x \<le> ev_rival v"
    unfolding rival ht by simp
qed

section \<open>Market actions of a refresh\<close>

text \<open>The offers were cancelled in order, all of them if \<open>ok\<close>.\<close>

definition cancels :: "BidderJob \<Rightarrow> Order list \<Rightarrow> bool \<Rightarrow> action list \<Rightarrow> bool" where
  "cancels d xs ok as \<longleftrightarrow> (\<exists>n. as = map (Cancel d) (take n xs) \<and> (ok \<longrightarrow> n = length xs))"

text \<open>Nothing in dry-run mode, otherwise as described.\<close>

definition wet :: "BidderContext \<Rightarrow> (action list \<Rightarrow> bool) \<Rightarrow> action list \<Rightarrow> bool" where
  "wet C Q as \<longleftrightarrow> (if ctx_dryRun C then as = [] else Q as)"

lemma wet_mono: "wet C Q as \<Longrightarrow> (\<And>as. Q as \<Longrightarrow> R as) \<Longrightarrow> wet C R as"
  by (simp add: wet_def split: if_splits)

lemma wet_Nil: "Q [] \<Longrightarrow> wet C Q []"
  by (simp add: wet_def)

text \<open>The shapes of a refresh's market actions; \<open>ok\<close> tells that it completed.\<close>

definition rejects :: "Ports \<Rightarrow> bool" where
  "rejects P \<longleftrightarrow> (\<forall>l. isl (port_place P l))"

definition strategy_plan :: "Ports \<Rightarrow> BidderJob \<Rightarrow> Evaluation \<Rightarrow> bool \<Rightarrow> action list \<Rightarrow> bool" where
  "strategy_plan P d v ok as \<longleftrightarrow>
     ev_desired v \<le> 0 \<and> cancels d (ev_myOffers v) ok as \<or>
     0 < ev_desired v \<and>
       (\<exists>bs. as = Place d (ev_desired v) # bs \<and> cancels d (ev_myOffers v) ok bs \<and>
          (rejects P \<longrightarrow> bs = [])) \<or>
     0 < ev_desired v \<and>
       (\<exists>m \<in> set (ev_myOffers v). order_price m = ev_desired v \<and>
          cancels d (to_cancel (ev_myOffers v) (Some (order_id m))) ok as)"

lemma to_cancel_None [simp]: "to_cancel xs None = xs"
  by (simp add: to_cancel_def truthy_def)

lemma cancels_Nil: "\<not> ok \<or> xs = [] \<Longrightarrow> cancels d xs ok []"
  by (auto simp: cancels_def)

lemma cancelMakerOffers_cancels:
  assumes "cancelMakerOffers C P xs keep s = (r, s')"
  shows "ex_job s' = ex_job s \<and> (\<exists>as. actions (ex_log s') = actions (ex_log s) @ as \<and>
      (wet C (cancels (decl (ex_job s)) (to_cancel xs keep) (\<not> isl r)) as))"
  using cancelMakerOffers_actions [OF assms] unfolding cancels_def wet_def by metis

lemma place_desired_actions:
  assumes "place_desired C P v s = (r, s')"
  shows "decl (ex_job s') = decl (ex_job s) \<and> actions (ex_log s') = actions (ex_log s) @
      (if ctx_dryRun C then [] else [Place (decl (ex_job s)) (ev_desired v)])"
  using assms unfolding place_desired_def placeAndTrack_def
proof (cases rule: bindE_cases)
  case (thrown e)
  then show ?thesis by (simp add: clearRuntimeBidDecision_def updState_def)
next
  case (returned x t)
  with quietD [OF quiet_clearDecision returned(1)] place_actions [OF returned(2)] show ?thesis by simp
qed

lemma replace_actions:
  assumes "bindE (place_desired C P v) (\<lambda>_. cancelMakerOffers C P (ev_myOffers v) None) s = (r, s')"
  shows "decl (ex_job s') = decl (ex_job s) \<and> (\<exists>as. actions (ex_log s') = actions (ex_log s) @ as \<and>
      wet C (\<lambda>as. \<exists>bs. as = Place (decl (ex_job s)) (ev_desired v) # bs \<and>
              cancels (decl (ex_job s)) (ev_myOffers v) (\<not> isl r) bs \<and> (rejects P \<longrightarrow> bs = [])) as)"
  using assms
proof (cases rule: bindE_cases)
  case (thrown e)
  with place_desired_actions [OF thrown(1)] show ?thesis by (simp add: cancels_Nil wet_def)
next
  case (returned x t)
  from cancelMakerOffers_cancels [OF returned(2), unfolded to_cancel_None] obtain bs where
    "ex_job s' = ex_job t" "actions (ex_log s') = actions (ex_log t) @ bs"
    "wet C (cancels (decl (ex_job t)) (ev_myOffers v) (\<not> isl r)) bs" by auto
  moreover have "\<not> rejects P" if "\<not> ctx_dryRun C"
  proof
    assume "rejects P"
    from returned(1) obtain t0 where "performPlaceAndTrack C P (ev_desired v)
        (Some (ev_rival v, ev_floor v, ev_ceiling v)) t0 = (Inr x, t)"
      unfolding place_desired_def placeAndTrack_def by (cases rule: bindE_cases) auto
    from place_rejected [OF this] \<open>rejects P\<close> that show False by (simp add: rejects_def)
  qed
  ultimately show ?thesis using place_desired_actions [OF returned(1)] by (auto simp: wet_def)
qed

text \<open>A prelude without market actions does not change those of an execution.\<close>

lemma quiet_then:
  assumes "bindE m f s = (r, s')" and "quiet m"
  shows "(isl r \<and> decl (ex_job s') = decl (ex_job s) \<and> actions (ex_log s') = actions (ex_log s)) \<or>
     (\<exists>x t. m s = (Inr x, t) \<and> f x t = (r, s') \<and> decl (ex_job t) = decl (ex_job s) \<and>
        actions (ex_log t) = actions (ex_log s))"
  using assms(1)
proof (cases rule: bindE_cases)
  case (thrown e)
  with quietD [OF assms(2) thrown(1)] show ?thesis by simp
next
  case (returned x t)
  with quietD [OF assms(2) returned(1)] show ?thesis by auto
qed

lemma act_cancel_all:
  assumes "bindE (cancelMakerOffers C P xs None) (\<lambda>_. clearTrackedOrder C P) s = (r, s')"
  shows "decl (ex_job s') = decl (ex_job s) \<and> (\<exists>as. actions (ex_log s') = actions (ex_log s) @ as \<and>
      (wet C (cancels (decl (ex_job s)) xs (\<not> isl r)) as))"
  using assms
proof (cases rule: bindE_cases)
  case (thrown e)
  with cancelMakerOffers_cancels [OF thrown(1), unfolded to_cancel_None] show ?thesis by metis
next
  case (returned x t)
  from cancelMakerOffers_cancels [OF returned(1), unfolded to_cancel_None] obtain as where
    "ex_job t = ex_job s" "actions (ex_log t) = actions (ex_log s) @ as"
    "wet C (cancels (decl (ex_job s)) xs True) as" by auto
  moreover have "cancels d xs ok as" if "cancels d xs True as" for d ok as
    using that unfolding cancels_def by metis
  ultimately show ?thesis using quietD [OF quiet_clearTracked returned(2)] by (auto elim: wet_mono)
qed

lemma act_keep:
  assumes "bindE (trackRuntimeBidDecision a b c e) (\<lambda>_. bindE (trackCurrentOrder C P m) (\<lambda>_.
      cancelMakerOffers C P xs (Some i))) s = (r, s')"
  shows "decl (ex_job s') = decl (ex_job s) \<and> (\<exists>as. actions (ex_log s') = actions (ex_log s) @ as \<and>
      (wet C (cancels (decl (ex_job s)) (to_cancel xs (Some i)) (\<not> isl r)) as))"
proof -
  have quiet: "quiet (bindE (trackRuntimeBidDecision a b c e) (\<lambda>_. trackCurrentOrder C P m))"
    by (intro quiet_intros)
  have "bindE (bindE (trackRuntimeBidDecision a b c e) (\<lambda>_. trackCurrentOrder C P m))
      (\<lambda>_. cancelMakerOffers C P xs (Some i)) s = (r, s')"
    using assms by (auto simp: bindE_def split: prod.splits sum.splits)
  from quiet_then [OF this quiet]
  consider "isl r" "decl (ex_job s') = decl (ex_job s)" "actions (ex_log s') = actions (ex_log s)"
    | t where "cancelMakerOffers C P xs (Some i) t = (r, s')"
      "decl (ex_job t) = decl (ex_job s)" "actions (ex_log t) = actions (ex_log s)" by blast
  then show ?thesis
  proof cases
    case 1
    then show ?thesis by (auto intro: cancels_Nil wet_Nil)
  next
    case (2 t)
    with cancelMakerOffers_cancels [OF 2(1)] show ?thesis by auto
  qed
qed

lemma act_actions:
  assumes "act C P v renewal s = (r, s')"
  shows "decl (ex_job s') = decl (ex_job s) \<and> (\<exists>as. actions (ex_log s') = actions (ex_log s) @ as \<and>
     (wet C (strategy_plan P (decl (ex_job s)) v (\<not> isl r)) as))"
proof (cases "ev_desired v \<le> 0")
  case nonpos: True
  show ?thesis
  proof (cases "ev_myOffers v = []")
    case True
    with nonpos assms have "bindE clearRuntimeBidDecision (\<lambda>_. persistJobRuntimeState C P None False) s = (r, s')"
      by (simp add: act_def)
    moreover have "quiet (bindE clearRuntimeBidDecision (\<lambda>_. persistJobRuntimeState C P None False))"
      by (intro quiet_intros)
    ultimately show ?thesis
      using quietD [of "bindE clearRuntimeBidDecision (\<lambda>_. persistJobRuntimeState C P None False)"] nonpos True
      by (fastforce simp: strategy_plan_def cancels_Nil wet_def)
  next
    case False
    with nonpos assms have "bindE (cancelMakerOffers C P (ev_myOffers v) None) (\<lambda>_. clearTrackedOrder C P) s = (r, s')"
      by (simp add: act_def)
    from act_cancel_all [OF this] nonpos show ?thesis
      by (auto simp: strategy_plan_def elim!: wet_mono)
  qed
next
  case pos: False
  let ?replace = "bindE (place_desired C P v) (\<lambda>_. cancelMakerOffers C P (ev_myOffers v) None)"
  have replaced: ?thesis if "?replace s = (r, s')"
    using replace_actions [OF that] pos by (auto simp: strategy_plan_def not_le elim!: wet_mono)
  show ?thesis
  proof (cases "ev_myOffers v")
    case Nil
    with pos assms have "place_desired C P v s = (r, s')" by (simp add: act_def)
    from place_desired_actions [OF this] pos Nil show ?thesis
      by (simp add: strategy_plan_def cancels_Nil wet_def)
  next
    case (Cons h t)
    show ?thesis
    proof (cases "renewal = None \<and> List.find (\<lambda>x. order_price x = ev_desired v) (ev_myOffers v) \<noteq> None")
      case True
      then obtain m where m: "renewal = None"
        "List.find (\<lambda>x. order_price x = ev_desired v) (ev_myOffers v) = Some m" by blast
      with pos assms Cons
      have "bindE (trackRuntimeBidDecision (order_price m) (ev_rival v) (ev_floor v) (ev_ceiling v)) (\<lambda>_.
          bindE (trackCurrentOrder C P m) (\<lambda>_. cancelMakerOffers C P (ev_myOffers v) (Some (order_id m)))) s = (r, s')"
        by (simp add: act_def del: find.simps)
      from act_keep [OF this] find_Some_set [OF m(2)] pos show ?thesis
        by (auto simp: strategy_plan_def not_le elim!: wet_mono)
    next
      case False
      with pos assms Cons show ?thesis
        by (intro replaced) (auto simp: act_def simp del: find.simps split: option.splits)
    qed
  qed
qed

lemma quiet_evaluateJob: "quiet (evaluateJob C P balance ov)"
  unfolding evaluateJob_def
  by (intro quiet_intros) (auto split: list.split intro!: quiet_intros)

text \<open>
  The offers a run that starts with log \<open>l\<close> finds for its job: those the marketplace lists, and the
  tracked order when it is not among them and is recovered as active.  The list is a function of
  what the ports answered.
\<close>

definition market_view :: "Ports \<Rightarrow> BidderJob \<Rightarrow> effect list \<Rightarrow> Order list \<Rightarrow> bool" where
  "market_view P job l offers \<longleftrightarrow>
     (\<exists>listed. port_offers P (l @ [ReadOffers (jobId job)]) = Inr listed \<and>
        (case activeOrderId (job_state job) of
           None \<Rightarrow> offers = listed
         | Some i \<Rightarrow>
             if i = [] \<or> i \<in> order_id ` set listed then offers = listed
             else
               case port_order P (l @ [ReadOffers (jobId job), ReadOrder i (activeProtocolAddress (job_state job))
                      (collectionAddress job) (target_tokenId (job_target job)) (collectionSlug job)]) of
                 Inr (RecoveredActive t) \<Rightarrow>
                   offers = (if order_id t \<in> order_id ` set listed then listed else listed @ [t])
               | Inr InactiveOrMissing \<Rightarrow> offers = listed
               | _ \<Rightarrow> False))"

lemma with_tracked_simps [simp]:
  "with_tracked listed None = listed"
  "with_tracked listed (Some t) = (if order_id t \<in> order_id ` set listed then listed else listed @ [t])"
  by (simp_all add: with_tracked_def list_ex_iff image_iff) metis

lemma resolve_market_view:
  assumes "resolveTrackedActiveOrder C P listed clearMissing
      (s\<lparr>ex_log := ex_log s @ [ReadOffers (jobId (ex_job s))]\<rparr>) = (Inr tracked, u)"
    and "port_offers P (ex_log s @ [ReadOffers (jobId (ex_job s))]) = Inr listed"
  shows "market_view P (ex_job s) (ex_log s) (with_tracked listed tracked)"
proof (cases "truthy (activeOrderId (job_state (ex_job s)))")
  case False
  with assms show ?thesis
    by (auto simp: resolveTrackedActiveOrder_def bindE_def getJob_def returnE_def market_view_def truthy_def
        split: option.split)
next
  case True
  then obtain i where i: "activeOrderId (job_state (ex_job s)) = Some i" "i \<noteq> []"
    by (auto simp: truthy_def split: option.splits)
  show ?thesis
  proof (cases "List.find (\<lambda>offer. order_id offer = i) listed")
    case (Some x)
    then have x: "x \<in> set listed" "order_id x = i" by (auto simp: find_Some_iff)
    with assms True i Some have "tracked = Some x"
      by (auto simp: resolveTrackedActiveOrder_def bindE_def getJob_def returnE_def split: prod.splits sum.splits)
    with assms(2) i x show ?thesis by (auto simp: market_view_def)
  next
    case None
    then have "i \<notin> order_id ` set listed" by (auto simp: find_None_iff)
    with assms True i None show ?thesis
      by (auto simp: resolveTrackedActiveOrder_def bindE_def getJob_def returnE_def throwE_def callE_def Let_def
          market_view_def
          split: prod.splits sum.splits Recovery.splits if_splits)
  qed
qed

lemma evaluateJob_Inr:
  assumes "evaluateJob C P balance ov s = (Inr (v, renewal), t)"
  shows "\<exists>offers. market_view P (ex_job s) (ex_log s) offers \<and> evaluate C balance ov (ex_job s) offers = Inr v"
proof -
  from assms obtain offers tracked u where
    o: "port_offers P (ex_log s @ [ReadOffers (jobId (ex_job s))]) = Inr offers"
    and u: "resolveTrackedActiveOrder C P offers True
        (s\<lparr>ex_log := ex_log s @ [ReadOffers (jobId (ex_job s))]\<rparr>) = (Inr tracked, u)"
    and v: "evaluate C balance ov (ex_job u) (with_tracked offers tracked) = Inr v"
    unfolding evaluateJob_def
    by (elim bindE_cases) (auto simp: getJob_def callE_eq liftE_def returnE_def split: sum.splits)
  from quietD [OF quiet_resolveTracked u] have "decl (ex_job u) = decl (ex_job s)" by simp
  with v resolve_market_view [OF u o] show ?thesis by (metis evaluate_decl)
qed

lemma run_actions:
  assumes "runStrategy C P balance ov s = (r, s')"
  shows "decl (ex_job s') = decl (ex_job s) \<and> (\<exists>as. actions (ex_log s') = actions (ex_log s) @ as \<and>
     (isl r \<and> as = [] \<or> (\<exists>offers v. market_view P (ex_job s) (ex_log s) offers \<and>
        evaluate C balance ov (ex_job s) offers = Inr v \<and>
        (wet C (strategy_plan P (decl (ex_job s)) v (\<not> isl r)) as))))"
proof -
  from quiet_then [OF assms [unfolded runStrategy_def] quiet_evaluateJob]
  consider "isl r" "decl (ex_job s') = decl (ex_job s)" "actions (ex_log s') = actions (ex_log s)"
    | v renewal t where "evaluateJob C P balance ov s = (Inr (v, renewal), t)" "act C P v renewal t = (r, s')"
      "decl (ex_job t) = decl (ex_job s)" "actions (ex_log t) = actions (ex_log s)" by auto
  then show ?thesis
  proof cases
    case 1
    then show ?thesis by simp
  next
    case (2 v renewal t)
    with evaluateJob_Inr [OF 2(1)] act_actions [OF 2(2)] show ?thesis by metis
  qed
qed

section \<open>Refreshes of the store\<close>

lemma getRuntimeOverride_facts:
  assumes "getRuntimeOverride P k S = (ov, S1)"
  shows "actions (st_log S1) = actions (st_log S)" "st_jobs S1 = st_jobs S" "st_balance S1 = st_balance S"
    "ov = None \<or> ov = st_overrides S k"
  using assms by (auto simp: getRuntimeOverride_def clearRuntimeOverride_def Let_def
      split: option.splits if_splits)

lemma refreshE_run:
  assumes "refreshE C P balance ov throwOnFailure s = (r, s')"
  shows "\<exists>r0 t. runStrategy C P balance ov s = (r0, t) \<and> actions (ex_log s') = actions (ex_log t) \<and>
     decl (ex_job s') = decl (ex_job t) \<and> (throwOnFailure \<longrightarrow> isl r = isl r0) \<and>
     (\<not> throwOnFailure \<longrightarrow> r = Inr ()) \<and> (\<not> isl r0 \<longrightarrow> s' = t)"
proof -
  obtain r0 t where run: "runStrategy C P balance ov s = (r0, t)" by fastforce
  show ?thesis
  proof (cases r0)
    case (Inr u)
    with assms run show ?thesis by (auto simp: refreshE_def catchE_def)
  next
    case (Inl e)
    with assms run have h: "bindE (persistJobRuntimeState C P (Some (port_message P e)) False)
        (\<lambda>_. if throwOnFailure then throwE e else returnE ()) t = (r, s')"
      by (simp add: refreshE_def catchE_def)
    have p: "persistJobRuntimeState C P (Some (port_message P e)) False t = (Inl e', t') \<Longrightarrow> False" for e' t'
      by (auto simp: persistJobRuntimeState_def exec_simps split: if_splits sum.splits prod.splits)
    have q: "quiet (bindE (persistJobRuntimeState C P (Some (port_message P e)) False)
        (\<lambda>_. if throwOnFailure then throwE e else returnE ()))" by (intro quiet_intros)
    from h have "(throwOnFailure \<longrightarrow> isl r) \<and> (\<not> throwOnFailure \<longrightarrow> r = Inr ())"
      by (cases rule: bindE_cases) (auto dest: p simp: throwE_def returnE_def split: if_splits)
    with quietD [OF q h] run Inl show ?thesis by auto
  qed
qed

text \<open>
  One refresh: its market actions, the override it used, and whether the strategy completed.
\<close>

definition refreshed ::
  "BidderContext \<Rightarrow> Ports \<Rightarrow> 'z Store_scheme \<Rightarrow> BidderJob \<Rightarrow> 'z Store_scheme \<Rightarrow> action list \<Rightarrow> RuntimeJobOverride option \<Rightarrow> bool \<Rightarrow> bool"
where
  "refreshed C P S job S' as ov ok \<longleftrightarrow>
     actions (st_log S') = actions (st_log S) @ as \<and>
     (ov = None \<or> ov = st_overrides S (jobId job)) \<and>
     ov = fst (getRuntimeOverride P (jobId job) S) \<and>
     (\<not> ok \<and> as = [] \<or> (\<exists>offers v.
        market_view P job (st_log (snd (getRuntimeOverride P (jobId job) S))) offers \<and> evaluate C (st_balance S) ov job offers = Inr v \<and>
        wet C (strategy_plan P (decl job) v ok) as))"

lemma execute_actions:
  assumes "executeJob C P throwOnFailure k S = (r, S')" and "map_of (st_jobs S) k = Some job"
  shows "\<exists>as ov ok. refreshed C P S job S' as ov ok \<and> (throwOnFailure \<longrightarrow> r = Inr () \<longrightarrow> ok)"
proof -
  obtain ov S1 where ov: "getRuntimeOverride P (jobId job) S = (ov, S1)" by fastforce
  let ?s = "\<lparr>ex_job = job, ex_log = st_log S1\<rparr>"
  obtain r' x where x: "refreshE C P (st_balance S1) ov throwOnFailure ?s = (r', x)" by fastforce
  note f = getRuntimeOverride_facts [OF ov]
  from assms ov x have S': "S' = S1\<lparr>st_jobs := AList.update k (ex_job x) (st_jobs S1), st_log := ex_log x\<rparr>" and r: "r = r'"
    by (simp_all add: executeJob_def)
  from refreshE_run [OF x] obtain r0 t where
    run: "runStrategy C P (st_balance S1) ov ?s = (r0, t)" "actions (ex_log x) = actions (ex_log t)"
    "throwOnFailure \<longrightarrow> isl r' = isl r0" by blast
  from run_actions [OF run(1)] obtain as where as: "actions (ex_log t) = actions (st_log S1) @ as"
    "isl r0 \<and> as = [] \<or> (\<exists>offers v. market_view P job (st_log S1) offers \<and> evaluate C (st_balance S1) ov job offers = Inr v \<and>
       (wet C (strategy_plan P (decl job) v (\<not> isl r0)) as))" by auto
  have "refreshed C P S job S' as ov (\<not> isl r0)"
    using S' f run(2) as ov by (simp add: refreshed_def)
  with r run(3) show ?thesis by (metis sum.disc(2))
qed

lemma plan_places:
  assumes "strategy_plan P d v ok as" and "Place j amount \<in> set as"
  shows "j = d \<and> amount = ev_desired v \<and> 0 < amount \<and> hd as = Place d amount \<and>
     (\<forall>a \<in> set (tl as). \<exists>x. a = Cancel d x)"
  using assms by (auto simp: strategy_plan_def cancels_def)

lemma plan_cancels:
  assumes "strategy_plan P d v ok as" and "Cancel j x \<in> set as"
  shows "j = d \<and> x \<in> set (ev_myOffers v)"
proof -
  have c: "j = d \<and> x \<in> set xs" if "cancels d xs ok bs" "Cancel j x \<in> set bs" for xs bs
    using that in_set_takeD [of x _ xs] by (auto simp: cancels_def)
  have "set (to_cancel xs keep) \<subseteq> set xs" for xs keep by (auto simp: to_cancel_def)
  with assms show ?thesis unfolding strategy_plan_def by (auto dest!: c)
qed

section \<open>Properties of a refresh\<close>

text \<open>
  C2. Whatever the ports answer, a refresh places offers only for its own job, at a positive valid
  OpenSea price that is within the WETH balance last read and within the ceiling of the job or of
  the override active for it.
\<close>

theorem placements_within_limits:
  assumes "executeJob C P throwOnFailure k S = (r, S')" and "map_of (st_jobs S) k = Some job"
    and "ctx_down C = roundOpenSeaOfferPriceDown" and "ctx_up C = roundOpenSeaOfferPriceUp"
  shows "\<exists>as. actions (st_log S') = actions (st_log S) @ as \<and>
     (\<forall>j amount. Place j amount \<in> set as \<longrightarrow>
        j = decl job \<and> 0 < amount \<and> open_sea_grid amount \<and>
        (\<forall>b. st_balance S = Some b \<longrightarrow> amount \<le> b) \<and>
        (amount \<le> ceiling_wei (job_config job) \<or>
         (\<exists>ov. st_overrides S (jobId job) = Some ov \<and> amount \<le> ov_ceiling ov)))"
proof -
  obtain as ov ok where run: "refreshed C P S job S' as ov ok"
    using execute_actions [OF assms(1,2)] by metis
  have "j = decl job \<and> 0 < amount \<and> open_sea_grid amount \<and>
        (\<forall>b. st_balance S = Some b \<longrightarrow> amount \<le> b) \<and> amount \<le> configured_ceiling ov job"
    if place: "Place j amount \<in> set as" for j amount
  proof -
    from run place obtain offers v where v: "evaluate C (st_balance S) ov job offers = Inr v"
      "strategy_plan P (decl job) v ok as" by (auto simp: refreshed_def wet_def split: if_splits)
    note p = plan_places [OF v(2) place]
    note b = open_sea.priceJob_bounds [OF evaluate_Inr(2) [OF v(1), unfolded assms(3,4)]]
    from p b(1) b(3) show ?thesis by auto
  qed
  moreover have "configured_ceiling ov job \<le> ceiling_wei (job_config job) \<or>
      (\<exists>o'. st_overrides S (jobId job) = Some o' \<and> configured_ceiling ov job = ov_ceiling o')"
    using run by (cases ov) (auto simp: configured_ceiling_def refreshed_def)
  ultimately show ?thesis
    using run by (intro exI [of _ as]) (force simp: refreshed_def)
qed

text \<open>
  C8. A refresh places at most one offer, and only then cancels: the placement is the first of its
  market actions and every other one is a cancellation.  It cancels only offers of the maker that
  belong to the job's target.  In dry-run mode there are no market actions.
\<close>

theorem refresh_places_then_cancels_own:
  assumes "executeJob C P throwOnFailure k S = (r, S')" and "map_of (st_jobs S) k = Some job"
  shows "\<exists>as. actions (st_log S') = actions (st_log S) @ as \<and>
     (ctx_dryRun C \<longrightarrow> as = []) \<and>
     (\<forall>j amount. Place j amount \<in> set as \<longrightarrow>
        hd as = Place j amount \<and> (\<forall>a \<in> set (tl as). \<exists>x. a = Cancel j x)) \<and>
     (\<forall>j x. Cancel j x \<in> set as \<longrightarrow>
        j = decl job \<and> isMakerOffer C x \<and> isOfferManagedByJob C job x = Inr True)"
proof -
  obtain as ov ok where run: "refreshed C P S job S' as ov ok"
    using execute_actions [OF assms] by metis
  show ?thesis
  proof (cases "as = []")
    case False
    with run obtain offers v where v: "evaluate C (st_balance S) ov job offers = Inr v"
      "strategy_plan P (decl job) v ok as" "\<not> ctx_dryRun C" by (auto simp: refreshed_def wet_def split: if_splits)
    have "isMakerOffer C x \<and> isOfferManagedByJob C job x = Inr True" if "x \<in> set (ev_myOffers v)" for x
      using that evaluate_Inr(1) [OF v(1)] by simp
    with run v(3) plan_places [OF v(2)] plan_cancels [OF v(2)] show ?thesis
      by (intro exI [of _ as]) (auto simp: refreshed_def)
  qed (use run in \<open>auto simp: refreshed_def\<close>)
qed

text \<open>
  C7. A refresh that completes leaves one live bid of the job at the desired price, or none when
  nothing can be bid.  The managed offers it deals with are exactly the maker's offers for the
  job's target among those the marketplace listed and the recovered tracked order.  Either it
  placed the desired offer and cancelled every one of them, or it kept one that already had the
  desired price and cancelled all with another id, or the desired price is not positive and all
  were cancelled.  The desired price is the one computed from those offers, the balance last read
  and the override the store answers for the job.
\<close>

theorem completed_refresh_leaves_one_bid:
  assumes "executeJob C P True k S = (Inr (), S')" and "map_of (st_jobs S) k = Some job"
    and "\<not> ctx_dryRun C"
  shows "\<exists>as offers v. actions (st_log S') = actions (st_log S) @ as \<and>
     market_view P job (st_log (snd (getRuntimeOverride P (jobId job) S))) offers \<and>
     evaluate C (st_balance S) (fst (getRuntimeOverride P (jobId job) S)) job offers = Inr v \<and>
     mset (ev_myOffers v) =
       mset (filter (\<lambda>x. isMakerOffer C x \<and> isOfferManagedByJob C job x = Inr True) offers) \<and>
     (if ev_desired v \<le> 0 then as = map (Cancel (decl job)) (ev_myOffers v)
      else as = Place (decl job) (ev_desired v) # map (Cancel (decl job)) (ev_myOffers v) \<or>
        (\<exists>m \<in> set (ev_myOffers v). order_price m = ev_desired v \<and>
           as = map (Cancel (decl job))
             (filter (\<lambda>x. order_id m = [] \<or> order_id x \<noteq> order_id m) (ev_myOffers v))))"
proof -
  obtain as ov where run: "refreshed C P S job S' as ov True"
    using execute_actions [OF assms(1,2)] by metis
  then obtain offers v where
    as: "actions (st_log S') = actions (st_log S) @ as"
    and ov: "ov = fst (getRuntimeOverride P (jobId job) S)"
    and found: "market_view P job (st_log (snd (getRuntimeOverride P (jobId job) S))) offers"
    and v: "evaluate C (st_balance S) ov job offers = Inr v" and plan: "strategy_plan P (decl job) v True as"
    using assms(3) by (auto simp: refreshed_def wet_def)
  have keep: "to_cancel xs (Some i) = filter (\<lambda>x. i = [] \<or> order_id x \<noteq> i) xs" for xs i
    by (simp add: to_cancel_def truthy_def)
  have "mset (ev_myOffers v) =
      mset (filter (\<lambda>x. isMakerOffer C x \<and> isOfferManagedByJob C job x = Inr True) offers)"
    unfolding evaluate_Inr(1) [OF v] by (simp add: sort_desc_def)
  with as found v ov plan show ?thesis
    by (intro exI [of _ as] exI [of _ offers] exI [of _ v])
      (auto simp: strategy_plan_def cancels_def keep)
qed

text \<open>
  When the marketplace rejects a placement, the refresh that attempted it cancels nothing: the
  bids it meant to replace stay live.
\<close>

theorem rejected_placement_keeps_bids:
  assumes "executeJob C P throwOnFailure k S = (r, S')" and "map_of (st_jobs S) k = Some job"
    and "\<And>l. isl (port_place P l)"
  shows "\<exists>as. actions (st_log S') = actions (st_log S) @ as \<and>
     (\<forall>j amount. Place j amount \<in> set as \<longrightarrow> as = [Place j amount])"
proof -
  obtain as ov ok where run: "refreshed C P S job S' as ov ok"
    using execute_actions [OF assms(1,2)] by metis
  have "as = [Place j amount]" if place: "Place j amount \<in> set as" for j amount
  proof -
    from run place obtain v where "strategy_plan P (decl job) v ok as"
      by (auto simp: refreshed_def wet_def split: if_splits)
    moreover have "rejects P" using assms(3) by (simp add: rejects_def)
    ultimately show ?thesis using place by (auto simp: strategy_plan_def cancels_def)
  qed
  with run show ?thesis by (auto simp: refreshed_def)
qed

text \<open>
  Background refreshes contain their failures: they never throw.  With a runtime-state port the
  failure is reported as the job's last error, after everything else the refresh did.
\<close>

theorem background_refresh_contains_failures:
  assumes "executeJob C P False k S = (r, S')"
  shows "r = Inr () \<and>
    (\<forall>job ov S1 e t. map_of (st_jobs S) k = Some job \<longrightarrow> getRuntimeOverride P (jobId job) S = (ov, S1) \<longrightarrow>
       runStrategy C P (st_balance S1) ov \<lparr>ex_job = job, ex_log = st_log S1\<rparr> = (Inl e, t) \<longrightarrow>
       ctx_hasRuntimePort C \<longrightarrow>
       st_log S' = ex_log t @ [PersistState (stateSnapshot P (ex_job t) (Some (port_message P e)))])"
proof (intro conjI allI impI)
  show "r = Inr ()"
  proof (cases "map_of (st_jobs S) k")
    case None
    with assms show ?thesis by (simp add: executeJob_def)
  next
    case (Some job)
    obtain ov S1 where ov: "getRuntimeOverride P (jobId job) S = (ov, S1)" by fastforce
    obtain r' x where x: "refreshE C P (st_balance S1) ov False \<lparr>ex_job = job, ex_log = st_log S1\<rparr> = (r', x)"
      by fastforce
    from refreshE_run [OF x] assms Some ov x show ?thesis by (auto simp: executeJob_def)
  qed
next
  fix job ov S1 e t
  assume "map_of (st_jobs S) k = Some job" "getRuntimeOverride P (jobId job) S = (ov, S1)"
    "runStrategy C P (st_balance S1) ov \<lparr>ex_job = job, ex_log = st_log S1\<rparr> = (Inl e, t)"
    "ctx_hasRuntimePort C"
  with assms show "st_log S' = ex_log t @ [PersistState (stateSnapshot P (ex_job t) (Some (port_message P e)))]"
    by (auto simp: executeJob_def refreshE_def catchE_def bindE_def returnE_def persistJobRuntimeState_def
        getJob_def callE_def Let_def split: sum.splits)
qed

section \<open>Cancelling the offers of a job\<close>

lemma clearTracked_clears:
  assumes "clearTrackedOrder C P s = (r, s')"
  shows "r = Inr () \<and> activeOrderId (job_state (ex_job s')) = None \<and>
     currentPrice (job_state (ex_job s')) = None \<and> bidPosition (job_state (ex_job s')) = None"
  using assms by (auto simp: clearTrackedOrder_def clearRuntimeBidDecision_def persistJobRuntimeState_def
      exec_simps split: if_splits sum.splits prod.splits)

lemma quiet_candidates: "quiet (cancellationCandidates C P)"
  unfolding cancellationCandidates_def Let_def by (intro quiet_intros) simp

text \<open>Without clearing, recovery only completes the protocol address of the tracked order.\<close>

lemma adopt_keeps_order:
  "adoptProtocolAddress x s = (r, s') \<Longrightarrow>
     activeOrderId (job_state (ex_job s')) = activeOrderId (job_state (ex_job s))"
  by (auto simp: adoptProtocolAddress_def exec_simps split: if_splits)

lemma resolve_keeps_order:
  assumes "resolveTrackedActiveOrder C P offers False s = (r, s')"
  shows "activeOrderId (job_state (ex_job s')) = activeOrderId (job_state (ex_job s))"
  using assms unfolding resolveTrackedActiveOrder_def Let_def
  by (auto elim!: bindE_cases simp: getJob_def returnE_def throwE_def callE_eq dest!: adopt_keeps_order
      split: if_splits option.splits Recovery.splits sum.splits)

lemma candidates_facts:
  assumes "cancellationCandidates C P s = (r, s')"
  shows "activeOrderId (job_state (ex_job s')) = activeOrderId (job_state (ex_job s))"
    and "\<And>xs t. r = Inr (xs, t) \<Longrightarrow> t = activeOrderId (job_state (ex_job s)) \<and>
      (\<exists>offers. market_view P (ex_job s) (ex_log s) offers \<and> xs = filter (\<lambda>x. isMakerOffer C x \<and>
         (isOfferManagedByJob C (ex_job s) x = Inr True \<or> Some (order_id x) = t)) offers)"
proof -
  define s1 where "s1 = s\<lparr>ex_log := ex_log s @ [ReadOffers (jobId (ex_job s))]\<rparr>"
  let ?t = "activeOrderId (job_state (ex_job s))"
  let ?p = "\<lambda>job offer. if \<not> isMakerOffer C offer then Inr False
     else bindR (isOfferManagedByJob C job offer) (\<lambda>m. Inr (m \<or> Some (order_id offer) = ?t))"
  have step: "cancellationCandidates C P s =
     (case port_offers P (ex_log s1) of Inl m \<Rightarrow> (Inl (ServiceFailed m), s1)
      | Inr offers \<Rightarrow> bindE (resolveTrackedActiveOrder C P offers False) (\<lambda>tracked.
          bindE getJob (\<lambda>job.
          bindE (liftE CriteriaUnreadable (filterR (?p job) (with_tracked offers tracked))) (\<lambda>makerOffers.
          returnE (makerOffers, ?t)))) s1)"
    by (simp add: cancellationCandidates_def bindE_def getJob_def callE_def Let_def s1_def split: sum.splits)
  show "activeOrderId (job_state (ex_job s')) = ?t"
    using assms unfolding step
    by (auto elim!: bindE_cases dest!: resolve_keeps_order simp: getJob_def liftE_def returnE_def s1_def
        split: sum.splits)
  fix xs t assume "r = Inr (xs, t)"
  with assms step obtain offers where listed: "port_offers P (ex_log s1) = Inr offers" and o: "bindE (resolveTrackedActiveOrder C P offers False) (\<lambda>tracked.
          bindE getJob (\<lambda>job.
          bindE (liftE CriteriaUnreadable (filterR (?p job) (with_tracked offers tracked))) (\<lambda>makerOffers.
          returnE (makerOffers, ?t)))) s1 = (Inr (xs, t), s')"
    by (simp split: sum.splits)
  then obtain tracked s2 where
    2: "resolveTrackedActiveOrder C P offers False s1 = (Inr tracked, s2)" and t: "t = ?t"
    and xs: "filterR (?p (ex_job s2)) (with_tracked offers tracked) = Inr xs"
    by (elim bindE_cases) (auto simp add: getJob_def liftE_def returnE_def split: sum.splits)
  have "decl (ex_job s2) = decl (ex_job s)"
    using quietD [OF quiet_resolveTracked 2] by (simp add: s1_def)
  then have "isOfferManagedByJob C (decl (ex_job s2)) = isOfferManagedByJob C (decl (ex_job s))" by simp
  then have "isOfferManagedByJob C (ex_job s2) = isOfferManagedByJob C (ex_job s)"
    by (simp only: managed_decl)
  then have "?p (ex_job s2) = ?p (ex_job s)" by (simp only:)
  then have "filterR (?p (ex_job s)) (with_tracked offers tracked) = Inr xs" using xs by (simp only:)
  note fb = iffD1 [OF filterR_Inr this]
  note f = conjunct2 [OF fb] and b = conjunct1 [OF fb]
  have "?p (ex_job s) x = Inr True \<longleftrightarrow> isMakerOffer C x \<and>
      (isOfferManagedByJob C (ex_job s) x = Inr True \<or> Some (order_id x) = ?t)"
    if "\<exists>b. ?p (ex_job s) x = Inr b" for x
    using that by (cases "isOfferManagedByJob C (ex_job s) x") (auto split: if_splits)
  with b have "xs = filter (\<lambda>x. isMakerOffer C x \<and>
         (isOfferManagedByJob C (ex_job s) x = Inr True \<or> Some (order_id x) = ?t)) (with_tracked offers tracked)"
    unfolding f by (intro filter_cong [OF refl]) blast
  moreover have "market_view P (ex_job s) (ex_log s) (with_tracked offers tracked)"
    using resolve_market_view 2 listed by (simp add: s1_def)
  ultimately show "t = ?t \<and> (\<exists>offers. market_view P (ex_job s) (ex_log s) offers \<and> xs = filter (\<lambda>x. isMakerOffer C x \<and>
         (isOfferManagedByJob C (ex_job s) x = Inr True \<or> Some (order_id x) = t)) offers)"
    using t by blast
qed

lemma recordTracked_keeps:
  "recordTrackedOrderCancellation C P a b c s = (r, s') \<Longrightarrow> r = Inr () \<and> ex_job s' = ex_job s"
  by (auto simp: recordTrackedOrderCancellation_def recordCancellationE_def exec_simps
      split: if_splits sum.splits prod.splits option.splits)

lemma cleared_then:
  assumes "bindE (clearTrackedOrder C P) (\<lambda>_. returnE n) s = (r, s')"
  shows "r = Inr n \<and> activeOrderId (job_state (ex_job s')) = None \<and>
     currentPrice (job_state (ex_job s')) = None \<and> actions (ex_log s') = actions (ex_log s) \<and>
     decl (ex_job s') = decl (ex_job s)"
  using assms
proof (cases rule: bindE_cases)
  case (thrown e)
  with clearTracked_clears [OF thrown(1)] show ?thesis by simp
next
  case (returned x t)
  with clearTracked_clears [OF returned(1)] quietD [OF quiet_clearTracked returned(1)] show ?thesis
    by (simp add: returnE_def)
qed

text \<open>
  The cancellation of a job's offers after the search for them: either everything was cancelled and
  the tracking cleared, or a cancellation failed and the tracking is untouched.
\<close>

lemma cancel_after_search:
  assumes "cancelActiveOffersForJob C P s = (r, s')"
    and "cancellationCandidates C P s = (Inr (xs, tracked), t)"
  shows "case r of
      Inr n \<Rightarrow> n = length xs \<and> activeOrderId (job_state (ex_job s')) = None \<and>
        currentPrice (job_state (ex_job s')) = None \<and> decl (ex_job s') = decl (ex_job t) \<and>
        actions (ex_log s') = actions (ex_log t) @ (if ctx_dryRun C then [] else map (Cancel (decl (ex_job t))) xs)
    | Inl e \<Rightarrow> ex_job s' = ex_job t"
proof (cases "xs = []")
  case True
  show ?thesis
  proof (cases "truthy tracked")
    case False
    with True assms have "bindE (clearTrackedOrder C P) (\<lambda>_. returnE 0) t = (r, s')"
      by (simp add: cancelActiveOffersForJob_def bindE_def)
    from cleared_then [OF this] True show ?thesis by simp
  next
    case tracked: True
    define t1 where "t1 = t\<lparr>ex_log := ex_log t @ [ReadClock]\<rparr>"
    define c where "c = port_iso P (port_now P (ex_log t1))"
    obtain t2 where t2: "recordTrackedOrderCancellation C P c (Some c) None t1 = (Inr (), t2)"
      using recordTracked_keeps by (metis surj_pair)
    with True tracked assms have "bindE (clearTrackedOrder C P) (\<lambda>_. returnE 0) t2 = (r, s')"
      by (simp add: cancelActiveOffersForJob_def bindE_def isoNowE_def nowE_eq returnE_def t1_def c_def)
    from cleared_then [OF this] quietD [OF quiet_recordTracked t2] True show ?thesis by (simp add: t1_def)
  qed
next
  case False
  with assms have "bindE (cancelMakerOffers C P xs None) (\<lambda>_.
      bindE (clearTrackedOrder C P) (\<lambda>_. returnE (length xs))) t = (r, s')"
    by (simp add: cancelActiveOffersForJob_def bindE_def)
  then show ?thesis
  proof (cases rule: bindE_cases)
    case (thrown e)
    with cancelMakerOffers_actions [OF thrown(1)] show ?thesis by simp
  next
    case (returned x u)
    with cancelMakerOffers_actions [OF returned(1)] cleared_then [OF returned(2)] show ?thesis by auto
  qed
qed

text \<open>
  C15. A cancellation of a job's offers that returns has cancelled, in order and without exception,
  every offer of the maker that belongs to the job's target or is the order the job tracked, among
  the offers the marketplace listed and the recovered tracked order, and it reports how many.
  Afterwards the job tracks no order.  In dry-run mode it cancels nothing.
\<close>

theorem cancelled_job_is_clean:
  assumes "cancelActiveOffersForJob C P s = (Inr n, s')"
  shows "\<exists>offers xs. market_view P (ex_job s) (ex_log s) offers \<and>
     xs = filter (\<lambda>x. isMakerOffer C x \<and> (isOfferManagedByJob C (ex_job s) x = Inr True \<or>
        Some (order_id x) = activeOrderId (job_state (ex_job s)))) offers \<and>
     actions (ex_log s') = actions (ex_log s) @
       (if ctx_dryRun C then [] else map (Cancel (decl (ex_job s))) xs) \<and>
     n = length xs \<and>
     activeOrderId (job_state (ex_job s')) = None \<and> currentPrice (job_state (ex_job s')) = None"
proof -
  obtain c t where c: "cancellationCandidates C P s = (c, t)" by fastforce
  with assms obtain xs tracked where c': "cancellationCandidates C P s = (Inr (xs, tracked), t)"
    by (cases c) (auto simp: cancelActiveOffersForJob_def bindE_def)
  note q = quietD [OF quiet_candidates c'] and f = candidates_facts(2) [OF c' refl]
  from f obtain offers where "market_view P (ex_job s) (ex_log s) offers"
    "xs = filter (\<lambda>x. isMakerOffer C x \<and> (isOfferManagedByJob C (ex_job s) x = Inr True \<or>
        Some (order_id x) = activeOrderId (job_state (ex_job s)))) offers" by auto
  with cancel_after_search [OF assms(1) c'] q show ?thesis
    by (intro exI [of _ offers] exI [of _ xs]) simp
qed

text \<open>
  A cancellation that fails, because the market could not be read, the tracked order could not
  be proven gone, or the marketplace refused, leaves the job tracking the same order, so that a
  later attempt still finds it.
\<close>

theorem failed_cancellation_keeps_tracking:
  assumes "cancelActiveOffersForJob C P s = (Inl e, s')"
  shows "activeOrderId (job_state (ex_job s')) = activeOrderId (job_state (ex_job s)) \<and>
     decl (ex_job s') = decl (ex_job s)"
proof -
  obtain c t where c: "cancellationCandidates C P s = (c, t)" by fastforce
  note q = quietD [OF quiet_candidates c] and f = candidates_facts(1) [OF c]
  show ?thesis
  proof (cases c)
    case (Inl e')
    with assms c q f show ?thesis by (simp add: cancelActiveOffersForJob_def bindE_def)
  next
    case (Inr p)
    with c obtain xs tracked where c': "cancellationCandidates C P s = (Inr (xs, tracked), t)"
      by (cases p) auto
    from cancel_after_search [OF assms c'] q f show ?thesis by simp
  qed
qed

end
