(* ===== verification/Bidder_Registry.thy ===== *)
theory Bidder_Registry
  imports Bidder_Execute
begin

text \<open>
  The bidder's registry of jobs (\<^verbatim>\<open>trading/src/application/use-cases/bidding/bidder.ts\<close>):
  adding and removing jobs, the two indexes over token jobs, the inventory counts, runtime
  overrides with their expiry, and the choice of the jobs a market event refreshes.  A \<open>Map\<close>
  is an association list in insertion order, a \<open>Set\<close> a list without repetitions.

  The lemmas show what the indexes and counts describe in every state the registry reaches, also
  after registrations that were rejected half-way, and what the hot path selects with them.
\<close>

section \<open>State\<close>

record Registry = Store +
  tokenJobIdByCollectionToken :: "(string \<times> string) list"
  tokenJobIdsByCollection :: "(string \<times> string list) list"
  jobTargetCounts :: "TargetType \<Rightarrow> int"
  nextActivationId :: int
  acceptingBackgroundRefreshes :: bool

datatype registry_error =
    DuplicateTokenJob string string
  | UnknownJob string
  | InvalidTtl number
  | FloorAboveCeiling int int

definition new_registry :: Registry where
  "new_registry = \<lparr>st_jobs = [], st_overrides = (\<lambda>_. None), st_balance = None, st_log = [],
     tokenJobIdByCollectionToken = [], tokenJobIdsByCollection = [], jobTargetCounts = (\<lambda>_. 0),
     nextActivationId = 1, acceptingBackgroundRefreshes = True\<rparr>"

section \<open>Indexes\<close>

definition makeCollectionTokenKey :: "string \<Rightarrow> string \<Rightarrow> string" where
  "makeCollectionTokenKey slug tokenId = slug @ '':'' @ tokenId"

definition token_key :: "BidderJob \<Rightarrow> string option" where
  "token_key job =
     (case job_target job of
        Token tokenId \<Rightarrow> Some (makeCollectionTokenKey (collectionSlug job) tokenId)
      | _ \<Rightarrow> None)"

definition collection_ids :: "Registry \<Rightarrow> string \<Rightarrow> string list" where
  "collection_ids R slug =
     (case map_of (tokenJobIdsByCollection R) slug of None \<Rightarrow> [] | Some ids \<Rightarrow> ids)"

definition addJobToIndexes :: "BidderJob \<Rightarrow> Registry \<Rightarrow> (registry_error + unit) \<times> Registry" where
  "addJobToIndexes job R =
     (case token_key job of
        None \<Rightarrow> (Inr (), R)
      | Some collectionTokenKey \<Rightarrow>
          let existingJobId = map_of (tokenJobIdByCollectionToken R) collectionTokenKey in
          if truthy existingJobId \<and> existingJobId \<noteq> Some (jobId job)
          then (Inl (DuplicateTokenJob (jobId job) (the existingJobId)), R)
          else (Inr (), R\<lparr>
            tokenJobIdByCollectionToken :=
              AList.update collectionTokenKey (jobId job) (tokenJobIdByCollectionToken R),
            tokenJobIdsByCollection :=
              AList.update (collectionSlug job)
                (if jobId job \<in> set (collection_ids R (collectionSlug job))
                 then collection_ids R (collectionSlug job)
                 else collection_ids R (collectionSlug job) @ [jobId job])
                (tokenJobIdsByCollection R)\<rparr>))"

definition removeJobFromIndexes :: "BidderJob \<Rightarrow> Registry \<Rightarrow> Registry" where
  "removeJobFromIndexes job R =
     (case token_key job of
        None \<Rightarrow> R
      | Some collectionTokenKey \<Rightarrow>
          let R1 = (if map_of (tokenJobIdByCollectionToken R) collectionTokenKey = Some (jobId job)
                    then R\<lparr>tokenJobIdByCollectionToken :=
                      AList.delete collectionTokenKey (tokenJobIdByCollectionToken R)\<rparr>
                    else R)
          in case map_of (tokenJobIdsByCollection R1) (collectionSlug job) of
               None \<Rightarrow> R1
             | Some ids \<Rightarrow>
                 let left = removeAll (jobId job) ids in
                 R1\<lparr>tokenJobIdsByCollection :=
                   (if left = [] then AList.delete (collectionSlug job) (tokenJobIdsByCollection R1)
                    else AList.update (collectionSlug job) left (tokenJobIdsByCollection R1))\<rparr>)"

definition adjustJobTargetCount :: "TargetType \<Rightarrow> int \<Rightarrow> Registry \<Rightarrow> Registry" where
  "adjustJobTargetCount ty delta R =
     R\<lparr>jobTargetCounts := (jobTargetCounts R)(ty := max 0 (jobTargetCounts R ty + delta))\<rparr>"

section \<open>Identity of declarations\<close>

definition hasSameTargetIdentity :: "BidderContext \<Rightarrow> BidderJob \<Rightarrow> BidderJob \<Rightarrow> bool" where
  "hasSameTargetIdentity C existingJob nextJob \<longleftrightarrow>
     (if collectionAddress existingJob \<noteq> collectionAddress nextJob \<or>
         collectionSlug existingJob \<noteq> collectionSlug nextJob \<or>
         target_type (job_target existingJob) \<noteq> target_type (job_target nextJob)
      then False
      else case (job_target existingJob, job_target nextJob) of
        (Token a, Token b) \<Rightarrow> a = b
      | (Collection _ a, Collection _ b) \<Rightarrow>
          matchesExactTraitTargets (ctx_lc C) (ctx_numberText C)
            (map criterion_of_target (traits_of a)) (map criterion_of_target (traits_of b))
      | (CompetitiveTrait _ a _, CompetitiveTrait _ b _) \<Rightarrow>
          matchesExactTraitTargets (ctx_lc C) (ctx_numberText C)
            [criterion_of_target a] [criterion_of_target b]
      | _ \<Rightarrow> False)"

text \<open>\<open>JSON.stringify\<close> of a list of selectors; an undefined value is left out.\<close>

definition selector_json :: "TraitSelector \<Rightarrow> string" where
  "selector_json s =
     ''{'' @ json_string ''type'' @ '':'' @ json_string (sel_type s) @
     (case sel_value s of
        None \<Rightarrow> ''}''
      | Some v \<Rightarrow> '','' @ json_string ''value'' @ '':'' @ json_string v @ ''}'')"

definition extra_selectors :: "BidderJob \<Rightarrow> TraitSelector list" where
  "extra_selectors job = (case extraCompetitionTraits (job_config job) of None \<Rightarrow> [] | Some ss \<Rightarrow> ss)"

definition extras_json :: "BidderJob \<Rightarrow> string" where
  "extras_json job = json_array (map selector_json (extra_selectors job))"

definition hasSameSatisfiedDeclaration :: "BidderContext \<Rightarrow> BidderJob \<Rightarrow> BidderJob \<Rightarrow> bool" where
  "hasSameSatisfiedDeclaration C currentJob desiredJob \<longleftrightarrow>
     revision currentJob = revision desiredJob \<and>
     floor_wei (job_config currentJob) = floor_wei (job_config desiredJob) \<and>
     ceiling_wei (job_config currentJob) = ceiling_wei (job_config desiredJob) \<and>
     delta_wei (job_config currentJob) = delta_wei (job_config desiredJob) \<and>
     extras_json currentJob = extras_json desiredJob \<and>
     hasSameTargetIdentity C currentJob desiredJob"

definition getSatisfiedRuntimeSnapshot ::
  "BidderContext \<Rightarrow> BidderJob \<Rightarrow> Registry \<Rightarrow> (string \<times> int \<times> string) option" where
  "getSatisfiedRuntimeSnapshot C desiredJob R =
     (case map_of (st_jobs R) (jobId desiredJob) of
        None \<Rightarrow> None
      | Some currentJob \<Rightarrow>
          if \<not> hasSameSatisfiedDeclaration C currentJob desiredJob then None
          else
            let st = job_state currentJob in
            if truthy (activeOrderId st) \<and> currentPrice st \<noteq> None \<and> truthy (activeOrderVerifiedAt st)
            then Some (the (activeOrderId st), the (currentPrice st), the (activeOrderVerifiedAt st))
            else None)"

section \<open>Registration\<close>

text \<open>
  The spread \<open>{...existingJob.state, ...job.state}\<close> takes a property from \<open>job.state\<close> when
  that object has it, even if its value is undefined.  \<open>own\<close> lists the properties it has.
\<close>

datatype StateField = LastRun | ActiveOrderId | ActiveProtocolAddress | ActiveOrderPlacedAt
  | ActiveOrderVerifiedAt | CurrentPrice | ActiveExpirationTimeMs | BidPositionField
  | BidConstraintsField | CompetitorPrice

definition spread_state :: "StateField list \<Rightarrow> BidderState \<Rightarrow> BidderState \<Rightarrow> BidderState" where
  "spread_state own old new =
     \<lparr>lastRun = (if LastRun \<in> set own then lastRun new else lastRun old),
      activeOrderId = (if ActiveOrderId \<in> set own then activeOrderId new else activeOrderId old),
      activeProtocolAddress =
        (if ActiveProtocolAddress \<in> set own then activeProtocolAddress new else activeProtocolAddress old),
      activeOrderPlacedAt =
        (if ActiveOrderPlacedAt \<in> set own then activeOrderPlacedAt new else activeOrderPlacedAt old),
      activeOrderVerifiedAt =
        (if ActiveOrderVerifiedAt \<in> set own then activeOrderVerifiedAt new else activeOrderVerifiedAt old),
      currentPrice = (if CurrentPrice \<in> set own then currentPrice new else currentPrice old),
      activeExpirationTimeMs =
        (if ActiveExpirationTimeMs \<in> set own then activeExpirationTimeMs new
         else activeExpirationTimeMs old),
      bidPosition = (if BidPositionField \<in> set own then bidPosition new else bidPosition old),
      bidConstraints = (if BidConstraintsField \<in> set own then bidConstraints new else bidConstraints old),
      competitorPrice = (if CompetitorPrice \<in> set own then competitorPrice new else competitorPrice old)\<rparr>"

definition job_type :: "BidderJob \<Rightarrow> TargetType" where
  "job_type job = target_type (job_target job)"

definition addJob ::
  "BidderContext \<Rightarrow> StateField list \<Rightarrow> BidderJob \<Rightarrow> Registry \<Rightarrow> (registry_error + unit) \<times> Registry" where
  "addJob C own job R =
     (let (job', R1) =
        (case map_of (st_jobs R) (jobId job) of
           None \<Rightarrow> (job, R)
         | Some existingJob \<Rightarrow>
             (if hasSameTargetIdentity C existingJob job
              then job\<lparr>job_state := spread_state own (job_state existingJob) (job_state job)\<rparr>
              else job,
              adjustJobTargetCount (job_type existingJob) (- 1) (removeJobFromIndexes existingJob R)))
      in case addJobToIndexes job' (R1\<lparr>st_jobs := AList.update (jobId job) job' (st_jobs R1)\<rparr>) of
           (Inl e, R3) \<Rightarrow> (Inl e, R3)
         | (Inr u, R3) \<Rightarrow> (Inr (), adjustJobTargetCount (job_type job') 1 R3))"

definition removeJob :: "string \<Rightarrow> Registry \<Rightarrow> BidderJob option \<times> Registry" where
  "removeJob jobKey R =
     (case map_of (st_jobs R) jobKey of
        None \<Rightarrow> (None, R)
      | Some existingJob \<Rightarrow>
          let R1 = removeJobFromIndexes existingJob (clearRuntimeOverride jobKey R)
          in (Some existingJob,
              adjustJobTargetCount (job_type existingJob) (- 1)
                (R1\<lparr>st_jobs := AList.delete jobKey (st_jobs R1)\<rparr>)))"

section \<open>Overrides\<close>

record BidderActivationOptions =
  act_floor :: int
  act_ceiling :: int
  act_ttlMs :: number

text \<open>The clock shows integers, so an expiry at \<open>now + ttlMs\<close> is one at the next integer.\<close>

definition ttl_ceiling :: "number \<Rightarrow> int" where
  "ttl_ceiling ttl = (case ttl of Fin q \<Rightarrow> \<lceil>q\<rceil> | _ \<Rightarrow> 0)"

text \<open>Activation up to its refresh: the result tells whether an override was installed.\<close>

definition activateJob ::
  "Ports \<Rightarrow> string \<Rightarrow> BidderActivationOptions \<Rightarrow> Registry \<Rightarrow> (registry_error + bool) \<times> Registry" where
  "activateJob P jobKey options R =
     (if \<not> acceptingBackgroundRefreshes R then (Inr False, R)
      else if map_of (st_jobs R) jobKey = None then (Inl (UnknownJob jobKey), R)
      else if \<not> num_pos (act_ttlMs options) \<or> \<not> isFiniteNum (act_ttlMs options)
      then (Inl (InvalidTtl (act_ttlMs options)), R)
      else if act_floor options > act_ceiling options
      then (Inl (FloorAboveCeiling (act_floor options) (act_ceiling options)), R)
      else
        let R1 = clearRuntimeOverride jobKey R;
            l = st_log R1 @ [ReadClock];
            override = \<lparr>ov_activationId = nextActivationId R1, ov_floor = act_floor options,
              ov_ceiling = act_ceiling options,
              ov_expiresAt = port_now P l + ttl_ceiling (act_ttlMs options)\<rparr>
        in (Inr True, R1\<lparr>st_log := l, nextActivationId := nextActivationId R1 + 1,
              st_overrides := (st_overrides R1)(jobKey \<mapsto> override)\<rparr>))"

text \<open>The callback of the expiry timer of activation \<open>activationId\<close>; the result tells whether it
  refreshes the job.\<close>

definition overrideExpired :: "string \<Rightarrow> int \<Rightarrow> Registry \<Rightarrow> bool \<times> Registry" where
  "overrideExpired jobKey activationId R =
     (case st_overrides R jobKey of
        None \<Rightarrow> (False, R)
      | Some currentOverride \<Rightarrow>
          if ov_activationId currentOverride \<noteq> activationId then (False, R)
          else (True, clearRuntimeOverride jobKey R))"


section \<open>Market events\<close>

datatype Scope = Scope_Collection | Scope_Item | Scope_Trait | Scope_Unknown

record MarketEvent =
  event_collectionSlug :: string
  event_itemId :: string
  event_quantity :: number
  event_totalPrice :: int
  event_scope :: Scope
  event_traitCriteria :: "Criterion list"

datatype event_error = QuantityNotABigInt | EventPriceRejected price_error | MetadataFailed string

text \<open>The token metadata repository answers with the traits of a token, or fails.\<close>

type_synonym metadata = "string \<Rightarrow> string \<Rightarrow> string + TraitTarget list"

definition hasExplicitTokenId :: "MarketEvent \<Rightarrow> bool" where
  "hasExplicitTokenId e \<longleftrightarrow> length (event_itemId e) > 0"

text \<open>\<open>BigInt(quantity)\<close> throws unless the quantity is an integer; the division truncates.\<close>

definition getUnitPrice :: "MarketEvent \<Rightarrow> event_error + int" where
  "getUnitPrice e =
     (case event_quantity e of
        Fin q \<Rightarrow>
          if q \<le> 0 then Inr 0
          else if of_int \<lfloor>q\<rfloor> = q then Inr (event_totalPrice e sdiv \<lfloor>q\<rfloor>)
          else Inl QuantityNotABigInt
      | NegInf \<Rightarrow> Inr 0
      | _ \<Rightarrow> Inl QuantityNotABigInt)"

definition jobs_of_ids :: "Registry \<Rightarrow> string list \<Rightarrow> BidderJob list" where
  "jobs_of_ids R ids = List.map_filter (map_of (st_jobs R)) ids"

definition getHotRefreshCandidateJobs :: "MarketEvent \<Rightarrow> Registry \<Rightarrow> BidderJob list" where
  "getHotRefreshCandidateJobs e R =
     (case event_scope e of
        Scope_Item \<Rightarrow>
          if \<not> hasExplicitTokenId e then []
          else
            let found = map_of (tokenJobIdByCollectionToken R)
                  (makeCollectionTokenKey (event_collectionSlug e) (event_itemId e)) in
            if \<not> truthy found then [] else jobs_of_ids R [the found]
      | Scope_Collection \<Rightarrow> jobs_of_ids R (collection_ids R (event_collectionSlug e))
      | Scope_Trait \<Rightarrow> jobs_of_ids R (collection_ids R (event_collectionSlug e))
      | Scope_Unknown \<Rightarrow> [])"

definition matchesTraitCriteria ::
  "BidderContext \<Rightarrow> metadata option \<Rightarrow> string \<Rightarrow> string \<Rightarrow> Criterion list \<Rightarrow> event_error + bool" where
  "matchesTraitCriteria C repository slug tokenId criteria =
     (case repository of
        None \<Rightarrow> Inr False
      | Some getTraits \<Rightarrow>
          if length criteria = 0 then Inr False
          else (case getTraits slug tokenId of
            Inl m \<Rightarrow> Inl (MetadataFailed m)
          | Inr tokenTraits \<Rightarrow>
              Inr (if length tokenTraits = 0 then False
                   else biddingTraitsMatchToken (ctx_round C) criteria tokenTraits)))"

datatype GateReason = PriceUnavailable | AtOrAboveCeiling | BelowCurrentPrice | GatePassed

definition evaluateCurrentPriceGate ::
  "BidderContext \<Rightarrow> Ports \<Rightarrow> BidderJob \<Rightarrow> MarketEvent \<Rightarrow> Registry \<Rightarrow> (event_error + GateReason) \<times> Registry"
where
  "evaluateCurrentPriceGate C P job e R =
     (case currentPrice (job_state job) of
        None \<Rightarrow> (Inr PriceUnavailable, R)
      | Some price \<Rightarrow>
          let (ov, R1) = getRuntimeOverride P (jobId job) R in
          (bindR (case getEffectiveCeiling (ctx_down C) (ctx_up C) (st_balance R1)
                    (configured_ceiling ov job) (configured_floor ov job) of
                    Inl err \<Rightarrow> Inl (EventPriceRejected err) | Inr cap \<Rightarrow> Inr cap) (\<lambda>cap.
           bindR (getUnitPrice e) (\<lambda>unitPrice.
           Inr (if unitPrice \<ge> cap then AtOrAboveCeiling
                else if unitPrice < price then BelowCurrentPrice
                else GatePassed))), R1))"

datatype MatchReason =
    NotTokenTarget | SlugMismatch | GateClosed GateReason | NoExplicitToken | TokenMismatch
  | TraitsUnmatched | UnsupportedScope | Matched

definition evaluateMarketEvent ::
  "BidderContext \<Rightarrow> Ports \<Rightarrow> metadata option \<Rightarrow> BidderJob \<Rightarrow> MarketEvent
     \<Rightarrow> Registry \<Rightarrow> (event_error + MatchReason) \<times> Registry" where
  "evaluateMarketEvent C P repository job e R =
     (case getUnitPrice e of
        Inl err \<Rightarrow> (Inl err, R)
      | Inr _ \<Rightarrow>
          (case job_target job of
             Token tokenId \<Rightarrow>
               if collectionSlug job \<noteq> event_collectionSlug e then (Inr SlugMismatch, R)
               else (case evaluateCurrentPriceGate C P job e R of
                 (Inl err, R1) \<Rightarrow> (Inl err, R1)
               | (Inr gate, R1) \<Rightarrow>
                   if gate \<noteq> GatePassed then (Inr (GateClosed gate), R1)
                   else (case event_scope e of
                       Scope_Item \<Rightarrow>
                         (Inr (if \<not> hasExplicitTokenId e then NoExplicitToken
                               else if tokenId \<noteq> event_itemId e then TokenMismatch
                               else Matched), R1)
                     | Scope_Trait \<Rightarrow>
                         (bindR (matchesTraitCriteria C repository (collectionSlug job) tokenId
                              (event_traitCriteria e)) (\<lambda>ok. Inr (if ok then Matched else TraitsUnmatched)), R1)
                     | Scope_Collection \<Rightarrow> (Inr Matched, R1)
                     | Scope_Unknown \<Rightarrow> (Inr UnsupportedScope, R1)))
           | _ \<Rightarrow> (Inr NotTokenTarget, R)))"

text \<open>\<open>evaluateHotRefresh\<close>: the candidates in order, each with its verdict.\<close>

fun evaluateJobs ::
  "BidderContext \<Rightarrow> Ports \<Rightarrow> metadata option \<Rightarrow> MarketEvent \<Rightarrow> BidderJob list
     \<Rightarrow> Registry \<Rightarrow> (event_error + (string \<times> MatchReason) list) \<times> Registry" where
  "evaluateJobs C P repository e [] R = (Inr [], R)"
| "evaluateJobs C P repository e (job # jobs) R =
     (case evaluateMarketEvent C P repository job e R of
        (Inl err, R1) \<Rightarrow> (Inl err, R1)
      | (Inr reason, R1) \<Rightarrow>
          (case evaluateJobs C P repository e jobs R1 of
             (Inl err, R2) \<Rightarrow> (Inl err, R2)
           | (Inr rest, R2) \<Rightarrow> (Inr ((jobId job, reason) # rest), R2)))"

definition evaluateHotRefresh ::
  "BidderContext \<Rightarrow> Ports \<Rightarrow> metadata option \<Rightarrow> MarketEvent
     \<Rightarrow> Registry \<Rightarrow> (event_error + (string \<times> MatchReason) list) \<times> Registry" where
  "evaluateHotRefresh C P repository e R =
     evaluateJobs C P repository e (getHotRefreshCandidateJobs e R) R"

text \<open>The ids \<open>refreshMatchingJobs\<close> refreshes.\<close>

definition matchingJobIds :: "(string \<times> MatchReason) list \<Rightarrow> string list" where
  "matchingJobIds evaluations = map fst (filter (\<lambda>p. snd p = Matched) evaluations)"

section \<open>What the indexes describe\<close>

definition ids_at :: "(string \<times> string list) list \<Rightarrow> string \<Rightarrow> string list" where
  "ids_at al slug = (case map_of al slug of None \<Rightarrow> [] | Some ids \<Rightarrow> ids)"

lemma collection_ids_at: "collection_ids R = ids_at (tokenJobIdsByCollection R)"
  by (intro ext) (simp add: collection_ids_def ids_at_def)

text \<open>The indexes \<open>T\<close> and \<open>B\<close> describe the token jobs of \<open>m\<close>.\<close>

definition index_of ::
  "(string \<Rightarrow> BidderJob option) \<Rightarrow> (string \<times> string) list \<Rightarrow> (string \<times> string list) list \<Rightarrow> bool" where
  "index_of m T B \<longleftrightarrow>
     (\<forall>i j. m i = Some j \<longrightarrow> jobId j = i \<and> i \<noteq> []) \<and>
     (\<forall>k i. map_of T k = Some i \<longleftrightarrow> (\<exists>j. m i = Some j \<and> token_key j = Some k)) \<and>
     (\<forall>s i. i \<in> set (ids_at B s) \<longleftrightarrow> (\<exists>j. m i = Some j \<and> token_key j \<noteq> None \<and> collectionSlug j = s)) \<and>
     (\<forall>s ids. map_of B s = Some ids \<longrightarrow> ids \<noteq> [] \<and> distinct ids)"

lemma index_ofD:
  assumes "index_of m T B"
  shows "m i = Some j \<Longrightarrow> jobId j = i" and "m i = Some j \<Longrightarrow> i \<noteq> []"
    and "map_of T k = Some i \<longleftrightarrow> (\<exists>j. m i = Some j \<and> token_key j = Some k)"
    and "i \<in> set (ids_at B s) \<longleftrightarrow> (\<exists>j. m i = Some j \<and> token_key j \<noteq> None \<and> collectionSlug j = s)"
    and "map_of B s = Some ids \<Longrightarrow> ids \<noteq> [] \<and> distinct ids"
  using assms unfolding index_of_def by blast+

lemma ids_at_update: "ids_at (AList.update s ids al) = (ids_at al)(s := ids)"
  by (intro ext) (simp add: ids_at_def update_conv')

lemma ids_at_delete: "ids_at (AList.delete s al) = (ids_at al)(s := [])"
  by (intro ext) (simp add: ids_at_def delete_conv')

lemma distinct_ids_at: "index_of m T B \<Longrightarrow> distinct (ids_at B s)"
  by (cases "map_of B s") (auto simp: ids_at_def dest: index_ofD(5))

lemma index_other:
  assumes inv: "index_of m T B"
    and job: "\<And>j. m i = Some j \<Longrightarrow> token_key j = None"
    and upd: "\<And>j. v = Some j \<Longrightarrow> jobId j = i \<and> i \<noteq> [] \<and> token_key j = None"
  shows "index_of (m(i := v)) T B"
  unfolding index_of_def
proof (intro conjI allI)
  fix k i'
  show "map_of T k = Some i' \<longleftrightarrow> (\<exists>j. (m(i := v)) i' = Some j \<and> token_key j = Some k)"
    using index_ofD(3) [OF inv, of k i'] job upd by (cases "i' = i") auto
next
  fix s i'
  show "i' \<in> set (ids_at B s) \<longleftrightarrow> (\<exists>j. (m(i := v)) i' = Some j \<and> token_key j \<noteq> None \<and> collectionSlug j = s)"
    using index_ofD(4) [OF inv, of i' s] job upd by (cases "i' = i") auto
next
  fix i' j
  show "(m(i := v)) i' = Some j \<longrightarrow> jobId j = i' \<and> i' \<noteq> []"
    using index_ofD(1,2) [OF inv, of i' j] upd [of j] by auto
qed (use index_ofD(5) [OF inv] in blast)

lemma index_cong:
  assumes "index_of m T B" and "map_of T' = map_of T" and "map_of B' = map_of B"
  shows "index_of m T' B'"
proof -
  have ids: "ids_at B' = ids_at B" by (intro ext) (simp only: ids_at_def assms(3))
  show ?thesis using assms(1) unfolding index_of_def ids assms(2,3) .
qed

lemma index_remove:
  assumes inv: "index_of m (tokenJobIdByCollectionToken R) (tokenJobIdsByCollection R)"
    and old: "m i = Some job"
  shows "index_of (m(i := None))
     (tokenJobIdByCollectionToken (removeJobFromIndexes job R))
     (tokenJobIdsByCollection (removeJobFromIndexes job R))"
proof -
  let ?m = m and ?B = "tokenJobIdsByCollection R" and ?T = "tokenJobIdByCollectionToken R"
  have i: "jobId job = i" using index_ofD(1) [OF inv old] .
  show ?thesis
  proof (cases "token_key job")
    case None
    with old have "index_of (?m(i := None)) ?T ?B" by (intro index_other [OF inv]) auto
    with None show ?thesis by (simp add: removeJobFromIndexes_def)
  next
    case (Some k)
    define left where "left = removeAll i (ids_at ?B (collectionSlug job))"
    have "i \<in> set (ids_at ?B (collectionSlug job))" using index_ofD(4) [OF inv] old Some by auto
    then obtain ids where ids: "map_of ?B (collectionSlug job) = Some ids" "left = removeAll i ids"
      by (cases "map_of ?B (collectionSlug job)") (auto simp: ids_at_def left_def)
    have "map_of ?T k = Some i" using index_ofD(3) [OF inv] old Some by auto
    then have R': "tokenJobIdByCollectionToken (removeJobFromIndexes job R) = AList.delete k ?T"
      "tokenJobIdsByCollection (removeJobFromIndexes job R) =
         (if left = [] then AList.delete (collectionSlug job) ?B else AList.update (collectionSlug job) left ?B)"
      using Some ids i by (simp_all add: removeJobFromIndexes_def Let_def)
    have ids': "ids_at (tokenJobIdsByCollection (removeJobFromIndexes job R)) =
        (ids_at ?B)(collectionSlug job := left)"
      by (simp add: R' ids_at_update ids_at_delete)
    show ?thesis
      unfolding index_of_def ids' unfolding R'(1)
    proof (intro conjI allI)
      fix k' i'
      have "map_of ?T k' = Some i' \<and> k' \<noteq> k \<longleftrightarrow> (\<exists>j. ?m i' = Some j \<and> token_key j = Some k') \<and> i' \<noteq> i"
        using index_ofD(3) [OF inv] \<open>map_of ?T k = Some i\<close> old Some by (metis option.inject)
      then show "map_of (AList.delete k ?T) k' = Some i' \<longleftrightarrow>
          (\<exists>j. (?m(i := None)) i' = Some j \<and> token_key j = Some k')"
        by (auto simp: delete_conv')
    next
      fix s i'
      show "i' \<in> set (((ids_at ?B)(collectionSlug job := left)) s) \<longleftrightarrow>
          (\<exists>j. (?m(i := None)) i' = Some j \<and> token_key j \<noteq> None \<and> collectionSlug j = s)"
        using index_ofD(4) [OF inv, of i' s] old by (auto simp: left_def)
    next
      fix s ids
      show "map_of (tokenJobIdsByCollection (removeJobFromIndexes job R)) s = Some ids \<longrightarrow>
          ids \<noteq> [] \<and> distinct ids"
        using index_ofD(5) [OF inv, of s ids] distinct_ids_at [OF inv, of "collectionSlug job"]
        by (auto simp: R' delete_conv' update_conv' left_def distinct_removeAll split: if_splits)
    next
      fix i' j
      show "(?m(i := None)) i' = Some j \<longrightarrow> jobId j = i' \<and> i' \<noteq> []"
        using index_ofD(1,2) [OF inv, of i' j] by auto
    qed
  qed
qed

text \<open>Removing a job that the indexes do not contain leaves what they describe unchanged.\<close>

lemma index_remove_absent:
  assumes inv: "index_of m (tokenJobIdByCollectionToken R) (tokenJobIdsByCollection R)"
    and absent: "m (jobId job) = None"
  shows "index_of m (tokenJobIdByCollectionToken (removeJobFromIndexes job R))
     (tokenJobIdsByCollection (removeJobFromIndexes job R))"
proof (rule index_cong [OF inv])
  let ?B = "tokenJobIdsByCollection R" and ?T = "tokenJobIdByCollectionToken R"
  have "map_of ?T k \<noteq> Some (jobId job)" for k using index_ofD(3) [OF inv] absent by simp
  then show "map_of (tokenJobIdByCollectionToken (removeJobFromIndexes job R)) = map_of ?T"
    by (simp add: removeJobFromIndexes_def Let_def split: option.split)
  have gone: "jobId job \<notin> set ids \<and> ids \<noteq> []" if "map_of ?B (collectionSlug job) = Some ids" for ids
    using that index_ofD(4) [OF inv, of "jobId job" "collectionSlug job"] absent index_ofD(5) [OF inv that]
    by (simp add: ids_at_def)
  show "map_of (tokenJobIdsByCollection (removeJobFromIndexes job R)) = map_of ?B"
  proof (cases "map_of ?B (collectionSlug job)")
    case None
    then show ?thesis by (simp add: removeJobFromIndexes_def Let_def split: option.split)
  next
    case (Some ids)
    with gone [OF Some] have "removeAll (jobId job) ids = ids" "ids \<noteq> []" by simp_all
    with Some show ?thesis
      by (auto simp: removeJobFromIndexes_def Let_def update_conv' fun_upd_idem split: option.split)
  qed
qed

lemma index_add:
  assumes inv: "index_of m (tokenJobIdByCollectionToken R) (tokenJobIdsByCollection R)"
    and new: "m (jobId job) = None" "jobId job \<noteq> []"
    and ok: "addJobToIndexes job R = (Inr (), R')"
  shows "index_of (m(jobId job \<mapsto> job)) (tokenJobIdByCollectionToken R') (tokenJobIdsByCollection R')"
proof -
  let ?B = "tokenJobIdsByCollection R" and ?T = "tokenJobIdByCollectionToken R" and ?i = "jobId job"
  show ?thesis
  proof (cases "token_key job")
    case None
    with new have "index_of (m(?i \<mapsto> job)) ?T ?B" by (intro index_other [OF inv]) auto
    with ok None show ?thesis by (simp add: addJobToIndexes_def)
  next
    case (Some k)
    have fresh: "map_of ?T k = None"
    proof (rule ccontr)
      assume "map_of ?T k \<noteq> None"
      then obtain i where i: "map_of ?T k = Some i" by blast
      with index_ofD(2,3) [OF inv] new have "i \<noteq> []" "i \<noteq> ?i" by (metis option.distinct(1))+
      with ok Some i show False by (simp add: addJobToIndexes_def truthy_def)
    qed
    have "?i \<notin> set (ids_at ?B (collectionSlug job))" using index_ofD(4) [OF inv] new by auto
    with ok Some fresh have R': "tokenJobIdByCollectionToken R' = AList.update k ?i ?T"
      "tokenJobIdsByCollection R' =
         AList.update (collectionSlug job) (ids_at ?B (collectionSlug job) @ [?i]) ?B"
      by (auto simp: addJobToIndexes_def truthy_def collection_ids_at)
    show ?thesis
      unfolding index_of_def R' ids_at_update
    proof (intro conjI allI)
      fix k' i'
      show "map_of (AList.update k ?i ?T) k' = Some i' \<longleftrightarrow>
          (\<exists>j. (m(?i \<mapsto> job)) i' = Some j \<and> token_key j = Some k')"
        using index_ofD(3) [OF inv, of k' i'] index_ofD(3) [OF inv, of k i'] fresh new Some
        by (auto simp: update_conv')
    next
      fix s i'
      show "i' \<in> set (((ids_at ?B)(collectionSlug job := ids_at ?B (collectionSlug job) @ [?i])) s) \<longleftrightarrow>
          (\<exists>j. (m(?i \<mapsto> job)) i' = Some j \<and> token_key j \<noteq> None \<and> collectionSlug j = s)"
        using index_ofD(4) [OF inv, of i' s] new Some by auto
    next
      fix s ids
      show "map_of (AList.update (collectionSlug job) (ids_at ?B (collectionSlug job) @ [?i]) ?B) s = Some ids \<longrightarrow>
          ids \<noteq> [] \<and> distinct ids"
        using index_ofD(5) [OF inv, of s ids] distinct_ids_at [OF inv, of "collectionSlug job"]
          \<open>?i \<notin> set (ids_at ?B (collectionSlug job))\<close> by (auto simp: update_conv')
    next
      fix i' j
      show "(m(?i \<mapsto> job)) i' = Some j \<longrightarrow> jobId j = i' \<and> i' \<noteq> []"
        using index_ofD(1,2) [OF inv, of i' j] new by auto
    qed
  qed
qed


section \<open>Inventory counts\<close>

text \<open>The number of jobs of a target type in a finite map.\<close>

definition count_type :: "TargetType \<Rightarrow> (string \<Rightarrow> BidderJob option) \<Rightarrow> int" where
  "count_type ty m = int (card {i. \<exists>job. m i = Some job \<and> job_type job = ty})"

lemma count_finite: "finite (dom m) \<Longrightarrow> finite {i. \<exists>job. m i = Some job \<and> job_type job = ty}"
  by (erule rev_finite_subset) auto

lemma count_delete:
  assumes "finite (dom m)" and "m i = Some x"
  shows "count_type ty (m(i := None)) = count_type ty m - one_if (job_type x = ty)"
proof -
  have "{k. \<exists>job. (m(i := None)) k = Some job \<and> job_type job = ty} =
      {k. \<exists>job. m k = Some job \<and> job_type job = ty} - {i}" by auto
  then show ?thesis
    using assms count_finite [OF assms(1), of ty] card_gt_0_iff [of "{k. \<exists>job. m k = Some job \<and> job_type job = ty}"]
    by (cases "job_type x = ty") (auto simp: count_type_def card_Diff_singleton of_nat_diff Suc_leI)
qed

lemma count_insert:
  assumes "finite (dom m)" and "m i = None"
  shows "count_type ty (m(i \<mapsto> x)) = count_type ty m + one_if (job_type x = ty)"
proof -
  have "{k. \<exists>job. (m(i \<mapsto> x)) k = Some job \<and> job_type job = ty} =
      (if job_type x = ty then insert i else id) {k. \<exists>job. m k = Some job \<and> job_type job = ty}"
    using assms(2) by (auto split: if_splits)
  then show ?thesis
    using assms count_finite [OF assms(1), of ty] by (simp add: count_type_def)
qed

lemma count_nonneg [simp]: "0 \<le> count_type ty m"
  by (simp add: count_type_def)

lemma count_same_type:
  assumes "m k = Some job" and "job_type job' = job_type job"
  shows "count_type ty (m(k \<mapsto> job')) = count_type ty m"
proof -
  have "{i. \<exists>j. (m(k \<mapsto> job')) i = Some j \<and> job_type j = ty} = {i. \<exists>j. m i = Some j \<and> job_type j = ty}"
    using assms by auto
  then show ?thesis by (simp add: count_type_def)
qed

section \<open>The invariant\<close>

definition overrides_wf :: "Registry \<Rightarrow> bool" where
  "overrides_wf R \<longleftrightarrow>
     (\<forall>k ov. st_overrides R k = Some ov \<longrightarrow> map_of (st_jobs R) k \<noteq> None \<and>
        ov_activationId ov < nextActivationId R \<and> ov_floor ov \<le> ov_ceiling ov)"

text \<open>
  A registration that is rejected as a duplicate leaves its job in \<open>st_jobs\<close>, outside the indexes
  and the counts.  \<open>rejected\<close> holds the ids of these jobs; the others are the ones served by the
  indexes.  Replacing or removing a rejected job decrements a count it was never part of; \<open>lost\<close>
  counts how often that happened.
\<close>

abbreviation served :: "string set \<Rightarrow> Registry \<Rightarrow> string \<Rightarrow> BidderJob option" where
  "served rejected R \<equiv> map_of (st_jobs R) |` (- rejected)"

definition counts_ok :: "nat \<Rightarrow> (string \<Rightarrow> BidderJob option) \<Rightarrow> (TargetType \<Rightarrow> int) \<Rightarrow> bool" where
  "counts_ok lost m c \<longleftrightarrow>
     (\<forall>ty. c ty \<le> count_type ty m \<and> count_type ty m - (if ty = TokenType then int lost else 0) \<le> c ty)"

definition keyed :: "(string \<Rightarrow> BidderJob option) \<Rightarrow> bool" where
  "keyed m \<longleftrightarrow> (\<forall>i job. m i = Some job \<longrightarrow> jobId job = i \<and> i \<noteq> [])"

definition reg_ok :: "string set \<Rightarrow> nat \<Rightarrow> Registry \<Rightarrow> bool" where
  "reg_ok rejected lost R \<longleftrightarrow>
     distinct (map fst (st_jobs R)) \<and> keyed (map_of (st_jobs R)) \<and>
     (\<forall>i \<in> rejected. \<exists>job. map_of (st_jobs R) i = Some job \<and> job_type job = TokenType) \<and>
     index_of (served rejected R) (tokenJobIdByCollectionToken R) (tokenJobIdsByCollection R) \<and>
     counts_ok lost (served rejected R) (jobTargetCounts R) \<and>
     overrides_wf R"

text \<open>The exact state, in which every stored job is indexed and counted.\<close>

definition reg_inv :: "Registry \<Rightarrow> bool" where
  "reg_inv R \<longleftrightarrow>
     distinct (map fst (st_jobs R)) \<and>
     index_of (map_of (st_jobs R)) (tokenJobIdByCollectionToken R) (tokenJobIdsByCollection R) \<and>
     (\<forall>ty. jobTargetCounts R ty = count_type ty (map_of (st_jobs R))) \<and>
     overrides_wf R"

lemma reg_inv_ok: "reg_inv R \<longleftrightarrow> reg_ok {} 0 R"
proof -
  let ?m = "map_of (st_jobs R)"
  have served: "served {} R = ?m" by (simp add: restrict_map_def)
  have "counts_ok 0 ?m (jobTargetCounts R) \<longleftrightarrow> (\<forall>ty. jobTargetCounts R ty = count_type ty ?m)"
    by (auto simp: counts_ok_def intro: order.antisym split: if_splits)
  moreover have "keyed ?m" if "index_of ?m T B" for T B
    using that unfolding index_of_def keyed_def by blast
  ultimately show ?thesis unfolding reg_inv_def reg_ok_def served by blast
qed

lemma reg_okD:
  assumes "reg_ok rejected lost R"
  shows "distinct (map fst (st_jobs R))" "keyed (map_of (st_jobs R))"
    "\<And>i. i \<in> rejected \<Longrightarrow> \<exists>job. map_of (st_jobs R) i = Some job \<and> job_type job = TokenType"
    "index_of (served rejected R) (tokenJobIdByCollectionToken R) (tokenJobIdsByCollection R)"
    "counts_ok lost (served rejected R) (jobTargetCounts R)" "overrides_wf R"
  using assms by (auto simp: reg_ok_def)

lemma counts_okD: "counts_ok lost m c \<Longrightarrow>
    c ty \<le> count_type ty m \<and> count_type ty m - (if ty = TokenType then int lost else 0) \<le> c ty"
  unfolding counts_ok_def by blast

lemma counts_drop:
  assumes "counts_ok lost m c" and "finite (dom m)" and "m i = Some old"
  shows "counts_ok lost (m(i := None)) (c(job_type old := max 0 (c (job_type old) - 1)))"
  unfolding counts_ok_def
proof
  fix ty
  have "1 \<le> count_type (job_type old) m"
    using count_delete [OF assms(2,3), of "job_type old"] count_nonneg [of "job_type old" "m(i := None)"] by simp
  with counts_okD [OF assms(1), of ty]
  show "(c(job_type old := max 0 (c (job_type old) - 1))) ty \<le> count_type ty (m(i := None)) \<and>
      count_type ty (m(i := None)) - (if ty = TokenType then int lost else 0)
        \<le> (c(job_type old := max 0 (c (job_type old) - 1))) ty"
    by (auto simp: count_delete [OF assms(2,3)] split: if_splits)
qed

lemma counts_grow:
  assumes "counts_ok lost m c" and "finite (dom m)" and "m i = None"
  shows "counts_ok lost (m(i \<mapsto> job)) (c(job_type job := max 0 (c (job_type job) + 1)))"
  unfolding counts_ok_def
proof
  fix ty
  show "(c(job_type job := max 0 (c (job_type job) + 1))) ty \<le> count_type ty (m(i \<mapsto> job)) \<and>
      count_type ty (m(i \<mapsto> job)) - (if ty = TokenType then int lost else 0)
        \<le> (c(job_type job := max 0 (c (job_type job) + 1))) ty"
    using counts_okD [OF assms(1), of ty] count_nonneg [of ty m]
    by (auto simp: count_insert [OF assms(2,3)] split: if_splits)
qed

lemma counts_lose:
  assumes "counts_ok lost m c"
  shows "counts_ok (Suc lost) m (c(TokenType := max 0 (c TokenType - 1)))"
  unfolding counts_ok_def
proof
  fix ty
  show "(c(TokenType := max 0 (c TokenType - 1))) ty \<le> count_type ty m \<and>
      count_type ty m - (if ty = TokenType then int (Suc lost) else 0) \<le> (c(TokenType := max 0 (c TokenType - 1))) ty"
    using counts_okD [OF assms, of ty] count_nonneg [of ty m] by (auto split: if_splits)
qed

lemma finite_served: "finite (dom (served rejected R))"
  by (simp add: finite_dom_map_of)

lemma remove_frame [simp]:
  "st_jobs (removeJobFromIndexes job R) = st_jobs R"
  "jobTargetCounts (removeJobFromIndexes job R) = jobTargetCounts R"
  "st_overrides (removeJobFromIndexes job R) = st_overrides R"
  "nextActivationId (removeJobFromIndexes job R) = nextActivationId R"
  by (simp_all add: removeJobFromIndexes_def Let_def split: option.split)

lemma add_frame:
  assumes "addJobToIndexes job R = (r, R')"
  shows "st_jobs R' = st_jobs R" "jobTargetCounts R' = jobTargetCounts R"
    "st_overrides R' = st_overrides R" "nextActivationId R' = nextActivationId R"
  using assms by (auto simp: addJobToIndexes_def Let_def split: option.splits if_splits)

lemma adjust_frame [simp]:
  "st_jobs (adjustJobTargetCount ty d R) = st_jobs R"
  "tokenJobIdByCollectionToken (adjustJobTargetCount ty d R) = tokenJobIdByCollectionToken R"
  "tokenJobIdsByCollection (adjustJobTargetCount ty d R) = tokenJobIdsByCollection R"
  "st_overrides (adjustJobTargetCount ty d R) = st_overrides R"
  "nextActivationId (adjustJobTargetCount ty d R) = nextActivationId R"
  "jobTargetCounts (adjustJobTargetCount ty d R) ty' =
     (if ty' = ty then max 0 (jobTargetCounts R ty + d) else jobTargetCounts R ty')"
  by (simp_all add: adjustJobTargetCount_def)

text \<open>The registry without the job at \<open>i\<close> in its indexes and counts, as replacement and removal leave it.\<close>

definition forgotten :: "string \<Rightarrow> Registry \<Rightarrow> Registry" where
  "forgotten i R = (case map_of (st_jobs R) i of None \<Rightarrow> R
     | Some old \<Rightarrow> adjustJobTargetCount (job_type old) (- 1) (removeJobFromIndexes old R))"

lemma forgotten_frame [simp]:
  "st_jobs (forgotten i R) = st_jobs R" "st_overrides (forgotten i R) = st_overrides R"
  "nextActivationId (forgotten i R) = nextActivationId R"
  by (simp_all add: forgotten_def split: option.split)

abbreviation lose :: "string \<Rightarrow> string set \<Rightarrow> nat \<Rightarrow> nat" where
  "lose i rejected lost \<equiv> (if i \<in> rejected then Suc lost else lost)"

lemma forgotten_index:
  assumes "reg_ok rejected lost R"
  shows "index_of ((served rejected R)(i := None))
     (tokenJobIdByCollectionToken (forgotten i R)) (tokenJobIdsByCollection (forgotten i R))"
proof (cases "map_of (st_jobs R) i")
  case None
  then have "(served rejected R)(i := None) = served rejected R" by (auto simp: restrict_map_def)
  with None reg_okD(4) [OF assms] show ?thesis by (simp add: forgotten_def)
next
  case (Some old)
  show ?thesis
  proof (cases "i \<in> rejected")
    case False
    with Some index_remove [OF reg_okD(4) [OF assms], of i old] show ?thesis by (simp add: forgotten_def)
  next
    case True
    then have "(served rejected R)(i := None) = served rejected R" by (auto simp: restrict_map_def)
    moreover have "jobId old = i" using reg_okD(2) [OF assms] Some by (simp add: keyed_def)
    ultimately show ?thesis
      using True Some index_remove_absent [OF reg_okD(4) [OF assms], of old] by (simp add: forgotten_def)
  qed
qed

lemma forgotten_counts:
  assumes "reg_ok rejected lost R"
  shows "counts_ok (lose i rejected lost) ((served rejected R)(i := None)) (jobTargetCounts (forgotten i R))"
proof (cases "map_of (st_jobs R) i")
  case None
  then have "(served rejected R)(i := None) = served rejected R" by (auto simp: restrict_map_def)
  moreover from None reg_okD(3) [OF assms] have "i \<notin> rejected" by force
  ultimately show ?thesis using None reg_okD(5) [OF assms] by (simp add: forgotten_def)
next
  case (Some old)
  note c = reg_okD(5) [OF assms]
  show ?thesis
  proof (cases "i \<in> rejected")
    case False
    with Some have old: "served rejected R i = Some old" by simp
    have "jobTargetCounts (forgotten i R) =
        (jobTargetCounts R)(job_type old := max 0 (jobTargetCounts R (job_type old) - 1))"
      using Some by (simp add: forgotten_def adjustJobTargetCount_def)
    with counts_drop [OF c finite_served old] False show ?thesis by (simp only: if_False)
  next
    case True
    then have same: "(served rejected R)(i := None) = served rejected R" by (auto simp: restrict_map_def)
    from True Some reg_okD(3) [OF assms] have "job_type old = TokenType" by fastforce
    with counts_lose [OF c] True Some show ?thesis unfolding same
      by (simp add: forgotten_def adjustJobTargetCount_def)
  qed
qed

text \<open>\<open>addJob\<close> in terms of the job that is stored.\<close>

definition merged :: "BidderContext \<Rightarrow> StateField list \<Rightarrow> BidderJob \<Rightarrow> Registry \<Rightarrow> BidderJob" where
  "merged C own job R =
     (case map_of (st_jobs R) (jobId job) of
        None \<Rightarrow> job
      | Some old \<Rightarrow>
          if hasSameTargetIdentity C old job
          then job\<lparr>job_state := spread_state own (job_state old) (job_state job)\<rparr> else job)"

lemma merged_decl [simp]: "decl (merged C own job R) = decl job" "jobId (merged C own job R) = jobId job"
  "job_type (merged C own job R) = job_type job"
  by (simp_all add: merged_def job_type_def split: option.split)

lemma addJob_alt:
  "addJob C own job R =
     (let (r, R3) = addJobToIndexes (merged C own job R)
            ((forgotten (jobId job) R)\<lparr>st_jobs := AList.update (jobId job) (merged C own job R) (st_jobs R)\<rparr>)
      in case r of Inl e \<Rightarrow> (Inl e, R3) | Inr u \<Rightarrow> (Inr (), adjustJobTargetCount (job_type job) 1 R3))"
  by (auto simp: addJob_def merged_def forgotten_def Let_def job_type_def split: option.split sum.split prod.split)

text \<open>A registration stores the merged job in any case.\<close>

lemma addJob_stores:
  assumes "addJob C own job R = (r, R')"
  shows "st_jobs R' = AList.update (jobId job) (merged C own job R) (st_jobs R)"
    "map_of (st_jobs R') = (map_of (st_jobs R))(jobId job \<mapsto> merged C own job R)"
    "st_overrides R' = st_overrides R" "nextActivationId R' = nextActivationId R"
proof -
  obtain r0 R3 where R3: "addJobToIndexes (merged C own job R) ((forgotten (jobId job) R)\<lparr>st_jobs :=
      AList.update (jobId job) (merged C own job R) (st_jobs R)\<rparr>) = (r0, R3)" by fastforce
  with assms have "R' = R3 \<or> R' = adjustJobTargetCount (job_type job) 1 R3"
    by (auto simp: addJob_alt split: sum.splits)
  with add_frame [OF R3]
  show jobs: "st_jobs R' = AList.update (jobId job) (merged C own job R) (st_jobs R)"
    and "st_overrides R' = st_overrides R" "nextActivationId R' = nextActivationId R" by auto
  show "map_of (st_jobs R') = (map_of (st_jobs R))(jobId job \<mapsto> merged C own job R)"
    by (simp add: jobs update_conv')
qed

text \<open>What both outcomes of a registration keep.\<close>

lemma addJob_basics:
  assumes inv: "reg_ok rejected lost R" and add: "addJob C own job R = (r, R')" and id: "jobId job \<noteq> []"
  shows "distinct (map fst (st_jobs R'))" "keyed (map_of (st_jobs R'))" "overrides_wf R'"
  using reg_okD(1,2,6) [OF inv] id
  by (auto simp: addJob_stores [OF add] distinct_update keyed_def overrides_wf_def update_conv')

lemma add_keeps_ok:
  assumes inv: "reg_ok rejected lost R" and ok: "addJob C own job R = (Inr (), R')" and id: "jobId job \<noteq> []"
  shows "reg_ok (rejected - {jobId job}) (lose (jobId job) rejected lost) R'"
proof -
  let ?j = "merged C own job R" and ?i = "jobId job" and ?m = "(served rejected R)(jobId job := None)"
  from ok obtain R3 where R3: "addJobToIndexes ?j ((forgotten ?i R)\<lparr>st_jobs :=
      AList.update ?i ?j (st_jobs R)\<rparr>) = (Inr (), R3)" and R': "R' = adjustJobTargetCount (job_type job) 1 R3"
    by (auto simp: addJob_alt split: prod.splits sum.splits)
  note f = add_frame [OF R3] and stores = addJob_stores [OF ok]
  have served: "served (rejected - {?i}) R' = ?m(?i \<mapsto> ?j)"
    unfolding stores(2) by (auto simp: restrict_map_def)
  have "index_of (?m(jobId ?j \<mapsto> ?j)) (tokenJobIdByCollectionToken R3) (tokenJobIdsByCollection R3)"
    by (rule index_add [OF _ _ _ R3]) (use forgotten_index [OF inv] id in simp_all)
  moreover have "finite (dom ?m)" "?m ?i = None" by (simp_all add: finite_dom_map_of)
  from counts_grow [OF forgotten_counts [OF inv] this, of ?j] f(2)
  have "counts_ok (lose ?i rejected lost) (?m(?i \<mapsto> ?j)) (jobTargetCounts R')"
    by (simp only: R' adjustJobTargetCount_def merged_decl) simp
  moreover have "\<exists>job'. map_of (st_jobs R') i = Some job' \<and> job_type job' = TokenType"
    if "i \<in> rejected - {?i}" for i using that reg_okD(3) [OF inv] stores(2) by simp
  ultimately show ?thesis
    unfolding reg_ok_def served using addJob_basics [OF inv ok id] by (simp add: R')
qed

lemma addJob_rejects:
  assumes "addJob C own job R = (Inl err, R')"
  shows "R' = (forgotten (jobId job) R)\<lparr>st_jobs := AList.update (jobId job) (merged C own job R) (st_jobs R)\<rparr>"
    and "token_key (merged C own job R) \<noteq> None" "job_type job = TokenType"
proof -
  from assms have add: "addJobToIndexes (merged C own job R) ((forgotten (jobId job) R)\<lparr>st_jobs :=
      AList.update (jobId job) (merged C own job R) (st_jobs R)\<rparr>) = (Inl err, R')"
    by (auto simp: addJob_alt split: prod.splits sum.splits)
  then show "R' = (forgotten (jobId job) R)\<lparr>st_jobs := AList.update (jobId job) (merged C own job R) (st_jobs R)\<rparr>"
    and key: "token_key (merged C own job R) \<noteq> None"
    by (auto simp: addJobToIndexes_def Let_def split: option.splits if_splits)
  have "job_type (merged C own job R) = TokenType"
    using key by (auto simp: token_key_def job_type_def split: BidderTarget.splits)
  then show "job_type job = TokenType" by simp
qed

lemma reject_keeps_ok:
  assumes inv: "reg_ok rejected lost R" and add: "addJob C own job R = (Inl err, R')" and id: "jobId job \<noteq> []"
  shows "reg_ok (insert (jobId job) rejected) (lose (jobId job) rejected lost) R'"
proof -
  let ?i = "jobId job"
  note R' = addJob_rejects [OF add] and stores = addJob_stores [OF add]
  have served: "served (insert ?i rejected) R' = (served rejected R)(?i := None)"
    unfolding stores(2) by (auto simp: restrict_map_def)
  have "\<exists>job'. map_of (st_jobs R') i = Some job' \<and> job_type job' = TokenType" if "i \<in> insert ?i rejected" for i
    using that reg_okD(3) [OF inv] stores(2) R'(3) by auto
  moreover have "index_of ((served rejected R)(?i := None)) (tokenJobIdByCollectionToken R') (tokenJobIdsByCollection R')"
    "counts_ok (lose ?i rejected lost) ((served rejected R)(?i := None)) (jobTargetCounts R')"
    using forgotten_index [OF inv, of ?i] forgotten_counts [OF inv, of ?i] by (simp_all add: R'(1))
  ultimately show ?thesis
    unfolding reg_ok_def served using addJob_basics [OF inv add id] by blast
qed

lemma removeJob_lookup:
  assumes "removeJob k R = (old, R')"
  shows "old = map_of (st_jobs R) k \<and> map_of (st_jobs R') = (map_of (st_jobs R))(k := None)"
proof (cases "map_of (st_jobs R) k")
  case None
  then have "(map_of (st_jobs R))(k := None) = map_of (st_jobs R)" by auto
  with None assms show ?thesis by (simp add: removeJob_def)
next
  case (Some job)
  with assms show ?thesis by (auto simp: removeJob_def Let_def clearRuntimeOverride_def delete_conv')
qed

lemma remove_keeps_ok:
  assumes inv: "reg_ok rejected lost R" and rem: "removeJob k R = (old, R')"
  shows "reg_ok (rejected - {k}) (lose k rejected lost) R'"
proof (cases "map_of (st_jobs R) k")
  case None
  moreover from this reg_okD(3) [OF inv] have "k \<notin> rejected" by force
  ultimately show ?thesis using inv rem by (simp add: removeJob_def)
next
  case (Some job)
  have same: "tokenJobIdByCollectionToken (removeJobFromIndexes job (clearRuntimeOverride k R)) =
      tokenJobIdByCollectionToken (removeJobFromIndexes job R)"
    "tokenJobIdsByCollection (removeJobFromIndexes job (clearRuntimeOverride k R)) =
      tokenJobIdsByCollection (removeJobFromIndexes job R)"
    by (simp_all add: removeJobFromIndexes_def clearRuntimeOverride_def Let_def split: option.split)
  moreover have "forgotten k R = adjustJobTargetCount (job_type job) (- 1) (removeJobFromIndexes job R)"
    by (simp add: forgotten_def Some)
  ultimately have R': "st_jobs R' = AList.delete k (st_jobs R)"
    "tokenJobIdByCollectionToken R' = tokenJobIdByCollectionToken (forgotten k R)"
    "tokenJobIdsByCollection R' = tokenJobIdsByCollection (forgotten k R)"
    "jobTargetCounts R' = jobTargetCounts (forgotten k R)"
    "st_overrides R' = (st_overrides R)(k := None)" "nextActivationId R' = nextActivationId R"
    using rem Some
    by (auto simp: removeJob_def Let_def clearRuntimeOverride_def adjustJobTargetCount_def simp del: Some_eq_map_of_iff)
  have served: "served (rejected - {k}) R' = (served rejected R)(k := None)"
    by (auto simp: R'(1) delete_conv' restrict_map_def)
  have "\<exists>job'. map_of (st_jobs R') i = Some job' \<and> job_type job' = TokenType" if "i \<in> rejected - {k}" for i
    using that reg_okD(3) [OF inv] by (simp add: R'(1) delete_conv')
  moreover have "distinct (map fst (st_jobs R'))" "keyed (map_of (st_jobs R'))" "overrides_wf R'"
    using reg_okD(1,2,6) [OF inv]
    by (auto simp: R' distinct_delete keyed_def overrides_wf_def delete_conv' split: if_splits)
  moreover have "index_of ((served rejected R)(k := None)) (tokenJobIdByCollectionToken R') (tokenJobIdsByCollection R')"
    "counts_ok (lose k rejected lost) ((served rejected R)(k := None)) (jobTargetCounts R')"
    using forgotten_index [OF inv, of k] forgotten_counts [OF inv, of k] by (simp_all add: R')
  ultimately show ?thesis unfolding reg_ok_def served by blast
qed


section \<open>Refreshes, activations and expiries keep the invariant\<close>

lemma decl_selectors [simp]:
  "jobId (decl j) = jobId j" "collectionSlug (decl j) = collectionSlug j" "job_target (decl j) = job_target j"
  "token_key (decl j) = token_key j" "job_type (decl j) = job_type j"
  by (simp_all add: decl_def token_key_def job_type_def split: BidderTarget.split)

lemma index_upd_decl:
  assumes inv: "index_of m T B" and old: "m k = Some job" and new: "decl job' = decl job"
  shows "index_of (m(k \<mapsto> job')) T B"
proof -
  have same: "jobId job' = jobId job" "token_key job' = token_key job" "collectionSlug job' = collectionSlug job"
    using arg_cong [OF new, of jobId] arg_cong [OF new, of token_key] arg_cong [OF new, of collectionSlug]
    by simp_all
  show ?thesis
    unfolding index_of_def
  proof (intro conjI allI)
    fix k' i'
    show "map_of T k' = Some i' \<longleftrightarrow> (\<exists>j. (m(k \<mapsto> job')) i' = Some j \<and> token_key j = Some k')"
      using index_ofD(3) [OF inv, of k' i'] old same by auto
  next
    fix s i'
    show "i' \<in> set (ids_at B s) \<longleftrightarrow>
        (\<exists>j. (m(k \<mapsto> job')) i' = Some j \<and> token_key j \<noteq> None \<and> collectionSlug j = s)"
      using index_ofD(4) [OF inv, of i' s] old same by auto
  next
    fix i' j
    show "(m(k \<mapsto> job')) i' = Some j \<longrightarrow> jobId j = i' \<and> i' \<noteq> []"
      using index_ofD(1,2) [OF inv, of i' j] index_ofD(1,2) [OF inv old] same by auto
  qed (use index_ofD(5) [OF inv] in blast)
qed

lemma override_frame:
  fixes R :: Registry
  assumes "getRuntimeOverride P k R = (ov, R')"
  shows "st_jobs R' = st_jobs R" "tokenJobIdByCollectionToken R' = tokenJobIdByCollectionToken R"
    "tokenJobIdsByCollection R' = tokenJobIdsByCollection R" "jobTargetCounts R' = jobTargetCounts R"
    "nextActivationId R' = nextActivationId R"
    "st_overrides R' = st_overrides R \<or> st_overrides R' = (st_overrides R)(k := None)"
  using assms by (auto simp: getRuntimeOverride_def clearRuntimeOverride_def Let_def
      split: option.splits if_splits)

lemma reg_ok_upd_decl:
  assumes inv: "reg_ok rejected lost R" and old: "map_of (st_jobs R) k = Some job" and d: "decl job' = decl job"
    and frame: "st_jobs R' = AList.update k job' (st_jobs R)"
      "tokenJobIdByCollectionToken R' = tokenJobIdByCollectionToken R"
      "tokenJobIdsByCollection R' = tokenJobIdsByCollection R" "jobTargetCounts R' = jobTargetCounts R"
      "nextActivationId R' = nextActivationId R"
    and ov: "\<And>k ov. st_overrides R' k = Some ov \<Longrightarrow> st_overrides R k = Some ov"
  shows "reg_ok rejected lost R'"
proof -
  have ty: "job_type job' = job_type job" "jobId job' = jobId job" using d by (metis decl_selectors(1,5))+
  have lookup: "map_of (st_jobs R') = (map_of (st_jobs R))(k \<mapsto> job')" by (simp add: frame update_conv')
  have "distinct (map fst (st_jobs R'))" "keyed (map_of (st_jobs R'))"
    using reg_okD(1,2) [OF inv] old ty(2) by (auto simp: frame distinct_update keyed_def update_conv')
  moreover have "overrides_wf R'"
    using reg_okD(6) [OF inv] ov frame(5) by (auto simp: overrides_wf_def lookup)
  moreover have "\<exists>j. map_of (st_jobs R') i = Some j \<and> job_type j = TokenType" if "i \<in> rejected" for i
    using reg_okD(3) [OF inv that] old ty(1) by (auto simp: lookup)
  moreover have "index_of (served rejected R') (tokenJobIdByCollectionToken R) (tokenJobIdsByCollection R) \<and>
      counts_ok lost (served rejected R') (jobTargetCounts R)"
  proof (cases "k \<in> rejected")
    case True
    then have "served rejected R' = served rejected R" unfolding lookup by (auto simp: restrict_map_def)
    with reg_okD(4,5) [OF inv] show ?thesis by simp
  next
    case False
    then have served: "served rejected R' = (served rejected R)(k \<mapsto> job')"
      unfolding lookup by (auto simp: restrict_map_def)
    from False old have old': "served rejected R k = Some job" by simp
    have "count_type t ((served rejected R)(k \<mapsto> job')) = count_type t (served rejected R)" for t
      by (rule count_same_type [of _ k job]) (rule old', rule ty(1))
    then have "counts_ok lost (served rejected R') (jobTargetCounts R)"
      using reg_okD(5) [OF inv] by (simp only: counts_ok_def served simp_thms)
    moreover have "index_of (served rejected R') (tokenJobIdByCollectionToken R) (tokenJobIdsByCollection R)"
      unfolding served by (rule index_upd_decl [OF reg_okD(4) [OF inv] old' d])
    ultimately show ?thesis by blast
  qed
  ultimately show ?thesis unfolding reg_ok_def frame(2-4) by blast
qed

text \<open>A refresh replaces one job by one of the same declaration.\<close>

lemma execute_job_decl:
  fixes R :: Registry
  assumes run: "executeJob C P throwOnFailure k R = (r, R')" and "map_of (st_jobs R) k = Some job"
  obtains job' where "decl job' = decl job" "st_jobs R' = AList.update k job' (st_jobs R)"
    "tokenJobIdByCollectionToken R' = tokenJobIdByCollectionToken R"
    "tokenJobIdsByCollection R' = tokenJobIdsByCollection R" "jobTargetCounts R' = jobTargetCounts R"
    "nextActivationId R' = nextActivationId R" "\<And>k ov. st_overrides R' k = Some ov \<Longrightarrow> st_overrides R k = Some ov"
proof -
  obtain ov R1 where ov: "getRuntimeOverride P (jobId job) R = (ov, R1)" by fastforce
  obtain r' x where x: "refreshE C P (st_balance R1) ov throwOnFailure \<lparr>ex_job = job, ex_log = st_log R1\<rparr> = (r', x)"
    by fastforce
  have R': "R' = R1\<lparr>st_jobs := AList.update k (ex_job x) (st_jobs R1), st_log := ex_log x\<rparr>"
    using run assms(2) ov x by (simp add: executeJob_def)
  have d: "decl (ex_job x) = decl job"
    using refreshE_run [OF x] run_actions [of C P "st_balance R1" ov "\<lparr>ex_job = job, ex_log = st_log R1\<rparr>"]
    by fastforce
  show thesis by (rule that [OF d]) (use override_frame [OF ov] in \<open>auto simp: R' split: if_splits\<close>)
qed

lemma execute_keeps_ok:
  fixes R :: Registry
  assumes inv: "reg_ok rejected lost R" and run: "executeJob C P throwOnFailure k R = (r, R')"
  shows "reg_ok rejected lost R'"
proof (cases "map_of (st_jobs R) k")
  case None
  with inv run show ?thesis by (simp add: executeJob_def)
next
  case (Some job)
  from run Some show ?thesis
    by (rule execute_job_decl) (rule reg_ok_upd_decl [OF inv Some], assumption+)
qed

lemma reg_ok_frame:
  assumes "reg_ok rejected lost R" and "st_jobs R' = st_jobs R"
    and "tokenJobIdByCollectionToken R' = tokenJobIdByCollectionToken R"
    and "tokenJobIdsByCollection R' = tokenJobIdsByCollection R" and "jobTargetCounts R' = jobTargetCounts R"
    and "overrides_wf R'"
  shows "reg_ok rejected lost R'"
  using assms by (metis reg_ok_def)

lemma activate_keeps_ok:
  assumes inv: "reg_ok rejected lost R" and act: "activateJob P k options R = (r, R')"
  shows "reg_ok rejected lost R'"
proof (cases "r = Inr True")
  case False
  with act inv show ?thesis by (auto simp: activateJob_def Let_def split: if_splits)
next
  case True
  note wf = reg_okD(6) [OF inv]
  from act True obtain ov where R': "st_jobs R' = st_jobs R" "st_overrides R' = (st_overrides R)(k \<mapsto> ov)"
    "nextActivationId R' = nextActivationId R + 1" "ov_activationId ov = nextActivationId R"
    "ov_floor ov \<le> ov_ceiling ov" "map_of (st_jobs R) k \<noteq> None"
    by (auto simp: activateJob_def clearRuntimeOverride_def Let_def split: if_splits)
  have "overrides_wf R'"
    unfolding overrides_wf_def
  proof (intro allI impI)
    fix k' ov' assume "st_overrides R' k' = Some ov'"
    with R' wf show "map_of (st_jobs R') k' \<noteq> None \<and> ov_activationId ov' < nextActivationId R' \<and>
        ov_floor ov' \<le> ov_ceiling ov'"
      by (cases "k' = k") (fastforce simp: overrides_wf_def)+
  qed
  with act True show ?thesis
    by (intro reg_ok_frame [OF inv])
      (auto simp: activateJob_def clearRuntimeOverride_def Let_def split: if_splits)
qed

lemma expire_keeps_ok:
  assumes inv: "reg_ok rejected lost R" and fire: "overrideExpired k a R = (b, R')"
  shows "reg_ok rejected lost R'"
proof -
  from reg_okD(6) [OF inv] fire have "overrides_wf R'"
    by (auto simp: overrideExpired_def overrides_wf_def clearRuntimeOverride_def
        split: option.splits if_splits)
  with fire show ?thesis
    by (intro reg_ok_frame [OF inv])
      (auto simp: overrideExpired_def clearRuntimeOverride_def split: option.splits if_splits)
qed

lemma override_read_keeps_ok:
  fixes R :: Registry
  assumes inv: "reg_ok rejected lost R" and read: "getRuntimeOverride P k R = (ov, R')"
  shows "reg_ok rejected lost R'"
proof -
  note f = override_frame [OF read]
  have "overrides_wf R'" using reg_okD(6) [OF inv] f(1,5,6) by (auto simp: overrides_wf_def split: if_splits)
  with f show ?thesis by (intro reg_ok_frame [OF inv]) simp_all
qed

text \<open>Evaluating a market event reads overrides, which drops expired ones.\<close>

lemma event_keeps_ok:
  assumes "reg_ok rejected lost R" and "evaluateMarketEvent C P repository job e R = (r, R')"
  shows "reg_ok rejected lost R'"
proof -
  have "R' = R \<or> R' = snd (getRuntimeOverride P (jobId job) R)"
    using assms(2)
    by (auto simp: evaluateMarketEvent_def evaluateCurrentPriceGate_def
        split: sum.splits BidderTarget.splits if_splits option.splits prod.splits Scope.splits)
  with assms(1) override_read_keeps_ok [OF assms(1), of P "jobId job"] show ?thesis by (metis prod.collapse)
qed

lemma evaluation_keeps_ok:
  "reg_ok rejected lost R \<Longrightarrow> evaluateJobs C P repository e jobs R = (r, R') \<Longrightarrow> reg_ok rejected lost R'"
proof (induction jobs arbitrary: R r R')
  case (Cons job jobs)
  obtain v R1 where v: "evaluateMarketEvent C P repository job e R = (v, R1)" by fastforce
  note inv = event_keeps_ok [OF Cons.prems(1) v]
  show ?case
  proof (cases v)
    case (Inl err)
    with Cons.prems(2) v inv show ?thesis by simp
  next
    case (Inr reason)
    obtain w R2 where w: "evaluateJobs C P repository e jobs R1 = (w, R2)" by fastforce
    with Cons.prems(2) v Inr have "R' = R2" by (cases w) simp_all
    with Cons.IH [OF inv w] show ?thesis by simp
  qed
qed simp

lemma cancel_offers_decl:
  assumes "cancelActiveOffersForJob C P s = (r, s')"
  shows "decl (ex_job s') = decl (ex_job s) \<and> (\<not> isl r \<longrightarrow> activeOrderId (job_state (ex_job s')) = None)"
proof -
  obtain c t where c: "cancellationCandidates C P s = (c, t)" by fastforce
  note q = quietD [OF quiet_candidates c]
  show ?thesis
  proof (cases c)
    case (Inl e)
    with assms c q show ?thesis by (auto simp: cancelActiveOffersForJob_def bindE_def)
  next
    case (Inr p)
    then obtain xs tracked where p: "c = Inr (xs, tracked)" by (cases p) simp
    from cancel_after_search [OF assms c [unfolded p]] q show ?thesis by (cases r) simp_all
  qed
qed

lemma cancel_keeps_ok:
  assumes inv: "reg_ok rejected lost R" and job: "map_of (st_jobs R) k = Some job"
    and run: "cancelActiveOffersForJob C P \<lparr>ex_job = job, ex_log = st_log R\<rparr> = (r, x)"
  shows "reg_ok rejected lost (R\<lparr>st_jobs := AList.update k (ex_job x) (st_jobs R), st_log := ex_log x\<rparr>)"
  by (rule reg_ok_upd_decl [OF inv job]) (use cancel_offers_decl [OF run] in simp_all)

text \<open>The same statements when it does not matter which registrations were rejected.\<close>

definition reg_sound :: "Registry \<Rightarrow> bool" where
  "reg_sound R \<longleftrightarrow> (\<exists>rejected lost. reg_ok rejected lost R)"

lemma reg_sound_keyed: "reg_sound R \<Longrightarrow> keyed (map_of (st_jobs R))"
  unfolding reg_sound_def using reg_okD(2) by blast

lemma add_keeps_sound:
  assumes "reg_sound R" and "addJob C own job R = (Inr (), R')" and "jobId job \<noteq> []"
  shows "reg_sound R' \<and> map_of (st_jobs R') = (map_of (st_jobs R))(jobId job \<mapsto> merged C own job R)"
  using assms add_keeps_ok addJob_stores(2) [OF assms(2)] unfolding reg_sound_def by blast

lemma remove_keeps_sound:
  assumes "reg_sound R" and "removeJob k R = (old, R')"
  shows "reg_sound R' \<and> old = map_of (st_jobs R) k \<and> map_of (st_jobs R') = (map_of (st_jobs R))(k := None)"
  using assms remove_keeps_ok removeJob_lookup unfolding reg_sound_def by blast

lemma execute_keeps_sound:
  fixes R :: Registry
  assumes "reg_sound R" and "executeJob C P throwOnFailure k R = (r, R')"
  shows "reg_sound R'"
  using assms execute_keeps_ok unfolding reg_sound_def by blast

lemma reg_sound_frame:
  assumes "reg_sound R" and "st_jobs R' = st_jobs R"
    and "tokenJobIdByCollectionToken R' = tokenJobIdByCollectionToken R"
    and "tokenJobIdsByCollection R' = tokenJobIdsByCollection R" and "jobTargetCounts R' = jobTargetCounts R"
    and "st_overrides R' = st_overrides R" and "nextActivationId R' = nextActivationId R"
  shows "reg_sound R'"
proof -
  from assms(1) obtain rejected lost where ok: "reg_ok rejected lost R" unfolding reg_sound_def by blast
  have "overrides_wf R'" using reg_okD(6) [OF ok] assms by (simp add: overrides_wf_def)
  with reg_ok_frame [OF ok assms(2-5)] show ?thesis unfolding reg_sound_def by blast
qed

lemma reg_sound_upd_decl:
  assumes "reg_sound R" and "map_of (st_jobs R) k = Some job" and "decl job' = decl job"
    and "st_jobs R' = AList.update k job' (st_jobs R)"
      "tokenJobIdByCollectionToken R' = tokenJobIdByCollectionToken R"
      "tokenJobIdsByCollection R' = tokenJobIdsByCollection R" "jobTargetCounts R' = jobTargetCounts R"
      "nextActivationId R' = nextActivationId R" "st_overrides R' = st_overrides R"
  shows "reg_sound R'"
proof -
  from assms(1) obtain rejected lost where ok: "reg_ok rejected lost R" unfolding reg_sound_def by blast
  have "reg_ok rejected lost R'"
    by (rule reg_ok_upd_decl [OF ok assms(2,3)]) (use assms in simp_all)
  then show ?thesis unfolding reg_sound_def by blast
qed

text \<open>
  The states of a bidder, with the ids whose last registration was rejected as a duplicate and the
  number of times such a job was replaced or removed.  Registrations may succeed or be rejected;
  jobs have ids (\<open>parseNonEmptyString\<close>).
\<close>

inductive registered :: "BidderContext \<Rightarrow> Ports \<Rightarrow> string set \<Rightarrow> nat \<Rightarrow> Registry \<Rightarrow> bool" for C P where
  created: "registered C P {} 0 new_registry"
| added: "registered C P rejected lost R \<Longrightarrow> jobId job \<noteq> [] \<Longrightarrow> addJob C own job R = (Inr (), R') \<Longrightarrow>
    registered C P (rejected - {jobId job}) (lose (jobId job) rejected lost) R'"
| refused: "registered C P rejected lost R \<Longrightarrow> jobId job \<noteq> [] \<Longrightarrow> addJob C own job R = (Inl err, R') \<Longrightarrow>
    registered C P (insert (jobId job) rejected) (lose (jobId job) rejected lost) R'"
| removed: "registered C P rejected lost R \<Longrightarrow> removeJob k R = (old, R') \<Longrightarrow>
    registered C P (rejected - {k}) (lose k rejected lost) R'"
| executed: "registered C P rejected lost R \<Longrightarrow> executeJob C P throwOnFailure k R = (r, R') \<Longrightarrow>
    registered C P rejected lost R'"
| cancelled: "registered C P rejected lost R \<Longrightarrow> map_of (st_jobs R) k = Some job \<Longrightarrow>
    cancelActiveOffersForJob C P \<lparr>ex_job = job, ex_log = st_log R\<rparr> = (n, x) \<Longrightarrow>
    registered C P rejected lost (R\<lparr>st_jobs := AList.update k (ex_job x) (st_jobs R), st_log := ex_log x\<rparr>)"
| activated: "registered C P rejected lost R \<Longrightarrow> activateJob P k options R = (b, R') \<Longrightarrow>
    registered C P rejected lost R'"
| expired: "registered C P rejected lost R \<Longrightarrow> overrideExpired k a R = (b, R') \<Longrightarrow>
    registered C P rejected lost R'"
| evaluated: "registered C P rejected lost R \<Longrightarrow> evaluateHotRefresh C P repository e R = (v, R') \<Longrightarrow>
    registered C P rejected lost R'"
| balance_read: "registered C P rejected lost R \<Longrightarrow> registered C P rejected lost (R\<lparr>st_balance := balance\<rparr>)"
| stopped: "registered C P rejected lost R \<Longrightarrow>
    registered C P rejected lost (R\<lparr>acceptingBackgroundRefreshes := False\<rparr>)"

lemma new_registry_ok: "reg_ok {} 0 new_registry"
  by (simp add: reg_ok_def new_registry_def keyed_def counts_ok_def index_of_def overrides_wf_def count_type_def
      ids_at_def)

lemma registered_ok: "registered C P rejected lost R \<Longrightarrow> reg_ok rejected lost R"
proof (induction rule: registered.induct)
  case (evaluated rejected lost R repository e v R')
  then show ?case using evaluation_keeps_ok unfolding evaluateHotRefresh_def by blast
next
  case (balance_read rejected lost R balance)
  then show ?case
    by (intro reg_ok_frame [OF balance_read.IH]) (use reg_okD(6) [OF balance_read.IH] in \<open>simp_all add: overrides_wf_def\<close>)
next
  case (stopped rejected lost R)
  then show ?case
    by (intro reg_ok_frame [OF stopped.IH]) (use reg_okD(6) [OF stopped.IH] in \<open>simp_all add: overrides_wf_def\<close>)
qed (blast intro: new_registry_ok add_keeps_ok reject_keeps_ok remove_keeps_ok execute_keeps_ok cancel_keeps_ok
    activate_keeps_ok expire_keeps_ok)+


section \<open>What the hot path selects\<close>

definition event_covers :: "MarketEvent \<Rightarrow> BidderJob \<Rightarrow> bool" where
  "event_covers e job \<longleftrightarrow>
     (case event_scope e of
        Scope_Item \<Rightarrow> event_itemId e \<noteq> [] \<and>
          token_key job = Some (makeCollectionTokenKey (event_collectionSlug e) (event_itemId e))
      | Scope_Unknown \<Rightarrow> False
      | _ \<Rightarrow> token_key job \<noteq> None \<and> collectionSlug job = event_collectionSlug e)"

lemma set_jobs_of_ids: "set (jobs_of_ids R ids) = {job. \<exists>i\<in>set ids. map_of (st_jobs R) i = Some job}"
  by (force simp: jobs_of_ids_def map_filter_def)

lemma candidates_eq:
  assumes inv: "reg_ok rejected lost R"
  shows "set (getHotRefreshCandidateJobs e R) =
     {job. (\<exists>i. served rejected R i = Some job) \<and> event_covers e job}"
proof -
  note index = reg_okD(4) [OF inv]
  let ?m = "served rejected R"
  have lookup: "map_of (st_jobs R) i = Some job" if "?m i = Some job" for i job
    using that by (simp add: restrict_map_def split: if_splits)
  have broad: "set (jobs_of_ids R (collection_ids R slug)) =
      {job. (\<exists>i. ?m i = Some job) \<and> token_key job \<noteq> None \<and> collectionSlug job = slug}" for slug
  proof -
    have "(\<exists>i \<in> set (ids_at (tokenJobIdsByCollection R) slug). map_of (st_jobs R) i = Some job) \<longleftrightarrow>
        (\<exists>i. ?m i = Some job) \<and> token_key job \<noteq> None \<and> collectionSlug job = slug" for job
      unfolding index_ofD(4) [OF index] Bex_def using lookup by (metis option.inject)
    then show ?thesis unfolding set_jobs_of_ids collection_ids_at by blast
  qed
  show ?thesis
  proof (cases "event_scope e")
    case Scope_Item
    let ?k = "makeCollectionTokenKey (event_collectionSlug e) (event_itemId e)"
    have key: "map_of (tokenJobIdByCollectionToken R) ?k = Some i \<longleftrightarrow>
        (\<exists>j. ?m i = Some j \<and> token_key j = Some ?k)" for i
      by (rule index_ofD(3) [OF index])
    show ?thesis
    proof (cases "map_of (tokenJobIdByCollectionToken R) ?k")
      case None
      with key have "\<not> (\<exists>i j. ?m i = Some j \<and> token_key j = Some ?k)" by simp
      with None Scope_Item show ?thesis
        by (auto simp: getHotRefreshCandidateJobs_def event_covers_def truthy_def)
    next
      case (Some i)
      with key obtain j where j: "?m i = Some j" "token_key j = Some ?k" by blast
      have "x = j" if "?m i' = Some x" "token_key x = Some ?k" for i' x
      proof -
        from that key [of i'] Some have "i' = i" by (metis option.inject)
        with that j show ?thesis by simp
      qed
      then have "{x. (\<exists>i. ?m i = Some x) \<and> token_key x = Some ?k} = {j}"
        using j by blast
      moreover have "getHotRefreshCandidateJobs e R = (if event_itemId e = [] then [] else [j])"
        using Some lookup [OF j(1)] Scope_Item index_ofD(2) [OF index j(1)]
        by (simp add: getHotRefreshCandidateJobs_def hasExplicitTokenId_def truthy_def jobs_of_ids_def
            map_filter_simps)
      ultimately show ?thesis using Scope_Item by (simp add: event_covers_def)
    qed
  qed (use broad in \<open>auto simp: getHotRefreshCandidateJobs_def event_covers_def\<close>)
qed

text \<open>When a job reacts to an event, given the override \<open>ov\<close> in force.\<close>

definition reacts ::
  "BidderContext \<Rightarrow> metadata option \<Rightarrow> MarketEvent \<Rightarrow> int option \<Rightarrow> RuntimeJobOverride option \<Rightarrow> BidderJob \<Rightarrow> bool" where
  "reacts C repository e balance ov job \<longleftrightarrow>
     (\<exists>tokenId price unitPrice cap.
        job_target job = Token tokenId \<and> collectionSlug job = event_collectionSlug e \<and>
        currentPrice (job_state job) = Some price \<and> getUnitPrice e = Inr unitPrice \<and>
        getEffectiveCeiling (ctx_down C) (ctx_up C) balance (configured_ceiling ov job)
          (configured_floor ov job) = Inr cap \<and>
        price \<le> unitPrice \<and> unitPrice < cap \<and>
        (case event_scope e of
           Scope_Item \<Rightarrow> event_itemId e \<noteq> [] \<and> tokenId = event_itemId e
         | Scope_Trait \<Rightarrow>
             (\<exists>getTraits ts. repository = Some getTraits \<and> event_traitCriteria e \<noteq> [] \<and>
                getTraits (collectionSlug job) tokenId = Inr ts \<and> ts \<noteq> [] \<and>
                biddingTraitsMatchToken (ctx_round C) (event_traitCriteria e) ts)
         | Scope_Collection \<Rightarrow> True
         | Scope_Unknown \<Rightarrow> False))"

lemma gate_passed:
  assumes "evaluateCurrentPriceGate C P job e R = (Inr gate, R1)"
  shows "gate = GatePassed \<longleftrightarrow>
     (\<exists>price unitPrice cap. currentPrice (job_state job) = Some price \<and> getUnitPrice e = Inr unitPrice \<and>
        getEffectiveCeiling (ctx_down C) (ctx_up C) (st_balance R)
          (configured_ceiling (fst (getRuntimeOverride P (jobId job) R)) job)
          (configured_floor (fst (getRuntimeOverride P (jobId job) R)) job) = Inr cap \<and>
        price \<le> unitPrice \<and> unitPrice < cap)"
proof (cases "currentPrice (job_state job)")
  case (Some price)
  obtain ov R2 where ov: "getRuntimeOverride P (jobId job) R = (ov, R2)" by fastforce
  have "st_balance R2 = st_balance R" by (rule getRuntimeOverride_facts(3) [OF ov])
  with assms Some ov show ?thesis
    by (auto simp: evaluateCurrentPriceGate_def bindR_Inr_iff split: sum.splits if_splits)
qed (use assms in \<open>auto simp: evaluateCurrentPriceGate_def\<close>)

lemma event_match:
  assumes "evaluateMarketEvent C P repository job e R = (Inr reason, R')"
  shows "reason = Matched \<longleftrightarrow>
     reacts C repository e (st_balance R) (fst (getRuntimeOverride P (jobId job) R)) job"
proof (cases "\<exists>tokenId u. job_target job = Token tokenId \<and> getUnitPrice e = Inr u \<and>
    collectionSlug job = event_collectionSlug e")
  case False
  with assms show ?thesis
    by (auto simp: evaluateMarketEvent_def reacts_def split: sum.splits BidderTarget.splits if_splits)
next
  case True
  then obtain tokenId u where t: "job_target job = Token tokenId" "getUnitPrice e = Inr u"
    "collectionSlug job = event_collectionSlug e" by blast
  with assms obtain gate R1 where gate: "evaluateCurrentPriceGate C P job e R = (Inr gate, R1)"
    by (auto simp: evaluateMarketEvent_def split: prod.splits sum.splits)
  show ?thesis
  proof (cases "gate = GatePassed")
    case False
    with gate_passed [OF gate] t have "\<not> reacts C repository e (st_balance R)
        (fst (getRuntimeOverride P (jobId job) R)) job" by (auto simp: reacts_def)
    with assms t gate False show ?thesis by (auto simp: evaluateMarketEvent_def)
  next
    case True
    have traits: "matchesTraitCriteria C repository slug tok cs = Inr ok \<Longrightarrow> ok \<longleftrightarrow>
        (\<exists>getTraits ts. repository = Some getTraits \<and> cs \<noteq> [] \<and> getTraits slug tok = Inr ts \<and> ts \<noteq> [] \<and>
           biddingTraitsMatchToken (ctx_round C) cs ts)" for slug tok cs ok
      by (auto simp: matchesTraitCriteria_def split: option.splits if_splits sum.splits)
    from gate_passed [OF gate] True t
    have r: "reacts C repository e (st_balance R) (fst (getRuntimeOverride P (jobId job) R)) job \<longleftrightarrow>
       (case event_scope e of
           Scope_Item \<Rightarrow> event_itemId e \<noteq> [] \<and> tokenId = event_itemId e
         | Scope_Trait \<Rightarrow>
             (\<exists>getTraits ts. repository = Some getTraits \<and> event_traitCriteria e \<noteq> [] \<and>
                getTraits (collectionSlug job) tokenId = Inr ts \<and> ts \<noteq> [] \<and>
                biddingTraitsMatchToken (ctx_round C) (event_traitCriteria e) ts)
         | Scope_Collection \<Rightarrow> True
         | Scope_Unknown \<Rightarrow> False)" by (auto simp: reacts_def)
    from assms t gate True show ?thesis
      unfolding r by (cases "event_scope e")
        (auto simp: evaluateMarketEvent_def hasExplicitTokenId_def bindR_Inr_iff dest!: traits split: if_splits)
  qed
qed


lemma override_none:
  "st_overrides R (jobId job) = None \<Longrightarrow> getRuntimeOverride P (jobId job) R = (None, R)"
  by (simp add: getRuntimeOverride_def)

lemma event_no_override:
  assumes "st_overrides R (jobId job) = None"
  shows "snd (evaluateMarketEvent C P repository job e R) = R"
proof -
  have "snd (evaluateCurrentPriceGate C P job e R) = R"
    using override_none [OF assms] by (simp add: evaluateCurrentPriceGate_def split: option.split)
  then show ?thesis
    by (auto simp: evaluateMarketEvent_def split: sum.split BidderTarget.split prod.split Scope.split)
qed

lemma evaluateJobs_verdicts:
  assumes "\<And>k. st_overrides R k = None" and "evaluateJobs C P repository e jobs R = (Inr evs, R')"
  shows "R' = R \<and> map fst evs = map jobId jobs \<and>
     (\<forall>(job, verdict) \<in> set (zip jobs (map snd evs)).
        evaluateMarketEvent C P repository job e R = (Inr verdict, R))"
  using assms(2)
proof (induction jobs arbitrary: evs)
  case (Cons job jobs)
  obtain v R1 where v: "evaluateMarketEvent C P repository job e R = (v, R1)" by fastforce
  with event_no_override [of R job C P repository e] assms(1) have "R1 = R" by simp
  with Cons.prems v obtain reason rest where r: "v = Inr reason" "evs = (jobId job, reason) # rest"
    "evaluateJobs C P repository e jobs R = (Inr rest, R')"
    by (auto split: sum.splits prod.splits)
  with Cons.IH [OF r(3)] v \<open>R1 = R\<close> show ?case by simp
qed simp

section \<open>JSON texts of selectors\<close>

lemma selector_json_prefix_free: "prefix_free selector_json"
proof -
  have "s = t \<and> r = r'" if "selector_json s @ r = selector_json t @ r'" for s t r r'
    using that unfolding selector_json_def
    by (auto simp: json_string_prefix split: option.splits intro!: TraitSelector.equality)
  then show ?thesis by (simp add: prefix_free_def)
qed

lemma extras_json_inj: "extras_json a = extras_json b \<longleftrightarrow> extra_selectors a = extra_selectors b"
proof -
  have "prefix_free (\<lambda>xs. json_array (map selector_json xs))"
    by (rule json_array_prefix_free [OF selector_json_prefix_free]) (simp add: selector_json_def)
  from prefix_free_inj [OF this] show ?thesis by (simp add: extras_json_def)
qed

section \<open>Properties of the registry\<close>

text \<open>
  C20. In every state the bidder reaches by registering jobs (also when \<open>addJob\<close> throws for a
  duplicate after it has stored the job), removing, refreshing, cancelling, activating and expiring
  them, the token index and the per-collection index contain exactly the token jobs whose last
  registration was not rejected, under their keys.  The inventory counts of the other target types
  are the numbers of their jobs; that of token jobs is never above the number of indexed token
  jobs, and below it by at most the number of times a rejected job was replaced or removed.  Every
  runtime override belongs to a registered job, has an id already handed out and a floor not above
  its ceiling.
\<close>

theorem registry_describes_jobs:
  assumes "registered C P rejected lost R"
  shows "(\<forall>key i. map_of (tokenJobIdByCollectionToken R) key = Some i \<longleftrightarrow>
       (\<exists>job. map_of (st_jobs R) i = Some job \<and> i \<notin> rejected \<and> token_key job = Some key)) \<and>
     (\<forall>slug i. i \<in> set (collection_ids R slug) \<longleftrightarrow>
       (\<exists>job. map_of (st_jobs R) i = Some job \<and> i \<notin> rejected \<and> token_key job \<noteq> None \<and>
          collectionSlug job = slug)) \<and>
     (\<forall>ty. let n = int (card {i. \<exists>job. map_of (st_jobs R) i = Some job \<and> i \<notin> rejected \<and> job_type job = ty}) in
        jobTargetCounts R ty \<le> n \<and> n \<le> jobTargetCounts R ty + (if ty = TokenType then int lost else 0)) \<and>
     (\<forall>i \<in> rejected. \<exists>job. map_of (st_jobs R) i = Some job \<and> job_type job = TokenType) \<and>
     (\<forall>k ov. st_overrides R k = Some ov \<longrightarrow> map_of (st_jobs R) k \<noteq> None \<and>
       ov_activationId ov < nextActivationId R \<and> ov_floor ov \<le> ov_ceiling ov)"
proof (intro conjI)
  note inv = registered_ok [OF assms]
  have at: "served rejected R i = Some job \<longleftrightarrow> map_of (st_jobs R) i = Some job \<and> i \<notin> rejected" for i job
    by (simp add: restrict_map_def)
  show "\<forall>key i. map_of (tokenJobIdByCollectionToken R) key = Some i \<longleftrightarrow>
       (\<exists>job. map_of (st_jobs R) i = Some job \<and> i \<notin> rejected \<and> token_key job = Some key)"
    using index_ofD(3) [OF reg_okD(4) [OF inv]] at by blast
  show "\<forall>slug i. i \<in> set (collection_ids R slug) \<longleftrightarrow>
       (\<exists>job. map_of (st_jobs R) i = Some job \<and> i \<notin> rejected \<and> token_key job \<noteq> None \<and> collectionSlug job = slug)"
    using index_ofD(4) [OF reg_okD(4) [OF inv]] at unfolding collection_ids_at by blast
  have "count_type ty (served rejected R) =
      int (card {i. \<exists>job. map_of (st_jobs R) i = Some job \<and> i \<notin> rejected \<and> job_type job = ty})" for ty
    unfolding count_type_def at by meson
  with reg_okD(5) [OF inv]
  show "\<forall>ty. let n = int (card {i. \<exists>job. map_of (st_jobs R) i = Some job \<and> i \<notin> rejected \<and> job_type job = ty}) in
      jobTargetCounts R ty \<le> n \<and> n \<le> jobTargetCounts R ty + (if ty = TokenType then int lost else 0)"
    by (simp only: counts_ok_def Let_def diff_le_eq simp_thms)
  show "\<forall>k ov. st_overrides R k = Some ov \<longrightarrow> map_of (st_jobs R) k \<noteq> None \<and>
       ov_activationId ov < nextActivationId R \<and> ov_floor ov \<le> ov_ceiling ov"
    using reg_okD(6) [OF inv] unfolding overrides_wf_def .
qed (use reg_okD(3) [OF registered_ok [OF assms]] in blast)

text \<open>The selected ids are those of the candidates that react.\<close>

lemma selected_candidates:
  assumes "\<And>k. st_overrides R k = None" and "evaluateJobs C P repository e jobs R = (Inr evaluations, R')"
  shows "i \<in> set (matchingJobIds evaluations) \<longleftrightarrow>
     (\<exists>job\<in>set jobs. jobId job = i \<and> reacts C repository e (st_balance R) None job)"
proof -
  from evaluateJobs_verdicts [OF assms]
  have v: "map fst evaluations = map jobId jobs"
    "\<forall>(job, verdict) \<in> set (zip jobs (map snd evaluations)).
        evaluateMarketEvent C P repository job e R = (Inr verdict, R)" by blast+
  from v(1) have len: "length evaluations = length jobs" by (metis length_map)
  have verdict: "snd (evaluations ! n) = Matched \<longleftrightarrow> reacts C repository e (st_balance R) None (jobs ! n)"
    if "n < length jobs" for n
  proof -
    from that len have "(jobs ! n, snd (evaluations ! n)) \<in> set (zip jobs (map snd evaluations))"
      by (auto simp: in_set_zip)
    with v(2) have "evaluateMarketEvent C P repository (jobs ! n) e R = (Inr (snd (evaluations ! n)), R)" by blast
    from event_match [OF this] show ?thesis by (simp add: getRuntimeOverride_def assms(1))
  qed
  have "i \<in> set (matchingJobIds evaluations) \<longleftrightarrow>
      (\<exists>n<length jobs. fst (evaluations ! n) = i \<and> snd (evaluations ! n) = Matched)"
    by (auto simp: matchingJobIds_def in_set_conv_nth len image_iff) (metis prod.collapse)+
  also have "\<dots> \<longleftrightarrow> (\<exists>n<length jobs. jobId (jobs ! n) = i \<and> reacts C repository e (st_balance R) None (jobs ! n))"
    using verdict v(1) len by (metis nth_map)
  finally show ?thesis by (metis in_set_conv_nth)
qed

text \<open>
  C21. With no override in force, a market event refreshes exactly the jobs that should react: the
  registered token jobs of the event's collection whose price the event meets without reaching the
  effective ceiling, and which it names (item scope), whose cached traits satisfy its criteria
  (trait scope), or all of them (collection scope); but never a job whose last registration was
  rejected as a duplicate, even when it should react.  Evaluating an event changes nothing.
\<close>

theorem hot_refresh_exact:
  assumes "registered C P rejected lost R" and "\<And>k. st_overrides R k = None"
    and "evaluateHotRefresh C P repository e R = (Inr evaluations, R')"
  shows "R' = R \<and> set (matchingJobIds evaluations) =
     {i. \<exists>job. map_of (st_jobs R) i = Some job \<and> i \<notin> rejected \<and> reacts C repository e (st_balance R) None job}"
proof -
  let ?jobs = "getHotRefreshCandidateJobs e R" and ?r = "reacts C repository e (st_balance R) None"
  note inv = registered_ok [OF assms(1)] and run = assms(3) [unfolded evaluateHotRefresh_def]
  have at: "served rejected R i = Some job \<longleftrightarrow> map_of (st_jobs R) i = Some job \<and> i \<notin> rejected" for i job
    by (simp add: restrict_map_def)
  have ids: "served rejected R i = Some job \<Longrightarrow> jobId job = i" for i job
    by (rule index_ofD(1) [OF reg_okD(4) [OF inv]])
  have same: "R' = R" using evaluateJobs_verdicts [OF assms(2) run] by blast
  note sel = selected_candidates [OF assms(2) run]
  have covers: "event_covers e job" if "?r job" for job
    using that by (auto simp: reacts_def event_covers_def token_key_def makeCollectionTokenKey_def
        split: Scope.splits)
  note c = candidates_eq [OF inv, of e]
  have "i \<in> set (matchingJobIds evaluations) \<longleftrightarrow> (\<exists>job. served rejected R i = Some job \<and> ?r job)" for i
  proof
    assume "i \<in> set (matchingJobIds evaluations)"
    then obtain job where job: "job \<in> set ?jobs" "jobId job = i" "?r job"
      using sel by blast
    then obtain i' where "served rejected R i' = Some job" unfolding c by blast
    with ids job show "\<exists>job. served rejected R i = Some job \<and> ?r job" by blast
  next
    assume "\<exists>job. served rejected R i = Some job \<and> ?r job"
    then obtain job where job: "served rejected R i = Some job" "?r job" by blast
    then have "job \<in> set ?jobs" unfolding c using covers by blast
    with job ids show "i \<in> set (matchingJobIds evaluations)" unfolding sel by blast
  qed
  then have "set (matchingJobIds evaluations) = {i. \<exists>job. served rejected R i = Some job \<and> ?r job}" by blast
  with same show ?thesis by (simp only: at conj_assoc)
qed

text \<open>
  Whether one job reacts to an event, with an override in force or not, is decided exactly by
  its target, the price gate and the scope of the event.
\<close>

theorem market_event_match_iff:
  assumes "evaluateMarketEvent C P repository job e R = (Inr reason, R')"
  shows "reason = Matched \<longleftrightarrow>
     reacts C repository e (st_balance R) (fst (getRuntimeOverride P (jobId job) R)) job"
  by (rule event_match [OF assms])

text \<open>
  C38. \<open>addJob\<close> is not atomic: when it rejects a job as a duplicate token job, the job is registered
  all the same and will be scanned, but it is neither indexed nor counted, so the invariant of the
  registry is lost.
\<close>

theorem rejected_duplicate_stays_registered:
  assumes "registered C P rejected lost R" and "addJob C own job R = (Inl err, R')"
  shows "map_of (st_jobs R') (jobId job) = Some (merged C own job R) \<and>
     jobId job \<notin> set (collection_ids R' (collectionSlug job)) \<and> \<not> reg_inv R'"
proof -
  let ?j = "merged C own job R"
  note R' = addJob_rejects [OF assms(2)]
  have stored: "map_of (st_jobs R') (jobId job) = Some ?j" by (simp add: addJob_stores(2) [OF assms(2)])
  have "jobId job \<notin> set (ids_at (tokenJobIdsByCollection (forgotten (jobId job) R)) s)" for s
    using index_ofD(4) [OF forgotten_index [OF registered_ok [OF assms(1)]], of "jobId job" "jobId job" s] by simp
  then have absent: "jobId job \<notin> set (collection_ids R' s)" for s by (simp add: R'(1) collection_ids_at)
  have "collectionSlug ?j = collectionSlug job" by (metis merged_decl(1) decl_selectors(2))
  with stored R'(2) absent have "\<not> reg_inv R'"
    using index_ofD(4) unfolding reg_inv_def collection_ids_at by blast
  with stored absent show ?thesis by blast
qed

text \<open>
  A command is reported as already satisfied only for a registered job that was declared the
  same way: equal revision and limits, the same list of extra competition traits (their JSON texts
  identify them), the same target, and a verified order that the job tracks with its price.
\<close>

theorem satisfied_snapshot_sound:
  assumes "getSatisfiedRuntimeSnapshot C desired R = Some (orderId, price, verifiedAt)"
  shows "\<exists>job. map_of (st_jobs R) (jobId desired) = Some job \<and>
     revision job = revision desired \<and>
     floor_wei (job_config job) = floor_wei (job_config desired) \<and>
     ceiling_wei (job_config job) = ceiling_wei (job_config desired) \<and>
     delta_wei (job_config job) = delta_wei (job_config desired) \<and>
     extra_selectors job = extra_selectors desired \<and>
     hasSameTargetIdentity C job desired \<and>
     activeOrderId (job_state job) = Some orderId \<and> orderId \<noteq> [] \<and>
     currentPrice (job_state job) = Some price \<and>
     activeOrderVerifiedAt (job_state job) = Some verifiedAt"
  using assms
  by (auto simp: getSatisfiedRuntimeSnapshot_def hasSameSatisfiedDeclaration_def extras_json_inj
      truthy_def Let_def split: option.splits if_splits)

text \<open>
  The expiry timer of an earlier activation never ends a later one: after a successful
  activation only the timer carrying the new activation id clears the override.
\<close>

theorem stale_expiry_is_ignored:
  assumes "activateJob P k options R = (Inr True, R1)" and "activationId \<noteq> nextActivationId R"
  shows "overrideExpired k activationId R1 = (False, R1) \<and>
     fst (overrideExpired k (nextActivationId R) R1)"
  using assms by (auto simp: activateJob_def overrideExpired_def clearRuntimeOverride_def Let_def
      split: if_splits)

end
