(* ===== verification/Bidder_Samples.thy ===== *)
theory Bidder_Samples
  imports Bidder_Execute
begin

text \<open>
  Runs of the bidder on concrete jobs and ports.  The marketplace shows one offer of the maker and
  one competing offer; placements are accepted or refused.
\<close>

section \<open>Samples\<close>

definition bid_wei :: int where
  "bid_wei = 100000000000000"

definition bid_job :: BidderJob where
  "bid_job = \<lparr>jobId = ''job'', revision = 1, collectionId = 7, collectionAddress = ''0xb'',
     collectionSlug = ''terraforms'', job_target = Collection (Fin 2) None,
     job_config = \<lparr>ceiling_wei = 90 * bid_wei, floor_wei = 10 * bid_wei, delta_wei = bid_wei,
       extraCompetitionTraits = None\<rparr>,
     job_state = empty_state\<rparr>"

definition bid_offer :: "string \<Rightarrow> string \<Rightarrow> int \<Rightarrow> Order" where
  "bid_offer i maker price = \<lparr>order_id = i, order_price = price, order_maker = maker,
     order_protocolAddress = None, order_placedAt = None, order_expirationTime = Some (Fin 1000000),
     order_rawOrder = JUndefined, order_offerScope = Some CollectionScope\<rparr>"

definition bid_own :: Order where
  "bid_own = bid_offer ''own'' ''0xA'' (12 * bid_wei)"

definition bid_rival :: Order where
  "bid_rival = bid_offer ''rival'' ''0xc'' (20 * bid_wei)"

definition bid_context :: BidderContext where
  "bid_context = \<lparr>ctx_makerAddress = ''0xa'', ctx_scanSleepMs = 1000, ctx_dryRun = False,
     ctx_hasRuntimePort = False, ctx_down = roundOpenSeaOfferPriceDown,
     ctx_up = roundOpenSeaOfferPriceUp, ctx_round = Fin, ctx_lc = (\<le>),
     ctx_numberText = fraction_text\<rparr>"

definition bid_ports :: "string + Placement \<Rightarrow> string + unit \<Rightarrow> Ports" where
  "bid_ports placed cancelled = \<lparr>
     port_offers = (\<lambda>_. Inr [bid_own, bid_rival]),
     port_order = (\<lambda>_. Inr InactiveOrMissing), port_place = (\<lambda>_. placed),
     port_cancel = (\<lambda>_. cancelled), port_persist = (\<lambda>_. Inr ()), port_record = (\<lambda>_. Inr ()),
     port_now = (\<lambda>_. 0), port_iso = (\<lambda>_. ''now''), port_message = (\<lambda>_. ''failed'')\<rparr>"

definition bid_placement :: Placement where
  "bid_placement = \<lparr>placed_orderHash = ''new'', placed_protocolAddress = ''0xp'',
     placed_placedAt = ''now'', placed_expirationTime = None\<rparr>"

definition bid_store :: Store where
  "bid_store = \<lparr>st_jobs = [(''job'', bid_job)],
     st_overrides = (\<lambda>_. None), st_balance = Some (50 * bid_wei), st_log = []\<rparr>"

definition accepting :: Ports where "accepting = bid_ports (Inr bid_placement) (Inr ())"

definition refusing :: Ports where "refusing = bid_ports (Inl ''refused'') (Inl ''refused'')"

definition bid_run :: "Ports \<Rightarrow> bool \<Rightarrow> (bidder_error + unit) \<times> Store" where
  "bid_run P throwing = executeJob bid_context P throwing ''job'' bid_store"


lemma bid_store_job: "map_of (st_jobs bid_store) ''job'' = Some bid_job"
  by (simp add: bid_store_def)

lemma bid_store_log: "st_log bid_store = []" "st_balance bid_store = Some (50 * bid_wei)"
  by (simp_all add: bid_store_def)

lemma bid_context_rounding: "ctx_down bid_context = roundOpenSeaOfferPriceDown"
  "ctx_up bid_context = roundOpenSeaOfferPriceUp" "\<not> ctx_dryRun bid_context"
  by (simp_all add: bid_context_def)

lemma accepted_run: "executeJob bid_context accepting True ''job'' bid_store = (Inr (), snd (bid_run accepting True))"
proof -
  have "fst (bid_run accepting True) = Inr ()" by code_simp
  then show ?thesis by (simp add: bid_run_def prod_eq_iff)
qed

lemma accepted_actions:
  "actions (st_log (snd (bid_run accepting True))) = [Place bid_job (21 * bid_wei), Cancel bid_job bid_own]"
  by code_simp

lemma refused_run: "executeJob bid_context refusing False ''job'' bid_store =
    (fst (bid_run refusing False), snd (bid_run refusing False))"
  by (simp add: bid_run_def)

lemma refused_actions:
  "actions (st_log (snd (bid_run refusing False))) = [Place bid_job (21 * bid_wei)]"
  by code_simp

section \<open>Witnesses\<close>

theorem placements_within_limits_witness:
  "actions (st_log (snd (bid_run accepting True))) = [Place bid_job (21 * bid_wei), Cancel bid_job bid_own] \<and>
   open_sea_grid (21 * bid_wei) \<and> 21 * bid_wei \<le> 50 * bid_wei"
proof -
  from placements_within_limits [OF accepted_run bid_store_job bid_context_rounding(1,2)] accepted_actions
  show ?thesis by (auto simp: bid_store_log)
qed

theorem refresh_places_then_cancels_own_witness:
  "actions (st_log (snd (bid_run accepting True))) = [Place bid_job (21 * bid_wei), Cancel bid_job bid_own] \<and>
   isMakerOffer bid_context bid_own \<and> isOfferManagedByJob bid_context bid_job bid_own = Inr True"
proof -
  from refresh_places_then_cancels_own [OF accepted_run bid_store_job] accepted_actions
  show ?thesis by (auto simp: bid_store_log)
qed

theorem completed_refresh_leaves_one_bid_witness:
  "\<exists>v. evaluate bid_context (Some (50 * bid_wei)) None bid_job [bid_own, bid_rival] = Inr v \<and>
     ev_myOffers v = [bid_own] \<and> ev_desired v = 21 * bid_wei \<and>
     actions (st_log (snd (bid_run accepting True))) = [Place bid_job (21 * bid_wei), Cancel bid_job bid_own]"
proof -
  from completed_refresh_leaves_one_bid [OF accepted_run bid_store_job bid_context_rounding(3)]
  obtain as offers v where
    as: "actions (st_log (snd (bid_run accepting True))) = as"
    and found: "market_view accepting bid_job [] offers"
    and v: "evaluate bid_context (Some (50 * bid_wei)) None bid_job offers = Inr v"
    and mine: "mset (ev_myOffers v) = mset (filter (\<lambda>x. isMakerOffer bid_context x \<and>
        isOfferManagedByJob bid_context bid_job x = Inr True) offers)"
    and shape: "if ev_desired v \<le> 0 then as = map (Cancel (decl bid_job)) (ev_myOffers v)
      else as = Place (decl bid_job) (ev_desired v) # map (Cancel (decl bid_job)) (ev_myOffers v) \<or>
        (\<exists>m \<in> set (ev_myOffers v). order_price m = ev_desired v \<and>
           as = map (Cancel (decl bid_job))
             (filter (\<lambda>x. order_id m = [] \<or> order_id x \<noteq> order_id m) (ev_myOffers v)))"
    by (auto simp: getRuntimeOverride_def bid_store_def)
  from found have offers: "offers = [bid_own, bid_rival]"
    by (simp add: market_view_def accepting_def bid_ports_def bid_job_def empty_state_def)
  have "filter (\<lambda>x. isMakerOffer bid_context x \<and> isOfferManagedByJob bid_context bid_job x = Inr True)
      [bid_own, bid_rival] = [bid_own]" by code_simp
  with mine offers have my: "ev_myOffers v = [bid_own]" by simp
  with shape as accepted_actions have "ev_desired v = 21 * bid_wei" by (auto split: if_splits)
  with v offers my accepted_actions show ?thesis by blast
qed

theorem rejected_placement_keeps_bids_witness:
  "actions (st_log (snd (bid_run refusing False))) = [Place bid_job (21 * bid_wei)]"
proof -
  have "isl (port_place refusing l)" for l by (simp add: refusing_def bid_ports_def)
  from rejected_placement_keeps_bids [OF refused_run bid_store_job this]
  obtain as where as: "actions (st_log (snd (bid_run refusing False))) = actions (st_log bid_store) @ as"
    and alone: "\<forall>j amount. Place j amount \<in> set as \<longrightarrow> as = [Place j amount]" by blast
  from as have "actions (st_log (snd (bid_run refusing False))) = as" by (simp add: bid_store_log)
  moreover from this refused_actions have "Place bid_job (21 * bid_wei) \<in> set as" by auto
  then have "as = [Place bid_job (21 * bid_wei)]" by (rule alone [rule_format])
  ultimately show ?thesis by (rule trans)
qed

theorem background_refresh_contains_failures_witness:
  "fst (bid_run refusing False) = Inr () \<and>
   activeOrderId (job_state (the (map_of (st_jobs (snd (bid_run refusing False))) ''job''))) = None"
proof -
  have "activeOrderId (job_state (the (map_of (st_jobs (snd (bid_run refusing False))) ''job''))) = None"
    by code_simp
  with conjunct1 [OF background_refresh_contains_failures [OF refused_run]] show ?thesis by simp
qed

definition tracked_exec :: Exec where
  "tracked_exec = \<lparr>ex_job = bid_job\<lparr>job_state := empty_state\<lparr>activeOrderId := Some ''own''\<rparr>\<rparr>, ex_log = []\<rparr>"

theorem cancelled_job_is_clean_witness:
  "fst (cancelActiveOffersForJob bid_context accepting tracked_exec) = Inr 1 \<and>
   actions (ex_log (snd (cancelActiveOffersForJob bid_context accepting tracked_exec))) = [Cancel bid_job bid_own] \<and>
   activeOrderId (job_state (ex_job (snd (cancelActiveOffersForJob bid_context accepting tracked_exec)))) = None"
proof -
  let ?p = "\<lambda>x. isMakerOffer bid_context x \<and> (isOfferManagedByJob bid_context (ex_job tracked_exec) x = Inr True \<or>
      Some (order_id x) = activeOrderId (job_state (ex_job tracked_exec)))"
  have run: "fst (cancelActiveOffersForJob bid_context accepting tracked_exec) = Inr 1" by code_simp
  then have "cancelActiveOffersForJob bid_context accepting tracked_exec =
      (Inr 1, snd (cancelActiveOffersForJob bid_context accepting tracked_exec))" by (simp add: prod_eq_iff)
  from cancelled_job_is_clean [OF this] obtain offers where
    offers: "market_view accepting (ex_job tracked_exec) (ex_log tracked_exec) offers"
    and acts: "actions (ex_log (snd (cancelActiveOffersForJob bid_context accepting tracked_exec))) =
      actions (ex_log tracked_exec) @
        (if ctx_dryRun bid_context then [] else map (Cancel (decl (ex_job tracked_exec))) (filter ?p offers))"
    and clear: "activeOrderId (job_state (ex_job (snd (cancelActiveOffersForJob bid_context accepting tracked_exec)))) = None"
    by blast
  from offers have "offers = [bid_own, bid_rival]"
    by (simp add: market_view_def accepting_def bid_ports_def tracked_exec_def bid_own_def bid_offer_def split: if_splits)
  moreover have "filter ?p [bid_own, bid_rival] = [bid_own]" by code_simp
  moreover have "decl (ex_job tracked_exec) = bid_job" "actions (ex_log tracked_exec) = []" by code_simp+
  ultimately show ?thesis using run acts clear bid_context_rounding(3) by simp
qed

theorem failed_cancellation_keeps_tracking_witness:
  "fst (cancelActiveOffersForJob bid_context refusing tracked_exec) = Inl (ServiceFailed ''refused'') \<and>
   activeOrderId (job_state (ex_job (snd (cancelActiveOffersForJob bid_context refusing tracked_exec)))) =
     Some ''own''"
proof -
  have "fst (cancelActiveOffersForJob bid_context refusing tracked_exec) = Inl (ServiceFailed ''refused'')"
    by code_simp
  with failed_cancellation_keeps_tracking [of bid_context refusing tracked_exec "ServiceFailed ''refused''"
      "snd (cancelActiveOffersForJob bid_context refusing tracked_exec)"]
  show ?thesis by (auto simp: prod_eq_iff tracked_exec_def)
qed

end
