(* ===== verification/Registry_Samples.thy ===== *)
theory Registry_Samples
  imports Bidder_Registry Bidder_Samples
begin

text \<open>A registry with one token job, and the runs on it that show the registry theorems apply.\<close>

definition token_job :: "string \<Rightarrow> BidderJob" where
  "token_job i = bid_job\<lparr>jobId := i, job_target := Token ''42'',
     job_state := empty_state\<lparr>activeOrderId := Some ''own'', currentPrice := Some (12 * bid_wei),
       activeOrderVerifiedAt := Some ''now''\<rparr>\<rparr>"

definition one_job :: Registry where
  "one_job = snd (addJob bid_context [] (token_job ''a'') new_registry)"

lemma one_job_add: "addJob bid_context [] (token_job ''a'') new_registry = (Inr (), one_job)"
  unfolding one_job_def by (simp add: addJob_def addJobToIndexes_def token_key_def token_job_def new_registry_def
      truthy_def)

lemma one_job_registered: "registered bid_context accepting {} 0 one_job"
  using registered.added [OF registered.created _ one_job_add, of accepting] by (simp add: token_job_def)

lemma one_job_state: "map_of (st_jobs one_job) ''a'' = Some (token_job ''a'')" "st_balance one_job = None"
  "\<And>k. st_overrides one_job k = None" "nextActivationId one_job = 1"
  by (simp_all add: one_job_def addJob_def addJobToIndexes_def token_key_def token_job_def new_registry_def
      truthy_def adjustJobTargetCount_def)

definition item_event :: MarketEvent where
  "item_event = \<lparr>event_collectionSlug = ''terraforms'', event_itemId = ''42'', event_quantity = Fin 1,
     event_totalPrice = 13 * bid_wei, event_scope = Scope_Item, event_traitCriteria = []\<rparr>"

text \<open>A second job for the same token, which is rejected after it was stored.\<close>

definition two_jobs :: Registry where
  "two_jobs = snd (addJob bid_context [] (token_job ''b'') one_job)"

lemma second_add:
  "\<exists>err. addJob bid_context [] (token_job ''b'') one_job = (Inl err, two_jobs) \<and>
     merged bid_context [] (token_job ''b'') one_job = token_job ''b''"
  unfolding two_jobs_def
  by (simp add: one_job_def addJob_def addJobToIndexes_def token_key_def token_job_def new_registry_def
      truthy_def adjustJobTargetCount_def merged_def Let_def bid_job_def)

lemma two_jobs_registered: "registered bid_context accepting {''b''} 0 two_jobs"
proof -
  obtain err where "addJob bid_context [] (token_job ''b'') one_job = (Inl err, two_jobs)" using second_add by blast
  from registered.refused [OF one_job_registered _ this] show ?thesis by (simp add: token_job_def)
qed

lemma two_jobs_state: "map_of (st_jobs two_jobs) ''a'' = Some (token_job ''a'')"
  "map_of (st_jobs two_jobs) ''b'' = Some (token_job ''b'')" "st_balance two_jobs = None"
  "\<And>k. st_overrides two_jobs k = None"
  by (simp_all add: two_jobs_def one_job_def addJob_def addJobToIndexes_def token_key_def token_job_def new_registry_def
      truthy_def adjustJobTargetCount_def Let_def bid_job_def)

theorem registry_describes_jobs_witness:
  "map_of (st_jobs two_jobs) ''b'' = Some (token_job ''b'') \<and>
   map_of (tokenJobIdByCollectionToken two_jobs) ''terraforms:42'' = Some ''a'' \<and>
   ''b'' \<notin> set (collection_ids two_jobs ''terraforms'') \<and> jobTargetCounts two_jobs CollectionType \<le> 0"
proof -
  have key: "token_key (token_job ''a'') = Some ''terraforms:42''"
    by (simp add: token_key_def token_job_def makeCollectionTokenKey_def bid_job_def)
  note r = registry_describes_jobs [OF two_jobs_registered]
  have "map_of (tokenJobIdByCollectionToken two_jobs) ''terraforms:42'' = Some ''a''"
    using r key two_jobs_state(1) by blast
  moreover have "''b'' \<notin> set (collection_ids two_jobs ''terraforms'')" using r by blast
  moreover have "{i. \<exists>job. map_of (st_jobs two_jobs) i = Some job \<and> i \<notin> {''b''} \<and> job_type job = CollectionType} = {}"
    by (auto simp: two_jobs_def one_job_def addJob_def addJobToIndexes_def token_key_def token_job_def new_registry_def
        truthy_def adjustJobTargetCount_def Let_def bid_job_def job_type_def split: if_splits)
  then have "jobTargetCounts two_jobs CollectionType \<le> 0"
    using conjunct1 [OF conjunct2 [OF conjunct2 [OF r]], THEN spec, of CollectionType]
    by (simp only: Let_def card.empty of_nat_0)
  ultimately show ?thesis using two_jobs_state(2) by blast
qed

lemma item_event_run:
  "evaluateHotRefresh bid_context accepting None item_event two_jobs = (Inr [(''a'', Matched)], two_jobs)"
proof -
  have "fst (evaluateHotRefresh bid_context accepting None item_event two_jobs) = Inr [(''a'', Matched)]"
    by code_simp
  moreover have "snd (evaluateHotRefresh bid_context accepting None item_event two_jobs) = two_jobs"
  proof -
    obtain r R' where r: "evaluateHotRefresh bid_context accepting None item_event two_jobs = (r, R')" by fastforce
    with calculation have "r = Inr [(''a'', Matched)]" by simp
    with r evaluateJobs_verdicts [OF two_jobs_state(4), of bid_context accepting None item_event]
    show ?thesis by (auto simp: evaluateHotRefresh_def)
  qed
  ultimately show ?thesis by (simp add: prod_eq_iff)
qed

theorem hot_refresh_exact_witness:
  "{i. \<exists>job. map_of (st_jobs two_jobs) i = Some job \<and> i \<notin> {''b''} \<and>
     reacts bid_context None item_event None None job} = {''a''}"
  using hot_refresh_exact [OF two_jobs_registered two_jobs_state(4) item_event_run]
  by (simp add: matchingJobIds_def two_jobs_state(3))

theorem market_event_match_iff_witness:
  "reacts bid_context None item_event None None (token_job ''a'')"
proof -
  have "fst (evaluateMarketEvent bid_context accepting None (token_job ''a'') item_event one_job) = Inr Matched"
    by code_simp
  then obtain R' where "evaluateMarketEvent bid_context accepting None (token_job ''a'') item_event one_job =
      (Inr Matched, R')" by (metis prod.collapse)
  from market_event_match_iff [OF this] show ?thesis
    by (simp add: getRuntimeOverride_def one_job_state)
qed

theorem rejected_duplicate_stays_registered_witness:
  "\<exists>err R'. addJob bid_context [] (token_job ''b'') one_job = (Inl err, R') \<and>
     map_of (st_jobs R') ''b'' = Some (token_job ''b'') \<and> \<not> reg_inv R'"
proof -
  have "jobId (token_job ''b'') = ''b''" by (simp add: token_job_def)
  with second_add rejected_duplicate_stays_registered [OF one_job_registered] show ?thesis by metis
qed

theorem satisfied_snapshot_sound_witness:
  "getSatisfiedRuntimeSnapshot bid_context (token_job ''a'') one_job = Some (''own'', 12 * bid_wei, ''now'') \<and>
   (\<exists>job. map_of (st_jobs one_job) ''a'' = Some job \<and> activeOrderId (job_state job) = Some ''own'')"
proof -
  have run: "getSatisfiedRuntimeSnapshot bid_context (token_job ''a'') one_job = Some (''own'', 12 * bid_wei, ''now'')"
    by code_simp
  moreover have "jobId (token_job ''a'') = ''a''" by (simp add: token_job_def)
  ultimately show ?thesis using satisfied_snapshot_sound [OF run] by auto
qed

definition sample_activation :: BidderActivationOptions where
  "sample_activation = \<lparr>act_floor = 10, act_ceiling = 20, act_ttlMs = Fin 1000\<rparr>"

theorem stale_expiry_is_ignored_witness:
  "fst (activateJob accepting ''a'' sample_activation one_job) = Inr True \<and>
   \<not> fst (overrideExpired ''a'' 0 (snd (activateJob accepting ''a'' sample_activation one_job)))"
proof -
  have "fst (activateJob accepting ''a'' sample_activation one_job) = Inr True" by code_simp
  then have "activateJob accepting ''a'' sample_activation one_job =
      (Inr True, snd (activateJob accepting ''a'' sample_activation one_job))" by (simp add: prod_eq_iff)
  from stale_expiry_is_ignored [OF this, of 0] \<open>fst _ = _\<close> show ?thesis by (simp add: one_job_state)
qed

end
