(* ===== verification/Rate_Limiter.thy ===== *)
theory Rate_Limiter
  imports Prelude
begin

text \<open>
  The token bucket in front of the OpenSea API
  (\<^verbatim>\<open>trading/src/adapters/support/token-bucket-rate-limiter.ts\<close>): two buckets refilled over
  time, immediate admission, and a priority queue drained by one timer.

  The numbers are finite doubles, hence rationals; \<open>fl\<close> is the rounding of the host after each
  arithmetic operation and a parameter of every operation that computes.  Reads of the clock are
  arguments in the order the code makes them.  Telemetry callbacks are left out.
\<close>

section \<open>State\<close>

record PendingRateLimitRequest =
  req_getCost :: rat
  req_postCost :: rat
  req_priority :: int
  req_sequence :: int
  req_requestedAt :: int

record TokenBucketRateLimiterConfig =
  cfg_getMax :: rat
  cfg_getRefillPerSecond :: rat
  cfg_postMax :: rat
  cfg_postRefillPerSecond :: rat

text \<open>The drain timer is its due time; \<open>None\<close> when none is set.\<close>

record TokenBucketRateLimiter =
  getMax :: rat
  postMax :: rat
  getRefillPerMs :: rat
  postRefillPerMs :: rat
  getTokens :: rat
  postTokens :: rat
  lastRefillAt :: int
  pendingRequests :: "PendingRateLimitRequest list"
  nextSequence :: int
  drainTimerAt :: "int option"

section \<open>Operations\<close>

definition new_limiter :: "(rat \<Rightarrow> rat) \<Rightarrow> TokenBucketRateLimiterConfig \<Rightarrow> int \<Rightarrow> TokenBucketRateLimiter" where
  "new_limiter fl config now =
     \<lparr>getMax = max 1 (cfg_getMax config), postMax = max 1 (cfg_postMax config),
      getRefillPerMs = fl (max 0 (cfg_getRefillPerSecond config) / 1000),
      postRefillPerMs = fl (max 0 (cfg_postRefillPerSecond config) / 1000),
      getTokens = max 1 (cfg_getMax config), postTokens = max 1 (cfg_postMax config),
      lastRefillAt = now, pendingRequests = [], nextSequence = 1, drainTimerAt = None\<rparr>"

definition refill :: "(rat \<Rightarrow> rat) \<Rightarrow> int \<Rightarrow> TokenBucketRateLimiter \<Rightarrow> TokenBucketRateLimiter" where
  "refill fl now L =
     (let deltaMs = now - lastRefillAt L in
      if deltaMs \<le> 0 then L
      else L\<lparr>
        getTokens := min (getMax L) (fl (getTokens L + fl (of_int deltaMs * getRefillPerMs L))),
        postTokens := min (postMax L) (fl (postTokens L + fl (of_int deltaMs * postRefillPerMs L))),
        lastRefillAt := now\<rparr>)"

definition canSatisfy :: "rat \<Rightarrow> rat \<Rightarrow> TokenBucketRateLimiter \<Rightarrow> bool" where
  "canSatisfy getCost postCost L \<longleftrightarrow> getTokens L \<ge> getCost \<and> postTokens L \<ge> postCost"

definition consume :: "(rat \<Rightarrow> rat) \<Rightarrow> rat \<Rightarrow> rat \<Rightarrow> TokenBucketRateLimiter \<Rightarrow> TokenBucketRateLimiter" where
  "consume fl getCost postCost L =
     L\<lparr>getTokens := fl (getTokens L - getCost), postTokens := fl (postTokens L - postCost)\<rparr>"

definition scheduleDrain :: "rat \<Rightarrow> int \<Rightarrow> TokenBucketRateLimiter \<Rightarrow> TokenBucketRateLimiter" where
  "scheduleDrain delayMs now L =
     (let runAt = now + max 0 \<lceil>delayMs\<rceil> in
      case drainTimerAt L of
        Some due \<Rightarrow> if due \<le> runAt then L else L\<lparr>drainTimerAt := Some runAt\<rparr>
      | None \<Rightarrow> L\<lparr>drainTimerAt := Some runAt\<rparr>)"

datatype WaitOutcome = NoWait | Immediate | Queued int

text \<open>The clock is read by \<open>refill\<close>, for \<open>requestedAt\<close>, and by \<open>scheduleDrain\<close>.\<close>

definition wait ::
  "(rat \<Rightarrow> rat) \<Rightarrow> rat \<Rightarrow> rat \<Rightarrow> int \<Rightarrow> int \<Rightarrow> int \<Rightarrow> int \<Rightarrow> TokenBucketRateLimiter
     \<Rightarrow> WaitOutcome \<times> TokenBucketRateLimiter" where
  "wait fl getCost postCost priority now requestedAt scheduledAt L =
     (if getCost \<le> 0 \<and> postCost \<le> 0 then (NoWait, L)
      else
        let L1 = refill fl now L in
        if pendingRequests L1 = [] \<and> canSatisfy getCost postCost L1
        then (Immediate, consume fl getCost postCost L1)
        else (Queued (nextSequence L1),
          scheduleDrain 0 scheduledAt (L1\<lparr>
            pendingRequests := pendingRequests L1 @
              [\<lparr>req_getCost = getCost, req_postCost = postCost, req_priority = priority,
                req_sequence = nextSequence L1, req_requestedAt = requestedAt\<rparr>],
            nextSequence := nextSequence L1 + 1\<rparr>)))"

text \<open>\<open>Math.max(...priorities)\<close> of a queue that is not empty.\<close>

definition highestPriority :: "PendingRateLimitRequest list \<Rightarrow> int" where
  "highestPriority rs = foldr (\<lambda>r acc. max (req_priority r) acc) (tl rs) (req_priority (hd rs))"

text \<open>The \<open>forEach\<close> over the queue with the selection so far, an index and its sequence number;
  \<open>None\<close> is the index \<open>-1\<close>.\<close>

fun select_from ::
  "int \<Rightarrow> TokenBucketRateLimiter \<Rightarrow> nat \<Rightarrow> PendingRateLimitRequest list \<Rightarrow> (nat \<times> int) option
     \<Rightarrow> (nat \<times> int) option" where
  "select_from highest L i [] selected = selected"
| "select_from highest L i (r # rs) selected =
     select_from highest L (Suc i) rs
       (if req_priority r \<noteq> highest then selected
        else if \<not> canSatisfy (req_getCost r) (req_postCost r) L then selected
        else (case selected of
                None \<Rightarrow> Some (i, req_sequence r)
              | Some (_, s) \<Rightarrow> if req_sequence r < s then Some (i, req_sequence r) else selected))"

definition findNextSatisfiableRequestIndex :: "TokenBucketRateLimiter \<Rightarrow> nat option" where
  "findNextSatisfiableRequestIndex L =
     map_option fst (select_from (highestPriority (pendingRequests L)) L 0 (pendingRequests L) None)"

definition computeWaitMs :: "(rat \<Rightarrow> rat) \<Rightarrow> rat \<Rightarrow> rat \<Rightarrow> TokenBucketRateLimiter \<Rightarrow> rat" where
  "computeWaitMs fl getCost postCost L =
     (let neededGet = max 0 (fl (getCost - getTokens L));
          neededPost = max 0 (fl (postCost - postTokens L));
          getWaitMs = (if neededGet = 0 \<or> getRefillPerMs L = 0 then 0 else fl (neededGet / getRefillPerMs L));
          postWaitMs = (if neededPost = 0 \<or> postRefillPerMs L = 0 then 0 else fl (neededPost / postRefillPerMs L))
      in max (max getWaitMs postWaitMs) 25)"

text \<open>The stable sort by sequence number.\<close>

definition computeNextWaitMs :: "(rat \<Rightarrow> rat) \<Rightarrow> TokenBucketRateLimiter \<Rightarrow> rat" where
  "computeNextWaitMs fl L =
     (let rs = pendingRequests L;
          nextRequest = hd (sort_key req_sequence (filter (\<lambda>r. req_priority r = highestPriority rs) rs))
      in computeWaitMs fl (req_getCost nextRequest) (req_postCost nextRequest) L)"

definition eligible :: "int \<Rightarrow> TokenBucketRateLimiter \<Rightarrow> PendingRateLimitRequest \<Rightarrow> bool" where
  "eligible highest L r \<longleftrightarrow> req_priority r = highest \<and> canSatisfy (req_getCost r) (req_postCost r) L"

lemma select_step:
  "select_from h L i (r # rs) selected = select_from h L (Suc i) rs
     (if eligible h L r \<and> (\<forall>k s. selected = Some (k, s) \<longrightarrow> req_sequence r < s)
      then Some (i, req_sequence r) else selected)"
  by (simp add: eligible_def split: option.split prod.split)

declare select_from.simps(2) [simp del]

lemma select_None: "select_from h L i rs selected = None \<longleftrightarrow> selected = None \<and> (\<forall>r\<in>set rs. \<not> eligible h L r)"
  by (induction rs arbitrary: i selected) (auto simp: select_step)

lemma select_Some:
  assumes "select_from h L i rs selected = Some (j, s)"
  shows "(selected = Some (j, s) \<or> (\<exists>k<length rs. j = i + k \<and> eligible h L (rs ! k) \<and> s = req_sequence (rs ! k))) \<and>
     (\<forall>r\<in>set rs. eligible h L r \<longrightarrow> s \<le> req_sequence r) \<and> (\<forall>k s'. selected = Some (k, s') \<longrightarrow> s \<le> s')"
  using assms
proof (induction rs arbitrary: i selected)
  case (Cons r rs)
  let ?new = "eligible h L r \<and> (\<forall>k s. selected = Some (k, s) \<longrightarrow> req_sequence r < s)"
  note ih0 = Cons.IH [OF Cons.prems [unfolded select_step]]
  have ih: "((if ?new then Some (i, req_sequence r) else selected) = Some (j, s) \<or>
      (\<exists>k<length rs. j = Suc i + k \<and> eligible h L (rs ! k) \<and> s = req_sequence (rs ! k)))"
    "\<forall>x\<in>set rs. eligible h L x \<longrightarrow> s \<le> req_sequence x"
    "\<forall>k s'. (if ?new then Some (i, req_sequence r) else selected) = Some (k, s') \<longrightarrow> s \<le> s'"
    using ih0 by blast+
  have shift: "\<exists>k<length (r # rs). j = i + k \<and> eligible h L ((r # rs) ! k) \<and> s = req_sequence ((r # rs) ! k)"
    if "\<exists>k<length rs. j = Suc i + k \<and> eligible h L (rs ! k) \<and> s = req_sequence (rs ! k)"
  proof -
    from that obtain k where "k < length rs" "j = Suc i + k" "eligible h L (rs ! k)" "s = req_sequence (rs ! k)" by blast
    then show ?thesis by (intro exI [of _ "Suc k"]) simp
  qed
  show ?case
  proof (cases ?new)
    case True
    with ih(1) consider "j = i" "s = req_sequence r"
      | "\<exists>k<length rs. j = Suc i + k \<and> eligible h L (rs ! k) \<and> s = req_sequence (rs ! k)" by auto
    then have "\<exists>k<length (r # rs). j = i + k \<and> eligible h L ((r # rs) ! k) \<and> s = req_sequence ((r # rs) ! k)"
    proof cases
      case 1
      with True show ?thesis by (intro exI [of _ 0]) simp
    qed (rule shift)
    with True ih(2,3) show ?thesis by fastforce
  next
    case False
    have "eligible h L r \<longrightarrow> s \<le> req_sequence r"
    proof
      assume "eligible h L r"
      with False obtain k s' where "selected = Some (k, s')" "s' \<le> req_sequence r" by auto
      moreover from this False ih(3) have "s \<le> s'" by auto
      ultimately show "s \<le> req_sequence r" by simp
    qed
    with False ih shift show ?thesis by auto
  qed
qed simp

lemma findNext_None:
  "findNextSatisfiableRequestIndex L = None \<longleftrightarrow>
     (\<forall>r\<in>set (pendingRequests L). \<not> eligible (highestPriority (pendingRequests L)) L r)"
  by (simp add: findNextSatisfiableRequestIndex_def select_None)

lemma findNext_Some:
  assumes "findNextSatisfiableRequestIndex L = Some i"
  shows "i < length (pendingRequests L)"
    and "eligible (highestPriority (pendingRequests L)) L (pendingRequests L ! i)"
    and "\<And>r. r \<in> set (pendingRequests L) \<Longrightarrow> eligible (highestPriority (pendingRequests L)) L r \<Longrightarrow>
      req_sequence (pendingRequests L ! i) \<le> req_sequence r"
proof -
  from assms obtain s where "select_from (highestPriority (pendingRequests L)) L 0 (pendingRequests L) None = Some (i, s)"
    by (auto simp: findNextSatisfiableRequestIndex_def)
  from select_Some [OF this] show "i < length (pendingRequests L)"
    "eligible (highestPriority (pendingRequests L)) L (pendingRequests L ! i)"
    "\<And>r. r \<in> set (pendingRequests L) \<Longrightarrow> eligible (highestPriority (pendingRequests L)) L r \<Longrightarrow>
      req_sequence (pendingRequests L ! i) \<le> req_sequence r" by auto
qed

text \<open>
  The loop of \<open>drainQueue\<close>; the result lists the requests it resolves, in order.  \<open>splice\<close> removes
  the selected request, so the queue gets shorter in every iteration.
\<close>

function drainLoop ::
  "(rat \<Rightarrow> rat) \<Rightarrow> int \<Rightarrow> TokenBucketRateLimiter \<Rightarrow> PendingRateLimitRequest list \<times> TokenBucketRateLimiter" where
  "drainLoop fl scheduledAt L =
     (if pendingRequests L = [] then ([], L)
      else case findNextSatisfiableRequestIndex L of
        None \<Rightarrow> ([], scheduleDrain (computeNextWaitMs fl L) scheduledAt L)
      | Some i \<Rightarrow>
          let request = pendingRequests L ! i;
              (resolved, L') = drainLoop fl scheduledAt
                (consume fl (req_getCost request) (req_postCost request)
                  (L\<lparr>pendingRequests := take i (pendingRequests L) @ drop (Suc i) (pendingRequests L)\<rparr>))
          in (request # resolved, L'))"
  by pat_completeness auto
termination
  by (relation "measure (\<lambda>(_, _, L). length (pendingRequests L))")
    (auto simp: consume_def dest!: findNext_Some(1))

definition drainQueue ::
  "(rat \<Rightarrow> rat) \<Rightarrow> int \<Rightarrow> int \<Rightarrow> TokenBucketRateLimiter \<Rightarrow> PendingRateLimitRequest list \<times> TokenBucketRateLimiter" where
  "drainQueue fl now scheduledAt L = drainLoop fl scheduledAt (refill fl now L)"

text \<open>The timer callback clears the timer first.\<close>

definition timerFired ::
  "(rat \<Rightarrow> rat) \<Rightarrow> int \<Rightarrow> int \<Rightarrow> TokenBucketRateLimiter \<Rightarrow> PendingRateLimitRequest list \<times> TokenBucketRateLimiter" where
  "timerFired fl now scheduledAt L = drainQueue fl now scheduledAt (L\<lparr>drainTimerAt := None\<rparr>)"

declare drainLoop.simps [simp del]


section \<open>One iteration of the loop\<close>

definition remove_at :: "nat \<Rightarrow> TokenBucketRateLimiter \<Rightarrow> TokenBucketRateLimiter" where
  "remove_at i L = L\<lparr>pendingRequests := take i (pendingRequests L) @ drop (Suc i) (pendingRequests L)\<rparr>"

definition grant :: "(rat \<Rightarrow> rat) \<Rightarrow> nat \<Rightarrow> TokenBucketRateLimiter \<Rightarrow> TokenBucketRateLimiter" where
  "grant fl i L =
     (let r = pendingRequests L ! i in consume fl (req_getCost r) (req_postCost r) (remove_at i L))"

lemma drainLoop_cases:
  obtains (empty) "pendingRequests L = []" "drainLoop fl t L = ([], L)"
  | (stuck) "pendingRequests L \<noteq> []" "findNextSatisfiableRequestIndex L = None"
      "drainLoop fl t L = ([], scheduleDrain (computeNextWaitMs fl L) t L)"
  | (granted) i rs L' where "findNextSatisfiableRequestIndex L = Some i" "i < length (pendingRequests L)"
      "drainLoop fl t (grant fl i L) = (rs, L')" "drainLoop fl t L = (pendingRequests L ! i # rs, L')"
proof (cases "pendingRequests L = []")
  case True
  with empty show ?thesis by (simp add: drainLoop.simps)
next
  case False
  show ?thesis
  proof (cases "findNextSatisfiableRequestIndex L")
    case None
    with False stuck show ?thesis by (simp add: drainLoop.simps)
  next
    case (Some i)
    obtain rs L' where "drainLoop fl t (grant fl i L) = (rs, L')" by fastforce
    with False Some granted findNext_Some(1) [OF Some] show ?thesis
      by (subst (asm) (2) drainLoop.simps) (auto simp: grant_def remove_at_def Let_def)
  qed
qed

lemma grant_length: "i < length (pendingRequests L) \<Longrightarrow>
    length (pendingRequests (grant fl i L)) < length (pendingRequests L)"
  by (simp add: grant_def consume_def remove_at_def Let_def)

text \<open>Induction over the iterations: the queue shrinks with every grant.\<close>

lemma drainLoop_induct [consumes 1, case_names empty stuck granted]:
  assumes "drainLoop fl t L = (rs, L')"
    and "\<And>L. pendingRequests L = [] \<Longrightarrow> Q L [] L"
    and "\<And>L. pendingRequests L \<noteq> [] \<Longrightarrow> findNextSatisfiableRequestIndex L = None \<Longrightarrow>
      Q L [] (scheduleDrain (computeNextWaitMs fl L) t L)"
    and "\<And>L i rs L'. findNextSatisfiableRequestIndex L = Some i \<Longrightarrow> i < length (pendingRequests L) \<Longrightarrow>
      Q (grant fl i L) rs L' \<Longrightarrow> Q L (pendingRequests L ! i # rs) L'"
  shows "Q L rs L'"
  using assms(1)
proof (induction "length (pendingRequests L)" arbitrary: L rs rule: less_induct)
  case less
  show ?case
  proof (cases rule: drainLoop_cases [of L fl t])
    case empty
    with less.prems assms(2) show ?thesis by simp
  next
    case stuck
    with less.prems have "rs = []" "L' = scheduleDrain (computeNextWaitMs fl L) t L" by simp_all
    with stuck assms(3) show ?thesis by blast
  next
    case (granted i rs' L'')
    with less.prems have "rs = pendingRequests L ! i # rs'" "L' = L''" by simp_all
    with granted less.hyps [OF grant_length [OF granted(2)]] assms(4) show ?thesis by blast
  qed
qed

section \<open>The invariant\<close>

text \<open>Rounding of the host: monotone and exact on zero.\<close>

definition rounding :: "(rat \<Rightarrow> rat) \<Rightarrow> bool" where
  "rounding fl \<longleftrightarrow> mono fl \<and> fl 0 = 0"

lemma rounding_nonneg: "rounding fl \<Longrightarrow> 0 \<le> x \<Longrightarrow> 0 \<le> fl x"
  unfolding rounding_def by (metis monoD)

lemma rounding_le: "rounding fl \<Longrightarrow> x \<le> y \<Longrightarrow> fl y = y \<Longrightarrow> fl x \<le> y"
  unfolding rounding_def by (metis monoD)

definition cost_ok :: "PendingRateLimitRequest \<Rightarrow> bool" where
  "cost_ok r \<longleftrightarrow> 0 \<le> req_getCost r \<and> 0 \<le> req_postCost r"

definition buckets_ok :: "(rat \<Rightarrow> rat) \<Rightarrow> TokenBucketRateLimiter \<Rightarrow> bool" where
  "buckets_ok fl L \<longleftrightarrow> fl (getMax L) = getMax L \<and> fl (postMax L) = postMax L \<and>
     0 \<le> getRefillPerMs L \<and> 0 \<le> postRefillPerMs L \<and>
     0 \<le> getTokens L \<and> getTokens L \<le> getMax L \<and> 0 \<le> postTokens L \<and> postTokens L \<le> postMax L"

definition queue_ok :: "TokenBucketRateLimiter \<Rightarrow> bool" where
  "queue_ok L \<longleftrightarrow> sorted_wrt (<) (map req_sequence (pendingRequests L)) \<and>
     (\<forall>r\<in>set (pendingRequests L). req_sequence r < nextSequence L \<and> cost_ok r)"

text \<open>A waiting request is never without a timer that will serve it.\<close>

definition timer_ok :: "TokenBucketRateLimiter \<Rightarrow> bool" where
  "timer_ok L \<longleftrightarrow> (pendingRequests L \<noteq> [] \<longrightarrow> drainTimerAt L \<noteq> None)"

lemma refill_buckets:
  assumes fl: "rounding fl" and ok: "buckets_ok fl L"
  shows "buckets_ok fl (refill fl now L)"
proof (cases "now - lastRefillAt L \<le> 0")
  case True
  with ok show ?thesis by (simp add: refill_def)
next
  case False
  let ?d = "of_int (now - lastRefillAt L) :: rat"
  have "0 \<le> ?d" using False by simp
  with ok have "0 \<le> fl (?d * getRefillPerMs L)" "0 \<le> fl (?d * postRefillPerMs L)"
    by (auto simp: buckets_ok_def intro!: rounding_nonneg [OF fl] simp del: of_int_diff)
  with ok have "0 \<le> fl (getTokens L + fl (?d * getRefillPerMs L))"
    "0 \<le> fl (postTokens L + fl (?d * postRefillPerMs L))"
    by (auto simp: buckets_ok_def intro!: rounding_nonneg [OF fl] simp del: of_int_diff)
  with ok False show ?thesis by (auto simp: buckets_ok_def refill_def Let_def)
qed

lemma consume_buckets:
  assumes fl: "rounding fl" and ok: "buckets_ok fl L" and "canSatisfy g p L" and "0 \<le> g" and "0 \<le> p"
  shows "buckets_ok fl (consume fl g p L)"
proof -
  have "0 \<le> fl (getTokens L - g)" "0 \<le> fl (postTokens L - p)"
    using assms by (auto simp: canSatisfy_def intro!: rounding_nonneg [OF fl])
  moreover have "fl (getTokens L - g) \<le> getMax L" "fl (postTokens L - p) \<le> postMax L"
    using assms by (auto simp: buckets_ok_def intro!: rounding_le [OF fl])
  ultimately show ?thesis using ok by (simp add: buckets_ok_def consume_def)
qed

lemma refill_frame [simp]:
  "pendingRequests (refill fl now L) = pendingRequests L" "nextSequence (refill fl now L) = nextSequence L"
  "drainTimerAt (refill fl now L) = drainTimerAt L" "getMax (refill fl now L) = getMax L"
  "postMax (refill fl now L) = postMax L" "getRefillPerMs (refill fl now L) = getRefillPerMs L"
  "postRefillPerMs (refill fl now L) = postRefillPerMs L"
  by (simp_all add: refill_def Let_def)

lemma consume_frame [simp]:
  "pendingRequests (consume fl g p L) = pendingRequests L" "nextSequence (consume fl g p L) = nextSequence L"
  "drainTimerAt (consume fl g p L) = drainTimerAt L" "lastRefillAt (consume fl g p L) = lastRefillAt L"
  "getMax (consume fl g p L) = getMax L" "postMax (consume fl g p L) = postMax L"
  "getRefillPerMs (consume fl g p L) = getRefillPerMs L" "postRefillPerMs (consume fl g p L) = postRefillPerMs L"
  by (simp_all add: consume_def)

lemma schedule_frame [simp]:
  "pendingRequests (scheduleDrain d t L) = pendingRequests L" "nextSequence (scheduleDrain d t L) = nextSequence L"
  "lastRefillAt (scheduleDrain d t L) = lastRefillAt L" "getTokens (scheduleDrain d t L) = getTokens L"
  "postTokens (scheduleDrain d t L) = postTokens L" "getMax (scheduleDrain d t L) = getMax L"
  "postMax (scheduleDrain d t L) = postMax L" "getRefillPerMs (scheduleDrain d t L) = getRefillPerMs L"
  "postRefillPerMs (scheduleDrain d t L) = postRefillPerMs L" "drainTimerAt (scheduleDrain d t L) \<noteq> None"
  by (simp_all add: scheduleDrain_def Let_def split: option.split)

lemma grant_frame [simp]:
  "lastRefillAt (grant fl i L) = lastRefillAt L" "getMax (grant fl i L) = getMax L"
  "postMax (grant fl i L) = postMax L" "getRefillPerMs (grant fl i L) = getRefillPerMs L"
  "postRefillPerMs (grant fl i L) = postRefillPerMs L" "nextSequence (grant fl i L) = nextSequence L"
  "pendingRequests (grant fl i L) = take i (pendingRequests L) @ drop (Suc i) (pendingRequests L)"
  "drainTimerAt (grant fl i L) = drainTimerAt L"
  by (simp_all add: grant_def remove_at_def Let_def)

lemma schedule_buckets [simp]: "buckets_ok fl (scheduleDrain d t L) = buckets_ok fl L"
  by (simp add: buckets_ok_def)

lemma schedule_queue [simp]: "queue_ok (scheduleDrain d t L) = queue_ok L"
  by (simp add: queue_ok_def)

lemma sorted_remove:
  "sorted_wrt P xs \<Longrightarrow> sorted_wrt P (take i xs @ drop (Suc i) xs)"
proof (induction xs arbitrary: i)
  case (Cons x xs)
  then show ?case
    by (cases i) (auto dest: in_set_takeD in_set_dropD)
qed simp

lemma grant_queue:
  assumes "queue_ok L"
  shows "queue_ok (grant fl i L)"
proof -
  have "sorted_wrt (<) (take i (map req_sequence (pendingRequests L)) @
      drop (Suc i) (map req_sequence (pendingRequests L)))"
    using assms by (intro sorted_remove) (simp add: queue_ok_def)
  then show ?thesis
    using assms by (auto simp: queue_ok_def take_map drop_map dest: in_set_takeD in_set_dropD)
qed

lemma grant_buckets:
  assumes fl: "rounding fl" and ok: "buckets_ok fl L" and q: "queue_ok L"
    and i: "findNextSatisfiableRequestIndex L = Some i"
  shows "buckets_ok fl (grant fl i L)"
proof -
  let ?r = "pendingRequests L ! i"
  have "?r \<in> set (pendingRequests L)" using findNext_Some(1) [OF i] by simp
  with q have "cost_ok ?r" by (simp add: queue_ok_def)
  moreover have "canSatisfy (req_getCost ?r) (req_postCost ?r) (remove_at i L)"
    using findNext_Some(2) [OF i] by (simp add: eligible_def canSatisfy_def remove_at_def)
  moreover have "buckets_ok fl (remove_at i L)" using ok by (simp add: buckets_ok_def remove_at_def)
  ultimately show ?thesis
    unfolding grant_def Let_def by (intro consume_buckets [OF fl]) (simp_all add: cost_ok_def)
qed

lemma drain_keeps:
  assumes "drainLoop fl t L = (rs, L')" and "rounding fl"
  shows "buckets_ok fl L \<Longrightarrow> queue_ok L \<Longrightarrow> buckets_ok fl L' \<and> queue_ok L' \<and> timer_ok L'"
  using assms(1)
proof (induction rule: drainLoop_induct)
  case (granted L i rs L')
  then show ?case using grant_buckets [OF assms(2)] grant_queue by simp
qed (simp_all add: timer_ok_def)


section \<open>What a drain grants\<close>

lemma foldr_max:
  "x \<le> foldr (\<lambda>r. max (req_priority r)) ys x \<and>
   (\<forall>r\<in>set ys. req_priority r \<le> foldr (\<lambda>r. max (req_priority r)) ys x) \<and>
   (foldr (\<lambda>r. max (req_priority r)) ys x = x \<or>
    (\<exists>r\<in>set ys. foldr (\<lambda>r. max (req_priority r)) ys x = req_priority r))"
  by (induction ys) (auto simp: max_def)

lemma highest_max: "r \<in> set rs \<Longrightarrow> req_priority r \<le> highestPriority rs"
  using foldr_max [of "req_priority (hd rs)" "tl rs"] by (cases rs) (auto simp: highestPriority_def)

lemma highest_attained: "rs \<noteq> [] \<Longrightarrow> \<exists>r\<in>set rs. req_priority r = highestPriority rs"
  using foldr_max [of "req_priority (hd rs)" "tl rs"] by (cases rs) (auto simp: highestPriority_def)

lemma mset_remove: "i < length xs \<Longrightarrow> mset xs = add_mset (xs ! i) (mset (take i xs @ drop (Suc i) xs))"
  using id_take_nth_drop [of i xs] by (metis mset.simps(2) mset_append union_mset_add_mset_right)

lemma drain_permutes:
  assumes "drainLoop fl t L = (rs, L')"
  shows "mset (pendingRequests L) = mset rs + mset (pendingRequests L')"
  using assms
proof (induction rule: drainLoop_induct)
  case (granted L i rs L')
  then show ?case using mset_remove [OF granted(2)] by simp
qed simp_all

lemma drain_priority:
  assumes "drainLoop fl t L = (rs, L')"
  shows "sorted_wrt (\<ge>) (map req_priority rs) \<and>
     (\<forall>r\<in>set rs. \<forall>x\<in>set (pendingRequests L'). req_priority x \<le> req_priority r) \<and>
     (\<forall>x\<in>set (pendingRequests L'). \<not> eligible (highestPriority (pendingRequests L')) L' x) \<and>
     set rs \<union> set (pendingRequests L') \<subseteq> set (pendingRequests L)"
  using assms
proof (induction rule: drainLoop_induct)
  case (stuck L)
  then show ?case by (simp add: findNext_None eligible_def canSatisfy_def)
next
  case (granted L i rs L')
  let ?r = "pendingRequests L ! i"
  have top: "req_priority x \<le> req_priority ?r" if "x \<in> set (pendingRequests L)" for x
    using highest_max [OF that] findNext_Some(2) [OF granted(1)] by (simp add: eligible_def)
  have sub: "set (pendingRequests (grant fl i L)) \<subseteq> set (pendingRequests L)"
    by (auto dest: in_set_takeD in_set_dropD)
  with granted.IH have "set rs \<union> set (pendingRequests L') \<subseteq> set (pendingRequests L)" by blast
  with granted.IH top granted(2) show ?case by auto
qed simp

lemma drain_accounts:
  assumes "drainLoop (\<lambda>x. x) t L = (rs, L')"
  shows "getTokens L = sum_list (map req_getCost rs) + getTokens L' \<and>
     postTokens L = sum_list (map req_postCost rs) + postTokens L' \<and> lastRefillAt L' = lastRefillAt L \<and>
     getRefillPerMs L' = getRefillPerMs L \<and> postRefillPerMs L' = postRefillPerMs L"
  using assms
proof (induction rule: drainLoop_induct)
  case (granted L i rs L')
  then show ?case by (auto simp: grant_def consume_def remove_at_def Let_def)
qed simp_all

section \<open>Runs\<close>

text \<open>
  A run of the limiter from \<open>L\<close>: any interleaving of requests and firings of its timer, with the
  total of GET and POST tokens it has granted.
\<close>

inductive limiter_run ::
  "(rat \<Rightarrow> rat) \<Rightarrow> TokenBucketRateLimiter \<Rightarrow> rat \<Rightarrow> rat \<Rightarrow> TokenBucketRateLimiter \<Rightarrow> bool" for fl L where
  idle: "limiter_run fl L 0 0 L"
| requested: "limiter_run fl L g p L1 \<Longrightarrow> 0 \<le> gc \<Longrightarrow> 0 \<le> pc \<Longrightarrow>
    wait fl gc pc priority now requestedAt scheduledAt L1 = (outcome, L2) \<Longrightarrow>
    limiter_run fl L (g + (if outcome = Immediate then gc else 0)) (p + (if outcome = Immediate then pc else 0)) L2"
| fired: "limiter_run fl L g p L1 \<Longrightarrow> drainTimerAt L1 \<noteq> None \<Longrightarrow>
    timerFired fl now scheduledAt L1 = (rs, L2) \<Longrightarrow>
    limiter_run fl L (g + sum_list (map req_getCost rs)) (p + sum_list (map req_postCost rs)) L2"

lemma wait_keeps:
  assumes w: "wait fl g p priority now a b L = (outcome, L')" and fl: "rounding fl"
    and ok: "buckets_ok fl L" "queue_ok L" "timer_ok L" and costs: "0 \<le> g" "0 \<le> p"
  shows "buckets_ok fl L' \<and> queue_ok L' \<and> timer_ok L'"
proof -
  let ?L1 = "refill fl now L"
  note b = refill_buckets [OF fl ok(1), of now]
  consider (none) "L' = L" | (immediate) "L' = consume fl g p ?L1" "canSatisfy g p ?L1" "pendingRequests L = []"
    | (queued) "L' = scheduleDrain 0 b (?L1\<lparr>pendingRequests := pendingRequests ?L1 @
         [\<lparr>req_getCost = g, req_postCost = p, req_priority = priority, req_sequence = nextSequence ?L1,
           req_requestedAt = a\<rparr>], nextSequence := nextSequence ?L1 + 1\<rparr>)"
    using w by (auto simp: wait_def Let_def split: if_splits)
  then show ?thesis
  proof cases
    case none
    with ok show ?thesis by simp
  next
    case immediate
    with ok consume_buckets [OF fl b immediate(2) costs] show ?thesis
      by (simp add: queue_ok_def timer_ok_def)
  next
    case queued
    have "buckets_ok fl L'" using b by (simp add: queued buckets_ok_def)
    moreover have "queue_ok L'"
      using ok(2) costs by (auto simp: queued queue_ok_def cost_ok_def sorted_wrt_append)
    ultimately show ?thesis by (simp add: queued timer_ok_def)
  qed
qed

lemma run_keeps:
  assumes "limiter_run fl L g p L'" and "rounding fl" and "buckets_ok fl L" "queue_ok L" "timer_ok L"
  shows "buckets_ok fl L' \<and> queue_ok L' \<and> timer_ok L'"
  using assms(1)
proof induction
  case (requested g p L1 gc pc priority now requestedAt scheduledAt outcome L2)
  with wait_keeps [OF requested(4) assms(2)] show ?case by blast
next
  case (fired g p L1 now scheduledAt rs L2)
  let ?L = "refill fl now (L1\<lparr>drainTimerAt := None\<rparr>)"
  have "buckets_ok fl ?L"
    using fired.IH by (intro refill_buckets [OF assms(2)]) (simp add: buckets_ok_def)
  moreover have "queue_ok ?L" using fired.IH by (simp add: queue_ok_def)
  ultimately show ?case
    using drain_keeps [of fl scheduledAt ?L rs L2] fired(3) assms(2)
    by (simp add: timerFired_def drainQueue_def)
qed (use assms in simp)


lemma refill_exact:
  assumes "buckets_ok (\<lambda>x. x) L"
  shows "lastRefillAt L \<le> lastRefillAt (refill (\<lambda>x. x) now L) \<and>
     getTokens (refill (\<lambda>x. x) now L) \<le>
       getTokens L + getRefillPerMs L * of_int (lastRefillAt (refill (\<lambda>x. x) now L) - lastRefillAt L) \<and>
     postTokens (refill (\<lambda>x. x) now L) \<le>
       postTokens L + postRefillPerMs L * of_int (lastRefillAt (refill (\<lambda>x. x) now L) - lastRefillAt L)"
  by (auto simp: refill_def Let_def algebra_simps)

text \<open>What was granted plus what is left is at most what was there plus what was refilled.\<close>

lemma run_accounts:
  assumes "limiter_run (\<lambda>x. x) L g p L'" and ok: "buckets_ok (\<lambda>x. x) L" "queue_ok L" "timer_ok L"
  shows "lastRefillAt L \<le> lastRefillAt L' \<and> getRefillPerMs L' = getRefillPerMs L \<and>
     postRefillPerMs L' = postRefillPerMs L \<and>
     g + getTokens L' \<le> getTokens L + getRefillPerMs L * of_int (lastRefillAt L' - lastRefillAt L) \<and>
     p + postTokens L' \<le> postTokens L + postRefillPerMs L * of_int (lastRefillAt L' - lastRefillAt L)"
  using assms(1)
proof induction
  case (requested g p L1 gc pc priority now requestedAt scheduledAt outcome L2)
  have "rounding (\<lambda>x. x)" by (simp add: rounding_def mono_def)
  with run_keeps [OF requested(1) _ ok] have b: "buckets_ok (\<lambda>x. x) L1" by blast
  from requested(4) have "outcome = NoWait \<and> L2 = L1 \<or>
      (let R = refill (\<lambda>x. x) now L1 in lastRefillAt L2 = lastRefillAt R \<and>
         getTokens L2 + (if outcome = Immediate then gc else 0) = getTokens R \<and>
         postTokens L2 + (if outcome = Immediate then pc else 0) = postTokens R \<and>
         getRefillPerMs L2 = getRefillPerMs L1 \<and> postRefillPerMs L2 = postRefillPerMs L1)"
    by (auto simp: wait_def Let_def consume_def split: if_splits)
  with refill_exact [OF b, of now] requested.IH show ?case
    by (auto simp: Let_def algebra_simps)
next
  case (fired g p L1 now scheduledAt rs L2)
  have "rounding (\<lambda>x. x)" by (simp add: rounding_def mono_def)
  with run_keeps [OF fired(1) _ ok] have b: "buckets_ok (\<lambda>x. x) (L1\<lparr>drainTimerAt := None\<rparr>)"
    by (simp add: buckets_ok_def)
  from drain_accounts [OF fired(3) [unfolded timerFired_def drainQueue_def]] refill_exact [OF b, of now] fired.IH
  show ?case by (auto simp: algebra_simps)
qed simp

section \<open>Selection as first fit\<close>

fun first_index :: "('a \<Rightarrow> bool) \<Rightarrow> 'a list \<Rightarrow> nat option" where
  "first_index p [] = None"
| "first_index p (x # xs) = (if p x then Some 0 else map_option Suc (first_index p xs))"

lemma first_index_Some: "first_index p xs = Some i \<longleftrightarrow> i < length xs \<and> p (xs ! i) \<and> (\<forall>j<i. \<not> p (xs ! j))"
proof (induction xs arbitrary: i)
  case (Cons x xs)
  then show ?case by (cases i) (auto simp: All_less_Suc2)
qed simp

lemma first_index_None: "first_index p xs = None \<longleftrightarrow> (\<forall>x\<in>set xs. \<not> p x)"
  by (induction xs) auto

section \<open>Properties of the limiter\<close>

definition config_ok :: "(rat \<Rightarrow> rat) \<Rightarrow> TokenBucketRateLimiterConfig \<Rightarrow> bool" where
  "config_ok fl c \<longleftrightarrow> fl 1 = 1 \<and> fl (cfg_getMax c) = cfg_getMax c \<and> fl (cfg_postMax c) = cfg_postMax c"

lemma new_limiter_ok:
  assumes "rounding fl" and "config_ok fl c"
  shows "buckets_ok fl (new_limiter fl c now)" "queue_ok (new_limiter fl c now)" "timer_ok (new_limiter fl c now)"
proof -
  have "0 \<le> fl (max 0 (cfg_getRefillPerSecond c) / 1000)" "0 \<le> fl (max 0 (cfg_postRefillPerSecond c) / 1000)"
    by (auto intro!: rounding_nonneg [OF assms(1)])
  with assms(2) show "buckets_ok fl (new_limiter fl c now)"
    by (auto simp: buckets_ok_def new_limiter_def config_ok_def max_def)
qed (simp_all add: queue_ok_def timer_ok_def new_limiter_def)

text \<open>
  Whatever the requests, the clock and the rounding of the host, both buckets stay between empty
  and full, waiting requests are kept in the order of their sequence numbers, and as long as one
  waits a drain timer is set, so no waiter is forgotten.
\<close>

theorem limiter_invariant:
  assumes "rounding fl" and "config_ok fl config" and "limiter_run fl (new_limiter fl config now) g p L"
  shows "0 \<le> getTokens L \<and> getTokens L \<le> getMax L \<and> 0 \<le> postTokens L \<and> postTokens L \<le> postMax L \<and>
     sorted_wrt (<) (map req_sequence (pendingRequests L)) \<and>
     (pendingRequests L \<noteq> [] \<longrightarrow> drainTimerAt L \<noteq> None)"
  using run_keeps [OF assms(3,1) new_limiter_ok [OF assms(1,2)]]
  by (simp add: buckets_ok_def queue_ok_def timer_ok_def)

text \<open>
  C34. The rate is bounded over every window, computed exactly: between two states of a run the
  limiter grants at most the bucket size plus the refill rate times the time between their last
  refills, for GET and for POST requests.
\<close>

theorem limiter_rate_bound:
  assumes "config_ok (\<lambda>x. x) config" and "limiter_run (\<lambda>x. x) (new_limiter (\<lambda>x. x) config start) g0 p0 L"
    and "limiter_run (\<lambda>x. x) L g p L'"
  shows "g \<le> getMax L + getRefillPerMs L * of_int (lastRefillAt L' - lastRefillAt L) \<and>
     p \<le> postMax L + postRefillPerMs L * of_int (lastRefillAt L' - lastRefillAt L)"
proof -
  have r: "rounding (\<lambda>x. x)" by (simp add: rounding_def mono_def)
  note ok = run_keeps [OF assms(2) r new_limiter_ok [OF r assms(1)]]
  then have ok': "buckets_ok (\<lambda>x. x) L" "queue_ok L" "timer_ok L" by blast+
  have "0 \<le> getTokens L'" "0 \<le> postTokens L'"
    using run_keeps [OF assms(3) r ok'] by (auto simp: buckets_ok_def)
  with run_accounts [OF assms(3) ok'] ok'(1) show ?thesis by (auto simp: buckets_ok_def)
qed

text \<open>
  A drain serves by priority and wastes nothing: it grants each request it removes, in
  descending priority, none of lower priority than one it leaves waiting, and it stops only when
  the queue is empty or no waiting request of the highest priority fits the tokens left.
\<close>

theorem drain_serves_by_priority:
  assumes "timerFired fl now scheduledAt L = (resolved, L')"
  shows "mset (pendingRequests L) = mset resolved + mset (pendingRequests L') \<and>
     sorted_wrt (\<ge>) (map req_priority resolved) \<and>
     (\<forall>r \<in> set resolved. \<forall>x \<in> set (pendingRequests L'). req_priority x \<le> req_priority r) \<and>
     (\<forall>x \<in> set (pendingRequests L'). req_priority x = highestPriority (pendingRequests L') \<longrightarrow>
        \<not> canSatisfy (req_getCost x) (req_postCost x) L')"
proof -
  have d: "drainLoop fl scheduledAt (refill fl now (L\<lparr>drainTimerAt := None\<rparr>)) = (resolved, L')"
    using assms by (simp add: timerFired_def drainQueue_def)
  from drain_permutes [OF d] drain_priority [OF d] show ?thesis by (auto simp: eligible_def)
qed

text \<open>
  The search over the queue is equivalent to first fit: in every reachable state the request it
  selects is the first one, in queue order, that has the highest waiting priority and fits.
\<close>

theorem selection_is_first_fit:
  assumes "rounding fl" and "config_ok fl config" and "limiter_run fl (new_limiter fl config now) g p L"
  shows "findNextSatisfiableRequestIndex L =
     first_index (\<lambda>r. req_priority r = highestPriority (pendingRequests L) \<and>
       canSatisfy (req_getCost r) (req_postCost r) L) (pendingRequests L)"
proof -
  let ?e = "eligible (highestPriority (pendingRequests L)) L"
  have sorted: "sorted_wrt (<) (map req_sequence (pendingRequests L))"
    using run_keeps [OF assms(3,1) new_limiter_ok [OF assms(1,2)]] by (simp add: queue_ok_def)
  have "findNextSatisfiableRequestIndex L = first_index ?e (pendingRequests L)"
  proof (cases "findNextSatisfiableRequestIndex L")
    case None
    then show ?thesis by (simp add: findNext_None first_index_None [THEN iffD2])
  next
    case (Some i)
    note f = findNext_Some [OF Some]
    have "\<not> ?e (pendingRequests L ! j)" if "j < i" for j
    proof
      assume "?e (pendingRequests L ! j)"
      with f(1,3) that have "req_sequence (pendingRequests L ! i) \<le> req_sequence (pendingRequests L ! j)" by simp
      with sorted_wrt_nth_less [OF sorted that] f(1) that show False by simp
    qed
    with f(1,2) have "first_index ?e (pendingRequests L) = Some i" unfolding first_index_Some by blast
    with Some show ?thesis by simp
  qed
  then show ?thesis by (simp add: eligible_def [abs_def])
qed

section \<open>Progress\<close>

lemma hd_sorted:
  fixes f :: "'a \<Rightarrow> int"
  assumes "sorted_wrt (<) (map f xs)"
  shows "hd (sort_key f xs) = hd xs"
  using strict_sorted_imp_sorted [OF assms] by (simp add: sort_key_id_if_sorted)

definition next_request :: "TokenBucketRateLimiter \<Rightarrow> PendingRateLimitRequest" where
  "next_request L = hd (filter (\<lambda>r. req_priority r = highestPriority (pendingRequests L)) (pendingRequests L))"

lemma next_wait:
  assumes "queue_ok L"
  shows "computeNextWaitMs fl L = computeWaitMs fl (req_getCost (next_request L)) (req_postCost (next_request L)) L"
proof -
  have "sorted_wrt (<) (map req_sequence (filter p (pendingRequests L)))" for p
    using assms sorted_wrt_filter [of "\<lambda>a b. req_sequence a < req_sequence b" "pendingRequests L" p]
    by (simp add: queue_ok_def sorted_wrt_map)
  then show ?thesis by (simp add: computeNextWaitMs_def next_request_def hd_sorted Let_def)
qed

lemma computeWait_frame [simp]: "computeWaitMs fl g p (scheduleDrain d t L) = computeWaitMs fl g p L"
  by (simp only: computeWaitMs_def schedule_frame)

lemma schedule_unset: "drainTimerAt L = None \<Longrightarrow> drainTimerAt (scheduleDrain d t L) = Some (t + max 0 \<lceil>d\<rceil>)"
  by (simp add: scheduleDrain_def)

lemma computeNextWait_frame [simp]: "computeNextWaitMs fl (scheduleDrain d t L) = computeNextWaitMs fl L"
  by (simp add: computeNextWaitMs_def Let_def)

lemma drain_sets_timer:
  assumes "drainLoop fl t L = (rs, L')"
  shows "drainTimerAt L = None \<Longrightarrow> pendingRequests L' \<noteq> [] \<Longrightarrow>
    drainTimerAt L' = Some (t + max 0 \<lceil>computeNextWaitMs fl L'\<rceil>)"
  using assms
proof (induction rule: drainLoop_induct)
  case (stuck L)
  then show ?case by (simp only: schedule_unset computeNextWait_frame)
qed simp_all

lemma first_of_filter:
  assumes "x \<in> set xs" and "p x"
  shows "\<exists>i<length xs. first_index p xs = Some i \<and> xs ! i = hd (filter p xs)"
  using assms
proof (induction xs)
  case (Cons y ys)
  show ?case
  proof (cases "p y")
    case False
    with Cons obtain i where "i < length ys" "first_index p ys = Some i" "ys ! i = hd (filter p ys)" by auto
    with False show ?thesis by (intro exI [of _ "Suc i"]) simp
  qed auto
qed simp

lemma drain_head:
  assumes "findNextSatisfiableRequestIndex L = Some i" and "drainLoop fl t L = (rs, L')"
  shows "pendingRequests L ! i \<in> set rs"
proof -
  from findNext_Some(1) [OF assms(1)] have "pendingRequests L \<noteq> []" by auto
  with assms show ?thesis by (cases rule: drainLoop_cases [of L fl t]) auto
qed

text \<open>A request of the highest priority that comes first and fits is granted.\<close>

lemma fitting_next_is_granted:
  assumes q: "queue_ok L" and ne: "pendingRequests L \<noteq> []"
    and fit: "canSatisfy (req_getCost (next_request L)) (req_postCost (next_request L)) L"
    and d: "drainLoop fl t L = (rs, L')"
  shows "next_request L \<in> set rs"
proof -
  let ?h = "highestPriority (pendingRequests L)" and ?r = "next_request L"
  obtain x where "x \<in> set (pendingRequests L)" "req_priority x = ?h" using highest_attained [OF ne] by blast
  from first_of_filter [of x _ "\<lambda>r. req_priority r = ?h", OF this]
  obtain k where k: "k < length (pendingRequests L)" "pendingRequests L ! k = ?r" "req_priority ?r = ?h"
    "\<forall>j<k. req_priority (pendingRequests L ! j) \<noteq> ?h"
    by (auto simp: next_request_def first_index_Some)
  have r: "?r \<in> set (pendingRequests L)" using nth_mem [OF k(1)] k(2) by simp
  have e: "eligible ?h L ?r" using fit k(3) by (simp add: eligible_def)
  from r e obtain i where i: "findNextSatisfiableRequestIndex L = Some i"
    using findNext_None by (cases "findNextSatisfiableRequestIndex L") auto
  note f = findNext_Some [OF i]
  have "\<not> k < i"
  proof
    assume "k < i"
    with sorted_wrt_nth_less [of "(<)" "map req_sequence (pendingRequests L)" k i] q f(1) k
    have "req_sequence ?r < req_sequence (pendingRequests L ! i)" by (simp add: queue_ok_def)
    with f(3) [OF r e] show False by simp
  qed
  moreover have "\<not> i < k" using f(2) k(4) by (auto simp: eligible_def)
  ultimately have "pendingRequests L ! i = ?r" using k by simp
  with drain_head [OF i d] show ?thesis by simp
qed

lemma refilled_enough:
  assumes "buckets_ok (\<lambda>x. x) L" and "0 < getRefillPerMs L" and "0 < postRefillPerMs L"
    and "g \<le> getMax L" and "p \<le> postMax L"
    and "computeWaitMs (\<lambda>x. x) g p L \<le> of_int (t - lastRefillAt L)"
  shows "canSatisfy g p (refill (\<lambda>x. x) t L)"
proof -
  define d where "d = (of_int (t - lastRefillAt L) :: rat)"
  have w: "25 \<le> d" "getTokens L < g \<longrightarrow> (g - getTokens L) / getRefillPerMs L \<le> d"
    "postTokens L < p \<longrightarrow> (p - postTokens L) / postRefillPerMs L \<le> d"
    using assms by (auto simp: computeWaitMs_def Let_def max_def d_def split: if_splits)
  with assms have "g \<le> getTokens L + d * getRefillPerMs L" "p \<le> postTokens L + d * postRefillPerMs L"
    by (auto simp: pos_divide_le_eq not_less intro: order_trans [of g "getTokens L"] order_trans [of p "postTokens L"])
  moreover from w(1) have "0 < t - lastRefillAt L" by (auto simp: d_def simp flip: of_int_diff)
  ultimately show ?thesis
    using assms by (auto simp: canSatisfy_def refill_def Let_def d_def)
qed

text \<open>
  Waiting ends: when a drain leaves requests behind, the timer it sets is late enough that, once
  it is due, the next request in line is granted by the drain it triggers, provided its costs fit
  the buckets and both refill (computed exactly, with a clock that does not run backwards).
\<close>

theorem due_drain_admits_next:
  assumes "config_ok (\<lambda>x. x) config" and "limiter_run (\<lambda>x. x) (new_limiter (\<lambda>x. x) config start) g p L"
    and "drainTimerAt L \<noteq> None" and "timerFired (\<lambda>x. x) now scheduledAt L = (resolved, L1)"
    and "pendingRequests L1 \<noteq> []" and "lastRefillAt L1 \<le> scheduledAt"
    and "req_getCost (next_request L1) \<le> getMax L1" and "req_postCost (next_request L1) \<le> postMax L1"
    and "0 < getRefillPerMs L1" and "0 < postRefillPerMs L1"
    and "drainTimerAt L1 = Some due" and "due \<le> t"
    and "timerFired (\<lambda>x. x) t scheduledAt' L1 = (resolved', L2)"
  shows "next_request L1 \<in> set resolved'"
proof -
  have r: "rounding (\<lambda>x. x)" by (simp add: rounding_def mono_def)
  have ok: "buckets_ok (\<lambda>x. x) L1" "queue_ok L1"
    using run_keeps [OF limiter_run.fired [OF assms(2-4)] r new_limiter_ok [OF r assms(1)]] by blast+
  have "drainTimerAt L1 = Some (scheduledAt + max 0 \<lceil>computeNextWaitMs (\<lambda>x. x) L1\<rceil>)"
    using drain_sets_timer [OF assms(4) [unfolded timerFired_def drainQueue_def]] assms(5) by simp
  with assms(11,12) have "\<lceil>computeNextWaitMs (\<lambda>x. x) L1\<rceil> \<le> t - lastRefillAt L1" using assms(6) by simp
  then have wait: "computeNextWaitMs (\<lambda>x. x) L1 \<le> of_int (t - lastRefillAt L1)" by (simp only: ceiling_le_iff)
  let ?L = "L1\<lparr>drainTimerAt := None\<rparr>"
  from refilled_enough [OF ok(1) assms(9,10,7,8)] wait
  have fit: "canSatisfy (req_getCost (next_request L1)) (req_postCost (next_request L1)) (refill (\<lambda>x. x) t L1)"
    by (simp add: next_wait [OF ok(2)])
  have same: "next_request (refill (\<lambda>x. x) t ?L) = next_request L1" by (simp add: next_request_def)
  have "canSatisfy g p (refill (\<lambda>x. x) t ?L) = canSatisfy g p (refill (\<lambda>x. x) t L1)" for g p
    by (simp add: canSatisfy_def refill_def Let_def)
  with fit same have "next_request (refill (\<lambda>x. x) t ?L) \<in> set resolved'"
    by (intro fitting_next_is_granted [OF _ _ _ assms(13) [unfolded timerFired_def drainQueue_def]])
      (use ok(2) assms(5) in \<open>simp_all add: queue_ok_def\<close>)
  with same show ?thesis by simp
qed

text \<open>
  C40. A request that can never fit stops the queue: while every waiting request of the highest
  priority costs more POST tokens than the bucket holds, no drain at any time grants anything, not
  even to requests of lower priority that fit.
\<close>

theorem oversized_request_blocks_queue:
  assumes "rounding fl" and "buckets_ok fl L" and "pendingRequests L \<noteq> []"
    and "\<forall>r \<in> set (pendingRequests L). req_priority r = highestPriority (pendingRequests L) \<longrightarrow>
      postMax L < req_postCost r"
    and "timerFired fl now scheduledAt L = (resolved, L')"
  shows "resolved = [] \<and> pendingRequests L' = pendingRequests L \<and> postMax L' = postMax L \<and> buckets_ok fl L'"
proof -
  let ?L = "refill fl now (L\<lparr>drainTimerAt := None\<rparr>)"
  have b: "buckets_ok fl ?L"
    using assms(2) by (intro refill_buckets [OF assms(1)]) (simp add: buckets_ok_def)
  then have "postTokens ?L \<le> postMax L" by (simp add: buckets_ok_def)
  with assms(4) have "findNextSatisfiableRequestIndex ?L = None"
    by (fastforce simp: findNext_None eligible_def canSatisfy_def)
  with assms(3,5) have "resolved = []" "L' = scheduleDrain (computeNextWaitMs fl ?L) scheduledAt ?L"
    by (simp_all add: timerFired_def drainQueue_def drainLoop.simps)
  with b show ?thesis by simp
qed

end
