(* ===== verification/Limiter_Samples.thy ===== *)
theory Limiter_Samples
  imports Rate_Limiter
begin

text \<open>Runs of the rate limiter on the costs of an offer placement, one GET and two POST tokens.\<close>

section \<open>Samples\<close>

definition sample_limits :: "rat \<Rightarrow> TokenBucketRateLimiterConfig" where
  "sample_limits posts = \<lparr>cfg_getMax = 2, cfg_getRefillPerSecond = 1000, cfg_postMax = posts,
     cfg_postRefillPerSecond = 100\<rparr>"

definition exactly :: "rat \<Rightarrow> rat" where
  "exactly = (\<lambda>x. x)"

definition place_once :: "TokenBucketRateLimiter \<Rightarrow> TokenBucketRateLimiter" where
  "place_once L = snd (wait exactly 1 2 0 0 0 0 L)"

definition fresh_limiter :: TokenBucketRateLimiter where
  "fresh_limiter = new_limiter exactly (sample_limits 2) 0"

definition waiting_limiter :: TokenBucketRateLimiter where
  "waiting_limiter = place_once (place_once fresh_limiter)"

definition drained_limiter :: TokenBucketRateLimiter where
  "drained_limiter = snd (timerFired exactly 0 0 waiting_limiter)"

lemma exactly_rounding: "rounding exactly" "exactly = (\<lambda>x. x)" "config_ok exactly (sample_limits posts)"
  by (simp_all add: exactly_def rounding_def mono_def config_ok_def)

lemma waiting_run: "limiter_run exactly fresh_limiter 1 2 waiting_limiter"
proof -
  have o1: "fst (wait exactly 1 2 0 0 0 0 fresh_limiter) = Immediate" by code_simp
  have o2: "fst (wait exactly 1 2 0 0 0 0 (place_once fresh_limiter)) = Queued 1" by code_simp
  have w1: "wait exactly 1 2 0 0 0 0 fresh_limiter = (Immediate, place_once fresh_limiter)"
    using o1 by (simp add: place_once_def prod_eq_iff)
  have w2: "wait exactly 1 2 0 0 0 0 (place_once fresh_limiter) = (Queued 1, waiting_limiter)"
    using o2 by (simp add: waiting_limiter_def place_once_def prod_eq_iff)
  from limiter_run.requested [OF limiter_run.requested [OF limiter_run.idle _ _ w1] _ _ w2] show ?thesis by simp
qed

lemma waiting_timer: "drainTimerAt waiting_limiter \<noteq> None" "pendingRequests drained_limiter \<noteq> []"
  "drainTimerAt drained_limiter = Some 25"
  by code_simp+

lemma drained_fire: "timerFired exactly 0 0 waiting_limiter = ([], drained_limiter)"
proof -
  have "fst (timerFired exactly 0 0 waiting_limiter) = []" by code_simp
  then show ?thesis by (simp add: drained_limiter_def prod_eq_iff)
qed

section \<open>Witnesses\<close>

theorem limiter_invariant_witness:
  "pendingRequests waiting_limiter \<noteq> [] \<and> drainTimerAt waiting_limiter \<noteq> None \<and>
   getTokens waiting_limiter \<le> getMax waiting_limiter"
proof -
  have "pendingRequests waiting_limiter \<noteq> []" by code_simp
  with limiter_invariant [OF exactly_rounding(1,3) waiting_run [unfolded fresh_limiter_def]] show ?thesis by simp
qed

theorem limiter_rate_bound_witness:
  "limiter_run exactly fresh_limiter 1 2 waiting_limiter \<and>
   (2::rat) \<le> postMax fresh_limiter +
     postRefillPerMs fresh_limiter * of_int (lastRefillAt waiting_limiter - lastRefillAt fresh_limiter)"
  using limiter_rate_bound [OF exactly_rounding(3) [unfolded exactly_def], of 2 0 0 0 fresh_limiter 1 2 waiting_limiter]
    waiting_run limiter_run.idle [of exactly fresh_limiter] by (simp add: exactly_def fresh_limiter_def)

theorem drain_serves_by_priority_witness:
  "\<exists>r \<in> set (pendingRequests drained_limiter). req_priority r = 0 \<and>
     \<not> canSatisfy (req_getCost r) (req_postCost r) drained_limiter"
proof -
  have "pendingRequests drained_limiter = [\<lparr>req_getCost = 1, req_postCost = 2, req_priority = 0,
      req_sequence = 1, req_requestedAt = 0\<rparr>]" by code_simp
  moreover from this have "highestPriority (pendingRequests drained_limiter) = 0" by (simp add: highestPriority_def)
  ultimately show ?thesis using drain_serves_by_priority [OF drained_fire] by simp
qed

theorem selection_is_first_fit_witness:
  "findNextSatisfiableRequestIndex waiting_limiter =
     first_index (\<lambda>r. req_priority r = highestPriority (pendingRequests waiting_limiter) \<and>
       canSatisfy (req_getCost r) (req_postCost r) waiting_limiter) (pendingRequests waiting_limiter)"
  by (rule selection_is_first_fit [OF exactly_rounding(1,3) waiting_run [unfolded fresh_limiter_def]])

theorem due_drain_admits_next_witness:
  "next_request drained_limiter \<in> set (fst (timerFired exactly 25 25 drained_limiter))"
proof -
  have "lastRefillAt drained_limiter \<le> 0" "req_getCost (next_request drained_limiter) \<le> getMax drained_limiter"
    "req_postCost (next_request drained_limiter) \<le> postMax drained_limiter" "0 < getRefillPerMs drained_limiter"
    "0 < postRefillPerMs drained_limiter"
    by code_simp+
  from due_drain_admits_next [OF exactly_rounding(3) [unfolded exactly_def]
      waiting_run [unfolded fresh_limiter_def exactly_def] waiting_timer(1) drained_fire [unfolded exactly_def]
      waiting_timer(2) this waiting_timer(3), of 25 25]
  show ?thesis by (simp add: exactly_def prod_eq_iff)
qed

definition blocked_limiter :: TokenBucketRateLimiter where
  "blocked_limiter = place_once (new_limiter exactly (sample_limits 1) 0)"

theorem oversized_request_blocks_queue_witness:
  "fst (timerFired exactly 100000 100000 blocked_limiter) = [] \<and> pendingRequests blocked_limiter \<noteq> []"
proof -
  have p: "pendingRequests blocked_limiter = [\<lparr>req_getCost = 1, req_postCost = 2, req_priority = 0,
      req_sequence = 1, req_requestedAt = 0\<rparr>]" "postMax blocked_limiter = 1" by code_simp+
  have "buckets_ok exactly blocked_limiter"
    using wait_keeps [of exactly 1 2 0 0 0 0 "new_limiter exactly (sample_limits 1) 0"]
      new_limiter_ok [OF exactly_rounding(1,3), of 1 0] exactly_rounding(1)
    unfolding blocked_limiter_def place_once_def by (metis prod.collapse zero_le_numeral zero_le_one)
  from oversized_request_blocks_queue [OF exactly_rounding(1) this, of 100000 100000
      "fst (timerFired exactly 100000 100000 blocked_limiter)" "snd (timerFired exactly 100000 100000 blocked_limiter)"]
  show ?thesis by (simp add: p)
qed

end
