(* ===== verification/Retry.thy ===== *)
theory Retry
  imports Prelude
begin

text \<open>
  Bounded retries with exponential backoff
  (\<^verbatim>\<open>trading/src/adapters/support/retry.ts\<close>).  The work is a function of the call number,
  the random source one of the attempt; \<open>fl\<close> is the rounding of the host after an arithmetic
  operation.  The result lists the delays slept between the calls.
\<close>

section \<open>Operations\<close>

record RetryPolicy =
  maxAttempts :: int
  baseDelayMs :: rat
  maxDelayMs :: rat
  jitterRatio :: rat

definition defaultRetryPolicy :: RetryPolicy where
  "defaultRetryPolicy = \<lparr>maxAttempts = 5, baseDelayMs = 500, maxDelayMs = 10000, jitterRatio = 1 / 5\<rparr>"

definition RETRY_EXPONENTIAL_FACTOR :: rat where
  "RETRY_EXPONENTIAL_FACTOR = 2"

text \<open>\<open>Math.round\<close> rounds halves up.\<close>

definition math_round :: "rat \<Rightarrow> int" where
  "math_round x = \<lfloor>x + 1 / 2\<rfloor>"

definition getRetryDelayMs :: "(rat \<Rightarrow> rat) \<Rightarrow> int \<Rightarrow> RetryPolicy \<Rightarrow> rat \<Rightarrow> int" where
  "getRetryDelayMs fl attempt policy random =
     (let exponent = nat (max 0 (attempt - 1));
          baseDelay = min (maxDelayMs policy) (fl (baseDelayMs policy * RETRY_EXPONENTIAL_FACTOR ^ exponent));
          jitter = fl (fl (baseDelay * jitterRatio policy) * fl (fl (random * 2) - 1))
      in max 0 (math_round (fl (baseDelay + jitter))))"

text \<open>
  The loop after \<open>attempt\<close> failed calls, the last with \<open>lastError\<close>.  A call that is never made
  leaves the error undefined.
\<close>

function retry_loop ::
  "(rat \<Rightarrow> rat) \<Rightarrow> (int \<Rightarrow> 'e + 'a) \<Rightarrow> RetryPolicy \<Rightarrow> ('e \<Rightarrow> int \<Rightarrow> bool) option \<Rightarrow> (int \<Rightarrow> rat)
     \<Rightarrow> int \<Rightarrow> 'e option \<Rightarrow> ('e option + 'a) \<times> int list" where
  "retry_loop fl fn policy shouldRetry random attempt lastError =
     (if attempt < maxAttempts policy
      then case fn attempt of
        Inr x \<Rightarrow> (Inr x, [])
      | Inl e \<Rightarrow>
          let next = attempt + 1 in
          if next \<ge> maxAttempts policy then (Inl (Some e), [])
          else if (case shouldRetry of None \<Rightarrow> False | Some p \<Rightarrow> \<not> p e next) then (Inl (Some e), [])
          else
            let (result, delays) = retry_loop fl fn policy shouldRetry random next (Some e)
            in (result, getRetryDelayMs fl next policy (random next) # delays)
      else (Inl lastError, []))"
  by pat_completeness auto
termination
  by (relation "measure (\<lambda>(_, _, policy, _, _, attempt, _). nat (maxAttempts policy - attempt))") auto

declare retry_loop.simps [simp del]

definition retry ::
  "(rat \<Rightarrow> rat) \<Rightarrow> (int \<Rightarrow> 'e + 'a) \<Rightarrow> RetryPolicy \<Rightarrow> ('e \<Rightarrow> int \<Rightarrow> bool) option \<Rightarrow> (int \<Rightarrow> rat)
     \<Rightarrow> ('e option + 'a) \<times> int list" where
  "retry fl fn policy shouldRetry random = retry_loop fl fn policy shouldRetry random 0 None"

section \<open>Calls\<close>

definition may_retry :: "('e \<Rightarrow> int \<Rightarrow> bool) option \<Rightarrow> 'e \<Rightarrow> int \<Rightarrow> bool" where
  "may_retry shouldRetry e attempt \<longleftrightarrow> (case shouldRetry of None \<Rightarrow> True | Some p \<Rightarrow> p e attempt)"

text \<open>The calls from \<open>attempt\<close> up to but excluding \<open>k\<close> failed and each could be retried.\<close>

definition retried :: "(int \<Rightarrow> 'e + 'a) \<Rightarrow> ('e \<Rightarrow> int \<Rightarrow> bool) option \<Rightarrow> int \<Rightarrow> int \<Rightarrow> bool" where
  "retried fn shouldRetry attempt k \<longleftrightarrow>
     (\<forall>i. attempt \<le> i \<and> i < k \<longrightarrow> (\<exists>e. fn i = Inl e \<and> may_retry shouldRetry e (i + 1)))"

lemma retried_step:
  assumes "fn attempt = Inl e" and "may_retry shouldRetry e (attempt + 1)"
  shows "retried fn shouldRetry (attempt + 1) k \<Longrightarrow> retried fn shouldRetry attempt k"
  unfolding retried_def
proof (intro allI impI)
  fix i
  assume "\<forall>i. attempt + 1 \<le> i \<and> i < k \<longrightarrow> (\<exists>e. fn i = Inl e \<and> may_retry shouldRetry e (i + 1))"
    and "attempt \<le> i \<and> i < k"
  with assms show "\<exists>e. fn i = Inl e \<and> may_retry shouldRetry e (i + 1)"
    by (cases "i = attempt") auto
qed

text \<open>The loop ends after the call \<open>k\<close>: the first success, or a failure that is final.\<close>

lemma retry_loop_ends:
  assumes "attempt < maxAttempts policy"
    and "retry_loop fl fn policy shouldRetry random attempt lastError = (result, delays)"
  shows "\<exists>k. attempt \<le> k \<and> k < maxAttempts policy \<and> retried fn shouldRetry attempt k \<and>
     delays = map (\<lambda>i. getRetryDelayMs fl i policy (random i)) [attempt + 1..k] \<and>
     (case fn k of
        Inr x \<Rightarrow> result = Inr x
      | Inl e \<Rightarrow> result = Inl (Some e) \<and> (k + 1 = maxAttempts policy \<or> \<not> may_retry shouldRetry e (k + 1)))"
  using assms
proof (induction "nat (maxAttempts policy - attempt)" arbitrary: attempt lastError delays rule: less_induct)
  case less
  have here: ?case if "delays = []" "case fn attempt of Inr x \<Rightarrow> result = Inr x
      | Inl e \<Rightarrow> result = Inl (Some e) \<and>
          (attempt + 1 = maxAttempts policy \<or> \<not> may_retry shouldRetry e (attempt + 1))"
    using that less.prems(1) by (intro exI [of _ attempt]) (auto simp: retried_def)
  show ?case
  proof (cases "fn attempt")
    case (Inr x)
    with less.prems show ?thesis
      by (intro here) (simp_all add: retry_loop.simps [of fl fn policy shouldRetry random attempt])
  next
    case (Inl e)
    show ?thesis
    proof (cases "attempt + 1 \<ge> maxAttempts policy \<or> \<not> may_retry shouldRetry e (attempt + 1)")
      case True
      with Inl less.prems show ?thesis
        by (intro here) (auto simp: retry_loop.simps [of fl fn policy shouldRetry random attempt]
            may_retry_def Let_def split: option.splits if_splits)
    next
      case False
      then have m: "may_retry shouldRetry e (attempt + 1)" "attempt + 1 < maxAttempts policy" by auto
      obtain r ds where rec: "retry_loop fl fn policy shouldRetry random (attempt + 1) (Some e) = (r, ds)" by fastforce
      with Inl less.prems m have out: "result = r"
        "delays = getRetryDelayMs fl (attempt + 1) policy (random (attempt + 1)) # ds"
        by (auto simp: retry_loop.simps [of fl fn policy shouldRetry random attempt]
            may_retry_def Let_def split: option.splits if_splits)
      from less.hyps [of "attempt + 1", OF _ m(2) rec [folded out(1)]] m(2)
      obtain k where k: "attempt + 1 \<le> k" "k < maxAttempts policy" "retried fn shouldRetry (attempt + 1) k"
        "ds = map (\<lambda>i. getRetryDelayMs fl i policy (random i)) [attempt + 1 + 1..k]"
        "case fn k of Inr x \<Rightarrow> result = Inr x
         | Inl e \<Rightarrow> result = Inl (Some e) \<and> (k + 1 = maxAttempts policy \<or> \<not> may_retry shouldRetry e (k + 1))"
        by auto
      with out(2) retried_step [OF Inl m(1) k(3)] show ?thesis
        by (intro exI [of _ k]) (simp add: upto_rec1)
    qed
  qed
qed

section \<open>Properties\<close>

text \<open>
  Retrying is exact and bounded: with a positive attempt limit the work is called a first time
  and then again after each retryable failure, fewer than the limit times in all; the result is
  that of the last call, which is the first success, the limit's last failure, or a failure that is
  not to be retried.  One delay is slept between two calls.
\<close>

theorem retry_result:
  assumes "0 < maxAttempts policy" and "retry fl fn policy shouldRetry random = (result, delays)"
  shows "\<exists>k. 0 \<le> k \<and> k < maxAttempts policy \<and> length delays = nat k \<and>
     (\<forall>i. 0 \<le> i \<and> i < k \<longrightarrow> (\<exists>e. fn i = Inl e \<and> may_retry shouldRetry e (i + 1))) \<and>
     (case fn k of
        Inr x \<Rightarrow> result = Inr x
      | Inl e \<Rightarrow> result = Inl (Some e) \<and> (k + 1 = maxAttempts policy \<or> \<not> may_retry shouldRetry e (k + 1)))"
proof -
  from retry_loop_ends [OF assms [unfolded retry_def]] obtain k where
    "0 \<le> k" "k < maxAttempts policy" "retried fn shouldRetry 0 k"
    "delays = map (\<lambda>i. getRetryDelayMs fl i policy (random i)) [0 + 1..k]"
    "case fn k of Inr x \<Rightarrow> result = Inr x
     | Inl e \<Rightarrow> result = Inl (Some e) \<and> (k + 1 = maxAttempts policy \<or> \<not> may_retry shouldRetry e (k + 1))"
    by blast
  then show ?thesis by (intro exI [of _ k]) (simp add: retried_def)
qed

lemma jitter_range:
  fixes r :: rat
  assumes "0 \<le> r" and "r \<le> 1" and "0 \<le> j"
  shows "- j \<le> j * (r * 2 - 1)" and "j * (r * 2 - 1) \<le> j"
proof -
  have "j * (- 1) \<le> j * (r * 2 - 1)" using assms by (intro mult_left_mono) simp_all
  then show "- j \<le> j * (r * 2 - 1)" by simp
  have "j * (r * 2 - 1) \<le> j * 1" using assms by (intro mult_left_mono) simp_all
  then show "j * (r * 2 - 1) \<le> j" by simp
qed

text \<open>
  Backoff delays are bounded: computed exactly, with a random number between 0 and 1, a delay is
  never negative and never longer than the maximal delay stretched by the jitter, rounded.
\<close>

theorem retry_delay_bounds:
  assumes "0 \<le> random" and "random \<le> 1" and "0 \<le> baseDelayMs policy" and "0 \<le> maxDelayMs policy"
    and "0 \<le> jitterRatio policy"
  shows "0 \<le> getRetryDelayMs (\<lambda>x. x) attempt policy random \<and>
     getRetryDelayMs (\<lambda>x. x) attempt policy random \<le> math_round (maxDelayMs policy * (1 + jitterRatio policy))"
proof -
  define b where "b = min (maxDelayMs policy)
    (baseDelayMs policy * RETRY_EXPONENTIAL_FACTOR ^ nat (max 0 (attempt - 1)))"
  define j where "j = b * jitterRatio policy"
  have "0 \<le> b" "b \<le> maxDelayMs policy" using assms by (simp_all add: b_def RETRY_EXPONENTIAL_FACTOR_def)
  then have j: "0 \<le> j" "j \<le> maxDelayMs policy * jitterRatio policy"
    using assms by (simp_all add: j_def mult_right_mono)
  have "b + j * (random * 2 - 1) \<le> maxDelayMs policy * (1 + jitterRatio policy)"
    using \<open>b \<le> _\<close> j jitter_range(2) [OF assms(1,2) j(1)] by (simp add: algebra_simps)
  moreover have "math_round x \<le> math_round y" if "x \<le> y" for x y
    using that by (simp add: math_round_def floor_mono)
  moreover have "0 \<le> math_round (maxDelayMs policy * (1 + jitterRatio policy))"
    using assms by (simp add: math_round_def)
  ultimately show ?thesis
    by (simp add: getRetryDelayMs_def Let_def b_def [symmetric] j_def [symmetric])
qed

section \<open>Witnesses\<close>

definition sample_work :: "int \<Rightarrow> string + int" where
  "sample_work i = (if i < 2 then Inl ''busy'' else Inr 7)"

theorem retry_result_witness:
  "\<exists>k. 0 \<le> k \<and> k < 5 \<and> length (snd (retry (\<lambda>x. x) sample_work defaultRetryPolicy None (\<lambda>_. 0))) = nat k \<and>
     fst (retry (\<lambda>x. x) sample_work defaultRetryPolicy None (\<lambda>_. 0)) = Inr 7"
proof -
  have "fst (retry (\<lambda>x. x) sample_work defaultRetryPolicy None (\<lambda>_. 0)) = Inr 7" by code_simp
  moreover have "0 < maxAttempts defaultRetryPolicy" "maxAttempts defaultRetryPolicy = 5"
    by (simp_all add: defaultRetryPolicy_def)
  moreover note retry_result [OF \<open>0 < maxAttempts defaultRetryPolicy\<close> prod.collapse [symmetric],
      of "\<lambda>x. x" sample_work None "\<lambda>_. 0"]
  ultimately show ?thesis by auto
qed

theorem retry_delay_bounds_witness:
  "getRetryDelayMs (\<lambda>x. x) 9 defaultRetryPolicy 1 \<le> 12000"
proof -
  have "math_round (maxDelayMs defaultRetryPolicy * (1 + jitterRatio defaultRetryPolicy)) = 12000" by code_simp
  with retry_delay_bounds [of 1 defaultRetryPolicy 9] show ?thesis by (simp add: defaultRetryPolicy_def)
qed

end
