(* ===== verification/Refresh_Schedule.thy ===== *)
theory Refresh_Schedule
  imports Prelude "HOL-Library.AList"
begin

text \<open>
  The scheduling of refreshes (\<^verbatim>\<open>trading/src/application/use-cases/bidding/bidder.ts\<close>, from
  \<open>refreshJobWithOptions\<close> to \<open>refreshJobImmediately\<close>, with admission and the cancellations that
  share the job mutex).  Background requests for a job that is already being refreshed are coalesced
  into one pending request; a loop per job takes the execution semaphore and the job mutex,
  executes, and starts over while something is pending.

  A step is the code between two \<open>await\<close>s.  The locks come from a library: a task waits until its
  lock is free, in any order.  The loop of a job is stored where the code stores its promise, in
  \<open>inFlightPromise\<close>, with the place it has reached: in particular its last two steps, the
  check that nothing is pending and the \<open>finally\<close> callback that marks the job as not running,
  are separate, as the callback of a promise runs in a later microtask.  The strategy itself is
  \<open>executeJob\<close> of another theory; here it only succeeds, fails, or throws.  A completion observer is
  a number, and \<open>notified\<close> records the calls.
\<close>

section \<open>State\<close>

datatype BidderRefreshTrigger = FullScan | HotStream | RuntimeActivation | UserCommand | Internal

datatype RequestPriority = BackgroundPriority | UserCommandPriority

record JobExecutionOptions =
  throwOnFailure :: bool
  requestContext :: "RequestPriority option"
  trigger :: BidderRefreshTrigger
  requestedAt :: int
  onCompleted :: "nat list"
  progress :: "(int \<times> int) option"

text \<open>Where the loop of a job stands.\<close>

datatype LoopPoint = AwaitSemaphore | AwaitMutex | Executing | Unlocked | Thrown | Returned

record JobExecutionState =
  running :: bool
  executing :: bool
  pending :: bool
  inFlightPromise :: "(LoopPoint \<times> JobExecutionOptions) option"
  pendingContext :: "(int \<times> int) option"
  pendingThrowOnFailure :: "bool option"
  pendingRequestContext :: "RequestPriority option"
  pendingRequestedAt :: "int option"
  pendingTrigger :: "BidderRefreshTrigger option"
  pendingCompletionObservers :: "nat list"

text \<open>The other tasks that take a job mutex: immediate refreshes and cancellations.\<close>

datatype TaskKind = ImmediateRefresh BidderRefreshTrigger | Cancellation

record Task =
  task_job :: string
  task_kind :: TaskKind
  task_holds :: bool

record Scheduler =
  maxConcurrentJobs :: int
  acceptingRefreshes :: bool
  acceptingBackgroundRefreshes :: bool
  jobExecutionStates :: "(string \<times> JobExecutionState) list"
  tasks :: "Task list"
  permitsTaken :: int
  locked :: "string \<Rightarrow> bool"
  activeRefreshCount :: int
  waitingRefreshCount :: int
  pendingRefreshCount :: int
  notified :: "(nat \<times> bool) list"

definition idle_state :: JobExecutionState where
  "idle_state = \<lparr>running = False, executing = False, pending = False, inFlightPromise = None,
     pendingContext = None, pendingThrowOnFailure = None, pendingRequestContext = None,
     pendingRequestedAt = None, pendingTrigger = None, pendingCompletionObservers = []\<rparr>"

fun isIntegerNum :: "number \<Rightarrow> bool" where
  "isIntegerNum (Fin q) \<longleftrightarrow> of_int \<lfloor>q\<rfloor> = q"
| "isIntegerNum _ \<longleftrightarrow> False"

text \<open>The default \<open>BIDDER_DEFAULT_MAX_CONCURRENT_JOBS\<close> is 1.  \<open>None\<close> as a result: the constructor
  throws.\<close>

definition resolveMaxConcurrentJobs :: "number option \<Rightarrow> int option" where
  "resolveMaxConcurrentJobs v =
     (let resolved = (case v of None \<Rightarrow> num_of_int 1 | Some x \<Rightarrow> x) in
      if \<not> isIntegerNum resolved \<or> num_to_int resolved < 1 then None else Some (num_to_int resolved))"

definition new_scheduler :: "int \<Rightarrow> Scheduler" where
  "new_scheduler n = \<lparr>maxConcurrentJobs = n, acceptingRefreshes = True, acceptingBackgroundRefreshes = True,
     jobExecutionStates = [], tasks = [], permitsTaken = 0, locked = (\<lambda>_. False), activeRefreshCount = 0,
     waitingRefreshCount = 0, pendingRefreshCount = 0, notified = []\<rparr>"

section \<open>Pending requests\<close>

definition getJobExecutionState :: "string \<Rightarrow> Scheduler \<Rightarrow> JobExecutionState" where
  "getJobExecutionState job S =
     (case map_of (jobExecutionStates S) job of None \<Rightarrow> idle_state | Some st \<Rightarrow> st)"

definition put_state :: "string \<Rightarrow> JobExecutionState \<Rightarrow> Scheduler \<Rightarrow> Scheduler" where
  "put_state job st S = S\<lparr>jobExecutionStates := AList.update job st (jobExecutionStates S)\<rparr>"

definition setRefreshPending :: "bool \<Rightarrow> JobExecutionState \<times> int \<Rightarrow> JobExecutionState \<times> int" where
  "setRefreshPending b p =
     (case p of (st, n) \<Rightarrow>
        if pending st = b then (st, n)
        else (st\<lparr>pending := b\<rparr>, max 0 (n + (if b then 1 else - 1))))"

definition clearPendingRefresh :: "JobExecutionState \<times> int \<Rightarrow> JobExecutionState \<times> int" where
  "clearPendingRefresh p =
     (case setRefreshPending False p of (st, n) \<Rightarrow>
        (st\<lparr>pendingContext := None, pendingThrowOnFailure := None, pendingRequestContext := None,
           pendingRequestedAt := None, pendingTrigger := None, pendingCompletionObservers := []\<rparr>, n))"

definition notify :: "nat list \<Rightarrow> bool \<Rightarrow> Scheduler \<Rightarrow> Scheduler" where
  "notify observers succeeded S = S\<lparr>notified := notified S @ map (\<lambda>i. (i, succeeded)) observers\<rparr>"

section \<open>Background refreshes\<close>

definition coalesce_request :: "JobExecutionOptions \<Rightarrow> JobExecutionState \<Rightarrow> JobExecutionState" where
  "coalesce_request options st =
     st\<lparr>pendingContext := (case progress options of Some c \<Rightarrow> Some c | None \<Rightarrow> pendingContext st),
       pendingThrowOnFailure := Some (pendingThrowOnFailure st = Some True \<or> throwOnFailure options),
       pendingRequestContext :=
         (case requestContext options of Some c \<Rightarrow> Some c | None \<Rightarrow> pendingRequestContext st),
       pendingRequestedAt :=
         Some (case pendingRequestedAt st of None \<Rightarrow> requestedAt options
               | Some t \<Rightarrow> min t (requestedAt options)),
       pendingTrigger := Some (trigger options),
       pendingCompletionObservers := pendingCompletionObservers st @ onCompleted options\<rparr>"

definition refreshJobWithOptions :: "string \<Rightarrow> JobExecutionOptions \<Rightarrow> Scheduler \<Rightarrow> Scheduler" where
  "refreshJobWithOptions job options S =
     (if \<not> acceptingBackgroundRefreshes S then notify (onCompleted options) False S
      else
        let st = getJobExecutionState job S in
        if running st
        then
          let (st', n) = setRefreshPending True (st, pendingRefreshCount S)
          in put_state job (coalesce_request options st') (S\<lparr>pendingRefreshCount := n\<rparr>)
        else
          let (st', n) = clearPendingRefresh (st\<lparr>running := True\<rparr>, pendingRefreshCount S)
          in put_state job (st'\<lparr>inFlightPromise := Some (AwaitSemaphore, options)\<rparr>)
               (S\<lparr>pendingRefreshCount := n, waitingRefreshCount := waitingRefreshCount S + 1\<rparr>))"

definition set_point :: "LoopPoint \<Rightarrow> JobExecutionOptions \<Rightarrow> JobExecutionState \<Rightarrow> JobExecutionState" where
  "set_point point options st = st\<lparr>inFlightPromise := Some (point, options)\<rparr>"

text \<open>The loop got the semaphore; it asks for the mutex next.\<close>

definition loopTakesSemaphore :: "string \<Rightarrow> JobExecutionOptions \<Rightarrow> Scheduler \<Rightarrow> Scheduler" where
  "loopTakesSemaphore job options S =
     put_state job (set_point AwaitMutex options (getJobExecutionState job S))
       (S\<lparr>permitsTaken := permitsTaken S + 1\<rparr>)"

text \<open>The loop got the mutex: it starts the strategy, or gives both locks back if admission has
  closed meanwhile.\<close>

definition loopTakesMutex :: "string \<Rightarrow> JobExecutionOptions \<Rightarrow> Scheduler \<Rightarrow> Scheduler" where
  "loopTakesMutex job options S =
     (let st = getJobExecutionState job S;
          S1 = S\<lparr>waitingRefreshCount := max 0 (waitingRefreshCount S - 1)\<rparr> in
      if \<not> acceptingBackgroundRefreshes S
      then notify (onCompleted options) False
             (put_state job (set_point Unlocked options st) (S1\<lparr>permitsTaken := permitsTaken S - 1\<rparr>))
      else put_state job (set_point Executing options (st\<lparr>executing := True\<rparr>))
             (S1\<lparr>locked := (locked S)(job := True), activeRefreshCount := activeRefreshCount S + 1\<rparr>))"

text \<open>\<open>executeJob\<close> has reported to its observers and settled; both locks are released.\<close>

definition loopExecuted :: "string \<Rightarrow> JobExecutionOptions \<Rightarrow> bool \<Rightarrow> Scheduler \<Rightarrow> Scheduler" where
  "loopExecuted job options succeeded S =
     (let st = getJobExecutionState job S;
          point = (if \<not> succeeded \<and> throwOnFailure options then Thrown else Unlocked) in
      notify (onCompleted options) succeeded
        (put_state job (set_point point options (st\<lparr>executing := False\<rparr>))
          (S\<lparr>permitsTaken := permitsTaken S - 1, locked := (locked S)(job := False),
             activeRefreshCount := max 0 (activeRefreshCount S - 1)\<rparr>)))"

text \<open>The end of an iteration: return, or take over the pending request.\<close>

definition loopChecksPending :: "string \<Rightarrow> JobExecutionOptions \<Rightarrow> int \<Rightarrow> Scheduler \<Rightarrow> Scheduler" where
  "loopChecksPending job options now S =
     (let st = getJobExecutionState job S in
      if \<not> pending st then put_state job (set_point Returned options st) S
      else
        let nextOptions = \<lparr>throwOnFailure = (pendingThrowOnFailure st = Some True),
              requestContext = pendingRequestContext st,
              trigger = (case pendingTrigger st of None \<Rightarrow> Internal | Some t \<Rightarrow> t),
              requestedAt = (case pendingRequestedAt st of None \<Rightarrow> now | Some t \<Rightarrow> t),
              onCompleted = pendingCompletionObservers st,
              progress = pendingContext st\<rparr>;
            (st', n) = clearPendingRefresh (st, pendingRefreshCount S)
        in put_state job (set_point AwaitSemaphore nextOptions st')
             (S\<lparr>pendingRefreshCount := n, waitingRefreshCount := waitingRefreshCount S + 1\<rparr>))"

text \<open>The \<open>finally\<close> callback of the loop's promise.\<close>

definition loopSettled :: "string \<Rightarrow> Scheduler \<Rightarrow> Scheduler" where
  "loopSettled job S =
     (let st = getJobExecutionState job S;
          (st', n) = clearPendingRefresh (st\<lparr>running := False\<rparr>, pendingRefreshCount S)
      in put_state job (st'\<lparr>inFlightPromise := None\<rparr>) (S\<lparr>pendingRefreshCount := n\<rparr>))"

section \<open>Immediate refreshes and cancellations\<close>

datatype admission = Refused | Skipped | Admitted

definition refreshJobImmediately :: "string \<Rightarrow> BidderRefreshTrigger \<Rightarrow> Scheduler \<Rightarrow> admission \<times> Scheduler" where
  "refreshJobImmediately job trig S =
     (if \<not> acceptingRefreshes S then ((if trig = UserCommand then Refused else Skipped), S)
      else if \<not> acceptingBackgroundRefreshes S \<and> trig \<noteq> UserCommand then (Skipped, S)
      else (Admitted, S\<lparr>waitingRefreshCount := waitingRefreshCount S + 1,
              tasks := tasks S @ [\<lparr>task_job = job, task_kind = ImmediateRefresh trig, task_holds = False\<rparr>]\<rparr>))"

definition requestCancellation :: "string \<Rightarrow> Scheduler \<Rightarrow> Scheduler" where
  "requestCancellation job S =
     S\<lparr>tasks := tasks S @ [\<lparr>task_job = job, task_kind = Cancellation, task_holds = False\<rparr>]\<rparr>"

definition remove_nth :: "nat \<Rightarrow> 'a list \<Rightarrow> 'a list" where
  "remove_nth i xs = take i xs @ drop (Suc i) xs"

text \<open>Task \<open>i\<close> got the mutex of its job.\<close>

definition taskTakesMutex :: "nat \<Rightarrow> Scheduler \<Rightarrow> Scheduler" where
  "taskTakesMutex i S =
     (let t = tasks S ! i;
          hold = S\<lparr>locked := (locked S)(task_job t := True), tasks := (tasks S)[i := t\<lparr>task_holds := True\<rparr>]\<rparr> in
      case task_kind t of
        Cancellation \<Rightarrow> hold
      | ImmediateRefresh trig \<Rightarrow>
          let waiting = max 0 (waitingRefreshCount S - 1) in
          if \<not> acceptingBackgroundRefreshes S \<and> trig \<noteq> UserCommand
          then S\<lparr>waitingRefreshCount := waiting, tasks := remove_nth i (tasks S)\<rparr>
          else hold\<lparr>waitingRefreshCount := waiting, activeRefreshCount := activeRefreshCount S + 1\<rparr>)"

definition taskDone :: "nat \<Rightarrow> Scheduler \<Rightarrow> Scheduler" where
  "taskDone i S =
     (let t = tasks S ! i;
          S1 = S\<lparr>locked := (locked S)(task_job t := False), tasks := remove_nth i (tasks S)\<rparr> in
      case task_kind t of
        Cancellation \<Rightarrow> S1
      | ImmediateRefresh trig \<Rightarrow> S1\<lparr>activeRefreshCount := max 0 (activeRefreshCount S - 1)\<rparr>)"

section \<open>Closing\<close>

text \<open>The loop over all execution states.\<close>

fun close_states ::
  "(string \<times> JobExecutionState) list \<Rightarrow> Scheduler \<Rightarrow> Scheduler" where
  "close_states [] S = S"
| "close_states ((job, _) # rest) S =
     (let st = getJobExecutionState job S;
          S1 = notify (pendingCompletionObservers st) False S;
          (st', n) = clearPendingRefresh (st, pendingRefreshCount S1)
      in close_states rest (put_state job st' (S1\<lparr>pendingRefreshCount := n\<rparr>)))"

definition closeBackgroundRefreshAdmission :: "Scheduler \<Rightarrow> Scheduler" where
  "closeBackgroundRefreshAdmission S =
     close_states (jobExecutionStates S) (S\<lparr>acceptingBackgroundRefreshes := False\<rparr>)"

text \<open>\<open>stop\<close> up to the point where it waits for the active refreshes.\<close>

definition stop :: "Scheduler \<Rightarrow> Scheduler" where
  "stop S = closeBackgroundRefreshAdmission (S\<lparr>acceptingRefreshes := False\<rparr>)"


section \<open>Counting states and tasks\<close>

definition states_with :: "(JobExecutionState \<Rightarrow> bool) \<Rightarrow> Scheduler \<Rightarrow> int" where
  "states_with P S = int (length (filter (\<lambda>p. P (snd p)) (jobExecutionStates S)))"

definition tasks_with :: "(Task \<Rightarrow> bool) \<Rightarrow> Scheduler \<Rightarrow> int" where
  "tasks_with P S = int (length (filter P (tasks S)))"

lemma get_put [simp]:
  "getJobExecutionState j (put_state i st S) = (if i = j then st else getJobExecutionState j S)"
  by (simp add: getJobExecutionState_def put_state_def update_conv')

lemma put_frame [simp]:
  "maxConcurrentJobs (put_state i st S) = maxConcurrentJobs S"
  "acceptingRefreshes (put_state i st S) = acceptingRefreshes S"
  "acceptingBackgroundRefreshes (put_state i st S) = acceptingBackgroundRefreshes S"
  "tasks (put_state i st S) = tasks S" "permitsTaken (put_state i st S) = permitsTaken S"
  "locked (put_state i st S) = locked S" "activeRefreshCount (put_state i st S) = activeRefreshCount S"
  "waitingRefreshCount (put_state i st S) = waitingRefreshCount S"
  "pendingRefreshCount (put_state i st S) = pendingRefreshCount S" "notified (put_state i st S) = notified S"
  "tasks_with Q (put_state i st S) = tasks_with Q S"
  by (simp_all add: put_state_def tasks_with_def)

lemma notify_frame [simp]:
  "maxConcurrentJobs (notify xs b S) = maxConcurrentJobs S"
  "acceptingRefreshes (notify xs b S) = acceptingRefreshes S"
  "acceptingBackgroundRefreshes (notify xs b S) = acceptingBackgroundRefreshes S"
  "jobExecutionStates (notify xs b S) = jobExecutionStates S"
  "tasks (notify xs b S) = tasks S" "permitsTaken (notify xs b S) = permitsTaken S"
  "locked (notify xs b S) = locked S" "activeRefreshCount (notify xs b S) = activeRefreshCount S"
  "waitingRefreshCount (notify xs b S) = waitingRefreshCount S"
  "pendingRefreshCount (notify xs b S) = pendingRefreshCount S"
  "getJobExecutionState j (notify xs b S) = getJobExecutionState j S"
  "states_with P (notify xs b S) = states_with P S" "tasks_with Q (notify xs b S) = tasks_with Q S"
  by (simp_all add: notify_def getJobExecutionState_def states_with_def tasks_with_def)

definition distinct_states :: "Scheduler \<Rightarrow> bool" where
  "distinct_states S \<longleftrightarrow> distinct (map fst (jobExecutionStates S))"

lemma distinct_put [simp]: "distinct_states S \<Longrightarrow> distinct_states (put_state i st S)"
  by (simp add: distinct_states_def put_state_def distinct_update)

lemma states_with_put:
  assumes "distinct_states S" and "\<not> P idle_state"
  shows "states_with P (put_state i st S) = states_with P S - one_if (P (getJobExecutionState i S)) + one_if (P st)"
proof -
  have "int (length (filter (\<lambda>p. P (snd p)) (AList.update i st al))) =
      int (length (filter (\<lambda>p. P (snd p)) al)) -
      one_if (P (case map_of al i of None \<Rightarrow> idle_state | Some x \<Rightarrow> x)) + one_if (P st)"
    if "distinct (map fst al)" for al
    using that assms(2) by (induction al) (auto split: if_splits option.splits)
  with assms(1) show ?thesis
    by (simp add: states_with_def getJobExecutionState_def put_state_def distinct_states_def)
qed

lemma states_with_pos: "P (getJobExecutionState i S) \<Longrightarrow> \<not> P idle_state \<Longrightarrow> 1 \<le> states_with P S"
proof -
  assume P: "P (getJobExecutionState i S)" "\<not> P idle_state"
  then obtain st where "map_of (jobExecutionStates S) i = Some st" "P st"
    by (auto simp: getJobExecutionState_def split: option.splits)
  then have "(i, st) \<in> set (filter (\<lambda>p. P (snd p)) (jobExecutionStates S))" by (auto dest: map_of_SomeD)
  then show "1 \<le> states_with P S"
    unfolding states_with_def by (metis Suc_leI gr0I length_0_conv list.set(1) empty_iff int_one_le_iff_zero_less
        of_nat_0_less_iff)
qed

lemma tasks_with_take:
  assumes "i < length ts"
  shows "int (length (filter Q (remove_nth i ts))) = int (length (filter Q ts)) - one_if (Q (ts ! i))"
    and "int (length (filter Q (ts[i := v]))) =
      int (length (filter Q ts)) - one_if (Q (ts ! i)) + one_if (Q v)"
proof -
  have ts: "ts = take i ts @ ts ! i # drop (Suc i) ts" by (rule id_take_nth_drop [OF assms])
  have "int (length (filter Q ts)) = int (length (filter Q (take i ts @ ts ! i # drop (Suc i) ts)))"
    using ts by simp
  then show "int (length (filter Q (remove_nth i ts))) = int (length (filter Q ts)) - one_if (Q (ts ! i))"
    "int (length (filter Q (ts[i := v]))) = int (length (filter Q ts)) - one_if (Q (ts ! i)) + one_if (Q v)"
    using assms by (auto simp: upd_conv_take_nth_drop remove_nth_def)
qed

lemma tasks_with_pos: "i < length (tasks S) \<Longrightarrow> Q (tasks S ! i) \<Longrightarrow> 1 \<le> tasks_with Q S"
proof -
  assume "i < length (tasks S)" "Q (tasks S ! i)"
  then have "tasks S ! i \<in> set (filter Q (tasks S))" by simp
  then show "1 \<le> tasks_with Q S"
    unfolding tasks_with_def by (metis Suc_leI gr0I length_0_conv list.set(1) empty_iff int_one_le_iff_zero_less
        of_nat_0_less_iff)
qed

lemma tasks_with_nonneg [simp]: "0 \<le> tasks_with Q S" "0 \<le> states_with P S"
  by (simp_all add: tasks_with_def states_with_def)

section \<open>The invariant\<close>

definition at_point :: "LoopPoint set \<Rightarrow> JobExecutionState \<Rightarrow> bool" where
  "at_point ps st \<longleftrightarrow> (case inFlightPromise st of None \<Rightarrow> False | Some (pt, _) \<Rightarrow> pt \<in> ps)"

definition is_refresh :: "Task \<Rightarrow> bool" where
  "is_refresh t \<longleftrightarrow> task_kind t \<noteq> Cancellation"

definition state_ok :: "JobExecutionState \<Rightarrow> bool" where
  "state_ok st \<longleftrightarrow> (running st \<longleftrightarrow> inFlightPromise st \<noteq> None) \<and> (pending st \<longrightarrow> running st) \<and>
     (\<not> pending st \<longrightarrow> pendingCompletionObservers st = []) \<and>
     (executing st \<longleftrightarrow> at_point {Executing} st)"

definition counters_ok :: "Scheduler \<Rightarrow> bool" where
  "counters_ok S \<longleftrightarrow>
     activeRefreshCount S = states_with executing S + tasks_with (\<lambda>t. is_refresh t \<and> task_holds t) S \<and>
     waitingRefreshCount S = states_with (at_point {AwaitSemaphore, AwaitMutex}) S +
       tasks_with (\<lambda>t. is_refresh t \<and> \<not> task_holds t) S \<and>
     pendingRefreshCount S = states_with pending S"

definition locks_ok :: "Scheduler \<Rightarrow> bool" where
  "locks_ok S \<longleftrightarrow>
     permitsTaken S = states_with (at_point {AwaitMutex, Executing}) S \<and> permitsTaken S \<le> maxConcurrentJobs S \<and>
     (\<forall>j. one_if (locked S j) = one_if (executing (getJobExecutionState j S)) +
        tasks_with (\<lambda>t. task_holds t \<and> task_job t = j) S)"

definition sched_inv :: "Scheduler \<Rightarrow> bool" where
  "sched_inv S \<longleftrightarrow> distinct_states S \<and> (\<forall>j. state_ok (getJobExecutionState j S)) \<and> counters_ok S \<and> locks_ok S"

lemma idle_simps [simp]:
  "\<not> running idle_state" "\<not> executing idle_state" "\<not> pending idle_state" "inFlightPromise idle_state = None"
  "pendingCompletionObservers idle_state = []" "\<not> at_point ps idle_state" "state_ok idle_state"
  by (simp_all add: idle_state_def at_point_def state_ok_def)

lemma record_counts [simp]:
  "states_with P (S\<lparr>pendingRefreshCount := a\<rparr>) = states_with P S"
  "states_with P (S\<lparr>waitingRefreshCount := a\<rparr>) = states_with P S"
  "states_with P (S\<lparr>activeRefreshCount := a\<rparr>) = states_with P S"
  "states_with P (S\<lparr>permitsTaken := a\<rparr>) = states_with P S" "states_with P (S\<lparr>locked := l\<rparr>) = states_with P S"
  "states_with P (S\<lparr>tasks := ts\<rparr>) = states_with P S"
  "states_with P (S\<lparr>acceptingBackgroundRefreshes := b\<rparr>) = states_with P S"
  "states_with P (S\<lparr>acceptingRefreshes := b\<rparr>) = states_with P S"
  "tasks_with Q (S\<lparr>pendingRefreshCount := a\<rparr>) = tasks_with Q S"
  "tasks_with Q (S\<lparr>waitingRefreshCount := a\<rparr>) = tasks_with Q S"
  "tasks_with Q (S\<lparr>activeRefreshCount := a\<rparr>) = tasks_with Q S"
  "tasks_with Q (S\<lparr>permitsTaken := a\<rparr>) = tasks_with Q S" "tasks_with Q (S\<lparr>locked := l\<rparr>) = tasks_with Q S"
  "tasks_with Q (S\<lparr>acceptingBackgroundRefreshes := b\<rparr>) = tasks_with Q S"
  "tasks_with Q (S\<lparr>acceptingRefreshes := b\<rparr>) = tasks_with Q S"
  "getJobExecutionState j (S\<lparr>pendingRefreshCount := a\<rparr>) = getJobExecutionState j S"
  "getJobExecutionState j (S\<lparr>waitingRefreshCount := a\<rparr>) = getJobExecutionState j S"
  "getJobExecutionState j (S\<lparr>activeRefreshCount := a\<rparr>) = getJobExecutionState j S"
  "getJobExecutionState j (S\<lparr>permitsTaken := a\<rparr>) = getJobExecutionState j S"
  "getJobExecutionState j (S\<lparr>locked := l\<rparr>) = getJobExecutionState j S"
  "getJobExecutionState j (S\<lparr>tasks := ts\<rparr>) = getJobExecutionState j S"
  "getJobExecutionState j (S\<lparr>acceptingBackgroundRefreshes := b\<rparr>) = getJobExecutionState j S"
  "getJobExecutionState j (S\<lparr>acceptingRefreshes := b\<rparr>) = getJobExecutionState j S"
  "distinct_states (S\<lparr>pendingRefreshCount := a\<rparr>) = distinct_states S"
  "distinct_states (S\<lparr>waitingRefreshCount := a\<rparr>) = distinct_states S"
  "distinct_states (S\<lparr>activeRefreshCount := a\<rparr>) = distinct_states S"
  "distinct_states (S\<lparr>permitsTaken := a\<rparr>) = distinct_states S"
  "distinct_states (S\<lparr>locked := l\<rparr>) = distinct_states S" "distinct_states (S\<lparr>tasks := ts\<rparr>) = distinct_states S"
  "distinct_states (S\<lparr>acceptingBackgroundRefreshes := b\<rparr>) = distinct_states S"
  "distinct_states (S\<lparr>acceptingRefreshes := b\<rparr>) = distinct_states S"
  "distinct_states (notify xs b S) = distinct_states S"
  by (simp_all add: states_with_def tasks_with_def getJobExecutionState_def distinct_states_def)


text \<open>A step that replaces the state of one job and adjusts the counters and locks accordingly.\<close>

lemma inv_put:
  assumes inv: "sched_inv S" and states: "jobExecutionStates S' = jobExecutionStates S"
    and frame: "tasks S' = tasks S" "maxConcurrentJobs S' = maxConcurrentJobs S"
    and ok: "state_ok st"
    and counts: "activeRefreshCount S' = activeRefreshCount S -
        one_if (executing (getJobExecutionState j S)) + one_if (executing st)"
      "waitingRefreshCount S' = waitingRefreshCount S -
        one_if (at_point {AwaitSemaphore, AwaitMutex} (getJobExecutionState j S)) +
        one_if (at_point {AwaitSemaphore, AwaitMutex} st)"
      "pendingRefreshCount S' = pendingRefreshCount S -
        one_if (pending (getJobExecutionState j S)) + one_if (pending st)"
    and permits: "permitsTaken S' = permitsTaken S -
        one_if (at_point {AwaitMutex, Executing} (getJobExecutionState j S)) +
        one_if (at_point {AwaitMutex, Executing} st)" "permitsTaken S' \<le> maxConcurrentJobs S"
    and mutex: "\<And>i. i \<noteq> j \<Longrightarrow> locked S' i = locked S i"
      "one_if (locked S' j) =
        one_if (locked S j) - one_if (executing (getJobExecutionState j S)) + one_if (executing st)"
  shows "sched_inv (put_state j st S')"
proof -
  have d: "distinct_states S" using inv by (simp add: sched_inv_def)
  have eq: "states_with P (put_state j st S') = states_with P (put_state j st S)"
    "tasks_with Q S' = tasks_with Q S" "getJobExecutionState i S' = getJobExecutionState i S"
    "distinct_states S'" for P Q i
    using states frame d by (simp_all add: states_with_def tasks_with_def getJobExecutionState_def
        put_state_def distinct_states_def)
  have "state_ok (getJobExecutionState i (put_state j st S'))" for i
    using inv ok by (simp add: eq sched_inv_def)
  moreover have "counters_ok (put_state j st S')"
    using inv counts unfolding counters_ok_def eq sched_inv_def
    by (simp add: states_with_put [OF d] eq(2))
  moreover have "locks_ok (put_state j st S')"
    unfolding locks_ok_def
  proof (intro conjI allI)
    show "permitsTaken (put_state j st S') = states_with (at_point {AwaitMutex, Executing}) (put_state j st S')"
      using inv permits(1) unfolding locks_ok_def eq sched_inv_def by (simp add: states_with_put [OF d])
    show "permitsTaken (put_state j st S') \<le> maxConcurrentJobs (put_state j st S')"
      using permits(2) frame(2) by simp
    fix i
    have "one_if (locked S i) = one_if (executing (getJobExecutionState i S)) +
        tasks_with (\<lambda>t. task_holds t \<and> task_job t = i) S" using inv by (simp add: sched_inv_def locks_ok_def)
    then show "one_if (locked (put_state j st S') i) = one_if (executing (getJobExecutionState i (put_state j st S'))) +
        tasks_with (\<lambda>t. task_holds t \<and> task_job t = i) (put_state j st S')"
      using mutex by (cases "i = j") (simp_all add: eq)
  qed
  ultimately show ?thesis using eq(4) by (simp add: sched_inv_def)
qed

lemma put_states [simp]: "jobExecutionStates (put_state j st S) = AList.update j st (jobExecutionStates S)"
  by (simp add: put_state_def)

lemma invD:
  assumes "sched_inv S"
  shows "state_ok (getJobExecutionState j S)"
    and "one_if (locked S j) = one_if (executing (getJobExecutionState j S)) +
        tasks_with (\<lambda>t. task_holds t \<and> task_job t = j) S"
    and "pendingRefreshCount S = states_with pending S"
    and "permitsTaken S \<le> maxConcurrentJobs S"
    and "activeRefreshCount S = states_with executing S + tasks_with (\<lambda>t. is_refresh t \<and> task_holds t) S"
    and "waitingRefreshCount S = states_with (at_point {AwaitSemaphore, AwaitMutex}) S +
       tasks_with (\<lambda>t. is_refresh t \<and> \<not> task_holds t) S"
  using assms by (auto simp: sched_inv_def locks_ok_def counters_ok_def)

lemma pending_counted: "sched_inv S \<Longrightarrow> pending (getJobExecutionState j S) \<Longrightarrow> 1 \<le> pendingRefreshCount S"
  using invD(3) states_with_pos [of pending j S] by simp

text \<open>Under the invariant no counter is ever clamped at zero.\<close>

lemma set_pending_exact:
  assumes "sched_inv S" and "pending st = pending (getJobExecutionState j S)"
  shows "setRefreshPending b (st, pendingRefreshCount S) =
     (st\<lparr>pending := b\<rparr>, pendingRefreshCount S - one_if (pending st) + one_if b)"
proof -
  have "0 \<le> pendingRefreshCount S" using invD(3) [OF assms(1)] by simp
  with pending_counted [OF assms(1), of j] assms(2) show ?thesis
    by (auto simp: setRefreshPending_def max_def)
qed

definition cleared :: "JobExecutionState \<Rightarrow> JobExecutionState" where
  "cleared st = st\<lparr>pending := False, pendingContext := None, pendingThrowOnFailure := None,
     pendingRequestContext := None, pendingRequestedAt := None, pendingTrigger := None,
     pendingCompletionObservers := []\<rparr>"

lemma clear_pending_exact:
  assumes "sched_inv S" and "pending st = pending (getJobExecutionState j S)"
  shows "clearPendingRefresh (st, pendingRefreshCount S) = (cleared st, pendingRefreshCount S - one_if (pending st))"
  by (simp add: clearPendingRefresh_def set_pending_exact [OF assms] cleared_def)

lemma cleared_simps [simp]:
  "running (cleared st) = running st" "executing (cleared st) = executing st" "\<not> pending (cleared st)"
  "inFlightPromise (cleared st) = inFlightPromise st" "pendingCompletionObservers (cleared st) = []"
  "at_point ps (cleared st) = at_point ps st"
  by (simp_all add: cleared_def at_point_def)

lemma point_simps [simp]:
  "at_point ps (st\<lparr>inFlightPromise := Some (pt, opts)\<rparr>) \<longleftrightarrow> pt \<in> ps"
  "\<not> at_point ps (st\<lparr>inFlightPromise := None\<rparr>)"
  "at_point ps (set_point pt opts st) \<longleftrightarrow> pt \<in> ps"
  "inFlightPromise (set_point pt opts st) = Some (pt, opts)" "running (set_point pt opts st) = running st"
  "executing (set_point pt opts st) = executing st" "pending (set_point pt opts st) = pending st"
  "pendingCompletionObservers (set_point pt opts st) = pendingCompletionObservers st"
  by (simp_all add: at_point_def set_point_def)

lemma coalesce_simps [simp]:
  "running (coalesce_request opts st) = running st" "executing (coalesce_request opts st) = executing st"
  "pending (coalesce_request opts st) = pending st"
  "inFlightPromise (coalesce_request opts st) = inFlightPromise st"
  "at_point ps (coalesce_request opts st) = at_point ps st"
  "pendingCompletionObservers (coalesce_request opts st) = pendingCompletionObservers st @ onCompleted opts"
  by (simp_all add: coalesce_request_def at_point_def)

lemma point_upd [simp]:
  "at_point ps (st\<lparr>running := b\<rparr>) = at_point ps st" "at_point ps (st\<lparr>pending := b\<rparr>) = at_point ps st"
  "at_point ps (st\<lparr>executing := b\<rparr>) = at_point ps st"
  by (simp_all add: at_point_def)

lemma request_keeps:
  assumes inv: "sched_inv S"
  shows "sched_inv (refreshJobWithOptions j opts S)"
proof (cases "acceptingBackgroundRefreshes S")
  case False
  have "sched_inv (notify xs b S)" for xs b
    using inv by (simp add: sched_inv_def counters_ok_def locks_ok_def)
  with False show ?thesis by (simp add: refreshJobWithOptions_def)
next
  case True
  let ?st = "getJobExecutionState j S"
  note ok = invD(1) [OF inv, of j]
  show ?thesis
  proof (cases "running ?st")
    case run: True
    have "refreshJobWithOptions j opts S = put_state j (coalesce_request opts (?st\<lparr>pending := True\<rparr>))
        (S\<lparr>pendingRefreshCount := pendingRefreshCount S - one_if (pending ?st) + 1\<rparr>)"
      using True run set_pending_exact [OF inv, of ?st j True] by (simp add: refreshJobWithOptions_def)
    moreover have "sched_inv \<dots>"
      using ok run by (intro inv_put [OF inv]) (auto simp: state_ok_def invD(4) [OF inv])
    ultimately show ?thesis by (simp only:)
  next
    case idle: False
    have "refreshJobWithOptions j opts S = put_state j
        ((cleared (?st\<lparr>running := True\<rparr>))\<lparr>inFlightPromise := Some (AwaitSemaphore, opts)\<rparr>)
        (S\<lparr>pendingRefreshCount := pendingRefreshCount S - one_if (pending ?st),
           waitingRefreshCount := waitingRefreshCount S + 1\<rparr>)"
      using True idle clear_pending_exact [OF inv, of "?st\<lparr>running := True\<rparr>" j]
      by (simp add: refreshJobWithOptions_def)
    moreover have "sched_inv \<dots>"
    proof -
      have "\<not> executing ?st" "\<not> at_point ps ?st" "\<not> pending ?st" for ps
        using ok idle by (auto simp: state_ok_def at_point_def split: option.splits)
      then show ?thesis by (intro inv_put [OF inv]) (auto simp: state_ok_def invD(4) [OF inv])
    qed
    ultimately show ?thesis by (simp only:)
  qed
qed


definition loop_at :: "string \<Rightarrow> LoopPoint \<Rightarrow> JobExecutionOptions \<Rightarrow> Scheduler \<Rightarrow> bool" where
  "loop_at j pt opts S \<longleftrightarrow> inFlightPromise (getJobExecutionState j S) = Some (pt, opts)"

lemma loop_at_facts:
  assumes "sched_inv S" and "loop_at j pt opts S"
  shows "running (getJobExecutionState j S)" "at_point ps (getJobExecutionState j S) \<longleftrightarrow> pt \<in> ps"
    "executing (getJobExecutionState j S) \<longleftrightarrow> pt = Executing"
    "inFlightPromise (getJobExecutionState j S) = Some (pt, opts)"
    "\<not> pending (getJobExecutionState j S) \<Longrightarrow> pendingCompletionObservers (getJobExecutionState j S) = []"
  using invD(1) [OF assms(1), of j] assms(2) by (auto simp: state_ok_def loop_at_def at_point_def)

lemma semaphore_keeps:
  assumes inv: "sched_inv S" and at: "loop_at j AwaitSemaphore opts S" and "permitsTaken S < maxConcurrentJobs S"
  shows "sched_inv (loopTakesSemaphore j opts S)"
  unfolding loopTakesSemaphore_def
  using loop_at_facts [OF inv at] assms(3) by (intro inv_put [OF inv]) (auto simp: state_ok_def)

lemma waiting_counted:
  assumes "sched_inv S" and "loop_at j pt opts S" and "pt \<in> {AwaitSemaphore, AwaitMutex}"
  shows "1 \<le> waitingRefreshCount S"
proof -
  have "at_point {AwaitSemaphore, AwaitMutex} (getJobExecutionState j S)"
    using loop_at_facts(2) [OF assms(1,2)] assms(3) by simp
  from states_with_pos [where P = "at_point {AwaitSemaphore, AwaitMutex}", OF this idle_simps(6)] show ?thesis
    using invD(6) [OF assms(1)] tasks_with_nonneg(1) [of "\<lambda>t. is_refresh t \<and> \<not> task_holds t" S] by linarith
qed

lemma notify_inv [simp]: "sched_inv (notify xs b S) = sched_inv S"
  by (simp add: sched_inv_def counters_ok_def locks_ok_def)

lemma mutex_keeps:
  assumes inv: "sched_inv S" and at: "loop_at j AwaitMutex opts S" and free: "\<not> locked S j"
  shows "sched_inv (loopTakesMutex j opts S)"
proof -
  have w: "max 0 (waitingRefreshCount S - 1) = waitingRefreshCount S - 1"
    using waiting_counted [OF inv at] by simp
  note f = loop_at_facts [OF inv at]
  show ?thesis
  proof (cases "acceptingBackgroundRefreshes S")
    case True
    have "sched_inv (put_state j (set_point Executing opts ((getJobExecutionState j S)\<lparr>executing := True\<rparr>))
        (S\<lparr>waitingRefreshCount := waitingRefreshCount S - 1, locked := (locked S)(j := True),
           activeRefreshCount := activeRefreshCount S + 1\<rparr>))"
      using f free w invD(4) [OF inv] by (intro inv_put [OF inv]) (auto simp: state_ok_def)
    with True w show ?thesis by (simp add: loopTakesMutex_def)
  next
    case False
    have "sched_inv (put_state j (set_point Unlocked opts (getJobExecutionState j S))
        (S\<lparr>waitingRefreshCount := waitingRefreshCount S - 1, permitsTaken := permitsTaken S - 1\<rparr>))"
      using f free w invD(4) [OF inv] by (intro inv_put [OF inv]) (auto simp: state_ok_def)
    with False w show ?thesis by (simp add: loopTakesMutex_def)
  qed
qed

lemma executed_keeps:
  assumes inv: "sched_inv S" and at: "loop_at j Executing opts S"
  shows "sched_inv (loopExecuted j opts ok S)"
proof -
  note f = loop_at_facts [OF inv at]
  have "1 \<le> states_with executing S" using f(3) by (intro states_with_pos [of _ j]) simp_all
  then have a: "max 0 (activeRefreshCount S - 1) = activeRefreshCount S - 1"
    using invD(5) [OF inv] tasks_with_nonneg(1) [of "\<lambda>t. is_refresh t \<and> task_holds t" S] by linarith
  have l: "locked S j"
  proof (rule ccontr)
    assume "\<not> locked S j"
    with invD(2) [OF inv, of j] f(3) have "0 = 1 + tasks_with (\<lambda>t. task_holds t \<and> task_job t = j) S" by simp
    with tasks_with_nonneg(1) [of "\<lambda>t. task_holds t \<and> task_job t = j" S] show False by linarith
  qed
  show ?thesis
    unfolding loopExecuted_def Let_def notify_inv
    using f a l invD(4) [OF inv] by (intro inv_put [OF inv]) (auto simp: state_ok_def)
qed

lemma check_keeps:
  assumes inv: "sched_inv S" and at: "loop_at j Unlocked opts S"
  shows "sched_inv (loopChecksPending j opts now S)"
proof -
  let ?st = "getJobExecutionState j S"
  note f = loop_at_facts [OF inv at]
  show ?thesis
  proof (cases "pending ?st")
    case False
    have "sched_inv (put_state j (set_point Returned opts ?st) S)"
      using False f invD(4) [OF inv] by (intro inv_put [OF inv]) (auto simp: state_ok_def)
    with False show ?thesis by (simp add: loopChecksPending_def)
  next
    case True
    have "sched_inv (put_state j (set_point AwaitSemaphore next_opts (cleared ?st))
        (S\<lparr>pendingRefreshCount := pendingRefreshCount S - 1, waitingRefreshCount := waitingRefreshCount S + 1\<rparr>))"
      for next_opts
      using True f invD(4) [OF inv] by (intro inv_put [OF inv]) (auto simp: state_ok_def)
    with True show ?thesis by (simp add: loopChecksPending_def clear_pending_exact [OF inv] Let_def)
  qed
qed

lemma settled_keeps:
  assumes inv: "sched_inv S" and at: "loop_at j pt opts S" and "pt = Returned \<or> pt = Thrown"
  shows "sched_inv (loopSettled j S)"
proof -
  let ?st = "getJobExecutionState j S"
  have "sched_inv (put_state j ((cleared (?st\<lparr>running := False\<rparr>))\<lparr>inFlightPromise := None\<rparr>)
      (S\<lparr>pendingRefreshCount := pendingRefreshCount S - one_if (pending ?st)\<rparr>))"
    using loop_at_facts [OF inv at] assms(3) invD(4) [OF inv]
    by (intro inv_put [OF inv]) (auto simp: state_ok_def)
  then show ?thesis
    using clear_pending_exact [OF inv, of "?st\<lparr>running := False\<rparr>" j] by (simp add: loopSettled_def)
qed

lemma inv_tasks:
  assumes inv: "sched_inv S" and "jobExecutionStates S' = jobExecutionStates S"
    and "maxConcurrentJobs S' = maxConcurrentJobs S" "permitsTaken S' = permitsTaken S"
    "pendingRefreshCount S' = pendingRefreshCount S"
    and "activeRefreshCount S' - tasks_with (\<lambda>t. is_refresh t \<and> task_holds t) S' =
       activeRefreshCount S - tasks_with (\<lambda>t. is_refresh t \<and> task_holds t) S"
    and "waitingRefreshCount S' - tasks_with (\<lambda>t. is_refresh t \<and> \<not> task_holds t) S' =
       waitingRefreshCount S - tasks_with (\<lambda>t. is_refresh t \<and> \<not> task_holds t) S"
    and "\<And>j. one_if (locked S' j) - tasks_with (\<lambda>t. task_holds t \<and> task_job t = j) S' =
       one_if (locked S j) - tasks_with (\<lambda>t. task_holds t \<and> task_job t = j) S"
  shows "sched_inv S'"
proof -
  have eq: "states_with P S' = states_with P S" "getJobExecutionState i S' = getJobExecutionState i S"
    "distinct_states S' = distinct_states S" for P i
    using assms(2) by (simp_all add: states_with_def getJobExecutionState_def distinct_states_def)
  have "one_if (locked S' j) = one_if (executing (getJobExecutionState j S')) +
        tasks_with (\<lambda>t. task_holds t \<and> task_job t = j) S'" for j
    using assms(8) [of j] invD(2) [OF inv, of j] by (simp add: eq)
  then show ?thesis
    using inv assms(3-7) by (simp add: sched_inv_def counters_ok_def locks_ok_def eq)
qed

lemma immediate_keeps:
  assumes "sched_inv S" and "refreshJobImmediately j trig S = (a, S')"
  shows "sched_inv S'"
proof (cases "a = Admitted")
  case True
  with assms show ?thesis
    by (intro inv_tasks [OF assms(1)])
      (auto simp: refreshJobImmediately_def tasks_with_def is_refresh_def split: if_splits)
qed (use assms in \<open>auto simp: refreshJobImmediately_def split: if_splits\<close>)

lemma cancellation_keeps: "sched_inv S \<Longrightarrow> sched_inv (requestCancellation j S)"
  by (rule inv_tasks) (simp_all add: requestCancellation_def tasks_with_def is_refresh_def)

lemma tasks_with_removed:
  "tasks S' = remove_nth i (tasks S) \<Longrightarrow> i < length (tasks S) \<Longrightarrow>
     tasks_with Q S' = tasks_with Q S - one_if (Q (tasks S ! i))"
  by (simp only: tasks_with_def tasks_with_take)

lemma tasks_with_updated:
  "tasks S' = (tasks S)[i := v] \<Longrightarrow> i < length (tasks S) \<Longrightarrow>
     tasks_with Q S' = tasks_with Q S - one_if (Q (tasks S ! i)) + one_if (Q v)"
  by (simp only: tasks_with_def tasks_with_take)

lemma task_takes_keeps:
  assumes inv: "sched_inv S" and i: "i < length (tasks S)" and free: "\<not> task_holds (tasks S ! i)"
    "\<not> locked S (task_job (tasks S ! i))"
  shows "sched_inv (taskTakesMutex i S)"
proof -
  let ?t = "tasks S ! i" and ?S = "taskTakesMutex i S"
  have same: "jobExecutionStates ?S = jobExecutionStates S" "maxConcurrentJobs ?S = maxConcurrentJobs S"
    "permitsTaken ?S = permitsTaken S" "pendingRefreshCount ?S = pendingRefreshCount S"
    by (simp_all add: taskTakesMutex_def Let_def split: TaskKind.split)
  have w: "max 0 (waitingRefreshCount S - 1) = waitingRefreshCount S - 1" if "is_refresh ?t"
  proof -
    have "1 \<le> tasks_with (\<lambda>t. is_refresh t \<and> \<not> task_holds t) S"
      using i free that by (intro tasks_with_pos [of i]) simp_all
    then show ?thesis
      using invD(6) [OF inv] tasks_with_nonneg(2) [of "at_point {AwaitSemaphore, AwaitMutex}" S] by linarith
  qed
  consider (cancel) "task_kind ?t = Cancellation"
    | (skip) trig where "task_kind ?t = ImmediateRefresh trig" "\<not> acceptingBackgroundRefreshes S \<and> trig \<noteq> UserCommand"
    | (run) trig where "task_kind ?t = ImmediateRefresh trig" "\<not> (\<not> acceptingBackgroundRefreshes S \<and> trig \<noteq> UserCommand)"
    by (cases "task_kind ?t") auto
  then show ?thesis
  proof cases
    case skip
    then have S: "tasks ?S = remove_nth i (tasks S)" "locked ?S = locked S"
      "activeRefreshCount ?S = activeRefreshCount S" "waitingRefreshCount ?S = waitingRefreshCount S - 1"
      using w by (simp_all add: taskTakesMutex_def Let_def is_refresh_def)
    show ?thesis
      by (rule inv_tasks [OF inv same]) (use skip free in \<open>simp_all add: S tasks_with_removed [OF S(1) i] is_refresh_def\<close>)
  next
    case run
    then have S: "tasks ?S = (tasks S)[i := ?t\<lparr>task_holds := True\<rparr>]" "locked ?S = (locked S)(task_job ?t := True)"
      "activeRefreshCount ?S = activeRefreshCount S + 1" "waitingRefreshCount ?S = waitingRefreshCount S - 1"
      using w by (auto simp: taskTakesMutex_def Let_def is_refresh_def)
    show ?thesis
      by (rule inv_tasks [OF inv same]) (use run free in \<open>auto simp: S tasks_with_updated [OF S(1) i] is_refresh_def\<close>)
  next
    case cancel
    then have S: "tasks ?S = (tasks S)[i := ?t\<lparr>task_holds := True\<rparr>]" "locked ?S = (locked S)(task_job ?t := True)"
      "activeRefreshCount ?S = activeRefreshCount S" "waitingRefreshCount ?S = waitingRefreshCount S"
      by (simp_all add: taskTakesMutex_def Let_def)
    show ?thesis
      by (rule inv_tasks [OF inv same]) (use cancel free in \<open>auto simp: S tasks_with_updated [OF S(1) i] is_refresh_def\<close>)
  qed
qed

lemma task_done_keeps:
  assumes inv: "sched_inv S" and i: "i < length (tasks S)" and holds: "task_holds (tasks S ! i)"
  shows "sched_inv (taskDone i S)"
proof -
  let ?t = "tasks S ! i" and ?S = "taskDone i S"
  have same: "jobExecutionStates ?S = jobExecutionStates S" "maxConcurrentJobs ?S = maxConcurrentJobs S"
    "permitsTaken ?S = permitsTaken S" "pendingRefreshCount ?S = pendingRefreshCount S"
    by (simp_all add: taskDone_def Let_def split: TaskKind.split)
  have "1 \<le> tasks_with (\<lambda>t. task_holds t \<and> task_job t = task_job ?t) S"
    using i holds by (intro tasks_with_pos [of i]) simp_all
  then have l: "locked S (task_job ?t)" using invD(2) [OF inv, of "task_job ?t"] by (simp split: if_splits)
  have a: "max 0 (activeRefreshCount S - 1) = activeRefreshCount S - 1" if "is_refresh ?t"
  proof -
    have "1 \<le> tasks_with (\<lambda>t. is_refresh t \<and> task_holds t) S"
      using i holds that by (intro tasks_with_pos [of i]) simp_all
    then show ?thesis using invD(5) [OF inv] tasks_with_nonneg(2) [of executing S] by linarith
  qed
  have S: "tasks ?S = remove_nth i (tasks S)" "locked ?S = (locked S)(task_job ?t := False)"
    "waitingRefreshCount ?S = waitingRefreshCount S"
    "activeRefreshCount ?S = activeRefreshCount S - one_if (is_refresh ?t)"
    using a by (simp_all add: taskDone_def Let_def is_refresh_def split: TaskKind.split)
  show ?thesis
    by (rule inv_tasks [OF inv same]) (use holds l in \<open>auto simp: S tasks_with_removed [OF S(1) i]\<close>)
qed

lemma close_states_keeps: "sched_inv S \<Longrightarrow> sched_inv (close_states xs S)"
proof (induction xs S rule: close_states.induct)
  case (2 j st rest S)
  let ?st = "getJobExecutionState j S"
  have "sched_inv (put_state j (cleared ?st)
      ((notify (pendingCompletionObservers ?st) False S)\<lparr>pendingRefreshCount := pendingRefreshCount S - one_if (pending ?st)\<rparr>))"
    using invD(1) [OF 2(2), of j] invD(4) [OF 2(2)]
    by (intro inv_put [OF 2(2)]) (auto simp: state_ok_def)
  then show ?case
    using clear_pending_exact [OF 2(2), of ?st j] 2(1) by (simp add: Let_def)
qed simp

lemma admission_inv [simp]:
  "sched_inv (S\<lparr>acceptingBackgroundRefreshes := b\<rparr>) = sched_inv S"
  "sched_inv (S\<lparr>acceptingRefreshes := b\<rparr>) = sched_inv S"
  by (simp_all add: sched_inv_def counters_ok_def locks_ok_def)

section \<open>Runs of the scheduler\<close>

text \<open>
  The steps that carry work forward: a lock is granted, a strategy run or a cancellation ends, a
  loop checks for pending work or settles.  The multiset holds the observers that are dropped
  without a call.
\<close>

inductive work_step :: "Scheduler \<Rightarrow> nat multiset \<Rightarrow> Scheduler \<Rightarrow> bool" where
  semaphore: "loop_at j AwaitSemaphore opts S \<Longrightarrow> permitsTaken S < maxConcurrentJobs S \<Longrightarrow>
    work_step S {#} (loopTakesSemaphore j opts S)"
| mutex: "loop_at j AwaitMutex opts S \<Longrightarrow> \<not> locked S j \<Longrightarrow> work_step S {#} (loopTakesMutex j opts S)"
| executed: "loop_at j Executing opts S \<Longrightarrow> work_step S {#} (loopExecuted j opts ok S)"
| checked: "loop_at j Unlocked opts S \<Longrightarrow> work_step S {#} (loopChecksPending j opts now S)"
| settled: "loop_at j pt opts S \<Longrightarrow> pt = Returned \<or> pt = Thrown \<Longrightarrow>
    work_step S (mset (pendingCompletionObservers (getJobExecutionState j S))) (loopSettled j S)"
| taken: "i < length (tasks S) \<Longrightarrow> \<not> task_holds (tasks S ! i) \<Longrightarrow> \<not> locked S (task_job (tasks S ! i)) \<Longrightarrow>
    work_step S {#} (taskTakesMutex i S)"
| finished: "i < length (tasks S) \<Longrightarrow> task_holds (tasks S ! i) \<Longrightarrow> work_step S {#} (taskDone i S)"

text \<open>
  All steps, with the observers a request brings in.  In an orderly step background requests do not
  ask for exceptions, and do not arrive between the last check of a job's loop and its \<open>finally\<close>
  callback.
\<close>

inductive sched_step ::
  "bool \<Rightarrow> Scheduler \<Rightarrow> nat multiset \<Rightarrow> nat multiset \<Rightarrow> Scheduler \<Rightarrow> bool" for orderly where
  request: "(orderly \<Longrightarrow> \<not> throwOnFailure opts \<and> (\<forall>o'. \<not> loop_at j Returned o' S)) \<Longrightarrow>
    sched_step orderly S (mset (onCompleted opts)) {#} (refreshJobWithOptions j opts S)"
| immediate: "refreshJobImmediately j trig S = (a, S') \<Longrightarrow> sched_step orderly S {#} {#} S'"
| cancellation: "sched_step orderly S {#} {#} (requestCancellation j S)"
| closed: "sched_step orderly S {#} {#} (closeBackgroundRefreshAdmission S)"
| stopped: "sched_step orderly S {#} {#} (stop S)"
| work: "work_step S d S' \<Longrightarrow> sched_step orderly S {#} d S'"

inductive sched_run ::
  "bool \<Rightarrow> Scheduler \<Rightarrow> nat multiset \<Rightarrow> nat multiset \<Rightarrow> Scheduler \<Rightarrow> bool" for orderly S0 where
  start: "sched_run orderly S0 {#} {#} S0"
| step: "sched_run orderly S0 issued dropped S \<Longrightarrow> sched_step orderly S i d S' \<Longrightarrow>
    sched_run orderly S0 (issued + i) (dropped + d) S'"

lemma close_keeps: "sched_inv S \<Longrightarrow> sched_inv (closeBackgroundRefreshAdmission S)"
  by (simp add: closeBackgroundRefreshAdmission_def close_states_keeps)

lemma work_keeps: "work_step S d S' \<Longrightarrow> sched_inv S \<Longrightarrow> sched_inv S'"
  by (induction rule: work_step.induct)
    (blast intro: semaphore_keeps mutex_keeps executed_keeps check_keeps settled_keeps
      task_takes_keeps task_done_keeps)+

lemma step_keeps: "sched_step orderly S i d S' \<Longrightarrow> sched_inv S \<Longrightarrow> sched_inv S'"
proof (induction rule: sched_step.induct)
  case stopped
  then show ?case by (simp add: stop_def close_keeps)
qed (blast intro: request_keeps immediate_keeps cancellation_keeps close_keeps work_keeps)+

lemma new_scheduler_inv: "0 \<le> n \<Longrightarrow> sched_inv (new_scheduler n)"
  by (simp add: sched_inv_def new_scheduler_def distinct_states_def getJobExecutionState_def counters_ok_def
      locks_ok_def states_with_def tasks_with_def)

lemma run_inv: "sched_run orderly (new_scheduler n) issued dropped S \<Longrightarrow> 0 \<le> n \<Longrightarrow> sched_inv S"
  by (induction rule: sched_run.induct) (simp_all add: new_scheduler_inv step_keeps)

section \<open>No observer is lost\<close>

text \<open>The observers a job still owes a call: those waiting in the pending request, and those of the
  request its loop is working on.\<close>

definition carried :: "JobExecutionState \<Rightarrow> nat multiset" where
  "carried st = mset (pendingCompletionObservers st) +
     (case inFlightPromise st of None \<Rightarrow> {#}
      | Some (pt, opts) \<Rightarrow> if pt \<in> {AwaitSemaphore, AwaitMutex, Executing} then mset (onCompleted opts) else {#})"

definition owed :: "Scheduler \<Rightarrow> nat multiset" where
  "owed S = sum_list (map (\<lambda>p. carried (snd p)) (jobExecutionStates S))"

definition answered :: "Scheduler \<Rightarrow> nat multiset" where
  "answered S = mset (map fst (notified S))"

lemma carried_idle [simp]: "carried idle_state = {#}"
  by (simp add: carried_def)

lemma owed_put:
  assumes "distinct_states S"
  shows "owed (put_state j st S) + carried (getJobExecutionState j S) = owed S + carried st"
proof -
  have "sum_list (map (\<lambda>p. carried (snd p)) (AList.update j st al)) +
        carried (case map_of al j of None \<Rightarrow> idle_state | Some x \<Rightarrow> x) =
      sum_list (map (\<lambda>p. carried (snd p)) al) + carried st" if "distinct (map fst al)" for al
    using that by (induction al) (auto simp: ac_simps split: option.splits)
  with assms show ?thesis by (simp add: owed_def getJobExecutionState_def distinct_states_def)
qed

lemma owed_frame:
  assumes "jobExecutionStates S' = jobExecutionStates S"
  shows "owed S' = owed S" "owed (put_state j st S') = owed (put_state j st S)"
  using assms by (simp_all add: owed_def)

text \<open>The books of a scheduler after a step that brings in \<open>i\<close> and drops \<open>d\<close>.\<close>

definition balanced :: "Scheduler \<Rightarrow> nat multiset \<Rightarrow> nat multiset \<Rightarrow> Scheduler \<Rightarrow> bool" where
  "balanced S i d S' \<longleftrightarrow> answered S' + owed S' + d = answered S + owed S + i"

text \<open>A step that replaces the state of one job and calls the observers \<open>xs\<close>.\<close>

lemma balance_put:
  assumes "distinct_states S" and "jobExecutionStates S' = jobExecutionStates S" and "notified S' = notified S"
    and "mset xs + carried st + d = carried (getJobExecutionState j S) + i"
  shows "balanced S i d (notify xs b (put_state j st S'))"
proof -
  have a: "answered (notify xs b (put_state j st S')) = answered S + mset xs"
    using assms(3) by (simp add: answered_def notify_def put_state_def o_def)
  have o: "owed (notify xs b (put_state j st S')) = owed (put_state j st S)"
    using assms(2) by (simp add: owed_def)
  have "(mset xs + carried st + d) + (answered S + owed (put_state j st S)) + carried (getJobExecutionState j S) =
      (carried (getJobExecutionState j S) + i) + (answered S + (owed S + carried st))"
    unfolding assms(4) using owed_put [OF assms(1), of j st] by (simp add: ac_simps)
  then show ?thesis unfolding a o balanced_def by (simp add: ac_simps)
qed

lemma notify_none [simp]: "notify [] b S = S"
  by (simp add: notify_def)

lemmas balance_quiet = balance_put [where xs = "[]", simplified]

lemma carried_simps [simp]:
  "carried (set_point pt opts st) = mset (pendingCompletionObservers st) +
     (if pt \<in> {AwaitSemaphore, AwaitMutex, Executing} then mset (onCompleted opts) else {#})"
  "carried (st\<lparr>inFlightPromise := Some (pt, opts)\<rparr>) = carried (set_point pt opts st)"
  "carried (st\<lparr>inFlightPromise := None\<rparr>) = mset (pendingCompletionObservers st)"
  "carried (coalesce_request opts st) = carried st + mset (onCompleted opts)"
  "carried (st\<lparr>pending := b\<rparr>) = carried st" "carried (st\<lparr>executing := b\<rparr>) = carried st"
  "carried (st\<lparr>running := b\<rparr>) = carried st"
  "carried (cleared st) + mset (pendingCompletionObservers st) = carried st"
  by (simp_all add: carried_def set_point_def cleared_def coalesce_request_def split: option.split)

lemma loop_carried:
  "loop_at j pt opts S \<Longrightarrow> carried (getJobExecutionState j S) =
     mset (pendingCompletionObservers (getJobExecutionState j S)) +
     (if pt \<in> {AwaitSemaphore, AwaitMutex, Executing} then mset (onCompleted opts) else {#})"
  by (simp add: carried_def loop_at_def)

lemma request_balanced:
  assumes inv: "sched_inv S"
  shows "balanced S (mset (onCompleted opts)) {#} (refreshJobWithOptions j opts S)"
proof -
  let ?st = "getJobExecutionState j S"
  note d = inv [unfolded sched_inv_def, THEN conjunct1] and ok = invD(1) [OF inv, of j]
  consider (closed) "\<not> acceptingBackgroundRefreshes S" | (run) "acceptingBackgroundRefreshes S" "running ?st"
    | (idle) "acceptingBackgroundRefreshes S" "\<not> running ?st" by blast
  then show ?thesis
  proof cases
    case closed
    then show ?thesis
      by (simp add: refreshJobWithOptions_def balanced_def answered_def notify_def owed_def o_def)
  next
    case run
    with set_pending_exact [OF inv, of ?st j True] show ?thesis
      by (simp add: refreshJobWithOptions_def Let_def balance_quiet [OF d])
  next
    case idle
    then have "carried ?st = {#}" "pendingCompletionObservers ?st = []"
      using ok by (auto simp: state_ok_def carried_def split: option.splits)
    with idle clear_pending_exact [OF inv, of "?st\<lparr>running := True\<rparr>" j] show ?thesis
      by (simp add: refreshJobWithOptions_def Let_def balance_quiet [OF d])
  qed
qed

lemma same_books: "jobExecutionStates S' = jobExecutionStates S \<Longrightarrow> notified S' = notified S \<Longrightarrow> balanced S {#} {#} S'"
  by (simp add: balanced_def answered_def owed_def)

lemma work_balanced:
  assumes "work_step S d S'" and inv: "sched_inv S"
  shows "balanced S {#} d S'"
  using assms(1)
proof cases
  note dist = inv [unfolded sched_inv_def, THEN conjunct1]
  case (semaphore j opts)
  then show ?thesis
    by (simp add: loopTakesSemaphore_def balance_quiet [OF dist] loop_carried)
next
  note dist = inv [unfolded sched_inv_def, THEN conjunct1]
  case (mutex j opts)
  then show ?thesis
    by (simp add: loopTakesMutex_def Let_def balance_quiet [OF dist] balance_put [OF dist] loop_carried)
next
  note dist = inv [unfolded sched_inv_def, THEN conjunct1]
  case (executed j opts ok)
  then show ?thesis
    by (simp add: loopExecuted_def Let_def balance_put [OF dist] loop_carried)
next
  note dist = inv [unfolded sched_inv_def, THEN conjunct1]
  case (checked j opts now)
  then show ?thesis
    by (simp add: loopChecksPending_def clear_pending_exact [OF inv] Let_def balance_quiet [OF dist] loop_carried)
next
  note dist = inv [unfolded sched_inv_def, THEN conjunct1]
  case (settled j pt opts)
  then show ?thesis
    using clear_pending_exact [OF inv, of "(getJobExecutionState j S)\<lparr>running := False\<rparr>" j]
    by (auto simp: loopSettled_def balance_quiet [OF dist] loop_carried)
next
  case (taken i)
  then show ?thesis by (auto simp: taskTakesMutex_def Let_def intro!: same_books split: TaskKind.split)
next
  case (finished i)
  then show ?thesis by (auto simp: taskDone_def Let_def intro!: same_books split: TaskKind.split)
qed

lemma close_states_balanced: "sched_inv S \<Longrightarrow> balanced S {#} {#} (close_states xs S)"
proof (induction xs S rule: close_states.induct)
  case (2 j st rest S)
  let ?st = "getJobExecutionState j S" and ?n = "pendingRefreshCount S - one_if (pending (getJobExecutionState j S))"
  let ?S = "put_state j (cleared ?st) ((notify (pendingCompletionObservers ?st) False S)\<lparr>pendingRefreshCount := ?n\<rparr>)"
  have swap: "?S = notify (pendingCompletionObservers ?st) False (put_state j (cleared ?st) (S\<lparr>pendingRefreshCount := ?n\<rparr>))"
    by (simp add: notify_def put_state_def)
  have "balanced S {#} {#} ?S"
    unfolding swap using 2(2)
    by (simp add: balance_put sched_inv_def add.commute [of "mset _" "carried _"])
  moreover have "sched_inv ?S"
    using close_states_keeps [OF 2(2), of "[(j, st)]"] clear_pending_exact [OF 2(2), of ?st j] by (simp add: Let_def)
  ultimately show ?case
    using clear_pending_exact [OF 2(2), of ?st j] 2(1) by (simp add: Let_def balanced_def)
qed (simp add: balanced_def)

lemma close_balanced: "sched_inv S \<Longrightarrow> balanced S {#} {#} (closeBackgroundRefreshAdmission S)"
  using close_states_balanced [of "S\<lparr>acceptingBackgroundRefreshes := False\<rparr>" "jobExecutionStates S"]
  by (simp add: closeBackgroundRefreshAdmission_def balanced_def answered_def owed_def)

lemma step_balanced:
  assumes "sched_step orderly S i d S'" and inv: "sched_inv S"
  shows "balanced S i d S'"
  using assms(1)
proof cases
  case (immediate j trig a)
  then show ?thesis by (auto simp: refreshJobImmediately_def intro!: same_books split: if_splits)
next
  case (stopped)
  then show ?thesis using close_balanced [of "S\<lparr>acceptingRefreshes := False\<rparr>"] inv
    by (simp add: stop_def balanced_def answered_def owed_def)
qed (use inv request_balanced work_balanced close_balanced in
    \<open>auto simp: requestCancellation_def intro!: same_books\<close>)

lemma run_balanced:
  "sched_run orderly (new_scheduler n) issued dropped S \<Longrightarrow> 0 \<le> n \<Longrightarrow>
     issued = answered S + owed S + dropped"
proof (induction rule: sched_run.induct)
  case start
  show ?case by (simp add: answered_def owed_def new_scheduler_def)
next
  case (step issued dropped S i d S')
  have "balanced S i d S'" using step_balanced [OF step(2)] run_inv [OF step(1,4)] by blast
  with step show ?case by (simp add: balanced_def ac_simps)
qed

text \<open>In an orderly run nothing is dropped: a loop settles only after it has seen that nothing is
  pending, and no request has come since.\<close>

definition orderly_ok :: "JobExecutionState \<Rightarrow> bool" where
  "orderly_ok st \<longleftrightarrow> (at_point {Returned} st \<longrightarrow> \<not> pending st) \<and> \<not> at_point {Thrown} st \<and>
     pendingThrowOnFailure st \<noteq> Some True \<and>
     (case inFlightPromise st of None \<Rightarrow> True | Some (_, opts) \<Rightarrow> \<not> throwOnFailure opts)"

definition all_orderly :: "Scheduler \<Rightarrow> bool" where
  "all_orderly S \<longleftrightarrow> (\<forall>j. orderly_ok (getJobExecutionState j S))"

lemma orderly_put:
  "all_orderly S \<Longrightarrow> jobExecutionStates S' = jobExecutionStates S \<Longrightarrow> orderly_ok st \<Longrightarrow>
     all_orderly (notify xs b (put_state j st S'))"
  by (simp add: all_orderly_def) (simp add: getJobExecutionState_def)

lemmas orderly_quiet = orderly_put [where xs = "[]", simplified]

lemma orderly_same: "all_orderly S \<Longrightarrow> jobExecutionStates S' = jobExecutionStates S \<Longrightarrow> all_orderly S'"
  by (simp add: all_orderly_def getJobExecutionState_def)

lemma orderly_simps [simp]:
  "orderly_ok (set_point pt opts st) \<longleftrightarrow> (pt = Returned \<longrightarrow> \<not> pending st) \<and> pt \<noteq> Thrown \<and>
     pendingThrowOnFailure st \<noteq> Some True \<and> \<not> throwOnFailure opts"
  "orderly_ok (st\<lparr>executing := b\<rparr>) = orderly_ok st" "orderly_ok (st\<lparr>running := b\<rparr>) = orderly_ok st"
  "pendingThrowOnFailure (cleared st) = None" "pendingThrowOnFailure (set_point pt opts st) = pendingThrowOnFailure st"
  "orderly_ok (st\<lparr>inFlightPromise := None\<rparr>) \<longleftrightarrow> pendingThrowOnFailure st \<noteq> Some True"
  "orderly_ok (st\<lparr>inFlightPromise := Some (pt, opts)\<rparr>) = orderly_ok (set_point pt opts st)"
  "orderly_ok st \<Longrightarrow> orderly_ok (cleared st)"
  by (auto simp: orderly_ok_def cleared_def set_point_def at_point_def split: option.splits)

lemma orderly_coalesced:
  "orderly_ok st \<Longrightarrow> \<not> at_point {Returned} st \<Longrightarrow> \<not> throwOnFailure opts \<Longrightarrow>
     orderly_ok (coalesce_request opts (st\<lparr>pending := True\<rparr>))"
  by (auto simp: orderly_ok_def coalesce_request_def at_point_def split: option.splits)

lemma orderlyD:
  assumes "all_orderly S" and "loop_at j pt opts S"
  shows "\<not> throwOnFailure opts" "pt \<noteq> Thrown" "pendingThrowOnFailure (getJobExecutionState j S) \<noteq> Some True"
    "pt = Returned \<Longrightarrow> \<not> pending (getJobExecutionState j S)"
  using assms by (auto simp: all_orderly_def orderly_ok_def loop_at_def at_point_def dest: spec [of _ j])

lemma request_orderly:
  assumes inv: "sched_inv S" and o: "all_orderly S" "\<not> throwOnFailure opts" "\<And>o'. \<not> loop_at j Returned o' S"
  shows "all_orderly (refreshJobWithOptions j opts S)"
proof -
  let ?st = "getJobExecutionState j S"
  have n: "\<not> at_point {Returned} ?st" "orderly_ok ?st"
    using o by (auto simp: loop_at_def at_point_def all_orderly_def split: option.splits)
  consider (closed) "\<not> acceptingBackgroundRefreshes S" | (run) "acceptingBackgroundRefreshes S" "running ?st"
    | (idle) "acceptingBackgroundRefreshes S" "\<not> running ?st" by blast
  then show ?thesis
  proof cases
    case closed
    then show ?thesis by (simp add: refreshJobWithOptions_def orderly_same [OF o(1)])
  next
    case run
    with set_pending_exact [OF inv, of ?st j True] show ?thesis
      by (simp add: refreshJobWithOptions_def Let_def orderly_quiet [OF o(1)] orderly_coalesced [OF n(2,1) o(2)])
  next
    case idle
    with clear_pending_exact [OF inv, of "?st\<lparr>running := True\<rparr>" j] show ?thesis
      using o(2) by (simp add: refreshJobWithOptions_def Let_def orderly_quiet [OF o(1)])
  qed
qed

lemma work_orderly:
  assumes "work_step S d S'" and inv: "sched_inv S" and o: "all_orderly S"
  shows "all_orderly S' \<and> d = {#}"
  using assms(1)
proof cases
  case (semaphore j opts)
  then show ?thesis using orderlyD [OF o semaphore(3)] by (simp add: loopTakesSemaphore_def orderly_quiet [OF o])
next
  case (mutex j opts)
  then show ?thesis using orderlyD [OF o mutex(3)]
    by (simp add: loopTakesMutex_def Let_def orderly_quiet [OF o] orderly_put [OF o])
next
  case (executed j opts ok)
  then show ?thesis using orderlyD [OF o executed(3)] by (simp add: loopExecuted_def Let_def orderly_put [OF o])
next
  case (checked j opts now)
  then show ?thesis using orderlyD [OF o checked(3)]
    by (simp add: loopChecksPending_def clear_pending_exact [OF inv] Let_def orderly_quiet [OF o])
next
  case (settled j pt opts)
  then show ?thesis using orderlyD [OF o settled(3)] loop_at_facts(5) [OF inv settled(3)]
      clear_pending_exact [OF inv, of "(getJobExecutionState j S)\<lparr>running := False\<rparr>" j]
    by (auto simp: loopSettled_def orderly_quiet [OF o])
next
  case (taken i)
  then show ?thesis by (auto simp: taskTakesMutex_def Let_def intro!: orderly_same [OF o] split: TaskKind.split)
next
  case (finished i)
  then show ?thesis by (auto simp: taskDone_def Let_def intro!: orderly_same [OF o] split: TaskKind.split)
qed

lemma close_states_orderly: "sched_inv S \<Longrightarrow> all_orderly S \<Longrightarrow> all_orderly (close_states xs S)"
proof (induction xs S rule: close_states.induct)
  case (2 j st rest S)
  let ?st = "getJobExecutionState j S" and ?n = "pendingRefreshCount S - one_if (pending (getJobExecutionState j S))"
  let ?S = "put_state j (cleared ?st) ((notify (pendingCompletionObservers ?st) False S)\<lparr>pendingRefreshCount := ?n\<rparr>)"
  have "all_orderly ?S" using 2(3) by (intro orderly_quiet [OF 2(3)]) (simp_all add: all_orderly_def)
  moreover have "sched_inv ?S"
    using close_states_keeps [OF 2(2), of "[(j, st)]"] clear_pending_exact [OF 2(2), of ?st j] by (simp add: Let_def)
  ultimately show ?case
    using clear_pending_exact [OF 2(2), of ?st j] 2(1) by (simp add: Let_def)
qed simp

lemma close_orderly: "sched_inv S \<Longrightarrow> all_orderly S \<Longrightarrow> all_orderly (closeBackgroundRefreshAdmission S)"
  unfolding closeBackgroundRefreshAdmission_def
  by (rule close_states_orderly) (simp_all add: orderly_same)

lemma step_orderly:
  assumes "sched_step True S i d S'" and inv: "sched_inv S" and o: "all_orderly S"
  shows "all_orderly S' \<and> d = {#}"
  using assms(1)
proof cases
  case (request opts j)
  with request_orderly [OF inv o] show ?thesis by blast
next
  case (immediate j trig a)
  then show ?thesis by (auto simp: refreshJobImmediately_def intro!: orderly_same [OF o] split: if_splits)
next
  case (stopped)
  have "all_orderly (S\<lparr>acceptingRefreshes := False\<rparr>)" by (rule orderly_same [OF o]) simp
  with close_orderly [of "S\<lparr>acceptingRefreshes := False\<rparr>"] inv stopped show ?thesis by (simp add: stop_def)
qed (use inv o work_orderly close_orderly in \<open>auto simp: requestCancellation_def intro!: orderly_same [OF o]\<close>)

lemma run_orderly:
  "sched_run True (new_scheduler n) issued dropped S \<Longrightarrow> 0 \<le> n \<Longrightarrow> all_orderly S \<and> dropped = {#}"
proof (induction rule: sched_run.induct)
  case start
  show ?case by (simp add: all_orderly_def new_scheduler_def getJobExecutionState_def orderly_ok_def idle_state_def at_point_def)
next
  case (step issued dropped S i d S')
  with step_orderly [OF step(2)] run_inv [OF step(1,4)] show ?case by blast
qed

section \<open>Progress\<close>

definition quiescent :: "Scheduler \<Rightarrow> bool" where
  "quiescent S \<longleftrightarrow> tasks S = [] \<and> list_all (\<lambda>p. inFlightPromise (snd p) = None) (jobExecutionStates S)"

text \<open>An upper bound on the number of work steps ahead.\<close>

fun point_work :: "LoopPoint \<Rightarrow> nat" where
  "point_work AwaitSemaphore = 5"
| "point_work AwaitMutex = 4"
| "point_work Executing = 3"
| "point_work Unlocked = 2"
| "point_work Thrown = 1"
| "point_work Returned = 1"

definition state_work :: "JobExecutionState \<Rightarrow> nat" where
  "state_work st = (if pending st then 4 else 0) +
     (case inFlightPromise st of None \<Rightarrow> 0 | Some (pt, _) \<Rightarrow> point_work pt)"

definition task_work :: "Task \<Rightarrow> nat" where
  "task_work t = (if task_holds t then 1 else 2)"

definition work :: "Scheduler \<Rightarrow> nat" where
  "work S = sum_list (map (\<lambda>p. state_work (snd p)) (jobExecutionStates S)) + sum_list (map task_work (tasks S))"

lemma work_put:
  assumes "distinct_states S" and "jobExecutionStates S' = jobExecutionStates S" and "tasks S' = tasks S"
  shows "work (put_state j st S') + state_work (getJobExecutionState j S) = work S + state_work st"
proof -
  have "state_work idle_state = 0" by (simp add: state_work_def)
  then have "sum_list (map (\<lambda>p. state_work (snd p)) (AList.update j st al)) +
        state_work (case map_of al j of None \<Rightarrow> idle_state | Some x \<Rightarrow> x) =
      sum_list (map (\<lambda>p. state_work (snd p)) al) + state_work st" if "distinct (map fst al)" for al
    using that by (induction al) (auto split: option.splits)
  with assms show ?thesis by (simp add: work_def getJobExecutionState_def distinct_states_def)
qed

lemma work_less:
  assumes "distinct_states S" and "jobExecutionStates S' = jobExecutionStates S" and "tasks S' = tasks S"
    and "state_work st < state_work (getJobExecutionState j S)"
  shows "work (put_state j st S') < work S"
  using work_put [OF assms(1-3), of j st] assms(4) by linarith

lemma work_notify [simp]: "work (notify xs b S) = work S"
  by (simp add: work_def)

lemma state_work_simps [simp]:
  "state_work (set_point pt opts st) = (if pending st then 4 else 0) + point_work pt"
  "state_work ((cleared st)\<lparr>inFlightPromise := None\<rparr>) = 0"
  by (simp_all add: state_work_def set_point_def cleared_def)

lemma loop_work:
  "loop_at j pt opts S \<Longrightarrow> state_work (getJobExecutionState j S) =
     (if pending (getJobExecutionState j S) then 4 else 0) + point_work pt"
  by (simp add: state_work_def loop_at_def)

lemma tasks_work:
  assumes "i < length ts"
  shows "sum_list (map task_work (remove_nth i ts)) + task_work (ts ! i) = sum_list (map task_work ts)"
    and "sum_list (map task_work (ts[i := v])) + task_work (ts ! i) = sum_list (map task_work ts) + task_work v"
proof -
  have "sum_list (map task_work ts) =
      sum_list (map task_work (take i ts)) + task_work (ts ! i) + sum_list (map task_work (drop (Suc i) ts))"
    by (subst id_take_nth_drop [OF assms]) simp
  then show "sum_list (map task_work (remove_nth i ts)) + task_work (ts ! i) = sum_list (map task_work ts)"
    "sum_list (map task_work (ts[i := v])) + task_work (ts ! i) = sum_list (map task_work ts) + task_work v"
    using assms by (simp_all add: upd_conv_take_nth_drop remove_nth_def)
qed

lemma work_decreases:
  assumes "work_step S d S'" and inv: "sched_inv S"
  shows "work S' < work S"
  using assms(1)
proof cases
  note less = work_less [OF inv [unfolded sched_inv_def, THEN conjunct1]]
  case (semaphore j opts)
  then show ?thesis by (simp add: loopTakesSemaphore_def less loop_work)
next
  note less = work_less [OF inv [unfolded sched_inv_def, THEN conjunct1]]
  case (mutex j opts)
  then show ?thesis by (simp add: loopTakesMutex_def Let_def less loop_work)
next
  note less = work_less [OF inv [unfolded sched_inv_def, THEN conjunct1]]
  case (executed j opts ok)
  then show ?thesis by (simp add: loopExecuted_def Let_def less loop_work)
next
  note less = work_less [OF inv [unfolded sched_inv_def, THEN conjunct1]]
  case (checked j opts now)
  then show ?thesis
    by (simp add: loopChecksPending_def clear_pending_exact [OF inv] Let_def less loop_work)
next
  note less = work_less [OF inv [unfolded sched_inv_def, THEN conjunct1]]
  case (settled j pt opts)
  then show ?thesis
    using clear_pending_exact [OF inv, of "(getJobExecutionState j S)\<lparr>running := False\<rparr>" j]
    by (auto simp: loopSettled_def less loop_work)
next
  case (taken i)
  let ?ts = "sum_list (map task_work (tasks S))" and ?t = "tasks S ! i"
  have "sum_list (map task_work (remove_nth i (tasks S))) < ?ts"
    "sum_list (map task_work ((tasks S)[i := ?t\<lparr>task_holds := True\<rparr>])) < ?ts"
    using tasks_work(1) [OF taken(3)] tasks_work(2) [OF taken(3), of "?t\<lparr>task_holds := True\<rparr>"] taken(4)
    by (simp_all add: task_work_def)
  with taken show ?thesis by (auto simp: taskTakesMutex_def Let_def work_def split: TaskKind.split)
next
  case (finished i)
  then have "sum_list (map task_work (remove_nth i (tasks S))) < sum_list (map task_work (tasks S))"
    using tasks_work(1) [OF finished(3)] by (simp add: task_work_def)
  with finished show ?thesis by (auto simp: taskDone_def Let_def work_def split: TaskKind.split)
qed

lemma holder_can_finish:
  assumes inv: "sched_inv S" and "locked S j"
  shows "\<exists>d S'. work_step S d S'"
proof (cases "executing (getJobExecutionState j S)")
  case True
  then obtain opts where "loop_at j Executing opts S"
    using invD(1) [OF inv, of j] by (auto simp: state_ok_def at_point_def loop_at_def split: option.splits)
  then show ?thesis by (blast intro: work_step.executed)
next
  case False
  with invD(2) [OF inv, of j] assms(2) have "tasks_with (\<lambda>t. task_holds t \<and> task_job t = j) S = 1" by simp
  then have "filter (\<lambda>t. task_holds t \<and> task_job t = j) (tasks S) \<noteq> []" by (auto simp: tasks_with_def)
  then obtain t where "t \<in> set (tasks S)" "task_holds t" by (auto simp: filter_empty_conv)
  then obtain i where "i < length (tasks S)" "task_holds (tasks S ! i)" by (auto simp: in_set_conv_nth)
  then show ?thesis by (blast intro: work_step.finished)
qed

lemma mutex_waiter_can_step:
  assumes inv: "sched_inv S" and "loop_at j pt opts S" and "pt = AwaitMutex \<or> pt = Executing"
  shows "\<exists>d S'. work_step S d S'"
proof (cases "locked S j")
  case True
  then show ?thesis by (rule holder_can_finish [OF inv])
next
  case False
  with assms(2,3) show ?thesis by (blast intro: work_step.mutex work_step.executed)
qed

lemma state_of_entry: "sched_inv S \<Longrightarrow> (j, st) \<in> set (jobExecutionStates S) \<Longrightarrow> getJobExecutionState j S = st"
  by (simp add: sched_inv_def distinct_states_def getJobExecutionState_def)

lemma semaphore_waiter_can_step:
  assumes inv: "sched_inv S" and "loop_at j AwaitSemaphore opts S" and n: "1 \<le> maxConcurrentJobs S"
  shows "\<exists>d S'. work_step S d S'"
proof (cases "permitsTaken S < maxConcurrentJobs S")
  case True
  with assms(2) show ?thesis by (blast intro: work_step.semaphore)
next
  case False
  have "permitsTaken S = states_with (at_point {AwaitMutex, Executing}) S"
    using inv by (simp add: sched_inv_def locks_ok_def)
  with False n have "filter (\<lambda>p. at_point {AwaitMutex, Executing} (snd p)) (jobExecutionStates S) \<noteq> []"
    by (auto simp: states_with_def)
  then obtain i st where "(i, st) \<in> set (jobExecutionStates S)" "at_point {AwaitMutex, Executing} st"
    by (auto simp: filter_empty_conv)
  then obtain pt o' where "loop_at i pt o' S" "pt = AwaitMutex \<or> pt = Executing"
    using state_of_entry [OF inv] by (auto simp: at_point_def loop_at_def split: option.splits)
  then show ?thesis by (rule mutex_waiter_can_step [OF inv])
qed

text \<open>There is no deadlock.\<close>

lemma work_remains_possible:
  assumes inv: "sched_inv S" and n: "1 \<le> maxConcurrentJobs S" and "\<not> quiescent S"
  shows "\<exists>d S'. work_step S d S'"
proof (cases "tasks S")
  case (Cons t ts)
  then have i: "0 < length (tasks S)" "tasks S ! 0 = t" by simp_all
  show ?thesis
  proof (cases "locked S (task_job t)")
    case True
    then show ?thesis by (rule holder_can_finish [OF inv])
  next
    case False
    with i show ?thesis by (cases "task_holds t") (metis work_step.finished, metis work_step.taken)
  qed
next
  case Nil
  with assms(3) obtain j st where "(j, st) \<in> set (jobExecutionStates S)" "inFlightPromise st \<noteq> None"
    by (auto simp: quiescent_def list_all_iff)
  then obtain pt opts where at: "loop_at j pt opts S"
    using state_of_entry [OF inv] by (auto simp: loop_at_def)
  then show ?thesis
  proof (cases pt)
    case AwaitSemaphore
    with at show ?thesis using semaphore_waiter_can_step [OF inv _ n] by blast
  qed (use at mutex_waiter_can_step [OF inv at] in \<open>blast intro: work_step.checked work_step.settled\<close>)+
qed

lemma quiescent_owes_nothing:
  assumes inv: "sched_inv S" and "quiescent S"
  shows "owed S = {#}"
proof -
  have "carried st = {#}" if "(j, st) \<in> set (jobExecutionStates S)" for j st
  proof -
    have "inFlightPromise st = None" using that assms(2) by (auto simp: quiescent_def list_all_iff)
    moreover have "state_ok st" using invD(1) [OF inv, of j] state_of_entry [OF inv that] by simp
    ultimately show ?thesis by (auto simp: carried_def state_ok_def)
  qed
  then have "map (\<lambda>p. carried (snd p)) (jobExecutionStates S) = map (\<lambda>_. {#}) (jobExecutionStates S)" by auto
  then show ?thesis unfolding owed_def by (simp only: sum_list_0)
qed

lemma capacity_kept: "sched_step orderly S i d S' \<Longrightarrow> maxConcurrentJobs S' = maxConcurrentJobs S"
proof -
  have close: "maxConcurrentJobs (close_states xs S) = maxConcurrentJobs S" for xs S
    by (induction xs S rule: close_states.induct) (simp_all add: Let_def clearPendingRefresh_def split: prod.split)
  have w: "work_step S d S' \<Longrightarrow> maxConcurrentJobs S' = maxConcurrentJobs S" for d S S'
    by (induction rule: work_step.induct)
      (simp_all add: loopTakesSemaphore_def loopTakesMutex_def loopExecuted_def loopChecksPending_def loopSettled_def
        taskTakesMutex_def taskDone_def Let_def split: prod.split TaskKind.split)
  show "sched_step orderly S i d S' \<Longrightarrow> maxConcurrentJobs S' = maxConcurrentJobs S"
    by (induction rule: sched_step.induct)
      (auto simp: refreshJobWithOptions_def refreshJobImmediately_def requestCancellation_def stop_def
        closeBackgroundRefreshAdmission_def close w Let_def split: prod.splits if_splits)
qed

lemma run_capacity: "sched_run orderly (new_scheduler n) issued dropped S \<Longrightarrow> maxConcurrentJobs S = n"
  by (induction rule: sched_run.induct) (auto simp: new_scheduler_def dest: capacity_kept)

lemma filter_length_mono: "(\<And>x. x \<in> set xs \<Longrightarrow> P x \<Longrightarrow> Q x) \<Longrightarrow> length (filter P xs) \<le> length (filter Q xs)"
  by (induction xs) (auto simp: le_SucI)

lemma executing_within_permits:
  assumes inv: "sched_inv S"
  shows "states_with executing S \<le> maxConcurrentJobs S"
proof -
  have "at_point {AwaitMutex, Executing} st" if "(i, st) \<in> set (jobExecutionStates S)" "executing st" for i st
    using invD(1) [OF inv, of i] state_of_entry [OF inv that(1)] that(2)
    by (auto simp: state_ok_def at_point_def split: option.splits)
  then have "states_with executing S \<le> states_with (at_point {AwaitMutex, Executing}) S"
    unfolding states_with_def by (simp only: of_nat_le_iff) (rule filter_length_mono, auto)
  then show ?thesis using inv by (simp add: sched_inv_def locks_ok_def)
qed

lemma resolved_positive: "resolveMaxConcurrentJobs v = Some n \<Longrightarrow> 1 \<le> n"
  by (auto simp: resolveMaxConcurrentJobs_def Let_def split: if_splits)

lemma default_concurrency: "resolveMaxConcurrentJobs None = Some 1"
  by (simp add: resolveMaxConcurrentJobs_def)

section \<open>A sample run\<close>

text \<open>One hot-stream request for one job, carried through its loop.\<close>

definition sample_request :: JobExecutionOptions where
  "sample_request = \<lparr>throwOnFailure = False, requestContext = None, trigger = HotStream, requestedAt = 5,
     onCompleted = [7], progress = None\<rparr>"

definition sample_executing :: Scheduler where
  "sample_executing = loopTakesMutex ''a'' sample_request (loopTakesSemaphore ''a'' sample_request
     (refreshJobWithOptions ''a'' sample_request (new_scheduler 1)))"

definition sample_returned :: Scheduler where
  "sample_returned = loopChecksPending ''a'' sample_request 9 (loopExecuted ''a'' sample_request True sample_executing)"

lemmas sample_defs = sample_request_def sample_executing_def sample_returned_def new_scheduler_def
  refreshJobWithOptions_def loopTakesSemaphore_def loopTakesMutex_def loopExecuted_def loopChecksPending_def
  loopSettled_def getJobExecutionState_def put_state_def set_point_def idle_state_def clearPendingRefresh_def
  setRefreshPending_def notify_def loop_at_def

lemma sample_steps:
  "sched_run True (new_scheduler 1) {#7#} {#} sample_executing"
  "sched_run True (new_scheduler 1) {#7#} {#} (loopSettled ''a'' sample_returned)"
  "sched_run True (new_scheduler 1) {#7#} {#} sample_returned"
proof -
  let ?r = "refreshJobWithOptions ''a'' sample_request (new_scheduler 1)"
  let ?s = "loopTakesSemaphore ''a'' sample_request ?r"
  let ?e = "loopExecuted ''a'' sample_request True sample_executing"
  note w = sched_run.step [OF _ sched_step.work, of _ _ _ _ _ "{#}", simplified]
  have "sched_step True (new_scheduler 1) (mset (onCompleted sample_request)) {#} ?r"
    by (rule sched_step.request) (simp add: sample_defs)
  then have r: "sched_run True (new_scheduler 1) {#7#} {#} ?r"
    using sched_run.step [OF sched_run.start, of True "new_scheduler 1" "{#7#}" "{#}" ?r] by (simp add: sample_request_def)
  have s: "sched_run True (new_scheduler 1) {#7#} {#} ?s"
    by (rule w [OF r], rule work_step.semaphore) (simp_all add: sample_defs)
  show x: "sched_run True (new_scheduler 1) {#7#} {#} sample_executing"
    unfolding sample_executing_def by (rule w [OF s], rule work_step.mutex) (simp_all add: sample_defs)
  have e: "sched_run True (new_scheduler 1) {#7#} {#} ?e"
    by (rule w [OF x], rule work_step.executed) (simp add: sample_defs)
  show c: "sched_run True (new_scheduler 1) {#7#} {#} sample_returned"
    unfolding sample_returned_def by (rule w [OF e], rule work_step.checked) (simp add: sample_defs)
  have "work_step sample_returned (mset (pendingCompletionObservers (getJobExecutionState ''a'' sample_returned)))
      (loopSettled ''a'' sample_returned)"
    by (rule work_step.settled [of _ Returned sample_request]) (simp_all add: sample_defs)
  then show "sched_run True (new_scheduler 1) {#7#} {#} (loopSettled ''a'' sample_returned)"
    by (intro w [OF c]) (simp add: sample_defs)
qed

section \<open>Properties\<close>

text \<open>C17. In every state the scheduler can reach, at most \<open>maxConcurrentJobs\<close> background loops
  execute a strategy, at most one strategy run or cancellation holds a given job, a job's mutex is
  locked exactly when one does, and the three pressure counters equal the number of active, waiting
  and pending refreshes: no clamp at zero ever hides an error.\<close>

theorem refreshes_are_exclusive:
  assumes "resolveMaxConcurrentJobs v = Some n" and "sched_run orderly (new_scheduler n) issued dropped S"
  shows "states_with executing S \<le> n \<and>
    one_if (executing (getJobExecutionState j S)) + tasks_with (\<lambda>t. task_holds t \<and> task_job t = j) S =
      one_if (locked S j) \<and>
    activeRefreshCount S = states_with executing S + tasks_with (\<lambda>t. is_refresh t \<and> task_holds t) S \<and>
    waitingRefreshCount S = states_with (at_point {AwaitSemaphore, AwaitMutex}) S +
      tasks_with (\<lambda>t. is_refresh t \<and> \<not> task_holds t) S \<and>
    pendingRefreshCount S = states_with pending S"
proof -
  have inv: "sched_inv S" using run_inv [OF assms(2)] resolved_positive [OF assms(1)] by simp
  show ?thesis using executing_within_permits [OF inv] invD [OF inv] run_capacity [OF assms(2)] by simp
qed

theorem refreshes_are_exclusive_witness:
  "states_with executing sample_executing = 1 \<and> locked sample_executing ''a'' \<and>
   activeRefreshCount sample_executing = 1 \<and> waitingRefreshCount sample_executing = 0"
  using refreshes_are_exclusive [OF default_concurrency sample_steps(1), of "''a''"]
  by (simp add: sample_defs states_with_def tasks_with_def at_point_def)

text \<open>C16. Without exceptions and without a request in the gap before a loop's \<open>finally\<close> callback, no
  completion observer is lost or called twice: the requests issued are those answered plus those still
  owed, and once the scheduler is quiescent all are answered.  It becomes quiescent whenever no more
  requests arrive: until then some work step is possible, and every work step lowers a bound on the
  steps ahead.\<close>

theorem requests_are_answered:
  assumes "resolveMaxConcurrentJobs v = Some n" and "sched_run True (new_scheduler n) issued dropped S"
  shows "issued = answered S + owed S \<and> (quiescent S \<longrightarrow> issued = answered S) \<and>
    (\<not> quiescent S \<longrightarrow> (\<exists>d S'. work_step S d S')) \<and> (\<forall>d S'. work_step S d S' \<longrightarrow> work S' < work S)"
proof -
  have n: "0 \<le> n" and one: "1 \<le> n" using resolved_positive [OF assms(1)] by simp_all
  note inv = run_inv [OF assms(2) n]
  show ?thesis
    using run_balanced [OF assms(2) n] run_orderly [OF assms(2) n] quiescent_owes_nothing [OF inv]
      work_remains_possible [OF inv] work_decreases [OF _ inv] run_capacity [OF assms(2)] one
    by auto
qed

theorem requests_are_answered_witness:
  "quiescent (loopSettled ''a'' sample_returned) \<and> answered (loopSettled ''a'' sample_returned) = {#7#}"
proof -
  have "quiescent (loopSettled ''a'' sample_returned)" by (simp add: sample_defs quiescent_def)
  with requests_are_answered [OF default_concurrency sample_steps(2)] show ?thesis by metis
qed

text \<open>C37. The gap is real: a background request that arrives after the loop of its job has checked
  for pending work, but before the \<open>finally\<close> callback of its promise, is coalesced into a loop that is
  already over.  The callback clears it: the job is idle again, no strategy has run for the request,
  and its observer is never called.\<close>

theorem late_request_is_dropped:
  assumes "sched_inv S" and "acceptingBackgroundRefreshes S" and "loop_at j Returned opts' S"
    and "\<not> pending (getJobExecutionState j S)"
  shows "notified (loopSettled j (refreshJobWithOptions j opts S)) = notified S \<and>
    owed (loopSettled j (refreshJobWithOptions j opts S)) = owed S \<and>
    \<not> running (getJobExecutionState j (loopSettled j (refreshJobWithOptions j opts S))) \<and>
    \<not> pending (getJobExecutionState j (loopSettled j (refreshJobWithOptions j opts S)))"
proof -
  let ?st = "getJobExecutionState j S" and ?S1 = "refreshJobWithOptions j opts S"
  note f = loop_at_facts [OF assms(1,3)]
  have S1: "?S1 = put_state j (coalesce_request opts (?st\<lparr>pending := True\<rparr>))
      (S\<lparr>pendingRefreshCount := pendingRefreshCount S + 1\<rparr>)"
    using assms(2,4) f(1) set_pending_exact [OF assms(1), of ?st j True] by (simp add: refreshJobWithOptions_def Let_def)
  have at: "loop_at j Returned opts' ?S1" using f(4) by (simp add: S1 loop_at_def)
  have inv: "sched_inv ?S1" by (rule request_keeps [OF assms(1)])
  have eq: "loopSettled j ?S1 = put_state j
      ((cleared ((getJobExecutionState j ?S1)\<lparr>running := False\<rparr>))\<lparr>inFlightPromise := None\<rparr>)
      (?S1\<lparr>pendingRefreshCount := pendingRefreshCount ?S1 - one_if (pending (getJobExecutionState j ?S1))\<rparr>)"
    using clear_pending_exact [OF inv, of "(getJobExecutionState j ?S1)\<lparr>running := False\<rparr>" j]
    by (simp add: loopSettled_def)
  have n: "notified (loopSettled j ?S1) = notified S" unfolding eq by (simp add: S1 put_state_def)
  have "balanced S (mset (onCompleted opts)) {#} ?S1" "balanced ?S1 {#} (mset (onCompleted opts)) (loopSettled j ?S1)"
    using request_balanced [OF assms(1), of opts j] work_balanced [OF work_step.settled [OF at] inv] f(5) [OF assms(4)]
    by (simp_all add: S1)
  then have "owed (loopSettled j ?S1) = owed S" using n by (simp add: balanced_def answered_def)
  with n show ?thesis by (simp add: eq)
qed

theorem late_request_is_dropped_witness:
  "notified (loopSettled ''a'' (refreshJobWithOptions ''a'' (sample_request\<lparr>onCompleted := [8]\<rparr>) sample_returned)) =
     [(7, True)]"
proof -
  have "sched_inv sample_returned" by (rule run_inv [OF sample_steps(3)]) simp
  moreover have "loop_at ''a'' Returned sample_request sample_returned" "acceptingBackgroundRefreshes sample_returned"
    "\<not> pending (getJobExecutionState ''a'' sample_returned)" "notified sample_returned = [(7, True)]"
    by (simp_all add: sample_defs)
  ultimately show ?thesis
    using late_request_is_dropped [of sample_returned "''a''" sample_request "sample_request\<lparr>onCompleted := [8]\<rparr>"] by simp
qed

end
