(* ===== verification/Command_Outbox.thy ===== *)
theory Command_Outbox
  imports Prelude
begin

text \<open>
  The durable command queue (\<^verbatim>\<open>trading/src/adapters/jobs/sqlite-bidding-job-command-repository.ts\<close>
  with the command type of
  \<^verbatim>\<open>trading/src/application/use-cases/bidding/bidding-job-command-repository.ts\<close>).  The table is the
  list of its rows; the SQL statements are list functions.  A transaction that throws leaves the
  table as it was.  Times are milliseconds; the comparison of a claim time, which has fractions of a
  second, with the cutoff, which has none, is a comparison of whole seconds, as it is for the texts
  SQLite compares.

  The locale \<open>ordered_outbox\<close> states what the reconciler relies on; it is interpreted on the table.
\<close>

section \<open>Rows and commands\<close>

datatype TradingJobCommandKind = JobCreated | JobUpdated | JobPaused | JobArchived | CancelActiveOffer

datatype TradingJobCommandStatus = Pending | Processing | Completed | FailedRetry | FailedTerminal

text \<open>\<open>payload_json\<close> is represented by what \<open>JSON.parse\<close> makes of it, nothing if it throws, and
  \<open>created_at\<close> by what \<open>Date.parse\<close> makes of it.\<close>

record TradingJobCommandRow =
  row_commandId :: int
  row_botKind :: string
  row_jobId :: string
  row_commandKind :: TradingJobCommandKind
  row_status :: TradingJobCommandStatus
  row_requestedRevision :: int
  row_payload :: "jsval option"
  row_attempts :: int
  row_createdAt :: "number option"
  row_claimedAt :: "int option"
  row_completedAt :: "int option"
  row_lastError :: "string option"

record BiddingJobCommand =
  cmd_commandId :: int
  cmd_jobId :: string
  cmd_commandKind :: TradingJobCommandKind
  cmd_status :: TradingJobCommandStatus
  cmd_requestedRevision :: int
  cmd_payload :: "(string \<times> jsval) list"
  cmd_attempts :: int
  cmd_createdAtMs :: number
  cmd_claimedAtMs :: int
  cmd_reclaimed :: bool

datatype outbox_error = MissingTimestamps int | InvalidCreatedAt int | InvalidPayload int | ReloadFailed int

type_synonym command_table = "TradingJobCommandRow list"

section \<open>Claiming\<close>

definition claimable :: "int \<Rightarrow> TradingJobCommandRow \<Rightarrow> bool" where
  "claimable cutoff row \<longleftrightarrow>
     row_botKind row = ''bidding'' \<and> row_completedAt row = None \<and>
     (row_status row \<in> {Pending, FailedRetry} \<or>
      row_status row = Processing \<and>
        (case row_claimedAt row of None \<Rightarrow> False | Some t \<Rightarrow> t div 1000 < cutoff div 1000))"

definition selectClaimableCommands :: "int \<Rightarrow> nat \<Rightarrow> command_table \<Rightarrow> TradingJobCommandRow list" where
  "selectClaimableCommands cutoff limit table =
     take limit (sort_key row_commandId (filter (claimable cutoff) table))"

definition update_rows ::
  "int \<Rightarrow> (TradingJobCommandRow \<Rightarrow> TradingJobCommandRow) \<Rightarrow> command_table \<Rightarrow> command_table" where
  "update_rows i f table = map (\<lambda>row. if row_commandId row = i then f row else row) table"

definition claimCommandById :: "int \<Rightarrow> int \<Rightarrow> command_table \<Rightarrow> command_table" where
  "claimCommandById sqlNow i =
     update_rows i (\<lambda>row. row\<lparr>row_status := Processing, row_attempts := row_attempts row + 1,
       row_claimedAt := Some sqlNow, row_lastError := None\<rparr>)"

definition parsePayload :: "TradingJobCommandRow \<Rightarrow> outbox_error + (string \<times> jsval) list" where
  "parsePayload row =
     (case row_payload row of
        None \<Rightarrow> Inl (InvalidPayload (row_commandId row))
      | Some (JObj ps) \<Rightarrow> Inr ps
      | Some _ \<Rightarrow> Inr [])"

definition mapRow :: "TradingJobCommandRow \<Rightarrow> outbox_error + BiddingJobCommand" where
  "mapRow row =
     (case (row_createdAt row, row_claimedAt row) of
        (Some createdAt, Some claimedAt) \<Rightarrow>
          bindR (parsePayload row) (\<lambda>payload.
          if \<not> isFiniteNum createdAt then Inl (InvalidCreatedAt (row_commandId row))
          else Inr \<lparr>cmd_commandId = row_commandId row, cmd_jobId = row_jobId row,
            cmd_commandKind = row_commandKind row, cmd_status = row_status row,
            cmd_requestedRevision = row_requestedRevision row, cmd_payload = payload,
            cmd_attempts = row_attempts row, cmd_createdAtMs = createdAt, cmd_claimedAtMs = claimedAt,
            cmd_reclaimed = False\<rparr>)
      | _ \<Rightarrow> Inl (MissingTimestamps (row_commandId row)))"

fun claimRows ::
  "int \<Rightarrow> TradingJobCommandRow list \<Rightarrow> command_table \<Rightarrow> outbox_error + BiddingJobCommand list \<times> command_table" where
  "claimRows sqlNow [] table = Inr ([], table)"
| "claimRows sqlNow (row # rows) table =
     (let table1 = claimCommandById sqlNow (row_commandId row) table in
      case List.find (\<lambda>r. row_commandId r = row_commandId row) table1 of
        None \<Rightarrow> Inl (ReloadFailed (row_commandId row))
      | Some claimed \<Rightarrow>
          bindR (mapRow claimed) (\<lambda>command.
          bindR (claimRows sqlNow rows table1) (\<lambda>(commands, table2).
          Inr (command\<lparr>cmd_reclaimed := (row_status row = Processing)\<rparr> # commands, table2))))"

definition claimNextBatch ::
  "int \<Rightarrow> int \<Rightarrow> nat \<Rightarrow> int \<Rightarrow> command_table \<Rightarrow> (outbox_error + BiddingJobCommand list) \<times> command_table" where
  "claimNextBatch now sqlNow limit claimTimeoutMs table =
     (case claimRows sqlNow (selectClaimableCommands (now - claimTimeoutMs) limit table) table of
        Inl e \<Rightarrow> (Inl e, table)
      | Inr (commands, table') \<Rightarrow> (Inr commands, table'))"

text \<open>The limit the reconciler passes.\<close>

definition ORDERED_COMMAND_CLAIM_LIMIT :: nat where
  "ORDERED_COMMAND_CLAIM_LIMIT = 1"

section \<open>Outcomes\<close>

definition markCompleted :: "int \<Rightarrow> int \<Rightarrow> command_table \<Rightarrow> command_table" where
  "markCompleted sqlNow i =
     update_rows i (\<lambda>row. row\<lparr>row_status := Completed, row_completedAt := Some sqlNow, row_lastError := None\<rparr>)"

definition failCommandById :: "TradingJobCommandStatus \<Rightarrow> int \<Rightarrow> string \<Rightarrow> command_table \<Rightarrow> command_table" where
  "failCommandById s i lastError =
     update_rows i (\<lambda>row. row\<lparr>row_status := s, row_lastError := Some lastError\<rparr>)"

definition markFailedRetry :: "int \<Rightarrow> string \<Rightarrow> command_table \<Rightarrow> command_table" where
  "markFailedRetry = failCommandById FailedRetry"

definition markFailedTerminal :: "int \<Rightarrow> string \<Rightarrow> command_table \<Rightarrow> command_table" where
  "markFailedTerminal = failCommandById FailedTerminal"

section \<open>What a client relies on\<close>

text \<open>
  A store of commands with a lifecycle: a claim takes the first open command, in the order of the
  ids, and marks it as being processed; an outcome changes the status of that command only.
\<close>

abbreviation open_status :: "TradingJobCommandStatus option \<Rightarrow> bool" where
  "open_status s \<equiv> s = Some Pending \<or> s = Some FailedRetry"

locale ordered_outbox =
  fixes claim :: "'t \<Rightarrow> 'db \<Rightarrow> ('e + 'c list) \<times> 'db"
    and complete :: "int \<Rightarrow> int \<Rightarrow> 'db \<Rightarrow> 'db"
    and fail :: "TradingJobCommandStatus \<Rightarrow> int \<Rightarrow> string \<Rightarrow> 'db \<Rightarrow> 'db"
    and ident :: "'c \<Rightarrow> int"
    and status :: "'db \<Rightarrow> int \<Rightarrow> TradingJobCommandStatus option"
    and wf :: "'db \<Rightarrow> bool"
  assumes claim_single: "claim t db = (Inr cs, db') \<Longrightarrow> cs = [] \<or> (\<exists>c. cs = [c])"
    and claim_wf: "wf db \<Longrightarrow> claim t db = (r, db') \<Longrightarrow> wf db'"
    and claim_first: "wf db \<Longrightarrow> claim t db = (Inr [c], db') \<Longrightarrow> i < ident c \<Longrightarrow> \<not> open_status (status db i)"
    and claim_status: "wf db \<Longrightarrow> claim t db = (Inr [c], db') \<Longrightarrow>
      status db' = (status db)(ident c \<mapsto> Processing) \<and>
      (open_status (status db (ident c)) \<or> status db (ident c) = Some Processing)"
    and claim_nothing: "wf db \<Longrightarrow> claim t db = (Inr [], db') \<Longrightarrow> db' = db \<and> (\<forall>i. \<not> open_status (status db i))"
    and claim_error: "claim t db = (Inl e, db') \<Longrightarrow> db' = db"
    and complete_wf: "wf db \<Longrightarrow> status db i = Some Processing \<Longrightarrow> wf (complete n i db)"
    and complete_status: "wf db \<Longrightarrow> status db i = Some Processing \<Longrightarrow>
      status (complete n i db) = (status db)(i \<mapsto> Completed)"
    and fail_wf: "wf db \<Longrightarrow> status db i = Some Processing \<Longrightarrow> s = FailedRetry \<or> s = FailedTerminal \<Longrightarrow> wf (fail s i m db)"
    and fail_status: "wf db \<Longrightarrow> status db i = Some Processing \<Longrightarrow> s = FailedRetry \<or> s = FailedTerminal \<Longrightarrow>
      status (fail s i m db) = (status db)(i \<mapsto> s)"
begin

lemma earlier_finished:
  assumes "wf db" and "\<And>i. status db i \<noteq> Some Processing" and "claim t db = (Inr [c], db')" and "i < ident c"
  shows "status db i \<in> {None, Some Completed, Some FailedTerminal}"
proof -
  from claim_first [OF assms(1,3,4)] assms(2) [of i] show ?thesis
    by (cases "status db i") (auto intro: TradingJobCommandStatus.exhaust)
qed

lemma claimed_was_open:
  assumes "wf db" and "\<And>i. status db i \<noteq> Some Processing" and "claim t db = (Inr [c], db')"
  shows "open_status (status db (ident c))" and "status db' (ident c) = Some Processing"
  using claim_status [OF assms(1,3)] assms(2) by auto

text \<open>After an outcome nothing is being processed again, and if the command is finished the next claim
  is a later one.\<close>

lemma outcome_settles:
  assumes "wf db" and none: "\<And>i. status db i \<noteq> Some Processing" and claim: "claim t db = (Inr [c], db')"
    and "status db2 = (status db')(ident c \<mapsto> s)" and "s \<noteq> Processing"
  shows "status db2 i \<noteq> Some Processing" and "status db2 = (status db)(ident c \<mapsto> s)"
  using claim_status [OF assms(1) claim] assms(4,5) none by auto

lemma next_claim_is_later:
  assumes wf: "wf db" "wf db2" and none: "\<And>i. status db i \<noteq> Some Processing"
    and claim: "claim t db = (Inr [c], db')" "claim t2 db2 = (Inr [c2], db3)"
    and s: "status db2 = (status db)(ident c \<mapsto> s)" "s = Completed \<or> s = FailedTerminal"
  shows "ident c < ident c2"
proof (rule ccontr)
  assume "\<not> ident c < ident c2"
  then consider "ident c2 = ident c" | "ident c2 < ident c" by linarith
  then show False
  proof cases
    case 1
    from claim_status [OF wf(2) claim(2)] s show False unfolding 1 by auto
  next
    case 2
    from claim_status [OF wf(2) claim(2)] s(1) 2 have "open_status (status db (ident c2)) \<or> status db (ident c2) = Some Processing"
      by auto
    with none claim_first [OF wf(1) claim(1) 2] show False by blast
  qed
qed

end

section \<open>The table keeps the contract\<close>

definition row_at :: "command_table \<Rightarrow> int \<Rightarrow> TradingJobCommandRow option" where
  "row_at table = map_of (map (\<lambda>row. (row_commandId row, row)) table)"

definition status_of :: "command_table \<Rightarrow> int \<Rightarrow> TradingJobCommandStatus option" where
  "status_of table i =
     (case row_at table i of
        None \<Rightarrow> None
      | Some row \<Rightarrow> if row_botKind row = ''bidding'' then Some (row_status row) else None)"

text \<open>\<open>command_id\<close> is the primary key, and a row has a completion time exactly when it is completed.\<close>

definition wf_table :: "command_table \<Rightarrow> bool" where
  "wf_table table \<longleftrightarrow> distinct (map row_commandId table) \<and>
     list_all (\<lambda>row. row_completedAt row = None \<longleftrightarrow> row_status row \<noteq> Completed) table"

lemma find_row: "List.find (\<lambda>r. row_commandId r = i) table = row_at table i"
  unfolding row_at_def by (induction table) auto

lemma row_at_Some: "wf_table table \<Longrightarrow> row_at table i = Some row \<longleftrightarrow> row \<in> set table \<and> row_commandId row = i"
  unfolding row_at_def wf_table_def
  by (subst map_of_eq_Some_iff) (auto simp: o_def intro: rev_image_eqI)

lemma row_at_update:
  assumes "\<And>row. row_commandId (f row) = row_commandId row"
  shows "row_at (update_rows i f table) = (row_at table)(i := map_option f (row_at table i))"
  unfolding row_at_def update_rows_def by (rule ext, induction table) (auto simp: assms)

lemma wf_update:
  assumes "wf_table table" and "\<And>row. row_commandId (f row) = row_commandId row"
    and "\<And>row. row_at table i = Some row \<Longrightarrow> row_completedAt (f row) = None \<longleftrightarrow> row_status (f row) \<noteq> Completed"
  shows "wf_table (update_rows i f table)"
proof -
  have "map row_commandId (update_rows i f table) = map row_commandId table"
    by (simp add: update_rows_def assms(2))
  moreover have "list_all (\<lambda>row. row_completedAt row = None \<longleftrightarrow> row_status row \<noteq> Completed) (update_rows i f table)"
    using assms(1,3) row_at_Some [OF assms(1)] by (auto simp: update_rows_def wf_table_def list_all_iff)
  ultimately show ?thesis using assms(1) by (simp add: wf_table_def)
qed

lemma status_update:
  assumes "\<And>row. row_commandId (f row) = row_commandId row" and "\<And>row. row_botKind (f row) = row_botKind row"
    and "status_of table i \<noteq> None" and "\<And>row. row_status (f row) = s"
  shows "status_of (update_rows i f table) = (status_of table)(i \<mapsto> s)"
  using assms(3) unfolding status_of_def row_at_update [OF assms(1)]
  by (auto simp: assms(2,4) split: option.splits if_splits)

lemma first_claimable:
  assumes "selectClaimableCommands cutoff ORDERED_COMMAND_CLAIM_LIMIT table = rows"
  shows "(rows = [] \<and> (\<forall>row \<in> set table. \<not> claimable cutoff row)) \<or>
     (\<exists>row. rows = [row] \<and> row \<in> set table \<and> claimable cutoff row \<and>
        (\<forall>r \<in> set table. claimable cutoff r \<longrightarrow> row_commandId row \<le> row_commandId r))"
proof (cases "sort_key row_commandId (filter (claimable cutoff) table)")
  case Nil
  then have "filter (claimable cutoff) table = []" by (metis set_empty set_sort)
  with Nil assms show ?thesis by (auto simp: selectClaimableCommands_def filter_empty_conv)
next
  case (Cons row rest)
  have "sorted (map row_commandId (row # rest))" unfolding Cons [symmetric] by simp
  then have le: "row_commandId row \<le> row_commandId r" if "r \<in> set (row # rest)" for r
    using that by (auto simp: sorted_simps(2))
  have mem: "r \<in> set (row # rest) \<longleftrightarrow> r \<in> set table \<and> claimable cutoff r" for r
    unfolding Cons [symmetric] by simp
  have "rows = [row]" using assms Cons by (simp add: selectClaimableCommands_def ORDERED_COMMAND_CLAIM_LIMIT_def)
  moreover have "\<forall>r \<in> set table. claimable cutoff r \<longrightarrow> row_commandId row \<le> row_commandId r"
    using le mem by blast
  moreover have "row \<in> set table \<and> claimable cutoff row" using mem [of row] by simp
  ultimately show ?thesis by blast
qed

text \<open>The three outcomes of a claim.\<close>

lemma claim_cases:
  assumes wf: "wf_table table" and "claimNextBatch now sqlNow ORDERED_COMMAND_CLAIM_LIMIT timeout table = (r, table')"
  obtains (nothing) "r = Inr []" "table' = table" "\<And>row. row \<in> set table \<Longrightarrow> \<not> claimable (now - timeout) row"
  | (error) e where "r = Inl e" "table' = table"
  | (claimed) row c where "r = Inr [c]" "table' = claimCommandById sqlNow (row_commandId row) table"
      "row_at table (row_commandId row) = Some row" "claimable (now - timeout) row"
      "\<And>row'. row' \<in> set table \<Longrightarrow> claimable (now - timeout) row' \<Longrightarrow> row_commandId row \<le> row_commandId row'"
      "cmd_commandId c = row_commandId row" "cmd_attempts c = row_attempts row + 1"
      "cmd_jobId c = row_jobId row" "cmd_commandKind c = row_commandKind row"
  using first_claimable [OF refl, of "now - timeout" table]
proof (elim disjE exE conjE)
  assume "selectClaimableCommands (now - timeout) ORDERED_COMMAND_CLAIM_LIMIT table = []" "\<forall>row \<in> set table. \<not> claimable (now - timeout) row"
  with assms(2) have "r = Inr []" "table' = table" "\<And>row. row \<in> set table \<Longrightarrow> \<not> claimable (now - timeout) row"
    by (auto simp: claimNextBatch_def)
  then show thesis by (rule nothing)
next
  fix row
  assume sel: "selectClaimableCommands (now - timeout) ORDERED_COMMAND_CLAIM_LIMIT table = [row]" and row: "row \<in> set table"
    "claimable (now - timeout) row"
    "\<forall>r \<in> set table. claimable (now - timeout) r \<longrightarrow> row_commandId row \<le> row_commandId r"
  let ?c = "row\<lparr>row_status := Processing, row_attempts := row_attempts row + 1, row_claimedAt := Some sqlNow,
     row_lastError := None\<rparr>"
  have at: "row_at table (row_commandId row) = Some row" using row(1) by (simp add: row_at_Some [OF wf])
  then have f: "List.find (\<lambda>r. row_commandId r = row_commandId row)
      (claimCommandById sqlNow (row_commandId row) table) = Some ?c"
    by (simp add: find_row claimCommandById_def row_at_update)
  show thesis
  proof (cases "mapRow ?c")
    case (Inl e)
    with assms(2) sel f have "r = Inl e" "table' = table" by (auto simp: claimNextBatch_def Let_def)
    then show thesis by (rule error)
  next
    case (Inr c)
    have "cmd_commandId c = row_commandId row" "cmd_attempts c = row_attempts row + 1"
      "cmd_jobId c = row_jobId row" "cmd_commandKind c = row_commandKind row"
      using Inr by (auto simp: mapRow_def bindR_Inr_iff split: option.splits if_splits)
    with claimed [of "c\<lparr>cmd_reclaimed := (row_status row = Processing)\<rparr>" row] row at assms(2) sel f Inr show thesis
      by (simp add: claimNextBatch_def Let_def)
  qed
qed

lemma claim_keeps_wf: "wf_table table \<Longrightarrow> claimable cutoff row \<Longrightarrow> row_at table i = Some row \<Longrightarrow> wf_table (claimCommandById sqlNow i table)"
  unfolding claimCommandById_def by (rule wf_update) (auto simp: claimable_def)

lemma open_is_claimable:
  assumes "wf_table table" and "open_status (status_of table i)"
  obtains row where "row \<in> set table" "row_commandId row = i" "claimable cutoff row"
  using assms row_at_Some [OF assms(1)]
  by (fastforce simp: status_of_def claimable_def wf_table_def list_all_iff split: option.splits if_splits)

lemma claimable_status:
  "claimable cutoff row \<Longrightarrow> row_at table i = Some row \<Longrightarrow>
     open_status (status_of table i) \<or> status_of table i = Some Processing"
  by (auto simp: claimable_def status_of_def)

lemma complete_keeps_wf: "wf_table table \<Longrightarrow> wf_table (markCompleted n i table)"
  unfolding markCompleted_def by (rule wf_update) simp_all

lemma fail_keeps_wf:
  "wf_table table \<Longrightarrow> status_of table i = Some Processing \<Longrightarrow> s \<noteq> Completed \<Longrightarrow> wf_table (failCommandById s i m table)"
  unfolding failCommandById_def
  by (rule wf_update) (auto simp: status_of_def wf_table_def list_all_iff row_at_Some [unfolded wf_table_def list_all_iff]
      split: if_splits)

lemma mark_status:
  "status_of table i = Some Processing \<Longrightarrow> status_of (markCompleted n i table) = (status_of table)(i \<mapsto> Completed)"
  "status_of table i = Some Processing \<Longrightarrow> status_of (failCommandById s i m table) = (status_of table)(i \<mapsto> s)"
  unfolding markCompleted_def failCommandById_def by (rule status_update; simp)+

abbreviation claimNext :: "int \<times> int \<times> int \<Rightarrow> command_table \<Rightarrow> (outbox_error + BiddingJobCommand list) \<times> command_table" where
  "claimNext t table \<equiv> (case t of (now, sqlNow, timeout) \<Rightarrow> claimNextBatch now sqlNow ORDERED_COMMAND_CLAIM_LIMIT timeout table)"

interpretation outbox: ordered_outbox claimNext markCompleted failCommandById cmd_commandId status_of wf_table
proof
  fix t :: "int \<times> int \<times> int" and db cs db' r e c i n s m
  obtain now sqlNow timeout where t: "t = (now, sqlNow, timeout)" by (metis prod_cases3)
  show "claimNext t db = (Inr cs, db') \<Longrightarrow> cs = [] \<or> (\<exists>c. cs = [c])"
  proof -
    assume "claimNext t db = (Inr cs, db')"
    then show ?thesis using first_claimable [OF refl, of "now - timeout" db]
      by (auto simp: t claimNextBatch_def Let_def bindR_Inr_iff split: sum.splits option.splits prod.splits)
  qed
  show "claimNext t db = (Inl e, db') \<Longrightarrow> db' = db"
    by (auto simp: t claimNextBatch_def split: sum.splits)
  assume wf: "wf_table db"
  show "claimNext t db = (r, db') \<Longrightarrow> wf_table db'"
    using wf by (auto simp: t elim!: claim_cases [OF wf] intro: claim_keeps_wf)
  show "claimNext t db = (Inr [c], db') \<Longrightarrow> i < cmd_commandId c \<Longrightarrow> \<not> open_status (status_of db i)"
  proof
    assume "claimNext t db = (Inr [c], db')" "i < cmd_commandId c" "open_status (status_of db i)"
    then show False
      by (auto simp: t elim!: claim_cases [OF wf] open_is_claimable [OF wf, of i "now - timeout"]
          dest!: meta_spec)
  qed
  show "claimNext t db = (Inr [c], db') \<Longrightarrow> status_of db' = (status_of db)(cmd_commandId c \<mapsto> Processing) \<and>
      (open_status (status_of db (cmd_commandId c)) \<or> status_of db (cmd_commandId c) = Some Processing)"
  proof -
    assume "claimNext t db = (Inr [c], db')"
    then obtain row where r: "db' = claimCommandById sqlNow (row_commandId row) db"
      "row_at db (row_commandId row) = Some row" "claimable (now - timeout) row" "cmd_commandId c = row_commandId row"
      by (auto simp: t elim!: claim_cases [OF wf])
    have "status_of db (row_commandId row) \<noteq> None" using r by (auto simp: status_of_def claimable_def)
    then have "status_of db' = (status_of db)(row_commandId row \<mapsto> Processing)"
      unfolding r(1) claimCommandById_def by (rule status_update [rotated 2]) simp_all
    with claimable_status [OF r(3,2)] r(4) show ?thesis by simp
  qed
  show "claimNext t db = (Inr [], db') \<Longrightarrow> db' = db \<and> (\<forall>i. \<not> open_status (status_of db i))"
    by (auto simp: t elim!: claim_cases [OF wf]) (meson open_is_claimable [OF wf])+
  assume p: "status_of db i = Some Processing"
  show "wf_table (markCompleted n i db)" by (rule complete_keeps_wf [OF wf])
  show "status_of (markCompleted n i db) = (status_of db)(i \<mapsto> Completed)" by (rule mark_status(1) [OF p])
  assume "s = FailedRetry \<or> s = FailedTerminal"
  then show "wf_table (failCommandById s i m db)" using fail_keeps_wf [OF wf p] by blast
  show "status_of (failCommandById s i m db) = (status_of db)(i \<mapsto> s)" by (rule mark_status(2) [OF p])
qed

text \<open>
  C39. The order has a gap: a command whose claim is unfinished, because the process died or its
  outcome could not be written, does not hold back later commands.  While its claim has not timed
  out, the next claim succeeds and hands out the next open command, even one for the same job, so
  that the later command is processed before the earlier one has an outcome.
\<close>

theorem unfinished_claim_is_overtaken:
  assumes wf: "wf_table table"
    and row: "row_at table i = Some row" "row_status row = Processing"
      "row_claimedAt row = Some t" "(now - timeout) div 1000 \<le> t div 1000"
    and later: "i < k" "row_at table k = Some later" "open_status (status_of table k)"
      "row_createdAt later = Some (Fin q)" "row_payload later \<noteq> None"
    and others: "\<And>n. n < k \<Longrightarrow> n \<noteq> i \<Longrightarrow> status_of table n \<in> {None, Some Completed, Some FailedTerminal}"
  shows "\<exists>c table'. claimNextBatch now sqlNow ORDERED_COMMAND_CLAIM_LIMIT timeout table = (Inr [c], table') \<and>
     cmd_commandId c = k \<and> cmd_jobId c = row_jobId later \<and>
     row_at table' i = Some row \<and> status_of table' k = Some Processing"
proof -
  let ?cutoff = "now - timeout"
  let ?c = "later\<lparr>row_status := Processing, row_attempts := row_attempts later + 1, row_claimedAt := Some sqlNow,
     row_lastError := None\<rparr>" and ?t = "claimCommandById sqlNow k table"
  have id: "row_commandId later = k" "later \<in> set table" using later(2) row_at_Some [OF wf] by blast+
  obtain l where "l \<in> set table" "row_commandId l = k" "claimable ?cutoff l"
    using open_is_claimable [OF wf later(3)] by blast
  with later(2) row_at_Some [OF wf] have can: "claimable ?cutoff later" by (metis option.inject)
  then have bot: "row_botKind later = ''bidding''" by (simp add: claimable_def)
  have "\<not> claimable ?cutoff row" using row by (simp add: claimable_def)
  from first_claimable [OF refl, of ?cutoff table] can id(2) obtain r0 where
    r0: "selectClaimableCommands ?cutoff ORDERED_COMMAND_CLAIM_LIMIT table = [r0]" "r0 \<in> set table"
    "claimable ?cutoff r0" "row_commandId r0 \<le> k" using id(1) by blast
  have at: "row_at table (row_commandId r0) = Some r0" using r0(2) row_at_Some [OF wf] by blast
  have "row_commandId r0 \<noteq> i" using at row(1) r0(3) \<open>\<not> claimable ?cutoff row\<close> by auto
  moreover have "\<not> row_commandId r0 < k"
    using others [of "row_commandId r0"] calculation claimable_status [OF r0(3) at] by auto
  ultimately have "r0 = later" using at later(2) r0(4) by simp
  moreover from later(2) have find: "List.find (\<lambda>r. row_commandId r = k) ?t = Some ?c"
    by (simp add: find_row claimCommandById_def row_at_update)
  moreover have "\<exists>ps. parsePayload ?c = Inr ps"
    using later(5) by (auto simp: parsePayload_def split: jsval.split)
  then obtain c where c: "mapRow ?c = Inr c" "cmd_commandId c = k" "cmd_jobId c = row_jobId later"
    using later(4) id(1) by (auto simp: mapRow_def)
  ultimately have "claimNextBatch now sqlNow ORDERED_COMMAND_CLAIM_LIMIT timeout table =
      (Inr [c\<lparr>cmd_reclaimed := (row_status later = Processing)\<rparr>], ?t)"
    using r0(1) id(1) by (simp add: claimNextBatch_def Let_def)
  moreover have "row_at ?t i = Some row" using row(1) later(1) by (simp add: claimCommandById_def row_at_update)
  moreover have "status_of ?t k = Some Processing"
    using later(2) bot by (simp add: status_of_def claimCommandById_def row_at_update)
  ultimately show ?thesis using c(2,3) by (intro exI conjI) (assumption | simp)+
qed

end
