(* ===== verification/Command_Reconciler.thy ===== *)
theory Command_Reconciler
  imports Command_Outbox Bidder_Registry
begin

text \<open>
  The reconciler that applies the durable commands to the live bidder
  (\<^verbatim>\<open>trading/src/application/use-cases/bidding/bidding-job-command-reconciler.ts\<close>, with
  \<open>refreshJobForCommand\<close> and \<open>refreshCachedMakerWethBalance\<close> of \<^verbatim>\<open>bidder.ts\<close>).  Its collaborators
  (job source, job preparation, balance service, cancellation lifecycle, the database behind the
  command repository) are ports: functions of the calls made so far.  The batches are
  serialised by a mutex; one command is processed as one transition, the scans and hot refreshes that may
  run between its \<open>await\<close>s are not part of it.

  A job object of the registry is shared with the command that cancels its offers: what the command
  changes in it is written back to the registry unless the job has been removed.
\<close>

section \<open>State and ports\<close>

datatype TradingJobStatus = Enabled | Paused | Archived

record BiddingJobSourceRecord =
  rec_job :: BidderJob
  rec_status :: TradingJobStatus
  rec_revision :: int
  rec_activeOrderJobRevision :: "int option"

datatype call =
    LoadEnabledJob string
  | LoadJob string
  | PrepareJob BidderJob
  | LoadEnabledJobs
  | ReconcileJobs "BidderJob list"
  | ReadBalance
  | ClaimBatch
  | MarkCompleted int
  | MarkRetry int string
  | MarkTerminal int string
  | MarkOfferCancellationFailed string string string

datatype reconciler_error =
    PortFailed string
  | ClaimFailed outbox_error
  | RegistryRefused registry_error
  | StrategyFailed bidder_error
  | BidderStopped

record ReconcilerPorts =
  q_enabledJob :: "call list \<Rightarrow> string + (BidderJob \<times> StateField list) option"
  q_job :: "call list \<Rightarrow> string + BiddingJobSourceRecord option"
  q_prepare :: "call list \<Rightarrow> string + unit"
  q_enabledJobs :: "call list \<Rightarrow> string + BidderJob list"
  q_reconcile :: "call list \<Rightarrow> string + unit"
  q_balance :: "(call list \<Rightarrow> string + int) option"
  q_write :: "call list \<Rightarrow> string + unit"
  q_lifecycle :: "(call list \<Rightarrow> string + unit) option"
  q_now :: "call list \<Rightarrow> int"
  q_sqlNow :: "call list \<Rightarrow> int"
  q_closed :: "call list \<Rightarrow> bool"
  q_message :: "reconciler_error \<Rightarrow> string"

record BiddingJobCommandReconcilerOptions =
  batchSize :: nat
  claimTimeoutMs :: int
  maxAttempts :: int

text \<open>Everything the reconciler is constructed with.\<close>

record Setup =
  su_context :: BidderContext
  su_bidderPorts :: Ports
  su_ports :: ReconcilerPorts
  su_options :: BiddingJobCommandReconcilerOptions

record Reconciler =
  rc_bidder :: Registry
  rc_acceptingRefreshes :: bool
  rc_table :: command_table
  rc_acceptingCommands :: bool
  rc_calls :: "call list"

type_synonym 'a rec = "Reconciler \<Rightarrow> (reconciler_error + 'a) \<times> Reconciler"

definition returnC :: "'a \<Rightarrow> 'a rec" where
  "returnC x s = (Inr x, s)"

definition bindC :: "'a rec \<Rightarrow> ('a \<Rightarrow> 'b rec) \<Rightarrow> 'b rec" where
  "bindC m f s = (case m s of (Inl e, t) \<Rightarrow> (Inl e, t) | (Inr x, t) \<Rightarrow> f x t)"

definition callC :: "(call list \<Rightarrow> string + 'a) \<Rightarrow> call \<Rightarrow> 'a rec" where
  "callC answer c s =
     (let l = rc_calls s @ [c] in
      ((case answer l of Inl m \<Rightarrow> Inl (PortFailed m) | Inr x \<Rightarrow> Inr x), s\<lparr>rc_calls := l\<rparr>))"

text \<open>An operation of the bidder.\<close>

definition bidderC :: "('e \<Rightarrow> reconciler_error) \<Rightarrow> (Registry \<Rightarrow> ('e + 'a) \<times> Registry) \<Rightarrow> 'a rec" where
  "bidderC err f s =
     (case f (rc_bidder s) of (r, R) \<Rightarrow>
        ((case r of Inl e \<Rightarrow> Inl (err e) | Inr x \<Rightarrow> Inr x), s\<lparr>rc_bidder := R\<rparr>))"

section \<open>Payload readers\<close>

definition parseOptionalPayloadString :: "jsval \<Rightarrow> string option" where
  "parseOptionalPayloadString v = (case v of JStr s \<Rightarrow> if trim s \<noteq> [] then Some s else None | _ \<Rightarrow> None)"

text \<open>\<open>BigInt(text)\<close>: white space around it, a sign before decimal digits, or a radix prefix;
  nothing if it throws.\<close>

definition radix_value :: "nat \<Rightarrow> string \<Rightarrow> int option" where
  "radix_value b ds =
     (if ds \<noteq> [] \<and> list_all (\<lambda>c. is_hex c \<and> hex_val c < b) ds
      then Some (foldl (\<lambda>n c. int b * n + int (hex_val c)) 0 ds) else None)"

fun signed_text :: "string \<Rightarrow> int option" where
  "signed_text [] = Some 0"
| "signed_text (c # ds) =
     (if c = CHR ''-'' then map_option uminus (radix_value 10 ds)
      else if c = CHR ''+'' then radix_value 10 ds
      else if c = CHR ''0'' \<and> ds \<noteq> [] \<and> hd ds \<in> {CHR ''x'', CHR ''X''} then radix_value 16 (tl ds)
      else if c = CHR ''0'' \<and> ds \<noteq> [] \<and> hd ds \<in> {CHR ''o'', CHR ''O''} then radix_value 8 (tl ds)
      else if c = CHR ''0'' \<and> ds \<noteq> [] \<and> hd ds \<in> {CHR ''b'', CHR ''B''} then radix_value 2 (tl ds)
      else radix_value 10 (c # ds))"

definition parseOptionalPayloadBigInt :: "jsval \<Rightarrow> int option" where
  "parseOptionalPayloadBigInt v =
     (case v of JStr s \<Rightarrow> if trim s = [] then None else signed_text (trim s) | _ \<Rightarrow> None)"

definition parseOptionalPayloadNumber :: "jsval \<Rightarrow> rat option" where
  "parseOptionalPayloadNumber v = (case v of JNum (Fin q) \<Rightarrow> Some q | _ \<Rightarrow> None)"

definition hasTrackedActiveOrder :: "BidderJob \<Rightarrow> bool" where
  "hasTrackedActiveOrder job \<longleftrightarrow>
     (case activeOrderId (job_state job) of None \<Rightarrow> False | Some s \<Rightarrow> trim s \<noteq> [])"

text \<open>Revisions and expiration times are whole numbers in the payload, as in the columns they come
  from.\<close>

definition applyCancellationPayload :: "(string \<times> jsval) list \<Rightarrow> BidderJob \<Rightarrow> BidderJob" where
  "applyCancellationPayload payload job =
     (let st = job_state job;
          keep = (\<lambda>old key. if truthy old then old
            else (case parseOptionalPayloadString (getp payload key) of None \<Rightarrow> old | Some s \<Rightarrow> Some s))
      in job\<lparr>job_state := st\<lparr>
           activeOrderId := keep (activeOrderId st) ''activeOrderId'',
           activeProtocolAddress := keep (activeProtocolAddress st) ''activeProtocolAddress'',
           activeOrderPlacedAt := keep (activeOrderPlacedAt st) ''activeOrderPlacedAt'',
           currentPrice := (case currentPrice st of Some p \<Rightarrow> Some p
             | None \<Rightarrow> parseOptionalPayloadBigInt (getp payload ''currentPriceWei'')),
           activeExpirationTimeMs := (case activeExpirationTimeMs st of Some t \<Rightarrow> Some t
             | None \<Rightarrow> map_option floor
                 (parseOptionalPayloadNumber (getp payload ''activeExpirationTimeMs'')))\<rparr>\<rparr>)"

section \<open>Refreshes for a command\<close>

definition refreshCachedMakerWethBalance :: "Setup \<Rightarrow> bool rec" where
  "refreshCachedMakerWethBalance U s =
     (case q_balance (su_ports U) of
        None \<Rightarrow> (Inr False, s)
      | Some answer \<Rightarrow>
          (case callC answer ReadBalance s of
             (Inl _, t) \<Rightarrow> (Inr False, t)
           | (Inr b, t) \<Rightarrow> (Inr True, t\<lparr>rc_bidder := (rc_bidder t)\<lparr>st_balance := Some b\<rparr>\<rparr>)))"

definition refreshJobForCommand :: "Setup \<Rightarrow> string \<Rightarrow> unit rec" where
  "refreshJobForCommand U job =
     bindC (refreshCachedMakerWethBalance U) (\<lambda>_ s.
       if \<not> rc_acceptingRefreshes s then (Inl BidderStopped, s)
       else bidderC StrategyFailed (executeJob (su_context U) (su_bidderPorts U) True job) s)"

section \<open>Applying a command\<close>

definition completeAlreadySatisfiedJobCommand :: "Setup \<Rightarrow> BidderJob \<Rightarrow> Reconciler \<Rightarrow> bool" where
  "completeAlreadySatisfiedJobCommand U job s \<longleftrightarrow>
     getSatisfiedRuntimeSnapshot (su_context U) job (rc_bidder s) \<noteq> None"

definition removeJobC :: "string \<Rightarrow> BidderJob option rec" where
  "removeJobC job = bidderC (\<lambda>_::unit. BidderStopped) (\<lambda>R. case removeJob job R of (old, R') \<Rightarrow> (Inr old, R'))"

definition applyDesiredJob :: "Setup \<Rightarrow> BiddingJobCommand \<Rightarrow> unit rec" where
  "applyDesiredJob U command =
     bindC (callC (q_enabledJob (su_ports U)) (LoadEnabledJob (cmd_jobId command))) (\<lambda>found.
     case found of
       None \<Rightarrow> bindC (removeJobC (cmd_jobId command)) (\<lambda>_. returnC ())
     | Some (job, own) \<Rightarrow> (\<lambda>s.
         if completeAlreadySatisfiedJobCommand U job s then (Inr (), s)
         else
           bindC (callC (q_prepare (su_ports U)) (PrepareJob job)) (\<lambda>_.
           bindC (bidderC RegistryRefused (addJob (su_context U) own job)) (\<lambda>_ s1.
             if completeAlreadySatisfiedJobCommand U (merged (su_context U) own job (rc_bidder s)) s1
             then (Inr (), s1)
             else refreshJobForCommand U (jobId job) s1)) s))"

text \<open>The job a cancellation works on, and whether it is the object in the registry.\<close>

definition cancellationSubject ::
  "string \<Rightarrow> BiddingJobSourceRecord option \<Rightarrow> Registry \<Rightarrow> (BidderJob option \<times> bool \<times> bool) \<times> Registry" where
  "cancellationSubject job record R =
     (let inMemoryJob = map_of (st_jobs R) job;
          enabled = (case record of None \<Rightarrow> False | Some r \<Rightarrow> rec_status r = Enabled);
          (removed, R1) = (if enabled then (None, R) else removeJob job R) in
      case removed of
        Some j \<Rightarrow> ((Some j, False, False), R1)
      | None \<Rightarrow>
          (case inMemoryJob of
             Some j \<Rightarrow> ((Some j, True, False), R1)
           | None \<Rightarrow> ((map_option rec_job record, False, True), R1)))"

text \<open>The revision under which the cancellation is recorded: that of the payload, or the stored one
  if the stored order is the tracked one (\<open>fromRecord\<close>: the job is the stored object itself).\<close>

definition cancellationRevision ::
  "(string \<times> jsval) list \<Rightarrow> BiddingJobSourceRecord option \<Rightarrow> bool \<Rightarrow> BidderJob \<Rightarrow> int option" where
  "cancellationRevision payload record fromRecord job =
     (case parseOptionalPayloadNumber (getp payload ''activeOrderJobRevision'') of
        Some q \<Rightarrow> Some (floor q)
      | None \<Rightarrow>
          (case record of
             None \<Rightarrow> None
           | Some r \<Rightarrow>
               if fromRecord \<or> activeOrderId (job_state (rec_job r)) = activeOrderId (job_state job)
               then rec_activeOrderJobRevision r else None))"

definition write_back :: "bool \<Rightarrow> string \<Rightarrow> BidderJob \<Rightarrow> Registry \<Rightarrow> Registry" where
  "write_back shared key job R = (if shared then R\<lparr>st_jobs := AList.update key job (st_jobs R)\<rparr> else R)"

definition cancelActiveOffersForCommand ::
  "Setup \<Rightarrow> string \<Rightarrow> bool \<Rightarrow> BidderJob \<Rightarrow> int option \<Rightarrow> Registry \<Rightarrow> (bidder_error + nat) \<times> Registry" where
  "cancelActiveOffersForCommand U key shared job activeOrderJobRevision R =
     (let originalRevision = revision job;
          working = (case activeOrderJobRevision of None \<Rightarrow> job | Some r \<Rightarrow> job\<lparr>revision := r\<rparr>);
          (r, x) = cancelActiveOffersForJob (su_context U) (su_bidderPorts U)
            \<lparr>ex_job = working, ex_log = st_log R\<rparr>
      in (r, write_back shared key ((ex_job x)\<lparr>revision := originalRevision\<rparr>) (R\<lparr>st_log := ex_log x\<rparr>)))"

definition cancelActiveOffer :: "Setup \<Rightarrow> BiddingJobCommand \<Rightarrow> unit rec" where
  "cancelActiveOffer U command =
     bindC (callC (q_job (su_ports U)) (LoadJob (cmd_jobId command))) (\<lambda>record s.
     case cancellationSubject (cmd_jobId command) record (rc_bidder s) of
       ((None, _, _), R) \<Rightarrow> (Inr (), s\<lparr>rc_bidder := R\<rparr>)
     | ((Some job0, shared, fromRecord), R) \<Rightarrow>
         let job = applyCancellationPayload (cmd_payload command) job0;
             s1 = s\<lparr>rc_bidder := write_back shared (cmd_jobId command) job R\<rparr> in
         if \<not> hasTrackedActiveOrder job then (Inr (), s1)
         else
           bindC (bidderC StrategyFailed (cancelActiveOffersForCommand U (cmd_jobId command) shared job
             (cancellationRevision (cmd_payload command) record fromRecord job))) (\<lambda>_. returnC ()) s1)"

definition applyCommand :: "Setup \<Rightarrow> BiddingJobCommand \<Rightarrow> unit rec" where
  "applyCommand U command =
     (case cmd_commandKind command of
        JobCreated \<Rightarrow> applyDesiredJob U command
      | JobUpdated \<Rightarrow> applyDesiredJob U command
      | JobPaused \<Rightarrow> bindC (removeJobC (cmd_jobId command)) (\<lambda>_. returnC ())
      | JobArchived \<Rightarrow> bindC (removeJobC (cmd_jobId command)) (\<lambda>_. returnC ())
      | CancelActiveOffer \<Rightarrow> cancelActiveOffer U command)"

definition reconcileEnabledJobs :: "Setup \<Rightarrow> unit rec" where
  "reconcileEnabledJobs U =
     bindC (callC (q_enabledJobs (su_ports U)) LoadEnabledJobs) (\<lambda>jobs.
     callC (q_reconcile (su_ports U)) (ReconcileJobs jobs))"

section \<open>Processing\<close>

text \<open>An outcome written to the command table; the write may throw.\<close>

definition markC :: "Setup \<Rightarrow> call \<Rightarrow> (command_table \<Rightarrow> command_table) \<Rightarrow> unit rec" where
  "markC U c f =
     bindC (callC (q_write (su_ports U)) c) (\<lambda>_ s. (Inr (), s\<lparr>rc_table := f (rc_table s)\<rparr>))"

definition markTerminalCancellationFailure :: "Setup \<Rightarrow> BiddingJobCommand \<Rightarrow> string \<Rightarrow> unit rec" where
  "markTerminalCancellationFailure U command message s =
     (case (cmd_commandKind command, q_lifecycle (su_ports U),
            parseOptionalPayloadString (getp (cmd_payload command) ''activeOrderId'')) of
        (CancelActiveOffer, Some port, Some orderId) \<Rightarrow>
          (case callC port (MarkOfferCancellationFailed (cmd_jobId command) orderId message) s of
             (_, t) \<Rightarrow> (Inr (), t))
      | _ \<Rightarrow> (Inr (), s))"

definition attemptCommand :: "Setup \<Rightarrow> BiddingJobCommand \<Rightarrow> unit rec" where
  "attemptCommand U command =
     bindC (applyCommand U command) (\<lambda>_.
     bindC (reconcileEnabledJobs U) (\<lambda>_ s.
     markC U (MarkCompleted (cmd_commandId command))
       (markCompleted (q_sqlNow (su_ports U) (rc_calls s)) (cmd_commandId command)) s))"

definition processCommand :: "Setup \<Rightarrow> BiddingJobCommand \<Rightarrow> bool rec" where
  "processCommand U command s =
     (case attemptCommand U command s of
        (Inr _, t) \<Rightarrow> (Inr True, t)
      | (Inl e, t) \<Rightarrow>
          let message = q_message (su_ports U) e in
          if cmd_attempts command \<ge> maxAttempts (su_options U)
          then bindC (markC U (MarkTerminal (cmd_commandId command) message)
                  (markFailedTerminal (cmd_commandId command) message)) (\<lambda>_.
               bindC (markTerminalCancellationFailure U command message) (\<lambda>_.
               returnC False)) t
          else bindC (markC U (MarkRetry (cmd_commandId command) message)
                  (markFailedRetry (cmd_commandId command) message)) (\<lambda>_.
               returnC False) t)"

definition closeAdmission :: "Reconciler \<Rightarrow> Reconciler" where
  "closeAdmission s = s\<lparr>rc_acceptingCommands := False\<rparr>"

definition claimC :: "Setup \<Rightarrow> BiddingJobCommand list rec" where
  "claimC U =
     bindC (callC (q_write (su_ports U)) ClaimBatch) (\<lambda>_ s.
     case claimNextBatch (q_now (su_ports U) (rc_calls s)) (q_sqlNow (su_ports U) (rc_calls s))
            ORDERED_COMMAND_CLAIM_LIMIT (claimTimeoutMs (su_options U)) (rc_table s) of
       (r, table) \<Rightarrow> ((case r of Inl e \<Rightarrow> Inl (ClaimFailed e) | Inr cs \<Rightarrow> Inr cs), s\<lparr>rc_table := table\<rparr>))"

datatype BatchResult = Success | CompletedWithFailures | Stopped

text \<open>The loop of a batch, for the commands that remain of the batch size.  Admission may be closed
  while a command is processed.\<close>

fun batchLoop :: "Setup \<Rightarrow> nat \<Rightarrow> nat \<Rightarrow> (nat \<times> bool) rec" where
  "batchLoop U 0 processed s = (Inr (processed, False), s)"
| "batchLoop U (Suc n) processed s =
     (if \<not> rc_acceptingCommands s then (Inr (processed, False), s)
      else
        case claimC U s of
          (Inl e, t) \<Rightarrow> (Inl e, t)
        | (Inr [], t) \<Rightarrow> (Inr (processed, False), t)
        | (Inr (command # _), t) \<Rightarrow>
            (case processCommand U command t of
               (Inl e, t1) \<Rightarrow> (Inl e, t1)
             | (Inr succeeded, t1) \<Rightarrow>
                 let t2 = (if q_closed (su_ports U) (rc_calls t1) then closeAdmission t1 else t1) in
                 if \<not> succeeded then (Inr (processed + 1, True), t2)
                 else batchLoop U n (processed + 1) t2))"

definition processPendingCommands :: "Setup \<Rightarrow> (nat \<times> BatchResult) rec" where
  "processPendingCommands U =
     bindC (batchLoop U (batchSize (su_options U)) 0) (\<lambda>(processed, completedWithFailures) s.
     (Inr (processed, if completedWithFailures then CompletedWithFailures
                      else if rc_acceptingCommands s then Success else Stopped), s))"

section \<open>What applying leaves alone\<close>

text \<open>An operation that does not touch the command table.\<close>

definition table_kept :: "'a rec \<Rightarrow> bool" where
  "table_kept m \<longleftrightarrow> (\<forall>s r t. m s = (r, t) \<longrightarrow> rc_table t = rc_table s)"

named_theorems kept_intros \<open>operations that do not touch the command table\<close>

lemma keptD: "table_kept m \<Longrightarrow> m s = (r, t) \<Longrightarrow> rc_table t = rc_table s"
  by (auto simp: table_kept_def)

lemma bindC_cases:
  assumes "bindC m f s = (r, s')"
  obtains (thrown) e where "m s = (Inl e, s')" "r = Inl e"
    | (returned) x t where "m s = (Inr x, t)" "f x t = (r, s')"
  using assms by (cases "m s"; cases "fst (m s)") (auto simp: bindC_def)

lemma kept_bind [kept_intros]: "table_kept m \<Longrightarrow> (\<And>x. table_kept (f x)) \<Longrightarrow> table_kept (bindC m f)"
  unfolding table_kept_def by (intro allI impI) (erule bindC_cases, metis, metis)

lemma kept_return [kept_intros]: "table_kept (returnC x)"
  by (simp add: table_kept_def returnC_def)

lemma kept_call [kept_intros]: "table_kept (callC answer c)"
  by (auto simp: table_kept_def callC_def Let_def)

lemma kept_bidder [kept_intros]: "table_kept (bidderC err f)"
  by (auto simp: table_kept_def bidderC_def split: prod.splits)

lemma kept_if [kept_intros]: "(\<And>s. \<not> b s \<Longrightarrow> table_kept m) \<Longrightarrow> table_kept (\<lambda>s. if b s then (r, s) else m s)"
  unfolding table_kept_def by auto

lemma kept_balance [kept_intros]: "table_kept (refreshCachedMakerWethBalance U)"
  unfolding table_kept_def refreshCachedMakerWethBalance_def
  by (auto dest!: keptD [OF kept_call] split: option.splits sum.splits prod.splits)

lemma kept_refresh [kept_intros]: "table_kept (refreshJobForCommand U job)"
  unfolding refreshJobForCommand_def by (intro kept_intros)

lemma kept_remove [kept_intros]: "table_kept (removeJobC job)"
  unfolding removeJobC_def by (intro kept_intros)

lemma kept_desired [kept_intros]: "table_kept (applyDesiredJob U command)"
proof -
  have "rc_table t = rc_table s"
    if "bindC m (\<lambda>_. bindC n (\<lambda>_ s1. if c s1 then (Inr (), s1) else k s1)) s = (r, t)"
      and kept: "table_kept m" "table_kept n" "table_kept k"
    for c s t and r :: "reconciler_error + unit" and m n :: "unit rec" and k
    using that(1) by (auto elim!: bindC_cases dest: keptD [OF kept(1)] split: if_splits)
      (metis keptD [OF kept(1)] keptD [OF kept(2)] keptD [OF kept(3)])+
  note guarded = this [OF _ kept_call kept_bidder kept_refresh]
  show ?thesis
    unfolding applyDesiredJob_def
  proof (intro kept_intros)
    fix found :: "(BidderJob \<times> StateField list) option"
    show "table_kept (case found of
       None \<Rightarrow> bindC (removeJobC (cmd_jobId command)) (\<lambda>_. returnC ())
     | Some (job, own) \<Rightarrow> (\<lambda>s.
         if completeAlreadySatisfiedJobCommand U job s then (Inr (), s)
         else
           bindC (callC (q_prepare (su_ports U)) (PrepareJob job)) (\<lambda>_.
           bindC (bidderC RegistryRefused (addJob (su_context U) own job)) (\<lambda>_ s1.
             if completeAlreadySatisfiedJobCommand U (merged (su_context U) own job (rc_bidder s)) s1
             then (Inr (), s1)
             else refreshJobForCommand U (jobId job) s1)) s))"
    proof (cases found)
      case None
      then show ?thesis by (simp add: kept_intros)
    next
      case (Some p)
      then show ?thesis by (cases p) (auto simp: table_kept_def dest: guarded)
    qed
  qed
qed

lemma kept_cancel [kept_intros]: "table_kept (cancelActiveOffer U command)"
  unfolding cancelActiveOffer_def
proof (intro kept_intros)
  fix found
  show "table_kept (\<lambda>s. case cancellationSubject (cmd_jobId command) found (rc_bidder s) of
       ((None, _, _), R) \<Rightarrow> (Inr (), s\<lparr>rc_bidder := R\<rparr>)
     | ((Some job0, shared, fromRecord), R) \<Rightarrow>
         let job = applyCancellationPayload (cmd_payload command) job0;
             s1 = s\<lparr>rc_bidder := write_back shared (cmd_jobId command) job R\<rparr> in
         if \<not> hasTrackedActiveOrder job then (Inr (), s1)
         else
           bindC (bidderC StrategyFailed (cancelActiveOffersForCommand U (cmd_jobId command) shared job
             (cancellationRevision (cmd_payload command) found fromRecord job))) (\<lambda>_. returnC ()) s1)"
    unfolding table_kept_def Let_def
    by (auto dest!: keptD [OF kept_bind [OF kept_bidder kept_return]] split: prod.splits option.splits if_splits)
qed

lemma kept_apply [kept_intros]: "table_kept (applyCommand U command)"
  unfolding applyCommand_def by (cases "cmd_commandKind command") (auto intro!: kept_intros)

lemma kept_reconcile [kept_intros]: "table_kept (reconcileEnabledJobs U)"
  unfolding reconcileEnabledJobs_def by (intro kept_intros)

lemma lifecycle_returns: "markTerminalCancellationFailure U command m s = (r, t) \<Longrightarrow> r = Inr ()"
  by (auto simp: markTerminalCancellationFailure_def split: TradingJobCommandKind.splits option.splits prod.splits)

lemma kept_lifecycle [kept_intros]: "table_kept (markTerminalCancellationFailure U command m)"
  unfolding table_kept_def markTerminalCancellationFailure_def
  by (auto dest!: keptD [OF kept_call] split: TradingJobCommandKind.splits option.splits prod.splits)

section \<open>The outcome of a command\<close>

lemma markC_table:
  assumes "markC U c f s = (r, t)"
  shows "rc_table t = (if isl r then rc_table s else f (rc_table s))"
  using assms unfolding markC_def by (auto elim!: bindC_cases dest!: keptD [OF kept_call])

lemma attempt_table:
  assumes "attemptCommand U command s = (r, t)"
  shows "if isl r then rc_table t = rc_table s
     else \<exists>n. rc_table t = markCompleted n (cmd_commandId command) (rc_table s)"
  using assms unfolding attemptCommand_def
  by (auto elim!: bindC_cases dest!: keptD [OF kept_apply] keptD [OF kept_reconcile] markC_table)

definition outcome :: "Setup \<Rightarrow> BiddingJobCommand \<Rightarrow> bool \<Rightarrow> TradingJobCommandStatus" where
  "outcome U command succeeded =
     (if succeeded then Completed
      else if cmd_attempts command \<ge> maxAttempts (su_options U) then FailedTerminal else FailedRetry)"

text \<open>A command that is processed gets exactly one outcome; if writing it throws, the table is as it was.\<close>

lemma process_table:
  assumes "processCommand U command s = (r, t)"
  shows "case r of
      Inl e \<Rightarrow> rc_table t = rc_table s
    | Inr True \<Rightarrow> \<exists>n. rc_table t = markCompleted n (cmd_commandId command) (rc_table s)
    | Inr False \<Rightarrow> \<exists>m. rc_table t = failCommandById (outcome U command False) (cmd_commandId command) m (rc_table s)"
proof -
  obtain r0 s0 where at: "attemptCommand U command s = (r0, s0)" by fastforce
  show ?thesis
  proof (cases r0)
    case (Inr u)
    with at assms attempt_table [OF at] show ?thesis by (auto simp: processCommand_def)
  next
    case (Inl e)
    with attempt_table [OF at] have "rc_table s0 = rc_table s" by simp
    with at assms Inl show ?thesis
      by (auto simp: processCommand_def Let_def outcome_def markFailedTerminal_def markFailedRetry_def returnC_def
          elim!: bindC_cases dest!: markC_table dest: lifecycle_returns split: if_splits)
        (metis keptD [OF kept_lifecycle], blast)
  qed
qed

section \<open>Batches\<close>

definition settled :: "command_table \<Rightarrow> bool" where
  "settled table \<longleftrightarrow> (\<forall>i. status_of table i \<noteq> Some Processing)"

lemma claimC_result:
  assumes "claimC U s = (Inr cs, t)"
  shows "\<exists>n. claimNext n (rc_table s) = (Inr cs, rc_table t) \<and> rc_bidder t = rc_bidder s \<and>
     rc_acceptingCommands t = rc_acceptingCommands s"
proof -
  from assms obtain s1 where s1: "callC (q_write (su_ports U)) ClaimBatch s = (Inr (), s1)"
    and c: "(case claimNextBatch (q_now (su_ports U) (rc_calls s1)) (q_sqlNow (su_ports U) (rc_calls s1))
            ORDERED_COMMAND_CLAIM_LIMIT (claimTimeoutMs (su_options U)) (rc_table s1) of
       (r, table) \<Rightarrow> ((case r of Inl e \<Rightarrow> Inl (ClaimFailed e) | Inr cs \<Rightarrow> Inr cs), s1\<lparr>rc_table := table\<rparr>)) = (Inr cs, t)"
    unfolding claimC_def by (auto elim!: bindC_cases)
  have f: "rc_table s1 = rc_table s" "rc_bidder s1 = rc_bidder s" "rc_acceptingCommands s1 = rc_acceptingCommands s"
    using s1 by (auto simp: callC_def Let_def)
  from c obtain table where "claimNextBatch (q_now (su_ports U) (rc_calls s1)) (q_sqlNow (su_ports U) (rc_calls s1))
       ORDERED_COMMAND_CLAIM_LIMIT (claimTimeoutMs (su_options U)) (rc_table s1) = (Inr cs, table)"
    "t = s1\<lparr>rc_table := table\<rparr>"
    by (auto split: prod.splits sum.splits)
  with f show ?thesis
    by (intro exI [of _ "(q_now (su_ports U) (rc_calls s1), q_sqlNow (su_ports U) (rc_calls s1),
         claimTimeoutMs (su_options U))"]) simp
qed

text \<open>Claiming and processing one command, from a table in which nothing is being processed.\<close>

lemma command_step:
  assumes wf: "wf_table (rc_table s)" and none: "settled (rc_table s)"
    and claim: "claimC U s = (Inr (c # cs), t)" and run: "processCommand U c t = (Inr ok, u)"
  shows "wf_table (rc_table u)" and "settled (rc_table u)"
    and "status_of (rc_table u) = (status_of (rc_table s))(cmd_commandId c \<mapsto> outcome U c ok)"
    and "open_status (status_of (rc_table s) (cmd_commandId c))"
    and "\<And>i. i < cmd_commandId c \<Longrightarrow> \<not> open_status (status_of (rc_table s) i)"
proof -
  obtain n where n0: "claimNext n (rc_table s) = (Inr (c # cs), rc_table t)" using claimC_result [OF claim] by blast
  with outbox.claim_single [OF n0] have n: "claimNext n (rc_table s) = (Inr [c], rc_table t)" by auto
  have no: "\<And>i. status_of (rc_table s) i \<noteq> Some Processing" using none by (simp add: settled_def)
  note o = outbox.claimed_was_open [OF wf no n] and wt = outbox.claim_wf [OF wf n]
  show "open_status (status_of (rc_table s) (cmd_commandId c))" by (rule o(1))
  show "\<And>i. i < cmd_commandId c \<Longrightarrow> \<not> open_status (status_of (rc_table s) i)" by (rule outbox.claim_first [OF wf n])
  have s: "wf_table (rc_table u) \<and>
      status_of (rc_table u) = (status_of (rc_table t))(cmd_commandId c \<mapsto> outcome U c ok)"
  proof (cases ok)
    case True
    with process_table [OF run] outbox.complete_wf [OF wt o(2)] outbox.complete_status [OF wt o(2)] show ?thesis
      by (auto simp: outcome_def)
  next
    case False
    have st: "outcome U c False = FailedRetry \<or> outcome U c False = FailedTerminal" by (simp add: outcome_def)
    from False process_table [OF run] outbox.fail_wf [OF wt o(2) st] outbox.fail_status [OF wt o(2) st] show ?thesis
      by auto
  qed
  then show "wf_table (rc_table u)" by blast
  have ne: "outcome U c ok \<noteq> Processing" by (simp add: outcome_def)
  note settle = outbox.outcome_settles [OF wf no n conjunct2 [OF s] ne]
  show "settled (rc_table u)" using settle(1) by (simp add: settled_def)
  show "status_of (rc_table u) = (status_of (rc_table s))(cmd_commandId c \<mapsto> outcome U c ok)" by (rule settle(2))
qed

text \<open>
  What a batch does to the table: it gives outcomes to commands that were open, in the order of
  their ids and without leaving out an open one, all completed except possibly the last.
\<close>

definition batch_outcomes ::
  "command_table \<Rightarrow> (int \<times> TradingJobCommandStatus) list \<Rightarrow> bool \<Rightarrow> command_table \<Rightarrow> bool" where
  "batch_outcomes table os failed table' \<longleftrightarrow>
     sorted_wrt (<) (map fst os) \<and>
     status_of table' = status_of table ++ map_of os \<and>
     (\<forall>i \<in> fst ` set os. open_status (status_of table i)) \<and>
     (\<forall>i \<in> fst ` set os. \<forall>k < i. open_status (status_of table k) \<longrightarrow> k \<in> fst ` set os) \<and>
     (\<forall>s \<in> snd ` set (butlast os). s = Completed) \<and>
     (if failed then os \<noteq> [] \<and> snd (last os) \<in> {FailedRetry, FailedTerminal}
      else \<forall>s \<in> snd ` set os. s = Completed)"

lemma batch_outcomes_Nil: "batch_outcomes table [] False table"
  by (simp add: batch_outcomes_def)

lemma batch_outcomes_single:
  assumes "status_of table' = (status_of table)(i \<mapsto> s)" "open_status (status_of table i)"
    "\<And>k. k < i \<Longrightarrow> \<not> open_status (status_of table k)" "s \<in> {FailedRetry, FailedTerminal}"
  shows "batch_outcomes table [(i, s)] True table'"
  using assms by (auto simp: batch_outcomes_def map_add_def)

lemma batch_outcomes_Cons:
  assumes first: "status_of table1 = (status_of table)(i \<mapsto> Completed)" "open_status (status_of table i)"
    "\<And>k. k < i \<Longrightarrow> \<not> open_status (status_of table k)"
    and rest: "batch_outcomes table1 os failed table'"
  shows "batch_outcomes table ((i, Completed) # os) failed table'"
proof -
  have later: "i < k" if "k \<in> fst ` set os" for k
  proof -
    have "open_status (status_of table1 k)" using that rest unfolding batch_outcomes_def by blast
    then have "open_status (status_of table k)" "k \<noteq> i" using first(1) by (auto split: if_splits)
    with first(3) [of k] show ?thesis by linarith
  qed
  then have no: "map_of os i = None" by (metis map_of_eq_None_iff order_less_irrefl)
  have "status_of table' = status_of table ++ map_of ((i, Completed) # os)"
    using rest no unfolding batch_outcomes_def first(1) by (auto simp: fun_eq_iff map_add_def split: option.splits)
  moreover have "\<forall>k \<in> fst ` set os. open_status (status_of table k)"
    using rest later unfolding batch_outcomes_def first(1) by fastforce
  moreover have "k \<in> fst ` set ((i, Completed) # os)"
    if "j \<in> fst ` set ((i, Completed) # os)" "k < j" "open_status (status_of table k)" for j k
  proof (cases "k = i")
    case False
    with that(3) have "open_status (status_of table1 k)" using first(1) by simp
    moreover from that False first(3) [of k] later have "j \<in> fst ` set os" by fastforce
    ultimately show ?thesis using rest that(2) unfolding batch_outcomes_def by fastforce
  qed simp
  ultimately show ?thesis
    using rest later first(2) unfolding batch_outcomes_def by (cases "os = []") auto
qed

lemma batch_size: "batchLoop U n k s = (Inr (k', failed), s') \<Longrightarrow> k' \<le> k + n"
proof (induction U n k s rule: batchLoop.induct)
  case (2 U n k s)
  then show ?case by (auto simp: Let_def split: if_splits prod.splits sum.splits list.splits)
qed simp

lemma batch_loop_outcomes:
  assumes "batchLoop U n k s = (Inr (k', failed), s')" and "wf_table (rc_table s)" and "settled (rc_table s)"
  shows "wf_table (rc_table s') \<and> settled (rc_table s') \<and>
     (\<exists>os. k' = k + length os \<and> batch_outcomes (rc_table s) os failed (rc_table s'))"
  using assms
proof (induction U n k s rule: batchLoop.induct)
  case (1 U k s)
  then show ?case using batch_outcomes_Nil by fastforce
next
  case (2 U n k s)
  show ?case
  proof (cases "rc_acceptingCommands s")
    case False
    with 2 show ?thesis using batch_outcomes_Nil by fastforce
  next
    case True
    with 2(2) obtain cs t where claim: "claimC U s = (Inr cs, t)" by (auto split: prod.splits sum.splits)
    show ?thesis
    proof (cases cs)
      case Nil
      with 2(2) True claim have "s' = t" "k' = k" "failed = False" by simp_all
      moreover obtain m where "claimNext m (rc_table s) = (Inr [], rc_table t)"
        using claimC_result [OF claim] Nil by blast
      with outbox.claim_nothing [OF 2(3)] have "rc_table t = rc_table s" by blast
      ultimately show ?thesis using 2(3,4) batch_outcomes_Nil by fastforce
    next
      case (Cons c rest)
      note claim' = claim [unfolded Cons]
      from 2(2) True claim' obtain ok u where run: "processCommand U c t = (Inr ok, u)"
        by (auto split: prod.splits sum.splits)
      define v where "v = (if q_closed (su_ports U) (rc_calls u) then closeAdmission u else u)"
      have v: "rc_table v = rc_table u" by (simp add: v_def closeAdmission_def)
      note step = command_step [OF 2(3,4) claim' run]
      show ?thesis
      proof (cases ok)
        case False
        with 2(2) True claim' run have s': "s' = v" "k' = k + 1" "failed = True" by (simp_all add: v_def Let_def)
        have "batch_outcomes (rc_table s) [(cmd_commandId c, outcome U c ok)] True (rc_table v)"
          unfolding v using False by (intro batch_outcomes_single [OF step(3-5)]) (auto simp: outcome_def)
        with s' step(1,2) v show ?thesis
          by (intro conjI exI [of _ "[(cmd_commandId c, outcome U c ok)]"]) simp_all
      next
        case ok: True
        with 2(2) True claim' run have loop: "batchLoop U n (k + 1) v = (Inr (k', failed), s')"
          by (simp add: v_def Let_def)
        have "wf_table (rc_table s') \<and> settled (rc_table s') \<and>
            (\<exists>os. k' = k + 1 + length os \<and> batch_outcomes (rc_table v) os failed (rc_table s'))"
          using 2(1) [OF _ claim' [symmetric] refl refl run [symmetric] refl v_def _ loop] True ok step(1,2) v by simp
        then obtain os where os: "k' = k + 1 + length os" "batch_outcomes (rc_table v) os failed (rc_table s')"
          "wf_table (rc_table s')" "settled (rc_table s')" by blast
        have "status_of (rc_table v) = (status_of (rc_table s))(cmd_commandId c \<mapsto> Completed)"
          using step(3) ok by (simp add: v outcome_def)
        from batch_outcomes_Cons [OF this step(4,5) os(2)] os show ?thesis
          by (intro conjI exI [of _ "(cmd_commandId c, Completed) # os"]) simp_all
      qed
    qed
  qed
qed

section \<open>Attempts\<close>

text \<open>A command waits for a retry only while it has attempts left.\<close>

definition attempts_ok :: "int \<Rightarrow> command_table \<Rightarrow> bool" where
  "attempts_ok limit table \<longleftrightarrow> (\<forall>row \<in> set table. row_status row = FailedRetry \<longrightarrow> row_attempts row < limit)"

lemma attempts_update:
  assumes "attempts_ok limit table"
    and "\<And>row. row \<in> set table \<Longrightarrow> row_commandId row = i \<Longrightarrow> row_status (f row) = FailedRetry \<Longrightarrow> row_attempts (f row) < limit"
  shows "attempts_ok limit (update_rows i f table)"
  using assms by (auto simp: attempts_ok_def update_rows_def)

lemma claim_attempts:
  assumes "wf_table table" and "attempts_ok limit table" and "claimNext n table = (r, table')"
  shows "attempts_ok limit table'" and
    "r = Inr [c] \<Longrightarrow> row \<in> set table' \<Longrightarrow> row_commandId row = cmd_commandId c \<Longrightarrow> row_attempts row = cmd_attempts c"
proof -
  obtain now sqlNow timeout where n: "n = (now, sqlNow, timeout)" by (metis prod_cases3)
  have claim: "claimNextBatch now sqlNow ORDERED_COMMAND_CLAIM_LIMIT timeout table = (r, table')"
    using assms(3) by (simp add: n)
  show "attempts_ok limit table'"
    using claim assms(2) by (elim claim_cases [OF assms(1)])
      (auto simp: claimCommandById_def intro!: attempts_update)
  assume "r = Inr [c]" "row \<in> set table'" "row_commandId row = cmd_commandId c"
  with claim show "row_attempts row = cmd_attempts c"
    by (elim claim_cases [OF assms(1)])
      (auto simp: claimCommandById_def update_rows_def row_at_Some [OF assms(1)] split: if_splits
        dest: inj_onD [OF conjunct2 [OF assms(1) [unfolded wf_table_def distinct_map, THEN conjunct1]]])
qed

lemma process_attempts:
  assumes "attempts_ok (maxAttempts (su_options U)) (rc_table s)" and "processCommand U c s = (r, t)"
    and "\<And>row. row \<in> set (rc_table s) \<Longrightarrow> row_commandId row = cmd_commandId c \<Longrightarrow> row_attempts row = cmd_attempts c"
  shows "attempts_ok (maxAttempts (su_options U)) (rc_table t)"
proof (cases r)
  case (Inl e)
  with process_table [OF assms(2)] assms(1) show ?thesis by simp
next
  case (Inr ok)
  show ?thesis
  proof (cases ok)
    case True
    with Inr process_table [OF assms(2)] show ?thesis
      using assms(1) by (auto simp: markCompleted_def intro!: attempts_update)
  next
    case False
    with Inr process_table [OF assms(2)] show ?thesis
      using assms(1,3) by (auto simp: failCommandById_def outcome_def intro!: attempts_update split: if_splits)
  qed
qed

lemma batch_attempts:
  assumes "batchLoop U n k s = (r, s')" and "wf_table (rc_table s)" and "settled (rc_table s)"
    and "attempts_ok (maxAttempts (su_options U)) (rc_table s)"
  shows "attempts_ok (maxAttempts (su_options U)) (rc_table s')"
  using assms
proof (induction U n k s rule: batchLoop.induct)
  case (1 U k s)
  then show ?case by simp
next
  case (2 U n k s)
  let ?ok = "attempts_ok (maxAttempts (su_options U))"
  show ?case
  proof (cases "rc_acceptingCommands s")
    case False
    with 2 show ?thesis by simp
  next
    case True
    obtain p t where claim: "claimC U s = (p, t)" by fastforce
    show ?thesis
    proof (cases p)
      case (Inl e)
      have "rc_table t = rc_table s"
        using claim Inl unfolding claimC_def
        by (auto elim!: bindC_cases dest!: keptD [OF kept_call] simp: claimNextBatch_def split: prod.splits sum.splits)
      with 2(2,5) True claim Inl show ?thesis by simp
    next
      case (Inr cs)
      obtain m where m: "claimNext m (rc_table s) = (Inr cs, rc_table t)" using claimC_result claim Inr by blast
      note a = claim_attempts [OF 2(3,5) m]
      show ?thesis
      proof (cases cs)
        case Nil
        with 2(2) True claim Inr a(1) show ?thesis by simp
      next
        case (Cons c rest)
        with outbox.claim_single [OF m] have cs: "cs = [c]" by auto
        obtain q u where run: "processCommand U c t = (q, u)" by fastforce
        have u: "?ok (rc_table u)" by (rule process_attempts [OF a(1) run]) (use a(2) cs in blast)
        define v where "v = (if q_closed (su_ports U) (rc_calls u) then closeAdmission u else u)"
        have v: "rc_table v = rc_table u" by (simp add: v_def closeAdmission_def)
        show ?thesis
        proof (cases "q = Inr True")
          case False
          with 2(2) True claim Inr cs run have "s' = u \<or> s' = v"
            by (auto simp: v_def Let_def split: sum.splits if_splits)
          with u v show ?thesis by auto
        next
          case ok: True
          note claim' = claim [unfolded Inr cs] and run' = run [unfolded ok]
          from 2(2) True claim' run' have loop: "batchLoop U n (k + 1) v = (r, s')" by (simp add: v_def Let_def)
          from command_step(1,2) [OF 2(3,4) claim' run'] u v show ?thesis
            using 2(1) [OF _ claim' [symmetric] refl refl run' [symmetric] refl v_def _ loop] True by simp
        qed
      qed
    qed
  qed
qed

section \<open>The registry after a command\<close>

abbreviation jobs_of :: "Reconciler \<Rightarrow> string \<Rightarrow> BidderJob option" where
  "jobs_of s \<equiv> map_of (st_jobs (rc_bidder s))"

text \<open>The job source answers with the job it was asked for (\<open>WHERE j.job_id = @jobId\<close>), whose id is not
  empty (\<open>parseNonEmptyString\<close>).\<close>

definition source_ok :: "Setup \<Rightarrow> bool" where
  "source_ok U \<longleftrightarrow> (\<forall>l i job own. q_enabledJob (su_ports U) (l @ [LoadEnabledJob i]) = Inr (Some (job, own)) \<longrightarrow>
     jobId job = i \<and> i \<noteq> [])"

lemma callC_frame:
  "callC answer c s = (r, t) \<Longrightarrow> t = s\<lparr>rc_calls := rc_calls s @ [c]\<rparr> \<and>
     r = (case answer (rc_calls s @ [c]) of Inl m \<Rightarrow> Inl (PortFailed m) | Inr x \<Rightarrow> Inr x)"
  by (auto simp: callC_def Let_def)

lemma balance_frame:
  assumes "refreshCachedMakerWethBalance U s = (r, t)" and "reg_sound (rc_bidder s)"
  shows "reg_sound (rc_bidder t) \<and> st_jobs (rc_bidder t) = st_jobs (rc_bidder s)"
proof -
  have "reg_sound ((rc_bidder s)\<lparr>st_balance := b\<rparr>)" for b
    by (rule reg_sound_frame [OF assms(2)]) simp_all
  with assms show ?thesis
    by (auto simp: refreshCachedMakerWethBalance_def dest!: callC_frame split: option.splits prod.splits sum.splits)
qed

lemma refresh_command_registry:
  assumes "refreshJobForCommand U k s = (r, t)" and inv: "reg_sound (rc_bidder s)"
  shows "reg_sound (rc_bidder t) \<and> map_option decl (jobs_of t k) = map_option decl (jobs_of s k) \<and>
     (\<forall>i. i \<noteq> k \<longrightarrow> jobs_of t i = jobs_of s i)"
proof -
  obtain b s1 where b: "refreshCachedMakerWethBalance U s = (b, s1)" by fastforce
  note f = balance_frame [OF b inv]
  consider (unchanged) "rc_bidder t = rc_bidder s1"
    | (run) r' where "executeJob (su_context U) (su_bidderPorts U) True k (rc_bidder s1) = (r', rc_bidder t)"
    using assms(1) b unfolding refreshJobForCommand_def
    by (auto elim!: bindC_cases simp: bidderC_def split: if_splits prod.splits)
  then show ?thesis
  proof cases
    case unchanged
    with f show ?thesis by simp
  next
    case run
    note i = execute_keeps_sound [OF conjunct1 [OF f] run]
    show ?thesis
    proof (cases "map_of (st_jobs (rc_bidder s1)) k")
      case None
      with run have "rc_bidder t = rc_bidder s1" by (simp add: executeJob_def)
      with f show ?thesis by simp
    next
      case (Some job)
      obtain job' where "decl job' = decl job"
        "st_jobs (rc_bidder t) = AList.update k job' (st_jobs (rc_bidder s1))" by (rule execute_job_decl [OF run Some])
      with i f Some show ?thesis by (simp add: update_conv')
    qed
  qed
qed

lemma removeJobC_registry:
  assumes "removeJobC k s = (r, t)" and inv: "reg_sound (rc_bidder s)"
  shows "reg_sound (rc_bidder t) \<and> jobs_of t k = None \<and> (\<forall>i. i \<noteq> k \<longrightarrow> jobs_of t i = jobs_of s i)"
proof -
  obtain old R where R: "removeJob k (rc_bidder s) = (old, R)" by fastforce
  with assms(1) have "rc_bidder t = R" by (auto simp: removeJobC_def bidderC_def)
  with remove_keeps_sound [OF inv R] show ?thesis by simp
qed

text \<open>
  What a command that is reported as already satisfied guarantees of the registered job: it agrees
  with the declared one in revision, collection, limits, extra competition traits and the target's
  token or traits, and it tracks an order with a known price that was verified on the market.
\<close>

definition same_target :: "BidderTarget \<Rightarrow> BidderTarget \<Rightarrow> bool" where
  "same_target a b \<longleftrightarrow>
     (case (a, b) of
        (Token i, Token k) \<Rightarrow> i = k
      | (Collection _ xs, Collection _ ys) \<Rightarrow> set (traits_of xs) = set (traits_of ys)
      | (CompetitiveTrait _ x _, CompetitiveTrait _ y _) \<Rightarrow> x = y
      | _ \<Rightarrow> False)"

definition already_satisfies :: "BidderJob \<Rightarrow> BidderJob \<Rightarrow> bool" where
  "already_satisfies j job \<longleftrightarrow>
     revision j = revision job \<and>
     collectionAddress j = collectionAddress job \<and> collectionSlug j = collectionSlug job \<and>
     floor_wei (job_config j) = floor_wei (job_config job) \<and>
     ceiling_wei (job_config j) = ceiling_wei (job_config job) \<and>
     delta_wei (job_config j) = delta_wei (job_config job) \<and>
     extra_selectors j = extra_selectors job \<and>
     same_target (job_target j) (job_target job) \<and>
     truthy (activeOrderId (job_state j)) \<and> currentPrice (job_state j) \<noteq> None \<and>
     truthy (activeOrderVerifiedAt (job_state j))"

lemma criteria_of_targets:
  assumes "set (map criterion_of_target xs) = set (map criterion_of_target ys)"
  shows "set xs = set ys"
proof -
  have "inj criterion_of_target" by (rule injI) (simp add: criterion_of_target_def)
  with assms show ?thesis by (simp add: inj_image_eq_iff)
qed

lemma identity_same_target:
  assumes "hasSameTargetIdentity C j job" and "number_text_ok (ctx_numberText C)"
  shows "collectionAddress j = collectionAddress job \<and> collectionSlug j = collectionSlug job \<and>
     same_target (job_target j) (job_target job)"
proof -
  note sets = matchesExact_sets [OF assms(2), THEN criteria_of_targets]
  have one: "x = y" if "matchesExactTraitTargets (ctx_lc C) (ctx_numberText C) [criterion_of_target x]
      [criterion_of_target y]" for x y
    using sets [of "ctx_lc C" "[x]" "[y]"] that by simp
  from assms(1) show ?thesis
    by (auto simp: hasSameTargetIdentity_def same_target_def split: if_splits BidderTarget.splits dest: sets one)
qed

lemma satisfied_agrees:
  assumes "getSatisfiedRuntimeSnapshot C job R = Some x" and "number_text_ok (ctx_numberText C)"
  shows "\<exists>j. map_of (st_jobs R) (jobId job) = Some j \<and> already_satisfies j job"
proof -
  from assms(1) obtain j where j: "map_of (st_jobs R) (jobId job) = Some j" "hasSameSatisfiedDeclaration C j job"
    and live: "truthy (activeOrderId (job_state j))" "currentPrice (job_state j) \<noteq> None"
      "truthy (activeOrderVerifiedAt (job_state j))"
    by (auto simp: getSatisfiedRuntimeSnapshot_def Let_def split: option.splits if_splits)
  then have "hasSameTargetIdentity C j job" by (simp add: hasSameSatisfiedDeclaration_def)
  from identity_same_target [OF this assms(2)] j live show ?thesis
    by (auto simp: hasSameSatisfiedDeclaration_def extras_json_inj already_satisfies_def)
qed

text \<open>After a create or update command the job is registered with the declaration of the source, or
  not at all.\<close>

lemma desired_registry:
  assumes run: "applyDesiredJob U command s = (Inr (), t)" and inv: "reg_sound (rc_bidder s)" and src: "source_ok U"
    and digits: "number_text_ok (ctx_numberText (su_context U))"
  shows "reg_sound (rc_bidder t) \<and> (\<forall>i. i \<noteq> cmd_jobId command \<longrightarrow> jobs_of t i = jobs_of s i) \<and>
     (case q_enabledJob (su_ports U) (rc_calls s @ [LoadEnabledJob (cmd_jobId command)]) of
        Inl _ \<Rightarrow> False
      | Inr None \<Rightarrow> jobs_of t (cmd_jobId command) = None
      | Inr (Some (job, _)) \<Rightarrow> \<exists>j. jobs_of t (cmd_jobId command) = Some j \<and>
          (decl j = decl job \<or> jobs_of s (cmd_jobId command) = Some j \<and> already_satisfies j job))"
proof -
  let ?k = "cmd_jobId command" and ?l = "rc_calls s @ [LoadEnabledJob (cmd_jobId command)]"
  define s1 where "s1 = s\<lparr>rc_calls := ?l\<rparr>"
  have same: "rc_bidder s1 = rc_bidder s" by (simp add: s1_def)
  from run obtain found where found: "q_enabledJob (su_ports U) ?l = Inr found"
    unfolding applyDesiredJob_def by (auto elim!: bindC_cases dest!: callC_frame split: sum.splits)
  then have call: "callC (q_enabledJob (su_ports U)) (LoadEnabledJob ?k) s = (Inr found, s1)"
    by (simp add: callC_def s1_def)
  show ?thesis
  proof (cases found)
    case None
    with run call have "bindC (removeJobC ?k) (\<lambda>_. returnC ()) s1 = (Inr (), t)"
      by (simp add: applyDesiredJob_def bindC_def)
    then obtain x where "removeJobC ?k s1 = (x, t)" by (auto elim!: bindC_cases simp: returnC_def)
    from removeJobC_registry [OF this] inv same found None show ?thesis by simp
  next
    case (Some p)
    then obtain job own where p: "found = Some (job, own)" by (cases p) simp
    with src found have id: "jobId job = ?k" "?k \<noteq> []" by (auto simp: source_ok_def)
    show ?thesis
    proof (cases "completeAlreadySatisfiedJobCommand U job s1")
      case True
      with run call p have "t = s1" by (simp add: applyDesiredJob_def bindC_def)
      moreover from True obtain x where "getSatisfiedRuntimeSnapshot (su_context U) job (rc_bidder s1) = Some x"
        by (auto simp: completeAlreadySatisfiedJobCommand_def)
      from satisfied_agrees [OF this digits] obtain j where "jobs_of s1 ?k = Some j" "already_satisfies j job"
        using id(1) by auto
      ultimately show ?thesis using inv same found p by simp
    next
      case False
      with run call p obtain s2 s3 u where
        prep: "callC (q_prepare (su_ports U)) (PrepareJob job) s1 = (Inr (), s2)"
        and add: "bidderC RegistryRefused (addJob (su_context U) own job) s2 = (Inr u, s3)"
        and last: "t = s3 \<or> refreshJobForCommand U (jobId job) s3 = (Inr (), t)"
        by (auto simp: applyDesiredJob_def bindC_def split: prod.splits sum.splits if_splits)
      have s2: "rc_bidder s2 = rc_bidder s" using callC_frame [OF prep] same by simp
      from add s2 have "addJob (su_context U) own job (rc_bidder s) = (Inr (), rc_bidder s3)"
        by (auto simp: bidderC_def split: prod.splits sum.splits)
      from add_keeps_sound [OF inv this] id
      have added: "reg_sound (rc_bidder s3)" "jobs_of s3 = (jobs_of s)(?k \<mapsto> merged (su_context U) own job (rc_bidder s))"
        by simp_all
      have "reg_sound (rc_bidder t) \<and> map_option decl (jobs_of t ?k) = Some (decl job) \<and>
          (\<forall>i. i \<noteq> ?k \<longrightarrow> jobs_of t i = jobs_of s i)"
        using last added refresh_command_registry [of U ?k s3 "Inr ()" t] id by auto
      then show ?thesis using found p by auto
    qed
  qed
qed

lemma payload_decl [simp]: "decl (applyCancellationPayload payload job) = decl job"
  by (simp add: applyCancellationPayload_def Let_def)

lemma write_back_registry:
  assumes "reg_sound R" and "shared \<Longrightarrow> map_of (st_jobs R) k = Some old \<and> decl job = decl old"
  shows "reg_sound (write_back shared k job (R\<lparr>st_log := l\<rparr>))"
proof (cases shared)
  case True
  show ?thesis unfolding write_back_def if_P [OF True]
    by (rule reg_sound_upd_decl [OF assms(1), of k old job]) (use assms(2) True in simp_all)
next
  case False
  have "reg_sound (R\<lparr>st_log := l\<rparr>)"
    by (rule reg_sound_frame [OF assms(1)]) simp_all
  with False show ?thesis by (simp add: write_back_def)
qed

lemma decl_revision: "decl (job\<lparr>revision := r\<rparr>) = (decl job)\<lparr>revision := r\<rparr>"
  by (simp add: decl_def)

lemma subject_facts:
  assumes "cancellationSubject k found R0 = ((jo, shared, fromRecord), R)" and inv: "reg_sound R0"
  shows "reg_sound R" and "\<And>i. i \<noteq> k \<Longrightarrow> map_of (st_jobs R) i = map_of (st_jobs R0) i"
    and "map_of (st_jobs R) k = (if shared then jo else None)" and "shared \<Longrightarrow> jo \<noteq> None"
proof -
  obtain old R1 where rem: "removeJob k R0 = (old, R1)" by fastforce
  note r = remove_keeps_sound [OF inv rem]
  show "reg_sound R" and "\<And>i. i \<noteq> k \<Longrightarrow> map_of (st_jobs R) i = map_of (st_jobs R0) i"
    and "map_of (st_jobs R) k = (if shared then jo else None)" and "shared \<Longrightarrow> jo \<noteq> None"
    using assms r rem by (auto simp: cancellationSubject_def Let_def split: option.splits if_splits) metis
qed

lemma write_back_jobs:
  "map_of (st_jobs (write_back shared k job R)) i = (if shared \<and> i = k then Some job else map_of (st_jobs R) i)"
  by (auto simp: write_back_def update_conv')

lemma cancel_command_registry:
  assumes run: "cancelActiveOffersForCommand U k shared job rv R = (r, R')" and inv: "reg_sound R"
    and at: "map_of (st_jobs R) k = (if shared then Some job else None)"
  shows "reg_sound R'" and "\<And>i. i \<noteq> k \<Longrightarrow> map_of (st_jobs R') i = map_of (st_jobs R) i"
    and "\<not> isl r \<Longrightarrow> map_of (st_jobs R') k = Some j \<Longrightarrow> \<not> hasTrackedActiveOrder j"
proof -
  let ?w = "case rv of None \<Rightarrow> job | Some v \<Rightarrow> job\<lparr>revision := v\<rparr>"
  obtain q x where x: "cancelActiveOffersForJob (su_context U) (su_bidderPorts U) \<lparr>ex_job = ?w, ex_log = st_log R\<rparr> = (q, x)"
    by fastforce
  have R': "R' = write_back shared k ((ex_job x)\<lparr>revision := revision job\<rparr>) (R\<lparr>st_log := ex_log x\<rparr>)" "r = q"
    using run x by (simp_all add: cancelActiveOffersForCommand_def Let_def)
  note c = cancel_offers_decl [OF x]
  have "decl ((ex_job x)\<lparr>revision := revision job\<rparr>) = (decl ?w)\<lparr>revision := revision job\<rparr>"
    using c by (simp add: decl_revision)
  also have "\<dots> = decl job" by (cases rv) (simp_all add: decl_def)
  finally have d: "decl ((ex_job x)\<lparr>revision := revision job\<rparr>) = decl job" .
  with write_back_registry [OF inv, of shared k job] at show "reg_sound R'" unfolding R'(1) by simp
  show "\<And>i. i \<noteq> k \<Longrightarrow> map_of (st_jobs R') i = map_of (st_jobs R) i" by (simp add: R' write_back_jobs)
  show "\<not> isl r \<Longrightarrow> map_of (st_jobs R') k = Some j \<Longrightarrow> \<not> hasTrackedActiveOrder j"
    using c at R' by (auto simp: write_back_jobs hasTrackedActiveOrder_def split: if_splits)
qed

text \<open>After a cancel command the job, if it is still registered, tracks no order.\<close>

lemma cancel_registry:
  assumes run: "cancelActiveOffer U command s = (Inr (), t)" and inv: "reg_sound (rc_bidder s)"
  shows "reg_sound (rc_bidder t) \<and> (\<forall>i. i \<noteq> cmd_jobId command \<longrightarrow> jobs_of t i = jobs_of s i) \<and>
     (\<forall>j. jobs_of t (cmd_jobId command) = Some j \<longrightarrow> \<not> hasTrackedActiveOrder j)"
proof -
  let ?k = "cmd_jobId command"
  from run obtain found s1 where call: "callC (q_job (su_ports U)) (LoadJob ?k) s = (Inr found, s1)"
    unfolding cancelActiveOffer_def by (auto elim!: bindC_cases)
  have same: "rc_bidder s1 = rc_bidder s" using callC_frame [OF call] by simp
  obtain jo shared fr R where sub: "cancellationSubject ?k found (rc_bidder s1) = ((jo, shared, fr), R)"
    by (metis prod_cases3 surj_pair)
  note f = subject_facts [OF sub, unfolded same, OF inv]
  show ?thesis
  proof (cases jo)
    case None
    with run call sub have "t = s1\<lparr>rc_bidder := R\<rparr>" by (simp add: cancelActiveOffer_def bindC_def)
    with f None show ?thesis by auto
  next
    case (Some job0)
    define job where "job = applyCancellationPayload (cmd_payload command) job0"
    define R1 where "R1 = write_back shared ?k job R"
    have at: "map_of (st_jobs R1) ?k = (if shared then Some job else None)"
      using f(3) by (simp add: R1_def write_back_jobs)
    have others: "i \<noteq> ?k \<Longrightarrow> map_of (st_jobs R1) i = jobs_of s i" for i
      using f(2) by (simp add: R1_def write_back_jobs)
    have "reg_sound (write_back shared ?k job (R\<lparr>st_log := st_log R\<rparr>))"
      by (rule write_back_registry [OF f(1), of shared ?k job0]) (use f(3) Some in \<open>simp_all add: job_def\<close>)
    then have inv1: "reg_sound R1" by (simp add: R1_def)
    show ?thesis
    proof (cases "hasTrackedActiveOrder job")
      case False
      with run call sub Some have "t = s1\<lparr>rc_bidder := R1\<rparr>"
        by (simp add: cancelActiveOffer_def bindC_def job_def R1_def Let_def)
      with at others inv1 False show ?thesis by auto
    next
      case True
      with run call sub Some obtain r where
        c: "cancelActiveOffersForCommand U ?k shared job (cancellationRevision (cmd_payload command) found fr job) R1 =
          (r, rc_bidder t)" and r: "\<not> isl r"
        by (auto simp: cancelActiveOffer_def bindC_def job_def [symmetric] R1_def Let_def bidderC_def returnC_def
            split: prod.splits sum.splits)
      from cancel_command_registry [OF c inv1 at] r others show ?thesis by auto
    qed
  qed
qed

section \<open>Properties of the reconciler\<close>

text \<open>
  C26. A batch applies the commands in order.  From a queue in which nothing is being processed, a batch
  that returns has given outcomes to the number of commands it reports: commands that were open, in
  the order of their ids, none of the open ones before them left out, all completed except possibly
  the last, and the last one failed exactly if the batch reports failures.  No other command is
  touched, and again nothing is being processed.
\<close>

theorem batch_runs_commands_in_order:
  assumes "processPendingCommands U s = (Inr (n, result), s')"
    and "wf_table (rc_table s)" and "settled (rc_table s)"
  shows "\<exists>os. length os = n \<and> n \<le> batchSize (su_options U) \<and>
     batch_outcomes (rc_table s) os (result = CompletedWithFailures) (rc_table s') \<and>
     settled (rc_table s')"
proof -
  from assms(1) obtain k failed where loop: "batchLoop U (batchSize (su_options U)) 0 s = (Inr (k, failed), s')"
    and r: "n = k" "result = CompletedWithFailures \<longleftrightarrow> failed"
    unfolding processPendingCommands_def by (auto elim!: bindC_cases split: if_splits)
  from batch_loop_outcomes [OF loop assms(2,3)] batch_size [OF loop] r show ?thesis by auto
qed

text \<open>
  Retries are bounded: whatever happens while a batch runs, errors of its ports included, a
  command waits for a retry afterwards only if it has been attempted fewer times than the limit; a
  command that fails at the limit is failed for good and never claimed again.
\<close>

theorem retries_stay_below_limit:
  assumes "processPendingCommands U s = (r, s')" and "wf_table (rc_table s)" and "settled (rc_table s)"
    and "attempts_ok (maxAttempts (su_options U)) (rc_table s)"
  shows "attempts_ok (maxAttempts (su_options U)) (rc_table s')"
proof -
  from assms(1) obtain q t where loop: "batchLoop U (batchSize (su_options U)) 0 s = (q, t)" and "rc_table s' = rc_table t"
    unfolding processPendingCommands_def by (auto elim!: bindC_cases split: prod.splits)
  with batch_attempts [OF loop assms(2-4)] show ?thesis by simp
qed

text \<open>
  C25. An applied command brings the bidder to the declared state and keeps the registry's indexes
  in order.  After a create or update the job is registered with the declaration the job source
  holds for it, or not at all if the source admits none; only when the registered job already
  agrees with the declared one in revision, collection, limits, extra competition traits and the
  target's token or traits, and tracks a verified order, may it be left as it was (the quantity and
  the competitor traits of its target are then not compared).  After a pause or archive the job is
  not registered; after a cancellation it is not registered or tracks no order.  No other job is
  touched.
\<close>

theorem applied_command_is_reflected:
  assumes "applyCommand U command s = (Inr (), t)" and "reg_sound (rc_bidder s)" and "source_ok U"
    and "number_text_ok (ctx_numberText (su_context U))"
  shows "reg_sound (rc_bidder t) \<and> (\<forall>i. i \<noteq> cmd_jobId command \<longrightarrow> jobs_of t i = jobs_of s i) \<and>
    (if cmd_commandKind command \<in> {JobCreated, JobUpdated}
     then case q_enabledJob (su_ports U) (rc_calls s @ [LoadEnabledJob (cmd_jobId command)]) of
        Inl _ \<Rightarrow> False
      | Inr None \<Rightarrow> jobs_of t (cmd_jobId command) = None
      | Inr (Some (job, _)) \<Rightarrow> \<exists>j. jobs_of t (cmd_jobId command) = Some j \<and>
          (decl j = decl job \<or> jobs_of s (cmd_jobId command) = Some j \<and> already_satisfies j job)
     else if cmd_commandKind command \<in> {JobPaused, JobArchived} then jobs_of t (cmd_jobId command) = None
     else \<forall>j. jobs_of t (cmd_jobId command) = Some j \<longrightarrow> \<not> hasTrackedActiveOrder j)"
proof -
  have removed: "reg_sound (rc_bidder t) \<and> jobs_of t (cmd_jobId command) = None \<and>
      (\<forall>i. i \<noteq> cmd_jobId command \<longrightarrow> jobs_of t i = jobs_of s i)"
    if "bindC (removeJobC (cmd_jobId command)) (\<lambda>_. returnC ()) s = (Inr (), t)"
    using that removeJobC_registry [OF _ assms(2)] by (auto elim!: bindC_cases simp: returnC_def)
  show ?thesis
    using assms(1) removed desired_registry [OF _ assms(2-4), of command t] cancel_registry [OF _ assms(2), of U command t]
    by (cases "cmd_commandKind command") (simp_all add: applyCommand_def)
qed

end
