(* ===== verification/Command_Samples.thy ===== *)
theory Command_Samples
  imports Command_Reconciler Registry_Samples
begin

text \<open>
  A queue of three commands: the first is applied, the second fails because the job source is down
  for its job, the third has to wait.
\<close>

section \<open>Samples\<close>

definition sample_row :: "int \<Rightarrow> string \<Rightarrow> TradingJobCommandKind \<Rightarrow> TradingJobCommandRow" where
  "sample_row i job kind = \<lparr>row_commandId = i, row_botKind = ''bidding'', row_jobId = job,
     row_commandKind = kind, row_status = Pending, row_requestedRevision = 1, row_payload = Some (JObj []),
     row_attempts = 0, row_createdAt = Some (Fin 1000), row_claimedAt = None, row_completedAt = None,
     row_lastError = None\<rparr>"

definition sample_source :: "call list \<Rightarrow> string + (BidderJob \<times> StateField list) option" where
  "sample_source l =
     (case last l of
        LoadEnabledJob i \<Rightarrow> if i = ''a'' then Inr (Some (token_job ''a'', [])) else Inl ''down''
      | _ \<Rightarrow> Inl ''down'')"

definition sample_setup :: Setup where
  "sample_setup = \<lparr>su_context = bid_context, su_bidderPorts = accepting,
     su_ports = \<lparr>q_enabledJob = sample_source, q_job = (\<lambda>_. Inr None), q_prepare = (\<lambda>_. Inr ()),
       q_enabledJobs = (\<lambda>_. Inr []), q_reconcile = (\<lambda>_. Inr ()), q_balance = None, q_write = (\<lambda>_. Inr ()),
       q_lifecycle = None, q_now = (\<lambda>_. 90000), q_sqlNow = (\<lambda>_. 90000), q_closed = (\<lambda>_. False),
       q_message = (\<lambda>_. ''failed'')\<rparr>,
     su_options = \<lparr>batchSize = 10, claimTimeoutMs = 60000, maxAttempts = 3\<rparr>\<rparr>"

definition sample_queue :: Reconciler where
  "sample_queue = \<lparr>rc_bidder = new_registry, rc_acceptingRefreshes = True,
     rc_table = [sample_row 1 ''a'' JobUpdated, sample_row 2 ''b'' JobCreated, sample_row 3 ''a'' JobPaused],
     rc_acceptingCommands = True, rc_calls = []\<rparr>"

definition sample_after :: Reconciler where
  "sample_after = snd (processPendingCommands sample_setup sample_queue)"

lemma sample_batch: "processPendingCommands sample_setup sample_queue = (Inr (2, CompletedWithFailures), sample_after)"
proof -
  have "fst (processPendingCommands sample_setup sample_queue) = Inr (2, CompletedWithFailures)" by code_simp
  then show ?thesis by (simp add: sample_after_def prod_eq_iff)
qed

lemma sample_statuses:
  "status_of (rc_table sample_after) 1 = Some Completed" "status_of (rc_table sample_after) 2 = Some FailedRetry"
  "status_of (rc_table sample_after) 3 = Some Pending"
  by code_simp+

lemma sample_queue_ok:
  "wf_table (rc_table sample_queue)" "settled (rc_table sample_queue)" "attempts_ok 3 (rc_table sample_queue)"
  by (auto simp: sample_queue_def sample_row_def wf_table_def settled_def status_of_def row_at_def attempts_ok_def
      split: if_splits option.splits)

lemma sample_source_ok: "source_ok sample_setup"
  by (auto simp: source_ok_def sample_setup_def sample_source_def token_job_def split: if_splits)

section \<open>Witnesses\<close>

theorem batch_runs_commands_in_order_witness:
  "\<exists>os. length os = 2 \<and> batch_outcomes (rc_table sample_queue) os True (rc_table sample_after) \<and>
     settled (rc_table sample_after)"
  using batch_runs_commands_in_order [OF sample_batch sample_queue_ok(1,2)] by (auto simp: sample_setup_def)

theorem retries_stay_below_limit_witness:
  "attempts_ok 3 (rc_table sample_after) \<and> status_of (rc_table sample_after) 2 = Some FailedRetry"
  using retries_stay_below_limit [OF sample_batch sample_queue_ok(1,2)] sample_queue_ok(3) sample_statuses(2)
  by (simp add: sample_setup_def)

definition sample_command :: BiddingJobCommand where
  "sample_command = \<lparr>cmd_commandId = 1, cmd_jobId = ''a'', cmd_commandKind = JobUpdated, cmd_status = Processing,
     cmd_requestedRevision = 1, cmd_payload = [], cmd_attempts = 1, cmd_createdAtMs = Fin 1000,
     cmd_claimedAtMs = 90000, cmd_reclaimed = False\<rparr>"

definition sample_applied :: Reconciler where
  "sample_applied = snd (applyCommand sample_setup sample_command sample_queue)"

lemma sample_apply: "applyCommand sample_setup sample_command sample_queue = (Inr (), sample_applied)"
proof -
  have "fst (applyCommand sample_setup sample_command sample_queue) = Inr ()" by code_simp
  then show ?thesis by (simp add: sample_applied_def prod_eq_iff)
qed

theorem applied_command_is_reflected_witness:
  "reg_sound (rc_bidder sample_applied) \<and>
   (\<exists>j. jobs_of sample_applied ''a'' = Some j \<and> decl j = decl (token_job ''a''))"
proof -
  have "reg_sound (rc_bidder sample_queue)"
    using new_registry_ok by (auto simp: sample_queue_def reg_sound_def)
  moreover have "number_text_ok (ctx_numberText (su_context sample_setup))"
    using fraction_text_ok by (simp add: sample_setup_def bid_context_def)
  ultimately show ?thesis
    using applied_command_is_reflected [OF sample_apply _ sample_source_ok]
    by (simp add: sample_command_def sample_setup_def sample_source_def sample_queue_def new_registry_def)
qed

definition sample_table :: command_table where
  "sample_table = [(sample_row 1 ''a'' JobUpdated)\<lparr>row_status := Processing, row_claimedAt := Some 89000\<rparr>,
     sample_row 2 ''a'' JobPaused]"

theorem unfinished_claim_is_overtaken_witness:
  "\<exists>c table'. claimNextBatch 90000 90000 ORDERED_COMMAND_CLAIM_LIMIT 60000 sample_table = (Inr [c], table') \<and>
     cmd_commandId c = 2 \<and> cmd_jobId c = ''a'' \<and> status_of table' 1 = Some Processing"
proof -
  let ?first = "(sample_row 1 ''a'' JobUpdated)\<lparr>row_status := Processing, row_claimedAt := Some 89000\<rparr>"
  let ?second = "sample_row 2 ''a'' JobPaused"
  have wf: "wf_table sample_table" by (simp add: sample_table_def sample_row_def wf_table_def)
  have "status_of sample_table n \<in> {None, Some Completed, Some FailedTerminal}" if "n < 2" "n \<noteq> 1" for n
    using that by (simp add: sample_table_def sample_row_def status_of_def row_at_def)
  from unfinished_claim_is_overtaken [OF wf, of 1 ?first 89000 90000 60000 2 ?second 1000 90000, OF _ _ _ _ _ _ _ _ _ this]
  obtain c table' where "claimNextBatch 90000 90000 ORDERED_COMMAND_CLAIM_LIMIT 60000 sample_table = (Inr [c], table')"
    "cmd_commandId c = 2" "cmd_jobId c = ''a''" "row_at table' 1 = Some ?first"
    by (auto simp: sample_table_def sample_row_def row_at_def status_of_def)
  moreover from this(4) have "status_of table' 1 = Some Processing" by (simp add: status_of_def sample_row_def)
  ultimately show ?thesis by blast
qed

end
