(* ===== verification/Failed_Cancellations.thy ===== *)
theory Failed_Cancellations
  imports Bidder_Core
begin

text \<open>
  Recovery of failed offer cancellations
  (\<^verbatim>\<open>trading/src/application/use-cases/bidding/failed-offer-cancellation-reconciler.ts\<close>).  The
  repository and the bidding service are ports, functions of the calls made so far; admission may be
  closed during any call.  The lemmas show that a cancellation is recorded as completed only after
  the marketplace has said that the order is gone or has accepted its cancellation.
\<close>

section \<open>State and ports\<close>

record RecoverableOfferCancellationRecord =
  rc_jobId :: string
  rc_orderId :: string
  rc_protocolAddress :: "string option"
  rc_placedAt :: "string option"
  rc_expirationTimeMs :: "int option"
  rc_collectionAddress :: string
  rc_collectionSlug :: string
  rc_tokenId :: "string option"
  rc_cancellationError :: "string option"
  rc_terminalCommandError :: "string option"
  rc_hasTerminalCommand :: bool

datatype heal_call =
    ListRecoverable int nat string
  | GetOrder string "string option" string "string option" string
  | CancelRecoveredOrder Order
  | MarkOfferCompleted string string string
  | MarkOfferFailed string string string
  | ReadTime

record HealPorts =
  hp_list :: "heal_call list \<Rightarrow> string + RecoverableOfferCancellationRecord list"
  hp_order :: "heal_call list \<Rightarrow> string + Recovery"
  hp_cancel :: "heal_call list \<Rightarrow> string + unit"
  hp_completed :: "heal_call list \<Rightarrow> string + unit"
  hp_failed :: "heal_call list \<Rightarrow> string + unit"
  hp_now :: "heal_call list \<Rightarrow> int"
  hp_iso :: "int \<Rightarrow> string"
  hp_closing :: "heal_call list \<Rightarrow> bool"

record FailedOfferCancellationReconcilerConfig =
  fc_chainId :: int
  fc_batchSize :: nat
  fc_cancellationRetryMs :: int
  fc_dryRun :: bool

record FailedOfferCancellationReconciler =
  acceptingRecords :: bool
  heal_log :: "heal_call list"

type_synonym 'a heal = "FailedOfferCancellationReconciler \<Rightarrow> (string + 'a) \<times> FailedOfferCancellationReconciler"

definition returnH :: "'a \<Rightarrow> 'a heal" where
  "returnH x s = (Inr x, s)"

definition bindH :: "'a heal \<Rightarrow> ('a \<Rightarrow> 'b heal) \<Rightarrow> 'b heal" where
  "bindH m f s = (case m s of (Inl e, t) \<Rightarrow> (Inl e, t) | (Inr x, t) \<Rightarrow> f x t)"

definition catchH :: "'a heal \<Rightarrow> (string \<Rightarrow> 'a heal) \<Rightarrow> 'a heal" where
  "catchH m h s = (case m s of (Inl e, t) \<Rightarrow> h e t | (Inr x, t) \<Rightarrow> (Inr x, t))"

definition closeRecordAdmission :: "FailedOfferCancellationReconciler \<Rightarrow> FailedOfferCancellationReconciler" where
  "closeRecordAdmission s = s\<lparr>acceptingRecords := False\<rparr>"

definition callH :: "HealPorts \<Rightarrow> (heal_call list \<Rightarrow> string + 'a) \<Rightarrow> heal_call \<Rightarrow> 'a heal" where
  "callH P answer c s =
     (let l = heal_log s @ [c]; t = s\<lparr>heal_log := l\<rparr> in
      (answer l, if hp_closing P l then closeRecordAdmission t else t))"

definition nowH :: "HealPorts \<Rightarrow> int heal" where
  "nowH P = callH P (\<lambda>l. Inr (hp_now P l)) ReadTime"

section \<open>Operations\<close>

definition UNSETTLED_TERMINAL_CANCELLATION_ERROR :: string where
  "UNSETTLED_TERMINAL_CANCELLATION_ERROR =
     ''Cancellation command finished before the offer cancellation was settled''"

definition shouldRetryCancellation :: "HealPorts \<Rightarrow> RecoverableOfferCancellationRecord \<Rightarrow> bool heal" where
  "shouldRetryCancellation P r =
     (case rc_expirationTimeMs r of
        None \<Rightarrow> returnH True
      | Some t \<Rightarrow> bindH (nowH P) (\<lambda>now. returnH (t > now)))"

definition mergeRecoveredOrder :: "RecoverableOfferCancellationRecord \<Rightarrow> Order \<Rightarrow> Order" where
  "mergeRecoveredOrder r recovered =
     recovered\<lparr>order_protocolAddress :=
         (case order_protocolAddress recovered of Some a \<Rightarrow> Some a | None \<Rightarrow> rc_protocolAddress r),
       order_placedAt := (case order_placedAt recovered of Some a \<Rightarrow> Some a | None \<Rightarrow> rc_placedAt r),
       order_expirationTime :=
         (case order_expirationTime recovered of
            Some t \<Rightarrow> Some t
          | None \<Rightarrow> map_option (\<lambda>ms. num_of_int (ms div 1000)) (rc_expirationTimeMs r))\<rparr>"

definition markCompletedNow :: "HealPorts \<Rightarrow> RecoverableOfferCancellationRecord \<Rightarrow> unit heal" where
  "markCompletedNow P r =
     bindH (nowH P) (\<lambda>now.
     callH P (hp_completed P) (MarkOfferCompleted (rc_jobId r) (rc_orderId r) (hp_iso P now)))"

definition retryActiveCancellation ::
  "HealPorts \<Rightarrow> RecoverableOfferCancellationRecord \<Rightarrow> Order \<Rightarrow> bool heal" where
  "retryActiveCancellation P r recoveredOrder =
     catchH
       (bindH (callH P (hp_cancel P) (CancelRecoveredOrder (mergeRecoveredOrder r recoveredOrder))) (\<lambda>_.
        bindH (markCompletedNow P r) (\<lambda>_. returnH True)))
       (\<lambda>cancellationError.
        bindH (callH P (hp_failed P) (MarkOfferFailed (rc_jobId r) (rc_orderId r) cancellationError)) (\<lambda>_.
        returnH False))"

definition restoreTerminalFailureIfAvailable :: "HealPorts \<Rightarrow> RecoverableOfferCancellationRecord \<Rightarrow> unit heal" where
  "restoreTerminalFailureIfAvailable P r =
     (if truthy (rc_cancellationError r) \<or> \<not> rc_hasTerminalCommand r then returnH ()
      else callH P (hp_failed P) (MarkOfferFailed (rc_jobId r) (rc_orderId r)
        (case rc_terminalCommandError r of Some e \<Rightarrow> e | None \<Rightarrow> UNSETTLED_TERMINAL_CANCELLATION_ERROR)))"

text \<open>The body of the loop for one record, inside its \<open>try\<close>; the result tells whether the
  cancellation was completed.\<close>

definition recoverRecord ::
  "HealPorts \<Rightarrow> FailedOfferCancellationReconcilerConfig \<Rightarrow> RecoverableOfferCancellationRecord \<Rightarrow> bool heal" where
  "recoverRecord P config r =
     bindH (callH P (hp_order P) (GetOrder (rc_orderId r) (rc_protocolAddress r) (rc_collectionAddress r)
       (rc_tokenId r) (rc_collectionSlug r))) (\<lambda>result.
     case result of
       InactiveOrMissing \<Rightarrow> bindH (markCompletedNow P r) (\<lambda>_. returnH True)
     | RecoveredActive order \<Rightarrow>
         if fc_dryRun config then bindH (restoreTerminalFailureIfAvailable P r) (\<lambda>_. returnH False)
         else bindH (shouldRetryCancellation P r) (\<lambda>retry.
              if retry then retryActiveCancellation P r order
              else bindH (restoreTerminalFailureIfAvailable P r) (\<lambda>_. returnH False))
     | Inconclusive _ \<Rightarrow> bindH (restoreTerminalFailureIfAvailable P r) (\<lambda>_. returnH False))"

fun recoverRecords ::
  "HealPorts \<Rightarrow> FailedOfferCancellationReconcilerConfig \<Rightarrow> nat \<Rightarrow> RecoverableOfferCancellationRecord list \<Rightarrow> nat heal" where
  "recoverRecords P config n [] s = (Inr n, s)"
| "recoverRecords P config n (r # rs) s =
     (if \<not> acceptingRecords s then (Inr n, s)
      else bindH (catchH (recoverRecord P config r) (\<lambda>_. returnH False)) (\<lambda>completed.
           recoverRecords P config (if completed then n + 1 else n) rs) s)"

definition reconcileFailedCancellations ::
  "HealPorts \<Rightarrow> FailedOfferCancellationReconcilerConfig \<Rightarrow> nat heal" where
  "reconcileFailedCancellations P config s =
     (if \<not> acceptingRecords s then (Inr 0, s)
      else bindH (nowH P) (\<lambda>now.
           bindH (callH P (hp_list P) (ListRecoverable (fc_chainId config) (fc_batchSize config)
             (hp_iso P (now - fc_cancellationRetryMs config)))) (\<lambda>records.
           recoverRecords P config 0 records)) s)"

section \<open>What the log of a run shows\<close>

text \<open>
  At the end of the log \<open>l\<close> the marketplace has just answered, before the clock was read, that the
  order is gone, or it has accepted the cancellation of an order it had reported as active under that id.
\<close>

definition known_gone :: "HealPorts \<Rightarrow> heal_call list \<Rightarrow> string \<Rightarrow> bool" where
  "known_gone P l orderId \<longleftrightarrow>
     (\<exists>l0 a b d e. l = l0 @ [GetOrder orderId a b d e, ReadTime] \<and>
        hp_order P (l0 @ [GetOrder orderId a b d e]) = Inr InactiveOrMissing) \<or>
     (\<exists>l0 a b d e ts active order. l = l0 @ [GetOrder orderId a b d e] @ ts @ [CancelRecoveredOrder order, ReadTime] \<and>
        set ts \<subseteq> {ReadTime} \<and> hp_order P (l0 @ [GetOrder orderId a b d e]) = Inr (RecoveredActive active) \<and>
        order_id order = order_id active \<and>
        hp_cancel P (l0 @ [GetOrder orderId a b d e] @ ts @ [CancelRecoveredOrder order]) = Inr ())"

definition justified :: "HealPorts \<Rightarrow> heal_call list \<Rightarrow> bool" where
  "justified P l \<longleftrightarrow>
     (\<forall>k < length l. \<forall>j orderId t. l ! k = MarkOfferCompleted j orderId t \<longrightarrow> known_gone P (take k l) orderId)"

fun is_mark :: "heal_call \<Rightarrow> bool" where
  "is_mark (MarkOfferCompleted _ _ _) = True"
| "is_mark _ = False"

fun is_cancel :: "heal_call \<Rightarrow> bool" where
  "is_cancel (CancelRecoveredOrder _) = True"
| "is_cancel _ = False"

text \<open>How many completions were recorded successfully.\<close>

definition completions :: "HealPorts \<Rightarrow> heal_call list \<Rightarrow> nat" where
  "completions P l =
     length (filter (\<lambda>k. is_mark (l ! k) \<and> hp_completed P (take (Suc k) l) = Inr ()) [0..<length l])"

lemma justified_snoc:
  "justified P (l @ [c]) \<longleftrightarrow> justified P l \<and> (\<forall>j orderId t. c = MarkOfferCompleted j orderId t \<longrightarrow> known_gone P l orderId)"
  unfolding justified_def by (auto simp: less_Suc_eq nth_append)

lemma completions_snoc:
  "completions P (l @ [c]) = completions P l + (if is_mark c \<and> hp_completed P (l @ [c]) = Inr () then 1 else 0)"
proof -
  have "filter (\<lambda>k. is_mark ((l @ [c]) ! k) \<and> hp_completed P (take (Suc k) (l @ [c])) = Inr ()) [0..<length l] =
      filter (\<lambda>k. is_mark (l ! k) \<and> hp_completed P (take (Suc k) l) = Inr ()) [0..<length l]"
    by (intro filter_cong) (auto simp: nth_append)
  then show ?thesis by (simp add: completions_def)
qed

text \<open>What an operation does to the log: justified marks, no cancellation unless \<open>live\<close>, and the
  given number of completions.\<close>

definition logged :: "HealPorts \<Rightarrow> bool \<Rightarrow> nat \<Rightarrow> heal_call list \<Rightarrow> heal_call list \<Rightarrow> bool" where
  "logged P live n l l' \<longleftrightarrow> (justified P l \<longrightarrow> justified P l') \<and> completions P l' = completions P l + n \<and>
     (\<not> live \<longrightarrow> filter is_cancel l' = filter is_cancel l)"

lemma logged_refl [simp]: "logged P live 0 l l"
  by (simp add: logged_def)

lemma logged_trans: "logged P live n l l1 \<Longrightarrow> logged P live m l1 l2 \<Longrightarrow> logged P live (n + m) l l2"
  by (auto simp: logged_def)

lemma logged_call:
  "\<not> is_mark c \<Longrightarrow> is_cancel c \<Longrightarrow> logged P True 0 l (l @ [c])"
  "\<not> is_mark c \<Longrightarrow> \<not> is_cancel c \<Longrightarrow> logged P live 0 l (l @ [c])"
  by (auto simp: logged_def justified_snoc completions_snoc)

lemma logged_mark:
  "known_gone P l orderId \<Longrightarrow> logged P live (if hp_completed P (l @ [MarkOfferCompleted j orderId t]) = Inr () then 1 else 0)
     l (l @ [MarkOfferCompleted j orderId t])"
  by (auto simp: logged_def justified_snoc completions_snoc)

lemma callH_log: "callH P answer c s = (x, t) \<Longrightarrow> heal_log t = heal_log s @ [c] \<and> x = answer (heal_log s @ [c])"
  by (auto simp: callH_def Let_def closeRecordAdmission_def)

lemma nowH_log: "nowH P s = (x, t) \<Longrightarrow> heal_log t = heal_log s @ [ReadTime] \<and> \<not> isl x"
  unfolding nowH_def by (auto dest!: callH_log)

lemma bindH_cases:
  assumes "bindH m f s = (r, s')"
  obtains (thrown) e where "m s = (Inl e, s')" "r = Inl e"
    | (returned) x t where "m s = (Inr x, t)" "f x t = (r, s')"
  using assms by (cases "m s"; cases "fst (m s)") (auto simp: bindH_def)

lemma mark_completed_log:
  assumes "markCompletedNow P r s = (x, t)" and "known_gone P (heal_log s @ [ReadTime]) (rc_orderId r)"
  shows "logged P live (if isl x then 0 else 1) (heal_log s) (heal_log t)"
proof -
  from assms(1) obtain t0 now where n: "heal_log t0 = heal_log s @ [ReadTime]"
    and m: "callH P (hp_completed P) (MarkOfferCompleted (rc_jobId r) (rc_orderId r) (hp_iso P now)) t0 = (x, t)"
    unfolding markCompletedNow_def by (auto elim!: bindH_cases dest!: nowH_log)
  note c = callH_log [OF m]
  have "(if x = Inr () then 1 else 0 :: nat) = (if isl x then 0 else 1)" by (cases x) auto
  then have "logged P live (if isl x then 0 else 1) (heal_log t0) (heal_log t)"
    using logged_mark [OF assms(2) [folded n], of live "rc_jobId r" "hp_iso P now"]
    unfolding conjunct1 [OF c] conjunct2 [OF c, symmetric] by simp
  from logged_trans [OF logged_call(2) [of ReadTime] this [unfolded n]] show ?thesis by simp
qed

lemma restore_log:
  assumes "restoreTerminalFailureIfAvailable P r s = (x, t)"
  shows "logged P live 0 (heal_log s) (heal_log t)"
  using assms logged_call(2) unfolding restoreTerminalFailureIfAvailable_def
  by (auto simp: returnH_def dest!: callH_log split: if_splits)

lemma retry_log:
  assumes run: "retryActiveCancellation P r order s = (x, t)"
    and log: "heal_log s = l0 @ [GetOrder (rc_orderId r) a b d e] @ ts" "set ts \<subseteq> {ReadTime}"
    and active: "hp_order P (l0 @ [GetOrder (rc_orderId r) a b d e]) = Inr (RecoveredActive order)"
  shows "logged P True (if x = Inr True then 1 else 0) (heal_log s) (heal_log t)"
proof -
  let ?o = "mergeRecoveredOrder r order"
  obtain y s1 where cancel: "callH P (hp_cancel P) (CancelRecoveredOrder ?o) s = (y, s1)" by fastforce
  note c = callH_log [OF cancel]
  have s1: "logged P True 0 (heal_log s) (heal_log s1)" using c logged_call(1) by simp
  have failed: "logged P True (if x = Inr True then 1 else 0) (heal_log s) (heal_log t)"
    if "logged P True 0 (heal_log s) (heal_log s2)"
      "bindH (callH P (hp_failed P) (MarkOfferFailed (rc_jobId r) (rc_orderId r) m)) (\<lambda>_. returnH False) s2 = (x, t)" for s2 m
    using that logged_trans [OF that(1) logged_call(2) [of "MarkOfferFailed (rc_jobId r) (rc_orderId r) m"]]
    by (auto elim!: bindH_cases dest!: callH_log simp: returnH_def)
  show ?thesis
  proof (cases y)
    case (Inl m)
    with run cancel failed [OF s1] show ?thesis by (simp add: retryActiveCancellation_def catchH_def bindH_def)
  next
    case (Inr u)
    have gone: "known_gone P (heal_log s1 @ [ReadTime]) (rc_orderId r)"
      unfolding known_gone_def
      by (rule disjI2) (use c log active Inr in \<open>fastforce simp: mergeRecoveredOrder_def\<close>)
    obtain z s2 where mark: "markCompletedNow P r s1 = (z, s2)" by fastforce
    note m = logged_trans [OF s1 mark_completed_log [OF mark gone]]
    from m mark run cancel Inr failed [of s2] show ?thesis
      by (cases z) (auto simp: retryActiveCancellation_def catchH_def bindH_def returnH_def)
  qed
qed

lemma logged_live: "logged P False n l l' \<Longrightarrow> logged P live n l l'"
  by (simp add: logged_def)

lemma should_retry_log:
  "shouldRetryCancellation P r s = (x, t) \<Longrightarrow>
     \<exists>ts. heal_log t = heal_log s @ ts \<and> set ts \<subseteq> {ReadTime} \<and> logged P False 0 (heal_log s) (heal_log t) \<and> \<not> isl x"
  using logged_call(2) [of ReadTime P False "heal_log s"] unfolding shouldRetryCancellation_def
  by (auto elim!: bindH_cases dest!: nowH_log simp: returnH_def split: option.splits)

lemma recover_log:
  assumes run: "recoverRecord P config r s = (x, t)"
  shows "logged P (\<not> fc_dryRun config) (if x = Inr True then 1 else 0) (heal_log s) (heal_log t)"
proof -
  let ?g = "GetOrder (rc_orderId r) (rc_protocolAddress r) (rc_collectionAddress r) (rc_tokenId r) (rc_collectionSlug r)"
  obtain y s1 where get: "callH P (hp_order P) ?g s = (y, s1)" by fastforce
  note g = callH_log [OF get]
  have s1: "logged P live 0 (heal_log s) (heal_log s1)" for live using g logged_call(2) by simp
  have restored: "logged P live (if x = Inr True then 1 else 0) (heal_log s) (heal_log t)"
    if "logged P live 0 (heal_log s) (heal_log s2)"
      "bindH (restoreTerminalFailureIfAvailable P r) (\<lambda>_. returnH False) s2 = (x, t)" for s2 live
    using that(2) logged_trans [OF that(1) restore_log [of P r s2]]
    by (auto elim!: bindH_cases simp: returnH_def)
  show ?thesis
  proof (cases y)
    case (Inl m)
    with run get have "t = s1" "x = Inl m" by (simp_all add: recoverRecord_def bindH_def)
    with s1 show ?thesis by simp
  next
    case (Inr result)
    show ?thesis
    proof (cases result)
      case InactiveOrMissing
      have gone: "known_gone P (heal_log s1 @ [ReadTime]) (rc_orderId r)"
        unfolding known_gone_def by (rule disjI1) (use g Inr InactiveOrMissing in auto)
      obtain z s2 where mark: "markCompletedNow P r s1 = (z, s2)" by fastforce
      from logged_trans [OF s1 mark_completed_log [OF mark gone]] run get Inr InactiveOrMissing mark show ?thesis
        by (cases z) (auto simp: recoverRecord_def bindH_def returnH_def)
    next
      case (Inconclusive reason)
      with run get Inr restored [OF s1] show ?thesis by (simp add: recoverRecord_def bindH_def)
    next
      case (RecoveredActive order)
      show ?thesis
      proof (cases "fc_dryRun config")
        case True
        with run get Inr RecoveredActive restored [OF s1] show ?thesis by (simp add: recoverRecord_def bindH_def)
      next
        case False
        obtain z s2 where should: "shouldRetryCancellation P r s1 = (z, s2)" by fastforce
        from should_retry_log [OF this] obtain ts retry where ts: "heal_log s2 = heal_log s1 @ ts" "set ts \<subseteq> {ReadTime}"
          and z: "z = Inr retry" and l2: "logged P False 0 (heal_log s1) (heal_log s2)" by (cases z) auto
        have s2: "logged P True 0 (heal_log s) (heal_log s2)" using logged_trans [OF s1 logged_live [OF l2]] by simp
        have run': "(if retry then retryActiveCancellation P r order
            else bindH (restoreTerminalFailureIfAvailable P r) (\<lambda>_. returnH False)) s2 = (x, t)"
          using run get Inr RecoveredActive False should z by (simp add: recoverRecord_def bindH_def)
        show ?thesis
        proof (cases retry)
          case True
          with run' have "retryActiveCancellation P r order s2 = (x, t)" by simp
          moreover have "heal_log s2 = heal_log s @ [?g] @ ts" using g ts by simp
          moreover have "hp_order P (heal_log s @ [?g]) = Inr (RecoveredActive order)" using g Inr RecoveredActive by simp
          ultimately have "logged P True (if x = Inr True then 1 else 0) (heal_log s2) (heal_log t)"
            using ts(2) by (intro retry_log)
          from logged_trans [OF s2 this] False show ?thesis by simp
        next
          case no: False
          with run' restored [OF s2] False show ?thesis by simp
        qed
      qed
    qed
  qed
qed

lemma records_log:
  "recoverRecords P config n rs s = (x, t) \<Longrightarrow>
     \<exists>m. x = Inr (n + m) \<and> logged P (\<not> fc_dryRun config) m (heal_log s) (heal_log t)"
proof (induction rs arbitrary: n s)
  case (Cons r rs)
  show ?case
  proof (cases "acceptingRecords s")
    case False
    with Cons.prems show ?thesis by (intro exI [of _ 0]) simp
  next
    case True
    obtain y s1 where rec: "recoverRecord P config r s = (y, s1)" by fastforce
    define c where "c = (y = Inr True)"
    from Cons.prems True rec have "recoverRecords P config (if c then n + 1 else n) rs s1 = (x, t)"
      by (cases y) (auto simp: bindH_def catchH_def returnH_def c_def)
    from Cons.IH [OF this] obtain m where m: "x = Inr ((if c then n + 1 else n) + m)"
      "logged P (\<not> fc_dryRun config) m (heal_log s1) (heal_log t)" by blast
    from logged_trans [OF recover_log [OF rec, folded c_def] m(2)] m(1) show ?thesis by auto
  qed
qed (auto intro: exI [of _ 0])

section \<open>Properties\<close>

text \<open>
  C35. Healing is sound.  Whatever repository, marketplace and clock answer, a cancellation is recorded as
  completed only right after the marketplace said that this order is gone, or accepted the cancellation of
  the order it had just reported as active; in dry-run mode nothing is cancelled; the pass
  fails only if the records cannot be listed, and the number it returns is the number of completions recorded.
\<close>

theorem healing_is_sound:
  assumes "reconcileFailedCancellations P config s = (x, t)" and "heal_log s = []"
  shows "(\<forall>k < length (heal_log t). \<forall>j orderId u. heal_log t ! k = MarkOfferCompleted j orderId u \<longrightarrow>
       known_gone P (take k (heal_log t)) orderId) \<and>
     (fc_dryRun config \<longrightarrow> (\<forall>order. CancelRecoveredOrder order \<notin> set (heal_log t))) \<and>
     (case x of Inr n \<Rightarrow> completions P (heal_log t) = n
      | Inl e \<Rightarrow> \<exists>l. hp_list P l = Inl e \<and> completions P (heal_log t) = 0)"
proof -
  have "\<exists>m. logged P (\<not> fc_dryRun config) m [] (heal_log t) \<and>
      (case x of Inr n \<Rightarrow> n = m | Inl e \<Rightarrow> m = 0 \<and> (\<exists>l. hp_list P l = Inl e))"
  proof (cases "acceptingRecords s")
    case False
    with assms show ?thesis by (intro exI [of _ 0]) (auto simp: reconcileFailedCancellations_def)
  next
    case True
    obtain now s1 where now: "nowH P s = (Inr now, s1)" by (metis nowH_log isl_def sum.collapse(2) surj_pair)
    let ?c = "ListRecoverable (fc_chainId config) (fc_batchSize config) (hp_iso P (now - fc_cancellationRetryMs config))"
    obtain y s2 where list: "callH P (hp_list P) ?c s1 = (y, s2)" by fastforce
    have l1: "logged P live 0 [] (heal_log s1)" "logged P live 0 (heal_log s1) (heal_log s2)" for live
      using nowH_log [OF now] callH_log [OF list] assms(2) logged_call(2) [of ReadTime P live "[]"] logged_call(2) [of ?c P live "[ReadTime]"]
      by simp_all
    note l2 = logged_trans [OF l1]
    show ?thesis
    proof (cases y)
      case (Inl e)
      with assms(1) True now list have "x = Inl e" "t = s2" by (simp_all add: reconcileFailedCancellations_def bindH_def)
      with l2 Inl callH_log [OF list] show ?thesis by (auto intro!: exI [of _ 0])
    next
      case (Inr records)
      with assms(1) True now list have "recoverRecords P config 0 records s2 = (x, t)"
        by (simp add: reconcileFailedCancellations_def bindH_def)
      from records_log [OF this] obtain m where m: "x = Inr m"
        "logged P (\<not> fc_dryRun config) m (heal_log s2) (heal_log t)" by auto
      from logged_trans [OF l2 m(2)] m(1) show ?thesis by simp
    qed
  qed
  then obtain m where m: "logged P (\<not> fc_dryRun config) m [] (heal_log t)"
    "case x of Inr n \<Rightarrow> n = m | Inl e \<Rightarrow> m = 0 \<and> (\<exists>l. hp_list P l = Inl e)" by blast
  have "justified P (heal_log t)" "completions P (heal_log t) = m"
    and "fc_dryRun config \<Longrightarrow> filter is_cancel (heal_log t) = []"
    using m(1) by (auto simp: logged_def justified_def completions_def)
  moreover from this(3) have "CancelRecoveredOrder order \<notin> set (heal_log t)" if "fc_dryRun config" for order
    using that by (metis filter_empty_conv is_cancel.simps(1))
  ultimately show ?thesis using m(2) by (auto simp: justified_def split: sum.splits)
qed

section \<open>Sample\<close>

definition heal_record :: "string \<Rightarrow> RecoverableOfferCancellationRecord" where
  "heal_record i = \<lparr>rc_jobId = ''job'', rc_orderId = i, rc_protocolAddress = None, rc_placedAt = None,
     rc_expirationTimeMs = Some 9000, rc_collectionAddress = ''0xb'', rc_collectionSlug = ''terraforms'',
     rc_tokenId = None, rc_cancellationError = Some ''refused'', rc_terminalCommandError = None,
     rc_hasTerminalCommand = True\<rparr>"

definition heal_order :: Order where
  "heal_order = \<lparr>order_id = ''b'', order_price = 5, order_maker = ''0xa'', order_protocolAddress = None,
     order_placedAt = None, order_expirationTime = None, order_rawOrder = JUndefined, order_offerScope = None\<rparr>"

definition heal_ports :: HealPorts where
  "heal_ports = \<lparr>hp_list = (\<lambda>_. Inr [heal_record ''a'', heal_record ''b'']),
     hp_order = (\<lambda>l. case last l of GetOrder i _ _ _ _ \<Rightarrow> Inr (if i = ''a'' then InactiveOrMissing else RecoveredActive heal_order)
       | _ \<Rightarrow> Inl ''no''),
     hp_cancel = (\<lambda>_. Inr ()), hp_completed = (\<lambda>_. Inr ()), hp_failed = (\<lambda>_. Inr ()), hp_now = (\<lambda>_. 1000),
     hp_iso = (\<lambda>_. ''now''), hp_closing = (\<lambda>_. False)\<rparr>"

definition heal_config :: FailedOfferCancellationReconcilerConfig where
  "heal_config = \<lparr>fc_chainId = 1, fc_batchSize = 10, fc_cancellationRetryMs = 60000, fc_dryRun = False\<rparr>"

definition heal_start :: FailedOfferCancellationReconciler where
  "heal_start = \<lparr>acceptingRecords = True, heal_log = []\<rparr>"

theorem healing_is_sound_witness:
  "completions heal_ports (heal_log (snd (reconcileFailedCancellations heal_ports heal_config heal_start))) = 2"
proof -
  have "fst (reconcileFailedCancellations heal_ports heal_config heal_start) = Inr 2" by code_simp
  then have "reconcileFailedCancellations heal_ports heal_config heal_start =
      (Inr 2, snd (reconcileFailedCancellations heal_ports heal_config heal_start))" by (simp add: prod_eq_iff)
  from healing_is_sound [OF this] show ?thesis by (simp add: heal_start_def)
qed

end
