(* ===== verification/Offer_Snapshots.thy ===== *)
theory Offer_Snapshots
  imports Prelude "HOL-Library.AList"
begin

text \<open>
  The snapshots of a collection's offers that bidding reads
  (\<^verbatim>\<open>trading/src/application/use-cases/bidding/collection-offer-snapshot-service.ts\<close>): one refresh
  per collection at a time, requests that arrive meanwhile coalesced into one rerun, freshness and
  failure backoff, polling, and shutdown.

  A step is the code between two \<open>await\<close>s.  A promise is a number; \<open>sv_settled\<close> has its outcome once
  there is one.  The closure that refreshes a collection is an entry of \<open>sv_loops\<close> under its promise, and
  a call of \<open>refreshAndWait\<close> an entry of \<open>sv_calls\<close> with the place it has reached.  The source of offers is
  the environment: each of its answers is an argument of \<open>sourceSettled\<close>.  Reads of the clock and of
  \<open>Math.random\<close> are arguments, numbers are rationals and \<open>fl\<close> is the rounding of the host.  The observer
  is the list of the events it was told; as its wrapper swallows what it throws, it has no other
  effect.  Logging is left out.

  Three ghost fields number the fetches: \<open>loop_fetch\<close> is the fetch a loop awaits, \<open>sv_stored\<close> the fetch
  whose result a snapshot is, and \<open>call_fetches\<close> how many fetches had begun when a call was made.
\<close>

section \<open>Data\<close>

record CollectionOfferSnapshotMetrics =
  me_durationMs :: rat
  me_pageCount :: int
  me_offerCount :: int
  me_complete :: bool
  me_firstPriceWei :: "string option"
  me_lastPriceWei :: "string option"
  me_minPriceWei :: "string option"
  me_maxPriceWei :: "string option"
  me_finalCursor :: "string option"

record 'o CollectionOfferSnapshot =
  os_collectionSlug :: string
  os_offers :: "'o list"
  os_refreshedAt :: int
  os_metrics :: CollectionOfferSnapshotMetrics

text \<open>What the source answers: a result, or an error with the metrics of a
  \<open>CollectionOfferSourceError\<close>.\<close>

datatype 'o SourceOutcome =
  SourceResult "'o list" CollectionOfferSnapshotMetrics
| SourceError string "CollectionOfferSnapshotMetrics option"

datatype CollectionOfferRefreshOutcome =
  Started | Coalesced | FreshSkipped | JoinedInFlight | BackoffSkipped | Unwatched | Stopped

datatype CollectionOfferSnapshotRefreshResult = CompleteRefresh | PartialRefresh | FailedRefresh

datatype 'o SnapshotEvent =
  SnapshotRefreshed "'o CollectionOfferSnapshot" string
| SnapshotRefreshRequest CollectionOfferRefreshOutcome
| SnapshotRefreshFinished rat int int CollectionOfferSnapshotRefreshResult
| SnapshotStateChanged int int int

record PendingRefreshRequest =
  pr_reason :: string
  pr_respectTtl :: bool

record CollectionRefreshState =
  st_refreshing :: bool
  st_pendingRequest :: "PendingRefreshRequest option"
  st_inFlightPromise :: "nat option"
  st_failureCount :: int
  st_lastStartedAt :: "int option"
  st_lastError :: "string option"
  st_nextEligibleRefreshAt :: "rat option"

record SnapshotLoop =
  loop_slug :: string
  loop_reason :: string
  loop_fetch :: nat

text \<open>Where a call stands: about to go on after \<open>waitForFreshInFlightRefresh\<close> returned false, inside it at
  its \<open>await\<close>, at the last \<open>await\<close> of \<open>refreshCollection\<close>, or settled.\<close>

datatype CallPoint = NotServed | JoinedFlight nat | AwaitsFlight nat | Settled "string + unit"

record RefreshCall =
  call_slug :: string
  call_reason :: string
  call_respectTtl :: bool
  call_point :: CallPoint
  call_promise :: "nat option"
  call_fetches :: nat

record 'o SnapshotService =
  sv_watched :: "string list"
  sv_snapshots :: "(string \<times> 'o CollectionOfferSnapshot) list"
  sv_refreshStates :: "(string \<times> CollectionRefreshState) list"
  sv_refreshTtlMs :: rat
  sv_refreshMaxTtlMs :: rat
  sv_durationMultiplier :: rat
  sv_events :: "'o SnapshotEvent list"
  sv_activeRefreshCount :: int
  sv_pendingRefreshCount :: int
  sv_activePromises :: "nat list"
  sv_started :: bool
  sv_stopped :: bool
  sv_stopPromise :: "nat list option"
  sv_pollTimer :: bool
  sv_loops :: "(nat \<times> SnapshotLoop) list"
  sv_calls :: "RefreshCall list"
  sv_promises :: nat
  sv_settled :: "nat \<Rightarrow> (string + unit) option"
  sv_fetches :: nat
  sv_stored :: "string \<Rightarrow> nat"

section \<open>Observer\<close>

definition tell :: "'o SnapshotEvent \<Rightarrow> 'o SnapshotService \<Rightarrow> 'o SnapshotService" where
  "tell e S = S\<lparr> sv_events := sv_events S @ [e] \<rparr>"

definition reportState :: "'o SnapshotService \<Rightarrow> 'o SnapshotService" where
  "reportState S =
     tell (SnapshotStateChanged (int (length (sv_watched S))) (sv_activeRefreshCount S) (sv_pendingRefreshCount S)) S"

section \<open>Construction\<close>

text \<open>The members of a \<open>Set\<close> in insertion order.\<close>

definition new_Set :: "string list \<Rightarrow> string list" where
  "new_Set xs = rev (remdups (rev xs))"

definition resolveDurationMultiplier :: "number option \<Rightarrow> rat" where
  "resolveDurationMultiplier m =
     (case m of Some (Fin q) \<Rightarrow> if q > 0 then q else 1 | _ \<Rightarrow> 1)"

definition new_service :: "string list \<Rightarrow> rat \<Rightarrow> rat option \<Rightarrow> number option \<Rightarrow> 'o SnapshotService" where
  "new_service collectionSlugs refreshTtlMs maxTtlMs durationMultiplier =
     reportState
       \<lparr> sv_watched = new_Set collectionSlugs, sv_snapshots = [], sv_refreshStates = [],
         sv_refreshTtlMs = refreshTtlMs,
         sv_refreshMaxTtlMs = max refreshTtlMs (case maxTtlMs of None \<Rightarrow> refreshTtlMs | Some t \<Rightarrow> t),
         sv_durationMultiplier = resolveDurationMultiplier durationMultiplier,
         sv_events = [], sv_activeRefreshCount = 0, sv_pendingRefreshCount = 0, sv_activePromises = [],
         sv_started = False, sv_stopped = False, sv_stopPromise = None, sv_pollTimer = False,
         sv_loops = [], sv_calls = [], sv_promises = 0, sv_settled = (\<lambda>_. None), sv_fetches = 0,
         sv_stored = (\<lambda>_. 0) \<rparr>"

section \<open>Freshness and backoff\<close>

definition getSnapshotFreshnessTtlMs ::
  "(rat \<Rightarrow> rat) \<Rightarrow> 'o SnapshotService \<Rightarrow> CollectionOfferSnapshotMetrics \<Rightarrow> rat" where
  "getSnapshotFreshnessTtlMs fl S metrics =
     (let adaptiveTtlMs = of_int \<lceil>fl (me_durationMs metrics * sv_durationMultiplier S)\<rceil>
      in min (sv_refreshMaxTtlMs S) (max (sv_refreshTtlMs S) adaptiveTtlMs))"

definition getSnapshot :: "'o SnapshotService \<Rightarrow> string \<Rightarrow> 'o CollectionOfferSnapshot option" where
  "getSnapshot S slug = map_of (sv_snapshots S) slug"

definition isSnapshotFresh :: "(rat \<Rightarrow> rat) \<Rightarrow> 'o SnapshotService \<Rightarrow> string \<Rightarrow> int \<Rightarrow> bool" where
  "isSnapshotFresh fl S slug now \<longleftrightarrow>
     (if sv_refreshTtlMs S \<le> 0 then False
      else case getSnapshot S slug of
        None \<Rightarrow> False
      | Some snapshot \<Rightarrow>
          of_int (now - os_refreshedAt snapshot) < getSnapshotFreshnessTtlMs fl S (os_metrics snapshot))"

definition idle_refresh :: CollectionRefreshState where
  "idle_refresh =
     \<lparr> st_refreshing = False, st_pendingRequest = None, st_inFlightPromise = None, st_failureCount = 0,
       st_lastStartedAt = None, st_lastError = None, st_nextEligibleRefreshAt = None \<rparr>"

definition getRefreshState :: "'o SnapshotService \<Rightarrow> string \<Rightarrow> CollectionRefreshState" where
  "getRefreshState S slug = (case map_of (sv_refreshStates S) slug of None \<Rightarrow> idle_refresh | Some st \<Rightarrow> st)"

definition put_refresh ::
  "string \<Rightarrow> CollectionRefreshState \<Rightarrow> 'o SnapshotService \<Rightarrow> 'o SnapshotService" where
  "put_refresh slug st S = S\<lparr> sv_refreshStates := AList.update slug st (sv_refreshStates S) \<rparr>"

definition isRefreshBackoffActive :: "'o SnapshotService \<Rightarrow> string \<Rightarrow> int \<Rightarrow> bool" where
  "isRefreshBackoffActive S slug now \<longleftrightarrow>
     (case st_nextEligibleRefreshAt (getRefreshState S slug) of None \<Rightarrow> False | Some t \<Rightarrow> of_int now < t)"

definition recordRefreshSuccess :: "string \<Rightarrow> 'o SnapshotService \<Rightarrow> 'o SnapshotService" where
  "recordRefreshSuccess slug S =
     put_refresh slug
       ((getRefreshState S slug)\<lparr> st_failureCount := 0, st_lastError := None, st_nextEligibleRefreshAt := None \<rparr>) S"

definition FAILURE_BACKOFF_MULTIPLIER :: rat where
  "FAILURE_BACKOFF_MULTIPLIER = 2"

definition FAILURE_BACKOFF_MAX_EXPONENT :: int where
  "FAILURE_BACKOFF_MAX_EXPONENT = 6"

text \<open>The literal \<open>0.2\<close> is the nearest double.\<close>

definition FAILURE_BACKOFF_JITTER_RATIO :: rat where
  "FAILURE_BACKOFF_JITTER_RATIO = 1 / 5"

definition failureBackoffMs :: "(rat \<Rightarrow> rat) \<Rightarrow> 'o SnapshotService \<Rightarrow> int \<Rightarrow> rat \<Rightarrow> rat" where
  "failureBackoffMs fl S failureCount random =
     (let exponent = min (failureCount - 1) FAILURE_BACKOFF_MAX_EXPONENT;
          rawBackoffMs = fl (sv_refreshTtlMs S * FAILURE_BACKOFF_MULTIPLIER ^ nat exponent);
          jitterMs = of_int \<lfloor>fl (fl (rawBackoffMs * fl FAILURE_BACKOFF_JITTER_RATIO) * random)\<rfloor>
      in min (sv_refreshMaxTtlMs S) (fl (rawBackoffMs + jitterMs)))"

definition recordRefreshFailure ::
  "(rat \<Rightarrow> rat) \<Rightarrow> string \<Rightarrow> string \<Rightarrow> rat \<Rightarrow> int \<Rightarrow> 'o SnapshotService \<Rightarrow> 'o SnapshotService" where
  "recordRefreshFailure fl slug message random now S =
     (let st = getRefreshState S slug; failures = st_failureCount st + 1
      in put_refresh slug
           (st\<lparr> st_failureCount := failures, st_lastError := Some message,
               st_nextEligibleRefreshAt := Some (fl (of_int now + failureBackoffMs fl S failures random)) \<rparr>) S)"

section \<open>Pending requests\<close>

text \<open>\<open>split(" || ")\<close>.\<close>

definition reason_separator :: string where
  "reason_separator = '' || ''"

fun split_reasons :: "string \<Rightarrow> string \<Rightarrow> string list" where
  "split_reasons acc [] = [rev acc]"
| "split_reasons acc (c # cs) =
     (if take 4 (c # cs) = reason_separator then rev acc # split_reasons [] (drop 3 cs)
      else split_reasons (c # acc) cs)"

definition mergeRefreshReasons :: "string \<Rightarrow> string \<Rightarrow> string" where
  "mergeRefreshReasons existing incoming =
     (if existing = [] then incoming
      else if incoming \<in> set (split_reasons [] existing) then existing
      else existing @ reason_separator @ incoming)"

definition mergePendingRefreshRequest ::
  "PendingRefreshRequest option \<Rightarrow> PendingRefreshRequest \<Rightarrow> PendingRefreshRequest" where
  "mergePendingRefreshRequest existing incoming =
     (case existing of
        None \<Rightarrow> incoming
      | Some e \<Rightarrow> \<lparr> pr_reason = mergeRefreshReasons (pr_reason e) (pr_reason incoming),
                    pr_respectTtl = (pr_respectTtl e \<and> pr_respectTtl incoming) \<rparr>)"

definition takePendingRequest ::
  "string \<Rightarrow> 'o SnapshotService \<Rightarrow> PendingRefreshRequest option \<times> 'o SnapshotService" where
  "takePendingRequest slug S =
     (case st_pendingRequest (getRefreshState S slug) of
        None \<Rightarrow> (None, S)
      | Some r \<Rightarrow> (Some r,
          put_refresh slug ((getRefreshState S slug)\<lparr> st_pendingRequest := None \<rparr>)
            (S\<lparr> sv_pendingRefreshCount := sv_pendingRefreshCount S - 1 \<rparr>)))"

definition clearPendingRequest :: "string \<Rightarrow> 'o SnapshotService \<Rightarrow> 'o SnapshotService" where
  "clearPendingRequest slug S = snd (takePendingRequest slug S)"

section \<open>Refreshes\<close>

text \<open>The head of the loop: the clock is read and the source asked.\<close>

definition beginFetch :: "nat \<Rightarrow> string \<Rightarrow> string \<Rightarrow> int \<Rightarrow> 'o SnapshotService \<Rightarrow> 'o SnapshotService" where
  "beginFetch p slug reason now S =
     (put_refresh slug ((getRefreshState S slug)\<lparr> st_lastStartedAt := Some now \<rparr>) S)\<lparr>
        sv_fetches := Suc (sv_fetches S),
        sv_loops := AList.update p \<lparr> loop_slug = slug, loop_reason = reason, loop_fetch = Suc (sv_fetches S) \<rparr> (sv_loops S) \<rparr>"

definition coalesceRefresh :: "string \<Rightarrow> string \<Rightarrow> bool \<Rightarrow> 'o SnapshotService \<Rightarrow> 'o SnapshotService" where
  "coalesceRefresh slug reason respectTtl S =
     (let st = getRefreshState S slug;
          merged = mergePendingRefreshRequest (st_pendingRequest st) \<lparr> pr_reason = reason, pr_respectTtl = respectTtl \<rparr>;
          S1 = put_refresh slug (st\<lparr> st_pendingRequest := Some merged \<rparr>) (tell (SnapshotRefreshRequest Coalesced) S)
      in reportState
           (if st_pendingRequest st = None then S1\<lparr> sv_pendingRefreshCount := sv_pendingRefreshCount S1 + 1 \<rparr> else S1))"

definition startRefresh :: "string \<Rightarrow> string \<Rightarrow> int \<Rightarrow> 'o SnapshotService \<Rightarrow> 'o SnapshotService" where
  "startRefresh slug reason now S =
     (let p = sv_promises S;
          S1 = put_refresh slug ((getRefreshState S slug)\<lparr> st_refreshing := True \<rparr>) (tell (SnapshotRefreshRequest Started) S);
          S2 = reportState (S1\<lparr> sv_activeRefreshCount := sv_activeRefreshCount S1 + 1 \<rparr>);
          S3 = beginFetch p slug reason now S2
      in (put_refresh slug ((getRefreshState S3 slug)\<lparr> st_inFlightPromise := Some p \<rparr>) S3)\<lparr>
            sv_activePromises := sv_activePromises S3 @ [p], sv_promises := Suc p \<rparr>)"

text \<open>With the point at which the calling \<open>refreshAndWait\<close> then is.\<close>

definition refreshCollection ::
  "string \<Rightarrow> string \<Rightarrow> bool \<Rightarrow> int \<Rightarrow> 'o SnapshotService \<Rightarrow> CallPoint \<times> 'o SnapshotService" where
  "refreshCollection slug reason respectTtl now S =
     (let st = getRefreshState S slug in
      if st_refreshing st
      then ((case st_inFlightPromise st of Some p \<Rightarrow> AwaitsFlight p | None \<Rightarrow> Settled (Inr ())),
            coalesceRefresh slug reason respectTtl S)
      else (AwaitsFlight (sv_promises S), startRefresh slug reason now S))"

definition createCollectionOfferSnapshotMetrics :: "rat \<Rightarrow> bool \<Rightarrow> CollectionOfferSnapshotMetrics" where
  "createCollectionOfferSnapshotMetrics durationMs isComplete =
     \<lparr> me_durationMs = durationMs, me_pageCount = 0, me_offerCount = 0, me_complete = isComplete,
       me_firstPriceWei = None, me_lastPriceWei = None, me_minPriceWei = None, me_maxPriceWei = None,
       me_finalCursor = None \<rparr>"

definition refreshFinished ::
  "CollectionOfferSnapshotMetrics \<Rightarrow> CollectionOfferSnapshotRefreshResult \<Rightarrow> 'o SnapshotEvent" where
  "refreshFinished metrics result =
     SnapshotRefreshFinished (me_durationMs metrics) (me_pageCount metrics) (me_offerCount metrics) result"

text \<open>The \<open>finally\<close> block; the promise settles with it.\<close>

definition finishLoop :: "nat \<Rightarrow> string \<Rightarrow> string + unit \<Rightarrow> 'o SnapshotService \<Rightarrow> 'o SnapshotService" where
  "finishLoop p slug result S =
     (let S1 = put_refresh slug ((getRefreshState S slug)\<lparr> st_refreshing := False \<rparr>)
                 (S\<lparr> sv_activeRefreshCount := sv_activeRefreshCount S - 1 \<rparr>);
          S2 = clearPendingRequest slug S1;
          S3 = put_refresh slug ((getRefreshState S2 slug)\<lparr> st_inFlightPromise := None \<rparr>) S2
      in (reportState S3)\<lparr> sv_loops := AList.delete p (sv_loops S3),
            sv_settled := (sv_settled S3)(p := Some result) \<rparr>)"

text \<open>The reads of the clock and the random number after the source has answered.\<close>

record SettleInputs =
  in_failedAt :: int
  in_backoffFrom :: int
  in_random :: rat
  in_storedAt :: int
  in_checkedAt :: int
  in_startedAt :: int

definition partialSnapshotError :: string where
  "partialSnapshotError = ''OpenSea returned a partial collection offer snapshot''"

definition storeSnapshot :: "string \<Rightarrow> nat \<Rightarrow> string \<Rightarrow> 'o CollectionOfferSnapshot \<Rightarrow> 'o SnapshotService \<Rightarrow> 'o SnapshotService" where
  "storeSnapshot slug fetch reason snapshot S =
     tell (SnapshotRefreshed snapshot reason)
       (S\<lparr> sv_snapshots := AList.update slug snapshot (sv_snapshots S),
           sv_stored := (sv_stored S)(slug := fetch) \<rparr>)"

definition afterSnapshot ::
  "(rat \<Rightarrow> rat) \<Rightarrow> nat \<Rightarrow> string \<Rightarrow> SettleInputs \<Rightarrow> 'o SnapshotService \<Rightarrow> 'o SnapshotService" where
  "afterSnapshot fl p slug inp S =
     (case takePendingRequest slug S of
        (None, S1) \<Rightarrow> finishLoop p slug (Inr ()) S1
      | (Some r, S1) \<Rightarrow>
          let S2 = reportState S1 in
          if pr_respectTtl r \<and> isSnapshotFresh fl S2 slug (in_checkedAt inp)
          then finishLoop p slug (Inr ()) S2
          else beginFetch p slug (pr_reason r) (in_startedAt inp) S2)"

definition sourceSettled ::
  "(rat \<Rightarrow> rat) \<Rightarrow> nat \<Rightarrow> 'o SourceOutcome \<Rightarrow> SettleInputs \<Rightarrow> 'o SnapshotService \<Rightarrow> 'o SnapshotService" where
  "sourceSettled fl p outcome inp S =
     (case map_of (sv_loops S) p of
        None \<Rightarrow> S
      | Some l \<Rightarrow>
          let slug = loop_slug l;
              failed = (\<lambda>metrics result message.
                finishLoop p slug (Inl message)
                  (recordRefreshFailure fl slug message (in_random inp) (in_backoffFrom inp)
                     (tell (refreshFinished metrics result) S)))
          in (case outcome of
                SourceError message metrics \<Rightarrow>
                  failed (case metrics of
                            Some m \<Rightarrow> m
                          | None \<Rightarrow>
                              createCollectionOfferSnapshotMetrics
                                (of_int (in_failedAt inp -
                                   (case st_lastStartedAt (getRefreshState S slug) of Some t \<Rightarrow> t | None \<Rightarrow> 0))) False)
                    FailedRefresh message
              | SourceResult offers metrics \<Rightarrow>
                  if \<not> me_complete metrics then failed metrics PartialRefresh partialSnapshotError
                  else afterSnapshot fl p slug inp
                    (storeSnapshot slug (loop_fetch l) (loop_reason l)
                      \<lparr> os_collectionSlug = slug, os_offers = offers, os_refreshedAt = in_storedAt inp, os_metrics = metrics \<rparr>
                      (recordRefreshSuccess slug (tell (refreshFinished metrics CompleteRefresh) S)))))"

text \<open>The callback that forgets a settled promise.\<close>

definition forgetPromise :: "nat \<Rightarrow> 'o SnapshotService \<Rightarrow> 'o SnapshotService" where
  "forgetPromise p S = S\<lparr> sv_activePromises := removeAll p (sv_activePromises S) \<rparr>"

section \<open>Calls\<close>

definition promise_of :: "CallPoint \<Rightarrow> nat option" where
  "promise_of point = (case point of AwaitsFlight p \<Rightarrow> Some p | _ \<Rightarrow> None)"

text \<open>The suspended call; \<open>fetches\<close> counts the fetches before it.\<close>

definition add_call ::
  "string \<Rightarrow> string \<Rightarrow> bool \<Rightarrow> CallPoint \<Rightarrow> nat \<Rightarrow> 'o SnapshotService \<Rightarrow> 'o SnapshotService" where
  "add_call slug reason respectTtl point fetches S =
     S\<lparr> sv_calls := sv_calls S @
          [\<lparr> call_slug = slug, call_reason = reason, call_respectTtl = respectTtl, call_point = point,
            call_promise = promise_of point, call_fetches = fetches \<rparr>] \<rparr>"

text \<open>The flight \<open>waitForFreshInFlightRefresh\<close> waits for, if there is one.\<close>

definition flightToJoin :: "'o SnapshotService \<Rightarrow> string \<Rightarrow> nat option" where
  "flightToJoin S slug =
     (let st = getRefreshState S slug in if st_refreshing st then st_inFlightPromise st else None)"

text \<open>\<open>refreshAndWait\<close> up to its first \<open>await\<close>; a call that respects the TTL always has one, at
  \<open>waitForFreshInFlightRefresh\<close>.  \<open>checkedAt\<close> and \<open>startedAt\<close> are the reads of the clock.\<close>

definition refreshAndWait ::
  "(rat \<Rightarrow> rat) \<Rightarrow> string \<Rightarrow> string \<Rightarrow> bool \<Rightarrow> int \<Rightarrow> int \<Rightarrow> 'o SnapshotService \<Rightarrow> 'o SnapshotService" where
  "refreshAndWait fl slug reason respectTtl checkedAt startedAt S =
     (let add = (\<lambda>point S'. add_call slug reason respectTtl point (sv_fetches S) S') in
      if sv_stopped S then add (Settled (Inr ())) (tell (SnapshotRefreshRequest Stopped) S)
      else if slug \<notin> set (sv_watched S) then add (Settled (Inr ())) (tell (SnapshotRefreshRequest Unwatched) S)
      else if respectTtl \<and> isSnapshotFresh fl S slug checkedAt
      then add (Settled (Inr ())) (tell (SnapshotRefreshRequest FreshSkipped) S)
      else if respectTtl
      then case flightToJoin S slug of
             Some p \<Rightarrow> add (JoinedFlight p) (tell (SnapshotRefreshRequest JoinedInFlight) S)
           | None \<Rightarrow> add NotServed S
      else case refreshCollection slug reason respectTtl startedAt S of (point, S') \<Rightarrow> add point S')"

definition set_point :: "nat \<Rightarrow> CallPoint \<Rightarrow> 'o SnapshotService \<Rightarrow> 'o SnapshotService" where
  "set_point i point S =
     S\<lparr> sv_calls := (sv_calls S)[i := (sv_calls S ! i)\<lparr> call_point := point \<rparr>] \<rparr>"

text \<open>The rest of \<open>refreshAndWait\<close> after \<open>waitForFreshInFlightRefresh\<close> returned false.\<close>

definition continueCall :: "nat \<Rightarrow> int \<Rightarrow> int \<Rightarrow> 'o SnapshotService \<Rightarrow> 'o SnapshotService" where
  "continueCall i checkedAt startedAt S =
     (let c = sv_calls S ! i in
      if sv_stopped S then set_point i (Settled (Inr ())) (tell (SnapshotRefreshRequest Stopped) S)
      else if call_respectTtl c \<and> isRefreshBackoffActive S (call_slug c) checkedAt
      then set_point i (Settled (Inr ())) (tell (SnapshotRefreshRequest BackoffSkipped) S)
      else case refreshCollection (call_slug c) (call_reason c) (call_respectTtl c) startedAt S of
        (point, S') \<Rightarrow> S'\<lparr> sv_calls := (sv_calls S')[i := c\<lparr> call_point := point, call_promise := promise_of point \<rparr>] \<rparr>)"

text \<open>A call goes on once what it awaits is settled; an error of the flight is the call's.\<close>

definition resumeCall :: "(rat \<Rightarrow> rat) \<Rightarrow> nat \<Rightarrow> int \<Rightarrow> int \<Rightarrow> 'o SnapshotService \<Rightarrow> 'o SnapshotService" where
  "resumeCall fl i checkedAt startedAt S =
     (let c = sv_calls S ! i in
      case call_point c of
        NotServed \<Rightarrow> continueCall i checkedAt startedAt S
      | JoinedFlight p \<Rightarrow>
          (case sv_settled S p of
             None \<Rightarrow> S
           | Some (Inl e) \<Rightarrow> set_point i (Settled (Inl e)) S
           | Some (Inr _) \<Rightarrow>
               set_point i (if isSnapshotFresh fl S (call_slug c) checkedAt then Settled (Inr ()) else NotServed) S)
      | AwaitsFlight p \<Rightarrow>
          (case sv_settled S p of None \<Rightarrow> S | Some r \<Rightarrow> set_point i (Settled r) S)
      | Settled r \<Rightarrow> S)"

definition requestRefresh :: "(rat \<Rightarrow> rat) \<Rightarrow> string \<Rightarrow> string \<Rightarrow> int \<Rightarrow> 'o SnapshotService \<Rightarrow> 'o SnapshotService" where
  "requestRefresh fl slug reason checkedAt S =
     (if sv_stopped S then tell (SnapshotRefreshRequest Stopped) S
      else if slug \<notin> set (sv_watched S) then tell (SnapshotRefreshRequest Unwatched) S
      else refreshAndWait fl slug reason True checkedAt checkedAt S)"

text \<open>\<open>bootstrap\<close> calls for every collection before it awaits; it resolves when all its calls do.\<close>

definition bootstrap :: "(rat \<Rightarrow> rat) \<Rightarrow> (string \<Rightarrow> int) \<Rightarrow> 'o SnapshotService \<Rightarrow> 'o SnapshotService" where
  "bootstrap fl clock S =
     (if sv_watched S = [] then S
      else fold (\<lambda>slug. refreshAndWait fl slug ''bootstrap'' False (clock slug) (clock slug)) (sv_watched S) S)"

section \<open>Polling and watched collections\<close>

definition scheduleNextPoll :: "'o SnapshotService \<Rightarrow> 'o SnapshotService" where
  "scheduleNextPoll S = S\<lparr> sv_pollTimer := (sv_started S \<and> sv_watched S \<noteq> []) \<rparr>"

definition pollTimerFires :: "(rat \<Rightarrow> rat) \<Rightarrow> (string \<Rightarrow> int) \<Rightarrow> 'o SnapshotService \<Rightarrow> 'o SnapshotService" where
  "pollTimerFires fl clock S =
     (let S1 = S\<lparr> sv_pollTimer := False \<rparr> in
      if \<not> sv_started S1 then S1
      else scheduleNextPoll
        (fold (\<lambda>slug. requestRefresh fl slug ''poll cadence'' (clock slug)) (sv_watched S1) S1))"

definition start :: "'o SnapshotService \<Rightarrow> 'o SnapshotService" where
  "start S =
     (if sv_started S \<or> sv_stopped S then S
      else let S1 = S\<lparr> sv_started := True \<rparr> in if sv_watched S1 \<noteq> [] then scheduleNextPoll S1 else S1)"

text \<open>The promise of \<open>stop\<close> is the list of the promises it awaits.\<close>

definition stopService :: "'o SnapshotService \<Rightarrow> 'o SnapshotService" where
  "stopService S =
     (case sv_stopPromise S of
        Some _ \<Rightarrow> S
      | None \<Rightarrow>
          let S1 = S\<lparr> sv_started := False, sv_stopped := True, sv_pollTimer := False \<rparr>;
              S2 = reportState (fold clearPendingRequest (map fst (sv_refreshStates S1)) S1)
          in S2\<lparr> sv_stopPromise := Some (sv_activePromises S2) \<rparr>)"

definition stopResolved :: "'o SnapshotService \<Rightarrow> bool" where
  "stopResolved S \<longleftrightarrow>
     (case sv_stopPromise S of None \<Rightarrow> False | Some ps \<Rightarrow> list_all (\<lambda>p. sv_settled S p \<noteq> None) ps)"

definition watchCollection :: "string \<Rightarrow> 'o SnapshotService \<Rightarrow> bool \<times> 'o SnapshotService" where
  "watchCollection slug S =
     (if slug \<in> set (sv_watched S) then (False, S)
      else
        let S1 = reportState (S\<lparr> sv_watched := sv_watched S @ [slug] \<rparr>)
        in (True, if sv_started S1 \<and> \<not> sv_pollTimer S1 then scheduleNextPoll S1 else S1))"

definition unwatchCollection :: "string \<Rightarrow> 'o SnapshotService \<Rightarrow> bool \<times> 'o SnapshotService" where
  "unwatchCollection slug S =
     (if slug \<notin> set (sv_watched S) then (False, S)
      else
        let S1 = reportState (S\<lparr> sv_watched := removeAll slug (sv_watched S) \<rparr>)
        in (True, if sv_watched S1 = [] \<and> sv_pollTimer S1 then S1\<lparr> sv_pollTimer := False \<rparr> else S1))"

fun unwatchMissing :: "string list \<Rightarrow> string list \<Rightarrow> int \<times> 'o SnapshotService \<Rightarrow> int \<times> 'o SnapshotService" where
  "unwatchMissing upcoming [] acc = acc"
| "unwatchMissing upcoming (slug # slugs) (removed, S) =
     unwatchMissing upcoming slugs
       (if slug \<notin> set upcoming
        then (case unwatchCollection slug S of (done, S') \<Rightarrow> (if done then removed + 1 else removed, S'))
        else (removed, S))"

fun watchAll :: "string list \<Rightarrow> int \<times> 'o SnapshotService \<Rightarrow> int \<times> 'o SnapshotService" where
  "watchAll [] acc = acc"
| "watchAll (slug # slugs) (added, S) =
     watchAll slugs (case watchCollection slug S of (done, S') \<Rightarrow> (if done then added + 1 else added, S'))"

definition reconcileWatchedCollections ::
  "string list \<Rightarrow> 'o SnapshotService \<Rightarrow> (int \<times> int) \<times> 'o SnapshotService" where
  "reconcileWatchedCollections collectionSlugs S =
     (let upcoming = new_Set collectionSlugs in
      case unwatchMissing upcoming (sv_watched S) (0, S) of
        (removed, S1) \<Rightarrow> (case watchAll upcoming (0, S1) of (added, S2) \<Rightarrow> ((added, removed), S2)))"

section \<open>Health\<close>

record FreshnessHealth =
  fh_fresh :: int
  fh_stale :: int
  fh_missing :: int
  fh_backoffCollections :: int
  fh_oldestCompleteAtMs :: "int option"

definition addFreshness ::
  "(rat \<Rightarrow> rat) \<Rightarrow> int \<Rightarrow> 'o SnapshotService \<Rightarrow> string \<Rightarrow> FreshnessHealth \<Rightarrow> FreshnessHealth" where
  "addFreshness fl now S slug h =
     (let h1 = (case getSnapshot S slug of
                  None \<Rightarrow> h\<lparr> fh_missing := fh_missing h + 1 \<rparr>
                | Some snapshot \<Rightarrow>
                    (if sv_refreshTtlMs S > 0 \<and>
                        of_int (now - os_refreshedAt snapshot) < getSnapshotFreshnessTtlMs fl S (os_metrics snapshot)
                     then h\<lparr> fh_fresh := fh_fresh h + 1 \<rparr> else h\<lparr> fh_stale := fh_stale h + 1 \<rparr>)\<lparr>
                       fh_oldestCompleteAtMs :=
                         Some (case fh_oldestCompleteAtMs h of
                                 None \<Rightarrow> os_refreshedAt snapshot
                               | Some t \<Rightarrow> min t (os_refreshedAt snapshot)) \<rparr>)
      in if (case st_nextEligibleRefreshAt (getRefreshState S slug) of None \<Rightarrow> 0 | Some t \<Rightarrow> t) > of_int now
         then h1\<lparr> fh_backoffCollections := fh_backoffCollections h1 + 1 \<rparr> else h1)"

definition readFreshness :: "(rat \<Rightarrow> rat) \<Rightarrow> int \<Rightarrow> 'o SnapshotService \<Rightarrow> FreshnessHealth" where
  "readFreshness fl now S =
     fold (addFreshness fl now S) (sv_watched S)
       \<lparr> fh_fresh = 0, fh_stale = 0, fh_missing = 0, fh_backoffCollections = 0, fh_oldestCompleteAtMs = None \<rparr>"

section \<open>Runs\<close>

text \<open>\<open>service_work\<close> is what the source and the calls do by themselves: the source answers, a call that waits
  for something settled goes on.  The other steps are the operations of the service, in any order.\<close>

definition resumable :: "'o SnapshotService \<Rightarrow> nat \<Rightarrow> bool" where
  "resumable S i \<longleftrightarrow>
     i < length (sv_calls S) \<and>
     (case call_point (sv_calls S ! i) of
        NotServed \<Rightarrow> True
      | JoinedFlight p \<Rightarrow> sv_settled S p \<noteq> None
      | AwaitsFlight p \<Rightarrow> sv_settled S p \<noteq> None
      | Settled r \<Rightarrow> False)"

inductive service_work :: "(rat \<Rightarrow> rat) \<Rightarrow> 'o SnapshotService \<Rightarrow> 'o SnapshotService \<Rightarrow> bool"
  for fl where
  answer: "map_of (sv_loops S) p \<noteq> None \<Longrightarrow> service_work fl S (sourceSettled fl p outcome inp S)"
| resume: "resumable S i \<Longrightarrow> service_work fl S (resumeCall fl i checkedAt startedAt S)"

inductive service_step :: "(rat \<Rightarrow> rat) \<Rightarrow> 'o SnapshotService \<Rightarrow> 'o SnapshotService \<Rightarrow> bool"
  for fl where
  work: "service_work fl S S' \<Longrightarrow> service_step fl S S'"
| call: "service_step fl S (refreshAndWait fl slug reason respectTtl checkedAt startedAt S)"
| request: "service_step fl S (requestRefresh fl slug reason checkedAt S)"
| bootstraps: "service_step fl S (bootstrap fl clock S)"
| forget: "sv_settled S p \<noteq> None \<Longrightarrow> service_step fl S (forgetPromise p S)"
| poll: "sv_pollTimer S \<Longrightarrow> service_step fl S (pollTimerFires fl clock S)"
| starts: "service_step fl S (start S)"
| stops: "service_step fl S (stopService S)"
| stopReports: "stopResolved S \<Longrightarrow> service_step fl S (reportState S)"
| watch: "service_step fl S (snd (watchCollection slug S))"
| unwatch: "service_step fl S (snd (unwatchCollection slug S))"
| reconcile: "service_step fl S (snd (reconcileWatchedCollections slugs S))"

end
