(* ===== verification/Offer_Snapshot_Flights.thy ===== *)
theory Offer_Snapshot_Flights
  imports Offer_Snapshots
begin

text \<open>
  The invariants of the snapshot service.  The locale \<open>snapshot_invariant\<close> reduces the steps of the
  service to its atomic actions: what these keep, every run keeps.  It is interpreted on the coherence of
  loops, refresh states and promises (\<open>flight_inv\<close>) and on the exactness of the reported gauges
  (\<open>gauges_told\<close>).  \<open>answer_cases\<close> lists what an answer of the source can lead to.
\<close>

section \<open>Refresh states\<close>

definition refresh_of :: "(string \<times> CollectionRefreshState) list \<Rightarrow> string \<Rightarrow> CollectionRefreshState" where
  "refresh_of rs slug = (case map_of rs slug of None \<Rightarrow> idle_refresh | Some st \<Rightarrow> st)"

definition pendings :: "(string \<times> CollectionRefreshState) list \<Rightarrow> int" where
  "pendings rs = int (length (filter (\<lambda>(_, st). st_pendingRequest st \<noteq> None) rs))"

lemma getRefreshState_eq: "getRefreshState S slug = refresh_of (sv_refreshStates S) slug"
  by (simp add: getRefreshState_def refresh_of_def)

lemma refresh_of_update [simp]: "refresh_of (AList.update s st rs) = (refresh_of rs)(s := st)"
  by (simp add: fun_eq_iff refresh_of_def update_conv)

lemma idle_refresh_simps [simp]:
  "\<not> st_refreshing idle_refresh" "st_pendingRequest idle_refresh = None" "st_inFlightPromise idle_refresh = None"
  by (simp_all add: idle_refresh_def)

lemma pendings_update:
  assumes "distinct (map fst rs)"
  shows "pendings (AList.update s st rs) =
    pendings rs + one_if (st_pendingRequest st \<noteq> None) - one_if (st_pendingRequest (refresh_of rs s) \<noteq> None)"
  using assms
proof (induction rs)
  case (Cons a rs)
  then show ?case
  proof (cases "fst a = s")
    case True
    with Cons.prems show ?thesis by (cases a) (auto simp: pendings_def refresh_of_def)
  next
    case False
    with Cons show ?thesis by (cases a) (auto simp: pendings_def refresh_of_def split: if_splits)
  qed
qed (simp add: pendings_def refresh_of_def)

lemma pendings_same [simp]:
  assumes "distinct (map fst rs)" and "(st_pendingRequest st = None) = (st_pendingRequest (refresh_of rs s) = None)"
  shows "pendings (AList.update s st rs) = pendings rs"
  using assms by (simp add: pendings_update)

lemma pendings_nonneg [simp]: "0 \<le> pendings rs"
  by (simp add: pendings_def)

lemma length_delete_key:
  assumes "distinct (map fst xs)" and "map_of xs k = Some v"
  shows "int (length (AList.delete k xs)) = int (length xs) - 1"
  using assms
proof (induction xs)
  case (Cons a xs)
  then show ?case
  proof (cases "fst a = k")
    case True
    with Cons.prems have "k \<notin> fst ` set xs" by auto
    with True show ?thesis by (cases a) (simp add: delete_idem)
  qed (cases a, auto)
qed simp

lemma length_update_key:
  "length (AList.update k v xs) = (if map_of xs k = None then Suc (length xs) else length xs)"
  by (induction xs) auto

declare map_of_eq_Some_iff [simp del] Some_eq_map_of_iff [simp del]

section \<open>Flights\<close>

text \<open>\<open>L\<close> are the loops, \<open>R\<close> the refresh states, \<open>A\<close> the active promises, \<open>T\<close> the settled ones and \<open>n\<close> the
  next promise.\<close>

definition flights ::
  "(nat \<rightharpoonup> SnapshotLoop) \<Rightarrow> (string \<Rightarrow> CollectionRefreshState) \<Rightarrow> nat set \<Rightarrow> (nat \<rightharpoonup> string + unit) \<Rightarrow> nat \<Rightarrow> bool" where
  "flights L R A T n \<longleftrightarrow>
     (\<forall>p l. L p = Some l \<longrightarrow> st_refreshing (R (loop_slug l)) \<and> st_inFlightPromise (R (loop_slug l)) = Some p \<and>
        p \<in> A \<and> T p = None \<and> p < n) \<and>
     (\<forall>slug. st_refreshing (R slug) \<longrightarrow>
        (\<exists>p l. st_inFlightPromise (R slug) = Some p \<and> L p = Some l \<and> loop_slug l = slug)) \<and>
     (\<forall>slug. \<not> st_refreshing (R slug) \<longrightarrow> st_pendingRequest (R slug) = None) \<and>
     (\<forall>p. T p = None \<and> p < n \<longrightarrow> L p \<noteq> None) \<and> (\<forall>p. n \<le> p \<longrightarrow> T p = None)"

lemma flightsD:
  assumes "flights L R A T n" and "L p = Some l"
  shows "st_refreshing (R (loop_slug l))" and "st_inFlightPromise (R (loop_slug l)) = Some p"
    and "p \<in> A" and "T p = None" and "p < n"
  using assms by (auto simp: flights_def)

lemma flights_of:
  assumes "flights L R A T n" and "st_refreshing (R slug)"
  obtains p l where "st_inFlightPromise (R slug) = Some p" and "L p = Some l" and "loop_slug l = slug"
  using assms unfolding flights_def by blast

lemma flights_idle:
  assumes "flights L R A T n" and "\<not> st_refreshing (R slug)"
  shows "st_pendingRequest (R slug) = None"
  using assms unfolding flights_def by blast

lemma flights_settled:
  assumes "flights L R A T n"
  shows "p < n \<Longrightarrow> T p = None \<Longrightarrow> L p \<noteq> None" and "n \<le> p \<Longrightarrow> T p = None"
  using assms unfolding flights_def by blast+

lemma one_flight:
  assumes "flights L R A T n" and "L p = Some l" and "L q = Some m" and "loop_slug l = loop_slug m"
  shows "p = q"
  using flightsD(2) [OF assms(1,2)] flightsD(2) [OF assms(1,3)] assms(4) by simp

lemma flights_new: "flights L R A T n \<Longrightarrow> L n = None"
  using flightsD(5) by (metis less_irrefl not_Some_eq)

lemma flightsI:
  assumes "\<And>p l. L p = Some l \<Longrightarrow> st_refreshing (R (loop_slug l)) \<and> st_inFlightPromise (R (loop_slug l)) = Some p \<and>
        p \<in> A \<and> T p = None \<and> p < n"
    and "\<And>slug. st_refreshing (R slug) \<Longrightarrow>
        \<exists>p l. st_inFlightPromise (R slug) = Some p \<and> L p = Some l \<and> loop_slug l = slug"
    and "\<And>slug. \<not> st_refreshing (R slug) \<Longrightarrow> st_pendingRequest (R slug) = None"
    and "\<And>p. T p = None \<Longrightarrow> p < n \<Longrightarrow> L p \<noteq> None" and "\<And>p. n \<le> p \<Longrightarrow> T p = None"
  shows "flights L R A T n"
  using assms unfolding flights_def by blast

lemma flights_start:
  assumes inv: "flights L R A T n" and idle: "\<not> st_refreshing (R slug)"
    and new: "st_refreshing st" "st_inFlightPromise st = Some n" "loop_slug l = slug"
  shows "flights (L(n \<mapsto> l)) (R(slug := st)) (insert n A) T (Suc n)"
proof (rule flightsI, goal_cases)
  case (1 p m)
  then show ?case
    using flightsD [OF inv, of p m] idle new flights_settled(2) [OF inv] by (fastforce split: if_splits)
next
  case (2 s)
  then show ?case
  proof (cases "s = slug")
    case False
    with 2 obtain p m where "st_inFlightPromise (R s) = Some p" "L p = Some m" "loop_slug m = s"
      by (auto elim: flights_of [OF inv])
    with False flights_new [OF inv] show ?thesis by (intro exI [of _ p] exI [of _ m]) auto
  qed (use new in simp)
next
  case (3 s)
  then show ?case using flights_idle [OF inv, of s] new by (auto split: if_splits)
next
  case (4 p)
  then show ?case using flights_settled(1) [OF inv, of p] by (auto simp: less_Suc_eq)
next
  case (5 p)
  then show ?case using flights_settled(2) [OF inv] by simp
qed

lemma flights_state:
  assumes inv: "flights L R A T n" and "st_refreshing st = st_refreshing (R slug)"
    "st_inFlightPromise st = st_inFlightPromise (R slug)"
    "\<not> st_refreshing (R slug) \<Longrightarrow> st_pendingRequest st = None"
  shows "flights L (R(slug := st)) A T n"
  using assms unfolding flights_def by auto

lemma flights_rerun:
  assumes inv: "flights L R A T n" and "L p = Some l" and "loop_slug l' = loop_slug l"
  shows "flights (L(p \<mapsto> l')) R A T n"
proof (rule flightsI, goal_cases)
  case (1 q m)
  then show ?case using flightsD [OF inv assms(2)] flightsD [OF inv, of q m] assms(3) by (auto split: if_splits)
next
  case (2 s)
  then obtain q m where "st_inFlightPromise (R s) = Some q" "L q = Some m" "loop_slug m = s"
    by (auto elim: flights_of [OF inv])
  with assms show ?case by (cases "q = p") auto
qed (use flights_idle [OF inv] flights_settled [OF inv] in auto)

lemma flights_finish:
  assumes inv: "flights L R A T n" and loop: "L p = Some l"
    and st: "\<not> st_refreshing st" "st_pendingRequest st = None"
  shows "flights (L(p := None)) (R(loop_slug l := st)) A (T(p \<mapsto> r)) n"
proof (rule flightsI, goal_cases)
  case (1 q m)
  then show ?case
    using flightsD [OF inv, of q m] one_flight [OF inv loop, of q m] by (auto split: if_splits)
next
  case (2 s)
  with st have s: "s \<noteq> loop_slug l" by auto
  with 2 obtain q m where "st_inFlightPromise (R s) = Some q" "L q = Some m" "loop_slug m = s"
    by (auto elim: flights_of [OF inv])
  with s loop show ?case by (intro exI [of _ q] exI [of _ m]) auto
next
  case (3 s)
  then show ?case using flights_idle [OF inv, of s] st by (auto split: if_splits)
next
  case (4 q)
  then show ?case using flights_settled(1) [OF inv, of q] by (auto split: if_splits)
next
  case (5 q)
  then show ?case using flights_settled(2) [OF inv] flightsD(5) [OF inv loop] by simp
qed

lemma flights_forget: "flights L R A T n \<Longrightarrow> T p \<noteq> None \<Longrightarrow> flights L R (A - {p}) T n"
  unfolding flights_def by auto

section \<open>The invariant of the service\<close>

definition flight_inv :: "'o SnapshotService \<Rightarrow> bool" where
  "flight_inv S \<longleftrightarrow>
     flights (map_of (sv_loops S)) (refresh_of (sv_refreshStates S)) (set (sv_activePromises S)) (sv_settled S) (sv_promises S) \<and>
     distinct (map fst (sv_loops S)) \<and> distinct (map fst (sv_refreshStates S)) \<and>
     sv_activeRefreshCount S = int (length (sv_loops S)) \<and> sv_pendingRefreshCount S = pendings (sv_refreshStates S)"

lemma flight_invD:
  assumes "flight_inv S"
  shows "flights (map_of (sv_loops S)) (refresh_of (sv_refreshStates S)) (set (sv_activePromises S)) (sv_settled S) (sv_promises S)"
    and "distinct (map fst (sv_loops S))" and "distinct (map fst (sv_refreshStates S))"
    and "sv_activeRefreshCount S = int (length (sv_loops S))"
    and "sv_pendingRefreshCount S = pendings (sv_refreshStates S)"
  using assms by (simp_all add: flight_inv_def)

lemmas service_ops = tell_def reportState_def put_refresh_def getRefreshState_eq

lemma flight_frame [simp]:
  "flight_inv (tell e S) = flight_inv S" "flight_inv (reportState S) = flight_inv S"
  "flight_inv (S\<lparr> sv_calls := cs \<rparr>) = flight_inv S" "flight_inv (storeSnapshot slug n reason snapshot S) = flight_inv S"
  "flight_inv (S\<lparr> sv_pollTimer := b \<rparr>) = flight_inv S" "flight_inv (S\<lparr> sv_watched := w \<rparr>) = flight_inv S"
  "flight_inv (S\<lparr> sv_started := b \<rparr>) = flight_inv S" "flight_inv (S\<lparr> sv_stopPromise := sp \<rparr>) = flight_inv S"
  "flight_inv (S\<lparr> sv_stopped := b \<rparr>) = flight_inv S" "flight_inv (S\<lparr> sv_events := es \<rparr>) = flight_inv S"
  by (simp_all add: flight_inv_def service_ops storeSnapshot_def)

lemma flight_put:
  assumes inv: "flight_inv S" and "st_refreshing st = st_refreshing (getRefreshState S slug)"
    "st_inFlightPromise st = st_inFlightPromise (getRefreshState S slug)"
    "\<not> st_refreshing st \<Longrightarrow> st_pendingRequest st = None"
    and n: "n = sv_pendingRefreshCount S + one_if (st_pendingRequest st \<noteq> None)
      - one_if (st_pendingRequest (getRefreshState S slug) \<noteq> None)"
  shows "flight_inv (put_refresh slug st (S\<lparr> sv_pendingRefreshCount := n \<rparr>))"
  using flights_state [OF flight_invD(1) [OF inv], of st slug] assms
  by (auto simp: flight_inv_def service_ops pendings_update distinct_update)

lemma flight_take:
  assumes inv: "flight_inv S"
  shows "flight_inv (snd (takePendingRequest slug S))"
proof (cases "st_pendingRequest (getRefreshState S slug)")
  case (Some r)
  then show ?thesis unfolding takePendingRequest_def Some option.case snd_conv
    by (intro flight_put [OF inv]) (simp_all add: Some)
qed (simp add: takePendingRequest_def inv)

lemma flight_put_same:
  assumes "flight_inv S" and "st_refreshing st = st_refreshing (getRefreshState S slug)"
    "st_inFlightPromise st = st_inFlightPromise (getRefreshState S slug)"
    "st_pendingRequest st = st_pendingRequest (getRefreshState S slug)"
  shows "flight_inv (put_refresh slug st S)"
  using flight_put [OF assms(1-3), of "sv_pendingRefreshCount S"] assms(4)
    flights_idle [OF flight_invD(1) [OF assms(1)], of slug] assms(2) by (simp add: getRefreshState_eq)

lemma flight_record:
  assumes "flight_inv S"
  shows "flight_inv (recordRefreshSuccess slug S)" and "flight_inv (recordRefreshFailure fl slug m r now S)"
  unfolding recordRefreshSuccess_def recordRefreshFailure_def Let_def by (intro flight_put_same assms; simp)+

lemma flight_coalesce:
  assumes inv: "flight_inv S" and busy: "st_refreshing (getRefreshState S slug)"
  shows "flight_inv (coalesceRefresh slug reason ttl S)"
proof -
  let ?st = "getRefreshState S slug"
  let ?m = "mergePendingRefreshRequest (st_pendingRequest ?st) \<lparr> pr_reason = reason, pr_respectTtl = ttl \<rparr>"
  let ?n = "sv_pendingRefreshCount S + one_if (st_pendingRequest ?st = None)"
  have "flight_inv (put_refresh slug (?st\<lparr> st_pendingRequest := Some ?m \<rparr>)
     (tell (SnapshotRefreshRequest Coalesced) (S\<lparr> sv_pendingRefreshCount := ?n \<rparr>)))"
    using flight_put [OF inv, of "?st\<lparr> st_pendingRequest := Some ?m \<rparr>" slug ?n] busy
    by (cases "st_pendingRequest ?st") (simp_all add: flight_inv_def service_ops)
  moreover have "coalesceRefresh slug reason ttl S =
     reportState (put_refresh slug (?st\<lparr> st_pendingRequest := Some ?m \<rparr>)
       (tell (SnapshotRefreshRequest Coalesced) (S\<lparr> sv_pendingRefreshCount := ?n \<rparr>)))"
    by (simp add: coalesceRefresh_def Let_def service_ops)
  ultimately show ?thesis by simp
qed

lemma flight_start:
  assumes inv: "flight_inv S" and idle: "\<not> st_refreshing (getRefreshState S slug)"
  shows "flight_inv (startRefresh slug reason now S)"
  using flights_start [OF flight_invD(1) [OF inv] idle [unfolded getRefreshState_eq],
      of "(refresh_of (sv_refreshStates S) slug)\<lparr> st_refreshing := True, st_lastStartedAt := Some now,
           st_inFlightPromise := Some (sv_promises S) \<rparr>"
         "\<lparr> loop_slug = slug, loop_reason = reason, loop_fetch = Suc (sv_fetches S) \<rparr>"]
    flight_invD [OF inv] flights_new [OF flight_invD(1) [OF inv]]
  by (simp add: flight_inv_def startRefresh_def beginFetch_def Let_def service_ops distinct_update update_conv'
      length_update_key)

lemma flight_rerun:
  assumes inv: "flight_inv S" and loop: "map_of (sv_loops S) p = Some l"
  shows "flight_inv (beginFetch p (loop_slug l) reason now S)"
  using flights_rerun [OF flight_invD(1) [OF flight_put_same [OF inv,
          of "(getRefreshState S (loop_slug l))\<lparr> st_lastStartedAt := Some now \<rparr>" "loop_slug l"]],
        of p l "\<lparr> loop_slug = loop_slug l, loop_reason = reason, loop_fetch = Suc (sv_fetches S) \<rparr>"]
    flight_invD [OF inv] loop
  by (simp add: flight_inv_def beginFetch_def service_ops distinct_update update_conv' length_update_key)

lemma flight_finish:
  assumes inv: "flight_inv S" and loop: "map_of (sv_loops S) p = Some l"
  shows "flight_inv (finishLoop p (loop_slug l) result S)"
  using flights_finish [OF flight_invD(1) [OF inv] loop]
    flight_invD [OF inv] loop length_delete_key [OF flight_invD(2) [OF inv] loop]
  by (cases "st_pendingRequest (refresh_of (sv_refreshStates S) (loop_slug l))")
    (simp_all add: flight_inv_def finishLoop_def clearPendingRequest_def takePendingRequest_def Let_def service_ops
      distinct_update pendings_update distinct_delete delete_conv')

lemma flight_collection:
  assumes "flight_inv S"
  shows "flight_inv (snd (refreshCollection slug reason ttl now S))"
  using assms by (simp add: refreshCollection_def Let_def flight_coalesce flight_start)

lemma take_loops [simp]:
  "sv_loops (snd (takePendingRequest slug S)) = sv_loops S" "sv_loops (reportState S) = sv_loops S"
  by (simp_all add: takePendingRequest_def service_ops split: option.split)

lemma flight_after:
  assumes inv: "flight_inv S" and loop: "map_of (sv_loops S) p = Some l"
  shows "flight_inv (afterSnapshot fl p (loop_slug l) inp S)"
proof -
  obtain r S1 where t: "takePendingRequest (loop_slug l) S = (r, S1)" by fastforce
  from flight_take [OF inv, of "loop_slug l"] take_loops(1) [of "loop_slug l" S] loop t
  have "flight_inv S1" "map_of (sv_loops S1) p = Some l" by simp_all
  then show ?thesis
    by (auto simp: afterSnapshot_def t Let_def flight_finish flight_rerun split: option.split)
qed

lemma record_loops [simp]:
  "sv_loops (recordRefreshSuccess slug S) = sv_loops S"
  "sv_loops (recordRefreshFailure fl slug m r now S) = sv_loops S"
  "sv_loops (storeSnapshot slug n reason snapshot S) = sv_loops S" "sv_loops (tell e S) = sv_loops S"
  by (simp_all add: recordRefreshSuccess_def recordRefreshFailure_def storeSnapshot_def Let_def service_ops)

lemma flight_answer:
  assumes inv: "flight_inv S"
  shows "flight_inv (sourceSettled fl p outcome inp S)"
proof (cases "map_of (sv_loops S) p")
  case (Some l)
  with inv show ?thesis
    by (auto simp: sourceSettled_def Let_def flight_finish flight_after flight_record split: SourceOutcome.split)
qed (simp add: sourceSettled_def inv)

lemma flight_calls [simp]:
  "flight_inv (add_call slug reason ttl point n S) = flight_inv S" "flight_inv (set_point i point S) = flight_inv S"
  by (simp_all add: add_call_def set_point_def)

section \<open>What is invariant\<close>

text \<open>How a call that is resumed without starting anything moves on.\<close>

definition call_moves :: "'o SnapshotService \<Rightarrow> CallPoint \<Rightarrow> CallPoint \<Rightarrow> bool" where
  "call_moves S point point' \<longleftrightarrow>
     (case point of
        NotServed \<Rightarrow> point' = Settled (Inr ())
      | JoinedFlight p \<Rightarrow>
          (case sv_settled S p of
             None \<Rightarrow> False
           | Some (Inl e) \<Rightarrow> point' = Settled (Inl e)
           | Some (Inr _) \<Rightarrow> point' = Settled (Inr ()) \<or> point' = NotServed)
      | AwaitsFlight p \<Rightarrow> (case sv_settled S p of None \<Rightarrow> False | Some r \<Rightarrow> point' = Settled r)
      | Settled r \<Rightarrow> False)"

text \<open>
  A predicate that the atomic actions keep is kept by every step.  The actions are: telling the
  observer, entering a call that waits or is settled, entering or continuing a call that reaches
  \<open>refreshCollection\<close>, moving a call on, an answer of the source, and the operations on the service.
\<close>

locale snapshot_invariant =
  fixes fl :: "rat \<Rightarrow> rat" and inv :: "'o SnapshotService \<Rightarrow> bool"
  assumes told: "inv S \<Longrightarrow> inv (tell (SnapshotRefreshRequest outcome) S)"
    and reported: "inv S \<Longrightarrow> inv (reportState S)"
    and entered: "inv S \<Longrightarrow> point = Settled (Inr ()) \<or> point = NotServed \<or>
        (\<exists>p. flightToJoin S slug = Some p \<and> point = JoinedFlight p)
      \<Longrightarrow> inv (add_call slug reason ttl point (sv_fetches S) S)"
    and refreshed: "inv S \<Longrightarrow> \<not> sv_stopped S \<Longrightarrow> refreshCollection slug reason ttl now S = (point, S')
      \<Longrightarrow> inv (add_call slug reason ttl point (sv_fetches S) S')"
    and continued: "inv S \<Longrightarrow> \<not> sv_stopped S \<Longrightarrow> i < length (sv_calls S) \<Longrightarrow> c = sv_calls S ! i
      \<Longrightarrow> call_point c = NotServed
      \<Longrightarrow> refreshCollection (call_slug c) (call_reason c) (call_respectTtl c) now S = (point, S')
      \<Longrightarrow> inv (S'\<lparr> sv_calls := (sv_calls S')[i := c\<lparr> call_point := point, call_promise := promise_of point \<rparr>] \<rparr>)"
    and moved: "inv S \<Longrightarrow> i < length (sv_calls S) \<Longrightarrow> call_moves S (call_point (sv_calls S ! i)) point
      \<Longrightarrow> inv (set_point i point S)"
    and answered: "inv S \<Longrightarrow> inv (sourceSettled fl p outcome' inp S)"
    and forgotten: "inv S \<Longrightarrow> sv_settled S p \<noteq> None \<Longrightarrow> inv (forgetPromise p S)"
    and timed: "inv S \<Longrightarrow> inv (S\<lparr> sv_pollTimer := t \<rparr>)"
    and begun: "inv S \<Longrightarrow> inv (start S)"
    and halted: "inv S \<Longrightarrow> inv (stopService S)"
    and watched: "inv S \<Longrightarrow> inv (reportState (S\<lparr> sv_watched := w \<rparr>))"
begin

lemma kept_by_call: "inv S \<Longrightarrow> inv (refreshAndWait fl slug reason ttl checkedAt startedAt S)"
  using entered [OF told [of S], where slug = slug] entered [of S "NotServed" slug] refreshed [of S slug reason ttl startedAt]
  by (auto simp: refreshAndWait_def Let_def flightToJoin_def getRefreshState_def tell_def split: option.split prod.split)

lemma kept_by_resume:
  assumes "inv S" and i: "i < length (sv_calls S)"
  shows "inv (resumeCall fl i checkedAt startedAt S)"
proof (cases "call_point (sv_calls S ! i)")
  case NotServed
  have "inv (set_point i (Settled (Inr ())) (tell (SnapshotRefreshRequest outcome) S))" for outcome
    using NotServed i by (intro moved told assms(1)) (simp_all add: tell_def call_moves_def)
  with NotServed continued [OF assms(1) _ i refl NotServed] show ?thesis
    by (auto simp: resumeCall_def continueCall_def Let_def split: prod.split)
next
  case (JoinedFlight p)
  then show ?thesis
    using assms moved [OF assms] by (auto simp: resumeCall_def call_moves_def split: option.split sum.split)
next
  case (AwaitsFlight p)
  then show ?thesis
    using assms moved [OF assms] by (auto simp: resumeCall_def call_moves_def split: option.split)
qed (simp add: resumeCall_def assms)

lemma kept_by_request: "inv S \<Longrightarrow> inv (requestRefresh fl slug reason checkedAt S)"
  by (simp add: requestRefresh_def told kept_by_call)

lemma kept_by_fold: "(\<And>x S. inv S \<Longrightarrow> inv (f x S)) \<Longrightarrow> inv S \<Longrightarrow> inv (fold f xs S)"
  by (induction xs arbitrary: S) simp_all

lemma kept_by_poll: "inv S \<Longrightarrow> inv (pollTimerFires fl clock S)"
  by (auto simp: pollTimerFires_def Let_def scheduleNextPoll_def intro!: timed kept_by_fold kept_by_request)

lemma kept_by_watch: "inv S \<Longrightarrow> inv (snd (watchCollection slug S))" "inv S \<Longrightarrow> inv (snd (unwatchCollection slug S))"
  by (auto simp: watchCollection_def unwatchCollection_def Let_def scheduleNextPoll_def intro!: timed watched)

lemma kept_by_watch_result:
  "inv S \<Longrightarrow> watchCollection slug S = (b, S') \<Longrightarrow> inv S'" "inv S \<Longrightarrow> unwatchCollection slug S = (b, S') \<Longrightarrow> inv S'"
  using kept_by_watch [of S slug] by simp_all

lemma kept_by_unwatch_all: "inv S \<Longrightarrow> inv (snd (unwatchMissing upcoming slugs (n, S)))"
  by (induction slugs arbitrary: n S) (auto split: prod.split dest: kept_by_watch_result(2))

lemma kept_by_watch_all: "inv S \<Longrightarrow> inv (snd (watchAll slugs (n, S)))"
  by (induction slugs arbitrary: n S) (auto split: prod.split dest: kept_by_watch_result(1))

lemma kept_by_reconcile: "inv S \<Longrightarrow> inv (snd (reconcileWatchedCollections slugs S))"
  using kept_by_unwatch_all [of S] kept_by_watch_all
  by (auto simp: reconcileWatchedCollections_def Let_def split: prod.split) (metis snd_conv)

lemma kept_by_work: "service_work fl S S' \<Longrightarrow> inv S \<Longrightarrow> inv S'"
  by (induction rule: service_work.induct) (auto simp: answered resumable_def intro: kept_by_resume)

lemma kept_by_step: "service_step fl S S' \<Longrightarrow> inv S \<Longrightarrow> inv S'"
  by (induction rule: service_step.induct)
    (auto simp: bootstrap_def kept_by_work kept_by_call kept_by_request forgotten kept_by_poll begun halted reported kept_by_watch
      kept_by_reconcile intro!: kept_by_fold)

lemma kept_by_run: "(service_step fl)\<^sup>*\<^sup>* S S' \<Longrightarrow> inv S \<Longrightarrow> inv S'"
  by (induction rule: rtranclp_induct) (auto intro: kept_by_step)

end

section \<open>One fetch per collection\<close>

lemma flight_inv_clear: "flight_inv S \<Longrightarrow> flight_inv (fold clearPendingRequest slugs S)"
  by (induction slugs arbitrary: S) (simp_all add: clearPendingRequest_def flight_take)

lemma flight_forget: "flight_inv S \<Longrightarrow> sv_settled S p \<noteq> None \<Longrightarrow> flight_inv (forgetPromise p S)"
  using flights_forget [OF flight_invD(1), of S p] by (simp add: flight_inv_def forgetPromise_def)

interpretation flight: snapshot_invariant fl "flight_inv :: 'o SnapshotService \<Rightarrow> bool" for fl
proof (unfold_locales, goal_cases)
  case (4 S slug reason ttl now point S')
  then show ?case using flight_collection [OF 4(1), of slug reason ttl now] by simp
next
  case (5 S i c now point S')
  then show ?case using flight_collection [OF 5(1), of "call_slug c" "call_reason c" "call_respectTtl c" now] by simp
qed (auto simp: flight_answer flight_forget start_def stopService_def Let_def scheduleNextPoll_def flight_inv_clear split: option.split)

section \<open>Reported gauges\<close>

definition last_report :: "'o SnapshotEvent list \<Rightarrow> (int \<times> int \<times> int) option" where
  "last_report events =
     foldl (\<lambda>r e. case e of SnapshotStateChanged w a p \<Rightarrow> Some (w, a, p) | _ \<Rightarrow> r) None events"

lemma last_report_snoc [simp]:
  "last_report (events @ [e]) = (case e of SnapshotStateChanged w a p \<Rightarrow> Some (w, a, p) | _ \<Rightarrow> last_report events)"
  by (simp add: last_report_def split: SnapshotEvent.split)

definition gauges_told :: "'o SnapshotService \<Rightarrow> bool" where
  "gauges_told S \<longleftrightarrow>
     last_report (sv_events S) = Some (int (length (sv_watched S)), sv_activeRefreshCount S, sv_pendingRefreshCount S)"

lemma gauges_report [simp]: "gauges_told (reportState S)"
  by (simp add: gauges_told_def service_ops)

lemma gauges_tell [simp]:
  "gauges_told (tell (SnapshotRefreshRequest outcome) S) = gauges_told S"
  "gauges_told (tell (refreshFinished m result) S) = gauges_told S"
  "gauges_told (storeSnapshot slug n reason snapshot S) = gauges_told S"
  by (simp_all add: gauges_told_def tell_def refreshFinished_def storeSnapshot_def)

lemma gauges_frame [simp]:
  "gauges_told (put_refresh slug st S) = gauges_told S" "gauges_told (S\<lparr> sv_calls := cs \<rparr>) = gauges_told S"
  "gauges_told (S\<lparr> sv_pollTimer := t \<rparr>) = gauges_told S" "gauges_told (S\<lparr> sv_activePromises := ps \<rparr>) = gauges_told S"
  "gauges_told (S\<lparr> sv_started := b \<rparr>) = gauges_told S" "gauges_told (S\<lparr> sv_stopPromise := sp \<rparr>) = gauges_told S"
  "gauges_told (S\<lparr> sv_promises := n \<rparr>) = gauges_told S" "gauges_told (S\<lparr> sv_loops := ls \<rparr>) = gauges_told S"
  "gauges_told (S\<lparr> sv_settled := t' \<rparr>) = gauges_told S" "gauges_told (S\<lparr> sv_fetches := n \<rparr>) = gauges_told S"
  "gauges_told (S\<lparr> sv_stopped := b \<rparr>) = gauges_told S"
  by (simp_all add: gauges_told_def put_refresh_def)

lemma gauges_ops [simp]:
  "gauges_told (beginFetch p slug reason now S) = gauges_told S" "gauges_told (coalesceRefresh slug reason ttl S)"
  "gauges_told (startRefresh slug reason now S)" "gauges_told (finishLoop p slug result S)"
  by (simp_all add: beginFetch_def coalesceRefresh_def startRefresh_def finishLoop_def Let_def)

lemma gauges_after [simp]: "gauges_told (afterSnapshot fl p slug inp S)"
  by (simp add: afterSnapshot_def Let_def split: prod.split option.split)

interpretation gauges: snapshot_invariant fl "gauges_told :: 'o SnapshotService \<Rightarrow> bool" for fl
proof (unfold_locales, goal_cases)
  case (7 S p outcome inp)
  then show ?case by (simp add: sourceSettled_def Let_def split: option.split SourceOutcome.split)
qed (auto simp: refreshCollection_def add_call_def set_point_def forgetPromise_def start_def stopService_def scheduleNextPoll_def
    Let_def split: option.split if_splits)

section \<open>The outcomes of an answer\<close>

text \<open>The fields an answer does not touch.\<close>

definition same_calls :: "'o SnapshotService \<Rightarrow> 'o SnapshotService \<Rightarrow> bool" where
  "same_calls S S' \<longleftrightarrow>
     sv_calls S' = sv_calls S \<and> sv_promises S' = sv_promises S \<and> sv_stopped S' = sv_stopped S \<and>
     sv_stopPromise S' = sv_stopPromise S \<and> sv_started S' = sv_started S \<and> sv_watched S' = sv_watched S \<and>
     sv_pollTimer S' = sv_pollTimer S \<and> sv_activePromises S' = sv_activePromises S"

lemmas answer_ops = service_ops recordRefreshSuccess_def recordRefreshFailure_def storeSnapshot_def finishLoop_def
  clearPendingRequest_def takePendingRequest_def beginFetch_def Let_def

definition ended :: "nat \<Rightarrow> SnapshotLoop \<Rightarrow> string + unit \<Rightarrow> 'o SnapshotService \<Rightarrow> 'o SnapshotService \<Rightarrow> bool" where
  "ended p l result S S' \<longleftrightarrow>
     map_of (sv_loops S') = (map_of (sv_loops S))(p := None) \<and> sv_settled S' = (sv_settled S)(p \<mapsto> result) \<and>
     sv_fetches S' = sv_fetches S \<and>
     (\<exists>st. refresh_of (sv_refreshStates S') = (refresh_of (sv_refreshStates S))(loop_slug l := st) \<and>
           \<not> st_refreshing st \<and> st_pendingRequest st = None)"

lemma finish_ended:
  "ended p l result S (finishLoop p (loop_slug l) result S)" "same_calls S (finishLoop p (loop_slug l) result S)"
  "sv_stored (finishLoop p (loop_slug l) result S) = sv_stored S"
  "sv_snapshots (finishLoop p (loop_slug l) result S) = sv_snapshots S"
  by (auto simp: ended_def same_calls_def answer_ops delete_conv' split: option.split)

definition stored_new :: "SnapshotLoop \<Rightarrow> 'o SnapshotService \<Rightarrow> 'o SnapshotService \<Rightarrow> bool" where
  "stored_new l S S' \<longleftrightarrow>
     sv_stored S' = (sv_stored S)(loop_slug l := loop_fetch l) \<and>
     (\<exists>snapshot. sv_snapshots S' = AList.update (loop_slug l) snapshot (sv_snapshots S) \<and>
        me_complete (os_metrics snapshot) \<and> os_collectionSlug snapshot = loop_slug l)"

definition rerun :: "nat \<Rightarrow> SnapshotLoop \<Rightarrow> 'o SnapshotService \<Rightarrow> 'o SnapshotService \<Rightarrow> bool" where
  "rerun p l S S' \<longleftrightarrow>
     (\<exists>l'. map_of (sv_loops S') = (map_of (sv_loops S))(p \<mapsto> l') \<and> loop_slug l' = loop_slug l \<and>
           loop_fetch l' = Suc (sv_fetches S)) \<and>
     sv_settled S' = sv_settled S \<and> sv_fetches S' = Suc (sv_fetches S) \<and>
     (\<exists>st. refresh_of (sv_refreshStates S') = (refresh_of (sv_refreshStates S))(loop_slug l := st) \<and>
           st_pendingRequest st = None)"

text \<open>The state once the result is stored, with nothing else decided yet.\<close>

definition after_store :: "SnapshotLoop \<Rightarrow> 'o SnapshotService \<Rightarrow> 'o SnapshotService \<Rightarrow> bool" where
  "after_store l S S1 \<longleftrightarrow>
     same_calls S S1 \<and> stored_new l S S1 \<and> sv_loops S1 = sv_loops S \<and> sv_settled S1 = sv_settled S \<and>
     sv_fetches S1 = sv_fetches S \<and>
     (\<exists>st. refresh_of (sv_refreshStates S1) = (refresh_of (sv_refreshStates S))(loop_slug l := st))"

lemma after_storeI:
  assumes "me_complete metrics"
  shows "after_store l S
    (storeSnapshot (loop_slug l) (loop_fetch l) (loop_reason l)
      \<lparr> os_collectionSlug = loop_slug l, os_offers = offers, os_refreshedAt = t, os_metrics = metrics \<rparr>
      (recordRefreshSuccess (loop_slug l) (tell e S)))"
  using assms by (auto simp: after_store_def same_calls_def stored_new_def answer_ops)

lemma after_store_finish:
  assumes "after_store l S S1"
  shows "ended p l result S (finishLoop p (loop_slug l) result S1)" and "same_calls S (finishLoop p (loop_slug l) result S1)"
    and "stored_new l S (finishLoop p (loop_slug l) result S1)"
  using assms finish_ended [where p = p and l = l and result = result and S = S1]
  by (auto simp: after_store_def ended_def same_calls_def stored_new_def)

lemma after_store_begin:
  assumes "after_store l S S1" and "st_pendingRequest (refresh_of (sv_refreshStates S1) (loop_slug l)) = None"
  shows "rerun p l S (beginFetch p (loop_slug l) reason now S1)" and "same_calls S (beginFetch p (loop_slug l) reason now S1)"
    and "stored_new l S (beginFetch p (loop_slug l) reason now S1)"
  using assms by (auto simp: after_store_def rerun_def same_calls_def stored_new_def answer_ops update_conv')

lemma take_fields:
  "fst (takePendingRequest slug S1) = st_pendingRequest (refresh_of (sv_refreshStates S1) slug)"
  "st_pendingRequest (refresh_of (sv_refreshStates (snd (takePendingRequest slug S1))) slug) = None"
  by (auto simp: answer_ops split: option.split)

lemma after_store_take:
  assumes "after_store l S S1"
  shows "after_store l S (snd (takePendingRequest (loop_slug l) S1))" and "after_store l S (reportState S1)"
  using assms by (auto simp: after_store_def same_calls_def stored_new_def answer_ops split: option.split)

lemma answer_cases:
  assumes loop: "map_of (sv_loops S) p = Some l"
  obtains (failed) e where "ended p l (Inl e) S (sourceSettled fl p outcome inp S)"
      "same_calls S (sourceSettled fl p outcome inp S)"
      "sv_stored (sourceSettled fl p outcome inp S) = sv_stored S"
      "sv_snapshots (sourceSettled fl p outcome inp S) = sv_snapshots S"
  | (finished) "ended p l (Inr ()) S (sourceSettled fl p outcome inp S)"
      "same_calls S (sourceSettled fl p outcome inp S)" "stored_new l S (sourceSettled fl p outcome inp S)"
      "\<And>r. st_pendingRequest (refresh_of (sv_refreshStates S) (loop_slug l)) = Some r \<Longrightarrow> pr_respectTtl r"
  | (again) r where "rerun p l S (sourceSettled fl p outcome inp S)"
      "same_calls S (sourceSettled fl p outcome inp S)" "stored_new l S (sourceSettled fl p outcome inp S)"
      "st_pendingRequest (refresh_of (sv_refreshStates S) (loop_slug l)) = Some r"
proof -
  let ?slug = "loop_slug l"
  have fail: thesis if "sourceSettled fl p outcome inp S = finishLoop p ?slug (Inl m)
      (recordRefreshFailure fl ?slug m r t (tell e S))" for m r t e
  proof (rule failed [of m])
    let ?S1 = "recordRefreshFailure fl ?slug m r t (tell e S)"
    show "ended p l (Inl m) S (sourceSettled fl p outcome inp S)" "same_calls S (sourceSettled fl p outcome inp S)"
      using finish_ended(1,2) [where p = p and l = l and result = "Inl m" and S = ?S1] unfolding that
      by (auto simp: ended_def same_calls_def recordRefreshFailure_def service_ops Let_def)
    show "sv_stored (sourceSettled fl p outcome inp S) = sv_stored S"
      "sv_snapshots (sourceSettled fl p outcome inp S) = sv_snapshots S"
      unfolding that finish_ended by (simp_all add: recordRefreshFailure_def service_ops Let_def)
  qed
  have complete: thesis if eq: "sourceSettled fl p outcome inp S = afterSnapshot fl p ?slug inp S1"
    and S1: "after_store l S S1"
    and pend: "st_pendingRequest (refresh_of (sv_refreshStates S1) ?slug) =
      st_pendingRequest (refresh_of (sv_refreshStates S) ?slug)" for S1
  proof -
    obtain r S2 where t: "takePendingRequest ?slug S1 = (r, S2)" by fastforce
    note S2 = after_store_take(1) [OF S1, unfolded t snd_conv] and r = take_fields [of ?slug S1, unfolded t fst_conv snd_conv]
    have S3: "after_store l S (reportState S2)" by (rule after_store_take(2) [OF S2])
    have none: "st_pendingRequest (refresh_of (sv_refreshStates (reportState S2)) ?slug) = None"
      using r(2) by (simp add: service_ops)
    consider (none) "r = None" "afterSnapshot fl p ?slug inp S1 = finishLoop p ?slug (Inr ()) S2"
      | (fresh) q where "r = Some q" "pr_respectTtl q"
          "afterSnapshot fl p ?slug inp S1 = finishLoop p ?slug (Inr ()) (reportState S2)"
      | (stale) q where "r = Some q"
          "afterSnapshot fl p ?slug inp S1 = beginFetch p ?slug (pr_reason q) (in_startedAt inp) (reportState S2)"
      by (cases r; cases "pr_respectTtl (the r) \<and> isSnapshotFresh fl (reportState S2) ?slug (in_checkedAt inp)")
        (auto simp: afterSnapshot_def t Let_def)
    then show thesis
    proof cases
      case none
      with r(1) pend after_store_finish [OF S2] show thesis by (intro finished) (simp_all add: eq)
    next
      case (fresh q)
      with r(1) pend after_store_finish [OF S3] show thesis by (intro finished) (simp_all add: eq)
    next
      case (stale q)
      with r(1) pend after_store_begin [OF S3 none] show thesis by (intro again [of q]) (simp_all add: eq)
    qed
  qed
  show thesis
  proof (cases outcome)
    case (SourceResult offers metrics)
    show thesis
    proof (cases "me_complete metrics")
      case True
      then show thesis
        using SourceResult loop
        by (intro complete [OF _ after_storeI [OF True]]) (auto simp: sourceSettled_def Let_def answer_ops)
    qed (use SourceResult loop fail in \<open>simp add: sourceSettled_def Let_def\<close>)
  qed (use loop fail in \<open>simp add: sourceSettled_def Let_def\<close>)
qed

lemma answer_same: "same_calls S (sourceSettled fl p outcome inp S)"
proof (cases "map_of (sv_loops S) p")
  case (Some l)
  then show ?thesis by (auto elim: answer_cases [where fl = fl and outcome = outcome and inp = inp])
qed (simp add: sourceSettled_def same_calls_def)

lemma pendings_card:
  assumes "distinct (map fst rs)"
  shows "pendings rs = int (card {slug. st_pendingRequest (refresh_of rs slug) \<noteq> None})"
proof -
  let ?rs = "filter (\<lambda>(_, st). st_pendingRequest st \<noteq> None) rs"
  have "slug \<in> fst ` set ?rs \<longleftrightarrow> st_pendingRequest (refresh_of rs slug) \<noteq> None" for slug
  proof (cases "map_of rs slug")
    case None
    then have "slug \<notin> fst ` set rs" by (simp add: map_of_eq_None_iff)
    with None show ?thesis by (auto simp: refresh_of_def)
  next
    case (Some st)
    with assms have "(slug, st') \<in> set rs \<longleftrightarrow> st' = st" for st'
      by (auto dest: map_of_SomeD eq_key_imp_eq_value)
    with Some show ?thesis by (force simp: refresh_of_def)
  qed
  then have "{slug. st_pendingRequest (refresh_of rs slug) \<noteq> None} = fst ` set ?rs" by blast
  moreover have "card (fst ` set ?rs) = length ?rs"
    using distinct_card [of "map fst ?rs"] distinct_map_filter [OF assms] by simp
  ultimately show ?thesis by (simp add: pendings_def)
qed

end
