(* ===== verification/Offer_Snapshot_Results.thy ===== *)
theory Offer_Snapshot_Results
  imports Offer_Snapshot_Flights
begin

text \<open>
  What the snapshot service guarantees over all its runs: one fetch per collection and exact gauges,
  a forced refresh that resolves was answered by a fetch begun after the call, nothing is fetched or
  stored after \<open>stop\<close> has resolved, and every call is answered once the source has answered.
\<close>

section \<open>Forced refreshes\<close>

text \<open>\<open>c\<close> is a call that reached \<open>refreshCollection\<close>: until its promise settles, the fetch under way began
  after the call or another one that nothing can skip is pending.\<close>

definition served ::
  "(nat \<rightharpoonup> SnapshotLoop) \<Rightarrow> (string \<Rightarrow> CollectionRefreshState) \<Rightarrow> (nat \<rightharpoonup> string + unit) \<Rightarrow> (string \<Rightarrow> nat) \<Rightarrow>
     RefreshCall \<Rightarrow> nat \<Rightarrow> bool" where
  "served L R T stored c p \<longleftrightarrow>
     (\<forall>l. L p = Some l \<longrightarrow> loop_slug l = call_slug c \<and>
        (call_fetches c < loop_fetch l \<or> (\<exists>r. st_pendingRequest (R (loop_slug l)) = Some r \<and> \<not> pr_respectTtl r))) \<and>
     (T p = Some (Inr ()) \<longrightarrow> call_fetches c < stored (call_slug c))"

definition served_call :: "'o SnapshotService \<Rightarrow> RefreshCall \<Rightarrow> bool" where
  "served_call S c \<longleftrightarrow>
     call_fetches c \<le> sv_fetches S \<and>
     (\<forall>p. call_promise c = Some p \<longrightarrow> p < sv_promises S \<and>
        (call_point c = AwaitsFlight p \<or> (\<exists>r. call_point c = Settled r \<and> sv_settled S p = Some r)) \<and>
        (\<not> call_respectTtl c \<longrightarrow> \<not> sv_stopped S \<longrightarrow>
           served (map_of (sv_loops S)) (refresh_of (sv_refreshStates S)) (sv_settled S) (sv_stored S) c p))"

text \<open>A collection's snapshot is of an earlier fetch than the one under way.\<close>

definition fetch_order :: "(nat \<rightharpoonup> SnapshotLoop) \<Rightarrow> (string \<Rightarrow> nat) \<Rightarrow> nat \<Rightarrow> bool" where
  "fetch_order L stored n \<longleftrightarrow>
     (\<forall>p l. L p = Some l \<longrightarrow> stored (loop_slug l) < loop_fetch l \<and> loop_fetch l \<le> n) \<and> (\<forall>slug. stored slug \<le> n)"

definition complete_snapshots :: "(string \<Rightarrow> nat) \<Rightarrow> (string \<rightharpoonup> 'o CollectionOfferSnapshot) \<Rightarrow> bool" where
  "complete_snapshots stored snapshots \<longleftrightarrow>
     (\<forall>slug. 0 < stored slug \<longrightarrow> snapshots slug \<noteq> None) \<and>
     (\<forall>slug snapshot. snapshots slug = Some snapshot \<longrightarrow>
        me_complete (os_metrics snapshot) \<and> os_collectionSlug snapshot = slug)"

definition snapshots_ok :: "'o SnapshotService \<Rightarrow> bool" where
  "snapshots_ok S \<longleftrightarrow>
     fetch_order (map_of (sv_loops S)) (sv_stored S) (sv_fetches S) \<and>
     complete_snapshots (sv_stored S) (map_of (sv_snapshots S))"

definition served_inv :: "'o SnapshotService \<Rightarrow> bool" where
  "served_inv S \<longleftrightarrow> flight_inv S \<and> snapshots_ok S \<and> (\<forall>c \<in> set (sv_calls S). served_call S c)"

lemma served_invD:
  assumes "served_inv S"
  shows "flight_inv S" and "snapshots_ok S" and "c \<in> set (sv_calls S) \<Longrightarrow> served_call S c"
  using assms by (simp_all add: served_inv_def)

lemma fetch_orderD:
  assumes "fetch_order L stored n"
  shows "L p = Some l \<Longrightarrow> stored (loop_slug l) < loop_fetch l" and "L p = Some l \<Longrightarrow> loop_fetch l \<le> n"
    and "stored slug \<le> n"
  using assms by (auto simp: fetch_order_def)

lemma fetch_order_end: "fetch_order L stored n \<Longrightarrow> fetch_order (L(p := None)) stored n"
  by (auto simp: fetch_order_def)

lemma fetch_order_store:
  assumes ord: "fetch_order L stored n" and loop: "L p = Some l"
    and one: "\<And>q m. L q = Some m \<Longrightarrow> loop_slug l = loop_slug m \<Longrightarrow> p = q"
  shows "fetch_order (L(p := None)) (stored(loop_slug l := loop_fetch l)) n"
  unfolding fetch_order_def
proof (intro conjI allI impI, goal_cases)
  case (1 q m)
  with one [of q m] fetch_orderD(1) [OF ord, of q m] show ?case by (auto split: if_splits)
next
  case (2 q m)
  with fetch_orderD(2) [OF ord] show ?case by (auto split: if_splits)
next
  case (3 slug)
  then show ?case using fetch_orderD(2,3) [OF ord] loop by simp
qed

lemma fetch_order_next:
  assumes "fetch_order L stored n" and "loop_fetch l = Suc n"
  shows "fetch_order (L(p \<mapsto> l)) stored (Suc n)"
  using assms by (fastforce simp: fetch_order_def le_Suc_eq less_Suc_eq_le)

lemma complete_store:
  assumes "complete_snapshots stored snapshots" and "me_complete (os_metrics s)" and "os_collectionSlug s = slug"
  shows "complete_snapshots (stored(slug := n)) (snapshots(slug \<mapsto> s))"
  using assms by (simp add: complete_snapshots_def)

lemma snapshots_answer:
  assumes ok: "snapshots_ok S" and inv: "flight_inv S" and loop: "map_of (sv_loops S) p = Some l"
  shows "snapshots_ok (sourceSettled fl p outcome inp S)"
proof (rule answer_cases [OF loop, of fl outcome inp])
  let ?S' = "sourceSettled fl p outcome inp S"
  have stored: "fetch_order ((map_of (sv_loops S))(p := None)) ((sv_stored S)(loop_slug l := loop_fetch l)) (sv_fetches S)"
    using ok [unfolded snapshots_ok_def, THEN conjunct1] loop
    by (rule fetch_order_store) (rule one_flight [OF flight_invD(1) [OF inv] loop])
  have snaps: "complete_snapshots (sv_stored ?S') (map_of (sv_snapshots ?S'))" if "stored_new l S ?S'"
    using that ok by (auto simp: stored_new_def update_conv' snapshots_ok_def intro!: complete_store)
  {
    fix e assume "ended p l (Inl e) S ?S'" "sv_stored ?S' = sv_stored S" "sv_snapshots ?S' = sv_snapshots S"
    with ok show "snapshots_ok ?S'" by (simp add: snapshots_ok_def ended_def fetch_order_end)
  next
    assume "ended p l (Inr ()) S ?S'" "stored_new l S ?S'"
    with ok stored snaps show "snapshots_ok ?S'" by (auto simp: snapshots_ok_def ended_def stored_new_def)
  next
    assume a: "rerun p l S ?S'" "stored_new l S ?S'"
    then obtain l' where l': "map_of (sv_loops ?S') = (map_of (sv_loops S))(p \<mapsto> l')" "loop_fetch l' = Suc (sv_fetches S)"
      by (auto simp: rerun_def)
    from fetch_order_next [OF stored l'(2), of p] a l'(1) snaps show "snapshots_ok ?S'"
      by (simp add: snapshots_ok_def rerun_def stored_new_def)
  }
qed

text \<open>\<open>served\<close> after each outcome of an answer to the loop \<open>p\<close>; the loops of other promises are of other
  collections.\<close>

lemma served_other:
  assumes "served L R T stored c q" and "q \<noteq> p" and other: "\<forall>m. L q = Some m \<longrightarrow> loop_slug m \<noteq> slug"
    and "stored slug \<le> n"
  shows "served (L(p := x)) (R(slug := st)) (T(p := y)) (stored(slug := n)) c q"
    and "served (L(p := x)) (R(slug := st)) T (stored(slug := n)) c q"
  using assms by (auto simp: served_def)

lemma served_failed:
  assumes "served L R T stored c q" and "q \<noteq> p \<Longrightarrow> \<forall>m. L q = Some m \<longrightarrow> loop_slug m \<noteq> slug"
  shows "served (L(p := None)) (R(slug := st)) (T(p \<mapsto> Inl e)) stored c q"
  using assms served_other(1) [where n = "stored slug" and p = p and slug = slug, of L R T stored c q]
  by (cases "q = p") (auto simp: served_def)

lemma served_done:
  assumes "served L R T stored c q" and loop: "L p = Some l" and "stored (loop_slug l) < loop_fetch l"
    and "q \<noteq> p \<Longrightarrow> \<forall>m. L q = Some m \<longrightarrow> loop_slug m \<noteq> loop_slug l"
    and "\<forall>r. st_pendingRequest (R (loop_slug l)) = Some r \<longrightarrow> pr_respectTtl r"
  shows "served (L(p := None)) (R(loop_slug l := st)) (T(p \<mapsto> Inr ())) (stored(loop_slug l := loop_fetch l)) c q"
proof (cases "q = p")
  case True
  with assms(1,5) loop show ?thesis by (auto simp: served_def)
next
  case False
  then show ?thesis using assms(1,3,4) by (intro served_other(1)) auto
qed

lemma served_again:
  assumes "served L R T stored c q" and loop: "L p = Some l" and "T p = None" and "stored (loop_slug l) < loop_fetch l"
    and "q \<noteq> p \<Longrightarrow> \<forall>m. L q = Some m \<longrightarrow> loop_slug m \<noteq> loop_slug l"
    and "call_fetches c < loop_fetch l'" and "loop_slug l' = loop_slug l"
  shows "served (L(p \<mapsto> l')) (R(loop_slug l := st)) T (stored(loop_slug l := loop_fetch l)) c q"
proof (cases "q = p")
  case True
  with assms show ?thesis by (auto simp: served_def)
next
  case False
  then show ?thesis using assms(1,4,5) by (intro served_other(2)) auto
qed

lemma served_answer:
  assumes inv: "flight_inv S" and ok: "snapshots_ok S" and loop: "map_of (sv_loops S) p = Some l"
    and c: "served_call S c"
  shows "served_call (sourceSettled fl p outcome inp S) c"
proof (rule answer_cases [OF loop, of fl outcome inp])
  let ?S' = "sourceSettled fl p outcome inp S"
  have other: "\<forall>m. map_of (sv_loops S) q = Some m \<longrightarrow> loop_slug m \<noteq> loop_slug l" if "q \<noteq> p" for q
    using one_flight [OF flight_invD(1) [OF inv] loop] that by metis
  have "fetch_order (map_of (sv_loops S)) (sv_stored S) (sv_fetches S)" using ok by (simp add: snapshots_ok_def)
  from fetch_orderD(1) [OF this loop] have fresh: "sv_stored S (loop_slug l) < loop_fetch l" .
  have settled: "sv_settled S p = None" by (rule flightsD(4) [OF flight_invD(1) [OF inv] loop])
  {
    fix e assume "ended p l (Inl e) S ?S'" "same_calls S ?S'" "sv_stored ?S' = sv_stored S"
    with c settled show "served_call ?S' c"
      by (auto simp: served_call_def ended_def same_calls_def intro!: served_failed other)
  next
    assume "ended p l (Inr ()) S ?S'" "same_calls S ?S'" "stored_new l S ?S'"
      and "\<And>r. st_pendingRequest (refresh_of (sv_refreshStates S) (loop_slug l)) = Some r \<Longrightarrow> pr_respectTtl r"
    with c settled show "served_call ?S' c"
      by (auto simp: served_call_def ended_def same_calls_def stored_new_def intro!: served_done loop fresh other)
  next
    assume "rerun p l S ?S'" "same_calls S ?S'" "stored_new l S ?S'"
    with c settled show "served_call ?S' c"
      by (auto simp: served_call_def rerun_def same_calls_def stored_new_def intro!: served_again loop settled fresh other)
  }
qed

lemma served_frame [simp]:
  "served_inv (tell e S) = served_inv S" "served_inv (reportState S) = served_inv S"
  "served_inv (S\<lparr> sv_pollTimer := t \<rparr>) = served_inv S" "served_inv (S\<lparr> sv_watched := w \<rparr>) = served_inv S"
  "served_inv (S\<lparr> sv_started := b \<rparr>) = served_inv S" "served_inv (S\<lparr> sv_stopPromise := sp \<rparr>) = served_inv S"
  by (simp_all add: served_inv_def snapshots_ok_def served_call_def service_ops flight_inv_def)

lemma served_put:
  assumes "served_inv S" and "flight_inv S'"
    and "S' = put_refresh slug st (S\<lparr> sv_pendingRefreshCount := n \<rparr>)"
    and "\<And>r. st_pendingRequest (getRefreshState S slug) = Some r \<Longrightarrow> \<not> pr_respectTtl r
      \<Longrightarrow> \<exists>r'. st_pendingRequest st = Some r' \<and> \<not> pr_respectTtl r'"
  shows "served_inv S'"
  using assms by (fastforce simp: served_inv_def snapshots_ok_def served_call_def service_ops served_def)

lemma served_coalesce:
  assumes inv: "served_inv S" and busy: "st_refreshing (getRefreshState S slug)"
  shows "served_inv (coalesceRefresh slug reason ttl S)"
proof -
  let ?st = "getRefreshState S slug"
  let ?m = "mergePendingRefreshRequest (st_pendingRequest ?st) \<lparr> pr_reason = reason, pr_respectTtl = ttl \<rparr>"
  let ?n = "sv_pendingRefreshCount S + one_if (st_pendingRequest ?st = None)"
  let ?S' = "put_refresh slug (?st\<lparr> st_pendingRequest := Some ?m \<rparr>) (S\<lparr> sv_pendingRefreshCount := ?n \<rparr>)"
  have eq: "coalesceRefresh slug reason ttl S =
     reportState (?S'\<lparr> sv_events := sv_events S @ [SnapshotRefreshRequest Coalesced] \<rparr>)"
    by (simp add: coalesceRefresh_def Let_def service_ops)
  have "flight_inv ?S'"
    using flight_coalesce [OF served_invD(1) [OF inv] busy, of reason ttl] unfolding eq
    by (simp add: flight_inv_def service_ops)
  with inv have "served_inv ?S'"
    by (rule served_put) (auto simp: mergePendingRefreshRequest_def)
  then show ?thesis unfolding eq
    by (simp add: served_inv_def snapshots_ok_def served_call_def service_ops flight_inv_def)
qed

lemma served_start:
  assumes inv: "served_inv S" and idle: "\<not> st_refreshing (getRefreshState S slug)"
  shows "served_inv (startRefresh slug reason now S)"
proof -
  have old: "served_call (startRefresh slug reason now S) c" if c: "served_call S c" for c
    using c by (auto simp: served_call_def startRefresh_def beginFetch_def Let_def service_ops served_def update_conv')
  have "snapshots_ok (startRefresh slug reason now S)"
    using served_invD(2) [OF inv]
    by (auto simp: snapshots_ok_def startRefresh_def beginFetch_def Let_def service_ops update_conv' intro: fetch_order_next)
  with inv flight_start [OF served_invD(1) [OF inv] idle] old show ?thesis
    by (auto simp: served_inv_def) (simp add: startRefresh_def beginFetch_def Let_def service_ops)
qed

text \<open>The call that reached \<open>refreshCollection\<close> is served by the promise it now awaits.\<close>

lemma collection_serves:
  assumes inv: "served_inv S" and run: "refreshCollection slug reason ttl now S = (point, S')"
    and c: "call_slug c = slug" "call_respectTtl c = ttl" "call_fetches c \<le> sv_fetches S" "call_point c = point"
      "call_promise c = promise_of point"
  shows "served_inv S'" and "served_call S' c"
proof -
  note flights = flight_invD(1) [OF served_invD(1) [OF inv]]
  have "served_inv S' \<and> served_call S' c"
  proof (cases "st_refreshing (getRefreshState S slug)")
    case busy: True
    then obtain p l where p: "st_inFlightPromise (refresh_of (sv_refreshStates S) slug) = Some p"
      "map_of (sv_loops S) p = Some l" "loop_slug l = slug"
      by (auto simp: getRefreshState_eq elim: flights_of [OF flights])
    with busy run have run': "point = AwaitsFlight p" "S' = coalesceRefresh slug reason ttl S"
      by (auto simp: refreshCollection_def Let_def getRefreshState_eq)
    have "sv_settled S p = None" "p < sv_promises S" using flightsD(4,5) [OF flights p(2)] by simp_all
    with c p run' have "served_call S' c"
      by (auto simp: served_call_def served_def promise_of_def coalesceRefresh_def Let_def service_ops
          mergePendingRefreshRequest_def split: option.split)
    with served_coalesce [OF inv busy] run' show ?thesis by simp
  next
    case idle: False
    with run have run': "point = AwaitsFlight (sv_promises S)" "S' = startRefresh slug reason now S"
      by (auto simp: refreshCollection_def Let_def)
    have "sv_settled S (sv_promises S) = None" by (rule flights_settled(2) [OF flights]) simp
    with c run' have "served_call S' c"
      by (auto simp: served_call_def served_def promise_of_def startRefresh_def beginFetch_def Let_def service_ops
          update_conv')
    with served_start [OF inv idle] run' show ?thesis by simp
  qed
  then show "served_inv S'" "served_call S' c" by simp_all
qed

lemma collection_calls:
  assumes "refreshCollection slug reason ttl now S = (point, S')"
  shows "sv_calls S' = sv_calls S"
  using assms by (auto simp: refreshCollection_def coalesceRefresh_def startRefresh_def beginFetch_def Let_def service_ops
      split: if_splits)

lemma served_set_call:
  assumes "served_inv S" and "\<And>c. c \<in> set cs \<Longrightarrow> served_call S c"
  shows "served_inv (S\<lparr> sv_calls := cs \<rparr>)"
  using assms by (simp add: served_inv_def snapshots_ok_def served_call_def flight_inv_def)

lemma served_moved:
  assumes "served_call S c" and "call_moves S (call_point c) point"
  shows "served_call S (c\<lparr> call_point := point \<rparr>)"
  using assms by (auto simp: served_call_def served_def call_moves_def split: CallPoint.splits option.splits)

lemma clear_fields [simp]:
  "sv_calls (fold clearPendingRequest slugs S) = sv_calls S" "sv_loops (fold clearPendingRequest slugs S) = sv_loops S"
  "sv_settled (fold clearPendingRequest slugs S) = sv_settled S" "sv_stored (fold clearPendingRequest slugs S) = sv_stored S"
  "sv_fetches (fold clearPendingRequest slugs S) = sv_fetches S" "sv_promises (fold clearPendingRequest slugs S) = sv_promises S"
  "sv_snapshots (fold clearPendingRequest slugs S) = sv_snapshots S" "sv_stopped (fold clearPendingRequest slugs S) = sv_stopped S"
  "sv_activePromises (fold clearPendingRequest slugs S) = sv_activePromises S"
  by (induction slugs arbitrary: S)
    (simp_all add: clearPendingRequest_def takePendingRequest_def service_ops split: option.split)

lemma served_stop:
  assumes "served_inv S"
  shows "served_inv (stopService S)"
  using assms flight.halted [OF served_invD(1) [OF assms]]
  by (auto simp: served_inv_def snapshots_ok_def served_call_def stopService_def Let_def service_ops split: option.splits)

interpretation served: snapshot_invariant fl "served_inv :: 'o SnapshotService \<Rightarrow> bool" for fl
proof (unfold_locales, goal_cases)
  case (3 S point slug reason ttl)
  then show ?case
    unfolding add_call_def by (intro served_set_call) (auto simp: served_call_def promise_of_def served_inv_def)
next
  case (4 S slug reason ttl now point S')
  note serves = collection_serves [OF 4(1,3)] and calls = collection_calls [OF 4(3)]
  have "served_inv S'" by (rule serves(1) [of "\<lparr> call_slug = slug, call_reason = reason, call_respectTtl = ttl,
      call_point = point, call_promise = promise_of point, call_fetches = sv_fetches S \<rparr>"]) simp_all
  then show ?case
    unfolding add_call_def using serves(2) by (intro served_set_call) (auto simp: calls dest: served_invD(3))
next
  case (5 S i c now point S')
  note serves = collection_serves [OF 5(1,6), of "c\<lparr> call_point := point, call_promise := promise_of point \<rparr>"]
  have "call_fetches c \<le> sv_fetches S" using served_invD(3) [OF 5(1), of c] 5(3,4) by (simp add: served_call_def)
  then have "served_inv S'" "served_call S' (c\<lparr> call_point := point, call_promise := promise_of point \<rparr>)"
    using serves by simp_all
  then show ?case
    by (intro served_set_call) (auto dest!: set_update_subset_insert [THEN subsetD] served_invD(3))
next
  case (6 S i point)
  then show ?case unfolding set_point_def
    by (intro served_set_call)
      (auto dest!: set_update_subset_insert [THEN subsetD] intro!: served_moved intro: served_invD(3))
next
  case (7 S p outcome inp)
  then show ?case
  proof (cases "map_of (sv_loops S) p")
    case (Some l)
    with 7 answer_same [of S fl p outcome inp] snapshots_answer [OF _ _ Some] served_answer [OF _ _ Some]
    show ?thesis by (auto simp: served_inv_def flight_answer same_calls_def)
  qed (simp add: sourceSettled_def)
next
  case (8 S p)
  then show ?case using flight_forget [of S p]
    by (simp add: served_inv_def snapshots_ok_def served_call_def forgetPromise_def)
next
  case (11 S)
  then show ?case by (rule served_stop)
qed (auto simp: start_def Let_def scheduleNextPoll_def)

section \<open>Initial states\<close>

abbreviation initial_service :: "'o SnapshotService \<Rightarrow> bool" where
  "initial_service S \<equiv> \<exists>slugs ttl maxTtl multiplier. S = new_service slugs ttl maxTtl multiplier"

lemma initial_invs:
  assumes "initial_service S"
  shows "flight_inv S" and "gauges_told S" and "served_inv S"
proof -
  show "flight_inv S"
    using assms by (auto simp: new_service_def reportState_def tell_def flight_inv_def flights_def refresh_of_def pendings_def)
  then show "served_inv S"
    using assms by (auto simp: new_service_def reportState_def tell_def served_inv_def snapshots_ok_def fetch_order_def complete_snapshots_def)
  show "gauges_told S" using assms by (auto simp: new_service_def)
qed

text \<open>
  C18. Over every run of the snapshot service, with any calls, answers and failures of the source, at most
  one fetch per collection is under way, a collection has a fetch under way exactly while its state is
  refreshing, and the counts last told to the observer are the numbers of watched collections, of fetches
  under way and of collections with a coalesced request.
\<close>

theorem one_fetch_per_collection:
  assumes "initial_service S\<^sub>0" and "(service_step fl)\<^sup>*\<^sup>* S\<^sub>0 S"
  shows "distinct (map (\<lambda>(_, l). loop_slug l) (sv_loops S)) \<and>
    (\<forall>slug. st_refreshing (getRefreshState S slug) \<longleftrightarrow> slug \<in> loop_slug ` snd ` set (sv_loops S)) \<and>
    last_report (sv_events S) =
      Some (int (length (sv_watched S)), int (length (sv_loops S)),
            int (card {slug. st_pendingRequest (getRefreshState S slug) \<noteq> None}))"
proof -
  have inv: "flight_inv S" and told: "gauges_told S"
    using flight.kept_by_run [OF assms(2)] gauges.kept_by_run [OF assms(2)] initial_invs [OF assms(1)] by simp_all
  note flights = flight_invD(1) [OF inv] and d = flight_invD(2,3) [OF inv]
  have loops: "map_of (sv_loops S) p = Some l \<longleftrightarrow> (p, l) \<in> set (sv_loops S)" for p l using d(1) by (simp add: map_of_eq_Some_iff)
  have "inj_on (\<lambda>(_, l). loop_slug l) (set (sv_loops S))"
    using one_flight [OF flights] eq_key_imp_eq_value [OF d(1)] unfolding inj_on_def loops by fastforce
  then have "distinct (map (\<lambda>(_, l). loop_slug l) (sv_loops S))" using d(1) [unfolded distinct_map] by (simp add: distinct_map)
  moreover have "st_refreshing (getRefreshState S slug) \<longleftrightarrow> slug \<in> loop_slug ` snd ` set (sv_loops S)" for slug
    using flightsD(1) [OF flights] flights_of [OF flights]
    by (auto simp: getRefreshState_eq loops image_iff) (metis snd_conv)
  ultimately show ?thesis
    using told d(2) flight_invD(4,5) [OF inv] by (simp add: gauges_told_def pendings_card getRefreshState_eq)
qed

text \<open>
  C9. A forced refresh is never answered with offers fetched before it: when a call that does not respect the
  TTL reached the collection's refresh and has resolved, then, unless the service was stopped, the
  snapshot now stored is complete, is of that collection, and is of a fetch that began after the call.
\<close>

theorem forced_refresh_is_served_by_a_later_fetch:
  assumes "initial_service S\<^sub>0" and "(service_step fl)\<^sup>*\<^sup>* S\<^sub>0 S" and "\<not> sv_stopped S"
    and "c \<in> set (sv_calls S)" and "\<not> call_respectTtl c" and "call_promise c = Some p"
    and "call_point c = Settled (Inr ())"
  shows "\<exists>snapshot. getSnapshot S (call_slug c) = Some snapshot \<and> me_complete (os_metrics snapshot) \<and>
    os_collectionSlug snapshot = call_slug c \<and> call_fetches c < sv_stored S (call_slug c)"
proof -
  have inv: "served_inv S" using served.kept_by_run [OF assms(2)] initial_invs(3) [OF assms(1)] .
  from served_invD(3) [OF inv assms(4)] assms(3,5-7)
  have "call_fetches c < sv_stored S (call_slug c)" by (auto simp: served_call_def served_def)
  moreover from this served_invD(2) [OF inv] obtain snapshot where "map_of (sv_snapshots S) (call_slug c) = Some snapshot"
    by (fastforce simp: snapshots_ok_def complete_snapshots_def)
  ultimately show ?thesis
    using served_invD(2) [OF inv] by (auto simp: getSnapshot_def snapshots_ok_def complete_snapshots_def)
qed

section \<open>Shutdown\<close>

definition halt_inv :: "'o SnapshotService \<Rightarrow> bool" where
  "halt_inv S \<longleftrightarrow>
     flight_inv S \<and> (sv_stopped S \<longleftrightarrow> sv_stopPromise S \<noteq> None) \<and>
     (sv_stopped S \<longrightarrow> (\<forall>slug. st_pendingRequest (refresh_of (sv_refreshStates S) slug) = None)) \<and>
     (\<forall>ps. sv_stopPromise S = Some ps \<longrightarrow> dom (map_of (sv_loops S)) \<subseteq> set ps)"

text \<open>After \<open>stop\<close>: \<open>n\<close> fetches had begun, and nothing was under way if \<open>idle\<close>.\<close>

definition halted :: "nat \<Rightarrow> bool \<Rightarrow> (string \<times> 'o CollectionOfferSnapshot) list \<Rightarrow> 'o SnapshotService \<Rightarrow> bool" where
  "halted n idle snapshots S \<longleftrightarrow>
     halt_inv S \<and> sv_stopped S \<and> sv_fetches S = n \<and> (idle \<longrightarrow> sv_loops S = [] \<and> sv_snapshots S = snapshots)"

lemma clear_pending_all:
  "st_pendingRequest (refresh_of (sv_refreshStates (fold clearPendingRequest slugs S)) slug) =
     (if slug \<in> set slugs then None else st_pendingRequest (refresh_of (sv_refreshStates S) slug))"
  by (induction slugs arbitrary: S)
    (auto simp: clearPendingRequest_def takePendingRequest_def service_ops split: option.splits)

lemma halt_stop:
  assumes "halt_inv S"
  shows "halt_inv (stopService S)" and "sv_stopped (stopService S)"
proof -
  have inv: "flight_inv (stopService S)" using assms by (simp add: halt_inv_def flight.halted)
  have idle: "slug \<notin> fst ` set (sv_refreshStates S) \<Longrightarrow> st_pendingRequest (refresh_of (sv_refreshStates S) slug) = None" for slug
    by (simp add: refresh_of_def map_of_eq_None_iff [THEN iffD2])
  have "sv_stopped (stopService S)" "halt_inv (stopService S)"
    if "sv_stopPromise S = None"
    using that inv idle flightsD(3) [OF flight_invD(1), of S] assms
    by (auto simp: halt_inv_def stopService_def Let_def reportState_def tell_def clear_pending_all)
  moreover have "stopService S = S" if "sv_stopPromise S \<noteq> None" using that by (auto simp: stopService_def)
  ultimately show "halt_inv (stopService S)" "sv_stopped (stopService S)"
    using assms by (cases "sv_stopPromise S"; simp add: halt_inv_def)+
qed

lemma halt_frame [simp]:
  "halt_inv (tell e S) = halt_inv S" "halt_inv (reportState S) = halt_inv S" "halt_inv (S\<lparr> sv_calls := cs \<rparr>) = halt_inv S"
  "halt_inv (S\<lparr> sv_pollTimer := t \<rparr>) = halt_inv S" "halt_inv (S\<lparr> sv_watched := w \<rparr>) = halt_inv S"
  "halt_inv (S\<lparr> sv_started := b \<rparr>) = halt_inv S"
  by (simp_all add: halt_inv_def service_ops flight_inv_def)

lemma halt_answer:
  assumes "halt_inv S"
  shows "halt_inv (sourceSettled fl p outcome inp S)"
    and "sv_stopped S \<Longrightarrow> sv_fetches (sourceSettled fl p outcome inp S) = sv_fetches S"
proof -
  let ?S' = "sourceSettled fl p outcome inp S"
  have inv: "flight_inv ?S'" using assms by (simp add: halt_inv_def flight_answer)
  have "halt_inv ?S' \<and> (sv_stopped S \<longrightarrow> sv_fetches ?S' = sv_fetches S)"
  proof (cases "map_of (sv_loops S) p")
    case (Some l)
    then show ?thesis
    proof (rule answer_cases [where fl = fl and outcome = outcome and inp = inp], goal_cases)
      case (1 e)
      with assms inv show ?case by (auto simp: halt_inv_def ended_def same_calls_def)
    next
      case 2
      with assms inv show ?case by (auto simp: halt_inv_def ended_def same_calls_def)
    next
      case (3 r)
      with assms inv Some show ?case by (auto simp: halt_inv_def rerun_def same_calls_def)
    qed
  qed (simp add: sourceSettled_def assms)
  then show "halt_inv ?S'" "sv_stopped S \<Longrightarrow> sv_fetches ?S' = sv_fetches S" by simp_all
qed

lemma halt_collection:
  assumes "halt_inv S" and "\<not> sv_stopped S" and "refreshCollection slug reason ttl now S = (point, S')"
  shows "halt_inv S'"
proof -
  have "flight_inv S'" using flight_collection [of S slug reason ttl now] assms by (simp add: halt_inv_def)
  moreover have "sv_stopped S' = sv_stopped S" "sv_stopPromise S' = sv_stopPromise S"
    using assms(3) by (auto simp: refreshCollection_def coalesceRefresh_def startRefresh_def beginFetch_def Let_def service_ops
      split: if_splits)
  ultimately show ?thesis using assms(1,2) by (simp add: halt_inv_def)
qed

interpretation halt: snapshot_invariant fl "halt_inv :: 'o SnapshotService \<Rightarrow> bool" for fl
proof (unfold_locales, goal_cases)
  case (8 S p)
  then show ?case using flight_forget [of S p] by (simp add: halt_inv_def forgetPromise_def)
qed (auto simp: add_call_def set_point_def halt_answer halt_stop halt_collection start_def Let_def scheduleNextPoll_def)

interpretation halted: snapshot_invariant fl "halted n idle snapshots" for fl n idle snapshots
proof (unfold_locales, goal_cases)
  case (7 S p outcome inp)
  then show ?case
    using halt_answer [of S] answer_same [of S fl p outcome inp]
    by (auto simp: halted_def same_calls_def) (simp_all add: sourceSettled_def)
next
  case (8 S p)
  then show ?case using halt.forgotten [of S p] by (simp add: halted_def forgetPromise_def)
qed (auto simp: halted_def add_call_def set_point_def service_ops start_def stopService_def halt_inv_def split: option.splits)

text \<open>
  C24. \<open>stop\<close> closes the service: once it was called no further fetch begins, whatever is called or answered
  afterwards, and once its promise has resolved no fetch is under way and no snapshot changes any more.
\<close>

theorem stopped_service_fetches_nothing:
  assumes "initial_service S\<^sub>0" and "(service_step fl)\<^sup>*\<^sup>* S\<^sub>0 S" and "sv_stopped S" and "(service_step fl)\<^sup>*\<^sup>* S S'"
  shows "sv_fetches S' = sv_fetches S \<and> (stopResolved S \<longrightarrow> sv_loops S' = [] \<and> sv_snapshots S' = sv_snapshots S)"
proof -
  have "halt_inv S\<^sub>0" using assms(1) initial_invs(1) [OF assms(1)] by (auto simp: halt_inv_def new_service_def service_ops)
  with assms(2) have inv: "halt_inv S" by (rule halt.kept_by_run)
  have "sv_loops S = []" if "stopResolved S"
  proof (rule ccontr)
    assume "sv_loops S \<noteq> []"
    then obtain p l where "map_of (sv_loops S) p = Some l" by (metis list.exhaust map_of_Cons_code(2) prod.exhaust)
    with inv that show False
      using flightsD(4) [OF flight_invD(1)] by (fastforce simp: halt_inv_def stopResolved_def list_all_iff split: option.splits)
  qed
  with inv assms(3) have "halted (sv_fetches S) (stopResolved S) (sv_snapshots S) S" by (simp add: halted_def)
  from halted.kept_by_run [OF assms(4) this] show ?thesis by (simp add: halted_def)
qed

section \<open>Answers\<close>

definition known_inv :: "'o SnapshotService \<Rightarrow> bool" where
  "known_inv S \<longleftrightarrow>
     flight_inv S \<and>
     (\<forall>c \<in> set (sv_calls S). \<forall>p. call_point c = JoinedFlight p \<or> call_point c = AwaitsFlight p \<longrightarrow> p < sv_promises S)"

lemma known_calls:
  assumes "known_inv S" and "flight_inv S'" and "sv_promises S \<le> sv_promises S'"
    and "set (sv_calls S') \<subseteq> insert c (set (sv_calls S))"
    and "\<And>p. call_point c = JoinedFlight p \<or> call_point c = AwaitsFlight p \<Longrightarrow> p < sv_promises S'"
  shows "known_inv S'"
  unfolding known_inv_def
proof (intro conjI ballI allI impI)
  fix d p assume d: "d \<in> set (sv_calls S')" and p: "call_point d = JoinedFlight p \<or> call_point d = AwaitsFlight p"
  show "p < sv_promises S'"
  proof (cases "d = c")
    case False
    with assms(4) d have "d \<in> set (sv_calls S)" by auto
    with assms(1) p have "p < sv_promises S" by (auto simp: known_inv_def)
    with assms(3) show ?thesis by simp
  qed (use assms(5) p in simp)
qed (rule assms(2))

lemma in_flight_known:
  assumes inv: "flight_inv S" and "st_refreshing (getRefreshState S slug)"
    and p: "st_inFlightPromise (getRefreshState S slug) = Some p"
  shows "p < sv_promises S"
proof -
  note flights = flight_invD(1) [OF inv]
  from assms(2) obtain q l where "st_inFlightPromise (refresh_of (sv_refreshStates S) slug) = Some q" "map_of (sv_loops S) q = Some l"
    by (auto simp: getRefreshState_eq elim: flights_of [OF flights])
  with p flightsD(5) [OF flights] show ?thesis by (simp add: getRefreshState_eq)
qed

lemma collection_point:
  assumes inv: "flight_inv S" and "refreshCollection slug reason ttl now S = (point, S')"
  shows "sv_promises S \<le> sv_promises S'" and "point = AwaitsFlight p \<Longrightarrow> p < sv_promises S'" and "point \<noteq> JoinedFlight p"
    and "flight_inv S'"
proof -
  from assms(2) in_flight_known [OF inv, of slug] show "sv_promises S \<le> sv_promises S'" "point = AwaitsFlight p \<Longrightarrow> p < sv_promises S'" "point \<noteq> JoinedFlight p"
    by (auto simp: refreshCollection_def coalesceRefresh_def startRefresh_def beginFetch_def Let_def tell_def reportState_def
        put_refresh_def split: if_splits option.splits)
  show "flight_inv S'" using flight_collection [OF inv, of slug reason ttl now] assms(2) by simp
qed

interpretation known: snapshot_invariant fl "known_inv :: 'o SnapshotService \<Rightarrow> bool" for fl
proof (unfold_locales, goal_cases)
  case (3 S point slug reason ttl)
  have "p < sv_promises S" if "flightToJoin S slug = Some p" for p
    using that 3(1) in_flight_known [of S slug] by (auto simp: flightToJoin_def Let_def known_inv_def split: if_splits)
  with 3 show ?case by (auto simp: known_inv_def add_call_def)
next
  case (4 S slug reason ttl now point S')
  then have inv: "flight_inv S" by (simp add: known_inv_def)
  show ?case
    by (rule known_calls [OF 4(1), where c = "\<lparr> call_slug = slug, call_reason = reason, call_respectTtl = ttl,
        call_point = point, call_promise = promise_of point, call_fetches = sv_fetches S \<rparr>"])
      (use collection_point [OF inv 4(3)] collection_calls [OF 4(3)] in \<open>auto simp: add_call_def\<close>)
next
  case (5 S i c now point S')
  then have inv: "flight_inv S" by (simp add: known_inv_def)
  show ?case
    by (rule known_calls [OF 5(1), where c = "c\<lparr> call_point := point, call_promise := promise_of point \<rparr>"])
      (use collection_point [OF inv 5(6)] collection_calls [OF 5(6)] in
        \<open>auto dest: set_update_subset_insert [THEN subsetD]\<close>)
next
  case (6 S i point)
  then show ?case
    by (intro known_calls [OF 6(1), where c = "(sv_calls S ! i)\<lparr> call_point := point \<rparr>"])
      (auto simp: known_inv_def set_point_def call_moves_def dest: set_update_subset_insert [THEN subsetD]
        split: CallPoint.splits option.splits sum.splits)
next
  case (7 S p outcome inp)
  then show ?case
    using answer_same [of S fl p outcome inp] by (auto simp: known_inv_def flight_answer same_calls_def)
next
  case (8 S p)
  then show ?case using flight_forget [of S p] by (auto simp: known_inv_def forgetPromise_def)
next
  case (11 S)
  then show ?case using flight.halted [of S]
    by (auto simp: known_inv_def stopService_def Let_def reportState_def tell_def split: option.splits)
qed (auto simp: known_inv_def tell_def reportState_def start_def Let_def scheduleNextPoll_def)

text \<open>What is left to do, as a number that every answer and every resumed call decreases.\<close>

fun call_load :: "CallPoint \<Rightarrow> nat" where
  "call_load (Settled r) = 0"
| "call_load (AwaitsFlight p) = 1"
| "call_load NotServed = 4"
| "call_load (JoinedFlight p) = 5"

definition pending_slugs :: "'o SnapshotService \<Rightarrow> string set" where
  "pending_slugs S = {slug. st_pendingRequest (refresh_of (sv_refreshStates S) slug) \<noteq> None}"

definition calls_load :: "'o SnapshotService \<Rightarrow> nat" where
  "calls_load S = sum_list (map (\<lambda>c. call_load (call_point c)) (sv_calls S))"

definition load :: "'o SnapshotService \<Rightarrow> nat" where
  "load S = calls_load S + card (dom (map_of (sv_loops S))) + card (pending_slugs S)"

lemma finite_pending [simp]: "finite (pending_slugs S)"
proof (rule finite_subset)
  show "pending_slugs S \<subseteq> fst ` set (sv_refreshStates S)"
    by (auto simp: pending_slugs_def refresh_of_def split: option.splits intro: rev_image_eqI dest: map_of_SomeD)
qed simp

lemma sum_list_update_at:
  fixes f :: "'a \<Rightarrow> nat"
  assumes "i < length xs"
  shows "sum_list (map f (xs[i := x])) + f (xs ! i) = sum_list (map f xs) + f x"
  using assms
proof (induction xs arbitrary: i)
  case (Cons y ys)
  then show ?case by (cases i) fastforce+
qed simp

lemma answer_load:
  assumes loop: "map_of (sv_loops S) p = Some l"
  shows "load (sourceSettled fl p outcome inp S) < load S"
proof -
  let ?S' = "sourceSettled fl p outcome inp S"
  have calls: "calls_load ?S' = calls_load S"
    using answer_same [of S fl p outcome inp] by (simp add: calls_load_def same_calls_def)
  have p: "p \<in> dom (map_of (sv_loops S))" using loop by auto
  have fin: "finite (dom (map_of (sv_loops S)))" by (rule finite_dom_map_of)
  have ended: "load ?S' < load S" if "ended p l result S ?S'" for result
  proof -
    have "dom (map_of (sv_loops ?S')) = dom (map_of (sv_loops S)) - {p}" using that by (simp add: ended_def)
    then have "card (dom (map_of (sv_loops ?S'))) < card (dom (map_of (sv_loops S)))"
      using p fin by (metis card_Diff1_less)
    moreover have "pending_slugs ?S' \<subseteq> pending_slugs S" using that by (auto simp: ended_def pending_slugs_def split: if_splits)
    then have "card (pending_slugs ?S') \<le> card (pending_slugs S)" by (intro card_mono) simp_all
    ultimately show ?thesis using calls by (simp add: load_def)
  qed
  have again: "load ?S' < load S" if "rerun p l S ?S'"
    "st_pendingRequest (refresh_of (sv_refreshStates S) (loop_slug l)) = Some r" for r
  proof -
    have "dom (map_of (sv_loops ?S')) = dom (map_of (sv_loops S))" using that(1) p by (auto simp: rerun_def split: if_splits)
    moreover have "pending_slugs ?S' \<subset> pending_slugs S" using that by (auto simp: rerun_def pending_slugs_def split: if_splits)
    then have "card (pending_slugs ?S') < card (pending_slugs S)" by (intro psubset_card_mono) simp_all
    ultimately show ?thesis using calls by (simp add: load_def)
  qed
  show ?thesis by (rule answer_cases [OF loop, of fl outcome inp]) (use ended again in blast)+
qed

lemma load_set_point:
  assumes "i < length (sv_calls S)" and "call_load point < call_load (call_point (sv_calls S ! i))"
  shows "load (set_point i point S) < load S"
  using assms sum_list_update_at [OF assms(1), of "\<lambda>c. call_load (call_point c)" "(sv_calls S ! i)\<lparr> call_point := point \<rparr>"]
  by (simp add: load_def calls_load_def set_point_def pending_slugs_def)

lemma load_tell [simp]: "load (tell e S) = load S" "load (reportState S) = load S"
  by (simp_all add: load_def calls_load_def pending_slugs_def service_ops)

lemma collection_load:
  assumes run: "refreshCollection slug reason ttl now S = (point, S')"
  shows "card (dom (map_of (sv_loops S'))) + card (pending_slugs S') \<le> card (dom (map_of (sv_loops S))) + card (pending_slugs S) + 1"
    and "call_load point \<le> 1"
proof -
  show "call_load point \<le> 1"
    using run by (auto simp: refreshCollection_def Let_def split: if_splits option.splits)
  show "card (dom (map_of (sv_loops S'))) + card (pending_slugs S') \<le> card (dom (map_of (sv_loops S))) + card (pending_slugs S) + 1"
  proof (cases "st_refreshing (getRefreshState S slug)")
    case True
    with run have S': "S' = coalesceRefresh slug reason ttl S" by (simp add: refreshCollection_def Let_def)
    have "pending_slugs S' = insert slug (pending_slugs S)" "sv_loops S' = sv_loops S"
      unfolding S' by (auto simp: pending_slugs_def coalesceRefresh_def Let_def service_ops)
    then show ?thesis using card_insert_le_m1 by (simp add: card_insert_if)
  next
    case False
    with run have S': "S' = startRefresh slug reason now S" by (simp add: refreshCollection_def Let_def)
    have "pending_slugs S' = pending_slugs S" "dom (map_of (sv_loops S')) = insert (sv_promises S) (dom (map_of (sv_loops S)))"
      unfolding S' by (auto simp: pending_slugs_def startRefresh_def beginFetch_def Let_def service_ops update_conv')
    then show ?thesis by (simp add: card_insert_if finite_dom_map_of)
  qed
qed

lemma resume_load:
  assumes "resumable S i"
  shows "load (resumeCall fl i checkedAt startedAt S) < load S"
proof -
  have i: "i < length (sv_calls S)" using assms by (simp add: resumable_def)
  let ?c = "sv_calls S ! i"
  show ?thesis
  proof (cases "call_point ?c")
    case NotServed
    have skip: "load (set_point i (Settled (Inr ())) (tell e S)) < load S" for e
      using load_set_point [of i "tell e S" "Settled (Inr ())"] i NotServed by (simp add: tell_def [of e]) (simp add: tell_def load_def calls_load_def pending_slugs_def)
    have run: "load (S'\<lparr> sv_calls := (sv_calls S')[i := ?c\<lparr> call_point := point, call_promise := promise_of point \<rparr>] \<rparr>) < load S"
      if "refreshCollection (call_slug ?c) (call_reason ?c) (call_respectTtl ?c) startedAt S = (point, S')" for point S'
      using collection_load [OF that] collection_calls [OF that] i NotServed
        sum_list_update_at [OF i, of "\<lambda>c. call_load (call_point c)" "?c\<lparr> call_point := point, call_promise := promise_of point \<rparr>"]
      by (simp add: load_def calls_load_def pending_slugs_def)
    show ?thesis
      using NotServed skip run by (auto simp: resumeCall_def continueCall_def Let_def split: prod.split)
  next
    case (JoinedFlight p)
    with assms obtain r where "sv_settled S p = Some r" by (auto simp: resumable_def)
    with JoinedFlight show ?thesis
      by (cases r) (auto simp: resumeCall_def Let_def intro!: load_set_point [OF i])
  next
    case (AwaitsFlight p)
    with assms obtain r where "sv_settled S p = Some r" by (auto simp: resumable_def)
    with AwaitsFlight show ?thesis by (auto simp: resumeCall_def Let_def intro!: load_set_point [OF i])
  qed (use assms in \<open>simp add: resumable_def\<close>)
qed

lemma work_load: "service_work fl S S' \<Longrightarrow> load S' < load S"
  by (induction rule: service_work.induct) (auto intro: answer_load resume_load)

lemma work_steps_load: "(service_work fl ^^ n) S S' \<Longrightarrow> n + load S' \<le> load S"
proof (induction n arbitrary: S')
  case (Suc n)
  then obtain T where "(service_work fl ^^ n) S T" "service_work fl T S'" by auto
  with Suc.IH [of T] work_load [of fl T S'] show ?case by simp
qed simp

text \<open>
  C19. Every call of the service is answered: from any reachable state, the source can answer and calls can go
  on only a bounded number of times, and when nothing of this kind is left, no fetch is under way and
  every call has settled.
\<close>

theorem refresh_calls_are_answered:
  assumes "initial_service S\<^sub>0" and "(service_step fl)\<^sup>*\<^sup>* S\<^sub>0 S"
  shows "(\<forall>n S'. (service_work fl ^^ n) S S' \<longrightarrow> n \<le> load S) \<and>
    (\<forall>S'. (service_work fl)\<^sup>*\<^sup>* S S' \<and> (\<nexists>S''. service_work fl S' S'') \<longrightarrow>
       sv_loops S' = [] \<and> (\<forall>c \<in> set (sv_calls S'). \<exists>r. call_point c = Settled r))"
proof (intro conjI allI impI)
  fix n S' assume "(service_work fl ^^ n) S S'"
  then show "n \<le> load S" using work_steps_load [of n fl S S'] by simp
next
  fix S' assume S': "(service_work fl)\<^sup>*\<^sup>* S S' \<and> (\<nexists>S''. service_work fl S' S'')"
  have "known_inv S\<^sub>0" using assms(1) initial_invs(1) [OF assms(1)] by (auto simp: known_inv_def new_service_def service_ops)
  moreover have "(service_step fl)\<^sup>*\<^sup>* S S'" using S' mono_rtranclp [of "service_work fl" "service_step fl"] work by blast
  ultimately have inv: "known_inv S'" using assms(2) known.kept_by_run by (metis rtranclp_trans)
  have no_loop: "map_of (sv_loops S') p = None" for p using S' answer [of S' p fl] by blast
  then have "map_of (sv_loops S') = Map.empty" by (rule ext)
  then show "sv_loops S' = []" by simp
  show "\<forall>c \<in> set (sv_calls S'). \<exists>r. call_point c = Settled r"
  proof (rule ballI, rule ccontr)
    fix c assume c: "c \<in> set (sv_calls S')" and open_: "\<nexists>r. call_point c = Settled r"
    then obtain i where i: "i < length (sv_calls S')" "sv_calls S' ! i = c" by (auto simp: in_set_conv_nth)
    have "sv_settled S' p \<noteq> None" if "call_point c = JoinedFlight p \<or> call_point c = AwaitsFlight p" for p
      using inv that c flights_settled(1) [OF flight_invD(1), of S' p] no_loop [of p] by (auto simp: known_inv_def)
    with open_ i have "resumable S' i" by (cases "call_point c") (auto simp: resumable_def)
    with S' show False using resume by blast
  qed
qed

section \<open>Watched collections and polling\<close>

definition poll_inv :: "'o SnapshotService \<Rightarrow> bool" where
  "poll_inv S \<longleftrightarrow> distinct (sv_watched S) \<and> (sv_pollTimer S \<longleftrightarrow> sv_started S \<and> sv_watched S \<noteq> [])"

lemma watch_fields:
  "sv_watched (snd (watchCollection slug S)) = (if slug \<in> set (sv_watched S) then sv_watched S else sv_watched S @ [slug])"
  "sv_watched (snd (unwatchCollection slug S)) = removeAll slug (sv_watched S)"
  "fst (watchCollection slug S) \<longleftrightarrow> slug \<notin> set (sv_watched S)"
  "fst (unwatchCollection slug S) \<longleftrightarrow> slug \<in> set (sv_watched S)"
  "sv_started (snd (watchCollection slug S)) = sv_started S" "sv_started (snd (unwatchCollection slug S)) = sv_started S"
  by (auto simp: watchCollection_def unwatchCollection_def scheduleNextPoll_def Let_def service_ops)

lemma poll_watch:
  assumes "poll_inv S"
  shows "poll_inv (snd (watchCollection slug S))" and "poll_inv (snd (unwatchCollection slug S))"
  using assms
  by (auto simp: poll_inv_def watchCollection_def unwatchCollection_def scheduleNextPoll_def Let_def service_ops distinct_removeAll)

lemma unwatchMissing_result:
  assumes "unwatchMissing upcoming slugs (n, S) = (m, S')" and "poll_inv S"
  shows "poll_inv S' \<and> set (sv_watched S') = set (sv_watched S) - (set slugs - set upcoming) \<and>
    m = n + int (card (set (sv_watched S) \<inter> (set slugs - set upcoming))) \<and> sv_started S' = sv_started S"
  using assms
proof (induction slugs arbitrary: n S)
  case (Cons slug slugs)
  show ?case
  proof (cases "slug \<in> set upcoming \<or> slug \<notin> set (sv_watched S)")
    case True
    then have "unwatchMissing upcoming slugs (n, S) = (m, S')" using Cons.prems(1) by (auto simp: unwatchCollection_def split: if_splits)
    from Cons.IH [OF this Cons.prems(2)] True show ?thesis by (auto intro!: arg_cong [where f = card])
  next
    case False
    let ?S1 = "snd (unwatchCollection slug S)"
    have "fst (unwatchCollection slug S)" using False by (simp add: watch_fields)
    then have "unwatchMissing upcoming slugs (n + 1, ?S1) = (m, S')"
      using Cons.prems(1) False by (auto split: prod.splits)
    from Cons.IH [OF this poll_watch(2) [OF Cons.prems(2)]] have ih: "poll_inv S'"
      "set (sv_watched S') = set (sv_watched ?S1) - (set slugs - set upcoming)"
      "m = n + 1 + int (card (set (sv_watched ?S1) \<inter> (set slugs - set upcoming)))" "sv_started S' = sv_started ?S1" by auto
    have "set (sv_watched S) \<inter> (set (slug # slugs) - set upcoming) =
        insert slug (set (sv_watched ?S1) \<inter> (set slugs - set upcoming))"
      and "slug \<notin> set (sv_watched ?S1) \<inter> (set slugs - set upcoming)"
      using False by (auto simp: watch_fields)
    then have "card (set (sv_watched S) \<inter> (set (slug # slugs) - set upcoming)) =
        Suc (card (set (sv_watched ?S1) \<inter> (set slugs - set upcoming)))" by simp
    with ih False show ?thesis by (auto simp: watch_fields)
  qed
qed auto

lemma watchAll_result:
  assumes "watchAll slugs (n, S) = (m, S')" and "poll_inv S"
  shows "poll_inv S' \<and> set (sv_watched S') = set (sv_watched S) \<union> set slugs \<and>
    m = n + int (card (set slugs - set (sv_watched S))) \<and> sv_started S' = sv_started S"
  using assms
proof (induction slugs arbitrary: n S)
  case (Cons slug slugs)
  let ?S1 = "snd (watchCollection slug S)"
  show ?case
  proof (cases "slug \<in> set (sv_watched S)")
    case True
    then have "watchAll slugs (n, S) = (m, S')" using Cons.prems(1) by (auto simp: watchCollection_def)
    from Cons.IH [OF this Cons.prems(2)] True show ?thesis by (auto intro!: arg_cong [where f = card])
  next
    case False
    then have "fst (watchCollection slug S)" by (simp add: watch_fields)
    then have "watchAll slugs (n + 1, ?S1) = (m, S')" using Cons.prems(1) by (auto split: prod.splits)
    from Cons.IH [OF this poll_watch(1) [OF Cons.prems(2)]] have ih: "poll_inv S'"
      "set (sv_watched S') = set (sv_watched ?S1) \<union> set slugs"
      "m = n + 1 + int (card (set slugs - set (sv_watched ?S1)))" "sv_started S' = sv_started ?S1" by auto
    have "set (slug # slugs) - set (sv_watched S) = insert slug (set slugs - set (sv_watched ?S1))"
      using False by (auto simp: watch_fields)
    with False have "card (set (slug # slugs) - set (sv_watched S)) = Suc (card (set slugs - set (sv_watched ?S1)))"
      by (simp add: watch_fields)
    with ih False show ?thesis by (auto simp: watch_fields)
  qed
qed auto

lemma set_new_Set [simp]: "set (new_Set xs) = set xs" "distinct (new_Set xs)"
  by (simp_all add: new_Set_def)

lemma reconcile_watches_exactly:
  assumes "poll_inv S" and "reconcileWatchedCollections slugs S = ((added, removed), S')"
  shows "set (sv_watched S') = set slugs" and "added = int (card (set slugs - set (sv_watched S)))"
    and "removed = int (card (set (sv_watched S) - set slugs))" and "poll_inv S'"
proof -
  obtain n S1 where un: "unwatchMissing (new_Set slugs) (sv_watched S) (0, S) = (n, S1)" by fastforce
  obtain m S2 where wa: "watchAll (new_Set slugs) (0, S1) = (m, S2)" by fastforce
  have eq: "S' = S2" "added = m" "removed = n" using assms(2) by (simp_all add: reconcileWatchedCollections_def Let_def un wa)
  from unwatchMissing_result [OF un assms(1)] have S1: "poll_inv S1" "set (sv_watched S1) = set (sv_watched S) \<inter> set slugs"
    "n = int (card (set (sv_watched S) \<inter> (set (sv_watched S) - set slugs)))" by auto
  from watchAll_result [OF wa S1(1)] S1 show "set (sv_watched S') = set slugs" "poll_inv S'"
    "added = int (card (set slugs - set (sv_watched S)))" unfolding eq by (auto intro!: arg_cong [where f = card])
  show "removed = int (card (set (sv_watched S) - set slugs))" unfolding eq S1 by (intro arg_cong [where f = "\<lambda>A. int (card A)"]) auto
qed

text \<open>The fields polling depends on.\<close>

definition poll_view :: "'o SnapshotService \<Rightarrow> string list \<times> bool \<times> bool" where
  "poll_view S = (sv_watched S, sv_started S, sv_pollTimer S)"

lemma poll_inv_cong: "poll_view S' = poll_view S \<Longrightarrow> poll_inv S' = poll_inv S"
  by (simp add: poll_view_def poll_inv_def)

lemma view_collection: "poll_view (snd (refreshCollection slug reason ttl now S)) = poll_view S"
  by (simp add: refreshCollection_def coalesceRefresh_def startRefresh_def beginFetch_def poll_view_def Let_def service_ops)

lemma view_call: "poll_view (refreshAndWait fl slug reason ttl c s S) = poll_view S"
  using view_collection [of slug reason ttl s S]
  by (auto simp: refreshAndWait_def add_call_def poll_view_def Let_def tell_def split: option.split prod.split)

lemma view_request: "poll_view (requestRefresh fl slug reason c S) = poll_view S"
  by (simp add: requestRefresh_def view_call) (simp add: poll_view_def tell_def)

lemma view_fold: "(\<And>x S. poll_view (f x S) = poll_view S) \<Longrightarrow> poll_view (fold f xs S) = poll_view S"
  by (induction xs arbitrary: S) simp_all

lemma view_resume: "poll_view (resumeCall fl i c s S) = poll_view S"
  using view_collection [of "call_slug (sv_calls S ! i)" "call_reason (sv_calls S ! i)" "call_respectTtl (sv_calls S ! i)" s S]
  by (auto simp: resumeCall_def continueCall_def set_point_def poll_view_def Let_def tell_def
      split: option.split prod.split CallPoint.split sum.split)

lemma view_clear: "poll_view (fold clearPendingRequest slugs S) = poll_view S"
  by (rule view_fold) (simp add: clearPendingRequest_def takePendingRequest_def poll_view_def service_ops split: option.split)

lemma poll_fires: "poll_inv S \<Longrightarrow> poll_inv (pollTimerFires fl clock S)"
  using view_fold [of "\<lambda>slug. requestRefresh fl slug ''poll cadence'' (clock slug)" "sv_watched S" "S\<lparr> sv_pollTimer := False \<rparr>"]
  by (auto simp: pollTimerFires_def Let_def scheduleNextPoll_def view_request poll_inv_def) (auto simp: poll_view_def)

lemma poll_step: "service_step fl S S' \<Longrightarrow> poll_inv S \<Longrightarrow> poll_inv S'"
proof (induction rule: service_step.induct)
  case (work S S')
  then show ?case
  proof (induction rule: service_work.induct)
    case (answer S p outcome inp)
    then show ?case using answer_same [of S fl p outcome inp] by (simp add: same_calls_def poll_inv_def)
  qed (simp add: poll_inv_cong [OF view_resume])
next
  case (bootstraps S clock)
  then show ?case by (simp add: bootstrap_def poll_inv_cong [OF view_fold] view_call)
next
  case (stops S)
  then show ?case
    using view_clear [of "map fst (sv_refreshStates S)" "S\<lparr> sv_started := False, sv_stopped := True, sv_pollTimer := False \<rparr>"]
    by (auto simp: stopService_def Let_def poll_inv_def poll_view_def service_ops split: option.split)
next
  case (reconcile S slugs)
  then show ?case using reconcile_watches_exactly(4) by (metis prod.exhaust_sel snd_conv)
qed (simp_all add: poll_inv_cong [OF view_call] poll_inv_cong [OF view_request] poll_fires poll_watch,
    auto simp: poll_inv_def forgetPromise_def start_def scheduleNextPoll_def Let_def service_ops)

lemma poll_run: "(service_step fl)\<^sup>*\<^sup>* S S' \<Longrightarrow> poll_inv S \<Longrightarrow> poll_inv S'"
  by (induction rule: rtranclp_induct) (auto intro: poll_step)

text \<open>
  Reconciling the watched collections with the enabled jobs leaves exactly the given collections
  watched, counts what was added and removed, and in every reachable state the poll timer runs exactly
  when the service is started and watches something, so that no change of the watched set stops polling.
\<close>

theorem reconciled_collections_are_polled:
  assumes "initial_service S\<^sub>0" and "(service_step fl)\<^sup>*\<^sup>* S\<^sub>0 S"
    and "reconcileWatchedCollections slugs S = ((added, removed), S')"
  shows "set (sv_watched S') = set slugs \<and> added = int (card (set slugs - set (sv_watched S))) \<and>
    removed = int (card (set (sv_watched S) - set slugs)) \<and> (sv_pollTimer S' \<longleftrightarrow> sv_started S' \<and> slugs \<noteq> [])"
proof -
  have "poll_inv S\<^sub>0" using assms(1) by (auto simp: poll_inv_def new_service_def service_ops)
  with assms(2) have "poll_inv S" by (rule poll_run)
  from reconcile_watches_exactly [OF this assms(3)] show ?thesis by (auto simp: poll_inv_def)
qed

section \<open>Freshness and backoff\<close>

lemma freshness_ttl_bounds:
  assumes "sv_refreshTtlMs S \<le> sv_refreshMaxTtlMs S"
  shows "sv_refreshTtlMs S \<le> getSnapshotFreshnessTtlMs fl S metrics" and "getSnapshotFreshnessTtlMs fl S metrics \<le> sv_refreshMaxTtlMs S"
  using assms by (auto simp: getSnapshotFreshnessTtlMs_def Let_def)

text \<open>
  The backoff after a failed refresh is at least the TTL doubled with every further failure, up to
  sixty-four times, unless the configured maximum is less, and never more than the maximum; for this the
  host's rounding has to be monotone, idempotent and exact at zero.
\<close>

theorem failure_backoff_is_bounded:
  assumes "mono fl" and "\<And>x. fl (fl x) = fl x" and "fl 0 = 0"
    and "0 \<le> sv_refreshTtlMs S" and "1 \<le> failures" and "0 \<le> random"
  shows "min (sv_refreshMaxTtlMs S) (fl (sv_refreshTtlMs S * 2 ^ nat (min (failures - 1) 6))) \<le> failureBackoffMs fl S failures random
    \<and> failureBackoffMs fl S failures random \<le> sv_refreshMaxTtlMs S"
proof -
  define raw where "raw = fl (sv_refreshTtlMs S * 2 ^ nat (min (failures - 1) 6))"
  define jitter where "jitter = (of_int \<lfloor>fl (fl (raw * fl FAILURE_BACKOFF_JITTER_RATIO) * random)\<rfloor> :: rat)"
  have nonneg: "0 \<le> fl x" if "0 \<le> x" for x using monoD [OF assms(1) that] assms(3) by simp
  have "0 \<le> raw" unfolding raw_def using assms(4) by (intro nonneg) simp
  then have "0 \<le> fl (fl (raw * fl FAILURE_BACKOFF_JITTER_RATIO) * random)"
    using assms(6) by (intro nonneg mult_nonneg_nonneg) (simp_all add: FAILURE_BACKOFF_JITTER_RATIO_def)
  then have "raw \<le> raw + jitter" by (simp add: jitter_def)
  then have "fl raw \<le> fl (raw + jitter)" by (rule monoD [OF assms(1)])
  then have "raw \<le> fl (raw + jitter)" by (simp add: raw_def assms(2))
  moreover have "failureBackoffMs fl S failures random = min (sv_refreshMaxTtlMs S) (fl (raw + jitter))"
    by (simp add: failureBackoffMs_def Let_def raw_def jitter_def FAILURE_BACKOFF_MULTIPLIER_def FAILURE_BACKOFF_MAX_EXPONENT_def)
  ultimately show ?thesis unfolding raw_def [symmetric] by (simp add: min_le_iff_disj)
qed

end
