(* ===== verification/Offer_Snapshot_Samples.thy ===== *)
theory Offer_Snapshot_Samples
  imports Offer_Snapshot_Results
begin

text \<open>
  A run of the snapshot service: a forced call starts a fetch, a second one is coalesced, the source answers
  twice, both calls resolve, and the service is stopped.
\<close>

definition os_service :: "unit SnapshotService" where
  "os_service = new_service [''a''] 1000 None None"

definition os_inputs :: SettleInputs where
  "os_inputs = \<lparr> in_failedAt = 5, in_backoffFrom = 5, in_random = 0, in_storedAt = 6, in_checkedAt = 7, in_startedAt = 8 \<rparr>"

definition os_answer :: "unit SourceOutcome" where
  "os_answer = SourceResult [()] (createCollectionOfferSnapshotMetrics 2 True)"

definition os_called :: "unit SnapshotService" where
  "os_called = refreshAndWait id ''a'' ''second'' False 1 1 (refreshAndWait id ''a'' ''first'' False 0 0 os_service)"

definition os_answered :: "unit SnapshotService" where
  "os_answered = sourceSettled id 0 os_answer os_inputs (sourceSettled id 0 os_answer os_inputs os_called)"

definition os_resumed :: "unit SnapshotService" where
  "os_resumed = resumeCall id 1 9 9 (resumeCall id 0 9 9 os_answered)"

definition os_stopped :: "unit SnapshotService" where
  "os_stopped = stopService os_resumed"

lemma os_initial: "initial_service os_service"
  unfolding os_service_def by blast

lemma os_called_run: "(service_step id)\<^sup>*\<^sup>* os_service os_called"
  unfolding os_called_def
  by (rule rtranclp_trans [OF r_into_rtranclp r_into_rtranclp]) (rule call)+

lemma os_work: "(service_work id)\<^sup>*\<^sup>* os_called os_resumed"
proof -
  have "map_of (sv_loops os_called) 0 \<noteq> None" by code_simp
  note 1 = r_into_rtranclp [of "service_work id", OF answer [OF this, where outcome = os_answer and inp = os_inputs]]
  have "map_of (sv_loops (sourceSettled id 0 os_answer os_inputs os_called)) 0 \<noteq> None" by code_simp
  note 2 = rtranclp.rtrancl_into_rtrancl [OF 1 answer [OF this, where outcome = os_answer and inp = os_inputs]]
  have "resumable (sourceSettled id 0 os_answer os_inputs (sourceSettled id 0 os_answer os_inputs os_called)) 0" by code_simp
  note 3 = rtranclp.rtrancl_into_rtrancl [OF 2 resume [OF this, of id 9 9]]
  have "resumable (resumeCall id 0 9 9 (sourceSettled id 0 os_answer os_inputs (sourceSettled id 0 os_answer os_inputs os_called))) 1"
    by code_simp
  from rtranclp.rtrancl_into_rtrancl [OF 3 resume [OF this, of id 9 9]]
  show ?thesis unfolding os_resumed_def os_answered_def .
qed

lemma os_run: "(service_step id)\<^sup>*\<^sup>* os_service os_resumed" "(service_step id)\<^sup>*\<^sup>* os_service os_stopped"
proof -
  have "(service_step id)\<^sup>*\<^sup>* os_called os_resumed"
    using os_work mono_rtranclp [of "service_work id" "service_step id"] work by blast
  with os_called_run show run: "(service_step id)\<^sup>*\<^sup>* os_service os_resumed" by (rule rtranclp_trans)
  show "(service_step id)\<^sup>*\<^sup>* os_service os_stopped"
    unfolding os_stopped_def by (rule rtranclp.rtrancl_into_rtrancl [OF run stops])
qed

lemma os_pending: "{slug. st_pendingRequest (getRefreshState os_called slug) \<noteq> None} = {''a''}"
proof -
  have keys: "map fst (sv_refreshStates os_called) = [''a'']" by code_simp
  have "st_pendingRequest (getRefreshState os_called ''a'') \<noteq> None" by code_simp
  moreover have "getRefreshState os_called slug = idle_refresh" if "slug \<noteq> ''a''" for slug
  proof -
    have "slug \<notin> set (map fst (sv_refreshStates os_called))" unfolding keys using that by simp
    then have "map_of (sv_refreshStates os_called) slug = None" by (simp add: map_of_eq_None_iff)
    then show ?thesis by (simp add: getRefreshState_def)
  qed
  ultimately have "st_pendingRequest (getRefreshState os_called slug) \<noteq> None \<longleftrightarrow> slug = ''a''" for slug
    by (cases "slug = ''a''") simp_all
  then show ?thesis by simp
qed

theorem one_fetch_per_collection_witness:
  "map (\<lambda>(_, l). loop_slug l) (sv_loops os_called) = [''a''] \<and>
   last_report (sv_events os_called) = Some (1, 1, 1)"
proof -
  have "map (\<lambda>(_, l). loop_slug l) (sv_loops os_called) = [''a'']" "length (sv_loops os_called) = 1" "length (sv_watched os_called) = 1"
    "st_pendingRequest (getRefreshState os_called ''a'') \<noteq> None" by code_simp+
  with one_fetch_per_collection [OF os_initial os_called_run] show ?thesis unfolding os_pending by simp
qed

theorem forced_refresh_is_served_by_a_later_fetch_witness:
  "\<exists>snapshot. getSnapshot os_resumed ''a'' = Some snapshot \<and> me_complete (os_metrics snapshot) \<and> 1 < sv_stored os_resumed ''a''"
proof -
  let ?c = "sv_calls os_resumed ! 1"
  have "length (sv_calls os_resumed) = 2" by code_simp
  then have c: "?c \<in> set (sv_calls os_resumed)" by simp
  have p: "call_promise ?c = Some 0" by code_simp
  have "\<not> sv_stopped os_resumed" "\<not> call_respectTtl ?c" "call_point ?c = Settled (Inr ())" by code_simp+
  from forced_refresh_is_served_by_a_later_fetch [OF os_initial os_run(1) this(1) c this(2) p this(3)]
  have "\<exists>snapshot. getSnapshot os_resumed (call_slug ?c) = Some snapshot \<and> me_complete (os_metrics snapshot) \<and>
    call_fetches ?c < sv_stored os_resumed (call_slug ?c)" by blast
  moreover have "call_slug ?c = ''a''" "call_fetches ?c = 1" by code_simp+
  ultimately show ?thesis by simp
qed

theorem stopped_service_fetches_nothing_witness:
  "sv_fetches (refreshAndWait id ''a'' ''late'' False 20 20 os_stopped) = sv_fetches os_stopped \<and>
   sv_loops (refreshAndWait id ''a'' ''late'' False 20 20 os_stopped) = []"
proof -
  have "sv_stopped os_stopped" "stopResolved os_stopped" by code_simp+
  moreover have "(service_step id)\<^sup>*\<^sup>* os_stopped (refreshAndWait id ''a'' ''late'' False 20 20 os_stopped)"
    by (rule r_into_rtranclp) (rule call)
  ultimately show ?thesis using stopped_service_fetches_nothing [OF os_initial os_run(2)] by blast
qed

theorem refresh_calls_are_answered_witness:
  "load os_called = 4 \<and> sv_loops os_resumed = []"
proof -
  have no: "\<nexists>S. service_work id os_resumed S"
  proof
    assume "\<exists>S. service_work id os_resumed S"
    then show False
    proof (elim exE service_work.cases, goal_cases)
      case (1 S S1 p)
      have "sv_loops os_resumed = []" by code_simp
      with 1 show ?case by simp
    next
      case (2 S S1 i)
      have "length (sv_calls os_resumed) = 2" "\<not> resumable os_resumed 0" "\<not> resumable os_resumed 1" by code_simp+
      with 2 show ?case by (auto simp: resumable_def less_2_cases_iff)
    qed
  qed
  have "calls_load os_called = 2" "map fst (sv_loops os_called) = [0]" by code_simp+
  then have "load os_called = 4"
    using os_pending by (simp add: load_def pending_slugs_def getRefreshState_eq dom_map_of_conv_image_fst flip: set_map)
  with refresh_calls_are_answered [OF os_initial os_called_run] os_work no show ?thesis by blast
qed

theorem reconciled_collections_are_polled_witness:
  "set (sv_watched (snd (reconcileWatchedCollections [''b'', ''c'', ''b''] os_resumed))) = {''b'', ''c''} \<and>
   fst (reconcileWatchedCollections [''b'', ''c'', ''b''] os_resumed) = (2, 1)"
proof -
  define R where "R = reconcileWatchedCollections [''b'', ''c'', ''b''] os_resumed"
  have "fst R = (2, 1)" unfolding R_def by code_simp
  then have "reconcileWatchedCollections [''b'', ''c'', ''b''] os_resumed = ((2, 1), snd R)" by (simp add: R_def prod_eq_iff)
  from reconciled_collections_are_polled [OF os_initial os_run(1) this] \<open>fst R = (2, 1)\<close> show ?thesis by (auto simp: R_def)
qed

theorem failure_backoff_is_bounded_witness:
  "min (sv_refreshMaxTtlMs os_resumed) 4000 \<le> failureBackoffMs id os_resumed 3 (1 / 2) \<and>
   failureBackoffMs id os_resumed 3 (1 / 2) \<le> sv_refreshMaxTtlMs os_resumed"
proof -
  have "sv_refreshTtlMs os_resumed = 1000" by code_simp
  with failure_backoff_is_bounded [of id os_resumed 3 "1 / 2"] show ?thesis by (simp add: mono_def)
qed

end
