(* ===== verification/Chain_Headers.thy ===== *)
theory Chain_Headers
  imports Prelude "HOL-Library.AList"
begin

text \<open>
  Block headers of the indexer: validation of a set of headers
  (\<^verbatim>\<open>indexer/src/domain/sync-result.ts\<close>), reading a canonical window from an RPC provider
  (\<^verbatim>\<open>indexer/src/application/sync-blocks.ts\<close>), and the proof of a common ancestor after a
  reorganisation (\<^verbatim>\<open>indexer/src/domain/reorg-fork.ts\<close>,
  \<^verbatim>\<open>indexer/src/application/reorg-fork.ts\<close>).

  Block numbers, revisions and timestamps are integral \<open>number\<close>s, here \<^typ>\<open>int\<close>; the safe-integer
  test is written out.  The provider is a function of the block numbers requested so far, so it may
  answer the same request differently at different times: the chain may be reorganised between calls.
\<close>

section \<open>Headers\<close>

record ChainSyncCheckpoint =
  cp_chainId :: int
  cp_revision :: int

record SyncBlockHeader =
  hdr_number :: int
  hdr_hash :: string
  hdr_parentHash :: string
  hdr_timestamp :: int

record VerifiedChainBlock = SyncBlockHeader +
  vb_chainId :: int

text \<open>
  The messages of \<open>ChainSyncConflict\<close> and of the other errors that the chain synchronisation
  throws, and a failed RPC call.
\<close>

datatype sync_error =
    InvalidBlockNumber
  | ConflictingHeaders int
  | BrokenParentLink int
  | WrongBlock
  | RangeChanged
  | IncompleteWindow
  | OutsideWindow
  | RpcFailure string
  | FactMismatch int
  | RangeNotCovered
  | StaleCheckpoint
  | StoredBlockHashConflict int string string
  | InvalidCheckPolicy
  | CheckChainMismatch
  | HistoryChanged
  | InvalidRollbackBlock
  | AnchorCrossed int
  | SnapshotWrongBlock
  | ForkNotPersisted
  | TokenScopeChanged
  | FactsFailure string
  | HeadBehindFork
  | MismatchOutdated
  | CheckNotPending
  | RevisionChanged
  | RecoveryChanged
  | PlanMismatch
  | ContinuationMismatch
  | IncompleteRange

definition safe_integer :: "int \<Rightarrow> bool" where
  "safe_integer i \<longleftrightarrow> \<bar>i\<bar> \<le> max_safe_integer"

definition automaticGapUpperBound :: "int \<Rightarrow> int \<Rightarrow> int" where
  "automaticGapUpperBound head reorgDepth = max 0 (head - reorgDepth)"

definition realtimeWindowStart :: "int \<Rightarrow> int \<Rightarrow> int" where
  "realtimeWindowStart head reorgDepth = max 1 (head - reorgDepth + 1)"

definition canonicalCheckUpperBound :: "int \<Rightarrow> int \<Rightarrow> int" where
  "canonicalCheckUpperBound head reorgDepth = max 0 (head - reorgDepth + 1)"

text \<open>
  The \<open>Map\<close> of the source keeps the position of a key that is set again, as \<^const>\<open>AList.update\<close>
  does.
\<close>

fun collectHeaders ::
  "(int \<times> SyncBlockHeader) list \<Rightarrow> SyncBlockHeader list \<Rightarrow> sync_error + (int \<times> SyncBlockHeader) list"
where
  "collectHeaders m [] = Inr m"
| "collectHeaders m (b # bs) =
     (if \<not> safe_integer (hdr_number b) \<or> hdr_number b < 0 then Inl InvalidBlockNumber
      else if (case map_of m (hdr_number b) of None \<Rightarrow> False
               | Some p \<Rightarrow> hdr_hash p \<noteq> hdr_hash b \<or> hdr_parentHash p \<noteq> hdr_parentHash b
                            \<or> hdr_timestamp p \<noteq> hdr_timestamp b)
      then Inl (ConflictingHeaders (hdr_number b))
      else collectHeaders (AList.update (hdr_number b) b m) bs)"

fun checkParentLinks :: "(int \<times> SyncBlockHeader) list \<Rightarrow> SyncBlockHeader list \<Rightarrow> sync_error + unit" where
  "checkParentLinks m [] = Inr ()"
| "checkParentLinks m (b # bs) =
     (if (case map_of m (hdr_number b - 1) of None \<Rightarrow> False
          | Some p \<Rightarrow> hdr_parentHash b \<noteq> hdr_hash p)
      then Inl (BrokenParentLink (hdr_number b))
      else checkParentLinks m bs)"

definition assertSyncBlockHeaders :: "SyncBlockHeader list \<Rightarrow> sync_error + unit" where
  "assertSyncBlockHeaders blocks =
     bindR (collectHeaders [] blocks) (\<lambda>m. checkParentLinks m (map snd m))"

definition covers_range :: "SyncBlockHeader list \<Rightarrow> int \<Rightarrow> int \<Rightarrow> bool" where
  "covers_range blocks fromBlock toBlock \<longleftrightarrow>
     int (length blocks) = toBlock - fromBlock + 1 \<and>
     (\<forall>i < length blocks. hdr_number (blocks ! i) = fromBlock + int i)"

section \<open>Reading a window\<close>

type_synonym Rpc = "int list \<Rightarrow> sync_error + SyncBlockHeader"

text \<open>\<open>getBlocks rpc calls n to\<close> is the loop of \<open>fetchCanonicalSyncBlocks\<close> from block \<open>n\<close> on.\<close>

function getBlocks :: "Rpc \<Rightarrow> int list \<Rightarrow> int \<Rightarrow> int \<Rightarrow> sync_error + SyncBlockHeader list" where
  "getBlocks rpc calls n toBlock =
     (if n \<le> toBlock
      then bindR (rpc (calls @ [n])) (\<lambda>block.
             if hdr_number block \<noteq> n then Inl WrongBlock
             else bindR (getBlocks rpc (calls @ [n]) (n + 1) toBlock) (\<lambda>blocks. Inr (block # blocks)))
      else Inr [])"
  by auto
termination
  by (relation "measure (\<lambda>(rpc, calls, n, toBlock). nat (toBlock - n + 1))") auto

declare getBlocks.simps [simp del]

definition fetchCanonicalSyncBlocks :: "Rpc \<Rightarrow> int \<Rightarrow> int \<Rightarrow> sync_error + SyncBlockHeader list" where
  "fetchCanonicalSyncBlocks rpc fromBlock toBlock =
     bindR (getBlocks rpc [] fromBlock toBlock) (\<lambda>blocks.
     bindR (assertSyncBlockHeaders blocks) (\<lambda>_.
       if blocks = [] then Inr blocks
       else let tip = last blocks in
         bindR (rpc ([fromBlock..toBlock] @ [hdr_number tip])) (\<lambda>current.
           if hdr_number current \<noteq> hdr_number tip \<or> hdr_hash current \<noteq> hdr_hash tip
           then Inl RangeChanged else Inr blocks)))"

section \<open>The common ancestor\<close>

record ReorgHistorySnapshot =
  hist_checkpoint :: ChainSyncCheckpoint
  hist_fromBlock :: int
  hist_toBlock :: int
  hist_headers :: "SyncBlockHeader list"

record ReorgAncestorProof =
  prf_fork :: VerifiedChainBlock
  prf_history :: ReorgHistorySnapshot

text \<open>\<open>new Map(blocks.map((block) => [block.number, block]))\<close>: a later entry replaces an earlier one.\<close>

definition canonicalMap :: "SyncBlockHeader list \<Rightarrow> int \<Rightarrow> SyncBlockHeader option" where
  "canonicalMap blocks = map_of (rev (map (\<lambda>b. (hdr_number b, b)) blocks))"

fun firstDivergence ::
  "(int \<Rightarrow> SyncBlockHeader option) \<Rightarrow> int \<Rightarrow> SyncBlockHeader list \<Rightarrow> sync_error + int"
where
  "firstDivergence canonical d [] = Inr d"
| "firstDivergence canonical d (stored # rest) =
     (case canonical (hdr_number stored) of
        None \<Rightarrow> Inl OutsideWindow
      | Some current \<Rightarrow>
          let d1 = (if hdr_hash stored \<noteq> hdr_hash current \<or> hdr_timestamp stored \<noteq> hdr_timestamp current
                    then min d (hdr_number stored) else d);
              d2 = (if hdr_number stored > 0 \<and> hdr_parentHash stored \<noteq> hdr_parentHash current
                    then min d1 (hdr_number stored - 1) else d1)
          in firstDivergence canonical d2 rest)"

text \<open>
  The second loop.  A stored header outside of the window has already made the first loop throw.
\<close>

fun selectFork ::
  "(int \<Rightarrow> SyncBlockHeader option) \<Rightarrow> int \<Rightarrow> SyncBlockHeader option \<Rightarrow> SyncBlockHeader list
    \<Rightarrow> SyncBlockHeader option"
where
  "selectFork canonical d fork [] = fork"
| "selectFork canonical d fork (stored # rest) =
     (case canonical (hdr_number stored) of
        None \<Rightarrow> selectFork canonical d fork rest
      | Some current \<Rightarrow>
          selectFork canonical d
            (if hdr_number stored < d \<and> hdr_hash stored = hdr_hash current
                \<and> hdr_parentHash stored = hdr_parentHash current
                \<and> hdr_timestamp stored = hdr_timestamp current
                \<and> (case fork of None \<Rightarrow> True | Some f \<Rightarrow> hdr_number stored > hdr_number f)
             then Some current else fork) rest)"

definition verified_block :: "int \<Rightarrow> SyncBlockHeader \<Rightarrow> VerifiedChainBlock" where
  "verified_block chainId b =
     \<lparr> hdr_number = hdr_number b, hdr_hash = hdr_hash b, hdr_parentHash = hdr_parentHash b,
       hdr_timestamp = hdr_timestamp b, vb_chainId = chainId \<rparr>"

definition proveReorgAncestor ::
  "ReorgHistorySnapshot \<Rightarrow> SyncBlockHeader list \<Rightarrow> sync_error + ReorgAncestorProof option"
where
  "proveReorgAncestor history canonicalBlocks =
     bindR (assertSyncBlockHeaders canonicalBlocks) (\<lambda>_.
       if \<not> covers_range canonicalBlocks (hist_fromBlock history) (hist_toBlock history)
       then Inl IncompleteWindow
       else
         let canonical = canonicalMap canonicalBlocks in
         bindR (firstDivergence canonical (hist_toBlock history) (hist_headers history)) (\<lambda>d.
           Inr (case selectFork canonical d None (hist_headers history) of
                  None \<Rightarrow> None
                | Some fork \<Rightarrow>
                    Some \<lparr> prf_fork = verified_block (cp_chainId (hist_checkpoint history)) fork,
                           prf_history = history \<rparr>)))"

definition findCommonAncestor ::
  "Rpc \<Rightarrow> (int \<Rightarrow> int \<Rightarrow> int \<Rightarrow> ReorgHistorySnapshot) \<Rightarrow> int \<Rightarrow> int \<Rightarrow> int
    \<Rightarrow> sync_error + ReorgAncestorProof option"
where
  "findCommonAncestor rpc captureReorgHistory chainId startBlock reorgDepth =
     (let minBlock = max 0 (startBlock - max 1 reorgDepth);
          history = captureReorgHistory chainId minBlock startBlock
      in if hist_headers history = [] then Inr None
         else bindR (fetchCanonicalSyncBlocks rpc minBlock startBlock)
                (\<lambda>canonicalBlocks. proveReorgAncestor history canonicalBlocks))"


section \<open>What the validation accepts\<close>

text \<open>
  Headers of one chain: valid numbers, one header per number, and adjacent headers linked by the
  parent hash.
\<close>

definition linked_headers :: "SyncBlockHeader list \<Rightarrow> bool" where
  "linked_headers blocks \<longleftrightarrow>
     (\<forall>b \<in> set blocks. safe_integer (hdr_number b) \<and> 0 \<le> hdr_number b) \<and>
     (\<forall>a \<in> set blocks. \<forall>b \<in> set blocks. hdr_number a = hdr_number b \<longrightarrow> a = b) \<and>
     (\<forall>a \<in> set blocks. \<forall>b \<in> set blocks.
        hdr_number b = hdr_number a + 1 \<longrightarrow> hdr_parentHash b = hdr_hash a)"

text \<open>The map that the first loop builds holds each header under its number.\<close>

definition header_index :: "(int \<times> SyncBlockHeader) list \<Rightarrow> bool" where
  "header_index m \<longleftrightarrow> distinct (map fst m) \<and> (\<forall>(n, b) \<in> set m. n = hdr_number b)"

lemma header_eq_iff:
  "(a :: SyncBlockHeader) = b \<longleftrightarrow>
     hdr_number a = hdr_number b \<and> hdr_hash a = hdr_hash b \<and> hdr_parentHash a = hdr_parentHash b
     \<and> hdr_timestamp a = hdr_timestamp b"
  by auto

lemma header_index_lookup:
  "header_index m \<Longrightarrow> map_of m n = Some b \<longleftrightarrow> b \<in> snd ` set m \<and> n = hdr_number b"
  by (force simp: header_index_def)

lemma header_index_update:
  assumes "header_index m" and "\<And>p. map_of m (hdr_number b) = Some p \<Longrightarrow> p = b"
  shows "header_index (AList.update (hdr_number b) b m) \<and>
         snd ` set (AList.update (hdr_number b) b m) = insert b (snd ` set m)"
  using assms
proof (induction m)
  case (Cons x m)
  obtain n c where x: "x = (n, c)" by (cases x)
  show ?case
  proof (cases "n = hdr_number b")
    case True
    with Cons.prems(2) [of c] x have "c = b" by simp
    with True x have "AList.update (hdr_number b) b (x # m) = x # m" by simp
    with Cons.prems(1) x \<open>c = b\<close> show ?thesis by auto
  next
    case False
    with Cons.prems x have "header_index m" "\<And>p. map_of m (hdr_number b) = Some p \<Longrightarrow> p = b"
      by (auto simp: header_index_def)
    with Cons.IH have IH: "header_index (AList.update (hdr_number b) b m)"
      "snd ` set (AList.update (hdr_number b) b m) = insert b (snd ` set m)" by auto
    have "fst ` set (AList.update (hdr_number b) b m) = insert (hdr_number b) (fst ` set m)"
      by (simp add: dom_update)
    with IH False Cons.prems(1) x show ?thesis
      by (auto simp: header_index_def)
  qed
qed (simp add: header_index_def)

lemma collectHeaders_Inr:
  assumes "header_index m" and "collectHeaders m bs = Inr m'"
  shows "header_index m' \<and> snd ` set m' = snd ` set m \<union> set bs \<and>
         (\<forall>b \<in> set bs. safe_integer (hdr_number b) \<and> 0 \<le> hdr_number b)"
  using assms
proof (induction m bs rule: collectHeaders.induct)
  case (2 m b bs)
  from 2(3) have ok: "safe_integer (hdr_number b)" "0 \<le> hdr_number b"
    and rest: "collectHeaders (AList.update (hdr_number b) b m) bs = Inr m'"
    by (auto split: if_splits)
  have same: "p = b" if "map_of m (hdr_number b) = Some p" for p
    using 2(3) that header_index_lookup [OF 2(2), of "hdr_number b" p]
    by (auto simp: header_eq_iff split: if_splits)
  let ?m = "AList.update (hdr_number b) b m"
  from header_index_update [OF 2(2) same]
  have upd: "header_index ?m" "snd ` set ?m = insert b (snd ` set m)" by auto
  from ok 2(3) 2(1) [OF _ _ upd(1) rest] upd(2) show ?case
    by (auto split: if_splits)
qed simp

lemma collectHeaders_total:
  assumes "header_index m" and "\<forall>b \<in> set bs. safe_integer (hdr_number b) \<and> 0 \<le> hdr_number b"
    and "\<forall>a \<in> snd ` set m \<union> set bs. \<forall>b \<in> snd ` set m \<union> set bs. hdr_number a = hdr_number b \<longrightarrow> a = b"
  shows "\<exists>m'. collectHeaders m bs = Inr m'"
  using assms
proof (induction bs arbitrary: m)
  case (Cons b bs)
  have same: "p = b" if "map_of m (hdr_number b) = Some p" for p
    using that Cons.prems(3) header_index_lookup [OF Cons.prems(1)]
    by (metis UnI1 UnI2 list.set_intros(1))
  let ?m = "AList.update (hdr_number b) b m"
  from header_index_update [OF Cons.prems(1) same]
  have upd: "header_index ?m" "snd ` set ?m \<union> set bs = snd ` set m \<union> set (b # bs)" by auto
  have "\<exists>m'. collectHeaders ?m bs = Inr m'"
    by (rule Cons.IH [OF upd(1)], use Cons.prems(2) in simp, use Cons.prems(3) upd(2) in presburger)
  then show ?case using Cons.prems(2) same by (auto split: option.splits)
qed simp

lemma checkParentLinks_Inr_iff:
  "checkParentLinks m bs = Inr u \<longleftrightarrow>
     (\<forall>b \<in> set bs. \<forall>p. map_of m (hdr_number b - 1) = Some p \<longrightarrow> hdr_parentHash b = hdr_hash p)"
  by (induction bs) (auto split: option.splits)

lemma assertSyncBlockHeaders_iff:
  "assertSyncBlockHeaders bs = Inr u \<longleftrightarrow> linked_headers bs"
proof
  assume "assertSyncBlockHeaders bs = Inr u"
  then obtain m where m: "collectHeaders [] bs = Inr m" "checkParentLinks m (map snd m) = Inr u"
    by (auto simp: assertSyncBlockHeaders_def bindR_Inr_iff)
  from collectHeaders_Inr [OF _ m(1)] have idx: "header_index m" "snd ` set m = set bs"
    and ok: "\<forall>b \<in> set bs. safe_integer (hdr_number b) \<and> 0 \<le> hdr_number b"
    by (auto simp: header_index_def)
  have uniq: "a = b" if "a \<in> set bs" "b \<in> set bs" "hdr_number a = hdr_number b" for a b
    using header_index_lookup [OF idx(1), of "hdr_number a"] idx(2) that by (metis option.inject)
  have "hdr_parentHash b = hdr_hash a" if "a \<in> set bs" "b \<in> set bs" "hdr_number b = hdr_number a + 1" for a b
    using m(2) that idx header_index_lookup [OF idx(1), of "hdr_number a"]
    by (auto simp: checkParentLinks_Inr_iff)
  with uniq ok show "linked_headers bs" by (simp add: linked_headers_def)
next
  assume linked: "linked_headers bs"
  then have "\<exists>m. collectHeaders [] bs = Inr m"
    by (intro collectHeaders_total) (auto simp: linked_headers_def header_index_def)
  then obtain m where m: "collectHeaders [] bs = Inr m" by blast
  from collectHeaders_Inr [OF _ m] have idx: "header_index m" "snd ` set m = set bs"
    by (auto simp: header_index_def)
  have "checkParentLinks m (map snd m) = Inr u"
    using linked idx header_index_lookup [OF idx(1)]
    by (auto simp: checkParentLinks_Inr_iff linked_headers_def)
  with m show "assertSyncBlockHeaders bs = Inr u" by (simp add: assertSyncBlockHeaders_def)
qed

lemma covers_range_numbers: "covers_range bs f t \<Longrightarrow> map hdr_number bs = [f..t]"
  by (auto simp: covers_range_def list_eq_iff_nth_eq)


section \<open>A fetched window belongs to one chain\<close>

lemma getBlocks_Inr:
  assumes "getBlocks rpc calls n t = Inr bs"
  shows "map hdr_number bs = [n..t] \<and> (\<forall>i < length bs. rpc (calls @ [n..n + int i]) = Inr (bs ! i))"
  using assms
proof (induction rpc calls n t arbitrary: bs rule: getBlocks.induct)
  case (1 rpc calls n t)
  show ?case
  proof (cases "n \<le> t")
    case True
    with 1(2) obtain b cs where b: "rpc (calls @ [n]) = Inr b" "hdr_number b = n"
      and cs: "getBlocks rpc (calls @ [n]) (n + 1) t = Inr cs" "bs = b # cs"
      by (auto simp: getBlocks.simps [of rpc calls n t] bindR_Inr_iff split: if_splits)
    from 1(1) [OF True _ cs(1), of b] b(2)
    have IH: "map hdr_number cs = [n + 1..t]"
      "\<forall>i < length cs. rpc ((calls @ [n]) @ [n + 1..n + 1 + int i]) = Inr (cs ! i)" by auto
    have "rpc (calls @ [n..n + int i]) = Inr (bs ! i)" if "i < length bs" for i
    proof (cases i)
      case (Suc j)
      then have "[n..n + int i] = n # [n + 1..n + 1 + int j]" by (simp add: upto_rec1 algebra_simps)
      with IH(2) Suc that cs(2) show ?thesis by simp
    qed (use b cs in simp)
    with IH b cs True show ?thesis by (simp add: upto_rec1)
  next
    case False
    with 1(2) show ?thesis by (simp add: getBlocks.simps [of rpc calls n t])
  qed
qed

lemma numbers_nth:
  assumes "map hdr_number bs = [f..t]" and "i < length bs"
  shows "hdr_number (bs ! i) = f + int i"
proof -
  have "hdr_number (bs ! i) = [f..t] ! i" using assms by (metis nth_map)
  moreover have "i < nat (t - f + 1)" using assms by (metis length_map length_upto)
  then have "f + int i \<le> t" by linarith
  ultimately show ?thesis by (simp add: nth_upto)
qed

lemma numbers_length: "map hdr_number bs = [f..t] \<Longrightarrow> length bs = nat (t - f + 1)"
  by (metis length_map length_upto)

lemma numbers_covers:
  assumes "map hdr_number bs = [f..t]" and "f \<le> t + 1"
  shows "covers_range bs f t"
  using numbers_nth [OF assms(1)] numbers_length [OF assms(1)] assms(2) by (simp add: covers_range_def)

lemma fetch_Inr:
  assumes "fetchCanonicalSyncBlocks rpc f t = Inr bs"
  shows "map hdr_number bs = [f..t]" and "linked_headers bs"
    and "\<And>i. i < length bs \<Longrightarrow> rpc [f..f + int i] = Inr (bs ! i)"
    and "bs \<noteq> [] \<Longrightarrow> \<exists>c. rpc ([f..t] @ [t]) = Inr c \<and> hdr_number c = t \<and> hdr_hash c = hdr_hash (last bs)"
proof -
  from assms have g: "getBlocks rpc [] f t = Inr bs" and "linked_headers bs"
    and tip: "bs \<noteq> [] \<Longrightarrow> \<exists>c. rpc ([f..t] @ [hdr_number (last bs)]) = Inr c
                \<and> hdr_number c = hdr_number (last bs) \<and> hdr_hash c = hdr_hash (last bs)"
    by (auto simp: fetchCanonicalSyncBlocks_def bindR_Inr_iff assertSyncBlockHeaders_iff Let_def
        split: if_splits)
  from getBlocks_Inr [OF g] show nums: "map hdr_number bs = [f..t]"
    and "\<And>i. i < length bs \<Longrightarrow> rpc [f..f + int i] = Inr (bs ! i)" by auto
  show "linked_headers bs" by fact
  show "\<exists>c. rpc ([f..t] @ [t]) = Inr c \<and> hdr_number c = t \<and> hdr_hash c = hdr_hash (last bs)"
    if "bs \<noteq> []"
  proof -
    from that nums have "f \<le> t" by (metis Nil_is_map_conv upto_Nil linorder_not_le)
    with nums that have "hdr_number (last bs) = t"
      by (metis last_map last_snoc upto_rec2)
    with tip [OF that] show ?thesis by simp
  qed
qed

text \<open>
  A chain under reorganisation: \<open>C k n\<close> is the block at height \<open>n\<close> of the chain that is canonical
  when the \<open>k\<close>th request is answered.  Blocks are linked by their parent hashes and a hash identifies
  a block.
\<close>

definition reorganising_chain :: "(nat \<Rightarrow> int \<Rightarrow> SyncBlockHeader) \<Rightarrow> bool" where
  "reorganising_chain C \<longleftrightarrow>
     (\<forall>k n. hdr_parentHash (C k (n + 1)) = hdr_hash (C k n)) \<and>
     (\<forall>k l m n. hdr_hash (C k m) = hdr_hash (C l n) \<longrightarrow> C k m = C l n)"

definition answers_from :: "(nat \<Rightarrow> int \<Rightarrow> SyncBlockHeader) \<Rightarrow> Rpc \<Rightarrow> bool" where
  "answers_from C rpc \<longleftrightarrow>
     (\<forall>calls b. calls \<noteq> [] \<longrightarrow> rpc calls = Inr b \<longrightarrow> b = C (length calls) (last calls))"

lemma fetched_block_on_final_chain:
  assumes chain: "reorganising_chain C" and rpc: "answers_from C rpc"
    and fetched: "fetchCanonicalSyncBlocks rpc f t = Inr bs" and "j < length bs"
  shows "bs ! (length bs - 1 - j) = C (Suc (length bs)) (t - int j)"
  using \<open>j < length bs\<close>
proof (induction j)
  note fetch = fetch_Inr [OF fetched]
  note nth = numbers_nth [OF fetch(1)]
  note len = numbers_length [OF fetch(1)]
  have at: "bs ! i = C (Suc i) (f + int i)" if "i < length bs" for i
  proof -
    have "bs ! i = C (length [f..f + int i]) (last [f..f + int i])"
      using rpc fetch(3) [OF that] unfolding answers_from_def by (metis add_increasing2
          le_add_same_cancel1 not_less of_nat_0_le_iff upto_Nil2)
    moreover have "last [f..f + int i] = f + int i" by (simp add: upto_rec2)
    ultimately show ?thesis by (simp add: nat_add_distrib)
  qed
  {
    case 0
    then obtain c where c: "rpc ([f..t] @ [t]) = Inr c" "hdr_hash c = hdr_hash (last bs)"
      using fetch(4) by fastforce
    from rpc c(1) have "c = C (length ([f..t] @ [t])) (last ([f..t] @ [t]))"
      unfolding answers_from_def by blast
    then have "c = C (Suc (length bs)) t" by (simp add: len)
    moreover have "last bs = C (length bs) t"
    proof -
      have "f + int (length bs - 1) = t" using 0 len by linarith
      moreover from 0 have "bs \<noteq> []" by auto
      ultimately show ?thesis using at [of "length bs - 1"] 0 by (simp add: last_conv_nth)
    qed
    ultimately have "last bs = c" using chain c(2) unfolding reorganising_chain_def by metis
    moreover from 0 have "bs \<noteq> []" by auto
    ultimately show ?case using \<open>c = C (Suc (length bs)) t\<close> by (simp add: last_conv_nth)
  next
    case (Suc j)
    let ?i = "length bs - 1 - Suc j"
    have i: "Suc ?i = length bs - 1 - j" "Suc ?i < length bs" using Suc.prems by auto
    have up: "bs ! Suc ?i = C (Suc (length bs)) (t - int j)" using Suc i by simp
    have "hdr_number (bs ! Suc ?i) = hdr_number (bs ! ?i) + 1" using nth i(2) by simp
    with fetch(2) i(2) have "hdr_parentHash (bs ! Suc ?i) = hdr_hash (bs ! ?i)"
      by (simp add: linked_headers_def)
    moreover have "hdr_parentHash (C (Suc (length bs)) (t - int j)) = hdr_hash (C (Suc (length bs)) (t - int (Suc j)))"
      using chain by (metis (no_types, lifting) reorganising_chain_def add_diff_cancel_right'
          diff_diff_eq2 of_nat_Suc add.commute diff_add_eq_diff_diff_swap diff_add_cancel)
    ultimately have "hdr_hash (bs ! ?i) = hdr_hash (C (Suc (length bs)) (t - int (Suc j)))"
      using up by simp
    moreover have "bs ! ?i = C (Suc ?i) (f + int ?i)" using at i(2) by simp
    ultimately show ?case using chain unfolding reorganising_chain_def by metis
  }
qed

text \<open>
  Whatever reorganisations happen while the headers of a window are read one by one, a read that
  succeeds returns the blocks of one chain, the one that is canonical at the last request: the
  parent links and the second read of the tip rule out every mixture.
\<close>

theorem fetched_window_is_one_chain:
  assumes "reorganising_chain C" and "answers_from C rpc"
    and "fetchCanonicalSyncBlocks rpc f t = Inr bs"
  shows "bs = map (C (Suc (length bs))) [f..t]"
proof (rule nth_equalityI)
  note fetch = fetch_Inr [OF assms(3)]
  note len = numbers_length [OF fetch(1)]
  then show "length bs = length (map (C (Suc (length bs))) [f..t])" by simp
  fix i assume i: "i < length bs"
  from fetched_block_on_final_chain [OF assms, of "length bs - 1 - i"] i len
  have "bs ! i = C (Suc (length bs)) (f + int i)" by (simp add: of_nat_diff algebra_simps)
  with i len show "bs ! i = map (C (Suc (length bs))) [f..t] ! i" by simp
qed


section \<open>Correctness of the ancestor proof\<close>

text \<open>
  A common ancestor, stated without the loops: a stored header that is canonical, below the checked
  block, such that every stored header up to it agrees with the canonical block at its height, and no
  stored header up to its child names another parent.
\<close>

definition common_ancestor :: "ReorgHistorySnapshot \<Rightarrow> SyncBlockHeader list \<Rightarrow> SyncBlockHeader \<Rightarrow> bool" where
  "common_ancestor history blocks b \<longleftrightarrow>
     b \<in> set (hist_headers history) \<and> b \<in> set blocks \<and> hdr_number b < hist_toBlock history \<and>
     (\<forall>s \<in> set (hist_headers history). \<forall>c \<in> set blocks. hdr_number c = hdr_number s \<longrightarrow>
        (hdr_number s \<le> hdr_number b \<longrightarrow> hdr_hash s = hdr_hash c \<and> hdr_timestamp s = hdr_timestamp c) \<and>
        (0 < hdr_number s \<and> hdr_number s \<le> hdr_number b + 1 \<longrightarrow> hdr_parentHash s = hdr_parentHash c))"

lemma linked_distinct_canonicalMap:
  assumes "linked_headers bs"
  shows "canonicalMap bs n = Some c \<longleftrightarrow> c \<in> set bs \<and> hdr_number c = n"
proof
  assume "canonicalMap bs n = Some c"
  then show "c \<in> set bs \<and> hdr_number c = n" by (auto simp: canonicalMap_def dest!: map_of_SomeD)
next
  assume c: "c \<in> set bs \<and> hdr_number c = n"
  then have "map_of (rev (map (\<lambda>b. (hdr_number b, b)) bs)) n \<noteq> None"
    by (auto simp: map_of_eq_None_iff image_image)
  then obtain c' where c': "canonicalMap bs n = Some c'" by (auto simp: canonicalMap_def)
  then have "c' \<in> set bs" "hdr_number c' = n" by (auto simp: canonicalMap_def dest!: map_of_SomeD)
  with c assms have "c' = c" unfolding linked_headers_def by blast
  with c' show "canonicalMap bs n = Some c" by simp
qed

text \<open>The first divergence is the least height at which some stored header contradicts the canonical chain.\<close>

definition contradicts_at :: "(int \<Rightarrow> SyncBlockHeader option) \<Rightarrow> SyncBlockHeader \<Rightarrow> int \<Rightarrow> bool" where
  "contradicts_at canonical s x \<longleftrightarrow>
     (\<exists>c. canonical (hdr_number s) = Some c \<and>
       ((hdr_hash s \<noteq> hdr_hash c \<or> hdr_timestamp s \<noteq> hdr_timestamp c) \<and> x = hdr_number s \<or>
        0 < hdr_number s \<and> hdr_parentHash s \<noteq> hdr_parentHash c \<and> x = hdr_number s - 1))"

lemma firstDivergence_less_iff:
  assumes "firstDivergence canonical d ss = Inr e"
  shows "n < e \<longleftrightarrow> n < d \<and> (\<forall>s \<in> set ss. \<forall>x. contradicts_at canonical s x \<longrightarrow> n < x)"
  using assms
proof (induction canonical d ss rule: firstDivergence.induct)
  case (2 canonical d s ss)
  then obtain c where c: "canonical (hdr_number s) = Some c" by (auto split: option.splits)
  let ?h = "hdr_hash s \<noteq> hdr_hash c \<or> hdr_timestamp s \<noteq> hdr_timestamp c"
  let ?p = "0 < hdr_number s \<and> hdr_parentHash s \<noteq> hdr_parentHash c"
  let ?d1 = "if ?h then min d (hdr_number s) else d"
  let ?d2 = "if ?p then min ?d1 (hdr_number s - 1) else ?d1"
  have "n < ?d2 \<longleftrightarrow> n < d \<and> (?h \<longrightarrow> n < hdr_number s) \<and> (?p \<longrightarrow> n < hdr_number s - 1)" by auto
  moreover have "(\<forall>x. contradicts_at canonical s x \<longrightarrow> n < x) \<longleftrightarrow>
      (?h \<longrightarrow> n < hdr_number s) \<and> (?p \<longrightarrow> n < hdr_number s - 1)"
    using c by (auto simp: contradicts_at_def)
  moreover have "firstDivergence canonical ?d2 ss = Inr e"
    using "2.prems" by (simp only: firstDivergence.simps c option.case Let_def)
  then have "n < e \<longleftrightarrow> n < ?d2 \<and> (\<forall>s \<in> set ss. \<forall>x. contradicts_at canonical s x \<longrightarrow> n < x)"
    by (rule "2.IH" [OF c refl refl])
  ultimately show ?case by auto
qed simp

lemma no_contradiction_up_to:
  assumes "\<And>n c. canonical n = Some c \<longleftrightarrow> c \<in> set blocks \<and> hdr_number c = n"
  shows "(\<forall>x. contradicts_at canonical s x \<longrightarrow> n < x) \<longleftrightarrow>
    (\<forall>c \<in> set blocks. hdr_number c = hdr_number s \<longrightarrow>
       (hdr_number s \<le> n \<longrightarrow> hdr_hash s = hdr_hash c \<and> hdr_timestamp s = hdr_timestamp c) \<and>
       (0 < hdr_number s \<and> hdr_number s \<le> n + 1 \<longrightarrow> hdr_parentHash s = hdr_parentHash c))"
    (is "?no = ?agree")
proof
  assume no: ?no
  show ?agree
  proof (intro ballI impI conjI)
    fix c assume c: "c \<in> set blocks" "hdr_number c = hdr_number s"
    show "hdr_hash s = hdr_hash c" "hdr_timestamp s = hdr_timestamp c" if "hdr_number s \<le> n"
      using no [rule_format, of "hdr_number s"] c that by (auto simp: contradicts_at_def assms)
    show "hdr_parentHash s = hdr_parentHash c" if "0 < hdr_number s \<and> hdr_number s \<le> n + 1"
      using no [rule_format, of "hdr_number s - 1"] c that by (auto simp: contradicts_at_def assms)
  qed
next
  assume ?agree
  then show ?no by (fastforce simp: contradicts_at_def assms)
qed

lemma firstDivergence_total:
  assumes "\<forall>s \<in> set ss. canonical (hdr_number s) \<noteq> None"
  shows "\<exists>e. firstDivergence canonical d ss = Inr e"
  using assms by (induction ss arbitrary: d) (auto simp: Let_def)

definition fork_candidate :: "(int \<Rightarrow> SyncBlockHeader option) \<Rightarrow> int \<Rightarrow> SyncBlockHeader \<Rightarrow> bool" where
  "fork_candidate canonical d s \<longleftrightarrow> canonical (hdr_number s) = Some s \<and> hdr_number s < d"

lemma selectFork_step:
  assumes "\<And>n c. canonical n = Some c \<Longrightarrow> hdr_number c = n"
  shows "selectFork canonical d fork (s # ss) =
    selectFork canonical d
      (if fork_candidate canonical d s \<and> (case fork of None \<Rightarrow> True | Some f \<Rightarrow> hdr_number f < hdr_number s)
       then Some s else fork) ss"
proof (cases "canonical (hdr_number s)")
  case (Some c)
  then have "s = c \<longleftrightarrow> hdr_hash s = hdr_hash c \<and> hdr_parentHash s = hdr_parentHash c
      \<and> hdr_timestamp s = hdr_timestamp c"
    using assms by (simp add: header_eq_iff)
  with Some show ?thesis by (auto simp: fork_candidate_def split: option.splits)
qed (simp add: fork_candidate_def)

lemma selectFork_greatest:
  assumes "\<And>n c. canonical n = Some c \<Longrightarrow> hdr_number c = n"
    and "selectFork canonical d fork ss = r"
  shows "(r = None \<longleftrightarrow> fork = None \<and> (\<forall>s \<in> set ss. \<not> fork_candidate canonical d s)) \<and>
    (\<forall>b. r = Some b \<longrightarrow> (fork = Some b \<or> b \<in> set ss \<and> fork_candidate canonical d b) \<and>
       (\<forall>f. fork = Some f \<longrightarrow> hdr_number f \<le> hdr_number b) \<and>
       (\<forall>s \<in> set ss. fork_candidate canonical d s \<longrightarrow> hdr_number s \<le> hdr_number b))"
  using assms(2)
proof (induction ss arbitrary: fork)
  case (Cons s ss)
  let ?fork = "if fork_candidate canonical d s \<and>
      (case fork of None \<Rightarrow> True | Some f \<Rightarrow> hdr_number f < hdr_number s) then Some s else fork"
  have "selectFork canonical d ?fork ss = r"
    using Cons.prems by (simp only: selectFork_step [OF assms(1)])
  from Cons.IH [OF this] show ?case
    by (cases fork) (auto split: if_splits)
qed auto

text \<open>
  C11. The proof of a reorganisation's fork is exact.  On a linked canonical window that contains all
  stored headers, the code finds the greatest common ancestor of the stored and the canonical
  headers, and finds none only if there is none: a canonical header stored above an orphaned
  one, or next to a missing block whose child names another parent, is never taken for the fork.
\<close>

theorem proven_fork_is_greatest_common_ancestor:
  assumes "linked_headers blocks"
    and "covers_range blocks (hist_fromBlock history) (hist_toBlock history)"
    and "\<forall>s \<in> set (hist_headers history).
           hist_fromBlock history \<le> hdr_number s \<and> hdr_number s \<le> hist_toBlock history"
  shows "\<exists>r. proveReorgAncestor history blocks = Inr r \<and>
    (case r of
       None \<Rightarrow> (\<forall>b. \<not> common_ancestor history blocks b)
     | Some p \<Rightarrow> prf_history p = history \<and>
         (\<exists>b. common_ancestor history blocks b \<and>
              prf_fork p = verified_block (cp_chainId (hist_checkpoint history)) b \<and>
              (\<forall>b'. common_ancestor history blocks b' \<longrightarrow> hdr_number b' \<le> hdr_number b)))"
proof -
  let ?can = "canonicalMap blocks" and ?ss = "hist_headers history"
  note can = linked_distinct_canonicalMap [OF assms(1)]
  have "?can (hdr_number s) \<noteq> None" if "s \<in> set ?ss" for s
  proof -
    from assms(3) that have "hdr_number s \<in> set (map hdr_number blocks)"
      by (simp add: covers_range_numbers [OF assms(2)])
    then show ?thesis using can by fastforce
  qed
  then obtain d where d: "firstDivergence ?can (hist_toBlock history) ?ss = Inr d"
    using firstDivergence_total by blast
  have anc: "common_ancestor history blocks b \<longleftrightarrow> b \<in> set ?ss \<and> fork_candidate ?can d b" for b
    unfolding common_ancestor_def fork_candidate_def firstDivergence_less_iff [OF d]
      no_contradiction_up_to [OF can] can by blast
  obtain r where r: "selectFork ?can d None ?ss = r" by simp
  from selectFork_greatest [OF _ r] can
  have *: "r = None \<longleftrightarrow> (\<forall>b. \<not> common_ancestor history blocks b)"
    "\<And>b. r = Some b \<Longrightarrow> common_ancestor history blocks b \<and>
            (\<forall>b'. common_ancestor history blocks b' \<longrightarrow> hdr_number b' \<le> hdr_number b)"
    by (auto simp: anc)
  have "proveReorgAncestor history blocks = Inr (case r of None \<Rightarrow> None | Some fork \<Rightarrow>
      Some \<lparr> prf_fork = verified_block (cp_chainId (hist_checkpoint history)) fork, prf_history = history \<rparr>)"
    using assms(1,2) d r assertSyncBlockHeaders_iff [of blocks "()"]
    by (simp add: proveReorgAncestor_def Let_def)
  with * show ?thesis by (cases r) auto
qed

section \<open>Sample chains\<close>

text \<open>
  A chain whose blocks from height 6 on are replaced after the first request, and the headers
  stored of a window: block 4 is orphaned, block 5 has been filled in since.
\<close>

definition sample_hash :: "bool \<Rightarrow> int \<Rightarrow> string" where
  "sample_hash v n =
     (if v then CHR ''x'' else CHR ''y'') # (if n < 0 then ''-'' else []) @ replicate (nat \<bar>n\<bar>) CHR ''a''"

definition sample_block :: "bool \<Rightarrow> bool \<Rightarrow> int \<Rightarrow> SyncBlockHeader" where
  "sample_block v v' n =
     \<lparr> hdr_number = n, hdr_hash = sample_hash v n, hdr_parentHash = sample_hash v' (n - 1), hdr_timestamp = n \<rparr>"

definition sample_chain :: "nat \<Rightarrow> int \<Rightarrow> SyncBlockHeader" where
  "sample_chain k n = sample_block (k \<le> 1 \<and> 6 \<le> n) (k \<le> 1 \<and> 6 \<le> n - 1) n"

definition sample_rpc :: Rpc where
  "sample_rpc calls = Inr (sample_chain (length calls) (last calls))"

definition sample_window :: "SyncBlockHeader list" where
  "sample_window = map (sample_block False False) [3..6]"

definition sample_history :: ReorgHistorySnapshot where
  "sample_history =
     \<lparr> hist_checkpoint = \<lparr> cp_chainId = 1, cp_revision = 0 \<rparr>, hist_fromBlock = 3, hist_toBlock = 6,
       hist_headers = [sample_block False False 3, sample_block True False 4, sample_block False False 5,
                       sample_block True False 6] \<rparr>"

lemma sample_hash_inj: "sample_hash v m = sample_hash w n \<longleftrightarrow> v = w \<and> m = n"
proof
  assume eq: "sample_hash v m = sample_hash w n"
  then have "v = w" by (auto simp: sample_hash_def split: if_splits)
  have "replicate k CHR ''a'' \<noteq> CHR ''-'' # xs" "CHR ''-'' # xs \<noteq> replicate k CHR ''a''" for k xs
    by (cases k; simp)+
  then have "(m < 0) = (n < 0)" using eq by (auto simp: sample_hash_def split: if_splits)
  with eq have "nat \<bar>m\<bar> = nat \<bar>n\<bar>" by (auto simp: sample_hash_def split: if_splits)
  with \<open>(m < 0) = (n < 0)\<close> \<open>v = w\<close> show "v = w \<and> m = n" by auto
qed simp

lemma sample_reorganising: "reorganising_chain sample_chain" "answers_from sample_chain sample_rpc"
  by (auto simp: reorganising_chain_def answers_from_def sample_chain_def sample_block_def sample_rpc_def
      sample_hash_inj)

theorem fetched_window_is_one_chain_witness:
  "fetchCanonicalSyncBlocks sample_rpc 4 6 = Inr (map (sample_chain 4) [4..6])"
proof -
  have "(case fetchCanonicalSyncBlocks sample_rpc 4 6 of Inl _ \<Rightarrow> False | Inr bs \<Rightarrow> length bs = 3)"
    by code_simp
  then obtain bs where bs: "fetchCanonicalSyncBlocks sample_rpc 4 6 = Inr bs" "length bs = 3"
    by (auto split: sum.splits)
  with fetched_window_is_one_chain [OF sample_reorganising bs(1)] show ?thesis by simp
qed

theorem proven_fork_is_greatest_common_ancestor_witness:
  "\<exists>p. proveReorgAncestor sample_history sample_window = Inr (Some p) \<and> hdr_number (prf_fork p) = 3
     \<and> (\<exists>b. common_ancestor sample_history sample_window b)"
proof -
  have "linked_headers sample_window" by code_simp
  moreover have "covers_range sample_window (hist_fromBlock sample_history) (hist_toBlock sample_history)"
    by code_simp
  moreover have "\<forall>s \<in> set (hist_headers sample_history).
      hist_fromBlock sample_history \<le> hdr_number s \<and> hdr_number s \<le> hist_toBlock sample_history"
    by code_simp
  ultimately obtain r where r: "proveReorgAncestor sample_history sample_window = Inr r"
    and "case r of None \<Rightarrow> True | Some p \<Rightarrow> \<exists>b. common_ancestor sample_history sample_window b"
    using proven_fork_is_greatest_common_ancestor [of sample_window sample_history]
    by (fastforce split: option.splits)
  moreover have "(case proveReorgAncestor sample_history sample_window of
      Inr (Some p) \<Rightarrow> hdr_number (prf_fork p) = 3 | _ \<Rightarrow> False)" by code_simp
  ultimately show ?thesis by (cases r) auto
qed

end
