(* ===== verification/Chain_Store.thy ===== *)
theory Chain_Store
  imports Chain_Headers
begin

text \<open>
  The tables of the indexer that follow the chain, and the statements on them
  (\<^verbatim>\<open>indexer/src/infra/storage/sqlite-chain-revisions.ts\<close>, \<^verbatim>\<open>sqlite-canonical-checks.ts\<close> and the
  chain part of \<^verbatim>\<open>sqlite.ts\<close>): block headers with their pending checks, collection coverage,
  chain revisions.  A write transaction that throws leaves the tables as they were, so an operation
  returns either an error or the new tables.

  The tables of facts (transfers, balances, fills, orders, metadata, publications, ...) are an opaque component
  \<open>'f\<close> with the port \<open>FactsPort\<close>: what of them the chain part reads and the two places where it
  calls their statements.
\<close>

section \<open>Tables\<close>

record BlockRow =
  br_hash :: string
  br_parentHash :: string
  br_timestamp :: int
  br_pending :: bool
  br_retryAt :: int

datatype CollectionStandard = Erc721 | Erc1155

datatype CollectionStatus = Prepared | Bootstrapping | Live | Paused | Disabled

record CollectionRow =
  cr_chainId :: int
  cr_collectionId :: int
  cr_address :: string
  cr_standard :: CollectionStandard
  cr_status :: CollectionStatus
  cr_anchor :: "int option"

record 'f ChainDb =
  db_blocks :: "((int \<times> int) \<times> BlockRow) list"
  db_coverage :: "(int \<times> int \<times> int) list"
  db_revisions :: "(int \<times> int) list"
  db_collections :: "CollectionRow list"
  db_facts :: 'f

record Erc721TokenReference =
  tr_collectionId :: int
  tr_contract :: string
  tr_tokenId :: string

record SnapshotBlock =
  sb_blockNumber :: int
  sb_blockHash :: string
  sb_parentHash :: string
  sb_blockTimestamp :: int

record Erc721RollbackSnapshot =
  sn_block :: SnapshotBlock
  sn_owners :: "(Erc721TokenReference \<times> string option) list"

record ReorgRollbackPlan =
  pl_checkpoint :: ChainSyncCheckpoint
  pl_fromBlock :: int
  pl_tokens :: "Erc721TokenReference list"

text \<open>
  \<open>fp_tokens collections chainId fromBlock\<close> is \<open>selectRollbackTokens\<close>; \<open>fp_persist\<close> and
  \<open>fp_rollback\<close> are the statements of \<open>persistSyncResult\<close> and \<open>rollbackFromBlock\<close> on the fact
  tables.  Theory \<open>Nft_Ownership\<close> defines the port for transfers and balances.
\<close>

record ('f, 'd) FactsPort =
  fp_tokens :: "CollectionRow list \<Rightarrow> int \<Rightarrow> int \<Rightarrow> 'f \<Rightarrow> Erc721TokenReference list"
  fp_persist :: "CollectionRow list \<Rightarrow> int \<Rightarrow> SyncBlockHeader list \<Rightarrow> CollectionRow list \<Rightarrow> 'd \<Rightarrow> 'f \<Rightarrow> string + 'f"
  fp_rollback :: "CollectionRow list \<Rightarrow> int \<Rightarrow> int \<Rightarrow> Erc721RollbackSnapshot \<Rightarrow> 'f \<Rightarrow> string + 'f"

section \<open>Revisions\<close>

definition captureChainSyncCheckpoint :: "'f ChainDb \<Rightarrow> int \<Rightarrow> ChainSyncCheckpoint" where
  "captureChainSyncCheckpoint db chainId =
     \<lparr> cp_chainId = chainId,
       cp_revision = (case map_of (db_revisions db) chainId of None \<Rightarrow> 0 | Some r \<Rightarrow> r) \<rparr>"

definition assertChainSyncCheckpoint :: "'f ChainDb \<Rightarrow> ChainSyncCheckpoint \<Rightarrow> sync_error + unit" where
  "assertChainSyncCheckpoint db checkpoint =
     guardR (cp_revision (captureChainSyncCheckpoint db (cp_chainId checkpoint)) = cp_revision checkpoint)
       StaleCheckpoint"

definition advanceChainSyncRevision :: "int \<Rightarrow> 'f ChainDb \<Rightarrow> 'f ChainDb" where
  "advanceChainSyncRevision chainId db =
     db\<lparr> db_revisions :=
       (case map_of (db_revisions db) chainId of
          None \<Rightarrow> AList.update chainId 1 (db_revisions db)
        | Some r \<Rightarrow> AList.update chainId (r + 1) (db_revisions db)) \<rparr>"

section \<open>Block headers\<close>

text \<open>A row of \<open>blocks\<close> is stored under its primary key, the chain and the block number.\<close>

definition header_of :: "int \<Rightarrow> BlockRow \<Rightarrow> SyncBlockHeader" where
  "header_of n row =
     \<lparr> hdr_number = n, hdr_hash = br_hash row, hdr_parentHash = br_parentHash row,
       hdr_timestamp = br_timestamp row \<rparr>"

definition getBlockHash :: "'f ChainDb \<Rightarrow> int \<Rightarrow> int \<Rightarrow> string option" where
  "getBlockHash db chainId blockNumber = map_option br_hash (map_of (db_blocks db) (chainId, blockNumber))"

text \<open>\<open>insertBlock\<close>: a conflict on the primary key updates the header and keeps the pending check.\<close>

definition insertBlock ::
  "int \<Rightarrow> SyncBlockHeader \<Rightarrow> bool \<Rightarrow> ((int \<times> int) \<times> BlockRow) list \<Rightarrow> ((int \<times> int) \<times> BlockRow) list"
where
  "insertBlock chainId b pending rows =
     (let key = (chainId, hdr_number b) in
      AList.update key
        (case map_of rows key of
           None \<Rightarrow> \<lparr> br_hash = hdr_hash b, br_parentHash = hdr_parentHash b, br_timestamp = hdr_timestamp b,
                      br_pending = pending, br_retryAt = 0 \<rparr>
         | Some row \<Rightarrow> row\<lparr> br_hash := hdr_hash b, br_parentHash := hdr_parentHash b,
                            br_timestamp := hdr_timestamp b \<rparr>) rows)"

definition selectReorgHeaders :: "'f ChainDb \<Rightarrow> int \<Rightarrow> int \<Rightarrow> int \<Rightarrow> SyncBlockHeader list" where
  "selectReorgHeaders db chainId fromBlock toBlock =
     sort_key hdr_number
       [header_of n row. ((c, n), row) \<leftarrow> db_blocks db, c = chainId \<and> fromBlock \<le> n \<and> n \<le> toBlock]"

definition captureReorgHistory :: "'f ChainDb \<Rightarrow> int \<Rightarrow> int \<Rightarrow> int \<Rightarrow> ReorgHistorySnapshot" where
  "captureReorgHistory db chainId fromBlock toBlock =
     \<lparr> hist_checkpoint = captureChainSyncCheckpoint db chainId,
       hist_fromBlock = fromBlock, hist_toBlock = toBlock,
       hist_headers = selectReorgHeaders db chainId fromBlock toBlock \<rparr>"

text \<open>The comparison of the headers, field by field, is their equality.\<close>

definition assertReorgHistoryUnchanged :: "'f ChainDb \<Rightarrow> ReorgHistorySnapshot \<Rightarrow> sync_error + unit" where
  "assertReorgHistoryUnchanged db expected =
     bindR (assertChainSyncCheckpoint db (hist_checkpoint expected)) (\<lambda>_.
       guardR (hist_headers (captureReorgHistory db (cp_chainId (hist_checkpoint expected))
                 (hist_fromBlock expected) (hist_toBlock expected)) = hist_headers expected)
         HistoryChanged)"

section \<open>Pending canonical checks\<close>

record PendingCanonicalCheck =
  ck_chainId :: int
  ck_blockNumber :: int
  ck_blockHash :: string
  ck_checkpoint :: ChainSyncCheckpoint

record CanonicalCheckPolicy =
  pol_observedHeadBlock :: int
  pol_reorgDepth :: int

definition assertCanonicalCheckPolicy :: "CanonicalCheckPolicy \<Rightarrow> sync_error + unit" where
  "assertCanonicalCheckPolicy policy =
     guardR (safe_integer (pol_observedHeadBlock policy) \<and> 0 \<le> pol_observedHeadBlock policy \<and>
             safe_integer (pol_reorgDepth policy) \<and> 1 \<le> pol_reorgDepth policy) InvalidCheckPolicy"

definition needsDelayedCanonicalCheck :: "int \<Rightarrow> CanonicalCheckPolicy \<Rightarrow> sync_error + bool" where
  "needsDelayedCanonicalCheck blockNumber policy =
     bindR (assertCanonicalCheckPolicy policy) (\<lambda>_.
       Inr (blockNumber > canonicalCheckUpperBound (pol_observedHeadBlock policy) (pol_reorgDepth policy)))"

text \<open>The check of the chain and of the revision with which every write on a check begins.\<close>

definition assertCheck :: "'f ChainDb \<Rightarrow> PendingCanonicalCheck \<Rightarrow> sync_error + unit" where
  "assertCheck db check =
     bindR (guardR (ck_chainId check = cp_chainId (ck_checkpoint check)) CheckChainMismatch)
       (\<lambda>_. assertChainSyncCheckpoint db (ck_checkpoint check))"

text \<open>
  \<open>UPDATE blocks SET ... WHERE chain_id=? AND block_number=? AND block_hash=? AND ...\<close>: at most one row
  matches the key; the result says whether one did.
\<close>

definition updateCheckedBlock ::
  "PendingCanonicalCheck \<Rightarrow> (BlockRow \<Rightarrow> bool) \<Rightarrow> (BlockRow \<Rightarrow> BlockRow) \<Rightarrow> 'f ChainDb \<Rightarrow> bool \<times> 'f ChainDb"
where
  "updateCheckedBlock check cond upd db =
     (let key = (ck_chainId check, ck_blockNumber check) in
      case map_of (db_blocks db) key of
        None \<Rightarrow> (False, db)
      | Some row \<Rightarrow>
          if br_hash row = ck_blockHash check \<and> cond row
          then (True, db\<lparr> db_blocks := AList.update key (upd row) (db_blocks db) \<rparr>)
          else (False, db))"

definition retainCheck :: "PendingCanonicalCheck \<Rightarrow> 'f ChainDb \<Rightarrow> sync_error + bool \<times> 'f ChainDb" where
  "retainCheck check db =
     bindR (assertCheck db check) (\<lambda>_. Inr (updateCheckedBlock check (\<lambda>_. True)
       (\<lambda>row. row\<lparr> br_retryAt := (if br_pending row then br_retryAt row else 0), br_pending := True \<rparr>) db))"

definition completeCheck :: "PendingCanonicalCheck \<Rightarrow> 'f ChainDb \<Rightarrow> sync_error + bool \<times> 'f ChainDb" where
  "completeCheck check db =
     bindR (assertCheck db check) (\<lambda>_. Inr (updateCheckedBlock check br_pending
       (\<lambda>row. row\<lparr> br_pending := False, br_retryAt := 0 \<rparr>) db))"

definition deferCheck :: "PendingCanonicalCheck \<Rightarrow> int \<Rightarrow> 'f ChainDb \<Rightarrow> sync_error + 'f ChainDb" where
  "deferCheck check retryAt db =
     bindR (assertCheck db check) (\<lambda>_. Inr (snd (updateCheckedBlock check br_pending
       (\<lambda>row. row\<lparr> br_retryAt := retryAt \<rparr>) db)))"

definition hasPending :: "'f ChainDb \<Rightarrow> int \<Rightarrow> int \<Rightarrow> bool" where
  "hasPending db chainId now \<longleftrightarrow>
     list_ex (\<lambda>((c, n), row). c = chainId \<and> br_pending row \<and> br_retryAt row \<le> now) (db_blocks db)"

definition nextDue :: "'f ChainDb \<Rightarrow> int \<Rightarrow> int \<Rightarrow> int \<Rightarrow> PendingCanonicalCheck option" where
  "nextDue db chainId now upperBound =
     (case sort_key (\<lambda>((c, n), row). br_retryAt row) (sort_key (\<lambda>((c, n), row). n)
             (filter (\<lambda>((c, n), row). c = chainId \<and> br_pending row \<and> br_retryAt row \<le> now \<and> n \<le> upperBound)
                (db_blocks db))) of
        [] \<Rightarrow> None
      | ((c, n), row) # _ \<Rightarrow>
          Some \<lparr> ck_chainId = c, ck_blockNumber = n, ck_blockHash = br_hash row,
                 ck_checkpoint = captureChainSyncCheckpoint db chainId \<rparr>)"

section \<open>Persisting a sync result\<close>

text \<open>The facts of a result by their groups, each with its block number and hash, and their content.\<close>

record 'd OnChainData =
  oc_groups :: "(int \<times> string) list list"
  oc_content :: 'd

record 'd SyncRangeResult =
  sr_checkpoint :: ChainSyncCheckpoint
  sr_canonicalCheck :: CanonicalCheckPolicy
  sr_blocks :: "SyncBlockHeader list"
  sr_data :: "'d OnChainData"
  sr_collections :: "CollectionRow list"

fun checkFacts :: "(int \<Rightarrow> SyncBlockHeader option) \<Rightarrow> (int \<times> string) list \<Rightarrow> sync_error + unit" where
  "checkFacts byNumber [] = Inr ()"
| "checkFacts byNumber ((n, h) # facts) =
     (case byNumber n of
        None \<Rightarrow> Inl (FactMismatch n)
      | Some b \<Rightarrow> if h \<noteq> hdr_hash b then Inl (FactMismatch n) else checkFacts byNumber facts)"

definition assertSyncResultMatchesBlocks ::
  "SyncBlockHeader list \<Rightarrow> 'd OnChainData \<Rightarrow> sync_error + unit"
where
  "assertSyncResultMatchesBlocks blocks data =
     bindR (assertSyncBlockHeaders blocks) (\<lambda>_.
       checkFacts (canonicalMap blocks) (concat (oc_groups data)))"

fun checkStoredHashes :: "'f ChainDb \<Rightarrow> int \<Rightarrow> SyncBlockHeader list \<Rightarrow> sync_error + unit" where
  "checkStoredHashes db chainId [] = Inr ()"
| "checkStoredHashes db chainId (b # bs) =
     (case getBlockHash db chainId (hdr_number b) of
        None \<Rightarrow> checkStoredHashes db chainId bs
      | Some storedHash \<Rightarrow>
          if storedHash \<noteq> [] \<and> storedHash \<noteq> hdr_hash b
          then Inl (StoredBlockHashConflict (hdr_number b) storedHash (hdr_hash b))
          else checkStoredHashes db chainId bs)"

fun persistBlocks ::
  "int \<Rightarrow> SyncBlockHeader list \<Rightarrow> CanonicalCheckPolicy option \<Rightarrow> ((int \<times> int) \<times> BlockRow) list
    \<Rightarrow> sync_error + ((int \<times> int) \<times> BlockRow) list"
where
  "persistBlocks chainId [] canonicalCheck rows = Inr rows"
| "persistBlocks chainId (b # bs) canonicalCheck rows =
     bindR (case canonicalCheck of None \<Rightarrow> Inr False
            | Some policy \<Rightarrow> needsDelayedCanonicalCheck (hdr_number b) policy) (\<lambda>pending.
       persistBlocks chainId bs canonicalCheck (insertBlock chainId b pending rows))"

definition upsertCollectionSyncBlock ::
  "int \<times> int \<times> int \<Rightarrow> (int \<times> int \<times> int) list \<Rightarrow> (int \<times> int \<times> int) list"
where
  "upsertCollectionSyncBlock key rows = (if key \<in> set rows then rows else rows @ [key])"

definition persistCollectionSyncBlocks ::
  "int \<Rightarrow> SyncBlockHeader list \<Rightarrow> CollectionRow list \<Rightarrow> (int \<times> int \<times> int) list \<Rightarrow> (int \<times> int \<times> int) list"
where
  "persistCollectionSyncBlocks chainId blocks collections rows =
     fold (\<lambda>collection. fold (\<lambda>block. upsertCollectionSyncBlock
            (chainId, cr_collectionId collection, hdr_number block)) blocks) collections rows"

definition persistSyncResult ::
  "('f, 'd) FactsPort \<Rightarrow> 'd SyncRangeResult \<Rightarrow> 'f ChainDb \<Rightarrow> sync_error + 'f ChainDb"
where
  "persistSyncResult port result db =
     (let chainId = cp_chainId (sr_checkpoint result); blocks = sr_blocks result in
      bindR (assertCanonicalCheckPolicy (sr_canonicalCheck result)) (\<lambda>_.
      bindR (assertChainSyncCheckpoint db (sr_checkpoint result)) (\<lambda>_.
      bindR (assertSyncResultMatchesBlocks blocks (sr_data result)) (\<lambda>_.
      bindR (checkStoredHashes db chainId blocks) (\<lambda>_.
      bindR (persistBlocks chainId blocks (Some (sr_canonicalCheck result)) (db_blocks db)) (\<lambda>rows.
        case fp_persist port (db_collections db) chainId blocks (sr_collections result) (oc_content (sr_data result)) (db_facts db) of
          Inl e \<Rightarrow> Inl (FactsFailure e)
        | Inr facts \<Rightarrow>
            Inr (db\<lparr> db_blocks := rows,
                     db_coverage := persistCollectionSyncBlocks chainId blocks (sr_collections result)
                       (db_coverage db),
                     db_facts := facts \<rparr>)))))))"

section \<open>Rollback\<close>

definition canRollbackFromBlock :: "int option \<Rightarrow> int \<Rightarrow> bool" where
  "canRollbackFromBlock anchor fromBlock \<longleftrightarrow> (case anchor of None \<Rightarrow> True | Some a \<Rightarrow> fromBlock > a)"

text \<open>\<open>SELECT MAX(bootstrap_anchor_block)\<close>, null without any anchor.\<close>

definition maxAnchor :: "'f ChainDb \<Rightarrow> int \<Rightarrow> int option" where
  "maxAnchor db chainId =
     (let anchors = List.map_filter cr_anchor (filter (\<lambda>c. cr_chainId c = chainId) (db_collections db))
      in if anchors = [] then None else Some (foldr max anchors (hd anchors)))"

definition assertRollbackPreservesAnchors :: "'f ChainDb \<Rightarrow> int \<Rightarrow> int \<Rightarrow> sync_error + unit" where
  "assertRollbackPreservesAnchors db chainId fromBlock =
     guardR (canRollbackFromBlock (maxAnchor db chainId) fromBlock) (AnchorCrossed fromBlock)"

definition prepareRollback ::
  "('f, 'd) FactsPort \<Rightarrow> 'f ChainDb \<Rightarrow> int \<Rightarrow> int \<Rightarrow> sync_error + ReorgRollbackPlan"
where
  "prepareRollback port db chainId fromBlock =
     bindR (guardR (safe_integer fromBlock \<and> 1 \<le> fromBlock) InvalidRollbackBlock) (\<lambda>_.
     bindR (assertRollbackPreservesAnchors db chainId fromBlock) (\<lambda>_.
       Inr \<lparr> pl_checkpoint = captureChainSyncCheckpoint db chainId, pl_fromBlock = fromBlock,
             pl_tokens = fp_tokens port (db_collections db) chainId fromBlock (db_facts db) \<rparr>))"

text \<open>
  The keys \<open>collectionId:tokenId\<close> are unambiguous, since a collection id is an integer; they are
  pairs here.
\<close>

definition erc721_token_key :: "Erc721TokenReference \<Rightarrow> int \<times> string" where
  "erc721_token_key t = (tr_collectionId t, tr_tokenId t)"

fun matchTokens :: "((int \<times> string) \<times> string) list \<Rightarrow> Erc721TokenReference list \<Rightarrow> sync_error + unit" where
  "matchTokens expected [] = Inr ()"
| "matchTokens expected (t # ts) =
     (if map_of expected (erc721_token_key t) \<noteq> Some (toLowerCase (tr_contract t)) then Inl TokenScopeChanged
      else matchTokens (AList.delete (erc721_token_key t) expected) ts)"

definition assertSameErc721Tokens ::
  "Erc721TokenReference list \<Rightarrow> Erc721TokenReference list \<Rightarrow> sync_error + unit"
where
  "assertSameErc721Tokens expected actual =
     (let m = fold (\<lambda>t. AList.update (erc721_token_key t) (toLowerCase (tr_contract t))) expected [] in
      if length m \<noteq> length expected \<or> length actual \<noteq> length m then Inl TokenScopeChanged
      else matchTokens m actual)"

definition deleteBlocksFromBlock ::
  "int \<Rightarrow> int \<Rightarrow> ((int \<times> int) \<times> BlockRow) list \<Rightarrow> ((int \<times> int) \<times> BlockRow) list"
where
  "deleteBlocksFromBlock chainId fromBlock = filter (\<lambda>((c, n), row). \<not> (c = chainId \<and> fromBlock \<le> n))"

definition deleteCollectionSyncBlocksFromBlock ::
  "int \<Rightarrow> int \<Rightarrow> (int \<times> int \<times> int) list \<Rightarrow> (int \<times> int \<times> int) list"
where
  "deleteCollectionSyncBlocksFromBlock chainId fromBlock =
     filter (\<lambda>(c, i, n). \<not> (c = chainId \<and> fromBlock \<le> n))"

definition fork_header :: "SnapshotBlock \<Rightarrow> SyncBlockHeader" where
  "fork_header b =
     \<lparr> hdr_number = sb_blockNumber b, hdr_hash = sb_blockHash b, hdr_parentHash = sb_parentHash b,
       hdr_timestamp = sb_blockTimestamp b \<rparr>"

definition rollbackFromBlock ::
  "('f, 'd) FactsPort \<Rightarrow> ReorgRollbackPlan \<Rightarrow> Erc721RollbackSnapshot \<Rightarrow> 'f ChainDb \<Rightarrow> sync_error + 'f ChainDb"
where
  "rollbackFromBlock port plan snapshot db =
     (let chainId = cp_chainId (pl_checkpoint plan); fromBlock = pl_fromBlock plan in
      bindR (assertChainSyncCheckpoint db (pl_checkpoint plan)) (\<lambda>_.
      bindR (assertRollbackPreservesAnchors db chainId fromBlock) (\<lambda>_.
      bindR (guardR (sb_blockNumber (sn_block snapshot) = fromBlock - 1) SnapshotWrongBlock) (\<lambda>_.
      bindR (guardR (case getBlockHash db chainId (fromBlock - 1) of None \<Rightarrow> True
                     | Some h \<Rightarrow> h = [] \<or> h = sb_blockHash (sn_block snapshot)) ForkNotPersisted) (\<lambda>_.
      bindR (assertSameErc721Tokens (pl_tokens plan) (fp_tokens port (db_collections db) chainId fromBlock (db_facts db))) (\<lambda>_.
      bindR (assertSameErc721Tokens (pl_tokens plan) (map fst (sn_owners snapshot))) (\<lambda>_.
        case fp_rollback port (db_collections db) chainId fromBlock snapshot (db_facts db) of
          Inl e \<Rightarrow> Inl (FactsFailure e)
        | Inr facts \<Rightarrow>
            bindR (persistBlocks chainId [fork_header (sn_block snapshot)] None
                     (deleteBlocksFromBlock chainId fromBlock (db_blocks db))) (\<lambda>rows.
              Inr (advanceChainSyncRevision chainId
                (db\<lparr> db_blocks := rows,
                     db_coverage := deleteCollectionSyncBlocksFromBlock chainId fromBlock (db_coverage db),
                     db_facts := facts \<rparr>))))))))))"

section \<open>Successful writes\<close>

lemma case_sum_Inr_iff [result_elims]:
  "(case x of Inl e \<Rightarrow> Inl (g e) | Inr y \<Rightarrow> f y) = Inr z \<longleftrightarrow> (\<exists>y. x = Inr y \<and> f y = Inr z)"
  by (cases x) auto

lemma assertChainSyncCheckpoint_iff:
  "assertChainSyncCheckpoint db cp = Inr u \<longleftrightarrow>
     cp_revision (captureChainSyncCheckpoint db (cp_chainId cp)) = cp_revision cp"
  by (simp add: assertChainSyncCheckpoint_def)

lemma persistSyncResult_Inr:
  assumes "persistSyncResult port result db = Inr db'"
  obtains rows facts where
    "assertCanonicalCheckPolicy (sr_canonicalCheck result) = Inr ()"
    "assertChainSyncCheckpoint db (sr_checkpoint result) = Inr ()"
    "assertSyncResultMatchesBlocks (sr_blocks result) (sr_data result) = Inr ()"
    "checkStoredHashes db (cp_chainId (sr_checkpoint result)) (sr_blocks result) = Inr ()"
    "persistBlocks (cp_chainId (sr_checkpoint result)) (sr_blocks result) (Some (sr_canonicalCheck result))
       (db_blocks db) = Inr rows"
    "db' = db\<lparr> db_blocks := rows,
       db_coverage := persistCollectionSyncBlocks (cp_chainId (sr_checkpoint result)) (sr_blocks result)
         (sr_collections result) (db_coverage db), db_facts := facts \<rparr>"
  using assms
  by (clarsimp simp: persistSyncResult_def Let_def bindR_Inr_iff case_sum_Inr_iff)

lemma persistBlocks_single:
  "persistBlocks c [b] None rows = Inr (insertBlock c b False rows)"
  by simp

lemma rollbackFromBlock_Inr:
  fixes db db' :: "'f ChainDb"
  assumes "rollbackFromBlock port plan snapshot db = Inr db'"
  obtains db1 :: "'f ChainDb" where
    "assertChainSyncCheckpoint db (pl_checkpoint plan) = Inr ()"
    "assertRollbackPreservesAnchors db (cp_chainId (pl_checkpoint plan)) (pl_fromBlock plan) = Inr ()"
    "sb_blockNumber (sn_block snapshot) = pl_fromBlock plan - 1"
    "db' = advanceChainSyncRevision (cp_chainId (pl_checkpoint plan)) db1"
    "db_revisions db1 = db_revisions db" "db_collections db1 = db_collections db"
    "db_blocks db1 = insertBlock (cp_chainId (pl_checkpoint plan)) (fork_header (sn_block snapshot)) False
       (deleteBlocksFromBlock (cp_chainId (pl_checkpoint plan)) (pl_fromBlock plan) (db_blocks db))"
    "db_coverage db1 = deleteCollectionSyncBlocksFromBlock (cp_chainId (pl_checkpoint plan))
       (pl_fromBlock plan) (db_coverage db)"
proof -
  let ?c = "cp_chainId (pl_checkpoint plan)"
  from assms obtain facts where
    *: "assertChainSyncCheckpoint db (pl_checkpoint plan) = Inr ()"
    "assertRollbackPreservesAnchors db ?c (pl_fromBlock plan) = Inr ()"
    "sb_blockNumber (sn_block snapshot) = pl_fromBlock plan - 1"
    "db' = advanceChainSyncRevision ?c
       (db\<lparr> db_blocks := insertBlock ?c (fork_header (sn_block snapshot)) False
              (deleteBlocksFromBlock ?c (pl_fromBlock plan) (db_blocks db)),
            db_coverage := deleteCollectionSyncBlocksFromBlock ?c (pl_fromBlock plan) (db_coverage db),
            db_facts := facts \<rparr>)"
    by (simp add: rollbackFromBlock_def Let_def bindR_Inr_iff case_sum_Inr_iff) blast
  show ?thesis by (rule that [OF *]) simp_all
qed

end
