(* ===== verification/Reorg_Recovery.thy ===== *)
theory Reorg_Recovery
  imports Chain_Store
begin

text \<open>
  Recovery from a chain reorganisation: the journal's transitions
  (\<^verbatim>\<open>indexer/src/domain/reorg-recovery.ts\<close>), its table
  (\<^verbatim>\<open>indexer/src/infra/storage/sqlite-reorg-recoveries.ts\<close>) and the process that drives it
  (\<^verbatim>\<open>indexer/src/application/reorg-recovery.ts\<close>).  RPC calls happen between transactions, so
  everything a step carries over from an earlier read may be outdated when it commits; the step
  relation below lets every process commit work based on any earlier state of the journal.
\<close>

section \<open>The journal's states\<close>

record RecoveryBase =
  rb_chainId :: int
  rb_recoveryId :: string
  rb_revision :: int
  rb_version :: int
  rb_checkedBlock :: int
  rb_storedHash :: string
  rb_observedHash :: string
  rb_retryAt :: int

record AwaitingReorgAncestor = RecoveryBase +
  aw_resumeFrom :: "int option"

record ReorgResync = RecoveryBase +
  rs_fromBlock :: int
  rs_toBlock :: int
  rs_targetBlock :: int

datatype ReorgRecoveryState =
    AwaitingAncestor AwaitingReorgAncestor
  | Resync ReorgResync

record ReorgResyncRange =
  rg_recoveryId :: string
  rg_revision :: int
  rg_chainId :: int
  rg_fromBlock :: int
  rg_toBlock :: int

fun base_of :: "ReorgRecoveryState \<Rightarrow> RecoveryBase" where
  "base_of (AwaitingAncestor a) = RecoveryBase.truncate a"
| "base_of (Resync r) = RecoveryBase.truncate r"

text \<open>The fields of a mismatch that was found.\<close>

record Mismatch =
  mm_checkpoint :: ChainSyncCheckpoint
  mm_recoveryId :: string
  mm_checkedBlock :: int
  mm_storedHash :: string
  mm_observedHash :: string
  mm_now :: int

text \<open>The condition under which \<open>retainReorgMismatch\<close> returns the current state itself.\<close>

definition keepsCurrent :: "ReorgRecoveryState option \<Rightarrow> Mismatch \<Rightarrow> bool" where
  "keepsCurrent current m \<longleftrightarrow>
     (case current of
        Some (AwaitingAncestor a) \<Rightarrow>
          rb_revision a = cp_revision (mm_checkpoint m) \<and> rb_checkedBlock a \<le> mm_checkedBlock m
      | _ \<Rightarrow> False)"

definition retainReorgMismatch :: "ReorgRecoveryState option \<Rightarrow> Mismatch \<Rightarrow> AwaitingReorgAncestor" where
  "retainReorgMismatch current m =
     (let fresh =
        \<lparr> rb_chainId = cp_chainId (mm_checkpoint m), rb_recoveryId = mm_recoveryId m,
          rb_revision = cp_revision (mm_checkpoint m),
          rb_version = (case current of None \<Rightarrow> -1 | Some s \<Rightarrow> rb_version (base_of s)) + 1,
          rb_checkedBlock = mm_checkedBlock m, rb_storedHash = mm_storedHash m,
          rb_observedHash = mm_observedHash m, rb_retryAt = mm_now m,
          aw_resumeFrom = (case current of None \<Rightarrow> None | Some (Resync r) \<Rightarrow> Some (rs_fromBlock r)
                           | Some (AwaitingAncestor a) \<Rightarrow> aw_resumeFrom a) \<rparr>
      in case current of
           Some (AwaitingAncestor a) \<Rightarrow> if keepsCurrent current m then a else fresh
         | _ \<Rightarrow> fresh)"

definition beginReorgResync ::
  "AwaitingReorgAncestor \<Rightarrow> int \<Rightarrow> int \<Rightarrow> int \<Rightarrow> int \<Rightarrow> sync_error + ReorgResync option"
where
  "beginReorgResync recovery rollbackFrom head batchSize retryAt =
     (if head < rollbackFrom - 1 then Inl HeadBehindFork
      else
        let fromBlock = min rollbackFrom
              (case aw_resumeFrom recovery of None \<Rightarrow> rollbackFrom | Some r \<Rightarrow> r)
        in Inr (if fromBlock > head then None
                else Some
                  \<lparr> rb_chainId = rb_chainId recovery, rb_recoveryId = rb_recoveryId recovery,
                    rb_revision = rb_revision recovery + 1, rb_version = rb_version recovery + 1,
                    rb_checkedBlock = rb_checkedBlock recovery, rb_storedHash = rb_storedHash recovery,
                    rb_observedHash = rb_observedHash recovery, rb_retryAt = retryAt,
                    rs_fromBlock = fromBlock,
                    rs_toBlock = min head (fromBlock + batchSize - 1), rs_targetBlock = head \<rparr>))"

definition advanceReorgResync :: "ReorgResync \<Rightarrow> int \<Rightarrow> int \<Rightarrow> ReorgResync option" where
  "advanceReorgResync recovery batchSize retryAt =
     (let fromBlock = rs_toBlock recovery + 1 in
      if fromBlock > rs_targetBlock recovery then None
      else Some (recovery\<lparr> rb_version := rb_version recovery + 1, rs_fromBlock := fromBlock,
                           rs_toBlock := min (rs_targetBlock recovery) (fromBlock + batchSize - 1),
                           rb_retryAt := retryAt \<rparr>))"

fun isCurrentReorgRange :: "ReorgRecoveryState option \<Rightarrow> ReorgResyncRange \<Rightarrow> bool" where
  "isCurrentReorgRange (Some (Resync r)) rng \<longleftrightarrow>
     rb_chainId r = rg_chainId rng \<and> rb_recoveryId r = rg_recoveryId rng \<and>
     rb_revision r = rg_revision rng \<and> rs_fromBlock r = rg_fromBlock rng \<and>
     rs_toBlock r = rg_toBlock rng"
| "isCurrentReorgRange _ rng \<longleftrightarrow> False"

section \<open>The journal's table\<close>

datatype Phase = PhaseAwaiting | PhaseResync

record RecoveryRow =
  rr_recoveryId :: string
  rr_version :: int
  rr_revision :: int
  rr_checkedBlock :: int
  rr_storedHash :: string
  rr_observedHash :: string
  rr_phase :: Phase
  rr_retryAt :: int
  rr_rangeFrom :: "int option"
  rr_rangeTo :: "int option"
  rr_targetBlock :: "int option"
  rr_lastError :: "string option"

record 'f IndexerDb =
  idb_chain :: "'f ChainDb"
  idb_recoveries :: "(int \<times> RecoveryRow) list"

definition state_of_row :: "int \<Rightarrow> RecoveryRow \<Rightarrow> sync_error + ReorgRecoveryState" where
  "state_of_row chainId row =
     (case rr_phase row of
        PhaseAwaiting \<Rightarrow>
          Inr (AwaitingAncestor
            \<lparr> rb_chainId = chainId, rb_recoveryId = rr_recoveryId row, rb_revision = rr_revision row,
              rb_version = rr_version row, rb_checkedBlock = rr_checkedBlock row,
              rb_storedHash = rr_storedHash row, rb_observedHash = rr_observedHash row,
              rb_retryAt = rr_retryAt row, aw_resumeFrom = rr_rangeFrom row \<rparr>)
      | PhaseResync \<Rightarrow>
          (case (rr_rangeFrom row, rr_rangeTo row, rr_targetBlock row) of
             (Some f, Some t, Some g) \<Rightarrow>
               Inr (Resync
                 \<lparr> rb_chainId = chainId, rb_recoveryId = rr_recoveryId row, rb_revision = rr_revision row,
                   rb_version = rr_version row, rb_checkedBlock = rr_checkedBlock row,
                   rb_storedHash = rr_storedHash row, rb_observedHash = rr_observedHash row,
                   rb_retryAt = rr_retryAt row, rs_fromBlock = f, rs_toBlock = t, rs_targetBlock = g \<rparr>)
           | _ \<Rightarrow> Inl IncompleteRange))"

definition getRecovery :: "'f IndexerDb \<Rightarrow> int \<Rightarrow> sync_error + ReorgRecoveryState option" where
  "getRecovery db chainId =
     (case map_of (idb_recoveries db) chainId of
        None \<Rightarrow> Inr None
      | Some row \<Rightarrow> bindR (state_of_row chainId row) (\<lambda>s. Inr (Some s)))"

definition row_of_state :: "ReorgRecoveryState \<Rightarrow> RecoveryRow" where
  "row_of_state s =
     \<lparr> rr_recoveryId = rb_recoveryId (base_of s), rr_version = rb_version (base_of s),
       rr_revision = rb_revision (base_of s), rr_checkedBlock = rb_checkedBlock (base_of s),
       rr_storedHash = rb_storedHash (base_of s), rr_observedHash = rb_observedHash (base_of s),
       rr_phase = (case s of AwaitingAncestor _ \<Rightarrow> PhaseAwaiting | Resync _ \<Rightarrow> PhaseResync),
       rr_retryAt = rb_retryAt (base_of s),
       rr_rangeFrom = (case s of AwaitingAncestor a \<Rightarrow> aw_resumeFrom a | Resync r \<Rightarrow> Some (rs_fromBlock r)),
       rr_rangeTo = (case s of AwaitingAncestor _ \<Rightarrow> None | Resync r \<Rightarrow> Some (rs_toBlock r)),
       rr_targetBlock = (case s of AwaitingAncestor _ \<Rightarrow> None | Resync r \<Rightarrow> Some (rs_targetBlock r)),
       rr_lastError = None \<rparr>"

definition saveRecovery :: "ReorgRecoveryState \<Rightarrow> 'f IndexerDb \<Rightarrow> 'f IndexerDb" where
  "saveRecovery s db =
     db\<lparr> idb_recoveries := AList.update (rb_chainId (base_of s)) (row_of_state s) (idb_recoveries db) \<rparr>"

definition removeRecovery :: "int \<Rightarrow> 'f IndexerDb \<Rightarrow> 'f IndexerDb" where
  "removeRecovery chainId db = db\<lparr> idb_recoveries := AList.delete chainId (idb_recoveries db) \<rparr>"

definition assertRevision :: "'f IndexerDb \<Rightarrow> int \<Rightarrow> int \<Rightarrow> sync_error + unit" where
  "assertRevision db chainId revision =
     guardR (cp_revision (captureChainSyncCheckpoint (idb_chain db) chainId) = revision) RevisionChanged"

fun same_phase :: "ReorgRecoveryState \<Rightarrow> ReorgRecoveryState \<Rightarrow> bool" where
  "same_phase (AwaitingAncestor _) (AwaitingAncestor _) \<longleftrightarrow> True"
| "same_phase (Resync _) (Resync _) \<longleftrightarrow> True"
| "same_phase _ _ \<longleftrightarrow> False"

definition assertCurrent :: "'f IndexerDb \<Rightarrow> ReorgRecoveryState \<Rightarrow> sync_error + unit" where
  "assertCurrent db expected =
     bindR (getRecovery db (rb_chainId (base_of expected))) (\<lambda>current.
       guardR (case current of None \<Rightarrow> False | Some s \<Rightarrow>
                 rb_recoveryId (base_of s) = rb_recoveryId (base_of expected) \<and>
                 rb_revision (base_of s) = rb_revision (base_of expected) \<and>
                 rb_version (base_of s) = rb_version (base_of expected) \<and> same_phase s expected)
         RecoveryChanged)"

definition mismatch_check :: "Mismatch \<Rightarrow> PendingCanonicalCheck" where
  "mismatch_check m =
     \<lparr> ck_chainId = cp_chainId (mm_checkpoint m), ck_blockNumber = mm_checkedBlock m,
       ck_blockHash = mm_storedHash m, ck_checkpoint = mm_checkpoint m \<rparr>"

definition retainMismatch ::
  "Mismatch \<Rightarrow> 'f IndexerDb \<Rightarrow> sync_error + AwaitingReorgAncestor \<times> 'f IndexerDb"
where
  "retainMismatch m db =
     (let chainId = cp_chainId (mm_checkpoint m) in
      bindR (assertRevision db chainId (cp_revision (mm_checkpoint m))) (\<lambda>_.
      bindR (guardR (getBlockHash (idb_chain db) chainId (mm_checkedBlock m) = Some (mm_storedHash m))
               MismatchOutdated) (\<lambda>_.
      bindR (getRecovery db chainId) (\<lambda>current.
        let upcoming = retainReorgMismatch current m;
            db1 = (if keepsCurrent current m then db else saveRecovery (AwaitingAncestor upcoming) db)
        in bindR (completeCheck (mismatch_check m) (idb_chain db1)) (\<lambda>(done, chain).
             if done then Inr (upcoming, db1\<lparr> idb_chain := chain \<rparr>) else Inl CheckNotPending)))))"

definition refreshCheckpoint ::
  "ReorgRecoveryState \<Rightarrow> ChainSyncCheckpoint \<Rightarrow> string \<Rightarrow> int \<Rightarrow> 'f IndexerDb \<Rightarrow> sync_error + 'f IndexerDb"
where
  "refreshCheckpoint expected checkpoint recoveryId now db =
     bindR (assertCurrent db expected) (\<lambda>_.
     bindR (assertRevision db (cp_chainId checkpoint) (cp_revision checkpoint)) (\<lambda>_.
       Inr (saveRecovery (AwaitingAncestor (retainReorgMismatch (Some expected)
         \<lparr> mm_checkpoint = checkpoint, mm_recoveryId = recoveryId,
           mm_checkedBlock = rb_checkedBlock (base_of expected),
           mm_storedHash = rb_storedHash (base_of expected),
           mm_observedHash = rb_observedHash (base_of expected), mm_now = now \<rparr>)) db)))"

text \<open>\<open>UPDATE chain_reorg_recoveries SET retry_at = ?, last_error = ? WHERE ...\<close>\<close>

definition updateRetry ::
  "int \<Rightarrow> (RecoveryRow \<Rightarrow> bool) \<Rightarrow> int \<Rightarrow> string option \<Rightarrow> 'f IndexerDb \<Rightarrow> 'f IndexerDb"
where
  "updateRetry chainId cond retryAt err db =
     (case map_of (idb_recoveries db) chainId of
        None \<Rightarrow> db
      | Some row \<Rightarrow>
          if cond row
          then db\<lparr> idb_recoveries := AList.update chainId (row\<lparr> rr_retryAt := retryAt, rr_lastError := err \<rparr>)
                     (idb_recoveries db) \<rparr>
          else db)"

definition deferProof ::
  "AwaitingReorgAncestor \<Rightarrow> int \<Rightarrow> string option \<Rightarrow> 'f IndexerDb \<Rightarrow> 'f IndexerDb"
where
  "deferProof expected retryAt err =
     updateRetry (rb_chainId expected)
       (\<lambda>row. rr_recoveryId row = rb_recoveryId expected \<and> rr_version row = rb_version expected
              \<and> rr_phase row = PhaseAwaiting) retryAt err"

definition deferResync :: "ReorgResyncRange \<Rightarrow> int \<Rightarrow> string \<Rightarrow> 'f IndexerDb \<Rightarrow> 'f IndexerDb" where
  "deferResync rng retryAt err =
     updateRetry (rg_chainId rng)
       (\<lambda>row. rr_recoveryId row = rg_recoveryId rng \<and> rr_revision row = rg_revision rng
              \<and> rr_phase row = PhaseResync \<and> rr_rangeFrom row = Some (rg_fromBlock rng)
              \<and> rr_rangeTo row = Some (rg_toBlock rng)) retryAt (Some err)"

definition plan_matches ::
  "AwaitingReorgAncestor \<Rightarrow> ReorgAncestorProof \<Rightarrow> ReorgRollbackPlan \<Rightarrow> Erc721RollbackSnapshot \<Rightarrow> bool"
where
  "plan_matches expected prf plan snapshot \<longleftrightarrow>
     cp_chainId (pl_checkpoint plan) = rb_chainId expected \<and>
     cp_revision (pl_checkpoint plan) = rb_revision expected \<and>
     cp_chainId (hist_checkpoint (prf_history prf)) = rb_chainId expected \<and>
     cp_revision (hist_checkpoint (prf_history prf)) = rb_revision expected \<and>
     hist_toBlock (prf_history prf) = rb_checkedBlock expected \<and>
     vb_chainId (prf_fork prf) = rb_chainId expected \<and>
     hist_fromBlock (prf_history prf) \<le> hdr_number (prf_fork prf) \<and>
     hdr_number (prf_fork prf) < hist_toBlock (prf_history prf) \<and>
     pl_fromBlock plan = hdr_number (prf_fork prf) + 1 \<and>
     sb_blockHash (sn_block snapshot) = hdr_hash (prf_fork prf)"

definition commitRollbackAndResync ::
  "('f, 'd) FactsPort \<Rightarrow> AwaitingReorgAncestor \<Rightarrow> ReorgAncestorProof \<Rightarrow> ReorgRollbackPlan
    \<Rightarrow> Erc721RollbackSnapshot \<Rightarrow> ReorgResync option \<Rightarrow> 'f IndexerDb \<Rightarrow> sync_error + 'f IndexerDb"
where
  "commitRollbackAndResync port expected prf plan snapshot upcoming db =
     bindR (assertCurrent db (AwaitingAncestor expected)) (\<lambda>_.
     bindR (guardR (plan_matches expected prf plan snapshot) PlanMismatch) (\<lambda>_.
     bindR (assertReorgHistoryUnchanged (idb_chain db) (prf_history prf)) (\<lambda>_.
     bindR (guardR (case upcoming of None \<Rightarrow> True | Some r \<Rightarrow>
              rb_chainId r = rb_chainId expected \<and> rb_recoveryId r = rb_recoveryId expected \<and>
              rb_version r = rb_version expected + 1 \<and> rb_revision r = rb_revision expected + 1)
              ContinuationMismatch) (\<lambda>_.
     bindR (rollbackFromBlock port plan snapshot (idb_chain db)) (\<lambda>chain.
       let db1 = db\<lparr> idb_chain := chain \<rparr> in
       Inr (case upcoming of None \<Rightarrow> removeRecovery (rb_chainId expected) db1
            | Some r \<Rightarrow> saveRecovery (Resync r) db1))))))"

definition completeResyncRange ::
  "ReorgResyncRange \<Rightarrow> int \<Rightarrow> int \<Rightarrow> 'f IndexerDb \<Rightarrow> sync_error + bool \<times> 'f IndexerDb"
where
  "completeResyncRange rng batchSize retryAt db =
     bindR (getRecovery db (rg_chainId rng)) (\<lambda>current.
       case current of
         Some (Resync r) \<Rightarrow>
           if isCurrentReorgRange current rng
           then bindR (assertRevision db (rb_chainId r) (rb_revision r)) (\<lambda>_.
                  Inr (True, case advanceReorgResync r batchSize retryAt of
                               None \<Rightarrow> removeRecovery (rb_chainId r) db
                             | Some upcoming \<Rightarrow> saveRecovery (Resync upcoming) db))
           else Inr (False, db)
       | _ \<Rightarrow> Inr (False, db))"

section \<open>The process\<close>

record ReorgRecoveryOptions =
  ro_chainId :: int
  ro_reorgDepth :: int
  ro_batchSize :: int
  ro_retryDelayMs :: int

definition valid_options :: "ReorgRecoveryOptions \<Rightarrow> bool" where
  "valid_options opt \<longleftrightarrow>
     (\<forall>v \<in> {ro_chainId opt, ro_reorgDepth opt, ro_batchSize opt, ro_retryDelayMs opt}.
        safe_integer v \<and> 1 \<le> v)"

text \<open>
  \<open>checkDue\<close> selects the next check below the observed head's bound.  \<open>checkBlock\<close> reads the tables
  (\<open>startCheck\<close>, false if the check is outdated), asks the provider, and then writes:
  \<open>finishCheck\<close> is everything after the provider's answer, with the error handler; the
  clock reads \<open>now\<close> in the body and \<open>later\<close> in the handler.  It returns
  whether the process goes on with \<open>resumeDue\<close>.
\<close>

definition dueCheck ::
  "ReorgRecoveryOptions \<Rightarrow> int \<Rightarrow> int \<Rightarrow> 'f IndexerDb \<Rightarrow> PendingCanonicalCheck option"
where
  "dueCheck opt now head db =
     (if \<not> hasPending (idb_chain db) (ro_chainId opt) now then None
      else nextDue (idb_chain db) (ro_chainId opt) now (canonicalCheckUpperBound head (ro_reorgDepth opt)))"

definition checkStillStored :: "PendingCanonicalCheck \<Rightarrow> 'f IndexerDb \<Rightarrow> bool" where
  "checkStillStored check db \<longleftrightarrow>
     cp_revision (captureChainSyncCheckpoint (idb_chain db) (ck_chainId check)) = cp_revision (ck_checkpoint check) \<and>
     getBlockHash (idb_chain db) (ck_chainId check) (ck_blockNumber check) = Some (ck_blockHash check)"

definition startCheck ::
  "ReorgRecoveryOptions \<Rightarrow> PendingCanonicalCheck \<Rightarrow> 'f IndexerDb \<Rightarrow> sync_error + bool"
where
  "startCheck opt check db =
     bindR (guardR (ck_chainId check = ro_chainId opt \<and> cp_chainId (ck_checkpoint check) = ck_chainId check)
       CheckChainMismatch) (\<lambda>_. Inr (checkStillStored check db))"

definition handleCheckFailure ::
  "PendingCanonicalCheck \<Rightarrow> int \<Rightarrow> 'f IndexerDb \<Rightarrow> sync_error + bool \<times> 'f IndexerDb"
where
  "handleCheckFailure check retryAt db =
     (if cp_revision (captureChainSyncCheckpoint (idb_chain db) (ck_chainId check)) = cp_revision (ck_checkpoint check)
      then bindR (deferCheck check retryAt (idb_chain db)) (\<lambda>chain. Inr (False, db\<lparr> idb_chain := chain \<rparr>))
      else Inr (False, db))"

definition finishCheck ::
  "ReorgRecoveryOptions \<Rightarrow> PendingCanonicalCheck \<Rightarrow> (sync_error + SyncBlockHeader) \<Rightarrow> string \<Rightarrow> int
    \<Rightarrow> int \<Rightarrow> 'f IndexerDb \<Rightarrow> sync_error + bool \<times> 'f IndexerDb"
where
  "finishCheck opt check answer recoveryId now later db =
     (let attempt = bindR answer (\<lambda>block.
            if hdr_number block \<noteq> ck_blockNumber check then Inl WrongBlock
            else if hdr_hash block = ck_blockHash check
            then bindR (completeCheck check (idb_chain db)) (\<lambda>(done, chain). Inr (False, db\<lparr> idb_chain := chain \<rparr>))
            else bindR (retainMismatch
                   \<lparr> mm_checkpoint = ck_checkpoint check, mm_recoveryId = recoveryId,
                     mm_checkedBlock = ck_blockNumber check, mm_storedHash = ck_blockHash check,
                     mm_observedHash = hdr_hash block, mm_now = now \<rparr> db)
                   (\<lambda>(retained, db1). Inr (True, db1)))
      in case attempt of
           Inl e \<Rightarrow> handleCheckFailure check (later + ro_retryDelayMs opt) db
         | Inr r \<Rightarrow> Inr r)"

text \<open>
  \<open>resume\<close> first reads the journal and the revision: nothing is due, the revision moved on and the
  journal is refreshed, the ranges belong to the sync runtime, or a proof is attempted.
\<close>

datatype ResumeDecision = NotDue | Refresh ReorgRecoveryState ChainSyncCheckpoint | LeaveToSync
  | Prove AwaitingReorgAncestor

definition resumeStart :: "ReorgRecoveryOptions \<Rightarrow> int \<Rightarrow> 'f IndexerDb \<Rightarrow> sync_error + ResumeDecision" where
  "resumeStart opt now db =
     bindR (getRecovery db (ro_chainId opt)) (\<lambda>current.
       Inr (case current of
              None \<Rightarrow> NotDue
            | Some recovery \<Rightarrow>
                if rb_retryAt (base_of recovery) > now then NotDue
                else
                  let checkpoint = captureChainSyncCheckpoint (idb_chain db) (ro_chainId opt) in
                  if cp_revision checkpoint \<noteq> rb_revision (base_of recovery) then Refresh recovery checkpoint
                  else case recovery of Resync _ \<Rightarrow> LeaveToSync | AwaitingAncestor a \<Rightarrow> Prove a))"

text \<open>
  \<open>finishResume\<close> is the rest of \<open>resume\<close> once a proof is attempted: from the result of
  \<open>findCommonAncestor\<close>, the prepared rollback and the observed head, each of which may be a failure.
\<close>

definition attemptResume ::
  "('f, 'd) FactsPort \<Rightarrow> ReorgRecoveryOptions \<Rightarrow> AwaitingReorgAncestor \<Rightarrow> ReorgAncestorProof
    \<Rightarrow> (sync_error + ReorgRollbackPlan \<times> Erc721RollbackSnapshot) \<Rightarrow> (sync_error + int) \<Rightarrow> int
    \<Rightarrow> 'f IndexerDb \<Rightarrow> sync_error + 'f IndexerDb"
where
  "attemptResume port opt recovery prf prepared observedHead now db =
     bindR prepared (\<lambda>(plan, snapshot).
     bindR (guardR (cp_revision (pl_checkpoint plan) = rb_revision recovery) RevisionChanged) (\<lambda>_.
     bindR observedHead (\<lambda>head.
     bindR (beginReorgResync recovery (pl_fromBlock plan) head (ro_batchSize opt) now) (\<lambda>upcoming.
       commitRollbackAndResync port recovery prf plan snapshot upcoming db))))"

definition finishResume ::
  "('f, 'd) FactsPort \<Rightarrow> ReorgRecoveryOptions \<Rightarrow> AwaitingReorgAncestor
    \<Rightarrow> (sync_error + ReorgAncestorProof option)
    \<Rightarrow> (sync_error + ReorgRollbackPlan \<times> Erc721RollbackSnapshot) \<Rightarrow> (sync_error + int) \<Rightarrow> int \<Rightarrow> int
    \<Rightarrow> string \<Rightarrow> 'f IndexerDb \<Rightarrow> 'f IndexerDb"
where
  "finishResume port opt recovery found prepared observedHead now later message db =
     (case found of
        Inl e \<Rightarrow> deferProof recovery (later + ro_retryDelayMs opt) (Some message) db
      | Inr None \<Rightarrow>
          deferProof recovery (later + ro_retryDelayMs opt) (Some ''No verified common ancestor'') db
      | Inr (Some prf) \<Rightarrow>
          (case attemptResume port opt recovery prf prepared observedHead now db of
             Inl e \<Rightarrow> deferProof recovery (later + ro_retryDelayMs opt) (Some message) db
           | Inr db' \<Rightarrow> db'))"

end
