(* ===== verification/Sync_Gaps.thy ===== *)
theory Sync_Gaps
  imports Chain_Store "HOL-Library.Product_Lexorder"
begin

text \<open>
  Gap repair of the indexer: which blocks of a collection are missing
  (\<^verbatim>\<open>indexer/src/infra/storage/sqlite-sync-gaps.ts\<close>), which ranges are retained for repair and how
  they are batched (\<^verbatim>\<open>indexer/src/domain/sync-gap-repair.ts\<close>).

  The rows of \<open>collection_sync_gap_scans\<close> are stored under their primary key, the chain and the
  collection.  Their four columns \<open>pending_*\<close>, \<open>retry_at\<close> are null together by a check of the table, so
  they are one optional value.
\<close>

section \<open>Ranges and progress\<close>

record SyncGapRange =
  gr_fromBlock :: int
  gr_toBlock :: int

record PendingSyncGapRepair = SyncGapRange +
  pr_repairId :: string
  pr_retryAt :: int

record SyncGapProgress =
  gp_anchorBlock :: int
  gp_cursorBlock :: "int option"
  gp_pending :: "PendingSyncGapRepair option"
  gp_lastHeadCheckAt :: "int option"

record SyncGapRepairTarget = SyncGapRange +
  rt_collectionId :: int
  rt_repairId :: string
  rt_anchorBlock :: int

type_synonym Coverage = "(int \<times> int \<times> int) list"
type_synonym Scans = "((int \<times> int) \<times> SyncGapProgress) list"

definition gapRepairWindow :: "CollectionRow \<Rightarrow> int \<Rightarrow> SyncGapRange option" where
  "gapRepairWindow collection headBlock =
     (case cr_anchor collection of
        None \<Rightarrow> None
      | Some anchor \<Rightarrow>
          if cr_status collection \<noteq> Live \<or> \<not> safe_integer anchor \<or> anchor < 1 \<or>
             \<not> safe_integer headBlock \<or> anchor > headBlock then None
          else Some \<lparr> gr_fromBlock = anchor, gr_toBlock = headBlock \<rparr>)"

text \<open>The stored progress still holds exactly the repair: its anchor, id and range.\<close>

definition holds_repair :: "SyncGapProgress option \<Rightarrow> SyncGapRepairTarget \<Rightarrow> bool" where
  "holds_repair progress repair \<longleftrightarrow>
     (case progress of None \<Rightarrow> False | Some p \<Rightarrow>
        gp_anchorBlock p = rt_anchorBlock repair \<and>
        (case gp_pending p of None \<Rightarrow> False | Some q \<Rightarrow>
           pr_repairId q = rt_repairId repair \<and> gr_fromBlock q = gr_fromBlock repair \<and>
           gr_toBlock q = gr_toBlock repair))"

definition isCurrentSyncGapRepair ::
  "int \<Rightarrow> SyncGapRepairTarget \<Rightarrow> CollectionRow option \<Rightarrow> SyncGapProgress option \<Rightarrow> bool"
where
  "isCurrentSyncGapRepair chainId repair collection progress \<longleftrightarrow>
     (case collection of None \<Rightarrow> False | Some c \<Rightarrow>
        chainId = cr_chainId c \<and>
        (case gapRepairWindow c (gr_toBlock repair) of None \<Rightarrow> False | Some w \<Rightarrow>
           rt_anchorBlock repair = gr_fromBlock w \<and> gr_fromBlock repair \<ge> gr_fromBlock w \<and>
           holds_repair progress repair))"

definition remainingSyncGapRepairRange :: "SyncGapRepairTarget \<Rightarrow> int \<Rightarrow> SyncGapRange option" where
  "remainingSyncGapRepairRange repair repairedFromBlock =
     (if repairedFromBlock > gr_fromBlock repair
      then Some \<lparr> gr_fromBlock = gr_fromBlock repair, gr_toBlock = repairedFromBlock - 1 \<rparr> else None)"

section \<open>Batches of repairs\<close>

record SyncGapRepairBatch = SyncGapRange +
  gb_repairs :: "SyncGapRepairTarget list"

record SyncGapRepairCandidate =
  gc_repair :: SyncGapRepairTarget
  gc_missing :: SyncGapRange

definition plan_order :: "SyncGapRepairCandidate \<Rightarrow> int \<times> int" where
  "plan_order c = (- gr_toBlock (gc_missing c), rt_collectionId (gc_repair c))"

text \<open>The outer loop of \<open>planSyncGapRepairBatches\<close>; the inner one takes the members of equal upper bound.\<close>

definition same_top :: "SyncGapRepairCandidate \<Rightarrow> SyncGapRepairCandidate \<Rightarrow> bool" where
  "same_top first c \<longleftrightarrow> gr_toBlock (gc_missing c) = gr_toBlock (gc_missing first)"

definition batch_of :: "int \<Rightarrow> SyncGapRepairCandidate \<Rightarrow> SyncGapRepairCandidate list \<Rightarrow> SyncGapRepairBatch" where
  "batch_of batchSize first members =
     (let lowerBound = gr_toBlock (gc_missing first) - batchSize + 1 in
      \<lparr> gr_fromBlock = fold (\<lambda>c fromBlock. max fromBlock (gr_fromBlock (gc_missing c))) members
                        (max (gr_fromBlock (gc_missing first)) lowerBound),
        gr_toBlock = gr_toBlock (gc_missing first),
        gb_repairs = sort_key rt_collectionId (map gc_repair (first # members)) \<rparr>)"

function planLoop :: "int \<Rightarrow> SyncGapRepairCandidate list \<Rightarrow> SyncGapRepairBatch list" where
  "planLoop batchSize [] = []"
| "planLoop batchSize (first # pending) =
     batch_of batchSize first (takeWhile (same_top first) pending) #
     planLoop batchSize (dropWhile (same_top first) pending)"
  by pat_completeness auto
termination by (relation "measure (length \<circ> snd)") (auto simp: le_imp_less_Suc length_dropWhile_le)

definition planSyncGapRepairBatches ::
  "SyncGapRepairCandidate list \<Rightarrow> int \<Rightarrow> string + SyncGapRepairBatch list"
where
  "planSyncGapRepairBatches candidates batchSize =
     (if \<not> safe_integer batchSize \<or> batchSize < 1
      then Inl ''Gap repair batch size must be a positive safe integer''
      else Inr (planLoop batchSize (sort_key plan_order candidates)))"

section \<open>Coverage\<close>

definition covered_blocks :: "Coverage \<Rightarrow> int \<Rightarrow> int \<Rightarrow> int \<Rightarrow> int \<Rightarrow> int list" where
  "covered_blocks coverage chainId collectionId lower upper =
     [b. (c, i, b) \<leftarrow> coverage, c = chainId \<and> i = collectionId \<and> lower \<le> b \<and> b \<le> upper]"

definition selectCoverage :: "Coverage \<Rightarrow> int \<Rightarrow> int \<Rightarrow> int \<Rightarrow> int \<Rightarrow> int list" where
  "selectCoverage coverage chainId collectionId lower upper =
     rev (sort (covered_blocks coverage chainId collectionId lower upper))"

definition countCoverage :: "Coverage \<Rightarrow> int \<Rightarrow> int \<Rightarrow> int \<Rightarrow> int \<Rightarrow> int" where
  "countCoverage coverage chainId collectionId lower upper =
     int (length (covered_blocks coverage chainId collectionId lower upper))"

text \<open>The loop of \<open>findGap\<close> over the covered blocks, in descending order.\<close>

fun findGapLoop :: "int \<Rightarrow> int \<Rightarrow> int \<Rightarrow> int list \<Rightarrow> SyncGapRange option" where
  "findGapLoop fromBlock batchSize cursor [] =
     (if cursor < fromBlock then None
      else Some \<lparr> gr_fromBlock = max fromBlock (cursor - batchSize + 1), gr_toBlock = cursor \<rparr>)"
| "findGapLoop fromBlock batchSize cursor (b # bs) =
     (if b < cursor
      then Some \<lparr> gr_fromBlock = max (b + 1) (cursor - batchSize + 1), gr_toBlock = cursor \<rparr>
      else findGapLoop fromBlock batchSize (b - 1) bs)"

definition findGap :: "Coverage \<Rightarrow> int \<Rightarrow> int \<Rightarrow> SyncGapRange \<Rightarrow> int \<Rightarrow> SyncGapRange option" where
  "findGap coverage chainId collectionId window batchSize =
     findGapLoop (gr_fromBlock window) batchSize (gr_toBlock window)
       (selectCoverage coverage chainId collectionId (gr_fromBlock window) (gr_toBlock window))"

text \<open>The binary search of \<open>findNewestGap\<close> for the newest missing block, on the number of covered ones.\<close>

function searchNewest :: "(int \<Rightarrow> int \<Rightarrow> int) \<Rightarrow> int \<Rightarrow> int \<Rightarrow> int" where
  "searchNewest cnt lower upper =
     (if lower < upper
      then let middle = (lower + upper + 1) div 2 in
           if cnt middle upper < upper - middle + 1 then searchNewest cnt middle upper
           else searchNewest cnt lower (middle - 1)
      else upper)"
  by auto
termination by (relation "measure (\<lambda>(cnt, lower, upper). nat (upper - lower))") auto

declare searchNewest.simps [simp del]

definition findNewestGap :: "Coverage \<Rightarrow> int \<Rightarrow> int \<Rightarrow> SyncGapRange \<Rightarrow> int \<Rightarrow> SyncGapRange option" where
  "findNewestGap coverage chainId collectionId window batchSize =
     (let fromB = gr_fromBlock window; toB = gr_toBlock window;
          cnt = countCoverage coverage chainId collectionId; covered = cnt fromB toB
      in if covered = toB - fromB + 1 then None
         else let newest = (if covered > 0 then searchNewest cnt fromB toB else toB)
              in findGap coverage chainId collectionId
                   \<lparr> gr_fromBlock = max fromB (newest - batchSize + 1), gr_toBlock = newest \<rparr> batchSize)"

section \<open>The table of progress\<close>

definition getProgress :: "Scans \<Rightarrow> int \<Rightarrow> int \<Rightarrow> SyncGapProgress option" where
  "getProgress scans chainId collectionId = map_of scans (chainId, collectionId)"

text \<open>\<open>ON CONFLICT DO NOTHING\<close> and the compared update: whether a row changed, and the table.\<close>

definition saveProgress ::
  "int \<Rightarrow> int \<Rightarrow> SyncGapProgress option \<Rightarrow> SyncGapProgress \<Rightarrow> Scans \<Rightarrow> bool \<times> Scans"
where
  "saveProgress chainId collectionId expected progress scans =
     (if map_of scans (chainId, collectionId) = expected
      then (True, AList.update (chainId, collectionId) progress scans) else (False, scans))"

definition deferRetry :: "int \<Rightarrow> SyncGapRepairTarget \<Rightarrow> int \<Rightarrow> Scans \<Rightarrow> Scans" where
  "deferRetry chainId repair retryAt scans =
     (let key = (chainId, rt_collectionId repair) in
      if holds_repair (map_of scans key) repair
      then AList.map_entry key (gp_pending_update (map_option (pr_retryAt_update (\<lambda>_. retryAt)))) scans
      else scans)"

definition recordRepairProgress ::
  "int \<Rightarrow> SyncGapRepairTarget \<Rightarrow> SyncGapRange option \<Rightarrow> int \<Rightarrow> Scans \<Rightarrow> bool \<times> Scans"
where
  "recordRepairProgress chainId repair remaining retryAt scans =
     (let key = (chainId, rt_collectionId repair) in
      if holds_repair (map_of scans key) repair
      then (True, AList.map_entry key (gp_pending_update (\<lambda>_.
              case remaining of None \<Rightarrow> None
              | Some r \<Rightarrow> Some \<lparr> gr_fromBlock = gr_fromBlock r, gr_toBlock = gr_toBlock r,
                                 pr_repairId = rt_repairId repair, pr_retryAt = retryAt \<rparr>)) scans)
      else (False, scans))"

definition reconcileRepairCoverage ::
  "Coverage \<Rightarrow> int \<Rightarrow> SyncGapRepairTarget \<Rightarrow> int \<Rightarrow> int \<Rightarrow> Scans \<Rightarrow> SyncGapRepairCandidate option \<times> Scans"
where
  "reconcileRepairCoverage coverage chainId repair batchSize now scans =
     (if \<not> holds_repair (getProgress scans chainId (rt_collectionId repair)) repair then (None, scans)
      else
        let window = \<lparr> gr_fromBlock = max (gr_fromBlock repair) (gr_toBlock repair - batchSize + 1),
                       gr_toBlock = gr_toBlock repair \<rparr>;
            missing = findGap coverage chainId (rt_collectionId repair) window batchSize;
            toBlock = (case missing of None \<Rightarrow> gr_fromBlock window - 1 | Some m \<Rightarrow> gr_toBlock m);
            scans1 = (if toBlock \<noteq> gr_toBlock repair
                      then snd (recordRepairProgress chainId repair
                             (if toBlock \<ge> gr_fromBlock repair
                              then Some \<lparr> gr_fromBlock = gr_fromBlock repair, gr_toBlock = toBlock \<rparr> else None)
                             now scans)
                      else scans)
        in (case missing of None \<Rightarrow> None
            | Some m \<Rightarrow> Some \<lparr> gc_repair = repair\<lparr> gr_toBlock := toBlock \<rparr>, gc_missing = m \<rparr>, scans1))"

section \<open>Queries over live collections\<close>

text \<open>The join of the progress with the live collection of the same anchor.\<close>

definition live_progress :: "CollectionRow list \<Rightarrow> int \<Rightarrow> Scans \<Rightarrow> (int \<times> SyncGapProgress) list" where
  "live_progress collections chainId scans =
     [(i, p). ((c, i), p) \<leftarrow> scans, c = chainId \<and>
        list_ex (\<lambda>col. cr_collectionId col = i \<and> cr_chainId col = c \<and> cr_status col = Live \<and>
                       cr_anchor col = Some (gp_anchorBlock p)) collections]"

definition pending_repairs :: "CollectionRow list \<Rightarrow> int \<Rightarrow> Scans \<Rightarrow> (int \<times> SyncGapRepairTarget) list" where
  "pending_repairs collections chainId scans =
     List.map_filter (\<lambda>(i, p). map_option (\<lambda>q. (pr_retryAt q,
         \<lparr> gr_fromBlock = gr_fromBlock q, gr_toBlock = gr_toBlock q, rt_collectionId = i,
           rt_repairId = pr_repairId q, rt_anchorBlock = gp_anchorBlock p \<rparr>)) (gp_pending p))
       (live_progress collections chainId scans)"

definition selectNewest :: "CollectionRow list \<Rightarrow> int \<Rightarrow> int \<Rightarrow> Scans \<Rightarrow> int option" where
  "selectNewest collections chainId upperBound scans =
     (case rev (sort (filter (\<lambda>t. t \<le> upperBound)
             (map (gr_toBlock \<circ> snd) (pending_repairs collections chainId scans)))) of
        [] \<Rightarrow> None | t # _ \<Rightarrow> Some t)"

definition listDueRepairsAtNewestPendingHeight ::
  "CollectionRow list \<Rightarrow> int \<Rightarrow> int \<Rightarrow> nat \<Rightarrow> int \<Rightarrow> Scans \<Rightarrow> SyncGapRepairTarget list"
where
  "listDueRepairsAtNewestPendingHeight collections chainId now limit upperBound scans =
     (case selectNewest collections chainId upperBound scans of
        None \<Rightarrow> []
      | Some t \<Rightarrow>
          map snd (take limit (sort_key (\<lambda>(retryAt, r). (retryAt, rt_collectionId r))
            (filter (\<lambda>(retryAt, r). gr_toBlock r = t \<and> retryAt \<le> now)
              (pending_repairs collections chainId scans)))))"

text \<open>Positions in the order of the HEAD checks.\<close>

record SyncGapHeadCheckPosition =
  hc_collectionId :: int
  hc_lastHeadCheckAt :: "int option"

definition head_position :: "int \<times> SyncGapProgress \<Rightarrow> SyncGapHeadCheckPosition" where
  "head_position = (\<lambda>(i, p). \<lparr> hc_collectionId = i, hc_lastHeadCheckAt = gp_lastHeadCheckAt p \<rparr>)"

definition hasHeadRechecksDue :: "CollectionRow list \<Rightarrow> int \<Rightarrow> int \<Rightarrow> Scans \<Rightarrow> bool" where
  "hasHeadRechecksDue collections chainId checkedBefore scans \<longleftrightarrow>
     list_ex (\<lambda>(i, p). case gp_lastHeadCheckAt p of None \<Rightarrow> True | Some t \<Rightarrow> t \<le> checkedBefore)
       (live_progress collections chainId scans)"

definition listHeadRechecksAfter ::
  "CollectionRow list \<Rightarrow> int \<Rightarrow> int \<Rightarrow> int \<Rightarrow> nat \<Rightarrow> SyncGapHeadCheckPosition option \<Rightarrow> Scans
    \<Rightarrow> SyncGapHeadCheckPosition list"
where
  "listHeadRechecksAfter collections chainId checkedBefore headBlock limit after scans =
     (let eligible = filter (\<lambda>(i, p). gp_anchorBlock p \<le> headBlock) (live_progress collections chainId scans);
          afterTime = (case after of None \<Rightarrow> None | Some a \<Rightarrow> hc_lastHeadCheckAt a);
          unchecked =
            (if afterTime = None
             then take limit (sort_key fst (filter (\<lambda>(i, p). gp_lastHeadCheckAt p = None \<and>
                    i > (case after of None \<Rightarrow> 0 | Some a \<Rightarrow> hc_collectionId a)) eligible))
             else []);
          due =
            (if length unchecked < limit
             then take (limit - length unchecked)
                    (sort_key (\<lambda>(i, p). (the (gp_lastHeadCheckAt p), i))
                      (filter (\<lambda>(i, p). case gp_lastHeadCheckAt p of None \<Rightarrow> False
                         | Some t \<Rightarrow> t \<le> checkedBefore \<and>
                             (t, i) > (case afterTime of None \<Rightarrow> -1 | Some tm \<Rightarrow> tm,
                                       case (after, afterTime) of (Some a, Some _) \<Rightarrow> hc_collectionId a | _ \<Rightarrow> 0))
                       eligible))
             else [])
      in map head_position (unchecked @ due))"

end
