(* ===== verification/Sync_Gap_Scheduler.thy ===== *)
theory Sync_Gap_Scheduler
  imports Sync_Gaps
begin

text \<open>
  The scheduler of gap repairs (\<^verbatim>\<open>indexer/src/application/sync-gap-scheduler.ts\<close>): it looks for missing
  blocks of the live collections, from the chain's head backwards, and retains at most one range per
  collection for repair.

  Scanner and sync worker are separate processes with one scheduler each, and both write the table of
  progress.  The parameter \<open>access\<close> is what happens before the \<open>k\<close>-th access to the store on behalf of a
  collection (0 reads the progress, 1 searches the coverage, 2 saves): \<open>Some f\<close> is what the other processes
  have committed in between, \<open>None\<close> an access that throws.  The clock is read once per operation; \<open>uuid\<close>
  gives the random part of a repair id for each collection.
\<close>

section \<open>State\<close>

record GapStore =
  gs_coverage :: Coverage
  gs_scans :: Scans
  gs_collections :: "CollectionRow list"

type_synonym Access = "int \<Rightarrow> nat \<Rightarrow> GapStore \<Rightarrow> GapStore option"

record SyncGapSchedulerOptions =
  so_chainId :: int
  so_batchSize :: int
  so_scanWindowBlocks :: "int option"
  so_collectionsPerPass :: "int option"
  so_headRecheckIntervalMs :: "int option"

definition windowSize :: "SyncGapSchedulerOptions \<Rightarrow> int" where
  "windowSize opt = (case so_scanWindowBlocks opt of None \<Rightarrow> 10000 | Some n \<Rightarrow> n)"

definition pageSize :: "SyncGapSchedulerOptions \<Rightarrow> int" where
  "pageSize opt = (case so_collectionsPerPass opt of None \<Rightarrow> 16 | Some n \<Rightarrow> n)"

definition headRecheckIntervalMs :: "SyncGapSchedulerOptions \<Rightarrow> int" where
  "headRecheckIntervalMs opt = (case so_headRecheckIntervalMs opt of None \<Rightarrow> 30 * 60000 | Some n \<Rightarrow> n)"

definition valid_limits :: "SyncGapSchedulerOptions \<Rightarrow> bool" where
  "valid_limits opt \<longleftrightarrow>
     list_all (\<lambda>v. safe_integer v \<and> 1 \<le> v)
       [so_batchSize opt, windowSize opt, pageSize opt, headRecheckIntervalMs opt]"

record HeadCheckTraversal =
  ht_checkedBefore :: int
  ht_after :: "SyncGapHeadCheckPosition option"

record EligibleCheckTraversal =
  et_upperBound :: int
  et_afterCollectionId :: int
  et_failed :: bool

record EligibleCheck =
  ec_anchorBlock :: int
  ec_upperBound :: int

record SyncGapScheduler =
  sg_afterCollectionId :: int
  sg_resumeTraversal :: "EligibleCheckTraversal option"
  sg_headCheckTraversal :: "HeadCheckTraversal option"
  sg_eligibleTraversal :: "EligibleCheckTraversal option"
  sg_eligibleCompletedBound :: "int option"
  sg_eligibleChecked :: "(int \<times> EligibleCheck) list"
  sg_active :: "bool option"
  sg_roundHasOlderWindows :: bool
  sg_roundHasUnfinishedCollections :: bool
  sg_completed :: "(int \<times> int) list"
  sg_cycleCompletedAt :: "int option"
  sg_restartFromHead :: bool

definition SyncGapScheduler_new :: SyncGapScheduler where
  "SyncGapScheduler_new =
     \<lparr> sg_afterCollectionId = 0, sg_resumeTraversal = None, sg_headCheckTraversal = None,
       sg_eligibleTraversal = None, sg_eligibleCompletedBound = None, sg_eligibleChecked = [], sg_active = None,
       sg_roundHasOlderWindows = False, sg_roundHasUnfinishedCollections = False, sg_completed = [],
       sg_cycleCompletedAt = None, sg_restartFromHead = False \<rparr>"

section \<open>Collections\<close>

definition listCollectionsForGapRepair :: "CollectionRow list \<Rightarrow> int \<Rightarrow> int \<Rightarrow> int \<Rightarrow> CollectionRow list" where
  "listCollectionsForGapRepair collections chainId afterCollectionId limit =
     take (nat limit) (sort_key cr_collectionId (filter (\<lambda>c. cr_chainId c = chainId \<and> cr_status c = Live \<and>
       (case cr_anchor c of None \<Rightarrow> False | Some a \<Rightarrow> a \<ge> 1) \<and> cr_collectionId c > afterCollectionId) collections))"

definition getCollection :: "CollectionRow list \<Rightarrow> int \<Rightarrow> int \<Rightarrow> CollectionRow option" where
  "getCollection collections chainId collectionId =
     List.find (\<lambda>c. cr_chainId c = chainId \<and> cr_collectionId c = collectionId) collections"

definition hasCollections :: "SyncGapSchedulerOptions \<Rightarrow> GapStore \<Rightarrow> bool" where
  "hasCollections opt db \<longleftrightarrow> listCollectionsForGapRepair (gs_collections db) (so_chainId opt) 0 1 \<noteq> []"

section \<open>One collection\<close>

definition gapRepairId :: "int \<Rightarrow> int \<Rightarrow> string \<Rightarrow> string" where
  "gapRepairId chainId collectionId uuid =
     ''sync:gap:'' @ show_int chainId @ '':'' @ show_int collectionId @ '':'' @ uuid"

definition progressForGap ::
  "int \<Rightarrow> string \<Rightarrow> int \<Rightarrow> int \<Rightarrow> int \<Rightarrow> SyncGapRange option \<Rightarrow> int option \<Rightarrow> int \<Rightarrow> SyncGapProgress"
where
  "progressForGap chainId uuid now collectionId anchorBlock gap lastHeadCheckAt scannedFromBlock =
     (let nextCursor = (case gap of None \<Rightarrow> scannedFromBlock | Some g \<Rightarrow> gr_fromBlock g) - 1 in
      \<lparr> gp_anchorBlock = anchorBlock,
        gp_cursorBlock = (if nextCursor < anchorBlock then None else Some nextCursor),
        gp_pending = map_option (\<lambda>g. \<lparr> gr_fromBlock = gr_fromBlock g, gr_toBlock = gr_toBlock g,
            pr_repairId = gapRepairId chainId collectionId uuid, pr_retryAt = now \<rparr>) gap,
        gp_lastHeadCheckAt = lastHeadCheckAt \<rparr>)"

definition set_checked :: "int \<Rightarrow> int \<Rightarrow> int \<Rightarrow> SyncGapScheduler \<Rightarrow> SyncGapScheduler" where
  "set_checked collectionId anchorBlock upperBound st =
     st\<lparr> sg_eligibleChecked := AList.update collectionId
          \<lparr> ec_anchorBlock = anchorBlock, ec_upperBound = upperBound \<rparr> (sg_eligibleChecked st) \<rparr>"

definition set_completed :: "int \<Rightarrow> int \<Rightarrow> SyncGapScheduler \<Rightarrow> SyncGapScheduler" where
  "set_completed collectionId anchorBlock st =
     st\<lparr> sg_completed := AList.update collectionId anchorBlock (sg_completed st) \<rparr>"

definition reopen :: "int \<Rightarrow> SyncGapScheduler \<Rightarrow> SyncGapScheduler" where
  "reopen collectionId st =
     st\<lparr> sg_completed := AList.delete collectionId (sg_completed st), sg_cycleCompletedAt := None \<rparr>"

definition note_cursor :: "int \<Rightarrow> int \<Rightarrow> int option \<Rightarrow> SyncGapScheduler \<Rightarrow> SyncGapScheduler" where
  "note_cursor collectionId anchorBlock cursor st =
     (if cursor = None then set_completed collectionId anchorBlock st
      else st\<lparr> sg_roundHasUnfinishedCollections := True, sg_cycleCompletedAt := None \<rparr>)"

text \<open>The result of an operation on a collection, or nothing if an access threw.\<close>

type_synonym Outcome = "bool option \<times> SyncGapScheduler \<times> GapStore"

definition scanCollection ::
  "SyncGapSchedulerOptions \<Rightarrow> Access \<Rightarrow> int \<Rightarrow> string \<Rightarrow> CollectionRow \<Rightarrow> int \<Rightarrow> SyncGapScheduler \<Rightarrow> GapStore \<Rightarrow> Outcome"
where
  "scanCollection opt access now uuid collection headBlock st db =
     (case gapRepairWindow collection headBlock of None \<Rightarrow> (Some False, st, db)
      | Some window \<Rightarrow>
        let chainId = so_chainId opt; i = cr_collectionId collection; anchor = gr_fromBlock window in
        case access i 0 db of None \<Rightarrow> (None, st, db)
        | Some db0 \<Rightarrow>
          let expected = getProgress (gs_scans db0) chainId i;
              current = (case expected of Some p \<Rightarrow> gp_anchorBlock p = anchor | None \<Rightarrow> False);
              st1 = (if current then st else reopen i st);
              progress = (case expected of
                  Some p \<Rightarrow> if gp_anchorBlock p = anchor then p
                            else \<lparr> gp_anchorBlock = anchor, gp_cursorBlock = None, gp_pending = None,
                                   gp_lastHeadCheckAt = None \<rparr>
                | None \<Rightarrow> \<lparr> gp_anchorBlock = anchor, gp_cursorBlock = None, gp_pending = None,
                            gp_lastHeadCheckAt = None \<rparr>)
          in if map_of (sg_completed st1) i = Some anchor then (Some False, st1, db0)
             else if gp_pending progress \<noteq> None
             then (Some False, note_cursor i anchor (gp_cursorBlock progress) st1, db0)
             else
               let cursor = (if sg_restartFromHead st1 then None else gp_cursorBlock progress);
                   endBlock = min (case cursor of None \<Rightarrow> headBlock | Some b \<Rightarrow> b) headBlock;
                   scanWindow = \<lparr> gr_fromBlock = max anchor (endBlock - windowSize opt + 1),
                                  gr_toBlock = endBlock \<rparr>
               in case access i 1 db0 of None \<Rightarrow> (None, st1, db0)
               | Some db1 \<Rightarrow>
                 let gap = findGap (gs_coverage db1) chainId i scanWindow (so_batchSize opt);
                     progress1 = progressForGap chainId uuid now i anchor gap
                       (if cursor = None then Some now else gp_lastHeadCheckAt progress)
                       (gr_fromBlock scanWindow)
                 in case access i 2 db1 of None \<Rightarrow> (None, st1, db1)
                 | Some db2 \<Rightarrow>
                   let (saved, scans) = saveProgress chainId i expected progress1 (gs_scans db2);
                       db3 = db2\<lparr> gs_scans := scans \<rparr>
                   in if \<not> saved then (Some False, st1\<lparr> sg_roundHasUnfinishedCollections := True \<rparr>, db3)
                      else let st2 = (if cursor = None then set_checked i anchor headBlock st1 else st1);
                               st3 = note_cursor i anchor (gp_cursorBlock progress1) st2
                           in (Some (gp_pending progress1 = None \<and> gp_cursorBlock progress1 \<noteq> None), st3, db3))"

definition newerSpanStart :: "SyncGapProgress \<Rightarrow> int \<Rightarrow> int" where
  "newerSpanStart expected anchor =
     max anchor ((case gp_pending expected of Some q \<Rightarrow> gr_toBlock q
                  | None \<Rightarrow> (case gp_cursorBlock expected of Some b \<Rightarrow> b | None \<Rightarrow> anchor - 1)) + 1)"

definition retainNewestGap ::
  "SyncGapSchedulerOptions \<Rightarrow> Access \<Rightarrow> int \<Rightarrow> string \<Rightarrow> CollectionRow \<Rightarrow> int \<Rightarrow> SyncGapProgress option
    \<Rightarrow> SyncGapScheduler \<Rightarrow> GapStore \<Rightarrow> Outcome"
where
  "retainNewestGap opt access now uuid collection headBlock expected st db =
     (case (gapRepairWindow collection headBlock, expected) of
        (Some window, Some e) \<Rightarrow>
          (if gp_anchorBlock e \<noteq> gr_fromBlock window then (Some False, st, db)
           else
             let chainId = so_chainId opt; i = cr_collectionId collection; anchor = gr_fromBlock window;
                 fromBlock = newerSpanStart e anchor
             in case (if fromBlock \<le> headBlock then access i 1 db else Some db) of None \<Rightarrow> (None, st, db)
             | Some db1 \<Rightarrow>
               let gap = (if fromBlock \<le> headBlock
                          then findNewestGap (gs_coverage db1) chainId i
                                 \<lparr> gr_fromBlock = fromBlock, gr_toBlock = headBlock \<rparr> (so_batchSize opt)
                          else None);
                   progress = (case gap of
                       Some g \<Rightarrow> progressForGap chainId uuid now i anchor (Some g) (Some now) fromBlock
                     | None \<Rightarrow> e\<lparr> gp_lastHeadCheckAt := Some now \<rparr>)
               in case access i 2 db1 of None \<Rightarrow> (None, st, db1)
               | Some db2 \<Rightarrow>
                 let (saved, scans) = saveProgress chainId i (Some e) progress (gs_scans db2);
                     db3 = db2\<lparr> gs_scans := scans \<rparr>;
                     st1 = (if saved then set_checked i anchor headBlock st else st);
                     st2 = (if saved \<and> gap \<noteq> None then reopen i st1
                            else if saved \<and> gp_pending e = None \<and> gp_cursorBlock e = None
                            then set_completed i anchor st1 else st1)
                 in (Some (saved \<and> gap \<noteq> None), st2, db3))
      | _ \<Rightarrow> (Some False, st, db))"

definition checkEligibleCollection ::
  "SyncGapSchedulerOptions \<Rightarrow> Access \<Rightarrow> int \<Rightarrow> string \<Rightarrow> CollectionRow \<Rightarrow> int \<Rightarrow> SyncGapScheduler \<Rightarrow> GapStore \<Rightarrow> Outcome"
where
  "checkEligibleCollection opt access now uuid collection upperBound st db =
     (case gapRepairWindow collection upperBound of None \<Rightarrow> (Some True, st, db)
      | Some window \<Rightarrow>
        let chainId = so_chainId opt; i = cr_collectionId collection; anchor = gr_fromBlock window;
            checked = map_of (sg_eligibleChecked st) i
        in if (case checked of Some k \<Rightarrow> ec_anchorBlock k = anchor \<and> ec_upperBound k \<ge> upperBound | None \<Rightarrow> False)
           then (Some True, st, db)
           else case access i 0 db of None \<Rightarrow> (None, st, db)
           | Some db0 \<Rightarrow>
             (case getProgress (gs_scans db0) chainId i of None \<Rightarrow> (Some True, st, db0)
              | Some e \<Rightarrow>
                if gp_anchorBlock e \<noteq> anchor then (Some True, st, db0)
                else
                  case (case checked of Some k \<Rightarrow> if ec_anchorBlock k = anchor then Some k else None | None \<Rightarrow> None) of
                    None \<Rightarrow>
                      (case retainNewestGap opt access now uuid collection upperBound (Some e) st db0 of
                         (None, st1, db1) \<Rightarrow> (None, st1, db1)
                       | (Some _, st1, db1) \<Rightarrow>
                           (Some (map_option ec_upperBound (map_of (sg_eligibleChecked st1) i) = Some upperBound),
                            st1, db1))
                  | Some k \<Rightarrow>
                      let fromBlock = max (max anchor (ec_upperBound k + 1))
                            ((case gp_pending e of Some q \<Rightarrow> gr_toBlock q | None \<Rightarrow> 0) + 1)
                      in case (if fromBlock \<le> upperBound then access i 1 db0 else Some db0) of None \<Rightarrow> (None, st, db0)
                      | Some db1 \<Rightarrow>
                        let gap = (if fromBlock \<le> upperBound
                                   then findNewestGap (gs_coverage db1) chainId i
                                          \<lparr> gr_fromBlock = fromBlock, gr_toBlock = upperBound \<rparr> (so_batchSize opt)
                                   else None)
                        in case gap of
                             None \<Rightarrow> (Some True, set_checked i anchor upperBound st, db1)
                           | Some g \<Rightarrow>
                               (case access i 2 db1 of None \<Rightarrow> (None, st, db1)
                                | Some db2 \<Rightarrow>
                                  let (saved, scans) = saveProgress chainId i (Some e)
                                        (progressForGap chainId uuid now i anchor (Some g) (gp_lastHeadCheckAt e) fromBlock)
                                        (gs_scans db2);
                                      db3 = db2\<lparr> gs_scans := scans \<rparr>
                                  in if \<not> saved then (Some False, st, db3)
                                     else (Some True, set_checked i anchor upperBound (reopen i st), db3))))"

definition recheckCollection ::
  "SyncGapSchedulerOptions \<Rightarrow> Access \<Rightarrow> int \<Rightarrow> string \<Rightarrow> CollectionRow \<Rightarrow> int \<Rightarrow> int \<Rightarrow> SyncGapScheduler \<Rightarrow> GapStore
    \<Rightarrow> Outcome"
where
  "recheckCollection opt access now uuid collection headBlock checkedBefore st db =
     (case access (cr_collectionId collection) 0 db of None \<Rightarrow> (None, st, db)
      | Some db0 \<Rightarrow>
        let expected = getProgress (gs_scans db0) (so_chainId opt) (cr_collectionId collection) in
        if (case expected of None \<Rightarrow> False | Some e \<Rightarrow>
              (case gp_lastHeadCheckAt e of None \<Rightarrow> False | Some t \<Rightarrow> t > checkedBefore))
        then (Some False, st, db0)
        else retainNewestGap opt access now uuid collection headBlock expected st db0)"

section \<open>Pages of collections\<close>

definition valid_head :: "int \<Rightarrow> bool" where
  "valid_head headBlock \<longleftrightarrow> safe_integer headBlock \<and> 1 \<le> headBlock"

type_synonym SchedulerStep = "CollectionRow \<Rightarrow> SyncGapScheduler \<Rightarrow> GapStore \<Rightarrow> SyncGapScheduler \<times> GapStore"

fun forCollections ::
  "SchedulerStep \<Rightarrow> CollectionRow list \<Rightarrow> SyncGapScheduler \<Rightarrow> GapStore \<Rightarrow> SyncGapScheduler \<times> GapStore"
where
  "forCollections step [] st db = (st, db)"
| "forCollections step (c # cs) st db = (case step c st db of (st1, db1) \<Rightarrow> forCollections step cs st1 db1)"

definition scanStep ::
  "SyncGapSchedulerOptions \<Rightarrow> Access \<Rightarrow> int \<Rightarrow> (int \<Rightarrow> string) \<Rightarrow> int \<Rightarrow> SchedulerStep"
where
  "scanStep opt access now uuid headBlock c st db =
     (case scanCollection opt access now (uuid (cr_collectionId c)) c headBlock
             (st\<lparr> sg_afterCollectionId := cr_collectionId c \<rparr>) db of
        (None, st1, db1) \<Rightarrow> (st1, db1)
      | (Some older, st1, db1) \<Rightarrow>
          (st1\<lparr> sg_roundHasOlderWindows := older \<or> sg_roundHasOlderWindows st1 \<rparr>, db1))"

definition scanPage ::
  "SyncGapSchedulerOptions \<Rightarrow> Access \<Rightarrow> int \<Rightarrow> (int \<Rightarrow> string) \<Rightarrow> int \<Rightarrow> SyncGapScheduler \<Rightarrow> GapStore
    \<Rightarrow> bool \<times> SyncGapScheduler \<times> GapStore"
where
  "scanPage opt access now uuid headBlock st db =
     (if \<not> valid_head headBlock then (False, st, db)
      else
        let collections = listCollectionsForGapRepair (gs_collections db) (so_chainId opt)
              (sg_afterCollectionId st) (pageSize opt);
            (st1, db1) = forCollections (scanStep opt access now uuid headBlock) collections st db
        in if int (length collections) = pageSize opt then (True, st1, db1)
           else
             (sg_roundHasOlderWindows st1,
              st1\<lparr> sg_afterCollectionId := 0, sg_restartFromHead := False,
                   sg_cycleCompletedAt :=
                     (if \<not> sg_roundHasUnfinishedCollections st1 \<and> sg_cycleCompletedAt st1 = None
                      then Some now else sg_cycleCompletedAt st1),
                   sg_roundHasOlderWindows := False, sg_roundHasUnfinishedCollections := False \<rparr>, db1))"

definition resetDiscovery :: "SyncGapScheduler \<Rightarrow> SyncGapScheduler" where
  "resetDiscovery st =
     st\<lparr> sg_completed := [], sg_cycleCompletedAt := None, sg_afterCollectionId := 0,
         sg_roundHasOlderWindows := False, sg_roundHasUnfinishedCollections := False,
         sg_restartFromHead := True, sg_eligibleChecked := [], sg_eligibleCompletedBound := None,
         sg_eligibleTraversal := None, sg_resumeTraversal := None \<rparr>"

text \<open>
  \<open>scan\<close> starts a page unless one is active; the page runs before \<open>scan\<close> returns and \<open>settleScan\<close> is the
  callback that clears the active promise.
\<close>

definition scan ::
  "SyncGapSchedulerOptions \<Rightarrow> Access \<Rightarrow> int \<Rightarrow> (int \<Rightarrow> string) \<Rightarrow> int \<Rightarrow> SyncGapScheduler \<Rightarrow> GapStore
    \<Rightarrow> bool \<times> SyncGapScheduler \<times> GapStore"
where
  "scan opt access now uuid headBlock st db =
     (case sg_active st of
        Some r \<Rightarrow> (r, st, db)
      | None \<Rightarrow>
          let st1 = (case sg_cycleCompletedAt st of
                Some t \<Rightarrow> if now - t \<ge> headRecheckIntervalMs opt then resetDiscovery st else st
              | None \<Rightarrow> st);
              (more, st2, db2) = scanPage opt access now uuid headBlock st1 db
          in (more, st2\<lparr> sg_active := Some more \<rparr>, db2))"

definition settleScan :: "SyncGapScheduler \<Rightarrow> SyncGapScheduler" where
  "settleScan st = st\<lparr> sg_active := None \<rparr>"

section \<open>Checks from the head\<close>

definition resumeStep ::
  "SyncGapSchedulerOptions \<Rightarrow> Access \<Rightarrow> int \<Rightarrow> (int \<Rightarrow> string) \<Rightarrow> int \<Rightarrow> SchedulerStep"
where
  "resumeStep opt access now uuid upperBound c st db =
     (let i = cr_collectionId c;
          st0 = st\<lparr> sg_resumeTraversal := map_option (et_afterCollectionId_update (\<lambda>_. i)) (sg_resumeTraversal st) \<rparr>;
          failed = sg_resumeTraversal_update (map_option (et_failed_update (\<lambda>_. True)))
      in case access i 0 db of None \<Rightarrow> (failed st0, db)
         | Some db0 \<Rightarrow>
           let expected = getProgress (gs_scans db0) (so_chainId opt) i in
           case retainNewestGap opt access now (uuid i) c upperBound expected st0 db0 of
             (None, st1, db1) \<Rightarrow> (failed st1, db1)
           | (Some _, st1, db1) \<Rightarrow>
               (if expected \<noteq> None \<and>
                   map_option gp_anchorBlock expected = map_option gr_fromBlock (gapRepairWindow c upperBound) \<and>
                   (case map_of (sg_eligibleChecked st1) i of None \<Rightarrow> 0 | Some k \<Rightarrow> ec_upperBound k) < upperBound
                then failed st1 else st1, db1))"

definition recheckOnResume ::
  "SyncGapSchedulerOptions \<Rightarrow> Access \<Rightarrow> int \<Rightarrow> (int \<Rightarrow> string) \<Rightarrow> int \<Rightarrow> SyncGapScheduler \<Rightarrow> GapStore
    \<Rightarrow> bool \<times> SyncGapScheduler \<times> GapStore"
where
  "recheckOnResume opt access now uuid headBlock st db =
     (if \<not> valid_head headBlock then (False, st, db)
      else
        let t0 = (case sg_resumeTraversal st of Some t \<Rightarrow> t
                  | None \<Rightarrow> \<lparr> et_upperBound = headBlock, et_afterCollectionId = 0, et_failed = False \<rparr>);
            upperBound = min (et_upperBound t0) headBlock;
            st0 = st\<lparr> sg_resumeTraversal := Some (t0\<lparr> et_upperBound := upperBound \<rparr>) \<rparr>;
            collections = listCollectionsForGapRepair (gs_collections db) (so_chainId opt)
              (et_afterCollectionId t0) (pageSize opt);
            (st1, db1) = forCollections (resumeStep opt access now uuid upperBound) collections st0 db
        in if int (length collections) = pageSize opt then (True, st1, db1)
           else
             (False,
              st1\<lparr> sg_eligibleCompletedBound :=
                     (case sg_resumeTraversal st1 of
                        Some t \<Rightarrow> if et_failed t then sg_eligibleCompletedBound st1 else Some upperBound
                      | None \<Rightarrow> sg_eligibleCompletedBound st1),
                   sg_resumeTraversal := None \<rparr>, db1))"

definition eligibleStep ::
  "SyncGapSchedulerOptions \<Rightarrow> Access \<Rightarrow> int \<Rightarrow> (int \<Rightarrow> string) \<Rightarrow> int \<Rightarrow> SchedulerStep"
where
  "eligibleStep opt access now uuid upperBound c st db =
     (let i = cr_collectionId c;
          st0 = st\<lparr> sg_eligibleTraversal := map_option (et_afterCollectionId_update (\<lambda>_. i)) (sg_eligibleTraversal st) \<rparr>
      in case checkEligibleCollection opt access now (uuid i) c upperBound st0 db of
           (Some True, st1, db1) \<Rightarrow> (st1, db1)
         | (_, st1, db1) \<Rightarrow> (sg_eligibleTraversal_update (map_option (et_failed_update (\<lambda>_. True))) st1, db1))"

definition recheckNewlyEligible ::
  "SyncGapSchedulerOptions \<Rightarrow> Access \<Rightarrow> int \<Rightarrow> (int \<Rightarrow> string) \<Rightarrow> int \<Rightarrow> SyncGapScheduler \<Rightarrow> GapStore
    \<Rightarrow> bool \<times> SyncGapScheduler \<times> GapStore"
where
  "recheckNewlyEligible opt access now uuid headBlock st db =
     (if \<not> valid_head headBlock then (False, st, db)
      else
        let current = (case sg_eligibleTraversal st of
              Some t \<Rightarrow> if et_upperBound t > headBlock then None else Some t | None \<Rightarrow> None);
            st0 = st\<lparr> sg_eligibleTraversal := current \<rparr>
        in if current = None \<and> (case sg_eligibleCompletedBound st of None \<Rightarrow> False | Some b \<Rightarrow> headBlock \<le> b)
           then (False, st0, db)
           else
             let t0 = (case current of Some t \<Rightarrow> t
                       | None \<Rightarrow> \<lparr> et_upperBound = headBlock, et_afterCollectionId = 0, et_failed = False \<rparr>);
                 upperBound = et_upperBound t0;
                 collections = listCollectionsForGapRepair (gs_collections db) (so_chainId opt)
                   (et_afterCollectionId t0) (pageSize opt);
                 (st1, db1) = forCollections (eligibleStep opt access now uuid upperBound) collections
                   (st\<lparr> sg_eligibleTraversal := Some t0 \<rparr>) db
             in if int (length collections) = pageSize opt then (True, st1, db1)
                else
                  (headBlock > upperBound,
                   st1\<lparr> sg_eligibleCompletedBound :=
                          (case sg_eligibleTraversal st1 of
                             Some t \<Rightarrow> if et_failed t then sg_eligibleCompletedBound st1 else Some upperBound
                           | None \<Rightarrow> sg_eligibleCompletedBound st1),
                        sg_eligibleTraversal := None \<rparr>, db1))"

definition headRechecksAfter ::
  "SyncGapSchedulerOptions \<Rightarrow> int \<Rightarrow> HeadCheckTraversal \<Rightarrow> GapStore \<Rightarrow> SyncGapHeadCheckPosition list"
where
  "headRechecksAfter opt headBlock traversal db =
     listHeadRechecksAfter (gs_collections db) (so_chainId opt) (ht_checkedBefore traversal) headBlock
       (nat (pageSize opt)) (ht_after traversal) (gs_scans db)"

fun recheckLoop ::
  "SyncGapSchedulerOptions \<Rightarrow> Access \<Rightarrow> int \<Rightarrow> (int \<Rightarrow> string) \<Rightarrow> int \<Rightarrow> int \<Rightarrow> SyncGapHeadCheckPosition list \<Rightarrow> bool
    \<Rightarrow> SyncGapScheduler \<Rightarrow> GapStore \<Rightarrow> bool \<times> SyncGapScheduler \<times> GapStore"
where
  "recheckLoop opt access now uuid headBlock checkedBefore [] replaced st db = (replaced, st, db)"
| "recheckLoop opt access now uuid headBlock checkedBefore (p # ps) replaced st db =
     (case getCollection (gs_collections db) (so_chainId opt) (hc_collectionId p) of
        None \<Rightarrow> recheckLoop opt access now uuid headBlock checkedBefore ps replaced st db
      | Some c \<Rightarrow>
          (case recheckCollection opt access now (uuid (hc_collectionId p)) c headBlock checkedBefore st db of
             (None, st1, db1) \<Rightarrow> recheckLoop opt access now uuid headBlock checkedBefore ps replaced st1 db1
           | (Some r, st1, db1) \<Rightarrow>
               recheckLoop opt access now uuid headBlock checkedBefore ps (r \<or> replaced) st1 db1))"

definition recheckFromHead ::
  "SyncGapSchedulerOptions \<Rightarrow> Access \<Rightarrow> int \<Rightarrow> (int \<Rightarrow> string) \<Rightarrow> int \<Rightarrow> SyncGapScheduler \<Rightarrow> GapStore
    \<Rightarrow> bool \<times> SyncGapScheduler \<times> GapStore"
where
  "recheckFromHead opt access now uuid headBlock st db =
     (if \<not> valid_head headBlock then (False, st, db)
      else
        let start = \<lparr> ht_checkedBefore = now - headRecheckIntervalMs opt, ht_after = None \<rparr>;
            t0 = (case sg_headCheckTraversal st of Some t \<Rightarrow> t | None \<Rightarrow> start);
            checks0 = headRechecksAfter opt headBlock t0 db;
            wrap = (checks0 = [] \<and> ht_after t0 \<noteq> None);
            traversal = (if wrap then start else t0);
            checks = (if wrap then headRechecksAfter opt headBlock start db else checks0);
            st0 = st\<lparr> sg_headCheckTraversal :=
              (if checks \<noteq> [] then Some (traversal\<lparr> ht_after := Some (last checks) \<rparr>) else None) \<rparr>
        in recheckLoop opt access now uuid headBlock (ht_checkedBefore traversal) checks False st0 db)"

definition hasHeadRechecksDueNow :: "SyncGapSchedulerOptions \<Rightarrow> int \<Rightarrow> GapStore \<Rightarrow> bool" where
  "hasHeadRechecksDueNow opt now db =
     hasHeadRechecksDue (gs_collections db) (so_chainId opt) (now - headRecheckIntervalMs opt) (gs_scans db)"

end
