(* ===== verification/Queue_Outbox.thy ===== *)
theory Queue_Outbox
  imports Chain_Store "HOL-Library.Product_Lexorder"
begin

text \<open>
  The queue outbox of the indexer: jobs are inserted in the transaction that produces them
  (\<^verbatim>\<open>indexer/src/infra/queue/sqlite-queue-outbox.ts\<close>) and a drainer publishes them to the broker
  (\<^verbatim>\<open>indexer/src/application/queue-outbox/drainer.ts\<close>).

  A row keeps the job itself instead of its JSON text, which only this code writes and reads.  The
  broker is the parameter \<open>publish\<close>; \<open>between\<close> is what other processes commit to the table while a
  publication is awaited.
\<close>

section \<open>Jobs and rows\<close>

record ChainBlockReference =
  bk_chainId :: int
  bk_blockNumber :: int
  bk_blockHash :: string

record JobEnvelope =
  je_jobId :: string
  je_kind :: string
  je_queue :: string
  je_payload :: string
  je_attempt :: int
  je_scheduledAt :: int
  je_traceId :: "string option"
  je_collectionId :: "int option"
  je_chainId :: int
  je_workClass :: "string option"
  je_onchainBlock :: "ChainBlockReference option"

datatype QueueOutboxStatus = Pending | Sent | FailedRetry | FailedTerminal

datatype QueueOutboxRetryPolicy = Bounded | Required

record QueuePublication =
  qp_streamId :: string
  qp_sequence :: int

record QueueOutboxRow =
  qo_outboxId :: nat
  qo_queueName :: string
  qo_jobId :: string
  qo_jobKind :: string
  qo_job :: JobEnvelope
  qo_chainId :: int
  qo_collectionId :: "int option"
  qo_status :: QueueOutboxStatus
  qo_attempts :: int
  qo_nextAttemptAt :: int
  qo_retryPolicy :: QueueOutboxRetryPolicy
  qo_blockNumber :: "int option"
  qo_blockHash :: "string option"
  qo_lastError :: "string option"
  qo_publication :: "QueuePublication option"

text \<open>The table with its \<open>AUTOINCREMENT\<close> counter: a number is never given twice.\<close>

record QueueOutbox =
  ob_rows :: "QueueOutboxRow list"
  ob_nextId :: nat

section \<open>Inserting\<close>

definition outbox_key :: "QueueOutboxRow \<Rightarrow> string \<times> string" where
  "outbox_key r = (qo_queueName r, qo_jobId r)"

text \<open>\<open>INSERT OR IGNORE\<close> on \<open>UNIQUE (queue_name, job_id)\<close> and the id of the row that has the key then.\<close>

definition new_row ::
  "nat \<Rightarrow> JobEnvelope \<Rightarrow> int \<Rightarrow> QueueOutboxRetryPolicy \<Rightarrow> int option \<Rightarrow> string option \<Rightarrow> QueueOutboxRow"
where
  "new_row outboxId job nextAttemptAt retryPolicy blockNumber blockHash =
     \<lparr> qo_outboxId = outboxId, qo_queueName = je_queue job, qo_jobId = je_jobId job, qo_jobKind = je_kind job,
       qo_job = job, qo_chainId = je_chainId job, qo_collectionId = je_collectionId job, qo_status = Pending,
       qo_attempts = 0, qo_nextAttemptAt = nextAttemptAt, qo_retryPolicy = retryPolicy,
       qo_blockNumber = blockNumber, qo_blockHash = blockHash, qo_lastError = None, qo_publication = None \<rparr>"

definition insertJob ::
  "JobEnvelope \<Rightarrow> int \<Rightarrow> QueueOutboxRetryPolicy \<Rightarrow> int option \<Rightarrow> string option \<Rightarrow> QueueOutbox
    \<Rightarrow> string + nat \<times> QueueOutbox"
where
  "insertJob job nextAttemptAt retryPolicy blockNumber blockHash outbox =
     (let row = new_row (ob_nextId outbox) job nextAttemptAt retryPolicy blockNumber blockHash;
          outbox1 = (if outbox_key row \<in> set (map outbox_key (ob_rows outbox)) then outbox
                     else \<lparr> ob_rows = ob_rows outbox @ [row], ob_nextId = ob_nextId outbox + 1 \<rparr>)
      in case List.find (\<lambda>r. outbox_key r = (je_queue job, je_jobId job)) (ob_rows outbox1) of
           None \<Rightarrow> Inl ''Queue outbox insert did not return a persisted row''
         | Some r \<Rightarrow> Inr (qo_outboxId r, outbox1))"

definition enqueueJob :: "JobEnvelope \<Rightarrow> int \<Rightarrow> QueueOutbox \<Rightarrow> string + nat \<times> QueueOutbox" where
  "enqueueJob job nextAttemptAt = insertJob job nextAttemptAt Bounded None None"

datatype SyncFollowUp =
    RangeFollowUp (follow_up_job: JobEnvelope)
  | EventFollowUp (follow_up_job: JobEnvelope) (follow_up_block: ChainBlockReference)

definition revision_job_id :: "string \<Rightarrow> int \<Rightarrow> string" where
  "revision_job_id jobId revision = jobId @ '':chain-revision:'' @ show_int revision"

fun enqueueSyncFollowUp :: "SyncFollowUp \<Rightarrow> int \<Rightarrow> QueueOutbox \<Rightarrow> string + nat \<times> QueueOutbox" where
  "enqueueSyncFollowUp (RangeFollowUp job) revision =
     insertJob (job\<lparr> je_jobId := revision_job_id (je_jobId job) revision \<rparr>) 0 Required None None"
| "enqueueSyncFollowUp (EventFollowUp job b) revision =
     insertJob (job\<lparr> je_jobId := revision_job_id (je_jobId job) revision, je_onchainBlock := Some b \<rparr>) 0 Required
       (Some (bk_blockNumber b)) (Some (bk_blockHash b))"

fun enqueueSyncFollowUps :: "int \<Rightarrow> SyncFollowUp list \<Rightarrow> QueueOutbox \<Rightarrow> string + QueueOutbox" where
  "enqueueSyncFollowUps revision [] outbox = Inr outbox"
| "enqueueSyncFollowUps revision (f # fs) outbox =
     bindR (enqueueSyncFollowUp f revision outbox) (\<lambda>(_, outbox1). enqueueSyncFollowUps revision fs outbox1)"

text \<open>The deletion of orphaned event hints in \<open>rollbackFromBlock\<close>.\<close>

definition deleteOrphanedFollowUps :: "int \<Rightarrow> int \<Rightarrow> QueueOutbox \<Rightarrow> QueueOutbox" where
  "deleteOrphanedFollowUps chainId fromBlock outbox =
     outbox\<lparr> ob_rows := filter (\<lambda>r. \<not> (qo_chainId r = chainId \<and>
        (case qo_blockNumber r of None \<Rightarrow> False | Some n \<Rightarrow> n \<ge> fromBlock))) (ob_rows outbox) \<rparr>"

section \<open>Publication state\<close>

definition is_due :: "int \<Rightarrow> QueueOutboxRow \<Rightarrow> bool" where
  "is_due nowMs r \<longleftrightarrow> (qo_status r = Pending \<or> qo_status r = FailedRetry) \<and> qo_nextAttemptAt r \<le> nowMs"

definition listDue :: "int \<Rightarrow> nat \<Rightarrow> QueueOutbox \<Rightarrow> QueueOutboxRow list" where
  "listDue nowMs limit outbox =
     take limit (sort_key (\<lambda>r. (qo_nextAttemptAt r, qo_outboxId r)) (filter (is_due nowMs) (ob_rows outbox)))"

definition update_row :: "nat \<Rightarrow> (QueueOutboxRow \<Rightarrow> QueueOutboxRow) \<Rightarrow> QueueOutbox \<Rightarrow> QueueOutbox" where
  "update_row outboxId f outbox =
     outbox\<lparr> ob_rows := map (\<lambda>r. if qo_outboxId r = outboxId then f r else r) (ob_rows outbox) \<rparr>"

definition markSent :: "nat \<Rightarrow> QueuePublication option \<Rightarrow> QueueOutbox \<Rightarrow> QueueOutbox" where
  "markSent outboxId publication =
     update_row outboxId (\<lambda>r. r\<lparr> qo_status := Sent, qo_lastError := None, qo_publication := publication \<rparr>)"

definition removePublishedSyncFollowUp :: "nat \<Rightarrow> QueueOutbox \<Rightarrow> QueueOutbox" where
  "removePublishedSyncFollowUp outboxId outbox =
     outbox\<lparr> ob_rows := filter (\<lambda>r. \<not> (qo_outboxId r = outboxId \<and> qo_retryPolicy r = Required)) (ob_rows outbox) \<rparr>"

definition markFailed :: "nat \<Rightarrow> int \<Rightarrow> int \<Rightarrow> string \<Rightarrow> bool \<Rightarrow> QueueOutbox \<Rightarrow> QueueOutbox" where
  "markFailed outboxId attempts nextAttemptAt lastError terminal =
     update_row outboxId (\<lambda>r. r\<lparr> qo_status := (if terminal then FailedTerminal else FailedRetry),
       qo_attempts := attempts, qo_nextAttemptAt := nextAttemptAt, qo_lastError := Some lastError \<rparr>)"

section \<open>The drainer\<close>

record QueueOutboxDrainerOptions =
  do_limit :: "nat option"
  do_maxAttempts :: "int option"
  do_retryBaseDelayMs :: "int option"
  do_retryMaxDelayMs :: "int option"

definition maxAttempts :: "QueueOutboxDrainerOptions \<Rightarrow> int" where
  "maxAttempts opt = (case do_maxAttempts opt of None \<Rightarrow> 5 | Some n \<Rightarrow> n)"

definition resolveRetryDelayMs :: "int \<Rightarrow> QueueOutboxDrainerOptions \<Rightarrow> int" where
  "resolveRetryDelayMs attempts opt =
     (let base = (case do_retryBaseDelayMs opt of None \<Rightarrow> 1000 | Some n \<Rightarrow> n);
          mx = (case do_retryMaxDelayMs opt of None \<Rightarrow> 60000 | Some n \<Rightarrow> n)
      in min mx (base * 2 ^ nat (max 0 (attempts - 1))))"

text \<open>\<open>publish row\<close> is the broker's answer: an error, or the publication if it reports one.\<close>

type_synonym Broker = "QueueOutboxRow \<Rightarrow> string + QueuePublication option"

definition drainRow ::
  "QueueOutboxDrainerOptions \<Rightarrow> Broker \<Rightarrow> (QueueOutboxRow \<Rightarrow> QueueOutbox \<Rightarrow> QueueOutbox) \<Rightarrow> int
    \<Rightarrow> QueueOutboxRow \<Rightarrow> QueueOutbox \<Rightarrow> bool \<times> QueueOutbox"
where
  "drainRow opt publish between now row outbox =
     (let attempts = qo_attempts row + 1; outbox1 = between row outbox in
      case publish row of
        Inr publication \<Rightarrow>
          (True, if qo_retryPolicy row = Required then removePublishedSyncFollowUp (qo_outboxId row) outbox1
                 else markSent (qo_outboxId row) publication outbox1)
      | Inl e \<Rightarrow>
          let terminal = (qo_retryPolicy row \<noteq> Required \<and> attempts \<ge> maxAttempts opt)
          in (False, markFailed (qo_outboxId row) attempts
                (if terminal then 0 else now + resolveRetryDelayMs attempts opt) e terminal outbox1))"

fun drainRows ::
  "QueueOutboxDrainerOptions \<Rightarrow> Broker \<Rightarrow> (QueueOutboxRow \<Rightarrow> QueueOutbox \<Rightarrow> QueueOutbox) \<Rightarrow> int
    \<Rightarrow> QueueOutboxRow list \<Rightarrow> nat \<Rightarrow> QueueOutbox \<Rightarrow> nat \<times> QueueOutbox"
where
  "drainRows opt publish between now [] published outbox = (published, outbox)"
| "drainRows opt publish between now (r # rs) published outbox =
     (case drainRow opt publish between now r outbox of
        (ok, outbox1) \<Rightarrow> drainRows opt publish between now rs (if ok then published + 1 else published) outbox1)"

definition drainQueueOutbox ::
  "QueueOutboxDrainerOptions \<Rightarrow> Broker \<Rightarrow> (QueueOutboxRow \<Rightarrow> QueueOutbox \<Rightarrow> QueueOutbox) \<Rightarrow> int \<Rightarrow> QueueOutbox
    \<Rightarrow> nat \<times> QueueOutbox"
where
  "drainQueueOutbox opt publish between now outbox =
     drainRows opt publish between now
       (listDue now (case do_limit opt of None \<Rightarrow> 100 | Some n \<Rightarrow> n) outbox) 0 outbox"

section \<open>Well-formed tables\<close>

definition outbox_wf :: "QueueOutbox \<Rightarrow> bool" where
  "outbox_wf outbox \<longleftrightarrow>
     distinct (map qo_outboxId (ob_rows outbox)) \<and> distinct (map outbox_key (ob_rows outbox)) \<and>
     (\<forall>r \<in> set (ob_rows outbox). qo_outboxId r < ob_nextId outbox) \<and>
     (\<forall>r \<in> set (ob_rows outbox). qo_retryPolicy r = Required \<longrightarrow> qo_status r = Pending \<or> qo_status r = FailedRetry)"

lemma new_row_simps [simp]:
  "qo_outboxId (new_row k job t policy n h) = k" "outbox_key (new_row k job t policy n h) = (je_queue job, je_jobId job)"
  "qo_status (new_row k job t policy n h) = Pending" "qo_retryPolicy (new_row k job t policy n h) = policy"
  "qo_job (new_row k job t policy n h) = job"
  by (simp_all add: new_row_def outbox_key_def)

lemma insertJob_Inr:
  assumes "insertJob job t policy n h outbox = Inr (k, outbox')"
  obtains (known) "(je_queue job, je_jobId job) \<in> outbox_key ` set (ob_rows outbox)" "outbox' = outbox"
  | (added) "(je_queue job, je_jobId job) \<notin> outbox_key ` set (ob_rows outbox)"
      "outbox' = \<lparr> ob_rows = ob_rows outbox @ [new_row (ob_nextId outbox) job t policy n h],
                    ob_nextId = ob_nextId outbox + 1 \<rparr>"
proof (cases "(je_queue job, je_jobId job) \<in> outbox_key ` set (ob_rows outbox)")
  case True
  with assms have "outbox' = outbox" by (simp add: insertJob_def Let_def split: option.splits)
  with True known show thesis by blast
next
  case False
  with assms have "outbox' = \<lparr> ob_rows = ob_rows outbox @ [new_row (ob_nextId outbox) job t policy n h],
      ob_nextId = ob_nextId outbox + 1 \<rparr>" by (simp add: insertJob_def Let_def split: option.splits)
  with False added show thesis by blast
qed

lemma outbox_wf_insertJob:
  assumes "outbox_wf outbox" "insertJob job t policy n h outbox = Inr (k, outbox')"
  shows "outbox_wf outbox'"
  using assms(2)
proof (cases rule: insertJob_Inr)
  case added
  with assms(1) show ?thesis by (force simp: outbox_wf_def)
qed (use assms(1) in simp)

lemma insertJob_total: "\<exists>k outbox'. insertJob job t policy n h outbox = Inr (k, outbox')"
proof -
  let ?row = "new_row (ob_nextId outbox) job t policy n h"
  let ?P = "\<lambda>r. outbox_key r = (je_queue job, je_jobId job)"
  have "List.find ?P (ob_rows outbox) \<noteq> None" if "outbox_key ?row \<in> outbox_key ` set (ob_rows outbox)"
    using that by (auto simp: find_None_iff)
  moreover have "List.find ?P (ob_rows outbox @ [?row]) \<noteq> None" by (auto simp: find_None_iff)
  ultimately show ?thesis unfolding insertJob_def Let_def by (auto split: option.splits)
qed

lemma outbox_wf_filter: "outbox_wf outbox \<Longrightarrow> outbox_wf (outbox\<lparr> ob_rows := filter P (ob_rows outbox) \<rparr>)"
  by (auto simp: outbox_wf_def distinct_map_filter)

lemma map_update_row:
  "(\<And>r. g (f r) = g r) \<Longrightarrow> map g (ob_rows (update_row k f outbox)) = map g (ob_rows outbox)"
  by (simp add: update_row_def)

text \<open>What a drained row becomes, and that the rest stays.\<close>

definition failed_row :: "QueueOutboxDrainerOptions \<Rightarrow> int \<Rightarrow> string \<Rightarrow> QueueOutboxRow \<Rightarrow> QueueOutboxRow" where
  "failed_row opt now e r =
     (let attempts = qo_attempts r + 1; terminal = (qo_retryPolicy r \<noteq> Required \<and> attempts \<ge> maxAttempts opt) in
      r\<lparr> qo_status := (if terminal then FailedTerminal else FailedRetry), qo_attempts := attempts,
         qo_nextAttemptAt := (if terminal then 0 else now + resolveRetryDelayMs attempts opt),
         qo_lastError := Some e \<rparr>)"

lemma failed_row_simps [simp]:
  "qo_outboxId (failed_row opt now e r) = qo_outboxId r" "outbox_key (failed_row opt now e r) = outbox_key r"
  "qo_job (failed_row opt now e r) = qo_job r" "qo_retryPolicy (failed_row opt now e r) = qo_retryPolicy r"
  "qo_retryPolicy r = Required \<Longrightarrow> qo_status (failed_row opt now e r) = FailedRetry"
  by (simp_all add: failed_row_def Let_def outbox_key_def)

definition sent_row :: "QueuePublication option \<Rightarrow> QueueOutboxRow \<Rightarrow> QueueOutboxRow" where
  "sent_row publication r = r\<lparr> qo_status := Sent, qo_lastError := None, qo_publication := publication \<rparr>"

lemma sent_row_simps [simp]:
  "qo_outboxId (sent_row p r) = qo_outboxId r" "outbox_key (sent_row p r) = outbox_key r"
  "qo_job (sent_row p r) = qo_job r" "qo_retryPolicy (sent_row p r) = qo_retryPolicy r" "qo_status (sent_row p r) = Sent"
  by (simp_all add: sent_row_def outbox_key_def)

definition drained :: "QueueOutboxDrainerOptions \<Rightarrow> Broker \<Rightarrow> int \<Rightarrow> QueueOutboxRow \<Rightarrow> QueueOutboxRow option" where
  "drained opt publish now r =
     (case publish r of
        Inr p \<Rightarrow> if qo_retryPolicy r = Required then None else Some (sent_row p r)
      | Inl e \<Rightarrow> Some (failed_row opt now e r))"

lemma same_id_same_row:
  "outbox_wf outbox \<Longrightarrow> r \<in> set (ob_rows outbox) \<Longrightarrow> r' \<in> set (ob_rows outbox) \<Longrightarrow>
     qo_outboxId r = qo_outboxId r' \<Longrightarrow> r = r'"
  by (auto simp: outbox_wf_def distinct_map inj_on_def)

lemma drainRow_rows:
  assumes "outbox_wf outbox" "r \<in> set (ob_rows outbox)"
  shows "snd (drainRow opt publish (\<lambda>_ outbox. outbox) now r outbox) =
    outbox\<lparr> ob_rows := List.map_filter (\<lambda>x. if x = r then drained opt publish now x else Some x) (ob_rows outbox) \<rparr>"
proof -
  have same: "x \<in> set (ob_rows outbox) \<Longrightarrow> qo_outboxId x = qo_outboxId r \<longleftrightarrow> x = r" for x
    using same_id_same_row [OF assms(1) _ assms(2)] by blast
  have *: "List.map_filter (\<lambda>x. if x = r then Some (f x) else Some x) xs = map (\<lambda>x. if x = r then f x else x) xs"
    for f and xs :: "QueueOutboxRow list"
    by (induction xs) (auto simp: map_filter_simps)
  have drop: "List.map_filter (\<lambda>x. if x = r then None else Some x) xs = filter (\<lambda>x. x \<noteq> r) xs"
    for xs :: "QueueOutboxRow list"
    by (induction xs) (auto simp: map_filter_simps)
  show ?thesis
  proof (cases "publish r")
    case (Inl e)
    then have "snd (drainRow opt publish (\<lambda>_ outbox. outbox) now r outbox) =
        outbox\<lparr> ob_rows := map (\<lambda>x. if x = r then failed_row opt now e x else x) (ob_rows outbox) \<rparr>"
      using same by (auto simp: drainRow_def Let_def markFailed_def update_row_def failed_row_def)
    moreover have "List.map_filter (\<lambda>x. if x = r then drained opt publish now x else Some x) (ob_rows outbox) =
        map (\<lambda>x. if x = r then failed_row opt now e x else x) (ob_rows outbox)"
      using Inl by (subst * [symmetric], intro arg_cong2 [where f = List.map_filter]) (auto simp: drained_def)
    ultimately show ?thesis by simp
  next
    case (Inr p)
    show ?thesis
    proof (cases "qo_retryPolicy r = Required")
      case True
      have "filter (\<lambda>x. \<not> (qo_outboxId x = qo_outboxId r \<and> qo_retryPolicy x = Required)) (ob_rows outbox) =
          filter (\<lambda>x. x \<noteq> r) (ob_rows outbox)"
        using same True by (intro filter_cong) auto
      moreover have "List.map_filter (\<lambda>x. if x = r then drained opt publish now x else Some x) (ob_rows outbox) =
          filter (\<lambda>x. x \<noteq> r) (ob_rows outbox)"
        using Inr True by (subst drop [symmetric], intro arg_cong2 [where f = List.map_filter]) (auto simp: drained_def)
      ultimately show ?thesis using Inr True by (simp add: drainRow_def Let_def removePublishedSyncFollowUp_def)
    next
      case False
      have "map (\<lambda>x. if qo_outboxId x = qo_outboxId r then sent_row p x else x) (ob_rows outbox) =
          map (\<lambda>x. if x = r then sent_row p x else x) (ob_rows outbox)"
        using same by (intro map_cong) auto
      moreover have "List.map_filter (\<lambda>x. if x = r then drained opt publish now x else Some x) (ob_rows outbox) =
          map (\<lambda>x. if x = r then sent_row p x else x) (ob_rows outbox)"
        using Inr False by (subst * [symmetric], intro arg_cong2 [where f = List.map_filter]) (auto simp: drained_def)
      moreover have "markSent k p = update_row k (sent_row p)" for k
        by (simp add: markSent_def sent_row_def [abs_def])
      ultimately show ?thesis using Inr False by (auto simp: drainRow_def Let_def update_row_def)
    qed
  qed
qed

text \<open>The broker accepts the job of a row.\<close>

abbreviation accepts :: "Broker \<Rightarrow> QueueOutboxRow \<Rightarrow> bool" where
  "accepts publish r \<equiv> \<not> isl (publish r)"

section \<open>Required work survives until it is published\<close>

definition same_job :: "QueueOutboxRow \<Rightarrow> QueueOutboxRow \<Rightarrow> bool" where
  "same_job r r' \<longleftrightarrow> qo_outboxId r = qo_outboxId r' \<and> outbox_key r = outbox_key r' \<and> qo_job r = qo_job r' \<and>
     qo_retryPolicy r = qo_retryPolicy r'"

text \<open>What a table may become: numbers are never reused, and the job of a row never changes.\<close>

definition outbox_evolves :: "QueueOutbox \<Rightarrow> QueueOutbox \<Rightarrow> bool" where
  "outbox_evolves a b \<longleftrightarrow> ob_nextId a \<le> ob_nextId b \<and>
     (\<forall>r' \<in> set (ob_rows b). qo_outboxId r' < ob_nextId a \<longrightarrow> (\<exists>r \<in> set (ob_rows a). same_job r r'))"

lemma outbox_evolves_trans:
  assumes "outbox_evolves a b" "outbox_evolves b c"
  shows "outbox_evolves a c"
  unfolding outbox_evolves_def
proof (intro conjI ballI impI)
  fix r assume r: "r \<in> set (ob_rows c)" "qo_outboxId r < ob_nextId a"
  with assms obtain y where "y \<in> set (ob_rows b)" "same_job y r" by (force simp: outbox_evolves_def)
  moreover from this r assms(1) obtain x where "x \<in> set (ob_rows a)" "same_job x y"
    by (force simp: outbox_evolves_def same_job_def)
  ultimately show "\<exists>x \<in> set (ob_rows a). same_job x r" by (auto simp: same_job_def)
qed (use assms in \<open>simp add: outbox_evolves_def\<close>)

lemma outbox_evolves_insertJob:
  assumes "insertJob job t policy n h outbox = Inr (k, outbox')"
  shows "outbox_evolves outbox outbox'"
  using assms by (cases rule: insertJob_Inr) (auto simp: outbox_evolves_def same_job_def)

lemma outbox_evolves_filter: "outbox_evolves outbox (outbox\<lparr> ob_rows := filter P (ob_rows outbox) \<rparr>)"
  by (auto simp: outbox_evolves_def same_job_def)

lemma deleteOrphanedFollowUps_evolves:
  "outbox_wf outbox \<Longrightarrow> outbox_wf (deleteOrphanedFollowUps c f outbox)"
  "outbox_evolves outbox (deleteOrphanedFollowUps c f outbox)"
  by (simp_all add: deleteOrphanedFollowUps_def outbox_wf_filter outbox_evolves_filter)

definition retained :: "string \<times> string \<Rightarrow> JobEnvelope \<Rightarrow> QueueOutbox \<Rightarrow> bool" where
  "retained k job outbox \<longleftrightarrow> (\<exists>r \<in> set (ob_rows outbox). outbox_key r = k \<and> qo_job r = job \<and>
     qo_retryPolicy r = Required \<and> (qo_status r = Pending \<or> qo_status r = FailedRetry))"

text \<open>The row that a drained row of an earlier read has become: the same job, under the same number.\<close>

lemma stale_row:
  assumes "outbox_wf start" "outbox_evolves start now" "r \<in> set (ob_rows start)" "x \<in> set (ob_rows now)"
    "qo_outboxId x = qo_outboxId r"
  shows "same_job r x"
proof -
  from assms have "qo_outboxId x < ob_nextId start" by (simp add: outbox_wf_def)
  with assms(2,4) obtain y where y: "y \<in> set (ob_rows start)" "same_job y x" by (auto simp: outbox_evolves_def)
  with assms(1,3,5) have "y = r" by (intro same_id_same_row) (auto simp: same_job_def)
  with y show ?thesis by simp
qed

definition is_retry :: "QueueOutboxRow \<Rightarrow> bool" where
  "is_retry r \<longleftrightarrow> qo_status r = Pending \<or> qo_status r = FailedRetry"

lemma update_row_evolves:
  "(\<And>x. same_job x (f x)) \<Longrightarrow> outbox_evolves outbox (update_row k f outbox)"
  by (auto simp: outbox_evolves_def update_row_def same_job_def)

lemma update_row_wf:
  assumes "outbox_wf outbox" and "\<And>x. same_job x (f x)"
    and "\<And>x. x \<in> set (ob_rows outbox) \<Longrightarrow> qo_outboxId x = k \<Longrightarrow> qo_retryPolicy x = Required \<Longrightarrow> is_retry (f x)"
  shows "outbox_wf (update_row k f outbox)"
proof -
  have "map qo_outboxId (ob_rows (update_row k f outbox)) = map qo_outboxId (ob_rows outbox)"
    "map outbox_key (ob_rows (update_row k f outbox)) = map outbox_key (ob_rows outbox)"
    using assms(2) by (auto intro!: map_update_row simp: same_job_def)
  moreover have "\<forall>x \<in> set (ob_rows (update_row k f outbox)). qo_outboxId x < ob_nextId (update_row k f outbox)"
    using assms(1,2) by (auto simp: outbox_wf_def update_row_def same_job_def)
  moreover have "is_retry x" if "x \<in> set (ob_rows (update_row k f outbox))" "qo_retryPolicy x = Required" for x
  proof -
    from that(1) obtain y where y: "y \<in> set (ob_rows outbox)" "x = (if qo_outboxId y = k then f y else y)"
      by (auto simp: update_row_def)
    with that(2) assms(2) [of y] have "qo_retryPolicy y = Required" by (auto simp: same_job_def split: if_splits)
    with y assms(1,3) show ?thesis by (auto simp: outbox_wf_def is_retry_def)
  qed
  ultimately show ?thesis using assms(1) by (auto simp: outbox_wf_def is_retry_def)
qed

lemma same_job_markFailed:
  "same_job x (x\<lparr> qo_status := s, qo_attempts := a, qo_nextAttemptAt := t, qo_lastError := e \<rparr>)"
  "same_job x (x\<lparr> qo_status := s, qo_lastError := e, qo_publication := p \<rparr>)"
  by (simp_all add: same_job_def outbox_key_def)

lemma drainRow_step:
  assumes "outbox_wf (between r outbox)"
    and same: "\<forall>x \<in> set (ob_rows (between r outbox)). qo_outboxId x = qo_outboxId r \<longrightarrow> same_job r x"
  shows "outbox_wf (snd (drainRow opt publish between now r outbox))"
    and "outbox_evolves (between r outbox) (snd (drainRow opt publish between now r outbox))"
    and "retained k job (between r outbox) \<Longrightarrow>
      retained k job (snd (drainRow opt publish between now r outbox)) \<or> outbox_key r = k \<and> qo_job r = job \<and> accepts publish r"
proof -
  let ?b = "between r outbox" and ?o = "snd (drainRow opt publish between now r outbox)"
  have "outbox_wf ?o \<and> outbox_evolves ?b ?o \<and>
    (retained k job ?b \<longrightarrow> retained k job ?o \<or> outbox_key r = k \<and> qo_job r = job \<and> accepts publish r)"
  proof (cases "publish r")
    case (Inl e)
    define f where "f x = x\<lparr> qo_status := (if qo_retryPolicy r \<noteq> Required \<and> qo_attempts r + 1 \<ge> maxAttempts opt
        then FailedTerminal else FailedRetry), qo_attempts := qo_attempts r + 1,
      qo_nextAttemptAt := (if qo_retryPolicy r \<noteq> Required \<and> qo_attempts r + 1 \<ge> maxAttempts opt then 0
        else now + resolveRetryDelayMs (qo_attempts r + 1) opt), qo_lastError := Some e \<rparr>" for x :: QueueOutboxRow
    have o: "?o = update_row (qo_outboxId r) f ?b"
      using Inl by (simp add: drainRow_def Let_def markFailed_def f_def [abs_def] cong: if_cong)
    have job: "same_job x (f x)" for x by (simp add: f_def same_job_markFailed)
    have retry: "is_retry (f x)" if "x \<in> set (ob_rows ?b)" "qo_outboxId x = qo_outboxId r" "qo_retryPolicy x = Required" for x
      using same that by (auto simp: same_job_def f_def is_retry_def)
    have "retained k job ?o" if kept: "retained k job ?b"
    proof -
      from kept obtain x where x: "x \<in> set (ob_rows ?b)" "outbox_key x = k" "qo_job x = job"
          "qo_retryPolicy x = Required" "is_retry x" by (auto simp: retained_def is_retry_def)
      let ?x = "if qo_outboxId x = qo_outboxId r then f x else x"
      have "?x \<in> set (ob_rows ?o)" using x(1) by (simp add: o update_row_def)
      moreover have "outbox_key ?x = k \<and> qo_job ?x = job \<and> qo_retryPolicy ?x = Required \<and> is_retry ?x"
        using x retry [OF x(1)] job [of x] by (simp add: same_job_def)
      ultimately show ?thesis by (auto simp: retained_def is_retry_def simp del: if_split_asm)
    qed
    moreover have "outbox_wf ?o" unfolding o by (rule update_row_wf [OF assms(1) job retry])
    moreover have "outbox_evolves ?b ?o" unfolding o by (rule update_row_evolves [OF job])
    ultimately show ?thesis by blast
  next
    case (Inr p)
    show ?thesis
    proof (cases "qo_retryPolicy r = Required")
      case True
      then have o: "?o = ?b\<lparr> ob_rows := filter (\<lambda>x. \<not> (qo_outboxId x = qo_outboxId r \<and> qo_retryPolicy x = Required))
          (ob_rows ?b) \<rparr>"
        using Inr by (simp add: drainRow_def Let_def removePublishedSyncFollowUp_def)
      have "retained k job ?o \<or> outbox_key r = k \<and> qo_job r = job" if "retained k job ?b"
        using that same by (fastforce simp: retained_def o same_job_def)
      then show ?thesis using Inr outbox_wf_filter [OF assms(1)] outbox_evolves_filter by (simp add: o)
    next
      case False
      define f where "f x = x\<lparr> qo_status := Sent, qo_lastError := None, qo_publication := p \<rparr>" for x :: QueueOutboxRow
      have o: "?o = update_row (qo_outboxId r) f ?b"
        using Inr False by (simp add: drainRow_def Let_def markSent_def f_def [abs_def])
      have job: "same_job x (f x)" for x by (simp add: f_def same_job_markFailed)
      have other: "qo_retryPolicy x \<noteq> Required" if "x \<in> set (ob_rows ?b)" "qo_outboxId x = qo_outboxId r" for x
        using same that False by (auto simp add: same_job_def)
      have "outbox_wf ?o" unfolding o by (rule update_row_wf [OF assms(1) job]) (use other in blast)
      moreover have "retained k job ?o" if "retained k job ?b"
        using that other by (fastforce simp: retained_def o update_row_def)
      ultimately show ?thesis using update_row_evolves [OF job] by (simp add: o)
    qed
  qed
  then show "outbox_wf ?o" "outbox_evolves ?b ?o"
    "retained k job ?b \<Longrightarrow> retained k job ?o \<or> outbox_key r = k \<and> qo_job r = job \<and> accepts publish r"
    by blast+
qed

lemma drainRows_Cons:
  "drainRows opt publish between now (r # rs) n outbox =
     drainRows opt publish between now rs (if fst (drainRow opt publish between now r outbox) then n + 1 else n)
       (snd (drainRow opt publish between now r outbox))"
  by (simp add: case_prod_beta)

text \<open>Other processes may do anything to the table that keeps it well-formed, except deleting the job.\<close>

definition harmless ::
  "string \<times> string \<Rightarrow> JobEnvelope \<Rightarrow> (QueueOutboxRow \<Rightarrow> QueueOutbox \<Rightarrow> QueueOutbox) \<Rightarrow> bool"
where
  "harmless k job between \<longleftrightarrow>
     (\<forall>r ob. outbox_wf ob \<longrightarrow> outbox_wf (between r ob) \<and> outbox_evolves ob (between r ob) \<and>
        (retained k job ob \<longrightarrow> retained k job (between r ob)))"

lemma drainRows_retained:
  assumes "harmless k job between"
    and "outbox_wf start" "set rs \<subseteq> set (ob_rows start)"
  shows "outbox_wf outbox \<Longrightarrow> outbox_evolves start outbox \<Longrightarrow> retained k job outbox \<Longrightarrow>
    retained k job (snd (drainRows opt publish between now rs published outbox)) \<or>
    (\<exists>r \<in> set rs. outbox_key r = k \<and> qo_job r = job \<and> accepts publish r)"
  using assms(3)
proof (induction rs arbitrary: outbox published)
  case (Cons r rs)
  let ?b = "between r outbox" and ?o = "snd (drainRow opt publish between now r outbox)"
  from assms(1) Cons.prems(1-3)
  have b: "outbox_wf ?b" "outbox_evolves start ?b" "retained k job ?b"
    by (auto simp: harmless_def intro: outbox_evolves_trans)
  have "\<forall>x \<in> set (ob_rows ?b). qo_outboxId x = qo_outboxId r \<longrightarrow> same_job r x"
    using stale_row [OF assms(2) b(2)] Cons.prems(4) by simp
  note step = drainRow_step [of between r outbox, OF b(1) this]
  then have "outbox_wf ?o" "outbox_evolves start ?o" using b(2) by (auto intro: outbox_evolves_trans)
  with Cons.IH [of ?o] Cons.prems(4)
  have rest: "retained k job ?o \<Longrightarrow> retained k job (snd (drainRows opt publish between now rs m ?o)) \<or>
      (\<exists>x \<in> set rs. outbox_key x = k \<and> qo_job x = job \<and> accepts publish x)" for m by simp
  from step(3) [OF b(3), of opt publish now] show ?case
  proof
    assume "retained k job ?o"
    from rest [OF this] show ?thesis unfolding drainRows_Cons by auto
  qed auto
qed simp

lemma listDue_subset: "set (listDue now limit outbox) \<subseteq> set (filter (is_due now) (ob_rows outbox))"
  unfolding listDue_def by (metis set_sort set_take_subset)

text \<open>
  C31. Work that a sync result requires is never lost in the outbox: a retained required follow-up is
  still there, waiting for its next attempt, after every run of the drainer, unless the broker accepted this
  very job in the run.  That holds for any failures of the broker and whatever other processes commit
  during the run, as long as they do not delete the row themselves.
\<close>

theorem required_follow_up_survives_until_published:
  assumes "harmless k job between"
    and "outbox_wf outbox" and "retained k job outbox"
  shows "retained k job (snd (drainQueueOutbox opt publish between now outbox)) \<or>
    (\<exists>r \<in> set (ob_rows outbox). outbox_key r = k \<and> qo_job r = job \<and> accepts publish r)"
proof -
  let ?rs = "listDue now (case do_limit opt of None \<Rightarrow> 100 | Some n \<Rightarrow> n) outbox"
  have sub: "set ?rs \<subseteq> set (ob_rows outbox)" using listDue_subset [of now _ outbox] by auto
  have "outbox_evolves outbox outbox" by (auto simp: outbox_evolves_def same_job_def)
  from drainRows_retained [OF assms(1,2) sub assms(2) this assms(3), where opt = opt and publish = publish and now = now and published = 0] sub show ?thesis
    unfolding drainQueueOutbox_def by blast
qed

section \<open>An accepting broker\<close>

definition due_rows :: "int \<Rightarrow> QueueOutbox \<Rightarrow> QueueOutboxRow list" where
  "due_rows now outbox = filter (is_due now) (ob_rows outbox)"

definition drain_once :: "QueueOutboxDrainerOptions \<Rightarrow> Broker \<Rightarrow> int \<Rightarrow> QueueOutbox \<Rightarrow> QueueOutbox" where
  "drain_once opt publish now outbox = snd (drainQueueOutbox opt publish (\<lambda>_ o'. o') now outbox)"

lemma drainRow_accepted:
  assumes "outbox_wf outbox" "r \<in> set (ob_rows outbox)" "accepts publish r"
  shows "due_rows now (snd (drainRow opt publish (\<lambda>_ o'. o') t r outbox)) = filter (\<lambda>x. x \<noteq> r) (due_rows now outbox)"
    and "x \<noteq> r \<Longrightarrow> x \<in> set (ob_rows outbox) \<Longrightarrow> x \<in> set (ob_rows (snd (drainRow opt publish (\<lambda>_ o'. o') t r outbox)))"
proof -
  from assms(3) obtain p where p: "publish r = Inr p" by (cases "publish r") auto
  have not_due: "\<not> is_due now (sent_row q x)" for q x by (simp add: is_due_def)
  have "filter (is_due now) (List.map_filter (\<lambda>x. if x = r then drained opt publish t x else Some x) xs) =
      filter (\<lambda>x. x \<noteq> r) (filter (is_due now) xs)" for xs
    using p not_due by (induction xs) (auto simp: map_filter_simps drained_def)
  then show "due_rows now (snd (drainRow opt publish (\<lambda>_ o'. o') t r outbox)) = filter (\<lambda>x. x \<noteq> r) (due_rows now outbox)"
    by (simp add: due_rows_def drainRow_rows [OF assms(1,2)])
  show "x \<noteq> r \<Longrightarrow> x \<in> set (ob_rows outbox) \<Longrightarrow> x \<in> set (ob_rows (snd (drainRow opt publish (\<lambda>_ o'. o') t r outbox)))"
    by (auto simp: drainRow_rows [OF assms(1,2)] map_filter_def)
qed

lemma drainRows_accepted:
  assumes "\<forall>r. accepts publish r"
  shows "outbox_wf outbox \<Longrightarrow> distinct rs \<Longrightarrow> set rs \<subseteq> set (ob_rows outbox) \<Longrightarrow>
    outbox_wf (snd (drainRows opt publish (\<lambda>_ o'. o') t rs n outbox)) \<and>
    due_rows now (snd (drainRows opt publish (\<lambda>_ o'. o') t rs n outbox)) = filter (\<lambda>x. x \<notin> set rs) (due_rows now outbox)"
proof (induction rs arbitrary: outbox n)
  case (Cons r rs)
  let ?o = "snd (drainRow opt publish (\<lambda>_ o'. o') t r outbox)"
  from Cons.prems have r: "r \<in> set (ob_rows outbox)" by simp
  have same: "\<forall>x \<in> set (ob_rows outbox). qo_outboxId x = qo_outboxId r \<longrightarrow> same_job r x"
    using same_id_same_row [OF Cons.prems(1) _ r] by (auto simp: same_job_def)
  have "outbox_wf ?o" using drainRow_step(1) [of "\<lambda>_ o'. o'" r outbox, OF Cons.prems(1) same] .
  moreover have "set rs \<subseteq> set (ob_rows ?o)"
  proof
    fix x assume "x \<in> set rs"
    with Cons.prems(2,3) have "x \<noteq> r" "x \<in> set (ob_rows outbox)" by auto
    then show "x \<in> set (ob_rows ?o)" using drainRow_accepted(2) [OF Cons.prems(1) r] assms by blast
  qed
  moreover have "due_rows now ?o = filter (\<lambda>x. x \<noteq> r) (due_rows now outbox)"
    using drainRow_accepted(1) [OF Cons.prems(1) r] assms by blast
  moreover have "filter (\<lambda>x. x \<notin> set rs) (filter (\<lambda>x. x \<noteq> r) xs) = filter (\<lambda>x. x \<notin> set (r # rs)) xs" for xs
    by (auto intro!: filter_cong)
  ultimately have "outbox_wf (snd (drainRows opt publish (\<lambda>_ o'. o') t rs m ?o)) \<and>
      due_rows now (snd (drainRows opt publish (\<lambda>_ o'. o') t rs m ?o)) =
        filter (\<lambda>x. x \<notin> set (r # rs)) (due_rows now outbox)" for m
    using Cons.IH [of ?o m] Cons.prems(2) by (simp del: filter_filter set_simps)
  then show ?case unfolding drainRows_Cons by blast
qed simp

text \<open>
  With a broker that accepts what it is given, the outbox drains: as many runs as there are due rows
  leave none due, whatever positive limit a run has.
\<close>

theorem accepting_broker_drains_outbox:
  assumes "outbox_wf outbox" and "\<forall>r. accepts publish r" and "do_limit opt \<noteq> Some 0"
  shows "due_rows now ((drain_once opt publish now ^^ length (due_rows now outbox)) outbox) = []"
proof -
  define limit where "limit = (case do_limit opt of None \<Rightarrow> 100 | Some n \<Rightarrow> n)"
  have limit: "limit > 0" using assms(3) by (auto simp: limit_def split: option.splits)
  have step: "outbox_wf (drain_once opt publish now ob) \<and>
      due_rows now (drain_once opt publish now ob) =
        filter (\<lambda>x. x \<notin> set (listDue now limit ob)) (due_rows now ob)"
    if "outbox_wf ob" for ob
  proof -
    have "distinct (listDue now limit ob)"
      using that by (auto simp: listDue_def outbox_wf_def distinct_map intro!: distinct_take)
    moreover have "set (listDue now limit ob) \<subseteq> set (ob_rows ob)" using listDue_subset [of now limit ob] by auto
    ultimately show ?thesis
      using drainRows_accepted [OF assms(2) that] by (simp add: drain_once_def drainQueueOutbox_def limit_def)
  qed
  have less: "length (due_rows now (drain_once opt publish now ob)) < length (due_rows now ob)"
    if "outbox_wf ob" "due_rows now ob \<noteq> []" for ob
  proof -
    have "sort_key (\<lambda>r. (qo_nextAttemptAt r, qo_outboxId r)) (due_rows now ob) \<noteq> []"
      using that(2) by (metis length_0_conv length_sort)
    then have "listDue now limit ob \<noteq> []" using limit by (simp add: listDue_def due_rows_def)
    then obtain r where "r \<in> set (listDue now limit ob)" by (meson last_in_set)
    moreover from this have "r \<in> set (due_rows now ob)" using listDue_subset by (force simp: due_rows_def)
    ultimately show ?thesis using step [OF that(1)] by (auto intro: length_filter_less)
  qed
  have "outbox_wf ((drain_once opt publish now ^^ n) outbox) \<and>
      length (due_rows now ((drain_once opt publish now ^^ n) outbox)) \<le> length (due_rows now outbox) - n" for n
  proof (induction n)
    case (Suc n)
    then show ?case using step [of "(drain_once opt publish now ^^ n) outbox"] less [of "(drain_once opt publish now ^^ n) outbox"]
      by (cases "due_rows now ((drain_once opt publish now ^^ n) outbox) = []") auto
  qed (use assms(1) in simp)
  then show ?thesis by (metis diff_self_eq_0 le_zero_eq length_0_conv)
qed

end
