(* ===== verification/Sync_Range_Commit.thy ===== *)
theory Sync_Range_Commit
  imports Reorg_Recovery Sync_Gap_Scheduler Queue_Outbox
begin

text \<open>
  The commit of a synchronised range (\<^verbatim>\<open>indexer/src/infra/storage/sqlite-sync-range-commit.ts\<close>,
  \<^verbatim>\<open>indexer/src/domain/sync-result.ts\<close>): one transaction persists the facts and the coverage, enqueues the
  follow-ups and completes the work that acquired the range, a gap repair or the resync of a
  reorganisation.
\<close>

section \<open>State and input\<close>

record 'f SyncDb =
  sd_indexer :: "'f IndexerDb"
  sd_scans :: Scans
  sd_outbox :: QueueOutbox

definition sd_chain :: "'f SyncDb \<Rightarrow> 'f ChainDb" where
  "sd_chain db = idb_chain (sd_indexer db)"

datatype SyncWorkCompletion =
    Unmanaged
  | GapRepair SyncGapRepairBatch int
  | ReorgRange ReorgResyncRange int int

record 'd SyncRangeCommit =
  sc_result :: "'d SyncRangeResult"
  sc_followUps :: "SyncFollowUp list"
  sc_completion :: SyncWorkCompletion

datatype commit_error =
    SyncConflict sync_error
  | FollowUpScope
  | FollowUpHeader
  | OutboxFailure string
  | ReorgOwnership
  | GapMembers
  | GapOwnership
  | GapCompletionChanged
  | ReorgCompletionChanged

definition liftConflict :: "('e \<Rightarrow> 'e2) \<Rightarrow> 'e + 'a \<Rightarrow> 'e2 + 'a" where
  "liftConflict f r = map_sum f id r"

section \<open>Checks\<close>

definition assertSyncBlocksCoverRange :: "SyncBlockHeader list \<Rightarrow> int \<Rightarrow> int \<Rightarrow> commit_error + unit" where
  "assertSyncBlocksCoverRange blocks fromBlock toBlock =
     guardR (covers_range blocks fromBlock toBlock) (SyncConflict RangeNotCovered)"

fun follow_up_header_ok :: "int \<Rightarrow> SyncBlockHeader list \<Rightarrow> SyncFollowUp \<Rightarrow> bool" where
  "follow_up_header_ok chainId blocks (RangeFollowUp job) \<longleftrightarrow> True"
| "follow_up_header_ok chainId blocks (EventFollowUp job b) \<longleftrightarrow>
     bk_chainId b = chainId \<and>
     map_option hdr_hash (canonicalMap blocks (bk_blockNumber b)) = Some (bk_blockHash b)"

fun assertSyncFollowUpsMatchBlocks ::
  "int \<Rightarrow> SyncBlockHeader list \<Rightarrow> int list \<Rightarrow> SyncFollowUp list \<Rightarrow> commit_error + unit"
where
  "assertSyncFollowUpsMatchBlocks chainId blocks collectionIds [] = Inr ()"
| "assertSyncFollowUpsMatchBlocks chainId blocks collectionIds (f # fs) =
     (let job = follow_up_job f in
      if je_chainId job \<noteq> chainId \<or>
         (case je_collectionId job of None \<Rightarrow> False | Some i \<Rightarrow> i \<notin> set collectionIds)
      then Inl FollowUpScope
      else if \<not> follow_up_header_ok chainId blocks f then Inl FollowUpHeader
      else assertSyncFollowUpsMatchBlocks chainId blocks collectionIds fs)"

text \<open>The loop over the members of a repaired batch; \<open>acquired\<close> is the set that loses each visited member.\<close>

fun assertRepairMembers ::
  "CollectionRow list \<Rightarrow> Scans \<Rightarrow> int \<Rightarrow> SyncGapRepairBatch \<Rightarrow> SyncGapRepairTarget list \<Rightarrow> int list \<Rightarrow> commit_error + unit"
where
  "assertRepairMembers collections scans chainId batch [] acquired = Inr ()"
| "assertRepairMembers collections scans chainId batch (r # rs) acquired =
     (if rt_collectionId r \<notin> set acquired \<or> gr_fromBlock batch < gr_fromBlock r \<or>
         gr_toBlock batch \<noteq> gr_toBlock r \<or>
         \<not> isCurrentSyncGapRepair chainId r (getCollection collections chainId (rt_collectionId r))
              (getProgress scans chainId (rt_collectionId r))
      then Inl GapOwnership
      else assertRepairMembers collections scans chainId batch rs (removeAll (rt_collectionId r) acquired))"

definition assertCurrentWork :: "'d SyncRangeResult \<Rightarrow> SyncWorkCompletion \<Rightarrow> 'f SyncDb \<Rightarrow> commit_error + unit" where
  "assertCurrentWork result completion db =
     (let chainId = cp_chainId (sr_checkpoint result) in
      case completion of
        Unmanaged \<Rightarrow> Inr ()
      | ReorgRange rng batchSize retryAt \<Rightarrow>
          bindR (assertSyncBlocksCoverRange (sr_blocks result) (rg_fromBlock rng) (rg_toBlock rng)) (\<lambda>_.
            if rg_chainId rng \<noteq> chainId \<or> rg_revision rng \<noteq> cp_revision (sr_checkpoint result)
            then Inl ReorgOwnership
            else bindR (liftConflict SyncConflict (getRecovery (sd_indexer db) chainId)) (\<lambda>current.
                   guardR (isCurrentReorgRange current rng) ReorgOwnership))
      | GapRepair batch retryAt \<Rightarrow>
          bindR (assertSyncBlocksCoverRange (sr_blocks result) (gr_fromBlock batch) (gr_toBlock batch)) (\<lambda>_.
            let acquired = remdups (map cr_collectionId (sr_collections result)) in
            if gb_repairs batch = [] \<or> length acquired \<noteq> length (gb_repairs batch) then Inl GapMembers
            else assertRepairMembers (db_collections (sd_chain db)) (sd_scans db) chainId batch (gb_repairs batch)
                   acquired))"

section \<open>The commit\<close>

fun recordRepairs ::
  "int \<Rightarrow> int \<Rightarrow> int \<Rightarrow> SyncGapRepairTarget list \<Rightarrow> Scans \<Rightarrow> commit_error + Scans"
where
  "recordRepairs chainId repairedFrom retryAt [] scans = Inr scans"
| "recordRepairs chainId repairedFrom retryAt (r # rs) scans =
     (case recordRepairProgress chainId r (remainingSyncGapRepairRange r repairedFrom) retryAt scans of
        (True, scans1) \<Rightarrow> recordRepairs chainId repairedFrom retryAt rs scans1
      | (False, _) \<Rightarrow> Inl GapCompletionChanged)"

definition completeWork :: "int \<Rightarrow> SyncWorkCompletion \<Rightarrow> 'f SyncDb \<Rightarrow> commit_error + 'f SyncDb" where
  "completeWork chainId completion db =
     (case completion of
        Unmanaged \<Rightarrow> Inr db
      | GapRepair batch retryAt \<Rightarrow>
          bindR (recordRepairs chainId (gr_fromBlock batch) retryAt (gb_repairs batch) (sd_scans db)) (\<lambda>scans.
            Inr (db\<lparr> sd_scans := scans \<rparr>))
      | ReorgRange rng batchSize retryAt \<Rightarrow>
          bindR (liftConflict SyncConflict (completeResyncRange rng batchSize retryAt (sd_indexer db))) (\<lambda>(done, indexer).
            if done then Inr (db\<lparr> sd_indexer := indexer \<rparr>) else Inl ReorgCompletionChanged))"

text \<open>A failed commit leaves the database as it was: the transaction is rolled back.\<close>

definition commitSyncRange ::
  "('f, 'd) FactsPort \<Rightarrow> 'd SyncRangeCommit \<Rightarrow> 'f SyncDb \<Rightarrow> commit_error + 'f SyncDb"
where
  "commitSyncRange port input db =
     (let result = sc_result input; chainId = cp_chainId (sr_checkpoint result) in
      bindR (assertCurrentWork result (sc_completion input) db) (\<lambda>_.
      bindR (assertSyncFollowUpsMatchBlocks chainId (sr_blocks result)
               (map cr_collectionId (sr_collections result)) (sc_followUps input)) (\<lambda>_.
      bindR (liftConflict SyncConflict (persistSyncResult port result (sd_chain db))) (\<lambda>chain.
      bindR (liftConflict OutboxFailure (enqueueSyncFollowUps (cp_revision (sr_checkpoint result)) (sc_followUps input)
               (sd_outbox db))) (\<lambda>outbox.
        completeWork chainId (sc_completion input)
          (db\<lparr> sd_indexer := (sd_indexer db)\<lparr> idb_chain := chain \<rparr>, sd_outbox := outbox \<rparr>))))))"

definition gap_store :: "'f SyncDb \<Rightarrow> GapStore" where
  "gap_store db =
     \<lparr> gs_coverage = db_coverage (sd_chain db), gs_scans = sd_scans db, gs_collections = db_collections (sd_chain db) \<rparr>"

section \<open>The plan of a repair pass\<close>

text \<open>
  The part of \<open>AutomaticSyncExecutor.run\<close> after discovery: reconcile the due repairs with the coverage and
  plan the batch to acquire next.
\<close>

fun reconcileAll ::
  "Coverage \<Rightarrow> int \<Rightarrow> int \<Rightarrow> int \<Rightarrow> SyncGapRepairTarget list \<Rightarrow> Scans \<Rightarrow> SyncGapRepairCandidate list \<times> Scans"
where
  "reconcileAll coverage chainId batchSize now [] scans = ([], scans)"
| "reconcileAll coverage chainId batchSize now (r # rs) scans =
     (case reconcileRepairCoverage coverage chainId r batchSize now scans of
        (c, scans1) \<Rightarrow>
          (case reconcileAll coverage chainId batchSize now rs scans1 of
             (cs, scans2) \<Rightarrow> ((case c of None \<Rightarrow> cs | Some k \<Rightarrow> k # cs), scans2)))"

definition dueGaps :: "int \<Rightarrow> int \<Rightarrow> int \<Rightarrow> GapStore \<Rightarrow> SyncGapRepairTarget list" where
  "dueGaps chainId now upperBound db =
     listDueRepairsAtNewestPendingHeight (gs_collections db) chainId now 16 upperBound (gs_scans db)"

definition planRepair :: "int \<Rightarrow> int \<Rightarrow> int \<Rightarrow> int \<Rightarrow> GapStore \<Rightarrow> string + SyncGapRepairBatch option \<times> GapStore" where
  "planRepair chainId batchSize now upperBound db =
     (let pending = dueGaps chainId now upperBound db;
          (candidates, scans) = reconcileAll (gs_coverage db) chainId batchSize now pending (gs_scans db);
          db1 = db\<lparr> gs_scans := scans \<rparr>;
          newestReady = (case dueGaps chainId now upperBound db1 of [] \<Rightarrow> None | r # _ \<Rightarrow> Some (gr_toBlock r))
      in bindR (planSyncGapRepairBatches
                  (filter (\<lambda>c. Some (gr_toBlock (gc_repair c)) = newestReady) candidates) batchSize) (\<lambda>batches.
           Inr (case batches of [] \<Rightarrow> None | b # _ \<Rightarrow> Some b, db1)))"

text \<open>The members of a planned batch that still own their range when it is acquired.\<close>

definition admittedRepairs :: "int \<Rightarrow> GapStore \<Rightarrow> SyncGapRepairBatch \<Rightarrow> (SyncGapRepairTarget \<times> CollectionRow) list" where
  "admittedRepairs chainId db planned =
     List.map_filter (\<lambda>r.
       case getCollection (gs_collections db) chainId (rt_collectionId r) of None \<Rightarrow> None
       | Some c \<Rightarrow> if isCurrentSyncGapRepair chainId r (Some c) (getProgress (gs_scans db) chainId (rt_collectionId r))
                   then Some (r, c) else None) (gb_repairs planned)"

end
