(* ===== verification/Reorg_System.thy ===== *)
theory Reorg_System
  imports Reorg_Recovery Sync_Range_Commit
begin

text \<open>
  The recovery journal under concurrent processes.  A state of the system is the database with two
  ghost components: every journal state that some process may have read, and for each chain the
  blocks that a committed rollback has removed and that no committed result has synchronised since,
  each with the head that the rollback observed.
\<close>

section \<open>Reads after writes\<close>

lemma base_of_simps [simp]:
  "rb_chainId (base_of (AwaitingAncestor a)) = rb_chainId a" "rb_chainId (base_of (Resync r)) = rb_chainId r"
  "rb_recoveryId (base_of (AwaitingAncestor a)) = rb_recoveryId a"
  "rb_recoveryId (base_of (Resync r)) = rb_recoveryId r"
  "rb_version (base_of (AwaitingAncestor a)) = rb_version a" "rb_version (base_of (Resync r)) = rb_version r"
  "rb_revision (base_of (AwaitingAncestor a)) = rb_revision a" "rb_revision (base_of (Resync r)) = rb_revision r"
  "rb_checkedBlock (base_of (AwaitingAncestor a)) = rb_checkedBlock a"
  "rb_checkedBlock (base_of (Resync r)) = rb_checkedBlock r"
  "rb_storedHash (base_of (AwaitingAncestor a)) = rb_storedHash a"
  "rb_storedHash (base_of (Resync r)) = rb_storedHash r"
  "rb_observedHash (base_of (AwaitingAncestor a)) = rb_observedHash a"
  "rb_observedHash (base_of (Resync r)) = rb_observedHash r"
  "rb_retryAt (base_of (AwaitingAncestor a)) = rb_retryAt a" "rb_retryAt (base_of (Resync r)) = rb_retryAt r"
  by (simp_all add: RecoveryBase.defs)

declare base_of.simps [simp del]

lemma state_of_row_of_state [simp]:
  "state_of_row (rb_chainId (base_of s)) (row_of_state s) = Inr s"
  by (cases s) (simp_all add: state_of_row_def row_of_state_def)

lemma getRecovery_save:
  "getRecovery (saveRecovery s db) c =
     (if c = rb_chainId (base_of s) then Inr (Some s) else getRecovery db c)"
  by (simp add: getRecovery_def saveRecovery_def update_conv')

lemma getRecovery_remove:
  "getRecovery (removeRecovery c' db) c = (if c = c' then Inr None else getRecovery db c)"
  by (auto simp: getRecovery_def removeRecovery_def delete_conv')

lemma getRecovery_chain [simp]: "getRecovery (db\<lparr> idb_chain := ch \<rparr>) c = getRecovery db c"
  by (simp add: getRecovery_def)

lemma idb_chain_journal_ops [simp]:
  "idb_chain (saveRecovery s db) = idb_chain db"
  "idb_chain (removeRecovery c db) = idb_chain db"
  by (simp_all add: saveRecovery_def removeRecovery_def)

fun with_retry :: "int \<Rightarrow> ReorgRecoveryState \<Rightarrow> ReorgRecoveryState" where
  "with_retry t (AwaitingAncestor a) = AwaitingAncestor (a\<lparr> rb_retryAt := t \<rparr>)"
| "with_retry t (Resync r) = Resync (r\<lparr> rb_retryAt := t \<rparr>)"

definition same_content :: "ReorgRecoveryState \<Rightarrow> ReorgRecoveryState \<Rightarrow> bool" where
  "same_content s s' \<longleftrightarrow> with_retry 0 s = with_retry 0 s'"

lemma with_retry_content [simp]: "same_content (with_retry t s) s' \<longleftrightarrow> same_content s s'"
  by (cases s) (simp_all add: same_content_def)

lemma same_content_refl [simp]: "same_content s s"
  by (simp add: same_content_def)

lemma same_content_sym: "same_content s s' \<Longrightarrow> same_content s' s"
  by (simp add: same_content_def)

lemma same_content_trans: "same_content s s' \<Longrightarrow> same_content s' s'' \<Longrightarrow> same_content s s''"
  by (simp add: same_content_def)

lemma state_of_row_retry:
  "state_of_row c (row\<lparr> rr_retryAt := t, rr_lastError := e \<rparr>) =
     bindR (state_of_row c row) (\<lambda>s. Inr (with_retry t s))"
  by (simp add: state_of_row_def split: Phase.splits option.splits)

lemma getRecovery_updateRetry:
  "\<exists>b. getRecovery (updateRetry c' cond t e db) c =
     bindR (getRecovery db c) (\<lambda>cur. Inr (map_option (if b then with_retry t else id) cur))"
proof (cases "map_of (idb_recoveries db) c'")
  case None
  then show ?thesis
    by (intro exI [of _ False]) (cases "getRecovery db c"; simp add: updateRetry_def option.map_id)
next
  case (Some row)
  show ?thesis
  proof (cases "c = c' \<and> cond row")
    case True
    with Some show ?thesis
      by (intro exI [of _ True])
        (cases "state_of_row c row"; simp add: updateRetry_def getRecovery_def update_conv' state_of_row_retry)
  next
    case False
    then have "getRecovery (updateRetry c' cond t e db) c = getRecovery db c"
      using Some by (auto simp: updateRetry_def getRecovery_def update_conv')
    then show ?thesis
      by (intro exI [of _ False]) (cases "getRecovery db c"; simp add: option.map_id)
  qed
qed

lemma idb_chain_updateRetry [simp]: "idb_chain (updateRetry c cond t e db) = idb_chain db"
  by (simp add: updateRetry_def split: option.splits)

section \<open>Revisions\<close>

abbreviation revision_of :: "'f ChainDb \<Rightarrow> int \<Rightarrow> int" where
  "revision_of db c \<equiv> cp_revision (captureChainSyncCheckpoint db c)"

lemma revision_cong: "db_revisions db' = db_revisions db \<Longrightarrow> revision_of db' c = revision_of db c"
  by (simp add: captureChainSyncCheckpoint_def)

lemma revision_advance:
  "revision_of (advanceChainSyncRevision c' db) c = (if c = c' then revision_of db c + 1 else revision_of db c)"
  by (auto simp: captureChainSyncCheckpoint_def advanceChainSyncRevision_def update_conv' split: option.splits)

lemma persistSyncResult_revisions:
  "persistSyncResult port result db = Inr db' \<Longrightarrow> db_revisions db' = db_revisions db"
  by (elim persistSyncResult_Inr) simp

lemma updateCheckedBlock_revisions:
  "updateCheckedBlock check p f db = (b, db') \<Longrightarrow> db_revisions db' = db_revisions db"
  by (auto simp: updateCheckedBlock_def Let_def split: option.splits if_splits)

lemma completeCheck_revisions: "completeCheck check db = Inr (b, db') \<Longrightarrow> db_revisions db' = db_revisions db"
  by (auto simp: completeCheck_def bindR_Inr_iff dest: updateCheckedBlock_revisions)

lemma retainCheck_revisions: "retainCheck check db = Inr (b, db') \<Longrightarrow> db_revisions db' = db_revisions db"
  by (auto simp: retainCheck_def bindR_Inr_iff dest: updateCheckedBlock_revisions)

lemma deferCheck_revisions: "deferCheck check t db = Inr db' \<Longrightarrow> db_revisions db' = db_revisions db"
  by (auto simp: deferCheck_def bindR_Inr_iff updateCheckedBlock_revisions [OF surjective_pairing])

lemma rollback_revision:
  assumes "rollbackFromBlock port plan snapshot db = Inr db'"
  shows "revision_of db (cp_chainId (pl_checkpoint plan)) = cp_revision (pl_checkpoint plan)"
    and "revision_of db' c = (if c = cp_chainId (pl_checkpoint plan) then revision_of db c + 1 else revision_of db c)"
proof -
  from assms show "revision_of db (cp_chainId (pl_checkpoint plan)) = cp_revision (pl_checkpoint plan)"
    by (rule rollbackFromBlock_Inr) (simp add: assertChainSyncCheckpoint_iff)
  from assms obtain db1 where db1: "db' = advanceChainSyncRevision (cp_chainId (pl_checkpoint plan)) db1"
    "db_revisions db1 = db_revisions db"
    by (rule rollbackFromBlock_Inr)
  from db1(1) revision_cong [OF db1(2)] show "revision_of db' c = (if c = cp_chainId (pl_checkpoint plan) then revision_of db c + 1 else revision_of db c)"
    by (simp add: revision_advance)
qed

section \<open>The system\<close>

record 'f ReorgSystem =
  sy_db :: "'f IndexerDb"
  sy_seen :: "ReorgRecoveryState set"
  sy_removed :: "int \<Rightarrow> int \<rightharpoonup> int"

text \<open>
  A rollback leaves a block to the journal if it is not above the head that it observed; the
  blocks above are left to the synchronisation of new heads.
\<close>

definition due :: "(int \<rightharpoonup> int) \<Rightarrow> int set" where
  "due removed = {x. \<exists>h. removed x = Some h \<and> x \<le> h}"

abbreviation sy_owed :: "'f ReorgSystem \<Rightarrow> int \<Rightarrow> int set" where
  "sy_owed s c \<equiv> due (sy_removed s c)"

definition journal_states :: "'f IndexerDb \<Rightarrow> ReorgRecoveryState set" where
  "journal_states db = {s. \<exists>c. getRecovery db c = Inr (Some s)}"

definition fresh_id :: "string \<Rightarrow> 'f ReorgSystem \<Rightarrow> bool" where
  "fresh_id i s \<longleftrightarrow> (\<forall>e \<in> sy_seen s. rb_recoveryId (base_of e) \<noteq> i)"

definition write_db :: "'f IndexerDb \<Rightarrow> 'f ReorgSystem \<Rightarrow> 'f ReorgSystem" where
  "write_db db s = s\<lparr> sy_db := db, sy_seen := sy_seen s \<union> journal_states db \<rparr>"

definition mark :: "int \<Rightarrow> ((int \<rightharpoonup> int) \<Rightarrow> (int \<rightharpoonup> int)) \<Rightarrow> 'f ReorgSystem \<Rightarrow> 'f ReorgSystem" where
  "mark c f s = s\<lparr> sy_removed := (sy_removed s)(c := f (sy_removed s c)) \<rparr>"

text \<open>
  A resume that commits removes every block from the rollback's first one on, also those above the
  observed head.  Only a committed result, with the headers of its blocks, ends that.
\<close>

definition resume_removes ::
  "('f, 'd) FactsPort \<Rightarrow> ReorgRecoveryOptions \<Rightarrow> AwaitingReorgAncestor
    \<Rightarrow> (sync_error + ReorgAncestorProof option)
    \<Rightarrow> (sync_error + ReorgRollbackPlan \<times> Erc721RollbackSnapshot) \<Rightarrow> (sync_error + int) \<Rightarrow> int
    \<Rightarrow> 'f IndexerDb \<Rightarrow> (int \<rightharpoonup> int) \<Rightarrow> (int \<rightharpoonup> int)"
where
  "resume_removes port opt recovery found prepared observedHead now db removed =
     (case (found, prepared, observedHead) of
        (Inr (Some prf), Inr (plan, snapshot), Inr head) \<Rightarrow>
          (case attemptResume port opt recovery prf prepared observedHead now db of
             Inl _ \<Rightarrow> removed
           | Inr _ \<Rightarrow> (\<lambda>x. if pl_fromBlock plan \<le> x then Some head else removed x))
      | _ \<Rightarrow> removed)"

definition synchronised :: "SyncBlockHeader list \<Rightarrow> (int \<rightharpoonup> int) \<Rightarrow> (int \<rightharpoonup> int)" where
  "synchronised blocks removed = (\<lambda>x. if x \<in> hdr_number ` set blocks then None else removed x)"

abbreviation committing :: "'f ReorgSystem \<Rightarrow> Scans \<Rightarrow> QueueOutbox \<Rightarrow> 'f SyncDb" where
  "committing s scans outbox \<equiv> \<lparr> sd_indexer = sy_db s, sd_scans = scans, sd_outbox = outbox \<rparr>"

text \<open>The executor completes a resync range with the batch size it is configured with.\<close>

fun completes_with :: "int \<Rightarrow> SyncWorkCompletion \<Rightarrow> bool" where
  "completes_with batchSize (ReorgRange rng b retryAt) \<longleftrightarrow> b = batchSize"
| "completes_with batchSize Unmanaged \<longleftrightarrow> True"
| "completes_with batchSize (GapRepair batch retryAt) \<longleftrightarrow> True"

text \<open>
  One transaction of one process.  \<open>expected\<close> is the journal state that the process read when it
  started; all that it learnt from the provider since (\<open>answer\<close>, \<open>found\<close>, \<open>prepared\<close>, \<open>head\<close>) is
  arbitrary, and so are the result that a commit persists, the work it completes and the tables next
  to the journal that it reads.  New recovery ids are random UUIDs, so they have not been used before.
\<close>

inductive reorg_step :: "('f, 'd) FactsPort \<Rightarrow> ReorgRecoveryOptions \<Rightarrow> 'f ReorgSystem \<Rightarrow> 'f ReorgSystem \<Rightarrow> bool"
  for port :: "('f, 'd) FactsPort" and opt :: ReorgRecoveryOptions
where
  sync: "commitSyncRange port input (committing s scans outbox) = Inr db
    \<Longrightarrow> completes_with (ro_batchSize opt) (sc_completion input)
    \<Longrightarrow> reorg_step port opt s
          (mark (cp_chainId (sr_checkpoint (sc_result input))) (synchronised (sr_blocks (sc_result input)))
            (write_db (sd_indexer db) s))"
| others: "chain = (idb_chain (sy_db s))\<lparr> db_collections := cs, db_facts := fs \<rparr>
    \<Longrightarrow> reorg_step port opt s (write_db ((sy_db s)\<lparr> idb_chain := chain \<rparr>) s)"
| rearm: "retainCheck check (idb_chain (sy_db s)) = Inr (b, chain)
    \<Longrightarrow> reorg_step port opt s (write_db ((sy_db s)\<lparr> idb_chain := chain \<rparr>) s)"
| check: "finishCheck opt check answer recoveryId now later (sy_db s) = Inr (again, db) \<Longrightarrow> fresh_id recoveryId s
    \<Longrightarrow> reorg_step port opt s (write_db db s)"
| refresh: "expected \<in> sy_seen s \<Longrightarrow> cp_chainId cp = rb_chainId (base_of expected)
    \<Longrightarrow> refreshCheckpoint expected cp recoveryId now (sy_db s) = Inr db \<Longrightarrow> fresh_id recoveryId s
    \<Longrightarrow> reorg_step port opt s (write_db db s)"
| resume: "AwaitingAncestor expected \<in> sy_seen s
    \<Longrightarrow> reorg_step port opt s
          (mark (rb_chainId expected) (resume_removes port opt expected found prepared observedHead now (sy_db s))
            (write_db (finishResume port opt expected found prepared observedHead now later message (sy_db s)) s))"
| range_deferred: "reorg_step port opt s (write_db (deferResync rng retryAt err (sy_db s)) s)"

definition initial_system :: "'f ReorgSystem \<Rightarrow> bool" where
  "initial_system s \<longleftrightarrow> idb_recoveries (sy_db s) = [] \<and> sy_seen s = {} \<and> sy_removed s = (\<lambda>_. Map.empty)"

section \<open>The invariant\<close>

fun range_ok :: "ReorgRecoveryState \<Rightarrow> bool" where
  "range_ok (AwaitingAncestor a) \<longleftrightarrow> True"
| "range_ok (Resync r) \<longleftrightarrow> rs_fromBlock r \<le> rs_toBlock r \<and> rs_toBlock r \<le> rs_targetBlock r"

text \<open>The blocks owed are among those that the journal will still synchronise.\<close>

fun covers_owed :: "ReorgRecoveryState \<Rightarrow> int set \<Rightarrow> bool" where
  "covers_owed (AwaitingAncestor a) owed \<longleftrightarrow> (\<forall>x \<in> owed. \<exists>f. aw_resumeFrom a = Some f \<and> f \<le> x)"
| "covers_owed (Resync r) owed \<longleftrightarrow> owed \<subseteq> {rs_fromBlock r..rs_targetBlock r}"

text \<open>A journal state is identified by its recovery id and version, up to its retry time.\<close>

definition tracked :: "ReorgRecoveryState set \<Rightarrow> ReorgRecoveryState \<Rightarrow> bool" where
  "tracked seen s \<longleftrightarrow> s \<in> seen \<and>
     (\<forall>e \<in> seen. rb_chainId (base_of e) = rb_chainId (base_of s)
        \<and> rb_recoveryId (base_of e) = rb_recoveryId (base_of s) \<longrightarrow>
          rb_version (base_of e) \<le> rb_version (base_of s) \<and>
          (rb_version (base_of e) = rb_version (base_of s) \<longrightarrow> same_content e s))"

definition journal_ok :: "'f ReorgSystem \<Rightarrow> int \<Rightarrow> ReorgRecoveryState option \<Rightarrow> bool" where
  "journal_ok s c current \<longleftrightarrow>
     (case current of
        None \<Rightarrow> sy_owed s c = {}
      | Some r \<Rightarrow> rb_chainId (base_of r) = c \<and> tracked (sy_seen s) r \<and> range_ok r
                  \<and> covers_owed r (sy_owed s c) \<and> rb_revision (base_of r) \<le> revision_of (idb_chain (sy_db s)) c)"

definition reorg_inv :: "'f ReorgSystem \<Rightarrow> bool" where
  "reorg_inv s \<longleftrightarrow> (\<forall>c. \<exists>current. getRecovery (sy_db s) c = Inr current \<and> journal_ok s c current)"


lemma getRecovery_chainId:
  assumes "getRecovery db c = Inr (Some r)"
  shows "rb_chainId (base_of r) = c"
proof -
  from assms obtain row where "state_of_row c row = Inr r"
    by (auto simp: getRecovery_def bindR_Inr_iff split: option.splits)
  then show ?thesis by (auto simp: state_of_row_def split: Phase.splits option.splits)
qed

definition follows :: "'f ReorgSystem \<Rightarrow> int \<Rightarrow> ReorgRecoveryState \<Rightarrow> bool" where
  "follows s c r' \<longleftrightarrow> fresh_id (rb_recoveryId (base_of r')) s \<or>
     (\<exists>r. getRecovery (sy_db s) c = Inr (Some r) \<and> rb_recoveryId (base_of r') = rb_recoveryId (base_of r) \<and>
          (rb_version (base_of r') = rb_version (base_of r) + 1 \<or> same_content r' r))"

lemma with_retry_fields [simp]:
  "rb_chainId (base_of (with_retry t x)) = rb_chainId (base_of x)"
  "rb_recoveryId (base_of (with_retry t x)) = rb_recoveryId (base_of x)"
  "rb_version (base_of (with_retry t x)) = rb_version (base_of x)"
  "rb_revision (base_of (with_retry t x)) = rb_revision (base_of x)"
  "rb_checkedBlock (base_of (with_retry t x)) = rb_checkedBlock (base_of x)"
  "range_ok (with_retry t x) = range_ok x"
  "covers_owed (with_retry t x) owed = covers_owed x owed"
  by (cases x; simp)+

lemma same_content_base:
  assumes "same_content a b"
  shows "rb_chainId (base_of a) = rb_chainId (base_of b)" "rb_recoveryId (base_of a) = rb_recoveryId (base_of b)"
    "rb_version (base_of a) = rb_version (base_of b)" "rb_revision (base_of a) = rb_revision (base_of b)"
    "rb_checkedBlock (base_of a) = rb_checkedBlock (base_of b)"
    "range_ok a = range_ok b" "covers_owed a owed = covers_owed b owed"
  using with_retry_fields [of 0 a] with_retry_fields [of 0 b] assms
  unfolding same_content_def by metis+

lemma follows_tracked:
  assumes "reorg_inv s" and "follows s c r'" and "getRecovery db c = Inr (Some r')"
  shows "tracked (sy_seen s \<union> journal_states db) r'"
proof -
  note chain' = getRecovery_chainId [OF assms(3)]
  have own: "e = r'" if "e \<in> journal_states db" "rb_chainId (base_of e) = c" for e
    using that assms(3) getRecovery_chainId by (fastforce simp: journal_states_def)
  have old: "rb_version (base_of e) \<le> rb_version (base_of r') \<and>
      (rb_version (base_of e) = rb_version (base_of r') \<longrightarrow> same_content e r')"
    if "e \<in> sy_seen s" "rb_chainId (base_of e) = c" "rb_recoveryId (base_of e) = rb_recoveryId (base_of r')" for e
    using assms(2) unfolding follows_def
  proof
    assume "fresh_id (rb_recoveryId (base_of r')) s"
    with that show ?thesis by (simp add: fresh_id_def)
  next
    assume "\<exists>r. getRecovery (sy_db s) c = Inr (Some r) \<and> rb_recoveryId (base_of r') = rb_recoveryId (base_of r) \<and>
          (rb_version (base_of r') = rb_version (base_of r) + 1 \<or> same_content r' r)"
    then obtain r where r: "getRecovery (sy_db s) c = Inr (Some r)"
      "rb_recoveryId (base_of r') = rb_recoveryId (base_of r)"
      and cases: "rb_version (base_of r') = rb_version (base_of r) + 1 \<or> same_content r' r" by blast
    from assms(1) r(1) have "tracked (sy_seen s) r" "rb_chainId (base_of r) = c"
      by (auto simp: reorg_inv_def journal_ok_def dest: spec [of _ c])
    with that r(2) have "rb_version (base_of e) \<le> rb_version (base_of r) \<and>
      (rb_version (base_of e) = rb_version (base_of r) \<longrightarrow> same_content e r)" by (auto simp: tracked_def)
    with cases show ?thesis
      by (metis add.commute linorder_not_less same_content_base(3) same_content_sym same_content_trans
          zle_add1_eq_le order_less_le less_add_one)
  qed
  have "rb_version (base_of e) \<le> rb_version (base_of r') \<and>
      (rb_version (base_of e) = rb_version (base_of r') \<longrightarrow> same_content e r')"
    if "e \<in> sy_seen s \<union> journal_states db" "rb_chainId (base_of e) = c"
      "rb_recoveryId (base_of e) = rb_recoveryId (base_of r')" for e
    using own [of e] old [of e] that by (metis Un_iff order_refl same_content_refl)
  with assms(3) chain' show ?thesis by (auto simp: tracked_def journal_states_def)
qed

text \<open>
  The invariant is kept by a write if every chain's journal entry afterwards follows the one before
  and covers what is owed then.
\<close>

definition entry_ok :: "'f ReorgSystem \<Rightarrow> 'f IndexerDb \<Rightarrow> int \<Rightarrow> int set \<Rightarrow> bool" where
  "entry_ok s db c owed \<longleftrightarrow> (\<exists>current. getRecovery db c = Inr current \<and>
     (case current of None \<Rightarrow> owed = {}
      | Some r \<Rightarrow> follows s c r \<and> range_ok r \<and> covers_owed r owed
                  \<and> rb_revision (base_of r) \<le> revision_of (idb_chain db) c))"

lemma entry_ok_write:
  assumes "reorg_inv s" and "\<And>c. entry_ok s (sy_db s') c (sy_owed s' c)"
    and "sy_seen s' = sy_seen s \<union> journal_states (sy_db s')"
  shows "reorg_inv s'"
  unfolding reorg_inv_def
proof
  fix c
  from assms(2) [of c] obtain current where current: "getRecovery (sy_db s') c = Inr current"
    "case current of None \<Rightarrow> sy_owed s' c = {}
     | Some r \<Rightarrow> follows s c r \<and> range_ok r \<and> covers_owed r (sy_owed s' c)
                 \<and> rb_revision (base_of r) \<le> revision_of (idb_chain (sy_db s')) c" by (auto simp: entry_ok_def)
  have "journal_ok s' c current"
    using current assms(3) follows_tracked [OF assms(1) _ , of c _ "sy_db s'"] getRecovery_chainId [of "sy_db s'" c]
    by (auto simp: journal_ok_def split: option.splits)
  with current(1) show "\<exists>current. getRecovery (sy_db s') c = Inr current \<and> journal_ok s' c current" by simp
qed

lemma covers_owed_subset: "covers_owed r owed \<Longrightarrow> owed' \<subseteq> owed \<Longrightarrow> covers_owed r owed'"
  by (cases r) auto

lemma entry_ok_subset: "entry_ok s db c owed \<Longrightarrow> owed' \<subseteq> owed \<Longrightarrow> entry_ok s db c owed'"
  by (auto simp: entry_ok_def split: option.splits intro: covers_owed_subset)

lemma entry_ok_saved:
  assumes "getRecovery db c = Inr (Some r)" "follows s c r" "range_ok r" "covers_owed r owed"
    "rb_revision (base_of r) \<le> revision_of (idb_chain db) c"
  shows "entry_ok s db c owed"
  using assms by (auto simp: entry_ok_def)

text \<open>An entry whose retry time at most has changed is fine.\<close>

lemma entry_ok_retry:
  assumes "reorg_inv s"
    and "getRecovery db c = bindR (getRecovery (sy_db s) c) (\<lambda>cur. Inr (map_option (if b then with_retry t else id) cur))"
    and "revision_of (idb_chain (sy_db s)) c \<le> revision_of (idb_chain db) c"
  shows "entry_ok s db c (sy_owed s c)"
proof -
  from assms(1) obtain cur where cur: "getRecovery (sy_db s) c = Inr cur" "journal_ok s c cur"
    unfolding reorg_inv_def by blast
  show ?thesis
  proof (cases cur)
    case None
    with cur assms(2) show ?thesis by (simp add: entry_ok_def journal_ok_def)
  next
    case (Some r)
    let ?r = "(if b then with_retry t else id) r"
    have "getRecovery db c = Inr (Some ?r)" using assms(2) cur(1) Some by simp
    moreover have "follows s c ?r" using cur(1) Some by (auto simp: follows_def)
    moreover have "range_ok ?r" "covers_owed ?r (sy_owed s c)" "rb_revision (base_of ?r) \<le> revision_of (idb_chain db) c"
      using cur(2) Some assms(3) by (auto simp: journal_ok_def)
    ultimately show ?thesis by (rule entry_ok_saved)
  qed
qed

lemma entry_ok_unchanged:
  assumes "reorg_inv s" and "getRecovery db c = getRecovery (sy_db s) c"
    and "revision_of (idb_chain (sy_db s)) c \<le> revision_of (idb_chain db) c"
  shows "entry_ok s db c (sy_owed s c)"
proof (rule entry_ok_retry [OF assms(1) _ assms(3), of False])
  show "getRecovery db c =
      bindR (getRecovery (sy_db s) c) (\<lambda>cur. Inr (map_option (if False then with_retry t else id) cur))" for t
    using assms(2) by (cases "getRecovery (sy_db s) c") (simp_all add: option.map_id)
qed

section \<open>Every step keeps the invariant\<close>

lemma retain_covers:
  assumes "case current of None \<Rightarrow> owed = {} | Some r \<Rightarrow> covers_owed r owed"
  shows "covers_owed (AwaitingAncestor (retainReorgMismatch current m)) owed"
  using assms
  by (fastforce simp: retainReorgMismatch_def Let_def split: option.splits ReorgRecoveryState.splits if_splits)

lemma retain_new_fields:
  assumes "\<not> keepsCurrent current m"
  shows "rb_chainId (retainReorgMismatch current m) = cp_chainId (mm_checkpoint m)"
    "rb_recoveryId (retainReorgMismatch current m) = mm_recoveryId m"
    "rb_revision (retainReorgMismatch current m) = cp_revision (mm_checkpoint m)"
  using assms
  by (auto simp: retainReorgMismatch_def Let_def split: option.splits ReorgRecoveryState.splits)

lemma retainMismatch_entry:
  assumes "reorg_inv s" and "retainMismatch m (sy_db s) = Inr (r, db)" and "fresh_id (mm_recoveryId m) s"
  shows "entry_ok s db c (sy_owed s c)"
proof -
  let ?c = "cp_chainId (mm_checkpoint m)"
  from assms(2) obtain current db1 b chain where
    rev: "revision_of (idb_chain (sy_db s)) ?c = cp_revision (mm_checkpoint m)"
    and cur: "getRecovery (sy_db s) ?c = Inr current"
    and db1: "db1 = (if keepsCurrent current m then sy_db s
                     else saveRecovery (AwaitingAncestor (retainReorgMismatch current m)) (sy_db s))"
    and chain: "completeCheck (mismatch_check m) (idb_chain db1) = Inr (b, chain)" "db = db1\<lparr> idb_chain := chain \<rparr>"
    by (auto simp: retainMismatch_def assertRevision_def Let_def bindR_Inr_iff split: prod.splits if_splits)
  have "idb_chain db1 = idb_chain (sy_db s)" using db1 by simp
  with revision_cong [OF completeCheck_revisions [OF chain(1)]] chain(2)
  have revs: "revision_of (idb_chain db) c' = revision_of (idb_chain (sy_db s)) c'" for c' by simp
  show ?thesis
  proof (cases "c = ?c \<and> \<not> keepsCurrent current m")
    case False
    then have "getRecovery db c = getRecovery (sy_db s) c"
      using chain(2) db1 by (auto simp: getRecovery_save retain_new_fields)
    with assms(1) revs show ?thesis by (simp add: entry_ok_unchanged)
  next
    case True
    let ?r = "AwaitingAncestor (retainReorgMismatch current m)"
    from assms(1) cur have "case current of None \<Rightarrow> sy_owed s ?c = {} | Some r \<Rightarrow> covers_owed r (sy_owed s ?c)"
      by (auto simp: reorg_inv_def journal_ok_def dest: spec [of _ ?c] split: option.splits)
    then have "covers_owed ?r (sy_owed s ?c)" by (rule retain_covers)
    moreover have "getRecovery db c = Inr (Some ?r)"
      using True chain(2) db1 by (simp add: getRecovery_save retain_new_fields)
    ultimately show ?thesis
      using True assms(3) revs rev by (intro entry_ok_saved [of _ _ ?r]) (auto simp: follows_def retain_new_fields)
  qed
qed


lemma chain_write_entry:
  assumes "reorg_inv s" and "db_revisions chain = db_revisions (idb_chain (sy_db s))"
  shows "entry_ok s ((sy_db s)\<lparr> idb_chain := chain \<rparr>) c (sy_owed s c)"
  using assms(1) revision_cong [OF assms(2)] by (intro entry_ok_unchanged) simp_all

lemma handleCheckFailure_entry:
  assumes "reorg_inv s" and "handleCheckFailure check t (sy_db s) = Inr (again, db)"
  shows "entry_ok s db c (sy_owed s c)"
  using assms(2) chain_write_entry [OF assms(1) refl]
  by (auto simp: handleCheckFailure_def bindR_Inr_iff split: if_splits
      intro: chain_write_entry [OF assms(1)] dest: deferCheck_revisions)

lemma finishCheck_Inr:
  assumes "finishCheck opt check answer recoveryId now later db = Inr (again, db')"
  obtains
    (failed) "handleCheckFailure check (later + ro_retryDelayMs opt) db = Inr (again, db')"
  | (verified) b chain where "completeCheck check (idb_chain db) = Inr (b, chain)" "db' = db\<lparr> idb_chain := chain \<rparr>"
  | (mismatch) m r where "mm_recoveryId m = recoveryId" "retainMismatch m db = Inr (r, db')"
  using assms unfolding finishCheck_def Let_def
  by (auto simp: bindR_Inr_iff split: sum.splits if_splits) force+

lemma finishCheck_entry:
  assumes "reorg_inv s" and "finishCheck opt check answer recoveryId now later (sy_db s) = Inr (again, db)"
    and "fresh_id recoveryId s"
  shows "entry_ok s db c (sy_owed s c)"
  using assms(2)
proof (cases rule: finishCheck_Inr)
  case failed
  with assms(1) show ?thesis by (rule handleCheckFailure_entry)
next
  case verified
  with assms(1) show ?thesis by (simp add: chain_write_entry completeCheck_revisions)
next
  case mismatch
  with assms(3) show ?thesis using retainMismatch_entry [OF assms(1)] by blast
qed

text \<open>A state that was read earlier and passes \<open>assertCurrent\<close> is the current one but for its retry time.\<close>

lemma assertCurrent_same_content:
  assumes "reorg_inv s" and "expected \<in> sy_seen s" and "assertCurrent (sy_db s) expected = Inr ()"
  obtains r where "getRecovery (sy_db s) (rb_chainId (base_of expected)) = Inr (Some r)"
    "same_content expected r" "journal_ok s (rb_chainId (base_of expected)) (Some r)"
proof -
  let ?c = "rb_chainId (base_of expected)"
  from assms(3) obtain r where r: "getRecovery (sy_db s) ?c = Inr (Some r)"
    "rb_recoveryId (base_of r) = rb_recoveryId (base_of expected)"
    "rb_version (base_of r) = rb_version (base_of expected)"
    by (auto simp: assertCurrent_def bindR_Inr_iff split: option.splits)
  from assms(1) r(1) have ok: "journal_ok s ?c (Some r)" by (auto simp: reorg_inv_def dest: spec [of _ ?c])
  with assms(2) r have "same_content expected r" by (auto simp: journal_ok_def tracked_def)
  with that r(1) ok show ?thesis by blast
qed

lemma refreshCheckpoint_entry:
  assumes "reorg_inv s" and "expected \<in> sy_seen s" and "cp_chainId cp = rb_chainId (base_of expected)"
    and "refreshCheckpoint expected cp recoveryId now (sy_db s) = Inr db" and "fresh_id recoveryId s"
  shows "entry_ok s db c (sy_owed s c)"
proof -
  let ?c = "rb_chainId (base_of expected)"
  define m where "m = \<lparr> mm_checkpoint = cp, mm_recoveryId = recoveryId,
    mm_checkedBlock = rb_checkedBlock (base_of expected), mm_storedHash = rb_storedHash (base_of expected),
    mm_observedHash = rb_observedHash (base_of expected), mm_now = now \<rparr>"
  let ?r = "AwaitingAncestor (retainReorgMismatch (Some expected) m)"
  from assms(4) have "assertCurrent (sy_db s) expected = Inr ()"
    and rev: "revision_of (idb_chain (sy_db s)) ?c = cp_revision cp"
    and db: "db = saveRecovery ?r (sy_db s)"
    using assms(3) by (auto simp: refreshCheckpoint_def assertRevision_def bindR_Inr_iff m_def)
  with assms(1,2) obtain r where r: "getRecovery (sy_db s) ?c = Inr (Some r)" "same_content expected r"
    "journal_ok s ?c (Some r)" by (blast elim: assertCurrent_same_content)
  from r(2,3) have "covers_owed expected (sy_owed s ?c)"
    by (simp add: journal_ok_def same_content_base(7) [of expected r])
  then have covers: "covers_owed ?r (sy_owed s ?c)" by (intro retain_covers) simp
  have kept: "?r = expected" if "keepsCurrent (Some expected) m"
    using that by (auto simp: retainReorgMismatch_def keepsCurrent_def Let_def split: ReorgRecoveryState.splits)
  have r': "rb_chainId (base_of ?r) = ?c" "follows s ?c ?r" "rb_revision (base_of ?r) = cp_revision cp"
  proof -
    show "rb_chainId (base_of ?r) = ?c"
      using kept retain_new_fields(1) [of "Some expected" m] assms(3)
      by (cases "keepsCurrent (Some expected) m") (auto simp: m_def)
    show "follows s ?c ?r"
    proof (cases "keepsCurrent (Some expected) m")
      case True
      then show ?thesis using kept r(1,2) same_content_base(2) [OF r(2)] by (auto simp: follows_def)
    next
      case False
      then show ?thesis using assms(5) by (simp add: follows_def retain_new_fields(2) m_def)
    qed
    show "rb_revision (base_of ?r) = cp_revision cp"
    proof (cases "keepsCurrent (Some expected) m")
      case True
      with kept show ?thesis
        by (auto simp: keepsCurrent_def m_def split: ReorgRecoveryState.splits)
    qed (simp add: retain_new_fields(3), simp add: m_def)
  qed
  show ?thesis
  proof (cases "c = ?c")
    case True
    then show ?thesis using db r' covers rev
      by (intro entry_ok_saved [of _ _ ?r]) (simp_all add: getRecovery_save)
  next
    case False
    then show ?thesis using db r' assms(1) by (intro entry_ok_unchanged) (simp_all add: getRecovery_save)
  qed
qed


lemma updateRetry_entry:
  assumes "reorg_inv s"
  shows "entry_ok s (updateRetry c' cond t e (sy_db s)) c (sy_owed s c)"
  using getRecovery_updateRetry [of c' cond t e "sy_db s" c] entry_ok_retry [OF assms, of _ c _ t] by auto

lemma beginReorgResync_Some:
  assumes "beginReorgResync a rollbackFrom head batchSize t = Inr (Some r)" and "1 \<le> batchSize"
  shows "rb_chainId r = rb_chainId a" "rb_recoveryId r = rb_recoveryId a" "rb_version r = rb_version a + 1"
    "rb_revision r = rb_revision a + 1" "range_ok (Resync r)" "rs_targetBlock r = head"
    "rs_fromBlock r \<le> rollbackFrom" "\<And>f. aw_resumeFrom a = Some f \<Longrightarrow> rs_fromBlock r \<le> f"
  using assms by (auto simp: beginReorgResync_def Let_def split: if_splits option.splits)

lemma beginReorgResync_None:
  assumes "beginReorgResync a rollbackFrom head batchSize t = Inr None"
  shows "head < rollbackFrom" "\<And>f. aw_resumeFrom a = Some f \<Longrightarrow> head < f"
  using assms by (auto simp: beginReorgResync_def Let_def split: if_splits option.splits)

lemma attemptResume_entry:
  assumes "reorg_inv s" and "AwaitingAncestor a \<in> sy_seen s" and "1 \<le> ro_batchSize opt"
    and commit: "attemptResume port opt a prf (Inr (plan, snapshot)) (Inr head) now (sy_db s) = Inr db"
  shows "entry_ok s db c (if c = rb_chainId a then (sy_owed s c \<union> {pl_fromBlock plan..}) \<inter> {..head}
                          else sy_owed s c)"
proof -
  let ?c = "rb_chainId a"
  from commit obtain upcoming chain where
    upcoming: "beginReorgResync a (pl_fromBlock plan) head (ro_batchSize opt) now = Inr upcoming"
    and current: "assertCurrent (sy_db s) (AwaitingAncestor a) = Inr ()"
    and plan: "cp_chainId (pl_checkpoint plan) = ?c" "cp_revision (pl_checkpoint plan) = rb_revision a"
    and chain: "rollbackFromBlock port plan snapshot (idb_chain (sy_db s)) = Inr chain"
    and db: "db = (case upcoming of None \<Rightarrow> removeRecovery ?c ((sy_db s)\<lparr> idb_chain := chain \<rparr>)
                   | Some r \<Rightarrow> saveRecovery (Resync r) ((sy_db s)\<lparr> idb_chain := chain \<rparr>))"
    by (auto simp: attemptResume_def commitRollbackAndResync_def plan_matches_def bindR_Inr_iff Let_def)
  from assertCurrent_same_content [OF assms(1,2) current] obtain r where
    cur: "getRecovery (sy_db s) ?c = Inr (Some r)" "same_content (AwaitingAncestor a) r" "journal_ok s ?c (Some r)"
    by (metis base_of_simps(1))
  then have owed: "covers_owed (AwaitingAncestor a) (sy_owed s ?c)"
    by (metis (no_types, lifting) journal_ok_def option.simps(5) same_content_base(7))
  note rev = rollback_revision [OF chain, unfolded plan]
  show ?thesis
  proof (cases "c = ?c")
    case False
    with db have "getRecovery db c = getRecovery (sy_db s) c" "idb_chain db = chain"
      using beginReorgResync_Some(1) [OF _ assms(3)] upcoming
      by (auto simp: getRecovery_save getRecovery_remove split: option.splits)
    with False rev(2) show ?thesis using assms(1) by (simp add: entry_ok_unchanged)
  next
    case True
    show ?thesis
    proof (cases upcoming)
      case None
      from beginReorgResync_None [OF upcoming [unfolded None]] owed
      have "(sy_owed s ?c \<union> {pl_fromBlock plan..}) \<inter> {..head} = {}" by fastforce
      with True None db show ?thesis by (simp add: entry_ok_def getRecovery_remove)
    next
      case (Some n)
      note n = beginReorgResync_Some [OF upcoming [unfolded Some] assms(3)]
      have "getRecovery db c = Inr (Some (Resync n))" using True Some db n(1) by (simp add: getRecovery_save)
      moreover have "follows s c (Resync n)"
        using True cur(1) same_content_base(2,3) [OF cur(2)] n(2,3) by (auto simp: follows_def)
      moreover have "covers_owed (Resync n) ((sy_owed s ?c \<union> {pl_fromBlock plan..}) \<inter> {..head})"
        using owed n(6-8) by fastforce
      moreover have "rb_revision (base_of (Resync n)) \<le> revision_of (idb_chain db) c"
        using True Some db rev n(4) by simp
      ultimately show ?thesis using True n(5) by (simp add: entry_ok_saved)
    qed
  qed
qed

lemma attemptResume_head:
  assumes "attemptResume port opt a prf (Inr (plan, snapshot)) (Inr head) now db = Inr db'"
  shows "pl_fromBlock plan \<le> head + 1"
  using assms by (auto simp: attemptResume_def bindR_Inr_iff beginReorgResync_def split: if_splits)

lemma due_removes:
  assumes "from \<le> head + 1"
  shows "due (\<lambda>x. if from \<le> x then Some head else removed x) \<subseteq> (due removed \<union> {from..}) \<inter> {..head}"
  using assms by (auto simp: due_def split: if_splits)

lemma due_synchronised: "due (synchronised blocks removed) = due removed - hdr_number ` set blocks"
  by (auto simp: due_def synchronised_def split: if_splits)

lemma resume_entry:
  assumes "reorg_inv s" and "AwaitingAncestor a \<in> sy_seen s" and "1 \<le> ro_batchSize opt"
  shows "entry_ok s (finishResume port opt a found prepared observedHead now later message (sy_db s)) c
    (if c = rb_chainId a then due (resume_removes port opt a found prepared observedHead now (sy_db s) (sy_removed s c))
     else sy_owed s c)"
proof (cases "\<exists>prf plan snapshot head db. found = Inr (Some prf) \<and> prepared = Inr (plan, snapshot) \<and>
    observedHead = Inr head \<and> attemptResume port opt a prf prepared observedHead now (sy_db s) = Inr db")
  case True
  then obtain p plan snapshot head db where
    eqs: "found = Inr (Some p)" "prepared = Inr (plan, snapshot)" "observedHead = Inr head"
    and commit: "attemptResume port opt a p (Inr (plan, snapshot)) (Inr head) now (sy_db s) = Inr db" by auto
  note kept = attemptResume_entry [OF assms commit, of c] and removed = due_removes [OF attemptResume_head [OF commit]]
  show ?thesis
  proof (cases "c = rb_chainId a")
    case True
    with entry_ok_subset [OF kept] removed commit eqs show ?thesis by (simp add: finishResume_def resume_removes_def)
  qed (use kept commit eqs in \<open>simp add: finishResume_def\<close>)
next
  case False
  have "finishResume port opt a found prepared observedHead now later message (sy_db s) =
      deferProof a (later + ro_retryDelayMs opt)
        (Some (if found = Inr None then ''No verified common ancestor'' else message)) (sy_db s)"
  proof -
    have "\<exists>e. attemptResume port opt a p prepared observedHead now (sy_db s) = Inl e" if "found = Inr (Some p)" for p
    proof (cases "attemptResume port opt a p prepared observedHead now (sy_db s)")
      case (Inr db)
      then have "\<exists>x. prepared = Inr x" "\<exists>h. observedHead = Inr h"
        by (auto simp: attemptResume_def bindR_Inr_iff)
      with Inr that False show ?thesis by (metis surj_pair)
    qed simp
    then show ?thesis by (auto simp: finishResume_def split: sum.splits option.splits)
  qed
  moreover have "resume_removes port opt a found prepared observedHead now (sy_db s) removed = removed" for removed
    using False by (auto simp: resume_removes_def split: sum.splits option.splits prod.splits)
  ultimately show ?thesis using updateRetry_entry [OF assms(1)] by (simp add: deferProof_def)
qed

lemma completeResyncRange_Inr:
  assumes "completeResyncRange rng batchSize t db = Inr (True, db')"
  obtains r where "getRecovery db (rg_chainId rng) = Inr (Some (Resync r))"
    "rb_chainId r = rg_chainId rng" "rs_fromBlock r = rg_fromBlock rng" "rs_toBlock r = rg_toBlock rng"
    "db' = (case advanceReorgResync r batchSize t of
              None \<Rightarrow> removeRecovery (rb_chainId r) db
            | Some n \<Rightarrow> saveRecovery (Resync n) db)"
proof -
  from assms obtain current where cur: "getRecovery db (rg_chainId rng) = Inr current"
    by (auto simp: completeResyncRange_def bindR_Inr_iff)
  with assms have "isCurrentReorgRange current rng"
    by (cases current) (auto simp: completeResyncRange_def split: ReorgRecoveryState.splits if_splits)
  then obtain r where current: "current = Some (Resync r)"
    and rng: "rb_chainId r = rg_chainId rng" "rs_fromBlock r = rg_fromBlock rng" "rs_toBlock r = rg_toBlock rng"
    by (cases "(current, rng)" rule: isCurrentReorgRange.cases) auto
  with cur have r: "getRecovery db (rg_chainId rng) = Inr (Some (Resync r))" by simp
  have "db' = (case advanceReorgResync r batchSize t of
                     None \<Rightarrow> removeRecovery (rb_chainId r) db
                   | Some n \<Rightarrow> saveRecovery (Resync n) db)"
    using assms r \<open>isCurrentReorgRange current rng\<close> current
    by (simp add: completeResyncRange_def bindR_Inr_iff)
  with that r rng show ?thesis by blast
qed

text \<open>Completing a range after a write \<open>db0\<close> to the chain's tables that leaves the revisions alone.\<close>

lemma completeResyncRange_entry:
  assumes "reorg_inv s" and "completeResyncRange rng (ro_batchSize opt) t db0 = Inr (True, db)"
    and "db0 = (sy_db s)\<lparr> idb_chain := chain \<rparr>" and "db_revisions chain = db_revisions (idb_chain (sy_db s))"
    and "1 \<le> ro_batchSize opt"
  shows "entry_ok s db c (if c = rg_chainId rng then sy_owed s c - {rg_fromBlock rng..rg_toBlock rng}
                          else sy_owed s c)"
proof -
  let ?c = "rg_chainId rng"
  from assms(2) obtain r where "getRecovery db0 ?c = Inr (Some (Resync r))"
    and rng: "rb_chainId r = ?c" "rs_fromBlock r = rg_fromBlock rng" "rs_toBlock r = rg_toBlock rng"
    and db: "db = (case advanceReorgResync r (ro_batchSize opt) t of
                     None \<Rightarrow> removeRecovery (rb_chainId r) db0
                   | Some n \<Rightarrow> saveRecovery (Resync n) db0)"
    by (rule completeResyncRange_Inr)
  then have r: "getRecovery (sy_db s) ?c = Inr (Some (Resync r))" by (simp add: assms(3))
  have revs: "revision_of (idb_chain db0) c' = revision_of (idb_chain (sy_db s)) c'" for c'
    using revision_cong [OF assms(4)] by (simp add: assms(3))
  from assms(1) r have ok: "journal_ok s ?c (Some (Resync r))" by (auto simp: reorg_inv_def dest: spec [of _ ?c])
  have adv: "rb_chainId n = rb_chainId r \<and> rb_recoveryId n = rb_recoveryId r \<and> rb_version n = rb_version r + 1
      \<and> rb_revision n = rb_revision r \<and> range_ok (Resync n) \<and> rs_fromBlock n = rs_toBlock r + 1
      \<and> rs_targetBlock n = rs_targetBlock r"
    if "advanceReorgResync r (ro_batchSize opt) t = Some n" for n
    using that assms(5) by (auto simp: advanceReorgResync_def Let_def split: if_splits)
  show ?thesis
  proof (cases "c = ?c")
    case False
    with db adv rng have "getRecovery db c = getRecovery (sy_db s) c" "idb_chain db = idb_chain db0"
      by (auto simp: assms(3) getRecovery_save getRecovery_remove split: option.splits)
    with False show ?thesis using assms(1) revs by (simp add: entry_ok_unchanged)
  next
    case True
    show ?thesis
    proof (cases "advanceReorgResync r (ro_batchSize opt) t")
      case None
      with ok rng have "sy_owed s ?c - {rg_fromBlock rng..rg_toBlock rng} = {}"
        by (auto simp: advanceReorgResync_def Let_def journal_ok_def split: if_splits)
      with True None db rng show ?thesis by (simp add: entry_ok_def getRecovery_remove)
    next
      case (Some n)
      note n = adv [OF Some]
      have "getRecovery db c = Inr (Some (Resync n))" using True Some db n rng by (simp add: getRecovery_save)
      moreover have "follows s c (Resync n)" using True r n by (auto simp: follows_def)
      moreover have "covers_owed (Resync n) (sy_owed s ?c - {rg_fromBlock rng..rg_toBlock rng})"
        using ok rng n by (auto simp: journal_ok_def)
      moreover have "rb_revision (base_of (Resync n)) \<le> revision_of (idb_chain db) c"
        using True Some db ok n revs by (simp add: journal_ok_def)
      ultimately show ?thesis using True n by (simp add: entry_ok_saved)
    qed
  qed
qed

lemma commitSyncRange_Inr:
  assumes "commitSyncRange port input db = Inr db'"
  obtains chain where "persistSyncResult port (sc_result input) (sd_chain db) = Inr chain"
    "sd_indexer db' = (sd_indexer db)\<lparr> idb_chain := chain \<rparr> \<or>
     (\<exists>rng b t. sc_completion input = ReorgRange rng b t
        \<and> covers_range (sr_blocks (sc_result input)) (rg_fromBlock rng) (rg_toBlock rng)
        \<and> rg_chainId rng = cp_chainId (sr_checkpoint (sc_result input))
        \<and> completeResyncRange rng b t ((sd_indexer db)\<lparr> idb_chain := chain \<rparr>) = Inr (True, sd_indexer db'))"
proof -
  let ?c = "cp_chainId (sr_checkpoint (sc_result input))"
  from assms obtain chain outbox where work: "assertCurrentWork (sc_result input) (sc_completion input) db = Inr ()"
    and chain: "liftConflict SyncConflict (persistSyncResult port (sc_result input) (sd_chain db)) = Inr chain"
    and completed: "completeWork ?c (sc_completion input)
        (db\<lparr> sd_indexer := (sd_indexer db)\<lparr> idb_chain := chain \<rparr>, sd_outbox := outbox \<rparr>) = Inr db'"
    by (auto simp: commitSyncRange_def Let_def bindR_Inr_iff)
  have "persistSyncResult port (sc_result input) (sd_chain db) = Inr chain"
    using chain by (cases "persistSyncResult port (sc_result input) (sd_chain db)") (simp_all add: liftConflict_def)
  moreover have "sd_indexer db' = (sd_indexer db)\<lparr> idb_chain := chain \<rparr> \<or>
     (\<exists>rng b t. sc_completion input = ReorgRange rng b t
        \<and> covers_range (sr_blocks (sc_result input)) (rg_fromBlock rng) (rg_toBlock rng) \<and> rg_chainId rng = ?c
        \<and> completeResyncRange rng b t ((sd_indexer db)\<lparr> idb_chain := chain \<rparr>) = Inr (True, sd_indexer db'))"
  proof (cases "sc_completion input")
    case (ReorgRange rng b t)
    have "covers_range (sr_blocks (sc_result input)) (rg_fromBlock rng) (rg_toBlock rng)" "rg_chainId rng = ?c"
      using work ReorgRange
      by (auto simp: assertCurrentWork_def assertSyncBlocksCoverRange_def bindR_Inr_iff guardR_def Let_def split: if_splits)
    moreover have "completeResyncRange rng b t ((sd_indexer db)\<lparr> idb_chain := chain \<rparr>) = Inr (True, sd_indexer db')"
      using completed ReorgRange
      by (cases "completeResyncRange rng b t ((sd_indexer db)\<lparr> idb_chain := chain \<rparr>)")
        (auto simp: completeWork_def liftConflict_def split: if_splits)
    ultimately show ?thesis using ReorgRange by blast
  qed (use completed in \<open>auto simp: completeWork_def bindR_Inr_iff\<close>)
  ultimately show ?thesis by (rule that)
qed

lemma commit_entry:
  assumes "reorg_inv s" and "commitSyncRange port input (committing s scans outbox) = Inr db"
    and "completes_with (ro_batchSize opt) (sc_completion input)" and "1 \<le> ro_batchSize opt"
  shows "entry_ok s (sd_indexer db) c
    (if c = cp_chainId (sr_checkpoint (sc_result input))
     then due (synchronised (sr_blocks (sc_result input)) (sy_removed s c)) else sy_owed s c)"
proof -
  obtain chain where chain: "persistSyncResult port (sc_result input) (idb_chain (sy_db s)) = Inr chain"
    and completed: "sd_indexer db = (sy_db s)\<lparr> idb_chain := chain \<rparr> \<or>
     (\<exists>rng b t. sc_completion input = ReorgRange rng b t
        \<and> covers_range (sr_blocks (sc_result input)) (rg_fromBlock rng) (rg_toBlock rng)
        \<and> rg_chainId rng = cp_chainId (sr_checkpoint (sc_result input))
        \<and> completeResyncRange rng b t ((sy_db s)\<lparr> idb_chain := chain \<rparr>) = Inr (True, sd_indexer db))"
    by (rule commitSyncRange_Inr [OF assms(2)]) (simp add: sd_chain_def)
  note revs = persistSyncResult_revisions [OF chain]
  from completed show ?thesis
  proof (elim disjE exE conjE)
    assume "sd_indexer db = (sy_db s)\<lparr> idb_chain := chain \<rparr>"
    then have "entry_ok s (sd_indexer db) c (sy_owed s c)" using chain_write_entry [OF assms(1) revs] by simp
    then show ?thesis by (rule entry_ok_subset) (simp add: due_synchronised Diff_subset)
  next
    fix rng b t
    assume rng: "sc_completion input = ReorgRange rng b t" "rg_chainId rng = cp_chainId (sr_checkpoint (sc_result input))"
      "completeResyncRange rng b t ((sy_db s)\<lparr> idb_chain := chain \<rparr>) = Inr (True, sd_indexer db)"
      and cover: "covers_range (sr_blocks (sc_result input)) (rg_fromBlock rng) (rg_toBlock rng)"
    have blocks: "hdr_number ` set (sr_blocks (sc_result input)) = {rg_fromBlock rng..rg_toBlock rng}"
      using arg_cong [OF covers_range_numbers [OF cover], of set] by simp
    have "b = ro_batchSize opt" using assms(3) rng(1) by simp
    from completeResyncRange_entry [OF assms(1) rng(3) [unfolded this] refl revs assms(4), of c] rng(2)
    show ?thesis by (simp add: due_synchronised blocks split: if_splits)
  qed
qed

lemma write_db_simps [simp]:
  "sy_db (write_db db s) = db" "sy_seen (write_db db s) = sy_seen s \<union> journal_states db"
  "sy_removed (write_db db s) = sy_removed s"
  by (simp_all add: write_db_def)

lemma mark_simps [simp]:
  "sy_db (mark c f s) = sy_db s" "sy_seen (mark c f s) = sy_seen s"
  "sy_removed (mark c f s) c' = (if c' = c then f (sy_removed s c) else sy_removed s c')"
  by (simp_all add: mark_def)

lemma reorg_step_inv:
  assumes "reorg_step port opt s s'" and "1 \<le> ro_batchSize opt" and "reorg_inv s"
  shows "reorg_inv s'"
  using assms(1)
proof cases
  case (sync input scans outbox db)
  have "entry_ok s (sy_db s') c (sy_owed s' c)" for c
    using commit_entry [OF assms(3) sync(2,3) assms(2), of c] sync(1) by (simp split: if_splits)
  then show ?thesis by (rule entry_ok_write [OF assms(3)]) (simp add: sync(1))
next
  case (others chain cs fs)
  then have "db_revisions chain = db_revisions (idb_chain (sy_db s))" by simp
  with others(1) chain_write_entry [OF assms(3)] show ?thesis by (intro entry_ok_write [OF assms(3)]) simp_all
next
  case (rearm check b chain)
  with chain_write_entry [OF assms(3) retainCheck_revisions] show ?thesis
    by (intro entry_ok_write [OF assms(3)]) simp_all
next
  case (check check answer recoveryId now later again db)
  with finishCheck_entry [OF assms(3)] show ?thesis by (intro entry_ok_write [OF assms(3)]) simp_all
next
  case (refresh expected cp recoveryId now db)
  with refreshCheckpoint_entry [OF assms(3)] show ?thesis by (intro entry_ok_write [OF assms(3)]) simp_all
next
  case (resume expected found prepared observedHead now later message)
  have "entry_ok s (sy_db s') c (sy_owed s' c)" for c
    using resume_entry [OF assms(3) resume(2) assms(2), of port found prepared observedHead now later message c]
      resume(1) by (simp split: if_splits)
  then show ?thesis by (rule entry_ok_write [OF assms(3)]) (simp add: resume(1))
next
  case (range_deferred rng t err)
  with updateRetry_entry [OF assms(3)] show ?thesis
    by (intro entry_ok_write [OF assms(3)]) (simp_all add: deferResync_def)
qed

lemma initial_reorg_inv: "initial_system s \<Longrightarrow> reorg_inv s"
  by (simp add: initial_system_def reorg_inv_def getRecovery_def journal_ok_def due_def)

lemma reachable_reorg_inv:
  assumes "(reorg_step port opt)\<^sup>*\<^sup>* s s'" and "initial_system s" and "1 \<le> ro_batchSize opt"
  shows "reorg_inv s'"
  using assms by (induction rule: rtranclp_induct) (auto intro: initial_reorg_inv reorg_step_inv)

end
