(* ===== verification/Reorg_Results.thy ===== *)
theory Reorg_Results
  imports Reorg_System
begin

text \<open>
  What the recovery guarantees: no removed block up to the observed head is forgotten, a committed rollback leaves only
  canonical headers in its window, work based on the orphaned history is rejected from then on, and the
  ranges of a resynchronisation add up to the whole window.
\<close>

section \<open>No owed block is forgotten\<close>

text \<open>
  C5. The journal accounts for the blocks that rollbacks removed up to the head they observed.
  A committed rollback removes every block from its first one on, with the head it observed; a
  removed block stays so until a committed range result contains it.  Whatever the
  processes do and in whatever order their transactions commit, every removed block that is not above
  the head observed by the latest rollback that removed it is covered: the journal has an entry as long as
  there is one, and the range that the entry still has to synchronise, or resumes from after an
  interruption, contains them all.  Blocks above the observed head are not carried by the journal, as
  documented: the synchronisation of new heads acquires them.
\<close>

theorem journal_accounts_for_owed_blocks:
  assumes "(reorg_step port opt)\<^sup>*\<^sup>* s s'" and "initial_system s" and "valid_options opt"
  shows "case getRecovery (sy_db s') c of
      Inl e \<Rightarrow> False
    | Inr None \<Rightarrow> \<forall>x h. sy_removed s' c x = Some h \<longrightarrow> h < x
    | Inr (Some (AwaitingAncestor a)) \<Rightarrow>
        \<forall>x h. sy_removed s' c x = Some h \<and> x \<le> h \<longrightarrow> (\<exists>f. aw_resumeFrom a = Some f \<and> f \<le> x)
    | Inr (Some (Resync r)) \<Rightarrow>
        rs_fromBlock r \<le> rs_toBlock r \<and> rs_toBlock r \<le> rs_targetBlock r
        \<and> (\<forall>x h. sy_removed s' c x = Some h \<and> x \<le> h \<longrightarrow> rs_fromBlock r \<le> x \<and> x \<le> rs_targetBlock r)"
proof -
  have "1 \<le> ro_batchSize opt" using assms(3) by (simp add: valid_options_def)
  from reachable_reorg_inv [OF assms(1,2) this] obtain current where
    "getRecovery (sy_db s') c = Inr current" "journal_ok s' c current" by (auto simp: reorg_inv_def)
  then show ?thesis by (cases current rule: option.exhaust) (fastforce simp: journal_ok_def due_def split: ReorgRecoveryState.splits)+
qed

section \<open>A rollback leaves canonical headers\<close>

lemma insertBlock_hash:
  "map_option br_hash (map_of (insertBlock c b p rows) k) =
     (if k = (c, hdr_number b) then Some (hdr_hash b) else map_option br_hash (map_of rows k))"
  by (simp add: insertBlock_def Let_def update_conv' split: option.splits)

lemma map_of_deleteBlocks:
  "map_of (deleteBlocksFromBlock c f rows) (c', n) = (if c' = c \<and> f \<le> n then None else map_of rows (c', n))"
  by (induction rows) (auto simp: deleteBlocksFromBlock_def)

lemma rollback_hashes:
  assumes "rollbackFromBlock port plan snapshot db = Inr db'" and "c = cp_chainId (pl_checkpoint plan)"
  shows "getBlockHash db' c' n =
    (if c' \<noteq> c \<or> n < pl_fromBlock plan - 1 then getBlockHash db c' n
     else if n = pl_fromBlock plan - 1 then Some (sb_blockHash (sn_block snapshot)) else None)"
proof -
  from assms(1) obtain db1 where db1: "db' = advanceChainSyncRevision (cp_chainId (pl_checkpoint plan)) db1"
    "sb_blockNumber (sn_block snapshot) = pl_fromBlock plan - 1"
    "db_blocks db1 = insertBlock (cp_chainId (pl_checkpoint plan)) (fork_header (sn_block snapshot)) False
       (deleteBlocksFromBlock (cp_chainId (pl_checkpoint plan)) (pl_fromBlock plan) (db_blocks db))"
    by (rule rollbackFromBlock_Inr)
  have "db_blocks db' = db_blocks db1" by (simp add: db1(1) advanceChainSyncRevision_def)
  then show ?thesis
    using db1(2,3) assms(2) by (auto simp: getBlockHash_def insertBlock_hash map_of_deleteBlocks fork_header_def)
qed

lemma rollback_coverage:
  assumes "rollbackFromBlock port plan snapshot db = Inr db'"
  shows "(c, i, n) \<in> set (db_coverage db') \<longleftrightarrow>
    (c, i, n) \<in> set (db_coverage db) \<and> \<not> (c = cp_chainId (pl_checkpoint plan) \<and> pl_fromBlock plan \<le> n)"
proof -
  from assms obtain db1 where db1: "db' = advanceChainSyncRevision (cp_chainId (pl_checkpoint plan)) db1"
    "db_coverage db1 = deleteCollectionSyncBlocksFromBlock (cp_chainId (pl_checkpoint plan))
       (pl_fromBlock plan) (db_coverage db)"
    by (rule rollbackFromBlock_Inr)
  then show ?thesis by (auto simp: advanceChainSyncRevision_def deleteCollectionSyncBlocksFromBlock_def)
qed

lemma selectReorgHeaders_stored:
  assumes "getBlockHash db c n = Some h" and "f \<le> n" "n \<le> t"
  shows "\<exists>s \<in> set (selectReorgHeaders db c f t). hdr_number s = n \<and> hdr_hash s = h"
proof -
  from assms(1) obtain row where "map_of (db_blocks db) (c, n) = Some row" "br_hash row = h"
    by (auto simp: getBlockHash_def)
  then have "((c, n), row) \<in> set (db_blocks db)" by (simp add: map_of_SomeD)
  with assms(2,3) have "header_of n row \<in> set (selectReorgHeaders db c f t)"
    by (force simp: selectReorgHeaders_def)
  then show ?thesis using \<open>br_hash row = h\<close> by (intro bexI [of _ "header_of n row"]) (simp_all add: header_of_def)
qed

lemma assertReorgHistoryUnchanged_iff:
  "assertReorgHistoryUnchanged db history = Inr u \<longleftrightarrow>
     revision_of db (cp_chainId (hist_checkpoint history)) = cp_revision (hist_checkpoint history) \<and>
     selectReorgHeaders db (cp_chainId (hist_checkpoint history)) (hist_fromBlock history) (hist_toBlock history)
       = hist_headers history"
  by (auto simp: assertReorgHistoryUnchanged_def bindR_Inr_iff assertChainSyncCheckpoint_iff captureReorgHistory_def)

lemma commit_Inr:
  assumes "commitRollbackAndResync port a p plan snapshot upcoming db = Inr db'"
  shows "plan_matches a p plan snapshot"
    and "assertReorgHistoryUnchanged (idb_chain db) (prf_history p) = Inr ()"
    and "rollbackFromBlock port plan snapshot (idb_chain db) = Inr (idb_chain db')"
  using assms by (auto simp: commitRollbackAndResync_def bindR_Inr_iff Let_def split: option.splits)

lemma proven_fork:
  assumes "linked_headers blocks" and "proveReorgAncestor history blocks = Inr (Some p)"
  obtains b where "common_ancestor history blocks b" "hdr_number (prf_fork p) = hdr_number b"
    "hdr_hash (prf_fork p) = hdr_hash b" "prf_history p = history"
    "map hdr_number blocks = [hist_fromBlock history..hist_toBlock history]"
proof -
  have can: "canonicalMap blocks n = Some c \<longleftrightarrow> c \<in> set blocks \<and> hdr_number c = n" for n c
    by (rule linked_distinct_canonicalMap [OF assms(1)])
  from assms(2) obtain d fork where d: "firstDivergence (canonicalMap blocks) (hist_toBlock history) (hist_headers history) = Inr d"
    and fork: "selectFork (canonicalMap blocks) d None (hist_headers history) = Some fork"
    and cov: "covers_range blocks (hist_fromBlock history) (hist_toBlock history)"
    and p: "p = \<lparr> prf_fork = verified_block (cp_chainId (hist_checkpoint history)) fork, prf_history = history \<rparr>"
    by (auto simp: proveReorgAncestor_def bindR_Inr_iff Let_def split: if_splits option.splits)
  from selectFork_greatest [OF _ fork] can
  have "fork \<in> set (hist_headers history)" "fork_candidate (canonicalMap blocks) d fork" by auto
  then have "common_ancestor history blocks fork"
    unfolding common_ancestor_def fork_candidate_def firstDivergence_less_iff [OF d]
      no_contradiction_up_to [OF can] can by blast
  with that p covers_range_numbers [OF cov] show ?thesis by (simp add: verified_block_def)
qed

text \<open>
  C13. When a rollback commits with a fork proven against the canonical window \<open>blocks\<close>, every
  header that is then stored from the window's start on is canonical and not above the fork,
  whatever was written while the proof was being made; no coverage is left above the fork; the blocks
  below the window and those of other chains are untouched; and the chain's revision is one higher.
\<close>

theorem committed_rollback_leaves_canonical_headers:
  assumes "linked_headers blocks" and "proveReorgAncestor history blocks = Inr (Some p)"
    and "commitRollbackAndResync port a p plan snapshot upcoming db = Inr db'"
  shows "(\<forall>n h. getBlockHash (idb_chain db') (rb_chainId a) n = Some h \<and> hist_fromBlock history \<le> n \<longrightarrow>
            n \<le> hdr_number (prf_fork p) \<and> (\<exists>b \<in> set blocks. hdr_number b = n \<and> hdr_hash b = h))
    \<and> (\<forall>i n. (rb_chainId a, i, n) \<in> set (db_coverage (idb_chain db')) \<longrightarrow> n \<le> hdr_number (prf_fork p))
    \<and> (\<forall>c n. c \<noteq> rb_chainId a \<or> n < hist_fromBlock history \<longrightarrow>
            getBlockHash (idb_chain db') c n = getBlockHash (idb_chain db) c n)
    \<and> revision_of (idb_chain db') (rb_chainId a) = revision_of (idb_chain db) (rb_chainId a) + 1"
proof -
  let ?c = "rb_chainId a"
  note commit = commit_Inr [OF assms(3)]
  obtain b where b: "common_ancestor history blocks b" "hdr_number (prf_fork p) = hdr_number b"
    "hdr_hash (prf_fork p) = hdr_hash b" "prf_history p = history"
    "map hdr_number blocks = [hist_fromBlock history..hist_toBlock history]"
    using proven_fork [OF assms(1,2)] by metis
  from commit(1) b have m: "cp_chainId (pl_checkpoint plan) = ?c" "cp_chainId (hist_checkpoint history) = ?c"
    "hist_fromBlock history \<le> hdr_number b" "pl_fromBlock plan = hdr_number b + 1"
    "sb_blockHash (sn_block snapshot) = hdr_hash b" "hdr_number b < hist_toBlock history"
    by (auto simp: plan_matches_def)
  from commit(2) b(4) m(2) have same: "selectReorgHeaders (idb_chain db) ?c (hist_fromBlock history) (hist_toBlock history)
      = hist_headers history" by (simp add: assertReorgHistoryUnchanged_iff)
  note hashes = rollback_hashes [OF commit(3) m(1) [symmetric]]
  have fst: "n \<le> hdr_number b \<and> (\<exists>b \<in> set blocks. hdr_number b = n \<and> hdr_hash b = h)"
    if stored: "getBlockHash (idb_chain db') ?c n = Some h" "hist_fromBlock history \<le> n" for n h
  proof (cases "n < hdr_number b")
    case False
    with stored hashes [of ?c n] m(4,5) have "n = hdr_number b" "h = hdr_hash b" by (auto split: if_splits)
    with b(1) show ?thesis by (auto simp: common_ancestor_def)
  next
    case True
    with stored hashes [of ?c n] m(4) have "getBlockHash (idb_chain db) ?c n = Some h" by simp
    from selectReorgHeaders_stored [OF this stored(2), of "hist_toBlock history"] True m(6) same
    obtain s where s: "s \<in> set (hist_headers history)" "hdr_number s = n" "hdr_hash s = h" by auto
    have "n \<in> set (map hdr_number blocks)" unfolding b(5) using stored(2) True m(6) by simp
    then obtain c where "c \<in> set blocks" "hdr_number c = n" by auto
    with b(1) s True show ?thesis by (auto simp: common_ancestor_def)
  qed
  show ?thesis
    using fst hashes m rollback_coverage [OF commit(3)] rollback_revision(2) [OF commit(3)] b(2)
    by auto
qed


section \<open>Outdated work is rejected\<close>

lemma retainMismatch_revisions:
  assumes "retainMismatch m db = Inr (r, db')"
  shows "db_revisions (idb_chain db') = db_revisions (idb_chain db)"
  using assms
  by (auto simp: retainMismatch_def bindR_Inr_iff Let_def split: prod.splits if_splits
      dest: completeCheck_revisions)

lemma finishCheck_revisions:
  assumes "finishCheck opt check answer recoveryId now later db = Inr (again, db')"
  shows "db_revisions (idb_chain db') = db_revisions (idb_chain db)"
  using assms
proof (cases rule: finishCheck_Inr)
  case failed
  then show ?thesis by (auto simp: handleCheckFailure_def bindR_Inr_iff deferCheck_revisions split: if_splits)
qed (auto simp: retainMismatch_revisions completeCheck_revisions)

lemma finishResume_revision:
  "revision_of (idb_chain db) c \<le> revision_of (idb_chain (finishResume port opt a found prepared head now later message db)) c"
proof -
  have "revision_of (idb_chain db) c \<le> revision_of (idb_chain db') c"
    if "attemptResume port opt a p prepared head now db = Inr db'" for p db'
  proof -
    from that obtain plan snapshot upcoming where "commitRollbackAndResync port a p plan snapshot upcoming db = Inr db'"
      by (auto simp: attemptResume_def bindR_Inr_iff split: prod.splits)
    from rollback_revision(2) [OF commit_Inr(3) [OF this], of c] show ?thesis by simp
  qed
  then show ?thesis by (auto simp: finishResume_def deferProof_def split: sum.splits option.splits)
qed

lemma reorg_step_revision:
  assumes "reorg_step port opt s s'"
  shows "revision_of (idb_chain (sy_db s)) c \<le> revision_of (idb_chain (sy_db s')) c"
  using assms
proof cases
  case (sync input scans outbox db)
  obtain chain where chain: "persistSyncResult port (sc_result input) (idb_chain (sy_db s)) = Inr chain"
    and "idb_chain (sd_indexer db) = chain"
  proof (rule commitSyncRange_Inr [OF sync(2)], goal_cases)
    case (1 chain)
    then have "idb_chain (sd_indexer db) = chain"
      by (elim disjE exE conjE completeResyncRange_Inr) (simp_all split: option.splits)
    with 1 that show ?case by (simp add: sd_chain_def)
  qed
  with sync(1) show ?thesis using revision_cong [OF persistSyncResult_revisions [OF chain], of c] by simp
next
  case (others chain cs fs)
  then show ?thesis by (simp add: captureChainSyncCheckpoint_def)
next
  case (rearm check b chain)
  then show ?thesis using revision_cong [OF retainCheck_revisions [OF rearm(2)], of c] by (simp add: write_db_def)
next
  case (check check answer recoveryId now later again db)
  then show ?thesis using revision_cong [OF finishCheck_revisions [OF check(2)], of c] by (simp add: write_db_def)
next
  case (refresh expected cp recoveryId now db)
  then show ?thesis by (auto simp: write_db_def refreshCheckpoint_def bindR_Inr_iff)
next
  case (resume expected found prepared observedHead now later message)
  then show ?thesis using finishResume_revision [of "sy_db s" c] by simp
next
  case (range_deferred rng t err)
  then show ?thesis by (simp add: write_db_def deferResync_def)
qed

lemma reorg_steps_revision:
  "(reorg_step port opt)\<^sup>*\<^sup>* s s' \<Longrightarrow> revision_of (idb_chain (sy_db s)) c \<le> revision_of (idb_chain (sy_db s')) c"
  by (induction rule: rtranclp_induct) (auto dest: reorg_step_revision intro: order_trans)

text \<open>
  C28. A rollback fences everything that was captured before it: once a recovery's rollback has
  committed, no sync result, verified block, mismatch or rollback plan whose checkpoint is from before
  can be written any more, now or after any further steps of any process.
\<close>

theorem work_from_before_a_rollback_is_rejected:
  assumes "commitRollbackAndResync port a p plan snapshot upcoming db = Inr (sy_db s)"
    and "(reorg_step port opt)\<^sup>*\<^sup>* s s'"
    and "cp_chainId cp = rb_chainId a" and "cp_revision cp \<le> revision_of (idb_chain db) (rb_chainId a)"
  shows "(\<forall>result chain. sr_checkpoint result = cp \<longrightarrow>
            persistSyncResult port result (idb_chain (sy_db s')) \<noteq> Inr chain)
    \<and> (\<forall>check r. ck_checkpoint check = cp \<longrightarrow> completeCheck check (idb_chain (sy_db s')) \<noteq> Inr r)
    \<and> (\<forall>m r. mm_checkpoint m = cp \<longrightarrow> retainMismatch m (sy_db s') \<noteq> Inr r)
    \<and> (\<forall>plan' snapshot' chain. pl_checkpoint plan' = cp \<longrightarrow>
            rollbackFromBlock port plan' snapshot' (idb_chain (sy_db s')) \<noteq> Inr chain)"
proof -
  note commit = commit_Inr [OF assms(1)]
  have "cp_chainId (pl_checkpoint plan) = rb_chainId a" using commit(1) by (simp add: plan_matches_def)
  with rollback_revision(2) [OF commit(3), of "rb_chainId a"]
  have "revision_of (idb_chain (sy_db s)) (rb_chainId a) = revision_of (idb_chain db) (rb_chainId a) + 1" by simp
  with reorg_steps_revision [OF assms(2), of "rb_chainId a"] assms(3,4)
  have stale: "revision_of (idb_chain (sy_db s')) (cp_chainId cp) \<noteq> cp_revision cp" by simp
  then have no: "assertChainSyncCheckpoint (idb_chain (sy_db s')) cp \<noteq> Inr u" for u
    by (simp add: assertChainSyncCheckpoint_iff)
  show ?thesis
  proof (intro conjI allI impI notI)
    fix result chain
    assume "sr_checkpoint result = cp" "persistSyncResult port result (idb_chain (sy_db s')) = Inr chain"
    with no show False by (auto elim: persistSyncResult_Inr)
  next
    fix check r assume "ck_checkpoint check = cp" "completeCheck check (idb_chain (sy_db s')) = Inr r"
    with no show False by (auto simp: completeCheck_def assertCheck_def bindR_Inr_iff)
  next
    fix m r assume "mm_checkpoint m = cp" "retainMismatch m (sy_db s') = Inr r"
    with stale show False by (auto simp: retainMismatch_def assertRevision_def bindR_Inr_iff Let_def)
  next
    fix plan' snapshot' chain
    assume "pl_checkpoint plan' = cp" "rollbackFromBlock port plan' snapshot' (idb_chain (sy_db s')) = Inr chain"
    with no show False by (auto elim: rollbackFromBlock_Inr)
  qed
qed


section \<open>The ranges of a resynchronisation\<close>

text \<open>The ranges that the journal hands out, one after the other, from the state \<open>r\<close> on.\<close>

function resync_ranges :: "int \<Rightarrow> ReorgResync \<Rightarrow> (int \<times> int) list" where
  "resync_ranges batchSize r =
     (rs_fromBlock r, rs_toBlock r) #
       (if batchSize < 1 then []
        else case advanceReorgResync r batchSize 0 of None \<Rightarrow> [] | Some n \<Rightarrow> resync_ranges batchSize n)"
  by auto
termination
  by (relation "measure (\<lambda>(b, r). nat (rs_targetBlock r - rs_toBlock r))")
    (auto simp: advanceReorgResync_def Let_def split: if_splits)

declare resync_ranges.simps [simp del]

text \<open>The sync runtime completes the ranges in this order, reading the clock anew each time.\<close>

definition range_of :: "ReorgResync \<Rightarrow> int \<times> int \<Rightarrow> ReorgResyncRange" where
  "range_of r = (\<lambda>(f, t). \<lparr> rg_recoveryId = rb_recoveryId r, rg_revision = rb_revision r,
                            rg_chainId = rb_chainId r, rg_fromBlock = f, rg_toBlock = t \<rparr>)"

fun complete_ranges ::
  "(nat \<Rightarrow> int) \<Rightarrow> int \<Rightarrow> ReorgResyncRange list \<Rightarrow> 'f IndexerDb \<Rightarrow> (sync_error + 'f IndexerDb) option"
where
  "complete_ranges clock batchSize [] db = Some (Inr db)"
| "complete_ranges clock batchSize (rng # rest) db =
     (case completeResyncRange rng batchSize (clock (length rest)) db of
        Inl e \<Rightarrow> Some (Inl e)
      | Inr (False, _) \<Rightarrow> None
      | Inr (True, db') \<Rightarrow> complete_ranges clock batchSize rest db')"

lemma advance_retry:
  "advanceReorgResync (r\<lparr> rb_retryAt := t0 \<rparr>) b t = map_option (rb_retryAt_update (\<lambda>_. t)) (advanceReorgResync r b 0)"
  by (simp add: advanceReorgResync_def Let_def)

lemma resync_ranges_partition:
  assumes "1 \<le> b" and "range_ok (Resync r)" and "rs_toBlock r = min (rs_targetBlock r) (rs_fromBlock r + b - 1)"
  shows "concat (map (\<lambda>(f, t). [f..t]) (resync_ranges b r)) = [rs_fromBlock r..rs_targetBlock r] \<and>
    (\<forall>(f, t) \<in> set (resync_ranges b r). f \<le> t \<and> t - f < b) \<and>
    int (length (resync_ranges b r)) = (rs_targetBlock r - rs_fromBlock r) div b + 1"
  using assms
proof (induction b r rule: resync_ranges.induct)
  case (1 b r)
  show ?case
  proof (cases "advanceReorgResync r b 0")
    case None
    with "1.prems" have to: "rs_toBlock r = rs_targetBlock r" "rs_targetBlock r - rs_fromBlock r < b"
      by (auto simp: advanceReorgResync_def Let_def split: if_splits)
    with None "1.prems" show ?thesis by (simp add: resync_ranges.simps [of b r])
  next
    case (Some n)
    with "1.prems" have n: "rs_fromBlock n = rs_toBlock r + 1" "rs_targetBlock n = rs_targetBlock r"
      "rs_toBlock n = min (rs_targetBlock n) (rs_fromBlock n + b - 1)" "range_ok (Resync n)"
      "rs_toBlock r = rs_fromBlock r + b - 1" "rs_toBlock r < rs_targetBlock r"
      by (auto simp: advanceReorgResync_def Let_def split: if_splits)
    have "\<not> b < 1" using "1.prems"(1) by simp
    note IH = "1.IH" [OF this Some "1.prems"(1) n(4,3)]
    have "[rs_fromBlock r..rs_toBlock r] @ [rs_toBlock r + 1..rs_targetBlock r] = [rs_fromBlock r..rs_targetBlock r]"
      using upto_split1 [of "rs_fromBlock r" "rs_toBlock r + 1" "rs_targetBlock r"] n(6) "1.prems"(2) by simp
    moreover have "(rs_targetBlock r - rs_fromBlock r) div b = (rs_targetBlock r - rs_fromBlock n) div b + 1"
    proof -
      have "rs_targetBlock r - rs_fromBlock r = (rs_targetBlock r - rs_fromBlock n) + 1 * b"
        using n(1,5) by simp
      then show ?thesis using "1.prems"(1) by (simp only: div_mult_self1 [of b])
    qed
    ultimately show ?thesis
      using IH Some \<open>\<not> b < 1\<close> "1.prems" n by (simp add: resync_ranges.simps [of b r])
  qed
qed

lemma complete_current_range:
  assumes "getRecovery db (rb_chainId r) = Inr (Some (Resync r))"
    and "revision_of (idb_chain db) (rb_chainId r) = rb_revision r"
  shows "completeResyncRange (range_of r (rs_fromBlock r, rs_toBlock r)) b t db =
    Inr (True, case advanceReorgResync r b t of None \<Rightarrow> removeRecovery (rb_chainId r) db
               | Some n \<Rightarrow> saveRecovery (Resync n) db)"
  using assms by (simp add: completeResyncRange_def range_of_def assertRevision_def)

lemma complete_ranges_Inr:
  assumes "1 \<le> b" and "getRecovery db (rb_chainId r) = Inr (Some (Resync (r\<lparr> rb_retryAt := t0 \<rparr>)))"
    and "revision_of (idb_chain db) (rb_chainId r) = rb_revision r"
  shows "\<exists>db'. complete_ranges clock b (map (range_of r) (resync_ranges b r)) db = Some (Inr db') \<and>
    getRecovery db' (rb_chainId r) = Inr None"
  using assms
proof (induction b r arbitrary: db t0 rule: resync_ranges.induct)
  case (1 b r)
  let ?rest = "case advanceReorgResync r b 0 of None \<Rightarrow> [] | Some n \<Rightarrow> resync_ranges b n"
  have ranges: "resync_ranges b r = (rs_fromBlock r, rs_toBlock r) # ?rest"
    using "1.prems"(1) by (subst resync_ranges.simps) simp
  let ?t = "clock (length ?rest)"
  have range_of: "range_of (r\<lparr> rb_retryAt := t0 \<rparr>) = range_of r" by (simp add: range_of_def)
  have step: "completeResyncRange (range_of r (rs_fromBlock r, rs_toBlock r)) b ?t db =
    Inr (True, case advanceReorgResync (r\<lparr> rb_retryAt := t0 \<rparr>) b ?t of None \<Rightarrow> removeRecovery (rb_chainId r) db
               | Some n \<Rightarrow> saveRecovery (Resync n) db)"
    using complete_current_range [of db "r\<lparr> rb_retryAt := t0 \<rparr>" b ?t] "1.prems"(2,3)
    by (simp add: range_of cong: option.case_cong)
  show ?case
  proof (cases "advanceReorgResync r b 0")
    case None
    with step show ?thesis by (simp add: ranges getRecovery_remove advance_retry)
  next
    case (Some n)
    have fields: "rb_chainId n = rb_chainId r" "rb_recoveryId n = rb_recoveryId r" "rb_revision n = rb_revision r"
      using Some by (auto simp: advanceReorgResync_def Let_def split: if_splits)
    then have same: "range_of n = range_of r" by (simp add: range_of_def)
    let ?db = "saveRecovery (Resync (n\<lparr> rb_retryAt := ?t \<rparr>)) db"
    have "\<not> b < 1" using "1.prems"(1) by simp
    from "1.IH" [OF this Some "1.prems"(1), of ?db ?t] "1.prems"(3) fields
    obtain db' where "complete_ranges clock b (map (range_of n) (resync_ranges b n)) ?db = Some (Inr db')"
      "getRecovery db' (rb_chainId r) = Inr None" by (auto simp: getRecovery_save)
    then show ?thesis using Some step by (simp add: ranges advance_retry same)
  qed
qed

text \<open>
  C29. A resynchronisation that is not interrupted finishes.  After a rollback has committed, the ranges
  that the journal hands out partition the blocks from the entry's first one, which is not above the first one
  rolled back, up to the observed head, in order, in batches of at most the configured size, as few as possible;
  completing them in this order succeeds each time and the last completion removes the journal entry.
\<close>

theorem resync_covers_its_window_and_ends:
  assumes "valid_options opt"
    and "beginReorgResync a (pl_fromBlock plan) head (ro_batchSize opt) now = Inr (Some r)"
    and "commitRollbackAndResync port a p plan snapshot (Some r) db = Inr db'"
  shows "concat (map (\<lambda>(f, t). [f..t]) (resync_ranges (ro_batchSize opt) r)) = [rs_fromBlock r..head]
    \<and> rs_fromBlock r \<le> pl_fromBlock plan
    \<and> (\<forall>(f, t) \<in> set (resync_ranges (ro_batchSize opt) r). f \<le> t \<and> t - f < ro_batchSize opt)
    \<and> int (length (resync_ranges (ro_batchSize opt) r)) = (head - rs_fromBlock r) div ro_batchSize opt + 1
    \<and> (\<exists>db''. complete_ranges clock (ro_batchSize opt)
               (map (range_of r) (resync_ranges (ro_batchSize opt) r)) db' = Some (Inr db'')
             \<and> getRecovery db'' (rb_chainId a) = Inr None)"
proof -
  have b: "1 \<le> ro_batchSize opt" using assms(1) by (simp add: valid_options_def)
  note r = beginReorgResync_Some [OF assms(2) b]
  have first: "rs_toBlock r = min (rs_targetBlock r) (rs_fromBlock r + ro_batchSize opt - 1)"
    using assms(2) by (auto simp: beginReorgResync_def Let_def split: if_splits)
  note commit = commit_Inr [OF assms(3)]
  from commit(1) have plan: "cp_chainId (pl_checkpoint plan) = rb_chainId a" "cp_revision (pl_checkpoint plan) = rb_revision a"
    by (simp_all add: plan_matches_def)
  have "getRecovery db' (rb_chainId r) = Inr (Some (Resync (r\<lparr> rb_retryAt := rb_retryAt r \<rparr>)))"
    using assms(3) by (auto simp: commitRollbackAndResync_def bindR_Inr_iff Let_def getRecovery_save)
  moreover have "revision_of (idb_chain db') (rb_chainId r) = rb_revision r"
    using rollback_revision [OF commit(3)] plan r(1,4) by simp
  ultimately show ?thesis
    using complete_ranges_Inr [OF b, of db' r "rb_retryAt r" clock] resync_ranges_partition [OF b r(5) first] r(1,6,7)
    by simp
qed

end
