(* ===== verification/Reorg_Samples.thy ===== *)
theory Reorg_Samples
  imports Reorg_Results
begin

text \<open>
  A concrete recovery: blocks 4 and 6 of a stored window are orphaned, the check of block 6 finds the
  mismatch, the fork is proven at block 3 and the rollback commits with head 10.
\<close>

definition sample_port :: "(unit, unit) FactsPort" where
  "sample_port = \<lparr> fp_tokens = (\<lambda>_ _ _ _. []), fp_persist = (\<lambda>_ _ _ _ _ f. Inr f), fp_rollback = (\<lambda>_ _ _ _ f. Inr f) \<rparr>"

definition sample_options :: ReorgRecoveryOptions where
  "sample_options = \<lparr> ro_chainId = 1, ro_reorgDepth = 3, ro_batchSize = 4, ro_retryDelayMs = 1000 \<rparr>"

definition sample_row :: "SyncBlockHeader \<Rightarrow> bool \<Rightarrow> (int \<times> int) \<times> BlockRow" where
  "sample_row b pending =
     ((1, hdr_number b), \<lparr> br_hash = hdr_hash b, br_parentHash = hdr_parentHash b, br_timestamp = hdr_timestamp b,
                            br_pending = pending, br_retryAt = 0 \<rparr>)"

definition sample_tables :: "bool \<Rightarrow> unit ChainDb" where
  "sample_tables pending =
     \<lparr> db_blocks = [sample_row (sample_block False False 3) False, sample_row (sample_block True False 4) False,
                    sample_row (sample_block False False 5) False, sample_row (sample_block True False 6) pending],
       db_coverage = [(1, 7, 3), (1, 7, 4), (2, 7, 4)], db_revisions = [], db_collections = [], db_facts = () \<rparr>"

definition sample_check :: PendingCanonicalCheck where
  "sample_check = \<lparr> ck_chainId = 1, ck_blockNumber = 6, ck_blockHash = sample_hash True 6,
                    ck_checkpoint = \<lparr> cp_chainId = 1, cp_revision = 0 \<rparr> \<rparr>"

definition sample_awaiting :: AwaitingReorgAncestor where
  "sample_awaiting =
     \<lparr> rb_chainId = 1, rb_recoveryId = ''a'', rb_revision = 0, rb_version = 0, rb_checkedBlock = 6,
       rb_storedHash = sample_hash True 6, rb_observedHash = sample_hash False 6, rb_retryAt = 100,
       aw_resumeFrom = None \<rparr>"

definition sample_resync :: ReorgResync where
  "sample_resync =
     \<lparr> rb_chainId = 1, rb_recoveryId = ''a'', rb_revision = 1, rb_version = 1, rb_checkedBlock = 6,
       rb_storedHash = sample_hash True 6, rb_observedHash = sample_hash False 6, rb_retryAt = 200,
       rs_fromBlock = 4, rs_toBlock = 7, rs_targetBlock = 10 \<rparr>"

definition sample_empty :: "unit IndexerDb" where
  "sample_empty = \<lparr> idb_chain = sample_tables True, idb_recoveries = [] \<rparr>"

definition sample_found :: "unit IndexerDb" where
  "sample_found =
     \<lparr> idb_chain = sample_tables False, idb_recoveries = [(1, row_of_state (AwaitingAncestor sample_awaiting))] \<rparr>"

definition sample_rolled_back :: "unit IndexerDb" where
  "sample_rolled_back =
     \<lparr> idb_chain = (sample_tables False)\<lparr> db_blocks := [sample_row (sample_block False False 3) False],
                     db_coverage := [(1, 7, 3), (2, 7, 4)], db_revisions := [(1, 1)] \<rparr>,
       idb_recoveries = [(1, row_of_state (Resync sample_resync))] \<rparr>"

definition sample_proof :: ReorgAncestorProof where
  "sample_proof = \<lparr> prf_fork = verified_block 1 (sample_block False False 3), prf_history = sample_history \<rparr>"

definition sample_plan :: ReorgRollbackPlan where
  "sample_plan = \<lparr> pl_checkpoint = \<lparr> cp_chainId = 1, cp_revision = 0 \<rparr>, pl_fromBlock = 4, pl_tokens = [] \<rparr>"

definition sample_snapshot :: Erc721RollbackSnapshot where
  "sample_snapshot =
     \<lparr> sn_block = \<lparr> sb_blockNumber = 3, sb_blockHash = sample_hash False 3, sb_parentHash = sample_hash False 2,
                    sb_blockTimestamp = 3 \<rparr>, sn_owners = [] \<rparr>"

definition sample_late_result :: "unit SyncRangeResult" where
  "sample_late_result =
     \<lparr> sr_checkpoint = \<lparr> cp_chainId = 1, cp_revision = 0 \<rparr>,
       sr_canonicalCheck = \<lparr> pol_observedHeadBlock = 10, pol_reorgDepth = 3 \<rparr>,
       sr_blocks = [sample_block False False 8], sr_data = \<lparr> oc_groups = [], oc_content = () \<rparr>, sr_collections = [] \<rparr>"

lemma sample_check_found:
  "finishCheck sample_options sample_check (Inr (sample_block False False 6)) ''a'' 100 100 sample_empty
     = Inr (True, sample_found)"
  by code_simp

lemma sample_commit:
  "commitRollbackAndResync sample_port sample_awaiting sample_proof sample_plan sample_snapshot
     (Some sample_resync) sample_found = Inr sample_rolled_back"
  by code_simp

lemma sample_begin: "beginReorgResync sample_awaiting 4 10 4 200 = Inr (Some sample_resync)"
  by code_simp


lemma sample_attempt:
  "attemptResume sample_port sample_options sample_awaiting sample_proof (Inr (sample_plan, sample_snapshot))
     (Inr 10) 200 sample_found = Inr sample_rolled_back"
  by code_simp

definition sample_start :: "unit ReorgSystem" where
  "sample_start = \<lparr> sy_db = sample_empty, sy_seen = {}, sy_removed = (\<lambda>_. Map.empty) \<rparr>"

definition sample_end :: "unit ReorgSystem" where
  "sample_end = mark 1 (\<lambda>removed x. if 4 \<le> x then Some 10 else removed x)
     (write_db sample_rolled_back (write_db sample_found sample_start))"

lemma sample_found_state: "getRecovery sample_found 1 = Inr (Some (AwaitingAncestor sample_awaiting))"
  by code_simp

lemma sample_run: "(reorg_step sample_port sample_options)\<^sup>*\<^sup>* sample_start sample_end"
proof -
  have "reorg_step sample_port sample_options sample_start (write_db sample_found sample_start)"
    using sample_check_found by (intro check) (simp_all add: sample_start_def fresh_id_def)
  moreover have db: "sy_db (write_db sample_found sample_start) = sample_found" by (simp add: write_db_def)
  have finished: "finishResume sample_port sample_options sample_awaiting (Inr (Some sample_proof))
      (Inr (sample_plan, sample_snapshot)) (Inr 10) 200 200 [] (sy_db (write_db sample_found sample_start))
      = sample_rolled_back"
    by (simp add: finishResume_def sample_attempt db)
  have removes: "resume_removes sample_port sample_options sample_awaiting (Inr (Some sample_proof))
      (Inr (sample_plan, sample_snapshot)) (Inr 10) 200 (sy_db (write_db sample_found sample_start))
      = (\<lambda>removed x. if 4 \<le> x then Some 10 else removed x)" "rb_chainId sample_awaiting = 1"
    by (simp_all add: fun_eq_iff resume_removes_def sample_attempt db) (simp_all add: sample_plan_def sample_awaiting_def)
  have "AwaitingAncestor sample_awaiting \<in> sy_seen (write_db sample_found sample_start)"
    using sample_found_state by (auto simp: write_db_def journal_states_def)
  then have "reorg_step sample_port sample_options (write_db sample_found sample_start) sample_end"
    using resume [of sample_awaiting "write_db sample_found sample_start" sample_port sample_options
        "Inr (Some sample_proof)" "Inr (sample_plan, sample_snapshot)" "Inr 10" 200 200 "[]"]
      finished removes
    by (simp add: sample_end_def)
  ultimately show ?thesis by (meson converse_rtranclp_into_rtranclp rtranclp.rtrancl_refl)
qed

lemma sample_options_valid: "valid_options sample_options"
  by code_simp

lemma sample_end_state: "getRecovery (sy_db sample_end) 1 = Inr (Some (Resync sample_resync))"
proof -
  have "getRecovery sample_rolled_back 1 = Inr (Some (Resync sample_resync))" by code_simp
  then show ?thesis by (simp add: sample_end_def mark_def write_db_def)
qed

text \<open>The sync runtime then commits the first range of the resynchronisation, blocks 4 to 7.\<close>

definition sample_range_commit :: "unit SyncRangeCommit" where
  "sample_range_commit =
     \<lparr> sc_result = sample_late_result\<lparr> sr_checkpoint := \<lparr> cp_chainId = 1, cp_revision = 1 \<rparr>,
                                        sr_blocks := map (sample_block False False) [4, 5, 6, 7] \<rparr>,
       sc_followUps = [], sc_completion = ReorgRange (range_of sample_resync (4, 7)) 4 300 \<rparr>"

definition sample_range_db :: "unit IndexerDb" where
  "sample_range_db =
     \<lparr> idb_chain = (idb_chain sample_rolled_back)\<lparr> db_blocks :=
         map (\<lambda>n. sample_row (sample_block False False n) False) [3, 4, 5, 6, 7] \<rparr>,
       idb_recoveries = [(1, row_of_state (Resync (sample_resync\<lparr> rb_version := 2, rb_retryAt := 300,
         rs_fromBlock := 8, rs_toBlock := 10 \<rparr>)))] \<rparr>"

definition sample_synced :: "unit ReorgSystem" where
  "sample_synced = mark 1 (synchronised (map (sample_block False False) [4, 5, 6, 7])) (write_db sample_range_db sample_end)"

lemma sample_range_committed:
  "commitSyncRange sample_port sample_range_commit
     \<lparr> sd_indexer = sample_rolled_back, sd_scans = [], sd_outbox = \<lparr> ob_rows = [], ob_nextId = 1 \<rparr> \<rparr>
   = Inr \<lparr> sd_indexer = sample_range_db, sd_scans = [], sd_outbox = \<lparr> ob_rows = [], ob_nextId = 1 \<rparr> \<rparr>"
  by code_simp

lemma sample_run_synced: "(reorg_step sample_port sample_options)\<^sup>*\<^sup>* sample_start sample_synced"
proof -
  have "sy_db sample_end = sample_rolled_back" by (simp add: sample_end_def)
  then have "reorg_step sample_port sample_options sample_end sample_synced"
    using sync [of sample_port sample_range_commit sample_end "[]" "\<lparr> ob_rows = [], ob_nextId = 1 \<rparr>" _ sample_options]
      sample_range_committed
    by (simp add: sample_synced_def) (simp add: sample_range_commit_def sample_options_def)
  with sample_run show ?thesis by (rule rtranclp.rtrancl_into_rtrancl)
qed

theorem journal_accounts_for_owed_blocks_witness:
  "sy_removed sample_synced 1 7 = None \<and> sy_removed sample_synced 1 8 = Some 10 \<and> sy_removed sample_synced 1 11 = Some 10 \<and>
   (\<exists>r. getRecovery (sy_db sample_synced) 1 = Inr (Some (Resync r)) \<and> rs_fromBlock r \<le> 8 \<and> 10 \<le> rs_targetBlock r)"
proof -
  have removed: "sy_removed sample_synced 1 x = (if 8 \<le> x then Some 10 else None)" for x
    by (auto simp: sample_synced_def sample_end_def sample_start_def synchronised_def sample_block_def)
  have db: "sy_db sample_synced = sample_range_db" by (simp add: sample_synced_def)
  have "\<exists>r. getRecovery sample_range_db 1 = Inr (Some (Resync r))"
    by (rule exI [of _ "sample_resync\<lparr> rb_version := 2, rb_retryAt := 300, rs_fromBlock := 8, rs_toBlock := 10 \<rparr>"]) code_simp
  then obtain r where r: "getRecovery (sy_db sample_synced) 1 = Inr (Some (Resync r))" using db by auto
  have "initial_system sample_start" by (simp add: initial_system_def sample_start_def sample_empty_def)
  from journal_accounts_for_owed_blocks [OF sample_run_synced this sample_options_valid, of 1] r
  have "\<forall>x h. sy_removed sample_synced 1 x = Some h \<and> x \<le> h \<longrightarrow> rs_fromBlock r \<le> x \<and> x \<le> rs_targetBlock r" by simp
  from this [rule_format, of 8 10] this [rule_format, of 10 10] r show ?thesis by (simp add: removed)
qed

theorem committed_rollback_leaves_canonical_headers_witness:
  "getBlockHash (idb_chain sample_found) 1 6 = Some (sample_hash True 6) \<and>
   getBlockHash (idb_chain sample_rolled_back) 1 6 = None"
proof -
  have "linked_headers sample_window" by code_simp
  moreover have "proveReorgAncestor sample_history sample_window = Inr (Some sample_proof)" by code_simp
  ultimately have bounded: "\<forall>n h. getBlockHash (idb_chain sample_rolled_back) (rb_chainId sample_awaiting) n = Some h
      \<and> hist_fromBlock sample_history \<le> n \<longrightarrow> n \<le> hdr_number (prf_fork sample_proof)"
    using committed_rollback_leaves_canonical_headers [OF _ _ sample_commit] by blast
  have "rb_chainId sample_awaiting = 1" "hist_fromBlock sample_history = 3"
    "hdr_number (prf_fork sample_proof) = 3" by code_simp+
  with bounded have "getBlockHash (idb_chain sample_rolled_back) 1 6 = None"
    by (cases "getBlockHash (idb_chain sample_rolled_back) 1 6") auto
  moreover have "getBlockHash (idb_chain sample_found) 1 6 = Some (sample_hash True 6)" by code_simp
  ultimately show ?thesis by simp
qed

theorem work_from_before_a_rollback_is_rejected_witness:
  "\<not> isl (persistSyncResult sample_port sample_late_result (idb_chain sample_found)) \<and>
   isl (persistSyncResult sample_port sample_late_result (idb_chain (sy_db sample_end)))"
proof -
  have "commitRollbackAndResync sample_port sample_awaiting sample_proof sample_plan sample_snapshot
     (Some sample_resync) sample_found = Inr (sy_db sample_end)"
    by (simp add: sample_commit sample_end_def mark_def write_db_def)
  from work_from_before_a_rollback_is_rejected [OF this rtranclp.rtrancl_refl, of "\<lparr> cp_chainId = 1, cp_revision = 0 \<rparr>"]
  have "persistSyncResult sample_port sample_late_result (idb_chain (sy_db sample_end)) \<noteq> Inr chain" for chain
    by (simp add: sample_awaiting_def sample_found_def sample_tables_def captureChainSyncCheckpoint_def
        sample_late_result_def)
  then have "isl (persistSyncResult sample_port sample_late_result (idb_chain (sy_db sample_end)))"
    by (metis isl_def sum.exhaust)
  moreover have "\<not> isl (persistSyncResult sample_port sample_late_result (idb_chain sample_found))" by code_simp
  ultimately show ?thesis by simp
qed

theorem resync_covers_its_window_and_ends_witness:
  "concat (map (\<lambda>(f, t). [f..t]) (resync_ranges 4 sample_resync)) = [4..10] \<and>
   length (resync_ranges 4 sample_resync) = 2 \<and>
   (\<exists>db. complete_ranges (\<lambda>_. 300) 4 (map (range_of sample_resync) (resync_ranges 4 sample_resync)) sample_rolled_back
      = Some (Inr db) \<and> getRecovery db 1 = Inr None)"
proof -
  have begin': "beginReorgResync sample_awaiting (pl_fromBlock sample_plan) 10 (ro_batchSize sample_options) 200
      = Inr (Some sample_resync)"
    using sample_begin by (simp add: sample_plan_def sample_options_def)
  from resync_covers_its_window_and_ends [OF sample_options_valid begin' sample_commit, of "\<lambda>_. 300"]
  show ?thesis by (simp add: sample_options_def sample_resync_def sample_awaiting_def)
qed

end
