(* ===== verification/Nft_Ownership.thy ===== *)
theory Nft_Ownership
  imports Chain_Store "HOL-Library.Product_Lexorder"
begin

text \<open>
  Transfers, balances and ownership checkpoints of the indexer
  (\<^verbatim>\<open>indexer/src/infra/storage/sqlite.ts\<close>, \<^verbatim>\<open>indexer/src/domain/ownership.ts\<close>): how a sync result
  projects transfers into current balances and how a rollback takes them back.  They define the port
  \<open>FactsPort\<close> of theory \<open>Chain_Store\<close>.

  Amounts are decimal strings of integers in the tables and \<open>bigint\<close>s in the code; here they are
  \<^typ>\<open>int\<close>.  The other fact tables (transactions, fills, orders, ...) are the opaque component
  \<open>'g\<close> with the port \<open>RestPort\<close>.
\<close>

section \<open>Tables\<close>

record NftTransferEvent =
  te_collectionId :: int
  te_contract :: string
  te_from :: string
  te_to :: string
  te_tokenId :: string
  te_amount :: int
  te_blockNumber :: int
  te_blockHash :: string
  te_txHash :: string
  te_logIndex :: int
  te_kind :: CollectionStandard

record TransferRow =
  tf_chainId :: int
  tf_collectionId :: int
  tf_contract :: string
  tf_from :: string
  tf_to :: string
  tf_tokenId :: string
  tf_amount :: int
  tf_blockNumber :: int
  tf_blockHash :: string
  tf_blockTimestamp :: int
  tf_txHash :: string
  tf_logIndex :: int
  tf_kind :: CollectionStandard

record BalanceContext =
  bc_blockNumber :: int
  bc_blockHash :: string
  bc_blockTimestamp :: int
  bc_txHash :: string
  bc_logIndex :: int

record BalanceRow =
  ba_contract :: string
  ba_amount :: int
  ba_context :: BalanceContext

record OwnershipCheckpointRow =
  oc_contract :: string
  oc_owner :: "string option"
  oc_blockNumber :: int
  oc_blockHash :: string
  oc_blockTimestamp :: int
  oc_anchor :: "int option"

type_synonym BalanceKey = "int \<times> int \<times> string \<times> string"
type_synonym TokenKey = "int \<times> int \<times> string"

record 'g NftFacts =
  nf_transfers :: "TransferRow list"
  nf_balances :: "(BalanceKey \<times> BalanceRow) list"
  nf_checkpoints :: "(TokenKey \<times> OwnershipCheckpointRow) list"
  nf_rest :: 'g

record 'g RestPort =
  rp_persist :: "int \<Rightarrow> SyncBlockHeader list \<Rightarrow> 'g \<Rightarrow> string + 'g"
  rp_resetOrder :: "int \<Rightarrow> TransferRow \<Rightarrow> 'g \<Rightarrow> 'g"
  rp_invalidateRetirements :: "int \<Rightarrow> int \<Rightarrow> 'g \<Rightarrow> 'g"
  rp_deleteFromBlock :: "int \<Rightarrow> int \<Rightarrow> 'g \<Rightarrow> 'g"

definition ZERO_ADDRESS :: string where
  "ZERO_ADDRESS = ''0x'' @ replicate 40 CHR ''0''"

definition zeroHash :: string where
  "zeroHash = ''0x'' @ replicate 64 CHR ''0''"

section \<open>Inserting transfers\<close>

text \<open>\<open>INSERT OR IGNORE\<close> on \<open>UNIQUE (chain_id, tx_hash, log_index, collection_id, token_id)\<close>.\<close>

definition transfer_key :: "TransferRow \<Rightarrow> int \<times> string \<times> int \<times> int \<times> string" where
  "transfer_key r = (tf_chainId r, tf_txHash r, tf_logIndex r, tf_collectionId r, tf_tokenId r)"

definition transfer_row :: "int \<Rightarrow> int \<Rightarrow> NftTransferEvent \<Rightarrow> TransferRow" where
  "transfer_row chainId blockTimestamp e =
     \<lparr> tf_chainId = chainId, tf_collectionId = te_collectionId e, tf_contract = toLowerCase (te_contract e),
       tf_from = toLowerCase (te_from e), tf_to = toLowerCase (te_to e), tf_tokenId = te_tokenId e,
       tf_amount = te_amount e, tf_blockNumber = te_blockNumber e, tf_blockHash = te_blockHash e,
       tf_blockTimestamp = blockTimestamp, tf_txHash = te_txHash e, tf_logIndex = te_logIndex e,
       tf_kind = te_kind e \<rparr>"

definition insertTransfer :: "TransferRow \<Rightarrow> TransferRow list \<Rightarrow> bool \<times> TransferRow list" where
  "insertTransfer r rows =
     (if transfer_key r \<in> set (map transfer_key rows) then (False, rows) else (True, rows @ [r]))"

definition resolveBlockTimestamp :: "SyncBlockHeader list \<Rightarrow> int \<Rightarrow> string + int" where
  "resolveBlockTimestamp blocks n =
     (case canonicalMap blocks n of
        None \<Rightarrow> Inl (''Missing block timestamp for block '' @ show_int n)
      | Some b \<Rightarrow> Inr (hdr_timestamp b))"

fun persistTransfers ::
  "int \<Rightarrow> SyncBlockHeader list \<Rightarrow> NftTransferEvent list \<Rightarrow> TransferRow list
    \<Rightarrow> string + NftTransferEvent list \<times> TransferRow list"
where
  "persistTransfers chainId blocks [] rows = Inr ([], rows)"
| "persistTransfers chainId blocks (e # es) rows =
     bindR (resolveBlockTimestamp blocks (te_blockNumber e)) (\<lambda>blockTimestamp.
       let (changed, rows1) = insertTransfer (transfer_row chainId blockTimestamp e) rows in
       bindR (persistTransfers chainId blocks es rows1) (\<lambda>(inserted, rows2).
         Inr (if changed then e # inserted else inserted, rows2)))"

section \<open>Balances\<close>

definition upsertBalance ::
  "BalanceKey \<Rightarrow> string \<Rightarrow> int \<Rightarrow> BalanceContext \<Rightarrow> (BalanceKey \<times> BalanceRow) list
    \<Rightarrow> (BalanceKey \<times> BalanceRow) list"
where
  "upsertBalance key contract amount context rows =
     AList.update key
       \<lparr> ba_contract = (case map_of rows key of None \<Rightarrow> contract | Some r \<Rightarrow> ba_contract r),
         ba_amount = amount, ba_context = context \<rparr> rows"

definition applyBalanceDelta ::
  "int \<Rightarrow> int \<Rightarrow> string \<Rightarrow> string \<Rightarrow> string \<Rightarrow> int \<Rightarrow> BalanceContext
    \<Rightarrow> (BalanceKey \<times> BalanceRow) list \<Rightarrow> (BalanceKey \<times> BalanceRow) list"
where
  "applyBalanceDelta chainId collectionId contract tokenId owner delta context rows =
     (let key = (chainId, collectionId, tokenId, owner);
          currentAmount = (case map_of rows key of None \<Rightarrow> 0 | Some r \<Rightarrow> ba_amount r);
          nextAmount = currentAmount + delta
      in if nextAmount = 0 then AList.delete key rows
         else upsertBalance key contract nextAmount context rows)"

definition applyErc1155Transfer ::
  "int \<Rightarrow> int \<Rightarrow> string \<Rightarrow> string \<Rightarrow> string \<Rightarrow> string \<Rightarrow> int \<Rightarrow> BalanceContext
    \<Rightarrow> (BalanceKey \<times> BalanceRow) list \<Rightarrow> (BalanceKey \<times> BalanceRow) list"
where
  "applyErc1155Transfer chainId collectionId contract tokenId fromAddr toAddr amount context rows =
     (let rows1 = (if fromAddr \<noteq> ZERO_ADDRESS
                   then applyBalanceDelta chainId collectionId contract tokenId fromAddr (- amount) context rows
                   else rows)
      in if toAddr \<noteq> ZERO_ADDRESS
         then applyBalanceDelta chainId collectionId contract tokenId toAddr amount context rows1
         else rows1)"

definition deleteTokenBalances ::
  "int \<Rightarrow> int \<Rightarrow> string \<Rightarrow> (BalanceKey \<times> BalanceRow) list \<Rightarrow> (BalanceKey \<times> BalanceRow) list"
where
  "deleteTokenBalances chainId collectionId tokenId =
     filter (\<lambda>((c, i, t, ow), r). \<not> (c = chainId \<and> i = collectionId \<and> t = tokenId))"

definition replaceErc721Ownership ::
  "int \<Rightarrow> int \<Rightarrow> string \<Rightarrow> string \<Rightarrow> string option \<Rightarrow> BalanceContext
    \<Rightarrow> (BalanceKey \<times> BalanceRow) list \<Rightarrow> (BalanceKey \<times> BalanceRow) list"
where
  "replaceErc721Ownership chainId collectionId contract tokenId owner context rows =
     (let rows1 = deleteTokenBalances chainId collectionId tokenId rows in
      case owner of None \<Rightarrow> rows1
      | Some ow \<Rightarrow> upsertBalance (chainId, collectionId, tokenId, ow) contract 1 context rows1)"

section \<open>The owner of an ERC721 token\<close>

record Erc721OwnershipState =
  os_owner :: "string option"
  os_context :: BalanceContext

definition resolveErc721Ownership ::
  "Erc721OwnershipState option \<Rightarrow> Erc721OwnershipState option \<Rightarrow> string + Erc721OwnershipState"
where
  "resolveErc721Ownership latestTransfer checkpoint =
     (case checkpoint of
        Some cp \<Rightarrow>
          (case latestTransfer of
             None \<Rightarrow> Inr cp
           | Some t \<Rightarrow>
               if bc_blockNumber (os_context cp) \<ge> bc_blockNumber (os_context t) then Inr cp else Inr t)
      | None \<Rightarrow>
          (case latestTransfer of None \<Rightarrow> Inl ''Missing persisted ERC721 ownership'' | Some t \<Rightarrow> Inr t))"

definition token_transfers :: "int \<Rightarrow> int \<Rightarrow> string \<Rightarrow> TransferRow list \<Rightarrow> TransferRow list" where
  "token_transfers chainId collectionId tokenId =
     filter (\<lambda>r. tf_chainId r = chainId \<and> tf_collectionId r = collectionId \<and> tf_tokenId r = tokenId)"

text \<open>\<open>ORDER BY block_number DESC, log_index DESC LIMIT 1\<close>\<close>

definition selectLatestTransfer :: "int \<Rightarrow> int \<Rightarrow> string \<Rightarrow> TransferRow list \<Rightarrow> TransferRow option" where
  "selectLatestTransfer chainId collectionId tokenId rows =
     (case sort_key (\<lambda>r. (- tf_blockNumber r, - tf_logIndex r)) (token_transfers chainId collectionId tokenId rows) of
        [] \<Rightarrow> None | r # _ \<Rightarrow> Some r)"

definition collection_anchor :: "CollectionRow list \<Rightarrow> int \<Rightarrow> int option option" where
  "collection_anchor collections collectionId =
     map_option cr_anchor (List.find (\<lambda>c. cr_collectionId c = collectionId) collections)"

definition selectOwnershipCheckpoint ::
  "CollectionRow list \<Rightarrow> int \<Rightarrow> int \<Rightarrow> string \<Rightarrow> (TokenKey \<times> OwnershipCheckpointRow) list
    \<Rightarrow> OwnershipCheckpointRow option"
where
  "selectOwnershipCheckpoint collections chainId collectionId tokenId rows =
     (case map_of rows (chainId, collectionId, tokenId) of
        None \<Rightarrow> None
      | Some r \<Rightarrow> if collection_anchor collections collectionId = Some (oc_anchor r) then Some r else None)"

definition transfer_context :: "TransferRow \<Rightarrow> BalanceContext" where
  "transfer_context r =
     \<lparr> bc_blockNumber = tf_blockNumber r, bc_blockHash = tf_blockHash r,
       bc_blockTimestamp = tf_blockTimestamp r, bc_txHash = tf_txHash r, bc_logIndex = tf_logIndex r \<rparr>"

definition transfer_state :: "TransferRow \<Rightarrow> Erc721OwnershipState" where
  "transfer_state r =
     \<lparr> os_owner = (if tf_to r = ZERO_ADDRESS then None else Some (tf_to r)), os_context = transfer_context r \<rparr>"

definition checkpoint_state :: "OwnershipCheckpointRow \<Rightarrow> Erc721OwnershipState" where
  "checkpoint_state r =
     \<lparr> os_owner = oc_owner r,
       os_context = \<lparr> bc_blockNumber = oc_blockNumber r, bc_blockHash = oc_blockHash r,
                      bc_blockTimestamp = oc_blockTimestamp r, bc_txHash = zeroHash, bc_logIndex = 0 \<rparr> \<rparr>"

section \<open>Projection of a sync result\<close>

fun applyBalanceUpdatesFromEvents ::
  "CollectionRow list \<Rightarrow> int \<Rightarrow> SyncBlockHeader list \<Rightarrow> TransferRow list
    \<Rightarrow> (TokenKey \<times> OwnershipCheckpointRow) list \<Rightarrow> NftTransferEvent list
    \<Rightarrow> (BalanceKey \<times> BalanceRow) list \<Rightarrow> string + (BalanceKey \<times> BalanceRow) list"
where
  "applyBalanceUpdatesFromEvents cols chainId blocks transfers checkpoints [] rows = Inr rows"
| "applyBalanceUpdatesFromEvents cols chainId blocks transfers checkpoints (e # es) rows =
     bindR
       (case te_kind e of
          Erc721 \<Rightarrow>
            bindR (resolveErc721Ownership
                     (map_option transfer_state
                        (selectLatestTransfer chainId (te_collectionId e) (te_tokenId e) transfers))
                     (map_option checkpoint_state
                        (selectOwnershipCheckpoint cols chainId (te_collectionId e) (te_tokenId e) checkpoints)))
              (\<lambda>state. Inr (replaceErc721Ownership chainId (te_collectionId e) (toLowerCase (te_contract e))
                              (te_tokenId e) (os_owner state) (os_context state) rows))
        | Erc1155 \<Rightarrow>
            bindR (resolveBlockTimestamp blocks (te_blockNumber e)) (\<lambda>blockTimestamp.
              Inr (applyErc1155Transfer chainId (te_collectionId e) (toLowerCase (te_contract e)) (te_tokenId e)
                     (toLowerCase (te_from e)) (toLowerCase (te_to e)) (te_amount e)
                     \<lparr> bc_blockNumber = te_blockNumber e, bc_blockHash = te_blockHash e,
                       bc_blockTimestamp = blockTimestamp, bc_txHash = te_txHash e, bc_logIndex = te_logIndex e \<rparr>
                     rows)))
       (\<lambda>rows1. applyBalanceUpdatesFromEvents cols chainId blocks transfers checkpoints es rows1)"

definition canProjectCurrentStateAtBlock :: "int option \<Rightarrow> int option \<Rightarrow> bool" where
  "canProjectCurrentStateAtBlock bootstrapAnchorBlock blockNumber \<longleftrightarrow>
     (case blockNumber of
        None \<Rightarrow> True
      | Some n \<Rightarrow> (case bootstrapAnchorBlock of None \<Rightarrow> False | Some a \<Rightarrow> n > a))"

text \<open>\<open>new Map(collections.map(...))\<close>: a later record of the same id replaces an earlier one.\<close>

definition projectable :: "CollectionRow list \<Rightarrow> NftTransferEvent \<Rightarrow> bool" where
  "projectable collections e \<longleftrightarrow>
     (case map_of (rev (map (\<lambda>c. (cr_collectionId c, c)) collections)) (te_collectionId e) of
        None \<Rightarrow> False
      | Some c \<Rightarrow> canProjectCurrentStateAtBlock (cr_anchor c) (Some (te_blockNumber e)))"

text \<open>
  The part of \<open>persistSyncResult\<close> on these tables.  \<open>table\<close> are the rows of \<open>collections\<close>, \<open>acquired\<close>
  the collections of the result.  The statements on the other tables do not read these, so their place
  in the sequence only decides which of several errors is reported.
\<close>

definition persistNftFacts ::
  "'g RestPort \<Rightarrow> CollectionRow list \<Rightarrow> int \<Rightarrow> SyncBlockHeader list \<Rightarrow> CollectionRow list
    \<Rightarrow> NftTransferEvent list \<Rightarrow> 'g NftFacts \<Rightarrow> string + 'g NftFacts"
where
  "persistNftFacts port table chainId blocks acquired events facts =
     bindR (persistTransfers chainId blocks events (nf_transfers facts)) (\<lambda>(inserted, transfers).
     bindR (rp_persist port chainId blocks (nf_rest facts)) (\<lambda>rest.
     bindR (applyBalanceUpdatesFromEvents table chainId blocks transfers (nf_checkpoints facts)
              (filter (projectable acquired) inserted) (nf_balances facts)) (\<lambda>balances.
       Inr (facts\<lparr> nf_transfers := transfers, nf_balances := balances, nf_rest := rest \<rparr>))))"

section \<open>Rollback\<close>

text \<open>
  The order of \<open>selectTransfersFromBlock\<close>, as a key: blocks and logs descending, then collection,
  token and transaction ascending.
\<close>

type_synonym PageKey = "int \<times> int \<times> int \<times> string \<times> string"

definition page_key :: "TransferRow \<Rightarrow> PageKey" where
  "page_key r = (- tf_blockNumber r, - tf_logIndex r, tf_collectionId r, tf_tokenId r, tf_txHash r)"

definition selectTransfersFromBlock ::
  "TransferRow list \<Rightarrow> int \<Rightarrow> int \<Rightarrow> nat \<Rightarrow> TransferRow option \<Rightarrow> TransferRow list"
where
  "selectTransfersFromBlock rows chainId fromBlock limit after =
     take limit (sort_key page_key (filter (\<lambda>r. tf_chainId r = chainId \<and> fromBlock \<le> tf_blockNumber r \<and>
       (case after of None \<Rightarrow> True | Some a \<Rightarrow>
          tf_blockNumber r < tf_blockNumber a \<or>
          tf_blockNumber r = tf_blockNumber a \<and> tf_logIndex r < tf_logIndex a \<or>
          tf_blockNumber r = tf_blockNumber a \<and> tf_logIndex r = tf_logIndex a \<and>
            (tf_collectionId r, tf_tokenId r, tf_txHash r) > (tf_collectionId a, tf_tokenId a, tf_txHash a))) rows))"

definition rollbackErc1155Transfer ::
  "int \<Rightarrow> TransferRow \<Rightarrow> (BalanceKey \<times> BalanceRow) list \<Rightarrow> (BalanceKey \<times> BalanceRow) list"
where
  "rollbackErc1155Transfer chainId r =
     applyErc1155Transfer chainId (tf_collectionId r) (toLowerCase (tf_contract r)) (tf_tokenId r)
       (toLowerCase (tf_to r)) (toLowerCase (tf_from r)) (tf_amount r) (transfer_context r)"

definition resetOrderFromTransfer :: "'g RestPort \<Rightarrow> int \<Rightarrow> TransferRow \<Rightarrow> 'g \<Rightarrow> 'g" where
  "resetOrderFromTransfer port chainId r rest =
     (if toLowerCase (tf_from r) = ZERO_ADDRESS then rest else rp_resetOrder port chainId r rest)"

definition undoTransfer :: "'g RestPort \<Rightarrow> int \<Rightarrow> TransferRow \<Rightarrow> 'g NftFacts \<Rightarrow> 'g NftFacts" where
  "undoTransfer port chainId r facts =
     facts\<lparr> nf_balances := (case tf_kind r of Erc1155 \<Rightarrow> rollbackErc1155Transfer chainId r (nf_balances facts)
                            | Erc721 \<Rightarrow> nf_balances facts),
            nf_rest := resetOrderFromTransfer port chainId r (nf_rest facts) \<rparr>"

lemma after_iff_page_key:
  "tf_blockNumber r < tf_blockNumber a \<or>
   tf_blockNumber r = tf_blockNumber a \<and> tf_logIndex r < tf_logIndex a \<or>
   tf_blockNumber r = tf_blockNumber a \<and> tf_logIndex r = tf_logIndex a \<and>
     (tf_collectionId r, tf_tokenId r, tf_txHash r) > (tf_collectionId a, tf_tokenId a, tf_txHash a) \<longleftrightarrow>
   page_key a < page_key r"
  by (auto simp: page_key_def)

definition rows_after :: "TransferRow list \<Rightarrow> int \<Rightarrow> int \<Rightarrow> TransferRow option \<Rightarrow> TransferRow list" where
  "rows_after rows chainId fromBlock after =
     filter (\<lambda>r. tf_chainId r = chainId \<and> fromBlock \<le> tf_blockNumber r \<and>
       (case after of None \<Rightarrow> True | Some a \<Rightarrow> page_key a < page_key r)) rows"

lemma selectTransfersFromBlock_alt:
  "selectTransfersFromBlock rows chainId fromBlock limit after =
     take limit (sort_key page_key (rows_after rows chainId fromBlock after))"
  unfolding selectTransfersFromBlock_def rows_after_def after_iff_page_key ..

lemma rows_after_decreases:
  assumes "a \<in> set (rows_after rows chainId fromBlock after)"
  shows "length (rows_after rows chainId fromBlock (Some a)) < length (rows_after rows chainId fromBlock after)"
proof -
  have "rows_after rows chainId fromBlock (Some a) =
      filter (\<lambda>r. page_key a < page_key r) (rows_after rows chainId fromBlock after)"
    using assms by (auto simp: rows_after_def intro!: filter_cong split: option.splits)
  then show ?thesis using assms by (auto intro: length_filter_less)
qed

text \<open>
  The loop over the pages of transfers.  With a positive limit an empty page is shorter than the limit,
  so the second test only matters for a limit of zero.
\<close>

function undoPages ::
  "'g RestPort \<Rightarrow> TransferRow list \<Rightarrow> int \<Rightarrow> int \<Rightarrow> nat \<Rightarrow> TransferRow option \<Rightarrow> 'g NftFacts \<Rightarrow> 'g NftFacts"
where
  "undoPages port rows chainId fromBlock limit after facts =
     (let events = selectTransfersFromBlock rows chainId fromBlock limit after;
          facts1 = fold (undoTransfer port chainId) events facts
      in if length events < limit \<or> events = [] then facts1
         else undoPages port rows chainId fromBlock limit (Some (last events)) facts1)"
  by auto
termination
proof (relation "measure (\<lambda>(port, rows, c, f, limit, after, facts). length (rows_after rows c f after))")
  fix rows :: "TransferRow list" and c f :: int and limit :: nat and after
    and events and port :: "'g RestPort" and facts facts1 :: "'g NftFacts"
  assume events: "events = selectTransfersFromBlock rows c f limit after"
    and "\<not> (length events < limit \<or> events = [])"
  then have "last events \<in> set (take limit (sort_key page_key (rows_after rows c f after)))"
    by (metis last_in_set selectTransfersFromBlock_alt)
  then have "last events \<in> set (rows_after rows c f after)" by (metis in_set_takeD set_sort)
  then show "((port, rows, c, f, limit, Some (last events), facts1), port, rows, c, f, limit, after, facts)
      \<in> measure (\<lambda>(port, rows, c, f, limit, after, facts). length (rows_after rows c f after))"
    by (simp add: rows_after_decreases)
qed simp

declare undoPages.simps [simp del]

definition ROLLBACK_TRANSFER_PAGE_SIZE :: nat where
  "ROLLBACK_TRANSFER_PAGE_SIZE = 256"

text \<open>\<open>/^0x[a-fA-F0-9]{40}$/\<close>\<close>

definition normalizeErc721Owner :: "string \<Rightarrow> string + string" where
  "normalizeErc721Owner owner =
     (if \<not> (length owner = 42 \<and> hex_pattern owner) \<or> toLowerCase owner = ZERO_ADDRESS
      then Inl ''ERC721 ownerOf returned an invalid owner'' else Inr (toLowerCase owner))"

definition upsertOwnershipCheckpoint ::
  "CollectionRow list \<Rightarrow> int \<Rightarrow> Erc721TokenReference \<Rightarrow> string option \<Rightarrow> SnapshotBlock
    \<Rightarrow> (TokenKey \<times> OwnershipCheckpointRow) list \<Rightarrow> (TokenKey \<times> OwnershipCheckpointRow) list"
where
  "upsertOwnershipCheckpoint collections chainId t owner b rows =
     (case List.find (\<lambda>c. cr_chainId c = chainId \<and> cr_collectionId c = tr_collectionId t) collections of
        None \<Rightarrow> rows
      | Some c \<Rightarrow>
          AList.update (chainId, tr_collectionId t, tr_tokenId t)
            \<lparr> oc_contract = tr_contract t, oc_owner = owner, oc_blockNumber = sb_blockNumber b,
              oc_blockHash = sb_blockHash b, oc_blockTimestamp = sb_blockTimestamp b,
              oc_anchor = cr_anchor c \<rparr> rows)"

definition snapshot_context :: "SnapshotBlock \<Rightarrow> BalanceContext" where
  "snapshot_context b =
     \<lparr> bc_blockNumber = sb_blockNumber b, bc_blockHash = sb_blockHash b,
       bc_blockTimestamp = sb_blockTimestamp b, bc_txHash = zeroHash, bc_logIndex = 0 \<rparr>"

fun restoreOwners ::
  "CollectionRow list \<Rightarrow> int \<Rightarrow> SnapshotBlock \<Rightarrow> (Erc721TokenReference \<times> string option) list
    \<Rightarrow> 'g NftFacts \<Rightarrow> string + 'g NftFacts"
where
  "restoreOwners collections chainId b [] facts = Inr facts"
| "restoreOwners collections chainId b ((t, tokenOwner) # rest) facts =
     bindR (case tokenOwner of None \<Rightarrow> Inr None
            | Some ow \<Rightarrow> bindR (normalizeErc721Owner ow) (\<lambda>n. Inr (Some n))) (\<lambda>owner.
       restoreOwners collections chainId b rest
         (facts\<lparr> nf_checkpoints := upsertOwnershipCheckpoint collections chainId t owner b (nf_checkpoints facts),
                 nf_balances := replaceErc721Ownership chainId (tr_collectionId t) (tr_contract t) (tr_tokenId t)
                   owner (snapshot_context b) (nf_balances facts) \<rparr>))"

definition deleteTransfersFromBlock :: "int \<Rightarrow> int \<Rightarrow> TransferRow list \<Rightarrow> TransferRow list" where
  "deleteTransfersFromBlock chainId fromBlock =
     filter (\<lambda>r. \<not> (tf_chainId r = chainId \<and> fromBlock \<le> tf_blockNumber r))"

definition rollbackNftFacts ::
  "'g RestPort \<Rightarrow> CollectionRow list \<Rightarrow> int \<Rightarrow> int \<Rightarrow> Erc721RollbackSnapshot \<Rightarrow> 'g NftFacts
    \<Rightarrow> string + 'g NftFacts"
where
  "rollbackNftFacts port collections chainId fromBlock snapshot facts =
     (let facts1 = facts\<lparr> nf_rest := rp_invalidateRetirements port chainId fromBlock (nf_rest facts) \<rparr>;
          facts2 = undoPages port (nf_transfers facts1) chainId fromBlock ROLLBACK_TRANSFER_PAGE_SIZE None facts1
      in bindR (restoreOwners collections chainId (sn_block snapshot) (sn_owners snapshot) facts2) (\<lambda>facts3.
           Inr (facts3\<lparr> nf_transfers := deleteTransfersFromBlock chainId fromBlock (nf_transfers facts3),
                        nf_rest := rp_deleteFromBlock port chainId fromBlock (nf_rest facts3) \<rparr>)))"

text \<open>The tokens whose ownership a rollback has to restore, each once, in order.\<close>

definition selectRollbackTokens ::
  "CollectionRow list \<Rightarrow> int \<Rightarrow> int \<Rightarrow> 'g NftFacts \<Rightarrow> Erc721TokenReference list"
where
  "selectRollbackTokens collections chainId fromBlock facts =
     (let touched =
        [(tf_collectionId r, tf_tokenId r). r \<leftarrow> nf_transfers facts,
           tf_chainId r = chainId \<and> fromBlock \<le> tf_blockNumber r \<and> tf_kind r = Erc721] @
        [(i, t). ((c, i, t, ow), r) \<leftarrow> nf_balances facts,
           c = chainId \<and> fromBlock \<le> bc_blockNumber (ba_context r)] @
        [(i, t). ((c, i, t), r) \<leftarrow> nf_checkpoints facts, c = chainId \<and> fromBlock \<le> oc_blockNumber r]
      in [\<lparr> tr_collectionId = i, tr_contract = cr_address c, tr_tokenId = t \<rparr>.
            (i, t) \<leftarrow> sort (remdups touched), c \<leftarrow> collections,
            cr_collectionId c = i \<and> cr_chainId c = chainId \<and> cr_standard c = Erc721 \<and> cr_anchor c \<noteq> None])"

definition nftFactsPort :: "'g RestPort \<Rightarrow> ('g NftFacts, NftTransferEvent list) FactsPort" where
  "nftFactsPort port =
     \<lparr> fp_tokens = selectRollbackTokens, fp_persist = persistNftFacts port, fp_rollback = rollbackNftFacts port \<rparr>"

end
