(* ===== verification/Nft_Results.thy ===== *)
theory Nft_Results
  imports Nft_Ownership
begin

text \<open>
  Correctness of the ownership projection: the paged loop of a rollback is a fold over all its
  transfers, ERC1155 balances are sums of transfer amounts that a rollback takes back, and the owner of an ERC721
  token is that of its latest transfer or checkpoint, whatever the order of delivery.
\<close>

section \<open>Pages\<close>

lemma page_key_inj:
  assumes "distinct (map transfer_key rows)" and "\<forall>r \<in> set rows. tf_chainId r = c"
  shows "distinct (map page_key rows)"
  using assms by (induction rows) (auto simp: page_key_def transfer_key_def)

lemma filter_after_nth:
  assumes "sorted_wrt (\<lambda>x y. f x < (f y :: 'k :: linorder)) xs" and "n < length xs"
  shows "filter (\<lambda>x. f (xs ! n) < f x) xs = drop (Suc n) xs"
  using assms
proof (induction xs arbitrary: n)
  case (Cons x xs)
  show ?case
  proof (cases n)
    case 0
    with Cons.prems show ?thesis by (auto simp: filter_id_conv)
  next
    case (Suc m)
    with Cons.prems have "f x < f (xs ! m)" by simp
    then have "\<not> f (xs ! m) < f x" by simp
    with Suc Cons show ?thesis by simp
  qed
qed simp

lemma sort_key_strict:
  assumes "distinct (map f xs)"
  shows "sorted_wrt (\<lambda>x y. f x < f y) (sort_key f xs)"
proof -
  have "sorted (map f (sort_key f xs))" by simp
  moreover have "distinct (map f (sort_key f xs))"
    using assms by (metis mset_eq_imp_distinct_iff mset_map mset_sort)
  ultimately have "sorted_wrt (<) (map f (sort_key f xs))" by (simp add: strict_sorted_iff)
  then show ?thesis by (simp add: sorted_wrt_map)
qed

lemma undoPages_fold:
  assumes "distinct (map transfer_key rows)" and "0 < limit"
  shows "undoPages port rows c f limit after facts =
    fold (undoTransfer port c) (sort_key page_key (rows_after rows c f after)) facts"
proof (induction "length (rows_after rows c f after)" arbitrary: after facts rule: less_induct)
  case less
  let ?L = "sort_key page_key (rows_after rows c f after)"
  let ?events = "take limit ?L"
  have eq: "undoPages port rows c f limit after facts =
      (if length ?events < limit \<or> ?events = [] then fold (undoTransfer port c) ?events facts
       else undoPages port rows c f limit (Some (last ?events)) (fold (undoTransfer port c) ?events facts))"
    by (subst undoPages.simps) (simp add: selectTransfersFromBlock_alt Let_def)
  show ?case
  proof (cases "length ?events < limit \<or> ?events = []")
    case True
    then have "?events = ?L" using assms(2) by (cases ?L) auto
    with True eq show ?thesis by simp
  next
    case False
    then have len: "limit \<le> length ?L" by (simp add: min_def split: if_splits)
    define a where "a = last ?events"
    have a: "a = ?L ! (limit - 1)"
      using len assms(2) by (simp add: a_def last_conv_nth False [simplified] min_def)
    have "distinct (map page_key (rows_after rows c f after))"
      using assms(1) by (intro page_key_inj [of _ c]) (auto simp: rows_after_def distinct_map inj_on_def)
    then have strict: "sorted_wrt (\<lambda>x y. page_key x < page_key y) ?L" by (rule sort_key_strict)
    have mem: "a \<in> set (rows_after rows c f after)"
      using a len assms(2) by (metis Suc_diff_1 Suc_le_eq diff_less less_le_trans nth_mem set_sort zero_less_one)
    have after: "rows_after rows c f (Some a) = filter (\<lambda>r. page_key a < page_key r) (rows_after rows c f after)"
      using mem by (auto simp: rows_after_def intro!: filter_cong split: option.splits)
    have "sort_key page_key (rows_after rows c f (Some a)) = filter (\<lambda>r. page_key a < page_key r) ?L"
      by (simp add: after filter_sort)
    also have "\<dots> = drop limit ?L"
      using filter_after_nth [OF strict, of "limit - 1"] a len assms(2) by simp
    finally have rest: "sort_key page_key (rows_after rows c f (Some a)) = drop limit ?L" .
    have "undoPages port rows c f limit after facts =
        undoPages port rows c f limit (Some a) (fold (undoTransfer port c) ?events facts)"
      using False eq by (simp add: a_def)
    also have "\<dots> = fold (undoTransfer port c) (drop limit ?L) (fold (undoTransfer port c) ?events facts)"
      using less [OF rows_after_decreases [OF mem]] rest by simp
    also have "\<dots> = fold (undoTransfer port c) ?L facts"
      by (metis append_take_drop_id fold_append o_apply)
    finally show ?thesis .
  qed
qed

text \<open>
  The rollback reads the transfers it has to undo in pages of 256, resuming each page after the
  last row of the one before.  This visits every transfer of the chain from the given block on exactly
  once, the latest first, whatever their number: the loop is the fold over the complete sorted list.
\<close>

theorem paged_undo_visits_every_transfer:
  assumes "distinct (map transfer_key rows)"
  shows "undoPages port rows chainId fromBlock ROLLBACK_TRANSFER_PAGE_SIZE None facts =
    fold (undoTransfer port chainId)
      (sort_key page_key (filter (\<lambda>r. tf_chainId r = chainId \<and> fromBlock \<le> tf_blockNumber r) rows)) facts"
  using undoPages_fold [OF assms, of ROLLBACK_TRANSFER_PAGE_SIZE port chainId fromBlock None facts]
  by (simp add: rows_after_def ROLLBACK_TRANSFER_PAGE_SIZE_def)

section \<open>Balances as sums\<close>

definition balance_of :: "(BalanceKey \<times> BalanceRow) list \<Rightarrow> BalanceKey \<Rightarrow> int" where
  "balance_of rows k = (case map_of rows k of None \<Rightarrow> 0 | Some r \<Rightarrow> ba_amount r)"

definition transfer_delta :: "TransferRow \<Rightarrow> BalanceKey \<Rightarrow> int" where
  "transfer_delta r k =
     (if tf_to r \<noteq> ZERO_ADDRESS \<and> k = (tf_chainId r, tf_collectionId r, tf_tokenId r, tf_to r) then tf_amount r else 0) -
     (if tf_from r \<noteq> ZERO_ADDRESS \<and> k = (tf_chainId r, tf_collectionId r, tf_tokenId r, tf_from r) then tf_amount r else 0)"

lemma balance_of_delta:
  "balance_of (applyBalanceDelta c i ct t ow d ctx rows) k =
     balance_of rows k + (if k = (c, i, t, ow) then d else 0)"
  by (auto simp: applyBalanceDelta_def Let_def balance_of_def upsertBalance_def update_conv' delete_conv'
      split: option.splits)

lemma balance_of_erc1155:
  "balance_of (applyErc1155Transfer c i ct t f to a ctx rows) k = balance_of rows k
     + (if to \<noteq> ZERO_ADDRESS \<and> k = (c, i, t, to) then a else 0)
     - (if f \<noteq> ZERO_ADDRESS \<and> k = (c, i, t, f) then a else 0)"
  by (simp add: applyErc1155Transfer_def Let_def balance_of_delta)

lemma map_of_deleteTokenBalances:
  "map_of (deleteTokenBalances c i t rows) (c', i', t', ow) =
     (if c' = c \<and> i' = i \<and> t' = t then None else map_of rows (c', i', t', ow))"
  by (induction rows) (auto simp: deleteTokenBalances_def)

lemma map_of_replace:
  "map_of (replaceErc721Ownership c i ct t owner ctx rows) (c', i', t', ow) =
     (if c' = c \<and> i' = i \<and> t' = t
      then (if owner = Some ow then Some \<lparr> ba_contract = ct, ba_amount = 1, ba_context = ctx \<rparr> else None)
      else map_of rows (c', i', t', ow))"
  by (auto simp: replaceErc721Ownership_def Let_def upsertBalance_def update_conv' map_of_deleteTokenBalances
      split: option.splits)

lemma balance_of_replace_other:
  "(c', i', t') \<noteq> (c, i, t) \<Longrightarrow>
     balance_of (replaceErc721Ownership c i ct t owner ctx rows) (c', i', t', ow) = balance_of rows (c', i', t', ow)"
  by (auto simp: balance_of_def map_of_replace)


lemma undoTransfer_balance:
  assumes "tf_chainId r = c" and "toLowerCase (tf_from r) = tf_from r" "toLowerCase (tf_to r) = tf_to r"
  shows "balance_of (nf_balances (undoTransfer port c r facts)) k =
    balance_of (nf_balances facts) k - (if tf_kind r = Erc1155 then transfer_delta r k else 0)"
  using assms
  by (cases "tf_kind r")
    (simp_all add: undoTransfer_def rollbackErc1155Transfer_def balance_of_erc1155 transfer_delta_def)

text \<open>Rows hold lower-case addresses, as \<open>persistTransfers\<close> inserts them.\<close>

definition lower_case_row :: "TransferRow \<Rightarrow> bool" where
  "lower_case_row r \<longleftrightarrow> toLowerCase (tf_from r) = tf_from r \<and> toLowerCase (tf_to r) = tf_to r"

lemma undo_fold_balance:
  assumes "\<forall>r \<in> set rows. tf_chainId r = c \<and> lower_case_row r"
  shows "balance_of (nf_balances (fold (undoTransfer port c) rows facts)) k =
    balance_of (nf_balances facts) k
      - (\<Sum>r \<leftarrow> rows. if tf_kind r = Erc1155 then transfer_delta r k else 0)"
  using assms
  by (induction rows arbitrary: facts) (simp_all add: undoTransfer_balance lower_case_row_def)

lemma undo_fold_transfers [simp]:
  "nf_transfers (fold (undoTransfer port c) rows facts) = nf_transfers facts"
  "nf_checkpoints (fold (undoTransfer port c) rows facts) = nf_checkpoints facts"
  by (induction rows arbitrary: facts) (simp_all add: undoTransfer_def)

lemma sum_list_sort_key:
  "(\<Sum>x \<leftarrow> sort_key f xs. g x) = (\<Sum>x \<leftarrow> xs. g x :: int)"
  by (metis mset_map mset_sort sum_mset_sum_list)

lemma restoreOwners_other:
  assumes "restoreOwners cols c b owners facts = Inr facts'"
    and "\<forall>(tok, ow) \<in> set owners. (tr_collectionId tok, tr_tokenId tok) \<noteq> (i, t)"
  shows "balance_of (nf_balances facts') (c, i, t, ow) = balance_of (nf_balances facts) (c, i, t, ow)
    \<and> nf_transfers facts' = nf_transfers facts"
  using assms
proof (induction cols c b owners facts rule: restoreOwners.induct)
  case (2 cols c b tok tokenOwner rest facts)
  from "2.prems"(1) obtain owner where
    "restoreOwners cols c b rest
       (facts\<lparr> nf_checkpoints := upsertOwnershipCheckpoint cols c tok owner b (nf_checkpoints facts),
               nf_balances := replaceErc721Ownership c (tr_collectionId tok) (tr_contract tok) (tr_tokenId tok)
                 owner (snapshot_context b) (nf_balances facts) \<rparr>) = Inr facts'"
    by (auto simp: bindR_Inr_iff)
  from "2.IH" [OF this] "2.prems"(2) show ?case by (auto simp: balance_of_replace_other)
qed simp

lemma restoreOwners_transfers:
  assumes "restoreOwners cols c b owners facts = Inr facts'"
  shows "nf_transfers facts' = nf_transfers facts"
  using assms
  by (induction cols c b owners facts rule: restoreOwners.induct) (fastforce simp: bindR_Inr_iff)+

lemma rollback_balance:
  assumes "rollbackNftFacts port cols c f snapshot facts = Inr facts'"
    and "distinct (map transfer_key (nf_transfers facts))" and "\<forall>r \<in> set (nf_transfers facts). lower_case_row r"
    and "\<forall>(tok, ow) \<in> set (sn_owners snapshot). (tr_collectionId tok, tr_tokenId tok) \<noteq> (i, t)"
  shows "balance_of (nf_balances facts') (c, i, t, ow) = balance_of (nf_balances facts) (c, i, t, ow)
    - (\<Sum>r \<leftarrow> filter (\<lambda>r. tf_chainId r = c \<and> f \<le> tf_blockNumber r) (nf_transfers facts).
         if tf_kind r = Erc1155 then transfer_delta r (c, i, t, ow) else 0)"
    and "nf_transfers facts' = deleteTransfersFromBlock c f (nf_transfers facts)"
proof -
  define facts1 where "facts1 = facts\<lparr> nf_rest := rp_invalidateRetirements port c f (nf_rest facts) \<rparr>"
  let ?rows = "filter (\<lambda>r. tf_chainId r = c \<and> f \<le> tf_blockNumber r) (nf_transfers facts)"
  define facts2 where "facts2 = fold (undoTransfer port c) (sort_key page_key ?rows) facts1"
  have "undoPages port (nf_transfers facts1) c f ROLLBACK_TRANSFER_PAGE_SIZE None facts1 = facts2"
    using undoPages_fold [OF assms(2), of ROLLBACK_TRANSFER_PAGE_SIZE port c f None facts1]
    by (simp add: facts1_def facts2_def rows_after_def ROLLBACK_TRANSFER_PAGE_SIZE_def)
  with assms(1) obtain facts3 where
    facts3: "restoreOwners cols c (sn_block snapshot) (sn_owners snapshot) facts2 = Inr facts3"
    and facts': "facts' = facts3\<lparr> nf_transfers := deleteTransfersFromBlock c f (nf_transfers facts3),
                        nf_rest := rp_deleteFromBlock port c f (nf_rest facts3) \<rparr>"
    by (auto simp: rollbackNftFacts_def Let_def bindR_Inr_iff facts1_def)
  have "balance_of (nf_balances facts2) k = balance_of (nf_balances facts) k
      - (\<Sum>r \<leftarrow> ?rows. if tf_kind r = Erc1155 then transfer_delta r k else 0)" for k
    using assms(3) undo_fold_balance [of "sort_key page_key ?rows" c port facts1 k]
    by (simp add: facts2_def facts1_def sum_list_sort_key)
  with restoreOwners_other [OF facts3 assms(4)] facts'
  show "balance_of (nf_balances facts') (c, i, t, ow) = balance_of (nf_balances facts) (c, i, t, ow)
    - (\<Sum>r \<leftarrow> ?rows. if tf_kind r = Erc1155 then transfer_delta r (c, i, t, ow) else 0)" by simp
  show "nf_transfers facts' = deleteTransfersFromBlock c f (nf_transfers facts)"
    using restoreOwners_transfers [OF facts3] facts' by (simp add: facts2_def facts1_def)
qed


section \<open>Transfers and their undoing\<close>

definition event_delta :: "int \<Rightarrow> NftTransferEvent \<Rightarrow> BalanceKey \<Rightarrow> int" where
  "event_delta c e k = transfer_delta (transfer_row c 0 e) k"

lemma transfer_delta_row [simp]: "transfer_delta (transfer_row c ts e) k = event_delta c e k"
  by (simp add: event_delta_def transfer_delta_def transfer_row_def)

lemma transfer_row_fields [simp]:
  "tf_chainId (transfer_row c ts e) = c" "tf_kind (transfer_row c ts e) = te_kind e"
  "tf_blockNumber (transfer_row c ts e) = te_blockNumber e" "lower_case_row (transfer_row c ts e)"
  "tf_collectionId (transfer_row c ts e) = te_collectionId e" "tf_tokenId (transfer_row c ts e) = te_tokenId e"
  by (simp_all add: transfer_row_def lower_case_row_def)

lemma persistTransfers_Inr:
  assumes "persistTransfers c blocks es rows = Inr (inserted, rows')" and "distinct (map transfer_key rows)"
  shows "\<exists>new. rows' = rows @ new \<and> list_all2 (\<lambda>e r. \<exists>ts. r = transfer_row c ts e) inserted new \<and>
    distinct (map transfer_key rows') \<and> set inserted \<subseteq> set es"
  using assms
proof (induction c blocks es rows arbitrary: inserted rows' rule: persistTransfers.induct)
  case (2 c blocks e es rows)
  from "2.prems"(1) obtain ts where ts: "resolveBlockTimestamp blocks (te_blockNumber e) = Inr ts"
    by (auto simp: bindR_Inr_iff)
  moreover obtain changed rows1 where ins1: "insertTransfer (transfer_row c ts e) rows = (changed, rows1)"
    by fastforce
  ultimately have step: "resolveBlockTimestamp blocks (te_blockNumber e) = Inr ts"
      "insertTransfer (transfer_row c ts e) rows = (changed, rows1)" by simp_all
  from "2.prems"(1) step obtain ins1 where rest: "persistTransfers c blocks es rows1 = Inr (ins1, rows')"
    and ins: "inserted = (if changed then e # ins1 else ins1)"
    by (auto simp: bindR_Inr_iff)
  from step(2) "2.prems"(2) have "distinct (map transfer_key rows1)"
    and rows1: "rows1 = (if changed then rows @ [transfer_row c ts e] else rows)"
    by (auto simp: insertTransfer_def split: if_splits)
  from "2.IH" [OF refl step(2) [symmetric] rest this(1)] show ?case
    using ins rows1 by (cases changed) fastforce+
qed simp

lemma applyBalanceUpdates_balance:
  assumes "applyBalanceUpdatesFromEvents cols c blocks transfers checkpoints es rows = Inr rows'"
    and "\<forall>e \<in> set es. te_kind e = Erc721 \<longrightarrow> (te_collectionId e, te_tokenId e) \<noteq> (i, t)"
  shows "balance_of rows' (c, i, t, ow) = balance_of rows (c, i, t, ow)
    + (\<Sum>e \<leftarrow> es. if te_kind e = Erc1155 then event_delta c e (c, i, t, ow) else 0)"
  using assms
proof (induction es arbitrary: rows)
  case (Cons e es)
  from Cons.prems(1) obtain rows1 where
    rest: "applyBalanceUpdatesFromEvents cols c blocks transfers checkpoints es rows1 = Inr rows'"
    and step: "balance_of rows1 (c, i, t, ow) = balance_of rows (c, i, t, ow)
       + (if te_kind e = Erc1155 then event_delta c e (c, i, t, ow) else 0)"
  proof (cases "te_kind e")
    case Erc721
    with Cons.prems(2) have "(c, i, t) \<noteq> (c, te_collectionId e, te_tokenId e)" by auto
    with Erc721 Cons.prems(1) that show ?thesis
      by (auto simp: bindR_Inr_iff balance_of_replace_other)
  next
    case Erc1155
    with Cons.prems(1) that show ?thesis
      by (auto simp: bindR_Inr_iff balance_of_erc1155 event_delta_def transfer_delta_def transfer_row_def)
  qed
  from Cons.IH [OF rest] Cons.prems(2) step show ?case by simp
qed simp

lemma list_all2_sum:
  assumes "list_all2 (\<lambda>e r. g r = (f e :: int)) es rs"
  shows "(\<Sum>r \<leftarrow> rs. g r) = (\<Sum>e \<leftarrow> es. f e)"
  using assms by (induction rule: list_all2_induct) simp_all

lemma persistNftFacts_Inr:
  assumes "persistNftFacts port table c blocks acquired events facts = Inr facts'"
    and "distinct (map transfer_key (nf_transfers facts))"
  obtains inserted new where
    "nf_transfers facts' = nf_transfers facts @ new"
    "list_all2 (\<lambda>e r. \<exists>ts. r = transfer_row c ts e) inserted new"
    "distinct (map transfer_key (nf_transfers facts'))" "set inserted \<subseteq> set events"
    "nf_checkpoints facts' = nf_checkpoints facts"
    "persistTransfers c blocks events (nf_transfers facts) = Inr (inserted, nf_transfers facts')"
    "applyBalanceUpdatesFromEvents table c blocks (nf_transfers facts') (nf_checkpoints facts)
       (filter (projectable acquired) inserted) (nf_balances facts) = Inr (nf_balances facts')"
proof -
  from assms(1) obtain inserted transfers rest balances where
    pers: "persistTransfers c blocks events (nf_transfers facts) = Inr (inserted, transfers)"
    and app: "applyBalanceUpdatesFromEvents table c blocks transfers (nf_checkpoints facts)
       (filter (projectable acquired) inserted) (nf_balances facts) = Inr balances"
    and facts': "facts' = facts\<lparr> nf_transfers := transfers, nf_balances := balances, nf_rest := rest \<rparr>"
    by (auto simp: persistNftFacts_def bindR_Inr_iff)
  from persistTransfers_Inr [OF pers assms(2)] pers app facts' that show ?thesis by auto
qed

text \<open>What a rollback to before block \<open>f\<close> subtracts from a balance.\<close>

definition taken_back :: "int \<Rightarrow> int \<Rightarrow> TransferRow list \<Rightarrow> int \<times> int \<times> string \<times> string \<Rightarrow> int" where
  "taken_back c f rows k = (\<Sum>r \<leftarrow> filter (\<lambda>r. tf_chainId r = c \<and> f \<le> tf_blockNumber r) rows.
     if tf_kind r = Erc1155 then transfer_delta r k else 0)"

lemma rollback_after_persist:
  assumes persist: "persistNftFacts port table c blocks acquired events facts = Inr facts'"
    and keys: "distinct (map transfer_key (nf_transfers facts))" "\<forall>r \<in> set (nf_transfers facts). lower_case_row r"
    and new: "\<forall>e \<in> set events. f \<le> te_blockNumber e"
    and rollback: "rollbackNftFacts port table' c f snapshot facts' = Inr facts''"
    and token: "\<forall>e \<in> set events. te_kind e = Erc721 \<longrightarrow> (te_collectionId e, te_tokenId e) \<noteq> (i, t)"
      "\<forall>(tok, ow) \<in> set (sn_owners snapshot). (tr_collectionId tok, tr_tokenId tok) \<noteq> (i, t)"
  shows "nf_transfers facts'' = filter (\<lambda>r. \<not> (tf_chainId r = c \<and> f \<le> tf_blockNumber r)) (nf_transfers facts)"
    and "\<exists>inserted. set inserted \<subseteq> set events \<and>
      persistTransfers c blocks events (nf_transfers facts) = Inr (inserted, nf_transfers facts') \<and>
      balance_of (nf_balances facts'') (c, i, t, ow) = balance_of (nf_balances facts) (c, i, t, ow)
        - taken_back c f (nf_transfers facts) (c, i, t, ow)
        - (\<Sum>e \<leftarrow> filter (\<lambda>e. \<not> projectable acquired e) inserted.
             if te_kind e = Erc1155 then event_delta c e (c, i, t, ow) else 0)"
proof -
  from persist keys(1) obtain inserted added where
    tr: "nf_transfers facts' = nf_transfers facts @ added"
    and l2: "list_all2 (\<lambda>e r. \<exists>ts. r = transfer_row c ts e) inserted added"
    and keys': "distinct (map transfer_key (nf_transfers facts'))" and sub: "set inserted \<subseteq> set events"
    and pers: "persistTransfers c blocks events (nf_transfers facts) = Inr (inserted, nf_transfers facts')"
    and app: "applyBalanceUpdatesFromEvents table c blocks (nf_transfers facts') (nf_checkpoints facts)
       (filter (projectable acquired) inserted) (nf_balances facts) = Inr (nf_balances facts')"
    by (rule persistNftFacts_Inr)
  have added: "\<forall>r \<in> set added. tf_chainId r = c \<and> f \<le> tf_blockNumber r \<and> lower_case_row r"
    using l2 sub new by (fastforce simp: in_set_conv_nth list_all2_conv_all_nth)
  have split: "filter (\<lambda>r. tf_chainId r = c \<and> f \<le> tf_blockNumber r) (nf_transfers facts') =
      filter (\<lambda>r. tf_chainId r = c \<and> f \<le> tf_blockNumber r) (nf_transfers facts) @ added"
    "deleteTransfersFromBlock c f (nf_transfers facts') =
      filter (\<lambda>r. \<not> (tf_chainId r = c \<and> f \<le> tf_blockNumber r)) (nf_transfers facts)"
    using tr added by (auto simp: deleteTransfersFromBlock_def filter_empty_conv filter_id_conv)
  have lower: "\<forall>r \<in> set (nf_transfers facts'). lower_case_row r" using tr keys(2) added by auto
  note roll = rollback_balance [OF rollback keys' lower token(2)]
  show "nf_transfers facts'' = filter (\<lambda>r. \<not> (tf_chainId r = c \<and> f \<le> tf_blockNumber r)) (nf_transfers facts)"
    using roll(2) split(2) by simp
  let ?g = "\<lambda>e. if te_kind e = Erc1155 then event_delta c e (c, i, t, ow) else 0"
  have "(\<Sum>r \<leftarrow> added. if tf_kind r = Erc1155 then transfer_delta r (c, i, t, ow) else 0) = (\<Sum>e \<leftarrow> inserted. ?g e)"
    using l2 by (intro list_all2_sum) (auto elim!: list_all2_mono)
  moreover have "(\<Sum>e \<leftarrow> inserted. ?g e) = (\<Sum>e \<leftarrow> filter (projectable acquired) inserted. ?g e)
      + (\<Sum>e \<leftarrow> filter (\<lambda>e. \<not> projectable acquired e) inserted. ?g e)"
    by (induction inserted) auto
  moreover have "balance_of (nf_balances facts') (c, i, t, ow) = balance_of (nf_balances facts) (c, i, t, ow)
      + (\<Sum>e \<leftarrow> filter (projectable acquired) inserted. ?g e)"
    using token(1) sub by (intro applyBalanceUpdates_balance [OF app]) auto
  ultimately show "\<exists>inserted. set inserted \<subseteq> set events \<and>
      persistTransfers c blocks events (nf_transfers facts) = Inr (inserted, nf_transfers facts') \<and>
      balance_of (nf_balances facts'') (c, i, t, ow) = balance_of (nf_balances facts) (c, i, t, ow)
        - taken_back c f (nf_transfers facts) (c, i, t, ow)
        - (\<Sum>e \<leftarrow> filter (\<lambda>e. \<not> projectable acquired e) inserted. ?g e)"
    using roll(1) [of ow] split(1) pers sub by (intro exI [of _ inserted]) (simp add: taken_back_def)
qed

text \<open>
  C12. Rolling back undoes a sync result for ERC1155 tokens.  If the collections of the result are
  anchored below its blocks, so that all its transfers are projected, then persisting the result
  and rolling back to a block at or before its first one leaves the transfers and balances that
  rolling back alone would leave, however many of its events are repeated or already stored: the
  transfers of the chain from that block on are gone, and every balance of the token is the one
  before minus what the ERC1155 transfers stored before from that block on had moved.  With none of
  those stored before, everything is as it was.
\<close>

theorem rollback_restores_erc1155_balances:
  assumes "persistNftFacts port table c blocks acquired events facts = Inr facts'"
    and "distinct (map transfer_key (nf_transfers facts))" and "\<forall>r \<in> set (nf_transfers facts). lower_case_row r"
    and "\<forall>e \<in> set events. f \<le> te_blockNumber e \<and> projectable acquired e"
    and "rollbackNftFacts port table' c f snapshot facts' = Inr facts''"
    and "\<forall>e \<in> set events. te_kind e = Erc721 \<longrightarrow> (te_collectionId e, te_tokenId e) \<noteq> (i, t)"
    and "\<forall>(tok, ow) \<in> set (sn_owners snapshot). (tr_collectionId tok, tr_tokenId tok) \<noteq> (i, t)"
  shows "nf_transfers facts'' = filter (\<lambda>r. \<not> (tf_chainId r = c \<and> f \<le> tf_blockNumber r)) (nf_transfers facts) \<and>
    balance_of (nf_balances facts'') (c, i, t, ow) = balance_of (nf_balances facts) (c, i, t, ow)
      - (\<Sum>r \<leftarrow> filter (\<lambda>r. tf_chainId r = c \<and> f \<le> tf_blockNumber r) (nf_transfers facts).
           if tf_kind r = Erc1155 then transfer_delta r (c, i, t, ow) else 0)"
proof -
  note r = rollback_after_persist [OF assms(1-3) _ assms(5-7)]
  from r(2) assms(4) obtain inserted where "set inserted \<subseteq> set events"
    and bal: "balance_of (nf_balances facts'') (c, i, t, ow) = balance_of (nf_balances facts) (c, i, t, ow)
        - taken_back c f (nf_transfers facts) (c, i, t, ow)
        - (\<Sum>e \<leftarrow> filter (\<lambda>e. \<not> projectable acquired e) inserted.
             if te_kind e = Erc1155 then event_delta c e (c, i, t, ow) else 0)" by blast
  moreover have "filter (\<lambda>e. \<not> projectable acquired e) inserted = []"
    using assms(4) \<open>set inserted \<subseteq> set events\<close> by (auto simp: filter_empty_conv)
  ultimately show ?thesis using r(1) assms(4) by (auto simp: taken_back_def)
qed

text \<open>
  C36. The rollback takes back transfers that were never projected.  Transfers of a collection that has
  no bootstrap anchor yet are stored without touching the balances, but the rollback subtracts every
  ERC1155 transfer from the given block on: a receiver who held nothing is left with a negative
  balance.  Stated for one transfer that is the only one stored: the receiver ends with its amount less
  than before it.
\<close>

theorem rollback_takes_back_unprojected_transfers:
  assumes "persistNftFacts port table c blocks acquired [e] facts = Inr facts'" and "nf_transfers facts = []"
    and "te_kind e = Erc1155" and "\<not> projectable acquired e" and "f \<le> te_blockNumber e"
    and "rollbackNftFacts port table' c f snapshot facts' = Inr facts''"
    and "\<forall>(tok, ow) \<in> set (sn_owners snapshot). (tr_collectionId tok, tr_tokenId tok) \<noteq> (te_collectionId e, te_tokenId e)"
    and "toLowerCase (te_to e) \<noteq> ZERO_ADDRESS" and "toLowerCase (te_from e) \<noteq> toLowerCase (te_to e)"
  shows "balance_of (nf_balances facts'') (c, te_collectionId e, te_tokenId e, toLowerCase (te_to e)) =
    balance_of (nf_balances facts) (c, te_collectionId e, te_tokenId e, toLowerCase (te_to e)) - te_amount e"
proof -
  let ?k = "(c, te_collectionId e, te_tokenId e, toLowerCase (te_to e))"
  obtain inserted where ins: "persistTransfers c blocks [e] (nf_transfers facts) = Inr (inserted, nf_transfers facts')"
    and bal: "balance_of (nf_balances facts'') ?k = balance_of (nf_balances facts) ?k
        - (\<Sum>e \<leftarrow> filter (\<lambda>e. \<not> projectable acquired e) inserted.
             if te_kind e = Erc1155 then event_delta c e ?k else 0)"
    using rollback_after_persist(2) [OF assms(1) _ _ _ assms(6), of "te_collectionId e" "te_tokenId e"
        "toLowerCase (te_to e)"] assms(2,3,5,7) by (auto simp: taken_back_def)
  from ins assms(2) have "inserted = [e]" by (auto simp: bindR_Inr_iff insertTransfer_def)
  with bal assms(3,4,8,9) show ?thesis by (simp add: event_delta_def transfer_delta_def transfer_row_def)
qed


section \<open>The owner of an ERC721 token\<close>

lemma selectLatestTransfer_Some:
  assumes "selectLatestTransfer c i t rows = Some r"
  shows "r \<in> set (token_transfers c i t rows) \<and>
    (\<forall>r' \<in> set (token_transfers c i t rows).
       (tf_blockNumber r', tf_logIndex r') \<le> (tf_blockNumber r, tf_logIndex r))"
proof -
  let ?f = "\<lambda>r. (- tf_blockNumber r, - tf_logIndex r)"
  from assms obtain rs where rs: "sort_key ?f (token_transfers c i t rows) = r # rs"
    by (auto simp: selectLatestTransfer_def split: list.splits)
  have "sorted (map ?f (r # rs))" unfolding rs [symmetric] by simp
  then have "\<forall>r' \<in> set (r # rs). ?f r \<le> ?f r'" by auto
  moreover have "set (r # rs) = set (token_transfers c i t rows)" unfolding rs [symmetric] by simp
  ultimately show ?thesis by (fastforce simp: less_eq_prod_def)
qed

lemma selectLatestTransfer_None: "selectLatestTransfer c i t rows = None \<longleftrightarrow> token_transfers c i t rows = []"
proof -
  let ?xs = "sort_key (\<lambda>r. (- tf_blockNumber r, - tf_logIndex r)) (token_transfers c i t rows)"
  have "selectLatestTransfer c i t rows = None \<longleftrightarrow> ?xs = []"
    by (cases ?xs) (simp_all add: selectLatestTransfer_def)
  also have "\<dots> \<longleftrightarrow> token_transfers c i t rows = []"
    by (metis set_empty set_sort)
  finally show ?thesis .
qed

text \<open>Who owns a token by the tables of transfers and checkpoints.\<close>

definition resolved_state ::
  "CollectionRow list \<Rightarrow> int \<Rightarrow> int \<Rightarrow> string \<Rightarrow> TransferRow list \<Rightarrow> (TokenKey \<times> OwnershipCheckpointRow) list
    \<Rightarrow> string + Erc721OwnershipState"
where
  "resolved_state cols c i t transfers checkpoints =
     resolveErc721Ownership (map_option transfer_state (selectLatestTransfer c i t transfers))
       (map_option checkpoint_state (selectOwnershipCheckpoint cols c i t checkpoints))"

lemma balance_of_replace:
  "balance_of (replaceErc721Ownership c i contract t owner ctx rows) (c', i', t', ow) =
     (if (c', i', t') = (c, i, t) then if owner = Some ow then 1 else 0
      else balance_of rows (c', i', t', ow))"
  by (simp add: balance_of_def map_of_replace)

lemma applyBalanceUpdates_owner:
  assumes "applyBalanceUpdatesFromEvents cols c blocks transfers checkpoints es rows = Inr rows'"
    and "\<forall>e \<in> set es. (te_collectionId e, te_tokenId e) = (i, t) \<longrightarrow> te_kind e = Erc721"
    and "resolved_state cols c i t transfers checkpoints = Inr state"
    and "(\<exists>e \<in> set es. (te_collectionId e, te_tokenId e) = (i, t)) \<or>
         (\<forall>ow. balance_of rows (c, i, t, ow) = (if os_owner state = Some ow then 1 else 0))"
  shows "balance_of rows' (c, i, t, ow) = (if os_owner state = Some ow then 1 else 0)"
  using assms
proof (induction es arbitrary: rows)
  case (Cons e es)
  define goal where "goal rows \<longleftrightarrow>
    (\<forall>ow. balance_of rows (c, i, t, ow) = (if os_owner state = Some ow then 1 else 0))" for rows
  have "\<exists>rows1. applyBalanceUpdatesFromEvents cols c blocks transfers checkpoints es rows1 = Inr rows' \<and>
      ((te_collectionId e, te_tokenId e) = (i, t) \<or> goal rows \<longrightarrow> goal rows1)"
  proof (cases "te_kind e")
    case Erc1155
    with Cons.prems(2) have "(te_collectionId e, te_tokenId e) \<noteq> (i, t)" by auto
    with Erc1155 Cons.prems(1) show ?thesis by (auto simp: goal_def bindR_Inr_iff balance_of_erc1155)
  next
    case Erc721
    with Cons.prems(1) obtain st where
      "resolved_state cols c (te_collectionId e) (te_tokenId e) transfers checkpoints = Inr st"
      "applyBalanceUpdatesFromEvents cols c blocks transfers checkpoints es
         (replaceErc721Ownership c (te_collectionId e) (toLowerCase (te_contract e)) (te_tokenId e)
            (os_owner st) (os_context st) rows) = Inr rows'"
      by (auto simp: bindR_Inr_iff resolved_state_def)
    with Cons.prems(3) show ?thesis
      by - (intro exI conjI, assumption, auto simp: goal_def balance_of_replace)
  qed
  then obtain rows1 where "applyBalanceUpdatesFromEvents cols c blocks transfers checkpoints es rows1 = Inr rows'"
    "(te_collectionId e, te_tokenId e) = (i, t) \<or> goal rows \<longrightarrow> goal rows1" by blast
  moreover have "(\<exists>x \<in> set (e # es). (te_collectionId x, te_tokenId x) = (i, t)) \<or> goal rows"
    using Cons.prems(4) unfolding goal_def .
  ultimately show ?case
    using Cons.IH [of rows1, folded goal_def] Cons.prems(2,3) by (metis list.set_intros(2) set_ConsD)
qed simp

text \<open>
  C30. The order of delivery does not decide who owns an ERC721 token.  Take a transfer that a sync
  result newly stored, in a collection whose bootstrap anchor is set and lies below the transfer's
  block (in other collections transfers are stored without touching the balances).  After the
  result has been persisted, an owner holds one unit of the token exactly if the ownership
  checkpoint is not older than the token's latest stored transfer and names the owner, or else that
  latest transfer, by block and log position among all stored ones, went to the owner; all others
  hold nothing of it.
\<close>

theorem erc721_owner_is_latest_by_position:
  assumes "persistNftFacts port table c blocks acquired events facts = Inr facts'"
    and "distinct (map transfer_key (nf_transfers facts))"
    and "persistTransfers c blocks events (nf_transfers facts) = Inr (inserted, transfers)"
    and "e \<in> set inserted" and "projectable acquired e"
    and "\<forall>e' \<in> set events. (te_collectionId e', te_tokenId e') = (te_collectionId e, te_tokenId e)
           \<longrightarrow> te_kind e' = Erc721"
  shows "\<exists>r \<in> set (token_transfers c (te_collectionId e) (te_tokenId e) (nf_transfers facts')).
    (\<forall>r' \<in> set (token_transfers c (te_collectionId e) (te_tokenId e) (nf_transfers facts')).
       (tf_blockNumber r', tf_logIndex r') \<le> (tf_blockNumber r, tf_logIndex r)) \<and>
    (\<forall>ow. balance_of (nf_balances facts') (c, te_collectionId e, te_tokenId e, ow) =
       (if (case selectOwnershipCheckpoint table c (te_collectionId e) (te_tokenId e) (nf_checkpoints facts) of
              Some cp \<Rightarrow> if tf_blockNumber r \<le> oc_blockNumber cp then oc_owner cp = Some ow
                         else tf_to r \<noteq> ZERO_ADDRESS \<and> tf_to r = ow
            | None \<Rightarrow> tf_to r \<noteq> ZERO_ADDRESS \<and> tf_to r = ow)
        then 1 else 0))"
proof -
  let ?i = "te_collectionId e" and ?t = "te_tokenId e"
  from assms(1,2) obtain ins new where
    tr: "nf_transfers facts' = nf_transfers facts @ new"
    and l2: "list_all2 (\<lambda>e r. \<exists>ts. r = transfer_row c ts e) ins new"
    and sub: "set ins \<subseteq> set events"
    and pers: "persistTransfers c blocks events (nf_transfers facts) = Inr (ins, nf_transfers facts')"
    and app: "applyBalanceUpdatesFromEvents table c blocks (nf_transfers facts') (nf_checkpoints facts)
       (filter (projectable acquired) ins) (nf_balances facts) = Inr (nf_balances facts')"
    by (rule persistNftFacts_Inr)
  from pers assms(3,4) have e: "e \<in> set ins" by simp
  with l2 obtain ts where "transfer_row c ts e \<in> set new"
    by (fastforce simp: in_set_conv_nth list_all2_conv_all_nth)
  then have "transfer_row c ts e \<in> set (token_transfers c ?i ?t (nf_transfers facts'))"
    using tr by (simp add: token_transfers_def)
  then have "token_transfers c ?i ?t (nf_transfers facts') \<noteq> []" by auto
  then obtain r where latest: "selectLatestTransfer c ?i ?t (nf_transfers facts') = Some r"
    using selectLatestTransfer_None by (metis not_None_eq)
  let ?cp = "selectOwnershipCheckpoint table c ?i ?t (nf_checkpoints facts)"
  obtain state where state: "resolved_state table c ?i ?t (nf_transfers facts') (nf_checkpoints facts) = Inr state"
    and owner: "os_owner state = Some ow \<longleftrightarrow>
       (case ?cp of Some cp \<Rightarrow> if tf_blockNumber r \<le> oc_blockNumber cp then oc_owner cp = Some ow
                                 else tf_to r \<noteq> ZERO_ADDRESS \<and> tf_to r = ow
        | None \<Rightarrow> tf_to r \<noteq> ZERO_ADDRESS \<and> tf_to r = ow)" for ow
  proof (cases ?cp)
    case None
    then show ?thesis using that [of "transfer_state r"]
      by (auto simp: resolved_state_def resolveErc721Ownership_def latest transfer_state_def)
  next
    case (Some cp)
    then show ?thesis
      using that [of "if tf_blockNumber r \<le> oc_blockNumber cp then checkpoint_state cp else transfer_state r"]
      by (auto simp: resolved_state_def resolveErc721Ownership_def latest transfer_state_def
        checkpoint_state_def transfer_context_def)
  qed
  have "balance_of (nf_balances facts') (c, ?i, ?t, ow) = (if os_owner state = Some ow then 1 else 0)" for ow
    using e assms(5,6) sub by (intro applyBalanceUpdates_owner [OF app _ state]) auto
  with selectLatestTransfer_Some [OF latest] owner show ?thesis by (intro bexI [of _ r]) auto
qed

end
