(* ===== verification/Nft_Samples.thy ===== *)
theory Nft_Samples
  imports Nft_Results
begin

text \<open>
  Concrete sync results: transfers of an ERC1155 and of an ERC721 collection in blocks 10 and 11, anchored
  at block 5 or not at all, and the rollback of the chain to block 9.
\<close>

definition nft_port :: "unit RestPort" where
  "nft_port = \<lparr> rp_persist = (\<lambda>_ _ g. Inr g), rp_resetOrder = (\<lambda>_ _ g. g),
                rp_invalidateRetirements = (\<lambda>_ _ g. g), rp_deleteFromBlock = (\<lambda>_ _ g. g) \<rparr>"

definition nft_blocks :: "SyncBlockHeader list" where
  "nft_blocks =
     [\<lparr> hdr_number = 10, hdr_hash = ''h10'', hdr_parentHash = ''h9'', hdr_timestamp = 100 \<rparr>,
      \<lparr> hdr_number = 11, hdr_hash = ''h11'', hdr_parentHash = ''h10'', hdr_timestamp = 112 \<rparr>]"

definition nft_collection :: "int \<Rightarrow> CollectionStandard \<Rightarrow> int option \<Rightarrow> CollectionRow" where
  "nft_collection i standard anchor =
     \<lparr> cr_chainId = 1, cr_collectionId = i, cr_address = ''0xc'', cr_standard = standard, cr_status = Live,
       cr_anchor = anchor \<rparr>"

definition nft_table :: "int option \<Rightarrow> CollectionRow list" where
  "nft_table anchor = [nft_collection 7 Erc1155 anchor, nft_collection 8 Erc721 anchor]"

definition nft_event :: "int \<Rightarrow> CollectionStandard \<Rightarrow> string \<Rightarrow> string \<Rightarrow> int \<Rightarrow> int \<Rightarrow> int \<Rightarrow> NftTransferEvent" where
  "nft_event i kind f t amount block position =
     \<lparr> te_collectionId = i, te_contract = ''0xC'', te_from = f, te_to = t, te_tokenId = ''1'', te_amount = amount,
       te_blockNumber = block, te_blockHash = (if block = 10 then ''h10'' else ''h11''),
       te_txHash = (if block = 10 then ''tx10'' else ''tx11''), te_logIndex = position, te_kind = kind \<rparr>"

text \<open>The events of block 11 are delivered before those of block 10, and one of them twice.\<close>

definition nft_events :: "NftTransferEvent list" where
  "nft_events =
     [nft_event 8 Erc721 ''0xA'' ''0xB'' 1 11 1, nft_event 7 Erc1155 ''0xA'' ''0xB'' 2 11 0,
      nft_event 7 Erc1155 ZERO_ADDRESS ''0xA'' 3 10 1, nft_event 8 Erc721 ZERO_ADDRESS ''0xA'' 1 10 0,
      nft_event 7 Erc1155 ''0xA'' ''0xB'' 2 11 0]"

definition nft_empty :: "unit NftFacts" where
  "nft_empty = \<lparr> nf_transfers = [], nf_balances = [], nf_checkpoints = [], nf_rest = () \<rparr>"

definition nft_persisted :: "int option \<Rightarrow> NftTransferEvent list \<Rightarrow> unit NftFacts" where
  "nft_persisted anchor events =
     projr (persistNftFacts nft_port (nft_table anchor) 1 nft_blocks (nft_table anchor) events nft_empty)"

definition nft_snapshot :: Erc721RollbackSnapshot where
  "nft_snapshot =
     \<lparr> sn_block = \<lparr> sb_blockNumber = 9, sb_blockHash = ''h9'', sb_parentHash = ''h8'', sb_blockTimestamp = 88 \<rparr>,
       sn_owners = [(\<lparr> tr_collectionId = 8, tr_contract = ''0xc'', tr_tokenId = ''1'' \<rparr>, None)] \<rparr>"

definition nft_rolled_back :: "int option \<Rightarrow> NftTransferEvent list \<Rightarrow> unit NftFacts" where
  "nft_rolled_back anchor events =
     projr (rollbackNftFacts nft_port (nft_table anchor) 1 10 nft_snapshot (nft_persisted anchor events))"

lemma nft_persisted_Inr:
  "persistNftFacts nft_port (nft_table (Some 5)) 1 nft_blocks (nft_table (Some 5)) nft_events nft_empty =
     Inr (nft_persisted (Some 5) nft_events)"
  by code_simp

lemma nft_rolled_back_Inr:
  "rollbackNftFacts nft_port (nft_table (Some 5)) 1 10 nft_snapshot (nft_persisted (Some 5) nft_events) =
     Inr (nft_rolled_back (Some 5) nft_events)"
  by code_simp

theorem paged_undo_visits_every_transfer_witness:
  "undoPages nft_port (nf_transfers (nft_persisted (Some 5) nft_events)) 1 11 ROLLBACK_TRANSFER_PAGE_SIZE None nft_empty =
    fold (undoTransfer nft_port 1)
      (sort_key page_key (filter (\<lambda>r. tf_chainId r = 1 \<and> 11 \<le> tf_blockNumber r)
         (nf_transfers (nft_persisted (Some 5) nft_events)))) nft_empty"
proof -
  have "distinct (map transfer_key (nf_transfers (nft_persisted (Some 5) nft_events)))" by code_simp
  then show ?thesis by (rule paged_undo_visits_every_transfer)
qed

theorem rollback_restores_erc1155_balances_witness:
  "nf_transfers (nft_rolled_back (Some 5) nft_events) = [] \<and>
   balance_of (nf_balances (nft_persisted (Some 5) nft_events)) (1, 7, ''1'', ''0xb'') = 2 \<and>
   balance_of (nf_balances (nft_rolled_back (Some 5) nft_events)) (1, 7, ''1'', ''0xb'') =
     balance_of (nf_balances nft_empty) (1, 7, ''1'', ''0xb'')"
proof -
  have "distinct (map transfer_key (nf_transfers nft_empty))" "\<forall>r \<in> set (nf_transfers nft_empty). lower_case_row r"
    "nf_transfers nft_empty = []"
    by (simp_all add: nft_empty_def)
  moreover have "\<forall>e \<in> set nft_events. 10 \<le> te_blockNumber e \<and> projectable (nft_table (Some 5)) e"
    "\<forall>e \<in> set nft_events. te_kind e = Erc721 \<longrightarrow> (te_collectionId e, te_tokenId e) \<noteq> (7, ''1'')"
    "\<forall>(tok, ow) \<in> set (sn_owners nft_snapshot). (tr_collectionId tok, tr_tokenId tok) \<noteq> (7, ''1'')"
    "balance_of (nf_balances (nft_persisted (Some 5) nft_events)) (1, 7, ''1'', ''0xb'') = 2"
    by code_simp+
  ultimately show ?thesis
    using rollback_restores_erc1155_balances [OF nft_persisted_Inr _ _ _ nft_rolled_back_Inr, of 7 "''1''" "''0xb''"]
    by simp
qed

definition nft_early_event :: NftTransferEvent where
  "nft_early_event = nft_event 7 Erc1155 ZERO_ADDRESS ''0xA'' 3 10 1"

theorem rollback_takes_back_unprojected_transfers_witness:
  "balance_of (nf_balances (nft_persisted None [nft_early_event])) (1, 7, ''1'', ''0xa'') = 0 \<and>
   balance_of (nf_balances (nft_rolled_back None [nft_early_event])) (1, 7, ''1'', ''0xa'') = - 3"
proof -
  have p: "persistNftFacts nft_port (nft_table None) 1 nft_blocks (nft_table None) [nft_early_event] nft_empty =
      Inr (nft_persisted None [nft_early_event])"
    and r: "rollbackNftFacts nft_port (nft_table None) 1 10 nft_snapshot (nft_persisted None [nft_early_event]) =
      Inr (nft_rolled_back None [nft_early_event])"
    by code_simp+
  have "te_kind nft_early_event = Erc1155" "\<not> projectable (nft_table None) nft_early_event"
    "10 \<le> te_blockNumber nft_early_event" "nf_transfers nft_empty = []"
    "\<forall>(tok, ow) \<in> set (sn_owners nft_snapshot).
       (tr_collectionId tok, tr_tokenId tok) \<noteq> (te_collectionId nft_early_event, te_tokenId nft_early_event)"
    "toLowerCase (te_to nft_early_event) \<noteq> ZERO_ADDRESS"
    "toLowerCase (te_from nft_early_event) \<noteq> toLowerCase (te_to nft_early_event)"
    by code_simp+
  moreover have "toLowerCase (te_to nft_early_event) = ''0xa''" "te_collectionId nft_early_event = 7"
    "te_tokenId nft_early_event = ''1''" "te_amount nft_early_event = 3"
    "balance_of (nf_balances nft_empty) (1, 7, ''1'', ''0xa'') = 0"
    "balance_of (nf_balances (nft_persisted None [nft_early_event])) (1, 7, ''1'', ''0xa'') = 0"
    by code_simp+
  ultimately show ?thesis
    using rollback_takes_back_unprojected_transfers [OF p _ _ _ _ r] by simp
qed

definition nft_moved :: NftTransferEvent where
  "nft_moved = nft_event 8 Erc721 ''0xA'' ''0xB'' 1 11 1"

theorem erc721_owner_is_latest_by_position_witness:
  "balance_of (nf_balances (nft_persisted (Some 5) nft_events)) (1, 8, ''1'', ''0xb'') = 1 \<and>
   balance_of (nf_balances (nft_persisted (Some 5) nft_events)) (1, 8, ''1'', ''0xa'') = 0"
proof -
  let ?facts = "nft_persisted (Some 5) nft_events"
  define inserted where "inserted = fst (projr (persistTransfers 1 nft_blocks nft_events (nf_transfers nft_empty)))"
  have pers: "persistTransfers 1 nft_blocks nft_events (nf_transfers nft_empty) = Inr (inserted, nf_transfers ?facts)"
    and mem: "nft_moved \<in> set inserted" and keys: "distinct (map transfer_key (nf_transfers nft_empty))"
    and proj: "projectable (nft_table (Some 5)) nft_moved"
    and kinds: "\<forall>e' \<in> set nft_events.
      (te_collectionId e', te_tokenId e') = (te_collectionId nft_moved, te_tokenId nft_moved) \<longrightarrow> te_kind e' = Erc721"
    unfolding inserted_def by code_simp+
  have vals: "te_collectionId nft_moved = 8" "te_tokenId nft_moved = ''1''" by code_simp+
  have none: "selectOwnershipCheckpoint (nft_table (Some 5)) 1 8 ''1'' (nf_checkpoints nft_empty) = None"
    by code_simp
  have top: "\<forall>r \<in> set (token_transfers 1 8 ''1'' (nf_transfers ?facts)).
      (\<forall>r' \<in> set (token_transfers 1 8 ''1'' (nf_transfers ?facts)).
         (tf_blockNumber r', tf_logIndex r') \<le> (tf_blockNumber r, tf_logIndex r)) \<longrightarrow> tf_to r = ''0xb''"
    by code_simp
  have zero: "ZERO_ADDRESS \<noteq> ''0xb''" by code_simp
  from erc721_owner_is_latest_by_position [OF nft_persisted_Inr keys pers mem proj kinds, unfolded vals none]
  show ?thesis using top zero by auto
qed

end
