(* ===== verification/Sync_Gap_Search.thy ===== *)
theory Sync_Gap_Search
  imports Sync_Gaps
begin

text \<open>
  The two searches for missing blocks return the same range: the newest missing block of the window with
  the missing blocks before it, at most as many as a batch takes.
\<close>

section \<open>The newest gap\<close>

definition covered :: "Coverage \<Rightarrow> int \<Rightarrow> int \<Rightarrow> int set" where
  "covered coverage chainId collectionId = {b. (chainId, collectionId, b) \<in> set coverage}"

definition newest_gap :: "int set \<Rightarrow> int \<Rightarrow> int \<Rightarrow> int \<Rightarrow> SyncGapRange \<Rightarrow> bool" where
  "newest_gap C lower upper batchSize g \<longleftrightarrow>
     lower \<le> gr_fromBlock g \<and> gr_fromBlock g \<le> gr_toBlock g \<and> gr_toBlock g \<le> upper \<and>
     {gr_toBlock g <.. upper} \<subseteq> C \<and> {gr_fromBlock g .. gr_toBlock g} \<inter> C = {} \<and>
     gr_toBlock g - gr_fromBlock g < batchSize \<and>
     (gr_fromBlock g = max lower (gr_toBlock g - batchSize + 1) \<or> gr_fromBlock g - 1 \<in> C)"

lemma newest_gap_top_unique:
  assumes "newest_gap C lower upper n g" "newest_gap C lower upper n h"
  shows "gr_toBlock g \<le> gr_toBlock h"
proof (rule ccontr)
  assume "\<not> gr_toBlock g \<le> gr_toBlock h"
  with assms have "gr_toBlock g \<in> C" "gr_toBlock g \<in> {gr_fromBlock g .. gr_toBlock g}"
    by (auto simp: newest_gap_def)
  moreover from assms(1) have "{gr_fromBlock g .. gr_toBlock g} \<inter> C = {}" by (simp add: newest_gap_def)
  ultimately show False by blast
qed

lemma newest_gap_bottom_unique:
  assumes "newest_gap C lower upper n g" "newest_gap C lower upper n h" "gr_toBlock g = gr_toBlock h"
  shows "gr_fromBlock h \<le> gr_fromBlock g"
proof (rule ccontr)
  assume less: "\<not> gr_fromBlock h \<le> gr_fromBlock g"
  moreover from less assms have "gr_fromBlock h - 1 \<in> {gr_fromBlock g .. gr_toBlock g}"
    by (auto simp: newest_gap_def)
  moreover from less assms have "gr_fromBlock h - 1 \<in> C" by (auto simp: newest_gap_def)
  moreover from assms(1) have "{gr_fromBlock g .. gr_toBlock g} \<inter> C = {}" by (simp add: newest_gap_def)
  ultimately show False by blast
qed

lemma newest_gap_unique:
  assumes "newest_gap C lower upper n g" "newest_gap C lower upper n h"
  shows "g = h"
proof -
  have top: "gr_toBlock g = gr_toBlock h"
    using newest_gap_top_unique [OF assms] newest_gap_top_unique [OF assms(2,1)] by simp
  moreover have "gr_fromBlock g = gr_fromBlock h"
    using newest_gap_bottom_unique [OF assms top] newest_gap_bottom_unique [OF assms(2,1) top [symmetric]] by simp
  ultimately show ?thesis by (cases g, cases h) simp
qed

section \<open>Coverage as a set\<close>

lemma set_covered_blocks:
  "set (covered_blocks coverage c i lower upper) = covered coverage c i \<inter> {lower .. upper}"
  by (auto simp: covered_blocks_def covered_def)

lemma distinct_covered_blocks: "distinct coverage \<Longrightarrow> distinct (covered_blocks coverage c i lower upper)"
  by (induction coverage) (auto simp: covered_blocks_def)

lemma countCoverage_card:
  "distinct coverage \<Longrightarrow>
     countCoverage coverage c i lower upper = int (card (covered coverage c i \<inter> {lower .. upper}))"
  by (metis countCoverage_def distinct_card distinct_covered_blocks set_covered_blocks)

lemma card_window_full:
  fixes lower upper :: int
  assumes "lower \<le> upper + 1"
  shows "int (card (C \<inter> {lower .. upper})) = upper - lower + 1 \<longleftrightarrow> {lower .. upper} \<subseteq> C"
proof
  assume "int (card (C \<inter> {lower .. upper})) = upper - lower + 1"
  with assms have "card (C \<inter> {lower .. upper}) = card {lower .. upper}" by simp
  then have "C \<inter> {lower .. upper} = {lower .. upper}" by (intro card_subset_eq) auto
  then show "{lower .. upper} \<subseteq> C" by blast
next
  assume "{lower .. upper} \<subseteq> C"
  then have "C \<inter> {lower .. upper} = {lower .. upper}" by blast
  with assms show "int (card (C \<inter> {lower .. upper})) = upper - lower + 1" by simp
qed

lemma card_window_le:
  fixes lower upper :: int
  assumes "lower \<le> upper + 1"
  shows "int (card (C \<inter> {lower .. upper})) \<le> upper - lower + 1"
  using card_mono [of "{lower .. upper}" "C \<inter> {lower .. upper}"] assms by simp

section \<open>The linear search\<close>

lemma findGapLoop_spec:
  assumes "sorted_wrt (>) bs" "set bs \<subseteq> {lower .. cursor}" "1 \<le> n"
  shows "case findGapLoop lower n cursor bs of
      None \<Rightarrow> {lower .. cursor} \<subseteq> set bs
    | Some g \<Rightarrow> newest_gap (set bs) lower cursor n g"
  using assms
proof (induction bs arbitrary: cursor)
  case (Cons b bs)
  show ?case
  proof (cases "b < cursor")
    case True
    with Cons.prems show ?thesis by (fastforce simp: newest_gap_def)
  next
    case False
    with Cons.prems have b: "b = cursor" by simp
    with Cons.prems have "set bs \<subseteq> {lower .. b - 1}" by fastforce
    then have "case findGapLoop lower n (b - 1) bs of
        None \<Rightarrow> {lower .. b - 1} \<subseteq> set bs
      | Some g \<Rightarrow> newest_gap (set bs) lower (b - 1) n g"
      using Cons.IH [of "b - 1"] Cons.prems by simp
    with b show ?thesis by (force simp: newest_gap_def split: option.splits)
  qed
qed (auto simp: newest_gap_def)

lemma selectCoverage_desc:
  "distinct coverage \<Longrightarrow> sorted_wrt (>) (selectCoverage coverage c i lower upper)"
  by (simp add: selectCoverage_def sorted_wrt_rev strict_sorted_iff distinct_covered_blocks)

lemma set_selectCoverage:
  "set (selectCoverage coverage c i lower upper) = covered coverage c i \<inter> {lower .. upper}"
  by (simp add: selectCoverage_def set_covered_blocks)

lemma findGap_spec:
  assumes "distinct coverage" "1 \<le> n"
  shows "case findGap coverage c i w n of
      None \<Rightarrow> {gr_fromBlock w .. gr_toBlock w} \<subseteq> covered coverage c i
    | Some g \<Rightarrow> newest_gap (covered coverage c i) (gr_fromBlock w) (gr_toBlock w) n g"
proof -
  have "case findGap coverage c i w n of
      None \<Rightarrow> {gr_fromBlock w .. gr_toBlock w} \<subseteq> covered coverage c i \<inter> {gr_fromBlock w .. gr_toBlock w}
    | Some g \<Rightarrow> newest_gap (covered coverage c i \<inter> {gr_fromBlock w .. gr_toBlock w})
                 (gr_fromBlock w) (gr_toBlock w) n g"
    using findGapLoop_spec [OF selectCoverage_desc [OF assms(1)] _ assms(2),
        of c i "gr_fromBlock w" "gr_toBlock w" "gr_fromBlock w" "gr_toBlock w", unfolded set_selectCoverage]
    unfolding findGap_def by simp
  then show ?thesis
    by (auto simp: newest_gap_def split: option.splits)
qed

section \<open>The binary search\<close>

lemma searchNewest_spec:
  assumes "\<And>l u. cnt l u = int (card (C \<inter> {l .. u}))" and "\<not> {lower .. upper} \<subseteq> C"
  shows "let t = searchNewest cnt lower upper in
    lower \<le> t \<and> t \<le> upper \<and> t \<notin> C \<and> {t <.. upper} \<subseteq> C"
  using assms
proof (induction cnt lower upper rule: searchNewest.induct)
  case (1 cnt lower upper)
  show ?case
  proof (cases "lower < upper")
    case True
    let ?m = "(lower + upper + 1) div 2"
    have m: "lower < ?m" "?m \<le> upper" using True by auto
    have full: "\<not> cnt ?m upper < upper - ?m + 1 \<longleftrightarrow> {?m .. upper} \<subseteq> C"
      using card_window_full [of ?m upper C] card_window_le [of ?m upper C] m by (auto simp: 1(3))
    show ?thesis
    proof (cases "cnt ?m upper < upper - ?m + 1")
      case less: True
      then have "let t = searchNewest cnt ?m upper in ?m \<le> t \<and> t \<le> upper \<and> t \<notin> C \<and> {t <.. upper} \<subseteq> C"
        using 1(1) [OF True refl less 1(3)] full by blast
      with True less m show ?thesis by (subst searchNewest.simps) (auto simp: Let_def)
    next
      case False
      with full have upper: "{?m .. upper} \<subseteq> C" by blast
      with 1(4) have "\<not> {lower .. ?m - 1} \<subseteq> C"
        by (auto simp: subset_iff not_le) (metis not_le zle_diff1_eq)
      then have "let t = searchNewest cnt lower (?m - 1) in
          lower \<le> t \<and> t \<le> ?m - 1 \<and> t \<notin> C \<and> {t <.. ?m - 1} \<subseteq> C"
        using 1(2) [OF True refl False 1(3)] by blast
      moreover have "{t <.. upper} \<subseteq> {t <.. ?m - 1} \<union> {?m .. upper}" for t by auto
      ultimately show ?thesis using True False m upper
        by (subst searchNewest.simps) (simp add: Let_def, blast)
    qed
  next
    case False
    moreover from 1(4) obtain x where x: "lower \<le> x" "x \<le> upper" "x \<notin> C"
      by (meson atLeastAtMost_iff subsetI)
    ultimately have "lower = upper" "x = upper" by auto
    with x have "lower = upper" "upper \<notin> C" by auto
    with False show ?thesis by (subst searchNewest.simps) (simp add: Let_def)
  qed
qed

lemma findNewestGap_spec:
  assumes "distinct coverage" "1 \<le> n"
  shows "case findNewestGap coverage c i w n of
      None \<Rightarrow> {gr_fromBlock w .. gr_toBlock w} \<subseteq> covered coverage c i
    | Some g \<Rightarrow> newest_gap (covered coverage c i) (gr_fromBlock w) (gr_toBlock w) n g"
proof -
  let ?C = "covered coverage c i" and ?l = "gr_fromBlock w" and ?u = "gr_toBlock w"
  let ?cnt = "countCoverage coverage c i"
  note card = countCoverage_card [OF assms(1)]
  show ?thesis
  proof (cases "?l \<le> ?u \<and> \<not> {?l .. ?u} \<subseteq> ?C")
    case True
    define t where "t = (if ?cnt ?l ?u > 0 then searchNewest ?cnt ?l ?u else ?u)"
    have t: "?l \<le> t \<and> t \<le> ?u \<and> t \<notin> ?C \<and> {t <.. ?u} \<subseteq> ?C"
    proof (cases "?cnt ?l ?u > 0")
      case False
      then have "?C \<inter> {?l .. ?u} = {}" by (simp add: card card_eq_0_iff)
      with False True show ?thesis by (auto simp: t_def)
    qed (use searchNewest_spec [OF card] True in \<open>simp add: t_def Let_def\<close>)
    have "?cnt ?l ?u \<noteq> ?u - ?l + 1" using card_window_full [of ?l ?u ?C] True by (simp add: card)
    then have eq: "findNewestGap coverage c i w n =
        findGap coverage c i \<lparr> gr_fromBlock = max ?l (t - n + 1), gr_toBlock = t \<rparr> n"
      by (simp add: findNewestGap_def Let_def t_def)
    have "t \<in> {max ?l (t - n + 1) .. t}" using t assms(2) by simp
    with t have "\<not> {max ?l (t - n + 1) .. t} \<subseteq> ?C" by blast
    with findGap_spec [OF assms, where c = c and i = i and w = "\<lparr> gr_fromBlock = max ?l (t - n + 1), gr_toBlock = t \<rparr>"]
    obtain g where g: "findNewestGap coverage c i w n = Some g"
        "newest_gap ?C (max ?l (t - n + 1)) t n g"
      unfolding eq by (auto split: option.splits)
    from g(2) have "{gr_toBlock g <.. t} \<subseteq> ?C" "gr_toBlock g \<le> t" by (simp_all add: newest_gap_def)
    with t have top: "gr_toBlock g = t" by (metis greaterThanAtMost_iff order_le_less order_refl subsetD)
    with g(2) t have "newest_gap ?C ?l ?u n g" unfolding newest_gap_def top by auto
    with g(1) show ?thesis by simp
  next
    case False
    have "findNewestGap coverage c i w n = None"
    proof (cases "?l \<le> ?u + 1")
      case True
      with False have "{?l .. ?u} \<subseteq> ?C" by (cases "?l \<le> ?u") auto
      with card_window_full [OF True] show ?thesis by (simp add: findNewestGap_def Let_def card)
    next
      case empty: False
      then have "covered_blocks coverage c i ?l ?u = []" for coverage
        using set_covered_blocks [of coverage c i ?l ?u] by auto
      moreover have "covered_blocks coverage c i (max ?l k) ?u = []" for k
        using set_covered_blocks [of coverage c i "max ?l k" ?u] empty by auto
      ultimately show ?thesis using empty
        by (simp add: findNewestGap_def Let_def countCoverage_def findGap_def selectCoverage_def)
    qed
    with False show ?thesis by (cases "?l \<le> ?u") auto
  qed
qed

text \<open>
  C27. The binary search over counts of covered blocks and the linear search over the covered blocks agree on
  every window: both return nothing exactly if the whole window is covered, and otherwise the newest missing
  block with the missing blocks right before it, as many as a batch takes.
\<close>

theorem newest_gap_search_is_exact:
  assumes "distinct coverage" and "1 \<le> batchSize"
  shows "findNewestGap coverage chainId collectionId window batchSize =
      findGap coverage chainId collectionId window batchSize \<and>
    (findNewestGap coverage chainId collectionId window batchSize = None \<longleftrightarrow>
      {gr_fromBlock window .. gr_toBlock window} \<subseteq> covered coverage chainId collectionId) \<and>
    (\<forall>g. findNewestGap coverage chainId collectionId window batchSize = Some g \<longrightarrow>
      newest_gap (covered coverage chainId collectionId) (gr_fromBlock window) (gr_toBlock window) batchSize g)"
proof -
  let ?C = "covered coverage chainId collectionId"
  have none: "\<not> newest_gap ?C l u n g" if "{l .. u} \<subseteq> ?C" for l u n g
    using that by (fastforce simp: newest_gap_def)
  show ?thesis
    using findNewestGap_spec [OF assms, where c = chainId and i = collectionId and w = window]
      findGap_spec [OF assms, where c = chainId and i = collectionId and w = window] none newest_gap_unique
    by (auto split: option.splits)
qed

end
