(* ===== verification/Sync_Gap_Invariant.thy ===== *)
theory Sync_Gap_Invariant
  imports Sync_Gap_Search Sync_Range_Commit
begin

text \<open>
  The scheduler loses no missing block: whatever it has checked stays accounted for, that is covered, in the
  retained repair of the collection or still ahead of its backward search.
\<close>

section \<open>Progress that accounts for the missing blocks\<close>

text \<open>The checks of the table, and that the search continues right below a retained repair.\<close>

definition cursor_below :: "int \<Rightarrow> int \<Rightarrow> int option" where
  "cursor_below anchor b = (if b - 1 < anchor then None else Some (b - 1))"

definition progress_wf :: "SyncGapProgress \<Rightarrow> bool" where
  "progress_wf p \<longleftrightarrow>
     1 \<le> gp_anchorBlock p \<and> (\<forall>c. gp_cursorBlock p = Some c \<longrightarrow> gp_anchorBlock p \<le> c) \<and>
     (\<forall>q. gp_pending p = Some q \<longrightarrow> gp_anchorBlock p \<le> gr_fromBlock q \<and> gr_fromBlock q \<le> gr_toBlock q \<and>
        gp_cursorBlock p = cursor_below (gp_anchorBlock p) (gr_fromBlock q))"

definition accounted :: "int set \<Rightarrow> SyncGapProgress \<Rightarrow> int \<Rightarrow> bool" where
  "accounted C p B \<longleftrightarrow>
     (\<forall>b. gp_anchorBlock p \<le> b \<and> b \<le> B \<and> b \<notin> C \<longrightarrow>
        (\<exists>q. gp_pending p = Some q \<and> gr_fromBlock q \<le> b \<and> b \<le> gr_toBlock q) \<or>
        (\<exists>c. gp_cursorBlock p = Some c \<and> b \<le> c))"

lemma accounted_mono: "accounted C p B \<Longrightarrow> C \<subseteq> C' \<Longrightarrow> B' \<le> B \<Longrightarrow> accounted C' p B'"
  by (force simp: accounted_def)

lemma accounted_min: "accounted C p U \<Longrightarrow> accounted C p (min L U)"
  by (simp add: accounted_def)

lemma accounted_finished:
  "accounted C p B \<Longrightarrow> gp_pending p = None \<Longrightarrow> gp_cursorBlock p = None \<Longrightarrow> {gp_anchorBlock p .. B} \<subseteq> C"
  by (auto simp: accounted_def)

lemma progressForGap_simps [simp]:
  "gp_anchorBlock (progressForGap chain uuid now i anchor gap t s) = anchor"
  "gp_cursorBlock (progressForGap chain uuid now i anchor gap t s) =
     cursor_below anchor (case gap of None \<Rightarrow> s | Some g \<Rightarrow> gr_fromBlock g)"
  "gp_pending (progressForGap chain uuid now i anchor gap t s) =
     map_option (\<lambda>g. \<lparr> gr_fromBlock = gr_fromBlock g, gr_toBlock = gr_toBlock g,
       pr_repairId = gapRepairId chain i uuid, pr_retryAt = now \<rparr>) gap"
  by (simp_all add: progressForGap_def Let_def cursor_below_def)

lemma cursor_below_Some: "cursor_below anchor b = Some c \<longleftrightarrow> anchor < b \<and> c = b - 1"
  by (auto simp: cursor_below_def)

text \<open>
  The contract of a search for gaps.  Both searches of the store meet it, so what the scheduler makes of
  their results is proved once.
\<close>

locale gap_search =
  fixes search :: "Coverage \<Rightarrow> int \<Rightarrow> int \<Rightarrow> SyncGapRange \<Rightarrow> int \<Rightarrow> SyncGapRange option"
  assumes search_spec: "distinct coverage \<Longrightarrow> 1 \<le> n \<Longrightarrow>
    case search coverage c i w n of
      None \<Rightarrow> {gr_fromBlock w .. gr_toBlock w} \<subseteq> covered coverage c i
    | Some g \<Rightarrow> newest_gap (covered coverage c i) (gr_fromBlock w) (gr_toBlock w) n g"
begin

lemma search_None:
  "distinct coverage \<Longrightarrow> 1 \<le> n \<Longrightarrow> search coverage c i w n = None \<Longrightarrow>
     {gr_fromBlock w .. gr_toBlock w} \<subseteq> covered coverage c i"
  using search_spec [where coverage = coverage and n = n and c = c and i = i and w = w] by simp

lemma search_Some:
  "distinct coverage \<Longrightarrow> 1 \<le> n \<Longrightarrow> search coverage c i w n = Some g \<Longrightarrow>
     newest_gap (covered coverage c i) (gr_fromBlock w) (gr_toBlock w) n g"
  using search_spec [where coverage = coverage and n = n and c = c and i = i and w = w] by simp

lemma search_progress_wf:
  assumes "distinct coverage" "1 \<le> n" "1 \<le> anchor" "anchor \<le> gr_fromBlock w"
  shows "progress_wf (progressForGap chain uuid now i anchor (search coverage c i w n) t (gr_fromBlock w))"
  using search_Some [OF assms(1,2), where c = c and i = i and w = w] assms(3,4)
  by (cases "search coverage c i w n")
    (auto simp: progress_wf_def cursor_below_Some newest_gap_def)

lemma search_accounts:
  assumes "distinct coverage" "1 \<le> n" "anchor \<le> gr_fromBlock w"
    and "{gr_toBlock w <.. B} \<inter> {anchor ..} \<subseteq> covered coverage c i"
  shows "accounted (covered coverage c i)
    (progressForGap chain uuid now j anchor (search coverage c i w n) t (gr_fromBlock w)) B"
proof -
  let ?C = "covered coverage c i"
  have above: "b \<in> ?C" if "gr_toBlock w < b" "b \<le> B" "anchor \<le> b" for b using assms(4) that by auto
  show ?thesis
  proof (cases "search coverage c i w n")
    case None
    have "b \<in> ?C" if "gr_fromBlock w \<le> b" "b \<le> B" "anchor \<le> b" for b
      using search_None [OF assms(1,2) None] above that by (cases "gr_toBlock w < b") auto
    then show ?thesis unfolding accounted_def None by (auto simp: cursor_below_Some) (metis le_less_trans not_le)+
  next
    case (Some g)
    from search_Some [OF assms(1,2) this] have g: "{gr_toBlock g <.. gr_toBlock w} \<subseteq> ?C"
      by (simp add: newest_gap_def)
    have "b \<in> ?C" if "gr_toBlock g < b" "b \<le> B" "anchor \<le> b" for b
      using g above that by (cases "gr_toBlock w < b") auto
    then show ?thesis unfolding accounted_def Some by (auto simp: cursor_below_Some) (metis le_less_trans not_le)+
  qed
qed

end

interpretation linear: gap_search findGap
  by unfold_locales (rule findGap_spec)

interpretation binary: gap_search findNewestGap
  by unfold_locales (rule findNewestGap_spec)

section \<open>How the store evolves\<close>

definition store_wf :: "GapStore \<Rightarrow> bool" where
  "store_wf db \<longleftrightarrow> distinct (gs_coverage db) \<and> (\<forall>k p. map_of (gs_scans db) k = Some p \<longrightarrow> progress_wf p)"

definition store_covered :: "GapStore \<Rightarrow> int \<Rightarrow> int \<Rightarrow> int set" where
  "store_covered db c i = covered (gs_coverage db) c i"

text \<open>The progress of a collection since anchor \<open>a\<close>, if there is any, accounts for the blocks up to \<open>B\<close>.\<close>

definition accounts :: "GapStore \<Rightarrow> int \<Rightarrow> int \<Rightarrow> int \<Rightarrow> int \<Rightarrow> bool" where
  "accounts db c i a B \<longleftrightarrow>
     (\<forall>p. getProgress (gs_scans db) c i = Some p \<and> gp_anchorBlock p = a \<longrightarrow> accounted (store_covered db c i) p B)"

text \<open>A change of the store that keeps coverage and every account up to a bound.\<close>

definition evolves :: "int \<Rightarrow> GapStore \<Rightarrow> GapStore \<Rightarrow> bool" where
  "evolves bound db db' \<longleftrightarrow>
     (store_wf db \<longrightarrow> store_wf db') \<and> (\<forall>c i. store_covered db c i \<subseteq> store_covered db' c i) \<and>
     (store_wf db \<longrightarrow> (\<forall>c i a B. B \<le> bound \<and> accounts db c i a B \<longrightarrow> accounts db' c i a B))"

lemma evolves_refl [simp]: "evolves bound db db"
  by (simp add: evolves_def)

lemma evolves_trans: "evolves bound a b \<Longrightarrow> evolves bound b c \<Longrightarrow> evolves bound a c"
  unfolding evolves_def by (meson subset_trans)

definition calm :: "int \<Rightarrow> Access \<Rightarrow> bool" where
  "calm bound access \<longleftrightarrow> (\<forall>i k db db'. access i k db = Some db' \<longrightarrow> evolves bound db db')"

lemma calmD: "calm bound access \<Longrightarrow> access i k db = Some db' \<Longrightarrow> evolves bound db db'"
  by (simp add: calm_def)

lemma covered_gs_scans [simp]: "store_covered (db\<lparr> gs_scans := s \<rparr>) c i = store_covered db c i"
  by (simp add: store_covered_def)

text \<open>Saving progress of a collection that accounts for all blocks up to the bound.\<close>

lemma save_evolves:
  assumes "saveProgress c i e p (gs_scans db) = (saved, scans)"
    and "progress_wf p"
    and "\<And>B. map_of (gs_scans db) (c, i) = e \<Longrightarrow> B \<le> bound \<Longrightarrow> accounts db c i (gp_anchorBlock p) B \<Longrightarrow>
      accounted (store_covered db c i) p B"
  shows "evolves bound db (db\<lparr> gs_scans := scans \<rparr>)"
proof (cases "map_of (gs_scans db) (c, i) = e")
  case True
  with assms(1) have scans: "scans = AList.update (c, i) p (gs_scans db)" by (auto simp: saveProgress_def)
  have "accounts (db\<lparr> gs_scans := scans \<rparr>) c' i' a B" if "B \<le> bound" "accounts db c' i' a B" for c' i' a B
    using that assms(3) [OF True, of B] by (auto simp: accounts_def getProgress_def scans update_conv')
  moreover have "store_wf db \<Longrightarrow> store_wf (db\<lparr> gs_scans := scans \<rparr>)"
    using assms(2) by (auto simp: store_wf_def scans update_conv')
  ultimately show ?thesis by (simp add: evolves_def)
next
  case False
  with assms(1) have "scans = gs_scans db" by (auto simp: saveProgress_def)
  then show ?thesis by simp
qed

lemma save_True:
  "saveProgress c i e p scans = (True, scans') \<Longrightarrow> map_of scans (c, i) = e \<and> map_of scans' (c, i) = Some p"
  by (auto simp: saveProgress_def update_conv' split: if_splits)

section \<open>What the scheduler has checked\<close>

text \<open>
  Every bound recorded as checked is at most \<open>M\<close>, and the blocks up to it, as far as \<open>L\<close>, are accounted
  for.  The operations below run at heads from \<open>L\<close> to \<open>M\<close>.
\<close>

definition checks_hold :: "SyncGapSchedulerOptions \<Rightarrow> int \<Rightarrow> int \<Rightarrow> SyncGapScheduler \<Rightarrow> GapStore \<Rightarrow> bool" where
  "checks_hold opt M L st db \<longleftrightarrow>
     (\<forall>i k. map_of (sg_eligibleChecked st) i = Some k \<longrightarrow>
        ec_upperBound k \<le> M \<and> accounts db (so_chainId opt) i (ec_anchorBlock k) (min L (ec_upperBound k)))"

definition scheduler_inv :: "SyncGapSchedulerOptions \<Rightarrow> int \<Rightarrow> int \<Rightarrow> SyncGapScheduler \<Rightarrow> GapStore \<Rightarrow> bool" where
  "scheduler_inv opt M L st db \<longleftrightarrow> store_wf db \<and> checks_hold opt M L st db"

lemma scheduler_inv_evolves:
  assumes "scheduler_inv opt M L st db" "evolves L db db'" "sg_eligibleChecked st' = sg_eligibleChecked st"
  shows "scheduler_inv opt M L st' db'"
  using assms by (fastforce simp: scheduler_inv_def checks_hold_def evolves_def)

lemma scheduler_inv_save:
  assumes inv: "scheduler_inv opt M L st db"
    and saved: "saveProgress (so_chainId opt) i e p (gs_scans db) = (True, scans)" and wf: "progress_wf p"
    and others: "\<forall>j. j \<noteq> i \<longrightarrow> map_of (sg_eligibleChecked st') j = map_of (sg_eligibleChecked st) j"
    and own: "\<forall>k. map_of (sg_eligibleChecked st') i = Some k \<longrightarrow> ec_upperBound k \<le> M \<and>
      (ec_anchorBlock k = gp_anchorBlock p \<longrightarrow> accounted (store_covered db (so_chainId opt) i) p (min L (ec_upperBound k)))"
  shows "scheduler_inv opt M L st' (db\<lparr> gs_scans := scans \<rparr>)"
proof -
  from saved have scans: "scans = AList.update (so_chainId opt, i) p (gs_scans db)"
    by (auto simp: saveProgress_def split: if_splits)
  have "store_wf (db\<lparr> gs_scans := scans \<rparr>)"
    using inv wf by (auto simp: scheduler_inv_def store_wf_def scans update_conv')
  moreover have "checks_hold opt M L st' (db\<lparr> gs_scans := scans \<rparr>)"
    unfolding checks_hold_def
  proof (intro allI impI)
    fix j k assume k: "map_of (sg_eligibleChecked st') j = Some k"
    show "ec_upperBound k \<le> M \<and>
        accounts (db\<lparr> gs_scans := scans \<rparr>) (so_chainId opt) j (ec_anchorBlock k) (min L (ec_upperBound k))"
    proof (cases "j = i")
      case True
      with own k show ?thesis by (auto simp: accounts_def getProgress_def scans update_conv')
    next
      case False
      with others k inv show ?thesis
        by (auto simp: scheduler_inv_def checks_hold_def accounts_def getProgress_def scans update_conv')
    qed
  qed
  ultimately show ?thesis by (simp add: scheduler_inv_def)
qed

lemma accounted_extend:
  assumes "accounted C p B" "\<And>b. gp_anchorBlock p \<le> b \<Longrightarrow> B < b \<Longrightarrow> b \<le> B' \<Longrightarrow> b \<in> C"
  shows "accounted C p B'"
  using assms unfolding accounted_def by (meson not_le)

lemma gapRepairWindow_Some:
  "gapRepairWindow c head = Some w \<Longrightarrow>
     gr_toBlock w = head \<and> 1 \<le> gr_fromBlock w \<and> gr_fromBlock w \<le> head \<and> cr_anchor c = Some (gr_fromBlock w)"
  by (auto simp: gapRepairWindow_def split: option.splits if_splits)

lemma set_checked_simps [simp]:
  "map_of (sg_eligibleChecked (set_checked i a u st)) j =
     (if j = i then Some \<lparr> ec_anchorBlock = a, ec_upperBound = u \<rparr> else map_of (sg_eligibleChecked st) j)"
  by (simp add: set_checked_def update_conv')

lemma checked_unchanged [simp]:
  "sg_eligibleChecked (set_completed i a st) = sg_eligibleChecked st"
  "sg_eligibleChecked (reopen i st) = sg_eligibleChecked st"
  "sg_eligibleChecked (note_cursor i a c st) = sg_eligibleChecked st"
  by (simp_all add: set_completed_def reopen_def note_cursor_def)

lemma valid_limitsD: "valid_limits opt \<Longrightarrow> 1 \<le> so_batchSize opt \<and> 1 \<le> windowSize opt \<and> 1 \<le> pageSize opt"
  by (simp add: valid_limits_def)

section \<open>A scan of one collection\<close>

text \<open>The outcomes of \<open>scanCollection\<close>: either nothing was saved, or the result of a search was.\<close>

definition scanned ::
  "SyncGapSchedulerOptions \<Rightarrow> int \<Rightarrow> int \<Rightarrow> CollectionRow \<Rightarrow> int \<Rightarrow> SyncGapScheduler \<Rightarrow> GapStore \<Rightarrow> SyncGapScheduler \<Rightarrow> GapStore \<Rightarrow> bool"
where
  "scanned opt L head c anchor st db st' db' \<longleftrightarrow>
     (\<exists>db1 db2 e scans cursor uuid now t win p.
        evolves L db db1 \<and> evolves L db1 db2 \<and>
        win = \<lparr> gr_fromBlock = max anchor (min (case cursor of None \<Rightarrow> head | Some b \<Rightarrow> b) head - windowSize opt + 1),
                gr_toBlock = min (case cursor of None \<Rightarrow> head | Some b \<Rightarrow> b) head \<rparr> \<and>
        p = progressForGap (so_chainId opt) uuid now (cr_collectionId c) anchor
              (findGap (gs_coverage db1) (so_chainId opt) (cr_collectionId c) win (so_batchSize opt)) t
              (gr_fromBlock win) \<and>
        saveProgress (so_chainId opt) (cr_collectionId c) e p (gs_scans db2) = (True, scans) \<and>
        db' = db2\<lparr> gs_scans := scans \<rparr> \<and>
        (cursor \<noteq> None \<longrightarrow> (\<exists>p. e = Some p \<and> gp_anchorBlock p = anchor \<and> gp_pending p = None \<and> gp_cursorBlock p = cursor)) \<and>
        (\<forall>j. map_of (sg_eligibleChecked st') j =
           (if j = cr_collectionId c \<and> cursor = None then Some \<lparr> ec_anchorBlock = anchor, ec_upperBound = head \<rparr>
            else map_of (sg_eligibleChecked st) j)))"

lemma scannedI:
  assumes "evolves L db db1" "evolves L db1 db2"
    and "win = \<lparr> gr_fromBlock = max anchor (min (case cursor of None \<Rightarrow> head | Some b \<Rightarrow> b) head - windowSize opt + 1),
                 gr_toBlock = min (case cursor of None \<Rightarrow> head | Some b \<Rightarrow> b) head \<rparr>"
    and "p = progressForGap (so_chainId opt) uuid now (cr_collectionId c) anchor
               (findGap (gs_coverage db1) (so_chainId opt) (cr_collectionId c) win (so_batchSize opt)) t
               (gr_fromBlock win)"
    and "saveProgress (so_chainId opt) (cr_collectionId c) e p (gs_scans db2) = (True, scans)"
    and "db' = db2\<lparr> gs_scans := scans \<rparr>"
    and "cursor \<noteq> None \<Longrightarrow> \<exists>p. e = Some p \<and> gp_anchorBlock p = anchor \<and> gp_pending p = None \<and> gp_cursorBlock p = cursor"
    and "\<forall>j. map_of (sg_eligibleChecked st') j =
           (if j = cr_collectionId c \<and> cursor = None then Some \<lparr> ec_anchorBlock = anchor, ec_upperBound = head \<rparr>
            else map_of (sg_eligibleChecked st) j)"
  shows "scanned opt L head c anchor st db st' db'"
  unfolding scanned_def using assms by blast

lemma scanCollection_outcome:
  assumes "calm L access" "scanCollection opt access now uuid c head st db = (r, st', db')"
  shows "evolves L db db' \<and> sg_eligibleChecked st' = sg_eligibleChecked st \<or>
    (\<exists>w. gapRepairWindow c head = Some w \<and> scanned opt L head c (gr_fromBlock w) st db st' db')"
proof (cases "gapRepairWindow c head")
  case (Some w)
  let ?i = "cr_collectionId c" and ?a = "gr_fromBlock w" and ?chain = "so_chainId opt"
  note eq = assms(2) [unfolded scanCollection_def Some Let_def, simplified]
  show ?thesis
  proof (cases "access ?i 0 db")
    case (Some db0)
    then have e0: "evolves L db db0" by (rule calmD [OF assms(1)])
    define e where "e = getProgress (gs_scans db0) ?chain ?i"
    define st1 where "st1 = (if (case e of Some p \<Rightarrow> gp_anchorBlock p = ?a | None \<Rightarrow> False) then st else reopen ?i st)"
    define p where "p = (case e of
                  Some p \<Rightarrow> if gp_anchorBlock p = ?a then p
                            else \<lparr> gp_anchorBlock = ?a, gp_cursorBlock = None, gp_pending = None,
                                   gp_lastHeadCheckAt = None \<rparr>
                | None \<Rightarrow> \<lparr> gp_anchorBlock = ?a, gp_cursorBlock = None, gp_pending = None,
                            gp_lastHeadCheckAt = None \<rparr>)"
    define cursor where "cursor = (if sg_restartFromHead st1 then None else gp_cursorBlock p)"
    have chk: "sg_eligibleChecked st1 = sg_eligibleChecked st" by (simp add: st1_def)
    have cur: "\<exists>q. e = Some q \<and> gp_anchorBlock q = ?a \<and> gp_pending q = gp_pending p \<and> gp_cursorBlock q = cursor"
      if "cursor \<noteq> None"
      using that by (auto simp: cursor_def p_def split: option.splits if_splits)
    note eq1 = eq [unfolded Some option.case, folded e_def, folded p_def st1_def, folded cursor_def]
    show ?thesis
    proof (cases "map_of (sg_completed st1) ?i = Some ?a \<or> gp_pending p \<noteq> None")
      case True
      then have "db' = db0 \<and> sg_eligibleChecked st' = sg_eligibleChecked st"
        using eq1 chk by (auto split: if_splits)
      with e0 show ?thesis by simp
    next
      case False
      then have free: "gp_pending p = None" by simp
      show ?thesis
      proof (cases "access ?i 1 db0")
        case None
        with eq1 False chk e0 show ?thesis by auto
      next
        case db1: (Some db1)
        then have e1: "evolves L db0 db1" by (rule calmD [OF assms(1)])
        show ?thesis
        proof (cases "access ?i 2 db1")
          case None
          with eq1 False db1 chk e0 e1 show ?thesis by (auto intro: evolves_trans)
        next
          case db2: (Some db2)
          then have e2: "evolves L db1 db2" by (rule calmD [OF assms(1)])
          define win where "win = \<lparr> gr_fromBlock =
              max ?a (min (case cursor of None \<Rightarrow> head | Some b \<Rightarrow> b) head - windowSize opt + 1),
            gr_toBlock = min (case cursor of None \<Rightarrow> head | Some b \<Rightarrow> b) head \<rparr>"
          define t where "t = (if cursor = None then Some now else gp_lastHeadCheckAt p)"
          define new where "new = progressForGap ?chain uuid now ?i ?a
            (findGap (gs_coverage db1) ?chain ?i win (so_batchSize opt)) t (gr_fromBlock win)"
          obtain saved scans where save: "saveProgress ?chain ?i e new (gs_scans db2) = (saved, scans)"
            by (meson surj_pair)
          note save' = save [unfolded new_def t_def win_def, simplified]
          show ?thesis
          proof (cases saved)
            case True
            then have True_saved: "saved = True" by simp
            have db': "db' = db2\<lparr> gs_scans := scans \<rparr>"
              and st': "\<forall>j. map_of (sg_eligibleChecked st') j =
                (if j = ?i \<and> cursor = None then Some \<lparr> ec_anchorBlock = ?a, ec_upperBound = head \<rparr>
                 else map_of (sg_eligibleChecked st) j)"
              using eq1 False db1 db2 save' True chk by (auto split: if_splits)
            have "scanned opt L head c ?a st db st' db'"
              using save cur free
              by (intro scannedI [OF evolves_trans [OF e0 e1] e2 win_def new_def _ db' _ st']) (simp_all add: True)
            with \<open>gapRepairWindow c head = Some w\<close> show ?thesis by blast
          next
            case unsaved: False
            then have "db2\<lparr> gs_scans := scans \<rparr> = db2" using save by (auto simp: saveProgress_def split: if_splits)
            then have "db' = db2 \<and> sg_eligibleChecked st' = sg_eligibleChecked st"
              using eq1 False db1 db2 save' unsaved chk by auto
            with e0 e1 e2 show ?thesis by (auto intro: evolves_trans)
          qed
        qed
      qed
    qed
  qed (use eq in auto)
qed (use assms(2) in \<open>auto simp: scanCollection_def\<close>)

lemma scanCollection_inv:
  assumes "valid_limits opt" "calm L access" "scheduler_inv opt M L st db" "L \<le> head" "head \<le> M"
    and "scanCollection opt access now uuid c head st db = (r, st', db')"
  shows "scheduler_inv opt M L st' db'"
  using scanCollection_outcome [OF assms(2,6)]
proof (elim disjE exE conjE)
  fix w assume w: "gapRepairWindow c head = Some w" and "scanned opt L head c (gr_fromBlock w) st db st' db'"
  let ?i = "cr_collectionId c" and ?a = "gr_fromBlock w" and ?chain = "so_chainId opt"
  obtain db1 db2 e scans cursor uuid now t win p where
    ev: "evolves L db db1" "evolves L db1 db2"
    and win: "win = \<lparr> gr_fromBlock = max ?a (min (case cursor of None \<Rightarrow> head | Some b \<Rightarrow> b) head - windowSize opt + 1),
                  gr_toBlock = min (case cursor of None \<Rightarrow> head | Some b \<Rightarrow> b) head \<rparr>"
    and p: "p = progressForGap ?chain uuid now ?i ?a (findGap (gs_coverage db1) ?chain ?i win (so_batchSize opt)) t
        (gr_fromBlock win)"
    and save: "saveProgress ?chain ?i e p (gs_scans db2) = (True, scans)" and db': "db' = db2\<lparr> gs_scans := scans \<rparr>"
    and cur: "cursor \<noteq> None \<longrightarrow> (\<exists>q. e = Some q \<and> gp_anchorBlock q = ?a \<and> gp_pending q = None \<and> gp_cursorBlock q = cursor)"
    and st': "\<forall>j. map_of (sg_eligibleChecked st') j =
       (if j = ?i \<and> cursor = None then Some \<lparr> ec_anchorBlock = ?a, ec_upperBound = head \<rparr>
        else map_of (sg_eligibleChecked st) j)"
    using \<open>scanned opt L head c (gr_fromBlock w) st db st' db'\<close> unfolding scanned_def
    by (elim exE conjE) (rule that)
  have inv1: "scheduler_inv opt M L st db1" and inv2: "scheduler_inv opt M L st db2"
    using scheduler_inv_evolves [OF scheduler_inv_evolves [OF assms(3) ev(1) refl] ev(2) refl]
      scheduler_inv_evolves [OF assms(3) ev(1) refl] by simp_all
  then have d1: "distinct (gs_coverage db1)" by (simp add: scheduler_inv_def store_wf_def)
  have limits: "1 \<le> so_batchSize opt" "1 \<le> ?a" "?a \<le> gr_fromBlock win"
    using valid_limitsD [OF assms(1)] gapRepairWindow_Some [OF w] by (auto simp: win)
  have "progress_wf p" unfolding p by (rule linear.search_progress_wf [OF d1 limits])
  moreover have C: "covered (gs_coverage db1) ?chain ?i \<subseteq> store_covered db2 ?chain ?i"
    using ev(2) by (auto simp: evolves_def store_covered_def)
  have upto: "accounted (store_covered db2 ?chain ?i) p (gr_toBlock win)"
    unfolding p by (rule accounted_mono [OF linear.search_accounts [OF d1 limits(1,3)] C order_refl]) auto
  have "ec_upperBound k \<le> M \<and> (ec_anchorBlock k = gp_anchorBlock p \<longrightarrow>
      accounted (store_covered db2 ?chain ?i) p (min L (ec_upperBound k)))"
    if k: "map_of (sg_eligibleChecked st') ?i = Some k" for k
  proof (cases cursor)
    case None
    with k st' upto assms(5) show ?thesis by (auto simp: win intro: accounted_min)
  next
    case (Some b)
    with k st' inv2 have old: "ec_upperBound k \<le> M"
      "accounts db2 ?chain ?i (ec_anchorBlock k) (min L (ec_upperBound k))"
      by (auto simp: scheduler_inv_def checks_hold_def)
    from save_True [OF save] cur Some obtain q where
      "getProgress (gs_scans db2) ?chain ?i = Some q" "gp_anchorBlock q = ?a" "gp_pending q = None" "gp_cursorBlock q = Some b"
      by (auto simp: getProgress_def)
    with old have "x \<in> store_covered db2 ?chain ?i"
      if "ec_anchorBlock k = ?a" "?a \<le> x" "gr_toBlock win < x" "x \<le> min L (ec_upperBound k)" for x
      using that Some assms(4) by (fastforce simp: accounts_def accounted_def win)
    then have "ec_anchorBlock k = gp_anchorBlock p \<longrightarrow>
        accounted (store_covered db2 ?chain ?i) p (min L (ec_upperBound k))"
      by (intro impI accounted_extend [OF upto]) (simp add: p)
    with old(1) show ?thesis by blast
  qed
  ultimately show ?thesis
    unfolding db' using scheduler_inv_save [OF inv2 save] st' by auto
qed (use assms(3) scheduler_inv_evolves in blast)

section \<open>A check from the head\<close>

lemma newerSpan_accounts:
  assumes "progress_wf e" "{newerSpanStart e (gp_anchorBlock e) .. U} \<subseteq> C"
  shows "accounted C e U"
  unfolding accounted_def
proof (intro allI impI)
  fix b assume b: "gp_anchorBlock e \<le> b \<and> b \<le> U \<and> b \<notin> C"
  with assms(2) have "b < newerSpanStart e (gp_anchorBlock e)" by (meson atLeastAtMost_iff not_le subsetD)
  with b assms(1) show "(\<exists>q. gp_pending e = Some q \<and> gr_fromBlock q \<le> b \<and> b \<le> gr_toBlock q) \<or>
      (\<exists>c. gp_cursorBlock e = Some c \<and> b \<le> c)"
    by (auto simp: newerSpanStart_def progress_wf_def cursor_below_Some split: option.splits)
qed

lemma retainNewestGap_inv:
  assumes "valid_limits opt" "calm L access" "scheduler_inv opt M L st db" "U \<le> M"
    and run: "retainNewestGap opt access now uuid c U expected st db = (r, st', db')"
  shows "scheduler_inv opt M L st' db'"
proof (cases "\<exists>w e. gapRepairWindow c U = Some w \<and> expected = Some e \<and> gp_anchorBlock e = gr_fromBlock w")
  case True
  then obtain w e where w: "gapRepairWindow c U = Some w" and e: "expected = Some e" "gp_anchorBlock e = gr_fromBlock w"
    by blast
  let ?i = "cr_collectionId c" and ?a = "gr_fromBlock w" and ?chain = "so_chainId opt"
  define f where "f = newerSpanStart e ?a"
  note run1 = run [unfolded retainNewestGap_def w e(1) option.case prod.case Let_def, folded f_def,
      simplified e(2) not_True_eq_False if_False simp_thms]
  have limits: "1 \<le> so_batchSize opt" "1 \<le> ?a" "?a \<le> f"
    using valid_limitsD [OF assms(1)] gapRepairWindow_Some [OF w] by (auto simp: f_def newerSpanStart_def)
  show ?thesis
  proof (cases "if f \<le> U then access ?i 1 db else Some db")
    case None
    with run1 [unfolded None option.case] assms(3) show ?thesis by simp
  next
    case (Some db1)
    then have ev1: "evolves L db db1" using calmD [OF assms(2)] by (auto split: if_splits)
    define gap where "gap = (if f \<le> U then findNewestGap (gs_coverage db1) ?chain ?i
        \<lparr> gr_fromBlock = f, gr_toBlock = U \<rparr> (so_batchSize opt) else None)"
    define p where "p = (case gap of Some g \<Rightarrow> progressForGap ?chain uuid now ?i ?a (Some g) (Some now) f
      | None \<Rightarrow> e\<lparr> gp_lastHeadCheckAt := Some now \<rparr>)"
    have inv1: "scheduler_inv opt M L st db1" using scheduler_inv_evolves [OF assms(3) ev1] by simp
    then have d1: "distinct (gs_coverage db1)" by (simp add: scheduler_inv_def store_wf_def)
    note run2 = run1 [unfolded Some option.case, folded gap_def, folded p_def]
    show ?thesis
    proof (cases "access ?i 2 db1")
      case None
      with run2 inv1 show ?thesis by auto
    next
      case db2: (Some db2)
      then have ev2: "evolves L db1 db2" by (rule calmD [OF assms(2)])
      then have inv2: "scheduler_inv opt M L st db2" using scheduler_inv_evolves [OF inv1] by simp
      have C: "covered (gs_coverage db1) ?chain ?i \<subseteq> store_covered db2 ?chain ?i"
        using ev2 by (auto simp: evolves_def store_covered_def)
      obtain saved scans where save: "saveProgress ?chain ?i (Some e) p (gs_scans db2) = (saved, scans)"
        by (meson surj_pair)
      show ?thesis
      proof (cases saved)
        case True
        then have save: "saveProgress ?chain ?i (Some e) p (gs_scans db2) = (True, scans)" using save by simp
        have e_wf: "progress_wf e"
          using save_True [OF save] inv2 by (auto simp: scheduler_inv_def store_wf_def)
        have p: "progress_wf p \<and> gp_anchorBlock p = ?a \<and> accounted (store_covered db2 ?chain ?i) p U"
        proof (cases gap)
          case None
          have "{f .. U} \<subseteq> covered (gs_coverage db1) ?chain ?i"
          proof (cases "f \<le> U")
            case True
            with None binary.search_None [OF d1 limits(1), of ?chain ?i "\<lparr> gr_fromBlock = f, gr_toBlock = U \<rparr>"]
            show ?thesis by (simp add: gap_def)
          qed auto
          with C have "accounted (store_covered db2 ?chain ?i) e U"
            by (intro newerSpan_accounts [OF e_wf]) (auto simp: e(2) f_def)
          with None e_wf show ?thesis by (simp add: p_def progress_wf_def accounted_def e(2))
        next
          case (Some g)
          let ?w = "\<lparr> gr_fromBlock = f, gr_toBlock = U \<rparr>"
          from Some have p: "p = progressForGap ?chain uuid now ?i ?a
              (findNewestGap (gs_coverage db1) ?chain ?i ?w (so_batchSize opt)) (Some now) (gr_fromBlock ?w)"
            by (simp add: p_def gap_def split: if_splits)
          have "progress_wf p" unfolding p using limits by (intro binary.search_progress_wf [OF d1]) auto
          moreover have "accounted (covered (gs_coverage db1) ?chain ?i) p U"
            unfolding p using limits by (intro binary.search_accounts [OF d1]) auto
          ultimately show ?thesis using C by (auto simp: p intro: accounted_mono)
        qed
        have "db' = db2\<lparr> gs_scans := scans \<rparr>" and st': "\<forall>j. map_of (sg_eligibleChecked st') j =
            (if j = ?i then Some \<lparr> ec_anchorBlock = ?a, ec_upperBound = U \<rparr> else map_of (sg_eligibleChecked st) j)"
          using run2 db2 save by (auto split: if_splits)
        with p assms(4) show ?thesis by (auto intro!: scheduler_inv_save [OF inv2 save] accounted_min)
      next
        case False
        with save have "scans = gs_scans db2" by (auto simp: saveProgress_def split: if_splits)
        then have "db' = db2" "sg_eligibleChecked st' = sg_eligibleChecked st"
          using run2 db2 save False by auto
        with inv2 show ?thesis by (simp add: scheduler_inv_def checks_hold_def)
      qed
    qed
  qed
next
  case False
  then have "st' = st" "db' = db" using run by (auto simp: retainNewestGap_def split: option.splits if_splits)
  with assms(3) show ?thesis by simp
qed

lemma recheckCollection_inv:
  assumes "valid_limits opt" "calm L access" "scheduler_inv opt M L st db" "head \<le> M"
    and "recheckCollection opt access now uuid c head before st db = (r, st', db')"
  shows "scheduler_inv opt M L st' db'"
proof (cases "access (cr_collectionId c) 0 db")
  case None
  with assms(3,5) show ?thesis by (simp add: recheckCollection_def)
next
  case (Some db0)
  with assms(2) have "evolves L db db0" by (rule calmD)
  then have inv: "scheduler_inv opt M L st db0" using scheduler_inv_evolves [OF assms(3)] by simp
  with assms(5) Some retainNewestGap_inv [OF assms(1,2) inv assms(4)] show ?thesis
    by (auto simp: recheckCollection_def Let_def split: if_splits)
qed

lemma accounted_pending_top:
  assumes "progress_wf e" "accounted C e B"
  shows "accounted C e (max B (case gp_pending e of Some q \<Rightarrow> gr_toBlock q | None \<Rightarrow> 0))"
  unfolding accounted_def
proof (intro allI impI, elim conjE)
  fix b assume b: "gp_anchorBlock e \<le> b" "b \<le> max B (case gp_pending e of Some q \<Rightarrow> gr_toBlock q | None \<Rightarrow> 0)" "b \<notin> C"
  show "(\<exists>q. gp_pending e = Some q \<and> gr_fromBlock q \<le> b \<and> b \<le> gr_toBlock q) \<or> (\<exists>c. gp_cursorBlock e = Some c \<and> b \<le> c)"
  proof (cases "b \<le> B")
    case True
    with b assms(2) show ?thesis by (auto simp: accounted_def)
  next
    case False
    with b assms(1) show ?thesis
      by (cases "gp_pending e") (auto simp: progress_wf_def cursor_below_Some max_def split: if_splits)
  qed
qed

text \<open>The strip of newly eligible blocks, from the last check on.\<close>

lemma eligibleStrip_accounts:
  assumes inv: "scheduler_inv opt M L st db0" "scheduler_inv opt M L st db1"
    and ev: "evolves L db0 db1" and e: "getProgress (gs_scans db0) (so_chainId opt) i = Some e"
    and k: "map_of (sg_eligibleChecked st) i = Some k" "ec_anchorBlock k = gp_anchorBlock e"
    and strip: "{max (max (gp_anchorBlock e) (ec_upperBound k + 1))
        ((case gp_pending e of Some q \<Rightarrow> gr_toBlock q | None \<Rightarrow> 0) + 1) .. U} \<subseteq> store_covered db1 (so_chainId opt) i"
  shows "accounts db1 (so_chainId opt) i (gp_anchorBlock e) (min L U)"
proof -
  let ?C = "store_covered db0 (so_chainId opt) i" and ?D = "store_covered db1 (so_chainId opt) i"
  let ?q = "case gp_pending e of Some q \<Rightarrow> gr_toBlock q | None \<Rightarrow> 0"
  define N where "N = max (min L (ec_upperBound k)) ?q"
  from inv(1) e have wf: "progress_wf e" by (auto simp: scheduler_inv_def store_wf_def getProgress_def)
  from inv(1) k e have old: "accounted ?C e (min L (ec_upperBound k))"
    by (auto simp: scheduler_inv_def checks_hold_def accounts_def)
  have "accounted ?C e N" unfolding N_def by (rule accounted_pending_top [OF wf old])
  then have "accounts db0 (so_chainId opt) i (gp_anchorBlock e) (min N (min L U))"
    unfolding accounts_def using accounted_mono [OF _ order_refl min.cobounded1] e by auto
  then have low: "accounts db1 (so_chainId opt) i (gp_anchorBlock e) (min N (min L U))"
    using ev inv(1) by (auto simp: evolves_def scheduler_inv_def)
  have high: "b \<in> ?D" if "gp_anchorBlock e \<le> b" "min N (min L U) < b" "b \<le> min L U" for b
  proof -
    from that have "N < b" "b \<le> L" "b \<le> U" by auto
    then have "ec_upperBound k < b" "?q < b" by (auto simp: N_def)
    with that(1) \<open>b \<le> U\<close> have "b \<in> {max (max (gp_anchorBlock e) (ec_upperBound k + 1)) (?q + 1) .. U}" by simp
    with strip show ?thesis by blast
  qed
  show ?thesis unfolding accounts_def
  proof (intro allI impI, elim conjE)
    fix q assume q: "getProgress (gs_scans db1) (so_chainId opt) i = Some q" "gp_anchorBlock q = gp_anchorBlock e"
    with low have "accounted ?D q (min N (min L U))" by (auto simp: accounts_def)
    from this high [folded q(2)] show "accounted ?D q (min L U)" by (rule accounted_extend)
  qed
qed

lemma scheduler_inv_set_checked:
  assumes "scheduler_inv opt M L st db" "accounts db (so_chainId opt) i a (min L U)" "U \<le> M"
  shows "scheduler_inv opt M L (set_checked i a U st) db"
  using assms by (auto simp: scheduler_inv_def checks_hold_def)

lemma checkEligibleCollection_inv:
  assumes "valid_limits opt" "calm L access" "scheduler_inv opt M L st db" "U \<le> M"
    and run: "checkEligibleCollection opt access now uuid c U st db = (r, st', db')"
  shows "scheduler_inv opt M L st' db'"
proof (cases "gapRepairWindow c U")
  case None
  with run assms(3) show ?thesis by (simp add: checkEligibleCollection_def)
next
  case w: (Some w)
  let ?i = "cr_collectionId c" and ?a = "gr_fromBlock w" and ?chain = "so_chainId opt"
  let ?checked = "map_of (sg_eligibleChecked st) ?i"
  note run0 = run [unfolded checkEligibleCollection_def w option.case Let_def]
  show ?thesis
  proof (cases "case ?checked of Some k \<Rightarrow> ec_anchorBlock k = ?a \<and> ec_upperBound k \<ge> U | None \<Rightarrow> False")
    case True
    with run0 assms(3) show ?thesis by simp
  next
    case False
    note run1 = run0 [simplified False if_False]
    show ?thesis
    proof (cases "access ?i 0 db")
      case None
      with run1 assms(3) show ?thesis by simp
    next
      case db0: (Some db0)
      then have "evolves L db db0" by (rule calmD [OF assms(2)])
      then have inv0: "scheduler_inv opt M L st db0" using scheduler_inv_evolves [OF assms(3)] by simp
      note run2 = run1 [unfolded db0 option.case]
      show ?thesis
      proof (cases "\<exists>e. getProgress (gs_scans db0) ?chain ?i = Some e \<and> gp_anchorBlock e = ?a")
        case False
        then have "st' = st" "db' = db0" using run2 by (auto split: option.splits if_splits)
        with inv0 show ?thesis by simp
      next
        case True
        then obtain e where e: "getProgress (gs_scans db0) ?chain ?i = Some e" "gp_anchorBlock e = ?a" by blast
        note run3 = run2 [unfolded e(1) option.case, simplified e(2) not_True_eq_False if_False simp_thms]
        show ?thesis
        proof (cases "case ?checked of Some k \<Rightarrow> if ec_anchorBlock k = ?a then Some k else None | None \<Rightarrow> None")
          case None
          obtain r1 st1 db1 where retain: "retainNewestGap opt access now uuid c U (Some e) st db0 = (r1, st1, db1)"
            by (metis prod_cases3)
          with run3 [unfolded None option.case] have "st' = st1" "db' = db1"
            by (auto split: option.splits)
          with retainNewestGap_inv [OF assms(1,2) inv0 assms(4) retain] show ?thesis by simp
        next
          case (Some k)
          then have k: "?checked = Some k" "ec_anchorBlock k = gp_anchorBlock e"
            by (auto simp: e(2) split: option.splits if_splits)
          define f where "f = max (max ?a (ec_upperBound k + 1))
              ((case gp_pending e of Some q \<Rightarrow> gr_toBlock q | None \<Rightarrow> 0) + 1)"
          note run4 = run3 [unfolded Some option.case, folded f_def]
          have limits: "1 \<le> so_batchSize opt" "1 \<le> ?a" "?a \<le> f"
            using valid_limitsD [OF assms(1)] gapRepairWindow_Some [OF w] by (auto simp: f_def)
          show ?thesis
          proof (cases "if f \<le> U then access ?i 1 db0 else Some db0")
            case None
            with run4 [unfolded None option.case] inv0 show ?thesis by simp
          next
            case db1: (Some db1)
            then have ev1: "evolves L db0 db1" using calmD [OF assms(2)] by (auto split: if_splits)
            then have inv1: "scheduler_inv opt M L st db1" using scheduler_inv_evolves [OF inv0] by simp
            then have d1: "distinct (gs_coverage db1)" by (simp add: scheduler_inv_def store_wf_def)
            let ?w = "\<lparr> gr_fromBlock = f, gr_toBlock = U \<rparr>"
            define gap where "gap = (if f \<le> U then findNewestGap (gs_coverage db1) ?chain ?i ?w (so_batchSize opt) else None)"
            note run5 = run4 [unfolded db1 option.case, folded gap_def]
            show ?thesis
            proof (cases gap)
              case None
              have "{f .. U} \<subseteq> store_covered db1 ?chain ?i"
                using None binary.search_None [OF d1 limits(1), of ?chain ?i ?w]
                by (cases "f \<le> U") (auto simp: gap_def store_covered_def)
              then have "accounts db1 ?chain ?i ?a (min L U)"
                using eligibleStrip_accounts [OF inv0 inv1 ev1 e(1) k] by (simp add: f_def e(2))
              with run5 [unfolded None option.case] show ?thesis
                using scheduler_inv_set_checked [OF inv1 _ assms(4)] by auto
            next
              case (Some g)
              then have gap: "findNewestGap (gs_coverage db1) ?chain ?i ?w (so_batchSize opt) = Some g" and "f \<le> U"
                by (auto simp: gap_def split: if_splits)
              note run6 = run5 [unfolded Some option.case]
              show ?thesis
              proof (cases "access ?i 2 db1")
                case None
                with run6 inv1 show ?thesis by simp
              next
                case db2: (Some db2)
                then have ev2: "evolves L db1 db2" by (rule calmD [OF assms(2)])
                then have inv2: "scheduler_inv opt M L st db2" using scheduler_inv_evolves [OF inv1] by simp
                define p where "p = progressForGap ?chain uuid now ?i ?a (Some g) (gp_lastHeadCheckAt e) f"
                obtain saved scans where save: "saveProgress ?chain ?i (Some e) p (gs_scans db2) = (saved, scans)"
                  by (meson surj_pair)
                note run7 = run6 [unfolded db2 option.case, folded p_def, unfolded save prod.case]
                show ?thesis
                proof (cases saved)
                  case True
                  then have save: "saveProgress ?chain ?i (Some e) p (gs_scans db2) = (True, scans)" using save by simp
                  have "progress_wf p"
                    using binary.search_progress_wf [OF d1 limits(1,2), of ?w] limits(3) gap by (simp add: p_def) metis
                  moreover have "accounted (store_covered db2 ?chain ?i) p U"
                  proof -
                    have "accounted (covered (gs_coverage db1) ?chain ?i) p U"
                      using binary.search_accounts [OF d1 limits(1), of ?a ?w U ?chain ?i] limits(3) gap by (simp add: p_def)
                    then show ?thesis using ev2 by (auto simp: evolves_def store_covered_def intro: accounted_mono)
                  qed
                  ultimately have "scheduler_inv opt M L (set_checked ?i ?a U (reopen ?i st)) (db2\<lparr> gs_scans := scans \<rparr>)"
                    using assms(4) by (intro scheduler_inv_save [OF inv2 save]) (auto simp: p_def intro: accounted_min)
                  with run7 True show ?thesis by auto
                next
                  case False
                  with save have "scans = gs_scans db2" by (auto simp: saveProgress_def split: if_splits)
                  with run7 False inv2 show ?thesis by auto
                qed
              qed
            qed
          qed
        qed
      qed
    qed
  qed
qed

section \<open>Pages of collections\<close>

lemma forCollections_inv:
  assumes "\<And>c st db. c \<in> set cs \<Longrightarrow> P st db \<Longrightarrow> P (fst (step c st db)) (snd (step c st db))"
  shows "P st db \<Longrightarrow> P (fst (forCollections step cs st db)) (snd (forCollections step cs st db))"
  using assms by (induction cs arbitrary: st db) (auto simp: case_prod_beta)

lemma scheduler_inv_cong:
  "sg_eligibleChecked st' = sg_eligibleChecked st \<Longrightarrow> scheduler_inv opt M L st' db = scheduler_inv opt M L st db"
  by (simp add: scheduler_inv_def checks_hold_def)

lemma scanStep_inv:
  assumes "valid_limits opt" "calm L access" "L \<le> head" "head \<le> M" "scheduler_inv opt M L st db"
  shows "scheduler_inv opt M L (fst (scanStep opt access now uuid head c st db)) (snd (scanStep opt access now uuid head c st db))"
proof -
  obtain r st1 db1 where run: "scanCollection opt access now (uuid (cr_collectionId c)) c head
      (st\<lparr> sg_afterCollectionId := cr_collectionId c \<rparr>) db = (r, st1, db1)" by (metis prod_cases3)
  have "scheduler_inv opt M L (st\<lparr> sg_afterCollectionId := cr_collectionId c \<rparr>) db"
    using assms(5) by (simp add: scheduler_inv_def checks_hold_def)
  from scanCollection_inv [OF assms(1,2) this assms(3,4) run] show ?thesis
    by (cases r) (simp_all add: scanStep_def run scheduler_inv_def checks_hold_def)
qed

lemma resumeStep_inv:
  assumes "valid_limits opt" "calm L access" "scheduler_inv opt M L st db" "U \<le> M"
  shows "scheduler_inv opt M L (fst (resumeStep opt access now uuid U c st db)) (snd (resumeStep opt access now uuid U c st db))"
proof -
  let ?i = "cr_collectionId c"
  define st0 where "st0 = st\<lparr> sg_resumeTraversal := map_option (et_afterCollectionId_update (\<lambda>_. ?i)) (sg_resumeTraversal st) \<rparr>"
  have inv: "scheduler_inv opt M L st0 db" using assms(3) by (simp add: st0_def scheduler_inv_def checks_hold_def)
  show ?thesis
  proof (cases "access ?i 0 db")
    case None
    with inv show ?thesis by (simp add: resumeStep_def Let_def st0_def scheduler_inv_def checks_hold_def)
  next
    case (Some db0)
    with assms(2) have "evolves L db db0" by (rule calmD)
    then have inv0: "scheduler_inv opt M L st0 db0" using scheduler_inv_evolves [OF inv] by simp
    obtain r st1 db1 where run: "retainNewestGap opt access now (uuid ?i) c U
        (getProgress (gs_scans db0) (so_chainId opt) ?i) st0 db0 = (r, st1, db1)" by (metis prod_cases3)
    from retainNewestGap_inv [OF assms(1,2) inv0 assms(4) run] Some run show ?thesis
      by (cases r) (simp_all add: resumeStep_def Let_def st0_def scheduler_inv_def checks_hold_def)
  qed
qed

lemma eligibleStep_inv:
  assumes "valid_limits opt" "calm L access" "scheduler_inv opt M L st db" "U \<le> M"
  shows "scheduler_inv opt M L (fst (eligibleStep opt access now uuid U c st db)) (snd (eligibleStep opt access now uuid U c st db))"
proof -
  let ?i = "cr_collectionId c"
  define st0 where "st0 = st\<lparr> sg_eligibleTraversal := map_option (et_afterCollectionId_update (\<lambda>_. ?i)) (sg_eligibleTraversal st) \<rparr>"
  have inv: "scheduler_inv opt M L st0 db" using assms(3) by (simp add: st0_def scheduler_inv_def checks_hold_def)
  obtain r st1 db1 where run: "checkEligibleCollection opt access now (uuid ?i) c U st0 db = (r, st1, db1)"
    by (metis prod_cases3)
  from checkEligibleCollection_inv [OF assms(1,2) inv assms(4) run] run show ?thesis
    by (auto simp: eligibleStep_def Let_def st0_def [symmetric] scheduler_inv_def checks_hold_def
        split: option.splits bool.splits)
qed

lemma recheckLoop_inv:
  assumes "valid_limits opt" "calm L access" "head \<le> M"
  shows "scheduler_inv opt M L st db \<Longrightarrow>
    recheckLoop opt access now uuid head before ps replaced st db = (r, st', db') \<Longrightarrow> scheduler_inv opt M L st' db'"
proof (induction ps arbitrary: replaced st db)
  case (Cons p ps)
  show ?case
  proof (cases "getCollection (gs_collections db) (so_chainId opt) (hc_collectionId p)")
    case None
    with Cons show ?thesis by simp
  next
    case (Some c)
    obtain r1 st1 db1 where run: "recheckCollection opt access now (uuid (hc_collectionId p)) c head before st db =
        (r1, st1, db1)" by (metis prod_cases3)
    with Cons.IH [of st1 db1] recheckCollection_inv [OF assms(1,2) Cons.prems(1) assms(3) run] Cons.prems(2) Some show ?thesis
      by (auto split: option.splits)
  qed
qed simp

section \<open>All operations of the scheduler\<close>

text \<open>
  One operation of a scheduler at a head, while other processes keep the accounts up to block \<open>L\<close>: the
  operations of the scheduler itself, a reset, and what the other processes commit in between.
\<close>

inductive scheduler_step ::
  "SyncGapSchedulerOptions \<Rightarrow> int \<Rightarrow> int \<Rightarrow> SyncGapScheduler \<times> GapStore \<Rightarrow> SyncGapScheduler \<times> GapStore \<Rightarrow> bool"
  for opt L head
where
  scan_step: "calm L access \<Longrightarrow> scan opt access now uuid head st db = (r, st', db') \<Longrightarrow>
    scheduler_step opt L head (st, db) (st', db')"
| settle_step: "scheduler_step opt L head (st, db) (settleScan st, db)"
| reset_step: "scheduler_step opt L head (st, db) (resetDiscovery st, db)"
| resume_step: "calm L access \<Longrightarrow> recheckOnResume opt access now uuid head st db = (r, st', db') \<Longrightarrow>
    scheduler_step opt L head (st, db) (st', db')"
| eligible_step: "calm L access \<Longrightarrow> recheckNewlyEligible opt access now uuid head st db = (r, st', db') \<Longrightarrow>
    scheduler_step opt L head (st, db) (st', db')"
| head_step: "calm L access \<Longrightarrow> recheckFromHead opt access now uuid head st db = (r, st', db') \<Longrightarrow>
    scheduler_step opt L head (st, db) (st', db')"
| other_step: "evolves L db db' \<Longrightarrow> scheduler_step opt L head (st, db) (st, db')"

lemma scanPage_inv:
  assumes "valid_limits opt" "calm L access" "scheduler_inv opt M L st db" "L \<le> head" "head \<le> M"
    and "scanPage opt access now uuid head st db = (r, st', db')"
  shows "scheduler_inv opt M L st' db'"
proof (cases "valid_head head")
  case True
  define cs where "cs = listCollectionsForGapRepair (gs_collections db) (so_chainId opt) (sg_afterCollectionId st) (pageSize opt)"
  obtain st1 db1 where loop: "forCollections (scanStep opt access now uuid head) cs st db = (st1, db1)" by (meson surj_pair)
  have "scheduler_inv opt M L (fst (forCollections (scanStep opt access now uuid head) cs st db))
      (snd (forCollections (scanStep opt access now uuid head) cs st db))"
    by (rule forCollections_inv [where P = "scheduler_inv opt M L"]) (use assms(3) scanStep_inv [OF assms(1,2,4,5)] in auto)
  then have "scheduler_inv opt M L st1 db1" by (simp add: loop)
  moreover have "db' = db1 \<and> sg_eligibleChecked st' = sg_eligibleChecked st1"
    using assms(6) True loop by (auto simp: scanPage_def Let_def cs_def split: if_splits)
  ultimately show ?thesis by (simp add: scheduler_inv_def checks_hold_def)
qed (use assms(3,6) in \<open>simp add: scanPage_def\<close>)

lemma resetDiscovery_inv: "scheduler_inv opt M L st db \<Longrightarrow> scheduler_inv opt M L (resetDiscovery st) db"
  by (simp add: scheduler_inv_def checks_hold_def resetDiscovery_def)

lemma recheckOnResume_inv:
  assumes "valid_limits opt" "calm L access" "scheduler_inv opt M L st db" "L \<le> head" "head \<le> M"
    and "recheckOnResume opt access now uuid head st db = (r, st', db')"
  shows "scheduler_inv opt M L st' db'"
proof (cases "valid_head head")
  case True
  define t0 where "t0 = (case sg_resumeTraversal st of Some t \<Rightarrow> t
    | None \<Rightarrow> \<lparr> et_upperBound = head, et_afterCollectionId = 0, et_failed = False \<rparr>)"
  define U where "U = min (et_upperBound t0) head"
  define st0 where "st0 = st\<lparr> sg_resumeTraversal := Some (t0\<lparr> et_upperBound := U \<rparr>) \<rparr>"
  define cs where "cs = listCollectionsForGapRepair (gs_collections db) (so_chainId opt) (et_afterCollectionId t0) (pageSize opt)"
  obtain st1 db1 where loop: "forCollections (resumeStep opt access now uuid U) cs st0 db = (st1, db1)" by (meson surj_pair)
  have "scheduler_inv opt M L st0 db" using assms(3) by (simp add: st0_def scheduler_inv_def checks_hold_def)
  then have "scheduler_inv opt M L (fst (forCollections (resumeStep opt access now uuid U) cs st0 db))
      (snd (forCollections (resumeStep opt access now uuid U) cs st0 db))"
    by (rule forCollections_inv [where P = "scheduler_inv opt M L", rotated])
      (use resumeStep_inv [OF assms(1,2)] assms(5) U_def in auto)
  then have "scheduler_inv opt M L st1 db1" by (simp add: loop)
  moreover have "db' = db1 \<and> sg_eligibleChecked st' = sg_eligibleChecked st1"
    using assms(6) True loop by (auto simp: recheckOnResume_def Let_def cs_def st0_def U_def t0_def split: if_splits)
  ultimately show ?thesis by (simp add: scheduler_inv_def checks_hold_def)
qed (use assms(3,6) in \<open>simp add: recheckOnResume_def\<close>)

lemma recheckNewlyEligible_inv:
  assumes "valid_limits opt" "calm L access" "scheduler_inv opt M L st db" "L \<le> head" "head \<le> M"
    and run: "recheckNewlyEligible opt access now uuid head st db = (r, st', db')"
  shows "scheduler_inv opt M L st' db'"
proof (cases "valid_head head")
  case True
  define cur where "cur = (case sg_eligibleTraversal st of
    Some t \<Rightarrow> if et_upperBound t > head then None else Some t | None \<Rightarrow> None)"
  note run1 = run [unfolded recheckNewlyEligible_def Let_def, folded cur_def]
  show ?thesis
  proof (cases "cur = None \<and> (case sg_eligibleCompletedBound st of None \<Rightarrow> False | Some b \<Rightarrow> head \<le> b)")
    case skip: True
    then have "db' = db" "sg_eligibleChecked st' = sg_eligibleChecked st" using run1 True by auto
    with assms(3) show ?thesis by (simp add: scheduler_inv_def checks_hold_def)
  next
    case False
    define t0 where "t0 = (case cur of Some t \<Rightarrow> t
      | None \<Rightarrow> \<lparr> et_upperBound = head, et_afterCollectionId = 0, et_failed = False \<rparr>)"
    define cs where "cs = listCollectionsForGapRepair (gs_collections db) (so_chainId opt) (et_afterCollectionId t0) (pageSize opt)"
    define st0 where "st0 = st\<lparr> sg_eligibleTraversal := Some t0 \<rparr>"
    have U: "et_upperBound t0 \<le> M" using assms(5) by (auto simp: t0_def cur_def split: option.splits if_splits)
    obtain st1 db1 where loop: "forCollections (eligibleStep opt access now uuid (et_upperBound t0)) cs st0 db = (st1, db1)"
      by (meson surj_pair)
    have "scheduler_inv opt M L st0 db" using assms(3) by (simp add: st0_def scheduler_inv_def checks_hold_def)
    then have "scheduler_inv opt M L (fst (forCollections (eligibleStep opt access now uuid (et_upperBound t0)) cs st0 db))
        (snd (forCollections (eligibleStep opt access now uuid (et_upperBound t0)) cs st0 db))"
      by (rule forCollections_inv [where P = "scheduler_inv opt M L", rotated])
        (use eligibleStep_inv [OF assms(1,2) _ U] in auto)
    then have "scheduler_inv opt M L st1 db1" by (simp add: loop)
    moreover have "db' = db1 \<and> sg_eligibleChecked st' = sg_eligibleChecked st1"
      using run1 [folded t0_def, folded cs_def st0_def, unfolded loop prod.case] True False by (auto split: if_splits)
    ultimately show ?thesis by (simp add: scheduler_inv_def checks_hold_def)
  qed
qed (use assms(3) run in \<open>simp add: recheckNewlyEligible_def\<close>)

lemma recheckFromHead_inv:
  assumes "valid_limits opt" "calm L access" "scheduler_inv opt M L st db" "L \<le> head" "head \<le> M"
    and "recheckFromHead opt access now uuid head st db = (r, st', db')"
  shows "scheduler_inv opt M L st' db'"
proof (cases "valid_head head")
  case True
  note run = assms(6) [unfolded recheckFromHead_def Let_def, simplified True not_True_eq_False if_False]
  show ?thesis
    by (rule recheckLoop_inv [OF assms(1,2,5) _ run]) (use assms(3) in \<open>simp add: scheduler_inv_def checks_hold_def\<close>)
qed (use assms(3,6) in \<open>simp add: recheckFromHead_def\<close>)

lemma scheduler_step_inv:
  assumes "valid_limits opt" "scheduler_step opt L head s s'" "scheduler_inv opt M L (fst s) (snd s)"
    and heads: "L \<le> head" "head \<le> M"
  shows "scheduler_inv opt M L (fst s') (snd s')"
  using assms(2,3)
proof (cases rule: scheduler_step.cases)
  case (scan_step access now uuid st db r st' db')
  let ?st = "case sg_cycleCompletedAt st of
      Some t \<Rightarrow> if now - t \<ge> headRecheckIntervalMs opt then resetDiscovery st else st | None \<Rightarrow> st"
  have "scheduler_inv opt M L ?st db"
    using scan_step assms(3) by (auto simp: resetDiscovery_inv split: option.splits)
  note page = scanPage_inv [OF assms(1) scan_step(3) this heads]
  show ?thesis
  proof (cases "sg_active st")
    case None
    obtain m st2 db2 where run: "scanPage opt access now uuid head ?st db = (m, st2, db2)" by (metis prod_cases3)
    with None scan_step(4) have "st' = st2\<lparr> sg_active := Some m \<rparr>" "db' = db2"
      by (auto simp: scan_def Let_def)
    with page [OF run] scan_step(2) show ?thesis by (simp add: scheduler_inv_def checks_hold_def)
  qed (use scan_step assms(3) in \<open>auto simp: scan_def\<close>)
next
  case (other_step db db' st)
  with assms(3) scheduler_inv_evolves show ?thesis by auto
next
  case (settle_step st db)
  with assms(3) show ?thesis by (simp add: settleScan_def scheduler_inv_def checks_hold_def)
next
  case (reset_step st db)
  with assms(3) show ?thesis by (simp add: resetDiscovery_inv)
next
  case (resume_step access now uuid st db r st' db')
  with assms(3) recheckOnResume_inv [OF assms(1) resume_step(3) _ heads resume_step(4)] show ?thesis by simp
next
  case (eligible_step access now uuid st db r st' db')
  with assms(3) recheckNewlyEligible_inv [OF assms(1) eligible_step(3) _ heads eligible_step(4)] show ?thesis by simp
next
  case (head_step access now uuid st db r st' db')
  with assms(3) recheckFromHead_inv [OF assms(1) head_step(3) _ heads head_step(4)] show ?thesis by simp
qed

end
