(* ===== verification/Sync_Gap_Results.thy ===== *)
theory Sync_Gap_Results
  imports Sync_Gap_Invariant
begin

text \<open>
  Commits and the other writes of the repair work as steps that lose no missing block, the invariant of
  the scheduler over all its reachable states, and the batches it plans.
\<close>

section \<open>Repair progress\<close>

definition shortened :: "SyncGapRepairTarget \<Rightarrow> int \<Rightarrow> SyncGapRange option" where
  "shortened r t = (if t \<ge> gr_fromBlock r then Some \<lparr> gr_fromBlock = gr_fromBlock r, gr_toBlock = t \<rparr> else None)"

lemma remaining_shortened: "remainingSyncGapRepairRange r f = shortened r (f - 1)"
  by (simp add: remainingSyncGapRepairRange_def shortened_def)

text \<open>A repair may give up the upper blocks of its range once they are covered.\<close>

lemma record_evolves:
  assumes run: "recordRepairProgress c r (shortened r t) retryAt (gs_scans db) = (ok, scans)"
    and covered: "{t <.. gr_toBlock r} \<inter> {gr_fromBlock r ..} \<subseteq> store_covered db c (rt_collectionId r)"
  shows "evolves bound db (db\<lparr> gs_scans := scans \<rparr>)"
proof (cases "holds_repair (map_of (gs_scans db) (c, rt_collectionId r)) r")
  case False
  with run have "scans = gs_scans db" by (simp add: recordRepairProgress_def Let_def)
  then show ?thesis by simp
next
  case True
  let ?k = "(c, rt_collectionId r)" and ?C = "store_covered db c (rt_collectionId r)"
  from True obtain p q where p: "map_of (gs_scans db) ?k = Some p" and q: "gp_pending p = Some q"
    "gr_fromBlock q = gr_fromBlock r" "gr_toBlock q = gr_toBlock r"
    by (auto simp: holds_repair_def split: option.splits)
  define p' where "p' = p\<lparr> gp_pending := map_option (\<lambda>g. \<lparr> gr_fromBlock = gr_fromBlock g, gr_toBlock = gr_toBlock g,
      pr_repairId = rt_repairId r, pr_retryAt = retryAt \<rparr>) (shortened r t) \<rparr>"
  have scans: "map_of scans = (map_of (gs_scans db))(?k \<mapsto> p')"
    using run True p by (auto simp: recordRepairProgress_def Let_def map_of_map_entry p'_def shortened_def)
  have "progress_wf p \<Longrightarrow> progress_wf p'"
    using q by (auto simp: progress_wf_def p'_def shortened_def)
  moreover have "accounted ?C p B \<Longrightarrow> accounted ?C p' B" for B
    unfolding accounted_def
  proof (intro allI impI, elim conjE)
    fix b assume acc: "\<forall>b. gp_anchorBlock p \<le> b \<and> b \<le> B \<and> b \<notin> ?C \<longrightarrow>
        (\<exists>q. gp_pending p = Some q \<and> gr_fromBlock q \<le> b \<and> b \<le> gr_toBlock q) \<or> (\<exists>c. gp_cursorBlock p = Some c \<and> b \<le> c)"
      and b: "gp_anchorBlock p' \<le> b" "b \<le> B" "b \<notin> ?C"
    from covered b(3) have "gr_fromBlock r \<le> b \<Longrightarrow> b \<le> gr_toBlock r \<Longrightarrow> b \<le> t" by (meson IntI atLeast_iff greaterThanAtMost_iff not_le subsetD)
    with acc b q show "(\<exists>q. gp_pending p' = Some q \<and> gr_fromBlock q \<le> b \<and> b \<le> gr_toBlock q) \<or>
        (\<exists>c. gp_cursorBlock p' = Some c \<and> b \<le> c)"
      by (force simp: p'_def shortened_def)
  qed
  ultimately show ?thesis
    using p by (auto simp: evolves_def store_wf_def accounts_def getProgress_def scans p'_def)
qed

lemma deferRetry_evolves: "evolves bound db (db\<lparr> gs_scans := deferRetry c r retryAt (gs_scans db) \<rparr>)"
proof -
  let ?k = "(c, rt_collectionId r)" and ?f = "gp_pending_update (map_option (pr_retryAt_update (\<lambda>_. retryAt)))"
  have "progress_wf p \<Longrightarrow> progress_wf (?f p)" for p by (auto simp: progress_wf_def)
  moreover have "accounted C p B \<Longrightarrow> accounted C (?f p) B" for C p B
    by (auto simp: accounted_def)
  ultimately show ?thesis
    by (fastforce simp: evolves_def store_wf_def accounts_def getProgress_def deferRetry_def Let_def map_of_map_entry
        split: option.splits if_splits)
qed

lemma reconcile_evolves:
  assumes "store_wf db" "1 \<le> n"
    and run: "reconcileRepairCoverage (gs_coverage db) c r n now (gs_scans db) = (candidate, scans)"
  shows "evolves bound db (db\<lparr> gs_scans := scans \<rparr>)"
proof (cases "holds_repair (getProgress (gs_scans db) c (rt_collectionId r)) r")
  case False
  with run have "scans = gs_scans db" by (simp add: reconcileRepairCoverage_def)
  then show ?thesis by simp
next
  case True
  from assms(1) have d: "distinct (gs_coverage db)" by (simp add: store_wf_def)
  define w where "w = \<lparr> gr_fromBlock = max (gr_fromBlock r) (gr_toBlock r - n + 1), gr_toBlock = gr_toBlock r \<rparr>"
  define missing where "missing = findGap (gs_coverage db) c (rt_collectionId r) w n"
  define t where "t = (case missing of None \<Rightarrow> gr_fromBlock w - 1 | Some m \<Rightarrow> gr_toBlock m)"
  have scans: "scans = (if t \<noteq> gr_toBlock r
      then snd (recordRepairProgress c r (shortened r t) now (gs_scans db)) else gs_scans db)"
    using run [unfolded reconcileRepairCoverage_def Let_def, folded w_def, folded missing_def, folded t_def,
        folded shortened_def] True by auto
  have "{t <.. gr_toBlock r} \<subseteq> store_covered db c (rt_collectionId r)"
    using linear.search_None [OF d assms(2), of c "rt_collectionId r" w]
      linear.search_Some [OF d assms(2), of c "rt_collectionId r" w]
    by (cases missing) (auto simp: t_def missing_def w_def store_covered_def newest_gap_def subset_iff max_def
        split: if_splits)
  then show ?thesis
    unfolding scans using record_evolves [of c r t now db _ _ bound] by (auto simp: prod_eq_iff)
qed

section \<open>Commits\<close>

lemma set_persistCollectionSyncBlocks:
  "set (persistCollectionSyncBlocks c blocks cols rows) =
     set rows \<union> {(c, cr_collectionId col, hdr_number b) | col b. col \<in> set cols \<and> b \<in> set blocks}"
proof -
  have one: "set (fold (\<lambda>b. upsertCollectionSyncBlock (c, i, hdr_number b)) bs rows) =
      set rows \<union> {(c, i, hdr_number b) | b. b \<in> set bs}" for i bs rows
    by (induction bs arbitrary: rows) (auto simp: upsertCollectionSyncBlock_def)
  show ?thesis unfolding persistCollectionSyncBlocks_def
    by (induction cols arbitrary: rows) (auto simp: one)
qed

lemma distinct_persistCollectionSyncBlocks:
  "distinct rows \<Longrightarrow> distinct (persistCollectionSyncBlocks c blocks cols rows)"
proof -
  have one: "distinct rows \<Longrightarrow> distinct (fold (\<lambda>b. upsertCollectionSyncBlock (c, i, hdr_number b)) bs rows)" for i bs rows
    by (induction bs arbitrary: rows) (auto simp: upsertCollectionSyncBlock_def)
  then show "distinct rows \<Longrightarrow> distinct (persistCollectionSyncBlocks c blocks cols rows)"
    unfolding persistCollectionSyncBlocks_def by (induction cols arbitrary: rows) auto
qed

lemma persistSyncResult_coverage:
  assumes "persistSyncResult port result db = Inr db'"
  shows "db_collections db' = db_collections db \<and>
    db_coverage db' = persistCollectionSyncBlocks (cp_chainId (sr_checkpoint result)) (sr_blocks result)
      (sr_collections result) (db_coverage db)"
  using assms by (cases "fp_persist port (db_collections db) (cp_chainId (sr_checkpoint result)) (sr_blocks result)
      (sr_collections result) (oc_content (sr_data result)) (db_facts db)")
    (auto simp: persistSyncResult_def Let_def bindR_Inr_iff)

lemma coverage_evolves:
  assumes "distinct (gs_coverage db) \<Longrightarrow> distinct cov" "set (gs_coverage db) \<subseteq> set cov"
  shows "evolves bound db (db\<lparr> gs_coverage := cov \<rparr>)"
proof -
  have "store_covered db c i \<subseteq> store_covered (db\<lparr> gs_coverage := cov \<rparr>) c i" for c i
    using assms(2) by (auto simp: store_covered_def covered_def)
  then show ?thesis
    using assms(1) accounted_mono [OF _ _ order_refl] by (fastforce simp: evolves_def store_wf_def accounts_def)
qed

lemma covers_range_blocks:
  assumes "covers_range blocks f t" "f \<le> b" "b \<le> t"
  shows "\<exists>h \<in> set blocks. hdr_number h = b"
proof -
  let ?k = "nat (b - f)"
  from assms have "?k < length blocks" "hdr_number (blocks ! ?k) = b" by (auto simp: covers_range_def)
  then show ?thesis using nth_mem by blast
qed

lemma recordRepairs_evolves:
  assumes "\<forall>r \<in> set rs. {f .. gr_toBlock r} \<subseteq> store_covered db c (rt_collectionId r)"
    and "recordRepairs c f retryAt rs (gs_scans db) = Inr scans"
  shows "evolves bound db (db\<lparr> gs_scans := scans \<rparr>)"
  using assms
proof (induction rs arbitrary: db)
  case (Cons r rs)
  from Cons.prems(2) obtain scans1 where
    one: "recordRepairProgress c r (shortened r (f - 1)) retryAt (gs_scans db) = (True, scans1)"
    and rest: "recordRepairs c f retryAt rs scans1 = Inr scans"
    by (auto simp: remaining_shortened split: prod.splits bool.splits)
  have "{f - 1 <.. gr_toBlock r} \<inter> {gr_fromBlock r ..} \<subseteq> store_covered db c (rt_collectionId r)"
    using Cons.prems(1) by (auto simp: subset_iff)
  then have "evolves bound db (db\<lparr> gs_scans := scans1 \<rparr>)" by (rule record_evolves [OF one])
  moreover have "evolves bound (db\<lparr> gs_scans := scans1 \<rparr>) ((db\<lparr> gs_scans := scans1 \<rparr>)\<lparr> gs_scans := scans \<rparr>)"
    using Cons.prems(1) rest by (intro Cons.IH) auto
  ultimately show ?case by (auto intro: evolves_trans)
qed (auto simp: evolves_def)

lemma assertRepairMembers_Inr:
  "assertRepairMembers cols scans c batch rs acquired = Inr u \<Longrightarrow>
     \<forall>r \<in> set rs. rt_collectionId r \<in> set acquired \<and> gr_fromBlock r \<le> gr_fromBlock batch \<and> gr_toBlock r = gr_toBlock batch \<and>
       isCurrentSyncGapRepair c r (getCollection cols c (rt_collectionId r)) (getProgress scans c (rt_collectionId r))"
proof (induction rs arbitrary: acquired)
  case (Cons r rs)
  have "set (removeAll (rt_collectionId r) acquired) \<subseteq> set acquired" by auto
  with Cons.IH [of "removeAll (rt_collectionId r) acquired"] Cons.prems show ?case
    by (auto split: if_splits simp del: set_removeAll)
qed simp

lemma liftConflict_Inr_iff [simp]: "liftConflict f r = Inr x \<longleftrightarrow> r = Inr x"
  by (cases r) (simp_all add: liftConflict_def)

lemma completeResyncRange_chain:
  assumes "completeResyncRange rng n t db = Inr (True, db')"
  shows "idb_chain db' = idb_chain db"
proof -
  from assms obtain current where current: "getRecovery db (rg_chainId rng) = Inr current"
    by (auto simp: completeResyncRange_def bindR_Inr_iff)
  note run = assms [unfolded completeResyncRange_def current bindR_simps]
  show ?thesis
  proof (cases current)
    case (Some s)
    show ?thesis
    proof (cases s)
      case (Resync r)
      with Some run show ?thesis
        by (cases "advanceReorgResync r n t") (auto simp: bindR_Inr_iff saveRecovery_def removeRecovery_def split: if_splits)
    qed (use Some run in simp)
  qed (use run in simp)
qed

text \<open>The effect of a commit on what the gap store reads.\<close>

lemma commitSyncRange_store:
  assumes "commitSyncRange port input db = Inr db'"
  shows "evolves bound (gap_store db) (gap_store db')"
proof -
  let ?result = "sc_result input" and ?c = "cp_chainId (sr_checkpoint (sc_result input))"
  from assms obtain chain outbox u where
    current: "assertCurrentWork ?result (sc_completion input) db = Inr u"
    and persist: "persistSyncResult port ?result (sd_chain db) = Inr chain"
    and work: "completeWork ?c (sc_completion input)
      (db\<lparr> sd_indexer := (sd_indexer db)\<lparr> idb_chain := chain \<rparr>, sd_outbox := outbox \<rparr>) = Inr db'"
    by (auto simp: commitSyncRange_def Let_def bindR_Inr_iff)
  define cov where "cov = persistCollectionSyncBlocks ?c (sr_blocks ?result) (sr_collections ?result) (db_coverage (sd_chain db))"
  note chain = persistSyncResult_coverage [OF persist, folded cov_def]
  define mid where "mid = (gap_store db)\<lparr> gs_coverage := cov \<rparr>"
  have ev: "evolves bound (gap_store db) mid"
    unfolding mid_def by (rule coverage_evolves)
      (auto simp: gap_store_def cov_def distinct_persistCollectionSyncBlocks set_persistCollectionSyncBlocks)
  show ?thesis
  proof (cases "sc_completion input")
    case Unmanaged
    with work chain have "gap_store db' = mid" by (auto simp: completeWork_def gap_store_def mid_def sd_chain_def)
    with ev show ?thesis by simp
  next
    case (ReorgRange rng n t)
    with work obtain indexer where
      "completeResyncRange rng n t ((sd_indexer db)\<lparr> idb_chain := chain \<rparr>) = Inr (True, indexer)"
      and db': "sd_indexer db' = indexer" "sd_scans db' = sd_scans db"
      by (auto simp: completeWork_def bindR_Inr_iff liftConflict_Inr_iff split: if_splits)
    then have "idb_chain indexer = chain" by (auto dest: completeResyncRange_chain)
    with db' chain have "gap_store db' = mid" by (simp add: gap_store_def mid_def sd_chain_def)
    with ev show ?thesis by simp
  next
    case (GapRepair batch t)
    from current GapRepair obtain v where cover: "covers_range (sr_blocks ?result) (gr_fromBlock batch) (gr_toBlock batch)"
      and members: "assertRepairMembers (db_collections (sd_chain db)) (sd_scans db) ?c batch (gb_repairs batch)
        (remdups (map cr_collectionId (sr_collections ?result))) = Inr v"
      by (auto simp: assertCurrentWork_def assertSyncBlocksCoverRange_def Let_def bindR_Inr_iff split: if_splits)
    from work GapRepair obtain scans where
      recs: "recordRepairs ?c (gr_fromBlock batch) t (gb_repairs batch) (sd_scans db) = Inr scans"
      and db': "gap_store db' = mid\<lparr> gs_scans := scans \<rparr>"
      using chain by (auto simp: completeWork_def bindR_Inr_iff gap_store_def mid_def sd_chain_def)
    have "{gr_fromBlock batch .. gr_toBlock r} \<subseteq> store_covered mid ?c (rt_collectionId r)"
      if "r \<in> set (gb_repairs batch)" for r
    proof
      fix b assume "b \<in> {gr_fromBlock batch .. gr_toBlock r}"
      moreover from assertRepairMembers_Inr [OF members] that
      have "rt_collectionId r \<in> cr_collectionId ` set (sr_collections ?result)" "gr_toBlock r = gr_toBlock batch" by auto
      ultimately show "b \<in> store_covered mid ?c (rt_collectionId r)"
        using covers_range_blocks [OF cover, of b]
        by (auto simp: store_covered_def mid_def covered_def cov_def set_persistCollectionSyncBlocks)
    qed
    moreover have "gs_scans mid = sd_scans db" by (simp add: mid_def gap_store_def)
    ultimately have "evolves bound mid (mid\<lparr> gs_scans := scans \<rparr>)"
      using recs by (intro recordRepairs_evolves) auto
    with ev show ?thesis unfolding db' by (rule evolves_trans)
  qed
qed

section \<open>Reachable states\<close>

text \<open>
  A scheduler and its store over time, at whatever heads the provider reports, with other processes
  committing in between.  \<open>low\<close> is \<open>None\<close> as long as no reported head lay below an earlier one, and then
  the lowest head since; it is forgotten when the scheduler has discarded what it has checked.  Other
  processes keep the accounts up to \<open>reach\<close>.  A rollback deletes coverage; it advances the
  revision of the chain, on which the executor resets the scheduler before its next operation.
\<close>

definition lowest :: "int \<Rightarrow> int option \<Rightarrow> int \<Rightarrow> int option" where
  "lowest head low head' =
     (if head' < head then Some (case low of None \<Rightarrow> head' | Some m \<Rightarrow> min m head')
      else map_option (min head') low)"

definition reach :: "int \<Rightarrow> int option \<Rightarrow> int" where
  "reach b low = (case low of None \<Rightarrow> b | Some m \<Rightarrow> min m b)"

inductive scheduler_run ::
  "SyncGapSchedulerOptions \<Rightarrow> int \<Rightarrow> int option \<Rightarrow> SyncGapScheduler \<times> GapStore \<Rightarrow> bool" for opt where
  run_start: "store_wf db \<Longrightarrow> scheduler_run opt head None (SyncGapScheduler_new, db)"
| run_step: "scheduler_run opt head low s \<Longrightarrow> low' = lowest head low head' \<Longrightarrow>
    scheduler_step opt (reach head' low') head' s s' \<Longrightarrow> scheduler_run opt head' low' s'"
| run_forget: "scheduler_run opt head low (st, db) \<Longrightarrow> sg_eligibleChecked st = [] \<Longrightarrow>
    scheduler_run opt head None (st, db)"
| run_rollback: "scheduler_run opt head low (st, db) \<Longrightarrow>
    scheduler_run opt head None (resetDiscovery st,
      db\<lparr> gs_coverage := deleteCollectionSyncBlocksFromBlock chainId fromBlock (gs_coverage db) \<rparr>)"

definition run_inv :: "SyncGapSchedulerOptions \<Rightarrow> int \<Rightarrow> int option \<Rightarrow> SyncGapScheduler \<Rightarrow> GapStore \<Rightarrow> bool" where
  "run_inv opt head low st db \<longleftrightarrow>
     (case low of None \<Rightarrow> scheduler_inv opt head head st db
      | Some m \<Rightarrow> m \<le> head \<and> (\<exists>M \<ge> head. scheduler_inv opt M m st db))"

lemma scheduler_inv_weaken:
  assumes "scheduler_inv opt M L st db" "M \<le> M'" "L' \<le> L"
  shows "scheduler_inv opt M' L' st db"
proof -
  have less: "accounts db c i a (min L' u)" if "accounts db c i a (min L u)" for c i a u
  proof -
    have "min L' u \<le> min L u" using assms(3) by auto
    then show ?thesis using that accounted_mono [OF _ order_refl] unfolding accounts_def by blast
  qed
  show ?thesis using assms(1,2) less unfolding scheduler_inv_def checks_hold_def by (meson order_trans)
qed

lemma scheduler_inv_raise:
  assumes "scheduler_inv opt head head st db" "head \<le> head'"
  shows "scheduler_inv opt head' head' st db"
proof -
  have "min head u = min head' u" if "u \<le> head" for u using that assms(2) by simp
  then show ?thesis
    using assms unfolding scheduler_inv_def checks_hold_def by (metis order_trans)
qed

text \<open>A new head, before the operation at it.\<close>

lemma run_inv_head:
  assumes "run_inv opt head low st db" and "low' = lowest head low head'"
  shows "\<exists>M. head' \<le> M \<and> reach head' low' \<le> head' \<and> scheduler_inv opt M (reach head' low') st db \<and>
    (low' = None \<longrightarrow> M = head') \<and> (\<forall>m. low' = Some m \<longrightarrow> m \<le> head')"
proof (cases low)
  case None
  show ?thesis
  proof (cases "head' < head")
    case True
    with None assms have "scheduler_inv opt head head' st db" "low' = Some head'"
      using scheduler_inv_weaken [of opt head head st db head head'] by (auto simp: run_inv_def lowest_def)
    with True show ?thesis by (intro exI [of _ head]) (simp add: reach_def)
  next
    case False
    with None assms have "scheduler_inv opt head' head' st db" "low' = None"
      using scheduler_inv_raise by (auto simp: run_inv_def lowest_def)
    then show ?thesis by (simp add: reach_def)
  qed
next
  case (Some m)
  with assms(1) obtain M where M: "head \<le> M" "scheduler_inv opt M m st db" and m: "m \<le> head" by (auto simp: run_inv_def)
  have low': "low' = Some (min m head')" using Some assms(2) by (auto simp: lowest_def min.commute)
  have "scheduler_inv opt (max M head') (min m head') st db"
    by (rule scheduler_inv_weaken [OF M(2)]) simp_all
  then show ?thesis by (intro exI [of _ "max M head'"]) (simp add: low' reach_def)
qed

lemma scheduler_run_inv:
  assumes "valid_limits opt" "scheduler_run opt head low s"
  shows "run_inv opt head low (fst s) (snd s)"
  using assms(2)
proof induction
  case (run_start db head)
  then show ?case by (simp add: run_inv_def scheduler_inv_def checks_hold_def SyncGapScheduler_new_def)
next
  case (run_step head low s low' head' s')
  from run_inv_head [OF run_step.IH run_step.hyps(2)] obtain M where
    M: "head' \<le> M" "reach head' low' \<le> head'" "scheduler_inv opt M (reach head' low') (fst s) (snd s)"
    "low' = None \<longrightarrow> M = head'" "\<forall>m. low' = Some m \<longrightarrow> m \<le> head'" by blast
  from scheduler_step_inv [OF assms(1) run_step.hyps(3) M(3,2,1)]
  have "scheduler_inv opt M (reach head' low') (fst s') (snd s')" .
  with M show ?case by (cases low') (auto simp: run_inv_def reach_def min_absorb1)
next
  case (run_forget head low st db)
  then have "store_wf db" by (auto simp: run_inv_def scheduler_inv_def split: option.splits)
  with run_forget.hyps(2) show ?case by (simp add: run_inv_def scheduler_inv_def checks_hold_def)
next
  case (run_rollback head low st db chainId fromBlock)
  then have "store_wf db" by (auto simp: run_inv_def scheduler_inv_def split: option.splits)
  then show ?case
    by (simp add: run_inv_def scheduler_inv_def checks_hold_def resetDiscovery_def store_wf_def
        deleteCollectionSyncBlocksFromBlock_def)
qed

text \<open>
  C6. The scheduler loses no missing block.  At every moment of a run, for every collection and every bound
  it has recorded as checked, each block from the anchor to the bound is covered, or lies in the retained
  repair of the collection, or lies below the cursor from which the search continues; and if no repair
  is retained and no cursor is left, the whole range is covered.  This holds up to the bound as long
  as no head the provider reported lay below an earlier one, and otherwise for the blocks up to the
  lowest head since then, until the scheduler discards what it has checked.  Failed accesses and lost
  compare-and-set races at any point are included, and so are writes of other processes between any
  two accesses that themselves give up no such block, as commits do; a rollback comes with the
  reset that the executor does before its next operation.
\<close>

theorem checked_blocks_stay_accounted_for:
  assumes "valid_limits opt" and "scheduler_run opt head low (st, db)"
    and "map_of (sg_eligibleChecked st) i = Some k"
    and "getProgress (gs_scans db) (so_chainId opt) i = Some p" and "gp_anchorBlock p = ec_anchorBlock k"
    and "bound = (case low of None \<Rightarrow> ec_upperBound k | Some m \<Rightarrow> min m (ec_upperBound k))"
  shows "(\<forall>b. gp_anchorBlock p \<le> b \<and> b \<le> bound \<and> b \<notin> covered (gs_coverage db) (so_chainId opt) i \<longrightarrow>
      (\<exists>q. gp_pending p = Some q \<and> gr_fromBlock q \<le> b \<and> b \<le> gr_toBlock q) \<or>
      (\<exists>c. gp_cursorBlock p = Some c \<and> b \<le> c)) \<and>
    (gp_pending p = None \<and> gp_cursorBlock p = None \<longrightarrow>
      {gp_anchorBlock p .. bound} \<subseteq> covered (gs_coverage db) (so_chainId opt) i)"
proof -
  from scheduler_run_inv [OF assms(1,2)] obtain M where
    inv: "scheduler_inv opt M (case low of None \<Rightarrow> M | Some m \<Rightarrow> m) st db"
    by (auto simp: run_inv_def split: option.splits)
  then have "ec_upperBound k \<le> M"
    "accounts db (so_chainId opt) i (ec_anchorBlock k) (min (case low of None \<Rightarrow> M | Some m \<Rightarrow> m) (ec_upperBound k))"
    using assms(3) by (auto simp: scheduler_inv_def checks_hold_def)
  then have "accounts db (so_chainId opt) i (ec_anchorBlock k) bound"
    by (cases low) (simp_all add: assms(6) min_absorb2)
  then have "accounted (covered (gs_coverage db) (so_chainId opt) i) p bound"
    using assms(4,5) by (simp add: accounts_def store_covered_def)
  from this accounted_finished [OF this] show ?thesis unfolding accounted_def by blast
qed

text \<open>
  C14. A commit gives up a block of a retained repair only once it is covered: whatever blocks the progress of
  any collection accounted for before a successful commit, it accounts for afterwards while its anchor is
  the same, coverage only grows and the table keeps its checks.
\<close>

theorem commit_keeps_missing_blocks_accounted_for:
  assumes "commitSyncRange port input db = Inr db'" and "store_wf (gap_store db)"
  shows "store_wf (gap_store db') \<and>
    covered (db_coverage (sd_chain db)) c i \<subseteq> covered (db_coverage (sd_chain db')) c i \<and>
    (\<forall>p p' B. getProgress (sd_scans db) c i = Some p \<and> accounted (covered (db_coverage (sd_chain db)) c i) p B \<and>
        getProgress (sd_scans db') c i = Some p' \<and> gp_anchorBlock p' = gp_anchorBlock p \<longrightarrow>
      accounted (covered (db_coverage (sd_chain db')) c i) p' B)"
proof (intro conjI allI impI)
  have ev: "evolves B (gap_store db) (gap_store db')" for B by (rule commitSyncRange_store [OF assms(1)])
  with assms(2) show "store_wf (gap_store db')" by (auto simp: evolves_def)
  from ev [of 0] show "covered (db_coverage (sd_chain db)) c i \<subseteq> covered (db_coverage (sd_chain db')) c i"
    by (auto simp: evolves_def store_covered_def gap_store_def)
  fix p p' B
  assume p: "getProgress (sd_scans db) c i = Some p \<and> accounted (covered (db_coverage (sd_chain db)) c i) p B \<and>
    getProgress (sd_scans db') c i = Some p' \<and> gp_anchorBlock p' = gp_anchorBlock p"
  then have "accounts (gap_store db) c i (gp_anchorBlock p) B" by (simp add: accounts_def gap_store_def store_covered_def)
  with ev [of B] assms(2) have "accounts (gap_store db') c i (gp_anchorBlock p) B" by (auto simp: evolves_def)
  with p show "accounted (covered (db_coverage (sd_chain db')) c i) p' B"
    by (simp add: accounts_def gap_store_def store_covered_def)
qed

section \<open>Batches\<close>

lemma fold_max_start: "x \<le> fold (\<lambda>c f. max f (h c)) cs (x :: int)"
proof (induction cs arbitrary: x)
  case (Cons c cs)
  show ?case using order_trans [OF max.cobounded1 Cons.IH] by simp
qed simp

lemma fold_max_member: "c \<in> set cs \<Longrightarrow> h c \<le> fold (\<lambda>c f. max f (h c)) cs (x :: int)"
proof (induction cs arbitrary: x)
  case (Cons d cs)
  then show ?case using order_trans [OF max.cobounded2 fold_max_start] by auto
qed simp

lemma fold_max_upper: "x \<le> u \<Longrightarrow> (\<forall>c \<in> set cs. h c \<le> u) \<Longrightarrow> fold (\<lambda>c f. max f (h c)) cs (x :: int) \<le> u"
  by (induction cs arbitrary: x) auto

definition batch_fits :: "int \<Rightarrow> SyncGapRepairCandidate list \<Rightarrow> SyncGapRepairBatch \<Rightarrow> bool" where
  "batch_fits n members b \<longleftrightarrow>
     mset (gb_repairs b) = mset (map gc_repair members) \<and> sorted (map rt_collectionId (gb_repairs b)) \<and>
     gr_fromBlock b \<le> gr_toBlock b \<and> gr_toBlock b - gr_fromBlock b < n \<and>
     (\<forall>m \<in> set members. gr_toBlock (gc_missing m) = gr_toBlock b \<and> gr_fromBlock (gc_missing m) \<le> gr_fromBlock b)"

lemma batch_of_fits:
  assumes "1 \<le> n" "\<forall>m \<in> set (first # members). gr_fromBlock (gc_missing m) \<le> gr_toBlock (gc_missing m)"
    "\<forall>m \<in> set members. same_top first m"
  shows "batch_fits n (first # members) (batch_of n first members)"
proof -
  let ?x = "max (gr_fromBlock (gc_missing first)) (gr_toBlock (gc_missing first) - n + 1)"
  have "fold (\<lambda>c f. max f (gr_fromBlock (gc_missing c))) members ?x \<le> gr_toBlock (gc_missing first)"
    using assms by (intro fold_max_upper) (auto simp: same_top_def)
  moreover have "?x \<le> fold (\<lambda>c f. max f (gr_fromBlock (gc_missing c))) members ?x" by (rule fold_max_start)
  moreover have "gr_fromBlock (gc_missing m) \<le> fold (\<lambda>c f. max f (gr_fromBlock (gc_missing c))) members ?x"
    if "m \<in> set members" for m by (rule fold_max_member [OF that])
  ultimately show ?thesis
    using assms(3) by (auto simp: batch_fits_def batch_of_def Let_def same_top_def sorted_insort_key)
qed

lemma planLoop_batches:
  "1 \<le> n \<Longrightarrow> (\<forall>m \<in> set cs. gr_fromBlock (gc_missing m) \<le> gr_toBlock (gc_missing m)) \<Longrightarrow>
    sorted (map plan_order cs) \<Longrightarrow>
    (\<exists>groups. concat groups = cs \<and> list_all2 (batch_fits n) groups (planLoop n cs)) \<and>
    sorted_wrt (\<lambda>a b. gr_toBlock a > gr_toBlock b) (planLoop n cs) \<and>
    (\<forall>b \<in> set (planLoop n cs). \<exists>m \<in> set cs. gr_toBlock b = gr_toBlock (gc_missing m))"
proof (induction n cs rule: planLoop.induct)
  case (2 n first pending)
  let ?t = "takeWhile (same_top first) pending" and ?d = "dropWhile (same_top first) pending"
  have set_d: "set ?d \<subseteq> set pending" using set_dropWhileD by fastforce
  have sorted_d: "sorted (map plan_order ?d)"
    using 2(4) by (metis dropWhile_eq_drop drop_map list.simps(9) sorted_simps(2) sorted_wrt_drop)
  with 2(1) 2(2,3) set_d obtain groups where
    IH: "concat groups = ?d" "list_all2 (batch_fits n) groups (planLoop n ?d)"
      "sorted_wrt (\<lambda>a b. gr_toBlock a > gr_toBlock b) (planLoop n ?d)"
      "\<forall>b \<in> set (planLoop n ?d). \<exists>m \<in> set ?d. gr_toBlock b = gr_toBlock (gc_missing m)"
    by (metis list.set_intros(2) subsetD)
  have first: "batch_fits n (first # ?t) (batch_of n first ?t)"
    using 2(2,3) by (intro batch_of_fits) (auto dest: set_takeWhileD)
  have below: "gr_toBlock (gc_missing m) < gr_toBlock (gc_missing first)" if "m \<in> set ?d" for m
  proof -
    have le: "gr_toBlock (gc_missing x) \<le> gr_toBlock (gc_missing y)"
      if "plan_order y \<le> plan_order x" for x y using that by (auto simp: plan_order_def)
    from that obtain x xs where d: "?d = x # xs" by (cases ?d) auto
    then have "\<not> same_top first x" using hd_dropWhile [of "same_top first" pending] by auto
    moreover have "x \<in> set pending" using d set_d by auto
    then have "plan_order first \<le> plan_order x" using 2(4) by simp
    ultimately have "gr_toBlock (gc_missing x) < gr_toBlock (gc_missing first)" using le by (force simp: same_top_def)
    moreover have "plan_order x \<le> plan_order m" using sorted_d that d by auto
    ultimately show ?thesis using le [of x m] by simp
  qed
  have top: "gr_toBlock (batch_of n first ?t) = gr_toBlock (gc_missing first)" by (simp add: batch_of_def Let_def)
  have "concat ((first # ?t) # groups) = first # pending" using IH(1) by simp
  moreover have "list_all2 (batch_fits n) ((first # ?t) # groups) (planLoop n (first # pending))"
    using first IH(2) by simp
  moreover have "sorted_wrt (\<lambda>a b. gr_toBlock a > gr_toBlock b) (planLoop n (first # pending))"
    using IH(3,4) below top by fastforce
  moreover have "\<forall>b \<in> set (planLoop n (first # pending)). \<exists>m \<in> set (first # pending). gr_toBlock b = gr_toBlock (gc_missing m)"
    using IH(4) top set_d by fastforce
  ultimately show ?case by blast
qed simp

text \<open>
  Planning repair batches: every candidate is in exactly one batch; a batch is non-empty, at most as long as
  a batch may be, ends where the missing range of each of its members ends and starts within it; the
  batches come newest first, one per upper end.
\<close>

theorem repair_batches_partition_candidates:
  assumes "planSyncGapRepairBatches candidates batchSize = Inr batches"
    and "\<forall>m \<in> set candidates. gr_fromBlock (gc_missing m) \<le> gr_toBlock (gc_missing m)"
  shows "(\<exists>groups. mset (concat groups) = mset candidates \<and> list_all2 (batch_fits batchSize) groups batches) \<and>
    sorted_wrt (\<lambda>a b. gr_toBlock a > gr_toBlock b) batches"
proof -
  from assms(1) have n: "1 \<le> batchSize" and b: "batches = planLoop batchSize (sort_key plan_order candidates)"
    by (auto simp: planSyncGapRepairBatches_def split: if_splits)
  from planLoop_batches [OF n, of "sort_key plan_order candidates"] assms(2) obtain groups where
    "concat groups = sort_key plan_order candidates" "list_all2 (batch_fits batchSize) groups batches"
    and sorted: "sorted_wrt (\<lambda>a b. gr_toBlock a > gr_toBlock b) batches" by (auto simp: b)
  with mset_sort show ?thesis by metis
qed

end
