(* ===== verification/Sync_Gap_Samples.thy ===== *)
theory Sync_Gap_Samples
  imports Sync_Gap_Results
begin

text \<open>
  A collection with anchor 5 of which blocks 7 and 8 are missing below head 10: the scheduler finds them,
  retains the repair, and the commit of the two blocks completes it.
\<close>

definition gap_coverage :: Coverage where
  "gap_coverage = [(1, 7, 5), (1, 7, 6), (1, 7, 9), (1, 7, 10), (1, 8, 7)]"

theorem newest_gap_search_is_exact_witness:
  "findNewestGap gap_coverage 1 7 \<lparr> gr_fromBlock = 5, gr_toBlock = 10 \<rparr> 4 = Some \<lparr> gr_fromBlock = 7, gr_toBlock = 8 \<rparr> \<and>
   findGap gap_coverage 1 7 \<lparr> gr_fromBlock = 5, gr_toBlock = 10 \<rparr> 4 = Some \<lparr> gr_fromBlock = 7, gr_toBlock = 8 \<rparr> \<and>
   newest_gap (covered gap_coverage 1 7) 5 10 4 \<lparr> gr_fromBlock = 7, gr_toBlock = 8 \<rparr>"
proof -
  have "distinct gap_coverage" by code_simp
  moreover have "findNewestGap gap_coverage 1 7 \<lparr> gr_fromBlock = 5, gr_toBlock = 10 \<rparr> 4 =
      Some \<lparr> gr_fromBlock = 7, gr_toBlock = 8 \<rparr>" by code_simp
  ultimately show ?thesis
    using newest_gap_search_is_exact [of gap_coverage 4 1 7 "\<lparr> gr_fromBlock = 5, gr_toBlock = 10 \<rparr>"] by simp
qed

definition gap_options :: SyncGapSchedulerOptions where
  "gap_options = \<lparr> so_chainId = 1, so_batchSize = 4, so_scanWindowBlocks = None, so_collectionsPerPass = None,
                   so_headRecheckIntervalMs = None \<rparr>"

definition gap_collection :: CollectionRow where
  "gap_collection = \<lparr> cr_chainId = 1, cr_collectionId = 7, cr_address = ''0xc'', cr_standard = Erc721,
                      cr_status = Live, cr_anchor = Some 5 \<rparr>"

definition gap_tables :: GapStore where
  "gap_tables = \<lparr> gs_coverage = gap_coverage, gs_scans = [], gs_collections = [gap_collection] \<rparr>"

definition gap_scanned :: "bool \<times> SyncGapScheduler \<times> GapStore" where
  "gap_scanned = scan gap_options (\<lambda>_ _ db. Some db) 1000 (\<lambda>_. ''u'') 10 SyncGapScheduler_new gap_tables"

definition gap_pending :: SyncGapProgress where
  "gap_pending = \<lparr> gp_anchorBlock = 5, gp_cursorBlock = Some 6,
     gp_pending = Some \<lparr> gr_fromBlock = 7, gr_toBlock = 8, pr_repairId = ''sync:gap:1:7:u'', pr_retryAt = 1000 \<rparr>,
     gp_lastHeadCheckAt = Some 1000 \<rparr>"

lemma gap_scanned_values:
  "map_of (sg_eligibleChecked (fst (snd gap_scanned))) 7 = Some \<lparr> ec_anchorBlock = 5, ec_upperBound = 10 \<rparr>"
  "gs_scans (snd (snd gap_scanned)) = [((1, 7), gap_pending)]"
  "gs_coverage (snd (snd gap_scanned)) = gap_coverage"
  by code_simp+

lemma gap_tables_wf: "store_wf gap_tables"
proof -
  have "distinct gap_coverage" by code_simp
  then show ?thesis by (simp add: store_wf_def gap_tables_def)
qed

theorem checked_blocks_stay_accounted_for_witness:
  "(8::int) \<notin> covered gap_coverage 1 7 \<and>
   (\<exists>q. gp_pending gap_pending = Some q \<and> gr_fromBlock q \<le> 8 \<and> 8 \<le> gr_toBlock q)"
proof -
  obtain r st db where run: "gap_scanned = (r, st, db)" by (metis prod_cases3)
  have "scheduler_run gap_options 10 None (SyncGapScheduler_new, gap_tables)" by (rule run_start [OF gap_tables_wf])
  moreover have "scheduler_step gap_options (reach 10 None) 10 (SyncGapScheduler_new, gap_tables) (st, db)"
    by (rule scan_step [OF _ run [unfolded gap_scanned_def]]) (simp add: calm_def)
  ultimately have reach: "scheduler_run gap_options 10 None (st, db)" using run_step [of gap_options 10 None _ None 10] by (simp_all add: lowest_def)
  have valid: "valid_limits gap_options" by code_simp
  note vals = gap_scanned_values [unfolded run fst_conv snd_conv]
  have p: "getProgress (gs_scans db) (so_chainId gap_options) 7 = Some gap_pending"
    "gp_anchorBlock gap_pending = ec_anchorBlock \<lparr> ec_anchorBlock = 5, ec_upperBound = 10 \<rparr>"
    by (simp_all add: getProgress_def vals gap_options_def gap_pending_def)
  have missing: "(8::int) \<notin> covered gap_coverage 1 7" by (simp add: covered_def gap_coverage_def)
  from checked_blocks_stay_accounted_for [OF valid reach vals(1) p refl] missing vals(3)
  show ?thesis by (fastforce simp: gap_pending_def gap_options_def)
qed

definition gap_repair :: SyncGapRepairTarget where
  "gap_repair = \<lparr> gr_fromBlock = 7, gr_toBlock = 8, rt_collectionId = 7, rt_repairId = ''sync:gap:1:7:u'',
                  rt_anchorBlock = 5 \<rparr>"

definition gap_candidate :: "int \<Rightarrow> int \<Rightarrow> int \<Rightarrow> SyncGapRepairCandidate" where
  "gap_candidate i f t =
     \<lparr> gc_repair = gap_repair\<lparr> rt_collectionId := i, gr_fromBlock := f, gr_toBlock := t \<rparr>,
       gc_missing = \<lparr> gr_fromBlock = f, gr_toBlock = t \<rparr> \<rparr>"

theorem repair_batches_partition_candidates_witness:
  "\<exists>batches. planSyncGapRepairBatches [gap_candidate 9 1 3, gap_candidate 8 6 9, gap_candidate 7 7 9] 4 = Inr batches \<and>
     length batches = 2 \<and> sorted_wrt (\<lambda>a b. gr_toBlock a > gr_toBlock b) batches"
proof -
  define batches where "batches = projr (planSyncGapRepairBatches
    [gap_candidate 9 1 3, gap_candidate 8 6 9, gap_candidate 7 7 9] 4)"
  have plan: "planSyncGapRepairBatches [gap_candidate 9 1 3, gap_candidate 8 6 9, gap_candidate 7 7 9] 4 = Inr batches"
    and "length batches = 2" unfolding batches_def by code_simp+
  moreover have "\<forall>m \<in> set [gap_candidate 9 1 3, gap_candidate 8 6 9, gap_candidate 7 7 9].
      gr_fromBlock (gc_missing m) \<le> gr_toBlock (gc_missing m)" by code_simp
  ultimately show ?thesis using repair_batches_partition_candidates [OF plan] by blast
qed

section \<open>The commit of the repair\<close>

definition gap_port :: "(unit, unit) FactsPort" where
  "gap_port = \<lparr> fp_tokens = (\<lambda>_ _ _ _. []), fp_persist = (\<lambda>_ _ _ _ _ f. Inr f), fp_rollback = (\<lambda>_ _ _ _ f. Inr f) \<rparr>"

definition gap_db :: "unit SyncDb" where
  "gap_db =
     \<lparr> sd_indexer = \<lparr> idb_chain = \<lparr> db_blocks = [], db_coverage = gap_coverage, db_revisions = [],
                                    db_collections = [gap_collection], db_facts = () \<rparr>, idb_recoveries = [] \<rparr>,
       sd_scans = [((1, 7), gap_pending)], sd_outbox = \<lparr> ob_rows = [], ob_nextId = 1 \<rparr> \<rparr>"

definition gap_headers :: "SyncBlockHeader list" where
  "gap_headers =
     [\<lparr> hdr_number = 7, hdr_hash = ''h7'', hdr_parentHash = ''h6'', hdr_timestamp = 70 \<rparr>,
      \<lparr> hdr_number = 8, hdr_hash = ''h8'', hdr_parentHash = ''h7'', hdr_timestamp = 80 \<rparr>]"

definition gap_job :: JobEnvelope where
  "gap_job = \<lparr> je_jobId = ''j'', je_kind = ''k'', je_queue = ''q'', je_payload = '''', je_attempt = 0,
     je_scheduledAt = 0, je_traceId = None, je_collectionId = Some 7, je_chainId = 1, je_workClass = None,
     je_onchainBlock = None \<rparr>"

definition gap_commit :: "unit SyncRangeCommit" where
  "gap_commit =
     \<lparr> sc_result = \<lparr> sr_checkpoint = \<lparr> cp_chainId = 1, cp_revision = 0 \<rparr>,
                     sr_canonicalCheck = \<lparr> pol_observedHeadBlock = 10, pol_reorgDepth = 2 \<rparr>, sr_blocks = gap_headers,
                     sr_data = \<lparr> oc_groups = [], oc_content = () \<rparr>, sr_collections = [gap_collection] \<rparr>,
       sc_followUps = [EventFollowUp gap_job \<lparr> bk_chainId = 1, bk_blockNumber = 8, bk_blockHash = ''h8'' \<rparr>],
       sc_completion = GapRepair \<lparr> gr_fromBlock = 7, gr_toBlock = 8, gb_repairs = [gap_repair] \<rparr> 2000 \<rparr>"

definition gap_committed :: "unit SyncDb" where
  "gap_committed = projr (commitSyncRange gap_port gap_commit gap_db)"

theorem commit_keeps_missing_blocks_accounted_for_witness:
  "getProgress (sd_scans gap_committed) 1 7 = Some (gap_pending\<lparr> gp_pending := None \<rparr>) \<and>
   accounted (covered (db_coverage (sd_chain gap_committed)) 1 7) (gap_pending\<lparr> gp_pending := None \<rparr>) 10"
proof -
  have run: "commitSyncRange gap_port gap_commit gap_db = Inr gap_committed"
    and after: "getProgress (sd_scans gap_committed) 1 7 = Some (gap_pending\<lparr> gp_pending := None \<rparr>)"
    and before: "getProgress (sd_scans gap_db) 1 7 = Some gap_pending"
    by code_simp+
  have "distinct gap_coverage" by code_simp
  then have wf: "store_wf (gap_store gap_db)"
    by (auto simp: store_wf_def gap_store_def gap_db_def sd_chain_def gap_pending_def progress_wf_def cursor_below_def
        split: if_splits)
  have acc: "accounted (covered (db_coverage (sd_chain gap_db)) 1 7) gap_pending 10"
    by (auto simp: accounted_def covered_def gap_db_def sd_chain_def gap_coverage_def gap_pending_def)
  from commit_keeps_missing_blocks_accounted_for [OF run wf, of 1 7] before after acc
  show ?thesis by simp
qed

section \<open>The outbox of the commit\<close>

definition gap_outbox :: QueueOutbox where
  "gap_outbox = sd_outbox gap_committed"

definition gap_drain_options :: QueueOutboxDrainerOptions where
  "gap_drain_options =
     \<lparr> do_limit = Some 1, do_maxAttempts = None, do_retryBaseDelayMs = None, do_retryMaxDelayMs = None \<rparr>"

definition gap_required_job :: JobEnvelope where
  "gap_required_job = gap_job\<lparr> je_jobId := ''j:chain-revision:0'',
     je_onchainBlock := Some \<lparr> bk_chainId = 1, bk_blockNumber = 8, bk_blockHash = ''h8'' \<rparr> \<rparr>"

lemma gap_outbox_rows:
  "ob_rows gap_outbox = [new_row 1 gap_required_job 0 Required (Some 8) (Some ''h8'')]" "ob_nextId gap_outbox = 2"
  by code_simp+

lemma gap_outbox_wf: "outbox_wf gap_outbox"
  by (simp add: outbox_wf_def gap_outbox_rows)

theorem required_follow_up_survives_until_published_witness:
  "retained (''q'', ''j:chain-revision:0'') gap_required_job
     (snd (drainQueueOutbox gap_drain_options (\<lambda>_. Inl ''down'') (\<lambda>_ ob. ob) 5000 gap_outbox))"
proof -
  have "harmless (''q'', ''j:chain-revision:0'') gap_required_job (\<lambda>_ ob. ob)"
    by (auto simp: harmless_def outbox_evolves_def same_job_def)
  moreover have "retained (''q'', ''j:chain-revision:0'') gap_required_job gap_outbox"
    by (simp add: retained_def gap_outbox_rows gap_required_job_def gap_job_def)
  ultimately show ?thesis
    using required_follow_up_survives_until_published [OF _ gap_outbox_wf, of _ _ _ gap_drain_options "\<lambda>_. Inl ''down''" 5000]
    by fastforce
qed

theorem accepting_broker_drains_outbox_witness:
  "length (due_rows 5000 gap_outbox) = 1 \<and>
   due_rows 5000 ((drain_once gap_drain_options (\<lambda>_. Inr None) 5000 ^^ 1) gap_outbox) = []"
proof -
  have one: "length (due_rows 5000 gap_outbox) = 1" by code_simp
  moreover have "do_limit gap_drain_options \<noteq> Some 0" by (simp add: gap_drain_options_def)
  ultimately show ?thesis
    using accepting_broker_drains_outbox [OF gap_outbox_wf, of "\<lambda>_. Inr None" gap_drain_options 5000] by simp
qed

end
