(* ===== verification/Order_Demand.thy ===== *)
theory Order_Demand
  imports Nft_Ownership "HOL-Library.Product_Lexorder"
begin

text \<open>
  The durable demand to validate an order against the chain
  (\<^verbatim>\<open>indexer/src/domain/order-validation-demand.ts\<close>,
  \<^verbatim>\<open>indexer/src/infra/orders/sqlite-order-validation-demand.ts\<close>, the projection it calls in
  \<^verbatim>\<open>indexer/src/infra/domain/orders.ts\<close>, and the executor in
  \<^verbatim>\<open>indexer/src/application/orders/validate-order-demand.ts\<close>).  One row per order collects what
  observations and chain events require; executors claim rows under a lease, validate the orders on a
  snapshot of the chain and commit the result with its proof.

  Tables are association lists under their primary keys.  Of \<open>orders\<close> the model has the columns these
  statements read or write.  The writes to the listing prices are left out: no statement here reads
  them.  Reads of the clock in seconds are arguments, named \<open>s\<close>; \<open>now\<close> is the time in milliseconds
  the caller passes.  An error (\<open>Inl\<close>) rolls the transaction back.
\<close>

section \<open>Orders\<close>

datatype OrderStatus =
  StatusFillable | StatusFilled | StatusCancelled | StatusExpired | StatusNoBalance | StatusNoApproval | StatusInvalid

datatype OrderSourceStatus =
  SourceActive | SourceInactive | SourceCancelled | SourceFilled | SourceInvalidated | SourceExpired | SourceUnknown

record OrderRow =
  or_chainId :: int
  or_collectionId :: int
  or_kind :: string
  or_validUntil :: "int option"
  or_fillability :: OrderStatus
  or_sourceStatus :: OrderSourceStatus
  or_validatedAt :: int
  or_revision :: int

section \<open>Demand\<close>

record OrderValidationRequest =
  rq_chainId :: int
  rq_orderId :: string
  rq_requiredAt :: int
  rq_minimumBlock :: "int option"

record OrderValidationDemand = OrderValidationRequest +
  dm_generation :: int
  dm_revision :: int
  dm_pending :: bool
  dm_anchorIndependent :: bool
  dm_proofRevision :: "int option"
  dm_proofAt :: "int option"
  dm_proofBlock :: "int option"
  dm_proofChainRevision :: "int option"
  dm_leaseOwner :: "string option"
  dm_leaseVersion :: int
  dm_leaseUntil :: int
  dm_failures :: int
  dm_nextAttemptAt :: int
  dm_lastError :: "string option"
  dm_updatedAt :: int

record OrderValidationEvidence =
  ev_observedAt :: int
  ev_blockNumber :: int
  ev_checkpoint :: ChainSyncCheckpoint

record 'f OrderDb =
  od_chain :: "'f ChainDb"
  od_orders :: "(string \<times> OrderRow) list"
  od_demand :: "(string \<times> OrderValidationDemand) list"

datatype demand_error =
  InvalidDemand | DemandChainMismatch | EvidenceChainMismatch | StaleEvidence | DemandNotCovered | ConstraintViolation

datatype DemandOutcome = Unneeded | Covered | PendingDemand

definition demand_leaseMs :: int where
  "demand_leaseMs = 120000"

definition demand_batchOrders :: nat where
  "demand_batchOrders = 100"

definition demand_retryBaseMs :: int where
  "demand_retryBaseMs = 1000"

definition demand_retryMaxMs :: int where
  "demand_retryMaxMs = 60000"

definition demand_isolateAfterFailures :: int where
  "demand_isolateAfterFailures = 2"

definition eventValidationRequest :: "int \<Rightarrow> string \<Rightarrow> int \<Rightarrow> OrderValidationRequest" where
  "eventValidationRequest chainId orderId blockNumber =
     \<lparr> rq_chainId = chainId, rq_orderId = orderId, rq_requiredAt = 0, rq_minimumBlock = Some blockNumber \<rparr>"

definition observedOrderValidationRequest :: "int \<Rightarrow> string \<Rightarrow> int \<Rightarrow> OrderValidationRequest" where
  "observedOrderValidationRequest chainId orderId observedAt =
     \<lparr> rq_chainId = chainId, rq_orderId = orderId, rq_requiredAt = observedAt, rq_minimumBlock = None \<rparr>"

definition validationProofSatisfies :: "OrderValidationEvidence \<Rightarrow> 'a OrderValidationRequest_scheme \<Rightarrow> bool" where
  "validationProofSatisfies proof request \<longleftrightarrow>
     ev_observedAt proof \<ge> rq_requiredAt request \<and>
     (case rq_minimumBlock request of None \<Rightarrow> True | Some b \<Rightarrow> ev_blockNumber proof \<ge> b)"

definition needsCurrentOrderValidation :: "OrderRow \<Rightarrow> int \<Rightarrow> bool" where
  "needsCurrentOrderValidation order nowSeconds \<longleftrightarrow>
     or_kind order = ''seaport'' \<and> or_sourceStatus order = SourceActive \<and>
     (case or_validUntil order of None \<Rightarrow> True | Some t \<Rightarrow> t > nowSeconds) \<and>
     or_fillability order \<noteq> StatusFilled \<and> or_fillability order \<noteq> StatusCancelled \<and> or_fillability order \<noteq> StatusExpired"

definition validationProofCovers ::
  "OrderValidationDemand \<Rightarrow> int \<Rightarrow> OrderValidationRequest \<Rightarrow> int \<Rightarrow> bool" where
  "validationProofCovers demand revision request chainRevision \<longleftrightarrow>
     dm_proofRevision demand = Some revision \<and> dm_proofChainRevision demand = Some chainRevision \<and>
     (case dm_proofAt demand of None \<Rightarrow> False | Some t \<Rightarrow> t \<ge> rq_requiredAt request) \<and>
     (case dm_proofBlock demand of
        None \<Rightarrow> False
      | Some n \<Rightarrow> (case rq_minimumBlock request of None \<Rightarrow> True | Some b \<Rightarrow> n \<ge> b))"

definition advancesValidationDemand :: "OrderValidationDemand \<Rightarrow> int \<Rightarrow> OrderValidationRequest \<Rightarrow> bool" where
  "advancesValidationDemand current revision request \<longleftrightarrow>
     \<not> dm_pending current \<or> dm_revision current \<noteq> revision \<or>
     (rq_minimumBlock request = None \<and> \<not> dm_anchorIndependent current) \<or>
     rq_requiredAt request > rq_requiredAt current \<or>
     (case rq_minimumBlock request of
        None \<Rightarrow> False
      | Some b \<Rightarrow> (case rq_minimumBlock current of None \<Rightarrow> True | Some m \<Rightarrow> b > m))"

definition assertOrderValidationRequest :: "OrderValidationRequest \<Rightarrow> demand_error + unit" where
  "assertOrderValidationRequest request =
     guardR (safe_integer (rq_chainId request) \<and> rq_chainId request > 0 \<and> rq_orderId request \<noteq> [] \<and>
             safe_integer (rq_requiredAt request) \<and> rq_requiredAt request \<ge> 0 \<and>
             (case rq_minimumBlock request of None \<Rightarrow> True | Some b \<Rightarrow> safe_integer b \<and> b \<ge> 0)) InvalidDemand"

section \<open>The order projection\<close>

definition selectOrderById :: "'f OrderDb \<Rightarrow> int \<Rightarrow> string \<Rightarrow> OrderRow option" where
  "selectOrderById db chainId orderId =
     (case map_of (od_orders db) orderId of
        None \<Rightarrow> None | Some row \<Rightarrow> if or_chainId row = chainId then Some row else None)"

definition canMutateCurrentStateForCollection :: "'f OrderDb \<Rightarrow> int \<Rightarrow> int \<Rightarrow> int option \<Rightarrow> bool" where
  "canMutateCurrentStateForCollection db chainId collectionId blockNumber \<longleftrightarrow>
     (case blockNumber of
        None \<Rightarrow> True
      | Some n \<Rightarrow>
          canProjectCurrentStateAtBlock
            (case find (\<lambda>c. cr_chainId c = chainId \<and> cr_collectionId c = collectionId) (db_collections (od_chain db)) of
               None \<Rightarrow> None | Some c \<Rightarrow> cr_anchor c) (Some n))"

definition validationCandidate :: "'f OrderDb \<Rightarrow> int \<Rightarrow> 'a OrderValidationRequest_scheme \<Rightarrow> OrderRow option" where
  "validationCandidate db s request =
     (case selectOrderById db (rq_chainId request) (rq_orderId request) of
        None \<Rightarrow> None
      | Some row \<Rightarrow>
          if \<not> needsCurrentOrderValidation row s \<or>
             \<not> canMutateCurrentStateForCollection db (or_chainId row) (or_collectionId row) (rq_minimumBlock request)
          then None else Some row)"

definition orderRevalidationSeconds :: int where
  "orderRevalidationSeconds = 5 * 60"

text \<open>\<open>applyValidation\<close>: guarded by the revision, it raises it when the status changes.\<close>

definition applyValidation :: "string \<Rightarrow> OrderRow \<Rightarrow> OrderStatus \<Rightarrow> int \<Rightarrow> 'f OrderDb \<Rightarrow> 'f OrderDb" where
  "applyValidation orderId row status s db =
     (case selectOrderById db (or_chainId row) orderId of
        None \<Rightarrow> db
      | Some current \<Rightarrow>
          if or_revision current = or_revision row \<and> or_sourceStatus current = SourceActive \<and>
             (or_fillability current \<noteq> status \<or> or_validatedAt current \<le> s - orderRevalidationSeconds)
          then db\<lparr> od_orders := AList.update orderId
                 (current\<lparr> or_validatedAt := s,
                    or_revision := or_revision current + (if or_fillability current \<noteq> status then 1 else 0),
                    or_fillability := status \<rparr>) (od_orders db) \<rparr>
          else db)"

section \<open>The demand table\<close>

definition getDemand :: "'f OrderDb \<Rightarrow> int \<Rightarrow> string \<Rightarrow> OrderValidationDemand option" where
  "getDemand db chainId orderId =
     (case map_of (od_demand db) orderId of
        None \<Rightarrow> None | Some d \<Rightarrow> if rq_chainId d = chainId then Some d else None)"

definition put_demand :: "string \<Rightarrow> OrderValidationDemand \<Rightarrow> 'f OrderDb \<Rightarrow> 'f OrderDb" where
  "put_demand orderId d db = db\<lparr> od_demand := AList.update orderId d (od_demand db) \<rparr>"

definition isCovered :: "'f OrderDb \<Rightarrow> int \<Rightarrow> OrderValidationRequest \<Rightarrow> int \<Rightarrow> bool" where
  "isCovered db s request revision \<longleftrightarrow>
     (case validationCandidate db s request of
        None \<Rightarrow> False
      | Some row \<Rightarrow>
          or_revision row = revision \<and>
          (case getDemand db (rq_chainId request) (rq_orderId request) of
             None \<Rightarrow> False
           | Some current \<Rightarrow>
               validationProofCovers current revision request
                 (cp_revision (captureChainSyncCheckpoint (od_chain db) (rq_chainId request)))))"

text \<open>A row as \<open>INSERT\<close> leaves it, the columns it does not name at their defaults.\<close>

definition new_demand :: "OrderValidationRequest \<Rightarrow> int \<Rightarrow> int \<Rightarrow> OrderValidationDemand" where
  "new_demand request revision now =
     \<lparr> rq_chainId = rq_chainId request, rq_orderId = rq_orderId request, rq_requiredAt = rq_requiredAt request,
       rq_minimumBlock = rq_minimumBlock request, dm_generation = 1, dm_revision = revision, dm_pending = True,
       dm_anchorIndependent = (rq_minimumBlock request = None), dm_proofRevision = None, dm_proofAt = None,
       dm_proofBlock = None, dm_proofChainRevision = None, dm_leaseOwner = None, dm_leaseVersion = 0,
       dm_leaseUntil = 0, dm_failures = 0, dm_nextAttemptAt = 0, dm_lastError = None, dm_updatedAt = now \<rparr>"

text \<open>The checks of the primary key and of the reference to \<open>orders\<close>.\<close>

definition insertDemand :: "OrderValidationDemand \<Rightarrow> 'f OrderDb \<Rightarrow> demand_error + 'f OrderDb" where
  "insertDemand d db =
     bindR (guardR (map_of (od_demand db) (rq_orderId d) = None \<and> map_of (od_orders db) (rq_orderId d) \<noteq> None) ConstraintViolation) (\<lambda>_.
       Inr (put_demand (rq_orderId d) d db))"

definition assertEvidence :: "'f OrderDb \<Rightarrow> ChainSyncCheckpoint \<Rightarrow> demand_error + unit" where
  "assertEvidence db checkpoint =
     (case assertChainSyncCheckpoint (od_chain db) checkpoint of Inl _ \<Rightarrow> Inl StaleEvidence | Inr u \<Rightarrow> Inr u)"

definition recordValidation ::
  "OrderValidationRequest \<Rightarrow> int \<Rightarrow> OrderValidationEvidence \<Rightarrow> int \<Rightarrow> 'f OrderDb \<Rightarrow> demand_error + 'f OrderDb" where
  "recordValidation request revision evidence now db =
     bindR (guardR (cp_chainId (ev_checkpoint evidence) = rq_chainId request) EvidenceChainMismatch) (\<lambda>_.
     bindR (assertEvidence db (ev_checkpoint evidence)) (\<lambda>_.
     bindR (guardR (validationProofSatisfies evidence request) DemandNotCovered) (\<lambda>_.
       let stillPending = (case getDemand db (rq_chainId request) (rq_orderId request) of
             None \<Rightarrow> False | Some current \<Rightarrow> dm_pending current \<and> \<not> validationProofSatisfies evidence current);
           proven = (\<lambda>d. d\<lparr> dm_revision := revision, dm_pending := stillPending, dm_proofRevision := Some revision,
             dm_proofAt := Some (ev_observedAt evidence), dm_proofBlock := Some (ev_blockNumber evidence),
             dm_proofChainRevision := Some (cp_revision (ev_checkpoint evidence)), dm_updatedAt := now \<rparr>)
       in (case map_of (od_demand db) (rq_orderId request) of
             None \<Rightarrow> insertDemand (proven (new_demand request revision now)) db
           | Some current \<Rightarrow>
               Inr (put_demand (rq_orderId request)
                 ((proven current)\<lparr> dm_leaseOwner := None, dm_leaseUntil := 0, dm_failures := 0, dm_lastError := None,
                    dm_nextAttemptAt := 0 \<rparr>) db)))))"

definition strengthen :: "OrderValidationRequest \<Rightarrow> int \<Rightarrow> int \<Rightarrow> OrderValidationDemand \<Rightarrow> OrderValidationDemand" where
  "strengthen request revision now current =
     current\<lparr> dm_generation := dm_generation current + 1, dm_revision := revision,
       rq_requiredAt := max (rq_requiredAt current) (rq_requiredAt request),
       rq_minimumBlock :=
         (case rq_minimumBlock request of
            None \<Rightarrow> rq_minimumBlock current
          | Some b \<Rightarrow> (case rq_minimumBlock current of None \<Rightarrow> Some b | Some m \<Rightarrow> Some (max m b))),
       dm_anchorIndependent := (rq_minimumBlock request = None \<or> (dm_pending current \<and> dm_anchorIndependent current)),
       dm_pending := True, dm_nextAttemptAt := 0, dm_updatedAt := now \<rparr>"

definition admitDemand ::
  "OrderValidationRequest \<Rightarrow> int \<Rightarrow> int \<Rightarrow> int \<Rightarrow> 'f OrderDb \<Rightarrow> demand_error + DemandOutcome \<times> 'f OrderDb" where
  "admitDemand request s s' now db =
     bindR (assertOrderValidationRequest request) (\<lambda>_.
       case validationCandidate db s request of
         None \<Rightarrow> Inr (Unneeded, db)
       | Some candidate \<Rightarrow>
           (case getDemand db (rq_chainId request) (rq_orderId request) of
              None \<Rightarrow>
                bindR (insertDemand (new_demand request (or_revision candidate) now) db) (\<lambda>db'. Inr (PendingDemand, db'))
            | Some current \<Rightarrow>
                if isCovered db s' request (or_revision candidate) then Inr (Covered, db)
                else if advancesValidationDemand current (or_revision candidate) request
                then Inr (PendingDemand, put_demand (rq_orderId request) (strengthen request (or_revision candidate) now current) db)
                else Inr (PendingDemand, db)))"

definition deferDemand ::
  "OrderValidationRequest \<Rightarrow> string \<Rightarrow> int \<Rightarrow> int \<Rightarrow> int \<Rightarrow> 'f OrderDb \<Rightarrow> demand_error + DemandOutcome \<times> 'f OrderDb" where
  "deferDemand request error s s' now db =
     bindR (admitDemand request s s' now db) (\<lambda>(outcome, db1).
       if outcome = PendingDemand
       then Inr (outcome,
         (case getDemand db1 (rq_chainId request) (rq_orderId request) of
            None \<Rightarrow> db1
          | Some d \<Rightarrow> put_demand (rq_orderId request)
              (d\<lparr> dm_failures := max (dm_failures d) demand_isolateAfterFailures,
                 dm_nextAttemptAt := max (dm_nextAttemptAt d) (now + demand_retryBaseMs),
                 dm_lastError := Some error, dm_updatedAt := now \<rparr>) db1))
       else Inr (outcome, db1))"

definition AdmitOrderValidation_execute ::
  "int \<Rightarrow> OrderValidationRequest \<Rightarrow> int \<Rightarrow> int \<Rightarrow> int \<Rightarrow> 'f OrderDb \<Rightarrow> demand_error + DemandOutcome \<times> 'f OrderDb" where
  "AdmitOrderValidation_execute chainId request s s' now db =
     bindR (guardR (rq_chainId request = chainId) DemandChainMismatch) (\<lambda>_. admitDemand request s s' now db)"

section \<open>Claims\<close>

record ClaimedOrderValidation =
  cl_demand :: OrderValidationDemand
  cl_candidate :: OrderRow

record ClaimBatch =
  cb_claims :: "ClaimedOrderValidation list"
  cb_scanned :: nat
  cb_resolvedUnneeded :: nat
  cb_oldestRequiredAt :: "int option"

definition due_key :: "OrderValidationDemand \<Rightarrow> int \<times> int \<times> int \<times> string" where
  "due_key d = (dm_nextAttemptAt d, dm_leaseUntil d, dm_updatedAt d, rq_orderId d)"

definition selectDue :: "int \<Rightarrow> int \<Rightarrow> 'f OrderDb \<Rightarrow> OrderValidationDemand list" where
  "selectDue chainId now db =
     take demand_batchOrders
       (sort_key due_key
         (filter (\<lambda>d. rq_chainId d = chainId \<and> dm_pending d \<and> dm_nextAttemptAt d \<le> now \<and> dm_leaseUntil d \<le> now)
           (map snd (od_demand db))))"

text \<open>Rows up to the first that failed repeatedly; that row alone when it is the first.\<close>

definition claimable_rows :: "OrderValidationDemand list \<Rightarrow> OrderValidationDemand list" where
  "claimable_rows due =
     (let healthy = takeWhile (\<lambda>d. dm_failures d < demand_isolateAfterFailures) due
      in take (if length healthy = length due then length due else max 1 (length healthy)) due)"

text \<open>The request a row stands for when its candidate is looked up.\<close>

definition anchored_request :: "OrderValidationDemand \<Rightarrow> OrderValidationRequest" where
  "anchored_request d =
     \<lparr> rq_chainId = rq_chainId d, rq_orderId = rq_orderId d, rq_requiredAt = rq_requiredAt d,
       rq_minimumBlock = (if dm_anchorIndependent d then None else rq_minimumBlock d) \<rparr>"

definition update_demand :: "string \<Rightarrow> (OrderValidationDemand \<Rightarrow> OrderValidationDemand) \<Rightarrow> 'f OrderDb \<Rightarrow> 'f OrderDb" where
  "update_demand orderId f db =
     (case map_of (od_demand db) orderId of None \<Rightarrow> db | Some d \<Rightarrow> put_demand orderId (f d) db)"

definition claimRow ::
  "string \<Rightarrow> int \<Rightarrow> (string \<Rightarrow> int) \<Rightarrow> OrderValidationDemand \<Rightarrow> ClaimBatch \<times> 'f OrderDb \<Rightarrow> ClaimBatch \<times> 'f OrderDb" where
  "claimRow owner now clock row acc =
     (case acc of (batch, db) \<Rightarrow>
      (case validationCandidate db (clock (rq_orderId row)) (anchored_request row) of
         None \<Rightarrow>
           (batch\<lparr> cb_resolvedUnneeded := cb_resolvedUnneeded batch + 1 \<rparr>,
            update_demand (rq_orderId row)
              (\<lambda>d. d\<lparr> dm_pending := False, dm_leaseOwner := None, dm_leaseUntil := 0, dm_proofRevision := None,
                 dm_proofAt := None, dm_proofBlock := None, dm_updatedAt := now \<rparr>) db)
       | Some candidate \<Rightarrow>
           let db1 = update_demand (rq_orderId row)
                 (\<lambda>d. d\<lparr> dm_generation := dm_generation d + (if dm_revision d \<noteq> or_revision candidate then 1 else 0),
                    dm_revision := or_revision candidate, dm_leaseOwner := Some owner,
                    dm_leaseVersion := dm_leaseVersion d + 1, dm_leaseUntil := now + demand_leaseMs, dm_updatedAt := now \<rparr>) db
           in (case getDemand db1 (rq_chainId row) (rq_orderId row) of
                 None \<Rightarrow> (batch, db1)
               | Some d \<Rightarrow> (batch\<lparr> cb_claims := cb_claims batch @ [\<lparr> cl_demand = d, cl_candidate = candidate \<rparr>] \<rparr>, db1))))"

definition claimBatch ::
  "int \<Rightarrow> string \<Rightarrow> int \<Rightarrow> (string \<Rightarrow> int) \<Rightarrow> 'f OrderDb \<Rightarrow> ClaimBatch \<times> 'f OrderDb" where
  "claimBatch chainId owner now clock db =
     (let rows = claimable_rows (selectDue chainId now db) in
      fold (claimRow owner now clock) rows
        (\<lparr> cb_claims = [], cb_scanned = length rows, cb_resolvedUnneeded = 0,
           cb_oldestRequiredAt = (if rows = [] then None else Some (Min (rq_requiredAt ` set rows))) \<rparr>, db))"

text \<open>The \<open>WHERE\<close> clause of the statements on a claim.\<close>

definition lease_held :: "ClaimedOrderValidation \<Rightarrow> int \<Rightarrow> OrderValidationDemand \<Rightarrow> bool" where
  "lease_held claim now d \<longleftrightarrow>
     rq_chainId d = rq_chainId (cl_demand claim) \<and> dm_leaseOwner d \<noteq> None \<and>
     dm_leaseOwner d = dm_leaseOwner (cl_demand claim) \<and>
     dm_leaseVersion d = dm_leaseVersion (cl_demand claim) \<and> dm_leaseUntil d > now"

definition update_held ::
  "ClaimedOrderValidation \<Rightarrow> int \<Rightarrow> (OrderValidationDemand \<Rightarrow> OrderValidationDemand) \<Rightarrow> 'f OrderDb \<Rightarrow> nat \<times> 'f OrderDb" where
  "update_held claim now f db =
     (case map_of (od_demand db) (rq_orderId (cl_demand claim)) of
        None \<Rightarrow> (0, db)
      | Some d \<Rightarrow> if lease_held claim now d then (1, put_demand (rq_orderId (cl_demand claim)) (f d) db) else (0, db))"

definition renewClaim :: "ClaimedOrderValidation \<Rightarrow> int \<Rightarrow> 'f OrderDb \<Rightarrow> bool \<times> 'f OrderDb" where
  "renewClaim claim now db =
     (case update_held claim now (\<lambda>d. d\<lparr> dm_leaseUntil := now + demand_leaseMs \<rparr>) db of (n, db') \<Rightarrow> (n > 0, db'))"

fun each_claim ::
  "(ClaimedOrderValidation \<Rightarrow> 'f OrderDb \<Rightarrow> nat \<times> 'f OrderDb) \<Rightarrow> ClaimedOrderValidation list \<Rightarrow> 'f OrderDb \<Rightarrow> nat \<times> 'f OrderDb" where
  "each_claim f [] db = (0, db)"
| "each_claim f (c # cs) db =
     (case f c db of (n, db1) \<Rightarrow> (case each_claim f cs db1 of (m, db2) \<Rightarrow> (n + m, db2)))"

definition releaseClaims :: "ClaimedOrderValidation list \<Rightarrow> int \<Rightarrow> 'f OrderDb \<Rightarrow> nat \<times> 'f OrderDb" where
  "releaseClaims claims now db =
     each_claim (\<lambda>c. update_held c now (\<lambda>d. d\<lparr> dm_leaseOwner := None, dm_leaseUntil := 0, dm_updatedAt := now \<rparr>)) claims db"

definition demand_retryMs :: "int \<Rightarrow> int" where
  "demand_retryMs failures = min demand_retryMaxMs (demand_retryBaseMs * 2 ^ nat (min (failures - 1) 16))"

definition failClaim :: "string \<Rightarrow> int \<Rightarrow> ClaimedOrderValidation \<Rightarrow> 'f OrderDb \<Rightarrow> nat \<times> 'f OrderDb" where
  "failClaim error now claim db =
     update_held claim now
       (\<lambda>d. d\<lparr> dm_leaseOwner := None, dm_leaseUntil := 0, dm_failures := dm_failures d + 1,
          dm_lastError := Some (take 1000 error),
          dm_nextAttemptAt := now + demand_retryMs (dm_failures (cl_demand claim) + 1), dm_updatedAt := now \<rparr>) db"

definition failClaims :: "ClaimedOrderValidation list \<Rightarrow> string \<Rightarrow> int \<Rightarrow> 'f OrderDb \<Rightarrow> nat \<times> 'f OrderDb" where
  "failClaims claims error now db = each_claim (failClaim error now) claims db"

section \<open>Completion\<close>

record CompletionCounts =
  cc_applied :: nat
  cc_covered :: nat
  cc_resolvedUnneeded :: nat
  cc_followup :: nat
  cc_lostClaims :: nat

text \<open>\<open>owns\<close>: the claim still is the current one and its lease has not expired.\<close>

definition owns :: "OrderValidationDemand option \<Rightarrow> ClaimedOrderValidation \<Rightarrow> int \<Rightarrow> bool" where
  "owns current claim now \<longleftrightarrow>
     (case current of
        None \<Rightarrow> False
      | Some d \<Rightarrow>
          dm_pending d \<and> dm_leaseOwner d = dm_leaseOwner (cl_demand claim) \<and>
          dm_leaseVersion d = dm_leaseVersion (cl_demand claim) \<and> dm_leaseUntil d > now)"

definition applyDemandValidation ::
  "ClaimedOrderValidation \<Rightarrow> OrderStatus \<Rightarrow> int \<Rightarrow> int \<Rightarrow> 'f OrderDb \<Rightarrow> int option \<times> 'f OrderDb" where
  "applyDemandValidation claim status s s' db =
     (case validationCandidate db s (anchored_request (cl_demand claim)) of
        None \<Rightarrow> (None, db)
      | Some current \<Rightarrow>
          if or_revision current \<noteq> or_revision (cl_candidate claim) then (None, db)
          else
            let db1 = applyValidation (rq_orderId (cl_demand claim)) current status s' db
            in (map_option or_revision (selectOrderById db1 (rq_chainId (cl_demand claim)) (rq_orderId (cl_demand claim))), db1))"

record SecondReads =
  rd_candidate :: int
  rd_apply :: int
  rd_unneeded :: int

text \<open>The row a completion writes.\<close>

definition completed_row :: "int option \<Rightarrow> OrderValidationEvidence \<Rightarrow> bool \<Rightarrow> int \<Rightarrow> OrderValidationDemand \<Rightarrow> OrderValidationDemand" where
  "completed_row revision e stays now d =
     d\<lparr> dm_pending := stays,
        dm_revision := (case revision of None \<Rightarrow> dm_revision d | Some r \<Rightarrow> r), dm_proofRevision := revision,
        dm_proofAt := map_option (\<lambda>_. ev_observedAt e) revision,
        dm_proofBlock := map_option (\<lambda>_. ev_blockNumber e) revision,
        dm_proofChainRevision := map_option (\<lambda>_. cp_revision (ev_checkpoint e)) revision,
        dm_leaseOwner := None, dm_leaseUntil := 0, dm_failures := 0, dm_lastError := None, dm_nextAttemptAt := 0,
        dm_updatedAt := now \<rparr>"

text \<open>Whether a completed row stays pending.\<close>

definition still_needed :: "'f OrderDb \<Rightarrow> int \<Rightarrow> int option \<Rightarrow> ClaimedOrderValidation \<Rightarrow> OrderValidationDemand \<Rightarrow> bool" where
  "still_needed db s revision claim d \<longleftrightarrow>
     \<not> (revision = None \<and> validationCandidate db s (anchored_request d) = None) \<and>
     (revision = None \<or> dm_generation d \<noteq> dm_generation (cl_demand claim))"

definition count_completion :: "int option \<Rightarrow> bool \<Rightarrow> bool \<Rightarrow> CompletionCounts \<Rightarrow> CompletionCounts" where
  "count_completion revision unneeded stays counts =
     (let counts1 = (if revision \<noteq> None then counts\<lparr> cc_applied := cc_applied counts + 1 \<rparr> else counts)
      in if unneeded then counts1\<lparr> cc_resolvedUnneeded := cc_resolvedUnneeded counts1 + 1 \<rparr>
         else if stays then counts1\<lparr> cc_followup := cc_followup counts1 + 1 \<rparr>
         else counts1\<lparr> cc_covered := cc_covered counts1 + 1 \<rparr>)"

definition completeOne ::
  "OrderValidationEvidence \<Rightarrow> int \<Rightarrow> SecondReads \<Rightarrow> ClaimedOrderValidation \<Rightarrow> OrderStatus \<Rightarrow> CompletionCounts \<times> 'f OrderDb
     \<Rightarrow> demand_error + CompletionCounts \<times> 'f OrderDb" where
  "completeOne proof now reads claim status acc =
     (case acc of (counts, db) \<Rightarrow>
      bindR (guardR (cp_chainId (ev_checkpoint proof) = rq_chainId (cl_demand claim)) EvidenceChainMismatch) (\<lambda>_.
        let orderId = rq_orderId (cl_demand claim); current = getDemand db (rq_chainId (cl_demand claim)) orderId in
        if \<not> owns current claim now then Inr (counts\<lparr> cc_lostClaims := cc_lostClaims counts + 1 \<rparr>, db)
        else
          bindR (guardR (validationProofSatisfies proof (cl_demand claim)) DemandNotCovered) (\<lambda>_.
            case applyDemandValidation claim status (rd_candidate reads) (rd_apply reads) db of (revision, db1) \<Rightarrow>
            let unneeded = (revision = None \<and> validationCandidate db1 (rd_unneeded reads) (anchored_request (the current)) = None);
                stays = still_needed db1 (rd_unneeded reads) revision claim (the current)
            in Inr (count_completion revision unneeded stays counts,
                    update_demand orderId (completed_row revision proof stays now) db1))))"

fun completeAll ::
  "OrderValidationEvidence \<Rightarrow> int \<Rightarrow> (ClaimedOrderValidation \<times> OrderStatus \<times> SecondReads) list \<Rightarrow> CompletionCounts \<times> 'f OrderDb
     \<Rightarrow> demand_error + CompletionCounts \<times> 'f OrderDb" where
  "completeAll proof now [] acc = Inr acc"
| "completeAll proof now ((claim, status, reads) # cs) acc =
     bindR (completeOne proof now reads claim status acc) (completeAll proof now cs)"

definition completeBatch ::
  "(ClaimedOrderValidation \<times> OrderStatus \<times> SecondReads) list \<Rightarrow> OrderValidationEvidence \<Rightarrow> int \<Rightarrow> 'f OrderDb
     \<Rightarrow> demand_error + CompletionCounts \<times> 'f OrderDb" where
  "completeBatch completions proof now db =
     bindR (assertEvidence db (ev_checkpoint proof)) (\<lambda>_.
       completeAll proof now completions
         (\<lparr> cc_applied = 0, cc_covered = 0, cc_resolvedUnneeded = 0, cc_followup = 0, cc_lostClaims = 0 \<rparr>, db))"

section \<open>The executor\<close>

text \<open>
  What one batch meets: the answer of the snapshot factory, for the \<open>i\<close>-th ready claim whether the loop stops
  before it and the result of its validation, the answer of \<open>finish\<close>, whether an error is a budget
  deferral, and the reads of the clock.  \<open>other i\<close> is what other processes and the timer that renews the
  claims write between the \<open>i\<close>-th and the next transaction of the batch.
\<close>

record 'f BatchRun =
  br_owner :: string
  br_clock :: "nat \<Rightarrow> int"
  br_seconds :: "string \<Rightarrow> int"
  br_snapshot :: "string + (int \<times> int)"
  br_stops :: "nat \<Rightarrow> bool"
  br_validate :: "nat \<Rightarrow> string + OrderStatus"
  br_reads :: "nat \<Rightarrow> SecondReads"
  br_finish :: "string + unit"
  br_deferral :: "string \<Rightarrow> bool"
  br_other :: "nat \<Rightarrow> 'f OrderDb \<Rightarrow> 'f OrderDb"

definition readyClaims :: "OrderValidationEvidence \<Rightarrow> ClaimedOrderValidation list \<Rightarrow> ClaimedOrderValidation list" where
  "readyClaims proof claims = filter (\<lambda>c. validationProofSatisfies proof (cl_demand c)) claims"

definition uncoveredClaims :: "OrderValidationEvidence \<Rightarrow> ClaimedOrderValidation list \<Rightarrow> ClaimedOrderValidation list" where
  "uncoveredClaims proof claims = filter (\<lambda>c. \<not> validationProofSatisfies proof (cl_demand c)) claims"

fun validateReady ::
  "'f BatchRun \<Rightarrow> nat \<Rightarrow> ClaimedOrderValidation list \<Rightarrow> string + (ClaimedOrderValidation \<times> OrderStatus \<times> SecondReads) list" where
  "validateReady run i [] = Inr []"
| "validateReady run i (c # cs) =
     (if br_stops run i then Inr []
      else bindR (br_validate run i) (\<lambda>status.
        bindR (validateReady run (Suc i) cs) (\<lambda>rest. Inr ((c, status, br_reads run i) # rest))))"

text \<open>\<open>String(error)\<close> of the errors a completion can throw.\<close>

definition error_text :: "demand_error \<Rightarrow> string" where
  "error_text e =
     (case e of
        InvalidDemand \<Rightarrow> ''Error: Invalid order validation demand''
      | DemandChainMismatch \<Rightarrow> ''Error: Order validation demand chain mismatch''
      | EvidenceChainMismatch \<Rightarrow> ''Error: Validation evidence chain mismatch''
      | StaleEvidence \<Rightarrow> ''ChainSyncConflict: Work predates a committed chain rollback''
      | DemandNotCovered \<Rightarrow> ''Error: Validation snapshot does not cover captured demand''
      | ConstraintViolation \<Rightarrow> ''SqliteError: constraint failed'')"

text \<open>The \<open>try\<close> block once the snapshot is there: \<open>Inl\<close> is a thrown error, with the tables as they then are.\<close>

definition validateClaims ::
  "'f BatchRun \<Rightarrow> OrderValidationEvidence \<Rightarrow> ClaimedOrderValidation list \<Rightarrow> 'f OrderDb \<Rightarrow> (string \<times> 'f OrderDb) + 'f OrderDb" where
  "validateClaims run proof claims db =
     (let ready = readyClaims proof claims;
          db1 = br_other run 2 (snd (failClaims (uncoveredClaims proof claims)
                  ''Error: Snapshot does not yet cover demand observation or trigger block'' (br_clock run 1) db))
      in case validateReady run 0 ready of
           Inl e \<Rightarrow> Inl (e, db1)
         | Inr completions \<Rightarrow>
             (case br_finish run of
                Inl e \<Rightarrow> Inl (e, db1)
              | Inr _ \<Rightarrow>
                  (case completeBatch completions proof (br_clock run 2) db1 of
                     Inl e \<Rightarrow> Inl (error_text e, db1)
                   | Inr (_, db2) \<Rightarrow>
                       Inr (snd (releaseClaims (drop (length completions) ready) (br_clock run 3) (br_other run 3 db2))))))"

definition validateBatch :: "int \<Rightarrow> 'f BatchRun \<Rightarrow> 'f OrderDb \<Rightarrow> 'f OrderDb" where
  "validateBatch chainId run db =
     (case claimBatch chainId (br_owner run) (br_clock run 0) (br_seconds run) db of (batch, db1) \<Rightarrow>
      if cb_claims batch = [] then db1
      else
        let db2 = br_other run 0 db1; checkpoint = captureChainSyncCheckpoint (od_chain db2) chainId; db3 = br_other run 1 db2;
            recover = (\<lambda>(e, db'). snd (if br_deferral run e then releaseClaims (cb_claims batch) (br_clock run 4) db'
                                     else failClaims (cb_claims batch) e (br_clock run 4) db'))
        in (case br_snapshot run of
              Inl e \<Rightarrow> recover (e, db3)
            | Inr (observedAt, blockNumber) \<Rightarrow>
                (case validateClaims run
                        \<lparr> ev_observedAt = observedAt, ev_blockNumber = blockNumber, ev_checkpoint = checkpoint \<rparr>
                        (cb_claims batch) db3 of
                   Inl err \<Rightarrow> recover (case err of (e, db') \<Rightarrow> (e, br_other run 4 db'))
                 | Inr db' \<Rightarrow> db')))"

section \<open>Steps\<close>

text \<open>
  All the processes on the tables.  \<open>ds_issued\<close> are the claims handed out, \<open>ds_owners\<close> the owner ids
  drawn (\<open>randomUUID\<close> never repeats one), \<open>ds_owed\<close> the requests admitted as pending and not met yet,
  and \<open>ds_proofs\<close> the validations committed: order, revision and evidence.  A request stops being owed when a
  validation on evidence that satisfies it is committed for its order, when an operation that
  looked it up found that its order needs no validation, or when the order is deleted.
\<close>

record 'f DemandSystem =
  ds_db :: "'f OrderDb"
  ds_issued :: "ClaimedOrderValidation set"
  ds_owners :: "string set"
  ds_owed :: "OrderValidationRequest set"
  ds_proofs :: "(string \<times> int \<times> OrderValidationEvidence) set"

definition met_by :: "int \<Rightarrow> string \<Rightarrow> OrderValidationEvidence \<Rightarrow> OrderValidationRequest \<Rightarrow> bool" where
  "met_by chainId orderId proof q \<longleftrightarrow> rq_chainId q = chainId \<and> rq_orderId q = orderId \<and> validationProofSatisfies proof q"

text \<open>What one completion settles, and what it proves.\<close>

definition completion_effect ::
  "OrderValidationEvidence \<Rightarrow> int \<Rightarrow> SecondReads \<Rightarrow> ClaimedOrderValidation \<Rightarrow> OrderStatus \<Rightarrow> 'f OrderDb
     \<Rightarrow> OrderValidationRequest set \<times> (string \<times> int \<times> OrderValidationEvidence) set" where
  "completion_effect proof now reads claim status db =
     (let orderId = rq_orderId (cl_demand claim); chainId = rq_chainId (cl_demand claim) in
      if \<not> owns (getDemand db chainId orderId) claim now then ({}, {})
      else case fst (applyDemandValidation claim status (rd_candidate reads) (rd_apply reads) db) of
        Some r \<Rightarrow> ({q. met_by chainId orderId proof q}, {(orderId, r, proof)})
      | None \<Rightarrow> ({q. rq_chainId q = chainId \<and> rq_orderId q = orderId \<and> validationCandidate db (rd_unneeded reads) q = None}, {}))"

fun completions_effect ::
  "OrderValidationEvidence \<Rightarrow> int \<Rightarrow> (ClaimedOrderValidation \<times> OrderStatus \<times> SecondReads) list \<Rightarrow> CompletionCounts \<times> 'f OrderDb
     \<Rightarrow> OrderValidationRequest set \<times> (string \<times> int \<times> OrderValidationEvidence) set" where
  "completions_effect proof now [] acc = ({}, {})"
| "completions_effect proof now ((claim, status, reads) # cs) acc =
     (case completeOne proof now reads claim status acc of
        Inl _ \<Rightarrow> ({}, {})
      | Inr acc' \<Rightarrow>
          (case (completion_effect proof now reads claim status (snd acc), completions_effect proof now cs acc') of
             ((settled, proven), (settled', proven')) \<Rightarrow> (settled \<union> settled', proven \<union> proven')))"

definition scanned_orders :: "int \<Rightarrow> int \<Rightarrow> 'f OrderDb \<Rightarrow> string set" where
  "scanned_orders chainId now db = rq_orderId ` set (claimable_rows (selectDue chainId now db))"

text \<open>Other writers change orders and chain tables, but not the chain of an order; a deleted order takes
  its demand along.\<close>

definition orders_change :: "'f OrderDb \<Rightarrow> 'f OrderDb \<Rightarrow> bool" where
  "orders_change db db' \<longleftrightarrow>
     (\<forall>i row row'. map_of (od_orders db) i = Some row \<and> map_of (od_orders db') i = Some row' \<longrightarrow> or_chainId row' = or_chainId row) \<and>
     od_demand db' = filter (\<lambda>(i, _). map_of (od_orders db') i \<noteq> None) (od_demand db)"

inductive demand_step :: "'f DemandSystem \<Rightarrow> 'f DemandSystem \<Rightarrow> bool" where
  admit: "admitDemand r s s' now (ds_db S) = Inr (outcome, db) \<Longrightarrow>
     demand_step S (S\<lparr> ds_db := db, ds_owed := ds_owed S \<union> (if outcome = PendingDemand then {r} else {}) \<rparr>)"
| defers: "deferDemand r e s s' now (ds_db S) = Inr (outcome, db) \<Longrightarrow>
     demand_step S (S\<lparr> ds_db := db, ds_owed := ds_owed S \<union> (if outcome = PendingDemand then {r} else {}) \<rparr>)"
| records: "recordValidation r revision evidence now (ds_db S) = Inr db \<Longrightarrow>
     selectOrderById (ds_db S) (rq_chainId r) (rq_orderId r) \<noteq> None \<Longrightarrow>
     demand_step S (S\<lparr> ds_db := db, ds_owed := ds_owed S - {q. met_by (rq_chainId r) (rq_orderId r) evidence q},
       ds_proofs := insert (rq_orderId r, revision, evidence) (ds_proofs S) \<rparr>)"
| claim: "claimBatch chainId owner now clock (ds_db S) = (batch, db) \<Longrightarrow> owner \<notin> ds_owners S \<Longrightarrow>
     demand_step S (S\<lparr> ds_db := db, ds_issued := ds_issued S \<union> set (cb_claims batch), ds_owners := insert owner (ds_owners S),
       ds_owed := ds_owed S - {q. rq_chainId q = chainId \<and> rq_orderId q \<in> scanned_orders chainId now (ds_db S) \<and>
                                   validationCandidate (ds_db S) (clock (rq_orderId q)) q = None} \<rparr>)"
| renew: "c \<in> ds_issued S \<Longrightarrow> demand_step S (S\<lparr> ds_db := snd (renewClaim c now (ds_db S)) \<rparr>)"
| release: "set cs \<subseteq> ds_issued S \<Longrightarrow> demand_step S (S\<lparr> ds_db := snd (releaseClaims cs now (ds_db S)) \<rparr>)"
| fails: "set cs \<subseteq> ds_issued S \<Longrightarrow> demand_step S (S\<lparr> ds_db := snd (failClaims cs e now (ds_db S)) \<rparr>)"
| complete: "completeBatch completions proof now (ds_db S) = Inr (counts, db) \<Longrightarrow> fst ` set completions \<subseteq> ds_issued S \<Longrightarrow>
     completions_effect proof now completions
       (\<lparr> cc_applied = 0, cc_covered = 0, cc_resolvedUnneeded = 0, cc_followup = 0, cc_lostClaims = 0 \<rparr>, ds_db S) = (settled, proven) \<Longrightarrow>
     demand_step S (S\<lparr> ds_db := db, ds_owed := ds_owed S - settled, ds_proofs := ds_proofs S \<union> proven \<rparr>)"
| change: "orders_change (ds_db S) db \<Longrightarrow>
     demand_step S (S\<lparr> ds_db := db, ds_owed := {q \<in> ds_owed S. map_of (od_orders db) (rq_orderId q) \<noteq> None} \<rparr>)"

end
