(* ===== verification/Order_Demand_Invariant.thy ===== *)
theory Order_Demand_Invariant
  imports Order_Demand
begin

text \<open>
  What the rows of the demand table, the claims handed out, the requests owed and the committed proofs have to do
  with each other, and that every operation on the table keeps it.
\<close>

declare map_of_eq_Some_iff [simp del] Some_eq_map_of_iff [simp del]

section \<open>The invariant\<close>

text \<open>A row that stands for a request.\<close>

definition bears :: "OrderValidationDemand \<Rightarrow> OrderValidationRequest \<Rightarrow> bool" where
  "bears d q \<longleftrightarrow>
     rq_chainId d = rq_chainId q \<and> dm_pending d \<and> rq_requiredAt d \<ge> rq_requiredAt q \<and>
     (case rq_minimumBlock q of
        None \<Rightarrow> dm_anchorIndependent d
      | Some b \<Rightarrow> (case rq_minimumBlock d of None \<Rightarrow> False | Some m \<Rightarrow> m \<ge> b))"

definition claim_of_row :: "ClaimedOrderValidation \<Rightarrow> OrderValidationDemand \<Rightarrow> bool" where
  "claim_of_row c d \<longleftrightarrow>
     rq_orderId (cl_demand c) = rq_orderId d \<and> dm_leaseOwner (cl_demand c) = dm_leaseOwner d"

definition same_need :: "OrderValidationDemand \<Rightarrow> OrderValidationDemand \<Rightarrow> bool" where
  "same_need d e \<longleftrightarrow> rq_requiredAt d = rq_requiredAt e \<and> rq_minimumBlock d = rq_minimumBlock e"

definition claim_fits :: "ClaimedOrderValidation \<Rightarrow> OrderValidationDemand \<Rightarrow> bool" where
  "claim_fits c d \<longleftrightarrow>
     dm_generation (cl_demand c) \<le> dm_generation d \<and>
     (dm_generation (cl_demand c) = dm_generation d \<longrightarrow> same_need (cl_demand c) d)"

definition proof_known :: "(string \<times> int \<times> OrderValidationEvidence) set \<Rightarrow> OrderValidationDemand \<Rightarrow> bool" where
  "proof_known P d \<longleftrightarrow>
     (\<forall>r t n v. dm_proofRevision d = Some r \<and> dm_proofAt d = Some t \<and> dm_proofBlock d = Some n \<and> dm_proofChainRevision d = Some v \<longrightarrow>
        (rq_orderId d, r, \<lparr> ev_observedAt = t, ev_blockNumber = n, ev_checkpoint = \<lparr> cp_chainId = rq_chainId d, cp_revision = v \<rparr> \<rparr>) \<in> P)"

definition row_ok ::
  "(string \<times> OrderRow) list \<Rightarrow> ClaimedOrderValidation set \<Rightarrow> string set \<Rightarrow> (string \<times> int \<times> OrderValidationEvidence) set
     \<Rightarrow> string \<Rightarrow> OrderValidationDemand \<Rightarrow> bool" where
  "row_ok orders issued owners P i d \<longleftrightarrow>
     rq_orderId d = i \<and> (\<exists>row. map_of orders i = Some row \<and> or_chainId row = rq_chainId d) \<and>
     (\<forall>o'. dm_leaseOwner d = Some o' \<longrightarrow> o' \<in> owners) \<and>
     (\<forall>c \<in> issued. claim_of_row c d \<longrightarrow> claim_fits c d) \<and> proof_known P d"

definition claims_ok :: "ClaimedOrderValidation set \<Rightarrow> string set \<Rightarrow> bool" where
  "claims_ok issued owners \<longleftrightarrow>
     (\<forall>c \<in> issued. \<exists>o' \<in> owners. dm_leaseOwner (cl_demand c) = Some o') \<and>
     (\<forall>c \<in> issued. \<forall>c' \<in> issued. rq_orderId (cl_demand c) = rq_orderId (cl_demand c') \<and>
        dm_leaseOwner (cl_demand c) = dm_leaseOwner (cl_demand c') \<longrightarrow> c = c')"

definition demand_ok ::
  "'f OrderDb \<Rightarrow> ClaimedOrderValidation set \<Rightarrow> string set \<Rightarrow> OrderValidationRequest set
     \<Rightarrow> (string \<times> int \<times> OrderValidationEvidence) set \<Rightarrow> bool" where
  "demand_ok db issued owners owed P \<longleftrightarrow>
     distinct (map fst (od_demand db)) \<and>
     (\<forall>i d. map_of (od_demand db) i = Some d \<longrightarrow> row_ok (od_orders db) issued owners P i d) \<and>
     (\<forall>q \<in> owed. \<exists>d. map_of (od_demand db) (rq_orderId q) = Some d \<and> bears d q) \<and> claims_ok issued owners"

definition system_ok :: "'f DemandSystem \<Rightarrow> bool" where
  "system_ok S \<longleftrightarrow> demand_ok (ds_db S) (ds_issued S) (ds_owners S) (ds_owed S) (ds_proofs S)"

lemma demand_okI:
  "distinct (map fst (od_demand db)) \<Longrightarrow>
   (\<And>i d. map_of (od_demand db) i = Some d \<Longrightarrow> row_ok (od_orders db) issued owners P i d) \<Longrightarrow>
   (\<And>q. q \<in> owed \<Longrightarrow> \<exists>d. map_of (od_demand db) (rq_orderId q) = Some d \<and> bears d q) \<Longrightarrow>
   claims_ok issued owners \<Longrightarrow> demand_ok db issued owners owed P"
  by (simp add: demand_ok_def)

lemma demand_ok_row:
  "demand_ok db issued owners owed P \<Longrightarrow> map_of (od_demand db) i = Some d \<Longrightarrow> row_ok (od_orders db) issued owners P i d"
  by (simp add: demand_ok_def)

lemma demand_ok_claims: "demand_ok db issued owners owed P \<Longrightarrow> claims_ok issued owners"
  by (simp add: demand_ok_def)

lemma demand_ok_bears:
  assumes "demand_ok db issued owners owed P" and "q \<in> owed" and "map_of (od_demand db) (rq_orderId q) = Some d"
  shows "bears d q"
  using assms by (auto simp: demand_ok_def)

lemma row_ok_key: "row_ok orders issued owners P i d \<Longrightarrow> rq_orderId d = i"
  by (simp add: row_ok_def)

lemma row_ok_more_proofs: "row_ok orders issued owners P i d \<Longrightarrow> P \<subseteq> P' \<Longrightarrow> row_ok orders issued owners P' i d"
  by (fastforce simp: row_ok_def proof_known_def)

section \<open>Changing one row\<close>

lemma od_demand_put [simp]: "od_demand (put_demand i d db) = AList.update i d (od_demand db)"
  by (simp add: put_demand_def)

lemma od_orders_put [simp]: "od_orders (put_demand i d db) = od_orders db"
  by (simp add: put_demand_def)

lemma od_chain_put [simp]: "od_chain (put_demand i d db) = od_chain db"
  by (simp add: put_demand_def)

lemma put_demand_ok:
  assumes "demand_ok db issued owners owed P" and "row_ok (od_orders db) issued owners P' i d'" and "P \<subseteq> P'"
    and "\<And>q. q \<in> owed' \<Longrightarrow> rq_orderId q \<noteq> i \<Longrightarrow> q \<in> owed" and "\<And>q. q \<in> owed' \<Longrightarrow> rq_orderId q = i \<Longrightarrow> bears d' q"
  shows "demand_ok (put_demand i d' db) issued owners owed' P'"
proof (rule demand_okI)
  show "distinct (map fst (od_demand (put_demand i d' db)))"
    using assms(1) by (simp add: demand_ok_def distinct_update)
  show "row_ok (od_orders (put_demand i d' db)) issued owners P' j d" if "map_of (od_demand (put_demand i d' db)) j = Some d" for j d
    using that assms(2) row_ok_more_proofs [OF demand_ok_row [OF assms(1)] assms(3), of j d]
    by (auto simp: update_conv' split: if_splits)
  show "\<exists>d. map_of (od_demand (put_demand i d' db)) (rq_orderId q) = Some d \<and> bears d q" if "q \<in> owed'" for q
    using that assms(1,4,5) by (cases "rq_orderId q = i") (auto simp: update_conv' demand_ok_def)
  show "claims_ok issued owners" by (rule demand_ok_claims [OF assms(1)])
qed

text \<open>A change of the lease or of the retries of a row.\<close>

definition same_demand :: "OrderValidationDemand \<Rightarrow> OrderValidationDemand \<Rightarrow> bool" where
  "same_demand d d' \<longleftrightarrow>
     rq_orderId d' = rq_orderId d \<and> rq_chainId d' = rq_chainId d \<and> same_need d' d \<and> dm_generation d' = dm_generation d \<and>
     dm_pending d' = dm_pending d \<and> dm_anchorIndependent d' = dm_anchorIndependent d \<and>
     dm_proofRevision d' = dm_proofRevision d \<and> dm_proofAt d' = dm_proofAt d \<and> dm_proofBlock d' = dm_proofBlock d \<and>
     dm_proofChainRevision d' = dm_proofChainRevision d \<and> (dm_leaseOwner d' = dm_leaseOwner d \<or> dm_leaseOwner d' = None)"

lemma unowned_claim: "claims_ok issued owners \<Longrightarrow> c \<in> issued \<Longrightarrow> dm_leaseOwner d = None \<Longrightarrow> \<not> claim_of_row c d"
  by (fastforce simp: claims_ok_def claim_of_row_def)

lemma row_ok_same_demand:
  assumes "row_ok orders issued owners P i d" and "same_demand d d'" and "claims_ok issued owners"
  shows "row_ok orders issued owners P i d'"
proof -
  have "claim_fits c d'" if "c \<in> issued" "claim_of_row c d'" for c
  proof -
    have "dm_leaseOwner d' = dm_leaseOwner d"
      using unowned_claim [OF assms(3) that(1)] that(2) assms(2) by (auto simp: same_demand_def)
    then have "claim_of_row c d" using that(2) assms(2) by (simp add: claim_of_row_def same_demand_def)
    then have "claim_fits c d" using assms(1) that(1) by (simp add: row_ok_def)
    then show ?thesis using assms(2) by (simp add: claim_fits_def same_demand_def same_need_def)
  qed
  then show ?thesis using assms(1,2) by (auto simp: row_ok_def same_demand_def proof_known_def)
qed

lemma bears_same_demand: "same_demand d d' \<Longrightarrow> bears d' q = bears d q"
  by (auto simp: bears_def same_demand_def same_need_def split: option.split)

lemma put_same_demand_ok:
  assumes "demand_ok db issued owners owed P" and "map_of (od_demand db) i = Some d" and "same_demand d d'"
  shows "demand_ok (put_demand i d' db) issued owners owed P"
proof (rule put_demand_ok [OF assms(1)])
  show "row_ok (od_orders db) issued owners P i d'"
    by (rule row_ok_same_demand [OF demand_ok_row [OF assms(1,2)] assms(3) demand_ok_claims [OF assms(1)]])
  show "bears d' q" if "q \<in> owed" "rq_orderId q = i" for q
    using demand_ok_bears [OF assms(1) that(1)] that(2) assms(2) bears_same_demand [OF assms(3)] by simp
qed auto

lemma update_held_ok:
  assumes "demand_ok db issued owners owed P" and "\<And>d. same_demand d (f d)"
  shows "demand_ok (snd (update_held c now f db)) issued owners owed P"
  using assms(1) put_same_demand_ok [OF assms(1) _ assms(2)]
  by (auto simp: update_held_def split: option.split)

lemma each_claim_ok:
  assumes "\<And>c db. demand_ok db issued owners owed P \<Longrightarrow> demand_ok (snd (f c db)) issued owners owed P"
    and "demand_ok db issued owners owed P"
  shows "demand_ok (snd (each_claim f cs db)) issued owners owed P"
  using assms(2)
proof (induction cs arbitrary: db)
  case (Cons c cs)
  show ?case using Cons.IH [OF assms(1) [OF Cons.prems]] by (simp add: split_beta)
qed simp

lemma renewClaim_ok:
  "demand_ok db issued owners owed P \<Longrightarrow> demand_ok (snd (renewClaim c now db)) issued owners owed P"
  using update_held_ok [where f = "\<lambda>d. d\<lparr> dm_leaseUntil := now + demand_leaseMs \<rparr>"]
  by (simp add: renewClaim_def split_beta same_demand_def same_need_def)

lemma releaseClaims_ok:
  "demand_ok db issued owners owed P \<Longrightarrow> demand_ok (snd (releaseClaims cs now db)) issued owners owed P"
  unfolding releaseClaims_def
  by (rule each_claim_ok) (auto intro: update_held_ok simp: same_demand_def same_need_def)

lemma failClaims_ok:
  "demand_ok db issued owners owed P \<Longrightarrow> demand_ok (snd (failClaims cs e now db)) issued owners owed P"
  unfolding failClaims_def
  by (rule each_claim_ok) (auto intro: update_held_ok simp: failClaim_def same_demand_def same_need_def)

section \<open>Admission\<close>

lemma getDemand_Some [simp]:
  "getDemand db chainId i = Some d \<longleftrightarrow> map_of (od_demand db) i = Some d \<and> rq_chainId d = chainId"
  by (auto simp: getDemand_def split: option.splits if_splits)

lemma candidate_order:
  "validationCandidate db s r = Some row \<Longrightarrow> map_of (od_orders db) (rq_orderId r) = Some row \<and> or_chainId row = rq_chainId r"
  by (auto simp: validationCandidate_def selectOrderById_def split: option.splits if_splits)

lemma bears_new_demand: "bears (new_demand r revision now) r"
  by (auto simp: bears_def new_demand_def split: option.split)

lemma row_ok_new_demand:
  assumes "map_of orders (rq_orderId r) = Some row" and "or_chainId row = rq_chainId r" and "claims_ok issued owners"
  shows "row_ok orders issued owners P (rq_orderId r) (new_demand r revision now)"
  using assms unowned_claim [OF assms(3), where d = "new_demand r revision now"]
  by (auto simp: row_ok_def new_demand_def proof_known_def)

lemma strengthen_ok:
  assumes "row_ok orders issued owners P i d"
  shows "row_ok orders issued owners P i (strengthen r revision now d)"
  using assms by (auto simp: row_ok_def strengthen_def claim_of_row_def claim_fits_def proof_known_def)

lemma bears_strengthen:
  "rq_chainId d = rq_chainId r \<Longrightarrow> bears (strengthen r revision now d) r"
  "bears d q \<Longrightarrow> bears (strengthen r revision now d) q"
  by (auto simp: bears_def strengthen_def split: option.splits)

lemma bears_covered: "rq_chainId d = rq_chainId r \<Longrightarrow> \<not> advancesValidationDemand d revision r \<Longrightarrow> bears d r"
  by (auto simp: bears_def advancesValidationDemand_def split: option.splits)

lemma insertDemand_Inr:
  "insertDemand d db = Inr db' \<longleftrightarrow>
     map_of (od_demand db) (rq_orderId d) = None \<and> map_of (od_orders db) (rq_orderId d) \<noteq> None \<and> db' = put_demand (rq_orderId d) d db"
  by (auto simp: insertDemand_def bindR_Inr_iff)

lemma demand_ok_add_owed:
  assumes "demand_ok db issued owners owed P" and "map_of (od_demand db) (rq_orderId r) = Some d" and "bears d r"
  shows "demand_ok db issued owners (insert r owed) P"
  using assms by (auto simp: demand_ok_def)

lemma put_new_demand_ok:
  assumes ok: "demand_ok db issued owners owed P" and "map_of (od_demand db) (rq_orderId r) = None"
    and "map_of (od_orders db) (rq_orderId r) = Some row" and "or_chainId row = rq_chainId r"
  shows "demand_ok (put_demand (rq_orderId r) (new_demand r revision now) db) issued owners (insert r owed) P"
proof (rule put_demand_ok [OF ok row_ok_new_demand [OF assms(3,4) demand_ok_claims [OF ok]] subset_refl])
  fix q
  assume "q \<in> insert r owed" and "rq_orderId q = rq_orderId r"
  then have "q = r" using ok assms(2) by (auto simp: demand_ok_def)
  then show "bears (new_demand r revision now) q" by (simp add: bears_new_demand)
qed auto

lemma put_strengthened_ok:
  assumes ok: "demand_ok db issued owners owed P" and row: "map_of (od_demand db) (rq_orderId r) = Some d"
    and "rq_chainId d = rq_chainId r"
  shows "demand_ok (put_demand (rq_orderId r) (strengthen r revision now d) db) issued owners (insert r owed) P"
proof (rule put_demand_ok [OF ok strengthen_ok [OF demand_ok_row [OF ok row]] subset_refl])
  show "bears (strengthen r revision now d) q" if "q \<in> insert r owed" "rq_orderId q = rq_orderId r" for q
    using that bears_strengthen(1) [OF assms(3)] bears_strengthen(2) demand_ok_bears [OF ok, of q d] row by auto
qed auto

lemma admitDemand_ok:
  assumes ok: "demand_ok db issued owners owed P" and admit: "admitDemand r s s' now db = Inr (outcome, db')"
  shows "demand_ok db' issued owners (owed \<union> (if outcome = PendingDemand then {r} else {})) P"
proof (cases "validationCandidate db s r")
  case None
  then show ?thesis using ok admit by (auto simp: admitDemand_def bindR_Inr_iff)
next
  case (Some candidate)
  note order = candidate_order [OF Some]
  show ?thesis
  proof (cases "getDemand db (rq_chainId r) (rq_orderId r)")
    case None
    then have "map_of (od_demand db) (rq_orderId r) = None" "outcome = PendingDemand"
      "db' = put_demand (rq_orderId r) (new_demand r (or_revision candidate) now) db"
      using admit \<open>validationCandidate db s r = Some candidate\<close>
      by (auto simp: admitDemand_def bindR_Inr_iff insertDemand_Inr new_demand_def)
    then show ?thesis using put_new_demand_ok [OF ok _ conjunct1 [OF order] conjunct2 [OF order]] by simp
  next
    case (Some d)
    then have d: "map_of (od_demand db) (rq_orderId r) = Some d" "rq_chainId d = rq_chainId r" by auto
    consider "outcome = Covered" "db' = db"
      | "outcome = PendingDemand" "db' = put_demand (rq_orderId r) (strengthen r (or_revision candidate) now d) db"
      | "outcome = PendingDemand" "db' = db" "\<not> advancesValidationDemand d (or_revision candidate) r"
      using admit \<open>validationCandidate db s r = Some candidate\<close> Some
      by (auto simp: admitDemand_def bindR_Inr_iff split: if_splits)
    then show ?thesis
      using ok put_strengthened_ok [OF ok d] demand_ok_add_owed [OF ok d(1) bears_covered [OF d(2)]]
      by cases auto
  qed
qed

lemma deferDemand_ok:
  assumes ok: "demand_ok db issued owners owed P" and deferred: "deferDemand r e s s' now db = Inr (outcome, db')"
  shows "demand_ok db' issued owners (owed \<union> (if outcome = PendingDemand then {r} else {})) P"
proof -
  obtain db1 where admitted: "admitDemand r s s' now db = Inr (outcome, db1)"
    using deferred by (auto simp: deferDemand_def bindR_Inr_iff split: if_splits)
  note ok1 = admitDemand_ok [OF ok admitted]
  show ?thesis
  proof (cases "outcome = PendingDemand \<and> getDemand db1 (rq_chainId r) (rq_orderId r) \<noteq> None")
    case True
    then obtain d where d: "getDemand db1 (rq_chainId r) (rq_orderId r) = Some d" by auto
    then have "db' = put_demand (rq_orderId r)
        (d\<lparr> dm_failures := max (dm_failures d) demand_isolateAfterFailures,
           dm_nextAttemptAt := max (dm_nextAttemptAt d) (now + demand_retryBaseMs),
           dm_lastError := Some e, dm_updatedAt := now \<rparr>) db1"
      using deferred admitted True by (simp add: deferDemand_def del: getDemand_Some)
    then show ?thesis
      using put_same_demand_ok [OF ok1, of "rq_orderId r" d] d by (simp add: same_demand_def same_need_def)
  next
    case False
    then show ?thesis using deferred admitted ok1 by (auto simp: deferDemand_def bindR_Inr_iff simp del: getDemand_Some)
  qed
qed

section \<open>Recording a validation\<close>

lemma satisfies_bears: "validationProofSatisfies proof d \<Longrightarrow> bears d q \<Longrightarrow> validationProofSatisfies proof q"
  by (auto simp: validationProofSatisfies_def bears_def split: option.splits)

lemma owed_then_unmet:
  "bears d q \<Longrightarrow> rq_orderId d = rq_orderId q \<Longrightarrow> validationProofSatisfies proof d \<Longrightarrow> met_by (rq_chainId d) (rq_orderId d) proof q"
  using satisfies_bears [of "proof" d q] by (simp add: met_by_def bears_def)

lemma checkpoint_chain: "cp_chainId cp = c \<Longrightarrow> \<lparr> cp_chainId = c, cp_revision = cp_revision cp \<rparr> = cp"
  by (cases cp) simp

lemma evidence_eta:
  "cp_chainId (ev_checkpoint e) = c \<Longrightarrow>
   \<lparr> ev_observedAt = ev_observedAt e, ev_blockNumber = ev_blockNumber e,
      ev_checkpoint = \<lparr> cp_chainId = c, cp_revision = cp_revision (ev_checkpoint e) \<rparr> \<rparr> = e"
  by (cases e) (simp add: checkpoint_chain)

lemma proof_known_evidence:
  assumes "cp_chainId (ev_checkpoint e) = rq_chainId d" and "(rq_orderId d, r, e) \<in> P"
    and "dm_proofRevision d = Some r" "dm_proofAt d = Some (ev_observedAt e)" "dm_proofBlock d = Some (ev_blockNumber e)"
      "dm_proofChainRevision d = Some (cp_revision (ev_checkpoint e))"
  shows "proof_known P d"
  using assms(2-6) by (simp add: proof_known_def evidence_eta [OF assms(1)])

text \<open>The row \<open>recordValidation\<close> writes over an existing one.\<close>

definition recorded_row :: "int \<Rightarrow> OrderValidationEvidence \<Rightarrow> bool \<Rightarrow> int \<Rightarrow> OrderValidationDemand \<Rightarrow> OrderValidationDemand" where
  "recorded_row revision e stillPending now d =
     d\<lparr> dm_revision := revision, dm_pending := stillPending, dm_proofRevision := Some revision,
        dm_proofAt := Some (ev_observedAt e), dm_proofBlock := Some (ev_blockNumber e),
        dm_proofChainRevision := Some (cp_revision (ev_checkpoint e)), dm_updatedAt := now,
        dm_leaseOwner := None, dm_leaseUntil := 0, dm_failures := 0, dm_lastError := None, dm_nextAttemptAt := 0 \<rparr>"

lemma recordValidation_cases:
  assumes "recordValidation r revision e now db = Inr db'"
  obtains (inserts) d where "cp_chainId (ev_checkpoint e) = rq_chainId r" "validationProofSatisfies e r"
      "map_of (od_demand db) (rq_orderId r) = None" "map_of (od_orders db) (rq_orderId r) \<noteq> None"
      "d = recorded_row revision e False now (new_demand r revision now)" "db' = put_demand (rq_orderId r) d db"
    | (updates) d where "cp_chainId (ev_checkpoint e) = rq_chainId r" "validationProofSatisfies e r"
      "map_of (od_demand db) (rq_orderId r) = Some d"
      "db' = put_demand (rq_orderId r)
         (recorded_row revision e (rq_chainId d = rq_chainId r \<and> dm_pending d \<and> \<not> validationProofSatisfies e d) now d) db"
proof (cases "map_of (od_demand db) (rq_orderId r)")
  case None
  then have "db' = put_demand (rq_orderId r) (recorded_row revision e False now (new_demand r revision now)) db"
    "map_of (od_orders db) (rq_orderId r) \<noteq> None" "cp_chainId (ev_checkpoint e) = rq_chainId r" "validationProofSatisfies e r"
    using assms
    by (auto simp: recordValidation_def bindR_Inr_iff Let_def insertDemand_Inr getDemand_def new_demand_def recorded_row_def)
  then show ?thesis using inserts None by blast
next
  case (Some d)
  then have "db' = put_demand (rq_orderId r)
      (recorded_row revision e (rq_chainId d = rq_chainId r \<and> dm_pending d \<and> \<not> validationProofSatisfies e d) now d) db"
    "cp_chainId (ev_checkpoint e) = rq_chainId r" "validationProofSatisfies e r"
    using assms by (auto simp: recordValidation_def bindR_Inr_iff Let_def getDemand_def recorded_row_def)
  then show ?thesis using updates Some by blast
qed

lemma recorded_row_ok:
  assumes "rq_orderId d = i" and "map_of orders i = Some row" and "or_chainId row = rq_chainId d"
    and "claims_ok issued owners" and "cp_chainId (ev_checkpoint e) = rq_chainId d" and "(i, revision, e) \<in> P"
  shows "row_ok orders issued owners P i (recorded_row revision e b now d)"
proof -
  let ?d = "recorded_row revision e b now d"
  have "proof_known P ?d" by (rule proof_known_evidence) (use assms in \<open>auto simp: recorded_row_def\<close>)
  moreover have "dm_leaseOwner ?d = None" by (simp add: recorded_row_def)
  ultimately show ?thesis
    using assms unowned_claim [OF assms(4), of _ ?d] by (auto simp: row_ok_def recorded_row_def)
qed

lemma bears_recorded_row: "bears d q \<Longrightarrow> b \<Longrightarrow> bears (recorded_row revision e b now d) q"
  by (auto simp: bears_def recorded_row_def split: option.splits)

lemma recordValidation_ok:
  assumes ok: "demand_ok db issued owners owed P" and rec: "recordValidation r revision e now db = Inr db'"
    and order: "selectOrderById db (rq_chainId r) (rq_orderId r) \<noteq> None"
  shows "demand_ok db' issued owners (owed - {q. met_by (rq_chainId r) (rq_orderId r) e q}) (insert (rq_orderId r, revision, e) P)"
proof -
  obtain row where row: "map_of (od_orders db) (rq_orderId r) = Some row" "or_chainId row = rq_chainId r"
    using order by (auto simp: selectOrderById_def split: option.splits if_splits)
  show ?thesis
    using rec
  proof (cases rule: recordValidation_cases)
    case (inserts d)
    have "row_ok (od_orders db) issued owners (insert (rq_orderId r, revision, e) P) (rq_orderId r) d"
      unfolding inserts(5)
      by (rule recorded_row_ok [OF _ row(1) _ demand_ok_claims [OF ok]]) (use row inserts(1) in \<open>auto simp: new_demand_def\<close>)
    then show ?thesis
      unfolding inserts(6)
    proof (rule put_demand_ok [OF ok])
      fix q
      assume "q \<in> owed - {q. met_by (rq_chainId r) (rq_orderId r) e q}" "rq_orderId q = rq_orderId r"
      then show "bears d q" using ok inserts(3) by (auto simp: demand_ok_def)
    qed auto
  next
    case (updates d)
    note d = demand_ok_row [OF ok updates(3)]
    then have key: "rq_orderId d = rq_orderId r" and chain: "rq_chainId d = rq_chainId r"
      using row by (auto simp: row_ok_def)
    let ?P = "insert (rq_orderId r, revision, e) P"
    show ?thesis
      unfolding updates(4)
    proof (rule put_demand_ok [OF ok])
      show "row_ok (od_orders db) issued owners ?P (rq_orderId r)
          (recorded_row revision e (rq_chainId d = rq_chainId r \<and> dm_pending d \<and> \<not> validationProofSatisfies e d) now d)"
        by (rule recorded_row_ok [OF key row(1) _ demand_ok_claims [OF ok]]) (use row chain updates(1) in auto)
      fix q
      assume q: "q \<in> owed - {q. met_by (rq_chainId r) (rq_orderId r) e q}" "rq_orderId q = rq_orderId r"
      then have "bears d q" using demand_ok_bears [OF ok, of q d] updates(3) by auto
      moreover have "\<not> validationProofSatisfies e d"
        using owed_then_unmet [OF \<open>bears d q\<close>, of e] q key chain by auto
      moreover have "dm_pending d" using \<open>bears d q\<close> by (simp add: bears_def)
      ultimately show "bears (recorded_row revision e
          (rq_chainId d = rq_chainId r \<and> dm_pending d \<and> \<not> validationProofSatisfies e d) now d) q"
        using chain by (intro bears_recorded_row) auto
    qed auto
  qed
qed

section \<open>Completion\<close>

lemma canMutate_put [simp]:
  "canMutateCurrentStateForCollection (put_demand i d db) c k n = canMutateCurrentStateForCollection db c k n"
  by (auto simp: canMutateCurrentStateForCollection_def split: option.split)

lemma selectOrderById_put [simp]: "selectOrderById (put_demand i d db) c j = selectOrderById db c j"
  by (simp add: selectOrderById_def)

lemma validationCandidate_put [simp]: "validationCandidate (put_demand i d db) s q = validationCandidate db s q"
  by (auto simp: validationCandidate_def split: option.split)

lemma candidate_of_row:
  assumes "validationCandidate db s (anchored_request d) = None" and "bears d q" and "rq_orderId q = rq_orderId d"
  shows "validationCandidate db s q = None"
  using assms
  by (auto simp: validationCandidate_def anchored_request_def bears_def canMutateCurrentStateForCollection_def
      canProjectCurrentStateAtBlock_def split: option.splits if_splits)

definition keeps_orders :: "'f OrderDb \<Rightarrow> 'f OrderDb \<Rightarrow> bool" where
  "keeps_orders db db' \<longleftrightarrow>
     od_chain db' = od_chain db \<and> od_demand db' = od_demand db \<and>
     (\<forall>i row. map_of (od_orders db) i = Some row \<longrightarrow> (\<exists>row'. map_of (od_orders db') i = Some row' \<and> or_chainId row' = or_chainId row))"

lemma keeps_orders_ok:
  assumes "demand_ok db issued owners owed P" and "keeps_orders db db'"
  shows "demand_ok db' issued owners owed P"
  using assms by (fastforce simp: demand_ok_def keeps_orders_def row_ok_def)

lemma applyValidation_keeps: "keeps_orders db (applyValidation i row status s db)"
  by (auto simp: keeps_orders_def applyValidation_def selectOrderById_def update_conv' split: option.splits)

lemma applyDemandValidation_cases:
  assumes "applyDemandValidation claim status s s' db = (revision, db1)"
  obtains (refused) "revision = None" "db1 = db"
    | (applied) row where "validationCandidate db s (anchored_request (cl_demand claim)) = Some row"
        "or_revision row = or_revision (cl_candidate claim)"
        "db1 = applyValidation (rq_orderId (cl_demand claim)) row status s' db"
        "revision = map_option or_revision (selectOrderById db1 (rq_chainId (cl_demand claim)) (rq_orderId (cl_demand claim)))"
proof (cases "validationCandidate db s (anchored_request (cl_demand claim))")
  case None
  then show ?thesis using assms refused by (simp add: applyDemandValidation_def)
next
  case (Some row)
  show ?thesis
  proof (cases "or_revision row = or_revision (cl_candidate claim)")
    case True
    then show ?thesis using assms Some applied [of row] by (auto simp: applyDemandValidation_def Let_def)
  next
    case False
    then show ?thesis using assms Some refused by (simp add: applyDemandValidation_def)
  qed
qed

lemma applyDemandValidation_keeps:
  assumes "applyDemandValidation claim status s s' db = (revision, db1)"
  shows "keeps_orders db db1"
  using assms
proof (cases rule: applyDemandValidation_cases)
  case refused
  then show ?thesis by (simp add: keeps_orders_def)
next
  case (applied row)
  then show ?thesis using applyValidation_keeps by blast
qed

lemma applyDemandValidation_None:
  assumes "applyDemandValidation claim status s s' db = (None, db1)"
  shows "db1 = db"
  using assms
proof (cases rule: applyDemandValidation_cases)
  case (applied row)
  have "map_of (od_orders db) (rq_orderId (cl_demand claim)) = Some row"
    using candidate_order [OF applied(1)] by (simp add: anchored_request_def)
  then obtain row' where "map_of (od_orders db1) (rq_orderId (cl_demand claim)) = Some row'" "or_chainId row' = or_chainId row"
    using applyDemandValidation_keeps [OF assms] by (auto simp: keeps_orders_def)
  then show ?thesis
    using applied(4) candidate_order [OF applied(1)] by (simp add: selectOrderById_def anchored_request_def)
qed

lemma completeOne_cases:
  assumes "completeOne e now reads claim status (counts, db) = Inr (counts', db')"
  obtains (lost) "\<not> owns (getDemand db (rq_chainId (cl_demand claim)) (rq_orderId (cl_demand claim))) claim now" "db' = db"
    | (held) d revision db1 where
        "map_of (od_demand db) (rq_orderId (cl_demand claim)) = Some d" "rq_chainId d = rq_chainId (cl_demand claim)"
        "owns (Some d) claim now" "cp_chainId (ev_checkpoint e) = rq_chainId d" "validationProofSatisfies e (cl_demand claim)"
        "applyDemandValidation claim status (rd_candidate reads) (rd_apply reads) db = (revision, db1)"
        "db' = put_demand (rq_orderId (cl_demand claim))
           (completed_row revision e (still_needed db1 (rd_unneeded reads) revision claim d) now d) db1"
proof (cases "owns (getDemand db (rq_chainId (cl_demand claim)) (rq_orderId (cl_demand claim))) claim now")
  case False
  then have "db' = db" using assms by (simp add: completeOne_def bindR_Inr_iff Let_def)
  then show ?thesis by (rule lost [OF False])
next
  case True
  then obtain d where d: "getDemand db (rq_chainId (cl_demand claim)) (rq_orderId (cl_demand claim)) = Some d"
    by (auto simp: owns_def split: option.splits)
  obtain revision db1 where applied:
    "applyDemandValidation claim status (rd_candidate reads) (rd_apply reads) db = (revision, db1)" by fastforce
  have row: "map_of (od_demand db1) (rq_orderId (cl_demand claim)) = Some d"
    using d applyDemandValidation_keeps [OF applied] by (simp add: keeps_orders_def)
  have "cp_chainId (ev_checkpoint e) = rq_chainId (cl_demand claim)"
    using assms by (auto simp: completeOne_def bindR_Inr_iff)
  moreover have "validationProofSatisfies e (cl_demand claim)"
    using assms True d by (auto simp: completeOne_def bindR_Inr_iff Let_def)
  moreover from calculation have "db' = put_demand (rq_orderId (cl_demand claim))
      (completed_row revision e (still_needed db1 (rd_unneeded reads) revision claim d) now d) db1"
    using assms True
    by (simp add: completeOne_def Let_def d applied row update_demand_def del: getDemand_Some)
  moreover have "owns (Some d) claim now" using True by (simp only: d)
  ultimately show ?thesis using held [of d revision db1] d applied by simp
qed

lemma completed_row_ok:
  assumes "row_ok orders issued owners P i d" and "claims_ok issued owners"
    and "cp_chainId (ev_checkpoint e) = rq_chainId d"
    and "P' = P \<union> (case revision of None \<Rightarrow> {} | Some r \<Rightarrow> {(i, r, e)})"
  shows "row_ok orders issued owners P' i (completed_row revision e b now d)"
proof -
  let ?d = "completed_row revision e b now d"
  have "proof_known P' ?d"
  proof (cases revision)
    case None
    then show ?thesis by (simp add: proof_known_def completed_row_def)
  next
    case (Some r)
    then show ?thesis
      by (intro proof_known_evidence [of e _ r]) (use assms in \<open>auto simp: completed_row_def row_ok_def\<close>)
  qed
  moreover have "dm_leaseOwner ?d = None" by (simp add: completed_row_def)
  ultimately show ?thesis
    using assms(1) unowned_claim [OF assms(2), of _ ?d] by (auto simp: row_ok_def completed_row_def)
qed

lemma bears_completed_row: "bears d q \<Longrightarrow> b \<Longrightarrow> bears (completed_row revision e b now d) q"
  by (auto simp: bears_def completed_row_def split: option.splits)

lemma owned_claim_fits:
  assumes ok: "demand_ok db issued owners owed P" and "claim \<in> issued"
    and row: "map_of (od_demand db) (rq_orderId (cl_demand claim)) = Some d" and "owns (Some d) claim now"
  shows "claim_fits claim d"
  using demand_ok_row [OF ok row] assms(2,4) by (auto simp: row_ok_def owns_def claim_of_row_def)

text \<open>A request the completion does not settle keeps the row pending.\<close>

lemma unsettled_stays:
  assumes fits: "claim_fits claim d" and "validationProofSatisfies e (cl_demand claim)"
    and bears: "bears d q" "rq_orderId q = rq_orderId d"
    and unmet: "revision \<noteq> None \<Longrightarrow> \<not> met_by (rq_chainId d) (rq_orderId d) e q"
    and needed: "revision = None \<Longrightarrow> validationCandidate db s q \<noteq> None"
  shows "still_needed db s revision claim d"
proof (cases revision)
  case None
  have "validationCandidate db s (anchored_request d) \<noteq> None"
  proof
    assume "validationCandidate db s (anchored_request d) = None"
    from candidate_of_row [OF this bears] show False using needed None by simp
  qed
  then show ?thesis using None by (simp add: still_needed_def)
next
  case (Some r)
  have "\<not> validationProofSatisfies e d" using owed_then_unmet [OF bears(1)] bears(2) unmet Some by auto
  then have "\<not> same_need (cl_demand claim) d"
    using assms(2) by (auto simp: validationProofSatisfies_def same_need_def)
  then show ?thesis using fits Some by (auto simp: still_needed_def claim_fits_def)
qed

lemma completion_effect_held:
  assumes "getDemand db (rq_chainId (cl_demand claim)) (rq_orderId (cl_demand claim)) = Some d" and "owns (Some d) claim now"
    and "applyDemandValidation claim status (rd_candidate reads) (rd_apply reads) db = (revision, db1)"
  shows "completion_effect e now reads claim status db =
    (case revision of
       Some r \<Rightarrow> ({q. met_by (rq_chainId (cl_demand claim)) (rq_orderId (cl_demand claim)) e q}, {(rq_orderId (cl_demand claim), r, e)})
     | None \<Rightarrow> ({q. rq_chainId q = rq_chainId (cl_demand claim) \<and> rq_orderId q = rq_orderId (cl_demand claim) \<and>
                    validationCandidate db (rd_unneeded reads) q = None}, {}))"
  using assms by (simp add: completion_effect_def Let_def del: getDemand_Some)

lemma completeOne_ok:
  assumes ok: "demand_ok db issued owners owed P" and issued: "claim \<in> issued"
    and complete: "completeOne e now reads claim status (counts, db) = Inr (counts', db')"
    and effect: "completion_effect e now reads claim status db = (settled, proven)"
  shows "demand_ok db' issued owners (owed - settled) (P \<union> proven)"
  using complete
proof (cases rule: completeOne_cases)
  case lost
  then show ?thesis using ok effect by (simp add: completion_effect_def Let_def)
next
  case (held d revision db1)
  let ?i = "rq_orderId (cl_demand claim)"
  have key: "rq_orderId d = ?i" using demand_ok_row [OF ok held(1)] by (rule row_ok_key)
  have ok1: "demand_ok db1 issued owners owed P"
    by (rule keeps_orders_ok [OF ok applyDemandValidation_keeps [OF held(6)]])
  have row1: "map_of (od_demand db1) ?i = Some d"
    using held(1) applyDemandValidation_keeps [OF held(6)] by (simp add: keeps_orders_def)
  have effect': "(case revision of
       Some r \<Rightarrow> ({q. met_by (rq_chainId d) ?i e q}, {(?i, r, e)})
     | None \<Rightarrow> ({q. rq_chainId q = rq_chainId d \<and> rq_orderId q = ?i \<and> validationCandidate db (rd_unneeded reads) q = None}, {}))
     = (settled, proven)"
    using completion_effect_held [OF _ held(3,6), of e] held(1,2) effect by (cases revision) simp_all
  have P': "P \<union> proven = P \<union> (case revision of None \<Rightarrow> {} | Some r \<Rightarrow> {(?i, r, e)})"
    using effect' by (cases revision) auto
  show ?thesis
    unfolding held(7)
  proof (rule put_demand_ok [OF ok1])
    show "row_ok (od_orders db1) issued owners (P \<union> proven) ?i
        (completed_row revision e (still_needed db1 (rd_unneeded reads) revision claim d) now d)"
      by (rule completed_row_ok [OF demand_ok_row [OF ok1 row1] demand_ok_claims [OF ok] held(4) P'])
    fix q
    assume q: "q \<in> owed - settled" "rq_orderId q = ?i"
    have bears: "bears d q" using demand_ok_bears [OF ok, of q d] q held(1) by auto
    have "still_needed db1 (rd_unneeded reads) revision claim d"
    proof (rule unsettled_stays [OF owned_claim_fits [OF ok issued held(1,3)] held(5) bears])
      show "\<not> met_by (rq_chainId d) (rq_orderId d) e q" if "revision \<noteq> None"
        using that effect' q key by auto
      show "validationCandidate db1 (rd_unneeded reads) q \<noteq> None" if "revision = None"
      proof -
        have "db1 = db" using applyDemandValidation_None held(6) that by blast
        then show ?thesis using that effect' q bears by (auto simp: bears_def)
      qed
    qed (use q key in simp)
    then show "bears (completed_row revision e (still_needed db1 (rd_unneeded reads) revision claim d) now d) q"
      by (rule bears_completed_row [OF bears])
  qed auto
qed

lemma completeAll_ok:
  assumes "demand_ok (snd acc) issued owners owed P" and "fst ` set completions \<subseteq> issued"
    and "completeAll e now completions acc = Inr (counts, db')"
    and "completions_effect e now completions acc = (settled, proven)"
  shows "demand_ok db' issued owners (owed - settled) (P \<union> proven)"
  using assms
proof (induction completions arbitrary: acc owed P settled proven)
  case Nil
  then show ?case by auto
next
  case (Cons x cs)
  obtain claim status reads where x: "x = (claim, status, reads)" by (cases x) auto
  obtain counts1 db1 where one: "completeOne e now reads claim status acc = Inr (counts1, db1)"
    and rest: "completeAll e now cs (counts1, db1) = Inr (counts, db')"
    using Cons.prems(3) x by (auto simp: bindR_Inr_iff)
  obtain settled1 proven1 settled2 proven2 where
    effects: "completion_effect e now reads claim status (snd acc) = (settled1, proven1)"
      "completions_effect e now cs (counts1, db1) = (settled2, proven2)" by fastforce
  have "settled = settled1 \<union> settled2" "proven = proven1 \<union> proven2"
    using Cons.prems(4) x one effects by auto
  moreover have "demand_ok db1 issued owners (owed - settled1) (P \<union> proven1)"
    by (rule completeOne_ok [of "snd acc" _ _ _ _ claim, where counts = "fst acc"]) (use Cons.prems(1,2) x one effects in auto)
  ultimately show ?case
    using Cons.IH [of "(counts1, db1)" "owed - settled1" "P \<union> proven1"] Cons.prems(2) rest effects(2)
    by (simp add: Diff_eq Int_assoc Un_assoc)
qed

section \<open>Claiming\<close>

definition unneeded_row :: "int \<Rightarrow> OrderValidationDemand \<Rightarrow> OrderValidationDemand" where
  "unneeded_row now d =
     d\<lparr> dm_pending := False, dm_leaseOwner := None, dm_leaseUntil := 0, dm_proofRevision := None,
        dm_proofAt := None, dm_proofBlock := None, dm_updatedAt := now \<rparr>"

definition leased_row :: "string \<Rightarrow> int \<Rightarrow> OrderRow \<Rightarrow> OrderValidationDemand \<Rightarrow> OrderValidationDemand" where
  "leased_row owner now candidate d =
     d\<lparr> dm_generation := dm_generation d + (if dm_revision d \<noteq> or_revision candidate then 1 else 0),
        dm_revision := or_revision candidate, dm_leaseOwner := Some owner,
        dm_leaseVersion := dm_leaseVersion d + 1, dm_leaseUntil := now + demand_leaseMs, dm_updatedAt := now \<rparr>"

lemma claimRow_unneeded:
  assumes "validationCandidate db (clock (rq_orderId d)) (anchored_request d) = None"
    and "map_of (od_demand db) (rq_orderId d) = Some d"
  shows "claimRow owner now clock d (batch, db) =
    (batch\<lparr> cb_resolvedUnneeded := cb_resolvedUnneeded batch + 1 \<rparr>, put_demand (rq_orderId d) (unneeded_row now d) db)"
  using assms by (simp add: claimRow_def update_demand_def unneeded_row_def)

lemma claimRow_leased:
  assumes "validationCandidate db (clock (rq_orderId d)) (anchored_request d) = Some candidate"
    and "map_of (od_demand db) (rq_orderId d) = Some d"
  shows "claimRow owner now clock d (batch, db) =
    (batch\<lparr> cb_claims := cb_claims batch @ [\<lparr> cl_demand = leased_row owner now candidate d, cl_candidate = candidate \<rparr>] \<rparr>,
     put_demand (rq_orderId d) (leased_row owner now candidate d) db)"
proof -
  have "getDemand (put_demand (rq_orderId d) (leased_row owner now candidate d) db) (rq_chainId d) (rq_orderId d)
      = Some (leased_row owner now candidate d)"
    by (simp add: update_conv' leased_row_def)
  then show ?thesis
    using assms by (simp add: claimRow_def update_demand_def Let_def leased_row_def del: getDemand_Some)
qed

lemma unneeded_row_ok:
  assumes "row_ok orders issued owners P i d" and "claims_ok issued owners"
  shows "row_ok orders issued owners P i (unneeded_row now d)"
  using assms unowned_claim [OF assms(2), of _ "unneeded_row now d"]
  by (auto simp: row_ok_def unneeded_row_def proof_known_def)

lemma claims_ok_add:
  assumes "claims_ok issued owners" and "owner \<in> owners" and "dm_leaseOwner (cl_demand c) = Some owner"
    and "\<And>c'. c' \<in> issued \<Longrightarrow> dm_leaseOwner (cl_demand c') = Some owner \<Longrightarrow> rq_orderId (cl_demand c') \<noteq> rq_orderId (cl_demand c)"
  shows "claims_ok (insert c issued) owners"
proof -
  have old: "\<forall>c \<in> issued. \<forall>c' \<in> issued. rq_orderId (cl_demand c) = rq_orderId (cl_demand c') \<and>
      dm_leaseOwner (cl_demand c) = dm_leaseOwner (cl_demand c') \<longrightarrow> c = c'"
    and owned: "\<forall>c \<in> issued. \<exists>o' \<in> owners. dm_leaseOwner (cl_demand c) = Some o'"
    using assms(1) by (auto simp: claims_ok_def)
  have new: "\<forall>c' \<in> issued. dm_leaseOwner (cl_demand c') = Some owner \<longrightarrow> rq_orderId (cl_demand c') \<noteq> rq_orderId (cl_demand c)"
    using assms(4) by blast
  show ?thesis
    unfolding claims_ok_def
  proof (intro conjI ballI impI)
    show "\<exists>o' \<in> owners. dm_leaseOwner (cl_demand x) = Some o'" if "x \<in> insert c issued" for x
      using that owned assms(2,3) by auto
    fix x y
    assume "x \<in> insert c issued" "y \<in> insert c issued"
      and eq: "rq_orderId (cl_demand x) = rq_orderId (cl_demand y) \<and> dm_leaseOwner (cl_demand x) = dm_leaseOwner (cl_demand y)"
    then consider "x = c" "y = c" | "x = c" "y \<in> issued" | "x \<in> issued" "y = c" | "x \<in> issued" "y \<in> issued" by blast
    then show "x = y"
      by cases (use new old eq assms(3) in \<open>metis\<close>)+
  qed
qed

lemma lease_ok:
  assumes ok: "demand_ok db issued owners owed P" and row: "map_of (od_demand db) i = Some d"
    and "owner \<in> owners"
    and fresh: "\<And>c'. c' \<in> issued \<Longrightarrow> dm_leaseOwner (cl_demand c') = Some owner \<Longrightarrow> rq_orderId (cl_demand c') \<noteq> i"
    and c: "c = \<lparr> cl_demand = leased_row owner now candidate d, cl_candidate = candidate \<rparr>"
  shows "demand_ok (put_demand i (leased_row owner now candidate d) db) (insert c issued) owners owed P"
proof -
  let ?d = "leased_row owner now candidate d"
  have d: "row_ok (od_orders db) issued owners P i d" by (rule demand_ok_row [OF ok row])
  then have key: "rq_orderId d = i" by (rule row_ok_key)
  have fields: "rq_orderId ?d = i" "dm_leaseOwner ?d = Some owner" using key by (simp_all add: leased_row_def)
  have claims: "claims_ok (insert c issued) owners"
    by (rule claims_ok_add [OF demand_ok_claims [OF ok] assms(3)]) (use fresh fields c in auto)
  have "\<not> claim_of_row c' ?d" if "c' \<in> issued" for c' using fresh that fields by (auto simp: claim_of_row_def)
  then have new: "row_ok (od_orders db) (insert c issued) owners P i ?d"
    using d assms(3) c by (auto simp: row_ok_def leased_row_def claim_fits_def same_need_def proof_known_def)
  have "demand_ok (put_demand i ?d db) issued owners owed P"
  proof (rule put_demand_ok [OF ok])
    show "row_ok (od_orders db) issued owners P i ?d" using new by (simp add: row_ok_def)
    show "bears ?d q" if "q \<in> owed" "rq_orderId q = i" for q
      using demand_ok_bears [OF ok, of q d] that row by (auto simp: bears_def leased_row_def split: option.splits)
  qed auto
  moreover have "row_ok (od_orders db) (insert c issued) owners P j e" if "map_of (od_demand (put_demand i ?d db)) j = Some e" for j e
  proof (cases "j = i")
    case True
    then show ?thesis using new that by (simp add: update_conv')
  next
    case False
    then have "row_ok (od_orders db) issued owners P j e" using that demand_ok_row [OF ok] by (simp add: update_conv')
    then show ?thesis using False fields c by (auto simp: row_ok_def claim_of_row_def)
  qed
  ultimately show ?thesis using claims by (simp add: demand_ok_def)
qed

lemma demand_ok_fewer_owed: "demand_ok db issued owners owed P \<Longrightarrow> owed' \<subseteq> owed \<Longrightarrow> demand_ok db issued owners owed' P"
  by (auto simp: demand_ok_def)

lemma unneeded_ok:
  assumes ok: "demand_ok db issued owners owed P" and row: "map_of (od_demand db) (rq_orderId d) = Some d"
    and "validationCandidate db s (anchored_request d) = None"
  shows "demand_ok (put_demand (rq_orderId d) (unneeded_row now d) db) issued owners
    (owed - {q. rq_chainId q = rq_chainId d \<and> rq_orderId q = rq_orderId d \<and> validationCandidate db s q = None}) P"
proof (rule put_demand_ok [OF ok unneeded_row_ok [OF demand_ok_row [OF ok row] demand_ok_claims [OF ok]] subset_refl])
  fix q
  assume q: "q \<in> owed - {q. rq_chainId q = rq_chainId d \<and> rq_orderId q = rq_orderId d \<and> validationCandidate db s q = None}"
    "rq_orderId q = rq_orderId d"
  then have "bears d q" using demand_ok_bears [OF ok, of q d] row by auto
  then have False using candidate_of_row [OF assms(3), of q] q by (auto simp: bears_def)
  then show "bears (unneeded_row now d) q" ..
qed auto

definition settled_by_scan :: "int \<Rightarrow> (string \<Rightarrow> int) \<Rightarrow> OrderValidationDemand list \<Rightarrow> 'f OrderDb \<Rightarrow> OrderValidationRequest set" where
  "settled_by_scan chainId clock rows db =
     {q. rq_chainId q = chainId \<and> rq_orderId q \<in> rq_orderId ` set rows \<and> validationCandidate db (clock (rq_orderId q)) q = None}"

lemma claim_rows_ok:
  assumes "demand_ok db (issued \<union> set (cb_claims batch)) owners owed P" and "owner \<in> owners"
    and "distinct (map rq_orderId rows)"
    and "\<forall>d \<in> set rows. map_of (od_demand db) (rq_orderId d) = Some d \<and> rq_chainId d = chainId"
    and "\<forall>c \<in> issued \<union> set (cb_claims batch). dm_leaseOwner (cl_demand c) = Some owner \<longrightarrow>
           rq_orderId (cl_demand c) \<notin> rq_orderId ` set rows"
    and "fold (claimRow owner now clock) rows (batch, db) = (batch', db')"
  shows "demand_ok db' (issued \<union> set (cb_claims batch')) owners (owed - settled_by_scan chainId clock rows db) P"
  using assms
proof (induction rows arbitrary: batch db owed)
  case Nil
  then show ?case by (simp add: settled_by_scan_def)
next
  case (Cons d rows)
  let ?i = "rq_orderId d"
  have row: "map_of (od_demand db) ?i = Some d" and chain: "rq_chainId d = chainId"
    using bspec [OF Cons.prems(4), of d] by simp_all
  have others: "\<forall>e \<in> set rows. map_of (od_demand (put_demand ?i x db)) (rq_orderId e) = Some e \<and> rq_chainId e = chainId" for x
  proof
    fix e
    assume e: "e \<in> set rows"
    then have "rq_orderId e \<noteq> ?i" using Cons.prems(3) by (metis distinct.simps(2) image_eqI list.simps(9) set_map)
    then show "map_of (od_demand (put_demand ?i x db)) (rq_orderId e) = Some e \<and> rq_chainId e = chainId"
      using bspec [OF Cons.prems(4), of e] e by (simp add: update_conv')
  qed
  show ?case
  proof (cases "validationCandidate db (clock ?i) (anchored_request d)")
    case None
    let ?gone = "{q. rq_chainId q = rq_chainId d \<and> rq_orderId q = ?i \<and> validationCandidate db (clock ?i) q = None}"
    have "owed - ?gone - settled_by_scan chainId clock rows (put_demand ?i (unneeded_row now d) db)
        = owed - settled_by_scan chainId clock (d # rows) db"
      using chain by (auto simp: settled_by_scan_def)
    moreover have "demand_ok db' (issued \<union> set (cb_claims batch')) owners
        (owed - ?gone - settled_by_scan chainId clock rows (put_demand ?i (unneeded_row now d) db)) P"
    proof (rule Cons.IH [OF _ Cons.prems(2) _ others])
      let ?batch = "batch\<lparr> cb_resolvedUnneeded := cb_resolvedUnneeded batch + 1 \<rparr>"
      have "set (cb_claims ?batch) = set (cb_claims batch)" by simp
      then show "demand_ok (put_demand ?i (unneeded_row now d) db) (issued \<union> set (cb_claims ?batch)) owners (owed - ?gone) P"
        using unneeded_ok [OF Cons.prems(1) row None, of now] by (simp only:)
      show "distinct (map rq_orderId rows)" using Cons.prems(3) by simp
      show "\<forall>c \<in> issued \<union> set (cb_claims ?batch). dm_leaseOwner (cl_demand c) = Some owner \<longrightarrow>
          rq_orderId (cl_demand c) \<notin> rq_orderId ` set rows"
        using Cons.prems(5) by simp
      show "fold (claimRow owner now clock) rows (?batch, put_demand ?i (unneeded_row now d) db) = (batch', db')"
        using Cons.prems(6) by (simp add: claimRow_unneeded [where clock = clock, OF None row])
    qed
    ultimately show ?thesis by simp
  next
    case (Some candidate)
    let ?d = "leased_row owner now candidate d"
    let ?c = "\<lparr> cl_demand = ?d, cl_candidate = candidate \<rparr>"
    let ?batch = "batch\<lparr> cb_claims := cb_claims batch @ [?c] \<rparr>"
    have leased: "demand_ok (put_demand ?i ?d db) (insert ?c (issued \<union> set (cb_claims batch))) owners owed P"
      by (rule lease_ok [OF Cons.prems(1) row Cons.prems(2)]) (use Cons.prems(5) in auto)
    have fresh: "?i \<notin> rq_orderId ` set rows" "rq_orderId ?d = ?i" using Cons.prems(3) by (auto simp: leased_row_def)
    have "demand_ok db' (issued \<union> set (cb_claims batch')) owners
        (owed - settled_by_scan chainId clock rows (put_demand ?i ?d db)) P"
    proof (rule Cons.IH [OF _ Cons.prems(2) _ others])
      have "issued \<union> set (cb_claims ?batch) = insert ?c (issued \<union> set (cb_claims batch))" by simp
      then show "demand_ok (put_demand ?i ?d db) (issued \<union> set (cb_claims ?batch)) owners owed P"
        using leased by (simp only:)
      show "distinct (map rq_orderId rows)" using Cons.prems(3) by simp
      show "\<forall>c \<in> issued \<union> set (cb_claims ?batch). dm_leaseOwner (cl_demand c) = Some owner \<longrightarrow>
          rq_orderId (cl_demand c) \<notin> rq_orderId ` set rows"
        using Cons.prems(5) fresh by auto
      show "fold (claimRow owner now clock) rows (?batch, put_demand ?i ?d db) = (batch', db')"
        using Cons.prems(6) by (simp add: claimRow_leased [where clock = clock, OF Some row])
    qed
    moreover have "owed - settled_by_scan chainId clock (d # rows) db \<subseteq> owed - settled_by_scan chainId clock rows (put_demand ?i ?d db)"
      by (auto simp: settled_by_scan_def)
    ultimately show ?thesis by (rule demand_ok_fewer_owed)
  qed
qed

lemma demand_ok_keys:
  assumes "demand_ok db issued owners owed P"
  shows "map rq_orderId (map snd (od_demand db)) = map fst (od_demand db)"
    and "d \<in> set (map snd (od_demand db)) \<Longrightarrow> map_of (od_demand db) (rq_orderId d) = Some d"
proof -
  have row: "rq_orderId e = i \<and> map_of (od_demand db) i = Some e" if "(i, e) \<in> set (od_demand db)" for i e
  proof -
    have "map_of (od_demand db) i = Some e" using that assms by (auto simp: demand_ok_def intro: map_of_is_SomeI)
    then show ?thesis using row_ok_key [OF demand_ok_row [OF assms]] by blast
  qed
  then show "map rq_orderId (map snd (od_demand db)) = map fst (od_demand db)" by auto
  show "map_of (od_demand db) (rq_orderId d) = Some d" if "d \<in> set (map snd (od_demand db))" for d
    using that row by fastforce
qed

lemma claimable_rows_ok:
  assumes ok: "demand_ok db issued owners owed P" and rows: "rows = claimable_rows (selectDue chainId now db)"
  shows "distinct (map rq_orderId rows)"
    and "\<forall>d \<in> set rows. map_of (od_demand db) (rq_orderId d) = Some d \<and> rq_chainId d = chainId"
proof -
  let ?due = "filter (\<lambda>d. rq_chainId d = chainId \<and> dm_pending d \<and> dm_nextAttemptAt d \<le> now \<and> dm_leaseUntil d \<le> now)
    (map snd (od_demand db))"
  obtain n m where take: "rows = take n (take m (sort_key due_key ?due))"
    unfolding rows claimable_rows_def selectDue_def Let_def by blast
  then have sub: "set rows \<subseteq> set ?due" by (auto dest!: in_set_takeD)
  then show "\<forall>d \<in> set rows. map_of (od_demand db) (rq_orderId d) = Some d \<and> rq_chainId d = chainId"
    using demand_ok_keys(2) [OF ok] by auto
  have "distinct (map rq_orderId (map snd (od_demand db)))"
    unfolding demand_ok_keys(1) [OF ok] using ok by (simp add: demand_ok_def)
  then have "distinct (map snd (od_demand db))" "inj_on rq_orderId (set (map snd (od_demand db)))"
    by (simp_all only: distinct_map)
  then show "distinct (map rq_orderId rows)"
    using sub take by (auto simp: distinct_map intro: inj_on_subset)
qed

lemma claimBatch_ok:
  assumes ok: "demand_ok db issued owners owed P" and "owner \<notin> owners"
    and claim: "claimBatch chainId owner now clock db = (batch, db')"
  shows "demand_ok db' (issued \<union> set (cb_claims batch)) (insert owner owners)
    (owed - settled_by_scan chainId clock (claimable_rows (selectDue chainId now db)) db) P"
proof -
  have more: "demand_ok db issued (insert owner owners) owed P"
    using ok by (auto simp: demand_ok_def row_ok_def claims_ok_def)
  have fresh: "dm_leaseOwner (cl_demand c) \<noteq> Some owner" if "c \<in> issued" for c
    using that demand_ok_claims [OF ok] assms(2) by (auto simp: claims_ok_def)
  note rows = claimable_rows_ok [OF ok refl]
  obtain batch0 where run: "fold (claimRow owner now clock) (claimable_rows (selectDue chainId now db)) (batch0, db) = (batch, db')"
    and "cb_claims batch0 = []"
    using claim by (auto simp: claimBatch_def Let_def)
  then show ?thesis
    by (intro claim_rows_ok [OF _ _ rows _ run]) (use more fresh in auto)
qed

section \<open>Other writers\<close>

lemma map_of_filter_keys: "map_of (filter (\<lambda>(i, _). p i) xs) i = (if p i then map_of xs i else None)"
  by (induction xs) auto

lemma orders_change_ok:
  assumes ok: "demand_ok db issued owners owed P" and change: "orders_change db db'"
  shows "demand_ok db' issued owners {q \<in> owed. map_of (od_orders db') (rq_orderId q) \<noteq> None} P"
proof -
  have demand: "map_of (od_demand db') i = (if map_of (od_orders db') i \<noteq> None then map_of (od_demand db) i else None)" for i
    using change by (simp add: orders_change_def map_of_filter_keys)
  show ?thesis
  proof (rule demand_okI)
    show "distinct (map fst (od_demand db'))"
      using ok change by (simp add: demand_ok_def orders_change_def distinct_map_filter)
    show "row_ok (od_orders db') issued owners P i d" if "map_of (od_demand db') i = Some d" for i d
    proof -
      have d: "map_of (od_demand db) i = Some d" and "map_of (od_orders db') i \<noteq> None"
        using that demand [of i] by (auto split: if_splits)
      then obtain row' where row': "map_of (od_orders db') i = Some row'" by auto
      have row: "row_ok (od_orders db) issued owners P i d" by (rule demand_ok_row [OF ok d])
      then obtain row where "map_of (od_orders db) i = Some row" "or_chainId row = rq_chainId d" by (auto simp: row_ok_def)
      then have "or_chainId row' = rq_chainId d" using change row' by (auto simp: orders_change_def)
      then show ?thesis using row row' by (simp add: row_ok_def)
    qed
    show "\<exists>d. map_of (od_demand db') (rq_orderId q) = Some d \<and> bears d q"
      if "q \<in> {q \<in> owed. map_of (od_orders db') (rq_orderId q) \<noteq> None}" for q
      using that ok demand [of "rq_orderId q"] by (auto simp: demand_ok_def)
    show "claims_ok issued owners" by (rule demand_ok_claims [OF ok])
  qed
qed

section \<open>Every step keeps the invariant\<close>

lemma demand_step_ok: "demand_step S T \<Longrightarrow> system_ok S \<Longrightarrow> system_ok T"
proof (induction rule: demand_step.induct)
  case (admit r s s' now S outcome db)
  then show ?case using admitDemand_ok by (fastforce simp: system_ok_def)
next
  case (defers r e s s' now S outcome db)
  then show ?case using deferDemand_ok by (fastforce simp: system_ok_def)
next
  case (records r revision evidence now S db)
  then show ?case using recordValidation_ok by (simp add: system_ok_def)
next
  case (claim chainId owner now clock S batch db)
  then show ?case
    using claimBatch_ok [of "ds_db S" "ds_issued S" "ds_owners S" "ds_owed S" "ds_proofs S" owner chainId now clock batch db]
    by (simp add: system_ok_def settled_by_scan_def scanned_orders_def)
next
  case (renew c S now)
  then show ?case using renewClaim_ok by (simp add: system_ok_def)
next
  case (release cs S now)
  then show ?case using releaseClaims_ok by (simp add: system_ok_def)
next
  case (fails cs S e now)
  then show ?case using failClaims_ok by (simp add: system_ok_def)
next
  case (complete completions e now S counts db settled proven)
  let ?acc = "(\<lparr> cc_applied = 0, cc_covered = 0, cc_resolvedUnneeded = 0, cc_followup = 0, cc_lostClaims = 0 \<rparr>, ds_db S)"
  have "completeAll e now completions ?acc = Inr (counts, db)"
    using complete(1) by (auto simp: completeBatch_def bindR_Inr_iff)
  then show ?case using completeAll_ok [of ?acc] complete(2-4) by (simp add: system_ok_def)
next
  case (change S db)
  then show ?case using orders_change_ok by (simp add: system_ok_def)
qed

definition demand_run :: "'f DemandSystem \<Rightarrow> 'f DemandSystem \<Rightarrow> bool" where
  "demand_run S T \<longleftrightarrow> demand_step\<^sup>*\<^sup>* S T"

lemma demand_run_ok: "demand_run S T \<Longrightarrow> system_ok S \<Longrightarrow> system_ok T"
  unfolding demand_run_def by (induction rule: rtranclp_induct) (auto intro: demand_step_ok)

text \<open>Before the first request.\<close>

definition fresh_demand :: "'f DemandSystem \<Rightarrow> bool" where
  "fresh_demand S \<longleftrightarrow> od_demand (ds_db S) = [] \<and> ds_issued S = {} \<and> ds_owners S = {} \<and> ds_owed S = {} \<and> ds_proofs S = {}"

lemma fresh_demand_ok: "fresh_demand S \<Longrightarrow> system_ok S"
  by (simp add: fresh_demand_def system_ok_def demand_ok_def claims_ok_def)

end
