(* ===== verification/Order_Demand_Progress.thy ===== *)
theory Order_Demand_Progress
  imports Order_Demand_Results
begin

text \<open>A batch of the executor that nothing disturbs settles every row it scanned.\<close>

section \<open>The claims of a batch\<close>

text \<open>A claim is still in force, on the order it was taken for.\<close>

definition claim_stands :: "'f OrderDb \<Rightarrow> int \<Rightarrow> ClaimedOrderValidation \<Rightarrow> bool" where
  "claim_stands db until c \<longleftrightarrow>
     map_of (od_demand db) (rq_orderId (cl_demand c)) = Some (cl_demand c) \<and> dm_pending (cl_demand c) \<and>
     dm_leaseUntil (cl_demand c) = until \<and>
     selectOrderById db (rq_chainId (cl_demand c)) (rq_orderId (cl_demand c)) = Some (cl_candidate c)"

definition settled_row :: "'f OrderDb \<Rightarrow> string \<Rightarrow> bool" where
  "settled_row db i \<longleftrightarrow> (\<exists>d. map_of (od_demand db) i = Some d \<and> \<not> dm_pending d)"

abbreviation claim_id :: "ClaimedOrderValidation \<Rightarrow> string" where
  "claim_id c \<equiv> rq_orderId (cl_demand c)"

lemma selectOrderById_put_fun [simp]: "selectOrderById (put_demand i d db) = selectOrderById db"
  by (intro ext) (simp add: selectOrderById_def put_demand_def)

lemma claim_stands_put: "claim_id c \<noteq> i \<Longrightarrow> claim_stands (put_demand i d db) until c = claim_stands db until c"
  by (simp add: claim_stands_def update_conv')

text \<open>Whether an order is a candidate may end with time, but does not begin again.\<close>

lemma candidate_select:
  "validationCandidate db s r = Some row \<Longrightarrow> selectOrderById db (rq_chainId r) (rq_orderId r) = Some row"
  by (auto simp: validationCandidate_def split: option.splits if_splits)

lemma candidate_expires:
  assumes "validationCandidate db s r = None" and "s \<le> s'"
  shows "validationCandidate db s' r = None"
  using assms by (auto simp: validationCandidate_def needsCurrentOrderValidation_def split: option.splits if_splits)

lemma settled_row_put: "j \<noteq> i \<Longrightarrow> settled_row (put_demand i d db) j = settled_row db j"
  by (simp add: settled_row_def update_conv')

text \<open>What scanning some rows leaves: rows without a candidate settled, the others claimed.\<close>

lemma claim_rows_stand:
  assumes "distinct (map rq_orderId rows)"
    and "\<forall>d \<in> set rows. map_of (od_demand db) (rq_orderId d) = Some d \<and> dm_pending d \<and> rq_chainId d = chainId \<and> validationProofSatisfies e d"
    and "\<forall>c \<in> set (cb_claims batch). claim_stands db (now + demand_leaseMs) c \<and> rq_chainId (cl_demand c) = chainId \<and> validationProofSatisfies e (cl_demand c)"
    and "\<forall>i \<in> done'. settled_row db i"
    and "distinct (map claim_id (cb_claims batch))"
    and "claim_id ` set (cb_claims batch) \<inter> rq_orderId ` set rows = {}" and "done' \<inter> rq_orderId ` set rows = {}"
    and "fold (claimRow owner now clock) rows (batch, db) = (batch', db')"
  shows "(\<forall>c \<in> set (cb_claims batch'). claim_stands db' (now + demand_leaseMs) c \<and> rq_chainId (cl_demand c) = chainId \<and> validationProofSatisfies e (cl_demand c)) \<and>
    (\<forall>i \<in> done' \<union> claim_id ` set (cb_claims batch) \<union> rq_orderId ` set rows.
       settled_row db' i \<or> i \<in> claim_id ` set (cb_claims batch')) \<and>
    distinct (map claim_id (cb_claims batch'))"
  using assms
proof (induction rows arbitrary: batch db done')
  case Nil
  then show ?case by auto
next
  case (Cons d rows)
  let ?i = "rq_orderId d"
  have row: "map_of (od_demand db) ?i = Some d" "dm_pending d" "rq_chainId d = chainId" "validationProofSatisfies e d"
    using bspec [OF Cons.prems(2), of d] by simp_all
  have i: "?i \<notin> rq_orderId ` set rows" and dist: "distinct (map rq_orderId rows)" using Cons.prems(1) by auto
  have others: "\<forall>r \<in> set rows. map_of (od_demand (put_demand ?i x db)) (rq_orderId r) = Some r \<and> dm_pending r \<and> rq_chainId r = chainId \<and>
      validationProofSatisfies e r" for x
  proof
    fix r
    assume r: "r \<in> set rows"
    then have "rq_orderId r \<noteq> ?i" using i by (metis image_eqI)
    then show "map_of (od_demand (put_demand ?i x db)) (rq_orderId r) = Some r \<and> dm_pending r \<and> rq_chainId r = chainId \<and>
        validationProofSatisfies e r"
      using bspec [OF Cons.prems(2), of r] r by (simp add: update_conv')
  qed
  have claims: "\<forall>c \<in> set (cb_claims batch). claim_stands (put_demand ?i x db) (now + demand_leaseMs) c \<and>
      rq_chainId (cl_demand c) = chainId \<and> validationProofSatisfies e (cl_demand c) \<and> claim_id c \<noteq> ?i" for x
  proof
    fix c
    assume c: "c \<in> set (cb_claims batch)"
    have "claim_id c \<noteq> ?i" using imageI [OF c, of claim_id] Cons.prems(6) by auto
    then show "claim_stands (put_demand ?i x db) (now + demand_leaseMs) c \<and> rq_chainId (cl_demand c) = chainId \<and> validationProofSatisfies e (cl_demand c) \<and> claim_id c \<noteq> ?i"
      using bspec [OF Cons.prems(3) c] by (simp add: claim_stands_put)
  qed
  have finished: "\<forall>j \<in> done'. settled_row (put_demand ?i x db) j" for x
  proof
    fix j
    assume j: "j \<in> done'"
    then have "j \<noteq> ?i" using Cons.prems(7) by auto
    then show "settled_row (put_demand ?i x db) j" using Cons.prems(4) j by (simp add: settled_row_put)
  qed
  show ?case
  proof (cases "validationCandidate db (clock ?i) (anchored_request d)")
    case None
    let ?batch = "batch\<lparr> cb_resolvedUnneeded := cb_resolvedUnneeded batch + 1 \<rparr>"
    have "settled_row (put_demand ?i (unneeded_row now d) db) ?i"
      by (simp add: settled_row_def update_conv' unneeded_row_def)
    then have "(\<forall>c \<in> set (cb_claims batch'). claim_stands db' (now + demand_leaseMs) c \<and> rq_chainId (cl_demand c) = chainId \<and> validationProofSatisfies e (cl_demand c)) \<and>
        (\<forall>j \<in> insert ?i done' \<union> claim_id ` set (cb_claims ?batch) \<union> rq_orderId ` set rows.
           settled_row db' j \<or> j \<in> claim_id ` set (cb_claims batch')) \<and>
        distinct (map claim_id (cb_claims batch'))"
      by (intro Cons.IH [OF dist others])
        (use claims finished i Cons.prems(5-8) claimRow_unneeded [where clock = clock and owner = owner, OF None row(1)] in auto)
    then show ?thesis by simp
  next
    case (Some candidate)
    let ?d = "leased_row owner now candidate d"
    let ?c = "\<lparr> cl_demand = ?d, cl_candidate = candidate \<rparr>"
    let ?batch = "batch\<lparr> cb_claims := cb_claims batch @ [?c] \<rparr>"
    have c: "claim_id ?c = ?i" "rq_chainId ?d = chainId" "validationProofSatisfies e ?d"
      using row by (auto simp: leased_row_def validationProofSatisfies_def split: option.splits)
    have "selectOrderById db (rq_chainId d) ?i = Some candidate"
      using candidate_select [OF Some] by (simp add: anchored_request_def)
    then have "claim_stands (put_demand ?i ?d db) (now + demand_leaseMs) ?c"
      using row by (simp add: claim_stands_def update_conv' leased_row_def)
    then have "(\<forall>c \<in> set (cb_claims batch'). claim_stands db' (now + demand_leaseMs) c \<and> rq_chainId (cl_demand c) = chainId \<and> validationProofSatisfies e (cl_demand c)) \<and>
        (\<forall>j \<in> done' \<union> claim_id ` set (cb_claims ?batch) \<union> rq_orderId ` set rows.
           settled_row db' j \<or> j \<in> claim_id ` set (cb_claims batch')) \<and>
        distinct (map claim_id (cb_claims batch'))"
      by (intro Cons.IH [OF dist others])
        (use claims finished i c Cons.prems(5-8) claimRow_leased [where clock = clock and owner = owner, OF Some row(1)] in auto)
    then show ?thesis using c by simp
  qed
qed

section \<open>Completing them\<close>

lemma applyValidation_other:
  assumes "j \<noteq> i"
  shows "map_of (od_orders (applyValidation i row status s db)) j = map_of (od_orders db) j"
    and "od_chain (applyValidation i row status s db) = od_chain db" and "od_demand (applyValidation i row status s db) = od_demand db"
  using assms by (auto simp: applyValidation_def update_conv' split: option.split)

lemma claim_stands_other:
  assumes "claim_stands db until c" and "claim_id c \<noteq> i" and "od_orders db1 = od_orders db \<or> db1 = applyValidation i row status s db"
    and "od_demand db1 = od_demand db"
  shows "claim_stands (put_demand i d db1) until c"
proof -
  have "map_of (od_orders db1) (claim_id c) = map_of (od_orders db) (claim_id c)"
    using assms(2,3) applyValidation_other(1) [OF assms(2), of row status s db] by auto
  then have "selectOrderById db1 (rq_chainId (cl_demand c)) (claim_id c) = selectOrderById db (rq_chainId (cl_demand c)) (claim_id c)"
    by (simp add: selectOrderById_def)
  then show ?thesis
    using assms by (simp add: claim_stands_def update_conv')
qed

text \<open>A completion settles its row: the order is validated, or it has become unneeded since the claim.\<close>

lemma completeOne_stands:
  assumes stands: "claim_stands db until c" and "now < until" and "cp_chainId (ev_checkpoint e) = rq_chainId (cl_demand c)"
    and "validationProofSatisfies e (cl_demand c)" and reads: "rd_candidate reads \<le> rd_unneeded reads"
  shows "\<exists>counts' d db1. completeOne e now reads c status (counts, db) = Inr (counts', put_demand (claim_id c) d db1) \<and>
    \<not> dm_pending d \<and> (db1 = db \<or> db1 = applyValidation (claim_id c) (cl_candidate c) status (rd_apply reads) db)"
proof -
  let ?r = "anchored_request (cl_demand c)"
  have row: "map_of (od_demand db) (claim_id c) = Some (cl_demand c)"
    and order: "selectOrderById db (rq_chainId (cl_demand c)) (claim_id c) = Some (cl_candidate c)"
    and held: "owns (Some (cl_demand c)) c now"
    using stands assms(2) by (auto simp: claim_stands_def owns_def)
  have current: "getDemand db (rq_chainId (cl_demand c)) (claim_id c) = Some (cl_demand c)" using row by simp
  show ?thesis
  proof (cases "validationCandidate db (rd_candidate reads) ?r")
    case None
    have gone: "validationCandidate db (rd_unneeded reads) ?r = None" by (rule candidate_expires [OF None reads])
    have "applyDemandValidation c status (rd_candidate reads) (rd_apply reads) db = (None, db)"
      using None by (simp add: applyDemandValidation_def)
    then have "completeOne e now reads c status (counts, db)
      = Inr (count_completion None True False counts, put_demand (claim_id c) (completed_row None e False now (cl_demand c)) db)"
      using assms(3,4) held gone
      by (simp add: completeOne_def Let_def current update_demand_def row still_needed_def del: getDemand_Some)
    moreover have "\<not> dm_pending (completed_row None e False now (cl_demand c))" by (simp add: completed_row_def)
    ultimately show ?thesis by blast
  next
    case (Some candidate)
    let ?db1 = "applyValidation (claim_id c) (cl_candidate c) status (rd_apply reads) db"
    have "candidate = cl_candidate c" using candidate_select [OF Some] order by (simp add: anchored_request_def)
    moreover obtain row1 where row1: "selectOrderById ?db1 (rq_chainId (cl_demand c)) (claim_id c) = Some row1"
      using candidate_order [OF Some] applyValidation_keeps [of db "claim_id c" "cl_candidate c" status "rd_apply reads"]
      by (fastforce simp: keeps_orders_def selectOrderById_def anchored_request_def)
    ultimately have applied: "applyDemandValidation c status (rd_candidate reads) (rd_apply reads) db = (Some (or_revision row1), ?db1)"
      using Some by (simp add: applyDemandValidation_def Let_def)
    have row': "map_of (od_demand ?db1) (claim_id c) = Some (cl_demand c)"
      using row applyValidation_keeps [of db "claim_id c" "cl_candidate c" status "rd_apply reads"] by (simp add: keeps_orders_def)
    have "completeOne e now reads c status (counts, db)
      = Inr (count_completion (Some (or_revision row1)) False False counts,
          put_demand (claim_id c) (completed_row (Some (or_revision row1)) e False now (cl_demand c)) ?db1)"
      using assms(3,4) held
      by (simp add: completeOne_def Let_def current applied update_demand_def row' still_needed_def del: getDemand_Some)
    moreover have "\<not> dm_pending (completed_row (Some (or_revision row1)) e False now (cl_demand c))"
      by (simp add: completed_row_def)
    ultimately show ?thesis by blast
  qed
qed

lemma completeAll_stands:
  assumes "\<forall>x \<in> set completions. claim_stands db until (fst x) \<and> cp_chainId (ev_checkpoint e) = rq_chainId (cl_demand (fst x)) \<and>
      validationProofSatisfies e (cl_demand (fst x)) \<and> rd_candidate (snd (snd x)) \<le> rd_unneeded (snd (snd x))"
    and "now < until" and "distinct (map (\<lambda>x. claim_id (fst x)) completions)"
    and "\<forall>i \<in> done'. settled_row db i" and "done' \<inter> (\<lambda>x. claim_id (fst x)) ` set completions = {}"
  shows "\<exists>counts' db'. completeAll e now completions (counts, db) = Inr (counts', db') \<and>
    (\<forall>i \<in> done' \<union> (\<lambda>x. claim_id (fst x)) ` set completions. settled_row db' i)"
  using assms
proof (induction completions arbitrary: counts db done')
  case Nil
  then show ?case by simp
next
  case (Cons x cs)
  obtain c status reads where x: "x = (c, status, reads)" by (cases x) auto
  have "claim_stands db until c" "cp_chainId (ev_checkpoint e) = rq_chainId (cl_demand c)"
    "validationProofSatisfies e (cl_demand c)" "rd_candidate reads \<le> rd_unneeded reads"
    using Cons.prems(1) x by auto
  from completeOne_stands [OF this(1) Cons.prems(2) this(2-4)]
  obtain counts1 d db1 where one: "completeOne e now reads c status (counts, db) = Inr (counts1, put_demand (claim_id c) d db1)"
    and d: "\<not> dm_pending d"
    and db1: "db1 = db \<or> db1 = applyValidation (claim_id c) (cl_candidate c) status (rd_apply reads) db"
    by blast
  have demand: "od_demand db1 = od_demand db"
    using db1 applyValidation_keeps [of db "claim_id c" "cl_candidate c" status "rd_apply reads"] by (auto simp: keeps_orders_def)
  let ?db1 = "put_demand (claim_id c) d db1"
  have dist: "distinct (map (\<lambda>x. claim_id (fst x)) cs)" "claim_id c \<notin> (\<lambda>x. claim_id (fst x)) ` set cs" using Cons.prems(3) x by auto
  have "\<exists>counts' db'. completeAll e now cs (counts1, ?db1) = Inr (counts', db') \<and>
      (\<forall>i \<in> insert (claim_id c) done' \<union> (\<lambda>x. claim_id (fst x)) ` set cs. settled_row db' i)"
  proof (rule Cons.IH [OF _ Cons.prems(2) dist(1)])
    show "\<forall>y \<in> set cs. claim_stands ?db1 until (fst y) \<and> cp_chainId (ev_checkpoint e) = rq_chainId (cl_demand (fst y)) \<and>
        validationProofSatisfies e (cl_demand (fst y)) \<and> rd_candidate (snd (snd y)) \<le> rd_unneeded (snd (snd y))"
    proof
      fix y
      assume y: "y \<in> set cs"
      then have "claim_id (fst y) \<noteq> claim_id c" using dist(2) by force
      then have "claim_stands ?db1 until (fst y)"
        using bspec [OF Cons.prems(1), of y] y db1 demand
        by (intro claim_stands_other [where row = "cl_candidate c" and status = status and s = "rd_apply reads" and db = db]) auto
      then show "claim_stands ?db1 until (fst y) \<and> cp_chainId (ev_checkpoint e) = rq_chainId (cl_demand (fst y)) \<and>
          validationProofSatisfies e (cl_demand (fst y)) \<and> rd_candidate (snd (snd y)) \<le> rd_unneeded (snd (snd y))"
        using bspec [OF Cons.prems(1), of y] y by auto
    qed
    show "\<forall>i \<in> insert (claim_id c) done'. settled_row ?db1 i"
    proof
      fix i
      assume i: "i \<in> insert (claim_id c) done'"
      then show "settled_row ?db1 i"
        using demand Cons.prems(4) d by (cases "i = claim_id c") (auto simp: settled_row_def update_conv')
    qed
    show "insert (claim_id c) done' \<inter> (\<lambda>x. claim_id (fst x)) ` set cs = {}" using Cons.prems(5) dist(2) by auto
  qed
  then show ?case using one x by auto
qed

section \<open>The batch\<close>

text \<open>
  A run in which every validation is done, on a snapshot taken at once, and nothing else writes.  The
  clocks go on: the claims are taken at any seconds, each completion reads its own, and an order may
  expire in between.
\<close>

definition undisturbed :: "'f BatchRun \<Rightarrow> bool" where
  "undisturbed run \<longleftrightarrow>
     (\<forall>i. \<not> br_stops run i) \<and> (\<forall>i. \<exists>status. br_validate run i = Inr status) \<and>
     (\<forall>i. rd_candidate (br_reads run i) \<le> rd_unneeded (br_reads run i)) \<and> br_finish run = Inr () \<and>
     br_other run = (\<lambda>_ db. db) \<and> br_clock run 2 < br_clock run 0 + demand_leaseMs"

lemma validateReady_all:
  assumes "undisturbed run"
  shows "\<exists>completions. validateReady run i ready = Inr completions \<and> map fst completions = ready \<and>
    (\<forall>x \<in> set completions. rd_candidate (snd (snd x)) \<le> rd_unneeded (snd (snd x)))"
proof (induction ready arbitrary: i)
  case (Cons c cs)
  have "\<exists>status. br_validate run i = Inr status" using assms by (simp add: undisturbed_def)
  then obtain status where status: "br_validate run i = Inr status" by blast
  obtain rest where rest: "validateReady run (Suc i) cs = Inr rest" "map fst rest = cs"
    "\<forall>x \<in> set rest. rd_candidate (snd (snd x)) \<le> rd_unneeded (snd (snd x))"
    using Cons.IH by blast
  show ?case
    using assms status rest by (intro exI [of _ "(c, status, br_reads run i) # rest"]) (auto simp: undisturbed_def)
qed simp

lemma readyClaims_all:
  assumes "\<forall>c \<in> set claims. validationProofSatisfies e (cl_demand c)"
  shows "readyClaims e claims = claims" and "uncoveredClaims e claims = []"
  using assms by (auto simp: readyClaims_def uncoveredClaims_def filter_id_conv filter_empty_conv)

lemma validateClaims_all:
  assumes run: "undisturbed run" and covers: "\<forall>c \<in> set claims. validationProofSatisfies e (cl_demand c)"
    and stands: "\<forall>c \<in> set claims. claim_stands db (br_clock run 0 + demand_leaseMs) c \<and> rq_chainId (cl_demand c) = chainId"
    and "distinct (map claim_id claims)" and checkpoint: "ev_checkpoint e = captureChainSyncCheckpoint (od_chain db) chainId"
    and finished: "\<forall>i \<in> done'. settled_row db i" "done' \<inter> claim_id ` set claims = {}"
  shows "\<exists>db'. validateClaims run e claims db = Inr db' \<and> (\<forall>i \<in> done' \<union> claim_id ` set claims. settled_row db' i)"
proof -
  obtain completions where completions: "validateReady run 0 claims = Inr completions" "map fst completions = claims"
    and reads: "\<forall>x \<in> set completions. rd_candidate (snd (snd x)) \<le> rd_unneeded (snd (snd x))"
    using validateReady_all [OF run] by blast
  have ids: "(\<lambda>x. claim_id (fst x)) ` set completions = claim_id ` set claims"
    "map (\<lambda>x. claim_id (fst x)) completions = map claim_id claims"
    unfolding completions(2) [symmetric] by (simp_all add: image_image comp_def)
  have chain: "cp_chainId (ev_checkpoint e) = chainId"
    unfolding checkpoint by (simp add: captureChainSyncCheckpoint_def)
  have "fst x \<in> set claims" if "x \<in> set completions" for x using that unfolding completions(2) [symmetric] by simp
  then have facts: "\<forall>x \<in> set completions. claim_stands db (br_clock run 0 + demand_leaseMs) (fst x) \<and>
      cp_chainId (ev_checkpoint e) = rq_chainId (cl_demand (fst x)) \<and> validationProofSatisfies e (cl_demand (fst x)) \<and>
      rd_candidate (snd (snd x)) \<le> rd_unneeded (snd (snd x))"
    using stands covers reads chain by simp
  let ?zero = "\<lparr> cc_applied = 0, cc_covered = 0, cc_resolvedUnneeded = 0, cc_followup = 0, cc_lostClaims = 0 \<rparr>"
  have "\<exists>counts' db'. completeAll e (br_clock run 2) completions (?zero, db) = Inr (counts', db') \<and>
      (\<forall>i \<in> done' \<union> (\<lambda>x. claim_id (fst x)) ` set completions. settled_row db' i)"
    by (rule completeAll_stands [OF facts]) (use run assms(4) finished ids in \<open>auto simp: undisturbed_def\<close>)
  then obtain counts' db' where all: "completeAll e (br_clock run 2) completions (?zero, db) = Inr (counts', db')"
    and settled: "\<forall>i \<in> done' \<union> claim_id ` set claims. settled_row db' i"
    unfolding ids(1) by blast
  have "assertEvidence db (ev_checkpoint e) = Inr ()"
    unfolding checkpoint by (simp add: assertEvidence_def assertChainSyncCheckpoint_def captureChainSyncCheckpoint_def)
  then have "completeBatch completions e (br_clock run 2) db = Inr (counts', db')"
    using all by (simp add: completeBatch_def)
  moreover have "length completions = length claims" using completions(2) by auto
  ultimately have "validateClaims run e claims db = Inr db'"
    using run completions(1)
    by (simp add: validateClaims_def Let_def readyClaims_all [OF covers] failClaims_def releaseClaims_def undisturbed_def)
  then show ?thesis using settled by blast
qed

lemma claimable_pending: "d \<in> set (claimable_rows (selectDue chainId now db)) \<Longrightarrow> dm_pending d"
  by (auto simp: claimable_rows_def selectDue_def Let_def dest!: in_set_takeD)

lemma claim_fold:
  assumes "claimBatch chainId owner now (br_seconds run) db = (batch, db1)"
  obtains batch0 where "fold (claimRow owner now (br_seconds run)) (claimable_rows (selectDue chainId now db)) (batch0, db) = (batch, db1)"
    and "cb_claims batch0 = []"
  using assms that unfolding claimBatch_def Let_def by fastforce

text \<open>
  C23. A batch of the executor settles the rows it scanned: if the snapshot satisfies the scanned rows, all
  validations succeed, the batch is committed within the lease and nothing else writes meanwhile, then none of
  these rows is pending afterwards, be it that its order needed no validation, that it was validated, or that
  it stopped needing validation while the batch ran.  The seconds clock is free at every read, except that the
  two reads of one completion are in order.
\<close>

theorem undisturbed_batch_settles_its_rows:
  assumes "fresh_demand S" and "demand_run S T" and run: "undisturbed run" and snapshot: "br_snapshot run = Inr (observedAt, blockNumber)"
    and covers: "\<forall>d \<in> set (claimable_rows (selectDue chainId (br_clock run 0) (ds_db T))).
      rq_requiredAt d \<le> observedAt \<and> (case rq_minimumBlock d of None \<Rightarrow> True | Some b \<Rightarrow> b \<le> blockNumber)"
    and row: "d \<in> set (claimable_rows (selectDue chainId (br_clock run 0) (ds_db T)))"
  shows "\<exists>d'. map_of (od_demand (validateBatch chainId run (ds_db T))) (rq_orderId d) = Some d' \<and> \<not> dm_pending d'"
proof -
  let ?rows = "claimable_rows (selectDue chainId (br_clock run 0) (ds_db T))"
  obtain batch db1 where claim: "claimBatch chainId (br_owner run) (br_clock run 0) (br_seconds run) (ds_db T) = (batch, db1)"
    by fastforce
  let ?e = "\<lparr> ev_observedAt = observedAt, ev_blockNumber = blockNumber, ev_checkpoint = captureChainSyncCheckpoint (od_chain db1) chainId \<rparr>"
  have ok: "demand_ok (ds_db T) (ds_issued T) (ds_owners T) (ds_owed T) (ds_proofs T)"
    using demand_run_ok [OF assms(2) fresh_demand_ok [OF assms(1)]] by (simp add: system_ok_def)
  note rows = claimable_rows_ok [OF ok refl, of chainId "br_clock run 0"]
  have satisfied: "validationProofSatisfies ?e r" if "r \<in> set ?rows" for r
    using bspec [OF covers that] by (auto simp: validationProofSatisfies_def split: option.splits)
  have due: "\<forall>r \<in> set ?rows. map_of (od_demand (ds_db T)) (rq_orderId r) = Some r \<and> dm_pending r \<and> rq_chainId r = chainId \<and>
      validationProofSatisfies ?e r"
    using rows(2) claimable_pending satisfied by blast
  obtain batch0 where scan: "fold (claimRow (br_owner run) (br_clock run 0) (br_seconds run)) ?rows (batch0, ds_db T) = (batch, db1)"
    and none: "cb_claims batch0 = []"
    by (rule claim_fold [OF claim])
  have claimed: "(\<forall>c \<in> set (cb_claims batch). claim_stands db1 (br_clock run 0 + demand_leaseMs) c \<and>
        rq_chainId (cl_demand c) = chainId \<and> validationProofSatisfies ?e (cl_demand c)) \<and>
      (\<forall>i \<in> {} \<union> claim_id ` set (cb_claims batch0) \<union> rq_orderId ` set ?rows.
         settled_row db1 i \<or> i \<in> claim_id ` set (cb_claims batch)) \<and>
      distinct (map claim_id (cb_claims batch))"
    by (rule claim_rows_stand [OF rows(1) due _ _ _ _ _ scan]) (simp_all add: none)
  have stands: "\<forall>c \<in> set (cb_claims batch). claim_stands db1 (br_clock run 0 + demand_leaseMs) c \<and> rq_chainId (cl_demand c) = chainId"
    and covered: "\<forall>c \<in> set (cb_claims batch). validationProofSatisfies ?e (cl_demand c)"
    and settled: "\<forall>i \<in> rq_orderId ` set ?rows. settled_row db1 i \<or> i \<in> claim_id ` set (cb_claims batch)"
    and dist: "distinct (map claim_id (cb_claims batch))"
    using claimed by auto
  have "\<exists>db'. validateClaims run ?e (cb_claims batch) db1 = Inr db' \<and>
      (\<forall>i \<in> {i. settled_row db1 i \<and> i \<notin> claim_id ` set (cb_claims batch)} \<union> claim_id ` set (cb_claims batch). settled_row db' i)"
    by (rule validateClaims_all [OF run covered stands dist]) auto
  then obtain db' where db': "validateClaims run ?e (cb_claims batch) db1 = Inr db'"
    and all: "settled_row db1 i \<or> i \<in> claim_id ` set (cb_claims batch) \<Longrightarrow> settled_row db' i" for i
    by blast
  have "settled_row (validateBatch chainId run (ds_db T)) (rq_orderId d)"
  proof (cases "cb_claims batch = []")
    case True
    then show ?thesis using settled row claim by (auto simp: validateBatch_def)
  next
    case False
    then have "validateBatch chainId run (ds_db T) = db'"
      using claim db' run snapshot by (simp add: validateBatch_def Let_def undisturbed_def)
    then show ?thesis using all [of "rq_orderId d"] settled row by auto
  qed
  then show ?thesis by (simp add: settled_row_def)
qed

end
