(* ===== verification/Order_Demand_Samples.thy ===== *)
theory Order_Demand_Samples
  imports Order_Demand_Progress
begin

text \<open>
  One order on chain 1 that an observation requires to be validated: admitted, claimed by one executor, claimed by
  another once the lease has expired, or validated in time.
\<close>

definition demand_order :: OrderRow where
  "demand_order =
     \<lparr> or_chainId = 1, or_collectionId = 7, or_kind = ''seaport'', or_validUntil = Some 1000000, or_fillability = StatusNoBalance, or_sourceStatus = SourceActive,
       or_validatedAt = 0, or_revision = 5 \<rparr>"

definition demand_db0 :: "unit OrderDb" where
  "demand_db0 =
     \<lparr> od_chain = \<lparr> db_blocks = [], db_coverage = [], db_revisions = [(1, 3)], db_collections = [], db_facts = () \<rparr>,
       od_orders = [(''o1'', demand_order)], od_demand = [] \<rparr>"

definition demand_request :: OrderValidationRequest where
  "demand_request = observedOrderValidationRequest 1 ''o1'' 1000"

definition demand_db1 :: "unit OrderDb" where
  "demand_db1 = snd (projr (admitDemand demand_request 2 2 2000 demand_db0))"

definition first_claim :: "ClaimBatch \<times> unit OrderDb" where
  "first_claim = claimBatch 1 ''A'' 3000 (\<lambda>_. 3) demand_db1"

definition second_claim :: "ClaimBatch \<times> unit OrderDb" where
  "second_claim = claimBatch 1 ''B'' 200000 (\<lambda>_. 200) (snd first_claim)"

definition demand_evidence :: OrderValidationEvidence where
  "demand_evidence = \<lparr> ev_observedAt = 3500, ev_blockNumber = 50, ev_checkpoint = \<lparr> cp_chainId = 1, cp_revision = 3 \<rparr> \<rparr>"

definition demand_completions :: "(ClaimedOrderValidation \<times> OrderStatus \<times> SecondReads) list" where
  "demand_completions =
     map (\<lambda>c. (c, StatusFillable, \<lparr> rd_candidate = 4, rd_apply = 4, rd_unneeded = 4 \<rparr>)) (cb_claims (fst first_claim))"

definition demand_db4 :: "unit OrderDb" where
  "demand_db4 = snd (projr (completeBatch demand_completions demand_evidence 4000 (snd first_claim)))"

definition demand_sys0 :: "unit DemandSystem" where
  "demand_sys0 = \<lparr> ds_db = demand_db0, ds_issued = {}, ds_owners = {}, ds_owed = {}, ds_proofs = {} \<rparr>"

definition demand_sys1 :: "unit DemandSystem" where
  "demand_sys1 = demand_sys0\<lparr> ds_db := demand_db1, ds_owed := {demand_request} \<rparr>"

definition demand_sys2 :: "unit DemandSystem" where
  "demand_sys2 = demand_sys1\<lparr> ds_db := snd first_claim, ds_issued := set (cb_claims (fst first_claim)), ds_owners := {''A''},
     ds_owed := ds_owed demand_sys1 - {q. rq_chainId q = 1 \<and> rq_orderId q \<in> scanned_orders 1 3000 demand_db1 \<and>
                                          validationCandidate demand_db1 3 q = None} \<rparr>"

definition demand_sys3 :: "unit DemandSystem" where
  "demand_sys3 = demand_sys2\<lparr> ds_db := snd second_claim,
     ds_issued := ds_issued demand_sys2 \<union> set (cb_claims (fst second_claim)), ds_owners := {''B'', ''A''},
     ds_owed := ds_owed demand_sys2 - {q. rq_chainId q = 1 \<and> rq_orderId q \<in> scanned_orders 1 200000 (snd first_claim) \<and>
                                          validationCandidate (snd first_claim) 200 q = None} \<rparr>"

definition demand_effect :: "OrderValidationRequest set \<times> (string \<times> int \<times> OrderValidationEvidence) set" where
  "demand_effect = completions_effect demand_evidence 4000 demand_completions
     (\<lparr> cc_applied = 0, cc_covered = 0, cc_resolvedUnneeded = 0, cc_followup = 0, cc_lostClaims = 0 \<rparr>, snd first_claim)"

definition demand_sys4 :: "unit DemandSystem" where
  "demand_sys4 = demand_sys2\<lparr> ds_db := demand_db4, ds_owed := ds_owed demand_sys2 - fst demand_effect,
     ds_proofs := ds_proofs demand_sys2 \<union> snd demand_effect \<rparr>"

lemma demand_sys0_fresh: "fresh_demand demand_sys0"
  by (simp add: fresh_demand_def demand_sys0_def demand_db0_def)

lemma demand_run_1: "demand_run demand_sys0 demand_sys1"
proof -
  have "admitDemand demand_request 2 2 2000 (ds_db demand_sys0) = Inr (PendingDemand, demand_db1)"
    unfolding demand_sys0_def by code_simp
  from demand_step.admit [OF this] have "demand_step demand_sys0 demand_sys1"
    by (simp add: demand_sys1_def demand_sys0_def)
  then show ?thesis by (simp add: demand_run_def)
qed

lemma demand_run_step: "demand_run S T \<Longrightarrow> demand_step T U \<Longrightarrow> demand_run S U"
  by (simp add: demand_run_def rtranclp.rtrancl_into_rtrancl)

lemma demand_run_2: "demand_run demand_sys0 demand_sys2"
proof (rule demand_run_step [OF demand_run_1])
  have "claimBatch 1 ''A'' 3000 (\<lambda>_. 3) (ds_db demand_sys1) = (fst first_claim, snd first_claim)"
    by (simp add: first_claim_def demand_sys1_def)
  from demand_step.claim [OF this] show "demand_step demand_sys1 demand_sys2"
    by (simp add: demand_sys2_def demand_sys1_def demand_sys0_def)
qed

lemma demand_run_3: "demand_run demand_sys0 demand_sys3"
proof (rule demand_run_step [OF demand_run_2])
  have "claimBatch 1 ''B'' 200000 (\<lambda>_. 200) (ds_db demand_sys2) = (fst second_claim, snd second_claim)"
    by (simp add: second_claim_def demand_sys2_def)
  from demand_step.claim [OF this] show "demand_step demand_sys2 demand_sys3"
    by (simp add: demand_sys3_def demand_sys2_def demand_sys1_def demand_sys0_def)
qed

lemma demand_run_4: "demand_run demand_sys0 demand_sys4"
proof (rule demand_run_step [OF demand_run_2])
  have "completeBatch demand_completions demand_evidence 4000 (snd first_claim) =
      Inr (fst (projr (completeBatch demand_completions demand_evidence 4000 (snd first_claim))), demand_db4)"
    by code_simp
  then have "completeBatch demand_completions demand_evidence 4000 (ds_db demand_sys2) =
      Inr (fst (projr (completeBatch demand_completions demand_evidence 4000 (snd first_claim))), demand_db4)"
    by (simp add: demand_sys2_def)
  from demand_step.complete [OF this, of "fst demand_effect" "snd demand_effect"] show "demand_step demand_sys2 demand_sys4"
    by (simp add: demand_sys4_def demand_sys2_def demand_effect_def demand_completions_def image_image)
qed

theorem no_validation_demand_is_lost_witness:
  "\<exists>d. getDemand demand_db1 1 ''o1'' = Some d \<and> dm_pending d \<and> 1000 \<le> rq_requiredAt d \<and> dm_anchorIndependent d"
  using no_validation_demand_is_lost [OF demand_sys0_fresh demand_run_1, of demand_request]
  by (simp add: demand_sys1_def demand_request_def observedOrderValidationRequest_def)

theorem only_the_holder_writes_witness:
  "snd (releaseClaims (cb_claims (fst first_claim)) 4000 (snd second_claim)) = snd second_claim \<and>
   cb_claims (fst second_claim) \<noteq> [] \<and> cb_claims (fst first_claim) \<noteq> []"
proof -
  let ?c = "hd (cb_claims (fst first_claim))" and ?h = "hd (cb_claims (fst second_claim))"
  have first: "cb_claims (fst first_claim) = [?c]" and second: "cb_claims (fst second_claim) = [?h]" by code_simp+
  have "?h \<in> ds_issued demand_sys3" "?c \<in> ds_issued demand_sys3"
    by (simp_all add: demand_sys3_def demand_sys2_def) (metis first second list.set_intros(1))+
  moreover have "?c \<noteq> ?h" by code_simp
  moreover have "getDemand (ds_db demand_sys3) (rq_chainId (cl_demand ?h)) (rq_orderId (cl_demand ?h)) = Some (cl_demand ?h)"
  proof -
    have "getDemand (snd second_claim) (rq_chainId (cl_demand ?h)) (rq_orderId (cl_demand ?h)) = Some (cl_demand ?h)" by code_simp
    then show ?thesis by (simp add: demand_sys3_def)
  qed
  moreover have "rq_orderId (cl_demand ?c) = rq_orderId (cl_demand ?h)" by code_simp
  ultimately have "snd (releaseClaims [?c] 4000 (ds_db demand_sys3)) = ds_db demand_sys3"
    using only_the_holder_writes [OF demand_sys0_fresh demand_run_3, of ?h ?c "cl_demand ?h"] by blast
  then have "snd (releaseClaims [?c] 4000 (snd second_claim)) = snd second_claim" by (simp add: demand_sys3_def)
  then show ?thesis using first second by (metis list.distinct(1))
qed

theorem covered_request_was_validated_witness:
  "isCovered demand_db4 5 demand_request 6 \<and>
   (\<exists>evidence. (''o1'', 6, evidence) \<in> ds_proofs demand_sys4 \<and> validationProofSatisfies evidence demand_request \<and>
      cp_chainId (ev_checkpoint evidence) = 1 \<and> cp_revision (ev_checkpoint evidence) = 3)"
proof -
  have covered: "isCovered demand_db4 5 demand_request 6" by code_simp
  have revision: "cp_revision (captureChainSyncCheckpoint (od_chain demand_db4) 1) = 3" by code_simp
  have fields: "rq_orderId demand_request = ''o1''" "rq_chainId demand_request = 1"
    by (simp_all add: demand_request_def observedOrderValidationRequest_def)
  have db: "ds_db demand_sys4 = demand_db4" by (simp add: demand_sys4_def)
  have "isCovered (ds_db demand_sys4) 5 demand_request 6" using covered by (simp only: db)
  from covered_request_was_validated [OF demand_sys0_fresh demand_run_4 this]
  show ?thesis using covered revision by (simp add: fields db)
qed

definition demand_batch :: "unit BatchRun" where
  "demand_batch =
     \<lparr> br_owner = ''A'', br_clock = (\<lambda>i. 3000 + 500 * int i), br_seconds = (\<lambda>_. 3), br_snapshot = Inr (3100, 50),
       br_stops = (\<lambda>_. False), br_validate = (\<lambda>_. Inr StatusFillable),
       br_reads = (\<lambda>_. \<lparr> rd_candidate = 4, rd_apply = 4, rd_unneeded = 5 \<rparr>), br_finish = Inr (), br_deferral = (\<lambda>_. False),
       br_other = (\<lambda>_ db. db) \<rparr>"

theorem undisturbed_batch_settles_its_rows_witness:
  "\<exists>d. map_of (od_demand (validateBatch 1 demand_batch demand_db1)) ''o1'' = Some d \<and> \<not> dm_pending d"
proof -
  let ?rows = "claimable_rows (selectDue 1 3000 demand_db1)"
  have rows: "?rows = [snd (hd (od_demand demand_db1))]" by code_simp
  have key: "rq_orderId (snd (hd (od_demand demand_db1))) = ''o1''" by code_simp
  have need: "rq_requiredAt (snd (hd (od_demand demand_db1))) = 1000" "rq_minimumBlock (snd (hd (od_demand demand_db1))) = None"
    by code_simp+
  have "undisturbed demand_batch" by (simp add: undisturbed_def demand_batch_def demand_leaseMs_def)
  moreover have "br_clock demand_batch 0 = 3000" "br_snapshot demand_batch = Inr (3100, 50)" "ds_db demand_sys1 = demand_db1"
    by (simp_all add: demand_batch_def demand_sys1_def)
  ultimately show ?thesis
    using undisturbed_batch_settles_its_rows [OF demand_sys0_fresh demand_run_1, of demand_batch 3100 50 1
        "snd (hd (od_demand demand_db1))"]
    by (simp add: rows need key)
qed

end
