(* ===== verification/Spec2Isabelle.thy ===== *)
theory Spec2Isabelle
  imports Policy_Wallet_Samples Offer_Price Competition_Presets OpenSea_Criteria Registry_Samples
    Bidder_Samples Limiter_Samples Retry Refresh_Schedule Command_Samples
    Failed_Cancellations Offer_Snapshot_Samples Reorg_Samples Nft_Samples Sync_Gap_Samples
    Order_Demand_Samples
begin

text \<open>
  A verification library for two cores of ArtGod.  The trading core (\<^verbatim>\<open>src/trading\<close> and the parts of
  \<^verbatim>\<open>src/shared/trading\<close> it rests on) keeps WETH bids on OpenSea for the jobs a user declares, within
  the authority of a signed mandate.  The chain synchronisation of the indexer (\<^verbatim>\<open>src/indexer\<close>) keeps
  tables of block headers, transfers and balances in line with a chain that may reorganise.

  \<^bold>\<open>The trading core and how its parts interact.\<close>  A job declares a target (a token, a collection or a trait
  combination), a floor, a ceiling and a bid delta.  Jobs are registered with the bidder, which
  refreshes them: on a periodic scan, on a market event that concerns them, on activation, or for a user
  command.  A refresh reads the market through the bidding service, computes the desired bid, places it
  if needed and then cancels the bids it replaces.  Every placement and off-chain cancellation asks the
  policy wallet for a signature; the wallet signs only what the mandate and the session allow.  All
  marketplace calls pass a token-bucket rate limiter and are retried with backoff.  The offers of a collection
  are read through a snapshot service, which polls the watched collections and coalesces requests.

  \<^bold>\<open>Chain synchronisation and how its parts interact.\<close>  A worker reads a range of blocks over RPC, checks
  that its headers form one chain, and commits headers, facts, coverage and follow-up jobs in one
  transaction.  Which ranges are read is decided by realtime and backfill jobs, by the gap scheduler, which
  looks for uncovered blocks of live collections and retains them for repair, and by the recovery from a
  reorganisation.  The recovery notices that a stored block is no longer canonical, proves the greatest common
  ancestor of the stored and the canonical chain, rolls the tables back to it and queues the rolled back
  blocks for a resync.  The processes share only the database; revisions and compared updates reject
  work that was started before a rollback.  Follow-up jobs wait in an outbox until a drainer has
  published them.  What chain events and observations require of an order is kept in a demand table; executors
  claim its rows under leases, validate the orders on a snapshot of the chain and commit the results with their
  evidence.

  \<^bold>\<open>Theories and sources.\<close>  Paths are relative to \<^verbatim>\<open>src\<close>.

    \<^item> \<open>Prelude\<close>: results of fallible code (\<open>Inl\<close> an error, \<open>Inr\<close> a value), JavaScript numbers,
      strings and parsed JSON values, association lists.  \<open>Json_Text\<close>: \<open>JSON.stringify\<close> on
      the strings and arrays the code uses as keys, its injectivity, removal of repeated keys and
      stable sorting with a comparator.
    \<^item> \<open>Job_Model\<close>: \<^verbatim>\<open>trading/src/domain/market/strategy/job.ts\<close>; the declaration and runtime
      state of a job as records.
    \<^item> \<open>Mandate\<close>: \<^verbatim>\<open>trading/src/domain/bidding-mandate.ts\<close>; parsing of the native authority, its
      snapshot, and the authorisation of an offer.  Parsing yields only well-formed mandates, the snapshot
      round-trips, authorisation is characterised exactly.
    \<^item> \<open>Policy_Wallet\<close>, \<open>Policy_Wallet_Samples\<close>:
      \<^verbatim>\<open>trading/src/adapters/opensea/open-sea-policy-wallet.ts\<close> and
      \<^verbatim>\<open>shared/trading/open-sea-mainnet-security-policy.ts\<close>; the validators of a typed-data payload
      and the signing session as a step relation in which the SDK may send any payload at any time.  The
      locale \<open>one_shot_signing\<close> states the contract of a session and is interpreted on it.
    \<^item> \<open>Offer_Price\<close>: \<^verbatim>\<open>shared/trading/open-sea-offer-price.ts\<close> and
      \<^verbatim>\<open>shared/trading/bidding-price-tier-pricing.ts\<close>; OpenSea's price grid, bid deltas and price
      tiers.  The locale \<open>price_grid\<close> is what pricing relies on of a grid; OpenSea's rounding functions
      are shown to meet it.
    \<^item> \<open>Trait_Criteria\<close>, \<open>Competition_Presets\<close>, \<open>OpenSea_Criteria\<close>: the trait criteria of offers
      (\<^verbatim>\<open>shared/trading/offer-trait-criteria.ts\<close>, \<^verbatim>\<open>trait-competition.ts\<close>,
      \<^verbatim>\<open>open-sea-bidding-offers.ts\<close>): identity, parsing, matching, normal forms, and their extraction
      from raw offers without losing a constraint.
    \<^item> \<open>Bidder_Pricing\<close>, \<open>Bidder_Core\<close>, \<open>Bidder_Execute\<close>, \<open>Bidder_Samples\<close>:
      \<^verbatim>\<open>trading/src/application/use-cases/bidding/bidder.ts\<close>, one refresh of a job (\<open>executeJob\<close>) and
      the cancellation of its offers.  The bidding service, the balance service, the runtime-state port and
      the clock are the record \<open>Ports\<close>, functions of the log of all effects so far, so a port may answer
      each call differently; the theorems hold for all ports.
    \<^item> \<open>Bidder_Registry\<close>, \<open>Registry_Samples\<close>: the same file, registration, indexes, overrides and the
      selection of the jobs a market event refreshes.  In every
      reachable state, rejected registrations included, the indexes describe the jobs whose registration
      was not rejected, so the indexed selection equals a search over those jobs.
    \<^item> \<open>Refresh_Schedule\<close>: the same file, scheduling of refreshes as a step relation: coalescing of
      requests, the semaphore and the job mutexes, admission and shutdown.
    \<^item> \<open>Command_Outbox\<close>: \<^verbatim>\<open>trading/src/adapters/jobs/sqlite-bidding-job-command-repository.ts\<close>; the
      command table and its SQL statements as list functions.  The locale \<open>ordered_outbox\<close> is the
      contract of a command queue, interpreted on the table.
    \<^item> \<open>Command_Reconciler\<close>, \<open>Command_Samples\<close>:
      \<^verbatim>\<open>trading/src/application/use-cases/bidding/bidding-job-command-reconciler.ts\<close>; user commands applied
      to the bidder, on top of the queue's contract and the registry.
    \<^item> \<open>Failed_Cancellations\<close>:
      \<^verbatim>\<open>trading/src/application/use-cases/bidding/failed-offer-cancellation-reconciler.ts\<close>; the
      recovery of cancellations that failed.  The repository and the bidding service are functions of the
      calls made so far; a cancellation is recorded as completed only once the order is known to be gone.
    \<^item> \<open>Offer_Snapshots\<close>, \<open>Offer_Snapshot_Flights\<close>, \<open>Offer_Snapshot_Results\<close>, \<open>Offer_Snapshot_Samples\<close>:
      \<^verbatim>\<open>trading/src/application/use-cases/bidding/collection-offer-snapshot-service.ts\<close>; the snapshot service
      as a step relation over its calls, its timer and the answers of the source, in any order.  The locale
      \<open>snapshot_invariant\<close> is the scheme of an invariant of the service, interpreted on each of them.
    \<^item> \<open>Rate_Limiter\<close>, \<open>Limiter_Samples\<close>:
      \<^verbatim>\<open>trading/src/adapters/support/token-bucket-rate-limiter.ts\<close>; \<open>Retry\<close>: \<^verbatim>\<open>retry.ts\<close> beside it.

    \<^item> \<open>Chain_Headers\<close>: \<^verbatim>\<open>indexer/src/application/sync-blocks.ts\<close>,
      \<^verbatim>\<open>indexer/src/application/reorg-fork.ts\<close>, \<^verbatim>\<open>indexer/src/domain/chain-sync.ts\<close>,
      \<^verbatim>\<open>sync-result.ts\<close>, \<^verbatim>\<open>reorg-fork.ts\<close>; reading a window of headers from a node whose
      chain may change between calls, and the proof of a fork.
    \<^item> \<open>Chain_Store\<close>: \<^verbatim>\<open>indexer/src/infra/storage/sqlite.ts\<close>, \<^verbatim>\<open>sqlite-chain-revisions.ts\<close>,
      \<^verbatim>\<open>sqlite-canonical-checks.ts\<close>; headers, coverage, revisions and pending checks as lists under their
      primary keys, \<open>persistSyncResult\<close> and \<open>rollbackFromBlock\<close>.  The tables of facts are the
      parameter \<open>FactsPort\<close>.
    \<^item> \<open>Nft_Ownership\<close>, \<open>Nft_Results\<close>, \<open>Nft_Samples\<close>: the same file, transfers, balances and ownership
      checkpoints, which define the port; the remaining fact tables are the parameter \<open>RestPort\<close>.
    \<^item> \<open>Reorg_Recovery\<close>, \<open>Reorg_System\<close>, \<open>Reorg_Results\<close>, \<open>Reorg_Samples\<close>:
      \<^verbatim>\<open>indexer/src/domain/reorg-recovery.ts\<close>, \<^verbatim>\<open>indexer/src/infra/storage/sqlite-reorg-recoveries.ts\<close>,
      \<^verbatim>\<open>indexer/src/application/reorg-recovery.ts\<close>; the journal of a recovery, its table, and all
      processes that write it as a step relation in which each may act on an outdated read; ranges are
      completed by the commit of their result, and a ghost component keeps the blocks that rollbacks
      removed, each with the head that the rollback observed.
    \<^item> \<open>Sync_Gaps\<close>, \<open>Sync_Gap_Search\<close>: \<^verbatim>\<open>indexer/src/domain/sync-gap-repair.ts\<close>,
      \<^verbatim>\<open>indexer/src/infra/storage/sqlite-sync-gaps.ts\<close>; the searches for missing blocks, the table of
      scan progress and the batches of repairs.
    \<^item> \<open>Sync_Gap_Scheduler\<close>, \<open>Sync_Gap_Invariant\<close>, \<open>Sync_Gap_Results\<close>, \<open>Sync_Gap_Samples\<close>:
      \<^verbatim>\<open>indexer/src/application/sync-gap-scheduler.ts\<close>; every operation of the scheduler, with failing
      accesses and other processes writing between any two of its accesses.  The locale \<open>gap_search\<close> is the
      contract of a search, interpreted on both searches of the store.
    \<^item> \<open>Queue_Outbox\<close>: \<^verbatim>\<open>indexer/src/infra/queue/sqlite-queue-outbox.ts\<close>,
      \<^verbatim>\<open>indexer/src/application/queue-outbox/drainer.ts\<close>; the outbox table and a run of the drainer.
    \<^item> \<open>Sync_Range_Commit\<close>: \<^verbatim>\<open>indexer/src/infra/storage/sqlite-sync-range-commit.ts\<close> and the planning
      part of \<^verbatim>\<open>indexer/src/application/automatic-sync-executor.ts\<close>; the transaction that composes the
      tables, the outbox, the gap repairs and the recovery.
    \<^item> \<open>Order_Demand\<close>, \<open>Order_Demand_Invariant\<close>, \<open>Order_Demand_Results\<close>, \<open>Order_Demand_Progress\<close>,
      \<open>Order_Demand_Samples\<close>: \<^verbatim>\<open>indexer/src/domain/order-validation-demand.ts\<close>,
      \<^verbatim>\<open>indexer/src/infra/orders/sqlite-order-validation-demand.ts\<close>, the statements of
      \<^verbatim>\<open>indexer/src/infra/domain/orders.ts\<close> it calls, and
      \<^verbatim>\<open>indexer/src/application/orders/validate-order-demand.ts\<close>; the demand table, one batch of the
      executor, and all processes on the table as a step relation.

  \<^bold>\<open>What the theorems show of the trading core.\<close>  Safety of signing (only mandated offers, one signature per session, none
  after it has settled); safety of bidding (placements within floor, ceiling and balance; a bid is placed
  before the one it replaces is cancelled; only the job's own offers are cancelled); exact functional
  results of a refresh and of a cancellation, on the failing branches too; invariants of the registry, the
  scheduler and the rate limiter over all reachable states; absence of deadlock and of lost requests in the
  scheduler, with the one gap in which a request is lost; bounds on rates, prices and delays; round trips and
  normal forms of the data the parts exchange; in-order, boundedly retried processing of user
  commands and the state of the registry after each; at most one fetch of a collection's offers at a time,
  forced refreshes answered from a fetch that began after them, every awaited refresh answered, and no fetch
  after shutdown.

  \<^bold>\<open>What the theorems show of the synchronisation.\<close>  A fetched window is a contiguous part of one chain
  the node had; the proven fork is the greatest common ancestor; the journal accounts for every block up to the
  observed head that a rollback removed until a committed result contains it, whatever the processes
  interleave; after a committed
  rollback every stored header is canonical, and no work from before it can be committed; the resync
  covers its window and ends.  Rolling back a sync result restores the ERC1155 balances, the paged undo visits
  every transfer once, ERC721 owners do not depend on the order of delivery; transfers that were never projected
  are taken back too, which is a fault.  The gap searches are exact, the scheduler and the commits lose no
  missing block up to the lowest head reported since the checks began, and required follow-ups stay in the outbox until the broker has accepted them.  No request
  to validate an order is lost, only the holder of a lease writes its row, coverage rests on evidence that
  still counts, and an undisturbed batch settles its rows.

  \<^bold>\<open>Parameters, bounds and fuel.\<close>  No definition uses fuel: the loops that are not structural
  (\<open>drainLoop\<close>, \<open>retry_loop\<close>, \<open>getBlocks\<close>, \<open>undoPages\<close>, \<open>planLoop\<close>, \<open>searchNewest\<close>) have termination
  proofs.  Third-party code is a parameter: viem's
  address checksum and ether parsing, the host's collation and floating-point rounding, the signer, the
  locks of \<open>async-mutex\<close> (a lock is granted to any waiter once it is free), the RPC node, the message
  broker and random ids.  A transaction is atomic and a SQL statement is a function on the list of rows; the
  primary and unique keys are enforced by the statements themselves.  Integers are
  \<open>bigint\<close>s in the source and \<open>int\<close> here; \<open>number\<close> values are rationals with NaN and the infinities,
  and their safe-integer checks are written out.

  \<^bold>\<open>Not modelled.\<close>  Logging and telemetry (their callbacks are wrapped so that they cannot throw);
  the scan timer and the price bootstrap of the bidder; the OpenSea HTTP and SDK adapters; in the indexer, the
  tables of fills, activities, metadata and extensions, the ingestion of orders and their revalidation by maker, the
  polling loop of the demand executor, the decoding of logs, the bootstrap of a collection, off-chain ingestion and
  the runtimes that wire the parts together; the backend, frontend and desktop shell.
\<close>

end
